(* ===== verification/Prelude.thy ===== *)
theory Prelude
  imports Main "HOL-Library.Code_Target_Nat"
begin

section \<open>Prelude: machine arithmetic, C strings and fixed-size buffers\<close>

text \<open>
  This theory holds what every component of the model shares: the limits of the C
  integer types, unsigned arithmetic with the wrap-around written out, the part of
  the C library that the source uses on NUL-terminated text (\<open>strlen\<close>, \<open>strnlen\<close>,
  \<open>strchr\<close>, the character classes of the C locale, \<open>strtoull\<close> and the decimal
  conversions of \<open>snprintf\<close>), and fixed-size character arrays.

  Bytes are values of type \<open>char\<close>, so a literal such as \<open>''success''\<close> is a byte list.
  A list stands for the memory a pointer points to: a C string is what comes before
  its first NUL byte, or before the end of the list.  Unsigned integers are \<open>nat\<close>,
  bounded by the limits below; \<open>u32\<close> and \<open>u64\<close> reduce a result to its width.
\<close>

named_theorems cstring_simps \<open>rewrite rules for C strings\<close>
named_theorems buffer_simps \<open>rewrite rules for fixed-size buffers\<close>

type_synonym byte = char
type_synonym bytes = "char list"

text \<open>A \<open>char array[N]\<close> field or variable: a list of exactly \<open>N\<close> bytes.\<close>
type_synonym cbuf = "char list"

subsection \<open>Limits and unsigned arithmetic\<close>

abbreviation UINT8_MAX :: nat where "UINT8_MAX \<equiv> 255"
abbreviation UINT16_MAX :: nat where "UINT16_MAX \<equiv> 65535"
abbreviation UINT32_MAX :: nat where "UINT32_MAX \<equiv> 4294967295"
abbreviation UINT64_MAX :: nat where "UINT64_MAX \<equiv> 18446744073709551615"

text \<open>Both build targets (x86\_64 and AArch64) have a 64-bit \<open>size_t\<close>.\<close>
abbreviation SIZE_MAX :: nat where "SIZE_MAX \<equiv> 18446744073709551615"

definition u32 :: "nat \<Rightarrow> nat" where
  "u32 n = n mod 4294967296"

definition u64 :: "nat \<Rightarrow> nat" where
  "u64 n = n mod 18446744073709551616"

text \<open>Unsigned subtraction: what \<open>a - b\<close> is for operands of the width.\<close>

definition u32_sub :: "nat \<Rightarrow> nat \<Rightarrow> nat" where
  "u32_sub a b = (a + (4294967296 - b mod 4294967296)) mod 4294967296"

definition u64_sub :: "nat \<Rightarrow> nat \<Rightarrow> nat" where
  "u64_sub a b = (a + (18446744073709551616 - b mod 18446744073709551616))
     mod 18446744073709551616"

lemma u32_id [simp]: "n \<le> UINT32_MAX \<Longrightarrow> u32 n = n"
  by (simp add: u32_def)

lemma u64_id [simp]: "n \<le> UINT64_MAX \<Longrightarrow> u64 n = n"
  by (simp add: u64_def)

lemma u32_le: "u32 n \<le> UINT32_MAX"
  using mod_less_divisor [of 4294967296 n] by (simp add: u32_def)

lemma u64_le: "u64 n \<le> UINT64_MAX"
  using mod_less_divisor [of 18446744073709551616 n] by (simp add: u64_def)

lemma u32_sub_id [simp]:
  assumes "b \<le> a" and "a \<le> UINT32_MAX"
  shows "u32_sub a b = a - b"
proof -
  have "a + (4294967296 - b mod 4294967296) = (a - b) + 4294967296"
    using assms by simp
  then have "u32_sub a b = ((a - b) + 4294967296) mod 4294967296"
    by (simp only: u32_sub_def)
  also have "\<dots> = (a - b) mod 4294967296" by (rule mod_add_self2)
  finally show ?thesis using assms by simp
qed

lemma u64_sub_id [simp]:
  assumes "b \<le> a" and "a \<le> UINT64_MAX"
  shows "u64_sub a b = a - b"
proof -
  have "a + (18446744073709551616 - b mod 18446744073709551616)
      = (a - b) + 18446744073709551616"
    using assms by simp
  then have "u64_sub a b = ((a - b) + 18446744073709551616) mod 18446744073709551616"
    by (simp only: u64_sub_def)
  also have "\<dots> = (a - b) mod 18446744073709551616" by (rule mod_add_self2)
  finally show ?thesis using assms by simp
qed

text \<open>The overflow test \<open>MAX / a < b\<close> that the source writes before \<open>a * b\<close>.\<close>

lemma mult_le_of_div:
  assumes "\<not> M div a < (b::nat)"
  shows "a * b \<le> M"
proof -
  have "a * b \<le> a * (M div a)" using assms by (simp add: mult_le_mono2)
  also have "\<dots> \<le> M" by (simp add: mult.commute)
  finally show ?thesis .
qed

lemma div_less_iff_overflow:
  assumes "0 < (a::nat)"
  shows "M div a < b \<longleftrightarrow> M < a * b"
  using assms by (simp add: div_less_iff_less_mult mult.commute)

subsection \<open>NUL-terminated strings\<close>

abbreviation NUL :: char where "NUL \<equiv> CHR 0x00"

definition cstr :: "bytes \<Rightarrow> string" where
  "cstr s = takeWhile (\<lambda>c. c \<noteq> NUL) s"

definition strlen :: "bytes \<Rightarrow> nat" where
  "strlen s = length (cstr s)"

definition strnlen :: "bytes \<Rightarrow> nat \<Rightarrow> nat" where
  "strnlen s n = length (cstr (take n s))"

definition strcmp_eq :: "bytes \<Rightarrow> bytes \<Rightarrow> bool" where
  "strcmp_eq a b \<longleftrightarrow> cstr a = cstr b"

lemma cstr_Nil [simp]: "cstr [] = []"
  by (simp add: cstr_def)

lemma cstr_Cons [cstring_simps]: "cstr (c # s) = (if c = NUL then [] else c # cstr s)"
  by (simp add: cstr_def)

lemma cstr_no_NUL [simp]: "NUL \<notin> set (cstr s)"
  by (auto simp: cstr_def dest: set_takeWhileD)

lemma cstr_id: "NUL \<notin> set s \<Longrightarrow> cstr s = s"
  by (auto simp: cstr_def takeWhile_eq_all_conv)

lemma cstr_idem [simp]: "cstr (cstr s) = cstr s"
  by (simp add: cstr_id)

lemma cstr_append_NUL [simp]: "cstr (s @ NUL # t) = cstr s"
  by (induction s) (auto simp: cstr_def)

lemma length_cstr_le: "length (cstr s) \<le> length s"
  by (simp add: cstr_def length_takeWhile_le)

lemma cstr_append: "NUL \<notin> set s \<Longrightarrow> cstr (s @ t) = s @ cstr t"
  by (induction s) (auto simp: cstr_def)

lemma cstr_take: "cstr (take n s) = take n (cstr s)"
proof (induction s arbitrary: n)
  case (Cons c s)
  then show ?case by (cases n) (simp_all add: cstr_def)
qed simp

lemma strnlen_min: "strnlen s n = min (strlen s) n"
  by (simp add: strnlen_def strlen_def cstr_take min.commute)

lemma take_cstr_prefix: "n \<le> strlen s \<Longrightarrow> take n s = take n (cstr s)"
proof (induction s arbitrary: n)
  case (Cons c s)
  then show ?case by (cases n) (auto simp: strlen_def cstr_def split: if_splits)
qed simp

lemma take_strlen [cstring_simps]: "take (strlen s) s = cstr s"
  by (simp add: take_cstr_prefix strlen_def)

lemma take_strnlen [cstring_simps]: "take (strnlen s n) s = take n (cstr s)"
proof -
  have "take (strnlen s n) s = take (strnlen s n) (cstr s)"
    by (rule take_cstr_prefix) (simp add: strnlen_min)
  then show ?thesis by (simp add: strnlen_min strlen_def min_def)
qed

lemma strnlen_le_length: "strnlen s n \<le> length s"
  using length_cstr_le [of s] by (simp add: strnlen_min strlen_def min_def)

lemma strlen_id: "NUL \<notin> set s \<Longrightarrow> strlen s = length s"
  by (simp add: strlen_def cstr_id)

subsection \<open>Character classes of the C locale\<close>

definition isspace :: "char \<Rightarrow> bool" where
  "isspace c \<longleftrightarrow> (let n = of_char c :: nat in n = 32 \<or> (9 \<le> n \<and> n \<le> 13))"

definition isalpha :: "char \<Rightarrow> bool" where
  "isalpha c \<longleftrightarrow> (let n = of_char c :: nat in (65 \<le> n \<and> n \<le> 90) \<or> (97 \<le> n \<and> n \<le> 122))"

definition isdigit :: "char \<Rightarrow> bool" where
  "isdigit c \<longleftrightarrow> (let n = of_char c :: nat in 48 \<le> n \<and> n \<le> 57)"

text \<open>The value of a digit in bases up to 16, as \<open>strtoull\<close> reads it.\<close>

definition digit_val :: "char \<Rightarrow> nat option" where
  "digit_val c =
     (let n = of_char c :: nat in
      if 48 \<le> n \<and> n \<le> 57 then Some (n - 48)
      else if 97 \<le> n \<and> n \<le> 122 then Some (n - 87)
      else if 65 \<le> n \<and> n \<le> 90 then Some (n - 55)
      else None)"

definition is_base_digit :: "nat \<Rightarrow> char \<Rightarrow> bool" where
  "is_base_digit b c = (case digit_val c of None \<Rightarrow> False | Some d \<Rightarrow> d < b)"

definition digits_value :: "nat \<Rightarrow> string \<Rightarrow> nat" where
  "digits_value b ds = foldl (\<lambda>acc c. acc * b + the (digit_val c)) 0 ds"

lemma not_isspace_NUL [simp]: "\<not> isspace NUL"
  by code_simp

lemma not_base_digit_NUL [simp]: "\<not> is_base_digit b NUL"
proof -
  have "digit_val NUL = None" by code_simp
  then show ?thesis by (simp add: is_base_digit_def)
qed

lemma isdigit_digit_val: "isdigit c \<Longrightarrow> digit_val c = Some (of_char c - 48)"
  by (simp add: isdigit_def digit_val_def Let_def)

lemma isdigit_not_isspace: "isdigit c \<Longrightarrow> \<not> isspace c"
  by (auto simp: isdigit_def isspace_def Let_def)

lemma isdigit_not_isalpha: "isdigit c \<Longrightarrow> \<not> isalpha c"
  by (auto simp: isdigit_def isalpha_def Let_def)

lemma isalpha_not_isspace: "isalpha c \<Longrightarrow> \<not> isspace c"
  by (auto simp: isalpha_def isspace_def Let_def)

lemma base10_digit [simp]: "is_base_digit 10 c \<longleftrightarrow> isdigit c"
  by (auto simp: is_base_digit_def isdigit_def digit_val_def Let_def)

subsection \<open>\<open>strtoull\<close>\<close>

text \<open>
  \<open>strtoull s base\<close> returns the converted value, the text at \<open>*endptr\<close> and whether
  \<open>errno\<close> was set to \<open>ERANGE\<close>.  Leading white space and one sign are accepted; a minus
  sign negates the value modulo \<open>2 ^ 64\<close>.  With base 0 or 16 a prefix \<open>0x\<close> that is
  followed by a hexadecimal digit is skipped; with base 0 a leading \<open>0\<close> selects base 8.
  If there is no digit the end pointer is the start of the text.
\<close>

definition strtoull_sign :: "string \<Rightarrow> bool \<times> string" where
  "strtoull_sign s =
     (case s of [] \<Rightarrow> (False, [])
      | c # t \<Rightarrow> if c = CHR ''-'' then (True, t)
                 else if c = CHR ''+'' then (False, t) else (False, s))"

definition strtoull_prefix :: "nat \<Rightarrow> string \<Rightarrow> nat \<times> string" where
  "strtoull_prefix base s =
     (if (base = 0 \<or> base = 16) \<and> 3 \<le> length s \<and> s ! 0 = CHR ''0'' \<and>
         (s ! 1 = CHR ''x'' \<or> s ! 1 = CHR ''X'') \<and> is_base_digit 16 (s ! 2)
      then (16, drop 2 s)
      else if base = 0 then (if s \<noteq> [] \<and> hd s = CHR ''0'' then 8 else 10, s)
      else (base, s))"

definition strtoull :: "string \<Rightarrow> nat \<Rightarrow> nat \<times> string \<times> bool" where
  "strtoull s base =
     (let (neg, r) = strtoull_sign (dropWhile isspace s);
          (b, t) = strtoull_prefix base r;
          ds = takeWhile (is_base_digit b) t;
          rest = dropWhile (is_base_digit b) t;
          v = digits_value b ds
      in if ds = [] then (0, s, False)
         else if UINT64_MAX < v then (UINT64_MAX, rest, True)
         else (if neg then u64 (18446744073709551616 - v) else v, rest, False))"

lemma strtoull_sign_length: "length (snd (strtoull_sign s)) \<le> length s"
  by (auto simp: strtoull_sign_def split: list.split)

lemma strtoull_prefix_length: "length (snd (strtoull_prefix b s)) \<le> length s"
  by (simp add: strtoull_prefix_def)

lemma strtoull_value_le:
  assumes "strtoull s base = (v, rest, er)"
  shows "v \<le> UINT64_MAX"
  using assms u64_le
  by (auto simp: strtoull_def Let_def split: prod.splits if_splits)

text \<open>The end pointer never precedes the start: a conversion that consumed text made
  progress, which is what the loops over numbers need.\<close>

lemma strtoull_rest_length:
  assumes "strtoull s base = (v, rest, er)"
  shows "length rest \<le> length s" and "rest \<noteq> s \<Longrightarrow> length rest < length s"
proof -
  define q where "q = strtoull_sign (dropWhile isspace s)"
  define p where "p = strtoull_prefix base (snd q)"
  define ds where "ds = takeWhile (is_base_digit (fst p)) (snd p)"
  have rest: "rest = (if ds = [] then s else dropWhile (is_base_digit (fst p)) (snd p))"
    using assms by (auto simp: strtoull_def Let_def q_def p_def ds_def
        split: prod.splits if_splits)
  have le: "length (snd p) \<le> length s"
    using strtoull_prefix_length [of base "snd q"] strtoull_sign_length [of "dropWhile isspace s"]
      length_dropWhile_le [of isspace s] by (simp add: p_def q_def)
  have split: "length ds + length (dropWhile (is_base_digit (fst p)) (snd p)) = length (snd p)"
    unfolding ds_def by (metis length_append takeWhile_dropWhile_id)
  show "length rest \<le> length s" using rest le split by auto
  show "length rest < length s" if "rest \<noteq> s"
    using that rest le split by (cases "ds = []") (auto simp: length_greater_0_conv [symmetric]
        simp del: length_greater_0_conv)
qed

subsection \<open>Decimal output: \<open>%u\<close> and \<open>%05u\<close>\<close>

fun dec :: "nat \<Rightarrow> string" where
  "dec n = (if n < 10 then [char_of (48 + n)] else dec (n div 10) @ [char_of (48 + n mod 10)])"

declare dec.simps [simp del]

definition dec_pad :: "nat \<Rightarrow> nat \<Rightarrow> string" where
  "dec_pad w n = replicate (w - length (dec n)) (CHR ''0'') @ dec n"

lemma of_char_dec_digit: "d < 10 \<Longrightarrow> of_char (char_of (48 + d) :: char) = 48 + (d::nat)"
  by (simp add: of_char_of)

lemma isdigit_dec_digit: "d < 10 \<Longrightarrow> isdigit (char_of (48 + (d::nat)))"
  by (simp add: isdigit_def of_char_dec_digit del: of_char_of)

lemma digit_val_dec_digit: "d < 10 \<Longrightarrow> digit_val (char_of (48 + (d::nat))) = Some d"
  by (simp add: isdigit_digit_val isdigit_dec_digit of_char_dec_digit del: of_char_of)

lemma dec_isdigit: "\<forall>c \<in> set (dec n). isdigit c"
proof (induction n rule: dec.induct)
  case (1 n)
  then show ?case
    by (cases "n < 10") (simp_all add: dec.simps [of n] isdigit_dec_digit)
qed

lemma dec_not_Nil [simp]: "dec n \<noteq> []"
  by (subst dec.simps) simp

lemma isdigit_hd_dec [simp]: "isdigit (hd (dec n))"
  using dec_isdigit [of n] hd_in_set [OF dec_not_Nil [of n]] by blast

lemma digits_value_snoc: "digits_value b (ds @ [c]) = digits_value b ds * b + the (digit_val c)"
  by (simp add: digits_value_def)

lemma digits_value_dec: "digits_value 10 (dec n) = n"
proof (induction n rule: dec.induct)
  case (1 n)
  show ?case
  proof (cases "n < 10")
    case True
    then show ?thesis
      by (simp add: dec.simps [of n] digits_value_def digit_val_dec_digit)
  next
    case False
    with 1 show ?thesis
      by (simp add: dec.simps [of n] digits_value_snoc digit_val_dec_digit)
  qed
qed

lemma dec_inj: "dec m = dec n \<Longrightarrow> m = n"
  by (metis digits_value_dec)

lemma dec_no_NUL: "NUL \<notin> set (dec n)"
proof
  assume "NUL \<in> set (dec n)"
  then have "isdigit NUL" using dec_isdigit by blast
  moreover have "\<not> isdigit NUL" by code_simp
  ultimately show False by blast
qed

text \<open>A number of \<open>k\<close> digits is below \<open>10 ^ k\<close>, so printed text of bounded numbers fits
  the buffers the code declares.\<close>

lemma length_dec: "n < 10 ^ k \<Longrightarrow> 0 < k \<Longrightarrow> length (dec n) \<le> k"
proof (induction k arbitrary: n)
  case 0
  then show ?case by simp
next
  case (Suc k)
  show ?case
  proof (cases "n < 10")
    case True
    then show ?thesis by (simp add: dec.simps [of n])
  next
    case False
    then have "0 < k" using Suc.prems by (cases k) auto
    moreover have "n div 10 < 10 ^ k" using Suc.prems
      by (simp add: div_less_iff_less_mult mult.commute)
    ultimately have "length (dec (n div 10)) \<le> k" by (rule Suc.IH [rotated])
    then show ?thesis using False by (simp add: dec.simps [of n])
  qed
qed

text \<open>Reading back a printed number, followed by text that does not start with a digit.\<close>

lemma takeWhile_digits_append:
  assumes "\<forall>c \<in> set ds. isdigit c" and "rest = [] \<or> \<not> isdigit (hd rest)"
  shows "takeWhile isdigit (ds @ rest) = ds" and "dropWhile isdigit (ds @ rest) = rest"
  using assms by (auto simp: takeWhile_append dropWhile_append3 takeWhile_eq_Nil_iff
      dropWhile_eq_self_iff hd_append split: if_splits)

lemma strtoull_dec:
  assumes "n \<le> UINT64_MAX" and "rest = [] \<or> \<not> isdigit (hd rest)"
  shows "strtoull (dec n @ rest) 10 = (n, rest, False)"
proof -
  obtain c t where ct: "dec n = c # t" by (cases "dec n") auto
  then have dig: "isdigit c" using dec_isdigit [of n] by auto
  have skip: "dropWhile isspace (dec n @ rest) = dec n @ rest"
    using dig ct by (simp add: isdigit_not_isspace)
  have "\<not> isdigit (CHR ''-'')" and "\<not> isdigit (CHR ''+'')" by code_simp+
  then have sign: "strtoull_sign (dec n @ rest) = (False, dec n @ rest)"
    using dig ct by (auto simp: strtoull_sign_def)
  have fn: "is_base_digit 10 = isdigit" by (rule ext) simp
  show ?thesis
    using assms takeWhile_digits_append [OF dec_isdigit [of n] assms(2)]
    by (simp add: strtoull_def skip sign strtoull_prefix_def fn digits_value_dec)
qed

subsection \<open>Fixed-size buffers\<close>

definition buf_write :: "cbuf \<Rightarrow> nat \<Rightarrow> bytes \<Rightarrow> cbuf" where
  "buf_write buf off bs = take off buf @ bs @ drop (off + length bs) buf"

lemma length_buf_write [buffer_simps]:
  "off + length bs \<le> length buf \<Longrightarrow> length (buf_write buf off bs) = length buf"
  by (simp add: buf_write_def)

text \<open>A character array that holds a terminated string.\<close>

definition terminated :: "nat \<Rightarrow> cbuf \<Rightarrow> bool" where
  "terminated n buf \<longleftrightarrow> length buf = n \<and> NUL \<in> set buf"

lemma terminated_strlen: "terminated n buf \<Longrightarrow> strlen buf < n"
proof (induction buf arbitrary: n)
  case (Cons c buf)
  then show ?case by (cases n) (auto simp: terminated_def strlen_def cstr_def split: if_splits)
qed (simp add: terminated_def)

lemma terminated_zero [intro]: "0 < n \<Longrightarrow> terminated n (replicate n NUL)"
  by (simp add: terminated_def)

lemma terminated_update [intro]:
  "length buf = n \<Longrightarrow> 0 < n \<Longrightarrow> terminated n (buf[0 := NUL])"
  by (cases buf) (auto simp: terminated_def)

lemma cstr_zero [simp]: "0 < n \<Longrightarrow> cstr (replicate n NUL) = []"
  by (cases n) (simp_all add: cstr_def)

lemma cstr_update0 [simp]: "buf \<noteq> [] \<Longrightarrow> cstr (buf[0 := NUL]) = []"
  by (cases buf) (simp_all add: cstr_def)

lemma terminated_buf_write:
  assumes "length buf = n" and "off + length bs < n"
  shows "terminated n (buf_write buf off (bs @ [NUL]))"
  using assms by (auto simp: terminated_def buf_write_def)

lemma cstr_buf_write0:
  "cstr (buf_write buf 0 (bs @ [NUL])) = cstr bs"
  by (simp add: buf_write_def)

lemma cstr_buf_write_end:
  assumes "strlen buf \<le> length buf"
  shows "cstr (buf_write buf (strlen buf) (bs @ [NUL])) = cstr buf @ cstr bs"
  by (simp add: buf_write_def take_strlen cstr_append)

text \<open>\<open>snprintf\<close> of a text into an array: what fits, and whether all of it did.\<close>

definition snprintf_to :: "cbuf \<Rightarrow> string \<Rightarrow> cbuf \<times> bool" where
  "snprintf_to buf text =
     (buf_write buf 0 (take (length buf - 1) text @ [NUL]), length text < length buf)"

lemma snprintf_to_fits: "length t < length buf \<Longrightarrow> snprintf_to buf t = (buf_write buf 0 (t @ [NUL]), True)"
  by (simp add: snprintf_to_def)

end
