(* ===== verification/Errors.thy ===== *)
theory Errors
  imports Prelude
begin

section \<open>Error codes (\<open>include/ipsec_error.h\<close>, \<open>ipsec/core/error.c\<close>)\<close>

text \<open>
  \<open>IpsecError\<close> is the enumeration that every library call returns, in the order of the
  header, so \<open>error_code\<close> is the C value.  An operation that changes a state and returns
  a code is a function into \<open>'s outcome\<close>; the state is returned on failure too, because
  C code leaves partial results behind.  A pure conversion with an out-parameter that is
  written on success only is a function into \<open>IpsecError + 'a\<close>.

  \<open>run_steps\<close> is the idiom the source is written in: a sequence of
  \<open>if (IPSEC_OK == eError) eError = step(...)\<close>, where the first failure is kept.
\<close>

datatype IpsecError =
    IPSEC_OK
  | IPSEC_ERR_INVALID_ARGUMENT
  | IPSEC_ERR_NO_MEMORY
  | IPSEC_ERR_VICI_CONNECT
  | IPSEC_ERR_VICI_TRANSPORT
  | IPSEC_ERR_VICI_PROTOCOL
  | IPSEC_ERR_VICI_TIMEOUT
  | IPSEC_ERR_VICI_COMMAND
  | IPSEC_ERR_DAEMON_NOT_RUNNING
  | IPSEC_ERR_CONNECTION_NOT_FOUND
  | IPSEC_ERR_IKE_FAILED
  | IPSEC_ERR_CHILD_FAILED
  | IPSEC_ERR_NETLINK_SOCKET
  | IPSEC_ERR_NETLINK_SEND
  | IPSEC_ERR_NETLINK_RECV
  | IPSEC_ERR_NETLINK_PARSE
  | IPSEC_ERR_FILE_OPEN
  | IPSEC_ERR_FILE_READ
  | IPSEC_ERR_PERMISSION
  | IPSEC_ERR_BUFFER_TOO_SMALL
  | IPSEC_ERR_NOT_SUPPORTED
  | IPSEC_ERR_INTERNAL
  | IPSEC_ERR_FILE_WRITE
  | IPSEC_ERR_FILE_EXISTS
  | IPSEC_ERR_RANDOM

type_synonym 's outcome = "'s \<times> IpsecError"

primrec error_code :: "IpsecError \<Rightarrow> nat" where
  "error_code IPSEC_OK = 0"
| "error_code IPSEC_ERR_INVALID_ARGUMENT = 1"
| "error_code IPSEC_ERR_NO_MEMORY = 2"
| "error_code IPSEC_ERR_VICI_CONNECT = 3"
| "error_code IPSEC_ERR_VICI_TRANSPORT = 4"
| "error_code IPSEC_ERR_VICI_PROTOCOL = 5"
| "error_code IPSEC_ERR_VICI_TIMEOUT = 6"
| "error_code IPSEC_ERR_VICI_COMMAND = 7"
| "error_code IPSEC_ERR_DAEMON_NOT_RUNNING = 8"
| "error_code IPSEC_ERR_CONNECTION_NOT_FOUND = 9"
| "error_code IPSEC_ERR_IKE_FAILED = 10"
| "error_code IPSEC_ERR_CHILD_FAILED = 11"
| "error_code IPSEC_ERR_NETLINK_SOCKET = 12"
| "error_code IPSEC_ERR_NETLINK_SEND = 13"
| "error_code IPSEC_ERR_NETLINK_RECV = 14"
| "error_code IPSEC_ERR_NETLINK_PARSE = 15"
| "error_code IPSEC_ERR_FILE_OPEN = 16"
| "error_code IPSEC_ERR_FILE_READ = 17"
| "error_code IPSEC_ERR_PERMISSION = 18"
| "error_code IPSEC_ERR_BUFFER_TOO_SMALL = 19"
| "error_code IPSEC_ERR_NOT_SUPPORTED = 20"
| "error_code IPSEC_ERR_INTERNAL = 21"
| "error_code IPSEC_ERR_FILE_WRITE = 22"
| "error_code IPSEC_ERR_FILE_EXISTS = 23"
| "error_code IPSEC_ERR_RANDOM = 24"

lemma error_code_inj: "error_code a = error_code b \<longleftrightarrow> a = b"
  by (cases a; cases b; simp)

lemma error_code_zero [simp]: "error_code e = 0 \<longleftrightarrow> e = IPSEC_OK"
  by (cases e) simp_all

text \<open>The C enumeration compares by value; \<open>linorder\<close> gives the model the same order.\<close>

instantiation IpsecError :: linorder
begin

definition less_eq_IpsecError :: "IpsecError \<Rightarrow> IpsecError \<Rightarrow> bool" where
  "less_eq_IpsecError a b \<longleftrightarrow> error_code a \<le> error_code b"

definition less_IpsecError :: "IpsecError \<Rightarrow> IpsecError \<Rightarrow> bool" where
  "less_IpsecError a b \<longleftrightarrow> error_code a < error_code b"

instance
  by standard (auto simp: less_eq_IpsecError_def less_IpsecError_def error_code_inj [symmetric])

end

text \<open>The \<open>default\<close> branch of the switch is for integers outside the enumeration.\<close>

primrec GetIpsecErrorString :: "IpsecError \<Rightarrow> string" where
  "GetIpsecErrorString IPSEC_OK = ''success''"
| "GetIpsecErrorString IPSEC_ERR_INVALID_ARGUMENT = ''invalid argument''"
| "GetIpsecErrorString IPSEC_ERR_NO_MEMORY = ''out of memory''"
| "GetIpsecErrorString IPSEC_ERR_VICI_CONNECT = ''VICI connection failed''"
| "GetIpsecErrorString IPSEC_ERR_VICI_TRANSPORT = ''VICI transport failed''"
| "GetIpsecErrorString IPSEC_ERR_VICI_PROTOCOL = ''invalid VICI protocol data''"
| "GetIpsecErrorString IPSEC_ERR_VICI_TIMEOUT = ''VICI operation timed out''"
| "GetIpsecErrorString IPSEC_ERR_VICI_COMMAND = ''VICI command failed''"
| "GetIpsecErrorString IPSEC_ERR_DAEMON_NOT_RUNNING = ''charon daemon is not running''"
| "GetIpsecErrorString IPSEC_ERR_CONNECTION_NOT_FOUND = ''IPsec connection was not found''"
| "GetIpsecErrorString IPSEC_ERR_IKE_FAILED = ''IKE operation failed''"
| "GetIpsecErrorString IPSEC_ERR_CHILD_FAILED = ''CHILD SA operation failed''"
| "GetIpsecErrorString IPSEC_ERR_NETLINK_SOCKET = ''Netlink socket failed''"
| "GetIpsecErrorString IPSEC_ERR_NETLINK_SEND = ''Netlink send failed''"
| "GetIpsecErrorString IPSEC_ERR_NETLINK_RECV = ''Netlink receive failed''"
| "GetIpsecErrorString IPSEC_ERR_NETLINK_PARSE = ''invalid Netlink data''"
| "GetIpsecErrorString IPSEC_ERR_FILE_OPEN = ''file open failed''"
| "GetIpsecErrorString IPSEC_ERR_FILE_READ = ''file read failed''"
| "GetIpsecErrorString IPSEC_ERR_PERMISSION = ''permission denied''"
| "GetIpsecErrorString IPSEC_ERR_BUFFER_TOO_SMALL = ''buffer is too small''"
| "GetIpsecErrorString IPSEC_ERR_NOT_SUPPORTED = ''operation is not supported''"
| "GetIpsecErrorString IPSEC_ERR_INTERNAL = ''internal error''"
| "GetIpsecErrorString IPSEC_ERR_FILE_WRITE = ''file write failed''"
| "GetIpsecErrorString IPSEC_ERR_FILE_EXISTS = ''file already exists''"
| "GetIpsecErrorString IPSEC_ERR_RANDOM = ''secure random generation failed''"

definition all_errors :: "IpsecError list" where
  "all_errors =
     [IPSEC_OK, IPSEC_ERR_INVALID_ARGUMENT, IPSEC_ERR_NO_MEMORY, IPSEC_ERR_VICI_CONNECT,
      IPSEC_ERR_VICI_TRANSPORT, IPSEC_ERR_VICI_PROTOCOL, IPSEC_ERR_VICI_TIMEOUT,
      IPSEC_ERR_VICI_COMMAND, IPSEC_ERR_DAEMON_NOT_RUNNING, IPSEC_ERR_CONNECTION_NOT_FOUND,
      IPSEC_ERR_IKE_FAILED, IPSEC_ERR_CHILD_FAILED, IPSEC_ERR_NETLINK_SOCKET,
      IPSEC_ERR_NETLINK_SEND, IPSEC_ERR_NETLINK_RECV, IPSEC_ERR_NETLINK_PARSE,
      IPSEC_ERR_FILE_OPEN, IPSEC_ERR_FILE_READ, IPSEC_ERR_PERMISSION,
      IPSEC_ERR_BUFFER_TOO_SMALL, IPSEC_ERR_NOT_SUPPORTED, IPSEC_ERR_INTERNAL,
      IPSEC_ERR_FILE_WRITE, IPSEC_ERR_FILE_EXISTS, IPSEC_ERR_RANDOM]"

lemma all_errors_complete: "e \<in> set all_errors"
  by (cases e) (simp_all add: all_errors_def)

lemma distinct_messages: "distinct (map GetIpsecErrorString all_errors)"
  by code_simp

lemma GetIpsecErrorString_inj: "GetIpsecErrorString a = GetIpsecErrorString b \<longleftrightarrow> a = b"
  using distinct_messages all_errors_complete
  by (auto simp: distinct_map dest: inj_onD)

subsection \<open>Sequencing\<close>

definition and_then :: "'s outcome \<Rightarrow> ('s \<Rightarrow> 's outcome) \<Rightarrow> 's outcome" where
  "and_then r f = (if snd r = IPSEC_OK then f (fst r) else r)"

fun run_steps :: "('s \<Rightarrow> 's outcome) list \<Rightarrow> 's \<Rightarrow> 's outcome" where
  "run_steps [] s = (s, IPSEC_OK)"
| "run_steps (f # fs) s = and_then (f s) (run_steps fs)"

lemma and_then_simps [simp]:
  "and_then (s, IPSEC_OK) f = f s"
  "e \<noteq> IPSEC_OK \<Longrightarrow> and_then (s, e) f = (s, e)"
  by (simp_all add: and_then_def)

lemma and_then_ok:
  "and_then r f = (t, IPSEC_OK) \<longleftrightarrow> (\<exists>s. r = (s, IPSEC_OK) \<and> f s = (t, IPSEC_OK))"
  by (cases r) (auto simp: and_then_def)

lemma run_steps_append:
  "run_steps (fs @ gs) s = and_then (run_steps fs s) (run_steps gs)"
proof (induction fs arbitrary: s)
  case (Cons f fs)
  then show ?case by (cases "f s") (auto simp: and_then_def)
qed (simp add: and_then_def)

text \<open>A predicate that every step keeps is kept by the sequence, on failure too.\<close>

lemma and_then_inv:
  assumes "P (fst r)" and "\<And>s. P s \<Longrightarrow> P (fst (f s))"
  shows "P (fst (and_then r f))"
  using assms by (simp add: and_then_def)

lemma run_steps_inv:
  assumes "\<And>f s. f \<in> set fs \<Longrightarrow> P s \<Longrightarrow> P (fst (f s))" and "P s"
  shows "P (fst (run_steps fs s))"
  using assms
proof (induction fs arbitrary: s)
  case (Cons f fs)
  have "P (fst (and_then (f s) (run_steps fs)))"
    by (rule and_then_inv [of P]) (use Cons in auto)
  then show ?case by simp
qed simp

end
