(* ===== verification/Util.thy ===== *)
theory Util
  imports Errors
begin

section \<open>Utility routines (\<open>ipsec/core/util.c\<close>)\<close>

text \<open>
  A nullable pointer with its length is a \<open>bytes option\<close>: \<open>None\<close> is NULL with length 0.
  A destination array is passed by value and returned updated, so it is never NULL; its
  length is the \<open>zDestinationLength\<close> argument.  \<open>SecureZeroIpsec\<close> of local scratch
  storage has no effect on the result and is left out of the parsers below.
\<close>

definition bytes_of :: "bytes option \<Rightarrow> bytes" where
  "bytes_of v = (case v of None \<Rightarrow> [] | Some b \<Rightarrow> b)"

lemma bytes_of_simps [simp]: "bytes_of None = []" "bytes_of (Some b) = b"
  by (simp_all add: bytes_of_def)

fun SecureZeroIpsec :: "bytes \<Rightarrow> bytes" where
  "SecureZeroIpsec [] = []"
| "SecureZeroIpsec (b # bs) = NUL # SecureZeroIpsec bs"

lemma SecureZeroIpsec_eq: "SecureZeroIpsec bs = replicate (length bs) NUL"
  by (induction bs) simp_all

definition CalculateIpsecArraySize :: "nat \<Rightarrow> nat \<Rightarrow> nat option" where
  "CalculateIpsecArraySize uiCount zItemSize =
     (if zItemSize = 0 \<or> (uiCount \<noteq> 0 \<and> SIZE_MAX div uiCount < zItemSize) then None
      else Some (u64 (uiCount * zItemSize)))"

lemma CalculateIpsecArraySize_eq:
  "CalculateIpsecArraySize n item =
     (if 0 < item \<and> n * item \<le> SIZE_MAX then Some (n * item) else None)"
proof (cases "n = 0")
  case True
  then show ?thesis by (simp add: CalculateIpsecArraySize_def)
next
  case False
  then have "SIZE_MAX div n < item \<longleftrightarrow> SIZE_MAX < n * item"
    by (simp only: div_less_iff_overflow)
  with False show ?thesis by (auto simp: CalculateIpsecArraySize_def not_less)
qed

subsection \<open>Bounded copies\<close>

definition CopyIpsecString :: "cbuf \<Rightarrow> bytes option \<Rightarrow> cbuf outcome" where
  "CopyIpsecString pcDestination pucSource =
     (let src = bytes_of pucSource in
      if length pcDestination = 0 then (pcDestination, IPSEC_ERR_INVALID_ARGUMENT)
      else if length pcDestination \<le> length src
        then (pcDestination[0 := NUL], IPSEC_ERR_BUFFER_TOO_SMALL)
      else (buf_write pcDestination 0 (src @ [NUL]), IPSEC_OK))"

lemma CopyIpsecString_terminated:
  assumes "0 < length dst" and "CopyIpsecString dst src = (dst', e)"
  shows "terminated (length dst) dst'"
  using assms terminated_buf_write [where off = 0]
  by (auto simp: CopyIpsecString_def Let_def split: if_splits)

lemma CopyIpsecString_cases:
  assumes "0 < length dst" and "CopyIpsecString dst src = (dst', e)"
  shows "e = IPSEC_OK \<and> length (bytes_of src) < length dst \<and> cstr dst' = cstr (bytes_of src) \<or>
         e = IPSEC_ERR_BUFFER_TOO_SMALL \<and> length dst \<le> length (bytes_of src) \<and> cstr dst' = []"
  using assms
  by (auto simp: CopyIpsecString_def Let_def cstr_buf_write0 not_le split: if_splits)

lemma CopyIpsecString_ok_iff:
  "0 < length dst \<Longrightarrow>
   snd (CopyIpsecString dst src) = IPSEC_OK \<longleftrightarrow> length (bytes_of src) < length dst"
  by (auto simp: CopyIpsecString_def Let_def)

text \<open>\<open>AppendIpsecText\<close> appends a value, with a separator when there is text already.\<close>

definition AppendIpsecText :: "cbuf \<Rightarrow> bytes option \<Rightarrow> string \<Rightarrow> cbuf outcome" where
  "AppendIpsecText pcDestination pucValue pcSeparator =
     (let dlen = length pcDestination; value = bytes_of pucValue in
      if dlen = 0 then (pcDestination, IPSEC_ERR_INVALID_ARGUMENT)
      else
        let zUsed = strnlen pcDestination dlen;
            zSeparatorLength = (if 0 < zUsed then strlen pcSeparator else 0)
        in if dlen \<le> zUsed \<or>
              u64_sub (u64_sub dlen zUsed) 1 < zSeparatorLength \<or>
              u64_sub (u64_sub (u64_sub dlen zUsed) zSeparatorLength) 1 < length value
           then (pcDestination, IPSEC_ERR_BUFFER_TOO_SMALL)
           else (buf_write pcDestination zUsed
                   (take zSeparatorLength pcSeparator @ value @ [NUL]), IPSEC_OK))"

text \<open>The text the call should leave: the joined value.\<close>

definition joined :: "string \<Rightarrow> string \<Rightarrow> bytes \<Rightarrow> bytes" where
  "joined old sep val = (if old = [] then val else old @ cstr sep @ val)"

lemma strnlen_full: "strnlen buf (length buf) = strlen buf"
  by (simp add: strnlen_def strlen_def)

text \<open>The unsigned subtractions of the space test never wrap.\<close>

lemma AppendIpsecText_eq:
  assumes "terminated n dst" and "n \<le> SIZE_MAX"
  shows "AppendIpsecText dst val sep =
     (if length (joined (cstr dst) sep (bytes_of val)) < n
      then (buf_write dst (strlen dst)
              (drop (strlen dst) (joined (cstr dst) sep (bytes_of val)) @ [NUL]), IPSEC_OK)
      else (dst, IPSEC_ERR_BUFFER_TOO_SMALL))"
proof -
  have n: "length dst = n" and used: "strlen dst < n"
    using assms terminated_strlen by (auto simp: terminated_def)
  have len: "strlen dst = length (cstr dst)" by (simp add: strlen_def)
  define sl where "sl = (if 0 < strlen dst then strlen sep else 0)"
  have seplen: "length (cstr sep) = strlen sep" by (simp add: strlen_def)
  have total: "length (joined (cstr dst) sep (bytes_of val))
      = strlen dst + sl + length (bytes_of val)"
    by (simp add: joined_def sl_def len seplen)
  have sub1: "u64_sub n (strlen dst) = n - strlen dst"
    using used assms(2) by (intro u64_sub_id) auto
  have sub2: "u64_sub (n - strlen dst) 1 = n - strlen dst - 1"
    using used assms(2) by (intro u64_sub_id) auto
  have sub3: "u64_sub (u64_sub (n - strlen dst) sl) 1 = n - strlen dst - sl - 1"
    if "sl \<le> n - strlen dst - 1"
    using that used assms(2) by (subst u64_sub_id; simp)+
  have tail: "drop (strlen dst) (joined (cstr dst) sep (bytes_of val))
      = take sl sep @ bytes_of val"
    by (auto simp: joined_def sl_def len take_strlen)
  have full: "strnlen dst n = strlen dst"
    using strnlen_full [of dst] by (simp add: n)
  have eq: "AppendIpsecText dst val sep =
      (if n \<le> strlen dst \<or> u64_sub (n - strlen dst) 1 < sl \<or>
          u64_sub (u64_sub (n - strlen dst) sl) 1 < length (bytes_of val)
       then (dst, IPSEC_ERR_BUFFER_TOO_SMALL)
       else (buf_write dst (strlen dst) (take sl sep @ bytes_of val @ [NUL]), IPSEC_OK))"
    unfolding AppendIpsecText_def Let_def n full sl_def [symmetric] sub1 using used by simp
  show ?thesis
  proof (cases "sl \<le> n - strlen dst - 1")
    case True
    then show ?thesis unfolding eq sub2 total tail sub3 [OF True] using used by auto
  next
    case False
    then show ?thesis unfolding eq sub2 total tail using used by auto
  qed
qed

lemma AppendIpsecText_terminated:
  assumes "terminated n dst" and "n \<le> SIZE_MAX" and "AppendIpsecText dst val sep = (dst', e)"
  shows "terminated n dst'"
proof -
  have used: "strlen dst < n" "length dst = n"
    using assms(1) terminated_strlen by (auto simp: terminated_def)
  let ?j = "joined (cstr dst) sep (bytes_of val)"
  have "strlen dst \<le> length ?j" by (simp add: joined_def strlen_def)
  then have "strlen dst + length (drop (strlen dst) ?j) < n" if "length ?j < n"
    using that by simp
  then show ?thesis
    using assms used terminated_buf_write
    by (auto simp: AppendIpsecText_eq [OF assms(1,2)] split: if_splits)
qed

lemma AppendIpsecText_ok:
  assumes "terminated n dst" and "n \<le> SIZE_MAX" and "AppendIpsecText dst val sep = (dst', IPSEC_OK)"
  shows "cstr dst' = cstr (joined (cstr dst) sep (bytes_of val))"
proof -
  let ?j = "joined (cstr dst) sep (bytes_of val)"
  have len: "strlen dst \<le> length dst" by (simp add: strlen_def length_cstr_le)
  have pre: "?j = cstr dst @ drop (strlen dst) ?j"
    by (simp add: joined_def strlen_def)
  have "cstr dst' = cstr dst @ cstr (drop (strlen dst) ?j)"
    using assms(3) len
    by (auto simp: AppendIpsecText_eq [OF assms(1,2)] cstr_buf_write_end split: if_splits)
  also have "\<dots> = cstr ?j" by (subst (2) pre) (simp add: cstr_append)
  finally show ?thesis .
qed

subsection \<open>Numbers\<close>

definition ParseIpsecUnsigned :: "bytes option \<Rightarrow> nat \<Rightarrow> IpsecError + nat" where
  "ParseIpsecUnsigned pucValue uiBase =
     (case pucValue of
        None \<Rightarrow> Inl IPSEC_ERR_INVALID_ARGUMENT
      | Some value \<Rightarrow>
          if length value = 0 \<or> 64 \<le> length value \<or> \<not> (uiBase = 0 \<or> uiBase = 10 \<or> uiBase = 16)
          then Inl IPSEC_ERR_INVALID_ARGUMENT
          else
            let acNumber = value @ [NUL];
                (ullParsed, pcEnd, erange) = strtoull acNumber uiBase
            in if erange \<or> pcEnd = acNumber \<or> hd pcEnd \<noteq> NUL
               then Inl IPSEC_ERR_VICI_PROTOCOL
               else Inr ullParsed)"

definition ParseIpsecUint32 :: "bytes option \<Rightarrow> nat \<Rightarrow> IpsecError + nat" where
  "ParseIpsecUint32 pucValue uiBase =
     (case ParseIpsecUnsigned pucValue uiBase of
        Inl e \<Rightarrow> Inl e
      | Inr ullValue \<Rightarrow>
          if UINT32_MAX < ullValue then Inl IPSEC_ERR_VICI_PROTOCOL else Inr (u32 ullValue))"

definition ParseIpsecUint64 :: "bytes option \<Rightarrow> nat \<Rightarrow> IpsecError + nat" where
  "ParseIpsecUint64 pucValue uiBase = ParseIpsecUnsigned pucValue uiBase"

lemma ParseIpsecUnsigned_le: "ParseIpsecUnsigned v b = Inr n \<Longrightarrow> n \<le> UINT64_MAX"
  by (auto simp: ParseIpsecUnsigned_def Let_def dest: strtoull_value_le
      split: option.splits if_splits prod.splits)

lemma ParseIpsecUint32_le: "ParseIpsecUint32 v b = Inr n \<Longrightarrow> n \<le> UINT32_MAX"
  by (auto simp: ParseIpsecUint32_def u32_le split: sum.splits if_splits)

lemma length_dec64: "n \<le> UINT64_MAX \<Longrightarrow> length (dec n) \<le> 20"
  by (rule length_dec) simp_all

lemma ParseIpsecUnsigned_dec:
  assumes "n \<le> UINT64_MAX"
  shows "ParseIpsecUnsigned (Some (dec n)) 10 = Inr n"
proof -
  have "\<not> isdigit NUL" by code_simp
  then have "strtoull (dec n @ [NUL]) 10 = (n, [NUL], False)"
    using strtoull_dec [OF assms, of "[NUL]"] by simp
  moreover have "[NUL] \<noteq> dec n @ [NUL]" by simp
  ultimately show ?thesis
    using length_dec64 [OF assms] by (simp add: ParseIpsecUnsigned_def)
qed

lemma ParseIpsecUint64_dec: "n \<le> UINT64_MAX \<Longrightarrow> ParseIpsecUint64 (Some (dec n)) 10 = Inr n"
  by (simp add: ParseIpsecUint64_def ParseIpsecUnsigned_dec)

lemma ParseIpsecUint32_dec:
  "n \<le> UINT64_MAX \<Longrightarrow> ParseIpsecUint32 (Some (dec n)) 10 =
     (if n \<le> UINT32_MAX then Inr n else Inl IPSEC_ERR_VICI_PROTOCOL)"
  by (simp add: ParseIpsecUint32_def ParseIpsecUnsigned_dec)

subsection \<open>Durations in words\<close>

definition GetIpsecDurationMultiplier :: "string \<Rightarrow> nat option" where
  "GetIpsecDurationMultiplier pcUnit =
     (let unit = (if 1 < length pcUnit \<and> last pcUnit = CHR ''s'' then butlast pcUnit else pcUnit) in
      if unit = ''second'' then Some 1
      else if unit = ''minute'' then Some 60
      else if unit = ''hour'' then Some (60 * 60)
      else if unit = ''day'' then Some (24 * 60 * 60)
      else if unit = ''week'' then Some (7 * 24 * 60 * 60)
      else None)"

text \<open>One number/unit pair: the new total and the text after it, up to a comma or the end.\<close>

definition duration_step :: "string \<Rightarrow> nat \<Rightarrow> IpsecError + (nat \<times> string)" where
  "duration_step pcCursor ullTotal =
     (let (ullValue, pcEnd, erange) = strtoull pcCursor 10 in
      if erange \<or> pcEnd = pcCursor then Inl IPSEC_ERR_VICI_PROTOCOL
      else
        let afterNumber = dropWhile (\<lambda>c. c = CHR '' '') pcEnd;
            pcUnit = takeWhile isalpha afterNumber;
            rest = dropWhile (\<lambda>c. c = CHR '' '') (dropWhile isalpha afterNumber)
        in case GetIpsecDurationMultiplier pcUnit of
             None \<Rightarrow> Inl IPSEC_ERR_VICI_PROTOCOL
           | Some ullMultiplier \<Rightarrow>
               if pcUnit = [] \<or> (ullValue \<noteq> 0 \<and> UINT64_MAX div ullValue < ullMultiplier)
               then Inl IPSEC_ERR_VICI_PROTOCOL
               else if u64_sub UINT64_MAX ullTotal < u64 (ullValue * ullMultiplier)
               then Inl IPSEC_ERR_VICI_PROTOCOL
               else if rest \<noteq> [] \<and> hd rest \<noteq> CHR '',''
               then Inl IPSEC_ERR_VICI_PROTOCOL
               else Inr (u64 (ullTotal + u64 (ullValue * ullMultiplier)), rest))"

lemma length_dropWhile2_le: "length (dropWhile P (dropWhile Q (dropWhile R s))) \<le> length s"
  by (meson length_dropWhile_le order_trans)

lemma duration_step_shorter:
  assumes "duration_step cur tot = Inr (t, rest)"
  shows "length rest < length cur"
proof -
  obtain v pe er where st: "strtoull cur 10 = (v, pe, er)" by (cases "strtoull cur 10") auto
  with assms have "pe \<noteq> cur" and
    "rest = dropWhile (\<lambda>c. c = CHR '' '') (dropWhile isalpha (dropWhile (\<lambda>c. c = CHR '' '') pe))"
    by (auto simp: duration_step_def Let_def split: if_splits option.splits)
  with strtoull_rest_length(2) [OF st] show ?thesis
    using length_dropWhile2_le order_le_less_trans by blast
qed

function duration_loop :: "string \<Rightarrow> nat \<Rightarrow> IpsecError + nat" where
  "duration_loop pcCursor ullTotal =
     (if pcCursor = [] then Inr ullTotal
      else
        let cur = dropWhile (\<lambda>c. c = CHR '' '' \<or> c = CHR '','') pcCursor in
        if cur = [] then Inr ullTotal
        else (case duration_step cur ullTotal of
                Inl e \<Rightarrow> Inl e
              | Inr (t, rest) \<Rightarrow> duration_loop rest t))"
  by pat_completeness auto
termination
proof (relation "measure (\<lambda>(s, t). length s)", goal_cases)
  case (2 s t cur r t' rest)
  from 2(4,5) have "duration_step cur t = Inr (t', rest)" by simp
  then have "length rest < length cur" by (rule duration_step_shorter)
  also have "\<dots> \<le> length s" using 2(2) by (simp add: length_dropWhile_le)
  finally show ?case by simp
qed simp

declare duration_loop.simps [simp del]

definition ParseIpsecDurationSeconds :: "bytes option \<Rightarrow> IpsecError + nat" where
  "ParseIpsecDurationSeconds pucValue =
     (case pucValue of
        None \<Rightarrow> Inl IPSEC_ERR_INVALID_ARGUMENT
      | Some value \<Rightarrow>
          if length value = 0 \<or> 128 \<le> length value then Inl IPSEC_ERR_INVALID_ARGUMENT
          else let acText = cstr value in
               if acText = ''less than a second'' then Inr 0 else duration_loop acText 0)"

text \<open>The text charon prints, such as \<open>2 hours, 5 minutes\<close>, and what it means.\<close>

fun render_durations :: "(nat \<times> string) list \<Rightarrow> string" where
  "render_durations [] = []"
| "render_durations [(n, u)] = dec n @ '' '' @ u"
| "render_durations ((n, u) # d # ds) = dec n @ '' '' @ u @ '', '' @ render_durations (d # ds)"

definition duration_seconds :: "(nat \<times> string) list \<Rightarrow> nat" where
  "duration_seconds ds = (\<Sum>(n, u)\<leftarrow>ds. n * the (GetIpsecDurationMultiplier u))"

definition known_durations :: "(nat \<times> string) list \<Rightarrow> bool" where
  "known_durations ds \<longleftrightarrow>
     (\<forall>(n, u) \<in> set ds. n \<le> UINT64_MAX \<and> GetIpsecDurationMultiplier u \<noteq> None)"

lemma known_durations_Cons [simp]:
  "known_durations ((n, u) # ds) \<longleftrightarrow>
     n \<le> UINT64_MAX \<and> GetIpsecDurationMultiplier u \<noteq> None \<and> known_durations ds"
  by (auto simp: known_durations_def)

lemma unit_texts:
  assumes "GetIpsecDurationMultiplier u = Some m"
  shows "u \<in> {''second'', ''seconds'', ''minute'', ''minutes'', ''hour'', ''hours'',
              ''day'', ''days'', ''week'', ''weeks''}" and "0 < m"
proof -
  let ?v = "if 1 < length u \<and> last u = CHR ''s'' then butlast u else u"
  have v: "?v \<in> {''second'', ''minute'', ''hour'', ''day'', ''week''}" and "0 < m"
    using assms by (auto simp: GetIpsecDurationMultiplier_def Let_def split: if_splits)
  then show "0 < m" by simp
  show "u \<in> {''second'', ''seconds'', ''minute'', ''minutes'', ''hour'', ''hours'',
             ''day'', ''days'', ''week'', ''weeks''}"
  proof (cases "1 < length u \<and> last u = CHR ''s''")
    case True
    then have "u = ?v @ ''s''" by (cases u rule: rev_cases) auto
    with v show ?thesis by auto
  next
    case False
    with v show ?thesis by auto
  qed
qed

lemma unit_alpha:
  assumes "GetIpsecDurationMultiplier u = Some m"
  shows "u \<noteq> []" and "\<forall>c \<in> set u. isalpha c"
proof -
  have "list_all (\<lambda>v. v \<noteq> [] \<and> list_all isalpha v)
      [''second'', ''seconds'', ''minute'', ''minutes'', ''hour'', ''hours'',
       ''day'', ''days'', ''week'', ''weeks'']" (is "list_all ?P ?us")
    by code_simp
  moreover have "u \<in> set ?us" using unit_texts(1) [OF assms] by (simp only: list.set)
  ultimately have "?P u" unfolding list_all_iff by blast
  then show "u \<noteq> []" and "\<forall>c \<in> set u. isalpha c" by (simp_all add: list_all_iff)
qed

lemma takeWhile_alpha_append:
  assumes "\<forall>c \<in> set u. isalpha c" and "rest = [] \<or> \<not> isalpha (hd rest)"
  shows "takeWhile isalpha (u @ rest) = u" and "dropWhile isalpha (u @ rest) = rest"
  using assms by (auto simp: takeWhile_append dropWhile_append3 takeWhile_eq_Nil_iff
      dropWhile_eq_self_iff hd_append split: if_splits)

lemma dropWhile_hd: "s = [] \<or> \<not> P (hd s) \<Longrightarrow> dropWhile P s = s"
  by (cases s) auto

lemma duration_step_item:
  assumes m: "GetIpsecDurationMultiplier u = Some m" and n: "n \<le> UINT64_MAX"
    and t: "t \<le> UINT64_MAX" and rest: "rest = [] \<or> hd rest = CHR '',''"
  shows "duration_step (dec n @ '' '' @ u @ rest) t =
     (if t + n * m \<le> UINT64_MAX then Inr (t + n * m, rest) else Inl IPSEC_ERR_VICI_PROTOCOL)"
proof -
  have "\<not> isdigit (CHR '' '')" "\<not> isalpha (CHR '','')" "\<not> isalpha (CHR '' '')" by code_simp+
  note chars = this
  have num: "strtoull (dec n @ '' '' @ u @ rest) 10 = (n, '' '' @ u @ rest, False)"
    using chars by (intro strtoull_dec [OF n]) simp
  have moved: "'' '' @ u @ rest \<noteq> dec n @ '' '' @ u @ rest" by simp
  have head: "u \<noteq> [] \<and> hd u \<noteq> CHR '' ''"
    using unit_alpha [OF m] chars by (metis hd_in_set)
  have skip: "dropWhile (\<lambda>c. c = CHR '' '') ('' '' @ u @ rest) = u @ rest"
    using head by (simp add: dropWhile_hd)
  have noalpha: "rest = [] \<or> \<not> isalpha (hd rest)" using rest chars by auto
  note parts = takeWhile_alpha_append [OF unit_alpha(2) [OF m] noalpha]
  have tail: "dropWhile (\<lambda>c. c = CHR '' '') rest = rest"
    using rest by (intro dropWhile_hd) auto
  have "0 < m" by (rule unit_texts(2) [OF m])
  have ovf: "n \<noteq> 0 \<and> UINT64_MAX div n < m \<longleftrightarrow> UINT64_MAX < n * m"
    using div_less_iff_overflow [of n UINT64_MAX m] by (cases "n = 0") simp_all
  show ?thesis
    unfolding duration_step_def num Let_def prod.case skip parts tail m option.case
    using moved head rest t ovf by auto
qed

lemma render_head:
  assumes "ds \<noteq> []"
  shows "isdigit (hd (render_durations ds))" and "render_durations ds \<noteq> []"
    and "hd (render_durations ds) \<noteq> CHR '' '' \<and> hd (render_durations ds) \<noteq> CHR '',''"
proof -
  show dig: "isdigit (hd (render_durations ds))" and "render_durations ds \<noteq> []"
    using assms by (cases ds rule: render_durations.cases; simp add: hd_append)+
  have "\<not> isdigit (CHR '' '')" "\<not> isdigit (CHR '','')" by code_simp+
  with dig show "hd (render_durations ds) \<noteq> CHR '' '' \<and> hd (render_durations ds) \<noteq> CHR '',''"
    by metis
qed

lemma duration_loop_render:
  assumes "ds \<noteq> []" and "known_durations ds" and "t \<le> UINT64_MAX" and "pre = [] \<or> pre = '', ''"
  shows "duration_loop (pre @ render_durations ds) t =
     (if t + duration_seconds ds \<le> UINT64_MAX then Inr (t + duration_seconds ds)
      else Inl IPSEC_ERR_VICI_PROTOCOL)"
  using assms
proof (induction ds arbitrary: t pre rule: render_durations.induct)
  case 1
  then show ?case by simp
next
  case (2 n u)
  then obtain m where m: "GetIpsecDurationMultiplier u = Some m" by auto
  let ?r = "render_durations [(n, u)]"
  have "hd ?r \<noteq> CHR '' '' \<and> hd ?r \<noteq> CHR '',''" and "?r \<noteq> []"
    using render_head(2,3) [of "[(n, u)]"] by (auto simp del: render_durations.simps)
  then have cur: "dropWhile (\<lambda>c. c = CHR '' '' \<or> c = CHR '','') (pre @ ?r) = ?r"
    using 2 by (auto simp: dropWhile_hd)
  have step: "duration_step ?r t = (if t + n * m \<le> UINT64_MAX then Inr (t + n * m, [])
      else Inl IPSEC_ERR_VICI_PROTOCOL)"
    using duration_step_item [OF m, of n t "[]"] 2 by simp
  show ?case
    using \<open>?r \<noteq> []\<close>
    by (simp add: duration_loop.simps [of "pre @ ?r"] cur step Let_def duration_loop.simps [of "[]"]
        duration_seconds_def m del: render_durations.simps)
next
  case (3 n u d ds)
  then obtain m where m: "GetIpsecDurationMultiplier u = Some m" by auto
  let ?r = "render_durations ((n, u) # d # ds)"
  let ?q = "'', '' @ render_durations (d # ds)"
  have "hd ?r \<noteq> CHR '' '' \<and> hd ?r \<noteq> CHR '',''" and "?r \<noteq> []"
    using render_head(2,3) [of "(n, u) # d # ds"] by (auto simp del: render_durations.simps)
  then have cur: "dropWhile (\<lambda>c. c = CHR '' '' \<or> c = CHR '','') (pre @ ?r) = ?r"
    using 3 by (auto simp: dropWhile_hd)
  have step: "duration_step ?r t = (if t + n * m \<le> UINT64_MAX then Inr (t + n * m, ?q)
      else Inl IPSEC_ERR_VICI_PROTOCOL)"
    using duration_step_item [OF m, of n t ?q] 3 by simp
  have total: "duration_seconds ((n, u) # d # ds) = n * m + duration_seconds (d # ds)"
    by (simp add: duration_seconds_def m)
  show ?case
  proof (cases "t + n * m \<le> UINT64_MAX")
    case True
    have "duration_loop (pre @ ?r) t = duration_loop ?q (t + n * m)"
      using \<open>?r \<noteq> []\<close> True
      by (simp add: duration_loop.simps [of "pre @ ?r"] cur step Let_def
          del: render_durations.simps)
    also have "\<dots> = (if t + n * m + duration_seconds (d # ds) \<le> UINT64_MAX
        then Inr (t + n * m + duration_seconds (d # ds)) else Inl IPSEC_ERR_VICI_PROTOCOL)"
      using 3 True by (intro "3.IH") auto
    finally show ?thesis by (simp add: total add.assoc)
  next
    case False
    then show ?thesis using \<open>?r \<noteq> []\<close>
      by (simp add: duration_loop.simps [of "pre @ ?r"] cur step Let_def total
          del: render_durations.simps)
  qed
qed

lemma duration_step_le:
  assumes "duration_step cur tot = Inr (t, rest)"
  shows "t \<le> UINT64_MAX"
proof -
  have "\<exists>n. t = u64 n"
    using assms by (auto simp: duration_step_def Let_def split: prod.splits if_splits option.splits)
  then show ?thesis using u64_le by blast
qed

lemma duration_loop_le: "duration_loop cur tot = Inr n \<Longrightarrow> tot \<le> UINT64_MAX \<Longrightarrow> n \<le> UINT64_MAX"
proof (induction cur tot rule: duration_loop.induct)
  case (1 cur tot)
  define c where "c = dropWhile (\<lambda>c. c = CHR '' '' \<or> c = CHR '','') cur"
  have eq: "duration_loop cur tot = (if cur = [] \<or> c = [] then Inr tot
      else case duration_step c tot of Inl e \<Rightarrow> Inl e | Inr (t, rest) \<Rightarrow> duration_loop rest t)"
    unfolding c_def by (subst duration_loop.simps) (auto simp only: Let_def split: if_split)
  show ?case
  proof (cases "cur = [] \<or> c = []")
    case True
    then show ?thesis using "1.prems" eq by simp
  next
    case False
    then obtain t rest where st: "duration_step c tot = Inr (t, rest)"
      and "duration_loop rest t = Inr n"
      using "1.prems"(1) eq by (auto split: sum.splits)
    then show ?thesis using "1.IH" False duration_step_le [OF st] by (auto simp: c_def)
  qed
qed

lemma unit_no_NUL:
  "GetIpsecDurationMultiplier u = Some m \<Longrightarrow> NUL \<notin> set u"
  by (drule unit_texts(1)) auto

lemma render_no_NUL: "known_durations ds \<Longrightarrow> NUL \<notin> set (render_durations ds)"
  by (induction ds rule: render_durations.induct) (auto simp: dec_no_NUL dest: unit_no_NUL)

subsection \<open>Properties\<close>

text \<open>\<open>AppendIpsecText\<close> on a terminated array of \<open>n\<close> bytes leaves the joined text (the
  separator only after existing text) exactly when that text and its terminator fit, and
  otherwise reports the short buffer and leaves the array as it was.  The unsigned
  subtractions of its space test never wrap.\<close>

theorem AppendIpsecText_joins:
  assumes "terminated n dst" and "n \<le> SIZE_MAX" and "NUL \<notin> set (bytes_of val)"
  shows "if length (joined (cstr dst) sep (bytes_of val)) < n
     then \<exists>dst'. AppendIpsecText dst val sep = (dst', IPSEC_OK) \<and> terminated n dst' \<and>
            cstr dst' = joined (cstr dst) sep (bytes_of val)
     else AppendIpsecText dst val sep = (dst, IPSEC_ERR_BUFFER_TOO_SMALL)"
proof (cases "length (joined (cstr dst) sep (bytes_of val)) < n")
  case True
  then obtain dst' where a: "AppendIpsecText dst val sep = (dst', IPSEC_OK)"
    by (simp add: AppendIpsecText_eq [OF assms(1,2)])
  have "NUL \<notin> set (joined (cstr dst) sep (bytes_of val))"
    using assms(3) by (auto simp: joined_def)
  then show ?thesis
    using a True AppendIpsecText_terminated [OF assms(1,2) a] AppendIpsecText_ok [OF assms(1,2) a]
    by (simp add: cstr_id)
qed (simp add: AppendIpsecText_eq [OF assms(1,2)])

theorem AppendIpsecText_joins_witness:
  "\<exists>dst'. AppendIpsecText (''ab'' @ replicate 4 NUL) (Some ''cd'') '','' = (dst', IPSEC_OK) \<and>
     terminated 6 dst' \<and> cstr dst' = ''ab,cd''"
proof -
  let ?d = "''ab'' @ replicate 4 NUL"
  have j: "joined (cstr ?d) '','' (bytes_of (Some ''cd'')) = ''ab,cd''" by code_simp
  have l: "length ''ab,cd'' < 6" by simp
  have n: "NUL \<notin> set (bytes_of (Some ''cd''))" by simp
  have t: "terminated 6 ?d" by code_simp
  from AppendIpsecText_joins [OF t _ n, where sep = "'',''"] show ?thesis
    unfolding j using l by (simp only: if_True)
qed

text \<open>The decimal text of a 64-bit number is read back as that number by
  \<open>ParseIpsecUint64\<close>, and by \<open>ParseIpsecUint32\<close> exactly when it fits 32 bits.\<close>

theorem ParseIpsecUint_dec:
  assumes "n \<le> UINT64_MAX"
  shows "ParseIpsecUint64 (Some (dec n)) 10 = Inr n \<and>
     ParseIpsecUint32 (Some (dec n)) 10 =
       (if n \<le> UINT32_MAX then Inr n else Inl IPSEC_ERR_VICI_PROTOCOL)"
  using assms by (simp add: ParseIpsecUint64_dec ParseIpsecUint32_dec)

theorem ParseIpsecUint_dec_witness:
  "ParseIpsecUint64 (Some (dec 4294967296)) 10 = Inr 4294967296 \<and>
   ParseIpsecUint32 (Some (dec 4294967296)) 10 = Inl IPSEC_ERR_VICI_PROTOCOL"
  using ParseIpsecUint_dec [of 4294967296] by simp

text \<open>The durations charon prints (\<open>2 hours, 5 minutes\<close>) are read as the sum of their
  parts in seconds; a sum beyond 64 bits is a protocol error, never a wrapped value.\<close>

theorem ParseIpsecDurationSeconds_text:
  assumes "ds \<noteq> []" and "known_durations ds" and "length (render_durations ds) < 128"
  shows "ParseIpsecDurationSeconds (Some (render_durations ds)) =
     (if duration_seconds ds \<le> UINT64_MAX then Inr (duration_seconds ds)
      else Inl IPSEC_ERR_VICI_PROTOCOL)"
proof -
  have "\<not> isdigit (hd ''less than a second'')" by code_simp
  then have "render_durations ds \<noteq> ''less than a second''"
    using render_head(1) [OF assms(1)] by metis
  then show ?thesis
    using assms render_no_NUL duration_loop_render [of ds 0 "[]"] render_head(2) [OF assms(1)]
    by (simp add: ParseIpsecDurationSeconds_def Let_def cstr_id)
qed

theorem ParseIpsecDurationSeconds_text_witness:
  "ParseIpsecDurationSeconds (Some ''2 hours, 5 minutes'') = Inr 7500"
proof -
  let ?ds = "[(2::nat, ''hours''), (5, ''minutes'')]"
  have r: "render_durations ?ds = ''2 hours, 5 minutes''" by code_simp
  have s: "duration_seconds ?ds = 7500" by code_simp
  have "known_durations ?ds" "?ds \<noteq> []" "length (render_durations ?ds) < 128" by code_simp+
  from ParseIpsecDurationSeconds_text [OF this(2,1,3)] show ?thesis unfolding r s by simp
qed

text \<open>The size of an array of \<open>n\<close> items is computed exactly or refused: the result never
  wraps, for a 64-bit \<open>size_t\<close>.\<close>

theorem CalculateIpsecArraySize_exact:
  "CalculateIpsecArraySize n item =
     (if 0 < item \<and> n * item \<le> SIZE_MAX then Some (n * item) else None)"
  by (rule CalculateIpsecArraySize_eq)

end
