(* ===== verification/ViciPacket.thy ===== *)
theory ViciPacket
  imports Util "HOL-Library.While_Combinator" "HOL-Library.Sublist"
begin

section \<open>VICI buffers and packets (\<open>ipsec/vici/vici_packet.c\<close>)\<close>

text \<open>
  A \<open>ViciBuffer\<close> holds the \<open>uiLength\<close> bytes in use (\<open>pucData\<close>; \<open>uiLength\<close> is the
  length of that list), the allocated capacity and the flag that asks for a wipe.  The
  allocator is a parameter \<open>mem\<close>: \<open>mem n\<close> says whether \<open>realloc\<close> to \<open>n\<close> bytes succeeds.
  During the life of one buffer every request is larger than the one before, so a
  predicate on the size is as general as any schedule of failures.
\<close>

abbreviation VICI_MAX_SEGMENT_LENGTH :: nat where
  "VICI_MAX_SEGMENT_LENGTH \<equiv> 524288"

datatype ViciPacketType =
    VICI_PACKET_COMMAND_REQUEST
  | VICI_PACKET_COMMAND_RESPONSE
  | VICI_PACKET_COMMAND_UNKNOWN
  | VICI_PACKET_EVENT_REGISTER
  | VICI_PACKET_EVENT_UNREGISTER
  | VICI_PACKET_EVENT_CONFIRM
  | VICI_PACKET_EVENT_UNKNOWN
  | VICI_PACKET_EVENT

datatype ViciElementType =
    VICI_ELEMENT_SECTION_START
  | VICI_ELEMENT_SECTION_END
  | VICI_ELEMENT_KEY_VALUE
  | VICI_ELEMENT_LIST_START
  | VICI_ELEMENT_LIST_ITEM
  | VICI_ELEMENT_LIST_END

primrec packet_code :: "ViciPacketType \<Rightarrow> nat" where
  "packet_code VICI_PACKET_COMMAND_REQUEST = 0"
| "packet_code VICI_PACKET_COMMAND_RESPONSE = 1"
| "packet_code VICI_PACKET_COMMAND_UNKNOWN = 2"
| "packet_code VICI_PACKET_EVENT_REGISTER = 3"
| "packet_code VICI_PACKET_EVENT_UNREGISTER = 4"
| "packet_code VICI_PACKET_EVENT_CONFIRM = 5"
| "packet_code VICI_PACKET_EVENT_UNKNOWN = 6"
| "packet_code VICI_PACKET_EVENT = 7"

primrec element_code :: "ViciElementType \<Rightarrow> nat" where
  "element_code VICI_ELEMENT_SECTION_START = 1"
| "element_code VICI_ELEMENT_SECTION_END = 2"
| "element_code VICI_ELEMENT_KEY_VALUE = 3"
| "element_code VICI_ELEMENT_LIST_START = 4"
| "element_code VICI_ELEMENT_LIST_ITEM = 5"
| "element_code VICI_ELEMENT_LIST_END = 6"

text \<open>The casts of a byte to the enumerations.\<close>

definition packet_type_of :: "nat \<Rightarrow> ViciPacketType option" where
  "packet_type_of n = map_of
     (map (\<lambda>t. (packet_code t, t))
       [VICI_PACKET_COMMAND_REQUEST, VICI_PACKET_COMMAND_RESPONSE, VICI_PACKET_COMMAND_UNKNOWN,
        VICI_PACKET_EVENT_REGISTER, VICI_PACKET_EVENT_UNREGISTER, VICI_PACKET_EVENT_CONFIRM,
        VICI_PACKET_EVENT_UNKNOWN, VICI_PACKET_EVENT]) n"

definition element_type_of :: "nat \<Rightarrow> ViciElementType option" where
  "element_type_of n = map_of
     (map (\<lambda>t. (element_code t, t))
       [VICI_ELEMENT_SECTION_START, VICI_ELEMENT_SECTION_END, VICI_ELEMENT_KEY_VALUE,
        VICI_ELEMENT_LIST_START, VICI_ELEMENT_LIST_ITEM, VICI_ELEMENT_LIST_END]) n"

lemma packet_type_of_code [simp]: "packet_type_of (packet_code t) = Some t"
  by (cases t) (simp_all add: packet_type_of_def)

lemma packet_type_of_Some: "packet_type_of n = Some t \<longleftrightarrow> n = packet_code t"
  by (cases t) (auto simp: packet_type_of_def split: if_splits)

lemma packet_type_of_le: "n \<le> 7 \<Longrightarrow> packet_type_of n \<noteq> None"
  by (auto simp: packet_type_of_def)

lemma packet_code_le: "packet_code t \<le> 7"
  by (cases t) simp_all

lemma element_type_of_code [simp]: "element_type_of (element_code t) = Some t"
  by (cases t) (simp_all add: element_type_of_def)

lemma element_type_of_Some: "element_type_of n = Some t \<longleftrightarrow> n = element_code t"
  by (cases t) (auto simp: element_type_of_def split: if_splits)

lemma element_code_less [simp]: "element_code t < 256"
  by (cases t) simp_all

lemma of_char_small [simp]: "n < 256 \<Longrightarrow> of_char (char_of n :: char) = (n :: nat)"
  by (simp add: of_char_of)

lemma of_char_le_255: "(of_char (c :: char) :: nat) \<le> 255"
proof -
  have "(of_char c :: nat) mod 256 < 256" by (rule mod_less_divisor) simp
  then show ?thesis by (simp only: of_char_mod_256)
qed

record ViciBuffer =
  pucData :: bytes
  uiCapacity :: nat
  bSensitive :: bool

abbreviation uiLength :: "ViciBuffer \<Rightarrow> nat" where
  "uiLength b \<equiv> length (pucData b)"

definition zero_buffer :: ViciBuffer where
  "zero_buffer = \<lparr>pucData = [], uiCapacity = 0, bSensitive = False\<rparr>"

definition buffer_wf :: "ViciBuffer \<Rightarrow> bool" where
  "buffer_wf b \<longleftrightarrow> uiLength b \<le> uiCapacity b \<and> uiCapacity b \<le> VICI_MAX_SEGMENT_LENGTH"

subsection \<open>Growing the storage\<close>

definition grown_capacity :: "nat \<Rightarrow> nat \<Rightarrow> nat" where
  "grown_capacity uiCapacity0 uiRequiredLength =
     while (\<lambda>c. c < uiRequiredLength)
       (\<lambda>c. if VICI_MAX_SEGMENT_LENGTH div 2 < c then VICI_MAX_SEGMENT_LENGTH else u32 (c * 2))
       (if uiCapacity0 = 0 then 64 else uiCapacity0)"

definition ReserveViciBuffer ::
  "(nat \<Rightarrow> bool) \<Rightarrow> nat \<Rightarrow> ViciBuffer \<Rightarrow> ViciBuffer outcome" where
  "ReserveViciBuffer mem uiAdditionalLength b =
     (if u32_sub UINT32_MAX (uiLength b) < uiAdditionalLength
      then (b, IPSEC_ERR_BUFFER_TOO_SMALL)
      else
        let uiRequiredLength = u32 (uiLength b + uiAdditionalLength) in
        if VICI_MAX_SEGMENT_LENGTH < uiRequiredLength then (b, IPSEC_ERR_BUFFER_TOO_SMALL)
        else if uiRequiredLength \<le> uiCapacity b then (b, IPSEC_OK)
        else
          let uiNewCapacity = grown_capacity (uiCapacity b) uiRequiredLength in
          if mem uiNewCapacity then (b\<lparr>uiCapacity := uiNewCapacity\<rparr>, IPSEC_OK)
          else (b, IPSEC_ERR_NO_MEMORY))"

definition InitializeViciBuffer ::
  "(nat \<Rightarrow> bool) \<Rightarrow> nat \<Rightarrow> bool \<Rightarrow> ViciBuffer \<Rightarrow> ViciBuffer outcome" where
  "InitializeViciBuffer mem uiInitialCapacity sensitive b =
     (if VICI_MAX_SEGMENT_LENGTH < uiInitialCapacity then (b, IPSEC_ERR_INVALID_ARGUMENT)
      else ReserveViciBuffer mem uiInitialCapacity (zero_buffer\<lparr>bSensitive := sensitive\<rparr>))"

definition DestroyViciBuffer :: "ViciBuffer \<Rightarrow> ViciBuffer" where
  "DestroyViciBuffer b = zero_buffer"

text \<open>The bytes the block holds when \<open>DestroyViciBuffer\<close> hands it to \<open>free\<close>.\<close>

definition released_bytes :: "ViciBuffer \<Rightarrow> bytes" where
  "released_bytes b = (if bSensitive b then SecureZeroIpsec (pucData b) else pucData b)"

text \<open>The doubling loop stops: the invariant is \<open>0 < c \<le> max\<close>, the variant is the
  distance to the maximum.\<close>

lemma grown_capacity_props:
  assumes cap: "cap \<le> VICI_MAX_SEGMENT_LENGTH" and req: "req \<le> VICI_MAX_SEGMENT_LENGTH"
  shows "req \<le> grown_capacity cap req \<and> cap \<le> grown_capacity cap req \<and>
         grown_capacity cap req \<le> VICI_MAX_SEGMENT_LENGTH"
  unfolding grown_capacity_def
proof (rule while_rule [where
      P = "\<lambda>c. 0 < c \<and> cap \<le> c \<and> c \<le> VICI_MAX_SEGMENT_LENGTH" and
      r = "measure (\<lambda>c. VICI_MAX_SEGMENT_LENGTH - c)"], goal_cases)
  case 1
  then show ?case using cap by simp
next
  case (2 c)
  then show ?case by (auto simp: u32_def)
next
  case (3 c)
  then show ?case by auto
next
  case 4
  then show ?case by simp
next
  case (5 c)
  then show ?case using req by (auto simp: u32_def)
qed

text \<open>That the loop of the code returns, as a statement about \<open>while_option\<close>.\<close>

lemma grown_capacity_terminates:
  assumes cap: "cap \<le> VICI_MAX_SEGMENT_LENGTH" and req: "req \<le> VICI_MAX_SEGMENT_LENGTH"
  shows "\<exists>c. while_option (\<lambda>c. c < req)
     (\<lambda>c. if VICI_MAX_SEGMENT_LENGTH div 2 < c then VICI_MAX_SEGMENT_LENGTH else u32 (c * 2))
     (if cap = 0 then 64 else cap) = Some c"
  by (rule measure_while_option_Some [where
        P = "\<lambda>c. 0 < c \<and> c \<le> VICI_MAX_SEGMENT_LENGTH" and
        f = "\<lambda>c. VICI_MAX_SEGMENT_LENGTH - c"])
    (use cap req in \<open>auto simp: u32_def\<close>)

lemma ReserveViciBuffer_cases:
  assumes wf: "buffer_wf b" and r: "ReserveViciBuffer mem n b = (b', e)"
  shows "buffer_wf b'" and "pucData b' = pucData b" and "bSensitive b' = bSensitive b"
    and "uiCapacity b \<le> uiCapacity b'"
    and "e = IPSEC_OK \<Longrightarrow> uiLength b + n \<le> uiCapacity b'"
    and "e \<noteq> IPSEC_OK \<Longrightarrow> b' = b \<and> (e = IPSEC_ERR_BUFFER_TOO_SMALL \<or> e = IPSEC_ERR_NO_MEMORY)"
    and "\<forall>k. mem k \<Longrightarrow> e = IPSEC_OK \<longleftrightarrow> uiLength b + n \<le> VICI_MAX_SEGMENT_LENGTH"
proof -
  have len: "uiLength b \<le> uiCapacity b" "uiCapacity b \<le> VICI_MAX_SEGMENT_LENGTH"
    using wf by (auto simp: buffer_wf_def)
  have sub: "u32_sub UINT32_MAX (uiLength b) = UINT32_MAX - uiLength b"
    using len by (intro u32_sub_id) auto
  have req: "u32 (uiLength b + n) = uiLength b + n" if "\<not> UINT32_MAX - uiLength b < n"
    using that len by (intro u32_id) auto
  have eq: "ReserveViciBuffer mem n b =
    (if VICI_MAX_SEGMENT_LENGTH < uiLength b + n then (b, IPSEC_ERR_BUFFER_TOO_SMALL)
     else if uiLength b + n \<le> uiCapacity b then (b, IPSEC_OK)
     else if mem (grown_capacity (uiCapacity b) (uiLength b + n))
     then (b\<lparr>uiCapacity := grown_capacity (uiCapacity b) (uiLength b + n)\<rparr>, IPSEC_OK)
     else (b, IPSEC_ERR_NO_MEMORY))"
    using req len by (auto simp: ReserveViciBuffer_def sub Let_def)
  note g = grown_capacity_props [OF len(2), of "uiLength b + n"]
  show "buffer_wf b'" and "pucData b' = pucData b" and "bSensitive b' = bSensitive b"
    and "uiCapacity b \<le> uiCapacity b'"
    and "e = IPSEC_OK \<Longrightarrow> uiLength b + n \<le> uiCapacity b'"
    and "e \<noteq> IPSEC_OK \<Longrightarrow> b' = b \<and> (e = IPSEC_ERR_BUFFER_TOO_SMALL \<or> e = IPSEC_ERR_NO_MEMORY)"
    and "\<forall>k. mem k \<Longrightarrow> e = IPSEC_OK \<longleftrightarrow> uiLength b + n \<le> VICI_MAX_SEGMENT_LENGTH"
    using r [unfolded eq] len g by (auto simp: buffer_wf_def split: if_splits)
qed

subsection \<open>Appending\<close>

definition AppendViciBuffer ::
  "(nat \<Rightarrow> bool) \<Rightarrow> bytes \<Rightarrow> ViciBuffer \<Rightarrow> ViciBuffer outcome" where
  "AppendViciBuffer mem pvData b =
     and_then (ReserveViciBuffer mem (length pvData) b)
       (\<lambda>b. if 0 < length pvData then (b\<lparr>pucData := pucData b @ pvData\<rparr>, IPSEC_OK)
            else (b, IPSEC_OK))"

definition AppendViciByte :: "(nat \<Rightarrow> bool) \<Rightarrow> nat \<Rightarrow> ViciBuffer \<Rightarrow> ViciBuffer outcome" where
  "AppendViciByte mem ucValue = AppendViciBuffer mem [char_of ucValue]"

definition AppendViciName ::
  "(nat \<Rightarrow> bool) \<Rightarrow> string option \<Rightarrow> ViciBuffer \<Rightarrow> ViciBuffer outcome" where
  "AppendViciName mem pcName b =
     (case pcName of
        None \<Rightarrow> (b, IPSEC_ERR_INVALID_ARGUMENT)
      | Some name \<Rightarrow>
          let zLength = strnlen name (UINT8_MAX + 1) in
          if zLength = 0 \<or> UINT8_MAX < zLength then (b, IPSEC_ERR_INVALID_ARGUMENT)
          else run_steps
            [AppendViciByte mem zLength, AppendViciBuffer mem (take zLength name)] b)"

definition AddViciSectionStart ::
  "(nat \<Rightarrow> bool) \<Rightarrow> string option \<Rightarrow> ViciBuffer \<Rightarrow> ViciBuffer outcome" where
  "AddViciSectionStart mem pcName =
     run_steps [AppendViciByte mem (element_code VICI_ELEMENT_SECTION_START),
                AppendViciName mem pcName]"

definition AddViciSectionEnd :: "(nat \<Rightarrow> bool) \<Rightarrow> ViciBuffer \<Rightarrow> ViciBuffer outcome" where
  "AddViciSectionEnd mem = AppendViciByte mem (element_code VICI_ELEMENT_SECTION_END)"

text \<open>A 16-bit value in network byte order, as \<open>htons\<close> leaves it in memory.\<close>

definition be16 :: "nat \<Rightarrow> bytes" where
  "be16 n = [char_of (n div 256), char_of (n mod 256)]"

definition AddViciKeyValue ::
  "(nat \<Rightarrow> bool) \<Rightarrow> string option \<Rightarrow> bytes \<Rightarrow> ViciBuffer \<Rightarrow> ViciBuffer outcome" where
  "AddViciKeyValue mem pcName pvValue b =
     (if UINT16_MAX < length pvValue then (b, IPSEC_ERR_INVALID_ARGUMENT)
      else run_steps
        [AppendViciByte mem (element_code VICI_ELEMENT_KEY_VALUE),
         AppendViciName mem pcName,
         AppendViciBuffer mem (be16 (length pvValue)),
         AppendViciBuffer mem pvValue] b)"

definition AddViciKeyValueString ::
  "(nat \<Rightarrow> bool) \<Rightarrow> string option \<Rightarrow> string option \<Rightarrow> ViciBuffer \<Rightarrow> ViciBuffer outcome" where
  "AddViciKeyValueString mem pcName pcValue b =
     (case pcValue of
        None \<Rightarrow> (b, IPSEC_ERR_INVALID_ARGUMENT)
      | Some text \<Rightarrow>
          let zLength = strnlen text (UINT16_MAX + 1) in
          if UINT16_MAX < zLength then (b, IPSEC_ERR_INVALID_ARGUMENT)
          else AddViciKeyValue mem pcName (take zLength text) b)"

definition AddViciListStart ::
  "(nat \<Rightarrow> bool) \<Rightarrow> string option \<Rightarrow> ViciBuffer \<Rightarrow> ViciBuffer outcome" where
  "AddViciListStart mem pcName =
     run_steps [AppendViciByte mem (element_code VICI_ELEMENT_LIST_START),
                AppendViciName mem pcName]"

definition AddViciListItem ::
  "(nat \<Rightarrow> bool) \<Rightarrow> bytes \<Rightarrow> ViciBuffer \<Rightarrow> ViciBuffer outcome" where
  "AddViciListItem mem pvValue b =
     (if UINT16_MAX < length pvValue then (b, IPSEC_ERR_INVALID_ARGUMENT)
      else run_steps
        [AppendViciByte mem (element_code VICI_ELEMENT_LIST_ITEM),
         AppendViciBuffer mem (be16 (length pvValue)),
         AppendViciBuffer mem pvValue] b)"

definition AddViciListItemString ::
  "(nat \<Rightarrow> bool) \<Rightarrow> string option \<Rightarrow> ViciBuffer \<Rightarrow> ViciBuffer outcome" where
  "AddViciListItemString mem pcValue b =
     (case pcValue of
        None \<Rightarrow> (b, IPSEC_ERR_INVALID_ARGUMENT)
      | Some text \<Rightarrow>
          let zLength = strnlen text (UINT16_MAX + 1) in
          if UINT16_MAX < zLength then (b, IPSEC_ERR_INVALID_ARGUMENT)
          else AddViciListItem mem (take zLength text) b)"

definition AddViciListEnd :: "(nat \<Rightarrow> bool) \<Rightarrow> ViciBuffer \<Rightarrow> ViciBuffer outcome" where
  "AddViciListEnd mem = AppendViciByte mem (element_code VICI_ELEMENT_LIST_END)"

subsection \<open>Packets\<close>

definition BuildViciNamedPacket ::
  "(nat \<Rightarrow> bool) \<Rightarrow> ViciPacketType \<Rightarrow> string option \<Rightarrow> ViciBuffer option \<Rightarrow>
   ViciBuffer \<Rightarrow> ViciBuffer outcome" where
  "BuildViciNamedPacket mem eType pcName pMessage pPacket =
     (if pcName = None then (pPacket, IPSEC_ERR_INVALID_ARGUMENT)
      else
        let sensitive = (case pMessage of None \<Rightarrow> False | Some m \<Rightarrow> bSensitive m);
            (packet, e) = run_steps
              [InitializeViciBuffer mem 64 sensitive,
               AppendViciByte mem (packet_code eType),
               AppendViciName mem pcName,
               (\<lambda>b. case pMessage of None \<Rightarrow> (b, IPSEC_OK)
                    | Some m \<Rightarrow> AppendViciBuffer mem (pucData m) b)] pPacket
        in (if e \<noteq> IPSEC_OK then DestroyViciBuffer packet else packet, e))"

record ViciPacketView =
  view_eType :: ViciPacketType
  view_pucName :: "bytes option"
  view_pucMessage :: bytes

definition packet_is_named :: "ViciPacketType \<Rightarrow> bool" where
  "packet_is_named t \<longleftrightarrow>
     t = VICI_PACKET_COMMAND_REQUEST \<or> t = VICI_PACKET_EVENT_REGISTER \<or>
     t = VICI_PACKET_EVENT_UNREGISTER \<or> t = VICI_PACKET_EVENT"

definition DecodeViciPacket :: "bytes \<Rightarrow> IpsecError + ViciPacketView" where
  "DecodeViciPacket pucPacket =
     (if length pucPacket < 1 then Inl IPSEC_ERR_VICI_PROTOCOL
      else case packet_type_of (of_char (pucPacket ! 0)) of
        None \<Rightarrow> Inl IPSEC_ERR_VICI_PROTOCOL
      | Some t \<Rightarrow>
          if packet_is_named t then
            (if length pucPacket \<le> 1 then Inl IPSEC_ERR_VICI_PROTOCOL
             else let ucNameLength = of_char (pucPacket ! 1) in
               if ucNameLength = 0 \<or> length pucPacket - 2 < ucNameLength
               then Inl IPSEC_ERR_VICI_PROTOCOL
               else Inr \<lparr>view_eType = t,
                         view_pucName = Some (take ucNameLength (drop 2 pucPacket)),
                         view_pucMessage = drop (2 + ucNameLength) pucPacket\<rparr>)
          else Inr \<lparr>view_eType = t, view_pucName = None, view_pucMessage = drop 1 pucPacket\<rparr>)"

subsection \<open>What an operation writes\<close>

text \<open>
  \<open>emits mem f bs\<close>: from any well-formed buffer, \<open>f\<close> appends exactly \<open>bs\<close> when it
  succeeds; when it fails it is for want of space or memory, and what was in the buffer
  is still there.  If memory never runs out, \<open>f\<close> succeeds exactly when \<open>bs\<close> fits.
  Emitters compose, which is all the message builders need.
\<close>

definition emits :: "(nat \<Rightarrow> bool) \<Rightarrow> (ViciBuffer \<Rightarrow> ViciBuffer outcome) \<Rightarrow> bytes \<Rightarrow> bool" where
  "emits mem f bs \<longleftrightarrow>
     (\<forall>b b' e. buffer_wf b \<longrightarrow> f b = (b', e) \<longrightarrow>
        buffer_wf b' \<and> bSensitive b' = bSensitive b \<and> uiCapacity b \<le> uiCapacity b' \<and>
        prefix (pucData b) (pucData b') \<and>
        (e = IPSEC_OK \<longrightarrow> pucData b' = pucData b @ bs) \<and>
        (e \<noteq> IPSEC_OK \<longrightarrow> e = IPSEC_ERR_BUFFER_TOO_SMALL \<or> e = IPSEC_ERR_NO_MEMORY) \<and>
        ((\<forall>n. mem n) \<longrightarrow>
           (e = IPSEC_OK \<longleftrightarrow> uiLength b + length bs \<le> VICI_MAX_SEGMENT_LENGTH)))"

lemma emitsD:
  assumes "emits mem f bs" and "buffer_wf b" and "f b = (b', e)"
  shows "buffer_wf b'" and "bSensitive b' = bSensitive b" and "uiCapacity b \<le> uiCapacity b'"
    and "prefix (pucData b) (pucData b')"
    and "e = IPSEC_OK \<Longrightarrow> pucData b' = pucData b @ bs"
    and "e \<noteq> IPSEC_OK \<Longrightarrow> e = IPSEC_ERR_BUFFER_TOO_SMALL \<or> e = IPSEC_ERR_NO_MEMORY"
    and "\<forall>n. mem n \<Longrightarrow> e = IPSEC_OK \<longleftrightarrow> uiLength b + length bs \<le> VICI_MAX_SEGMENT_LENGTH"
  using assms unfolding emits_def by blast+

lemma emits_Append: "emits mem (AppendViciBuffer mem bs) bs"
  unfolding emits_def
proof (intro allI impI)
  fix b b' e
  assume wf: "buffer_wf b" and f: "AppendViciBuffer mem bs b = (b', e)"
  obtain b1 e1 where r: "ReserveViciBuffer mem (length bs) b = (b1, e1)"
    by (cases "ReserveViciBuffer mem (length bs) b") auto
  note rs = ReserveViciBuffer_cases [OF wf r]
  show "buffer_wf b' \<and> bSensitive b' = bSensitive b \<and> uiCapacity b \<le> uiCapacity b' \<and>
        prefix (pucData b) (pucData b') \<and>
        (e = IPSEC_OK \<longrightarrow> pucData b' = pucData b @ bs) \<and>
        (e \<noteq> IPSEC_OK \<longrightarrow> e = IPSEC_ERR_BUFFER_TOO_SMALL \<or> e = IPSEC_ERR_NO_MEMORY) \<and>
        ((\<forall>n. mem n) \<longrightarrow>
           (e = IPSEC_OK \<longleftrightarrow> uiLength b + length bs \<le> VICI_MAX_SEGMENT_LENGTH))"
  proof (cases "e1 = IPSEC_OK")
    case True
    then have b': "b' = b1\<lparr>pucData := pucData b @ bs\<rparr>" "e = IPSEC_OK"
      using f r rs(2) by (auto simp: AppendViciBuffer_def split: if_splits)
    then show ?thesis using rs True by (auto simp: buffer_wf_def)
  next
    case False
    then have "b' = b1" "e = e1" using f r by (auto simp: AppendViciBuffer_def)
    then show ?thesis using rs False by auto
  qed
qed

lemma emits_Nil: "emits mem (\<lambda>b. (b, IPSEC_OK)) []"
  by (auto simp: emits_def buffer_wf_def)

lemma emits_and_then:
  assumes f: "emits mem f bs" and g: "emits mem g cs"
  shows "emits mem (\<lambda>b. and_then (f b) g) (bs @ cs)"
  unfolding emits_def
proof (intro allI impI)
  fix b b' e
  assume wf: "buffer_wf b" and r: "and_then (f b) g = (b', e)"
  obtain b1 e1 where f1: "f b = (b1, e1)" by (cases "f b") auto
  note fs = emitsD [OF f wf f1]
  show "buffer_wf b' \<and> bSensitive b' = bSensitive b \<and> uiCapacity b \<le> uiCapacity b' \<and>
        prefix (pucData b) (pucData b') \<and>
        (e = IPSEC_OK \<longrightarrow> pucData b' = pucData b @ bs @ cs) \<and>
        (e \<noteq> IPSEC_OK \<longrightarrow> e = IPSEC_ERR_BUFFER_TOO_SMALL \<or> e = IPSEC_ERR_NO_MEMORY) \<and>
        ((\<forall>n. mem n) \<longrightarrow>
           (e = IPSEC_OK \<longleftrightarrow> uiLength b + length (bs @ cs) \<le> VICI_MAX_SEGMENT_LENGTH))"
  proof (cases "e1 = IPSEC_OK")
    case True
    then have "g b1 = (b', e)" using r f1 by simp
    note gs = emitsD [OF g fs(1) this]
    have "prefix (pucData b) (pucData b')" using fs(4) gs(4) by (rule prefix_order.trans)
    then show ?thesis using fs gs True by (auto simp: add.assoc)
  next
    case False
    then show ?thesis using r f1 fs by auto
  qed
qed

lemma emits_run_steps:
  assumes "list_all2 (emits mem) fs bss"
  shows "emits mem (run_steps fs) (concat bss)"
  using assms
proof (induction rule: list_all2_induct)
  case Nil
  have "run_steps [] = (\<lambda>b. (b, IPSEC_OK))" by (rule ext) simp
  then show ?case by (simp add: emits_Nil)
next
  case (Cons f fs bs bss)
  have "run_steps (f # fs) = (\<lambda>b. and_then (f b) (run_steps fs))" by (rule ext) simp
  then show ?case using Cons emits_and_then by simp
qed

lemma emits_steps2: "emits mem f a \<Longrightarrow> emits mem g b \<Longrightarrow> emits mem (run_steps [f, g]) (a @ b)"
  using emits_run_steps [of mem "[f, g]" "[a, b]"] by simp

lemma emits_steps3:
  "emits mem f a \<Longrightarrow> emits mem g b \<Longrightarrow> emits mem h c \<Longrightarrow>
   emits mem (run_steps [f, g, h]) (a @ b @ c)"
  using emits_run_steps [of mem "[f, g, h]" "[a, b, c]"] by simp

lemma emits_steps4:
  "emits mem f a \<Longrightarrow> emits mem g b \<Longrightarrow> emits mem h c \<Longrightarrow> emits mem k d \<Longrightarrow>
   emits mem (run_steps [f, g, h, k]) (a @ b @ c @ d)"
  using emits_run_steps [of mem "[f, g, h, k]" "[a, b, c, d]"] by simp

subsection \<open>Encodings of the elements\<close>

definition vici_name :: "string \<Rightarrow> bool" where
  "vici_name s \<longleftrightarrow> NUL \<notin> set s \<and> 0 < length s \<and> length s \<le> UINT8_MAX"

definition encode_name :: "string \<Rightarrow> bytes" where
  "encode_name s = char_of (length s) # s"

definition encode_value :: "bytes \<Rightarrow> bytes" where
  "encode_value v = be16 (length v) @ v"

definition element_byte :: "ViciElementType \<Rightarrow> bytes" where
  "element_byte t = [char_of (element_code t)]"

lemma emits_Byte: "emits mem (AppendViciByte mem n) [char_of n]"
  by (simp add: AppendViciByte_def emits_Append)

lemma emits_Name:
  assumes "vici_name s"
  shows "emits mem (AppendViciName mem (Some s)) (encode_name s)"
proof -
  have "strnlen s (UINT8_MAX + 1) = length s"
    using assms by (simp add: strnlen_min strlen_id vici_name_def)
  then have "AppendViciName mem (Some s) =
      run_steps [AppendViciByte mem (length s), AppendViciBuffer mem s]"
    using assms by (intro ext) (auto simp: AppendViciName_def vici_name_def)
  then show ?thesis
    using emits_steps2 [OF emits_Byte emits_Append] by (simp add: encode_name_def)
qed

lemma emits_SectionStart:
  "vici_name s \<Longrightarrow> emits mem (AddViciSectionStart mem (Some s))
     (element_byte VICI_ELEMENT_SECTION_START @ encode_name s)"
  unfolding AddViciSectionStart_def element_byte_def
  by (intro emits_steps2 emits_Byte emits_Name)

lemma emits_ListStart:
  "vici_name s \<Longrightarrow> emits mem (AddViciListStart mem (Some s))
     (element_byte VICI_ELEMENT_LIST_START @ encode_name s)"
  unfolding AddViciListStart_def element_byte_def
  by (intro emits_steps2 emits_Byte emits_Name)

lemma emits_SectionEnd: "emits mem (AddViciSectionEnd mem) (element_byte VICI_ELEMENT_SECTION_END)"
  unfolding AddViciSectionEnd_def element_byte_def by (rule emits_Byte)

lemma emits_ListEnd: "emits mem (AddViciListEnd mem) (element_byte VICI_ELEMENT_LIST_END)"
  unfolding AddViciListEnd_def element_byte_def by (rule emits_Byte)

lemma emits_KeyValue:
  assumes "vici_name s" and "length v \<le> UINT16_MAX"
  shows "emits mem (AddViciKeyValue mem (Some s) v)
     (element_byte VICI_ELEMENT_KEY_VALUE @ encode_name s @ encode_value v)"
proof -
  have "AddViciKeyValue mem (Some s) v = run_steps
      [AppendViciByte mem (element_code VICI_ELEMENT_KEY_VALUE), AppendViciName mem (Some s),
       AppendViciBuffer mem (be16 (length v)), AppendViciBuffer mem v]"
    using assms by (intro ext) (simp add: AddViciKeyValue_def)
  then show ?thesis
    unfolding element_byte_def encode_value_def
    using emits_steps4 [OF emits_Byte emits_Name emits_Append emits_Append, OF assms(1)] by simp
qed

lemma emits_ListItem:
  assumes "length v \<le> UINT16_MAX"
  shows "emits mem (AddViciListItem mem v) (element_byte VICI_ELEMENT_LIST_ITEM @ encode_value v)"
proof -
  have "AddViciListItem mem v = run_steps
      [AppendViciByte mem (element_code VICI_ELEMENT_LIST_ITEM),
       AppendViciBuffer mem (be16 (length v)), AppendViciBuffer mem v]"
    using assms by (intro ext) (simp add: AddViciListItem_def)
  then show ?thesis
    unfolding element_byte_def encode_value_def
    using emits_steps3 [OF emits_Byte emits_Append emits_Append] by simp
qed

lemma vici_string_arg:
  assumes "strlen v \<le> UINT16_MAX"
  shows "strnlen v (UINT16_MAX + 1) = strlen v" and "take (strlen v) v = cstr v"
    and "length (cstr v) \<le> UINT16_MAX"
  using assms take_strlen [of v] by (simp_all add: strnlen_min strlen_def)

lemma emits_KeyValueString:
  assumes "vici_name s" and "strlen v \<le> UINT16_MAX"
  shows "emits mem (AddViciKeyValueString mem (Some s) (Some v))
     (element_byte VICI_ELEMENT_KEY_VALUE @ encode_name s @ encode_value (cstr v))"
proof -
  have "AddViciKeyValueString mem (Some s) (Some v) = AddViciKeyValue mem (Some s) (cstr v)"
    using assms vici_string_arg [OF assms(2)]
    by (intro ext) (simp add: AddViciKeyValueString_def Let_def)
  then show ?thesis using emits_KeyValue assms vici_string_arg [OF assms(2)] by simp
qed

lemma emits_ListItemString:
  assumes "strlen v \<le> UINT16_MAX"
  shows "emits mem (AddViciListItemString mem (Some v))
     (element_byte VICI_ELEMENT_LIST_ITEM @ encode_value (cstr v))"
proof -
  have "AddViciListItemString mem (Some v) = AddViciListItem mem (cstr v)"
    using vici_string_arg [OF assms] assms
    by (intro ext) (simp add: AddViciListItemString_def Let_def)
  then show ?thesis using emits_ListItem vici_string_arg [OF assms] by simp
qed

subsection \<open>Packets built by the library decode to what was put in\<close>

lemma zero_buffer_wf [simp]: "buffer_wf (zero_buffer\<lparr>bSensitive := s\<rparr>)" "buffer_wf zero_buffer"
  by (simp_all add: buffer_wf_def zero_buffer_def)

lemma zero_buffer_data [simp]: "pucData zero_buffer = []" "uiCapacity zero_buffer = 0"
  by (simp_all add: zero_buffer_def)

lemma InitializeViciBuffer_cases:
  assumes "n \<le> VICI_MAX_SEGMENT_LENGTH" and "InitializeViciBuffer mem n s b = (b', e)"
  shows "buffer_wf b'" and "pucData b' = []" and "bSensitive b' = s"
    and "e = IPSEC_OK \<Longrightarrow> n \<le> uiCapacity b'"
    and "\<forall>k. mem k \<Longrightarrow> e = IPSEC_OK"
proof -
  have r: "ReserveViciBuffer mem n (zero_buffer\<lparr>bSensitive := s\<rparr>) = (b', e)"
    using assms by (simp add: InitializeViciBuffer_def)
  note rs = ReserveViciBuffer_cases [OF zero_buffer_wf(1) r]
  show "buffer_wf b'" and "pucData b' = []" and "bSensitive b' = s"
    and "e = IPSEC_OK \<Longrightarrow> n \<le> uiCapacity b'"
    and "\<forall>k. mem k \<Longrightarrow> e = IPSEC_OK"
    using rs assms(1) by simp_all
qed

lemma emits_message:
  "emits mem (\<lambda>b. case m of None \<Rightarrow> (b, IPSEC_OK) | Some m \<Rightarrow> AppendViciBuffer mem (pucData m) b)
     (case m of None \<Rightarrow> [] | Some m \<Rightarrow> pucData m)"
  by (cases m) (simp_all add: emits_Nil emits_Append)

lemma BuildViciNamedPacket_cases:
  assumes s: "vici_name s" and b: "BuildViciNamedPacket mem t (Some s) m p = (p', e)"
  defines "text \<equiv> char_of (packet_code t) # encode_name s @
      (case m of None \<Rightarrow> [] | Some m \<Rightarrow> pucData m)"
  shows "e = IPSEC_OK \<Longrightarrow> pucData p' = text \<and> buffer_wf p' \<and>
           bSensitive p' = (case m of None \<Rightarrow> False | Some m \<Rightarrow> bSensitive m)"
    and "e \<noteq> IPSEC_OK \<Longrightarrow> p' = zero_buffer"
    and "\<forall>k. mem k \<Longrightarrow> e = IPSEC_OK \<longleftrightarrow> length text \<le> VICI_MAX_SEGMENT_LENGTH"
proof -
  let ?msg = "\<lambda>b. case m of None \<Rightarrow> (b, IPSEC_OK) | Some m \<Rightarrow> AppendViciBuffer mem (pucData m) b"
  let ?sens = "case m of None \<Rightarrow> False | Some m \<Rightarrow> bSensitive m"
  let ?body = "run_steps [AppendViciByte mem (packet_code t), AppendViciName mem (Some s), ?msg]"
  obtain b0 e0 where i: "InitializeViciBuffer mem 64 ?sens p = (b0, e0)"
    by (cases "InitializeViciBuffer mem 64 ?sens p") auto
  note ini = InitializeViciBuffer_cases [OF _ i, simplified]
  have body: "emits mem ?body text"
    using emits_steps3 [OF emits_Byte emits_Name [OF s] emits_message]
    by (simp add: text_def)
  obtain b1 e1 where r: "?body b0 = (b1, e1)" by (cases "?body b0") auto
  note bs = emitsD [OF body ini(1) r]
  have eq: "(p', e) = (let (packet, e) = and_then (b0, e0) ?body
      in (if e \<noteq> IPSEC_OK then zero_buffer else packet, e))"
    using b [symmetric] by (simp add: BuildViciNamedPacket_def i DestroyViciBuffer_def
        split: prod.splits)
  show "e = IPSEC_OK \<Longrightarrow> pucData p' = text \<and> buffer_wf p' \<and> bSensitive p' = ?sens"
    and "e \<noteq> IPSEC_OK \<Longrightarrow> p' = zero_buffer"
    and "\<forall>k. mem k \<Longrightarrow> e = IPSEC_OK \<longleftrightarrow> length text \<le> VICI_MAX_SEGMENT_LENGTH"
    using eq r ini bs
    by (cases "e0 = IPSEC_OK"; cases "e1 = IPSEC_OK";
        simp only: and_then_simps Let_def prod.case; simp)+
qed

lemma DecodeViciPacket_named:
  assumes "packet_is_named t" and "0 < length s" and "length s \<le> UINT8_MAX"
  shows "DecodeViciPacket (char_of (packet_code t) # encode_name s @ msg) =
     Inr \<lparr>view_eType = t, view_pucName = Some s, view_pucMessage = msg\<rparr>"
  using assms packet_code_le [of t]
  by (simp add: DecodeViciPacket_def encode_name_def)

subsection \<open>Properties\<close>

text \<open>Growing a buffer: the doubling loop returns, the capacity never shrinks and never
  passes the segment limit, the content is untouched, success means the requested room is
  there, and with memory available the call fails exactly when the limit would be passed.\<close>

theorem ReserveViciBuffer_bounds:
  assumes "buffer_wf b" and "ReserveViciBuffer mem n b = (b', e)"
  shows "buffer_wf b' \<and> pucData b' = pucData b \<and> bSensitive b' = bSensitive b \<and>
     uiCapacity b \<le> uiCapacity b' \<and>
     (e = IPSEC_OK \<longrightarrow> uiLength b + n \<le> uiCapacity b') \<and>
     (e \<noteq> IPSEC_OK \<longrightarrow> b' = b) \<and>
     ((\<forall>k. mem k) \<longrightarrow> (e = IPSEC_OK \<longleftrightarrow> uiLength b + n \<le> VICI_MAX_SEGMENT_LENGTH))"
  using ReserveViciBuffer_cases [OF assms] by blast

theorem ReserveViciBuffer_bounds_witness:
  "let (b', e) = ReserveViciBuffer (\<lambda>_. True) 100 \<lparr>pucData = ''abc'', uiCapacity = 64, bSensitive = True\<rparr>
   in e = IPSEC_OK \<and> 103 \<le> uiCapacity b'"
proof -
  let ?b = "\<lparr>pucData = ''abc'', uiCapacity = 64, bSensitive = True\<rparr>"
  have "buffer_wf ?b" by (simp add: buffer_wf_def)
  from ReserveViciBuffer_bounds [OF this, of "\<lambda>_. True" 100] show ?thesis
    by (cases "ReserveViciBuffer (\<lambda>_. True) 100 ?b") auto
qed

text \<open>A named packet that the library builds is decoded to its type, its name and its
  message; the message keeps its wipe flag, and with memory available the build fails
  exactly when the packet is longer than a segment.\<close>

theorem BuildViciNamedPacket_decodes:
  assumes "vici_name name" and "packet_is_named t"
    and "BuildViciNamedPacket mem t (Some name) m p0 = (p, e)"
  shows "(e = IPSEC_OK \<longrightarrow>
       DecodeViciPacket (pucData p) = Inr \<lparr>view_eType = t, view_pucName = Some name,
         view_pucMessage = (case m of None \<Rightarrow> [] | Some b \<Rightarrow> pucData b)\<rparr> \<and>
       bSensitive p = (case m of None \<Rightarrow> False | Some b \<Rightarrow> bSensitive b)) \<and>
     (e \<noteq> IPSEC_OK \<longrightarrow> p = zero_buffer) \<and>
     ((\<forall>k. mem k) \<longrightarrow> (e = IPSEC_OK \<longleftrightarrow>
       2 + length name + (case m of None \<Rightarrow> 0 | Some b \<Rightarrow> uiLength b) \<le> VICI_MAX_SEGMENT_LENGTH))"
proof -
  have "0 < length name" "length name \<le> UINT8_MAX" using assms(1) by (auto simp: vici_name_def)
  then have "DecodeViciPacket (char_of (packet_code t) # encode_name name @ msg) =
      Inr \<lparr>view_eType = t, view_pucName = Some name, view_pucMessage = msg\<rparr>" for msg
    by (rule DecodeViciPacket_named [OF assms(2)])
  from this [of "case m of None \<Rightarrow> [] | Some b \<Rightarrow> pucData b"] show ?thesis
    using BuildViciNamedPacket_cases [OF assms(1,3)]
    by (cases m) (simp_all add: encode_name_def)
qed

theorem BuildViciNamedPacket_decodes_witness:
  "let (p, e) = BuildViciNamedPacket (\<lambda>_. True) VICI_PACKET_COMMAND_REQUEST (Some ''version'') None zero_buffer
   in e = IPSEC_OK \<and> DecodeViciPacket (pucData p) = Inr \<lparr>view_eType = VICI_PACKET_COMMAND_REQUEST,
        view_pucName = Some ''version'', view_pucMessage = []\<rparr>"
proof -
  let ?r = "BuildViciNamedPacket (\<lambda>_. True) VICI_PACKET_COMMAND_REQUEST (Some ''version'') None zero_buffer"
  have "vici_name ''version''" "packet_is_named VICI_PACKET_COMMAND_REQUEST" by code_simp+
  from BuildViciNamedPacket_decodes [OF this, of "\<lambda>_. True" None zero_buffer "fst ?r" "snd ?r"]
  show ?thesis by (cases ?r) simp
qed

end
