(* ===== verification/Environment.thy ===== *)
theory Environment
  imports ViciPacket "HOL-Library.Word"
begin

unbundle bit_operations_syntax

section \<open>The library context and the operating system\<close>

text \<open>
  \<open>IpsecContext\<close> is the structure of \<open>ipsec/internal/ipsec_internal.h\<close>; \<open>Ipsec\<close> extends
  it with what the library sees and does of its environment:

  \<^item> \<open>os_trace\<close>, the outcomes of the system calls still to come, one per call.  A call
    whose outcome is missing, or is that of another call, fails; so every list is a
    possible (finite) behaviour of the system and the loops of the library, each of which
    makes a call that may fail, return.
  \<^item> \<open>os_in\<close>, the bytes the daemon sends that were not received yet, and \<open>os_out\<close>, the bytes
    the kernel took from the library.  The trace only says how many bytes one call moves.
  \<^item> \<open>os_open\<close>, the open descriptors, \<open>os_locked\<close>, the command mutex, \<open>os_waits\<close>, the
    timeouts handed to \<open>poll\<close>, \<open>os_peer\<close>, the address of the last \<open>connect\<close>, \<open>os_requests\<close>, the
    netlink requests sent with their socket and its protocol, and \<open>os_log\<close>, the messages given to
    the log callback.
  \<^item> \<open>os_names\<close>, the names of the network interfaces by index.
  \<^item> \<open>os_mem\<close>, the allocator: whether the \<open>k\<close>-th buffer can get a block of \<open>n\<close> bytes.
\<close>

datatype errno = EINTR | EAGAIN | EACCES | EPERM | EINPROGRESS | EOTHER

datatype os_event =
    Clock nat nat
  | PollReady "16 word"
  | PollTimeout
  | PollErrno errno
  | SocketFd nat
  | SocketErrno errno
  | FcntlOk
  | FcntlErrno errno
  | ConnectOk
  | ConnectErrno errno
  | SockOpt "errno option"
  | SockOptErrno errno
  | Moved nat
  | MoveErrno errno
  | Slept
  | SleepErrno errno
  | MutexOk
  | MutexFailed
  | BindOk
  | BindErrno errno
  | ProcessId nat
  | Datagram nat bytes
  | OpenFd nat
  | OpenErrno errno
  | ReadBytes bytes
  | ReadErrno errno
  | StopSignal

datatype IpsecLogLevel = IPSEC_LOG_ERROR | IPSEC_LOG_WARNING | IPSEC_LOG_INFO | IPSEC_LOG_DEBUG

abbreviation IPSEC_VICI_SOCKET_PATH_LENGTH :: nat where "IPSEC_VICI_SOCKET_PATH_LENGTH \<equiv> 108"
abbreviation IPSEC_LOG_MESSAGE_LENGTH :: nat where "IPSEC_LOG_MESSAGE_LENGTH \<equiv> 1024"
abbreviation INT32_MAX :: nat where "INT32_MAX \<equiv> 2147483647"

record IpsecContext =
  iViciSocket :: int
  acViciSocketPath :: cbuf
  uiConnectTimeoutMs :: nat
  uiCommandTimeoutMs :: nat
  ullCommandDeadlineMs :: nat
  bCommandMutexInitialized :: bool
  pLogCallback :: bool

record Ipsec = IpsecContext +
  os_trace :: "os_event list"
  os_in :: bytes
  os_out :: bytes
  os_open :: "int list"
  os_locked :: bool
  os_waits :: "nat list"
  os_peer :: string
  os_requests :: "(int \<times> nat \<times> bytes) list"
  os_log :: "(IpsecLogLevel \<times> string) list"
  os_names :: "nat \<Rightarrow> string option"
  os_mem :: "nat \<Rightarrow> nat \<Rightarrow> bool"
  os_buffers :: nat

subsection \<open>System calls\<close>

definition next_event :: "Ipsec \<Rightarrow> os_event option \<times> Ipsec" where
  "next_event w =
     (case os_trace w of [] \<Rightarrow> (None, w) | ev # evs \<Rightarrow> (Some ev, w\<lparr>os_trace := evs\<rparr>))"

definition sys_poll :: "nat \<Rightarrow> Ipsec \<Rightarrow> os_event \<times> Ipsec" where
  "sys_poll iTimeoutMs w =
     (let (ev, w) = next_event w; w = w\<lparr>os_waits := os_waits w @ [iTimeoutMs]\<rparr>
      in case ev of
           Some (PollReady flags) \<Rightarrow> (PollReady flags, w)
         | Some PollTimeout \<Rightarrow> (PollTimeout, w)
         | Some (PollErrno e) \<Rightarrow> (PollErrno e, w)
         | _ \<Rightarrow> (PollErrno EOTHER, w))"

text \<open>\<open>send\<close> and \<open>recv\<close> of at most \<open>n\<close> bytes; the result 0 of \<open>recv\<close> is the end of the
  stream.\<close>

definition sys_send :: "bytes \<Rightarrow> Ipsec \<Rightarrow> (errno + nat) \<times> Ipsec" where
  "sys_send data w =
     (let (ev, w) = next_event w in
      case ev of
        Some (Moved k) \<Rightarrow> (let bs = take k data in (Inr (length bs), w\<lparr>os_out := os_out w @ bs\<rparr>))
      | Some (MoveErrno e) \<Rightarrow> (Inl e, w)
      | _ \<Rightarrow> (Inl EOTHER, w))"

definition sys_recv :: "nat \<Rightarrow> Ipsec \<Rightarrow> (errno + bytes) \<times> Ipsec" where
  "sys_recv n w =
     (let (ev, w) = next_event w in
      case ev of
        Some (Moved k) \<Rightarrow>
          (let bs = take (min k n) (os_in w) in (Inr bs, w\<lparr>os_in := drop (length bs) (os_in w)\<rparr>))
      | Some (MoveErrno e) \<Rightarrow> (Inl e, w)
      | _ \<Rightarrow> (Inl EOTHER, w))"

text \<open>A new descriptor is none of the open ones.\<close>

definition sys_socket :: "Ipsec \<Rightarrow> (errno + int) \<times> Ipsec" where
  "sys_socket w =
     (let (ev, w) = next_event w in
      case ev of
        Some (SocketFd fd) \<Rightarrow>
          if int fd \<in> set (os_open w) then (Inl EOTHER, w)
          else (Inr (int fd), w\<lparr>os_open := int fd # os_open w\<rparr>)
      | Some (SocketErrno e) \<Rightarrow> (Inl e, w)
      | _ \<Rightarrow> (Inl EOTHER, w))"

definition sys_fcntl :: "Ipsec \<Rightarrow> bool \<times> Ipsec" where
  "sys_fcntl w = (let (ev, w) = next_event w in (ev = Some FcntlOk, w))"

definition sys_connect :: "string \<Rightarrow> Ipsec \<Rightarrow> errno option \<times> Ipsec" where
  "sys_connect path w =
     (let (ev, w) = next_event w; w = w\<lparr>os_peer := path\<rparr> in
      case ev of
        Some ConnectOk \<Rightarrow> (None, w)
      | Some (ConnectErrno e) \<Rightarrow> (Some e, w)
      | _ \<Rightarrow> (Some EOTHER, w))"

definition sys_getsockopt :: "Ipsec \<Rightarrow> (errno + errno option) \<times> Ipsec" where
  "sys_getsockopt w =
     (let (ev, w) = next_event w in
      case ev of
        Some (SockOpt e) \<Rightarrow> (Inr e, w)
      | Some (SockOptErrno e) \<Rightarrow> (Inl e, w)
      | _ \<Rightarrow> (Inl EOTHER, w))"

definition sys_close :: "int \<Rightarrow> Ipsec \<Rightarrow> Ipsec" where
  "sys_close fd w = w\<lparr>os_open := removeAll fd (os_open w)\<rparr>"

definition sys_lock :: "Ipsec \<Rightarrow> bool \<times> Ipsec" where
  "sys_lock w =
     (let (ev, w) = next_event w in
      if ev = Some MutexOk then (True, w\<lparr>os_locked := True\<rparr>) else (False, w))"

definition sys_unlock :: "Ipsec \<Rightarrow> Ipsec" where
  "sys_unlock w = w\<lparr>os_locked := False\<rparr>"

definition next_mem :: "Ipsec \<Rightarrow> (nat \<Rightarrow> bool) \<times> Ipsec" where
  "next_mem w = (os_mem w (os_buffers w), w\<lparr>os_buffers := Suc (os_buffers w)\<rparr>)"

subsection \<open>Logging, the clock and sleeping (\<open>core/log.c\<close>, \<open>core/util.c\<close>)\<close>

text \<open>The formatted text is cut to the local array of \<open>LogIpsec\<close>.\<close>

definition LogIpsec :: "IpsecLogLevel \<Rightarrow> string \<Rightarrow> Ipsec \<Rightarrow> Ipsec" where
  "LogIpsec eLevel text w =
     (if \<not> pLogCallback w then w
      else w\<lparr>os_log := os_log w @ [(eLevel, take (IPSEC_LOG_MESSAGE_LENGTH - 1) (cstr text))]\<rparr>)"

definition GetIpsecMonotonicMilliseconds :: "Ipsec \<Rightarrow> nat \<times> Ipsec" where
  "GetIpsecMonotonicMilliseconds w =
     (let (ev, w) = next_event w in
      case ev of
        Some (Clock tv_sec tv_nsec) \<Rightarrow> (u64 (u64 (tv_sec * 1000) + tv_nsec div 1000000), w)
      | _ \<Rightarrow> (0, w))"

lemma next_event_trace:
  "next_event w = (ev, w') \<Longrightarrow>
   length (os_trace w') \<le> length (os_trace w) \<and>
   (ev \<noteq> None \<longrightarrow> length (os_trace w') < length (os_trace w))"
  by (auto simp: next_event_def split: list.splits)

lemma clock_trace:
  assumes "GetIpsecMonotonicMilliseconds w = (now, w')"
  shows "length (os_trace w') \<le> length (os_trace w)"
    and "now \<noteq> 0 \<Longrightarrow> length (os_trace w') < length (os_trace w)"
  using assms next_event_trace [of w]
  by (auto simp: GetIpsecMonotonicMilliseconds_def split: prod.splits option.splits os_event.splits)

text \<open>\<open>nanosleep\<close> leaves what remains of the delay; the requested delay of the first call is
  kept in \<open>os_waits\<close>.\<close>

function sleep_loop :: "Ipsec \<Rightarrow> Ipsec outcome" where
  "sleep_loop w =
     (let (ev, w') = next_event w in
      case ev of
        Some Slept \<Rightarrow> (w', IPSEC_OK)
      | Some (SleepErrno e) \<Rightarrow> if e \<noteq> EINTR then (w', IPSEC_ERR_INTERNAL) else sleep_loop w'
      | _ \<Rightarrow> (w', IPSEC_ERR_INTERNAL))"
  by pat_completeness auto
termination
  by (relation "measure (\<lambda>w. length (os_trace w))") (auto dest: next_event_trace [OF sym])

declare sleep_loop.simps [simp del]

definition SleepIpsecMilliseconds :: "nat \<Rightarrow> Ipsec \<Rightarrow> Ipsec outcome" where
  "SleepIpsecMilliseconds uiMilliseconds w =
     sleep_loop (w\<lparr>os_waits := os_waits w @ [uiMilliseconds]\<rparr>)"

end
