(* ===== verification/ViciTransport.thy ===== *)
theory ViciTransport
  imports Environment
begin

section \<open>The VICI transport (\<open>ipsec/vici/vici_transport.c\<close>)\<close>

text \<open>
  A packet on the socket is a 32-bit length in network byte order and that many bytes.
  Every wait is bounded by a deadline, and any failure closes the socket.
\<close>

abbreviation POLLIN :: "16 word" where "POLLIN \<equiv> 1"
abbreviation POLLOUT :: "16 word" where "POLLOUT \<equiv> 4"
abbreviation POLLERR :: "16 word" where "POLLERR \<equiv> 8"
abbreviation POLLHUP :: "16 word" where "POLLHUP \<equiv> 16"
abbreviation POLLNVAL :: "16 word" where "POLLNVAL \<equiv> 32"

definition GetViciCommandDeadline :: "Ipsec \<Rightarrow> nat \<times> Ipsec" where
  "GetViciCommandDeadline w =
     (if ullCommandDeadlineMs w \<noteq> 0 then (ullCommandDeadlineMs w, w)
      else
        let (ullNowMs, w) = GetIpsecMonotonicMilliseconds w in
        if ullNowMs = 0 \<or> u64_sub UINT64_MAX (uiCommandTimeoutMs w) < ullNowMs then (0, w)
        else (u64 (ullNowMs + uiCommandTimeoutMs w), w))"

lemma sys_poll_trace: "sys_poll t w = (r, w') \<Longrightarrow> length (os_trace w') \<le> length (os_trace w)"
  using next_event_trace [of w]
  by (auto simp: sys_poll_def Let_def split: prod.splits option.splits os_event.splits)

function WaitViciSocket :: "16 word \<Rightarrow> nat \<Rightarrow> Ipsec \<Rightarrow> Ipsec outcome" where
  "WaitViciSocket sEvents ullDeadlineMs w =
     (let (ullNowMs, w1) = GetIpsecMonotonicMilliseconds w in
      if ullNowMs = 0 \<or> ullDeadlineMs \<le> ullNowMs then (w1, IPSEC_ERR_VICI_TIMEOUT)
      else
        let ullRemainingMs = u64_sub ullDeadlineMs ullNowMs;
            iTimeoutMs = (if INT32_MAX < ullRemainingMs then INT32_MAX else ullRemainingMs);
            (iResult, w2) = sys_poll iTimeoutMs w1
        in case iResult of
             PollReady revents \<Rightarrow>
               if revents AND (POLLERR OR POLLHUP OR POLLNVAL) \<noteq> 0
               then (w2, IPSEC_ERR_VICI_TRANSPORT)
               else if revents AND sEvents \<noteq> 0 then (w2, IPSEC_OK)
               else (w2, IPSEC_ERR_VICI_TRANSPORT)
           | PollErrno e \<Rightarrow>
               if e \<noteq> EINTR then (w2, IPSEC_ERR_VICI_TRANSPORT)
               else WaitViciSocket sEvents ullDeadlineMs w2
           | _ \<Rightarrow> (w2, IPSEC_ERR_VICI_TIMEOUT))"
  by pat_completeness auto
termination
proof (relation "measure (\<lambda>(ev, dl, w). length (os_trace w))", goal_cases)
  case 1
  then show ?case by simp
next
  case (2 ev dl w x now w1 rem t y r w2 e)
  then show ?case using clock_trace [of w now w1] sys_poll_trace [of t w1 r w2] by simp
qed

declare WaitViciSocket.simps [simp del]

lemma WaitViciSocket_trace:
  "WaitViciSocket ev dl w = (w', e) \<Longrightarrow> length (os_trace w') \<le> length (os_trace w) \<and>
     (e = IPSEC_OK \<longrightarrow> length (os_trace w') < length (os_trace w))"
proof (induction ev dl w arbitrary: w' e rule: WaitViciSocket.induct)
  case (1 ev dl w)
  obtain now w1 where c: "GetIpsecMonotonicMilliseconds w = (now, w1)" by fastforce
  let ?rem = "u64_sub dl now"
  let ?t = "if INT32_MAX < ?rem then INT32_MAX else ?rem"
  obtain r w2 where p: "sys_poll ?t w1 = (r, w2)" by fastforce
  note tr = clock_trace [OF c] sys_poll_trace [OF p]
  show ?case
  proof (cases "now = 0 \<or> dl \<le> now \<or> r \<noteq> PollErrno EINTR")
    case True
    then show ?thesis
      using "1.prems" c p tr
      by (subst (asm) WaitViciSocket.simps) (auto simp: Let_def split: if_splits os_event.splits)
  next
    case False
    then have "WaitViciSocket ev dl w2 = (w', e)"
      using "1.prems" c p by (subst (asm) WaitViciSocket.simps) (auto simp: Let_def)
    with "1.IH" [OF c [symmetric] refl _ refl refl p [symmetric] refl] False tr show ?thesis
      by fastforce
  qed
qed

lemma sys_send_trace: "sys_send d w = (r, w') \<Longrightarrow> length (os_trace w') \<le> length (os_trace w)"
  using next_event_trace [of w]
  by (auto simp: sys_send_def Let_def split: prod.splits option.splits os_event.splits)

lemma sys_recv_trace: "sys_recv n w = (r, w') \<Longrightarrow> length (os_trace w') \<le> length (os_trace w)"
  using next_event_trace [of w]
  by (auto simp: sys_recv_def Let_def split: prod.splits option.splits os_event.splits)

text \<open>The loop of \<open>TransferViciBytes\<close>: \<open>pucBytes\<close> is the caller's block \<open>pucData\<close>, which \<open>recv\<close> fills
  from \<open>uiOffset\<close> on.\<close>

definition move_bytes ::
  "bool \<Rightarrow> bytes \<Rightarrow> nat \<Rightarrow> Ipsec \<Rightarrow> (errno + bytes \<times> nat) \<times> Ipsec" where
  "move_bytes bSend pucBytes uiOffset w =
     (if bSend
      then (let (r, w) = sys_send (drop uiOffset pucBytes) w in
            (case r of Inl e \<Rightarrow> Inl e | Inr n \<Rightarrow> Inr (pucBytes, n), w))
      else (let (r, w) = sys_recv (u32_sub (length pucBytes) uiOffset) w in
            (case r of Inl e \<Rightarrow> Inl e
             | Inr bs \<Rightarrow> Inr (buf_write pucBytes uiOffset bs, length bs), w)))"

lemma move_bytes_trace:
  "move_bytes b d off w = (r, w') \<Longrightarrow> length (os_trace w') \<le> length (os_trace w)"
  using sys_send_trace sys_recv_trace
  by (auto simp: move_bytes_def split: prod.splits if_splits)

function transfer_loop ::
  "bool \<Rightarrow> nat \<Rightarrow> bytes \<Rightarrow> nat \<Rightarrow> Ipsec \<Rightarrow> (bytes \<times> Ipsec) outcome" where
  "transfer_loop bSend ullDeadlineMs pucBytes uiOffset w =
     (if uiOffset < length pucBytes
      then
        let (w1, eError) = WaitViciSocket (if bSend then POLLOUT else POLLIN) ullDeadlineMs w in
        if eError \<noteq> IPSEC_OK then ((pucBytes, w1), eError)
        else
          let (lResult, w2) = move_bytes bSend pucBytes uiOffset w1 in
          case lResult of
            Inr (data, n) \<Rightarrow>
              if 0 < n then transfer_loop bSend ullDeadlineMs data (uiOffset + n) w2
              else ((data, w2), IPSEC_ERR_VICI_TRANSPORT)
          | Inl e \<Rightarrow>
              if e = EINTR \<or> e = EAGAIN then transfer_loop bSend ullDeadlineMs pucBytes uiOffset w2
              else ((pucBytes, w2), IPSEC_ERR_VICI_TRANSPORT)
      else ((pucBytes, w), IPSEC_OK))"
  by pat_completeness auto
termination
  by (relation "measure (\<lambda>(b, dl, d, off, w). length (os_trace w))")
    (auto dest!: WaitViciSocket_trace [OF sym] move_bytes_trace [OF sym])

declare transfer_loop.simps [simp del]

definition TransferViciBytes ::
  "bool \<Rightarrow> nat \<Rightarrow> bytes \<Rightarrow> Ipsec \<Rightarrow> (bytes \<times> Ipsec) outcome" where
  "TransferViciBytes bSend ullDeadlineMs pucBytes w =
     transfer_loop bSend ullDeadlineMs pucBytes 0 w"

definition DisconnectViciTransport :: "Ipsec \<Rightarrow> Ipsec" where
  "DisconnectViciTransport w =
     (if 0 \<le> iViciSocket w then (sys_close (iViciSocket w) w)\<lparr>iViciSocket := -1\<rparr> else w)"

definition socket_error :: "errno \<Rightarrow> IpsecError" where
  "socket_error e = (if e = EACCES then IPSEC_ERR_PERMISSION else IPSEC_ERR_VICI_CONNECT)"

definition finish_connect :: "Ipsec \<Rightarrow> Ipsec outcome" where
  "finish_connect w =
     (let (now, w) = GetIpsecMonotonicMilliseconds w;
          ullDeadlineMs = u64 (now + uiConnectTimeoutMs w)
      in and_then (WaitViciSocket POLLOUT ullDeadlineMs w)
           (\<lambda>w. let (iResult, w) = sys_getsockopt w in
                case iResult of
                  Inl e \<Rightarrow> (w, socket_error e)
                | Inr (Some e) \<Rightarrow> (w, socket_error e)
                | Inr None \<Rightarrow> (w, IPSEC_OK)))"

definition open_vici_socket :: "Ipsec \<Rightarrow> Ipsec outcome" where
  "open_vici_socket w =
     (let (fd, w) = sys_socket w in
      case fd of
        Inl e \<Rightarrow> (w\<lparr>iViciSocket := -1\<rparr>, socket_error e)
      | Inr n \<Rightarrow>
          (let w = w\<lparr>iViciSocket := n\<rparr>;
               (got, w) = sys_fcntl w;
               (set, w) = (if got then sys_fcntl w else (False, w))
           in if \<not> got \<or> \<not> set then (w, IPSEC_ERR_VICI_CONNECT)
              else
                let (iResult, w) = sys_connect (cstr (acViciSocketPath w)) w in
                case iResult of
                  None \<Rightarrow> (w, IPSEC_OK)
                | Some e \<Rightarrow> if e = EINPROGRESS then finish_connect w else (w, socket_error e)))"

definition ConnectViciTransport :: "Ipsec \<Rightarrow> Ipsec outcome" where
  "ConnectViciTransport w =
     (if acViciSocketPath w ! 0 = NUL then (w, IPSEC_ERR_INVALID_ARGUMENT)
      else if 0 \<le> iViciSocket w then (w, IPSEC_OK)
      else
        let (w, eError) = open_vici_socket w in
        (if eError \<noteq> IPSEC_OK then DisconnectViciTransport w else w, eError))"

text \<open>A 32-bit value in network byte order and back (\<open>htonl\<close>, \<open>ntohl\<close>).\<close>

definition be32 :: "nat \<Rightarrow> bytes" where
  "be32 n = [char_of (n div 16777216), char_of (n div 65536 mod 256),
             char_of (n div 256 mod 256), char_of (n mod 256)]"

definition be32_value :: "bytes \<Rightarrow> nat" where
  "be32_value bs = foldl (\<lambda>acc c. acc * 256 + of_char c) 0 bs"

lemma be32_inverse:
  assumes "n \<le> UINT32_MAX"
  shows "be32_value (be32 n) = n"
proof -
  define a b where "a = n div 256" and "b = n div 256 div 256"
  have n: "a * 256 + n mod 256 = n" "b * 256 + a mod 256 = a" "b div 256 * 256 + b mod 256 = b"
    by (simp_all add: a_def b_def)
  have d: "n div 16777216 = b div 256" "n div 65536 = b" "n div 256 = a"
    by (simp_all add: a_def b_def div_mult2_eq [symmetric])
  have "b div 256 < 256" using assms by (simp add: b_def div_mult2_eq [symmetric])
  then have "be32_value (be32 n) = ((b div 256 * 256 + b mod 256) * 256 + a mod 256) * 256 + n mod 256"
    by (simp only: be32_value_def be32_def d foldl.simps of_char_small mod_less_divisor
        zero_less_numeral mult_0 add_0)
  then show ?thesis by (simp only: n)
qed

lemma length_be32 [simp]: "length (be32 n) = 4"
  by (simp add: be32_def)

lemma be32_value_inverse: "length h = 4 \<Longrightarrow> be32 (be32_value h) = h"
proof -
  assume "length h = 4"
  then obtain a b c d where h: "h = [a, b, c, d]"
    by (auto simp: length_Suc_conv numeral_eq_Suc)
  define A B C D where "A = (of_char a :: nat)" and "B = (of_char b :: nat)"
    and "C = (of_char c :: nat)" and "D = (of_char d :: nat)"
  have lt: "A \<le> 255" "B \<le> 255" "C \<le> 255" "D \<le> 255"
    by (simp_all add: A_def B_def C_def D_def of_char_le_255)
  have v: "be32_value h = ((A * 256 + B) * 256 + C) * 256 + D"
    by (simp add: h be32_value_def A_def B_def C_def D_def)
  define V where "V = ((A * 256 + B) * 256 + C) * 256 + D"
  have d: "V div 256 = (A * 256 + B) * 256 + C" "((A * 256 + B) * 256 + C) div 256 = A * 256 + B"
    "(A * 256 + B) div 256 = A"
    using lt by (simp_all add: V_def)
  have m: "V mod 256 = D" "((A * 256 + B) * 256 + C) mod 256 = C" "(A * 256 + B) mod 256 = B"
    using lt by (simp_all only: V_def mod_mult_self3) simp_all
  have q: "V div 65536 = A * 256 + B" "V div 16777216 = A"
    using div_mult2_eq [of V 256 256] div_mult2_eq [of V 65536 256] d by simp_all
  have "be32 V = [char_of A, char_of B, char_of C, char_of D]"
    by (simp only: be32_def q d m)
  then have "be32 V = h" by (simp add: h A_def B_def C_def D_def)
  then show ?thesis by (simp only: v V_def)
qed

definition SendViciTransportPacket :: "ViciBuffer \<Rightarrow> Ipsec \<Rightarrow> Ipsec outcome" where
  "SendViciTransportPacket pPacket w =
     (if VICI_MAX_SEGMENT_LENGTH < uiLength pPacket then (w, IPSEC_ERR_INVALID_ARGUMENT)
      else
        let (w, eError) = and_then (ConnectViciTransport w) (\<lambda>w.
              let (ullDeadlineMs, w) = GetViciCommandDeadline w;
                  ((_, w), eError) = TransferViciBytes True ullDeadlineMs (be32 (uiLength pPacket)) w
              in and_then (w, eError) (\<lambda>w.
                   let ((_, w), eError) = TransferViciBytes True ullDeadlineMs (pucData pPacket) w
                   in (w, eError)))
        in (if eError \<noteq> IPSEC_OK then DisconnectViciTransport w else w, eError))"

text \<open>The received block is fresh memory: its bytes before the transfer are arbitrary and
  written here as zero; on success all of them were received.\<close>

definition receive_body :: "nat \<Rightarrow> nat \<Rightarrow> ViciBuffer \<times> Ipsec \<Rightarrow> (ViciBuffer \<times> Ipsec) outcome" where
  "receive_body ullDeadlineMs uiPacketLength s =
     (let (pPacket, w) = s; (mem, w) = next_mem w;
          (pPacket, eError) = InitializeViciBuffer mem uiPacketLength False pPacket
      in and_then ((pPacket, w), eError) (\<lambda>(pPacket, w).
           let pPacket = pPacket\<lparr>pucData := replicate uiPacketLength NUL\<rparr>;
               ((data, w), eError) = TransferViciBytes False ullDeadlineMs (pucData pPacket) w
           in ((pPacket\<lparr>pucData := data\<rparr>, w), eError)))"

definition ReceiveViciTransportPacket ::
  "ViciBuffer \<times> Ipsec \<Rightarrow> (ViciBuffer \<times> Ipsec) outcome" where
  "ReceiveViciTransportPacket s =
     (let (pPacket, w) = s in
      if iViciSocket w < 0 then ((pPacket, w), IPSEC_ERR_INVALID_ARGUMENT)
      else
        let (ullDeadlineMs, w) = GetViciCommandDeadline w;
            ((header, w), eError) = TransferViciBytes False ullDeadlineMs (replicate 4 NUL) w;
            ((pPacket, w), eError) = and_then ((pPacket, w), eError) (\<lambda>(pPacket, w).
              let uiPacketLength = be32_value header in
              if uiPacketLength = 0 \<or> VICI_MAX_SEGMENT_LENGTH < uiPacketLength
              then ((pPacket, w), IPSEC_ERR_VICI_PROTOCOL)
              else receive_body ullDeadlineMs uiPacketLength (pPacket, w))
        in if eError \<noteq> IPSEC_OK
           then ((DestroyViciBuffer pPacket, DisconnectViciTransport w), eError)
           else ((pPacket, w), eError))"

subsection \<open>What a wait does\<close>

text \<open>Waiting consumes outcomes of the environment and changes nothing else.\<close>

definition quiet :: "Ipsec \<Rightarrow> Ipsec \<Rightarrow> bool" where
  "quiet w w' \<longleftrightarrow> (\<exists>tr ws. w' = w\<lparr>os_trace := tr, os_waits := ws\<rparr>)"

lemma quiet_refl: "quiet w w"
  unfolding quiet_def by (intro exI [of _ "os_trace w"] exI [of _ "os_waits w"]) simp

lemma quiet_trans: "quiet w w1 \<Longrightarrow> quiet w1 w2 \<Longrightarrow> quiet w w2"
  by (auto simp: quiet_def) (rule exI, rule exI, rule refl)

lemma quietD:
  assumes "quiet w w'"
  shows "iViciSocket w' = iViciSocket w" and "acViciSocketPath w' = acViciSocketPath w"
    and "os_in w' = os_in w" and "os_out w' = os_out w" and "os_open w' = os_open w"
    and "os_locked w' = os_locked w" and "os_log w' = os_log w"
    and "ullCommandDeadlineMs w' = ullCommandDeadlineMs w"
    and "uiCommandTimeoutMs w' = uiCommandTimeoutMs w"
    and "pLogCallback w' = pLogCallback w"
  using assms by (auto simp: quiet_def)

lemma quiet_next: "next_event w = (ev, w') \<Longrightarrow> quiet w w'"
  using quiet_refl unfolding quiet_def
  by (auto simp: next_event_def split: list.splits) (metis Ipsec.surjective Ipsec.update_convs(6))

lemma quiet_clock: "GetIpsecMonotonicMilliseconds w = (now, w') \<Longrightarrow> quiet w w'"
  using quiet_next [of w]
  by (auto simp: GetIpsecMonotonicMilliseconds_def split: prod.splits option.splits os_event.splits)

lemma quiet_poll: "sys_poll t w = (r, w') \<Longrightarrow> quiet w w'"
proof -
  assume p: "sys_poll t w = (r, w')"
  obtain ev w1 where n: "next_event w = (ev, w1)" by fastforce
  then have "w' = w1\<lparr>os_waits := os_waits w1 @ [t]\<rparr>"
    using p by (auto simp: sys_poll_def Let_def split: option.splits os_event.splits)
  then have "quiet w1 w'"
    unfolding quiet_def by (intro exI [of _ "os_trace w1"] exI) (auto intro: exI)
  then show "quiet w w'" using quiet_next [OF n] quiet_trans by blast
qed

lemma quiet_wait: "WaitViciSocket ev dl w = (w', e) \<Longrightarrow> quiet w w'"
proof (induction ev dl w arbitrary: w' e rule: WaitViciSocket.induct)
  case (1 ev dl w)
  obtain now w1 where c: "GetIpsecMonotonicMilliseconds w = (now, w1)" by fastforce
  let ?rem = "u64_sub dl now"
  let ?t = "if INT32_MAX < ?rem then INT32_MAX else ?rem"
  obtain r w2 where p: "sys_poll ?t w1 = (r, w2)" by fastforce
  note q = quiet_clock [OF c] quiet_trans [OF quiet_clock [OF c] quiet_poll [OF p]]
  show ?case
  proof (cases "now = 0 \<or> dl \<le> now \<or> r \<noteq> PollErrno EINTR")
    case True
    then show ?thesis
      using "1.prems" c p q
      by (subst (asm) WaitViciSocket.simps) (auto simp: Let_def split: if_splits os_event.splits)
  next
    case False
    then have "WaitViciSocket ev dl w2 = (w', e)"
      using "1.prems" c p by (subst (asm) WaitViciSocket.simps) (auto simp: Let_def)
    with "1.IH" [OF c [symmetric] refl _ refl refl p [symmetric] refl] False q show ?thesis
      by (auto intro: quiet_trans)
  qed
qed

text \<open>No wait is longer than what is left until the deadline.\<close>

lemma WaitViciSocket_bounded:
  assumes "WaitViciSocket ev dl w = (w', e)" and "dl \<le> UINT64_MAX"
  shows "\<exists>ts. os_waits w' = os_waits w @ ts \<and> (\<forall>t \<in> set ts. 0 < t \<and> t \<le> INT32_MAX \<and> t < dl)"
  using assms
proof (induction ev dl w arbitrary: w' e rule: WaitViciSocket.induct)
  case (1 ev dl w)
  obtain now w1 where c: "GetIpsecMonotonicMilliseconds w = (now, w1)" by fastforce
  let ?rem = "u64_sub dl now"
  let ?t = "if INT32_MAX < ?rem then INT32_MAX else ?rem"
  obtain r w2 where p: "sys_poll ?t w1 = (r, w2)" by fastforce
  have w1: "os_waits w1 = os_waits w"
    using c by (auto simp: GetIpsecMonotonicMilliseconds_def next_event_def
        split: prod.splits option.splits os_event.splits list.splits)
  have w2: "os_waits w2 = os_waits w @ [?t]"
    using p w1 by (auto simp: sys_poll_def next_event_def Let_def
        split: prod.splits option.splits os_event.splits list.splits)
  consider "now = 0 \<or> dl \<le> now" | "now \<noteq> 0" "now < dl" "r \<noteq> PollErrno EINTR"
    | "now \<noteq> 0" "now < dl" "r = PollErrno EINTR"
    by linarith
  then show ?case
  proof cases
    case 1
    then have "w' = w1" using "1.prems" c by (subst (asm) WaitViciSocket.simps) auto
    then show ?thesis using w1 by auto
  next
    case 2
    then have "w' = w2" using "1.prems"(1) c p
      by (subst (asm) WaitViciSocket.simps) (auto simp: Let_def split: if_splits os_event.splits)
    then show ?thesis using w2 2 "1.prems"(2) by auto
  next
    case 3
    then have rec: "WaitViciSocket ev dl w2 = (w', e)"
      using "1.prems"(1) c p by (subst (asm) WaitViciSocket.simps) (auto simp: Let_def)
    obtain ts where "os_waits w' = os_waits w2 @ ts"
      "\<forall>t \<in> set ts. 0 < t \<and> t \<le> INT32_MAX \<and> t < dl"
      using "1.IH" [OF c [symmetric] refl _ refl refl p [symmetric] refl] 3 rec "1.prems"(2) by force
    then show ?thesis using w2 3 "1.prems"(2) by (intro exI [of _ "?t # ts"]) auto
  qed
qed

subsection \<open>What a transfer moves\<close>

definition moved :: "Ipsec \<Rightarrow> Ipsec \<Rightarrow> bool" where
  "moved w w' \<longleftrightarrow> (\<exists>tr ws i out.
     w' = w\<lparr>os_trace := tr, os_in := i, os_out := out, os_waits := ws\<rparr>)"

lemma moved_trans: "moved w w1 \<Longrightarrow> moved w1 w2 \<Longrightarrow> moved w w2"
  by (auto simp: moved_def) (rule exI, rule exI, rule exI, rule exI, rule refl)

lemma quiet_moved: "quiet w w' \<Longrightarrow> moved w w' \<and> os_in w' = os_in w \<and> os_out w' = os_out w"
proof
  assume "quiet w w'"
  then obtain tr ws where w': "w' = w\<lparr>os_trace := tr, os_waits := ws\<rparr>" by (auto simp: quiet_def)
  show "moved w w'"
    unfolding moved_def w'
    by (intro exI [of _ tr] exI [of _ ws] exI [of _ "os_in w"] exI [of _ "os_out w"]) simp
  show "os_in w' = os_in w \<and> os_out w' = os_out w" by (simp add: w')
qed

lemma movedD:
  assumes "moved w w'"
  shows "iViciSocket w' = iViciSocket w" and "acViciSocketPath w' = acViciSocketPath w"
    and "os_open w' = os_open w" and "os_locked w' = os_locked w" and "os_log w' = os_log w"
    and "ullCommandDeadlineMs w' = ullCommandDeadlineMs w"
    and "uiCommandTimeoutMs w' = uiCommandTimeoutMs w"
    and "pLogCallback w' = pLogCallback w"
  using assms by (auto simp: moved_def)

lemma move_bytes_send:
  assumes "move_bytes True d off w = (r, w')"
  shows "moved w w' \<and> os_in w' = os_in w \<and>
     (case r of Inl e \<Rightarrow> os_out w' = os_out w
      | Inr (d', n) \<Rightarrow> d' = d \<and> n \<le> length (drop off d) \<and>
          os_out w' = os_out w @ take n (drop off d))"
proof -
  obtain ev w1 where n: "next_event w = (ev, w1)" by fastforce
  note q = quiet_moved [OF quiet_next [OF n]]
  show ?thesis
  proof (cases "\<exists>k. ev = Some (Moved k)")
    case True
    then obtain k where ev: "ev = Some (Moved k)" by blast
    let ?bs = "take k (drop off d)"
    have r: "r = Inr (d, length ?bs)" "w' = w1\<lparr>os_out := os_out w1 @ ?bs\<rparr>"
      using assms n ev by (auto simp: move_bytes_def sys_send_def Let_def)
    have "moved w1 w'"
      unfolding moved_def r(2)
      by (intro exI [of _ "os_trace w1"] exI [of _ "os_waits w1"] exI [of _ "os_in w1"] exI) simp
    then show ?thesis using moved_trans q r by (auto simp: min_def)
  next
    case False
    then show ?thesis
      using assms n q by (auto simp: move_bytes_def sys_send_def Let_def
          split: option.splits os_event.splits)
  qed
qed

lemma move_bytes_recv:
  assumes "move_bytes False d off w = (r, w')" and "off \<le> length d" and "length d \<le> UINT32_MAX"
  shows "moved w w' \<and> os_out w' = os_out w \<and>
     (case r of Inl e \<Rightarrow> os_in w' = os_in w
      | Inr (d', n) \<Rightarrow> n \<le> length d - off \<and> n \<le> length (os_in w) \<and>
          d' = buf_write d off (take n (os_in w)) \<and> os_in w' = drop n (os_in w))"
proof -
  obtain ev w1 where n: "next_event w = (ev, w1)" by fastforce
  note q = quiet_moved [OF quiet_next [OF n]]
  have sub: "u32_sub (length d) off = length d - off" using assms by simp
  show ?thesis
  proof (cases "\<exists>k. ev = Some (Moved k)")
    case True
    then obtain k where ev: "ev = Some (Moved k)" by blast
    let ?bs = "take (min k (length d - off)) (os_in w1)"
    have r: "r = Inr (buf_write d off ?bs, length ?bs)"
      "w' = w1\<lparr>os_in := drop (length ?bs) (os_in w1)\<rparr>"
      using assms(1) n ev by (auto simp: move_bytes_def sys_recv_def Let_def sub)
    have "moved w1 w'"
      unfolding moved_def r(2)
      by (intro exI [of _ "os_trace w1"] exI [of _ "os_waits w1"] exI [of _ "drop (length ?bs) (os_in w1)"]
          exI [of _ "os_out w1"]) simp
    moreover have "take (length ?bs) (os_in w1) = ?bs" by (simp add: min_def)
    ultimately show ?thesis using moved_trans [of w w1 w'] q r by auto
  next
    case False
    then show ?thesis
      using assms(1) n q by (auto simp: move_bytes_def sys_recv_def Let_def
          split: option.splits os_event.splits)
  qed
qed

text \<open>One round of the loop, with the three ways it can go on.\<close>

lemma transfer_loop_cases:
  assumes t: "transfer_loop b dl d off w = ((d', w'), e)"
  obtains (finished) "length d \<le> off" "d' = d" "w' = w" "e = IPSEC_OK"
  | (stopped) w1 where "off < length d" "e \<noteq> IPSEC_OK" "quiet w w1" "w' = w1" "d' = d"
  | (failed) w1 r where "off < length d" "e \<noteq> IPSEC_OK" "quiet w w1" "move_bytes b d off w1 = (r, w')"
      "case r of Inl err \<Rightarrow> d' = d | Inr (d1, n) \<Rightarrow> d' = d1 \<and> n = 0"
  | (again) w1 w2 err where "off < length d" "quiet w w1" "move_bytes b d off w1 = (Inl err, w2)"
      "length (os_trace w2) < length (os_trace w)" "transfer_loop b dl d off w2 = ((d', w'), e)"
  | (more) w1 w2 d1 n where "off < length d" "quiet w w1" "move_bytes b d off w1 = (Inr (d1, n), w2)" "0 < n"
      "length (os_trace w2) < length (os_trace w)" "transfer_loop b dl d1 (off + n) w2 = ((d', w'), e)"
proof (cases "off < length d")
  case False
  then show thesis using t by (subst (asm) transfer_loop.simps) (auto intro: finished)
next
  case True
  obtain w1 e1 where wt: "WaitViciSocket (if b then POLLOUT else POLLIN) dl w = (w1, e1)" by fastforce
  note q = quiet_wait [OF wt]
  show thesis
  proof (cases "e1 = IPSEC_OK")
    case False
    then show thesis using t True wt q
      by (subst (asm) transfer_loop.simps) (auto intro: stopped)
  next
    case ok: True
    obtain r w2 where m: "move_bytes b d off w1 = (r, w2)" by fastforce
    have lt: "length (os_trace w2) < length (os_trace w)"
      using WaitViciSocket_trace [OF wt] move_bytes_trace [OF m] ok by auto
    show thesis
    proof (cases r)
      case (Inl err)
      then show thesis using t True wt q ok m lt
        by (subst (asm) transfer_loop.simps) (auto split: if_splits intro: again failed)
    next
      case (Inr x)
      then show thesis using t True wt q ok m lt
        by (subst (asm) transfer_loop.simps) (auto split: if_splits prod.splits intro: more failed)
    qed
  qed
qed

text \<open>Sending: whatever happens, a prefix of the block was handed to the kernel, and the
  whole of it on success.\<close>

lemma transfer_send:
  assumes "transfer_loop True dl d off w = ((d', w'), e)" and "off \<le> length d"
  shows "d' = d \<and> moved w w' \<and> os_in w' = os_in w \<and>
     (\<exists>sent. os_out w' = os_out w @ sent \<and> prefix sent (drop off d) \<and>
        (e = IPSEC_OK \<longrightarrow> sent = drop off d))"
  using assms
proof (induction "length (os_trace w)" arbitrary: d off w rule: less_induct)
  case less
  from less.prems(1) show ?case
  proof (cases rule: transfer_loop_cases)
    case finished
    then show ?thesis using quiet_moved [OF quiet_refl] by auto
  next
    case (stopped w1)
    then show ?thesis using quiet_moved [of w w1] by auto
  next
    case (failed w1 r)
    then show ?thesis
      using quiet_moved [of w w1] move_bytes_send [of d off w1 r w'] moved_trans [of w w1 w']
      by (auto split: sum.splits)
  next
    case (again w1 w2 err)
    note m = quiet_moved [OF again(2)] move_bytes_send [OF again(3)]
    have "moved w w2" using m moved_trans [of w w1 w2] by blast
    then show ?thesis using m less.hyps [OF again(4,5) less.prems(2)] moved_trans [of w w2 w'] by auto
  next
    case (more w1 w2 d1 n)
    note m = quiet_moved [OF more(2)] move_bytes_send [OF more(3)]
    then have d1: "d1 = d" and n: "off + n \<le> length d" using more(1) by auto
    from less.hyps [OF more(5,6) n [folded d1]] obtain sent where
      ih: "d' = d" "moved w2 w'" "os_in w' = os_in w2" "os_out w' = os_out w2 @ sent"
      "prefix sent (drop (off + n) d)" "e = IPSEC_OK \<longrightarrow> sent = drop (off + n) d"
      using d1 by auto
    have "drop off d = take n (drop off d) @ drop (off + n) d"
      by (metis add.commute append_take_drop_id drop_drop)
    then have "prefix (take n (drop off d) @ sent) (drop off d) \<and>
        (e = IPSEC_OK \<longrightarrow> take n (drop off d) @ sent = drop off d)"
      using ih by (metis same_prefix_prefix)
    moreover have "moved w w'"
      using m ih(2) moved_trans [of w w1 w2] moved_trans [of w w2 w'] by blast
    ultimately show ?thesis using m ih
      by (intro conjI exI [of _ "take n (drop off d) @ sent"]) auto
  qed
qed

text \<open>Receiving: on success the block holds the next bytes of the stream, in order,
  however the kernel cut them.\<close>

lemma transfer_recv:
  assumes "transfer_loop False dl d off w = ((d', w'), e)"
    and "off \<le> length d" and "length d \<le> UINT32_MAX"
  shows "moved w w' \<and> os_out w' = os_out w \<and> length d' = length d \<and> take off d' = take off d \<and>
     (e = IPSEC_OK \<longrightarrow> os_in w = drop off d' @ os_in w')"
  using assms
proof (induction "length (os_trace w)" arbitrary: d off w rule: less_induct)
  case less
  from less.prems(1) show ?case
  proof (cases rule: transfer_loop_cases)
    case finished
    then show ?thesis using quiet_moved [OF quiet_refl] less.prems(2) by auto
  next
    case (stopped w1)
    then show ?thesis using quiet_moved [of w w1] by auto
  next
    case (failed w1 r)
    then show ?thesis
      using quiet_moved [of w w1] move_bytes_recv [OF failed(4) less.prems(2,3)] failed
        moved_trans [of w w1 w']
      by (auto simp: buf_write_def split: sum.splits)
  next
    case (again w1 w2 err)
    note m = quiet_moved [OF again(2)] move_bytes_recv [OF again(3) less.prems(2,3)]
    have "moved w w2" using m moved_trans [of w w1 w2] by blast
    then show ?thesis using m less.hyps [OF again(4,5) less.prems(2,3)] moved_trans [of w w2 w'] by auto
  next
    case (more w1 w2 d1 n)
    note m = quiet_moved [OF more(2)] move_bytes_recv [OF more(3) less.prems(2,3)]
    then have n: "n \<le> length d - off" "n \<le> length (os_in w)" and
      d1: "d1 = buf_write d off (take n (os_in w))" by auto
    have len: "length d1 = length d" "off + n \<le> length d1"
      using n less.prems(2) d1 by (auto simp: buf_write_def)
    have pre: "take (off + n) d1 = take off d @ take n (os_in w)"
      using n less.prems(2) d1 by (simp add: buf_write_def)
    have ih: "moved w2 w'" "os_out w' = os_out w2" "length d' = length d1"
      "take (off + n) d' = take (off + n) d1" "e = IPSEC_OK \<longrightarrow> os_in w2 = drop (off + n) d' @ os_in w'"
      using less.hyps [OF more(5,6) len(2)] len less.prems(3) by auto
    have "moved w w'"
      using m ih(1) moved_trans [of w w1 w2] moved_trans [of w w2 w'] by blast
    moreover have "take off d' = take off d"
    proof -
      have "take off (take (off + n) d') = take off (take off d @ take n (os_in w))"
        using ih(4) pre by (simp only:)
      then show ?thesis using less.prems(2) by (simp add: min_def)
    qed
    moreover have "os_in w = drop off d' @ os_in w'" if "e = IPSEC_OK"
    proof -
      have "drop off (take (off + n) d') = take n (os_in w)"
        using ih(4) pre less.prems(2) by simp
      then have dd: "drop off d' = take n (os_in w) @ drop (off + n) d'"
        using append_take_drop_id [of n "drop off d'"] by (simp add: take_drop add.commute)
      have "drop n (os_in w) = os_in w2" using m by simp
      also have "\<dots> = drop (off + n) d' @ os_in w'" using ih(5) that by blast
      finally have "take n (os_in w) @ drop n (os_in w) = drop off d' @ os_in w'"
        by (simp only: dd append.assoc)
      then show ?thesis by (simp only: append_take_drop_id)
    qed
    moreover have "os_out w' = os_out w" "length d' = length d" using m ih(2,3) len by simp_all
    ultimately show ?thesis by blast
  qed
qed

subsection \<open>Connections and packets\<close>

text \<open>What the transport may change, and the descriptor invariant: the library holds the one
  descriptor its context names, or none.\<close>

definition io :: "Ipsec \<Rightarrow> Ipsec \<Rightarrow> bool" where
  "io w w' \<longleftrightarrow> (\<exists>fd tr i out op ws peer n.
     w' = w\<lparr>iViciSocket := fd, os_trace := tr, os_in := i, os_out := out, os_open := op,
            os_waits := ws, os_peer := peer, os_buffers := n\<rparr>)"

definition fd_ok :: "Ipsec \<Rightarrow> bool" where
  "fd_ok w \<longleftrightarrow> (if iViciSocket w = -1 then os_open w = []
                else 0 \<le> iViciSocket w \<and> os_open w = [iViciSocket w])"

lemma io_intro:
  "w' = w\<lparr>iViciSocket := iViciSocket w', os_trace := os_trace w', os_in := os_in w',
          os_out := os_out w', os_open := os_open w', os_waits := os_waits w',
          os_peer := os_peer w', os_buffers := os_buffers w'\<rparr> \<Longrightarrow> io w w'"
  unfolding io_def by blast

lemma io_refl: "io w w"
  by (rule io_intro) simp

lemma io_trans: "io w w1 \<Longrightarrow> io w1 w2 \<Longrightarrow> io w w2"
  unfolding io_def by (elim exE, simp only:) (rule io_intro [unfolded io_def], simp)

lemma moved_io: "moved w w' \<Longrightarrow> io w w'"
  unfolding moved_def by (elim exE) (rule io_intro, simp)

lemma quiet_io: "quiet w w' \<Longrightarrow> io w w'"
  using quiet_moved moved_io by blast

lemma ioD:
  assumes "io w w'"
  shows "acViciSocketPath w' = acViciSocketPath w" and "os_locked w' = os_locked w"
    and "os_log w' = os_log w" and "ullCommandDeadlineMs w' = ullCommandDeadlineMs w"
    and "uiCommandTimeoutMs w' = uiCommandTimeoutMs w"
    and "uiConnectTimeoutMs w' = uiConnectTimeoutMs w"
    and "bCommandMutexInitialized w' = bCommandMutexInitialized w"
    and "pLogCallback w' = pLogCallback w" and "os_mem w' = os_mem w"
  using assms by (auto simp: io_def)

lemma fd_ok_moved: "moved w w' \<Longrightarrow> fd_ok w' = fd_ok w"
  by (simp add: fd_ok_def movedD)

lemma fd_ok_closed: "fd_ok w \<Longrightarrow> iViciSocket w < 0 \<Longrightarrow> iViciSocket w = -1 \<and> os_open w = []"
  by (auto simp: fd_ok_def split: if_splits)

lemma Disconnect_props:
  assumes "fd_ok w"
  shows "fd_ok (DisconnectViciTransport w)" and "iViciSocket (DisconnectViciTransport w) = -1"
    and "io w (DisconnectViciTransport w)"
    and "os_in (DisconnectViciTransport w) = os_in w"
    and "os_out (DisconnectViciTransport w) = os_out w"
    and "os_trace (DisconnectViciTransport w) = os_trace w"
proof -
  show "io w (DisconnectViciTransport w)"
    by (rule io_intro) (simp add: DisconnectViciTransport_def sys_close_def)
  show "fd_ok (DisconnectViciTransport w)" "iViciSocket (DisconnectViciTransport w) = -1"
    "os_in (DisconnectViciTransport w) = os_in w" "os_out (DisconnectViciTransport w) = os_out w"
    "os_trace (DisconnectViciTransport w) = os_trace w"
    using assms by (auto simp: DisconnectViciTransport_def sys_close_def fd_ok_def split: if_splits)
qed

text \<open>The calls of \<open>ConnectViciTransport\<close> one by one; \<open>steady\<close> is what they keep.\<close>

definition steady :: "Ipsec \<Rightarrow> Ipsec \<Rightarrow> bool" where
  "steady w w' \<longleftrightarrow> io w w' \<and> os_in w' = os_in w \<and> os_out w' = os_out w \<and>
     length (os_trace w') \<le> length (os_trace w)"

lemma steady_trans: "steady w w1 \<Longrightarrow> steady w1 w2 \<Longrightarrow> steady w w2"
  by (auto simp: steady_def intro: io_trans)

lemma steady_next: "next_event w = (ev, w') \<Longrightarrow>
   steady w w' \<and> iViciSocket w' = iViciSocket w \<and> os_open w' = os_open w"
  using quiet_next [of w] quiet_moved [of w w'] next_event_trace [of w]
  by (auto simp: steady_def moved_io quietD)

lemma steady_clock: "GetIpsecMonotonicMilliseconds w = (now, w') \<Longrightarrow>
   steady w w' \<and> iViciSocket w' = iViciSocket w \<and> os_open w' = os_open w"
  using quiet_clock [of w] quiet_moved [of w w'] clock_trace [of w]
  by (auto simp: steady_def moved_io quietD)

lemma steady_wait: "WaitViciSocket ev dl w = (w', e) \<Longrightarrow>
   steady w w' \<and> iViciSocket w' = iViciSocket w \<and> os_open w' = os_open w"
  using quiet_wait [of ev dl w] quiet_moved [of w w'] WaitViciSocket_trace [of ev dl w]
  by (auto simp: steady_def moved_io quietD)

lemma steady_simple_calls:
  "sys_fcntl w = (b, w') \<Longrightarrow> steady w w' \<and> iViciSocket w' = iViciSocket w \<and> os_open w' = os_open w"
  "sys_getsockopt w = (r, w') \<Longrightarrow> steady w w' \<and> iViciSocket w' = iViciSocket w \<and> os_open w' = os_open w"
  using steady_next [of w]
  by (auto simp: sys_fcntl_def sys_getsockopt_def Let_def
      split: prod.splits option.splits os_event.splits)

lemma steady_connect:
  assumes "sys_connect p w = (r, w')"
  shows "steady w w' \<and> iViciSocket w' = iViciSocket w \<and> os_open w' = os_open w"
proof -
  obtain ev w1 where n: "next_event w = (ev, w1)" by fastforce
  have w': "w' = w1\<lparr>os_peer := p\<rparr>"
    using assms n by (auto simp: sys_connect_def Let_def split: option.splits os_event.splits)
  have "io w1 w'" by (rule io_intro) (simp add: w')
  then have "steady w1 w'" by (simp add: steady_def w')
  then show ?thesis using steady_next [OF n] steady_trans [of w w1 w'] by (auto simp: w')
qed

lemma steady_socket:
  assumes "sys_socket w = (r, w')"
  shows "steady w w' \<and> iViciSocket w' = iViciSocket w \<and>
     (case r of Inl e \<Rightarrow> os_open w' = os_open w
      | Inr fd \<Rightarrow> 0 \<le> fd \<and> os_open w' = fd # os_open w)"
proof -
  obtain ev w1 where n: "next_event w = (ev, w1)" by fastforce
  show ?thesis
  proof (cases "\<exists>fd. ev = Some (SocketFd fd) \<and> int fd \<notin> set (os_open w1)")
    case True
    then obtain fd where "r = Inr (int fd)" and w': "w' = w1\<lparr>os_open := int fd # os_open w1\<rparr>"
      using assms n by (auto simp: sys_socket_def)
    moreover have "io w1 w'" by (rule io_intro) (simp add: w')
    ultimately show ?thesis
      using steady_next [OF n] steady_trans [of w w1 w'] by (auto simp: steady_def)
  next
    case False
    then show ?thesis using assms n steady_next [OF n]
      by (auto simp: sys_socket_def split: option.splits os_event.splits)
  qed
qed

lemma steady_set_socket: "steady w (w\<lparr>iViciSocket := n\<rparr>)"
proof -
  have "io w (w\<lparr>iViciSocket := n\<rparr>)" by (rule io_intro) simp
  then show ?thesis by (simp add: steady_def)
qed

lemma steady_finish_connect:
  assumes "finish_connect w = (w', e)"
  shows "steady w w' \<and> iViciSocket w' = iViciSocket w \<and> os_open w' = os_open w"
proof -
  obtain now w1 where c: "GetIpsecMonotonicMilliseconds w = (now, w1)" by fastforce
  obtain w2 e2 where wt: "WaitViciSocket POLLOUT (u64 (now + uiConnectTimeoutMs w1)) w1 = (w2, e2)"
    by fastforce
  note s2 = steady_clock [OF c] steady_wait [OF wt]
  then have st: "steady w w2" using steady_trans by blast
  show ?thesis
  proof (cases "e2 = IPSEC_OK")
    case True
    obtain r w3 where g: "sys_getsockopt w2 = (r, w3)" by fastforce
    then have "w' = w3" using assms c wt True
      by (auto simp: finish_connect_def split: sum.splits option.splits)
    then show ?thesis using steady_simple_calls(2) [OF g] s2 st steady_trans [of w w2 w3] by auto
  next
    case False
    then show ?thesis using assms c wt s2 st by (auto simp: finish_connect_def)
  qed
qed

lemma open_vici_socket_props:
  assumes o: "open_vici_socket w = (w', e)" and closed: "iViciSocket w = -1" "os_open w = []"
  shows "steady w w' \<and> fd_ok w' \<and> (e = IPSEC_OK \<longrightarrow> 0 \<le> iViciSocket w')"
proof -
  obtain r w1 where s: "sys_socket w = (r, w1)" by fastforce
  note s1 = steady_socket [OF s]
  show ?thesis
  proof (cases r)
    case (Inl err)
    then have "w' = w1\<lparr>iViciSocket := -1\<rparr>" "e = socket_error err"
      using o s by (auto simp: open_vici_socket_def)
    then show ?thesis
      using s1 Inl closed steady_set_socket [of w1] steady_trans
      by (auto simp: fd_ok_def socket_error_def)
  next
    case (Inr n)
    define w2 where "w2 = w1\<lparr>iViciSocket := n\<rparr>"
    have w2: "steady w w2" "0 \<le> n" "iViciSocket w2 = n" "os_open w2 = [n]"
      using s1 Inr closed steady_set_socket [of w1] steady_trans by (auto simp: w2_def)
    have via: ?thesis if "steady w2 w'" "iViciSocket w' = iViciSocket w2" "os_open w' = os_open w2"
      using w2 that steady_trans [OF w2(1) that(1)] by (auto simp: fd_ok_def)
    obtain b1 w3 where f1: "sys_fcntl w2 = (b1, w3)" by fastforce
    note s3 = steady_simple_calls(1) [OF f1]
    show ?thesis
    proof (cases b1)
      case False
      then show ?thesis
        using o s Inr f1 s3 via by (auto simp: open_vici_socket_def w2_def [symmetric] Let_def)
    next
      case True
      obtain b2 w4 where f2: "sys_fcntl w3 = (b2, w4)" by fastforce
      have s4: "steady w2 w4 \<and> iViciSocket w4 = iViciSocket w2 \<and> os_open w4 = os_open w2"
        using steady_simple_calls(1) [OF f2] s3 steady_trans by auto
      show ?thesis
      proof (cases b2)
        case False
        then show ?thesis using o s Inr f1 f2 True s4 via
          by (auto simp: open_vici_socket_def w2_def [symmetric] Let_def)
      next
        case b2: True
        obtain c w5 where con: "sys_connect (cstr (acViciSocketPath w4)) w4 = (c, w5)" by fastforce
        have s5: "steady w2 w5 \<and> iViciSocket w5 = iViciSocket w2 \<and> os_open w5 = os_open w2"
          using steady_connect [OF con] s4 steady_trans by auto
        have res: "(w', e) = (case c of None \<Rightarrow> (w5, IPSEC_OK)
            | Some e \<Rightarrow> if e = EINPROGRESS then finish_connect w5 else (w5, socket_error e))"
          using o s Inr f1 f2 True b2 con
          by (simp add: open_vici_socket_def w2_def [symmetric] Let_def)
        show ?thesis
        proof (cases "c = Some EINPROGRESS")
          case True
          then have "finish_connect w5 = (w', e)" using res by simp
          from steady_finish_connect [OF this] show ?thesis
            using s5 steady_trans [of w2 w5 w'] via by auto
        next
          case False
          then show ?thesis using res s5 via by (auto split: option.splits)
        qed
      qed
    qed
  qed
qed

lemma ConnectViciTransport_props:
  assumes ok: "fd_ok w" and c: "ConnectViciTransport w = (w', e)"
  shows "steady w w' \<and> fd_ok w' \<and> (e = IPSEC_OK \<longrightarrow> 0 \<le> iViciSocket w') \<and>
     (acViciSocketPath w ! 0 \<noteq> NUL \<longrightarrow> e \<noteq> IPSEC_OK \<longrightarrow> iViciSocket w' = -1)"
proof (cases "acViciSocketPath w ! 0 = NUL \<or> 0 \<le> iViciSocket w")
  case True
  then show ?thesis using c ok io_refl [of w]
    by (auto simp: ConnectViciTransport_def steady_def split: if_splits)
next
  case False
  then have closed: "iViciSocket w = -1" "os_open w = []" using fd_ok_closed [OF ok] by auto
  obtain w1 e1 where o: "open_vici_socket w = (w1, e1)" by fastforce
  note op = open_vici_socket_props [OF o closed]
  then have "fd_ok w1" by blast
  note d = Disconnect_props [OF this]
  have "w' = (if e1 \<noteq> IPSEC_OK then DisconnectViciTransport w1 else w1) \<and> e = e1"
    using c False o by (auto simp: ConnectViciTransport_def)
  moreover have "steady w1 (DisconnectViciTransport w1)" using d by (simp add: steady_def)
  ultimately show ?thesis using op d steady_trans by (auto split: if_splits)
qed

lemma steady_deadline: "GetViciCommandDeadline w = (dl, w') \<Longrightarrow>
   steady w w' \<and> iViciSocket w' = iViciSocket w \<and> os_open w' = os_open w"
  using steady_clock [of w] io_refl [of w]
  by (auto simp: GetViciCommandDeadline_def steady_def split: if_splits prod.splits)

text \<open>The bytes of a packet on the socket.\<close>

definition frame :: "bytes \<Rightarrow> bytes" where
  "frame p = be32 (length p) @ p"

lemma transfer_trace:
  "transfer_loop b dl d off w = ((d', w'), e) \<Longrightarrow> length (os_trace w') \<le> length (os_trace w) \<and>
   (off < length d \<and> e = IPSEC_OK \<longrightarrow> length (os_trace w') < length (os_trace w))"
proof (induction "length (os_trace w)" arbitrary: d off w rule: less_induct)
  case less
  show ?case
  proof (cases "off < length d")
    case False
    then show ?thesis using less.prems by (subst (asm) transfer_loop.simps) auto
  next
    case True
    obtain w1 e1 where wt: "WaitViciSocket (if b then POLLOUT else POLLIN) dl w = (w1, e1)"
      by fastforce
    obtain r w2 where m: "move_bytes b d off w1 = (r, w2)" by fastforce
    note tr = WaitViciSocket_trace [OF wt] move_bytes_trace [OF m]
    have ih: "length (os_trace w') \<le> length (os_trace w2)"
      if "transfer_loop b dl x y w2 = ((d', w'), e)" "e1 = IPSEC_OK" for x y
      using less.hyps [OF _ that(1)] tr that(2) by auto
    show ?thesis
      using less.prems True wt m tr ih
      by (subst (asm) transfer_loop.simps)
        (auto split: if_splits sum.splits prod.splits; fastforce)
  qed
qed

lemma SendViciTransportPacket_props:
  assumes ok: "fd_ok w" and s: "SendViciTransportPacket p w = (w', e)"
  shows "io w w' \<and> fd_ok w' \<and> os_in w' = os_in w \<and>
     length (os_trace w') \<le> length (os_trace w) \<and>
     (\<exists>sent. os_out w' = os_out w @ sent \<and> prefix sent (frame (pucData p)) \<and>
        (e = IPSEC_OK \<longrightarrow> sent = frame (pucData p))) \<and>
     (e = IPSEC_OK \<longrightarrow> 0 \<le> iViciSocket w') \<and>
     (uiLength p \<le> VICI_MAX_SEGMENT_LENGTH \<longrightarrow> e \<noteq> IPSEC_OK \<longrightarrow> iViciSocket w' = -1)"
proof (cases "VICI_MAX_SEGMENT_LENGTH < uiLength p")
  case True
  then show ?thesis using s ok io_refl [of w] by (auto simp: SendViciTransportPacket_def)
next
  case False
  obtain w1 e1 where c: "ConnectViciTransport w = (w1, e1)" by fastforce
  note cp = ConnectViciTransport_props [OF ok c]
  obtain dl w2 where d: "GetViciCommandDeadline w1 = (dl, w2)" by fastforce
  have st2: "steady w w2" and fd2: "fd_ok w2" "iViciSocket w2 = iViciSocket w1"
    using cp steady_deadline [OF d] steady_trans [of w w1 w2] by (auto simp: fd_ok_def)
  obtain h w3 e3 where t1: "TransferViciBytes True dl (be32 (uiLength p)) w2 = ((h, w3), e3)"
    by (metis prod.exhaust)
  obtain b w4 e4 where t2: "TransferViciBytes True dl (pucData p) w3 = ((b, w4), e4)"
    by (metis prod.exhaust)
  note m3 = transfer_send [OF t1 [unfolded TransferViciBytes_def], simplified]
    transfer_trace [OF t1 [unfolded TransferViciBytes_def]]
  note m4 = transfer_send [OF t2 [unfolded TransferViciBytes_def], simplified]
    transfer_trace [OF t2 [unfolded TransferViciBytes_def]]
  let ?good = "\<lambda>v er. io w v \<and> fd_ok v \<and> os_in v = os_in w \<and>
     length (os_trace v) \<le> length (os_trace w) \<and>
     (\<exists>sent. os_out v = os_out w @ sent \<and> prefix sent (frame (pucData p)) \<and>
        (er = IPSEC_OK \<longrightarrow> sent = frame (pucData p))) \<and>
     (er = IPSEC_OK \<longrightarrow> 0 \<le> iViciSocket v)"
  define body where "body = (if e1 \<noteq> IPSEC_OK then (w1, e1)
      else if e3 \<noteq> IPSEC_OK then (w3, e3) else (w4, e4))"
  have res: "(w', e) = (if snd body \<noteq> IPSEC_OK then DisconnectViciTransport (fst body) else fst body, snd body)"
    using s False c d t1 t2 by (auto simp: SendViciTransportPacket_def body_def and_then_def)
  have io3: "io w w3" using m3 st2 moved_io [of w2 w3] io_trans [of w w2 w3] by (simp add: steady_def)
  have io4: "io w w4" using m4 io3 moved_io [of w3 w4] io_trans [of w w3 w4] by simp
  have "?good (fst body) (snd body)"
  proof (cases "e1 = IPSEC_OK \<and> e3 = IPSEC_OK")
    case True
    then show ?thesis
      using m3 m4 st2 fd2 cp io4 fd_ok_moved [of w2 w3] fd_ok_moved [of w3 w4] movedD(1) [of w2 w3]
        movedD(1) [of w3 w4]
      by (auto simp: body_def steady_def frame_def)
  next
    case False
    then show ?thesis
      using m3 st2 fd2 cp io3 fd_ok_moved [of w2 w3] by (auto simp: body_def steady_def frame_def)
  qed
  then have g: "?good (fst body) (snd body)" and fo: "fd_ok (fst body)" by blast+
  note ds = Disconnect_props [OF fo]
  show ?thesis
  proof (cases "snd body = IPSEC_OK")
    case True
    then show ?thesis using g res by auto
  next
    case f: False
    have "io w (DisconnectViciTransport (fst body))" using g ds(3) io_trans by blast
    then show ?thesis using f g res ds by auto
  qed
qed

text \<open>The header loop and the body loop of a receive.\<close>

lemma receive_body_props:
  assumes r: "receive_body dl n (p, w) = ((p', w'), e)" and n: "n \<le> VICI_MAX_SEGMENT_LENGTH"
  shows "io w w' \<and> fd_ok w' = fd_ok w \<and> iViciSocket w' = iViciSocket w \<and> os_out w' = os_out w \<and>
     length (os_trace w') \<le> length (os_trace w) \<and>
     (e = IPSEC_OK \<longrightarrow> length (pucData p') = n \<and> buffer_wf p' \<and> \<not> bSensitive p' \<and>
        os_in w = pucData p' @ os_in w')"
proof -
  obtain mem w1 where m: "next_mem w = (mem, w1)" by fastforce
  have w1: "io w w1" "iViciSocket w1 = iViciSocket w" "os_open w1 = os_open w" "os_in w1 = os_in w"
    "os_out w1 = os_out w" "os_trace w1 = os_trace w"
    using m by (auto simp: next_mem_def intro!: io_intro)
  obtain p1 e1 where i: "InitializeViciBuffer mem n False p = (p1, e1)" by fastforce
  note ini = InitializeViciBuffer_cases [OF n i]
  let ?z = "replicate n NUL"
  obtain d w2 e2 where t: "TransferViciBytes False dl ?z w1 = ((d, w2), e2)" by (metis prod.exhaust)
  note tr = transfer_recv [OF t [unfolded TransferViciBytes_def], simplified]
    transfer_trace [OF t [unfolded TransferViciBytes_def]]
  show ?thesis
  proof (cases "e1 = IPSEC_OK")
    case False
    then show ?thesis using r m i w1 by (auto simp: receive_body_def fd_ok_def)
  next
    case True
    then have res: "p' = p1\<lparr>pucData := d\<rparr>" "w' = w2" "e = e2"
      using r m i t by (auto simp: receive_body_def)
    have "io w w2" using w1 tr n moved_io [of w1 w2] io_trans by auto
    moreover have "moved w1 w2" using tr n by auto
    ultimately show ?thesis
      using res w1 tr n ini True movedD [of w1 w2] by (auto simp: buffer_wf_def fd_ok_def)
  qed
qed

lemma ReceiveViciTransportPacket_props:
  assumes ok: "fd_ok w" and r: "ReceiveViciTransportPacket (p, w) = ((p', w'), e)"
  shows "io w w' \<and> fd_ok w' \<and> os_out w' = os_out w \<and>
     (e = IPSEC_OK \<longrightarrow> os_in w = frame (pucData p') @ os_in w' \<and> buffer_wf p' \<and>
        0 < uiLength p' \<and> iViciSocket w' = iViciSocket w \<and>
        length (os_trace w') < length (os_trace w)) \<and>
     (e \<noteq> IPSEC_OK \<longrightarrow> iViciSocket w' = -1 \<and> length (os_trace w') \<le> length (os_trace w))"
proof (cases "iViciSocket w < 0")
  case True
  then show ?thesis using r ok fd_ok_closed [OF ok] io_refl [of w]
    by (auto simp: ReceiveViciTransportPacket_def)
next
  case False
  obtain dl w1 where d: "GetViciCommandDeadline w = (dl, w1)" by fastforce
  note s1 = steady_deadline [OF d]
  obtain h w2 e2 where t: "TransferViciBytes False dl (replicate 4 NUL) w1 = ((h, w2), e2)"
    by (metis prod.exhaust)
  note t2 = transfer_recv [OF t [unfolded TransferViciBytes_def], simplified]
    transfer_trace [OF t [unfolded TransferViciBytes_def], simplified]
  have w2: "io w w2" "fd_ok w2" "iViciSocket w2 = iViciSocket w" "os_out w2 = os_out w"
    "length (os_trace w2) \<le> length (os_trace w)"
    "e2 = IPSEC_OK \<Longrightarrow> os_in w = h @ os_in w2 \<and> length h = 4 \<and> length (os_trace w2) < length (os_trace w)"
    using s1 t2 ok moved_io [of w1 w2] io_trans [of w w1 w2] movedD [of w1 w2]
    by (auto simp: steady_def fd_ok_def)
  let ?n = "be32_value h"
  define body where "body = (if e2 \<noteq> IPSEC_OK then ((p, w2), e2)
      else if ?n = 0 \<or> VICI_MAX_SEGMENT_LENGTH < ?n then ((p, w2), IPSEC_ERR_VICI_PROTOCOL)
      else receive_body dl ?n (p, w2))"
  obtain p3 w3 e3 where b3: "body = ((p3, w3), e3)" by (metis prod.exhaust)
  have res: "((p', w'), e) = (if e3 \<noteq> IPSEC_OK then ((DestroyViciBuffer p3, DisconnectViciTransport w3), e3)
      else ((p3, w3), e3))"
    using r False d t b3
    by (cases "e2 = IPSEC_OK"; cases "?n = 0 \<or> VICI_MAX_SEGMENT_LENGTH < ?n")
      (simp_all add: ReceiveViciTransportPacket_def body_def)
  have g: "io w w3 \<and> fd_ok w3 \<and> os_out w3 = os_out w \<and> iViciSocket w3 = iViciSocket w \<and>
      length (os_trace w3) \<le> length (os_trace w) \<and>
      (e3 = IPSEC_OK \<longrightarrow> os_in w = frame (pucData p3) @ os_in w3 \<and> buffer_wf p3 \<and>
         0 < uiLength p3 \<and> length (os_trace w3) < length (os_trace w))"
  proof (cases "e2 \<noteq> IPSEC_OK \<or> ?n = 0 \<or> VICI_MAX_SEGMENT_LENGTH < ?n")
    case True
    then show ?thesis using w2 b3 by (auto simp: body_def split: if_splits)
  next
    case False
    then have rb: "receive_body dl ?n (p, w2) = ((p3, w3), e3)" and n: "?n \<le> VICI_MAX_SEGMENT_LENGTH"
      using b3 by (auto simp: body_def)
    note rp = receive_body_props [OF rb n]
    have h: "be32 ?n = h" using w2(6) False be32_value_inverse by auto
    show ?thesis
      using rp w2 False io_trans [of w w2 w3] h by (auto simp: frame_def)
  qed
  then have fo: "fd_ok w3" by blast
  note ds = Disconnect_props [OF fo]
  show ?thesis
  proof (cases "e3 = IPSEC_OK")
    case True
    then show ?thesis using g res by auto
  next
    case f: False
    have "io w (DisconnectViciTransport w3)" using g ds(3) io_trans by blast
    then show ?thesis using f g res ds by auto
  qed
qed

subsection \<open>Properties\<close>

text \<open>No call of \<open>poll\<close> waits longer than what is left until the deadline, nor longer than
  a 32-bit timeout, and none is made with a timeout of zero.\<close>

theorem WaitViciSocket_waits:
  assumes "WaitViciSocket ev dl w = (w', e)" and "dl \<le> UINT64_MAX"
  shows "\<exists>ts. os_waits w' = os_waits w @ ts \<and> (\<forall>t \<in> set ts. 0 < t \<and> t \<le> INT32_MAX \<and> t < dl)"
  by (rule WaitViciSocket_bounded [OF assms])

text \<open>A small environment for examples: descriptor 3 is connected.\<close>

definition sample_world :: "bytes \<Rightarrow> os_event list \<Rightarrow> Ipsec" where
  "sample_world input trace =
     \<lparr>iViciSocket = 3, acViciSocketPath = ''/run/charon.vici'' @ replicate 92 NUL,
      uiConnectTimeoutMs = 3000, uiCommandTimeoutMs = 10000, ullCommandDeadlineMs = 0,
      bCommandMutexInitialized = True, pLogCallback = False,
      os_trace = trace, os_in = input, os_out = [], os_open = [3], os_locked = False,
      os_waits = [], os_peer = [], os_requests = [], os_log = [],
      os_names = (\<lambda>_. None), os_mem = (\<lambda>_ _. True), os_buffers = 0\<rparr>"

lemma sample_world_fd_ok: "fd_ok (sample_world i t)"
  by (simp add: fd_ok_def sample_world_def)

theorem WaitViciSocket_waits_witness:
  "\<exists>ts. os_waits (fst (WaitViciSocket POLLIN 5000
       (sample_world [] [Clock 1 0, PollErrno EINTR, Clock 4 0, PollTimeout]))) = ts \<and>
     (\<forall>t \<in> set ts. 0 < t \<and> t \<le> INT32_MAX \<and> t < 5000) \<and> ts = [4000, 1000]"
proof -
  let ?w = "sample_world [] [Clock 1 0, PollErrno EINTR, Clock 4 0, PollTimeout]"
  have v: "os_waits (fst (WaitViciSocket POLLIN 5000 ?w)) = [4000, 1000]" by code_simp
  have w: "os_waits ?w = []" by (simp add: sample_world_def)
  obtain ts where "os_waits (fst (WaitViciSocket POLLIN 5000 ?w)) = os_waits ?w @ ts"
    "\<forall>t \<in> set ts. 0 < t \<and> t \<le> INT32_MAX \<and> t < 5000"
    using WaitViciSocket_waits [of POLLIN 5000 ?w "fst (WaitViciSocket POLLIN 5000 ?w)"
        "snd (WaitViciSocket POLLIN 5000 ?w)"] by auto
  then show ?thesis using v w by auto
qed

text \<open>C8: Sending a packet hands the kernel the frame of its content, or a prefix of it when the
  call fails; a failure leaves the socket closed, and no descriptor leaks.\<close>

theorem SendViciTransportPacket_frames:
  assumes "fd_ok w" and "uiLength p \<le> VICI_MAX_SEGMENT_LENGTH"
    and "SendViciTransportPacket p w = (w', e)"
  shows "fd_ok w' \<and> os_in w' = os_in w \<and>
     (\<exists>sent. os_out w' = os_out w @ sent \<and> prefix sent (frame (pucData p)) \<and>
        (e = IPSEC_OK \<longrightarrow> sent = frame (pucData p) \<and> 0 \<le> iViciSocket w') \<and>
        (e \<noteq> IPSEC_OK \<longrightarrow> iViciSocket w' = -1))"
  using SendViciTransportPacket_props [OF assms(1,3)] assms(2) by blast

theorem SendViciTransportPacket_frames_witness:
  "let p = \<lparr>pucData = ''abc'', uiCapacity = 3, bSensitive = False\<rparr>;
       w = sample_world [] [Clock 1 0, Clock 1 0, PollReady POLLOUT, Moved 4,
             Clock 1 0, PollReady POLLOUT, Moved 1, Clock 1 0, PollReady POLLOUT, MoveErrno EAGAIN,
             Clock 1 0, PollReady POLLOUT, Moved 7];
       (w', e) = SendViciTransportPacket p w
   in e = IPSEC_OK \<and> os_out w' = frame ''abc'' \<and> fd_ok w'"
proof -
  let ?p = "\<lparr>pucData = ''abc'', uiCapacity = 3, bSensitive = False\<rparr>"
  let ?w = "sample_world [] [Clock 1 0, Clock 1 0, PollReady POLLOUT, Moved 4,
             Clock 1 0, PollReady POLLOUT, Moved 1, Clock 1 0, PollReady POLLOUT, MoveErrno EAGAIN,
             Clock 1 0, PollReady POLLOUT, Moved 7]"
  let ?r = "SendViciTransportPacket ?p ?w"
  have e: "snd ?r = IPSEC_OK" by code_simp
  have o: "os_out ?w = []" by (simp add: sample_world_def)
  have l: "uiLength ?p \<le> VICI_MAX_SEGMENT_LENGTH" by simp
  note SendViciTransportPacket_frames [OF sample_world_fd_ok l, of _ _ "fst ?r" "snd ?r"]
  then show ?thesis using e o by (auto simp: case_prod_beta)
qed

text \<open>C9: What a receive returns is the next frame of the stream, however the kernel cut it
  into pieces, between 1 byte and a segment long; a failure leaves the socket closed and the
  buffer released.\<close>

theorem ReceiveViciTransportPacket_frames:
  assumes "fd_ok w" and "ReceiveViciTransportPacket (p, w) = ((p', w'), e)"
  shows "fd_ok w' \<and> os_out w' = os_out w \<and>
     (e = IPSEC_OK \<longrightarrow> os_in w = frame (pucData p') @ os_in w' \<and> buffer_wf p' \<and> 0 < uiLength p') \<and>
     (e \<noteq> IPSEC_OK \<longrightarrow> iViciSocket w' = -1 \<and> os_open w' = [])"
  using ReceiveViciTransportPacket_props [OF assms] by (auto simp: fd_ok_def)

theorem ReceiveViciTransportPacket_frames_witness:
  "let w = sample_world (frame ''xyz'' @ frame ''q'')
         [Clock 1 0, Clock 1 0, PollReady POLLIN, Moved 3, Clock 1 0, PollReady POLLIN, Moved 9,
          Clock 1 0, PollErrno EINTR, Clock 1 0, PollReady POLLIN, Moved 2,
          Clock 1 0, PollReady POLLIN, Moved 2];
       ((p', w'), e) = ReceiveViciTransportPacket (zero_buffer, w)
   in e = IPSEC_OK \<and> frame ''xyz'' @ frame ''q'' = frame (pucData p') @ os_in w'"
proof -
  let ?w = "sample_world (frame ''xyz'' @ frame ''q'')
         [Clock 1 0, Clock 1 0, PollReady POLLIN, Moved 3, Clock 1 0, PollReady POLLIN, Moved 9,
          Clock 1 0, PollErrno EINTR, Clock 1 0, PollReady POLLIN, Moved 2,
          Clock 1 0, PollReady POLLIN, Moved 2]"
  let ?r = "ReceiveViciTransportPacket (zero_buffer, ?w)"
  have e: "snd ?r = IPSEC_OK" by code_simp
  have i: "os_in ?w = frame ''xyz'' @ frame ''q''" by (simp add: sample_world_def)
  have "?r = ((fst (fst ?r), snd (fst ?r)), snd ?r)" by simp
  from ReceiveViciTransportPacket_frames [OF sample_world_fd_ok this]
  have "os_in ?w = frame (pucData (fst (fst ?r))) @ os_in (snd (fst ?r))" using e by blast
  then show ?thesis unfolding i Let_def case_prod_beta using e by blast
qed

end
