(* ===== verification/ViciParser.thy ===== *)
theory ViciParser
  imports ViciPacket
begin

section \<open>The VICI message parser (\<open>ipsec/vici/vici_parser.c\<close>)\<close>

text \<open>
  The parser walks over the message with an offset, the section depth and a flag for an
  open list, and hands each element to a callback.  The callback is a function from an
  element and its state to the new state and an error code; the NULL callback is
  \<open>no_callback\<close>.  Offsets only grow and never pass the message length, which is a
  \<open>uint32_t\<close>, so additions are plain; the subtractions the code writes are \<open>u32_sub\<close>.

  The specification is the step relation \<open>vici_step\<close> on depth and list flag, which says
  which elements may follow, with \<open>encode_element\<close>, the bytes of one element.  The
  parser accepts exactly the encodings of runs of this machine from the top level back
  to it.  The locales state what the parser promises a callback and what a callback
  promises in return; the collectors of the later theories interpret them.
\<close>

abbreviation VICI_MAX_SECTION_DEPTH :: nat where "VICI_MAX_SECTION_DEPTH \<equiv> 32"

record ViciElement =
  el_eType :: ViciElementType
  el_pucName :: "bytes option"
  el_pucValue :: "bytes option"
  el_uiDepth :: nat

definition ReadViciName :: "bytes \<Rightarrow> nat \<Rightarrow> IpsecError + (bytes \<times> nat)" where
  "ReadViciName pucMessage uiOffset =
     (if length pucMessage \<le> uiOffset then Inl IPSEC_ERR_VICI_PROTOCOL
      else
        let ucLength = of_char (pucMessage ! uiOffset); off = uiOffset + 1 in
        if ucLength = 0 \<or> u32_sub (length pucMessage) off < ucLength
        then Inl IPSEC_ERR_VICI_PROTOCOL
        else Inr (take ucLength (drop off pucMessage), off + ucLength))"

definition ReadViciValue :: "bytes \<Rightarrow> nat \<Rightarrow> IpsecError + (bytes \<times> nat)" where
  "ReadViciValue pucMessage uiOffset =
     (if u32_sub (length pucMessage) uiOffset < 2 then Inl IPSEC_ERR_VICI_PROTOCOL
      else
        let usLength = of_char (pucMessage ! uiOffset) * 256 + of_char (pucMessage ! (uiOffset + 1));
            off = uiOffset + 2
        in if u32_sub (length pucMessage) off < usLength then Inl IPSEC_ERR_VICI_PROTOCOL
           else Inr (take usLength (drop off pucMessage), off + usLength))"

definition ReadViciNameValue :: "bytes \<Rightarrow> nat \<Rightarrow> IpsecError + (bytes \<times> bytes \<times> nat)" where
  "ReadViciNameValue pucMessage uiOffset =
     (case ReadViciName pucMessage uiOffset of
        Inl e \<Rightarrow> Inl e
      | Inr (name, off) \<Rightarrow>
          (case ReadViciValue pucMessage off of
             Inl e \<Rightarrow> Inl e
           | Inr (val, off') \<Rightarrow> Inr (name, val, off')))"

text \<open>The body of the loop: one element, the new offset, depth and list flag.\<close>

definition parse_element ::
  "bytes \<Rightarrow> nat \<Rightarrow> nat \<Rightarrow> bool \<Rightarrow> IpsecError + (ViciElement \<times> nat \<times> nat \<times> bool)" where
  "parse_element pucMessage uiOffset uiDepth bListOpen =
     (case element_type_of (of_char (pucMessage ! uiOffset)) of
        None \<Rightarrow> Inl IPSEC_ERR_VICI_PROTOCOL
      | Some eType \<Rightarrow>
        (let off = uiOffset + 1;
             Element = \<lparr>el_eType = eType, el_pucName = None, el_pucValue = None,
                        el_uiDepth = uiDepth\<rparr>
         in case eType of
           VICI_ELEMENT_SECTION_START \<Rightarrow>
             if bListOpen \<or> VICI_MAX_SECTION_DEPTH \<le> uiDepth then Inl IPSEC_ERR_VICI_PROTOCOL
             else (case ReadViciName pucMessage off of
                     Inl e \<Rightarrow> Inl e
                   | Inr (name, off') \<Rightarrow>
                       Inr (Element\<lparr>el_pucName := Some name, el_uiDepth := uiDepth + 1\<rparr>,
                            off', uiDepth + 1, bListOpen))
         | VICI_ELEMENT_SECTION_END \<Rightarrow>
             if bListOpen \<or> uiDepth = 0 then Inl IPSEC_ERR_VICI_PROTOCOL
             else Inr (Element, off, uiDepth - 1, bListOpen)
         | VICI_ELEMENT_KEY_VALUE \<Rightarrow>
             if bListOpen then Inl IPSEC_ERR_VICI_PROTOCOL
             else (case ReadViciNameValue pucMessage off of
                     Inl e \<Rightarrow> Inl e
                   | Inr (name, val, off') \<Rightarrow>
                       Inr (Element\<lparr>el_pucName := Some name, el_pucValue := Some val\<rparr>,
                            off', uiDepth, bListOpen))
         | VICI_ELEMENT_LIST_START \<Rightarrow>
             if bListOpen then Inl IPSEC_ERR_VICI_PROTOCOL
             else (case ReadViciName pucMessage off of
                     Inl e \<Rightarrow> Inl e
                   | Inr (name, off') \<Rightarrow>
                       Inr (Element\<lparr>el_pucName := Some name\<rparr>, off', uiDepth, True))
         | VICI_ELEMENT_LIST_ITEM \<Rightarrow>
             if \<not> bListOpen then Inl IPSEC_ERR_VICI_PROTOCOL
             else (case ReadViciValue pucMessage off of
                     Inl e \<Rightarrow> Inl e
                   | Inr (val, off') \<Rightarrow>
                       Inr (Element\<lparr>el_pucValue := Some val\<rparr>, off', uiDepth, bListOpen))
         | VICI_ELEMENT_LIST_END \<Rightarrow>
             if \<not> bListOpen then Inl IPSEC_ERR_VICI_PROTOCOL
             else Inr (Element, off, uiDepth, False)))"

lemma ReadViciName_Inr:
  assumes "ReadViciName m off = Inr (name, off')"
  shows "off < off'"
  using assms by (auto simp: ReadViciName_def Let_def split: if_splits)

lemma ReadViciValue_Inr:
  assumes "ReadViciValue m off = Inr (val, off')"
  shows "off < off'"
  using assms by (auto simp: ReadViciValue_def Let_def split: if_splits)

lemma parse_element_progress:
  assumes "parse_element m off d open = Inr (el, off', d', open')"
  shows "off < off'"
  using assms
  by (auto simp: parse_element_def ReadViciNameValue_def Let_def
      dest!: ReadViciName_Inr ReadViciValue_Inr
      split: option.splits ViciElementType.splits if_splits sum.splits prod.splits)

lemma Read_error:
  "ReadViciName m off = Inl e \<Longrightarrow> e = IPSEC_ERR_VICI_PROTOCOL"
  "ReadViciValue m off = Inl e \<Longrightarrow> e = IPSEC_ERR_VICI_PROTOCOL"
  by (auto simp: ReadViciName_def ReadViciValue_def Let_def split: if_splits)

lemma parse_element_error:
  "parse_element m off d open = Inl e \<Longrightarrow> e = IPSEC_ERR_VICI_PROTOCOL"
  by (auto simp: parse_element_def ReadViciNameValue_def Let_def dest: Read_error
      split: option.splits ViciElementType.splits if_splits sum.splits prod.splits)

function vici_loop ::
  "(ViciElement \<Rightarrow> 's \<Rightarrow> 's outcome) \<Rightarrow> bytes \<Rightarrow> nat \<Rightarrow> nat \<Rightarrow> bool \<Rightarrow> 's \<Rightarrow> 's outcome" where
  "vici_loop pCallback pucMessage uiOffset uiDepth bListOpen s =
     (if uiOffset < length pucMessage
      then (case parse_element pucMessage uiOffset uiDepth bListOpen of
              Inl e \<Rightarrow> (s, e)
            | Inr (Element, off', depth', open') \<Rightarrow>
                and_then (pCallback Element s) (vici_loop pCallback pucMessage off' depth' open'))
      else if bListOpen \<or> uiDepth \<noteq> 0 then (s, IPSEC_ERR_VICI_PROTOCOL)
      else (s, IPSEC_OK))"
  by pat_completeness auto
termination
  by (relation "measure (\<lambda>(cb, m, off, d, open, s). length m - off)")
    (use parse_element_progress diff_less_mono2 in fastforce)+

declare vici_loop.simps [simp del]

definition ParseViciMessage ::
  "(ViciElement \<Rightarrow> 's \<Rightarrow> 's outcome) \<Rightarrow> bytes \<Rightarrow> 's \<Rightarrow> 's outcome" where
  "ParseViciMessage pCallback pucMessage s = vici_loop pCallback pucMessage 0 0 False s"

definition no_callback :: "ViciElement \<Rightarrow> 's \<Rightarrow> 's outcome" where
  "no_callback el s = (s, IPSEC_OK)"

subsection \<open>The machine the parser implements\<close>

definition wire_name :: "bytes \<Rightarrow> bool" where
  "wire_name s \<longleftrightarrow> 0 < length s \<and> length s \<le> UINT8_MAX"

definition wire_value :: "bytes \<Rightarrow> bool" where
  "wire_value v \<longleftrightarrow> length v \<le> UINT16_MAX"

type_synonym parser_state = "nat \<times> bool"

inductive vici_step :: "parser_state \<Rightarrow> ViciElement \<Rightarrow> parser_state \<Rightarrow> bool" where
  section_start: "d < VICI_MAX_SECTION_DEPTH \<Longrightarrow> wire_name n \<Longrightarrow>
     vici_step (d, False)
       \<lparr>el_eType = VICI_ELEMENT_SECTION_START, el_pucName = Some n, el_pucValue = None,
        el_uiDepth = Suc d\<rparr> (Suc d, False)"
| section_end:
     "vici_step (Suc d, False)
       \<lparr>el_eType = VICI_ELEMENT_SECTION_END, el_pucName = None, el_pucValue = None,
        el_uiDepth = Suc d\<rparr> (d, False)"
| key_value: "wire_name n \<Longrightarrow> wire_value v \<Longrightarrow>
     vici_step (d, False)
       \<lparr>el_eType = VICI_ELEMENT_KEY_VALUE, el_pucName = Some n, el_pucValue = Some v,
        el_uiDepth = d\<rparr> (d, False)"
| list_start: "wire_name n \<Longrightarrow>
     vici_step (d, False)
       \<lparr>el_eType = VICI_ELEMENT_LIST_START, el_pucName = Some n, el_pucValue = None,
        el_uiDepth = d\<rparr> (d, True)"
| list_item: "wire_value v \<Longrightarrow>
     vici_step (d, True)
       \<lparr>el_eType = VICI_ELEMENT_LIST_ITEM, el_pucName = None, el_pucValue = Some v,
        el_uiDepth = d\<rparr> (d, True)"
| list_end:
     "vici_step (d, True)
       \<lparr>el_eType = VICI_ELEMENT_LIST_END, el_pucName = None, el_pucValue = None,
        el_uiDepth = d\<rparr> (d, False)"

inductive vici_run :: "parser_state \<Rightarrow> ViciElement list \<Rightarrow> parser_state \<Rightarrow> bool" where
  run_Nil: "vici_run p [] p"
| run_Cons: "vici_step p el q \<Longrightarrow> vici_run q els r \<Longrightarrow> vici_run p (el # els) r"

inductive_cases vici_stepE: "vici_step p el q"
inductive_simps vici_run_Nil [simp]: "vici_run p [] q"
inductive_simps vici_run_Cons: "vici_run p (el # els) r"

lemma vici_run_append:
  "vici_run p (xs @ ys) r \<longleftrightarrow> (\<exists>q. vici_run p xs q \<and> vici_run q ys r)"
  by (induction xs arbitrary: p) (auto simp: vici_run_Cons)

lemma run_appendI: "vici_run p xs q \<Longrightarrow> vici_run q ys r \<Longrightarrow> vici_run p (xs @ ys) r"
  by (auto simp: vici_run_append simp del: split_paired_Ex)

lemma run_single: "vici_step p el q \<Longrightarrow> vici_run p [el] q"
  by (rule run_Cons [OF _ run_Nil])

text \<open>A legal message: a run from the top level back to the top level.\<close>

definition legal_message :: "ViciElement list \<Rightarrow> bool" where
  "legal_message els \<longleftrightarrow> vici_run (0, False) els (0, False)"

lemma vici_step_depth: "vici_step p el q \<Longrightarrow> fst p \<le> VICI_MAX_SECTION_DEPTH \<Longrightarrow>
   fst q \<le> VICI_MAX_SECTION_DEPTH"
  by (auto elim: vici_stepE)

definition encode_element :: "ViciElement \<Rightarrow> bytes" where
  "encode_element el =
     element_byte (el_eType el) @
     (case el_pucName el of None \<Rightarrow> [] | Some n \<Rightarrow> encode_name n) @
     (case el_pucValue el of None \<Rightarrow> [] | Some v \<Rightarrow> encode_value v)"

definition encode_elements :: "ViciElement list \<Rightarrow> bytes" where
  "encode_elements els = concat (map encode_element els)"

lemma encode_elements_simps [simp]:
  "encode_elements [] = []"
  "encode_elements (el # els) = encode_element el @ encode_elements els"
  "encode_elements (xs @ ys) = encode_elements xs @ encode_elements ys"
  by (simp_all add: encode_elements_def)

fun deliver :: "(ViciElement \<Rightarrow> 's \<Rightarrow> 's outcome) \<Rightarrow> ViciElement list \<Rightarrow> 's \<Rightarrow> 's outcome" where
  "deliver cb [] s = (s, IPSEC_OK)"
| "deliver cb (el # els) s = and_then (cb el s) (deliver cb els)"

subsection \<open>Reading back what was encoded\<close>

lemma length_element_byte [simp]: "length (element_byte t) = Suc 0"
  by (simp add: element_byte_def)

lemma ReadViciName_encode:
  assumes "wire_name n" and "length (pre @ encode_name n @ rest) \<le> UINT32_MAX"
  shows "ReadViciName (pre @ encode_name n @ rest) (length pre) =
     Inr (n, length pre + length (encode_name n))"
  using assms by (simp add: ReadViciName_def wire_name_def encode_name_def Let_def nth_append)

lemma be16_value:
  assumes "n \<le> UINT16_MAX"
  shows "of_char (be16 n ! 0) * 256 + of_char (be16 n ! Suc 0) = n"
    and "length (be16 n) = 2"
  using assms by (simp_all add: be16_def)

lemma ReadViciValue_encode:
  assumes "wire_value v" and "length (pre @ encode_value v @ rest) \<le> UINT32_MAX"
  shows "ReadViciValue (pre @ encode_value v @ rest) (length pre) =
     Inr (v, length pre + length (encode_value v))"
proof -
  let ?m = "pre @ encode_value v @ rest"
  have len: "length ?m = length pre + 2 + length v + length rest"
    using assms(1) by (simp add: encode_value_def wire_value_def be16_value)
  have bytes: "?m ! length pre = be16 (length v) ! 0" "?m ! Suc (length pre) = be16 (length v) ! Suc 0"
    by (simp_all add: encode_value_def be16_def nth_append)
  have data: "drop (length pre + 2) ?m = v @ rest"
    by (simp add: encode_value_def be16_def)
  show ?thesis
    using assms len bytes data be16_value [of "length v"]
    by (simp add: ReadViciValue_def Let_def wire_value_def encode_value_def)
qed

lemma ReadViciName_sound:
  assumes "ReadViciName m off = Inr (n, off')" and "length m \<le> UINT32_MAX"
  shows "wire_name n \<and> off' \<le> length m \<and> off' = off + length (encode_name n) \<and>
         take (length (encode_name n)) (drop off m) = encode_name n"
proof -
  have off: "off < length m" using assms by (auto simp: ReadViciName_def split: if_splits)
  let ?k = "of_char (m ! off) :: nat"
  have sub: "u32_sub (length m) (off + 1) = length m - (off + 1)"
    using off assms(2) by (intro u32_sub_id) auto
  have k: "?k \<noteq> 0" "?k \<le> length m - (off + 1)" "n = take ?k (drop (off + 1) m)" "off' = off + 1 + ?k"
    using assms off by (auto simp: ReadViciName_def Let_def sub split: if_splits)
  have n: "length n = ?k" using k by simp
  have "drop off m = m ! off # drop (Suc off) m" using off by (simp add: Cons_nth_drop_Suc)
  then show ?thesis
    using k n off of_char_le_255 [of "m ! off"] by (auto simp: wire_name_def encode_name_def)
qed

lemma ReadViciValue_sound:
  assumes "ReadViciValue m off = Inr (v, off')" and "off \<le> length m" and "length m \<le> UINT32_MAX"
  shows "wire_value v \<and> off' \<le> length m \<and> off' = off + length (encode_value v) \<and>
         take (length (encode_value v)) (drop off m) = encode_value v"
proof -
  have sub: "u32_sub (length m) off = length m - off"
    using assms by (intro u32_sub_id) auto
  then have two: "off + 2 \<le> length m"
    using assms by (auto simp: ReadViciValue_def split: if_splits)
  have sub2: "u32_sub (length m) (off + 2) = length m - (off + 2)"
    using two assms(3) by (intro u32_sub_id) auto
  let ?a = "of_char (m ! off) :: nat" and ?b = "of_char (m ! Suc off) :: nat"
  have k: "?a * 256 + ?b \<le> length m - (off + 2)"
    "v = take (?a * 256 + ?b) (drop (off + 2) m)" "off' = off + 2 + (?a * 256 + ?b)"
    using assms two by (auto simp: ReadViciValue_def Let_def sub sub2 split: if_splits)
  have len: "length v = ?a * 256 + ?b" using k by simp
  have ab: "?a \<le> 255" "?b \<le> 255" by (rule of_char_le_255)+
  have be: "be16 (length v) = [m ! off, m ! Suc off]"
    using ab by (simp add: be16_def len div_mult_self3)
  have "drop off m = m ! off # m ! Suc off # drop (Suc (Suc off)) m"
    using two by (simp add: Cons_nth_drop_Suc)
  then show ?thesis
    using k len ab be two by (auto simp: wire_value_def encode_value_def)
qed

lemma drop_add_eq: "drop a m = x @ rest \<Longrightarrow> drop (a + length x) m = rest"
  by (metis add.commute append_eq_conv_conj drop_drop)

lemma msg_split: "take k (drop off m) = x \<Longrightarrow> length x = k \<Longrightarrow> off \<le> length m \<Longrightarrow>
   \<exists>pre rest. m = pre @ x @ rest \<and> length pre = off"
  by (rule exI [of _ "take off m"], rule exI [of _ "drop k (drop off m)"])
    (metis append_take_drop_id length_take min.absorb2)

text \<open>Every legal element is read back, wherever it stands in a message.\<close>

lemma parse_element_encode:
  assumes "vici_step (d, open) el (d', open')"
    and "length (pre @ encode_element el @ rest) \<le> UINT32_MAX"
  shows "parse_element (pre @ encode_element el @ rest) (length pre) d open =
     Inr (el, length pre + length (encode_element el), d', open')"
proof -
  define m where "m = pre @ encode_element el @ rest"
  define off where "off = length pre"
  let ?pre = "pre @ element_byte (el_eType el)"
  have at: "element_type_of (of_char (m ! off)) = Some (el_eType el)"
    by (simp add: m_def off_def encode_element_def element_byte_def nth_append)
  have pre: "length ?pre = off + 1" by (simp add: off_def)
  have len: "length m \<le> UINT32_MAX" using assms(2) by (simp add: m_def)
  have nm: "ReadViciName m (off + 1) = Inr (n, off + 1 + length (encode_name n))"
    if "m = ?pre @ encode_name n @ r" "wire_name n" for n r
    using ReadViciName_encode [OF that(2), of ?pre r] that(1) len pre by simp
  have val: "ReadViciValue m (length p) = Inr (v, length p + length (encode_value v))"
    if "m = p @ encode_value v @ r" "wire_value v" for p v r
    using ReadViciValue_encode [OF that(2), of p r] that(1) len by simp
  note simps = parse_element_def at Let_def encode_element_def ReadViciNameValue_def
  have "parse_element m off d open = Inr (el, off + length (encode_element el), d', open')"
    using assms(1)
  proof (cases rule: vici_step.cases)
    case (section_start n)
    then have "m = ?pre @ encode_name n @ rest" by (simp add: m_def encode_element_def)
    from nm [OF this] section_start show ?thesis by (simp add: simps)
  next
    case (section_end)
    then show ?thesis by (simp add: simps)
  next
    case (key_value n v)
    then have m: "m = ?pre @ encode_name n @ encode_value v @ rest"
      by (simp add: m_def encode_element_def)
    have "m = (?pre @ encode_name n) @ encode_value v @ rest" using m by simp
    from nm [OF m] val [OF this] pre key_value show ?thesis by (simp add: simps)
  next
    case (list_start n)
    then have "m = ?pre @ encode_name n @ rest" by (simp add: m_def encode_element_def)
    from nm [OF this] list_start show ?thesis by (simp add: simps)
  next
    case (list_item v)
    then have "m = ?pre @ encode_value v @ rest" by (simp add: m_def encode_element_def)
    from val [OF this] pre list_item show ?thesis by (simp add: simps)
  next
    case list_end
    then show ?thesis by (simp add: simps)
  qed
  then show ?thesis by (simp add: m_def off_def)
qed

text \<open>Conversely, whatever the loop body accepts is a legal element and its encoding.\<close>

lemma sum_case_Inr:
  "(case x of Inl e \<Rightarrow> Inl e | Inr y \<Rightarrow> f y) = Inr z \<longleftrightarrow> (\<exists>y. x = Inr y \<and> f y = Inr z)"
  by (cases x) auto

lemma take_append_drop:
  assumes "take a (drop o1 m) = x" and "length x = a" and "take b (drop (o1 + a) m) = y"
  shows "take (a + b) (drop o1 m) = x @ y"
  using assms by (simp add: take_add add.commute)

lemma parse_element_sound:
  assumes p: "parse_element m off d open = Inr (el, off', d', open')"
    and off: "off < length m" and len: "length m \<le> UINT32_MAX" and d: "d \<le> VICI_MAX_SECTION_DEPTH"
  shows "vici_step (d, open) el (d', open') \<and> off' \<le> length m \<and>
     off' = off + length (encode_element el) \<and>
     take (length (encode_element el)) (drop off m) = encode_element el"
proof -
  obtain t where t: "element_type_of (of_char (m ! off)) = Some t"
    using p by (auto simp: parse_element_def split: option.splits)
  have head: "take 1 (drop off m) = element_byte t"
  proof -
    have "of_char (m ! off) = element_code t" using t by (simp add: element_type_of_Some)
    then have "m ! off = char_of (element_code t)" by (metis char_of_char)
    then show ?thesis using off by (simp add: element_byte_def take_Suc_conv_app_nth)
  qed
  note simps = parse_element_def t Let_def sum_case_Inr
  note names = ReadViciName_sound [OF _ len] and vals = ReadViciValue_sound [OF _ _ len]
  note glue = take_append_drop [OF head, simplified]
  show ?thesis
  proof (cases t)
    case VICI_ELEMENT_SECTION_START
    then obtain n where "ReadViciName m (off + 1) = Inr (n, off')" "\<not> open"
      "d < VICI_MAX_SECTION_DEPTH" "d' = d + 1" "\<not> open'"
      "el = \<lparr>el_eType = t, el_pucName = Some n, el_pucValue = None, el_uiDepth = d + 1\<rparr>"
      using p by (auto simp: simps split: if_splits)
    with names [OF this(1)] glue [of _ "encode_name n"] VICI_ELEMENT_SECTION_START show ?thesis
      by (auto simp: encode_element_def intro: vici_step.intros)
  next
    case VICI_ELEMENT_SECTION_END
    then obtain d0 where "d = Suc d0" "\<not> open" using p by (cases d) (auto simp: simps split: if_splits)
    then show ?thesis using p head off VICI_ELEMENT_SECTION_END
      by (auto simp: simps encode_element_def intro: vici_step.intros)
  next
    case VICI_ELEMENT_KEY_VALUE
    then obtain n o1 v where r: "ReadViciName m (off + 1) = Inr (n, o1)"
      "ReadViciValue m o1 = Inr (v, off')" "\<not> open" "d' = d" "\<not> open'"
      "el = \<lparr>el_eType = t, el_pucName = Some n, el_pucValue = Some v, el_uiDepth = d\<rparr>"
      using p by (auto simp: simps ReadViciNameValue_def split: if_splits)
    note n = names [OF r(1)]
    then have o1: "o1 \<le> length m" by blast
    note v = vals [OF r(2) o1]
    have "take (length (encode_name n) + length (encode_value v)) (drop (off + 1) m) =
        encode_name n @ encode_value v"
      using n v by (intro take_append_drop) auto
    then have "take (Suc (length (encode_name n) + length (encode_value v))) (drop off m) =
        element_byte t @ encode_name n @ encode_value v"
      by (intro glue) simp
    then show ?thesis
      using n v r VICI_ELEMENT_KEY_VALUE by (simp add: encode_element_def vici_step.key_value)
  next
    case VICI_ELEMENT_LIST_START
    then obtain n where "ReadViciName m (off + 1) = Inr (n, off')" "\<not> open" "d' = d" "open'"
      "el = \<lparr>el_eType = t, el_pucName = Some n, el_pucValue = None, el_uiDepth = d\<rparr>"
      using p by (auto simp: simps split: if_splits)
    with names [OF this(1)] glue [of _ "encode_name n"] VICI_ELEMENT_LIST_START show ?thesis
      by (auto simp: encode_element_def intro: vici_step.intros)
  next
    case VICI_ELEMENT_LIST_ITEM
    then obtain v where "ReadViciValue m (off + 1) = Inr (v, off')" "open" "d' = d" "open'"
      "el = \<lparr>el_eType = t, el_pucName = None, el_pucValue = Some v, el_uiDepth = d\<rparr>"
      using p by (auto simp: simps split: if_splits)
    with vals [OF this(1)] off glue [of _ "encode_value v"] VICI_ELEMENT_LIST_ITEM show ?thesis
      by (auto simp: encode_element_def intro: vici_step.intros)
  next
    case VICI_ELEMENT_LIST_END
    then show ?thesis using p head off
      by (auto simp: simps encode_element_def split: if_splits intro: vici_step.intros)
  qed
qed

subsection \<open>The language of the parser\<close>

text \<open>Feeding the encoding of a run to the loop delivers its elements in order.\<close>

lemma vici_loop_encode:
  assumes "vici_run (d, open) els (0, False)"
    and "length (pre @ encode_elements els) \<le> UINT32_MAX"
  shows "vici_loop cb (pre @ encode_elements els) (length pre) d open s = deliver cb els s"
  using assms
proof (induction els arbitrary: pre d "open" s)
  case Nil
  then show ?case by (simp add: vici_loop.simps)
next
  case (Cons el els)
  obtain d1 o1 where step: "vici_step (d, open) el (d1, o1)"
    and run: "vici_run (d1, o1) els (0, False)"
    using Cons.prems(1) by (auto simp: vici_run_Cons)
  have p: "parse_element (pre @ encode_element el @ encode_elements els) (length pre) d open =
      Inr (el, length pre + length (encode_element el), d1, o1)"
    using parse_element_encode [OF step] Cons.prems(2) by simp
  have lt: "0 < length (encode_element el)" by (simp add: encode_element_def element_byte_def)
  have ih: "vici_loop cb ((pre @ encode_element el) @ encode_elements els)
      (length (pre @ encode_element el)) d1 o1 t = deliver cb els t" for t
    using Cons.prems(2) by (intro Cons.IH [OF run]) simp
  have "vici_loop cb (pre @ encode_element el @ encode_elements els)
      (length pre + length (encode_element el)) d1 o1 = deliver cb els"
    using ih by (intro ext) simp
  then show ?case
    using p lt by (subst vici_loop.simps) (simp add: add.assoc)
qed

lemma encode_elements_split:
  assumes "take k (drop off m) = x" and "length x = k" and "drop (off + k) m = y"
  shows "drop off m = x @ y"
  using assms by (metis append_take_drop_id drop_drop add.commute)

lemma vici_loop_sound:
  assumes "vici_loop cb m off d open s = (s', IPSEC_OK)" and "off \<le> length m"
    and "length m \<le> UINT32_MAX" and "d \<le> VICI_MAX_SECTION_DEPTH"
  shows "\<exists>els. vici_run (d, open) els (0, False) \<and> drop off m = encode_elements els \<and>
     deliver cb els s = (s', IPSEC_OK)"
  using assms
proof (induction cb m off d "open" s rule: vici_loop.induct)
  case (1 cb m off d "open" s)
  show ?case
  proof (cases "off < length m")
    case False
    then have "d = 0 \<and> \<not> open \<and> s' = s"
      using "1.prems"(1) by (subst (asm) vici_loop.simps) (auto split: if_splits)
    then show ?thesis using False by (intro exI [of _ "[]"]) simp
  next
    case True
    obtain el off' d' open' where p: "parse_element m off d open = Inr (el, off', d', open')"
      using "1.prems"(1) True by (subst (asm) vici_loop.simps)
      (auto split: sum.splits dest: parse_element_error)
    note snd = parse_element_sound [OF p True "1.prems"(3,4)]
    have "and_then (cb el s) (vici_loop cb m off' d' open') = (s', IPSEC_OK)"
      using "1.prems"(1) True p by (subst (asm) vici_loop.simps) simp
    then obtain s1 where cb: "cb el s = (s1, IPSEC_OK)"
      and rest: "vici_loop cb m off' d' open' s1 = (s', IPSEC_OK)"
      by (auto simp: and_then_ok)
    have "d' \<le> VICI_MAX_SECTION_DEPTH" using snd vici_step_depth "1.prems"(4) by fastforce
    with "1.IH" [OF True p refl refl refl rest] snd "1.prems"(3)
    obtain els where els: "vici_run (d', open') els (0, False)" "drop off' m = encode_elements els"
      "deliver cb els s1 = (s', IPSEC_OK)"
      by auto
    have "drop off m = encode_element el @ encode_elements els"
      using snd els(2) by (intro encode_elements_split) auto
    then show ?thesis
      using snd els cb by (intro exI [of _ "el # els"]) (auto simp: vici_run_Cons)
  qed
qed

lemma ParseViciMessage_legal:
  assumes "length m \<le> UINT32_MAX"
  shows "ParseViciMessage cb m s = (s', IPSEC_OK) \<longleftrightarrow>
     (\<exists>els. legal_message els \<and> m = encode_elements els \<and> deliver cb els s = (s', IPSEC_OK))"
proof
  assume "ParseViciMessage cb m s = (s', IPSEC_OK)"
  then show "\<exists>els. legal_message els \<and> m = encode_elements els \<and> deliver cb els s = (s', IPSEC_OK)"
    using vici_loop_sound [of cb m 0 0 False s s'] assms
    by (auto simp: ParseViciMessage_def legal_message_def)
next
  assume "\<exists>els. legal_message els \<and> m = encode_elements els \<and> deliver cb els s = (s', IPSEC_OK)"
  then show "ParseViciMessage cb m s = (s', IPSEC_OK)"
    using vici_loop_encode [of 0 False _ "[]" cb s] assms
    by (auto simp: ParseViciMessage_def legal_message_def)
qed

lemma ParseViciMessage_encode:
  assumes "legal_message els" and "length (encode_elements els) \<le> UINT32_MAX"
  shows "ParseViciMessage cb (encode_elements els) s = deliver cb els s"
  using vici_loop_encode [of 0 False els "[]" cb s] assms
  by (simp add: ParseViciMessage_def legal_message_def)

text \<open>The callback that keeps the elements it is given.\<close>

definition collect :: "ViciElement \<Rightarrow> ViciElement list \<Rightarrow> ViciElement list outcome" where
  "collect el els = (els @ [el], IPSEC_OK)"

lemma deliver_collect: "deliver collect els xs = (xs @ els, IPSEC_OK)"
  by (induction els arbitrary: xs) (simp_all add: collect_def)

subsection \<open>Documents\<close>

text \<open>A message is a list of items: sections with items inside, keys with a value, and
  lists of values.  \<open>item_events d\<close> is the traversal at depth \<open>d\<close>, \<open>item_ok k\<close> says
  that the names and values are within the wire limits and that sections nest at most
  \<open>k\<close> deep.\<close>

datatype vici_item =
    Section bytes "vici_item list"
  | KeyValue bytes bytes
  | ValueList bytes "bytes list"

abbreviation el_section_start :: "nat \<Rightarrow> bytes \<Rightarrow> ViciElement" where
  "el_section_start d n \<equiv> \<lparr>el_eType = VICI_ELEMENT_SECTION_START, el_pucName = Some n,
     el_pucValue = None, el_uiDepth = d\<rparr>"

abbreviation el_section_end :: "nat \<Rightarrow> ViciElement" where
  "el_section_end d \<equiv> \<lparr>el_eType = VICI_ELEMENT_SECTION_END, el_pucName = None,
     el_pucValue = None, el_uiDepth = d\<rparr>"

abbreviation el_key_value :: "nat \<Rightarrow> bytes \<Rightarrow> bytes \<Rightarrow> ViciElement" where
  "el_key_value d n v \<equiv> \<lparr>el_eType = VICI_ELEMENT_KEY_VALUE, el_pucName = Some n,
     el_pucValue = Some v, el_uiDepth = d\<rparr>"

abbreviation el_list_start :: "nat \<Rightarrow> bytes \<Rightarrow> ViciElement" where
  "el_list_start d n \<equiv> \<lparr>el_eType = VICI_ELEMENT_LIST_START, el_pucName = Some n,
     el_pucValue = None, el_uiDepth = d\<rparr>"

abbreviation el_list_item :: "nat \<Rightarrow> bytes \<Rightarrow> ViciElement" where
  "el_list_item d v \<equiv> \<lparr>el_eType = VICI_ELEMENT_LIST_ITEM, el_pucName = None,
     el_pucValue = Some v, el_uiDepth = d\<rparr>"

abbreviation el_list_end :: "nat \<Rightarrow> ViciElement" where
  "el_list_end d \<equiv> \<lparr>el_eType = VICI_ELEMENT_LIST_END, el_pucName = None,
     el_pucValue = None, el_uiDepth = d\<rparr>"

fun item_events :: "nat \<Rightarrow> vici_item \<Rightarrow> ViciElement list" where
  "item_events d (Section n items) =
     el_section_start (Suc d) n # concat (map (item_events (Suc d)) items) @ [el_section_end (Suc d)]"
| "item_events d (KeyValue n v) = [el_key_value d n v]"
| "item_events d (ValueList n vs) = el_list_start d n # map (el_list_item d) vs @ [el_list_end d]"

fun item_ok :: "nat \<Rightarrow> vici_item \<Rightarrow> bool" where
  "item_ok k (Section n items) \<longleftrightarrow>
     wire_name n \<and> (case k of 0 \<Rightarrow> False | Suc j \<Rightarrow> (\<forall>i \<in> set items. item_ok j i))"
| "item_ok k (KeyValue n v) \<longleftrightarrow> wire_name n \<and> wire_value v"
| "item_ok k (ValueList n vs) \<longleftrightarrow> wire_name n \<and> (\<forall>v \<in> set vs. wire_value v)"

definition doc_events :: "nat \<Rightarrow> vici_item list \<Rightarrow> ViciElement list" where
  "doc_events d items = concat (map (item_events d) items)"

definition doc_ok :: "vici_item list \<Rightarrow> bool" where
  "doc_ok items \<longleftrightarrow> (\<forall>i \<in> set items. item_ok VICI_MAX_SECTION_DEPTH i)"

definition encode_doc :: "vici_item list \<Rightarrow> bytes" where
  "encode_doc items = encode_elements (doc_events 0 items)"

lemma doc_events_simps [simp]:
  "doc_events d [] = []"
  "doc_events d (i # is) = item_events d i @ doc_events d is"
  "doc_events d (xs @ ys) = doc_events d xs @ doc_events d ys"
  by (simp_all add: doc_events_def)

lemma run_list_items:
  "(\<forall>v \<in> set vs. wire_value v) \<Longrightarrow> vici_run (d, True) (map (el_list_item d) vs) (d, True)"
  by (induction vs) (auto intro: vici_step.intros run_Cons)

lemma run_concat:
  "(\<And>i. i \<in> set items \<Longrightarrow> vici_run p (f i) p) \<Longrightarrow> vici_run p (concat (map f items)) p"
  by (induction items) (auto intro: run_appendI)

lemma run_item:
  "item_ok k i \<Longrightarrow> k + d \<le> VICI_MAX_SECTION_DEPTH \<Longrightarrow> vici_run (d, False) (item_events d i) (d, False)"
proof (induction d i arbitrary: k rule: item_events.induct)
  case (1 d n items)
  then obtain j where k: "k = Suc j" by (auto split: nat.splits)
  have "vici_run (Suc d, False) (concat (map (item_events (Suc d)) items)) (Suc d, False)"
    by (rule run_concat) (use 1 k in auto)
  moreover have "vici_step (d, False) (el_section_start (Suc d) n) (Suc d, False)"
    using 1 k by (auto intro: vici_step.intros)
  ultimately show ?case
    by (auto intro!: run_Cons run_appendI run_single vici_step.section_end)
next
  case (2 d n v)
  then show ?case by (auto intro!: run_single vici_step.intros)
next
  case (3 d n vs)
  then show ?case
    by (auto intro!: run_Cons [OF vici_step.list_start] run_appendI [OF run_list_items] run_single
        vici_step.list_end)
qed

lemma doc_legal: "doc_ok items \<Longrightarrow> legal_message (doc_events 0 items)"
  unfolding legal_message_def doc_events_def doc_ok_def
  by (rule run_concat) (auto intro!: run_item [of VICI_MAX_SECTION_DEPTH])

text \<open>Every run back to the top level is the traversal of a document: what stands at depth
  \<open>d\<close> is a list of items, and after them the section is closed.\<close>

lemma run_list_split:
  assumes "vici_run (d, True) els (0, False)"
  shows "\<exists>vs rest. els = map (el_list_item d) vs @ el_list_end d # rest \<and>
     (\<forall>v \<in> set vs. wire_value v) \<and> vici_run (d, False) rest (0, False)"
  using assms
proof (induction els)
  case (Cons el els)
  then obtain q where step: "vici_step (d, True) el q" and run: "vici_run q els (0, False)"
    by (auto simp: vici_run_Cons)
  from step show ?case
  proof (cases rule: vici_step.cases)
    case (list_item v)
    then obtain vs rest where "els = map (el_list_item d) vs @ el_list_end d # rest"
      "\<forall>v \<in> set vs. wire_value v" "vici_run (d, False) rest (0, False)"
      using Cons.IH run by auto
    then show ?thesis using list_item by (intro exI [of _ "v # vs"] exI [of _ rest]) auto
  next
    case list_end
    then show ?thesis using run by (intro exI [of _ "[]"] exI [of _ els]) auto
  qed auto
qed simp

definition closes :: "nat \<Rightarrow> ViciElement list \<Rightarrow> bool" where
  "closes d rest \<longleftrightarrow> (case d of 0 \<Rightarrow> rest = []
     | Suc d' \<Rightarrow> (\<exists>rest'. rest = el_section_end d # rest' \<and> vici_run (d', False) rest' (0, False)))"

lemma run_doc_split:
  assumes "vici_run (d, False) els (0, False)" and "d \<le> VICI_MAX_SECTION_DEPTH"
  shows "\<exists>items rest. els = doc_events d items @ rest \<and>
     (\<forall>i \<in> set items. item_ok (VICI_MAX_SECTION_DEPTH - d) i) \<and> closes d rest"
  using assms
proof (induction els arbitrary: d rule: length_induct)
  case (1 els)
  let ?ok = "\<lambda>d items. \<forall>i \<in> set items. item_ok (VICI_MAX_SECTION_DEPTH - d) i"
  have IH: "\<exists>items rest. xs = doc_events k items @ rest \<and> ?ok k items \<and> closes k rest"
    if "length xs < length els" "vici_run (k, False) xs (0, False)" "k \<le> VICI_MAX_SECTION_DEPTH" for xs k
    using 1 that by blast
  have item: ?case if "els = item_events d i @ xs" "item_ok (VICI_MAX_SECTION_DEPTH - d) i"
      "length xs < length els" "vici_run (d, False) xs (0, False)" for i xs
  proof -
    from IH [OF that(3,4) "1.prems"(2)] obtain items rest
      where "xs = doc_events d items @ rest" "?ok d items" "closes d rest" by blast
    with that show ?thesis by (intro exI [of _ "i # items"] exI [of _ rest]) auto
  qed
  show ?case
  proof (cases els)
    case Nil
    then show ?thesis
      using "1.prems" by (intro exI [of _ "[]"] exI [of _ "[]"]) (auto simp: closes_def)
  next
    case (Cons el tl)
    then obtain q where step: "vici_step (d, False) el q" and run: "vici_run q tl (0, False)"
      using "1.prems" by (auto simp: vici_run_Cons)
    from step show ?thesis
    proof (cases rule: vici_step.cases)
      case (section_start n)
      then obtain items rest where inner: "tl = doc_events (Suc d) items @ rest" "?ok (Suc d) items"
        "closes (Suc d) rest"
        using IH [of tl "Suc d"] run Cons by auto
      then obtain rest' where rest: "rest = el_section_end (Suc d) # rest'"
        "vici_run (d, False) rest' (0, False)"
        by (auto simp: closes_def)
      have "VICI_MAX_SECTION_DEPTH - d = Suc (VICI_MAX_SECTION_DEPTH - Suc d)"
        using section_start(3) by simp
      then have "item_ok (VICI_MAX_SECTION_DEPTH - d) (Section n items)"
        using section_start(4) inner(2) by simp
      then show ?thesis
        by (rule item [of "Section n items" rest', rotated])
          (use inner rest section_start Cons in \<open>simp_all add: doc_events_def\<close>)
    next
      case (section_end d')
      then show ?thesis
        using Cons run by (intro exI [of _ "[]"] exI [of _ els]) (auto simp: closes_def)
    next
      case (key_value n v)
      show ?thesis by (rule item [of "KeyValue n v" tl]) (use key_value run Cons in auto)
    next
      case (list_start n)
      then obtain vs rest where "tl = map (el_list_item d) vs @ el_list_end d # rest"
        "\<forall>v \<in> set vs. wire_value v" "vici_run (d, False) rest (0, False)"
        using run run_list_split by blast
      then show ?thesis
        by (intro item [of "ValueList n vs" rest]) (use list_start Cons in auto)
    qed auto
  qed
qed

lemma legal_message_doc:
  "legal_message els \<longleftrightarrow> (\<exists>items. doc_ok items \<and> els = doc_events 0 items)"
proof
  assume "legal_message els"
  then show "\<exists>items. doc_ok items \<and> els = doc_events 0 items"
    using run_doc_split [of 0 els] by (auto simp: legal_message_def doc_ok_def closes_def)
qed (auto intro: doc_legal)

text \<open>A document is determined by its traversal, and so by its bytes.\<close>

definition stops :: "ViciElement list \<Rightarrow> bool" where
  "stops r \<longleftrightarrow> r = [] \<or> el_eType (hd r) = VICI_ELEMENT_SECTION_END"

lemma item_events_hd:
  "item_events d i \<noteq> []" "el_eType (hd (item_events d i @ r)) \<noteq> VICI_ELEMENT_SECTION_END"
  by (cases i; simp)+

lemma list_items_inj:
  "map (el_list_item d) vs @ el_list_end d # r = map (el_list_item d) us @ el_list_end d # r' \<Longrightarrow>
   vs = us \<and> r = r'"
proof (induction vs arbitrary: us)
  case Nil
  then show ?case by (cases us) auto
next
  case (Cons v vs)
  then show ?case by (cases us) auto
qed

lemma doc_events_inj:
  "doc_events d xs @ r = doc_events d ys @ r' \<Longrightarrow> stops r \<Longrightarrow> stops r' \<Longrightarrow> xs = ys \<and> r = r'"
proof (induction "length (doc_events d xs)" arbitrary: d xs r ys r' rule: less_induct)
  case less
  show ?case
  proof (cases xs)
    case Nil
    then show ?thesis using less.prems item_events_hd
      by (cases ys) (auto simp: stops_def)
  next
    case (Cons x xs1)
    then obtain y ys1 where ys: "ys = y # ys1"
      using less.prems item_events_hd by (cases ys) (auto simp: stops_def)
    have eq: "item_events d x @ doc_events d xs1 @ r = item_events d y @ doc_events d ys1 @ r'"
      using less.prems(1) Cons ys by simp
    have tail: "xs1 = ys1 \<and> r = r'" if "doc_events d xs1 @ r = doc_events d ys1 @ r'"
        "item_events d x \<noteq> []"
      using less.hyps [OF _ that(1) less.prems(2,3)] Cons that(2) by auto
    show ?thesis
    proof (cases x)
      case (Section n items)
      then obtain items' where y: "y = Section n items'"
        using eq by (cases y) auto
      let ?e = "el_section_end (Suc d)"
      have in_eq: "doc_events (Suc d) items @ (?e # doc_events d xs1 @ r) =
          doc_events (Suc d) items' @ (?e # doc_events d ys1 @ r')"
        using eq Section y by (simp add: doc_events_def)
      have "length (doc_events (Suc d) items) < length (doc_events d xs)"
        using Cons Section by (simp add: doc_events_def)
      from less.hyps [OF this in_eq] have "items = items'" "doc_events d xs1 @ r = doc_events d ys1 @ r'"
        by (auto simp: stops_def)
      with tail Section y Cons ys show ?thesis by auto
    next
      case (KeyValue n v)
      then have "y = KeyValue n v \<and> doc_events d xs1 @ r = doc_events d ys1 @ r'"
        using eq by (cases y) auto
      with tail KeyValue Cons ys show ?thesis by auto
    next
      case (ValueList n vs)
      then obtain us where y: "y = ValueList n us" using eq by (cases y) auto
      then have "vs = us \<and> doc_events d xs1 @ r = doc_events d ys1 @ r'"
        using eq ValueList list_items_inj [of d vs "doc_events d xs1 @ r" us] by auto
      with tail ValueList y Cons ys show ?thesis by auto
    qed
  qed
qed

lemma encode_doc_inj:
  assumes ok: "doc_ok a" "doc_ok b" and len: "length (encode_doc a) \<le> UINT32_MAX"
    and eq: "encode_doc a = encode_doc b"
  shows "a = b"
proof -
  have parse: "ParseViciMessage collect (encode_doc d) [] = (doc_events 0 d, IPSEC_OK)"
    if "doc_ok d" "length (encode_doc d) \<le> UINT32_MAX" for d
    using ParseViciMessage_encode [OF doc_legal [OF that(1)], where cb = collect and s = "[]"] that(2)
    by (simp add: encode_doc_def deliver_collect)
  have "(doc_events 0 a, IPSEC_OK) = (doc_events 0 b, IPSEC_OK)"
    using parse [OF ok(1) len] parse [OF ok(2)] len eq by simp
  then have "doc_events 0 a @ [] = doc_events 0 b @ []" by simp
  then show ?thesis using doc_events_inj [of 0 a "[]" b "[]"] by (simp add: stops_def)
qed

subsection \<open>What the parser promises a callback, and a callback the parser\<close>

text \<open>A callback with an invariant of its state: the parser keeps it, whatever the message
  and however the parse ends.\<close>

locale element_callback =
  fixes cb :: "ViciElement \<Rightarrow> 's \<Rightarrow> 's outcome"
    and inv :: "'s \<Rightarrow> bool"
  assumes cb_inv: "inv s \<Longrightarrow> inv (fst (cb el s))"
begin

lemma deliver_inv: "inv s \<Longrightarrow> inv (fst (deliver cb els s))"
  by (induction els arbitrary: s) (auto intro!: and_then_inv [of inv] cb_inv)

lemma loop_inv: "inv s \<Longrightarrow> inv (fst (vici_loop cb m off d open s))"
proof (induction "length m - off" arbitrary: off d "open" s rule: less_induct)
  case less
  show ?case
  proof (cases "off < length m \<and> (\<exists>x. parse_element m off d open = Inr x)")
    case True
    then obtain el off' d' o' where p: "parse_element m off d open = Inr (el, off', d', o')"
      by auto
    have "length m - off' < length m - off"
      using True parse_element_progress [OF p] by (simp add: diff_less_mono2)
    then have "inv (fst (and_then (cb el s) (vici_loop cb m off' d' o')))"
      by (intro and_then_inv [of inv] cb_inv less) auto
    then show ?thesis using True p by (subst vici_loop.simps) simp
  next
    case False
    then show ?thesis using less.prems by (subst vici_loop.simps) (auto split: sum.split)
  qed
qed

lemma parse_inv: "inv s \<Longrightarrow> inv (fst (ParseViciMessage cb m s))"
  by (simp add: ParseViciMessage_def loop_inv)

end

text \<open>A callback that relies on the order of the elements: its invariant also speaks of the
  depth and of the open list, and it may assume that the element is a legal step.\<close>

locale tracking_callback =
  fixes cb :: "ViciElement \<Rightarrow> 's \<Rightarrow> 's outcome"
    and inv :: "parser_state \<Rightarrow> 's \<Rightarrow> bool"
  assumes cb_step: "vici_step p el q \<Longrightarrow> inv p s \<Longrightarrow> cb el s = (s', IPSEC_OK) \<Longrightarrow> inv q s'"
begin

lemma deliver_track:
  "vici_run p els q \<Longrightarrow> inv p s \<Longrightarrow> deliver cb els s = (s', IPSEC_OK) \<Longrightarrow> inv q s'"
  by (induction arbitrary: s rule: vici_run.induct) (auto simp: and_then_ok intro: cb_step)

lemma parse_track:
  "inv (0, False) s \<Longrightarrow> length m \<le> UINT32_MAX \<Longrightarrow>
   ParseViciMessage cb m s = (s', IPSEC_OK) \<Longrightarrow> inv (0, False) s'"
  using deliver_track by (auto simp: ParseViciMessage_legal legal_message_def)

end

sublocale element_callback \<subseteq> track: tracking_callback cb "\<lambda>p. inv"
  by unfold_locales (metis cb_inv fst_conv)

subsection \<open>Properties\<close>

lemma ex_iff_ex1:
  "(\<And>a b. P a \<Longrightarrow> Q a \<Longrightarrow> P b \<Longrightarrow> Q b \<Longrightarrow> a = b) \<Longrightarrow> (\<exists>x. P x \<and> Q x \<and> R x) \<longleftrightarrow> (\<exists>!x. P x \<and> Q x \<and> R x)"
  by blast

text \<open>C1: The language of the parser: a message is accepted exactly when it is the encoding of
  a document whose names, values and nesting are within the limits and the callback
  accepts the traversal of that document; the final state is that of the callback.  The
  document is unique: no message has two readings.\<close>

theorem ParseViciMessage_language:
  assumes "length m \<le> UINT32_MAX"
  shows "ParseViciMessage cb m s = (s', IPSEC_OK) \<longleftrightarrow>
     (\<exists>!items. doc_ok items \<and> m = encode_doc items \<and>
        deliver cb (doc_events 0 items) s = (s', IPSEC_OK))"
proof -
  have "ParseViciMessage cb m s = (s', IPSEC_OK) \<longleftrightarrow>
     (\<exists>items. doc_ok items \<and> m = encode_doc items \<and>
        deliver cb (doc_events 0 items) s = (s', IPSEC_OK))"
    unfolding ParseViciMessage_legal [OF assms] legal_message_doc encode_doc_def by blast
  also have "\<dots> \<longleftrightarrow> (\<exists>!items. doc_ok items \<and> m = encode_doc items \<and>
        deliver cb (doc_events 0 items) s = (s', IPSEC_OK))"
  proof (rule ex_iff_ex1)
    fix a b
    assume a: "doc_ok a" "m = encode_doc a" and b: "doc_ok b" "m = encode_doc b"
    have "length (encode_doc a) \<le> UINT32_MAX" by (rule assms [unfolded a(2)])
    moreover have "encode_doc a = encode_doc b" by (rule trans [OF a(2) [symmetric] b(2)])
    ultimately show "a = b" by (rule encode_doc_inj [OF a(1) b(1)])
  qed
  finally show ?thesis .
qed

theorem ParseViciMessage_language_witness:
  "ParseViciMessage collect (encode_doc [Section ''s'' [KeyValue ''k'' ''v'']]) [] =
     ([el_section_start 1 ''s'', el_key_value 1 ''k'' ''v'', el_section_end 1], IPSEC_OK)"
proof -
  let ?d = "[Section ''s'' [KeyValue ''k'' ''v'']]"
  let ?r = "([el_section_start 1 ''s'', el_key_value 1 ''k'' ''v'', el_section_end 1], IPSEC_OK)"
  have ok: "doc_ok ?d" by (simp add: doc_ok_def case_nat_numeral wire_name_def wire_value_def)
  have len: "length (encode_doc ?d) \<le> UINT32_MAX" by code_simp
  have del: "deliver collect (doc_events 0 ?d) [] = ?r" by (simp add: collect_def)
  have "\<exists>!items. doc_ok items \<and> encode_doc ?d = encode_doc items \<and>
      deliver collect (doc_events 0 items) [] = ?r"
  proof (rule ex1I [of _ ?d])
    show "doc_ok ?d \<and> encode_doc ?d = encode_doc ?d \<and> deliver collect (doc_events 0 ?d) [] = ?r"
      using ok del by blast
  next
    fix items
    assume "doc_ok items \<and> encode_doc ?d = encode_doc items \<and>
      deliver collect (doc_events 0 items) [] = ?r"
    then show "items = ?d" using encode_doc_inj [OF ok _ len, of items] by blast
  qed
  then show ?thesis using ParseViciMessage_language [OF len, of collect "[]"] by blast
qed

end
