(* ===== verification/ViciClient.thy ===== *)
theory ViciClient
  imports ViciTransport ViciParser
begin

section \<open>The VICI client (\<open>ipsec/vici/vici_client.c\<close>)\<close>

text \<open>
  A command is one conversation on the socket: registration for an event and its
  confirmation (for the streaming commands), the request, the events and the response,
  and the end of the registration.  \<open>handle_packet\<close> is what the receive loop does with
  one packet; \<open>run_packets\<close> folds it over a list of packets, without a transport.  The
  main theorems say that the loop over the socket is that fold over the packets which the
  stream holds, and that a successful command has sent exactly its requests.
\<close>

abbreviation VICI_ERROR_MESSAGE_LENGTH :: nat where "VICI_ERROR_MESSAGE_LENGTH \<equiv> 256"

record ViciCommandResult =
  bSuccessPresent :: bool
  bSuccess :: bool
  acErrorMessage :: cbuf

definition zero_result :: ViciCommandResult where
  "zero_result = \<lparr>bSuccessPresent = False, bSuccess = False,
     acErrorMessage = replicate VICI_ERROR_MESSAGE_LENGTH NUL\<rparr>"

definition MatchViciText :: "bytes option \<Rightarrow> string option \<Rightarrow> bool" where
  "MatchViciText pucText pcExpected =
     (case (pucText, pcExpected) of
        (Some text, Some expected) \<Rightarrow> strlen expected = length text \<and> text = cstr expected
      | _ \<Rightarrow> False)"

definition ParseViciResultElement ::
  "ViciElement \<Rightarrow> ViciCommandResult \<Rightarrow> ViciCommandResult outcome" where
  "ParseViciResultElement pElement r =
     (if el_eType pElement = VICI_ELEMENT_KEY_VALUE \<and>
         MatchViciText (el_pucName pElement) (Some ''success'')
      then
        let r = r\<lparr>bSuccessPresent := True\<rparr> in
        if MatchViciText (el_pucValue pElement) (Some ''yes'') then (r\<lparr>bSuccess := True\<rparr>, IPSEC_OK)
        else if MatchViciText (el_pucValue pElement) (Some ''no'')
        then (r\<lparr>bSuccess := False\<rparr>, IPSEC_OK)
        else (r, IPSEC_ERR_VICI_PROTOCOL)
      else if el_eType pElement = VICI_ELEMENT_KEY_VALUE \<and>
              MatchViciText (el_pucName pElement) (Some ''errmsg'')
      then
        let (buf, eError) = CopyIpsecString (acErrorMessage r) (el_pucValue pElement)
        in (r\<lparr>acErrorMessage := buf\<rparr>,
            if eError = IPSEC_ERR_BUFFER_TOO_SMALL then IPSEC_OK else eError)
      else (r, IPSEC_OK))"

definition ParseViciCommandResult ::
  "bytes \<Rightarrow> ViciCommandResult \<Rightarrow> ViciCommandResult outcome" where
  "ParseViciCommandResult pucMessage r =
     ParseViciMessage ParseViciResultElement pucMessage zero_result"

definition ExchangeViciRegistration :: "string \<Rightarrow> bool \<Rightarrow> Ipsec \<Rightarrow> Ipsec outcome" where
  "ExchangeViciRegistration pcEventName bRegister w =
     (let (mem, w) = next_mem w;
          (Packet, eError) = BuildViciNamedPacket mem
             (if bRegister then VICI_PACKET_EVENT_REGISTER else VICI_PACKET_EVENT_UNREGISTER)
             (Some pcEventName) None zero_buffer
      in and_then (and_then (w, eError) (SendViciTransportPacket Packet)) (\<lambda>w.
           let ((Response, w), eError) = ReceiveViciTransportPacket (zero_buffer, w)
           in if eError \<noteq> IPSEC_OK then (w, eError)
              else case DecodeViciPacket (pucData Response) of
                     Inl e \<Rightarrow> (w, e)
                   | Inr View \<Rightarrow>
                       if view_eType View \<noteq> VICI_PACKET_EVENT_CONFIRM
                       then (w, if view_eType View = VICI_PACKET_EVENT_UNKNOWN
                                then IPSEC_ERR_NOT_SUPPORTED else IPSEC_ERR_VICI_PROTOCOL)
                       else (w, IPSEC_OK)))"

text \<open>A message callback, which may be NULL.\<close>

type_synonym 's message_callback = "(bytes \<Rightarrow> 's \<Rightarrow> 's outcome) option"

definition call_message :: "'s message_callback \<Rightarrow> bytes \<Rightarrow> 's \<Rightarrow> 's outcome" where
  "call_message cb msg s = (case cb of None \<Rightarrow> (s, IPSEC_OK) | Some f \<Rightarrow> f msg s)"

text \<open>The body of the receive loop after a packet has arrived; the flag is \<open>bComplete\<close>.\<close>

definition handle_packet ::
  "string option \<Rightarrow> 's message_callback \<Rightarrow> 's message_callback \<Rightarrow> bytes \<Rightarrow>
   's \<times> ViciCommandResult \<Rightarrow> ('s \<times> ViciCommandResult) outcome \<times> bool" where
  "handle_packet pcEventName pEventCallback pResponseCallback packet x =
     (let (s, r) = x in
      case DecodeViciPacket packet of
        Inl e \<Rightarrow> (((s, r), e), False)
      | Inr View \<Rightarrow>
          if view_eType View = VICI_PACKET_EVENT
          then if pcEventName \<noteq> None \<and> MatchViciText (view_pucName View) pcEventName
               then let (s, eError) = call_message pEventCallback (view_pucMessage View) s
                    in (((s, r), eError), False)
               else (((s, r), IPSEC_OK), False)
          else if view_eType View = VICI_PACKET_COMMAND_RESPONSE
          then let (r, eError) = ParseViciCommandResult (view_pucMessage View) r
               in if eError = IPSEC_OK
                  then let (s, eError) = call_message pResponseCallback (view_pucMessage View) s
                       in (((s, r), eError), True)
                  else (((s, r), eError), True)
          else if view_eType View = VICI_PACKET_COMMAND_UNKNOWN
          then (((s, r), IPSEC_ERR_NOT_SUPPORTED), False)
          else (((s, r), IPSEC_ERR_VICI_PROTOCOL), False))"

text \<open>Receiving needs an outcome of the environment, so the loop returns.\<close>

lemma Receive_trace:
  assumes "ReceiveViciTransportPacket (p, w) = ((p', w'), IPSEC_OK)"
  shows "length (os_trace w') < length (os_trace w)"
proof -
  obtain dl w1 where d: "GetViciCommandDeadline w = (dl, w1)" by fastforce
  obtain h w2 e2 where t: "TransferViciBytes False dl (replicate 4 NUL) w1 = ((h, w2), e2)"
    by (metis prod.exhaust)
  have "length (os_trace w1) \<le> length (os_trace w)"
    using steady_deadline [OF d] by (simp add: steady_def)
  moreover note t2 = transfer_trace [OF t [unfolded TransferViciBytes_def], simplified]
  moreover have "e2 = IPSEC_OK \<and> length (os_trace w') \<le> length (os_trace w2)"
    using assms d t receive_body_props [of dl "be32_value h" p w2 p' w' IPSEC_OK]
    by (cases "e2 = IPSEC_OK"; cases "be32_value h = 0 \<or> VICI_MAX_SEGMENT_LENGTH < be32_value h")
      (auto simp: ReceiveViciTransportPacket_def split: if_splits prod.splits)
  ultimately show ?thesis by auto
qed

function ReceiveViciCommandStream ::
  "string option \<Rightarrow> 's message_callback \<Rightarrow> 's message_callback \<Rightarrow>
   's \<times> ViciCommandResult \<Rightarrow> Ipsec \<Rightarrow> (('s \<times> ViciCommandResult) \<times> Ipsec) outcome" where
  "ReceiveViciCommandStream pcEventName pEventCallback pResponseCallback x w =
     (let (received, eError) = ReceiveViciTransportPacket (zero_buffer, w); (Packet, w') = received
      in
      if eError \<noteq> IPSEC_OK then ((x, w'), eError)
      else
        let (handled, bComplete) =
              handle_packet pcEventName pEventCallback pResponseCallback (pucData Packet) x;
            (x', eError) = handled
        in if bComplete \<or> eError \<noteq> IPSEC_OK then ((x', w'), eError)
           else ReceiveViciCommandStream pcEventName pEventCallback pResponseCallback x' w')"
  by pat_completeness auto
termination
  by (relation "measure (\<lambda>(ev, cb, rcb, x, w). length (os_trace w))")
    (auto dest: Receive_trace [OF sym])

declare ReceiveViciCommandStream.simps [simp del]

text \<open>The part of \<open>ExecuteViciCommand\<close> that runs under the mutex.\<close>

definition request_command ::
  "string \<Rightarrow> ViciBuffer option \<Rightarrow> string option \<Rightarrow> 's message_callback \<Rightarrow> 's message_callback \<Rightarrow>
   's \<times> ViciCommandResult \<Rightarrow> Ipsec \<Rightarrow> (('s \<times> ViciCommandResult) \<times> Ipsec) outcome" where
  "request_command pcCommand pRequest pcEventName pEventCallback pResponseCallback x w =
     (let (mem, w) = next_mem w;
          (Packet, eError) = BuildViciNamedPacket mem VICI_PACKET_COMMAND_REQUEST
             (Some pcCommand) pRequest zero_buffer
      in and_then ((x, w), eError) (\<lambda>(x, w).
           let (w, eError) = SendViciTransportPacket Packet w
           in and_then ((x, w), eError) (\<lambda>(x, w).
                ReceiveViciCommandStream pcEventName pEventCallback pResponseCallback x w)))"

definition begin_command :: "Ipsec \<Rightarrow> Ipsec outcome" where
  "begin_command w =
     (let (ullNowMs, w) = GetIpsecMonotonicMilliseconds w in
      if ullNowMs = 0 \<or> u64_sub UINT64_MAX (uiCommandTimeoutMs w) < ullNowMs
      then (w, IPSEC_ERR_INTERNAL)
      else ConnectViciTransport
             (w\<lparr>ullCommandDeadlineMs := u64 (ullNowMs + uiCommandTimeoutMs w)\<rparr>))"

definition register_event :: "string option \<Rightarrow> Ipsec outcome \<Rightarrow> Ipsec outcome \<times> bool" where
  "register_event pcEventName wr =
     (case pcEventName of
        None \<Rightarrow> (wr, False)
      | Some name \<Rightarrow>
          if snd wr = IPSEC_OK
          then let (w, eError) = ExchangeViciRegistration name True (fst wr)
               in ((w, eError), eError = IPSEC_OK)
          else (wr, False))"

definition unregister_event ::
  "string option \<Rightarrow> bool \<Rightarrow> Ipsec outcome \<Rightarrow> Ipsec outcome" where
  "unregister_event pcEventName bRegistered wr =
     (let (w, eError) = wr in
      case pcEventName of
        None \<Rightarrow> (w, eError)
      | Some name \<Rightarrow>
          if bRegistered \<and> 0 \<le> iViciSocket w
          then let (w, eUnregisterError) = ExchangeViciRegistration name False w
               in (w, if eError = IPSEC_OK \<and> eUnregisterError \<noteq> IPSEC_OK
                      then eUnregisterError else eError)
          else (w, eError))"

definition locked_command ::
  "string \<Rightarrow> ViciBuffer option \<Rightarrow> string option \<Rightarrow> 's message_callback \<Rightarrow> 's message_callback \<Rightarrow>
   's \<times> ViciCommandResult \<Rightarrow> Ipsec \<Rightarrow> (('s \<times> ViciCommandResult) \<times> Ipsec) outcome" where
  "locked_command pcCommand pRequest pcEventName pEventCallback pResponseCallback x w =
     (let ((w, eError), bRegistered) = register_event pcEventName (begin_command w);
          ((x, w), eError) = and_then ((x, w), eError)
             (\<lambda>(x, w). request_command pcCommand pRequest pcEventName pEventCallback
                         pResponseCallback x w);
          (w, eError) = unregister_event pcEventName bRegistered (w, eError)
      in ((x, sys_unlock (w\<lparr>ullCommandDeadlineMs := 0\<rparr>)), eError))"

definition rejection_text :: "string \<Rightarrow> ViciCommandResult \<Rightarrow> string" where
  "rejection_text pcCommand r =
     ''VICI command '' @ cstr pcCommand @ '' failed: '' @
     (if acErrorMessage r ! 0 \<noteq> NUL then cstr (acErrorMessage r) else ''daemon rejected request'')"

definition ExecuteViciCommand ::
  "string option \<Rightarrow> ViciBuffer option \<Rightarrow> string option \<Rightarrow> 's message_callback \<Rightarrow>
   's message_callback \<Rightarrow> 's \<times> ViciCommandResult \<Rightarrow> Ipsec \<Rightarrow>
   (('s \<times> ViciCommandResult) \<times> Ipsec) outcome" where
  "ExecuteViciCommand pcCommand pRequest pcEventName pEventCallback pResponseCallback x w =
     (case pcCommand of
        None \<Rightarrow> ((x, w), IPSEC_ERR_INVALID_ARGUMENT)
      | Some cmd \<Rightarrow>
          let x = (fst x, zero_result);
              (bLocked, w) = sys_lock w;
              (((s, r), w), eError) =
                (if \<not> bLocked then ((x, w), IPSEC_ERR_INTERNAL)
                 else locked_command cmd pRequest pcEventName pEventCallback pResponseCallback x w)
          in if eError = IPSEC_OK \<and> bSuccessPresent r \<and> \<not> bSuccess r
             then (((s, r), LogIpsec IPSEC_LOG_ERROR (rejection_text cmd r) w),
                   IPSEC_ERR_VICI_COMMAND)
             else (((s, r), w), eError))"

subsection \<open>The loop is a fold over packets\<close>

fun run_packets ::
  "(bytes \<Rightarrow> 'x \<Rightarrow> 'x outcome \<times> bool) \<Rightarrow> bytes list \<Rightarrow> 'x \<Rightarrow> 'x outcome option" where
  "run_packets h [] x = None"
| "run_packets h (p # ps) x =
     (case h p x of ((x', e), complete) \<Rightarrow>
        if complete \<or> e \<noteq> IPSEC_OK then (if ps = [] then Some (x', e) else None)
        else run_packets h ps x')"

definition frames :: "bytes list \<Rightarrow> bytes" where
  "frames ps = concat (map frame ps)"

lemma frames_simps [simp]: "frames [] = []" "frames (p # ps) = frame p @ frames ps"
  by (simp_all add: frames_def)

lemma ReceiveViciCommandStream_packets:
  assumes "ReceiveViciCommandStream ev cb rcb x w = ((x', w'), e)" and "fd_ok w"
  shows "io w w' \<and> fd_ok w' \<and> os_out w' = os_out w \<and>
     ((\<exists>ps. os_in w = frames ps @ os_in w' \<and>
         run_packets (handle_packet ev cb rcb) ps x = Some (x', e) \<and>
         iViciSocket w' = iViciSocket w) \<or>
      e \<noteq> IPSEC_OK \<and> iViciSocket w' = -1)"
  using assms
proof (induction "length (os_trace w)" arbitrary: x w rule: less_induct)
  case less
  obtain p w1 e1 where r: "ReceiveViciTransportPacket (zero_buffer, w) = ((p, w1), e1)"
    by (metis prod.exhaust)
  note rp = ReceiveViciTransportPacket_props [OF less.prems(2) r]
  show ?case
  proof (cases "e1 = IPSEC_OK")
    case False
    then have "w' = w1" "e = e1" using less.prems(1) r
      by (subst (asm) ReceiveViciCommandStream.simps, simp)+
    then show ?thesis using rp False by blast
  next
    case True
    obtain x1 e2 c where h: "handle_packet ev cb rcb (pucData p) x = ((x1, e2), c)"
      by (metis prod.exhaust)
    show ?thesis
    proof (cases "c \<or> e2 \<noteq> IPSEC_OK")
      case stop: True
      then have "x' = x1" "w' = w1" "e = e2" using less.prems(1) r True h
        by (subst (asm) ReceiveViciCommandStream.simps, simp)+
      then show ?thesis
        using rp True h stop by (intro conjI disjI1 exI [of _ "[pucData p]"]) auto
    next
      case go: False
      then have rec: "ReceiveViciCommandStream ev cb rcb x1 w1 = ((x', w'), e)"
        using less.prems(1) r True h by (subst (asm) ReceiveViciCommandStream.simps) simp
      have fd: "fd_ok w1" and lt: "length (os_trace w1) < length (os_trace w)"
        using rp True by auto
      note ih = less.hyps [OF lt rec fd]
      have "io w w'" using ih rp io_trans by blast
      moreover have "(\<exists>ps. os_in w = frames ps @ os_in w' \<and>
          run_packets (handle_packet ev cb rcb) ps x = Some (x', e) \<and>
          iViciSocket w' = iViciSocket w) \<or> e \<noteq> IPSEC_OK \<and> iViciSocket w' = -1"
      proof (cases "e \<noteq> IPSEC_OK \<and> iViciSocket w' = -1")
        case False
        then obtain ps where "os_in w1 = frames ps @ os_in w'"
          "run_packets (handle_packet ev cb rcb) ps x1 = Some (x', e)"
          "iViciSocket w' = iViciSocket w1"
          using ih by blast
        then show ?thesis
          using rp True h go by (intro disjI1 exI [of _ "pucData p # ps"]) auto
      qed blast
      ultimately show ?thesis using ih rp by auto
    qed
  qed
qed

subsection \<open>The conversation of a command\<close>

definition named_packet :: "ViciPacketType \<Rightarrow> string \<Rightarrow> ViciBuffer option \<Rightarrow> bytes" where
  "named_packet t name m = char_of (packet_code t) # encode_name name @
     (case m of None \<Rightarrow> [] | Some b \<Rightarrow> pucData b)"

definition confirms :: "bytes \<Rightarrow> bool" where
  "confirms p \<longleftrightarrow> (case DecodeViciPacket p of Inl e \<Rightarrow> False
     | Inr v \<Rightarrow> view_eType v = VICI_PACKET_EVENT_CONFIRM)"

lemma next_mem_props:
  assumes "next_mem w = (mem, w')"
  shows "io w w'" and "fd_ok w' = fd_ok w" and "iViciSocket w' = iViciSocket w"
    and "os_in w' = os_in w" and "os_out w' = os_out w" and "os_trace w' = os_trace w"
  using assms by (auto simp: next_mem_def fd_ok_def intro!: io_intro)

text \<open>One packet out: built, then sent.\<close>

definition send_named ::
  "ViciPacketType \<Rightarrow> string \<Rightarrow> ViciBuffer option \<Rightarrow> Ipsec \<Rightarrow> Ipsec outcome" where
  "send_named t name m w =
     (let (mem, w) = next_mem w; (Packet, eError) = BuildViciNamedPacket mem t (Some name) m zero_buffer
      in and_then (w, eError) (SendViciTransportPacket Packet))"

lemma send_named_props:
  assumes ok: "fd_ok w" and n: "vici_name name" and s: "send_named t name m w = (w', e)"
  shows "io w w' \<and> fd_ok w' \<and> os_in w' = os_in w \<and>
     (e = IPSEC_OK \<longrightarrow> 0 \<le> iViciSocket w' \<and> os_out w' = os_out w @ frame (named_packet t name m)) \<and>
     prefix (os_out w) (os_out w')"
proof -
  obtain mem w1 where m: "next_mem w = (mem, w1)" by fastforce
  note mp = next_mem_props [OF m]
  obtain p e1 where b: "BuildViciNamedPacket mem t (Some name) m zero_buffer = (p, e1)" by fastforce
  note bp = BuildViciNamedPacket_cases [OF n b]
  show ?thesis
  proof (cases "e1 = IPSEC_OK")
    case False
    then show ?thesis using s m b mp ok by (auto simp: send_named_def)
  next
    case True
    then have sd: "SendViciTransportPacket p w1 = (w', e)" using s m b by (simp add: send_named_def)
    have "pucData p = named_packet t name m" using bp(1) [OF True] by (simp add: named_packet_def)
    then show ?thesis
      using SendViciTransportPacket_props [OF _ sd] mp ok io_trans [of w w1 w'] by auto
  qed
qed

lemma Exchange_send:
  "ExchangeViciRegistration name reg w = and_then
     (send_named (if reg then VICI_PACKET_EVENT_REGISTER else VICI_PACKET_EVENT_UNREGISTER) name None w)
     (\<lambda>w. let ((Response, w), eError) = ReceiveViciTransportPacket (zero_buffer, w)
           in if eError \<noteq> IPSEC_OK then (w, eError)
              else case DecodeViciPacket (pucData Response) of
                     Inl e \<Rightarrow> (w, e)
                   | Inr View \<Rightarrow>
                       if view_eType View \<noteq> VICI_PACKET_EVENT_CONFIRM
                       then (w, if view_eType View = VICI_PACKET_EVENT_UNKNOWN
                                then IPSEC_ERR_NOT_SUPPORTED else IPSEC_ERR_VICI_PROTOCOL)
                       else (w, IPSEC_OK))"
  by (simp add: ExchangeViciRegistration_def send_named_def split: prod.split)

lemma DecodeViciPacket_Inl: "DecodeViciPacket p = Inl e \<Longrightarrow> e \<noteq> IPSEC_OK"
  by (auto simp: DecodeViciPacket_def Let_def split: if_splits option.splits)

lemma ExchangeViciRegistration_props:
  assumes ok: "fd_ok w" and n: "vici_name name" and x: "ExchangeViciRegistration name reg w = (w', e)"
  defines "t \<equiv> (if reg then VICI_PACKET_EVENT_REGISTER else VICI_PACKET_EVENT_UNREGISTER)"
  shows "io w w' \<and> fd_ok w' \<and>
     (e = IPSEC_OK \<longrightarrow> 0 \<le> iViciSocket w' \<and> os_out w' = os_out w @ frame (named_packet t name None) \<and>
        (\<exists>c. confirms c \<and> os_in w = frame c @ os_in w'))"
proof -
  obtain w1 e1 where s: "send_named t name None w = (w1, e1)" by fastforce
  note sp = send_named_props [OF ok n s]
  show ?thesis
  proof (cases "e1 = IPSEC_OK")
    case False
    then show ?thesis using x s sp by (simp add: Exchange_send t_def)
  next
    case True
    obtain p w2 e2 where r: "ReceiveViciTransportPacket (zero_buffer, w1) = ((p, w2), e2)"
      by (metis prod.exhaust)
    have fd1: "fd_ok w1" using sp by blast
    note rp = ReceiveViciTransportPacket_props [OF fd1 r]
    have res: "(w', e) = (if e2 \<noteq> IPSEC_OK then (w2, e2)
              else case DecodeViciPacket (pucData p) of
                     Inl e \<Rightarrow> (w2, e)
                   | Inr View \<Rightarrow>
                       if view_eType View \<noteq> VICI_PACKET_EVENT_CONFIRM
                       then (w2, if view_eType View = VICI_PACKET_EVENT_UNKNOWN
                                then IPSEC_ERR_NOT_SUPPORTED else IPSEC_ERR_VICI_PROTOCOL)
                       else (w2, IPSEC_OK))"
      using x s True r by (simp add: Exchange_send t_def)
    have w': "w' = w2" using res by (auto split: sum.splits if_splits)
    have "io w w'" using w' rp sp io_trans by blast
    moreover have "confirms (pucData p) \<and> e2 = IPSEC_OK" if "e = IPSEC_OK"
      using res that DecodeViciPacket_Inl [of "pucData p"]
      by (auto simp: confirms_def split: sum.splits if_splits)
    ultimately show ?thesis using rp sp w' True by auto
  qed
qed

lemma request_command_props:
  assumes ok: "fd_ok w" and n: "vici_name cmd"
    and r: "request_command cmd m ev cb rcb x w = ((x', w'), e)"
  shows "io w w' \<and> fd_ok w' \<and>
     (e = IPSEC_OK \<longrightarrow> 0 \<le> iViciSocket w' \<and>
        os_out w' = os_out w @ frame (named_packet VICI_PACKET_COMMAND_REQUEST cmd m) \<and>
        (\<exists>ps. os_in w = frames ps @ os_in w' \<and>
              run_packets (handle_packet ev cb rcb) ps x = Some (x', IPSEC_OK)))"
proof -
  obtain w1 e1 where s: "send_named VICI_PACKET_COMMAND_REQUEST cmd m w = (w1, e1)" by fastforce
  note sp = send_named_props [OF ok n s]
  have eq: "((x', w'), e) = (if e1 = IPSEC_OK then ReceiveViciCommandStream ev cb rcb x w1
      else ((x, w1), e1))"
  proof -
    obtain mem w0 where m: "next_mem w = (mem, w0)" by fastforce
    obtain p e0 where b: "BuildViciNamedPacket mem VICI_PACKET_COMMAND_REQUEST (Some cmd) m zero_buffer
        = (p, e0)" by fastforce
    show ?thesis
      using r s m b by (cases "e0 = IPSEC_OK"; cases "e1 = IPSEC_OK")
        (auto simp: request_command_def send_named_def split: prod.splits)
  qed
  show ?thesis
  proof (cases "e1 = IPSEC_OK")
    case False
    then show ?thesis using eq sp by auto
  next
    case True
    then have st: "ReceiveViciCommandStream ev cb rcb x w1 = ((x', w'), e)" using eq by simp
    have fd1: "fd_ok w1" using sp by blast
    note rp = ReceiveViciCommandStream_packets [OF st fd1]
    have "io w w'" using rp sp io_trans by blast
    then show ?thesis using rp sp True by auto
  qed
qed

text \<open>What a whole command leaves: the mutex is free, no deadline is pending, and at most
  the one descriptor of the context is open.\<close>

definition idle :: "Ipsec \<Rightarrow> bool" where
  "idle w \<longleftrightarrow> fd_ok w \<and> \<not> os_locked w \<and> ullCommandDeadlineMs w = 0"

lemma begin_command_props:
  assumes ok: "fd_ok w" and b: "begin_command w = (w', e)"
  shows "fd_ok w' \<and> os_in w' = os_in w \<and> os_out w' = os_out w \<and> os_locked w' = os_locked w \<and>
     (e = IPSEC_OK \<longrightarrow> 0 \<le> iViciSocket w')"
proof -
  obtain now w1 where c: "GetIpsecMonotonicMilliseconds w = (now, w1)" by fastforce
  note s1 = steady_clock [OF c]
  define w2 where "w2 = w1\<lparr>ullCommandDeadlineMs := u64 (now + uiCommandTimeoutMs w1)\<rparr>"
  have w2: "fd_ok w2" "os_in w2 = os_in w" "os_out w2 = os_out w" "os_locked w2 = os_locked w"
    using s1 ok ioD(2) [of w w1] by (auto simp: w2_def steady_def fd_ok_def)
  have w1: "fd_ok w1" "os_in w1 = os_in w" "os_out w1 = os_out w" "os_locked w1 = os_locked w"
    using s1 ok ioD(2) [of w w1] by (auto simp: steady_def fd_ok_def)
  show ?thesis
  proof (cases "now = 0 \<or> u64_sub UINT64_MAX (uiCommandTimeoutMs w1) < now")
    case True
    then show ?thesis using b c w1 by (auto simp: begin_command_def)
  next
    case False
    then have "ConnectViciTransport w2 = (w', e)" using b c by (simp add: begin_command_def w2_def)
    from ConnectViciTransport_props [OF w2(1) this] show ?thesis
      using w2 ioD(2) [of w2 w'] by (auto simp: steady_def)
  qed
qed

definition ev_ok :: "string option \<Rightarrow> bool" where
  "ev_ok ev \<longleftrightarrow> (case ev of None \<Rightarrow> True | Some n \<Rightarrow> vici_name n)"

definition registration :: "ViciPacketType \<Rightarrow> string option \<Rightarrow> bytes" where
  "registration t ev = (case ev of None \<Rightarrow> [] | Some n \<Rightarrow> frame (named_packet t n None))"

definition confirmation :: "string option \<Rightarrow> bytes \<Rightarrow> bool" where
  "confirmation ev bs \<longleftrightarrow> (case ev of None \<Rightarrow> bs = [] | Some n \<Rightarrow> (\<exists>c. confirms c \<and> bs = frame c))"

lemma register_event_props:
  assumes ok: "fd_ok w" and n: "ev_ok ev" and r: "register_event ev (w, e0) = ((w', e), b)"
    and s0: "e0 = IPSEC_OK \<Longrightarrow> 0 \<le> iViciSocket w"
  shows "fd_ok w' \<and> os_locked w' = os_locked w \<and>
     (e = IPSEC_OK \<longrightarrow> e0 = IPSEC_OK \<and> 0 \<le> iViciSocket w' \<and> b = (ev \<noteq> None) \<and>
        os_out w' = os_out w @ registration VICI_PACKET_EVENT_REGISTER ev \<and>
        (\<exists>c. confirmation ev c \<and> os_in w = c @ os_in w'))"
proof (cases "ev \<noteq> None \<and> e0 = IPSEC_OK")
  case False
  then show ?thesis using r ok s0
    by (auto simp: register_event_def registration_def confirmation_def split: option.splits)
next
  case True
  then obtain name where ev: "ev = Some name" by auto
  then have x: "ExchangeViciRegistration name True w = (w', e)" and b: "b = (e = IPSEC_OK)"
    using r True by (auto simp: register_event_def split: prod.splits)
  have "vici_name name" using n ev by (simp add: ev_ok_def)
  from ExchangeViciRegistration_props [OF ok this x] show ?thesis
    using ev b True ioD(2) [of w w'] by (auto simp: registration_def confirmation_def)
qed

lemma unregister_event_props:
  assumes ok: "fd_ok w" and n: "ev_ok ev" and r: "unregister_event ev b (w, e0) = (w', e)"
  shows "fd_ok w' \<and> os_locked w' = os_locked w \<and>
     (e = IPSEC_OK \<longrightarrow> e0 = IPSEC_OK \<and> (b = (ev \<noteq> None) \<longrightarrow> 0 \<le> iViciSocket w \<longrightarrow>
        os_out w' = os_out w @ registration VICI_PACKET_EVENT_UNREGISTER ev \<and>
        (\<exists>c. confirmation ev c \<and> os_in w = c @ os_in w')))"
proof (cases "ev \<noteq> None \<and> b \<and> 0 \<le> iViciSocket w")
  case False
  then show ?thesis using r ok
    by (auto simp: unregister_event_def registration_def confirmation_def split: option.splits)
next
  case True
  then obtain name where ev: "ev = Some name" by auto
  obtain w1 e1 where x: "ExchangeViciRegistration name False w = (w1, e1)" by fastforce
  have res: "w' = w1" "e = (if e0 = IPSEC_OK \<and> e1 \<noteq> IPSEC_OK then e1 else e0)"
    using r ev True x by (auto simp: unregister_event_def)
  have "vici_name name" using n ev by (simp add: ev_ok_def)
  from ExchangeViciRegistration_props [OF ok this x] show ?thesis
    using ev res True ioD(2) [of w w'] by (auto simp: registration_def confirmation_def)
qed

lemma locked_command_props:
  assumes ok: "fd_ok w" and n: "ev_ok ev" "vici_name cmd"
    and l: "locked_command cmd m ev cb rcb x w = ((x', w'), e)"
  shows "idle w' \<and>
     (e = IPSEC_OK \<longrightarrow>
        os_out w' = os_out w @ registration VICI_PACKET_EVENT_REGISTER ev @
          frame (named_packet VICI_PACKET_COMMAND_REQUEST cmd m) @
          registration VICI_PACKET_EVENT_UNREGISTER ev \<and>
        (\<exists>c1 ps c2. os_in w = c1 @ frames ps @ c2 @ os_in w' \<and> confirmation ev c1 \<and>
           confirmation ev c2 \<and> run_packets (handle_packet ev cb rcb) ps x = Some (x', IPSEC_OK)))"
proof -
  obtain w1 e1 where b: "begin_command w = (w1, e1)" by fastforce
  note bp = begin_command_props [OF ok b]
  obtain w2 e2 reg where r: "register_event ev (w1, e1) = ((w2, e2), reg)" by (metis prod.exhaust)
  have fd1: "fd_ok w1" using bp by blast
  note rp = register_event_props [OF fd1 n(1) r]
  define mid where "mid = and_then ((x, w2), e2) (\<lambda>(x, w). request_command cmd m ev cb rcb x w)"
  obtain x3 w3 e3 where q: "mid = ((x3, w3), e3)" by (metis prod.exhaust)
  obtain w4 e4 where u: "unregister_event ev reg (w3, e3) = (w4, e4)" by fastforce
  have res: "x' = x3" "w' = sys_unlock (w4\<lparr>ullCommandDeadlineMs := 0\<rparr>)" "e = e4"
    using l b r q u by (auto simp: locked_command_def mid_def)
  have fd2: "fd_ok w2" using rp bp by blast
  have mp: "fd_ok w3 \<and> os_locked w3 = os_locked w2 \<and> (e3 = IPSEC_OK \<longrightarrow> e2 = IPSEC_OK \<and> 0 \<le> iViciSocket w3 \<and>
        os_out w3 = os_out w2 @ frame (named_packet VICI_PACKET_COMMAND_REQUEST cmd m) \<and>
        (\<exists>ps. os_in w2 = frames ps @ os_in w3 \<and>
              run_packets (handle_packet ev cb rcb) ps x = Some (x3, IPSEC_OK)))"
  proof (cases "e2 = IPSEC_OK")
    case True
    then have "request_command cmd m ev cb rcb x w2 = ((x3, w3), e3)" using q by (simp add: mid_def)
    from request_command_props [OF fd2 n(2) this] show ?thesis using True ioD(2) [of w2 w3] by auto
  next
    case False
    then show ?thesis using q fd2 by (simp add: mid_def)
  qed
  then have fd3: "fd_ok w3" by blast
  note up = unregister_event_props [OF fd3 n(1) u]
  have "idle w'" using up by (simp add: idle_def res sys_unlock_def fd_ok_def)
  moreover have "os_out w' = os_out w @ registration VICI_PACKET_EVENT_REGISTER ev @
          frame (named_packet VICI_PACKET_COMMAND_REQUEST cmd m) @
          registration VICI_PACKET_EVENT_UNREGISTER ev \<and>
        (\<exists>c1 ps c2. os_in w = c1 @ frames ps @ c2 @ os_in w' \<and> confirmation ev c1 \<and>
           confirmation ev c2 \<and> run_packets (handle_packet ev cb rcb) ps x = Some (x', IPSEC_OK))"
    if eok: "e = IPSEC_OK"
  proof -
    have e3: "e3 = IPSEC_OK" using up eok res by blast
    have e2: "e2 = IPSEC_OK" using mp e3 by blast
    obtain c1 where c1: "confirmation ev c1" "os_in w1 = c1 @ os_in w2" "reg = (ev \<noteq> None)"
      "os_out w2 = os_out w1 @ registration VICI_PACKET_EVENT_REGISTER ev"
      using rp bp e2 by blast
    obtain ps where ps: "os_in w2 = frames ps @ os_in w3"
      "run_packets (handle_packet ev cb rcb) ps x = Some (x3, IPSEC_OK)"
      "os_out w3 = os_out w2 @ frame (named_packet VICI_PACKET_COMMAND_REQUEST cmd m)"
      "0 \<le> iViciSocket w3"
      using mp e3 by blast
    obtain c2 where c2: "confirmation ev c2" "os_in w3 = c2 @ os_in w4"
      "os_out w4 = os_out w3 @ registration VICI_PACKET_EVENT_UNREGISTER ev"
      using up eok res c1(3) ps(4) by blast
    have "os_in w' = os_in w4" "os_out w' = os_out w4" by (simp_all add: res sys_unlock_def)
    then show ?thesis using c1 ps c2 bp res
      by (intro conjI exI [of _ c1] exI [of _ ps] exI [of _ c2]) auto
  qed
  ultimately show ?thesis by blast
qed

lemma LogIpsec_idle [simp]: "idle (LogIpsec l t w) = idle w"
  by (simp add: idle_def LogIpsec_def fd_ok_def)

lemma sys_lock_cases:
  assumes "sys_lock w = (b, w')" and "idle w"
  shows "fd_ok w'" and "\<not> b \<Longrightarrow> idle w'" and "os_in w' = os_in w" and "os_out w' = os_out w"
  using assms
  by (auto simp: sys_lock_def next_event_def idle_def fd_ok_def split: list.splits if_splits)

lemma ExecuteViciCommand_props:
  assumes ok: "idle w" and n: "ev_ok ev" "vici_name cmd"
    and x: "ExecuteViciCommand (Some cmd) m ev cb rcb (s, r) w = (((s', r'), w'), e)"
  shows "idle w' \<and>
     (e = IPSEC_OK \<longrightarrow>
        (bSuccessPresent r' \<longrightarrow> bSuccess r') \<and>
        os_out w' = os_out w @ registration VICI_PACKET_EVENT_REGISTER ev @
          frame (named_packet VICI_PACKET_COMMAND_REQUEST cmd m) @
          registration VICI_PACKET_EVENT_UNREGISTER ev \<and>
        (\<exists>c1 ps c2. os_in w = c1 @ frames ps @ c2 @ os_in w' \<and> confirmation ev c1 \<and>
           confirmation ev c2 \<and>
           run_packets (handle_packet ev cb rcb) ps (s, zero_result) = Some ((s', r'), IPSEC_OK)))"
proof -
  obtain b w1 where l: "sys_lock w = (b, w1)" by fastforce
  note lp = sys_lock_cases [OF l ok]
  define mid where "mid = (if \<not> b then (((s, zero_result), w1), IPSEC_ERR_INTERNAL)
     else locked_command cmd m ev cb rcb (s, zero_result) w1)"
  obtain s2 r2 w2 e2 where q: "mid = (((s2, r2), w2), e2)" by (metis prod.exhaust)
  have res: "(((s', r'), w'), e) = (if e2 = IPSEC_OK \<and> bSuccessPresent r2 \<and> \<not> bSuccess r2
      then (((s2, r2), LogIpsec IPSEC_LOG_ERROR (rejection_text cmd r2) w2), IPSEC_ERR_VICI_COMMAND)
      else (((s2, r2), w2), e2))"
    using x l q by (cases b) (auto simp: ExecuteViciCommand_def mid_def split: prod.splits)
  show ?thesis
  proof (cases b)
    case False
    then show ?thesis using q res lp by (auto simp: mid_def)
  next
    case True
    then have "locked_command cmd m ev cb rcb (s, zero_result) w1 = (((s2, r2), w2), e2)"
      using q by (simp add: mid_def)
    from locked_command_props [OF lp(1) n this] show ?thesis
      using res lp by (auto split: if_splits)
  qed
qed

subsection \<open>The result parser as a callback\<close>

definition result_wf :: "ViciCommandResult \<Rightarrow> bool" where
  "result_wf r \<longleftrightarrow> terminated VICI_ERROR_MESSAGE_LENGTH (acErrorMessage r)"

lemma zero_result_wf [simp]: "result_wf zero_result"
  by (simp add: result_wf_def zero_result_def terminated_zero)

lemma ParseViciResultElement_wf:
  assumes "result_wf r"
  shows "result_wf (fst (ParseViciResultElement el r))"
proof -
  obtain buf e where c: "CopyIpsecString (acErrorMessage r) (el_pucValue el) = (buf, e)" by fastforce
  have len: "length (acErrorMessage r) = VICI_ERROR_MESSAGE_LENGTH"
    using assms by (simp add: result_wf_def terminated_def)
  have "terminated VICI_ERROR_MESSAGE_LENGTH buf"
    using CopyIpsecString_terminated [OF _ c] len by simp
  then show ?thesis using assms c by (auto simp: ParseViciResultElement_def Let_def result_wf_def)
qed

interpretation result_parser: element_callback ParseViciResultElement result_wf
  by unfold_locales (rule ParseViciResultElement_wf)

subsection \<open>Properties\<close>

text \<open>C7: The receive loop over the socket is a fold over packets: unless the transport fails
  (and then the socket is closed), the stream holds frames of packets, the loop handles
  exactly these in order, stops at the first that completes or fails the command, and
  leaves the rest of the stream unread.\<close>

theorem ReceiveViciCommandStream_fold:
  assumes "fd_ok w" and "ReceiveViciCommandStream ev cb rcb x w = ((x', w'), e)"
  shows "(\<exists>ps. os_in w = frames ps @ os_in w' \<and>
            run_packets (handle_packet ev cb rcb) ps x = Some (x', e)) \<or>
         (e \<noteq> IPSEC_OK \<and> iViciSocket w' = -1)"
  using ReceiveViciCommandStream_packets [OF assms(2,1)] by blast

definition yes_response :: bytes where
  "yes_response = char_of (packet_code VICI_PACKET_COMMAND_RESPONSE) #
     encode_doc [KeyValue ''success'' ''yes'']"

theorem ReceiveViciCommandStream_fold_witness:
  "let w = sample_world (frame yes_response)
         [Clock 1 0, Clock 1 0, PollReady POLLIN, Moved 4, Clock 1 0, PollReady POLLIN, Moved 99];
       ((x', w'), e) = ReceiveViciCommandStream None None None ((), zero_result) w
   in e = IPSEC_OK \<and> (\<exists>ps. frame yes_response = frames ps @ os_in w' \<and>
        run_packets (handle_packet None None None) ps ((), zero_result) = Some (x', IPSEC_OK))"
proof -
  let ?w = "sample_world (frame yes_response)
      [Clock 1 0, Clock 1 0, PollReady POLLIN, Moved 4, Clock 1 0, PollReady POLLIN, Moved 99]"
  let ?r = "ReceiveViciCommandStream None None None ((), zero_result) ?w"
  have e: "snd ?r = IPSEC_OK" by code_simp
  obtain x' w' where r: "?r = ((x', w'), IPSEC_OK)" using e by (metis prod.exhaust snd_conv)
  have i: "os_in ?w = frame yes_response" by (simp add: sample_world_def)
  show ?thesis
    using ReceiveViciCommandStream_fold [OF sample_world_fd_ok r, unfolded i] r by simp
qed

text \<open>C2: A command that returns success has sent the registration of its event, its request
  and the end of the registration, and nothing else, and has read the confirmation, the
  packets that completed the command and the second confirmation; the results are those of
  handling these packets, and the daemon did not answer \<open>success = no\<close>.\<close>

theorem ExecuteViciCommand_conversation:
  assumes "idle w" and "ev_ok ev" and "vici_name cmd"
    and "ExecuteViciCommand (Some cmd) m ev cb rcb (s, r) w = (((s', r'), w'), IPSEC_OK)"
  shows "(bSuccessPresent r' \<longrightarrow> bSuccess r') \<and>
     os_out w' = os_out w @ registration VICI_PACKET_EVENT_REGISTER ev @
        frame (named_packet VICI_PACKET_COMMAND_REQUEST cmd m) @
        registration VICI_PACKET_EVENT_UNREGISTER ev \<and>
     (\<exists>c1 ps c2. os_in w = c1 @ frames ps @ c2 @ os_in w' \<and> confirmation ev c1 \<and>
        confirmation ev c2 \<and>
        run_packets (handle_packet ev cb rcb) ps (s, zero_result) = Some ((s', r'), IPSEC_OK))"
  using ExecuteViciCommand_props [OF assms] by blast

definition version_world :: Ipsec where
  "version_world = sample_world (frame yes_response)
     [MutexOk, Clock 1 0, Clock 1 0, PollReady POLLOUT, Moved 4, Clock 1 0, PollReady POLLOUT, Moved 99,
      Clock 1 0, PollReady POLLIN, Moved 4, Clock 1 0, PollReady POLLIN, Moved 99]"

lemma version_world_idle: "idle version_world"
  by (simp add: idle_def version_world_def sample_world_fd_ok) (simp add: sample_world_def)

theorem ExecuteViciCommand_conversation_witness:
  "os_out (snd (fst (ExecuteViciCommand (Some ''version'') None None None None ((), zero_result)
       version_world))) = frame (named_packet VICI_PACKET_COMMAND_REQUEST ''version'' None)"
proof -
  let ?r = "ExecuteViciCommand (Some ''version'') None None None None ((), zero_result) version_world"
  have e: "snd ?r = IPSEC_OK" by code_simp
  have v: "vici_name ''version''" "ev_ok None" by code_simp+
  have "?r = (((fst (fst (fst ?r)), snd (fst (fst ?r))), snd (fst ?r)), IPSEC_OK)"
    using e by (metis prod.collapse)
  from ExecuteViciCommand_conversation [OF version_world_idle v(2,1) this]
  have "os_out (snd (fst ?r)) = os_out version_world @
      frame (named_packet VICI_PACKET_COMMAND_REQUEST ''version'' None)"
    by (simp add: registration_def)
  then show ?thesis by (simp add: version_world_def sample_world_def)
qed

text \<open>C3: Whatever its outcome, a command leaves the library idle: the mutex is released, no
  deadline is pending, and the only descriptor open is that of the context.\<close>

theorem ExecuteViciCommand_idle:
  assumes "idle w" and "ev_ok ev" and "vici_name cmd"
    and "ExecuteViciCommand (Some cmd) m ev cb rcb (s, r) w = (((s', r'), w'), e)"
  shows "idle w'"
  using ExecuteViciCommand_props [OF assms] by blast

theorem ExecuteViciCommand_idle_witness:
  "idle (snd (fst (ExecuteViciCommand (Some ''version'') None (Some ''log'') None None
      ((), zero_result) version_world)))"
proof -
  let ?r = "ExecuteViciCommand (Some ''version'') None (Some ''log'') None None ((), zero_result)
      version_world"
  have v: "vici_name ''version''" "ev_ok (Some ''log'')" by code_simp+
  obtain s' r' w' e where r: "?r = (((s', r'), w'), e)" by (metis prod.exhaust)
  from ExecuteViciCommand_idle [OF version_world_idle v(2,1) this] show ?thesis by (simp add: r)
qed

text \<open>Parsing any response leaves a terminated message in the error text of the result,
  whatever the message was and however parsing ended.\<close>

theorem ParseViciCommandResult_terminated:
  "terminated VICI_ERROR_MESSAGE_LENGTH (acErrorMessage (fst (ParseViciCommandResult m r)))"
  using result_parser.parse_inv [OF zero_result_wf]
  by (simp add: ParseViciCommandResult_def result_wf_def)

end
