(* ===== verification/ViciConnection.thy ===== *)
theory ViciConnection
  imports ViciClient
begin

section \<open>Connection requests (\<open>ipsec/vici/vici_connection.c\<close>)\<close>

text \<open>
  The part of \<open>vici_connection.c\<close> that checks a connection configuration and writes the
  \<open>load-conn\<close> request.  A list view is a list of nullable strings; \<open>None\<close> is a NULL array
  with a nonzero count.  Enumerations hold the values of their C types.

  \<open>connection_doc\<close> is the document a configuration stands for; the main theorem says that
  the builder writes exactly its encoding, and that it is a legal message.
\<close>

abbreviation IPSEC_NAME_LENGTH :: nat where "IPSEC_NAME_LENGTH \<equiv> 64"
abbreviation IPSEC_ID_LENGTH :: nat where "IPSEC_ID_LENGTH \<equiv> 128"
abbreviation IPSEC_ADDRESS_LENGTH :: nat where "IPSEC_ADDRESS_LENGTH \<equiv> 64"
abbreviation IPSEC_SELECTOR_LIST_LENGTH :: nat where "IPSEC_SELECTOR_LIST_LENGTH \<equiv> 512"
abbreviation IPSEC_VICI_MAX_LIST_ITEMS :: nat where "IPSEC_VICI_MAX_LIST_ITEMS \<equiv> 64"
abbreviation IPSEC_VICI_MAX_INPUT_LENGTH :: nat where "IPSEC_VICI_MAX_INPUT_LENGTH \<equiv> 1024"

text \<open>\<open>sizeof(IpsecConnectionConfig_t)\<close> on the LP64 targets.\<close>
abbreviation sizeof_IpsecConnectionConfig :: nat where "sizeof_IpsecConnectionConfig \<equiv> 200"

datatype IpsecMode = IPSEC_MODE_TUNNEL | IPSEC_MODE_TRANSPORT | IPSEC_MODE_BEET | IPSEC_MODE_UNKNOWN
datatype IpsecAuthMethod = IPSEC_AUTH_PSK | IPSEC_AUTH_CERTIFICATE | IPSEC_AUTH_EAP
datatype IpsecEsnMode = IPSEC_ESN_AUTO | IPSEC_ESN_DISABLED | IPSEC_ESN_ENABLED

type_synonym IpsecStringListView = "string option list option"

definition view_items :: "IpsecStringListView \<Rightarrow> string option list" where
  "view_items v = (case v of None \<Rightarrow> [] | Some items \<Rightarrow> items)"

definition item_text :: "string option \<Rightarrow> string" where
  "item_text i = (case i of None \<Rightarrow> [] | Some t \<Rightarrow> cstr t)"

lemma item_text_simps [simp]: "item_text None = []" "item_text (Some t) = cstr t"
  by (simp_all add: item_text_def)

definition view_texts :: "IpsecStringListView \<Rightarrow> string list" where
  "view_texts v = map item_text (view_items v)"

record IpsecConnectionConfig =
  cc_uiStructSize :: nat
  cc_pcName :: "string option"
  cc_pcChildName :: "string option"
  cc_LocalAddresses :: IpsecStringListView
  cc_RemoteAddresses :: IpsecStringListView
  cc_eLocalAuth :: IpsecAuthMethod
  cc_eRemoteAuth :: IpsecAuthMethod
  cc_pcLocalId :: "string option"
  cc_pcRemoteId :: "string option"
  cc_IkeProposals :: IpsecStringListView
  cc_EspProposals :: IpsecStringListView
  cc_LocalTrafficSelectors :: IpsecStringListView
  cc_RemoteTrafficSelectors :: IpsecStringListView
  cc_eMode :: IpsecMode
  cc_eEsn :: IpsecEsnMode
  cc_bEnablePfs :: bool
  cc_bEnableMobike :: bool
  cc_bEnableFragmentation :: bool
  cc_bForceUdpEncapsulation :: bool
  cc_bForceChildlessIke :: bool
  cc_uiDpdDelayMs :: nat
  cc_uiDpdTimeoutMs :: nat
  cc_ullIkeRekeyTimeMs :: nat
  cc_ullIkeLifetimeMs :: nat
  cc_ullChildRekeyTimeMs :: nat
  cc_ullChildLifetimeMs :: nat

subsection \<open>Validation\<close>

definition name_char_ok :: "char \<Rightarrow> bool" where
  "name_char_ok c \<longleftrightarrow> \<not> ((of_char c :: nat) < 33 \<or> 126 < (of_char c :: nat) \<or>
     c = CHR ''{'' \<or> c = CHR ''}'')"

definition ValidateConnectionName :: "string option \<Rightarrow> IpsecError" where
  "ValidateConnectionName pcName =
     (case pcName of
        None \<Rightarrow> IPSEC_ERR_INVALID_ARGUMENT
      | Some name \<Rightarrow>
          let zLength = strnlen name IPSEC_NAME_LENGTH in
          if zLength = 0 \<or> IPSEC_NAME_LENGTH \<le> zLength \<or> UINT8_MAX < zLength
          then IPSEC_ERR_INVALID_ARGUMENT
          else if list_all name_char_ok (cstr name) then IPSEC_OK
          else IPSEC_ERR_INVALID_ARGUMENT)"

definition list_item_ok :: "string option \<Rightarrow> bool" where
  "list_item_ok item =
     (case item of
        None \<Rightarrow> False
      | Some text \<Rightarrow>
          let zLength = strnlen text (IPSEC_VICI_MAX_INPUT_LENGTH + 1)
          in \<not> (zLength = 0 \<or> IPSEC_VICI_MAX_INPUT_LENGTH < zLength \<or> UINT16_MAX < zLength))"

definition ValidateConnectionList :: "IpsecStringListView \<Rightarrow> bool \<Rightarrow> IpsecError" where
  "ValidateConnectionList pList bRequired =
     (case pList of
        None \<Rightarrow> IPSEC_ERR_INVALID_ARGUMENT
      | Some items \<Rightarrow>
          if IPSEC_VICI_MAX_LIST_ITEMS < length items \<or> (bRequired \<and> items = [])
          then IPSEC_ERR_INVALID_ARGUMENT
          else if list_all list_item_ok items then IPSEC_OK
          else IPSEC_ERR_INVALID_ARGUMENT)"

text \<open>The inner loop of \<open>ContainsConnectionProposalToken\<close>, on the text from the cursor on.\<close>

function token_scan :: "string \<Rightarrow> string \<Rightarrow> bool" where
  "token_scan pcToken pcCursor =
     (if pcCursor = [] then False
      else
        let part = takeWhile (\<lambda>c. c \<noteq> CHR ''-'') pcCursor;
            pcEnd = dropWhile (\<lambda>c. c \<noteq> CHR ''-'') pcCursor
        in if length pcToken = length part \<and> part = pcToken then True
           else if pcEnd = [] then False
           else token_scan pcToken (tl pcEnd))"
  by pat_completeness auto
termination
proof (relation "measure (\<lambda>(t, s). length s)", goal_cases)
  case 1
  then show ?case by simp
next
  case (2 t s part e)
  then have "0 < length s" "length e \<le> length s" by (simp_all add: length_dropWhile_le)
  then have "length e - 1 < length s" by linarith
  then show ?case by simp
qed

declare token_scan.simps [simp del]

definition ContainsConnectionProposalToken :: "IpsecStringListView \<Rightarrow> string \<Rightarrow> bool" where
  "ContainsConnectionProposalToken pList pcToken =
     list_ex (\<lambda>item. token_scan pcToken (item_text item)) (view_items pList)"

definition strstr_found :: "string \<Rightarrow> string \<Rightarrow> bool" where
  "strstr_found text pat = sublist pat text"

definition ContainsConnectionPfsToken :: "IpsecStringListView \<Rightarrow> bool" where
  "ContainsConnectionPfsToken pList =
     list_ex (\<lambda>item. strstr_found (item_text item) ''-modp'' \<or>
                    strstr_found (item_text item) ''-ecp'' \<or>
                    strstr_found (item_text item) ''-curve'') (view_items pList)"

text \<open>\<open>first_error\<close> runs a sequence of checks, keeping the first failure.\<close>

fun first_error :: "IpsecError list \<Rightarrow> IpsecError" where
  "first_error [] = IPSEC_OK"
| "first_error (e # es) = (if e = IPSEC_OK then first_error es else e)"

lemma first_error_ok: "first_error es = IPSEC_OK \<longleftrightarrow> (\<forall>e \<in> set es. e = IPSEC_OK)"
  by (induction es) auto

definition id_length :: "string option \<Rightarrow> nat" where
  "id_length i = (case i of None \<Rightarrow> 0 | Some t \<Rightarrow> strnlen t IPSEC_ID_LENGTH)"

definition ValidateConnectionConfig :: "IpsecConnectionConfig option \<Rightarrow> IpsecError" where
  "ValidateConnectionConfig pConfig =
     (case pConfig of
        None \<Rightarrow> IPSEC_ERR_INVALID_ARGUMENT
      | Some c \<Rightarrow>
          let eError = first_error
            [if cc_uiStructSize c \<noteq> sizeof_IpsecConnectionConfig \<or>
                cc_pcLocalId c = None \<or> cc_pcRemoteId c = None \<or>
                id_length (cc_pcLocalId c) = 0 \<or> id_length (cc_pcRemoteId c) = 0 \<or>
                IPSEC_ID_LENGTH \<le> id_length (cc_pcLocalId c) \<or>
                IPSEC_ID_LENGTH \<le> id_length (cc_pcRemoteId c) \<or>
                \<not> (cc_eMode c = IPSEC_MODE_TUNNEL \<or> cc_eMode c = IPSEC_MODE_TRANSPORT)
             then IPSEC_ERR_INVALID_ARGUMENT
             else ValidateConnectionName (cc_pcName c),
             if cc_eLocalAuth c \<noteq> IPSEC_AUTH_PSK \<or> cc_eRemoteAuth c \<noteq> IPSEC_AUTH_PSK
             then IPSEC_ERR_NOT_SUPPORTED else IPSEC_OK,
             ValidateConnectionName (cc_pcChildName c),
             ValidateConnectionList (cc_LocalAddresses c) True,
             ValidateConnectionList (cc_RemoteAddresses c) True,
             ValidateConnectionList (cc_IkeProposals c) True,
             ValidateConnectionList (cc_EspProposals c) True,
             ValidateConnectionList (cc_LocalTrafficSelectors c) True,
             ValidateConnectionList (cc_RemoteTrafficSelectors c) True]
          in if eError = IPSEC_OK \<and> cc_eEsn c = IPSEC_ESN_ENABLED \<and>
                \<not> ContainsConnectionProposalToken (cc_EspProposals c) ''esn''
             then IPSEC_ERR_INVALID_ARGUMENT
             else if eError = IPSEC_OK \<and> cc_eEsn c = IPSEC_ESN_DISABLED \<and>
                \<not> ContainsConnectionProposalToken (cc_EspProposals c) ''noesn''
             then IPSEC_ERR_INVALID_ARGUMENT
             else if eError = IPSEC_OK \<and> cc_bEnablePfs c \<and>
                \<not> ContainsConnectionPfsToken (cc_EspProposals c)
             then IPSEC_ERR_INVALID_ARGUMENT
             else eError)"

subsection \<open>Writing the request\<close>

fun list_items :: "(nat \<Rightarrow> bool) \<Rightarrow> string option list \<Rightarrow> (ViciBuffer \<Rightarrow> ViciBuffer outcome) list" where
  "list_items mem [] = []"
| "list_items mem (i # is) = AddViciListItemString mem i # list_items mem is"

definition AddConnectionList ::
  "(nat \<Rightarrow> bool) \<Rightarrow> string \<Rightarrow> IpsecStringListView \<Rightarrow> ViciBuffer \<Rightarrow> ViciBuffer outcome" where
  "AddConnectionList mem pcName pList =
     run_steps (AddViciListStart mem (Some pcName) #
                list_items mem (view_items pList) @ [AddViciListEnd mem])"

definition AddConnectionDuration ::
  "(nat \<Rightarrow> bool) \<Rightarrow> string \<Rightarrow> nat \<Rightarrow> ViciBuffer \<Rightarrow> ViciBuffer outcome" where
  "AddConnectionDuration mem pcName ullMilliseconds b =
     (if 0 < ullMilliseconds
      then if UINT64_MAX - 999 < ullMilliseconds then (b, IPSEC_ERR_BUFFER_TOO_SMALL)
           else
             let ullSeconds = u64 (ullMilliseconds + 999) div 1000;
                 acDuration = dec ullSeconds @ ''s''
             in if 32 \<le> length acDuration then (b, IPSEC_ERR_BUFFER_TOO_SMALL)
                else AddViciKeyValueString mem (Some pcName) (Some acDuration) b
      else (b, IPSEC_OK))"

definition yes_no :: "bool \<Rightarrow> string" where
  "yes_no b = (if b then ''yes'' else ''no'')"

text \<open>The section \<open>children\<close>, then the whole message.\<close>

definition connection_child_steps ::
  "(nat \<Rightarrow> bool) \<Rightarrow> IpsecConnectionConfig \<Rightarrow> (ViciBuffer \<Rightarrow> ViciBuffer outcome) list" where
  "connection_child_steps mem c =
     [AddViciSectionStart mem (Some ''children''),
      AddViciSectionStart mem (cc_pcChildName c),
      AddConnectionList mem ''local_ts'' (cc_LocalTrafficSelectors c),
      AddConnectionList mem ''remote_ts'' (cc_RemoteTrafficSelectors c),
      AddViciKeyValueString mem (Some ''mode'')
        (Some (if cc_eMode c = IPSEC_MODE_TUNNEL then ''tunnel'' else ''transport'')),
      AddConnectionList mem ''esp_proposals'' (cc_EspProposals c),
      AddViciKeyValueString mem (Some ''start_action'') (Some ''none''),
      AddViciKeyValueString mem (Some ''close_action'') (Some ''none''),
      AddViciKeyValueString mem (Some ''dpd_action'') (Some ''clear''),
      AddConnectionDuration mem ''rekey_time'' (cc_ullChildRekeyTimeMs c),
      AddConnectionDuration mem ''life_time'' (cc_ullChildLifetimeMs c),
      AddViciSectionEnd mem,
      AddViciSectionEnd mem,
      AddViciSectionEnd mem]"

definition connection_steps ::
  "(nat \<Rightarrow> bool) \<Rightarrow> IpsecConnectionConfig \<Rightarrow> (ViciBuffer \<Rightarrow> ViciBuffer outcome) list" where
  "connection_steps mem c =
     [AddViciSectionStart mem (cc_pcName c),
      AddViciKeyValueString mem (Some ''version'') (Some ''2''),
      AddConnectionList mem ''local_addrs'' (cc_LocalAddresses c),
      AddConnectionList mem ''remote_addrs'' (cc_RemoteAddresses c),
      AddConnectionList mem ''proposals'' (cc_IkeProposals c),
      AddViciKeyValueString mem (Some ''mobike'') (Some (yes_no (cc_bEnableMobike c))),
      AddViciKeyValueString mem (Some ''fragmentation'') (Some (yes_no (cc_bEnableFragmentation c))),
      AddViciKeyValueString mem (Some ''encap'') (Some (yes_no (cc_bForceUdpEncapsulation c))),
      AddViciKeyValueString mem (Some ''childless'')
        (Some (if cc_bForceChildlessIke c then ''force'' else ''allow'')),
      AddConnectionDuration mem ''dpd_delay'' (cc_uiDpdDelayMs c),
      AddConnectionDuration mem ''dpd_timeout'' (cc_uiDpdTimeoutMs c),
      AddConnectionDuration mem ''rekey_time'' (cc_ullIkeRekeyTimeMs c),
      AddConnectionDuration mem ''reauth_time'' (cc_ullIkeLifetimeMs c),
      AddViciSectionStart mem (Some ''local''),
      AddViciKeyValueString mem (Some ''auth'') (Some ''psk''),
      AddViciKeyValueString mem (Some ''id'') (cc_pcLocalId c),
      AddViciSectionEnd mem,
      AddViciSectionStart mem (Some ''remote''),
      AddViciKeyValueString mem (Some ''auth'') (Some ''psk''),
      AddViciKeyValueString mem (Some ''id'') (cc_pcRemoteId c),
      AddViciSectionEnd mem] @
     connection_child_steps mem c"

definition BuildConnectionMessage ::
  "(nat \<Rightarrow> bool) \<Rightarrow> IpsecConnectionConfig \<Rightarrow> ViciBuffer \<Rightarrow> ViciBuffer outcome" where
  "BuildConnectionMessage mem pConfig pMessage =
     (let (b, eError) = and_then (InitializeViciBuffer mem 2048 False pMessage)
                          (run_steps (connection_steps mem pConfig))
      in (if eError \<noteq> IPSEC_OK then DestroyViciBuffer b else b, eError))"

definition AddIpsecConnection :: "IpsecConnectionConfig option \<Rightarrow> Ipsec \<Rightarrow> Ipsec outcome" where
  "AddIpsecConnection pConfig w =
     (case pConfig of
        None \<Rightarrow> (w, IPSEC_ERR_INVALID_ARGUMENT)
      | Some c \<Rightarrow>
          and_then (w, ValidateConnectionConfig (Some c)) (\<lambda>w.
            let (mem, w) = next_mem w;
                (Message, eError) = BuildConnectionMessage mem c zero_buffer
            in and_then (w, eError) (\<lambda>w.
                 let ((_, w), eError) = ExecuteViciCommand (Some ''load-conn'') (Some Message)
                       None None None ((), zero_result) w
                 in (w, eError))))"

definition RemoveIpsecConnection :: "string option \<Rightarrow> Ipsec \<Rightarrow> Ipsec outcome" where
  "RemoveIpsecConnection pcName w =
     and_then (w, ValidateConnectionName pcName) (\<lambda>w.
       let (mem, w) = next_mem w;
           (Message, eError) = and_then (InitializeViciBuffer mem 64 False zero_buffer)
             (AddViciKeyValueString mem (Some ''name'') pcName)
       in and_then (w, eError) (\<lambda>w.
            let ((_, w), eError) = ExecuteViciCommand (Some ''unload-conn'') (Some Message)
                  None None None ((), zero_result) w
            in (w, eError)))"

subsection \<open>Tokens of a proposal\<close>

fun split_on :: "char \<Rightarrow> string \<Rightarrow> string list" where
  "split_on c [] = [[]]"
| "split_on c (x # xs) =
     (if x = c then [] # split_on c xs
      else (x # hd (split_on c xs)) # tl (split_on c xs))"

lemma split_on_not_Nil [simp]: "split_on c s \<noteq> []"
  by (cases s) simp_all

lemma split_on_code [code]:
  "split_on c [] = [[]]"
  "split_on c (x # xs) =
     (case split_on c xs of [] \<Rightarrow> [[]] | p # ps \<Rightarrow> if x = c then [] # p # ps else (x # p) # ps)"
  by (simp, cases "split_on c xs", simp_all)

lemma split_on_token: "c \<notin> set t \<Longrightarrow> split_on c t = [t]"
  by (induction t) auto

lemma split_on_sep: "c \<notin> set t \<Longrightarrow> split_on c (t @ c # s) = t # split_on c s"
  by (induction t) auto

lemma split_on_unfold:
  "split_on c s = takeWhile (\<lambda>x. x \<noteq> c) s #
     (if dropWhile (\<lambda>x. x \<noteq> c) s = [] then []
      else split_on c (tl (dropWhile (\<lambda>x. x \<noteq> c) s)))"
  by (induction s) auto

lemma token_scan_split:
  "t \<noteq> [] \<Longrightarrow> token_scan t s \<longleftrightarrow> t \<in> set (split_on (CHR ''-'') s)"
proof (induction t s rule: token_scan.induct)
  case (1 t s)
  let ?d = "dropWhile (\<lambda>c. c \<noteq> CHR ''-'') s"
  let ?p = "takeWhile (\<lambda>c. c \<noteq> CHR ''-'') s"
  show ?case
  proof (cases "s = [] \<or> ?p = t \<or> ?d = []")
    case True
    then show ?thesis
      using "1.prems" by (subst token_scan.simps, subst split_on_unfold) (auto simp: Let_def)
  next
    case False
    then have "token_scan t (tl ?d) \<longleftrightarrow> t \<in> set (split_on (CHR ''-'') (tl ?d))"
      using "1.prems" by (intro "1.IH") auto
    then show ?thesis
      using False "1.prems" by (subst token_scan.simps, subst split_on_unfold) (auto simp: Let_def)
  qed
qed

lemma ContainsConnectionProposalToken_iff:
  "t \<noteq> [] \<Longrightarrow> ContainsConnectionProposalToken v t \<longleftrightarrow>
     (\<exists>p \<in> set (view_texts v). t \<in> set (split_on (CHR ''-'') p))"
  by (auto simp: ContainsConnectionProposalToken_def list_ex_iff view_texts_def token_scan_split)

subsection \<open>The document of a configuration\<close>

definition list_doc :: "string \<Rightarrow> IpsecStringListView \<Rightarrow> vici_item" where
  "list_doc name v = ValueList name (view_texts v)"

definition duration_doc :: "string \<Rightarrow> nat \<Rightarrow> vici_item list" where
  "duration_doc name ms =
     (if ms = 0 then [] else [KeyValue name (dec ((ms + 999) div 1000) @ ''s'')])"

definition connection_doc :: "IpsecConnectionConfig \<Rightarrow> vici_item list" where
  "connection_doc c =
     [Section (item_text (cc_pcName c))
       ([KeyValue ''version'' ''2'',
         list_doc ''local_addrs'' (cc_LocalAddresses c),
         list_doc ''remote_addrs'' (cc_RemoteAddresses c),
         list_doc ''proposals'' (cc_IkeProposals c),
         KeyValue ''mobike'' (yes_no (cc_bEnableMobike c)),
         KeyValue ''fragmentation'' (yes_no (cc_bEnableFragmentation c)),
         KeyValue ''encap'' (yes_no (cc_bForceUdpEncapsulation c)),
         KeyValue ''childless'' (if cc_bForceChildlessIke c then ''force'' else ''allow'')] @
        duration_doc ''dpd_delay'' (cc_uiDpdDelayMs c) @
        duration_doc ''dpd_timeout'' (cc_uiDpdTimeoutMs c) @
        duration_doc ''rekey_time'' (cc_ullIkeRekeyTimeMs c) @
        duration_doc ''reauth_time'' (cc_ullIkeLifetimeMs c) @
        [Section ''local'' [KeyValue ''auth'' ''psk'', KeyValue ''id'' (item_text (cc_pcLocalId c))],
         Section ''remote'' [KeyValue ''auth'' ''psk'', KeyValue ''id'' (item_text (cc_pcRemoteId c))],
         Section ''children''
           [Section (item_text (cc_pcChildName c))
             ([list_doc ''local_ts'' (cc_LocalTrafficSelectors c),
               list_doc ''remote_ts'' (cc_RemoteTrafficSelectors c),
               KeyValue ''mode'' (if cc_eMode c = IPSEC_MODE_TUNNEL then ''tunnel'' else ''transport''),
               list_doc ''esp_proposals'' (cc_EspProposals c),
               KeyValue ''start_action'' ''none'',
               KeyValue ''close_action'' ''none'',
               KeyValue ''dpd_action'' ''clear''] @
              duration_doc ''rekey_time'' (cc_ullChildRekeyTimeMs c) @
              duration_doc ''life_time'' (cc_ullChildLifetimeMs c))]])]"

subsection \<open>What validation gives\<close>

definition name_ok :: "string option \<Rightarrow> bool" where
  "name_ok i \<longleftrightarrow> (\<exists>t. i = Some t \<and> cstr t \<noteq> [] \<and> strlen t < IPSEC_NAME_LENGTH \<and>
     list_all name_char_ok (cstr t))"

definition view_ok :: "IpsecStringListView \<Rightarrow> bool" where
  "view_ok v \<longleftrightarrow> (\<exists>items. v = Some items \<and> items \<noteq> [] \<and> length items \<le> IPSEC_VICI_MAX_LIST_ITEMS \<and>
     (\<forall>i \<in> set items. \<exists>t. i = Some t \<and> cstr t \<noteq> [] \<and> strlen t \<le> IPSEC_VICI_MAX_INPUT_LENGTH))"

lemma ValidateConnectionName_iff: "ValidateConnectionName n = IPSEC_OK \<longleftrightarrow> name_ok n"
  by (auto simp: ValidateConnectionName_def name_ok_def strnlen_min Let_def strlen_def min_def
      split: option.splits)

lemma list_item_ok_iff:
  "list_item_ok i \<longleftrightarrow> (\<exists>t. i = Some t \<and> cstr t \<noteq> [] \<and> strlen t \<le> IPSEC_VICI_MAX_INPUT_LENGTH)"
  by (auto simp: list_item_ok_def strnlen_min Let_def strlen_def min_def split: option.splits)

lemma ValidateConnectionList_iff: "ValidateConnectionList v True = IPSEC_OK \<longleftrightarrow> view_ok v"
  by (auto simp: ValidateConnectionList_def view_ok_def list_all_iff list_item_ok_iff
      split: option.splits)

definition id_ok :: "string option \<Rightarrow> bool" where
  "id_ok i \<longleftrightarrow> (\<exists>t. i = Some t \<and> cstr t \<noteq> [] \<and> strlen t < IPSEC_ID_LENGTH)"

definition config_ok :: "IpsecConnectionConfig \<Rightarrow> bool" where
  "config_ok c \<longleftrightarrow>
     cc_uiStructSize c = sizeof_IpsecConnectionConfig \<and>
     id_ok (cc_pcLocalId c) \<and> id_ok (cc_pcRemoteId c) \<and>
     cc_eMode c \<in> {IPSEC_MODE_TUNNEL, IPSEC_MODE_TRANSPORT} \<and>
     name_ok (cc_pcName c) \<and> name_ok (cc_pcChildName c) \<and>
     cc_eLocalAuth c = IPSEC_AUTH_PSK \<and> cc_eRemoteAuth c = IPSEC_AUTH_PSK \<and>
     view_ok (cc_LocalAddresses c) \<and> view_ok (cc_RemoteAddresses c) \<and>
     view_ok (cc_IkeProposals c) \<and> view_ok (cc_EspProposals c) \<and>
     view_ok (cc_LocalTrafficSelectors c) \<and> view_ok (cc_RemoteTrafficSelectors c) \<and>
     (cc_eEsn c = IPSEC_ESN_ENABLED \<longrightarrow>
        (\<exists>p \<in> set (view_texts (cc_EspProposals c)). ''esn'' \<in> set (split_on (CHR ''-'') p))) \<and>
     (cc_eEsn c = IPSEC_ESN_DISABLED \<longrightarrow>
        (\<exists>p \<in> set (view_texts (cc_EspProposals c)). ''noesn'' \<in> set (split_on (CHR ''-'') p))) \<and>
     (cc_bEnablePfs c \<longrightarrow> ContainsConnectionPfsToken (cc_EspProposals c))"

lemma id_ok_iff:
  "id_ok i \<longleftrightarrow> i \<noteq> None \<and> id_length i \<noteq> 0 \<and> \<not> IPSEC_ID_LENGTH \<le> id_length i"
  by (auto simp: id_ok_def id_length_def strnlen_min strlen_def min_def split: option.splits)

lemma ValidateConnectionConfig_iff:
  "ValidateConnectionConfig (Some c) = IPSEC_OK \<longleftrightarrow> config_ok c"
  unfolding ValidateConnectionConfig_def config_ok_def id_ok_iff
  by (cases "cc_eEsn c")
    (auto simp: Let_def first_error_ok ValidateConnectionName_iff ValidateConnectionList_iff
      ContainsConnectionProposalToken_iff split: if_splits)

subsection \<open>The builder writes the document\<close>

definition enc :: "nat \<Rightarrow> vici_item list \<Rightarrow> bytes" where
  "enc d items = encode_elements (doc_events d items)"

lemma encode_doc_enc: "encode_doc items = enc 0 items"
  by (simp only: encode_doc_def enc_def)

lemma enc_simps:
  "enc d (KeyValue n v # is) =
     element_byte VICI_ELEMENT_KEY_VALUE @ encode_name n @ encode_value v @ enc d is"
  "enc d (ValueList n vs # is) =
     element_byte VICI_ELEMENT_LIST_START @ encode_name n @
     concat (map (\<lambda>v. element_byte VICI_ELEMENT_LIST_ITEM @ encode_value v) vs) @
     element_byte VICI_ELEMENT_LIST_END @ enc d is"
  "enc d (Section n items # is) =
     element_byte VICI_ELEMENT_SECTION_START @ encode_name n @ enc (Suc d) items @
     element_byte VICI_ELEMENT_SECTION_END @ enc d is"
  "enc d [] = []"
  "enc d (xs @ ys) = enc d xs @ enc d ys"
  by (simp_all add: enc_def encode_element_def encode_elements_def doc_events_def comp_def)

lemma name_ok_vici:
  assumes "name_ok i"
  obtains t where "i = Some t" and "vici_name (cstr t)" and "item_text i = cstr t"
    and "strlen t < IPSEC_NAME_LENGTH"
proof -
  obtain t where "i = Some t" "cstr t \<noteq> []" "strlen t < IPSEC_NAME_LENGTH"
    using assms by (auto simp: name_ok_def)
  then show thesis by (intro that) (auto simp: vici_name_def item_text_def strlen_def)
qed

text \<open>A name argument is cut at its NUL by \<open>strnlen\<close>, so the name written is the C string.\<close>

lemma emits_SectionStart_cstr:
  assumes "vici_name (cstr t)"
  shows "emits mem (AddViciSectionStart mem (Some t))
     (element_byte VICI_ELEMENT_SECTION_START @ encode_name (cstr t))"
proof -
  have "strlen t \<le> UINT8_MAX" using assms by (simp add: vici_name_def strlen_def)
  then have "strnlen t (UINT8_MAX + 1) = strlen t" "strnlen (cstr t) (UINT8_MAX + 1) = strlen t"
    "take (strlen t) t = cstr t" "take (strlen t) (cstr t) = cstr t"
    by (simp_all add: strnlen_min strlen_def take_strlen [unfolded strlen_def])
  then have "AppendViciName mem (Some t) = AppendViciName mem (Some (cstr t))"
    by (intro ext) (simp add: AppendViciName_def Let_def)
  then have "AddViciSectionStart mem (Some t) = AddViciSectionStart mem (Some (cstr t))"
    by (simp add: AddViciSectionStart_def)
  then show ?thesis using emits_SectionStart [OF assms] by simp
qed

lemma emits_list_items:
  "(\<And>i. i \<in> set is \<Longrightarrow> \<exists>t. i = Some t \<and> strlen t \<le> UINT16_MAX) \<Longrightarrow>
   list_all2 (emits mem) (list_items mem is)
     (map (\<lambda>i. element_byte VICI_ELEMENT_LIST_ITEM @ encode_value (item_text i)) is)"
proof (induction "is")
  case (Cons i "is")
  then obtain t where "i = Some t" "strlen t \<le> UINT16_MAX" by fastforce
  then show ?case using Cons by (auto simp: item_text_def intro: emits_ListItemString)
qed simp

lemma emits_ConnectionList:
  assumes "vici_name n" and "view_ok v"
  shows "emits mem (AddConnectionList mem n v) (enc d [list_doc n v])"
proof -
  obtain items where v: "v = Some items" and
    ok: "\<And>i. i \<in> set items \<Longrightarrow> \<exists>t. i = Some t \<and> strlen t \<le> UINT16_MAX"
    using assms(2) by (fastforce simp: view_ok_def)
  have "list_all2 (emits mem)
      (AddViciListStart mem (Some n) # list_items mem items @ [AddViciListEnd mem])
      ((element_byte VICI_ELEMENT_LIST_START @ encode_name n) #
       map (\<lambda>i. element_byte VICI_ELEMENT_LIST_ITEM @ encode_value (item_text i)) items @
       [element_byte VICI_ELEMENT_LIST_END])"
    using emits_list_items [OF ok] emits_ListStart [OF assms(1)] emits_ListEnd
    by (auto intro!: list_all2_appendI)
  from emits_run_steps [OF this] show ?thesis
    by (simp add: AddConnectionList_def v view_items_def list_doc_def view_texts_def enc_simps comp_def)
qed

lemma emits_ConnectionDuration:
  assumes "vici_name n" and "ms \<le> UINT64_MAX - 999"
  shows "emits mem (AddConnectionDuration mem n ms) (enc d (duration_doc n ms))"
proof (cases "ms = 0")
  case True
  have "AddConnectionDuration mem n 0 = (\<lambda>b. (b, IPSEC_OK))"
    by (intro ext) (simp add: AddConnectionDuration_def)
  then show ?thesis using True by (simp add: duration_doc_def emits_Nil enc_simps)
next
  case False
  let ?t = "dec ((ms + 999) div 1000) @ ''s''"
  have "length (dec ((ms + 999) div 1000)) \<le> 20"
    using assms(2) by (intro length_dec64) simp
  then have len: "length ?t < 32" by simp
  have nonul: "NUL \<notin> set ?t" by (simp add: dec_no_NUL)
  have "AddConnectionDuration mem n ms = AddViciKeyValueString mem (Some n) (Some ?t)"
    using False assms(2) len by (intro ext) (simp add: AddConnectionDuration_def Let_def)
  then show ?thesis
    using emits_KeyValueString [OF assms(1), of ?t mem] False len nonul
    by (simp add: duration_doc_def enc_simps strlen_id cstr_id)
qed

lemma wire_names:
  "vici_name ''version''" "vici_name ''local_addrs''" "vici_name ''remote_addrs''"
  "vici_name ''proposals''" "vici_name ''mobike''" "vici_name ''fragmentation''"
  "vici_name ''encap''" "vici_name ''childless''" "vici_name ''dpd_delay''"
  "vici_name ''dpd_timeout''" "vici_name ''rekey_time''" "vici_name ''reauth_time''"
  "vici_name ''local''" "vici_name ''auth''" "vici_name ''id''" "vici_name ''remote''"
  "vici_name ''children''" "vici_name ''local_ts''" "vici_name ''remote_ts''" "vici_name ''mode''"
  "vici_name ''esp_proposals''" "vici_name ''start_action''" "vici_name ''close_action''"
  "vici_name ''dpd_action''" "vici_name ''life_time''"
  by code_simp+

text \<open>A key with a literal value.\<close>

lemma emits_literal:
  assumes "vici_name n" and "NUL \<notin> set v" and "length v \<le> UINT16_MAX"
  shows "emits mem (AddViciKeyValueString mem (Some n) (Some v))
     (element_byte VICI_ELEMENT_KEY_VALUE @ encode_name n @ encode_value v)"
  using emits_KeyValueString [OF assms(1), of v mem] assms by (simp add: strlen_id cstr_id)

lemma emits_id:
  assumes "id_ok i"
  shows "emits mem (AddViciKeyValueString mem (Some ''id'') i)
     (element_byte VICI_ELEMENT_KEY_VALUE @ encode_name ''id'' @ encode_value (item_text i))"
proof -
  obtain t where "i = Some t" "strlen t \<le> UINT16_MAX" using assms by (fastforce simp: id_ok_def)
  then show ?thesis using emits_KeyValueString [OF wire_names(15), of t] by (simp add: item_text_def)
qed

definition durations_ok :: "IpsecConnectionConfig \<Rightarrow> bool" where
  "durations_ok c \<longleftrightarrow> list_all (\<lambda>ms. ms \<le> UINT64_MAX - 999)
     [cc_uiDpdDelayMs c, cc_uiDpdTimeoutMs c, cc_ullIkeRekeyTimeMs c, cc_ullIkeLifetimeMs c,
      cc_ullChildRekeyTimeMs c, cc_ullChildLifetimeMs c]"

lemma emits_connection:
  assumes ok: "config_ok c" and dur: "durations_ok c"
  shows "emits mem (run_steps (connection_steps mem c)) (encode_doc (connection_doc c))"
proof -
  obtain n where n: "cc_pcName c = Some n" "vici_name (cstr n)" "item_text (cc_pcName c) = cstr n"
    using ok by (auto simp: config_ok_def elim: name_ok_vici)
  obtain k where k: "cc_pcChildName c = Some k" "vici_name (cstr k)" "item_text (cc_pcChildName c) = cstr k"
    using ok by (auto simp: config_ok_def elim: name_ok_vici)
  have ids: "id_ok (cc_pcLocalId c)" "id_ok (cc_pcRemoteId c)" using ok by (auto simp: config_ok_def)
  have views: "view_ok (cc_LocalAddresses c)" "view_ok (cc_RemoteAddresses c)"
    "view_ok (cc_IkeProposals c)" "view_ok (cc_EspProposals c)"
    "view_ok (cc_LocalTrafficSelectors c)" "view_ok (cc_RemoteTrafficSelectors c)"
    using ok by (auto simp: config_ok_def)
  have durs: "cc_uiDpdDelayMs c \<le> UINT64_MAX - 999" "cc_uiDpdTimeoutMs c \<le> UINT64_MAX - 999"
    "cc_ullIkeRekeyTimeMs c \<le> UINT64_MAX - 999" "cc_ullIkeLifetimeMs c \<le> UINT64_MAX - 999"
    "cc_ullChildRekeyTimeMs c \<le> UINT64_MAX - 999" "cc_ullChildLifetimeMs c \<le> UINT64_MAX - 999"
    using dur by (auto simp: durations_ok_def)
  let ?start = "\<lambda>n. element_byte VICI_ELEMENT_SECTION_START @ encode_name n"
  let ?fin = "element_byte VICI_ELEMENT_SECTION_END"
  let ?kv = "\<lambda>n v. element_byte VICI_ELEMENT_KEY_VALUE @ encode_name n @ encode_value v"
  let ?bss = "[?start (cstr n), ?kv ''version'' ''2'',
      enc 1 [list_doc ''local_addrs'' (cc_LocalAddresses c)],
      enc 1 [list_doc ''remote_addrs'' (cc_RemoteAddresses c)],
      enc 1 [list_doc ''proposals'' (cc_IkeProposals c)],
      ?kv ''mobike'' (yes_no (cc_bEnableMobike c)),
      ?kv ''fragmentation'' (yes_no (cc_bEnableFragmentation c)),
      ?kv ''encap'' (yes_no (cc_bForceUdpEncapsulation c)),
      ?kv ''childless'' (if cc_bForceChildlessIke c then ''force'' else ''allow''),
      enc 1 (duration_doc ''dpd_delay'' (cc_uiDpdDelayMs c)),
      enc 1 (duration_doc ''dpd_timeout'' (cc_uiDpdTimeoutMs c)),
      enc 1 (duration_doc ''rekey_time'' (cc_ullIkeRekeyTimeMs c)),
      enc 1 (duration_doc ''reauth_time'' (cc_ullIkeLifetimeMs c)),
      ?start ''local'', ?kv ''auth'' ''psk'', ?kv ''id'' (item_text (cc_pcLocalId c)), ?fin,
      ?start ''remote'', ?kv ''auth'' ''psk'', ?kv ''id'' (item_text (cc_pcRemoteId c)), ?fin,
      ?start ''children'', ?start (cstr k),
      enc 3 [list_doc ''local_ts'' (cc_LocalTrafficSelectors c)],
      enc 3 [list_doc ''remote_ts'' (cc_RemoteTrafficSelectors c)],
      ?kv ''mode'' (if cc_eMode c = IPSEC_MODE_TUNNEL then ''tunnel'' else ''transport''),
      enc 3 [list_doc ''esp_proposals'' (cc_EspProposals c)],
      ?kv ''start_action'' ''none'', ?kv ''close_action'' ''none'', ?kv ''dpd_action'' ''clear'',
      enc 3 (duration_doc ''rekey_time'' (cc_ullChildRekeyTimeMs c)),
      enc 3 (duration_doc ''life_time'' (cc_ullChildLifetimeMs c)), ?fin, ?fin, ?fin]"
  have "list_all2 (emits mem) (connection_steps mem c) ?bss"
    unfolding connection_steps_def connection_child_steps_def append.simps list.rel_inject n k
    by (intro conjI emits_SectionStart emits_SectionStart_cstr emits_SectionEnd emits_literal
        emits_ConnectionList emits_ConnectionDuration emits_id wire_names n(2) k(2) ids views durs
        list.rel_intros)
      (simp_all add: yes_no_def)
  from emits_run_steps [OF this] show ?thesis
    by (simp add: encode_doc_enc connection_doc_def enc_simps n k
        numeral_3_eq_3 list_doc_def)
qed

text \<open>The document is within the limits of the wire, so the daemon can parse it.\<close>

lemma wire_item_text:
  assumes "view_ok v" and "t \<in> set (view_texts v)"
  shows "wire_value t"
  using assms
  by (fastforce simp: view_ok_def view_texts_def view_items_def wire_value_def strlen_def)

lemma vici_wire_name: "vici_name n \<Longrightarrow> wire_name n"
  by (simp add: vici_name_def wire_name_def)

lemma item_ok_list_doc: "vici_name n \<Longrightarrow> view_ok v \<Longrightarrow> item_ok k (list_doc n v)"
  by (auto simp: list_doc_def vici_wire_name wire_item_text)

lemma item_ok_duration:
  assumes "vici_name n" and "ms \<le> UINT64_MAX - 999" and "i \<in> set (duration_doc n ms)"
  shows "item_ok k i"
proof -
  have "length (dec ((ms + 999) div 1000)) \<le> 20"
    using assms(2) by (intro length_dec64) simp
  then show ?thesis using assms by (auto simp: duration_doc_def vici_wire_name wire_value_def split: if_splits)
qed

lemma wire_id: "id_ok i \<Longrightarrow> wire_value (item_text i)"
  by (auto simp: id_ok_def wire_value_def strlen_def)

lemma connection_doc_ok:
  assumes ok: "config_ok c" and dur: "durations_ok c"
  shows "doc_ok (connection_doc c)"
proof -
  have n: "wire_name (item_text (cc_pcName c))" "wire_name (item_text (cc_pcChildName c))"
    using ok by (auto simp: config_ok_def elim!: name_ok_vici dest: vici_wire_name)
  have ids: "wire_value (item_text (cc_pcLocalId c))" "wire_value (item_text (cc_pcRemoteId c))"
    using ok by (auto simp: config_ok_def wire_id)
  have lit: "wire_value v" if "length v \<le> 16" for v using that by (simp add: wire_value_def)
  have durs: "cc_uiDpdDelayMs c \<le> UINT64_MAX - 999" "cc_uiDpdTimeoutMs c \<le> UINT64_MAX - 999"
    "cc_ullIkeRekeyTimeMs c \<le> UINT64_MAX - 999" "cc_ullIkeLifetimeMs c \<le> UINT64_MAX - 999"
    "cc_ullChildRekeyTimeMs c \<le> UINT64_MAX - 999" "cc_ullChildLifetimeMs c \<le> UINT64_MAX - 999"
    using dur by (auto simp: durations_ok_def)
  note dd = item_ok_duration [OF _ durs(1)] item_ok_duration [OF _ durs(2)]
    item_ok_duration [OF _ durs(3)] item_ok_duration [OF _ durs(4)]
    item_ok_duration [OF _ durs(5)] item_ok_duration [OF _ durs(6)]
  have vs: "view_ok (cc_LocalAddresses c)" "view_ok (cc_RemoteAddresses c)"
    "view_ok (cc_IkeProposals c)" "view_ok (cc_EspProposals c)"
    "view_ok (cc_LocalTrafficSelectors c)" "view_ok (cc_RemoteTrafficSelectors c)"
    using ok by (auto simp: config_ok_def)
  note w = wire_names [THEN vici_wire_name]
  show ?thesis
    unfolding doc_ok_def connection_doc_def
    by (auto simp: case_nat_numeral n ids w wire_names vs item_ok_list_doc lit yes_no_def
        intro: dd [OF wire_names(9)] dd [OF wire_names(10)] dd [OF wire_names(11)]
          dd [OF wire_names(12)] dd [OF wire_names(25)])
qed

lemma BuildConnectionMessage_cases:
  assumes ok: "config_ok c" and dur: "durations_ok c"
    and b: "BuildConnectionMessage mem c b0 = (b, e)"
  shows "e = IPSEC_OK \<Longrightarrow> pucData b = encode_doc (connection_doc c) \<and> buffer_wf b"
    and "e \<noteq> IPSEC_OK \<Longrightarrow> b = zero_buffer"
    and "\<forall>k. mem k \<Longrightarrow> e = IPSEC_OK \<longleftrightarrow> length (encode_doc (connection_doc c)) \<le> VICI_MAX_SEGMENT_LENGTH"
proof -
  obtain b1 e1 where i: "InitializeViciBuffer mem 2048 False b0 = (b1, e1)" by fastforce
  note ini = InitializeViciBuffer_cases [OF _ i, simplified]
  obtain b2 e2 where r: "run_steps (connection_steps mem c) b1 = (b2, e2)" by fastforce
  note em = emitsD [OF emits_connection [OF ok dur] ini(1) r]
  have res: "b = (if e \<noteq> IPSEC_OK then zero_buffer else if e1 = IPSEC_OK then b2 else b1)"
    "e = (if e1 = IPSEC_OK then e2 else e1)"
    using b i r by (auto simp: BuildConnectionMessage_def DestroyViciBuffer_def and_then_def
        split: if_splits)
  show "e = IPSEC_OK \<Longrightarrow> pucData b = encode_doc (connection_doc c) \<and> buffer_wf b"
    using res em ini by (auto split: if_splits)
  show "e \<noteq> IPSEC_OK \<Longrightarrow> b = zero_buffer" using res by auto
  show "\<forall>k. mem k \<Longrightarrow> e = IPSEC_OK \<longleftrightarrow> length (encode_doc (connection_doc c)) \<le> VICI_MAX_SEGMENT_LENGTH"
    using res em ini by auto
qed

lemma idle_next_mem: "next_mem w = (mem, w') \<Longrightarrow> idle w' = idle w"
  by (auto simp: next_mem_def idle_def fd_ok_def)

lemma AddIpsecConnection_props:
  assumes idle: "idle w" and dur: "durations_ok c" and a: "AddIpsecConnection (Some c) w = (w', e)"
  shows "idle w' \<and> (e = IPSEC_OK \<longrightarrow> config_ok c \<and>
       os_out w' = os_out w @ frame (char_of (packet_code VICI_PACKET_COMMAND_REQUEST) #
         encode_name ''load-conn'' @ encode_doc (connection_doc c))) \<and>
     (\<not> config_ok c \<longrightarrow> w' = w \<and> e \<noteq> IPSEC_OK)"
proof (cases "config_ok c")
  case False
  then have "ValidateConnectionConfig (Some c) \<noteq> IPSEC_OK" by (simp add: ValidateConnectionConfig_iff)
  then show ?thesis using a idle False by (auto simp: AddIpsecConnection_def)
next
  case True
  then have v: "ValidateConnectionConfig (Some c) = IPSEC_OK" by (simp add: ValidateConnectionConfig_iff)
  obtain mem w1 where m: "next_mem w = (mem, w1)" by fastforce
  have i1: "idle w1" using idle_next_mem [OF m] idle by simp
  obtain b e1 where b: "BuildConnectionMessage mem c zero_buffer = (b, e1)" by fastforce
  note bc = BuildConnectionMessage_cases [OF True dur b]
  show ?thesis
  proof (cases "e1 = IPSEC_OK")
    case False
    then show ?thesis using a v m b i1 True by (auto simp: AddIpsecConnection_def)
  next
    case e1: True
    obtain s' r' w2 e2 where x: "ExecuteViciCommand (Some ''load-conn'') (Some b) None None None
        ((), zero_result) w1 = (((s', r'), w2), e2)" by (metis prod.exhaust)
    have n: "vici_name ''load-conn''" "ev_ok None" by code_simp+
    have res: "w' = w2" "e = e2" using a v m b e1 x by (auto simp: AddIpsecConnection_def)
    show ?thesis
      using ExecuteViciCommand_props [OF i1 n(2,1) x] res True bc(1) [OF e1] next_mem_props [OF m]
      by (simp add: registration_def named_packet_def)
  qed
qed

subsection \<open>Properties\<close>


text \<open>C5: For a valid configuration the builder writes exactly the encoding of its document, or
  fails and releases the buffer; with memory available it fails only for a message longer
  than a segment, and the message parses back to the traversal of the document.\<close>

theorem BuildConnectionMessage_document:
  assumes "config_ok c" and "durations_ok c" and "BuildConnectionMessage mem c b0 = (b, e)"
  shows "(e = IPSEC_OK \<longrightarrow> pucData b = encode_doc (connection_doc c) \<and>
       ParseViciMessage collect (pucData b) [] = (doc_events 0 (connection_doc c), IPSEC_OK)) \<and>
     (e \<noteq> IPSEC_OK \<longrightarrow> b = zero_buffer) \<and>
     ((\<forall>k. mem k) \<longrightarrow>
       (e = IPSEC_OK \<longleftrightarrow> length (encode_doc (connection_doc c)) \<le> VICI_MAX_SEGMENT_LENGTH))"
proof -
  note bc = BuildConnectionMessage_cases [OF assms]
  have "ParseViciMessage collect (encode_doc (connection_doc c)) [] =
      (doc_events 0 (connection_doc c), IPSEC_OK)"
    if "length (encode_doc (connection_doc c)) \<le> VICI_MAX_SEGMENT_LENGTH"
    using ParseViciMessage_encode [OF doc_legal [OF connection_doc_ok [OF assms(1,2)]],
        where cb = collect and s = "[]"] that
    by (simp add: encode_doc_def deliver_collect)
  moreover have "length (encode_doc (connection_doc c)) \<le> VICI_MAX_SEGMENT_LENGTH" if "e = IPSEC_OK"
    using bc(1) [OF that] by (auto simp: buffer_wf_def)
  ultimately show ?thesis using bc by auto
qed

definition sample_config :: IpsecConnectionConfig where
  "sample_config =
     \<lparr>cc_uiStructSize = 200, cc_pcName = Some ''ikm-vm-vm-psk'', cc_pcChildName = Some ''net'',
      cc_LocalAddresses = Some [Some ''10.0.0.1''], cc_RemoteAddresses = Some [Some ''10.0.0.2''],
      cc_eLocalAuth = IPSEC_AUTH_PSK, cc_eRemoteAuth = IPSEC_AUTH_PSK,
      cc_pcLocalId = Some ''a'', cc_pcRemoteId = Some ''b'',
      cc_IkeProposals = Some [Some ''aes256-sha256-modp2048''],
      cc_EspProposals = Some [Some ''aes256gcm16-modp2048-esn''],
      cc_LocalTrafficSelectors = Some [Some ''10.1.0.0/24''],
      cc_RemoteTrafficSelectors = Some [Some ''10.2.0.0/24''],
      cc_eMode = IPSEC_MODE_TUNNEL, cc_eEsn = IPSEC_ESN_ENABLED, cc_bEnablePfs = True,
      cc_bEnableMobike = False, cc_bEnableFragmentation = True, cc_bForceUdpEncapsulation = False,
      cc_bForceChildlessIke = False, cc_uiDpdDelayMs = 30001, cc_uiDpdTimeoutMs = 0,
      cc_ullIkeRekeyTimeMs = 0, cc_ullIkeLifetimeMs = 0, cc_ullChildRekeyTimeMs = 0,
      cc_ullChildLifetimeMs = 0\<rparr>"

lemma sample_config_ok: "config_ok sample_config" "durations_ok sample_config"
proof -
  have "ValidateConnectionConfig (Some sample_config) = IPSEC_OK" by code_simp
  then show "config_ok sample_config" by (simp only: ValidateConnectionConfig_iff)
  show "durations_ok sample_config" by code_simp
qed

theorem BuildConnectionMessage_document_witness:
  "pucData (fst (BuildConnectionMessage (\<lambda>_. True) sample_config zero_buffer)) =
     encode_doc (connection_doc sample_config)"
proof -
  let ?r = "BuildConnectionMessage (\<lambda>_. True) sample_config zero_buffer"
  have l: "length (encode_doc (connection_doc sample_config)) \<le> VICI_MAX_SEGMENT_LENGTH" by code_simp
  have "?r = (fst ?r, snd ?r)" by simp
  from BuildConnectionMessage_document [OF sample_config_ok this] l show ?thesis by blast
qed

text \<open>C6: \<open>AddIpsecConnection\<close> sends nothing for an invalid configuration; when it succeeds it has
  sent one \<open>load-conn\<close> request whose message is the document of the configuration; whatever
  happens the library is left idle.\<close>

theorem AddIpsecConnection_request:
  assumes "idle w" and "durations_ok c" and "AddIpsecConnection (Some c) w = (w', e)"
  shows "idle w' \<and>
     (e = IPSEC_OK \<longrightarrow> config_ok c \<and>
       os_out w' = os_out w @ frame (char_of (packet_code VICI_PACKET_COMMAND_REQUEST) #
         encode_name ''load-conn'' @ encode_doc (connection_doc c))) \<and>
     (\<not> config_ok c \<longrightarrow> w' = w \<and> e \<noteq> IPSEC_OK)"
  by (rule AddIpsecConnection_props [OF assms])

theorem AddIpsecConnection_request_witness:
  "idle (fst (AddIpsecConnection (Some sample_config) version_world)) \<and>
   fst (AddIpsecConnection (Some (sample_config\<lparr>cc_eLocalAuth := IPSEC_AUTH_EAP\<rparr>)) version_world) =
     version_world"
proof -
  let ?c = "sample_config\<lparr>cc_eLocalAuth := IPSEC_AUTH_EAP\<rparr>"
  have r: "AddIpsecConnection (Some c) version_world =
      (fst (AddIpsecConnection (Some c) version_world), snd (AddIpsecConnection (Some c) version_world))"
    for c by simp
  have "durations_ok ?c" "\<not> config_ok ?c"
    using sample_config_ok(2) by (simp_all add: durations_ok_def config_ok_def)
  then show ?thesis
    using AddIpsecConnection_request [OF version_world_idle sample_config_ok(2) r]
      AddIpsecConnection_request [OF version_world_idle _ r, of ?c] by blast
qed

end
