(* ===== verification/Inet.thy ===== *)
theory Inet
  imports ViciConnection
begin

section \<open>Internet addresses as text\<close>

text \<open>
  \<open>inet_pton\<close> and \<open>inet_ntop\<close> of the C library, as glibc implements them: which texts are valid
  addresses, the bytes they stand for, and the text of an address.
\<close>

subsection \<open>Valid texts\<close>

text \<open>IPv4: four decimal octets without leading zeros.  The state is the octets begun, and the
  octet being read with whether a digit of it was seen.\<close>

fun pton4_loop :: "nat \<Rightarrow> nat \<Rightarrow> bool \<Rightarrow> string \<Rightarrow> bool" where
  "pton4_loop octets v saw_digit [] = (octets = 4 \<and> saw_digit)"
| "pton4_loop octets v saw_digit (c # cs) =
     (if isdigit c then
        (let new = v * 10 + (of_char c - 48) in
         if saw_digit \<and> v = 0 then False
         else if 255 < new then False
         else if \<not> saw_digit
         then if octets = 4 then False else pton4_loop (octets + 1) new True cs
         else pton4_loop octets new True cs)
      else if c = CHR ''.'' \<and> saw_digit then
        if octets = 4 then False else pton4_loop octets 0 False cs
      else False)"

definition inet_pton4 :: "string \<Rightarrow> bool" where
  "inet_pton4 s = pton4_loop 0 0 False s"

text \<open>IPv6: \<open>tp\<close> counts the bytes written, \<open>colon\<close> says whether \<open>::\<close> was seen, \<open>digits\<close> and \<open>curtok\<close>
  are the digits of the current group and its text, for a trailing dotted quad.\<close>

fun pton6_loop :: "nat \<Rightarrow> bool \<Rightarrow> nat \<Rightarrow> string \<Rightarrow> string \<Rightarrow> bool" where
  "pton6_loop tp colon digits curtok [] =
     (let tp' = (if 0 < digits then tp + 2 else tp) in
      tp' \<le> 16 \<and> (if colon then tp' \<noteq> 16 else tp' = 16))"
| "pton6_loop tp colon digits curtok (c # cs) =
     (if is_base_digit 16 c then
        if digits = 4 then False else pton6_loop tp colon (digits + 1) curtok cs
      else if c = CHR '':'' then
        if digits = 0 then if colon then False else pton6_loop tp True 0 cs cs
        else if cs = [] then False
        else if 16 < tp + 2 then False
        else pton6_loop (tp + 2) colon 0 cs cs
      else c = CHR ''.'' \<and> tp + 4 \<le> 16 \<and> inet_pton4 curtok \<and>
        (if colon then tp + 4 \<noteq> 16 else tp + 4 = 16))"

definition inet_pton6 :: "string \<Rightarrow> bool" where
  "inet_pton6 s =
     (case s of
        [] \<Rightarrow> False
      | c # cs \<Rightarrow>
          if c = CHR '':'' then
            (case cs of [] \<Rightarrow> False
             | d # ds \<Rightarrow> if d = CHR '':'' then pton6_loop 0 False 0 cs cs else False)
          else pton6_loop 0 False 0 s s)"

subsection \<open>Values and texts\<close>

text \<open>\<open>inet_pton\<close> with the bytes it stores.  \<close>

definition inet_pton4_value :: "string \<Rightarrow> bytes option" where
  "inet_pton4_value s =
     (if inet_pton4 s then Some (map (\<lambda>t. char_of (digits_value 10 t)) (split_on (CHR ''.'') s)) else None)"

definition inet6_group :: "string \<Rightarrow> bytes" where
  "inet6_group t =
     (case inet_pton4_value t of
        Some bs \<Rightarrow> bs
      | None \<Rightarrow> [char_of (digits_value 16 t div 256), char_of (digits_value 16 t mod 256)])"

fun split_double_colon :: "string \<Rightarrow> string \<times> string option" where
  "split_double_colon [] = ([], None)"
| "split_double_colon [c] = ([c], None)"
| "split_double_colon (c # d # s) =
     (if c = CHR '':'' \<and> d = CHR '':'' then ([], Some s)
      else let (l, r) = split_double_colon (d # s) in (c # l, r))"

definition inet6_groups :: "string \<Rightarrow> bytes" where
  "inet6_groups s = (if s = [] then [] else concat (map inet6_group (split_on (CHR '':'') s)))"

definition inet_pton6_value :: "string \<Rightarrow> bytes option" where
  "inet_pton6_value s =
     (if \<not> inet_pton6 s then None
      else case split_double_colon s of
        (l, None) \<Rightarrow> Some (inet6_groups l)
      | (l, Some r) \<Rightarrow>
          Some (inet6_groups l @ replicate (16 - length (inet6_groups l) - length (inet6_groups r)) NUL @ inet6_groups r))"

text \<open>\<open>inet_ntop\<close>.  For IPv6 the first longest run of at least two zero words is compressed,
  and an address with the IPv4 prefix ends in a dotted quad.\<close>

fun join_with :: "string \<Rightarrow> string list \<Rightarrow> string" where
  "join_with sep [] = []"
| "join_with sep [t] = t"
| "join_with sep (t # u # ts) = t @ sep @ join_with sep (u # ts)"

definition inet_ntop4 :: "bytes \<Rightarrow> string" where
  "inet_ntop4 bs = join_with ''.'' (map (\<lambda>b. dec (of_char b)) bs)"

fun hex_number :: "nat \<Rightarrow> string" where
  "hex_number n =
     (if n < 16 then [''0123456789abcdef'' ! n]
      else hex_number (n div 16) @ [''0123456789abcdef'' ! (n mod 16)])"

declare hex_number.simps [simp del]

fun words_of :: "bytes \<Rightarrow> nat list" where
  "words_of (a # b # bs) = (of_char a * 256 + of_char b) # words_of bs"
| "words_of _ = []"

definition zero_run :: "nat list \<Rightarrow> nat \<Rightarrow> nat" where
  "zero_run ws i = length (takeWhile (\<lambda>x. x = 0) (drop i ws))"

definition best_run :: "nat list \<Rightarrow> (nat \<times> nat) option" where
  "best_run ws =
     (case map (zero_run ws) [0..<length ws] of
        [] \<Rightarrow> None
      | rs \<Rightarrow>
          let n = Max (set rs) in
          if n < 2 then None
          else map_option (\<lambda>i. (i, n)) (List.find (\<lambda>i. zero_run ws i = n) [0..<length ws]))"

definition inet_ntop6 :: "bytes \<Rightarrow> string" where
  "inet_ntop6 bs =
     (let ws = words_of bs; colon = [CHR '':''] in
      case best_run ws of
        None \<Rightarrow> join_with colon (map hex_number ws)
      | Some (i, n) \<Rightarrow>
          if i = 0 \<and> n = 6 \<or> i = 0 \<and> n = 5 \<and> ws ! 5 = 65535
          then (if n = 5 then ''::ffff:'' else ''::'') @ inet_ntop4 (drop 12 bs)
          else join_with colon (map hex_number (take i ws)) @ ''::'' @
               join_with colon (map hex_number (drop (i + n) ws)))"

subsection \<open>Lengths and characters of the texts\<close>

lemma length_join_with:
  "\<forall>t \<in> set ts. length t \<le> n \<Longrightarrow> length (join_with [s] ts) \<le> (n + 1) * length ts"
  by (induction "[s]" ts rule: join_with.induct) auto

lemma set_join_with: "set (join_with sep ts) \<subseteq> set sep \<union> (\<Union>t \<in> set ts. set t)"
  by (induction sep ts rule: join_with.induct) auto

lemma set_hex_number: "NUL \<notin> set (hex_number n)"
proof (induction n rule: hex_number.induct)
  case (1 n)
  have d: "''0123456789abcdef'' ! k \<noteq> NUL" if "k < 16" for k
  proof -
    have "list_all (\<lambda>c. c \<noteq> NUL) ''0123456789abcdef''" by simp
    then show ?thesis using that by (auto simp: list_all_length)
  qed
  have "n mod 16 < 16" by simp
  with 1 d [of n] d [of "n mod 16"] show ?case
    by (cases "n < 16") (auto simp: hex_number.simps [of n] dest: sym)
qed

lemma length_hex_number: "n < 16 ^ k \<Longrightarrow> 0 < k \<Longrightarrow> length (hex_number n) \<le> k"
proof (induction k arbitrary: n)
  case (Suc k)
  show ?case
  proof (cases "n < 16")
    case True
    then show ?thesis by (simp add: hex_number.simps [of n])
  next
    case False
    then have "0 < k" using Suc.prems by (cases k) auto
    moreover have "n div 16 < 16 ^ k"
      using Suc.prems by (simp add: less_mult_imp_div_less mult.commute)
    ultimately show ?thesis using Suc.IH [of "n div 16"] False by (simp add: hex_number.simps [of n])
  qed
qed simp

lemma inet_ntop4_props: "length (inet_ntop4 bs) \<le> 4 * length bs" "NUL \<notin> set (inet_ntop4 bs)"
proof -
  have "length (dec (of_char b)) \<le> 3" for b :: char
  proof -
    have "of_char b < (1000 :: nat)" using nat_of_char_less_256 [of b] by linarith
    then show ?thesis by (intro length_dec) simp_all
  qed
  then have "\<forall>t \<in> set (map (\<lambda>b. dec (of_char b)) bs). length t \<le> 3" by simp
  from length_join_with [OF this, of "CHR ''.''"] show "length (inet_ntop4 bs) \<le> 4 * length bs"
    by (simp add: inet_ntop4_def)
  show "NUL \<notin> set (inet_ntop4 bs)"
    using set_join_with [of "''.''" "map (\<lambda>b. dec (of_char b)) bs"] dec_no_NUL
    by (fastforce simp: inet_ntop4_def)
qed

lemma words_of_props:
  "length (words_of bs) \<le> length bs div 2" "\<forall>w \<in> set (words_of bs). w < 16 ^ 4"
proof (induction bs rule: words_of.induct)
  case (1 a b bs)
  have ab: "of_char a * 256 + of_char b < (65536 :: nat)"
    using nat_of_char_less_256 [of a] nat_of_char_less_256 [of b] by linarith
  { case 1 then show ?case using 1 "1.IH"(1) by simp }
  { case 2 then show ?case using ab "1.IH"(2) by simp }
qed simp_all

lemma inet_ntop6_props:
  assumes "length bs \<le> 16"
  shows "length (inet_ntop6 bs) \<le> 45" and "NUL \<notin> set (inet_ntop6 bs)"
proof -
  let ?ws = "words_of bs"
  have n: "length ?ws \<le> 8" using words_of_props(1) [of bs] assms by linarith
  have len: "length (join_with '':'' (map hex_number ws)) \<le> 5 * length ws" if "set ws \<subseteq> set ?ws" for ws
  proof -
    have "\<forall>t \<in> set (map hex_number ws). length t \<le> 4"
      using that words_of_props(2) [of bs] length_hex_number [of _ 4] by auto
    from length_join_with [OF this] show ?thesis by simp
  qed
  have nul: "NUL \<notin> set (join_with '':'' (map hex_number ws))" for ws
    using set_join_with [of "'':''" "map hex_number ws"] set_hex_number by fastforce
  have take: "length (join_with '':'' (map hex_number (take i ?ws))) \<le> 5 * min i (length ?ws)" for i
    using len [of "take i ?ws"] set_take_subset [of i ?ws] by (simp add: min.commute)
  have drop: "length (join_with '':'' (map hex_number (drop i ?ws))) \<le> 5 * (length ?ws - i)" for i
    using len [of "drop i ?ws"] set_drop_subset [of i ?ws] by simp
  have v4: "length (inet_ntop4 (drop 12 bs)) \<le> 16"
    using inet_ntop4_props(1) [of "drop 12 bs"] assms by (simp add: le_diff_conv)
  have sum: "length (join_with '':'' (map hex_number (take i ?ws))) +
      length (join_with '':'' (map hex_number (drop (i + k) ?ws))) \<le> 40" for i k
    using take [of i] drop [of "i + k"] n by linarith
  show "length (inet_ntop6 bs) \<le> 45"
  proof (cases "best_run ?ws")
    case None
    then show ?thesis using len [of ?ws] n by (simp add: inet_ntop6_def)
  next
    case (Some ik)
    then show ?thesis using v4 sum [of "fst ik" "snd ik"]
      by (cases ik) (auto simp: inet_ntop6_def Let_def)
  qed
  show "NUL \<notin> set (inet_ntop6 bs)"
    using nul inet_ntop4_props(2) by (auto simp: inet_ntop6_def Let_def split: option.split)
qed

end
