(* ===== verification/Netlink.thy ===== *)
theory Netlink
  imports ViciTransport Inet
begin

section \<open>Netlink dumps (\<open>ipsec/core/netlink.c\<close>)\<close>

text \<open>
  A query of the kernel: a raw netlink socket is opened and bound, one dump request is sent, and
  the kernel answers with datagrams, each a sequence of messages, until one of type
  \<open>NLMSG_DONE\<close>.  The messages go to a callback of the query; its user data is a value of the
  model, threaded through the calls.  The layouts are those of \<open>linux/netlink.h\<close> and
  \<open>linux/rtnetlink.h\<close> on the little-endian targets.
\<close>

subsection \<open>Integers in structures of the kernel\<close>

fun le_value :: "bytes \<Rightarrow> nat" where
  "le_value [] = 0"
| "le_value (b # bs) = of_char b + 256 * le_value bs"

fun le_bytes :: "nat \<Rightarrow> nat \<Rightarrow> bytes" where
  "le_bytes 0 v = []"
| "le_bytes (Suc n) v = char_of (v mod 256) # le_bytes n (v div 256)"

definition field_at :: "nat \<Rightarrow> nat \<Rightarrow> bytes \<Rightarrow> bytes" where
  "field_at off n bs = take n (drop off bs)"

definition u8_at :: "nat \<Rightarrow> bytes \<Rightarrow> nat" where "u8_at off bs = le_value (field_at off 1 bs)"
definition u16_at :: "nat \<Rightarrow> bytes \<Rightarrow> nat" where "u16_at off bs = le_value (field_at off 2 bs)"
definition u32_at :: "nat \<Rightarrow> bytes \<Rightarrow> nat" where "u32_at off bs = le_value (field_at off 4 bs)"
definition u64_at :: "nat \<Rightarrow> bytes \<Rightarrow> nat" where "u64_at off bs = le_value (field_at off 8 bs)"

text \<open>A signed 32-bit value.\<close>

definition s32 :: "nat \<Rightarrow> int" where
  "s32 v = (if v < 2147483648 then int v else int v - 4294967296)"

lemma length_le_bytes [simp]: "length (le_bytes n v) = n"
  by (induction n arbitrary: v) simp_all

lemma le_value_bytes: "v < 256 ^ n \<Longrightarrow> le_value (le_bytes n v) = v"
proof (induction n arbitrary: v)
  case (Suc n)
  then have "v div 256 < 256 ^ n" by (simp add: less_mult_imp_div_less mult.commute)
  with Suc.IH show ?case by simp
qed simp

lemma field_at_append [simp]:
  "length xs \<le> off \<Longrightarrow> field_at off n (xs @ ys) = field_at (off - length xs) n ys"
  "off + n \<le> length xs \<Longrightarrow> field_at off n (xs @ ys) = field_at off n xs"
  by (simp_all add: field_at_def)

lemma field_at_all [simp]: "length xs = n \<Longrightarrow> field_at 0 n xs = xs"
  by (simp add: field_at_def)

lemma field_at_prefix [simp]: "length xs = n \<Longrightarrow> field_at 0 n (xs @ ys) = xs"
  by (simp add: field_at_def)

lemma length_field_at: "off + n \<le> length bs \<Longrightarrow> length (field_at off n bs) = n"
  by (simp add: field_at_def)

subsection \<open>Messages\<close>

record nlmsghdr =
  nlmsg_len :: nat
  nlmsg_type :: nat
  nlmsg_flags :: nat
  nlmsg_seq :: nat
  nlmsg_pid :: nat

abbreviation sizeof_nlmsghdr :: nat where "sizeof_nlmsghdr \<equiv> 16"
abbreviation sizeof_nlmsgerr :: nat where "sizeof_nlmsgerr \<equiv> 20"
abbreviation NLMSG_ERROR :: nat where "NLMSG_ERROR \<equiv> 2"
abbreviation NLMSG_DONE :: nat where "NLMSG_DONE \<equiv> 3"
abbreviation NLM_F_REQUEST :: nat where "NLM_F_REQUEST \<equiv> 0x1"
abbreviation NLM_F_DUMP_INTR :: nat where "NLM_F_DUMP_INTR \<equiv> 0x10"
abbreviation NLM_F_DUMP :: nat where "NLM_F_DUMP \<equiv> 0x300"

abbreviation IPSEC_NETLINK_TIMEOUT_MS :: nat where "IPSEC_NETLINK_TIMEOUT_MS \<equiv> 5000"
abbreviation IPSEC_NETLINK_RECEIVE_LENGTH :: nat where "IPSEC_NETLINK_RECEIVE_LENGTH \<equiv> 65536"
abbreviation IPSEC_NETLINK_MAX_REQUEST_PAYLOAD :: nat where
  "IPSEC_NETLINK_MAX_REQUEST_PAYLOAD \<equiv> 512"

definition nlmsghdr_at :: "bytes \<Rightarrow> nlmsghdr" where
  "nlmsghdr_at bs =
     \<lparr>nlmsg_len = u32_at 0 bs, nlmsg_type = u16_at 4 bs, nlmsg_flags = u16_at 6 bs,
      nlmsg_seq = u32_at 8 bs, nlmsg_pid = u32_at 12 bs\<rparr>"

definition nlmsghdr_bytes :: "nlmsghdr \<Rightarrow> bytes" where
  "nlmsghdr_bytes h =
     le_bytes 4 (nlmsg_len h) @ le_bytes 2 (nlmsg_type h) @ le_bytes 2 (nlmsg_flags h) @
     le_bytes 4 (nlmsg_seq h) @ le_bytes 4 (nlmsg_pid h)"

definition align4 :: "nat \<Rightarrow> nat" where
  "align4 n = (n + 3) div 4 * 4"

text \<open>\<open>NLMSG_ALIGN\<close> of an unsigned 32-bit length; \<open>NLMSG_PAYLOAD (h, 0)\<close>.\<close>

definition NLMSG_ALIGN :: "nat \<Rightarrow> nat" where
  "NLMSG_ALIGN n = u32 (n + 3) div 4 * 4"

definition NLMSG_PAYLOAD :: "nlmsghdr \<Rightarrow> nat" where
  "NLMSG_PAYLOAD h = u32_sub (nlmsg_len h) sizeof_nlmsghdr"

text \<open>A callback gets the header and the bytes of its message behind the header.\<close>

type_synonym 'u netlink_callback = "nlmsghdr \<Rightarrow> bytes \<Rightarrow> 'u \<Rightarrow> 'u outcome"

definition MapNetlinkErrno :: "errno \<Rightarrow> IpsecError \<Rightarrow> IpsecError" where
  "MapNetlinkErrno iError eDefault =
     (if iError = EACCES \<or> iError = EPERM then IPSEC_ERR_PERMISSION else eDefault)"

text \<open>The error numbers of Linux that the library distinguishes.\<close>

definition errno_of :: "int \<Rightarrow> errno" where
  "errno_of i =
     (if i = 1 then EPERM else if i = 4 then EINTR else if i = 11 then EAGAIN
      else if i = 13 then EACCES else if i = 115 then EINPROGRESS else EOTHER)"

definition ProcessNetlinkError :: "nlmsghdr \<Rightarrow> bytes \<Rightarrow> IpsecError" where
  "ProcessNetlinkError pHeader data =
     (if NLMSG_PAYLOAD pHeader < sizeof_nlmsgerr then IPSEC_ERR_NETLINK_PARSE
      else
        let iKernelError = - s32 (u32_at 0 data) in
        if iKernelError = 0 then IPSEC_OK
        else MapNetlinkErrno (errno_of iKernelError) IPSEC_ERR_NETLINK_RECV)"

subsection \<open>Waiting, sending and receiving\<close>

function WaitNetlinkData :: "int \<Rightarrow> Ipsec \<Rightarrow> Ipsec outcome" where
  "WaitNetlinkData iSocket w =
     (let (iResult, w1) = sys_poll IPSEC_NETLINK_TIMEOUT_MS w in
      case iResult of
        PollReady revents \<Rightarrow>
          if revents AND (POLLERR OR POLLHUP OR POLLNVAL) \<noteq> 0 then (w1, IPSEC_ERR_NETLINK_RECV)
          else if revents AND POLLIN \<noteq> 0 then (w1, IPSEC_OK)
          else (w1, IPSEC_ERR_NETLINK_RECV)
      | PollErrno e \<Rightarrow>
          if e = EINTR then WaitNetlinkData iSocket w1
          else (w1, MapNetlinkErrno e IPSEC_ERR_NETLINK_RECV)
      | _ \<Rightarrow> (w1, IPSEC_ERR_NETLINK_RECV))"
  by pat_completeness auto
termination
proof (relation "measure (\<lambda>(fd, w). length (os_trace w))", goal_cases)
  case (2 fd w x r w1 e)
  then show ?case using next_event_trace [of w]
    by (fastforce simp: sys_poll_def Let_def split: prod.splits option.splits os_event.splits)
qed simp

declare WaitNetlinkData.simps [simp del]

text \<open>The request is one datagram; what the kernel took of it is added to the entry of the
  socket in \<open>os_requests\<close>.\<close>

definition note_request :: "int \<Rightarrow> bytes \<Rightarrow> (int \<times> nat \<times> bytes) list \<Rightarrow> (int \<times> nat \<times> bytes) list" where
  "note_request fd bs rs =
     (if rs = [] then [] else butlast rs @ [(case last rs of (f, p, sent) \<Rightarrow> (f, p, sent @ bs))])"

definition sys_sendmsg :: "int \<Rightarrow> bytes \<Rightarrow> Ipsec \<Rightarrow> (errno + nat) \<times> Ipsec" where
  "sys_sendmsg fd data w =
     (let (ev, w) = next_event w in
      case ev of
        Some (Moved k) \<Rightarrow>
          (let bs = take k data
           in (Inr (length bs), w\<lparr>os_requests := note_request fd bs (os_requests w)\<rparr>))
      | Some (MoveErrno e) \<Rightarrow> (Inl e, w)
      | _ \<Rightarrow> (Inl EOTHER, w))"

text \<open>\<open>recvmsg\<close> with a buffer of \<open>n\<close> bytes: the sender, the bytes, and \<open>MSG_TRUNC\<close>.\<close>

definition sys_recvmsg :: "nat \<Rightarrow> Ipsec \<Rightarrow> (errno + nat \<times> bytes \<times> bool) \<times> Ipsec" where
  "sys_recvmsg n w =
     (let (ev, w) = next_event w in
      case ev of
        Some (Datagram nl_pid data) \<Rightarrow> (Inr (nl_pid, take n data, n < length data), w)
      | Some (MoveErrno e) \<Rightarrow> (Inl e, w)
      | _ \<Rightarrow> (Inl EOTHER, w))"

lemma sys_sendmsg_trace:
  "sys_sendmsg fd data w = (r, w') \<Longrightarrow>
   length (os_trace w') \<le> length (os_trace w) \<and>
   (r \<noteq> Inl EOTHER \<longrightarrow> length (os_trace w') < length (os_trace w))"
  using next_event_trace [of w]
  by (auto simp: sys_sendmsg_def Let_def split: prod.splits option.splits os_event.splits)

lemma sys_recvmsg_trace:
  "sys_recvmsg n w = (r, w') \<Longrightarrow>
   length (os_trace w') \<le> length (os_trace w) \<and>
   (r \<noteq> Inl EOTHER \<longrightarrow> length (os_trace w') < length (os_trace w))"
  using next_event_trace [of w]
  by (auto simp: sys_recvmsg_def Let_def split: prod.splits option.splits os_event.splits)

lemma WaitNetlinkData_trace:
  "WaitNetlinkData fd w = (w', e) \<Longrightarrow>
   length (os_trace w') \<le> length (os_trace w) \<and>
   (e = IPSEC_OK \<longrightarrow> length (os_trace w') < length (os_trace w))"
proof (induction fd w arbitrary: w' e rule: WaitNetlinkData.induct)
  case (1 fd w)
  obtain r w1 where p: "sys_poll IPSEC_NETLINK_TIMEOUT_MS w = (r, w1)" by fastforce
  have w1: "length (os_trace w1) \<le> length (os_trace w) \<and>
      (r \<noteq> PollErrno EOTHER \<longrightarrow> length (os_trace w1) < length (os_trace w))"
    using p next_event_trace [of w]
    by (auto simp: sys_poll_def Let_def split: prod.splits option.splits os_event.splits)
  show ?case
  proof (cases "r = PollErrno EINTR")
    case True
    with "1.prems" p have "WaitNetlinkData fd w1 = (w', e)" by (simp add: WaitNetlinkData.simps)
    from "1.IH" [OF p [symmetric] refl True refl this] w1 show ?thesis by auto
  next
    case False
    with "1.prems" p w1 show ?thesis
      by (auto simp: WaitNetlinkData.simps [of fd w] MapNetlinkErrno_def
          split: os_event.splits if_splits)
  qed
qed

function sendmsg_retry :: "int \<Rightarrow> bytes \<Rightarrow> Ipsec \<Rightarrow> (errno + nat) \<times> Ipsec" where
  "sendmsg_retry fd data w =
     (let (r, w1) = sys_sendmsg fd data w
      in if r = Inl EINTR then sendmsg_retry fd data w1 else (r, w1))"
  by pat_completeness auto
termination
  by (relation "measure (\<lambda>(fd, data, w). length (os_trace w))")
    (use sys_sendmsg_trace in \<open>fastforce dest: sym\<close>)+

function recvmsg_retry :: "Ipsec \<Rightarrow> (errno + nat \<times> bytes \<times> bool) \<times> Ipsec" where
  "recvmsg_retry w =
     (let (r, w1) = sys_recvmsg IPSEC_NETLINK_RECEIVE_LENGTH w
      in if r = Inl EINTR then recvmsg_retry w1 else (r, w1))"
  by pat_completeness auto
termination
  by (relation "measure (\<lambda>w. length (os_trace w))")
    (use sys_recvmsg_trace in \<open>fastforce dest: sym\<close>)+

declare sendmsg_retry.simps [simp del] recvmsg_retry.simps [simp del]

definition SendNetlinkRequest :: "int \<Rightarrow> nlmsghdr \<Rightarrow> bytes \<Rightarrow> Ipsec \<Rightarrow> Ipsec outcome" where
  "SendNetlinkRequest iSocket header aucPayload w =
     (let (lSentLength, w) =
            sendmsg_retry iSocket (take (nlmsg_len header) (nlmsghdr_bytes header @ aucPayload)) w
      in case lSentLength of
           Inl e \<Rightarrow> (w, MapNetlinkErrno e IPSEC_ERR_NETLINK_SEND)
         | Inr n \<Rightarrow> if n \<noteq> nlmsg_len header then (w, IPSEC_ERR_NETLINK_SEND) else (w, IPSEC_OK))"

subsection \<open>One datagram\<close>

text \<open>One message: the error, and whether the dump is complete.\<close>

definition netlink_message ::
  "nat \<Rightarrow> 'u netlink_callback option \<Rightarrow> nat \<Rightarrow> nlmsghdr \<Rightarrow> bytes \<Rightarrow> 'u \<Rightarrow> 'u \<times> IpsecError \<times> bool" where
  "netlink_message uiSequence pCallback uiRemainingLength h data u =
     (if nlmsg_len h < sizeof_nlmsghdr \<or> uiRemainingLength < nlmsg_len h
      then (u, IPSEC_ERR_NETLINK_PARSE, False)
      else if nlmsg_flags h AND NLM_F_DUMP_INTR \<noteq> 0 then (u, IPSEC_ERR_NETLINK_RECV, False)
      else if uiSequence \<noteq> nlmsg_seq h then (u, IPSEC_ERR_NETLINK_PARSE, False)
      else if nlmsg_type h = NLMSG_DONE then (u, IPSEC_OK, True)
      else if nlmsg_type h = NLMSG_ERROR then (u, ProcessNetlinkError h data, False)
      else case pCallback of
             Some f \<Rightarrow> (let (u, eError) = f h data u in (u, eError, False))
           | None \<Rightarrow> (u, IPSEC_OK, False))"

text \<open>The messages of a datagram; the result has the bytes left over.\<close>

function netlink_messages ::
  "nat \<Rightarrow> 'u netlink_callback option \<Rightarrow> bytes \<Rightarrow> 'u \<Rightarrow> 'u \<times> IpsecError \<times> bool \<times> bytes" where
  "netlink_messages uiSequence pCallback rest u =
     (if length rest < sizeof_nlmsghdr then (u, IPSEC_OK, False, rest)
      else
        let h = nlmsghdr_at rest;
            data = take (nlmsg_len h - sizeof_nlmsghdr) (drop sizeof_nlmsghdr rest);
            (u1, eError, bComplete) =
              netlink_message uiSequence pCallback (length rest) h data u
        in if eError = IPSEC_OK \<and> \<not> bComplete then
             let uiAlignedLength = NLMSG_ALIGN (nlmsg_len h) in
             if uiAlignedLength < nlmsg_len h \<or> length rest < uiAlignedLength
             then (u1, IPSEC_ERR_NETLINK_PARSE, False, rest)
             else netlink_messages uiSequence pCallback (drop uiAlignedLength rest) u1
           else (u1, eError, bComplete, rest))"
  by pat_completeness auto
termination
proof (relation "measure (\<lambda>(q, f, rest, u). length rest)", goal_cases)
  case (2 q f rest u h data x u1 y e c al)
  then have "sizeof_nlmsghdr \<le> nlmsg_len h"
    by (auto simp: netlink_message_def split: if_splits)
  with 2 show ?case by auto
qed simp

declare netlink_messages.simps [simp del]

definition receive_datagram ::
  "nat \<Rightarrow> 'u netlink_callback option \<Rightarrow> nat \<Rightarrow> bytes \<Rightarrow> bool \<Rightarrow> 'u \<Rightarrow> 'u \<times> IpsecError \<times> bool" where
  "receive_datagram uiSequence pCallback nl_pid data msg_trunc u =
     (if length data = 0 \<or> msg_trunc \<or> nl_pid \<noteq> 0 then (u, IPSEC_ERR_NETLINK_RECV, False)
      else if UINT32_MAX < length data then (u, IPSEC_ERR_NETLINK_PARSE, False)
      else
        let (u, eError, bComplete, rest) = netlink_messages uiSequence pCallback data u in
        (u, if eError = IPSEC_OK \<and> \<not> bComplete \<and> length rest \<noteq> 0
            then IPSEC_ERR_NETLINK_PARSE else eError, bComplete))"

subsection \<open>A dump\<close>

lemma recvmsg_retry_trace:
  "recvmsg_retry w = (r, w') \<Longrightarrow> length (os_trace w') \<le> length (os_trace w)"
proof (induction w arbitrary: r w' rule: recvmsg_retry.induct)
  case (1 w)
  then show ?case
    using sys_recvmsg_trace [of IPSEC_NETLINK_RECEIVE_LENGTH w]
    by (fastforce simp: recvmsg_retry.simps [of w] split: prod.splits if_splits)
qed

function dump_loop ::
  "int \<Rightarrow> nat \<Rightarrow> 'u netlink_callback option \<Rightarrow> nat \<Rightarrow> Ipsec \<times> 'u \<Rightarrow> (Ipsec \<times> 'u) outcome" where
  "dump_loop iSocket uiSequence pCallback uiDatagramCount (w, u) =
     (let (w1, eError) = WaitNetlinkData iSocket w in
      if eError \<noteq> IPSEC_OK then ((w1, u), eError)
      else
        let (r, w2) = recvmsg_retry w1;
            (u1, eError, bComplete) =
              (case r of
                 Inl e \<Rightarrow> (u, MapNetlinkErrno e IPSEC_ERR_NETLINK_RECV, False)
               | Inr (nl_pid, data, trunc) \<Rightarrow>
                   receive_datagram uiSequence pCallback nl_pid data trunc u);
            uiDatagramCount1 = u32 (uiDatagramCount + 1);
            eError =
              (if eError = IPSEC_OK \<and> \<not> bComplete \<and> 4096 < uiDatagramCount1
               then IPSEC_ERR_NETLINK_PARSE else eError)
        in if \<not> bComplete \<and> eError = IPSEC_OK
           then dump_loop iSocket uiSequence pCallback uiDatagramCount1 (w2, u1)
           else ((w2, u1), eError))"
  by pat_completeness auto
termination
proof (relation "measure (\<lambda>(s, q, f, n, w, u). length (os_trace w))", goal_cases)
  case (2 s q f n w u x w1 e y r w2)
  then have "length (os_trace w1) < length (os_trace w)" "length (os_trace w2) \<le> length (os_trace w1)"
    using WaitNetlinkData_trace [of s w w1 e] recvmsg_retry_trace [of w1 r w2] by simp_all
  then show ?case by simp
qed simp

declare dump_loop.simps [simp del]

definition ReceiveNetlinkDump ::
  "int \<Rightarrow> nat \<Rightarrow> 'u netlink_callback option \<Rightarrow> Ipsec \<times> 'u \<Rightarrow> (Ipsec \<times> 'u) outcome" where
  "ReceiveNetlinkDump iSocket uiSequence pCallback s = dump_loop iSocket uiSequence pCallback 0 s"

definition sys_netlink_socket :: "nat \<Rightarrow> Ipsec \<Rightarrow> (errno + int) \<times> Ipsec" where
  "sys_netlink_socket iProtocol w =
     (let (r, w) = sys_socket w in
      case r of
        Inl e \<Rightarrow> (Inl e, w)
      | Inr fd \<Rightarrow> (Inr fd, w\<lparr>os_requests := os_requests w @ [(fd, iProtocol, [])]\<rparr>))"

definition sys_bind_netlink :: "Ipsec \<Rightarrow> errno option \<times> Ipsec" where
  "sys_bind_netlink w =
     (let (ev, w) = next_event w in
      case ev of
        Some BindOk \<Rightarrow> (None, w)
      | Some (BindErrno e) \<Rightarrow> (Some e, w)
      | _ \<Rightarrow> (Some EOTHER, w))"

text \<open>\<open>getpid\<close> cannot fail; without an outcome it is 0.\<close>

definition sys_getpid :: "Ipsec \<Rightarrow> nat \<times> Ipsec" where
  "sys_getpid w =
     (let (ev, w) = next_event w in case ev of Some (ProcessId pid) \<Rightarrow> (pid, w) | _ \<Rightarrow> (0, w))"

definition dump_request :: "nat \<Rightarrow> nat \<Rightarrow> nat \<Rightarrow> nlmsghdr" where
  "dump_request usMessageType uiPayloadLength uiSequence =
     \<lparr>nlmsg_len = sizeof_nlmsghdr + uiPayloadLength, nlmsg_type = usMessageType,
      nlmsg_flags = NLM_F_REQUEST OR NLM_F_DUMP, nlmsg_seq = uiSequence, nlmsg_pid = 0\<rparr>"

definition run_dump ::
  "int \<Rightarrow> nat \<Rightarrow> bytes \<Rightarrow> 'u netlink_callback option \<Rightarrow> Ipsec \<times> 'u \<Rightarrow> (Ipsec \<times> 'u) outcome" where
  "run_dump iSocket usMessageType payload pCallback s =
     (let (w, u) = s;
          (ullNow, w) = GetIpsecMonotonicMilliseconds w;
          (pid, w) = sys_getpid w;
          uiSequence = u32 ullNow XOR u32 pid;
          (w, eError) =
            SendNetlinkRequest iSocket (dump_request usMessageType (length payload) uiSequence)
              (payload @ replicate (IPSEC_NETLINK_MAX_REQUEST_PAYLOAD - length payload) NUL) w
      in if eError = IPSEC_OK then ReceiveNetlinkDump iSocket uiSequence pCallback (w, u)
         else ((w, u), eError))"

definition ExecuteNetlinkDump ::
  "nat \<Rightarrow> nat \<Rightarrow> bytes option \<Rightarrow> nat \<Rightarrow> 'u netlink_callback option \<Rightarrow> Ipsec \<times> 'u
   \<Rightarrow> (Ipsec \<times> 'u) outcome" where
  "ExecuteNetlinkDump iProtocol usMessageType pvPayload uiPayloadLength pCallback s =
     (if pvPayload = None \<and> uiPayloadLength \<noteq> 0 \<or>
         IPSEC_NETLINK_MAX_REQUEST_PAYLOAD < uiPayloadLength
      then (s, IPSEC_ERR_INVALID_ARGUMENT)
      else
        let (w, u) = s; (r, w) = sys_netlink_socket iProtocol w in
        case r of
          Inl e \<Rightarrow> ((w, u), MapNetlinkErrno e IPSEC_ERR_NETLINK_SOCKET)
        | Inr iSocket \<Rightarrow>
            let (bound, w) = sys_bind_netlink w;
                ((w, u), eError) =
                  (case bound of
                     Some e \<Rightarrow> ((w, u), MapNetlinkErrno e IPSEC_ERR_NETLINK_SOCKET)
                   | None \<Rightarrow>
                       run_dump iSocket usMessageType
                         (take uiPayloadLength (case pvPayload of None \<Rightarrow> [] | Some p \<Rightarrow> p))
                         pCallback (w, u))
            in ((sys_close iSocket w, u), eError))"

subsection \<open>Attributes\<close>

text \<open>The macros \<open>RTA_OK\<close> and \<open>RTA_NEXT\<close>: the length left is signed and becomes negative when
  the padding of the last attribute is missing.  An attribute is its type and its payload;
  \<open>attribute_loop\<close> hands the attributes to \<open>f\<close> until one is refused.\<close>

abbreviation sizeof_rtattr :: nat where "sizeof_rtattr \<equiv> 4"

definition rta_len :: "bytes \<Rightarrow> nat" where "rta_len bs = u16_at 0 bs"
definition rta_type :: "bytes \<Rightarrow> nat" where "rta_type bs = u16_at 2 bs"

definition RTA_OK :: "bytes \<Rightarrow> int \<Rightarrow> bool" where
  "RTA_OK pAttribute len \<longleftrightarrow>
     int sizeof_rtattr \<le> len \<and> sizeof_rtattr \<le> rta_len pAttribute \<and> int (rta_len pAttribute) \<le> len"

definition RTA_PAYLOAD :: "bytes \<Rightarrow> bytes" where
  "RTA_PAYLOAD pAttribute = field_at sizeof_rtattr (rta_len pAttribute - sizeof_rtattr) pAttribute"

function attribute_loop ::
  "(nat \<Rightarrow> bytes \<Rightarrow> 'v \<Rightarrow> 'v outcome) \<Rightarrow> bytes \<Rightarrow> int \<Rightarrow> 'v \<Rightarrow> 'v \<times> IpsecError \<times> int" where
  "attribute_loop f pAttribute iAttributeLength v =
     (if RTA_OK pAttribute iAttributeLength then
        let (v1, eError) = f (rta_type pAttribute) (RTA_PAYLOAD pAttribute) v;
            aligned = align4 (rta_len pAttribute)
        in if eError = IPSEC_OK
           then attribute_loop f (drop aligned pAttribute) (iAttributeLength - int aligned) v1
           else (v1, eError, iAttributeLength - int aligned)
      else (v, IPSEC_OK, iAttributeLength))"
  by pat_completeness auto
termination
  by (relation "measure (\<lambda>(f, a, n, v). nat n)") (auto simp: RTA_OK_def align4_def)

declare attribute_loop.simps [simp del]

text \<open>The loop and the check that nothing is left over.\<close>

definition parse_attributes ::
  "(nat \<Rightarrow> bytes \<Rightarrow> 'v \<Rightarrow> 'v outcome) \<Rightarrow> bytes \<Rightarrow> 'v \<Rightarrow> 'v outcome" where
  "parse_attributes f attributes v =
     (let (v, eError, iAttributeLength) = attribute_loop f attributes (int (length attributes)) v
      in (v, if eError = IPSEC_OK \<and> iAttributeLength \<noteq> 0
             then IPSEC_ERR_NETLINK_PARSE else eError))"

subsection \<open>What the kernel sends\<close>

text \<open>A message of the kernel is a header and a payload; it is padded to four bytes.\<close>

definition nlmsg_bytes :: "nlmsghdr \<times> bytes \<Rightarrow> bytes" where
  "nlmsg_bytes m =
     nlmsghdr_bytes (fst m) @ snd m @ replicate (align4 (length (snd m)) - length (snd m)) NUL"

definition header_ok :: "nat \<Rightarrow> nlmsghdr \<times> bytes \<Rightarrow> bool" where
  "header_ok uiSequence m \<longleftrightarrow>
     nlmsg_len (fst m) = sizeof_nlmsghdr + length (snd m) \<and>
     nlmsg_type (fst m) \<le> UINT16_MAX \<and> nlmsg_flags (fst m) \<le> UINT16_MAX \<and>
     nlmsg_flags (fst m) AND NLM_F_DUMP_INTR = 0 \<and> nlmsg_seq (fst m) = uiSequence \<and>
     nlmsg_pid (fst m) \<le> UINT32_MAX"

definition data_message :: "nat \<Rightarrow> nlmsghdr \<times> bytes \<Rightarrow> bool" where
  "data_message uiSequence m \<longleftrightarrow>
     header_ok uiSequence m \<and> nlmsg_type (fst m) \<noteq> NLMSG_DONE \<and> nlmsg_type (fst m) \<noteq> NLMSG_ERROR"

definition done_message :: "nat \<Rightarrow> nlmsghdr \<times> bytes \<Rightarrow> bool" where
  "done_message uiSequence m \<longleftrightarrow> header_ok uiSequence m \<and> nlmsg_type (fst m) = NLMSG_DONE"

text \<open>A datagram arrives after \<open>j\<close> interrupted calls of \<open>poll\<close> and \<open>k\<close> of \<open>recvmsg\<close>.\<close>

definition arrival :: "nat \<times> nat \<Rightarrow> bytes \<Rightarrow> os_event list" where
  "arrival jk data =
     replicate (fst jk) (PollErrno EINTR) @ PollReady POLLIN #
     replicate (snd jk) (MoveErrno EINTR) @ [Datagram 0 data]"

type_synonym datagram = "(nat \<times> nat) \<times> (nlmsghdr \<times> bytes) list"

definition datagram_data :: "datagram \<Rightarrow> bytes" where
  "datagram_data d = concat (map nlmsg_bytes (snd d))"

definition arrivals :: "datagram list \<Rightarrow> os_event list" where
  "arrivals ds = concat (map (\<lambda>d. arrival (fst d) (datagram_data d)) ds)"

definition data_datagram :: "nat \<Rightarrow> datagram \<Rightarrow> bool" where
  "data_datagram uiSequence d \<longleftrightarrow>
     snd d \<noteq> [] \<and> (\<forall>m \<in> set (snd d). data_message uiSequence m) \<and>
     length (datagram_data d) \<le> IPSEC_NETLINK_RECEIVE_LENGTH"

definition dump_delivered :: "'u netlink_callback \<Rightarrow> (nlmsghdr \<times> bytes) list \<Rightarrow> 'u \<Rightarrow> 'u outcome" where
  "dump_delivered f ms = run_steps (map (\<lambda>(h, data). f h data) ms)"

lemma align4_props [simp]: "n \<le> align4 n" "align4 n < n + 4" "4 dvd n \<Longrightarrow> align4 n = n"
  by (auto simp: align4_def elim!: dvdE)

lemma align4_header: "align4 (16 + n) = 16 + align4 n"
  unfolding align4_def by presburger

lemma NLMSG_ALIGN_small: "n \<le> IPSEC_NETLINK_RECEIVE_LENGTH \<Longrightarrow> NLMSG_ALIGN n = align4 n"
  by (simp add: NLMSG_ALIGN_def align4_def)

lemma length_nlmsghdr_bytes [simp]: "length (nlmsghdr_bytes h) = 16"
  by (simp add: nlmsghdr_bytes_def)

lemma length_nlmsg_bytes [simp]: "length (nlmsg_bytes m) = 16 + align4 (length (snd m))"
  by (simp add: nlmsg_bytes_def)

lemma nlmsghdr_at_bytes:
  assumes "nlmsg_len h \<le> UINT32_MAX" and "nlmsg_type h \<le> UINT16_MAX" and "nlmsg_flags h \<le> UINT16_MAX"
    and "nlmsg_seq h \<le> UINT32_MAX" and "nlmsg_pid h \<le> UINT32_MAX"
  shows "nlmsghdr_at (nlmsghdr_bytes h @ rest) = h"
  using assms
  by (simp add: nlmsghdr_at_def nlmsghdr_bytes_def u32_at_def u16_at_def le_value_bytes)

lemma netlink_messages_step:
  assumes m: "header_ok uiSequence (h, data)" and q: "uiSequence \<le> UINT32_MAX"
    and len: "length (nlmsg_bytes (h, data) @ rest) \<le> IPSEC_NETLINK_RECEIVE_LENGTH"
  shows "netlink_messages uiSequence f (nlmsg_bytes (h, data) @ rest) u =
    (let (u1, eError, bComplete) =
           netlink_message uiSequence f (length (nlmsg_bytes (h, data) @ rest)) h data u
     in if eError = IPSEC_OK \<and> \<not> bComplete then netlink_messages uiSequence f rest u1
        else (u1, eError, bComplete, nlmsg_bytes (h, data) @ rest))"
proof -
  let ?bs = "nlmsg_bytes (h, data) @ rest"
  have n: "nlmsg_len h = 16 + length data" using m by (simp add: header_ok_def)
  have le: "16 + align4 (length data) + length rest \<le> 65536" using len by simp
  have small: "16 + length data \<le> 65536"
    using le align4_props(1) [of "length data"] by linarith
  have h: "nlmsghdr_at ?bs = h"
    using m q small n unfolding nlmsg_bytes_def fst_conv snd_conv append_assoc
    by (intro nlmsghdr_at_bytes) (simp_all add: header_ok_def)
  have data: "take (nlmsg_len h - sizeof_nlmsghdr) (drop sizeof_nlmsghdr ?bs) = data"
    by (simp add: n nlmsg_bytes_def)
  have al: "NLMSG_ALIGN (nlmsg_len h) = 16 + align4 (length data)"
    using small by (simp add: n NLMSG_ALIGN_small align4_header)
  have drop: "drop (NLMSG_ALIGN (nlmsg_len h)) ?bs = rest"
    by (simp add: al)
  have ok: "\<not> (NLMSG_ALIGN (nlmsg_len h) < nlmsg_len h \<or> length ?bs < NLMSG_ALIGN (nlmsg_len h))"
    unfolding al by (simp add: n not_less)
  have long: "\<not> length ?bs < sizeof_nlmsghdr" by simp
  show ?thesis
    by (subst netlink_messages.simps)
      (simp only: long h data Let_def ok drop if_False split: prod.split)
qed

lemma nlmsg_bytes_ge: "16 \<le> length (nlmsg_bytes m)"
  by simp

lemma dump_delivered_simps [simp]:
  "dump_delivered f [] u = (u, IPSEC_OK)"
  "dump_delivered f ((h, data) # ms) u = and_then (f h data u) (dump_delivered f ms)"
  by (simp_all add: dump_delivered_def)

lemma dump_delivered_append: "dump_delivered f (ms @ ns) u = and_then (dump_delivered f ms u) (dump_delivered f ns)"
  by (simp add: dump_delivered_def run_steps_append)

text \<open>The messages of a datagram reach the callback in order, up to the first it refuses.\<close>

lemma netlink_messages_deliver:
  assumes "\<forall>m \<in> set ms. data_message uiSequence m" and "uiSequence \<le> UINT32_MAX"
    and "length (concat (map nlmsg_bytes ms) @ rest) \<le> IPSEC_NETLINK_RECEIVE_LENGTH"
    and "dump_delivered f ms u = (u1, eError)"
  shows "if eError = IPSEC_OK
    then netlink_messages uiSequence (Some f) (concat (map nlmsg_bytes ms) @ rest) u =
         netlink_messages uiSequence (Some f) rest u1
    else \<exists>left. netlink_messages uiSequence (Some f) (concat (map nlmsg_bytes ms) @ rest) u =
         (u1, eError, False, left)"
  using assms
proof (induction ms arbitrary: u)
  case (Cons m ms)
  obtain h data where m: "m = (h, data)" by fastforce
  let ?tail = "concat (map nlmsg_bytes ms) @ rest"
  have ok: "header_ok uiSequence (h, data)" and t: "nlmsg_type h \<noteq> NLMSG_DONE" "nlmsg_type h \<noteq> NLMSG_ERROR"
    using Cons.prems(1) m by (simp_all add: data_message_def)
  have len: "length (nlmsg_bytes (h, data) @ ?tail) \<le> IPSEC_NETLINK_RECEIVE_LENGTH"
    using Cons.prems(3) m by simp
  obtain v e where f: "f h data u = (v, e)" by fastforce
  have fits: "\<not> length (nlmsg_bytes (h, data) @ ?tail) < nlmsg_len h"
    using ok align4_props(1) [of "length data"] unfolding header_ok_def by (auto simp del: align4_props)
  have msg: "netlink_message uiSequence (Some f) (length (nlmsg_bytes (h, data) @ ?tail)) h data u =
      (v, e, False)"
    using ok t f fits by (simp add: netlink_message_def header_ok_def)
  note step = netlink_messages_step [OF ok Cons.prems(2) len, of "Some f" u, unfolded msg]
  show ?case
  proof (cases "e = IPSEC_OK")
    case True
    then have d: "dump_delivered f ms v = (u1, eError)" using Cons.prems(4) f m by simp
    have "length ?tail \<le> IPSEC_NETLINK_RECEIVE_LENGTH" using len by simp
    from Cons.IH [OF _ Cons.prems(2) this d] Cons.prems(1) step True m show ?thesis by simp
  next
    case False
    then show ?thesis using step Cons.prems(4) f m by simp
  qed
qed simp

text \<open>A datagram of data messages is dump_delivered whole; in the last one the dump ends at the
  \<open>NLMSG_DONE\<close> message, whatever follows it.\<close>

lemma receive_data_datagram:
  assumes "data_datagram uiSequence d" and "uiSequence \<le> UINT32_MAX"
    and "dump_delivered f (snd d) u = (u1, eError)"
  shows "receive_datagram uiSequence (Some f) 0 (datagram_data d) False u = (u1, eError, False)"
proof -
  have ms: "\<forall>m \<in> set (snd d). data_message uiSequence m"
    and len: "length (concat (map nlmsg_bytes (snd d)) @ []) \<le> IPSEC_NETLINK_RECEIVE_LENGTH"
    using assms(1) by (simp_all add: data_datagram_def datagram_data_def)
  obtain m ms' where m: "snd d = m # ms'" using assms(1) by (cases "snd d") (simp_all add: data_datagram_def)
  have pos: "length (datagram_data d) \<noteq> 0"
    using nlmsg_bytes_ge [of m] by (auto simp: datagram_data_def m)
  have "netlink_messages uiSequence (Some f) [] u1 = (u1, IPSEC_OK, False, [])"
    by (simp add: netlink_messages.simps)
  with netlink_messages_deliver [OF ms assms(2) len assms(3)] pos len
  show ?thesis by (auto simp: receive_datagram_def datagram_data_def split: if_splits)
qed

lemma receive_last_datagram:
  assumes "\<forall>m \<in> set ms. data_message uiSequence m" and "done_message uiSequence m"
    and "uiSequence \<le> UINT32_MAX" and "dump_delivered f ms u = (u1, eError)"
    and len: "length (concat (map nlmsg_bytes ms) @ nlmsg_bytes m @ junk) \<le> IPSEC_NETLINK_RECEIVE_LENGTH"
  shows "receive_datagram uiSequence (Some f) 0 (concat (map nlmsg_bytes ms) @ nlmsg_bytes m @ junk)
    False u = (u1, eError, eError = IPSEC_OK)"
proof -
  let ?rest = "nlmsg_bytes m @ junk"
  obtain h data where m: "m = (h, data)" by fastforce
  have h: "header_ok uiSequence (h, data)" "nlmsg_type h = NLMSG_DONE"
    using assms(2) m by (simp_all add: done_message_def)
  have "length ?rest \<le> IPSEC_NETLINK_RECEIVE_LENGTH" using len by simp
  note step = netlink_messages_step [OF h(1) assms(3) this [unfolded m], of "Some f" u1]
  have "nlmsg_len h \<le> length ?rest"
    using h(1) align4_props(1) [of "length data"] by (simp add: header_ok_def m del: align4_props)
  then have "netlink_message uiSequence (Some f) (length (nlmsg_bytes (h, data) @ junk)) h data u1 =
      (u1, IPSEC_OK, True)"
    using h by (auto simp: netlink_message_def header_ok_def m)
  with step have fin: "netlink_messages uiSequence (Some f) ?rest u1 = (u1, IPSEC_OK, True, ?rest)"
    by (simp add: m)
  have pos: "length (concat (map nlmsg_bytes ms) @ ?rest) \<noteq> 0" by (simp add: m)
  from netlink_messages_deliver [OF assms(1,3) len assms(4)] fin pos len
  show ?thesis by (cases "eError = IPSEC_OK") (auto simp: receive_datagram_def)
qed

subsection \<open>The loop over datagrams\<close>

lemma WaitNetlinkData_arrival:
  "os_trace w = replicate j (PollErrno EINTR) @ PollReady POLLIN # evs \<Longrightarrow>
   \<exists>ws. WaitNetlinkData fd w = (w\<lparr>os_trace := evs, os_waits := ws\<rparr>, IPSEC_OK)"
proof (induction j arbitrary: w)
  case 0
  then show ?case
    by (simp add: WaitNetlinkData.simps [of fd w] sys_poll_def next_event_def) (rule exI, rule refl)
next
  case (Suc j)
  let ?w = "w\<lparr>os_trace := replicate j (PollErrno EINTR) @ PollReady POLLIN # evs,
    os_waits := os_waits w @ [IPSEC_NETLINK_TIMEOUT_MS]\<rparr>"
  have "WaitNetlinkData fd w = WaitNetlinkData fd ?w"
    using Suc.prems by (simp add: WaitNetlinkData.simps [of fd w] sys_poll_def next_event_def)
  with Suc.IH [of ?w] show ?case by simp
qed

lemma recvmsg_retry_arrival:
  assumes "length data \<le> IPSEC_NETLINK_RECEIVE_LENGTH"
  shows "os_trace w = replicate k (MoveErrno EINTR) @ Datagram pid data # evs \<Longrightarrow>
    recvmsg_retry w = (Inr (pid, data, False), w\<lparr>os_trace := evs\<rparr>)"
proof (induction k arbitrary: w)
  case 0
  then show ?case using assms
    by (simp add: recvmsg_retry.simps [of w] sys_recvmsg_def next_event_def)
next
  case (Suc k)
  let ?w = "w\<lparr>os_trace := replicate k (MoveErrno EINTR) @ Datagram pid data # evs\<rparr>"
  have "recvmsg_retry w = recvmsg_retry ?w"
    using Suc.prems by (simp add: recvmsg_retry.simps [of w] sys_recvmsg_def next_event_def)
  with Suc.IH [of ?w] show ?case by simp
qed

text \<open>The loop leaves everything but the trace and the waits alone.\<close>

lemma dump_loop_arrival:
  assumes "os_trace w = arrival jk data @ evs" and "length data \<le> IPSEC_NETLINK_RECEIVE_LENGTH"
    and r: "receive_datagram uiSequence f 0 data False u = (u1, eError, bComplete)" and "n < UINT32_MAX"
  shows "\<exists>ws. dump_loop fd uiSequence f n (w, u) =
    (if \<not> bComplete \<and> eError = IPSEC_OK \<and> n < 4096
     then dump_loop fd uiSequence f (n + 1) (w\<lparr>os_trace := evs, os_waits := ws\<rparr>, u1)
     else ((w\<lparr>os_trace := evs, os_waits := ws\<rparr>, u1),
           if \<not> bComplete \<and> eError = IPSEC_OK then IPSEC_ERR_NETLINK_PARSE else eError))"
proof -
  let ?evs = "replicate (snd jk) (MoveErrno EINTR) @ Datagram 0 data # evs"
  have "os_trace w = replicate (fst jk) (PollErrno EINTR) @ PollReady POLLIN # ?evs"
    using assms(1) by (simp add: arrival_def)
  from WaitNetlinkData_arrival [OF this] obtain ws where
    p: "WaitNetlinkData fd w = (w\<lparr>os_trace := ?evs, os_waits := ws\<rparr>, IPSEC_OK)" ..
  let ?w1 = "w\<lparr>os_trace := ?evs, os_waits := ws\<rparr>"
  have q: "recvmsg_retry ?w1 = (Inr (0, data, False), ?w1\<lparr>os_trace := evs\<rparr>)"
    by (rule recvmsg_retry_arrival [OF assms(2)]) simp
  have n: "u32 (n + 1) = n + 1" using assms(4) by simp
  have d: "dump_loop fd uiSequence f n (w, u) =
      (let e = (if eError = IPSEC_OK \<and> \<not> bComplete \<and> 4096 < n + 1 then IPSEC_ERR_NETLINK_PARSE
                else eError)
       in if \<not> bComplete \<and> e = IPSEC_OK
          then dump_loop fd uiSequence f (n + 1) (?w1\<lparr>os_trace := evs\<rparr>, u1)
          else ((?w1\<lparr>os_trace := evs\<rparr>, u1), e))"
    by (subst dump_loop.simps) (simp only: p q r n Let_def case_prod_conv sum.case if_False simp_thms)
  have w1: "?w1\<lparr>os_trace := evs\<rparr> = w\<lparr>os_trace := evs, os_waits := ws\<rparr>" by (cases w) simp
  show ?thesis by (rule exI [of _ ws]) (auto simp: d [unfolded w1])
qed

lemma dump_loop_delivers:
  assumes "os_trace w = arrivals ds @ arrival jk (concat (map nlmsg_bytes ms) @ nlmsg_bytes m @ junk) @ evs"
    and "\<forall>d \<in> set ds. data_datagram uiSequence d" and "uiSequence \<le> UINT32_MAX"
    and "\<forall>m \<in> set ms. data_message uiSequence m" and "done_message uiSequence m"
    and "length (concat (map nlmsg_bytes ms) @ nlmsg_bytes m @ junk) \<le> IPSEC_NETLINK_RECEIVE_LENGTH"
    and "length ds + n \<le> 4096"
    and "dump_delivered f (concat (map snd ds) @ ms) u = (u1, eError)"
  shows "\<exists>tr ws. dump_loop fd uiSequence (Some f) n (w, u) =
    ((w\<lparr>os_trace := tr, os_waits := ws\<rparr>, u1), eError)"
  using assms
proof (induction ds arbitrary: w u n)
  case Nil
  then have "receive_datagram uiSequence (Some f) 0
      (concat (map nlmsg_bytes ms) @ nlmsg_bytes m @ junk) False u = (u1, eError, eError = IPSEC_OK)"
    by (intro receive_last_datagram) simp_all
  from dump_loop_arrival [OF _ Nil.prems(6) this, of w jk evs n fd] Nil.prems(1,7)
  obtain ws where "dump_loop fd uiSequence (Some f) n (w, u) =
      ((w\<lparr>os_trace := evs, os_waits := ws\<rparr>, u1), eError)"
    by (cases "eError = IPSEC_OK") (auto simp: arrivals_def)
  then show ?case by blast
next
  case (Cons d ds)
  obtain v e where v: "dump_delivered f (snd d) u = (v, e)" by fastforce
  have d: "data_datagram uiSequence d" using Cons.prems(2) by simp
  have r: "receive_datagram uiSequence (Some f) 0 (datagram_data d) False u = (v, e, False)"
    by (rule receive_data_datagram [OF d Cons.prems(3) v])
  let ?evs = "arrivals ds @ arrival jk (concat (map nlmsg_bytes ms) @ nlmsg_bytes m @ junk) @ evs"
  have tr: "os_trace w = arrival (fst d) (datagram_data d) @ ?evs"
    using Cons.prems(1) by (simp add: arrivals_def)
  have len: "length (datagram_data d) \<le> IPSEC_NETLINK_RECEIVE_LENGTH"
    using d by (simp add: data_datagram_def)
  from dump_loop_arrival [OF tr len r, of n fd] Cons.prems(7) obtain ws where
    l: "dump_loop fd uiSequence (Some f) n (w, u) =
      (if e = IPSEC_OK then dump_loop fd uiSequence (Some f) (n + 1) (w\<lparr>os_trace := ?evs, os_waits := ws\<rparr>, v)
       else ((w\<lparr>os_trace := ?evs, os_waits := ws\<rparr>, v), e))"
    by (cases "e = IPSEC_OK") auto
  show ?case
  proof (cases "e = IPSEC_OK")
    case True
    let ?w = "w\<lparr>os_trace := ?evs, os_waits := ws\<rparr>"
    have "dump_delivered f (concat (map snd ds) @ ms) v = (u1, eError)"
      using Cons.prems(8) v True by (simp add: dump_delivered_append)
    moreover have "os_trace ?w = ?evs" by simp
    ultimately obtain tr' ws' where
      "dump_loop fd uiSequence (Some f) (n + 1) (?w, v) = ((?w\<lparr>os_trace := tr', os_waits := ws'\<rparr>, u1), eError)"
      using Cons.IH [of ?w "n + 1" v] Cons.prems(2-7) by fastforce
    then show ?thesis using l True by auto
  next
    case False
    then have "u1 = v" "eError = e" using Cons.prems(8) v by (simp_all add: dump_delivered_append)
    then show ?thesis using l False by auto
  qed
qed

subsection \<open>The whole dump\<close>

lemma xor_u32: "u32 a XOR u32 b \<le> UINT32_MAX"
proof -
  have *: "u32 n = take_bit 32 n" for n :: nat
    by (simp add: u32_def take_bit_eq_mod)
  have "u32 a XOR u32 b = take_bit 32 (a XOR b)" by (simp only: * take_bit_xor)
  also have "\<dots> < 2 ^ 32" by (rule take_bit_nat_less_exp)
  finally show ?thesis by simp
qed

text \<open>What waiting and receiving leave alone.\<close>

definition without_io :: "Ipsec \<Rightarrow> Ipsec" where
  "without_io w = w\<lparr>os_trace := [], os_waits := []\<rparr>"

lemma without_io_update [simp]:
  "without_io (w\<lparr>os_trace := tr\<rparr>) = without_io w"
  "without_io (w\<lparr>os_waits := ws\<rparr>) = without_io w"
  by (cases w; simp add: without_io_def)+

lemma without_io_fields:
  assumes "without_io w' = without_io w"
  shows "os_open w' = os_open w" and "os_requests w' = os_requests w" and "os_mem w' = os_mem w"
    and "os_log w' = os_log w" and "pLogCallback w' = pLogCallback w"
  using assms by (cases w; cases w'; simp add: without_io_def)+

lemma next_event_io: "without_io (snd (next_event w)) = without_io w"
  by (simp add: next_event_def split: list.split)

lemma sys_poll_io: "without_io (snd (sys_poll t w)) = without_io w"
  using next_event_io [of w]
  by (simp add: sys_poll_def case_prod_beta Let_def split: option.split os_event.split)

lemma sys_recvmsg_io: "without_io (snd (sys_recvmsg n w)) = without_io w"
  using next_event_io [of w]
  by (simp add: sys_recvmsg_def case_prod_beta Let_def split: option.split os_event.split)

lemma WaitNetlinkData_io: "without_io (fst (WaitNetlinkData fd w)) = without_io w"
proof (induction fd w rule: WaitNetlinkData.induct)
  case (1 fd w)
  obtain r w1 where p: "sys_poll IPSEC_NETLINK_TIMEOUT_MS w = (r, w1)" by fastforce
  have w1: "without_io w1 = without_io w" using sys_poll_io [of IPSEC_NETLINK_TIMEOUT_MS w] p by simp
  show ?case
  proof (cases "r = PollErrno EINTR")
    case True
    from "1.IH" [OF p [symmetric] refl True refl] w1 p True show ?thesis
      by (simp add: WaitNetlinkData.simps [of fd w])
  next
    case False
    then show ?thesis using p w1 by (auto simp: WaitNetlinkData.simps [of fd w] split: os_event.splits)
  qed
qed

lemma recvmsg_retry_io: "without_io (snd (recvmsg_retry w)) = without_io w"
proof (induction w rule: recvmsg_retry.induct)
  case (1 w)
  obtain r w1 where p: "sys_recvmsg IPSEC_NETLINK_RECEIVE_LENGTH w = (r, w1)" by fastforce
  have "without_io w1 = without_io w"
    using sys_recvmsg_io [of IPSEC_NETLINK_RECEIVE_LENGTH w] p by simp
  with "1.IH" [OF p [symmetric] refl] p show ?case by (auto simp: recvmsg_retry.simps [of w])
qed

lemma dump_loop_io: "without_io (fst (fst (dump_loop fd q f n (w, u)))) = without_io w"
proof (induction "length (os_trace w)" arbitrary: n w u rule: less_induct)
  case less
  obtain w1 e where w1: "WaitNetlinkData fd w = (w1, e)" by fastforce
  obtain r w2 where w2: "recvmsg_retry w1 = (r, w2)" by fastforce
  have io: "without_io w1 = without_io w" "without_io w2 = without_io w1"
    using WaitNetlinkData_io [of fd w] recvmsg_retry_io [of w1] w1 w2 by simp_all
  show ?case
  proof (cases "e = IPSEC_OK")
    case True
    obtain u1 e1 c where r: "(case r of Inl e \<Rightarrow> (u, MapNetlinkErrno e IPSEC_ERR_NETLINK_RECV, False)
        | Inr (nl_pid, data, trunc) \<Rightarrow> receive_datagram q f nl_pid data trunc u) = (u1, e1, c)"
      by (rule prod_cases3)
    have "length (os_trace w2) < length (os_trace w)"
      using WaitNetlinkData_trace [OF w1] recvmsg_retry_trace [OF w2] True by simp
    from less [OF this] io r True show ?thesis
      by (subst dump_loop.simps) (simp add: w1 w2 Let_def)
  next
    case False
    then show ?thesis using w1 io by (simp add: dump_loop.simps [of fd q f n w u])
  qed
qed

definition dump_sequence :: "nat \<Rightarrow> nat \<Rightarrow> nat \<Rightarrow> nat" where
  "dump_sequence tv_sec tv_nsec pid =
     u32 (u64 (u64 (tv_sec * 1000) + tv_nsec div 1000000)) XOR u32 pid"

text \<open>An answer: datagrams of data messages, and one with the messages \<open>ms\<close> and \<open>NLMSG_DONE\<close>.\<close>

definition last_datagram :: "(nlmsghdr \<times> bytes) list \<Rightarrow> nlmsghdr \<times> bytes \<Rightarrow> bytes \<Rightarrow> bytes" where
  "last_datagram ms m junk = concat (map nlmsg_bytes ms) @ nlmsg_bytes m @ junk"

definition kernel_answer ::
  "nat \<Rightarrow> datagram list \<Rightarrow> (nlmsghdr \<times> bytes) list \<Rightarrow> nlmsghdr \<times> bytes \<Rightarrow> bytes \<Rightarrow> bool" where
  "kernel_answer uiSequence ds ms m junk \<longleftrightarrow>
     length ds \<le> 4096 \<and> (\<forall>d \<in> set ds. data_datagram uiSequence d) \<and>
     (\<forall>m \<in> set ms. data_message uiSequence m) \<and> done_message uiSequence m \<and>
     length (last_datagram ms m junk) \<le> IPSEC_NETLINK_RECEIVE_LENGTH"

text \<open>The behaviour of the system in which the dump is answered: the calls before the answer
  succeed, \<open>sendmsg\<close> after \<open>k\<close> interruptions.\<close>

definition dump_trace ::
  "nat \<Rightarrow> nat \<times> nat \<times> nat \<Rightarrow> nat \<Rightarrow> nat \<Rightarrow> datagram list \<Rightarrow> nat \<times> nat \<Rightarrow> bytes \<Rightarrow> os_event list" where
  "dump_trace fd clk k n ds jk final =
     [SocketFd fd, BindOk, Clock (fst clk) (fst (snd clk)), ProcessId (snd (snd clk))] @
     replicate k (MoveErrno EINTR) @ [Moved n] @ arrivals ds @ arrival jk final"

abbreviation sequence_of :: "nat \<times> nat \<times> nat \<Rightarrow> nat" where
  "sequence_of clk \<equiv> dump_sequence (fst clk) (fst (snd clk)) (snd (snd clk))"

lemma sendmsg_retry_moved:
  "os_trace w = replicate k (MoveErrno EINTR) @ Moved n # evs \<Longrightarrow> length data \<le> n \<Longrightarrow>
   sendmsg_retry fd data w =
     (Inr (length data), w\<lparr>os_trace := evs, os_requests := note_request fd data (os_requests w)\<rparr>)"
proof (induction k arbitrary: w)
  case 0
  then show ?case
    by (simp add: sendmsg_retry.simps [of fd data w] sys_sendmsg_def next_event_def)
next
  case (Suc k)
  let ?w = "w\<lparr>os_trace := replicate k (MoveErrno EINTR) @ Moved n # evs\<rparr>"
  have "sendmsg_retry fd data w = sendmsg_retry fd data ?w"
    using Suc.prems by (simp add: sendmsg_retry.simps [of fd data w] sys_sendmsg_def next_event_def)
  with Suc.IH [of ?w] Suc.prems show ?case by simp
qed

lemma SendNetlinkRequest_moved:
  assumes "os_trace w = replicate k (MoveErrno EINTR) @ Moved n # evs"
    and "nlmsg_len h = sizeof_nlmsghdr + length payload" and "nlmsg_len h \<le> n"
  shows "SendNetlinkRequest fd h (payload @ pad) w =
    (w\<lparr>os_trace := evs, os_requests := note_request fd (nlmsghdr_bytes h @ payload) (os_requests w)\<rparr>,
     IPSEC_OK)"
proof -
  have t: "take (nlmsg_len h) (nlmsghdr_bytes h @ payload @ pad) = nlmsghdr_bytes h @ payload"
    using assms(2) by simp
  have "length (nlmsghdr_bytes h @ payload) \<le> n" using assms(2,3) by simp
  from sendmsg_retry_moved [OF assms(1) this, of fd] show ?thesis
    using assms(2) by (simp add: SendNetlinkRequest_def t)
qed

lemma run_dump_delivers:
  assumes tr: "os_trace w = Clock (fst clk) (fst (snd clk)) # ProcessId (snd (snd clk)) #
      replicate k (MoveErrno EINTR) @ Moved n # arrivals ds @ arrival jk (last_datagram ms m junk)"
    and ans: "kernel_answer (sequence_of clk) ds ms m junk"
    and n: "sizeof_nlmsghdr + length payload \<le> n"
    and d: "dump_delivered f (concat (map snd ds) @ ms) u = (u1, eError)"
  shows "\<exists>w1. run_dump fd type payload (Some f) (w, u) = ((w1, u1), eError) \<and>
    os_open w1 = os_open w \<and> os_mem w1 = os_mem w \<and> os_log w1 = os_log w \<and>
    pLogCallback w1 = pLogCallback w \<and>
    os_requests w1 = note_request fd (nlmsghdr_bytes (dump_request type (length payload)
      (sequence_of clk)) @ payload) (os_requests w)"
proof -
  let ?q = "sequence_of clk"
  let ?h = "dump_request type (length payload) ?q"
  let ?evs = "arrivals ds @ arrival jk (last_datagram ms m junk)"
  let ?w = "w\<lparr>os_trace := replicate k (MoveErrno EINTR) @ Moved n # ?evs\<rparr>"
  let ?w1 = "w\<lparr>os_trace := ?evs,
      os_requests := note_request fd (nlmsghdr_bytes ?h @ payload) (os_requests w)\<rparr>"
  have q: "?q \<le> UINT32_MAX" unfolding dump_sequence_def by (rule xor_u32)
  have send: "SendNetlinkRequest fd ?h (payload @ pad) ?w = (?w1, IPSEC_OK)" for pad
    using n by (subst SendNetlinkRequest_moved) (auto simp: dump_request_def)
  have "os_trace ?w1 = arrivals ds @ arrival jk (concat (map nlmsg_bytes ms) @ nlmsg_bytes m @ junk) @ []"
    by (simp add: last_datagram_def)
  from dump_loop_delivers [OF this, of ?q 0 f u u1 eError fd] ans q d obtain tr ws where
    l: "dump_loop fd ?q (Some f) 0 (?w1, u) = ((?w1\<lparr>os_trace := tr, os_waits := ws\<rparr>, u1), eError)"
    by (auto simp: kernel_answer_def last_datagram_def)
  have qe: "u32 (u64 (u64 (fst clk * 1000) + fst (snd clk) div 1000000)) XOR u32 (snd (snd clk)) = ?q"
    by (simp only: dump_sequence_def)
  have "run_dump fd type payload (Some f) (w, u) = dump_loop fd ?q (Some f) 0 (?w1, u)"
    using tr send
    by (simp add: run_dump_def GetIpsecMonotonicMilliseconds_def sys_getpid_def next_event_def
        ReceiveNetlinkDump_def qe Let_def)
  then show ?thesis using l by simp
qed

text \<open>The refinement of a dump: what it returns is what handing all data messages to the callback
  returns; one request was sent, and the descriptor is closed.\<close>

lemma ExecuteNetlinkDump_run:
  assumes tr: "os_trace w = dump_trace fd clk k n ds jk (last_datagram ms m junk)"
    and ans: "kernel_answer (sequence_of clk) ds ms m junk"
    and len: "length payload \<le> IPSEC_NETLINK_MAX_REQUEST_PAYLOAD"
    and n: "sizeof_nlmsghdr + length payload \<le> n" and fd: "int fd \<notin> set (os_open w)"
  shows "\<exists>w1. ExecuteNetlinkDump iProtocol type (Some payload) (length payload) (Some f) (w, u) =
      ((w1, fst (dump_delivered f (concat (map snd ds) @ ms) u)),
       snd (dump_delivered f (concat (map snd ds) @ ms) u)) \<and>
    os_open w1 = os_open w \<and> os_mem w1 = os_mem w \<and> os_log w1 = os_log w \<and>
    pLogCallback w1 = pLogCallback w \<and>
    os_requests w1 = os_requests w @ [(int fd, iProtocol,
      nlmsghdr_bytes (dump_request type (length payload) (sequence_of clk)) @ payload)]"
proof -
  obtain u1 e where d: "dump_delivered f (concat (map snd ds) @ ms) u = (u1, e)" by fastforce
  let ?evs = "Clock (fst clk) (fst (snd clk)) # ProcessId (snd (snd clk)) #
      replicate k (MoveErrno EINTR) @ Moved n # arrivals ds @ arrival jk (last_datagram ms m junk)"
  let ?w = "w\<lparr>os_open := int fd # os_open w,
      os_requests := os_requests w @ [(int fd, iProtocol, [])], os_trace := ?evs\<rparr>"
  have "os_trace ?w = ?evs" by simp
  from run_dump_delivers [OF this ans n d, of "int fd" type] obtain w1 where
    r: "run_dump (int fd) type payload (Some f) (?w, u) = ((w1, u1), e)" and
    w1: "os_open w1 = int fd # os_open w" "os_mem w1 = os_mem w" "os_log w1 = os_log w"
      "pLogCallback w1 = pLogCallback w"
      "os_requests w1 = note_request (int fd) (nlmsghdr_bytes (dump_request type (length payload)
        (sequence_of clk)) @ payload) (os_requests w @ [(int fd, iProtocol, [])])"
    by auto
  have "ExecuteNetlinkDump iProtocol type (Some payload) (length payload) (Some f) (w, u) =
      ((sys_close (int fd) w1, u1), e)"
    using tr len r fd
    by (simp add: ExecuteNetlinkDump_def sys_netlink_socket_def sys_socket_def sys_bind_netlink_def
        next_event_def dump_trace_def)
  then show ?thesis using d w1 fd by (auto simp: sys_close_def note_request_def)
qed

text \<open>Whatever the system does, no descriptor stays open, and at most one request, and not more
  than the request, is sent.\<close>

lemma note_request_snoc [simp]: "note_request fd bs (rs @ [(s, p, sent)]) = rs @ [(s, p, sent @ bs)]"
  by (simp add: note_request_def)

lemma sendmsg_retry_effect:
  "os_requests w = rs @ [(s, p, [])] \<Longrightarrow> sendmsg_retry fd data w = (r, w1) \<Longrightarrow>
   os_open w1 = os_open w \<and> (\<exists>k. os_requests w1 = rs @ [(s, p, take k data)])"
proof (induction fd data w arbitrary: r w1 rule: sendmsg_retry.induct)
  case (1 fd data w)
  obtain r2 w2 where p: "sys_sendmsg fd data w = (r2, w2)" by fastforce
  show ?case
  proof (cases "r2 = Inl EINTR")
    case True
    then have "os_requests w2 = os_requests w" "os_open w2 = os_open w"
      using p by (auto simp: sys_sendmsg_def next_event_def split: list.splits os_event.splits)
    with "1.IH" [OF p [symmetric] refl True] "1.prems" p True show ?thesis
      by (simp add: sendmsg_retry.simps [of fd data w])
  next
    case False
    then have "(r, w1) = (r2, w2)" using "1.prems" p by (simp add: sendmsg_retry.simps [of fd data w])
    moreover have "os_open w2 = os_open w \<and>
        (os_requests w2 = os_requests w \<or> (\<exists>k. os_requests w2 = note_request fd (take k data) (os_requests w)))"
      using p by (auto simp: sys_sendmsg_def next_event_def split: list.splits os_event.splits)
    ultimately show ?thesis using "1.prems"(1) by (auto intro: exI [of _ 0])
  qed
qed

lemma SendNetlinkRequest_padded:
  assumes "nlmsg_len h = sizeof_nlmsghdr + length payload"
  shows "SendNetlinkRequest fd h (payload @ pad) w =
    (let (r, w) = sendmsg_retry fd (nlmsghdr_bytes h @ payload) w
     in (w, case r of Inl e \<Rightarrow> MapNetlinkErrno e IPSEC_ERR_NETLINK_SEND
            | Inr n \<Rightarrow> if n \<noteq> nlmsg_len h then IPSEC_ERR_NETLINK_SEND else IPSEC_OK))"
proof -
  have "take (nlmsg_len h) (nlmsghdr_bytes h @ payload @ pad) = nlmsghdr_bytes h @ payload"
    using assms by simp
  then show ?thesis
    unfolding SendNetlinkRequest_def by (simp only: Let_def) (auto split: sum.split prod.split)
qed

lemma run_dump_effect:
  assumes "os_requests w = rs @ [(s, p, [])]" and "run_dump fd type payload f (w, u) = ((w1, u1), e)"
  shows "os_open w1 = os_open w \<and> (\<exists>k q. os_requests w1 = rs @ [(s, p, take k
    (nlmsghdr_bytes (dump_request type (length payload) q) @ payload))])"
proof -
  obtain now w2 where c: "GetIpsecMonotonicMilliseconds w = (now, w2)" by fastforce
  obtain pid w3 where g: "sys_getpid w2 = (pid, w3)" by fastforce
  let ?q = "u32 now XOR u32 pid"
  let ?h = "dump_request type (length payload) ?q"
  let ?pad = "replicate (IPSEC_NETLINK_MAX_REQUEST_PAYLOAD - length payload) NUL"
  have w3: "without_io w3 = without_io w"
    using c g next_event_io [of w] next_event_io [of w2]
    by (auto simp: GetIpsecMonotonicMilliseconds_def sys_getpid_def case_prod_beta Let_def
        split: option.splits os_event.splits)
  have len: "nlmsg_len ?h = sizeof_nlmsghdr + length payload" by (simp add: dump_request_def)
  obtain r w4 where sm: "sendmsg_retry fd (nlmsghdr_bytes ?h @ payload) w3 = (r, w4)" by fastforce
  have "os_requests w3 = rs @ [(s, p, [])]" using without_io_fields(2) [OF w3] assms(1) by simp
  from sendmsg_retry_effect [OF this sm] without_io_fields(1) [OF w3] obtain k where
    w4: "os_open w4 = os_open w" "os_requests w4 = rs @ [(s, p, take k (nlmsghdr_bytes ?h @ payload))]"
    by auto
  have "without_io w1 = without_io w4"
    using assms(2) c g sm dump_loop_io [of fd ?q f 0 w4 u]
    by (auto simp: run_dump_def SendNetlinkRequest_padded [OF len] ReceiveNetlinkDump_def Let_def
        split: if_splits)
  from without_io_fields(1,2) [OF this] w4 show ?thesis by metis
qed

lemma ExecuteNetlinkDump_effect:
  assumes "ExecuteNetlinkDump iProtocol type pvPayload n f (w, u) = ((w1, u1), e)"
  shows "set (os_open w1) \<subseteq> set (os_open w) \<and>
    (os_requests w1 = os_requests w \<or>
     (\<exists>fd k q. os_requests w1 = os_requests w @ [(fd, iProtocol, take k
        (nlmsghdr_bytes (dump_request type (length (take n (bytes_of pvPayload))) q) @
         take n (bytes_of pvPayload)))]))"
proof (cases "pvPayload = None \<and> n \<noteq> 0 \<or> IPSEC_NETLINK_MAX_REQUEST_PAYLOAD < n")
  case True
  then show ?thesis using assms by (auto simp: ExecuteNetlinkDump_def)
next
  case False
  obtain r w2 where s: "sys_netlink_socket iProtocol w = (r, w2)" by fastforce
  show ?thesis
  proof (cases r)
    case (Inl err)
    then have "os_open w2 = os_open w \<and> os_requests w2 = os_requests w"
      using s by (auto simp: sys_netlink_socket_def sys_socket_def next_event_def
          split: list.splits os_event.splits if_splits)
    then show ?thesis using assms False s Inl by (auto simp: ExecuteNetlinkDump_def)
  next
    case (Inr fd)
    then have w2: "os_open w2 = fd # os_open w" "os_requests w2 = os_requests w @ [(fd, iProtocol, [])]"
      using s by (auto simp: sys_netlink_socket_def sys_socket_def next_event_def
          split: list.splits os_event.splits if_splits)
    obtain b w3 where b: "sys_bind_netlink w2 = (b, w3)" by fastforce
    then have w3: "os_open w3 = os_open w2" "os_requests w3 = os_requests w2"
      by (auto simp: sys_bind_netlink_def next_event_def split: list.splits os_event.splits)
    let ?p = "take n (case pvPayload of None \<Rightarrow> [] | Some p \<Rightarrow> p)"
    obtain w4 u4 e4 where d: "run_dump fd type ?p f (w3, u) = ((w4, u4), e4)"
      by (metis prod.exhaust)
    have p: "bytes_of pvPayload = (case pvPayload of None \<Rightarrow> [] | Some p \<Rightarrow> p)"
      by (cases pvPayload) simp_all
    show ?thesis
    proof (cases b)
      case None
      have "w1 = sys_close fd w4"
        using assms False s Inr b None d by (auto simp: ExecuteNetlinkDump_def)
      with run_dump_effect [OF _ d, of "os_requests w" fd iProtocol] w2 w3 show ?thesis
        by (auto simp: sys_close_def p)
    next
      case (Some err)
      have "w1 = sys_close fd w3"
        using assms False s Inr b Some by (auto simp: ExecuteNetlinkDump_def)
      moreover have "os_requests w3 = os_requests w @ [(fd, iProtocol, take 0 [])]" using w2 w3 by simp
      ultimately show ?thesis using w2 w3 unfolding sys_close_def
        by (intro conjI disjI2 exI [of _ fd] exI [of _ 0]) auto
    qed
  qed
qed

text \<open>A dump changes nothing of the context: only the trace, the waits and the requests.\<close>

definition without_net :: "Ipsec \<Rightarrow> Ipsec" where
  "without_net w = w\<lparr>os_trace := [], os_waits := [], os_requests := []\<rparr>"

lemma without_net_update [simp]:
  "without_net (w\<lparr>os_trace := tr\<rparr>) = without_net w" "without_net (w\<lparr>os_waits := ws\<rparr>) = without_net w"
  "without_net (w\<lparr>os_requests := rs\<rparr>) = without_net w"
  by (cases w; simp add: without_net_def)+

lemma without_net_io: "without_io w' = without_io w \<Longrightarrow> without_net w' = without_net w"
  by (cases w; cases w') (simp add: without_io_def without_net_def)

lemma without_net_close: "without_net w' = without_net w \<Longrightarrow> without_net (sys_close fd w') = without_net (sys_close fd w)"
  by (cases w; cases w') (simp add: without_net_def sys_close_def)

lemma next_event_net: "next_event w = (ev, w') \<Longrightarrow> without_net w' = without_net w"
  by (auto simp: next_event_def split: list.splits)

lemma sendmsg_retry_net: "without_net (snd (sendmsg_retry fd data w)) = without_net w"
proof (induction fd data w rule: sendmsg_retry.induct)
  case (1 fd data w)
  obtain r w1 where p: "sys_sendmsg fd data w = (r, w1)" by fastforce
  then have "without_net w1 = without_net w"
    by (auto simp: sys_sendmsg_def next_event_def split: list.splits os_event.splits)
  then show ?case using 1 [OF p [symmetric] refl] p by (simp add: sendmsg_retry.simps [of fd data w])
qed

lemma run_dump_net: "without_net (fst (fst (run_dump fd type payload f (w, u)))) = without_net w"
proof -
  obtain now w2 where c: "GetIpsecMonotonicMilliseconds w = (now, w2)" by fastforce
  obtain pid w3 where g: "sys_getpid w2 = (pid, w3)" by fastforce
  have w3: "without_net w3 = without_net w"
    using c g next_event_io [of w] next_event_io [of w2]
    by (intro without_net_io) (auto simp: GetIpsecMonotonicMilliseconds_def sys_getpid_def case_prod_beta Let_def
        split: option.splits os_event.splits)
  have send: "without_net (fst (SendNetlinkRequest fd h d w3)) = without_net w" for h d
    using sendmsg_retry_net [of fd] w3 unfolding SendNetlinkRequest_def Let_def case_prod_beta
    by (simp del: take_append split: sum.split)
  have loop: "without_net (fst (fst (dump_loop fd q f 0 (v, u)))) = without_net v" for q v
    by (rule without_net_io) (rule dump_loop_io)
  show ?thesis using send loop
    by (auto simp: run_dump_def c g ReceiveNetlinkDump_def Let_def case_prod_beta)
qed

lemma ExecuteNetlinkDump_net:
  "without_net (fst (fst (ExecuteNetlinkDump iProtocol type pvPayload n f (w, u)))) = without_net w"
proof -
  obtain r w2 where s: "sys_netlink_socket iProtocol w = (r, w2)" by fastforce
  obtain b w3 where b: "sys_bind_netlink w2 = (b, w3)" by fastforce
  have w3: "without_net w3 = without_net w2"
    using b by (auto simp: sys_bind_netlink_def next_event_def split: list.splits os_event.splits)
  show ?thesis
  proof (cases r)
    case (Inl err)
    then have "without_net w2 = without_net w"
      using s by (auto simp: sys_netlink_socket_def sys_socket_def next_event_def
          split: list.splits os_event.splits if_splits)
    then show ?thesis using s Inl by (simp add: ExecuteNetlinkDump_def)
  next
    case (Inr fd)
    obtain ev w1 where n: "next_event w = (ev, w1)" by fastforce
    have fd: "fd \<notin> set (os_open w1)" "w2 = w1\<lparr>os_open := fd # os_open w1, os_requests := os_requests w1 @ [(fd, iProtocol, [])]\<rparr>"
      using s Inr n by (auto simp: sys_netlink_socket_def sys_socket_def split: option.splits os_event.splits if_splits)
    have "sys_close fd w2 = w1\<lparr>os_requests := os_requests w2\<rparr>"
      using fd by (simp add: sys_close_def)
    then have cl: "without_net (sys_close fd w2) = without_net w"
      using next_event_net [OF n] by simp
    have run: "without_net (fst (fst (run_dump fd type p f (w3, u)))) = without_net w2" for p
      using run_dump_net w3 by (rule trans)
    have res: "without_net (sys_close fd v) = without_net w" if "without_net v = without_net w2" for v
      using without_net_close [OF that, of fd] cl by simp
    show ?thesis
    proof (cases "pvPayload = None \<and> n \<noteq> 0 \<or> IPSEC_NETLINK_MAX_REQUEST_PAYLOAD < n")
      case True
      then show ?thesis by (auto simp: ExecuteNetlinkDump_def)
    next
      case False
      let ?p = "take n (case pvPayload of None \<Rightarrow> [] | Some p \<Rightarrow> p)"
      obtain w4 u4 e4 where d: "run_dump fd type ?p f (w3, u) = ((w4, u4), e4)"
        by (metis prod.exhaust)
      have "fst (fst (ExecuteNetlinkDump iProtocol type pvPayload n f (w, u))) =
          sys_close fd (case b of None \<Rightarrow> w4 | Some _ \<Rightarrow> w3)"
        using False s b Inr d by (cases b) (auto simp: ExecuteNetlinkDump_def)
      then show ?thesis using res [OF w3] res [of w4] run [of ?p] d by (simp split: option.split)
    qed
  qed
qed

subsection \<open>Encoded attributes\<close>

definition rta_bytes :: "nat \<times> bytes \<Rightarrow> bytes" where
  "rta_bytes a =
     le_bytes 2 (sizeof_rtattr + length (snd a)) @ le_bytes 2 (fst a) @ snd a @
     replicate (align4 (length (snd a)) - length (snd a)) NUL"

definition attribute_ok :: "nat \<times> bytes \<Rightarrow> bool" where
  "attribute_ok a \<longleftrightarrow> fst a \<le> UINT16_MAX \<and> sizeof_rtattr + length (snd a) \<le> UINT16_MAX"

lemma length_rta_bytes [simp]: "length (rta_bytes a) = 4 + align4 (length (snd a))"
  by (simp add: rta_bytes_def)

lemma rta_at_bytes:
  assumes "attribute_ok a"
  shows "rta_len (rta_bytes a @ rest) = 4 + length (snd a)"
    and "rta_type (rta_bytes a @ rest) = fst a"
    and "RTA_PAYLOAD (rta_bytes a @ rest) = snd a"
proof -
  show len: "rta_len (rta_bytes a @ rest) = 4 + length (snd a)"
    using assms by (simp add: rta_len_def rta_bytes_def attribute_ok_def u16_at_def le_value_bytes)
  show "rta_type (rta_bytes a @ rest) = fst a"
    using assms by (simp add: rta_type_def rta_bytes_def attribute_ok_def u16_at_def le_value_bytes)
  show "RTA_PAYLOAD (rta_bytes a @ rest) = snd a"
    unfolding RTA_PAYLOAD_def len by (simp add: rta_bytes_def)
qed

lemma align4_rta: "align4 (4 + n) = 4 + align4 n"
  unfolding align4_def by presburger

lemma attribute_loop_bytes:
  assumes "\<forall>a \<in> set as. attribute_ok a"
    and "n = int (length (concat (map rta_bytes as)))"
    and "run_steps (map (\<lambda>(t, data). f t data) as) v = (v1, IPSEC_OK)"
  shows "attribute_loop f (concat (map rta_bytes as)) n v = (v1, IPSEC_OK, 0)"
  using assms
proof (induction as arbitrary: n v)
  case Nil
  then show ?case by (simp add: attribute_loop.simps RTA_OK_def)
next
  case (Cons a as)
  let ?rest = "concat (map rta_bytes as)"
  have a: "attribute_ok a" using Cons.prems(1) by simp
  note at = rta_at_bytes [OF a, of ?rest]
  obtain v2 where f: "f (fst a) (snd a) v = (v2, IPSEC_OK)"
    and r: "run_steps (map (\<lambda>(t, data). f t data) as) v2 = (v1, IPSEC_OK)"
    using Cons.prems(3) by (cases a) (auto simp: and_then_ok)
  have n: "n = 4 + int (align4 (length (snd a))) + int (length ?rest)"
    using Cons.prems(2) by simp
  have ok: "RTA_OK (rta_bytes a @ ?rest) n"
    unfolding RTA_OK_def at n using align4_props(1) [of "length (snd a)"] by linarith
  have d: "drop (align4 (rta_len (rta_bytes a @ ?rest))) (rta_bytes a @ ?rest) = ?rest"
    unfolding at align4_rta by simp
  have n': "n - int (align4 (rta_len (rta_bytes a @ ?rest))) = int (length ?rest)"
    unfolding at align4_rta n by simp
  have "attribute_loop f (rta_bytes a @ ?rest) n v = attribute_loop f ?rest (int (length ?rest)) v2"
    by (subst attribute_loop.simps) (simp only: ok at(2,3) f d n' Let_def case_prod_conv simp_thms if_True)
  with Cons.IH [OF _ refl r] Cons.prems(1) show ?case by simp
qed

lemma parse_attributes_bytes:
  assumes "\<forall>a \<in> set as. attribute_ok a"
    and "run_steps (map (\<lambda>(t, data). f t data) as) v = (v1, IPSEC_OK)"
  shows "parse_attributes f (concat (map rta_bytes as)) v = (v1, IPSEC_OK)"
  using attribute_loop_bytes [OF assms(1) refl assms(2)] by (simp add: parse_attributes_def)

subsection \<open>Addresses of the kernel as text\<close>

abbreviation AF_UNSPEC :: nat where "AF_UNSPEC \<equiv> 0"
abbreviation AF_INET :: nat where "AF_INET \<equiv> 2"
abbreviation AF_INET6 :: nat where "AF_INET6 \<equiv> 10"

text \<open>\<open>inet_ntop\<close> into an array; NULL when the text does not fit or the family is another.\<close>

definition inet_text :: "nat \<Rightarrow> bytes \<Rightarrow> string option" where
  "inet_text family addr =
     (if family = AF_INET then Some (inet_ntop4 (take 4 addr))
      else if family = AF_INET6 then Some (inet_ntop6 (take 16 addr)) else None)"

definition inet_ntop :: "nat \<Rightarrow> bytes \<Rightarrow> cbuf \<Rightarrow> cbuf option" where
  "inet_ntop family addr buf =
     (case inet_text family addr of
        None \<Rightarrow> None
      | Some t \<Rightarrow> if length t < length buf then Some (buf_write buf 0 (t @ [NUL])) else None)"

datatype IpsecAddressFamily =
  IPSEC_ADDRESS_FAMILY_UNSPECIFIED | IPSEC_ADDRESS_FAMILY_IPV4 | IPSEC_ADDRESS_FAMILY_IPV6

definition address_family :: "nat \<Rightarrow> IpsecAddressFamily" where
  "address_family family =
     (if family = AF_INET then IPSEC_ADDRESS_FAMILY_IPV4
      else if family = AF_INET6 then IPSEC_ADDRESS_FAMILY_IPV6
      else IPSEC_ADDRESS_FAMILY_UNSPECIFIED)"

subsection \<open>Properties\<close>

text \<open>C35: A dump hands the messages of the kernel to the callback in order, once each, and its result
  is the result of the callback.  When the calls before the answer succeed and the kernel answers
  with at most 4096 datagrams of messages of this request and a last one that holds \<open>NLMSG_DONE\<close>
  (whatever follows it), then, over interruptions of \<open>poll\<close>, \<open>recvmsg\<close> and \<open>sendmsg\<close>, the
  dump ends with the user data and the error that processing the concatenated messages gives, up
  to the first message the callback refuses.  One request with the sequence number of the clock and
  the process was sent on a socket of the protocol, and the socket is closed.\<close>

theorem ExecuteNetlinkDump_delivers:
  assumes "os_trace w = dump_trace fd clk k n ds jk (last_datagram ms m junk)"
    and "kernel_answer (sequence_of clk) ds ms m junk"
    and "length payload \<le> IPSEC_NETLINK_MAX_REQUEST_PAYLOAD"
    and "sizeof_nlmsghdr + length payload \<le> n" and "int fd \<notin> set (os_open w)"
  shows "\<exists>w1. ExecuteNetlinkDump iProtocol type (Some payload) (length payload) (Some f) (w, u) =
      ((w1, fst (dump_delivered f (concat (map snd ds) @ ms) u)),
       snd (dump_delivered f (concat (map snd ds) @ ms) u)) \<and>
    os_open w1 = os_open w \<and>
    os_requests w1 = os_requests w @ [(int fd, iProtocol,
      nlmsghdr_bytes (dump_request type (length payload) (sequence_of clk)) @ payload)]"
  using ExecuteNetlinkDump_run [OF assms, of iProtocol type f u] by auto

definition sample_header :: "nat \<Rightarrow> bytes \<Rightarrow> nlmsghdr \<times> bytes" where
  "sample_header type data =
     (\<lparr>nlmsg_len = 16 + length data, nlmsg_type = type, nlmsg_flags = 2, nlmsg_seq = 0, nlmsg_pid = 0\<rparr>, data)"

lemma sample_answer:
  assumes "length data \<le> 65000" and "type \<le> UINT16_MAX" and "type \<noteq> NLMSG_DONE" and "type \<noteq> NLMSG_ERROR"
  shows "kernel_answer (sequence_of (0, 0, 0)) [] [sample_header type data] (sample_header NLMSG_DONE []) []"
  using assms align4_props(2) [of "length data"]
  by (simp add: kernel_answer_def data_message_def done_message_def header_ok_def sample_header_def
      last_datagram_def dump_sequence_def) (simp add: align4_def u32_def)

theorem ExecuteNetlinkDump_delivers_witness:
  "\<exists>w1. ExecuteNetlinkDump 6 18 (Some []) 0 (Some (\<lambda>h data u. (u @ [data], IPSEC_OK)))
      (sample_world [] (dump_trace 7 (0, 0, 0) 2 16 [] (1, 0)
        (last_datagram [sample_header 16 ''abc''] (sample_header NLMSG_DONE []) [])), [])
    = ((w1, [''abc'']), IPSEC_OK)"
proof -
  let ?w = "sample_world [] (dump_trace 7 (0, 0, 0) 2 16 [] (1, 0)
      (last_datagram [sample_header 16 ''abc''] (sample_header NLMSG_DONE []) []))"
  show ?thesis
    using ExecuteNetlinkDump_delivers [of ?w 7 "(0, 0, 0)" 2 16 "[]" "(1, 0)" "[sample_header 16 ''abc'']"
        "sample_header NLMSG_DONE []" "[]" "[]" 6 18 "\<lambda>h data u. (u @ [data], IPSEC_OK)" "[]"]
      sample_answer [of "''abc''" 16]
    by (auto simp: sample_world_def sample_header_def)
qed

text \<open>C36: Whatever the system and the callback do, a dump leaves no descriptor open that was not
  open before, and it sends at most one request: of the bytes of the request, with the flags of a
  dump, a prefix reached the kernel.\<close>

theorem ExecuteNetlinkDump_closes:
  "let ((w1, u1), eError) = ExecuteNetlinkDump iProtocol type pvPayload n f (w, u);
       payload = take n (bytes_of pvPayload)
   in set (os_open w1) \<subseteq> set (os_open w) \<and>
      (os_requests w1 = os_requests w \<or>
       (\<exists>fd k q. os_requests w1 = os_requests w @
          [(fd, iProtocol, take k (nlmsghdr_bytes (dump_request type (length payload) q) @ payload))]))"
proof -
  obtain w1 u1 e where r: "ExecuteNetlinkDump iProtocol type pvPayload n f (w, u) = ((w1, u1), e)"
    by (metis prod.exhaust)
  show ?thesis using ExecuteNetlinkDump_effect [OF r] by (simp add: r)
qed

end
