(* ===== verification/ViciLists.thy ===== *)
theory ViciLists
  imports ViciConnection
begin

section \<open>Collecting lists from VICI messages\<close>

text \<open>
  The collectors of \<open>vici_connection.c\<close>, \<open>vici_algorithm.c\<close> and \<open>vici_stats.c\<close>: callbacks
  of the message parser that fill records of fixed-size text arrays and grow an array of
  them.  A pointer to the newest item (\<open>pCurrent\<close>) is a flag, because it is set when an item
  is appended and always names the last one.  The allocator is a predicate on the size of
  the request, as for the buffers: the requests of one collector only grow.

  Records are updated by the functions below, from the selector and the update function of
  the field.
\<close>

definition copy_to ::
  "('r \<Rightarrow> cbuf) \<Rightarrow> ((cbuf \<Rightarrow> cbuf) \<Rightarrow> 'r \<Rightarrow> 'r) \<Rightarrow> bytes option \<Rightarrow> 'r \<Rightarrow> 'r outcome" where
  "copy_to get upd v r =
     (let (buf, eError) = CopyIpsecString (get r) v in (upd (\<lambda>_. buf) r, eError))"

definition append_to ::
  "('r \<Rightarrow> cbuf) \<Rightarrow> ((cbuf \<Rightarrow> cbuf) \<Rightarrow> 'r \<Rightarrow> 'r) \<Rightarrow> string \<Rightarrow> bytes option \<Rightarrow> 'r \<Rightarrow> 'r outcome" where
  "append_to get upd sep v r =
     (let (buf, eError) = AppendIpsecText (get r) v sep in (upd (\<lambda>_. buf) r, eError))"

definition store_to ::
  "(('a \<Rightarrow> 'a) \<Rightarrow> 'r \<Rightarrow> 'r) \<Rightarrow> IpsecError + 'a \<Rightarrow> 'r \<Rightarrow> 'r outcome" where
  "store_to upd v r = (case v of Inl e \<Rightarrow> (r, e) | Inr x \<Rightarrow> (upd (\<lambda>_. x) r, IPSEC_OK))"

text \<open>Growing an array by one zeroed item: \<open>AppendConnectionInfo\<close>, \<open>AppendIkeSa\<close>,
  \<open>AppendChildSa\<close> and the first half of \<open>AppendAlgorithm\<close> are the same code.\<close>

definition grow_array :: "(nat \<Rightarrow> bool) \<Rightarrow> nat \<Rightarrow> 'a \<Rightarrow> 'a list \<Rightarrow> 'a list outcome" where
  "grow_array mem zItemSize zero items =
     (if length items = UINT32_MAX then (items, IPSEC_ERR_NO_MEMORY)
      else case CalculateIpsecArraySize (length items + 1) zItemSize of
             None \<Rightarrow> (items, IPSEC_ERR_NO_MEMORY)
           | Some zAllocationSize \<Rightarrow>
               if mem zAllocationSize then (items @ [zero], IPSEC_OK)
               else (items, IPSEC_ERR_NO_MEMORY))"

definition on_last :: "('a \<Rightarrow> 'a outcome) \<Rightarrow> 'a list \<Rightarrow> 'a list outcome" where
  "on_last f items = (let (x, eError) = f (last items) in (butlast items @ [x], eError))"

text \<open>The path of section names, \<open>char aacSections[32][64]\<close>.\<close>

type_synonym section_path = "cbuf list"

definition empty_path :: section_path where
  "empty_path = replicate VICI_MAX_SECTION_DEPTH (replicate IPSEC_NAME_LENGTH NUL)"

definition enter_section :: "ViciElement \<Rightarrow> section_path \<Rightarrow> section_path outcome" where
  "enter_section el path =
     (let uiIndex = u32_sub (el_uiDepth el) 1;
          (buf, eError) = CopyIpsecString (path ! uiIndex) (el_pucName el)
      in (path[uiIndex := buf], eError))"

definition leave_section :: "ViciElement \<Rightarrow> section_path \<Rightarrow> section_path outcome" where
  "leave_section el path =
     (if 0 < el_uiDepth el \<and> el_uiDepth el \<le> VICI_MAX_SECTION_DEPTH
      then (path[el_uiDepth el - 1 := (path ! (el_uiDepth el - 1))[0 := NUL]], IPSEC_OK)
      else (path, IPSEC_ERR_VICI_PROTOCOL))"

definition path_wf :: "section_path \<Rightarrow> bool" where
  "path_wf path \<longleftrightarrow> length path = VICI_MAX_SECTION_DEPTH \<and>
     (\<forall>b \<in> set path. terminated IPSEC_NAME_LENGTH b)"

text \<open>At depth \<open>d\<close> of a message only the first \<open>d\<close> entries of the path are in use.\<close>

definition path_at :: "nat \<Rightarrow> section_path \<Rightarrow> bool" where
  "path_at d path \<longleftrightarrow> path_wf path \<and> (\<forall>i < VICI_MAX_SECTION_DEPTH. d \<le> i \<longrightarrow> cstr (path ! i) = [])"

lemma empty_path_at: "path_at 0 empty_path"
  by (auto simp: path_at_def path_wf_def empty_path_def)

lemma path_nth: "path_wf path \<Longrightarrow> i < VICI_MAX_SECTION_DEPTH \<Longrightarrow> terminated IPSEC_NAME_LENGTH (path ! i)"
  by (simp add: path_wf_def)

lemma CopyIpsecString_wf:
  "terminated n dst \<Longrightarrow> terminated n (fst (CopyIpsecString dst v))"
  using CopyIpsecString_terminated [of dst v "fst (CopyIpsecString dst v)" "snd (CopyIpsecString dst v)"]
  by (cases "length dst = 0") (auto simp: terminated_def)

lemma AppendIpsecText_wf:
  "terminated n dst \<Longrightarrow> n \<le> SIZE_MAX \<Longrightarrow> terminated n (fst (AppendIpsecText dst v sep))"
  using AppendIpsecText_terminated [of n dst v sep "fst (AppendIpsecText dst v sep)"
      "snd (AppendIpsecText dst v sep)"] by simp

lemma terminated_clear: "terminated n b \<Longrightarrow> terminated n (b[0 := NUL])"
  by (cases b) (auto simp: terminated_def)

lemma cstr_clear [simp]: "cstr (b[0 := NUL]) = []"
  by (cases b) (simp_all add: cstr_def)

lemma path_wf_update: "path_wf path \<Longrightarrow> terminated IPSEC_NAME_LENGTH b \<Longrightarrow> path_wf (path[i := b])"
  by (auto simp: path_wf_def dest!: set_update_subset_insert [THEN subsetD])

lemma enter_section_wf:
  assumes "path_wf path"
  shows "path_wf (fst (enter_section el path))"
proof (cases "u32_sub (el_uiDepth el) 1 < VICI_MAX_SECTION_DEPTH")
  case True
  then have "path_wf (path[u32_sub (el_uiDepth el) 1 :=
      fst (CopyIpsecString (path ! u32_sub (el_uiDepth el) 1) (el_pucName el))])"
    using assms by (intro path_wf_update CopyIpsecString_wf path_nth)
  then show ?thesis by (simp add: enter_section_def Let_def case_prod_beta)
next
  case False
  then show ?thesis
    using assms by (simp add: enter_section_def Let_def case_prod_beta list_update_beyond path_wf_def)
qed

lemma leave_section_wf: "path_wf path \<Longrightarrow> path_wf (fst (leave_section el path))"
  unfolding leave_section_def
  by (cases "0 < el_uiDepth el \<and> el_uiDepth el \<le> VICI_MAX_SECTION_DEPTH")
    (auto intro!: path_wf_update terminated_clear path_nth)

text \<open>In a message, entering and leaving sections keeps the path in step with the depth.\<close>

lemma enter_section_at:
  assumes "path_at d path" and "d < VICI_MAX_SECTION_DEPTH" and "el_uiDepth el = Suc d"
  shows "path_at (Suc d) (fst (enter_section el path))"
proof -
  have i: "u32_sub (el_uiDepth el) 1 = d" using assms by simp
  have "path_wf (fst (enter_section el path))" using assms enter_section_wf by (simp add: path_at_def)
  moreover have "fst (enter_section el path) ! k = path ! k" if "Suc d \<le> k" for k
    using that by (simp add: enter_section_def Let_def case_prod_beta i [simplified])
  ultimately show ?thesis using assms(1) by (auto simp: path_at_def)
qed

lemma leave_section_at:
  assumes "path_at (Suc d) path" and "d < VICI_MAX_SECTION_DEPTH" and "el_uiDepth el = Suc d"
  shows "path_at d (fst (leave_section el path))" and "snd (leave_section el path) = IPSEC_OK"
proof -
  have len: "length path = VICI_MAX_SECTION_DEPTH" using assms by (simp add: path_at_def path_wf_def)
  have eq: "leave_section el path = (path[d := (path ! d)[0 := NUL]], IPSEC_OK)"
    using assms by (simp add: leave_section_def)
  show "snd (leave_section el path) = IPSEC_OK" by (simp add: eq)
  have "path_wf (fst (leave_section el path))" using assms leave_section_wf by (simp add: path_at_def)
  then show "path_at d (fst (leave_section el path))"
    using assms(1) len by (auto simp: path_at_def eq nth_list_update Suc_le_eq le_less)
qed

subsection \<open>Connections (\<open>ipsec/vici/vici_connection.c\<close>)\<close>

record IpsecConnectionInfo =
  ci_acName :: cbuf
  ci_acLocalAddresses :: cbuf
  ci_acRemoteAddresses :: cbuf
  ci_acLocalId :: cbuf
  ci_acRemoteId :: cbuf
  ci_acChildNames :: cbuf
  ci_ullRekeyTimeMs :: nat
  ci_ullReauthTimeMs :: nat

abbreviation sizeof_IpsecConnectionInfo :: nat where "sizeof_IpsecConnectionInfo \<equiv> 1872"

definition zero_connection_info :: IpsecConnectionInfo where
  "zero_connection_info =
     \<lparr>ci_acName = replicate IPSEC_NAME_LENGTH NUL,
      ci_acLocalAddresses = replicate IPSEC_SELECTOR_LIST_LENGTH NUL,
      ci_acRemoteAddresses = replicate IPSEC_SELECTOR_LIST_LENGTH NUL,
      ci_acLocalId = replicate IPSEC_ID_LENGTH NUL,
      ci_acRemoteId = replicate IPSEC_ID_LENGTH NUL,
      ci_acChildNames = replicate IPSEC_SELECTOR_LIST_LENGTH NUL,
      ci_ullRekeyTimeMs = 0, ci_ullReauthTimeMs = 0\<rparr>"

record ConnectionCollector =
  cl_pList :: "IpsecConnectionInfo list"
  cl_pCurrent :: bool
  cl_aacSections :: section_path
  cl_acListName :: cbuf
  cl_mem :: "nat \<Rightarrow> bool"

definition AppendConnectionInfo :: "ConnectionCollector \<Rightarrow> ConnectionCollector outcome" where
  "AppendConnectionInfo c =
     (let (items, eError) = grow_array (cl_mem c) sizeof_IpsecConnectionInfo zero_connection_info
            (cl_pList c)
      in if eError = IPSEC_OK then (c\<lparr>cl_pList := items, cl_pCurrent := True\<rparr>, IPSEC_OK)
         else (c, eError))"

definition ParseConnectionSeconds :: "ViciElement \<Rightarrow> IpsecError + nat" where
  "ParseConnectionSeconds el =
     (case ParseIpsecUint64 (el_pucValue el) 10 of
        Inl e \<Rightarrow> Inl e
      | Inr ullSeconds \<Rightarrow>
          if UINT64_MAX div 1000 < ullSeconds then Inl IPSEC_ERR_VICI_PROTOCOL
          else Inr (u64 (ullSeconds * 1000)))"

text \<open>\<open>strncmp\<close> with the length of the expected text, and the character after it.\<close>

definition MatchConnectionAuthSection :: "cbuf \<Rightarrow> string \<Rightarrow> bool" where
  "MatchConnectionAuthSection pcSection pcExpected \<longleftrightarrow>
     take (length pcExpected) (cstr pcSection) = pcExpected \<and>
     (pcSection ! length pcExpected = NUL \<or> pcSection ! length pcExpected = CHR ''-'')"

definition on_current ::
  "(IpsecConnectionInfo \<Rightarrow> IpsecConnectionInfo outcome) \<Rightarrow>
   ConnectionCollector \<Rightarrow> ConnectionCollector outcome" where
  "on_current f c =
     (let (items, eError) = on_last f (cl_pList c) in (c\<lparr>cl_pList := items\<rparr>, eError))"

definition CollectConnectionElement ::
  "ViciElement \<Rightarrow> ConnectionCollector \<Rightarrow> ConnectionCollector outcome" where
  "CollectConnectionElement el c =
     (let t = el_eType el; d = el_uiDepth el;
          key = (\<lambda>k. MatchViciText (el_pucName el) (Some k)) in
      if t = VICI_ELEMENT_SECTION_START then
        (let (path, eError) = enter_section el (cl_aacSections c); c = c\<lparr>cl_aacSections := path\<rparr> in
         if eError = IPSEC_OK \<and> d = 1
         then and_then (AppendConnectionInfo c)
                (on_current (copy_to ci_acName ci_acName_update (el_pucName el)))
         else if eError = IPSEC_OK \<and> d = 3 \<and>
                 strcmp_eq (cl_aacSections c ! 1) ''children'' \<and> cl_pCurrent c
         then on_current (append_to ci_acChildNames ci_acChildNames_update '','' (el_pucName el)) c
         else (c, eError))
      else if t = VICI_ELEMENT_SECTION_END then
        (let (path, eError) = leave_section el (cl_aacSections c)
         in (c\<lparr>cl_aacSections := path\<rparr>, eError))
      else if t = VICI_ELEMENT_LIST_START then
        copy_to cl_acListName cl_acListName_update (el_pucName el) c
      else if t = VICI_ELEMENT_LIST_END then
        (c\<lparr>cl_acListName := (cl_acListName c)[0 := NUL]\<rparr>, IPSEC_OK)
      else if t = VICI_ELEMENT_LIST_ITEM \<and> cl_pCurrent c \<and> d = 1 then
        (if strcmp_eq (cl_acListName c) ''local_addrs'' then
           on_current (append_to ci_acLocalAddresses ci_acLocalAddresses_update '',''
             (el_pucValue el)) c
         else if strcmp_eq (cl_acListName c) ''remote_addrs'' then
           on_current (append_to ci_acRemoteAddresses ci_acRemoteAddresses_update '',''
             (el_pucValue el)) c
         else (c, IPSEC_OK))
      else if t = VICI_ELEMENT_KEY_VALUE \<and> cl_pCurrent c then
        (if d = 1 \<and> key ''rekey_time'' then
           on_current (store_to ci_ullRekeyTimeMs_update (ParseConnectionSeconds el)) c
         else if d = 1 \<and> key ''reauth_time'' then
           on_current (store_to ci_ullReauthTimeMs_update (ParseConnectionSeconds el)) c
         else if d = 2 \<and> key ''id'' \<and> MatchConnectionAuthSection (cl_aacSections c ! 1) ''local'' then
           on_current (copy_to ci_acLocalId ci_acLocalId_update (el_pucValue el)) c
         else if d = 2 \<and> key ''id'' \<and> MatchConnectionAuthSection (cl_aacSections c ! 1) ''remote'' then
           on_current (copy_to ci_acRemoteId ci_acRemoteId_update (el_pucValue el)) c
         else (c, IPSEC_OK))
      else (c, IPSEC_OK))"

definition CollectConnectionEvent ::
  "bytes \<Rightarrow> ConnectionCollector \<Rightarrow> ConnectionCollector outcome" where
  "CollectConnectionEvent pucMessage c = ParseViciMessage CollectConnectionElement pucMessage c"

text \<open>The result list is empty when the query fails (\<open>FreeIpsecConnectionList\<close>).\<close>

definition empty_request :: "Ipsec \<Rightarrow> (ViciBuffer \<times> Ipsec) outcome" where
  "empty_request w =
     (let (mem, w) = next_mem w; (b, eError) = InitializeViciBuffer mem 1 False zero_buffer
      in ((b, w), eError))"

definition GetIpsecConnections ::
  "(nat \<Rightarrow> bool) \<Rightarrow> Ipsec \<Rightarrow> (IpsecConnectionInfo list \<times> Ipsec) outcome" where
  "GetIpsecConnections mem w =
     (let collector = \<lparr>cl_pList = [], cl_pCurrent = False, cl_aacSections = empty_path,
            cl_acListName = replicate IPSEC_NAME_LENGTH NUL, cl_mem = mem\<rparr>;
          ((Request, w), eError) = empty_request w
      in if eError \<noteq> IPSEC_OK then (([], w), eError)
         else
           let (((c, r), w), eError) = ExecuteViciCommand (Some ''list-conns'') (Some Request)
                 (Some ''list-conn'') (Some CollectConnectionEvent) None (collector, zero_result) w
           in if eError \<noteq> IPSEC_OK then (([], w), eError) else ((cl_pList c, w), IPSEC_OK))"

subsection \<open>Algorithms (\<open>ipsec/vici/vici_algorithm.c\<close>)\<close>

abbreviation IPSEC_ALGORITHM_LENGTH :: nat where "IPSEC_ALGORITHM_LENGTH \<equiv> 128"
abbreviation IPSEC_PLUGIN_LENGTH :: nat where "IPSEC_PLUGIN_LENGTH \<equiv> 64"
abbreviation sizeof_IpsecAlgorithmInfo :: nat where "sizeof_IpsecAlgorithmInfo \<equiv> 320"

record IpsecAlgorithmInfo =
  ai_acType :: cbuf
  ai_acName :: cbuf
  ai_acPlugin :: cbuf

definition zero_algorithm_info :: IpsecAlgorithmInfo where
  "zero_algorithm_info =
     \<lparr>ai_acType = replicate IPSEC_ALGORITHM_LENGTH NUL,
      ai_acName = replicate IPSEC_ALGORITHM_LENGTH NUL,
      ai_acPlugin = replicate IPSEC_PLUGIN_LENGTH NUL\<rparr>"

record AlgorithmCollector =
  al_pList :: "IpsecAlgorithmInfo list"
  al_acType :: cbuf
  al_mem :: "nat \<Rightarrow> bool"

definition AppendAlgorithm :: "AlgorithmCollector \<Rightarrow> ViciElement \<Rightarrow> AlgorithmCollector outcome" where
  "AppendAlgorithm c el =
     (let (items, eError) = grow_array (al_mem c) sizeof_IpsecAlgorithmInfo zero_algorithm_info
            (al_pList c)
      in if eError \<noteq> IPSEC_OK then (c, eError)
         else
           let (items, eError) = on_last (run_steps
                 [copy_to ai_acType ai_acType_update (Some (cstr (al_acType c))),
                  copy_to ai_acName ai_acName_update (el_pucName el),
                  copy_to ai_acPlugin ai_acPlugin_update (el_pucValue el)]) items
           in (c\<lparr>al_pList := items\<rparr>, eError))"

definition CollectAlgorithmElement ::
  "ViciElement \<Rightarrow> AlgorithmCollector \<Rightarrow> AlgorithmCollector outcome" where
  "CollectAlgorithmElement el c =
     (if el_eType el = VICI_ELEMENT_SECTION_START \<and> el_uiDepth el = 1 then
        copy_to al_acType al_acType_update (el_pucName el) c
      else if el_eType el = VICI_ELEMENT_SECTION_END \<and> el_uiDepth el = 1 then
        (c\<lparr>al_acType := (al_acType c)[0 := NUL]\<rparr>, IPSEC_OK)
      else if el_eType el = VICI_ELEMENT_KEY_VALUE \<and> el_uiDepth el = 1 \<and> al_acType c ! 0 \<noteq> NUL then
        AppendAlgorithm c el
      else (c, IPSEC_OK))"

definition CollectAlgorithmResponse ::
  "bytes \<Rightarrow> AlgorithmCollector \<Rightarrow> AlgorithmCollector outcome" where
  "CollectAlgorithmResponse pucMessage c = ParseViciMessage CollectAlgorithmElement pucMessage c"

definition GetIpsecAlgorithms ::
  "(nat \<Rightarrow> bool) \<Rightarrow> Ipsec \<Rightarrow> (IpsecAlgorithmInfo list \<times> Ipsec) outcome" where
  "GetIpsecAlgorithms mem w =
     (let collector = \<lparr>al_pList = [], al_acType = replicate IPSEC_ALGORITHM_LENGTH NUL, al_mem = mem\<rparr>;
          ((Request, w), eError) = empty_request w
      in if eError \<noteq> IPSEC_OK then (([], w), eError)
         else
           let (((c, r), w), eError) = ExecuteViciCommand (Some ''get-algorithms'') (Some Request)
                 None None (Some CollectAlgorithmResponse) (collector, zero_result) w
           in if eError \<noteq> IPSEC_OK then (([], w), eError) else ((al_pList c, w), IPSEC_OK))"

subsection \<open>Daemon status (\<open>ipsec/vici/vici_stats.c\<close>)\<close>

abbreviation IPSEC_VERSION_LENGTH :: nat where "IPSEC_VERSION_LENGTH \<equiv> 64"
abbreviation IPSEC_OS_NAME_LENGTH :: nat where "IPSEC_OS_NAME_LENGTH \<equiv> 64"

record IpsecDaemonStatus =
  ds_acDaemon :: cbuf
  ds_acVersion :: cbuf
  ds_acSystemName :: cbuf
  ds_acSystemRelease :: cbuf
  ds_acMachine :: cbuf
  ds_ullUptimeSeconds :: nat
  ds_uiWorkerTotal :: nat
  ds_uiWorkerIdle :: nat
  ds_uiIkeSaTotal :: nat
  ds_uiIkeSaHalfOpen :: nat

definition zero_status :: IpsecDaemonStatus where
  "zero_status =
     \<lparr>ds_acDaemon = replicate IPSEC_NAME_LENGTH NUL, ds_acVersion = replicate IPSEC_VERSION_LENGTH NUL,
      ds_acSystemName = replicate IPSEC_OS_NAME_LENGTH NUL,
      ds_acSystemRelease = replicate IPSEC_OS_NAME_LENGTH NUL,
      ds_acMachine = replicate IPSEC_OS_NAME_LENGTH NUL, ds_ullUptimeSeconds = 0,
      ds_uiWorkerTotal = 0, ds_uiWorkerIdle = 0, ds_uiIkeSaTotal = 0, ds_uiIkeSaHalfOpen = 0\<rparr>"

record DaemonStatusCollector =
  dc_pStatus :: IpsecDaemonStatus
  dc_aacSections :: section_path

definition CollectStatusRootValue :: "ViciElement \<Rightarrow> IpsecDaemonStatus \<Rightarrow> IpsecDaemonStatus outcome" where
  "CollectStatusRootValue el st =
     (let key = (\<lambda>k. MatchViciText (el_pucName el) (Some k)); v = el_pucValue el in
      if key ''daemon'' then copy_to ds_acDaemon ds_acDaemon_update v st
      else if key ''version'' then copy_to ds_acVersion ds_acVersion_update v st
      else if key ''sysname'' then copy_to ds_acSystemName ds_acSystemName_update v st
      else if key ''release'' then copy_to ds_acSystemRelease ds_acSystemRelease_update v st
      else if key ''machine'' then copy_to ds_acMachine ds_acMachine_update v st
      else (st, IPSEC_OK))"

definition CollectStatusNestedValue ::
  "cbuf \<Rightarrow> ViciElement \<Rightarrow> IpsecDaemonStatus \<Rightarrow> IpsecDaemonStatus outcome" where
  "CollectStatusNestedValue pcSection el st =
     (let key = (\<lambda>k. MatchViciText (el_pucName el) (Some k)); v = el_pucValue el in
      if strcmp_eq pcSection ''uptime'' \<and> key ''running'' then
        (case ParseIpsecDurationSeconds v of
           Inl e \<Rightarrow> (st\<lparr>ds_ullUptimeSeconds := 0\<rparr>, IPSEC_OK)
         | Inr n \<Rightarrow> (st\<lparr>ds_ullUptimeSeconds := n\<rparr>, IPSEC_OK))
      else if strcmp_eq pcSection ''workers'' \<and> key ''total'' then
        store_to ds_uiWorkerTotal_update (ParseIpsecUint32 v 10) st
      else if strcmp_eq pcSection ''workers'' \<and> key ''idle'' then
        store_to ds_uiWorkerIdle_update (ParseIpsecUint32 v 10) st
      else if strcmp_eq pcSection ''ikesas'' \<and> key ''total'' then
        store_to ds_uiIkeSaTotal_update (ParseIpsecUint32 v 10) st
      else if strcmp_eq pcSection ''ikesas'' \<and> key ''half-open'' then
        store_to ds_uiIkeSaHalfOpen_update (ParseIpsecUint32 v 10) st
      else (st, IPSEC_OK))"

definition CollectStatusElement ::
  "ViciElement \<Rightarrow> DaemonStatusCollector \<Rightarrow> DaemonStatusCollector outcome" where
  "CollectStatusElement el c =
     (if el_eType el = VICI_ELEMENT_SECTION_START then
        (let (path, eError) = enter_section el (dc_aacSections c)
         in (c\<lparr>dc_aacSections := path\<rparr>, eError))
      else if el_eType el = VICI_ELEMENT_SECTION_END then
        (let (path, eError) = leave_section el (dc_aacSections c)
         in (c\<lparr>dc_aacSections := path\<rparr>, eError))
      else if el_eType el = VICI_ELEMENT_KEY_VALUE \<and> el_uiDepth el = 0 then
        (let (st, eError) = CollectStatusRootValue el (dc_pStatus c)
         in (c\<lparr>dc_pStatus := st\<rparr>, eError))
      else if el_eType el = VICI_ELEMENT_KEY_VALUE \<and> el_uiDepth el = 1 then
        (let (st, eError) = CollectStatusNestedValue (dc_aacSections c ! 0) el (dc_pStatus c)
         in (c\<lparr>dc_pStatus := st\<rparr>, eError))
      else (c, IPSEC_OK))"

definition CollectStatusResponse ::
  "bytes \<Rightarrow> DaemonStatusCollector \<Rightarrow> DaemonStatusCollector outcome" where
  "CollectStatusResponse pucMessage c = ParseViciMessage CollectStatusElement pucMessage c"

definition QueryStatusCommand ::
  "string \<Rightarrow> DaemonStatusCollector \<times> Ipsec \<Rightarrow> (DaemonStatusCollector \<times> Ipsec) outcome" where
  "QueryStatusCommand pcCommand x =
     (let (c, w) = x; ((Request, w), eError) = empty_request w
      in if eError \<noteq> IPSEC_OK then ((c, w), eError)
         else
           let (((c, r), w), eError) = ExecuteViciCommand (Some pcCommand) (Some Request)
                 None None (Some CollectStatusResponse) (c, zero_result) w
           in ((c, w), eError))"

definition GetIpsecDaemonStatus :: "Ipsec \<Rightarrow> (IpsecDaemonStatus \<times> Ipsec) outcome" where
  "GetIpsecDaemonStatus w =
     (let ((c, w), eError) = and_then
            (QueryStatusCommand ''version'' (\<lparr>dc_pStatus = zero_status, dc_aacSections = empty_path\<rparr>, w))
            (\<lambda>(c, w). QueryStatusCommand ''stats'' (c\<lparr>dc_aacSections := empty_path\<rparr>, w))
      in ((dc_pStatus c, w), eError))"

subsection \<open>Invariants of the records\<close>

text \<open>A record keeps its invariant when one field is replaced by a terminated text of the same
  size, which is all that the three update functions do.\<close>

lemma copy_to_inv:
  assumes "terminated n (get r)" and "\<And>b. terminated n b \<Longrightarrow> P (upd (\<lambda>_. b) r)"
  shows "P (fst (copy_to get upd v r))"
  using assms CopyIpsecString_wf [OF assms(1)] by (simp add: copy_to_def case_prod_beta)

lemma append_to_inv:
  assumes "terminated n (get r)" and "n \<le> SIZE_MAX" and "\<And>b. terminated n b \<Longrightarrow> P (upd (\<lambda>_. b) r)"
  shows "P (fst (append_to get upd sep v r))"
  using assms AppendIpsecText_wf [OF assms(1,2)] by (simp add: append_to_def case_prod_beta)

lemma store_to_inv:
  assumes "P r" and "\<And>x. P (upd (\<lambda>_. x) r)"
  shows "P (fst (store_to upd v r))"
  using assms by (auto simp: store_to_def split: sum.split)

lemma grow_array_cases:
  obtains (grown) "grow_array mem n z items = (items @ [z], IPSEC_OK)"
  | (full) "grow_array mem n z items = (items, IPSEC_ERR_NO_MEMORY)"
proof -
  have "grow_array mem n z items = (items @ [z], IPSEC_OK) \<or>
      grow_array mem n z items = (items, IPSEC_ERR_NO_MEMORY)"
    by (auto simp: grow_array_def split: option.split)
  then show thesis using grown full by blast
qed

lemma on_last_inv:
  assumes "\<forall>x \<in> set items. P x" and "items \<noteq> []" and "\<And>x. P x \<Longrightarrow> P (fst (f x))"
  shows "\<forall>x \<in> set (fst (on_last f items)). P x"
proof -
  have "P (fst (f (last items)))" using assms by simp
  then show ?thesis
    using assms(1) by (auto simp: on_last_def case_prod_beta dest: in_set_butlastD)
qed

lemma length_on_last: "items \<noteq> [] \<Longrightarrow> length (fst (on_last f items)) = length items"
  by (simp add: on_last_def case_prod_beta)

definition connection_info_wf :: "IpsecConnectionInfo \<Rightarrow> bool" where
  "connection_info_wf i \<longleftrightarrow>
     terminated IPSEC_NAME_LENGTH (ci_acName i) \<and>
     terminated IPSEC_SELECTOR_LIST_LENGTH (ci_acLocalAddresses i) \<and>
     terminated IPSEC_SELECTOR_LIST_LENGTH (ci_acRemoteAddresses i) \<and>
     terminated IPSEC_ID_LENGTH (ci_acLocalId i) \<and>
     terminated IPSEC_ID_LENGTH (ci_acRemoteId i) \<and>
     terminated IPSEC_SELECTOR_LIST_LENGTH (ci_acChildNames i)"

definition connection_collector_wf :: "ConnectionCollector \<Rightarrow> bool" where
  "connection_collector_wf c \<longleftrightarrow>
     (\<forall>i \<in> set (cl_pList c). connection_info_wf i) \<and>
     (cl_pCurrent c \<longrightarrow> cl_pList c \<noteq> []) \<and>
     path_wf (cl_aacSections c) \<and> terminated IPSEC_NAME_LENGTH (cl_acListName c)"

lemma zero_connection_info_wf: "connection_info_wf zero_connection_info"
  by (simp add: connection_info_wf_def zero_connection_info_def terminated_zero)

lemma connection_field_wf:
  assumes "connection_info_wf i"
  shows "connection_info_wf (fst (copy_to ci_acName ci_acName_update v i))"
    and "connection_info_wf (fst (copy_to ci_acLocalId ci_acLocalId_update v i))"
    and "connection_info_wf (fst (copy_to ci_acRemoteId ci_acRemoteId_update v i))"
    and "connection_info_wf (fst (append_to ci_acChildNames ci_acChildNames_update sep v i))"
    and "connection_info_wf (fst (append_to ci_acLocalAddresses ci_acLocalAddresses_update sep v i))"
    and "connection_info_wf (fst (append_to ci_acRemoteAddresses ci_acRemoteAddresses_update sep v i))"
    and "connection_info_wf (fst (store_to ci_ullRekeyTimeMs_update n i))"
    and "connection_info_wf (fst (store_to ci_ullReauthTimeMs_update n i))"
proof -
  note f = assms [unfolded connection_info_wf_def]
  note copy = copy_to_inv [where P = connection_info_wf]
  note app = append_to_inv [where P = connection_info_wf]
  note store = store_to_inv [where P = connection_info_wf]
  show "connection_info_wf (fst (copy_to ci_acName ci_acName_update v i))"
    by (rule copy [of IPSEC_NAME_LENGTH]) (use f in \<open>simp_all add: connection_info_wf_def\<close>)
  show "connection_info_wf (fst (copy_to ci_acLocalId ci_acLocalId_update v i))"
    "connection_info_wf (fst (copy_to ci_acRemoteId ci_acRemoteId_update v i))"
    by (rule copy [of IPSEC_ID_LENGTH]; use f in \<open>simp add: connection_info_wf_def\<close>)+
  show "connection_info_wf (fst (append_to ci_acChildNames ci_acChildNames_update sep v i))"
    "connection_info_wf (fst (append_to ci_acLocalAddresses ci_acLocalAddresses_update sep v i))"
    "connection_info_wf (fst (append_to ci_acRemoteAddresses ci_acRemoteAddresses_update sep v i))"
    by (rule app [of IPSEC_SELECTOR_LIST_LENGTH]; use f in \<open>simp add: connection_info_wf_def\<close>)+
  show "connection_info_wf (fst (store_to ci_ullRekeyTimeMs_update n i))"
    "connection_info_wf (fst (store_to ci_ullReauthTimeMs_update n i))"
    by (rule store; use f in \<open>simp add: connection_info_wf_def\<close>)+
qed

lemma on_current_wf:
  assumes "connection_collector_wf c" and "cl_pCurrent c"
    and "\<And>i. connection_info_wf i \<Longrightarrow> connection_info_wf (fst (f i))"
  shows "connection_collector_wf (fst (on_current f c))"
proof -
  have ne: "cl_pList c \<noteq> []" using assms(1,2) by (simp add: connection_collector_wf_def)
  have "\<forall>i \<in> set (fst (on_last f (cl_pList c))). connection_info_wf i"
    by (rule on_last_inv) (use assms ne in \<open>auto simp: connection_collector_wf_def\<close>)
  moreover have "fst (on_last f (cl_pList c)) \<noteq> []"
    using ne length_on_last [OF ne, of f] by (metis length_0_conv)
  ultimately show ?thesis
    using assms(1) by (simp add: on_current_def connection_collector_wf_def case_prod_beta)
qed

lemma AppendConnectionInfo_wf:
  assumes "connection_collector_wf c"
  shows "connection_collector_wf (fst (AppendConnectionInfo c)) \<and>
     (snd (AppendConnectionInfo c) = IPSEC_OK \<longrightarrow> cl_pCurrent (fst (AppendConnectionInfo c)))"
  by (cases rule: grow_array_cases [of "cl_mem c" sizeof_IpsecConnectionInfo zero_connection_info "cl_pList c"])
    (use assms zero_connection_info_wf in
      \<open>auto simp: AppendConnectionInfo_def connection_collector_wf_def\<close>)

lemma CollectConnectionElement_wf:
  assumes wf: "connection_collector_wf c"
  shows "connection_collector_wf (fst (CollectConnectionElement el c))"
proof -
  define path where "path = fst (enter_section el (cl_aacSections c))"
  define c1 where "c1 = c\<lparr>cl_aacSections := path\<rparr>"
  have c1: "connection_collector_wf c1" "cl_pCurrent c1 = cl_pCurrent c"
    using wf enter_section_wf by (auto simp: connection_collector_wf_def c1_def path_def)
  have c2: "connection_collector_wf (c\<lparr>cl_aacSections := fst (leave_section el (cl_aacSections c))\<rparr>)"
    using wf leave_section_wf by (simp add: connection_collector_wf_def)
  have c3: "connection_collector_wf (c\<lparr>cl_acListName := (cl_acListName c)[0 := NUL]\<rparr>)"
    using wf terminated_clear by (simp add: connection_collector_wf_def)
  have c4: "connection_collector_wf (fst (copy_to cl_acListName cl_acListName_update v c))" for v
    by (rule copy_to_inv [where P = connection_collector_wf and n = IPSEC_NAME_LENGTH])
      (use wf in \<open>auto simp: connection_collector_wf_def\<close>)
  have new: "connection_collector_wf (fst (and_then (AppendConnectionInfo c1)
      (on_current (copy_to ci_acName ci_acName_update v))))" for v
    using AppendConnectionInfo_wf [OF c1(1)] on_current_wf connection_field_wf(1)
    by (simp add: and_then_def)
  note cur = on_current_wf [OF wf] on_current_wf [OF c1(1)]
  show ?thesis
    unfolding CollectConnectionElement_def Let_def case_prod_beta path_def [symmetric] c1_def [symmetric]
    using wf c1 c2 c3 c4 new
    by (auto intro!: cur connection_field_wf)
qed

interpretation connection_cb: element_callback CollectConnectionElement connection_collector_wf
  by unfold_locales (rule CollectConnectionElement_wf)

subsection \<open>The section path follows the message\<close>

lemma on_current_keeps:
  "cl_aacSections (fst (on_current f c)) = cl_aacSections c"
  "cl_acListName (fst (on_current f c)) = cl_acListName c"
  by (simp_all add: on_current_def case_prod_beta)

lemma AppendConnectionInfo_keeps:
  "cl_aacSections (fst (AppendConnectionInfo c)) = cl_aacSections c"
  "cl_acListName (fst (AppendConnectionInfo c)) = cl_acListName c"
  by (simp_all add: AppendConnectionInfo_def case_prod_beta)

lemma CollectConnectionElement_path:
  "cl_aacSections (fst (CollectConnectionElement el c)) =
     (if el_eType el = VICI_ELEMENT_SECTION_START then fst (enter_section el (cl_aacSections c))
      else if el_eType el = VICI_ELEMENT_SECTION_END then fst (leave_section el (cl_aacSections c))
      else cl_aacSections c)"
  "cl_acListName (fst (CollectConnectionElement el c)) =
     (if el_eType el = VICI_ELEMENT_LIST_START
      then fst (CopyIpsecString (cl_acListName c) (el_pucName el))
      else if el_eType el = VICI_ELEMENT_LIST_END then (cl_acListName c)[0 := NUL]
      else cl_acListName c)"
  by (auto simp: CollectConnectionElement_def Let_def case_prod_beta on_current_keeps and_then_def
      AppendConnectionInfo_keeps copy_to_def)

definition connection_at :: "parser_state \<Rightarrow> ConnectionCollector \<Rightarrow> bool" where
  "connection_at p c \<longleftrightarrow> fst p \<le> VICI_MAX_SECTION_DEPTH \<and> path_at (fst p) (cl_aacSections c) \<and>
     (\<not> snd p \<longrightarrow> cstr (cl_acListName c) = [])"

interpretation connection_track: tracking_callback CollectConnectionElement connection_at
proof unfold_locales
  fix p el q c c'
  assume step: "vici_step p el q" and at: "connection_at p c"
    and cb: "CollectConnectionElement el c = (c', IPSEC_OK)"
  have path: "cl_aacSections c' =
      (if el_eType el = VICI_ELEMENT_SECTION_START then fst (enter_section el (cl_aacSections c))
       else if el_eType el = VICI_ELEMENT_SECTION_END then fst (leave_section el (cl_aacSections c))
       else cl_aacSections c)"
    and name: "cl_acListName c' =
      (if el_eType el = VICI_ELEMENT_LIST_START
       then fst (CopyIpsecString (cl_acListName c) (el_pucName el))
       else if el_eType el = VICI_ELEMENT_LIST_END then (cl_acListName c)[0 := NUL]
       else cl_acListName c)"
    using CollectConnectionElement_path [where el = el and c = c] cb by auto
  show "connection_at q c'"
    using step
  proof (cases rule: vici_step.cases)
    case (section_start d n)
    then show ?thesis using at path name enter_section_at [of d "cl_aacSections c" el]
      by (auto simp: connection_at_def)
  next
    case (section_end d)
    then show ?thesis using at path name leave_section_at [of d "cl_aacSections c" el]
      by (auto simp: connection_at_def)
  qed (use at path name in \<open>auto simp: connection_at_def\<close>)
qed

subsection \<open>The algorithm list is the document flattened\<close>

lemma deliver_append: "deliver cb (xs @ ys) s = and_then (deliver cb xs s) (deliver cb ys)"
  by (induction xs arbitrary: s) (auto simp: and_then_def)

text \<open>A value that fits an array of \<open>n\<close> bytes as text.\<close>

definition fits :: "nat \<Rightarrow> bytes \<Rightarrow> bool" where
  "fits n v \<longleftrightarrow> NUL \<notin> set v \<and> length v < n"

lemma Copy_fits:
  assumes "length dst = n" and "fits n v"
  shows "\<exists>b. CopyIpsecString dst (Some v) = (b, IPSEC_OK) \<and> cstr b = v \<and> length b = n"
proof -
  obtain b e where c: "CopyIpsecString dst (Some v) = (b, e)" by fastforce
  have n: "0 < length dst" "length v < length dst" using assms by (auto simp: fits_def)
  have "e = IPSEC_OK" using CopyIpsecString_ok_iff [OF n(1), of "Some v"] n(2) c by simp
  then have "cstr b = v"
    using CopyIpsecString_cases [OF n(1) c] assms(2) by (auto simp: fits_def cstr_id)
  moreover have "length b = n"
    using CopyIpsecString_terminated [OF n(1) c] assms(1) by (simp add: terminated_def)
  ultimately show ?thesis using c \<open>e = IPSEC_OK\<close> by blast
qed

definition algorithm_text :: "IpsecAlgorithmInfo \<Rightarrow> string \<times> string \<times> string" where
  "algorithm_text i = (cstr (ai_acType i), cstr (ai_acName i), cstr (ai_acPlugin i))"

definition algorithms_doc :: "(string \<times> (string \<times> string) list) list \<Rightarrow> vici_item list" where
  "algorithms_doc groups =
     map (\<lambda>(t, kvs). Section t (map (\<lambda>(n, plugin). KeyValue n plugin) kvs)) groups"

definition algorithms_rows ::
  "(string \<times> (string \<times> string) list) list \<Rightarrow> (string \<times> string \<times> string) list" where
  "algorithms_rows groups = concat (map (\<lambda>(t, kvs). map (\<lambda>(n, plugin). (t, n, plugin)) kvs) groups)"

definition algorithms_fit :: "(string \<times> (string \<times> string) list) list \<Rightarrow> bool" where
  "algorithms_fit groups \<longleftrightarrow>
     (\<forall>(t, kvs) \<in> set groups. t \<noteq> [] \<and> fits IPSEC_ALGORITHM_LENGTH t \<and>
        (\<forall>(n, plugin) \<in> set kvs. fits IPSEC_ALGORITHM_LENGTH n \<and> fits IPSEC_PLUGIN_LENGTH plugin))"

lemma AppendAlgorithm_ok:
  assumes "fits IPSEC_ALGORITHM_LENGTH (cstr (al_acType c))" and "fits IPSEC_ALGORITHM_LENGTH n"
    and "fits IPSEC_PLUGIN_LENGTH v" and "\<forall>k. al_mem c k" and "length (al_pList c) < UINT32_MAX"
  shows "\<exists>i. AppendAlgorithm c (el_key_value d n v) =
       (c\<lparr>al_pList := al_pList c @ [i]\<rparr>, IPSEC_OK) \<and> algorithm_text i = (cstr (al_acType c), n, v)"
proof -
  have grow: "grow_array (al_mem c) sizeof_IpsecAlgorithmInfo zero_algorithm_info (al_pList c) =
      (al_pList c @ [zero_algorithm_info], IPSEC_OK)"
    using assms(4,5) by (simp add: grow_array_def CalculateIpsecArraySize_eq)
  let ?a = "replicate IPSEC_ALGORITHM_LENGTH NUL"
  obtain bt where bt: "CopyIpsecString ?a (Some (cstr (al_acType c))) = (bt, IPSEC_OK)" "cstr bt = cstr (al_acType c)"
    using Copy_fits [OF _ assms(1), of ?a] by auto
  obtain bn where bn: "CopyIpsecString ?a (Some n) = (bn, IPSEC_OK)" "cstr bn = n"
    using Copy_fits [OF _ assms(2), of ?a] by auto
  obtain bp where bp: "CopyIpsecString (replicate IPSEC_PLUGIN_LENGTH NUL) (Some v) = (bp, IPSEC_OK)" "cstr bp = v"
    using Copy_fits [OF _ assms(3), of "replicate IPSEC_PLUGIN_LENGTH NUL"] by auto
  let ?i = "\<lparr>ai_acType = bt, ai_acName = bn, ai_acPlugin = bp\<rparr>"
  have "run_steps [copy_to ai_acType ai_acType_update (Some (cstr (al_acType c))),
      copy_to ai_acName ai_acName_update (Some n), copy_to ai_acPlugin ai_acPlugin_update (Some v)]
      zero_algorithm_info = (?i, IPSEC_OK)"
    using bt bn bp by (simp add: copy_to_def zero_algorithm_info_def)
  then have "AppendAlgorithm c (el_key_value d n v) = (c\<lparr>al_pList := al_pList c @ [?i]\<rparr>, IPSEC_OK)"
    by (simp add: AppendAlgorithm_def grow on_last_def)
  moreover have "algorithm_text ?i = (cstr (al_acType c), n, v)"
    using bt bn bp by (simp add: algorithm_text_def)
  ultimately show ?thesis by blast
qed

lemma hd_cstr: "b \<noteq> [] \<Longrightarrow> b ! 0 = NUL \<longleftrightarrow> cstr b = []"
  by (cases b) (auto simp: cstr_def)

text \<open>The keys of one section, and then the sections.\<close>

lemma deliver_algorithm_keys:
  assumes "\<forall>(n, v) \<in> set kvs. fits IPSEC_ALGORITHM_LENGTH n \<and> fits IPSEC_PLUGIN_LENGTH v"
    and "terminated IPSEC_ALGORITHM_LENGTH (al_acType c)" and "cstr (al_acType c) \<noteq> []"
    and "\<forall>k. al_mem c k" and "length (al_pList c) + length kvs \<le> UINT32_MAX"
  shows "\<exists>items. deliver CollectAlgorithmElement (map (\<lambda>(n, v). el_key_value 1 n v) kvs) c =
       (c\<lparr>al_pList := al_pList c @ items\<rparr>, IPSEC_OK) \<and>
     map algorithm_text items = map (\<lambda>(n, v). (cstr (al_acType c), n, v)) kvs"
  using assms
proof (induction kvs arbitrary: c)
  case Nil
  then show ?case by (intro exI [of _ "[]"]) simp
next
  case (Cons kv kvs)
  obtain n v where kv: "kv = (n, v)" by fastforce
  have t: "fits IPSEC_ALGORITHM_LENGTH (cstr (al_acType c))"
    using Cons.prems(2) terminated_strlen by (fastforce simp: fits_def strlen_def)
  obtain i where i: "AppendAlgorithm c (el_key_value 1 n v) = (c\<lparr>al_pList := al_pList c @ [i]\<rparr>, IPSEC_OK)"
    "algorithm_text i = (cstr (al_acType c), n, v)"
    using AppendAlgorithm_ok [OF t, of n v 1] Cons.prems kv by auto
  have "al_acType c \<noteq> []" using Cons.prems(3) by auto
  then have first: "CollectAlgorithmElement (el_key_value 1 n v) c = (c\<lparr>al_pList := al_pList c @ [i]\<rparr>, IPSEC_OK)"
    using i Cons.prems(3) hd_cstr by (simp add: CollectAlgorithmElement_def)
  let ?c = "c\<lparr>al_pList := al_pList c @ [i]\<rparr>"
  obtain items where "deliver CollectAlgorithmElement (map (\<lambda>(n, v). el_key_value 1 n v) kvs) ?c =
       (?c\<lparr>al_pList := al_pList ?c @ items\<rparr>, IPSEC_OK)"
    "map algorithm_text items = map (\<lambda>(n, v). (cstr (al_acType ?c), n, v)) kvs"
    using Cons.IH [of ?c] Cons.prems by auto
  then show ?case using first i kv by (intro exI [of _ "i # items"]) simp
qed

lemma deliver_algorithm_section:
  assumes "t \<noteq> []" and "fits IPSEC_ALGORITHM_LENGTH t"
    and "\<forall>(n, v) \<in> set kvs. fits IPSEC_ALGORITHM_LENGTH n \<and> fits IPSEC_PLUGIN_LENGTH v"
    and "terminated IPSEC_ALGORITHM_LENGTH (al_acType c)"
    and "\<forall>k. al_mem c k" and "length (al_pList c) + length kvs \<le> UINT32_MAX"
  shows "\<exists>items ty. deliver CollectAlgorithmElement
       (item_events 0 (Section t (map (\<lambda>(n, v). KeyValue n v) kvs))) c =
       (c\<lparr>al_pList := al_pList c @ items, al_acType := ty\<rparr>, IPSEC_OK) \<and>
     terminated IPSEC_ALGORITHM_LENGTH ty \<and>
     map algorithm_text items = map (\<lambda>(n, v). (t, n, v)) kvs"
proof -
  have len: "length (al_acType c) = IPSEC_ALGORITHM_LENGTH" using assms(4) by (simp add: terminated_def)
  obtain b where b: "CopyIpsecString (al_acType c) (Some t) = (b, IPSEC_OK)" "cstr b = t"
    using Copy_fits [OF len assms(2)] by auto
  have bt: "terminated IPSEC_ALGORITHM_LENGTH b"
    using CopyIpsecString_wf [OF assms(4), of "Some t"] b by simp
  let ?c = "c\<lparr>al_acType := b\<rparr>"
  have first: "CollectAlgorithmElement (el_section_start 1 t) c = (?c, IPSEC_OK)"
    using b by (simp add: CollectAlgorithmElement_def copy_to_def)
  obtain items where keys: "deliver CollectAlgorithmElement (map (\<lambda>(n, v). el_key_value 1 n v) kvs) ?c =
       (?c\<lparr>al_pList := al_pList ?c @ items\<rparr>, IPSEC_OK)"
    "map algorithm_text items = map (\<lambda>(n, v). (t, n, v)) kvs"
    using deliver_algorithm_keys [OF assms(3), of ?c] assms b bt by auto
  have ev: "item_events 0 (Section t (map (\<lambda>(n, v). KeyValue n v) kvs)) =
      el_section_start 1 t # map (\<lambda>(n, v). el_key_value 1 n v) kvs @ [el_section_end 1]"
    by (induction kvs) auto
  have "deliver CollectAlgorithmElement (item_events 0 (Section t (map (\<lambda>(n, v). KeyValue n v) kvs))) c =
      (c\<lparr>al_pList := al_pList c @ items, al_acType := b[0 := NUL]\<rparr>, IPSEC_OK)"
    unfolding ev using first keys
    by (simp add: deliver_append) (simp add: CollectAlgorithmElement_def)
  then show ?thesis using keys(2) terminated_clear [OF bt] by blast
qed

lemma deliver_algorithms:
  assumes "algorithms_fit groups" and "terminated IPSEC_ALGORITHM_LENGTH (al_acType c)"
    and "\<forall>k. al_mem c k" and "length (al_pList c) + length (algorithms_rows groups) \<le> UINT32_MAX"
  shows "\<exists>items ty. deliver CollectAlgorithmElement (doc_events 0 (algorithms_doc groups)) c =
       (c\<lparr>al_pList := al_pList c @ items, al_acType := ty\<rparr>, IPSEC_OK) \<and>
     map algorithm_text items = algorithms_rows groups"
  using assms
proof (induction groups arbitrary: c)
  case Nil
  then show ?case
    by (intro exI [of _ "[]"] exI [of _ "al_acType c"]) (simp add: algorithms_doc_def algorithms_rows_def)
next
  case (Cons g groups)
  obtain t kvs where g: "g = (t, kvs)" by fastforce
  obtain items ty where s: "deliver CollectAlgorithmElement
       (item_events 0 (Section t (map (\<lambda>(n, v). KeyValue n v) kvs))) c =
       (c\<lparr>al_pList := al_pList c @ items, al_acType := ty\<rparr>, IPSEC_OK)"
    "terminated IPSEC_ALGORITHM_LENGTH ty" "map algorithm_text items = map (\<lambda>(n, v). (t, n, v)) kvs"
    using deliver_algorithm_section [of t kvs c] Cons.prems g
    by (auto simp: algorithms_fit_def algorithms_rows_def)
  let ?c = "c\<lparr>al_pList := al_pList c @ items, al_acType := ty\<rparr>"
  have "length items = length kvs" using arg_cong [OF s(3), of length] by simp
  then obtain items' ty' where r: "deliver CollectAlgorithmElement (doc_events 0 (algorithms_doc groups)) ?c =
       (?c\<lparr>al_pList := al_pList ?c @ items', al_acType := ty'\<rparr>, IPSEC_OK)"
    "map algorithm_text items' = algorithms_rows groups"
    using Cons.IH [of ?c] Cons.prems s(2) g by (auto simp: algorithms_fit_def algorithms_rows_def)
  have "deliver CollectAlgorithmElement (doc_events 0 (algorithms_doc (g # groups))) c =
      (c\<lparr>al_pList := al_pList c @ (items @ items'), al_acType := ty'\<rparr>, IPSEC_OK)"
    using s(1) r(1) g by (simp add: algorithms_doc_def deliver_append del: item_events.simps)
  moreover have "map algorithm_text (items @ items') = algorithms_rows (g # groups)"
    using s(3) r(2) g by (simp add: algorithms_rows_def)
  ultimately show ?case by blast
qed

subsection \<open>Properties\<close>

text \<open>A \<open>get-algorithms\<close> response that fits the arrays is returned completely and in
  order: one entry per key, with the name of its section, the key and its value.\<close>

theorem CollectAlgorithmResponse_rows:
  assumes "algorithms_fit groups" and "doc_ok (algorithms_doc groups)"
    and "length (encode_doc (algorithms_doc groups)) \<le> UINT32_MAX"
    and "length (algorithms_rows groups) \<le> UINT32_MAX" and "\<forall>k. mem k"
  shows "\<exists>c. CollectAlgorithmResponse (encode_doc (algorithms_doc groups))
       \<lparr>al_pList = [], al_acType = replicate IPSEC_ALGORITHM_LENGTH NUL, al_mem = mem\<rparr> = (c, IPSEC_OK) \<and>
     map algorithm_text (al_pList c) = algorithms_rows groups"
proof -
  let ?c = "\<lparr>al_pList = [], al_acType = replicate IPSEC_ALGORITHM_LENGTH NUL, al_mem = mem\<rparr>"
  have "CollectAlgorithmResponse (encode_doc (algorithms_doc groups)) ?c =
      deliver CollectAlgorithmElement (doc_events 0 (algorithms_doc groups)) ?c"
    unfolding CollectAlgorithmResponse_def encode_doc_def
    by (rule ParseViciMessage_encode [OF doc_legal [OF assms(2)] assms(3) [unfolded encode_doc_def]])
  then show ?thesis
    using deliver_algorithms [OF assms(1), of ?c] assms(4,5) by (auto simp: terminated_zero)
qed

theorem CollectAlgorithmResponse_rows_witness:
  "\<exists>c. CollectAlgorithmResponse
       (encode_doc (algorithms_doc [(''encryption'', [(''AES_CBC'', ''aes''), (''NULL'', ''openssl'')])]))
       \<lparr>al_pList = [], al_acType = replicate IPSEC_ALGORITHM_LENGTH NUL, al_mem = (\<lambda>_. True)\<rparr> =
       (c, IPSEC_OK) \<and>
     map algorithm_text (al_pList c) =
       [(''encryption'', ''AES_CBC'', ''aes''), (''encryption'', ''NULL'', ''openssl'')]"
proof -
  let ?g = "[(''encryption'', [(''AES_CBC'', ''aes''), (''NULL'', ''openssl'')])]"
  have f: "algorithms_fit ?g" by code_simp
  have d: "doc_ok (algorithms_doc ?g)"
    by (simp add: doc_ok_def algorithms_doc_def case_nat_numeral wire_name_def wire_value_def)
  have l: "length (encode_doc (algorithms_doc ?g)) \<le> UINT32_MAX" by code_simp
  have r: "algorithms_rows ?g = [(''encryption'', ''AES_CBC'', ''aes''), (''encryption'', ''NULL'', ''openssl'')]"
    by (simp add: algorithms_rows_def)
  show ?thesis
    using CollectAlgorithmResponse_rows [OF f d l, of "\<lambda>_. True"] unfolding r by simp
qed

text \<open>A connection event never breaks the collector: every text array stays terminated in its
  size and the current item exists, whatever the message and however parsing ends; after
  an accepted message the section path and the list name are empty again, so the next
  event starts afresh.\<close>

theorem CollectConnectionEvent_invariant:
  assumes "connection_collector_wf c" and "connection_at (0, False) c"
    and "length m \<le> UINT32_MAX" and "CollectConnectionEvent m c = (c', e)"
  shows "connection_collector_wf c' \<and> (e = IPSEC_OK \<longrightarrow> connection_at (0, False) c')"
  using connection_cb.parse_inv [OF assms(1), of m] connection_track.parse_track [OF assms(2,3), of c'] assms(4)
  by (auto simp: CollectConnectionEvent_def)

theorem CollectConnectionEvent_invariant_witness:
  "connection_collector_wf (fst (CollectConnectionEvent
       (encode_doc [Section ''vpn'' [ValueList ''local_addrs'' [''10.0.0.1'']]])
       \<lparr>cl_pList = [], cl_pCurrent = False, cl_aacSections = empty_path,
        cl_acListName = replicate IPSEC_NAME_LENGTH NUL, cl_mem = (\<lambda>_. True)\<rparr>))"
proof -
  let ?c = "\<lparr>cl_pList = [], cl_pCurrent = False, cl_aacSections = empty_path,
            cl_acListName = replicate IPSEC_NAME_LENGTH NUL, cl_mem = (\<lambda>_. True)\<rparr>"
  let ?m = "encode_doc [Section ''vpn'' [ValueList ''local_addrs'' [''10.0.0.1'']]]"
  let ?r = "CollectConnectionEvent ?m ?c"
  have wf: "connection_collector_wf ?c"
    using empty_path_at by (simp add: connection_collector_wf_def path_at_def terminated_zero)
  have at: "connection_at (0, False) ?c" by (simp add: connection_at_def empty_path_at)
  have l: "length ?m \<le> UINT32_MAX" by code_simp
  obtain c' e where r: "?r = (c', e)" by fastforce
  have "connection_collector_wf c'" using CollectConnectionEvent_invariant [OF wf at l r] by blast
  then show ?thesis by (simp only: r fst_conv)
qed

end
