(* ===== verification/NetlinkRows.thy ===== *)
theory NetlinkRows
  imports Netlink ViciLists
begin

section \<open>Queries of the kernel that collect rows\<close>

text \<open>
  What the queries over netlink share: an array of the result is edited through \<open>edit\<close>, and a
  query whose callback appends one row for a message returns the rows of all messages.
\<close>

definition edit ::
  "('r \<Rightarrow> cbuf) \<Rightarrow> ((cbuf \<Rightarrow> cbuf) \<Rightarrow> 'r \<Rightarrow> 'r) \<Rightarrow> (cbuf \<Rightarrow> cbuf outcome) \<Rightarrow> 'r \<Rightarrow> 'r outcome" where
  "edit get upd f r = (let (buf, eError) = f (get r) in (upd (\<lambda>_. buf) r, eError))"

lemma NLMSG_PAYLOAD_data:
  "header_ok q m \<Longrightarrow> length (snd m) \<le> IPSEC_NETLINK_RECEIVE_LENGTH \<Longrightarrow>
   NLMSG_PAYLOAD (fst m) = length (snd m)"
  by (simp add: header_ok_def NLMSG_PAYLOAD_def)

lemma grow_array_ok:
  assumes "\<forall>n. mem n" and "length items < UINT32_MAX" and "0 < zItemSize" and "zItemSize \<le> 65536"
  shows "grow_array mem zItemSize zero items = (items @ [zero], IPSEC_OK)"
proof -
  have "(length items + 1) * zItemSize \<le> 4294967295 * 65536"
    using assms(2,4) by (intro mult_mono) simp_all
  also have "\<dots> \<le> SIZE_MAX" by simp
  finally show ?thesis using assms(1,2,3) by (simp add: grow_array_def CalculateIpsecArraySize_eq)
qed

subsection \<open>Rows of a dump\<close>

text \<open>A query whose callback appends, for every message, rows that show the items which the message
  carries, returns rows that show all items.  \<open>carries\<close> relates a message to its items.\<close>

lemma dump_delivered_rows:
  assumes step: "\<And>m ks rows. m \<in> set ms \<Longrightarrow> carries m ks \<Longrightarrow> length rows < UINT32_MAX \<Longrightarrow>
      \<exists>new. f (fst m) (snd m) rows = (rows @ new, IPSEC_OK) \<and> list_all2 shown new ks \<and> length new \<le> 1"
    and "list_all2 carries ms kss" and "length rows + length ms \<le> UINT32_MAX"
  shows "\<exists>new. dump_delivered f ms rows = (rows @ new, IPSEC_OK) \<and> list_all2 shown new (concat kss)"
  using assms
proof (induction ms arbitrary: kss rows)
  case Nil
  then show ?case by simp
next
  case (Cons m ms)
  obtain ks kss' where kss: "kss = ks # kss'" and m: "carries m ks" and r: "list_all2 carries ms kss'"
    using Cons.prems(2) by (cases kss) auto
  obtain new where f: "f (fst m) (snd m) rows = (rows @ new, IPSEC_OK)"
    and new: "list_all2 shown new ks" "length new \<le> 1"
    using Cons.prems(1) [of m ks rows] Cons.prems(3) m by auto
  have n: "length (rows @ new) + length ms \<le> UINT32_MAX" using new(2) Cons.prems(3) by simp
  obtain new' where "dump_delivered f ms (rows @ new) = ((rows @ new) @ new', IPSEC_OK)"
    and "list_all2 shown new' (concat kss')"
    using Cons.IH [OF Cons.prems(1) r n] by auto
  then show ?case using f new(1) kss by (cases m) (auto intro: list_all2_appendI)
qed

lemma concat_length: "\<forall>x \<in> set xs. n \<le> length (f x) \<Longrightarrow> n * length xs \<le> length (concat (map f xs))"
  by (induction xs) auto

lemma kernel_answer_messages:
  assumes "kernel_answer q ds ms m junk"
  shows "\<forall>x \<in> set (concat (map snd ds) @ ms). data_message q x \<and>
      length (snd x) \<le> IPSEC_NETLINK_RECEIVE_LENGTH"
    and "length (concat (map snd ds) @ ms) \<le> UINT32_MAX"
proof -
  have small: "(\<forall>x \<in> set xs. length (snd x) \<le> IPSEC_NETLINK_RECEIVE_LENGTH) \<and> length xs \<le> 4096"
    if "length (concat (map nlmsg_bytes xs)) \<le> IPSEC_NETLINK_RECEIVE_LENGTH" for xs
  proof -
    have le: "length (nlmsg_bytes x) \<le> length (concat (map nlmsg_bytes xs))" if "x \<in> set xs" for x
      using split_list [OF that] by auto
    have "length (snd x) \<le> IPSEC_NETLINK_RECEIVE_LENGTH" if x: "x \<in> set xs" for x
      using le [OF x] \<open>length (concat (map nlmsg_bytes xs)) \<le> _\<close> align4_props(1) [of "length (snd x)"]
      unfolding length_nlmsg_bytes by linarith
    moreover have "16 * length xs \<le> length (concat (map nlmsg_bytes xs))"
      by (rule concat_length) (simp add: nlmsg_bytes_ge)
    ultimately show ?thesis using that by auto
  qed
  have ms: "length (concat (map nlmsg_bytes ms)) \<le> IPSEC_NETLINK_RECEIVE_LENGTH"
    using assms by (simp add: kernel_answer_def last_datagram_def)
  have ds: "\<forall>d \<in> set ds. length (concat (map nlmsg_bytes (snd d))) \<le> IPSEC_NETLINK_RECEIVE_LENGTH"
    using assms by (simp add: kernel_answer_def data_datagram_def datagram_data_def)
  show "\<forall>x \<in> set (concat (map snd ds) @ ms). data_message q x \<and>
      length (snd x) \<le> IPSEC_NETLINK_RECEIVE_LENGTH"
    using assms ms ds small by (fastforce simp: kernel_answer_def data_datagram_def)
  have n: "\<forall>d \<in> set ds. length (snd d) \<le> 4096" using ds small by blast
  have "length (concat (map snd ds)) \<le> 4096 * length ds"
    using n by (induction ds) auto
  also have "\<dots> \<le> 4096 * 4096" using assms by (simp add: kernel_answer_def)
  finally show "length (concat (map snd ds) @ ms) \<le> UINT32_MAX" using small [OF ms] by simp
qed

text \<open>The whole query.\<close>

lemma ExecuteNetlinkDump_rows:
  assumes tr: "os_trace w = dump_trace fd clk k n ds jk (last_datagram ms m junk)"
    and ans: "kernel_answer (sequence_of clk) ds ms m junk"
    and len: "length payload \<le> IPSEC_NETLINK_MAX_REQUEST_PAYLOAD"
    and n: "sizeof_nlmsghdr + length payload \<le> n" and fd: "int fd \<notin> set (os_open w)"
    and carries: "list_all2 carries (concat (map snd ds) @ ms) kss"
    and step: "\<And>m ks rows. data_message (sequence_of clk) m \<Longrightarrow>
      length (snd m) \<le> IPSEC_NETLINK_RECEIVE_LENGTH \<Longrightarrow> carries m ks \<Longrightarrow> length rows < UINT32_MAX \<Longrightarrow>
      \<exists>new. f (fst m) (snd m) rows = (rows @ new, IPSEC_OK) \<and> list_all2 shown new ks \<and> length new \<le> 1"
  shows "\<exists>w1 rows.
    ExecuteNetlinkDump iProtocol type (Some payload) (length payload) (Some f) (w, []) =
      ((w1, rows), IPSEC_OK) \<and>
    list_all2 shown rows (concat kss) \<and> os_open w1 = os_open w \<and> os_log w1 = os_log w \<and>
    os_requests w1 = os_requests w @ [(int fd, iProtocol,
      nlmsghdr_bytes (dump_request type (length payload) (sequence_of clk)) @ payload)]"
proof -
  note msgs = kernel_answer_messages [OF ans]
  have "\<exists>new. dump_delivered f (concat (map snd ds) @ ms) [] = ([] @ new, IPSEC_OK) \<and>
      list_all2 shown new (concat kss)"
    by (rule dump_delivered_rows [where carries = carries]) (use msgs carries step in auto)
  then obtain rows where r: "dump_delivered f (concat (map snd ds) @ ms) [] = (rows, IPSEC_OK)"
    "list_all2 shown rows (concat kss)" by auto
  from ExecuteNetlinkDump_run [OF tr ans len n fd, of iProtocol type f "[]"] r show ?thesis by auto
qed

end
