(* ===== verification/RouteQueries.thy ===== *)
theory RouteQueries
  imports NetlinkRows
begin

section \<open>Interfaces, addresses and routes (\<open>ipsec/route\<close>)\<close>

text \<open>
  The queries of \<open>interface.c\<close>, \<open>address.c\<close> and \<open>route.c\<close>.  The structures are those of
  \<open>linux/rtnetlink.h\<close>, \<open>linux/if_addr.h\<close> and \<open>linux/if_link.h\<close>.  \<open>names\<close> is \<open>if_indextoname\<close>: the
  interfaces of the system by index.
\<close>

abbreviation NETLINK_ROUTE :: nat where "NETLINK_ROUTE \<equiv> 0"
abbreviation RTM_NEWLINK :: nat where "RTM_NEWLINK \<equiv> 16"
abbreviation RTM_GETLINK :: nat where "RTM_GETLINK \<equiv> 18"
abbreviation RTM_NEWADDR :: nat where "RTM_NEWADDR \<equiv> 20"
abbreviation RTM_GETADDR :: nat where "RTM_GETADDR \<equiv> 22"
abbreviation RTM_NEWROUTE :: nat where "RTM_NEWROUTE \<equiv> 24"
abbreviation RTM_GETROUTE :: nat where "RTM_GETROUTE \<equiv> 26"
abbreviation IFA_ADDRESS :: nat where "IFA_ADDRESS \<equiv> 1"
abbreviation IFA_LOCAL :: nat where "IFA_LOCAL \<equiv> 2"
abbreviation IFLA_ADDRESS :: nat where "IFLA_ADDRESS \<equiv> 1"
abbreviation IFLA_IFNAME :: nat where "IFLA_IFNAME \<equiv> 3"
abbreviation IFLA_MTU :: nat where "IFLA_MTU \<equiv> 4"
abbreviation IFLA_CARRIER :: nat where "IFLA_CARRIER \<equiv> 33"
abbreviation IFF_UP :: nat where "IFF_UP \<equiv> 0x1"
abbreviation IFF_RUNNING :: nat where "IFF_RUNNING \<equiv> 0x40"
abbreviation RTA_DST :: nat where "RTA_DST \<equiv> 1"
abbreviation RTA_OIF :: nat where "RTA_OIF \<equiv> 4"
abbreviation RTA_GATEWAY :: nat where "RTA_GATEWAY \<equiv> 5"
abbreviation RTA_PRIORITY :: nat where "RTA_PRIORITY \<equiv> 6"
abbreviation RTA_PREFSRC :: nat where "RTA_PREFSRC \<equiv> 7"
abbreviation RTA_MULTIPATH :: nat where "RTA_MULTIPATH \<equiv> 9"
abbreviation RTA_TABLE :: nat where "RTA_TABLE \<equiv> 15"

abbreviation sizeof_ifaddrmsg :: nat where "sizeof_ifaddrmsg \<equiv> 8"
abbreviation sizeof_ifinfomsg :: nat where "sizeof_ifinfomsg \<equiv> 16"
abbreviation sizeof_rtmsg :: nat where "sizeof_rtmsg \<equiv> 12"
abbreviation sizeof_rtnexthop :: nat where "sizeof_rtnexthop \<equiv> 8"
abbreviation IF_NAMESIZE :: nat where "IF_NAMESIZE \<equiv> 16"

abbreviation IPSEC_INTERFACE_NAME_LENGTH :: nat where "IPSEC_INTERFACE_NAME_LENGTH \<equiv> 64"
abbreviation IPSEC_MAC_ADDRESS_LENGTH :: nat where "IPSEC_MAC_ADDRESS_LENGTH \<equiv> 128"

text \<open>\<open>if_indextoname\<close> writes at most \<open>IF_NAMESIZE\<close> bytes, or fails.\<close>

definition if_indextoname :: "(nat \<Rightarrow> string option) \<Rightarrow> nat \<Rightarrow> cbuf \<Rightarrow> cbuf option" where
  "if_indextoname names i buf =
     map_option (\<lambda>name. buf_write buf 0 (take (IF_NAMESIZE - 1) name @ [NUL])) (names i)"

subsection \<open>Addresses (\<open>address.c\<close>)\<close>

record IpsecAddressInfo =
  ia_uiInterfaceIndex :: nat
  ia_acInterfaceName :: cbuf
  ia_eFamily :: IpsecAddressFamily
  ia_acAddress :: cbuf
  ia_ucPrefixLength :: nat
  ia_ucScope :: nat

abbreviation sizeof_IpsecAddressInfo :: nat where "sizeof_IpsecAddressInfo \<equiv> 140"

definition zero_address_info :: IpsecAddressInfo where
  "zero_address_info =
     \<lparr>ia_uiInterfaceIndex = 0, ia_acInterfaceName = replicate IPSEC_INTERFACE_NAME_LENGTH NUL,
      ia_eFamily = IPSEC_ADDRESS_FAMILY_UNSPECIFIED,
      ia_acAddress = replicate IPSEC_ADDRESS_LENGTH NUL, ia_ucPrefixLength = 0, ia_ucScope = 0\<rparr>"

definition MapRouteAddressFamily :: "nat \<Rightarrow> IpsecAddressFamily" where
  "MapRouteAddressFamily ucFamily = address_family ucFamily"

definition AppendAddress ::
  "(nat \<Rightarrow> bool) \<Rightarrow> IpsecAddressInfo list \<Rightarrow> IpsecAddressInfo list outcome" where
  "AppendAddress mem pList = grow_array mem sizeof_IpsecAddressInfo zero_address_info pList"

text \<open>The two addresses of a message: \<open>IFA_LOCAL\<close> and, as a fallback, \<open>IFA_ADDRESS\<close>.\<close>

definition address_attribute ::
  "nat \<Rightarrow> bytes \<Rightarrow> bytes option \<times> bytes option \<Rightarrow> (bytes option \<times> bytes option) outcome" where
  "address_attribute type payload v =
     (if type = IFA_LOCAL then ((Some payload, snd v), IPSEC_OK)
      else if type = IFA_ADDRESS then ((fst v, Some payload), IPSEC_OK)
      else (v, IPSEC_OK))"

definition address_text :: "nat \<Rightarrow> bytes option \<Rightarrow> cbuf \<Rightarrow> cbuf outcome" where
  "address_text family pvAddress buf =
     (let zExpectedLength = (if family = AF_INET then 4 else 16) in
      case pvAddress of
        None \<Rightarrow> (buf, IPSEC_ERR_NETLINK_PARSE)
      | Some a \<Rightarrow>
          if zExpectedLength \<noteq> length a then (buf, IPSEC_ERR_NETLINK_PARSE)
          else case inet_ntop family a buf of
                 None \<Rightarrow> (buf, IPSEC_ERR_NETLINK_PARSE)
               | Some buf \<Rightarrow> (buf, IPSEC_OK))"

definition address_item ::
  "(nat \<Rightarrow> string option) \<Rightarrow> bytes \<Rightarrow> IpsecAddressInfo \<Rightarrow> IpsecAddressInfo outcome" where
  "address_item names data pInfo =
     (let family = u8_at 0 data; index = u32_at 4 data;
          pInfo = pInfo\<lparr>ia_uiInterfaceIndex := index, ia_eFamily := MapRouteAddressFamily family,
            ia_ucPrefixLength := u8_at 1 data, ia_ucScope := u8_at 3 data,
            ia_acInterfaceName :=
              (case if_indextoname names index (ia_acInterfaceName pInfo) of
                 None \<Rightarrow> (ia_acInterfaceName pInfo)[0 := NUL]
               | Some buf \<Rightarrow> buf)\<rparr>;
          ((pvAddress, pvFallbackAddress), eError) =
            parse_attributes address_attribute (drop sizeof_ifaddrmsg data) (None, None)
      in if eError \<noteq> IPSEC_OK then (pInfo, eError)
         else edit ia_acAddress ia_acAddress_update
           (address_text family (if pvAddress = None then pvFallbackAddress else pvAddress)) pInfo)"

definition ParseAddressMessage ::
  "(nat \<Rightarrow> bool) \<Rightarrow> (nat \<Rightarrow> string option) \<Rightarrow> nlmsghdr \<Rightarrow> bytes \<Rightarrow> IpsecAddressInfo list
   \<Rightarrow> IpsecAddressInfo list outcome" where
  "ParseAddressMessage mem names pHeader data pList =
     (if nlmsg_type pHeader \<noteq> RTM_NEWADDR \<or> NLMSG_PAYLOAD pHeader < sizeof_ifaddrmsg
      then (pList, IPSEC_ERR_NETLINK_PARSE)
      else if \<not> (u8_at 0 data = AF_INET \<or> u8_at 0 data = AF_INET6) then (pList, IPSEC_OK)
      else
        let (pList, eError) = AppendAddress mem pList in
        if eError \<noteq> IPSEC_OK then (pList, eError)
        else on_last (address_item names data) pList)"

text \<open>The request is a zeroed \<open>struct ifaddrmsg\<close> (\<open>AF_UNSPEC\<close> is 0); the list is freed after an
  error.\<close>

definition GetIpsecAddresses ::
  "(nat \<Rightarrow> bool) \<Rightarrow> Ipsec \<Rightarrow> (Ipsec \<times> IpsecAddressInfo list) outcome" where
  "GetIpsecAddresses mem w =
     (let ((w, pList), eError) =
            ExecuteNetlinkDump NETLINK_ROUTE RTM_GETADDR (Some (replicate sizeof_ifaddrmsg NUL))
              sizeof_ifaddrmsg (Some (ParseAddressMessage mem (os_names w))) (w, [])
      in if eError \<noteq> IPSEC_OK then ((w, []), eError) else ((w, pList), eError))"

subsection \<open>Interfaces (\<open>interface.c\<close>)\<close>

record IpsecInterfaceInfo =
  ii_uiIndex :: nat
  ii_acName :: cbuf
  ii_bUp :: bool
  ii_bRunning :: bool
  ii_bCarrier :: bool
  ii_uiMtu :: nat
  ii_acMacAddress :: cbuf
  ii_uiFlags :: nat

abbreviation sizeof_IpsecInterfaceInfo :: nat where "sizeof_IpsecInterfaceInfo \<equiv> 208"

definition zero_interface_info :: IpsecInterfaceInfo where
  "zero_interface_info =
     \<lparr>ii_uiIndex = 0, ii_acName = replicate IPSEC_INTERFACE_NAME_LENGTH NUL, ii_bUp = False,
      ii_bRunning = False, ii_bCarrier = False, ii_uiMtu = 0,
      ii_acMacAddress = replicate IPSEC_MAC_ADDRESS_LENGTH NUL, ii_uiFlags = 0\<rparr>"

definition AppendInterface ::
  "(nat \<Rightarrow> bool) \<Rightarrow> IpsecInterfaceInfo list \<Rightarrow> IpsecInterfaceInfo list outcome" where
  "AppendInterface mem pList = grow_array mem sizeof_IpsecInterfaceInfo zero_interface_info pList"

text \<open>\<open>%02x\<close> of a byte, and the loop of \<open>snprintf\<close> calls at offset \<open>zUsed\<close>.\<close>

definition hex2 :: "char \<Rightarrow> string" where
  "hex2 b = (let n = of_char b :: nat in
     [''0123456789abcdef'' ! (n div 16), ''0123456789abcdef'' ! (n mod 16)])"

fun mac_loop :: "bytes \<Rightarrow> nat \<Rightarrow> nat \<Rightarrow> cbuf \<Rightarrow> cbuf outcome" where
  "mac_loop [] zIndex zUsed buf = (buf, IPSEC_OK)"
| "mac_loop (b # bs) zIndex zUsed buf =
     (let text = (if zIndex = 0 then hex2 b else '':'' @ hex2 b);
          room = length buf - zUsed;
          buf = buf_write buf zUsed (take (room - 1) text @ [NUL])
      in if room \<le> length text then (buf, IPSEC_ERR_BUFFER_TOO_SMALL)
         else mac_loop bs (zIndex + 1) (zUsed + length text) buf)"

definition FormatInterfaceMacAddress :: "bytes \<Rightarrow> cbuf \<Rightarrow> cbuf outcome" where
  "FormatInterfaceMacAddress pucAddress pcDestination =
     (if length pucAddress = 0 \<or> length pcDestination = 0
      then (pcDestination, IPSEC_ERR_INVALID_ARGUMENT)
      else mac_loop pucAddress 0 0 (pcDestination[0 := NUL]))"

text \<open>The flag says whether the carrier was given.\<close>

definition ParseInterfaceAttribute ::
  "nat \<Rightarrow> bytes \<Rightarrow> IpsecInterfaceInfo \<times> bool \<Rightarrow> (IpsecInterfaceInfo \<times> bool) outcome" where
  "ParseInterfaceAttribute type payload s =
     (let (pInfo, bCarrierPresent) = s in
      if type = IFLA_IFNAME then
        if NUL \<notin> set payload then ((pInfo, bCarrierPresent), IPSEC_ERR_NETLINK_PARSE)
        else (let (i, eError) = copy_to ii_acName ii_acName_update (Some (cstr payload)) pInfo
              in ((i, bCarrierPresent), eError))
      else if type = IFLA_MTU then
        if length payload \<noteq> 4 then ((pInfo, bCarrierPresent), IPSEC_ERR_NETLINK_PARSE)
        else ((pInfo\<lparr>ii_uiMtu := u32_at 0 payload\<rparr>, bCarrierPresent), IPSEC_OK)
      else if type = IFLA_ADDRESS then
        (let (i, eError) = edit ii_acMacAddress ii_acMacAddress_update
               (FormatInterfaceMacAddress payload) pInfo
         in ((i, bCarrierPresent), eError))
      else if type = IFLA_CARRIER then
        if length payload \<noteq> 1 then ((pInfo, bCarrierPresent), IPSEC_ERR_NETLINK_PARSE)
        else ((pInfo\<lparr>ii_bCarrier := u8_at 0 payload \<noteq> 0\<rparr>, True), IPSEC_OK)
      else ((pInfo, bCarrierPresent), IPSEC_OK))"

definition interface_item :: "bytes \<Rightarrow> IpsecInterfaceInfo \<Rightarrow> IpsecInterfaceInfo outcome" where
  "interface_item data pInfo =
     (let flags = u32_at 8 data;
          pInfo = pInfo\<lparr>ii_uiIndex := u32_at 4 data, ii_uiFlags := flags,
            ii_bUp := flags AND IFF_UP \<noteq> 0, ii_bRunning := flags AND IFF_RUNNING \<noteq> 0\<rparr>;
          ((pInfo, bCarrierPresent), eError) =
            parse_attributes ParseInterfaceAttribute (drop sizeof_ifinfomsg data) (pInfo, False)
      in if eError = IPSEC_OK \<and> \<not> bCarrierPresent
         then (pInfo\<lparr>ii_bCarrier := ii_bRunning pInfo\<rparr>, eError)
         else (pInfo, eError))"

definition ParseInterfaceMessage ::
  "(nat \<Rightarrow> bool) \<Rightarrow> nlmsghdr \<Rightarrow> bytes \<Rightarrow> IpsecInterfaceInfo list \<Rightarrow> IpsecInterfaceInfo list outcome" where
  "ParseInterfaceMessage mem pHeader data pList =
     (if nlmsg_type pHeader \<noteq> RTM_NEWLINK \<or> NLMSG_PAYLOAD pHeader < sizeof_ifinfomsg
      then (pList, IPSEC_ERR_NETLINK_PARSE)
      else
        let (pList, eError) = AppendInterface mem pList in
        if eError \<noteq> IPSEC_OK then (pList, eError)
        else on_last (interface_item data) pList)"

definition GetIpsecInterfaces ::
  "(nat \<Rightarrow> bool) \<Rightarrow> Ipsec \<Rightarrow> (Ipsec \<times> IpsecInterfaceInfo list) outcome" where
  "GetIpsecInterfaces mem w =
     (let ((w, pList), eError) =
            ExecuteNetlinkDump NETLINK_ROUTE RTM_GETLINK (Some (replicate sizeof_ifinfomsg NUL))
              sizeof_ifinfomsg (Some (ParseInterfaceMessage mem)) (w, [])
      in if eError \<noteq> IPSEC_OK then ((w, []), eError) else ((w, pList), eError))"

subsection \<open>Routes (\<open>route.c\<close>)\<close>

record RouteAttributeValues =
  rv_pvDestination :: "bytes option"
  rv_pvGateway :: "bytes option"
  rv_pvSource :: "bytes option"
  rv_uiInterfaceIndex :: nat
  rv_uiMetric :: nat
  rv_uiTable :: nat

record IpsecRouteInfo =
  ir_eFamily :: IpsecAddressFamily
  ir_acDestination :: cbuf
  ir_ucPrefixLength :: nat
  ir_acGateway :: cbuf
  ir_acSource :: cbuf
  ir_uiInterfaceIndex :: nat
  ir_acInterfaceName :: cbuf
  ir_uiMetric :: nat
  ir_uiTable :: nat
  ir_ucProtocol :: nat
  ir_ucScope :: nat

abbreviation sizeof_IpsecRouteInfo :: nat where "sizeof_IpsecRouteInfo \<equiv> 280"

definition zero_route_info :: IpsecRouteInfo where
  "zero_route_info =
     \<lparr>ir_eFamily = IPSEC_ADDRESS_FAMILY_UNSPECIFIED,
      ir_acDestination = replicate IPSEC_ADDRESS_LENGTH NUL, ir_ucPrefixLength = 0,
      ir_acGateway = replicate IPSEC_ADDRESS_LENGTH NUL,
      ir_acSource = replicate IPSEC_ADDRESS_LENGTH NUL, ir_uiInterfaceIndex = 0,
      ir_acInterfaceName = replicate IPSEC_INTERFACE_NAME_LENGTH NUL, ir_uiMetric = 0,
      ir_uiTable = 0, ir_ucProtocol = 0, ir_ucScope = 0\<rparr>"

definition MapRouteFamily :: "nat \<Rightarrow> IpsecAddressFamily" where
  "MapRouteFamily ucFamily = address_family ucFamily"

definition AppendRoute :: "(nat \<Rightarrow> bool) \<Rightarrow> IpsecRouteInfo list \<Rightarrow> IpsecRouteInfo list outcome" where
  "AppendRoute mem pList = grow_array mem sizeof_IpsecRouteInfo zero_route_info pList"

definition ReadRouteUint32 :: "bytes \<Rightarrow> IpsecError + nat" where
  "ReadRouteUint32 payload =
     (if length payload \<noteq> 4 then Inl IPSEC_ERR_NETLINK_PARSE else Inr (u32_at 0 payload))"

definition next_hop_attribute ::
  "nat \<Rightarrow> bytes \<Rightarrow> RouteAttributeValues \<Rightarrow> RouteAttributeValues outcome" where
  "next_hop_attribute type payload pValues =
     (if type = RTA_GATEWAY then (pValues\<lparr>rv_pvGateway := Some payload\<rparr>, IPSEC_OK)
      else (pValues, IPSEC_OK))"

text \<open>Only the first next hop is decoded; \<open>RTNH_OK\<close> is the first test.\<close>

definition ParseRouteMultipath ::
  "bytes \<Rightarrow> RouteAttributeValues \<Rightarrow> RouteAttributeValues outcome" where
  "ParseRouteMultipath payload pValues =
     (let rtnh_len = u16_at 0 payload in
      if \<not> (sizeof_rtnexthop \<le> rtnh_len \<and> rtnh_len \<le> length payload)
      then (pValues, IPSEC_ERR_NETLINK_PARSE)
      else
        let pValues = pValues\<lparr>rv_uiInterfaceIndex := u32_at 4 payload\<rparr>;
            (pValues, _, iNestedLength) =
              attribute_loop next_hop_attribute (drop sizeof_rtnexthop payload)
                (int rtnh_len - int sizeof_rtnexthop) pValues
        in (pValues, if iNestedLength \<noteq> 0 then IPSEC_ERR_NETLINK_PARSE else IPSEC_OK))"

definition route_attribute ::
  "nat \<Rightarrow> bytes \<Rightarrow> RouteAttributeValues \<Rightarrow> RouteAttributeValues outcome" where
  "route_attribute type payload pValues =
     (if type = RTA_DST then (pValues\<lparr>rv_pvDestination := Some payload\<rparr>, IPSEC_OK)
      else if type = RTA_GATEWAY then (pValues\<lparr>rv_pvGateway := Some payload\<rparr>, IPSEC_OK)
      else if type = RTA_PREFSRC then (pValues\<lparr>rv_pvSource := Some payload\<rparr>, IPSEC_OK)
      else if type = RTA_OIF then store_to rv_uiInterfaceIndex_update (ReadRouteUint32 payload) pValues
      else if type = RTA_PRIORITY then store_to rv_uiMetric_update (ReadRouteUint32 payload) pValues
      else if type = RTA_TABLE then store_to rv_uiTable_update (ReadRouteUint32 payload) pValues
      else if type = RTA_MULTIPATH then
        if rv_uiInterfaceIndex pValues = 0 then ParseRouteMultipath payload pValues
        else (pValues, IPSEC_OK)
      else (pValues, IPSEC_OK))"

definition ParseRouteAttributes :: "bytes \<Rightarrow> RouteAttributeValues outcome" where
  "ParseRouteAttributes data =
     parse_attributes route_attribute (drop sizeof_rtmsg data)
       \<lparr>rv_pvDestination = None, rv_pvGateway = None, rv_pvSource = None, rv_uiInterfaceIndex = 0,
        rv_uiMetric = 0, rv_uiTable = u8_at 4 data\<rparr>"

definition ConvertRouteAddress ::
  "nat \<Rightarrow> bytes option \<Rightarrow> bool \<Rightarrow> cbuf \<Rightarrow> cbuf outcome" where
  "ConvertRouteAddress ucFamily pvAddress bDefault pcDestination =
     (let zExpectedLength = (if ucFamily = AF_INET then 4 else 16);
          pcDefault = (if ucFamily = AF_INET then ''0.0.0.0'' else ''::'')
      in case pvAddress of
           None \<Rightarrow>
             if bDefault then CopyIpsecString pcDestination (Some pcDefault)
             else (pcDestination[0 := NUL], IPSEC_OK)
         | Some a \<Rightarrow>
             if zExpectedLength \<noteq> length a then (pcDestination[0 := NUL], IPSEC_ERR_NETLINK_PARSE)
             else case inet_ntop ucFamily a pcDestination of
                    None \<Rightarrow> (pcDestination[0 := NUL], IPSEC_ERR_NETLINK_PARSE)
                  | Some buf \<Rightarrow> (buf, IPSEC_OK))"

text \<open>The name of the interface; without an interface the field stays empty.\<close>

definition name_route :: "(nat \<Rightarrow> string option) \<Rightarrow> IpsecRouteInfo \<Rightarrow> IpsecRouteInfo" where
  "name_route names pInfo =
     (if ir_uiInterfaceIndex pInfo \<noteq> 0
      then pInfo\<lparr>ir_acInterfaceName :=
             (case if_indextoname names (ir_uiInterfaceIndex pInfo) (ir_acInterfaceName pInfo) of
                None \<Rightarrow> (ir_acInterfaceName pInfo)[0 := NUL]
              | Some buf \<Rightarrow> buf)\<rparr>
      else pInfo)"

definition route_item ::
  "(nat \<Rightarrow> string option) \<Rightarrow> bytes \<Rightarrow> IpsecRouteInfo \<Rightarrow> IpsecRouteInfo outcome" where
  "route_item names data pInfo =
     (let (Values, eError) = ParseRouteAttributes data; family = u8_at 0 data in
      if eError \<noteq> IPSEC_OK then (pInfo, eError)
      else run_steps
        [\<lambda>i. (i\<lparr>ir_eFamily := MapRouteFamily family, ir_ucPrefixLength := u8_at 1 data,
                ir_uiInterfaceIndex := rv_uiInterfaceIndex Values, ir_uiMetric := rv_uiMetric Values,
                ir_uiTable := rv_uiTable Values, ir_ucProtocol := u8_at 5 data,
                ir_ucScope := u8_at 6 data\<rparr>, IPSEC_OK),
         edit ir_acDestination ir_acDestination_update
           (ConvertRouteAddress family (rv_pvDestination Values) True),
         edit ir_acGateway ir_acGateway_update
           (ConvertRouteAddress family (rv_pvGateway Values) False),
         edit ir_acSource ir_acSource_update
           (ConvertRouteAddress family (rv_pvSource Values) False),
         \<lambda>i. (name_route names i, IPSEC_OK)] pInfo)"

definition ParseRouteMessage ::
  "(nat \<Rightarrow> bool) \<Rightarrow> (nat \<Rightarrow> string option) \<Rightarrow> nlmsghdr \<Rightarrow> bytes \<Rightarrow> IpsecRouteInfo list
   \<Rightarrow> IpsecRouteInfo list outcome" where
  "ParseRouteMessage mem names pHeader data pList =
     (if nlmsg_type pHeader \<noteq> RTM_NEWROUTE \<or> NLMSG_PAYLOAD pHeader < sizeof_rtmsg
      then (pList, IPSEC_ERR_NETLINK_PARSE)
      else if \<not> (u8_at 0 data = AF_INET \<or> u8_at 0 data = AF_INET6) then (pList, IPSEC_OK)
      else
        let (pList, eError) = AppendRoute mem pList in
        if eError \<noteq> IPSEC_OK then (pList, eError)
        else on_last (route_item names data) pList)"

definition GetIpsecRoutes ::
  "(nat \<Rightarrow> bool) \<Rightarrow> Ipsec \<Rightarrow> (Ipsec \<times> IpsecRouteInfo list) outcome" where
  "GetIpsecRoutes mem w =
     (let ((w, pList), eError) =
            ExecuteNetlinkDump NETLINK_ROUTE RTM_GETROUTE (Some (replicate sizeof_rtmsg NUL))
              sizeof_rtmsg (Some (ParseRouteMessage mem (os_names w))) (w, [])
      in if eError \<noteq> IPSEC_OK then ((w, []), eError) else ((w, pList), eError))"

end
