(* ===== verification/RouteProps.thy ===== *)
theory RouteProps
  imports RouteQueries
begin

section \<open>Routes of the kernel\<close>

text \<open>
  What the kernel encodes for a route, and that the query of \<open>ipsec/route/route.c\<close> reads it back.
  The next hop of a route is one gateway and interface, or a list of hops, of which the library
  reports the first.  Messages of other address families are no rows.
\<close>

datatype next_hop =
    OneHop "bytes option" "nat option"
  | Hops "(nat \<times> bytes option) list"

record kernel_route =
  kr_family :: nat
  kr_dst_len :: nat
  kr_table :: nat
  kr_protocol :: nat
  kr_scope :: nat
  kr_src_tos :: bytes
  kr_type_flags :: bytes
  kr_dst :: "bytes option"
  kr_prefsrc :: "bytes option"
  kr_priority :: "nat option"
  kr_table32 :: "nat option"
  kr_hop :: next_hop
  kr_other :: "(nat \<times> bytes) list"

definition rtmsg_bytes :: "kernel_route \<Rightarrow> bytes" where
  "rtmsg_bytes r =
     le_bytes 1 (kr_family r) @ le_bytes 1 (kr_dst_len r) @ kr_src_tos r @ le_bytes 1 (kr_table r) @
     le_bytes 1 (kr_protocol r) @ le_bytes 1 (kr_scope r) @ kr_type_flags r"

definition attr_of :: "nat \<Rightarrow> bytes option \<Rightarrow> (nat \<times> bytes) list" where
  "attr_of t v = (case v of None \<Rightarrow> [] | Some a \<Rightarrow> [(t, a)])"

definition attr_u32 :: "nat \<Rightarrow> nat option \<Rightarrow> (nat \<times> bytes) list" where
  "attr_u32 t v = attr_of t (map_option (le_bytes 4) v)"

text \<open>A hop of \<open>RTA_MULTIPATH\<close>: length, two bytes of flags and weight, the interface, the gateway.\<close>

definition hop_bytes :: "nat \<times> bytes option \<Rightarrow> bytes" where
  "hop_bytes h =
     (let as = concat (map rta_bytes (attr_of RTA_GATEWAY (snd h))) in
      le_bytes 2 (sizeof_rtnexthop + length as) @ replicate 2 NUL @ le_bytes 4 (fst h) @ as)"

definition hop_attributes :: "next_hop \<Rightarrow> (nat \<times> bytes) list" where
  "hop_attributes h =
     (case h of
        OneHop gw oif \<Rightarrow> attr_of RTA_GATEWAY gw @ attr_u32 RTA_OIF oif
      | Hops hs \<Rightarrow> [(RTA_MULTIPATH, concat (map hop_bytes hs))])"

definition route_attributes :: "kernel_route \<Rightarrow> (nat \<times> bytes) list" where
  "route_attributes r =
     kr_other r @ attr_u32 RTA_TABLE (kr_table32 r) @ attr_of RTA_DST (kr_dst r) @
     attr_u32 RTA_PRIORITY (kr_priority r) @ attr_of RTA_PREFSRC (kr_prefsrc r) @
     hop_attributes (kr_hop r)"

definition route_payload :: "kernel_route \<Rightarrow> bytes" where
  "route_payload r = rtmsg_bytes r @ concat (map rta_bytes (route_attributes r))"

definition address_length :: "nat \<Rightarrow> nat" where
  "address_length family = (if family = AF_INET then 4 else 16)"

definition opt_all :: "('a \<Rightarrow> bool) \<Rightarrow> 'a option \<Rightarrow> bool" where
  "opt_all P v = (case v of None \<Rightarrow> True | Some a \<Rightarrow> P a)"

abbreviation known_route_attributes :: "nat set" where
  "known_route_attributes \<equiv>
     {RTA_DST, RTA_GATEWAY, RTA_PREFSRC, RTA_OIF, RTA_PRIORITY, RTA_TABLE, RTA_MULTIPATH}"

definition hop_ok :: "nat \<Rightarrow> next_hop \<Rightarrow> bool" where
  "hop_ok n h =
     (case h of
        OneHop gw oif \<Rightarrow> opt_all (\<lambda>a. length a = n) gw \<and> opt_all (\<lambda>i. i \<le> UINT32_MAX) oif
      | Hops hs \<Rightarrow> hs \<noteq> [] \<and> length hs \<le> 1024 \<and>
          (\<forall>h \<in> set hs. fst h \<le> UINT32_MAX \<and> opt_all (\<lambda>a. length a = n) (snd h)))"

definition route_ok :: "kernel_route \<Rightarrow> bool" where
  "route_ok r \<longleftrightarrow>
     (let n = address_length (kr_family r) in
      (kr_family r = AF_INET \<or> kr_family r = AF_INET6) \<and>
      length (kr_src_tos r) = 2 \<and> length (kr_type_flags r) = 5 \<and> kr_dst_len r \<le> UINT8_MAX \<and>
      kr_table r \<le> UINT8_MAX \<and> kr_protocol r \<le> UINT8_MAX \<and> kr_scope r \<le> UINT8_MAX \<and>
      opt_all (\<lambda>a. length a = n) (kr_dst r) \<and> opt_all (\<lambda>a. length a = n) (kr_prefsrc r) \<and>
      opt_all (\<lambda>v. v \<le> UINT32_MAX) (kr_priority r) \<and> opt_all (\<lambda>v. v \<le> UINT32_MAX) (kr_table32 r) \<and>
      hop_ok n (kr_hop r) \<and>
      (\<forall>a \<in> set (kr_other r). attribute_ok a \<and> fst a \<notin> known_route_attributes))"

text \<open>What the library must report.\<close>

definition hop_gateway :: "next_hop \<Rightarrow> bytes option" where
  "hop_gateway h = (case h of OneHop gw _ \<Rightarrow> gw | Hops hs \<Rightarrow> snd (hd hs))"

definition hop_index :: "next_hop \<Rightarrow> nat" where
  "hop_index h =
     (case h of OneHop _ oif \<Rightarrow> (case oif of None \<Rightarrow> 0 | Some i \<Rightarrow> i) | Hops hs \<Rightarrow> fst (hd hs))"

definition address_shown :: "nat \<Rightarrow> bytes option \<Rightarrow> string \<Rightarrow> cbuf \<Rightarrow> bool" where
  "address_shown family v missing buf =
     (case v of None \<Rightarrow> cstr buf = missing | Some a \<Rightarrow> Some (cstr buf) = inet_text family a)"

definition name_shown :: "(nat \<Rightarrow> string option) \<Rightarrow> nat \<Rightarrow> string" where
  "name_shown names i = (if i = 0 then [] else case names i of None \<Rightarrow> [] | Some n \<Rightarrow> n)"

definition shows_route :: "(nat \<Rightarrow> string option) \<Rightarrow> IpsecRouteInfo \<Rightarrow> kernel_route \<Rightarrow> bool" where
  "shows_route names i r \<longleftrightarrow>
     ir_eFamily i = address_family (kr_family r) \<and>
     address_shown (kr_family r) (kr_dst r)
       (if kr_family r = AF_INET then ''0.0.0.0'' else ''::'') (ir_acDestination i) \<and>
     ir_ucPrefixLength i = kr_dst_len r \<and>
     address_shown (kr_family r) (hop_gateway (kr_hop r)) [] (ir_acGateway i) \<and>
     address_shown (kr_family r) (kr_prefsrc r) [] (ir_acSource i) \<and>
     ir_uiInterfaceIndex i = hop_index (kr_hop r) \<and>
     cstr (ir_acInterfaceName i) = name_shown names (hop_index (kr_hop r)) \<and>
     ir_uiMetric i = (case kr_priority r of None \<Rightarrow> 0 | Some m \<Rightarrow> m) \<and>
     ir_uiTable i = (case kr_table32 r of None \<Rightarrow> kr_table r | Some t \<Rightarrow> t) \<and>
     ir_ucProtocol i = kr_protocol r \<and> ir_ucScope i = kr_scope r"

text \<open>Names of interfaces are shorter than \<open>IF_NAMESIZE\<close>.\<close>

definition names_ok :: "(nat \<Rightarrow> string option) \<Rightarrow> bool" where
  "names_ok names \<longleftrightarrow> (\<forall>i n. names i = Some n \<longrightarrow> length n < IF_NAMESIZE \<and> NUL \<notin> set n)"

subsection \<open>Decoding\<close>

lemma rtmsg_fields:
  assumes "route_ok r"
  shows "length (rtmsg_bytes r) = 12"
    and "u8_at 0 (rtmsg_bytes r @ s) = kr_family r"
    and "u8_at 1 (rtmsg_bytes r @ s) = kr_dst_len r"
    and "u8_at 4 (rtmsg_bytes r @ s) = kr_table r"
    and "u8_at 5 (rtmsg_bytes r @ s) = kr_protocol r"
    and "u8_at 6 (rtmsg_bytes r @ s) = kr_scope r"
  using assms
  by (auto simp: rtmsg_bytes_def route_ok_def Let_def u8_at_def le_value_bytes simp del: le_bytes.simps)

abbreviation route_steps ::
  "(nat \<times> bytes) list \<Rightarrow> RouteAttributeValues \<Rightarrow> RouteAttributeValues outcome" where
  "route_steps as \<equiv> run_steps (map (\<lambda>(t, data). route_attribute t data) as)"

lemma route_steps_other:
  "\<forall>a \<in> set as. fst a \<notin> known_route_attributes \<Longrightarrow> route_steps as v = (v, IPSEC_OK)"
  by (induction as) (auto simp: route_attribute_def)

lemma route_steps_dst:
  "rv_pvDestination v = None \<Longrightarrow>
   route_steps (attr_of RTA_DST d) v = (v\<lparr>rv_pvDestination := d\<rparr>, IPSEC_OK)"
  by (cases d; cases v) (simp_all add: attr_of_def route_attribute_def)

lemma route_steps_src:
  "rv_pvSource v = None \<Longrightarrow>
   route_steps (attr_of RTA_PREFSRC d) v = (v\<lparr>rv_pvSource := d\<rparr>, IPSEC_OK)"
  by (cases d; cases v) (simp_all add: attr_of_def route_attribute_def)

lemma route_steps_gateway:
  "rv_pvGateway v = None \<Longrightarrow>
   route_steps (attr_of RTA_GATEWAY d) v = (v\<lparr>rv_pvGateway := d\<rparr>, IPSEC_OK)"
  by (cases d; cases v) (simp_all add: attr_of_def route_attribute_def)

lemma ReadRouteUint32_bytes: "n \<le> UINT32_MAX \<Longrightarrow> ReadRouteUint32 (le_bytes 4 n) = Inr n"
  by (simp add: ReadRouteUint32_def u32_at_def le_value_bytes del: le_bytes.simps)

lemma route_steps_numbers:
  "opt_all (\<lambda>n. n \<le> UINT32_MAX) m \<Longrightarrow> rv_uiMetric v = 0 \<Longrightarrow>
     route_steps (attr_u32 RTA_PRIORITY m) v =
       (v\<lparr>rv_uiMetric := (case m of None \<Rightarrow> 0 | Some n \<Rightarrow> n)\<rparr>, IPSEC_OK)"
  "opt_all (\<lambda>n. n \<le> UINT32_MAX) m \<Longrightarrow>
     route_steps (attr_u32 RTA_TABLE m) v =
       (v\<lparr>rv_uiTable := (case m of None \<Rightarrow> rv_uiTable v | Some n \<Rightarrow> n)\<rparr>, IPSEC_OK)"
  "opt_all (\<lambda>n. n \<le> UINT32_MAX) m \<Longrightarrow> rv_uiInterfaceIndex v = 0 \<Longrightarrow>
     route_steps (attr_u32 RTA_OIF m) v =
       (v\<lparr>rv_uiInterfaceIndex := (case m of None \<Rightarrow> 0 | Some n \<Rightarrow> n)\<rparr>, IPSEC_OK)"
  by (cases m; cases v; simp add: attr_u32_def attr_of_def route_attribute_def opt_all_def store_to_def
      ReadRouteUint32_bytes del: le_bytes.simps)+

lemma length_attr: "opt_all (\<lambda>a. length a = n) gw \<Longrightarrow> n = 4 \<or> n = 16 \<Longrightarrow>
    length (concat (map rta_bytes (attr_of t gw))) \<le> 20"
  by (cases gw) (auto simp: attr_of_def opt_all_def)

lemma ParseRouteMultipath_first:
  assumes h: "fst h \<le> UINT32_MAX" "opt_all (\<lambda>a. length a = n) (snd h)" "n = 4 \<or> n = 16"
    and v: "rv_pvGateway v = None"
  shows "ParseRouteMultipath (hop_bytes h @ rest) v =
    (v\<lparr>rv_uiInterfaceIndex := fst h, rv_pvGateway := snd h\<rparr>, IPSEC_OK)"
proof -
  let ?as = "attr_of RTA_GATEWAY (snd h)"
  let ?bs = "concat (map rta_bytes ?as)"
  let ?v = "v\<lparr>rv_uiInterfaceIndex := fst h\<rparr>"
  have n: "length ?bs \<le> 20" by (rule length_attr [OF h(2,3)])
  have hop: "hop_bytes h @ rest = le_bytes 2 (8 + length ?bs) @ replicate 2 NUL @ le_bytes 4 (fst h) @ ?bs @ rest"
    by (simp add: hop_bytes_def Let_def)
  have len: "u16_at 0 (hop_bytes h @ rest) = 8 + length ?bs"
    using n unfolding hop u16_at_def by (simp add: le_value_bytes del: le_bytes.simps)
  have idx: "u32_at 4 (hop_bytes h @ rest) = fst h"
    using h(1) unfolding hop u32_at_def by (simp add: le_value_bytes del: le_bytes.simps)
  have drop: "drop 8 (hop_bytes h @ rest) = ?bs @ rest"
    unfolding hop by (simp del: le_bytes.simps)
  have "attribute_loop next_hop_attribute (?bs @ rest) (int (length ?bs)) ?v =
      (?v\<lparr>rv_pvGateway := snd h\<rparr>, IPSEC_OK, 0)"
  proof (cases "snd h")
    case None
    then show ?thesis using v
      by (simp add: attr_of_def) (subst attribute_loop.simps, cases v, simp add: RTA_OK_def)
  next
    case (Some a)
    have a: "attribute_ok (RTA_GATEWAY, a)" using h(2,3) Some by (auto simp: attribute_ok_def opt_all_def)
    note at = rta_at_bytes [OF a, of rest]
    have ok: "RTA_OK (rta_bytes (RTA_GATEWAY, a) @ rest) (int (length ?bs))"
      unfolding RTA_OK_def at using align4_props(1) [of "length a"] by (simp add: Some attr_of_def)
    have al: "align4 (4 + length a) = 4 + align4 (length a)" by (rule align4_rta)
    have fin: "attribute_loop next_hop_attribute rest 0 u = (u, IPSEC_OK, 0)" for u
      by (subst attribute_loop.simps) (simp add: RTA_OK_def)
    show ?thesis
      using ok by (simp add: Some attr_of_def) (subst attribute_loop.simps,
        simp add: at al next_hop_attribute_def fin)
  qed
  moreover have "length (hop_bytes h @ rest) = 8 + length ?bs + length rest"
    unfolding hop by simp
  ultimately show ?thesis
    by (simp add: ParseRouteMultipath_def len idx drop del: drop_append length_append)
qed

lemma route_steps_hop:
  assumes "hop_ok n h" and "n = 4 \<or> n = 16" and "rv_pvGateway v = None" and "rv_uiInterfaceIndex v = 0"
  shows "route_steps (hop_attributes h) v =
    (v\<lparr>rv_uiInterfaceIndex := hop_index h, rv_pvGateway := hop_gateway h\<rparr>, IPSEC_OK)"
proof (cases h)
  case (OneHop gw oif)
  then show ?thesis using assms
    by (cases v) (simp add: hop_attributes_def run_steps_append route_steps_gateway
      route_steps_numbers(3) hop_ok_def hop_index_def hop_gateway_def)
next
  case (Hops hs)
  then obtain x xs where hs: "hs = x # xs" using assms(1) by (cases hs) (auto simp: hop_ok_def)
  have "ParseRouteMultipath (hop_bytes x @ concat (map hop_bytes xs)) v =
      (v\<lparr>rv_uiInterfaceIndex := fst x, rv_pvGateway := snd x\<rparr>, IPSEC_OK)"
    by (rule ParseRouteMultipath_first [of x n]) (use assms Hops hs in \<open>auto simp: hop_ok_def\<close>)
  then show ?thesis using assms(4)
    by (simp add: Hops hs hop_attributes_def route_attribute_def hop_index_def hop_gateway_def)
qed

lemma length_hops:
  assumes "\<forall>h \<in> set hs. opt_all (\<lambda>a. length a = n) (snd h)" and "n = 4 \<or> n = 16"
  shows "length (concat (map hop_bytes hs)) \<le> 28 * length hs"
  using assms(1)
proof (induction hs)
  case (Cons h hs)
  have "length (hop_bytes h) \<le> 28"
    using length_attr [of n "snd h" RTA_GATEWAY] Cons.prems assms(2)
    by (simp add: hop_bytes_def Let_def)
  then show ?case using Cons by simp
qed simp

lemma attr_of_ok:
  "opt_all (\<lambda>a. length a \<le> 65000) v \<Longrightarrow> t \<le> UINT16_MAX \<Longrightarrow> \<forall>a \<in> set (attr_of t v). attribute_ok a"
  by (cases v) (auto simp: attr_of_def opt_all_def attribute_ok_def)

lemma attr_u32_ok: "t \<le> UINT16_MAX \<Longrightarrow> \<forall>a \<in> set (attr_u32 t v). attribute_ok a"
  unfolding attr_u32_def by (rule attr_of_ok) (cases v, auto simp: opt_all_def)

lemma opt_all_mono: "opt_all P v \<Longrightarrow> (\<And>a. P a \<Longrightarrow> Q a) \<Longrightarrow> opt_all Q v"
  by (cases v) (auto simp: opt_all_def)

lemma route_attributes_ok:
  assumes "route_ok r"
  shows "\<forall>a \<in> set (route_attributes r). attribute_ok a"
proof -
  let ?n = "address_length (kr_family r)"
  have n: "?n = 4 \<or> ?n = 16" by (simp add: address_length_def)
  have r: "opt_all (\<lambda>a. length a = ?n) (kr_dst r)" "opt_all (\<lambda>a. length a = ?n) (kr_prefsrc r)"
    "hop_ok ?n (kr_hop r)" "\<forall>a \<in> set (kr_other r). attribute_ok a"
    using assms by (auto simp: route_ok_def Let_def)
  have small: "opt_all (\<lambda>a. length a \<le> 65000) v" if "opt_all (\<lambda>a. length a = ?n) v" for v :: "bytes option"
    using that n by (auto elim!: opt_all_mono)
  have "\<forall>a \<in> set (hop_attributes (kr_hop r)). attribute_ok a"
  proof (cases "kr_hop r")
    case (OneHop gw oif)
    then show ?thesis using r(3) small attr_of_ok [of gw RTA_GATEWAY] attr_u32_ok [of RTA_OIF oif]
      by (auto simp: hop_attributes_def hop_ok_def)
  next
    case (Hops hs)
    then have "length (concat (map hop_bytes hs)) \<le> 28 * length hs" "length hs \<le> 1024"
      using r(3) length_hops [of hs ?n] n by (auto simp: hop_ok_def)
    then show ?thesis by (simp add: Hops hop_attributes_def attribute_ok_def)
  qed
  then show ?thesis
    using r(4) attr_of_ok [OF small [OF r(1)], of RTA_DST] attr_of_ok [OF small [OF r(2)], of RTA_PREFSRC]
      attr_u32_ok [of RTA_TABLE "kr_table32 r"] attr_u32_ok [of RTA_PRIORITY "kr_priority r"]
    by (auto simp: route_attributes_def)
qed

lemma route_values:
  assumes "route_ok r"
  shows "ParseRouteAttributes (route_payload r) =
    (\<lparr>rv_pvDestination = kr_dst r, rv_pvGateway = hop_gateway (kr_hop r), rv_pvSource = kr_prefsrc r,
      rv_uiInterfaceIndex = hop_index (kr_hop r),
      rv_uiMetric = (case kr_priority r of None \<Rightarrow> 0 | Some m \<Rightarrow> m),
      rv_uiTable = (case kr_table32 r of None \<Rightarrow> kr_table r | Some t \<Rightarrow> t)\<rparr>, IPSEC_OK)"
proof -
  let ?n = "address_length (kr_family r)"
  let ?as = "concat (map rta_bytes (route_attributes r))"
  have n: "?n = 4 \<or> ?n = 16" by (simp add: address_length_def)
  have r: "hop_ok ?n (kr_hop r)" "\<forall>a \<in> set (kr_other r). fst a \<notin> known_route_attributes"
    "opt_all (\<lambda>v. v \<le> UINT32_MAX) (kr_priority r)" "opt_all (\<lambda>v. v \<le> UINT32_MAX) (kr_table32 r)"
    using assms by (auto simp: route_ok_def Let_def)
  have d: "drop sizeof_rtmsg (route_payload r) = ?as"
    using rtmsg_fields(1) [OF assms] by (simp add: route_payload_def)
  have t: "u8_at 4 (route_payload r) = kr_table r"
    unfolding route_payload_def by (rule rtmsg_fields(4) [OF assms])
  show ?thesis unfolding ParseRouteAttributes_def d t
    by (rule parse_attributes_bytes [OF route_attributes_ok [OF assms]])
      (simp add: route_attributes_def run_steps_append route_steps_other [OF r(2)]
        route_steps_numbers(1,2) r(3,4) route_steps_dst route_steps_src route_steps_hop [OF r(1) n]
        del: One_nat_def cong: option.case_cong)
qed

lemma inet_ntop_text:
  assumes "family = AF_INET \<or> family = AF_INET6" and "length a = address_length family"
    and "length buf = IPSEC_ADDRESS_LENGTH"
  shows "\<exists>buf'. inet_ntop family a buf = Some buf' \<and> Some (cstr buf') = inet_text family a"
proof -
  have "length (inet_ntop4 a) \<le> 4 * length a" "NUL \<notin> set (inet_ntop4 a)"
    by (rule inet_ntop4_props)+
  moreover have "length a \<le> 16" using assms(2) by (simp add: address_length_def split: if_splits)
  then have "length (inet_ntop6 a) \<le> 45" "NUL \<notin> set (inet_ntop6 a)"
    by (rule inet_ntop6_props)+
  ultimately show ?thesis using assms
    by (auto simp: inet_ntop_def inet_text_def address_length_def cstr_buf_write0 cstr_id)
qed

lemma ConvertRouteAddress_shown:
  assumes "family = AF_INET \<or> family = AF_INET6" and "opt_all (\<lambda>a. length a = address_length family) v"
  shows "\<exists>buf. ConvertRouteAddress family v bDefault (replicate IPSEC_ADDRESS_LENGTH NUL) = (buf, IPSEC_OK) \<and>
    address_shown family v
      (if bDefault then if family = AF_INET then ''0.0.0.0'' else ''::'' else []) buf"
proof (cases v)
  case None
  then show ?thesis
    using cstr_buf_write0 [of "replicate IPSEC_ADDRESS_LENGTH NUL" "''0.0.0.0''"]
      cstr_buf_write0 [of "replicate IPSEC_ADDRESS_LENGTH NUL" "''::''"]
    by (auto simp: ConvertRouteAddress_def CopyIpsecString_def address_shown_def Let_def cstr_Cons)
next
  case (Some a)
  then have "length a = address_length family" using assms(2) by (simp add: opt_all_def)
  from inet_ntop_text [OF assms(1) this, of "replicate IPSEC_ADDRESS_LENGTH NUL"] this Some show ?thesis
    by (auto simp: ConvertRouteAddress_def address_shown_def address_length_def)
qed

lemma name_route_shown:
  assumes "names_ok names" and "ir_acInterfaceName i = replicate IPSEC_INTERFACE_NAME_LENGTH NUL"
  shows "cstr (ir_acInterfaceName (name_route names i)) = name_shown names (ir_uiInterfaceIndex i)"
proof (cases "names (ir_uiInterfaceIndex i)")
  case (Some n)
  then have "length n < IF_NAMESIZE" and nul: "NUL \<notin> set n" using assms(1) by (auto simp: names_ok_def)
  then have "take (IF_NAMESIZE - 1) n = n" by simp
  then show ?thesis using assms(2) Some nul
    by (simp add: name_route_def name_shown_def if_indextoname_def cstr_buf_write0 cstr_id)
qed (use assms(2) in \<open>simp add: name_route_def name_shown_def if_indextoname_def\<close>)

lemma name_route_fields [simp]:
  "ir_eFamily (name_route names i) = ir_eFamily i" "ir_acDestination (name_route names i) = ir_acDestination i"
  "ir_ucPrefixLength (name_route names i) = ir_ucPrefixLength i"
  "ir_acGateway (name_route names i) = ir_acGateway i" "ir_acSource (name_route names i) = ir_acSource i"
  "ir_uiInterfaceIndex (name_route names i) = ir_uiInterfaceIndex i"
  "ir_uiMetric (name_route names i) = ir_uiMetric i" "ir_uiTable (name_route names i) = ir_uiTable i"
  "ir_ucProtocol (name_route names i) = ir_ucProtocol i" "ir_ucScope (name_route names i) = ir_ucScope i"
  by (simp_all add: name_route_def)

lemma ParseRouteMessage_route:
  assumes r: "route_ok r" and h: "header_ok q m" "nlmsg_type (fst m) = RTM_NEWROUTE"
    and m: "snd m = route_payload r" and len: "length (snd m) \<le> IPSEC_NETLINK_RECEIVE_LENGTH"
    and mem: "\<forall>n. mem n" and names: "names_ok names" and n: "length items < UINT32_MAX"
  shows "\<exists>i. ParseRouteMessage mem names (fst m) (snd m) items = (items @ [i], IPSEC_OK) \<and>
    shows_route names i r"
proof -
  let ?n = "address_length (kr_family r)"
  let ?z = "replicate IPSEC_ADDRESS_LENGTH NUL"
  note f = rtmsg_fields(2-) [OF r, of "concat (map rta_bytes (route_attributes r))",
      folded route_payload_def, folded m]
  note f' = rtmsg_fields(2-) [OF r, of "concat (map rta_bytes (route_attributes r))",
      folded route_payload_def]
  have fam: "kr_family r = AF_INET \<or> kr_family r = AF_INET6"
    and dst: "opt_all (\<lambda>a. length a = ?n) (kr_dst r)" and src: "opt_all (\<lambda>a. length a = ?n) (kr_prefsrc r)"
    and hop: "hop_ok ?n (kr_hop r)"
    using r by (auto simp: route_ok_def Let_def)
  have gw: "opt_all (\<lambda>a. length a = ?n) (hop_gateway (kr_hop r))"
    using hop by (auto simp: hop_ok_def hop_gateway_def split: next_hop.splits)
  have pay: "\<not> NLMSG_PAYLOAD (fst m) < sizeof_rtmsg"
    using NLMSG_PAYLOAD_data [OF h(1) len] rtmsg_fields(1) [OF r] by (simp add: m route_payload_def)
  have grow: "AppendRoute mem items = (items @ [zero_route_info], IPSEC_OK)"
    unfolding AppendRoute_def by (rule grow_array_ok [OF mem n]) simp_all
  obtain b1 where b1: "ConvertRouteAddress (kr_family r) (kr_dst r) True ?z = (b1, IPSEC_OK)"
    "address_shown (kr_family r) (kr_dst r) (if kr_family r = AF_INET then ''0.0.0.0'' else ''::'') b1"
    using ConvertRouteAddress_shown [OF fam dst, of True] by auto
  obtain b2 where b2: "ConvertRouteAddress (kr_family r) (hop_gateway (kr_hop r)) False ?z = (b2, IPSEC_OK)"
    "address_shown (kr_family r) (hop_gateway (kr_hop r)) [] b2"
    using ConvertRouteAddress_shown [OF fam gw, of False] by auto
  obtain b3 where b3: "ConvertRouteAddress (kr_family r) (kr_prefsrc r) False ?z = (b3, IPSEC_OK)"
    "address_shown (kr_family r) (kr_prefsrc r) [] b3"
    using ConvertRouteAddress_shown [OF fam src, of False] by auto
  let ?i = "zero_route_info\<lparr>ir_eFamily := address_family (kr_family r),
      ir_ucPrefixLength := kr_dst_len r, ir_uiInterfaceIndex := hop_index (kr_hop r),
      ir_uiMetric := (case kr_priority r of None \<Rightarrow> 0 | Some m \<Rightarrow> m),
      ir_uiTable := (case kr_table32 r of None \<Rightarrow> kr_table r | Some t \<Rightarrow> t),
      ir_ucProtocol := kr_protocol r, ir_ucScope := kr_scope r,
      ir_acDestination := b1, ir_acGateway := b2, ir_acSource := b3\<rparr>"
  have "route_item names (snd m) zero_route_info = (name_route names ?i, IPSEC_OK)"
    using route_values [OF r] b1(1) b2(1) b3(1)
    by (simp add: route_item_def m f' edit_def zero_route_info_def MapRouteFamily_def
      del: One_nat_def)
  then have "ParseRouteMessage mem names (fst m) (snd m) items = (items @ [name_route names ?i], IPSEC_OK)"
    using h(2) pay fam by (simp add: ParseRouteMessage_def f grow on_last_def)
  moreover have "cstr (ir_acInterfaceName (name_route names ?i)) = name_shown names (hop_index (kr_hop r))"
    using name_route_shown [OF names, of ?i] by (simp add: zero_route_info_def)
  then have "shows_route names (name_route names ?i) r"
    using b1(2) b2(2) b3(2) by (simp add: shows_route_def)
  ultimately show ?thesis by blast
qed

text \<open>A message of the dump carries a route, or is of another family and carries none.\<close>

definition carries_route :: "nlmsghdr \<times> bytes \<Rightarrow> kernel_route list \<Rightarrow> bool" where
  "carries_route m rs \<longleftrightarrow>
     nlmsg_type (fst m) = RTM_NEWROUTE \<and>
     (rs = [] \<and> sizeof_rtmsg \<le> length (snd m) \<and> u8_at 0 (snd m) \<notin> {AF_INET, AF_INET6} \<or>
      (\<exists>r. rs = [r] \<and> route_ok r \<and> snd m = route_payload r))"

text \<open>C26: A dump of routes is read back completely: whatever the division into datagrams, the order of
  unknown attributes and the interruptions, the list shows the IPv4 and IPv6 routes of the kernel
  in order and nothing else.  A missing destination is the default route of the family; gateway and
  interface are those of the route or of the first hop of a multipath route; the table is the 32-bit
  one when it is given, and the interface is named when the system knows its name.\<close>

theorem GetIpsecRoutes_roundtrip:
  assumes "os_trace w = dump_trace fd clk k n ds jk (last_datagram ms m junk)"
    and "kernel_answer (sequence_of clk) ds ms m junk"
    and "list_all2 carries_route (concat (map snd ds) @ ms) rss"
    and "sizeof_nlmsghdr + sizeof_rtmsg \<le> n" and "int fd \<notin> set (os_open w)"
    and "\<forall>n. mem n" and "names_ok (os_names w)"
  shows "\<exists>w1 rows. GetIpsecRoutes mem w = ((w1, rows), IPSEC_OK) \<and>
    list_all2 (shows_route (os_names w)) rows (concat rss) \<and> os_open w1 = os_open w \<and>
    os_requests w1 = os_requests w @ [(int fd, NETLINK_ROUTE,
      nlmsghdr_bytes (dump_request RTM_GETROUTE 12 (sequence_of clk)) @ replicate 12 NUL)]"
proof -
  have step: "\<exists>new. ParseRouteMessage mem (os_names w) (fst x) (snd x) rows = (rows @ new, IPSEC_OK) \<and>
      list_all2 (shows_route (os_names w)) new rs \<and> length new \<le> 1"
    if x: "data_message (sequence_of clk) x" "length (snd x) \<le> IPSEC_NETLINK_RECEIVE_LENGTH"
      "carries_route x rs" "length rows < UINT32_MAX" for x rs rows
  proof -
    have h: "header_ok (sequence_of clk) x" using x(1) by (simp add: data_message_def)
    consider "rs = []" "sizeof_rtmsg \<le> length (snd x)" "u8_at 0 (snd x) \<notin> {AF_INET, AF_INET6}"
      | r where "rs = [r]" "route_ok r" "snd x = route_payload r"
      using x(3) unfolding carries_route_def by blast
    then show ?thesis
    proof cases
      case 1
      then show ?thesis using x(3) NLMSG_PAYLOAD_data [OF h x(2)]
        by (auto simp: ParseRouteMessage_def carries_route_def)
    next
      case 2
      then show ?thesis
        using ParseRouteMessage_route [OF 2(2) h _ 2(3) x(2) assms(6,7) x(4)] x(3)
        by (fastforce simp: carries_route_def)
    qed
  qed
  have "\<exists>w1 rows. ExecuteNetlinkDump NETLINK_ROUTE RTM_GETROUTE (Some (replicate 12 NUL))
        (length (replicate 12 NUL)) (Some (ParseRouteMessage mem (os_names w))) (w, []) =
        ((w1, rows), IPSEC_OK) \<and>
      list_all2 (shows_route (os_names w)) rows (concat rss) \<and> os_open w1 = os_open w \<and>
      os_log w1 = os_log w \<and> os_requests w1 = os_requests w @ [(int fd, NETLINK_ROUTE,
        nlmsghdr_bytes (dump_request RTM_GETROUTE (length (replicate 12 NUL)) (sequence_of clk)) @
        replicate 12 NUL)]"
    by (rule ExecuteNetlinkDump_rows [OF assms(1,2) _ _ assms(5,3)]) (use assms(4) step in auto)
  then show ?thesis by (auto simp: GetIpsecRoutes_def)
qed

definition sample_route :: kernel_route where
  "sample_route =
     \<lparr>kr_family = AF_INET, kr_dst_len = 0, kr_table = 254, kr_protocol = 3, kr_scope = 0,
      kr_src_tos = [NUL, NUL], kr_type_flags = replicate 5 NUL, kr_dst = None, kr_prefsrc = None,
      kr_priority = Some 100, kr_table32 = Some 254,
      kr_hop = Hops [(2, Some [CHR 0x0A, NUL, NUL, CHR 0x01]), (3, None)], kr_other = []\<rparr>"

lemma sample_route_ok: "route_ok sample_route"
  by (simp add: route_ok_def sample_route_def hop_ok_def opt_all_def address_length_def)

theorem GetIpsecRoutes_roundtrip_witness:
  "\<exists>w1 rows. GetIpsecRoutes (\<lambda>_. True)
      (sample_world [] (dump_trace 7 (0, 0, 0) 0 28 [] (0, 1)
        (last_datagram [sample_header RTM_NEWROUTE (route_payload sample_route)]
          (sample_header NLMSG_DONE []) []))) = ((w1, rows), IPSEC_OK) \<and>
    list_all2 (shows_route (\<lambda>_. None)) rows [sample_route]"
proof -
  let ?m = "sample_header RTM_NEWROUTE (route_payload sample_route)"
  let ?w = "sample_world [] (dump_trace 7 (0, 0, 0) 0 28 [] (0, 1)
      (last_datagram [?m] (sample_header NLMSG_DONE []) []))"
  have len: "length (route_payload sample_route) \<le> 65000"
    using rtmsg_fields(1) [OF sample_route_ok]
    by (simp add: route_payload_def) (simp add: route_attributes_def attr_u32_def attr_of_def
      hop_attributes_def hop_bytes_def sample_route_def align4_def)
  have c: "list_all2 carries_route [?m] [[sample_route]]"
    using sample_route_ok by (simp add: carries_route_def sample_header_def)
  show ?thesis
    using GetIpsecRoutes_roundtrip [of ?w 7 "(0, 0, 0)" 0 28 "[]" "(0, 1)" "[?m]"
        "sample_header NLMSG_DONE []" "[]" "[[sample_route]]" "\<lambda>_. True"]
      sample_answer [OF len, of RTM_NEWROUTE] c
    by (auto simp: sample_world_def names_ok_def)
qed

end
