(* ===== verification/LinkProps.thy ===== *)
theory LinkProps
  imports RouteProps
begin

section \<open>Interfaces and addresses of the kernel\<close>

text \<open>
  What the kernel encodes for a network interface and for an address, and that the queries of
  \<open>ipsec/route/interface.c\<close> and \<open>address.c\<close> read them back.
\<close>

subsection \<open>Interfaces\<close>

record kernel_link =
  kl_index :: nat
  kl_flags :: nat
  kl_name :: string
  kl_mtu :: "nat option"
  kl_mac :: "bytes option"
  kl_carrier :: "nat option"
  kl_other :: "(nat \<times> bytes) list"
  kl_family_type :: bytes
  kl_change :: bytes

definition ifinfomsg_bytes :: "kernel_link \<Rightarrow> bytes" where
  "ifinfomsg_bytes k =
     kl_family_type k @ le_bytes 4 (kl_index k) @ le_bytes 4 (kl_flags k) @ kl_change k"

definition link_attributes :: "kernel_link \<Rightarrow> (nat \<times> bytes) list" where
  "link_attributes k =
     (IFLA_IFNAME, kl_name k @ [NUL]) # kl_other k @ attr_u32 IFLA_MTU (kl_mtu k) @
     attr_of IFLA_CARRIER (map_option (le_bytes 1) (kl_carrier k)) @ attr_of IFLA_ADDRESS (kl_mac k)"

definition link_payload :: "kernel_link \<Rightarrow> bytes" where
  "link_payload k = ifinfomsg_bytes k @ concat (map rta_bytes (link_attributes k))"

definition link_ok :: "kernel_link \<Rightarrow> bool" where
  "link_ok k \<longleftrightarrow>
     length (kl_family_type k) = 4 \<and> length (kl_change k) = 4 \<and> kl_index k \<le> UINT32_MAX \<and>
     kl_flags k \<le> UINT32_MAX \<and> NUL \<notin> set (kl_name k) \<and> length (kl_name k) < IF_NAMESIZE \<and>
     opt_all (\<lambda>m. m \<le> UINT32_MAX) (kl_mtu k) \<and>
     opt_all (\<lambda>a. 0 < length a \<and> length a \<le> 32) (kl_mac k) \<and>
     opt_all (\<lambda>c. c \<le> UINT8_MAX) (kl_carrier k) \<and>
     (\<forall>a \<in> set (kl_other k). attribute_ok a \<and>
        fst a \<notin> {IFLA_IFNAME, IFLA_MTU, IFLA_ADDRESS, IFLA_CARRIER})"

definition mac_text :: "bytes \<Rightarrow> string" where
  "mac_text bs = join_with '':'' (map hex2 bs)"

definition shows_link :: "IpsecInterfaceInfo \<Rightarrow> kernel_link \<Rightarrow> bool" where
  "shows_link i k \<longleftrightarrow>
     ii_uiIndex i = kl_index k \<and> cstr (ii_acName i) = kl_name k \<and> ii_uiFlags i = kl_flags k \<and>
     ii_bUp i = (kl_flags k AND IFF_UP \<noteq> 0) \<and> ii_bRunning i = (kl_flags k AND IFF_RUNNING \<noteq> 0) \<and>
     ii_bCarrier i = (case kl_carrier k of None \<Rightarrow> kl_flags k AND IFF_RUNNING \<noteq> 0 | Some c \<Rightarrow> c \<noteq> 0) \<and>
     ii_uiMtu i = (case kl_mtu k of None \<Rightarrow> 0 | Some m \<Rightarrow> m) \<and>
     cstr (ii_acMacAddress i) = (case kl_mac k of None \<Rightarrow> [] | Some a \<Rightarrow> mac_text a)"

lemma ifinfomsg_fields:
  assumes "link_ok k"
  shows "length (ifinfomsg_bytes k) = 16"
    and "u32_at 4 (ifinfomsg_bytes k @ s) = kl_index k"
    and "u32_at 8 (ifinfomsg_bytes k @ s) = kl_flags k"
  using assms
  by (auto simp: ifinfomsg_bytes_def link_ok_def u32_at_def le_value_bytes simp del: le_bytes.simps)

text \<open>The loop over the bytes of the hardware address writes the joined text.\<close>

lemma length_hex2 [simp]: "length (hex2 b) = 2"
  by (simp add: hex2_def Let_def)

lemma hex2_no_NUL: "NUL \<notin> set (hex2 b)"
proof -
  have d: "''0123456789abcdef'' ! k \<noteq> NUL" if "k < 16" for k
  proof -
    have "list_all (\<lambda>c. c \<noteq> NUL) ''0123456789abcdef''" by simp
    then show ?thesis using that by (auto simp: list_all_length)
  qed
  have "of_char b div 16 < (16 :: nat)" "of_char b mod 16 < (16 :: nat)"
    using nat_of_char_less_256 [of b] by (simp_all add: less_mult_imp_div_less)
  from d [OF this(1)] d [OF this(2)] show ?thesis by (auto simp: hex2_def Let_def dest: sym)
qed

lemma length_colons: "length (concat (map (\<lambda>b. '':'' @ hex2 b) bs)) = 3 * length bs"
  by (induction bs) simp_all

lemma mac_loop_text:
  assumes "cstr buf = t" and "zUsed = length t" and "length buf = n"
    and "zUsed + 3 * length bs < n" and "zIndex \<noteq> 0" and "NUL \<notin> set t"
  shows "\<exists>buf'. mac_loop bs zIndex zUsed buf = (buf', IPSEC_OK) \<and> length buf' = n \<and>
    cstr buf' = t @ concat (map (\<lambda>b. '':'' @ hex2 b) bs)"
  using assms
proof (induction bs arbitrary: buf t zIndex zUsed)
  case (Cons b bs)
  let ?s = "'':'' @ hex2 b"
  let ?buf = "buf_write buf zUsed (?s @ [NUL])"
  have room: "\<not> length buf - zUsed \<le> length ?s" "take (length buf - zUsed - 1) ?s = ?s"
    using Cons.prems by simp_all
  have len: "length ?buf = n" using Cons.prems by (simp add: length_buf_write)
  have tk: "take zUsed buf = t"
    using Cons.prems(1,2) take_strlen [of buf] by (simp add: strlen_def)
  have c: "cstr ?buf = t @ ?s"
    using Cons.prems(6) hex2_no_NUL [of b] tk by (simp add: buf_write_def cstr_append cstr_id cstr_Cons)
  have "\<exists>buf'. mac_loop bs (zIndex + 1) (zUsed + length ?s) ?buf = (buf', IPSEC_OK) \<and> length buf' = n \<and>
      cstr buf' = (t @ ?s) @ concat (map (\<lambda>b. '':'' @ hex2 b) bs)"
    by (rule Cons.IH [OF c _ len]) (use Cons.prems hex2_no_NUL [of b] in auto)
  moreover have "mac_loop (b # bs) zIndex zUsed buf = mac_loop bs (zIndex + 1) (zUsed + length ?s) ?buf"
    using Cons.prems(5) room by (simp add: Let_def)
  ultimately show ?case by simp
qed simp

lemma join_with_tail: "join_with sep (t # ts) = t @ concat (map (\<lambda>u. sep @ u) ts)"
  by (induction ts arbitrary: t) auto

lemma FormatInterfaceMacAddress_text:
  assumes "0 < length a" and "length a \<le> 32" and "length buf = IPSEC_MAC_ADDRESS_LENGTH"
  shows "\<exists>buf'. FormatInterfaceMacAddress a buf = (buf', IPSEC_OK) \<and>
    length buf' = IPSEC_MAC_ADDRESS_LENGTH \<and> cstr buf' = mac_text a"
proof -
  obtain b bs where a: "a = b # bs" using assms(1) by (cases a) auto
  let ?buf = "buf_write (buf[0 := NUL]) 0 (hex2 b @ [NUL])"
  have c: "cstr ?buf = hex2 b" using hex2_no_NUL [of b] by (simp add: cstr_buf_write0 cstr_id)
  have "\<exists>buf'. mac_loop bs 1 2 ?buf = (buf', IPSEC_OK) \<and> length buf' = 128 \<and>
      cstr buf' = hex2 b @ concat (map (\<lambda>b. '':'' @ hex2 b) bs)"
    by (rule mac_loop_text [OF c]) (use assms a hex2_no_NUL [of b] in \<open>auto simp: length_buf_write\<close>)
  then show ?thesis using assms(3) a
    by (auto simp: FormatInterfaceMacAddress_def mac_text_def join_with_tail comp_def Let_def numeral_2_eq_2)
qed

abbreviation link_steps ::
  "(nat \<times> bytes) list \<Rightarrow> IpsecInterfaceInfo \<times> bool \<Rightarrow> (IpsecInterfaceInfo \<times> bool) outcome" where
  "link_steps as \<equiv> run_steps (map (\<lambda>(t, data). ParseInterfaceAttribute t data) as)"

lemma link_steps_other:
  "\<forall>a \<in> set as. fst a \<notin> {IFLA_IFNAME, IFLA_MTU, IFLA_ADDRESS, IFLA_CARRIER} \<Longrightarrow>
   link_steps as s = (s, IPSEC_OK)"
  by (induction as) (auto simp: ParseInterfaceAttribute_def)

lemma link_steps_name:
  assumes "NUL \<notin> set n" and "length n < IF_NAMESIZE" and "length (ii_acName i) = 64"
  shows "ParseInterfaceAttribute IFLA_IFNAME (n @ [NUL]) (i, c) =
    ((i\<lparr>ii_acName := buf_write (ii_acName i) 0 (n @ [NUL])\<rparr>, c), IPSEC_OK)"
proof -
  have "cstr (n @ [NUL]) = n" using assms(1) by (simp add: cstr_id)
  then show ?thesis using assms
    by (cases "ii_acName i") (simp_all add: ParseInterfaceAttribute_def copy_to_def CopyIpsecString_def)
qed

lemma link_steps_mtu:
  "opt_all (\<lambda>m. m \<le> UINT32_MAX) m \<Longrightarrow> ii_uiMtu i = 0 \<Longrightarrow>
   link_steps (attr_u32 IFLA_MTU m) (i, c) =
     ((i\<lparr>ii_uiMtu := (case m of None \<Rightarrow> 0 | Some n \<Rightarrow> n)\<rparr>, c), IPSEC_OK)"
  by (cases m; cases i) (simp_all add: attr_u32_def attr_of_def opt_all_def ParseInterfaceAttribute_def
    u32_at_def le_value_bytes del: le_bytes.simps)

lemma link_steps_carrier:
  "opt_all (\<lambda>m. m \<le> UINT8_MAX) m \<Longrightarrow> ii_bCarrier i = False \<Longrightarrow>
   link_steps (attr_of IFLA_CARRIER (map_option (le_bytes 1) m)) (i, False) =
     ((i\<lparr>ii_bCarrier := (case m of None \<Rightarrow> False | Some n \<Rightarrow> n \<noteq> 0)\<rparr>, m \<noteq> None), IPSEC_OK)"
  by (cases m; cases i) (simp_all add: attr_of_def opt_all_def ParseInterfaceAttribute_def
    u8_at_def le_value_bytes del: le_bytes.simps One_nat_def)

lemma link_steps_mac:
  assumes "opt_all (\<lambda>a. 0 < length a \<and> length a \<le> 32) m"
    and "ii_acMacAddress i = replicate IPSEC_MAC_ADDRESS_LENGTH NUL"
  shows "\<exists>buf. link_steps (attr_of IFLA_ADDRESS m) (i, c) = ((i\<lparr>ii_acMacAddress := buf\<rparr>, c), IPSEC_OK) \<and>
    cstr buf = (case m of None \<Rightarrow> [] | Some a \<Rightarrow> mac_text a)"
proof (cases m)
  case None
  then show ?thesis using assms(2) by (intro exI [of _ "ii_acMacAddress i"]) (simp add: attr_of_def)
next
  case (Some a)
  then obtain buf where "FormatInterfaceMacAddress a (ii_acMacAddress i) = (buf, IPSEC_OK)"
    "cstr buf = mac_text a"
    using FormatInterfaceMacAddress_text [of a "ii_acMacAddress i"] assms by (auto simp: opt_all_def)
  then show ?thesis using Some
    by (auto simp: attr_of_def ParseInterfaceAttribute_def edit_def)
qed

lemma link_attributes_ok:
  assumes "link_ok k"
  shows "\<forall>a \<in> set (link_attributes k). attribute_ok a"
proof -
  have "opt_all (\<lambda>a. length a \<le> 65000) (kl_mac k)"
    using assms by (auto simp: link_ok_def elim!: opt_all_mono)
  moreover have "opt_all (\<lambda>a. length a \<le> 65000) (map_option (le_bytes 1) (kl_carrier k))"
    by (cases "kl_carrier k") (simp_all add: opt_all_def)
  ultimately show ?thesis
    using assms attr_of_ok [of "kl_mac k" IFLA_ADDRESS] attr_u32_ok [of IFLA_MTU "kl_mtu k"]
      attr_of_ok [of "map_option (le_bytes 1) (kl_carrier k)" IFLA_CARRIER]
    by (auto simp: link_attributes_def link_ok_def attribute_ok_def)
qed

lemma ParseInterfaceMessage_link:
  assumes k: "link_ok k" and h: "header_ok q m" "nlmsg_type (fst m) = RTM_NEWLINK"
    and m: "snd m = link_payload k" and len: "length (snd m) \<le> IPSEC_NETLINK_RECEIVE_LENGTH"
    and mem: "\<forall>n. mem n" and n: "length items < UINT32_MAX"
  shows "\<exists>i. ParseInterfaceMessage mem (fst m) (snd m) items = (items @ [i], IPSEC_OK) \<and> shows_link i k"
proof -
  let ?as = "concat (map rta_bytes (link_attributes k))"
  note f = ifinfomsg_fields(2-) [OF k, of ?as, folded link_payload_def]
  have kk: "NUL \<notin> set (kl_name k)" "length (kl_name k) < IF_NAMESIZE"
    "opt_all (\<lambda>m. m \<le> UINT32_MAX) (kl_mtu k)" "opt_all (\<lambda>c. c \<le> UINT8_MAX) (kl_carrier k)"
    "opt_all (\<lambda>a. 0 < length a \<and> length a \<le> 32) (kl_mac k)"
    "\<forall>a \<in> set (kl_other k). fst a \<notin> {IFLA_IFNAME, IFLA_MTU, IFLA_ADDRESS, IFLA_CARRIER}"
    using k by (auto simp: link_ok_def)
  have pay: "\<not> NLMSG_PAYLOAD (fst m) < sizeof_ifinfomsg"
    using NLMSG_PAYLOAD_data [OF h(1) len] ifinfomsg_fields(1) [OF k] by (simp add: m link_payload_def)
  have grow: "AppendInterface mem items = (items @ [zero_interface_info], IPSEC_OK)"
    unfolding AppendInterface_def by (rule grow_array_ok [OF mem n]) simp_all
  have drop: "drop sizeof_ifinfomsg (link_payload k) = ?as"
    using ifinfomsg_fields(1) [OF k] by (simp add: link_payload_def)
  let ?i1 = "zero_interface_info\<lparr>ii_uiIndex := kl_index k, ii_uiFlags := kl_flags k,
      ii_bUp := kl_flags k AND IFF_UP \<noteq> 0, ii_bRunning := kl_flags k AND IFF_RUNNING \<noteq> 0\<rparr>"
  let ?i2 = "?i1\<lparr>ii_acName := buf_write (ii_acName ?i1) 0 (kl_name k @ [NUL])\<rparr>"
  let ?i3 = "?i2\<lparr>ii_uiMtu := (case kl_mtu k of None \<Rightarrow> 0 | Some n \<Rightarrow> n)\<rparr>"
  let ?i4 = "?i3\<lparr>ii_bCarrier := (case kl_carrier k of None \<Rightarrow> False | Some n \<Rightarrow> n \<noteq> 0)\<rparr>"
  have "ii_acMacAddress ?i4 = replicate IPSEC_MAC_ADDRESS_LENGTH NUL"
    by (simp add: zero_interface_info_def)
  from link_steps_mac [OF kk(5) this, of "kl_carrier k \<noteq> None"] obtain buf where
    mac: "link_steps (attr_of IFLA_ADDRESS (kl_mac k)) (?i4, kl_carrier k \<noteq> None) =
      ((?i4\<lparr>ii_acMacAddress := buf\<rparr>, kl_carrier k \<noteq> None), IPSEC_OK)"
    "cstr buf = (case kl_mac k of None \<Rightarrow> [] | Some a \<Rightarrow> mac_text a)" by blast
  have z: "length (ii_acName ?i1) = 64" "ii_uiMtu ?i2 = 0" "ii_bCarrier ?i3 = False"
    by (simp_all add: zero_interface_info_def)
  have "link_steps (link_attributes k) (?i1, False) =
      ((?i4\<lparr>ii_acMacAddress := buf\<rparr>, kl_carrier k \<noteq> None), IPSEC_OK)"
    unfolding link_attributes_def list.map map_append run_steps.simps run_steps_append prod.case
    by (simp only: link_steps_name [OF kk(1,2) z(1)] and_then_simps run_steps_append
        link_steps_other [OF kk(6)] link_steps_mtu [OF kk(3) z(2)] link_steps_carrier [OF kk(4) z(3)] mac(1))
  then have "parse_attributes ParseInterfaceAttribute ?as (?i1, False) =
      ((?i4\<lparr>ii_acMacAddress := buf\<rparr>, kl_carrier k \<noteq> None), IPSEC_OK)"
    by (rule parse_attributes_bytes [OF link_attributes_ok [OF k]])
  then have item: "interface_item (snd m) zero_interface_info =
      (?i4\<lparr>ii_acMacAddress := buf, ii_bCarrier := (case kl_carrier k of
         None \<Rightarrow> kl_flags k AND IFF_RUNNING \<noteq> 0 | Some c \<Rightarrow> c \<noteq> 0)\<rparr>, IPSEC_OK)"
    unfolding interface_item_def m
    by (cases "kl_carrier k") (simp_all add: f drop Let_def zero_interface_info_def)
  then have "ParseInterfaceMessage mem (fst m) (snd m) items = (items @ [?i4\<lparr>ii_acMacAddress := buf,
      ii_bCarrier := (case kl_carrier k of None \<Rightarrow> kl_flags k AND IFF_RUNNING \<noteq> 0 | Some c \<Rightarrow> c \<noteq> 0)\<rparr>], IPSEC_OK)"
    using h(2) pay by (simp add: ParseInterfaceMessage_def grow on_last_def)
  moreover have "shows_link (?i4\<lparr>ii_acMacAddress := buf, ii_bCarrier := (case kl_carrier k of
      None \<Rightarrow> kl_flags k AND IFF_RUNNING \<noteq> 0 | Some c \<Rightarrow> c \<noteq> 0)\<rparr>) k"
    using mac(2) kk(1) by (simp add: shows_link_def cstr_buf_write0 cstr_id)
  ultimately show ?thesis by blast
qed

definition carries_link :: "nlmsghdr \<times> bytes \<Rightarrow> kernel_link list \<Rightarrow> bool" where
  "carries_link m ks \<longleftrightarrow>
     (\<exists>k. ks = [k] \<and> link_ok k \<and> nlmsg_type (fst m) = RTM_NEWLINK \<and> snd m = link_payload k)"

text \<open>A dump of network interfaces is read back completely and in order: index, name, flags and
  what they say, MTU, the hardware address as its bytes in hexadecimal joined by colons, and the
  carrier, which is that of the attribute, or the running flag when there is no attribute.\<close>

theorem GetIpsecInterfaces_roundtrip:
  assumes "os_trace w = dump_trace fd clk k n ds jk (last_datagram ms m junk)"
    and "kernel_answer (sequence_of clk) ds ms m junk"
    and "list_all2 carries_link (concat (map snd ds) @ ms) (map (\<lambda>k. [k]) ks)"
    and "sizeof_nlmsghdr + sizeof_ifinfomsg \<le> n" and "int fd \<notin> set (os_open w)"
    and "\<forall>n. mem n"
  shows "\<exists>w1 rows. GetIpsecInterfaces mem w = ((w1, rows), IPSEC_OK) \<and>
    list_all2 shows_link rows ks \<and> os_open w1 = os_open w \<and>
    os_requests w1 = os_requests w @ [(int fd, NETLINK_ROUTE,
      nlmsghdr_bytes (dump_request RTM_GETLINK 16 (sequence_of clk)) @ replicate 16 NUL)]"
proof -
  have step: "\<exists>new. ParseInterfaceMessage mem (fst x) (snd x) rows = (rows @ new, IPSEC_OK) \<and>
      list_all2 shows_link new ks \<and> length new \<le> 1"
    if "data_message (sequence_of clk) x" "length (snd x) \<le> IPSEC_NETLINK_RECEIVE_LENGTH"
      "carries_link x ks" "length rows < UINT32_MAX" for x ks rows
    using that ParseInterfaceMessage_link [of _ "sequence_of clk" x mem rows] assms(6)
    by (fastforce simp: carries_link_def data_message_def)
  have c: "concat (map (\<lambda>k. [k]) ks) = ks" by (induction ks) simp_all
  have "\<exists>w1 rows. ExecuteNetlinkDump NETLINK_ROUTE RTM_GETLINK (Some (replicate 16 NUL))
        (length (replicate 16 NUL)) (Some (ParseInterfaceMessage mem)) (w, []) = ((w1, rows), IPSEC_OK) \<and>
      list_all2 shows_link rows (concat (map (\<lambda>k. [k]) ks)) \<and> os_open w1 = os_open w \<and>
      os_log w1 = os_log w \<and> os_requests w1 = os_requests w @ [(int fd, NETLINK_ROUTE,
        nlmsghdr_bytes (dump_request RTM_GETLINK (length (replicate 16 NUL)) (sequence_of clk)) @
        replicate 16 NUL)]"
    by (rule ExecuteNetlinkDump_rows [OF assms(1,2) _ _ assms(5,3)]) (use assms(4) step in auto)
  then show ?thesis by (auto simp: GetIpsecInterfaces_def c)
qed

definition sample_link :: kernel_link where
  "sample_link =
     \<lparr>kl_index = 2, kl_flags = 0x1043, kl_name = ''eth0'', kl_mtu = Some 1500,
      kl_mac = Some [CHR 0x02, CHR 0xAB, NUL, NUL, NUL, CHR 0x01], kl_carrier = None,
      kl_other = [(13, replicate 4 NUL)], kl_family_type = replicate 4 NUL,
      kl_change = replicate 4 NUL\<rparr>"

lemma sample_link_ok: "link_ok sample_link"
  by (simp add: link_ok_def sample_link_def opt_all_def attribute_ok_def)

theorem GetIpsecInterfaces_roundtrip_witness:
  "\<exists>w1 rows. GetIpsecInterfaces (\<lambda>_. True)
      (sample_world [] (dump_trace 7 (0, 0, 0) 0 32 [] (0, 0)
        (last_datagram [sample_header RTM_NEWLINK (link_payload sample_link)]
          (sample_header NLMSG_DONE []) []))) = ((w1, rows), IPSEC_OK) \<and>
    list_all2 shows_link rows [sample_link]"
proof -
  let ?m = "sample_header RTM_NEWLINK (link_payload sample_link)"
  let ?w = "sample_world [] (dump_trace 7 (0, 0, 0) 0 32 [] (0, 0)
      (last_datagram [?m] (sample_header NLMSG_DONE []) []))"
  have len: "length (link_payload sample_link) \<le> 65000"
    using ifinfomsg_fields(1) [OF sample_link_ok]
    by (simp add: link_payload_def) (simp add: link_attributes_def attr_u32_def attr_of_def
      sample_link_def align4_def)
  have c: "list_all2 carries_link [?m] (map (\<lambda>k. [k]) [sample_link])"
    using sample_link_ok by (simp add: carries_link_def sample_header_def)
  show ?thesis
    using GetIpsecInterfaces_roundtrip [of ?w 7 "(0, 0, 0)" 0 32 "[]" "(0, 0)" "[?m]"
        "sample_header NLMSG_DONE []" "[]" "[sample_link]" "\<lambda>_. True"]
      sample_answer [OF len, of RTM_NEWLINK] c
    by (auto simp: sample_world_def)
qed

subsection \<open>Addresses\<close>

record kernel_address =
  ka_family :: nat
  ka_prefixlen :: nat
  ka_flags :: nat
  ka_scope :: nat
  ka_index :: nat
  ka_address :: "bytes option"
  ka_local :: "bytes option"
  ka_other :: "(nat \<times> bytes) list"

definition ifaddrmsg_bytes :: "kernel_address \<Rightarrow> bytes" where
  "ifaddrmsg_bytes k =
     le_bytes 1 (ka_family k) @ le_bytes 1 (ka_prefixlen k) @ le_bytes 1 (ka_flags k) @
     le_bytes 1 (ka_scope k) @ le_bytes 4 (ka_index k)"

definition address_attributes :: "kernel_address \<Rightarrow> (nat \<times> bytes) list" where
  "address_attributes k =
     attr_of IFA_ADDRESS (ka_address k) @ attr_of IFA_LOCAL (ka_local k) @ ka_other k"

definition address_payload :: "kernel_address \<Rightarrow> bytes" where
  "address_payload k = ifaddrmsg_bytes k @ concat (map rta_bytes (address_attributes k))"

text \<open>The address of the interface itself: the local one of a point-to-point link.\<close>

definition own_address :: "kernel_address \<Rightarrow> bytes option" where
  "own_address k = (case ka_local k of None \<Rightarrow> ka_address k | Some a \<Rightarrow> Some a)"

definition address_ok :: "kernel_address \<Rightarrow> bool" where
  "address_ok k \<longleftrightarrow>
     (let n = address_length (ka_family k) in
      (ka_family k = AF_INET \<or> ka_family k = AF_INET6) \<and> ka_prefixlen k \<le> UINT8_MAX \<and>
      ka_flags k \<le> UINT8_MAX \<and> ka_scope k \<le> UINT8_MAX \<and> ka_index k \<le> UINT32_MAX \<and>
      opt_all (\<lambda>a. length a = n) (ka_address k) \<and> opt_all (\<lambda>a. length a = n) (ka_local k) \<and>
      own_address k \<noteq> None \<and>
      (\<forall>a \<in> set (ka_other k). attribute_ok a \<and> fst a \<notin> {IFA_ADDRESS, IFA_LOCAL}))"

definition shows_address :: "(nat \<Rightarrow> string option) \<Rightarrow> IpsecAddressInfo \<Rightarrow> kernel_address \<Rightarrow> bool" where
  "shows_address names i k \<longleftrightarrow>
     ia_uiInterfaceIndex i = ka_index k \<and>
     cstr (ia_acInterfaceName i) = (case names (ka_index k) of None \<Rightarrow> [] | Some n \<Rightarrow> n) \<and>
     ia_eFamily i = address_family (ka_family k) \<and> ia_ucPrefixLength i = ka_prefixlen k \<and>
     ia_ucScope i = ka_scope k \<and>
     Some (cstr (ia_acAddress i)) = inet_text (ka_family k) (the (own_address k))"

lemma ifaddrmsg_fields:
  assumes "address_ok k"
  shows "length (ifaddrmsg_bytes k) = 8"
    and "u8_at 0 (ifaddrmsg_bytes k @ s) = ka_family k"
    and "u8_at 1 (ifaddrmsg_bytes k @ s) = ka_prefixlen k"
    and "u8_at 3 (ifaddrmsg_bytes k @ s) = ka_scope k"
    and "u32_at 4 (ifaddrmsg_bytes k @ s) = ka_index k"
  using assms
  by (auto simp: ifaddrmsg_bytes_def address_ok_def Let_def u8_at_def u32_at_def le_value_bytes
      simp del: le_bytes.simps)

abbreviation address_steps ::
  "(nat \<times> bytes) list \<Rightarrow> bytes option \<times> bytes option \<Rightarrow> (bytes option \<times> bytes option) outcome" where
  "address_steps as \<equiv> run_steps (map (\<lambda>(t, data). address_attribute t data) as)"

lemma address_steps_other:
  "\<forall>a \<in> set as. fst a \<notin> {IFA_ADDRESS, IFA_LOCAL} \<Longrightarrow> address_steps as s = (s, IPSEC_OK)"
  by (induction as) (auto simp: address_attribute_def)

lemma address_attributes_run:
  assumes "address_ok k"
  shows "address_steps (address_attributes k) (None, None) = ((ka_local k, ka_address k), IPSEC_OK)"
proof -
  have "address_steps (ka_other k) s = (s, IPSEC_OK)" for s
    using assms by (intro address_steps_other) (auto simp: address_ok_def Let_def)
  then show ?thesis
    by (cases "ka_address k"; cases "ka_local k")
      (simp_all add: address_attributes_def run_steps_append attr_of_def address_attribute_def)
qed

lemma address_attributes_ok:
  assumes "address_ok k"
  shows "\<forall>a \<in> set (address_attributes k). attribute_ok a"
proof -
  have "opt_all (\<lambda>a. length a \<le> 65000) (ka_address k)" "opt_all (\<lambda>a. length a \<le> 65000) (ka_local k)"
    using assms by (auto simp: address_ok_def Let_def address_length_def elim!: opt_all_mono split: if_splits)
  then show ?thesis
    using assms attr_of_ok [of "ka_address k" IFA_ADDRESS] attr_of_ok [of "ka_local k" IFA_LOCAL]
    by (auto simp: address_attributes_def address_ok_def Let_def)
qed

lemma ParseAddressMessage_address:
  assumes k: "address_ok k" and h: "header_ok q m" "nlmsg_type (fst m) = RTM_NEWADDR"
    and m: "snd m = address_payload k" and len: "length (snd m) \<le> IPSEC_NETLINK_RECEIVE_LENGTH"
    and mem: "\<forall>n. mem n" and names: "names_ok names" and n: "length items < UINT32_MAX"
  shows "\<exists>i. ParseAddressMessage mem names (fst m) (snd m) items = (items @ [i], IPSEC_OK) \<and>
    shows_address names i k"
proof -
  let ?as = "concat (map rta_bytes (address_attributes k))"
  note f = ifaddrmsg_fields(2-) [OF k, of ?as, folded address_payload_def]
  have fam: "ka_family k = AF_INET \<or> ka_family k = AF_INET6" using k by (simp add: address_ok_def Let_def)
  obtain a where a: "own_address k = Some a" "length a = address_length (ka_family k)"
    using k by (auto simp: address_ok_def Let_def own_address_def opt_all_def split: option.splits)
  have own: "(if ka_local k = None then ka_address k else ka_local k) = Some a"
    using a(1) by (cases "ka_local k") (simp_all add: own_address_def)
  obtain buf where buf: "inet_ntop (ka_family k) a (replicate IPSEC_ADDRESS_LENGTH NUL) = Some buf"
    "Some (cstr buf) = inet_text (ka_family k) a"
    using inet_ntop_text [OF fam a(2), of "replicate IPSEC_ADDRESS_LENGTH NUL"] by auto
  have pay: "\<not> NLMSG_PAYLOAD (fst m) < sizeof_ifaddrmsg"
    using NLMSG_PAYLOAD_data [OF h(1) len] ifaddrmsg_fields(1) [OF k] by (simp add: m address_payload_def)
  have grow: "AppendAddress mem items = (items @ [zero_address_info], IPSEC_OK)"
    unfolding AppendAddress_def by (rule grow_array_ok [OF mem n]) simp_all
  have drop: "drop sizeof_ifaddrmsg (address_payload k) = ?as"
    using ifaddrmsg_fields(1) [OF k] by (simp add: address_payload_def)
  have attrs: "parse_attributes address_attribute ?as (None, None) = ((ka_local k, ka_address k), IPSEC_OK)"
    by (rule parse_attributes_bytes [OF address_attributes_ok [OF k] address_attributes_run [OF k]])
  define nb where "nb = (case if_indextoname names (ka_index k) (replicate IPSEC_INTERFACE_NAME_LENGTH NUL)
      of None \<Rightarrow> (replicate IPSEC_INTERFACE_NAME_LENGTH NUL)[0 := NUL] | Some b \<Rightarrow> b)"
  let ?i = "zero_address_info\<lparr>ia_uiInterfaceIndex := ka_index k,
      ia_eFamily := address_family (ka_family k), ia_ucPrefixLength := ka_prefixlen k,
      ia_ucScope := ka_scope k, ia_acInterfaceName := nb, ia_acAddress := buf\<rparr>"
  have nbt: "cstr nb = (case names (ka_index k) of None \<Rightarrow> [] | Some n \<Rightarrow> n)"
  proof (cases "names (ka_index k)")
    case (Some x)
    then have "length x < IF_NAMESIZE" and nul: "NUL \<notin> set x" using names by (auto simp: names_ok_def)
    then have "take (IF_NAMESIZE - 1) x = x" by simp
    then show ?thesis using Some nul by (simp add: nb_def if_indextoname_def cstr_buf_write0 cstr_id)
  qed (simp add: nb_def if_indextoname_def)
  have tx: "address_text (ka_family k) (Some a) (replicate IPSEC_ADDRESS_LENGTH NUL) = (buf, IPSEC_OK)"
    using buf(1) a(2) by (simp add: address_text_def address_length_def)
  have "address_item names (snd m) zero_address_info = (?i, IPSEC_OK)"
    unfolding address_item_def m drop attrs Let_def prod.case own f
    by (simp add: own edit_def tx MapRouteAddressFamily_def zero_address_info_def nb_def cong: option.case_cong)
  then have "ParseAddressMessage mem names (fst m) (snd m) items = (items @ [?i], IPSEC_OK)"
    using h(2) pay fam by (simp add: ParseAddressMessage_def grow on_last_def m f)
  moreover have "shows_address names ?i k"
    using nbt buf(2) a(1) by (simp add: shows_address_def)
  ultimately show ?thesis by blast
qed

definition carries_address :: "nlmsghdr \<times> bytes \<Rightarrow> kernel_address list \<Rightarrow> bool" where
  "carries_address m ks \<longleftrightarrow>
     (\<exists>k. ks = [k] \<and> address_ok k \<and> nlmsg_type (fst m) = RTM_NEWADDR \<and> snd m = address_payload k)"

text \<open>A dump of addresses is read back completely and in order, with the names of the interfaces;
  the address shown is the local one when the kernel gives it, and the general one otherwise.\<close>

theorem GetIpsecAddresses_roundtrip:
  assumes "os_trace w = dump_trace fd clk k n ds jk (last_datagram ms m junk)"
    and "kernel_answer (sequence_of clk) ds ms m junk"
    and "list_all2 carries_address (concat (map snd ds) @ ms) (map (\<lambda>k. [k]) ks)"
    and "sizeof_nlmsghdr + sizeof_ifaddrmsg \<le> n" and "int fd \<notin> set (os_open w)"
    and "\<forall>n. mem n" and "names_ok (os_names w)"
  shows "\<exists>w1 rows. GetIpsecAddresses mem w = ((w1, rows), IPSEC_OK) \<and>
    list_all2 (shows_address (os_names w)) rows ks \<and> os_open w1 = os_open w \<and>
    os_requests w1 = os_requests w @ [(int fd, NETLINK_ROUTE,
      nlmsghdr_bytes (dump_request RTM_GETADDR 8 (sequence_of clk)) @ replicate 8 NUL)]"
proof -
  have step: "\<exists>new. ParseAddressMessage mem (os_names w) (fst x) (snd x) rows = (rows @ new, IPSEC_OK) \<and>
      list_all2 (shows_address (os_names w)) new ks \<and> length new \<le> 1"
    if "data_message (sequence_of clk) x" "length (snd x) \<le> IPSEC_NETLINK_RECEIVE_LENGTH"
      "carries_address x ks" "length rows < UINT32_MAX" for x ks rows
    using that ParseAddressMessage_address [of _ "sequence_of clk" x mem "os_names w" rows] assms(6,7)
    by (fastforce simp: carries_address_def data_message_def)
  have c: "concat (map (\<lambda>k. [k]) ks) = ks" by (induction ks) simp_all
  have "\<exists>w1 rows. ExecuteNetlinkDump NETLINK_ROUTE RTM_GETADDR (Some (replicate 8 NUL))
        (length (replicate 8 NUL)) (Some (ParseAddressMessage mem (os_names w))) (w, []) =
        ((w1, rows), IPSEC_OK) \<and>
      list_all2 (shows_address (os_names w)) rows (concat (map (\<lambda>k. [k]) ks)) \<and> os_open w1 = os_open w \<and>
      os_log w1 = os_log w \<and> os_requests w1 = os_requests w @ [(int fd, NETLINK_ROUTE,
        nlmsghdr_bytes (dump_request RTM_GETADDR (length (replicate 8 NUL)) (sequence_of clk)) @
        replicate 8 NUL)]"
    by (rule ExecuteNetlinkDump_rows [OF assms(1,2) _ _ assms(5,3)]) (use assms(4) step in auto)
  then show ?thesis by (auto simp: GetIpsecAddresses_def c)
qed

end
