(* ===== verification/XfrmStats.thy ===== *)
theory XfrmStats
  imports NetlinkRows
begin

section \<open>The statistics of the kernel (\<open>ipsec/xfrm/xfrm_stats.c\<close>)\<close>

text \<open>
  The file \<open>/proc/net/xfrm_stat\<close> holds a name and a number per line.  It is read into a buffer
  that doubles up to a limit and parsed line by line.  An entry of the mapping table holds the
  update of its field where the source has the offset of the field.

  The second part shows what a reader gets for a file the kernel prints, however the reads divide
  it.
\<close>

abbreviation XFRM_STAT_INITIAL_BUFFER_LENGTH :: nat where
  "XFRM_STAT_INITIAL_BUFFER_LENGTH \<equiv> 4096"
abbreviation XFRM_STAT_MAX_BUFFER_LENGTH :: nat where "XFRM_STAT_MAX_BUFFER_LENGTH \<equiv> 131072"
abbreviation XFRM_STAT_LINE_LENGTH :: nat where "XFRM_STAT_LINE_LENGTH \<equiv> 256"

record IpsecXfrmStatistics =
  ullPresentMask :: nat
  ullInError :: nat
  ullInBufferError :: nat
  ullInHeaderError :: nat
  ullInNoStates :: nat
  ullInStateProtocolError :: nat
  ullInStateModeError :: nat
  ullInStateSequenceError :: nat
  ullInStateExpired :: nat
  ullInStateMismatch :: nat
  ullInStateInvalid :: nat
  ullInTemplateMismatch :: nat
  ullOutError :: nat
  ullOutBundleGenerationError :: nat
  ullOutBundleCheckError :: nat
  ullOutNoStates :: nat
  ullOutStateProtocolError :: nat
  ullOutStateModeError :: nat
  ullOutStateSequenceError :: nat
  ullOutStateExpired :: nat
  ullOutPolicyBlock :: nat

definition zero_statistics :: IpsecXfrmStatistics where
  "zero_statistics =
     \<lparr>ullPresentMask = 0, ullInError = 0, ullInBufferError = 0, ullInHeaderError = 0,
      ullInNoStates = 0, ullInStateProtocolError = 0, ullInStateModeError = 0,
      ullInStateSequenceError = 0, ullInStateExpired = 0, ullInStateMismatch = 0,
      ullInStateInvalid = 0, ullInTemplateMismatch = 0, ullOutError = 0,
      ullOutBundleGenerationError = 0, ullOutBundleCheckError = 0, ullOutNoStates = 0,
      ullOutStateProtocolError = 0, ullOutStateModeError = 0, ullOutStateSequenceError = 0,
      ullOutStateExpired = 0, ullOutPolicyBlock = 0\<rparr>"

record XfrmStatisticMapping =
  sm_pcName :: string
  sm_zOffset :: "(nat \<Rightarrow> nat) \<Rightarrow> IpsecXfrmStatistics \<Rightarrow> IpsecXfrmStatistics"
  sm_uiBit :: nat

definition gaXfrmStatisticMappings :: "XfrmStatisticMapping list" where
  "gaXfrmStatisticMappings = map (\<lambda>(n, f, b). \<lparr>sm_pcName = n, sm_zOffset = f, sm_uiBit = b\<rparr>)
    [(''XfrmInError'', ullInError_update, 0),
     (''XfrmInBufferError'', ullInBufferError_update, 1),
     (''XfrmInHdrError'', ullInHeaderError_update, 2),
     (''XfrmInNoStates'', ullInNoStates_update, 3),
     (''XfrmInStateProtoError'', ullInStateProtocolError_update, 4),
     (''XfrmInStateModeError'', ullInStateModeError_update, 5),
     (''XfrmInStateSeqError'', ullInStateSequenceError_update, 6),
     (''XfrmInStateExpired'', ullInStateExpired_update, 7),
     (''XfrmInStateMismatch'', ullInStateMismatch_update, 8),
     (''XfrmInStateInvalid'', ullInStateInvalid_update, 9),
     (''XfrmInTmplMismatch'', ullInTemplateMismatch_update, 10),
     (''XfrmOutError'', ullOutError_update, 11),
     (''XfrmOutBundleGenError'', ullOutBundleGenerationError_update, 12),
     (''XfrmOutBundleCheckError'', ullOutBundleCheckError_update, 13),
     (''XfrmOutNoStates'', ullOutNoStates_update, 14),
     (''XfrmOutStateProtoError'', ullOutStateProtocolError_update, 15),
     (''XfrmOutStateModeError'', ullOutStateModeError_update, 16),
     (''XfrmOutStateSeqError'', ullOutStateSequenceError_update, 17),
     (''XfrmOutStateExpired'', ullOutStateExpired_update, 18),
     (''XfrmOutPolBlock'', ullOutPolicyBlock_update, 19)]"

definition FindXfrmStatisticMapping :: "string \<Rightarrow> XfrmStatisticMapping option" where
  "FindXfrmStatisticMapping pcName =
     find (\<lambda>m. strcmp_eq pcName (sm_pcName m)) gaXfrmStatisticMappings"

subsection \<open>The text\<close>

definition store_statistic ::
  "string \<Rightarrow> nat \<Rightarrow> IpsecXfrmStatistics \<Rightarrow> IpsecXfrmStatistics outcome" where
  "store_statistic pcName ullValue pStatistics =
     (case FindXfrmStatisticMapping pcName of
        None \<Rightarrow> (pStatistics, IPSEC_OK)
      | Some pMapping \<Rightarrow>
          let ullMask = push_bit (sm_uiBit pMapping) 1 in
          if ullPresentMask pStatistics AND ullMask \<noteq> 0 then (pStatistics, IPSEC_ERR_NETLINK_PARSE)
          else ((sm_zOffset pMapping (\<lambda>_. ullValue) pStatistics)
                  \<lparr>ullPresentMask := ullPresentMask pStatistics OR ullMask\<rparr>, IPSEC_OK))"

definition ParseXfrmStatisticLine ::
  "bytes \<Rightarrow> IpsecXfrmStatistics \<Rightarrow> IpsecXfrmStatistics outcome" where
  "ParseXfrmStatisticLine pcLine pStatistics =
     (if length pcLine = 0 then (pStatistics, IPSEC_OK)
      else if XFRM_STAT_LINE_LENGTH \<le> length pcLine then (pStatistics, IPSEC_ERR_NETLINK_PARSE)
      else
        let acLine = cstr (pcLine @ [NUL]);
            pcName = dropWhile isspace acLine
        in if pcName = [] then (pStatistics, IPSEC_OK)
        else
          let name = takeWhile (\<lambda>c. \<not> isspace c) pcName;
              after = dropWhile (\<lambda>c. \<not> isspace c) pcName
          in if after = [] then (pStatistics, IPSEC_ERR_NETLINK_PARSE)
          else
            let pcValue = dropWhile isspace (tl after);
                (ullValue, pcEnd, erange) = strtoull pcValue 10
            in if erange \<or> pcEnd = pcValue \<or> dropWhile isspace pcEnd \<noteq> []
               then (pStatistics, IPSEC_ERR_NETLINK_PARSE)
               else store_statistic name ullValue pStatistics)"

text \<open>The lines, each without a carriage return at its end; the last one may lack the line end.\<close>

definition statistic_line_text :: "bytes \<Rightarrow> bytes" where
  "statistic_line_text pcText =
     (let line = takeWhile (\<lambda>c. c \<noteq> CHR 0x0A) pcText in
      if line \<noteq> [] \<and> last line = CHR 0x0D then butlast line else line)"

function statistic_lines :: "bytes \<Rightarrow> IpsecXfrmStatistics \<Rightarrow> IpsecXfrmStatistics outcome" where
  "statistic_lines pcLine pStatistics =
     (if pcLine = [] then (pStatistics, IPSEC_OK)
      else
        let (pStatistics, eError) = ParseXfrmStatisticLine (statistic_line_text pcLine) pStatistics in
        if eError \<noteq> IPSEC_OK then (pStatistics, eError)
        else statistic_lines
          (drop (Suc (length (takeWhile (\<lambda>c. c \<noteq> CHR 0x0A) pcLine))) pcLine) pStatistics)"
  by pat_completeness auto
termination by (relation "measure (\<lambda>(t, _). length t)") (simp_all add: length_greater_0_conv)

declare statistic_lines.simps [simp del]

definition ParseXfrmStatisticsText :: "bytes \<Rightarrow> IpsecXfrmStatistics outcome" where
  "ParseXfrmStatisticsText pcText = statistic_lines pcText zero_statistics"

subsection \<open>The file\<close>

text \<open>A call of \<open>read\<close> takes at most \<open>n\<close> bytes of what there is; the others stay for the next one.\<close>

definition sys_open_file :: "Ipsec \<Rightarrow> (errno + int) \<times> Ipsec" where
  "sys_open_file w =
     (let (ev, w) = next_event w in
      case ev of
        Some (OpenFd fd) \<Rightarrow>
          if int fd \<in> set (os_open w) then (Inl EOTHER, w)
          else (Inr (int fd), w\<lparr>os_open := int fd # os_open w\<rparr>)
      | Some (OpenErrno e) \<Rightarrow> (Inl e, w)
      | _ \<Rightarrow> (Inl EOTHER, w))"

definition sys_read :: "nat \<Rightarrow> Ipsec \<Rightarrow> (errno + bytes) \<times> Ipsec" where
  "sys_read n w =
     (let (ev, w) = next_event w in
      case ev of
        Some (ReadBytes bs) \<Rightarrow>
          (Inr (take n bs),
           if length bs \<le> n then w else w\<lparr>os_trace := ReadBytes (drop n bs) # os_trace w\<rparr>)
      | Some (ReadErrno e) \<Rightarrow> (Inl e, w)
      | _ \<Rightarrow> (Inl EOTHER, w))"

text \<open>What is left to read, for the termination of the loops.\<close>

primrec event_size :: "os_event list \<Rightarrow> nat" where
  "event_size [] = 0"
| "event_size (ev # evs) =
     Suc (case ev of ReadBytes bs \<Rightarrow> length bs | _ \<Rightarrow> 0) + event_size evs"

lemma sys_read_size:
  assumes "sys_read n w = (r, w')"
  shows "event_size (os_trace w') \<le> event_size (os_trace w)"
    and "r = Inl EINTR \<Longrightarrow> event_size (os_trace w') < event_size (os_trace w)"
    and "r = Inr bs \<Longrightarrow> bs \<noteq> [] \<Longrightarrow> event_size (os_trace w') < event_size (os_trace w)"
  using assms
  by (auto simp: sys_read_def next_event_def split: prod.splits list.splits option.splits
      os_event.splits if_splits)

function read_retry :: "nat \<Rightarrow> Ipsec \<Rightarrow> (errno + bytes) \<times> Ipsec" where
  "read_retry n w =
     (let (r, w') = sys_read n w in if r = Inl EINTR then read_retry n w' else (r, w'))"
  by pat_completeness auto
termination
  by (relation "measure (\<lambda>(n, w). event_size (os_trace w))") (auto dest: sys_read_size(2) [OF sym])

declare read_retry.simps [simp del]

lemma read_retry_size:
  "read_retry n w = (Inr bs, w') \<Longrightarrow> bs \<noteq> [] \<Longrightarrow> event_size (os_trace w') < event_size (os_trace w)"
proof (induction n w rule: read_retry.induct)
  case (1 n w)
  obtain r v where s: "sys_read n w = (r, v)" by (cases "sys_read n w") auto
  show ?case
  proof (cases "r = Inl EINTR")
    case True
    then have "event_size (os_trace w') < event_size (os_trace v)"
      using 1 s by (simp add: read_retry.simps [of n w])
    then show ?thesis using sys_read_size(1) [OF s] by simp
  next
    case False
    then show ?thesis using 1(2,3) s sys_read_size(3) [OF s] by (simp add: read_retry.simps [of n w])
  qed
qed

function read_loop ::
  "(nat \<Rightarrow> bool) \<Rightarrow> nat \<Rightarrow> bytes \<Rightarrow> Ipsec \<Rightarrow> (Ipsec \<times> bytes) outcome" where
  "read_loop mem zCapacity pcBuffer w =
     (let (r, w') = read_retry (zCapacity - length pcBuffer) w in
      case r of
        Inl e \<Rightarrow> ((w', pcBuffer), IPSEC_ERR_FILE_READ)
      | Inr bs \<Rightarrow>
          if bs = [] then ((w', pcBuffer), IPSEC_OK)
          else
            let pcBuffer = pcBuffer @ bs in
            if length pcBuffer = zCapacity then
              if zCapacity = XFRM_STAT_MAX_BUFFER_LENGTH
              then ((w', pcBuffer), IPSEC_ERR_BUFFER_TOO_SMALL)
              else
                let zNewCapacity = min (zCapacity * 2) XFRM_STAT_MAX_BUFFER_LENGTH in
                if \<not> mem (zNewCapacity + 1) then ((w', pcBuffer), IPSEC_ERR_NO_MEMORY)
                else read_loop mem zNewCapacity pcBuffer w'
            else read_loop mem zCapacity pcBuffer w')"
  by pat_completeness auto
termination
  by (relation "measure (\<lambda>(mem, c, b, w). event_size (os_trace w))")
    (auto dest: read_retry_size [OF sym])

declare read_loop.simps [simp del]

definition ReadXfrmStatisticsFile :: "(nat \<Rightarrow> bool) \<Rightarrow> Ipsec \<Rightarrow> (Ipsec \<times> bytes) outcome" where
  "ReadXfrmStatisticsFile mem w =
     (case sys_open_file w of
        (Inl e, w) \<Rightarrow>
          ((w, []), if e = EACCES \<or> e = EPERM then IPSEC_ERR_PERMISSION else IPSEC_ERR_FILE_OPEN)
      | (Inr iFile, w) \<Rightarrow>
          let ((w, pcBuffer), eError) =
                (if \<not> mem (XFRM_STAT_INITIAL_BUFFER_LENGTH + 1) then ((w, []), IPSEC_ERR_NO_MEMORY)
                 else read_loop mem XFRM_STAT_INITIAL_BUFFER_LENGTH [] w)
          in ((sys_close iFile w, if eError = IPSEC_OK then pcBuffer else []), eError))"

text \<open>The caller's structure is untouched when the file cannot be read.\<close>

definition GetIpsecXfrmStatistics ::
  "(nat \<Rightarrow> bool) \<Rightarrow> Ipsec \<times> IpsecXfrmStatistics \<Rightarrow> (Ipsec \<times> IpsecXfrmStatistics) outcome" where
  "GetIpsecXfrmStatistics mem s =
     (let (w, pStatistics) = s; ((w, pcText), eError) = ReadXfrmStatisticsFile mem w in
      if eError \<noteq> IPSEC_OK then ((w, pStatistics), eError)
      else (let (pStatistics, eError) = ParseXfrmStatisticsText pcText in ((w, pStatistics), eError)))"

section \<open>What is read\<close>

subsection \<open>The table\<close>

text \<open>The structure as an array of counters, in the order of the table.\<close>

definition statistic_values :: "IpsecXfrmStatistics \<Rightarrow> nat list" where
  "statistic_values s =
     [ullInError s, ullInBufferError s, ullInHeaderError s, ullInNoStates s,
      ullInStateProtocolError s, ullInStateModeError s, ullInStateSequenceError s,
      ullInStateExpired s, ullInStateMismatch s, ullInStateInvalid s, ullInTemplateMismatch s,
      ullOutError s, ullOutBundleGenerationError s, ullOutBundleCheckError s, ullOutNoStates s,
      ullOutStateProtocolError s, ullOutStateModeError s, ullOutStateSequenceError s,
      ullOutStateExpired s, ullOutPolicyBlock s]"

abbreviation statistic_names :: "string list" where
  "statistic_names \<equiv> map sm_pcName gaXfrmStatisticMappings"

lemma length_mappings: "length gaXfrmStatisticMappings = 20"
  by (simp add: gaXfrmStatisticMappings_def)

lemma distinct_names: "distinct statistic_names"
  by (simp add: gaXfrmStatisticMappings_def)

lemma names_no_NUL: "n \<in> set statistic_names \<Longrightarrow> NUL \<notin> set n"
  by (auto simp: gaXfrmStatisticMappings_def)

lemma length_statistic_values [simp]: "length (statistic_values s) = 20"
  by (simp add: statistic_values_def)

lemma mask_values [simp]: "statistic_values (s\<lparr>ullPresentMask := m\<rparr>) = statistic_values s"
  by (simp add: statistic_values_def)

lemma less_20: "i < 20 \<longleftrightarrow> i \<in> {0, 1, 2, 3, 4, 5, 6, 7, 8, 9, 10, 11, 12, 13, 14, 15, 16, 17, 18, 19 :: nat}"
proof -
  have "{..<20 :: nat} = {0, 1, 2, 3, 4, 5, 6, 7, 8, 9, 10, 11, 12, 13, 14, 15, 16, 17, 18, 19}"
    by (simp add: lessThan_nat_numeral lessThan_Suc insert_commute)
  then show ?thesis by (metis lessThan_iff)
qed

text \<open>The fields and the bits agree with the places in the table.\<close>

lemma mapping_agrees:
  assumes "i < 20"
  shows "sm_uiBit (gaXfrmStatisticMappings ! i) = i"
    and "statistic_values (sm_zOffset (gaXfrmStatisticMappings ! i) (\<lambda>_. v) s) = (statistic_values s)[i := v]"
    and "ullPresentMask (sm_zOffset (gaXfrmStatisticMappings ! i) (\<lambda>_. v) s) = ullPresentMask s"
  using assms unfolding less_20
  by (auto simp: gaXfrmStatisticMappings_def statistic_values_def)

lemma names_inj: "i < 20 \<Longrightarrow> j < 20 \<Longrightarrow> statistic_names ! i = statistic_names ! j \<longleftrightarrow> i = j"
  by (rule nth_eq_iff_index_eq [OF distinct_names]) (simp_all add: length_mappings)

lemma FindXfrmStatisticMapping_nth:
  assumes "i < 20"
  shows "FindXfrmStatisticMapping (statistic_names ! i) = Some (gaXfrmStatisticMappings ! i)"
proof -
  have no: "cstr (statistic_names ! j) = statistic_names ! j" if "j < 20" for j
    by (intro cstr_id names_no_NUL nth_mem) (simp add: that length_mappings)
  have "find (\<lambda>m. strcmp_eq (statistic_names ! i) (sm_pcName m)) gaXfrmStatisticMappings
      = Some (gaXfrmStatisticMappings ! i)"
    unfolding find_Some_iff
  proof (intro exI [of _ i] conjI allI impI)
    fix j assume j: "j < i"
    have "sm_pcName (gaXfrmStatisticMappings ! k) = statistic_names ! k" if "k < 20" for k
      using that by (simp add: length_mappings)
    then show "\<not> strcmp_eq (statistic_names ! i) (sm_pcName (gaXfrmStatisticMappings ! j))"
      using assms j names_inj [of i j] no [of i] no [of j] by (simp add: strcmp_eq_def del: nth_map)
  qed (use assms length_mappings in \<open>simp_all add: strcmp_eq_def\<close>)
  then show ?thesis by (simp add: FindXfrmStatisticMapping_def)
qed

lemma FindXfrmStatisticMapping_None:
  assumes "NUL \<notin> set n" and "n \<notin> set statistic_names"
  shows "FindXfrmStatisticMapping n = None"
proof -
  have "\<not> strcmp_eq n (sm_pcName m)" if "m \<in> set gaXfrmStatisticMappings" for m
    using that assms names_no_NUL [of "sm_pcName m"] by (force simp: strcmp_eq_def cstr_id)
  then show ?thesis by (simp add: FindXfrmStatisticMapping_def find_None_iff)
qed

subsection \<open>Lines and texts\<close>

text \<open>The structure shows a list of rows: the counters given, and which of them were given.\<close>

definition shows_statistics :: "IpsecXfrmStatistics \<Rightarrow> (string \<times> nat) list \<Rightarrow> bool" where
  "shows_statistics s rows \<longleftrightarrow>
     (\<forall>i < 20. (bit (ullPresentMask s) i \<longleftrightarrow> statistic_names ! i \<in> fst ` set rows) \<and>
        statistic_values s ! i = (case map_of rows (statistic_names ! i) of None \<Rightarrow> 0 | Some v \<Rightarrow> v))"

lemma shows_zero: "shows_statistics zero_statistics []"
  unfolding shows_statistics_def less_20 by (auto simp: zero_statistics_def statistic_values_def)

lemma mask_bit: "(m AND push_bit i (1 :: nat) \<noteq> 0) = bit m i"
  by (simp add: and_exp_eq_0_iff_not_bit push_bit_eq_mult)

lemma store_statistic_row:
  assumes "shows_statistics s rows" and "n \<notin> fst ` set rows" and "NUL \<notin> set n"
  shows "\<exists>s'. store_statistic n v s = (s', IPSEC_OK) \<and> shows_statistics s' ((n, v) # rows)"
proof (cases "n \<in> set statistic_names")
  case True
  then obtain i where i: "i < 20" "n = statistic_names ! i"
    using length_mappings by (metis in_set_conv_nth length_map)
  have ne: "statistic_names ! j \<noteq> n" if "j < 20" "j \<noteq> i" for j
    using that i names_inj [of j i] by simp
  have bit: "\<not> bit (ullPresentMask s) i" using assms(1,2) i by (auto simp: shows_statistics_def)
  let ?m = "gaXfrmStatisticMappings ! i"
  let ?s = "(sm_zOffset ?m (\<lambda>_. v) s)\<lparr>ullPresentMask := ullPresentMask s OR push_bit i 1\<rparr>"
  have "store_statistic n v s = (?s, IPSEC_OK)"
    unfolding store_statistic_def i(2) FindXfrmStatisticMapping_nth [OF i(1)]
    using mask_bit [of "ullPresentMask s" i] bit by (simp add: mapping_agrees(1) [OF i(1)] Let_def)
  moreover have "shows_statistics ?s ((n, v) # rows)"
    unfolding shows_statistics_def
  proof (intro allI impI)
    fix j :: nat assume j: "j < 20"
    then show "(bit (ullPresentMask ?s) j \<longleftrightarrow> statistic_names ! j \<in> fst ` set ((n, v) # rows)) \<and>
      statistic_values ?s ! j =
        (case map_of ((n, v) # rows) (statistic_names ! j) of None \<Rightarrow> 0 | Some v \<Rightarrow> v)"
      using assms(1) ne [of j] i
      by (cases "j = i") (auto simp: shows_statistics_def mapping_agrees(2) [OF i(1)] bit_or_iff
          bit_exp_iff simp del: nth_map)
  qed
  ultimately show ?thesis by blast
next
  case False
  then have "store_statistic n v s = (s, IPSEC_OK)"
    by (simp add: store_statistic_def FindXfrmStatisticMapping_None [OF assms(3)])
  moreover have "statistic_names ! j \<noteq> n" if "j < 20" for j
    using that False length_mappings by (metis nth_mem length_map)
  then have "shows_statistics s ((n, v) # rows)"
    using assms(1) by (simp add: shows_statistics_def del: nth_map)
  ultimately show ?thesis by blast
qed

text \<open>A line as the kernel prints it, and the rows for which such lines can be read.\<close>

definition statistic_line :: "string \<times> nat \<Rightarrow> string" where
  "statistic_line r = fst r @ replicate (24 - length (fst r)) (CHR '' '') @ CHR 0x09 # dec (snd r)"

definition statistic_row_ok :: "string \<times> nat \<Rightarrow> bool" where
  "statistic_row_ok r \<longleftrightarrow> fst r \<noteq> [] \<and> (\<forall>c \<in> set (fst r). c \<noteq> NUL \<and> \<not> isspace c) \<and>
     length (statistic_line r) < XFRM_STAT_LINE_LENGTH \<and> snd r \<le> UINT64_MAX"

lemma ParseXfrmStatisticLine_row:
  assumes "statistic_row_ok r"
  shows "ParseXfrmStatisticLine (statistic_line r) s = store_statistic (fst r) (snd r) s"
proof -
  obtain n v where r: "r = (n, v)" by (cases r)
  have n: "n \<noteq> []" "\<forall>c \<in> set n. \<not> isspace c" "NUL \<notin> set n" and v: "v \<le> UINT64_MAX"
    and len: "length (statistic_line (n, v)) < XFRM_STAT_LINE_LENGTH"
    using assms by (auto simp: statistic_row_ok_def r)
  have sp: "isspace (CHR '' '')" "isspace (CHR 0x09)" by code_simp+
  define gap where "gap = replicate (24 - length n) (CHR '' '') @ [CHR 0x09]"
  have gap: "gap \<noteq> []" "\<forall>c \<in> set gap. isspace c" "NUL \<notin> set gap"
    using sp by (auto simp: gap_def)
  have line: "statistic_line (n, v) = n @ gap @ dec v" by (simp add: statistic_line_def gap_def)
  have nul: "NUL \<notin> set (n @ gap @ dec v)" using n(3) gap(3) dec_no_NUL by simp
  have own: "cstr ((n @ gap @ dec v) @ [NUL]) = n @ gap @ dec v"
    using cstr_append_NUL [of "n @ gap @ dec v" "[]"] cstr_id [OF nul] by simp
  have 1: "dropWhile isspace (n @ gap @ dec v) = n @ gap @ dec v"
    using n(1,2) by (cases n) auto
  obtain g gs where g: "gap = g # gs" using gap(1) by (cases gap) auto
  have gsp: "isspace g" "\<forall>c \<in> set gs. isspace c" using gap(2) g by auto
  have 2: "takeWhile (\<lambda>c. \<not> isspace c) (n @ gap @ dec v) = n"
    "dropWhile (\<lambda>c. \<not> isspace c) (n @ gap @ dec v) = g # gs @ dec v"
    using n(2) gsp(1) by (simp_all add: g takeWhile_append2 dropWhile_append2)
  have d: "\<not> isspace (hd (dec v))" by (simp add: isdigit_not_isspace)
  have 3: "dropWhile isspace (gs @ dec v) = dec v"
    using gsp(2) d by (simp add: dropWhile_append2 dropWhile_eq_self_iff)
  have 4: "strtoull (dec v) 10 = (v, [], False)" using strtoull_dec [OF v, of "[]"] by simp
  show ?thesis
    using len n(1) gap(1) unfolding r ParseXfrmStatisticLine_def line own Let_def 1 2
    using dec_not_Nil [of v, THEN not_sym] by (simp add: 3 4)
qed

lemma statistic_line_clean:
  assumes "statistic_row_ok r"
  shows "CHR 0x0A \<notin> set (statistic_line r)" and "last (statistic_line r) \<noteq> CHR 0x0D"
    and "statistic_line r \<noteq> []"
proof -
  have nl: "isspace (CHR 0x0A)" "isspace (CHR 0x0D)" by code_simp+
  have d: "\<forall>c \<in> set (dec (snd r)). \<not> isspace c" using dec_isdigit isdigit_not_isspace by blast
  show "CHR 0x0A \<notin> set (statistic_line r)"
    using assms nl d by (auto simp: statistic_row_ok_def statistic_line_def)
  have "last (statistic_line r) = last (dec (snd r))" by (simp add: statistic_line_def)
  then show "last (statistic_line r) \<noteq> CHR 0x0D" using nl d by (metis dec_not_Nil last_in_set)
  show "statistic_line r \<noteq> []" by (simp add: statistic_line_def)
qed

definition statistics_text :: "(string \<times> nat) list \<Rightarrow> string" where
  "statistics_text rows = concat (map (\<lambda>r. statistic_line r @ [CHR 0x0A]) rows)"

lemma statistic_lines_row:
  assumes "statistic_row_ok r"
  shows "statistic_lines (statistic_line r @ CHR 0x0A # rest) s =
    (let (s, e) = store_statistic (fst r) (snd r) s in
     if e \<noteq> IPSEC_OK then (s, e) else statistic_lines rest s)"
proof -
  have tw: "takeWhile (\<lambda>c. c \<noteq> CHR 0x0A) (statistic_line r @ CHR 0x0A # rest) = statistic_line r"
    using statistic_line_clean(1) [OF assms] by (subst takeWhile_append2) auto
  have "statistic_line_text (statistic_line r @ CHR 0x0A # rest) = statistic_line r"
    using statistic_line_clean(2) [OF assms] by (simp add: statistic_line_text_def tw)
  moreover have "drop (Suc (length (statistic_line r))) (statistic_line r @ CHR 0x0A # rest) = rest"
    by simp
  ultimately show ?thesis
    unfolding statistic_lines.simps [of "statistic_line r @ CHR 0x0A # rest"] tw
    by (simp add: ParseXfrmStatisticLine_row [OF assms] del: drop_append cong: if_cong)
qed

lemma statistic_lines_text:
  assumes "shows_statistics s before" and "distinct (map fst (rows @ before))"
    and "\<forall>r \<in> set rows. statistic_row_ok r"
  shows "\<exists>s'. statistic_lines (statistics_text rows) s = (s', IPSEC_OK) \<and>
    shows_statistics s' (rev rows @ before)"
  using assms
proof (induction rows arbitrary: s before)
  case Nil
  then show ?case by (simp add: statistics_text_def statistic_lines.simps)
next
  case (Cons r rows)
  obtain n v where r: "r = (n, v)" by (cases r)
  have ok: "statistic_row_ok (n, v)" and "NUL \<notin> set n" "n \<notin> fst ` set before"
    using Cons.prems(2,3) by (auto simp: r statistic_row_ok_def)
  then obtain s1 where s1: "store_statistic n v s = (s1, IPSEC_OK)" "shows_statistics s1 (r # before)"
    using store_statistic_row [OF Cons.prems(1)] unfolding r by blast
  have "distinct (map fst (rows @ r # before))" using Cons.prems(2) by auto
  then obtain s' where s': "statistic_lines (statistics_text rows) s1 = (s', IPSEC_OK)"
    "shows_statistics s' (rev rows @ r # before)"
    using Cons.IH [OF s1(2)] Cons.prems(3) by auto
  have "statistic_lines (statistics_text (r # rows)) s = (s', IPSEC_OK)"
    using statistic_lines_row [OF ok, of "statistics_text rows" s] s1(1) s'(1)
    by (simp add: statistics_text_def r)
  then show ?case using s'(2) by simp
qed

lemma shows_statistics_rev:
  assumes "distinct (map fst rows)"
  shows "shows_statistics s (rev rows) \<longleftrightarrow> shows_statistics s rows"
proof -
  have "map_of (rev rows) = map_of rows"
    using assms by (simp add: map_of_inject_set rev_map [symmetric])
  then show ?thesis by (simp add: shows_statistics_def)
qed

lemma ParseXfrmStatisticsText_rows:
  assumes "distinct (map fst rows)" and "\<forall>r \<in> set rows. statistic_row_ok r"
  shows "\<exists>s. ParseXfrmStatisticsText (statistics_text rows) = (s, IPSEC_OK) \<and> shows_statistics s rows"
  using statistic_lines_text [OF shows_zero _ assms(2)] assms(1)
  by (simp add: ParseXfrmStatisticsText_def shows_statistics_rev)

subsection \<open>The file\<close>

text \<open>Reads of a file: interrupted calls and pieces of its text, in any division.\<close>

primrec read_text :: "os_event list \<Rightarrow> bytes" where
  "read_text [] = []"
| "read_text (ev # evs) = (case ev of ReadBytes bs \<Rightarrow> bs | _ \<Rightarrow> []) @ read_text evs"

definition file_reads :: "os_event list \<Rightarrow> bool" where
  "file_reads evs \<longleftrightarrow> (\<forall>ev \<in> set evs. ev = ReadErrno EINTR \<or> (\<exists>bs. bs \<noteq> [] \<and> ev = ReadBytes bs))"

lemma read_retry_end:
  "os_trace w = ReadBytes [] # rest \<Longrightarrow> read_retry n w = (Inr [], w\<lparr>os_trace := rest\<rparr>)"
  by (simp add: read_retry.simps [of n w] sys_read_def next_event_def)

lemma read_retry_reads:
  assumes "os_trace w = evs @ ReadBytes [] # rest" and "file_reads evs" and "0 < n"
  shows "read_retry n w = (Inr [], w\<lparr>os_trace := rest\<rparr>) \<and> read_text evs = [] \<or>
    (\<exists>bs evs'. read_retry n w = (Inr bs, w\<lparr>os_trace := evs' @ ReadBytes [] # rest\<rparr>) \<and> bs \<noteq> [] \<and>
       length bs \<le> n \<and> file_reads evs' \<and> read_text evs = bs @ read_text evs')"
  using assms(1,2)
proof (induction evs arbitrary: w)
  case Nil
  then show ?case by (simp add: read_retry_end)
next
  case (Cons ev evs)
  have evs: "file_reads evs" using Cons.prems(2) by (simp add: file_reads_def)
  consider (intr) "ev = ReadErrno EINTR" | (data) bs where "bs \<noteq> []" "ev = ReadBytes bs"
    using Cons.prems(2) by (auto simp: file_reads_def)
  then show ?case
  proof cases
    case intr
    then have "read_retry n w = read_retry n (w\<lparr>os_trace := evs @ ReadBytes [] # rest\<rparr>)"
      using Cons.prems(1) by (simp add: read_retry.simps [of n w] sys_read_def next_event_def)
    then show ?thesis using Cons.IH [of "w\<lparr>os_trace := evs @ ReadBytes [] # rest\<rparr>"] evs intr by simp
  next
    case data
    show ?thesis
    proof (cases "length bs \<le> n")
      case True
      then have "read_retry n w = (Inr bs, w\<lparr>os_trace := evs @ ReadBytes [] # rest\<rparr>)"
        using Cons.prems(1) data by (simp add: read_retry.simps [of n w] sys_read_def next_event_def)
      then show ?thesis using data True evs by auto
    next
      case False
      let ?evs = "ReadBytes (drop n bs) # evs"
      have "read_retry n w = (Inr (take n bs), w\<lparr>os_trace := ?evs @ ReadBytes [] # rest\<rparr>)"
        using Cons.prems(1) data False
        by (simp add: read_retry.simps [of n w] sys_read_def next_event_def)
      moreover have "file_reads ?evs" using evs False by (simp add: file_reads_def)
      moreover have "read_text (ev # evs) = take n bs @ read_text ?evs"
        by (simp add: data append_assoc [symmetric] del: append_assoc)
      moreover have "take n bs \<noteq> []" "length (take n bs) \<le> n" using data assms(3) by auto
      ultimately show ?thesis by blast
    qed
  qed
qed

text \<open>A text below the limit is read completely, whatever the division.\<close>

lemma read_loop_reads:
  assumes "os_trace w = evs @ ReadBytes [] # rest" and "file_reads evs"
    and "\<And>n. n \<le> XFRM_STAT_MAX_BUFFER_LENGTH + 1 \<Longrightarrow> mem n"
    and "length buf < cap" and "cap \<le> XFRM_STAT_MAX_BUFFER_LENGTH"
    and "length (buf @ read_text evs) < XFRM_STAT_MAX_BUFFER_LENGTH"
  shows "read_loop mem cap buf w = ((w\<lparr>os_trace := rest\<rparr>, buf @ read_text evs), IPSEC_OK)"
  using assms
proof (induction mem cap buf w arbitrary: evs rule: read_loop.induct)
  case (1 mem cap buf w)
  from 1(4) have 2: "0 < cap - length buf"
    using "1.prems"(4) by simp
  from read_retry_reads [OF "1.prems"(1,2) 2] show ?case
  proof (elim disjE exE conjE)
    assume "read_retry (cap - length buf) w = (Inr [], w\<lparr>os_trace := rest\<rparr>)" "read_text evs = []"
    then show ?thesis by (simp add: read_loop.simps [of mem cap buf w])
  next
    fix bs evs'
    let ?w = "w\<lparr>os_trace := evs' @ ReadBytes [] # rest\<rparr>"
    assume r: "read_retry (cap - length buf) w = (Inr bs, ?w)" "bs \<noteq> []" "length bs \<le> cap - length buf"
      and e: "file_reads evs'" "read_text evs = bs @ read_text evs'"
    show ?thesis
    proof (cases "length (buf @ bs) = cap")
      case True
      then have small: "cap \<noteq> XFRM_STAT_MAX_BUFFER_LENGTH" using "1.prems"(6) e(2) by auto
      let ?c = "min (cap * 2) XFRM_STAT_MAX_BUFFER_LENGTH"
      have "read_loop mem cap buf w = read_loop mem ?c (buf @ bs) ?w"
        using r True small "1.prems"(3) [of "?c + 1"]
        by (simp add: read_loop.simps [of mem cap buf w])
      also have "\<dots> = ((w\<lparr>os_trace := rest\<rparr>, buf @ read_text evs), IPSEC_OK)"
        using "1.IH"(1) [OF r(1) [symmetric] refl refl r(2) refl True small refl _ _ e(1) "1.prems"(3)]
          "1.prems" True small e(2) by simp
      finally show ?thesis .
    next
      case False
      then have "read_loop mem cap buf w = read_loop mem cap (buf @ bs) ?w"
        using r by (simp add: read_loop.simps [of mem cap buf w])
      also have "\<dots> = ((w\<lparr>os_trace := rest\<rparr>, buf @ read_text evs), IPSEC_OK)"
        using "1.IH"(2) [OF r(1) [symmetric] refl refl r(2) refl False _ e(1) "1.prems"(3)]
          "1.prems" r(3) False e(2) by simp
      finally show ?thesis .
    qed
  qed
qed

text \<open>C27: The statistics of the kernel are read back completely: for a file that prints one row per
  counter, whatever the division into reads and the interruptions, every counter of the table that
  is printed has its value and its bit, the others are zero without a bit, unknown names are
  skipped, and the file is closed.\<close>

theorem GetIpsecXfrmStatistics_roundtrip:
  assumes "os_trace w = OpenFd fd # evs @ ReadBytes [] # rest" and "file_reads evs"
    and "read_text evs = statistics_text rows"
    and "distinct (map fst rows)" and "\<forall>r \<in> set rows. statistic_row_ok r"
    and "length (statistics_text rows) < XFRM_STAT_MAX_BUFFER_LENGTH"
    and "\<And>n. n \<le> XFRM_STAT_MAX_BUFFER_LENGTH + 1 \<Longrightarrow> mem n" and "int fd \<notin> set (os_open w)"
  shows "\<exists>s. GetIpsecXfrmStatistics mem (w, s0) = ((w\<lparr>os_trace := rest\<rparr>, s), IPSEC_OK) \<and>
    shows_statistics s rows"
proof -
  let ?w = "w\<lparr>os_trace := evs @ ReadBytes [] # rest, os_open := int fd # os_open w\<rparr>"
  have op: "sys_open_file w = (Inr (int fd), ?w)"
    by (simp add: sys_open_file_def next_event_def assms(1,8))
  have "read_loop mem XFRM_STAT_INITIAL_BUFFER_LENGTH [] ?w =
      ((?w\<lparr>os_trace := rest\<rparr>, [] @ read_text evs), IPSEC_OK)"
    by (rule read_loop_reads [OF _ assms(2,7)]) (simp_all add: assms(3,6))
  then have "ReadXfrmStatisticsFile mem w = ((w\<lparr>os_trace := rest\<rparr>, statistics_text rows), IPSEC_OK)"
    using assms(7) [of "XFRM_STAT_INITIAL_BUFFER_LENGTH + 1"] assms(8)
    by (simp add: ReadXfrmStatisticsFile_def op sys_close_def assms(3))
  moreover obtain s where "ParseXfrmStatisticsText (statistics_text rows) = (s, IPSEC_OK)"
    "shows_statistics s rows"
    using ParseXfrmStatisticsText_rows [OF assms(4,5)] by blast
  ultimately show ?thesis by (simp add: GetIpsecXfrmStatistics_def)
qed

text \<open>A file of two counters and an unknown one, read in three interrupted pieces.\<close>

definition sample_statistics :: "(string \<times> nat) list" where
  "sample_statistics = [(''XfrmInNoStates'', 7), (''XfrmFwdHdrError'', 3), (''XfrmOutPolBlock'', 12)]"

lemma GetIpsecXfrmStatistics_roundtrip_witness:
  "\<exists>s. GetIpsecXfrmStatistics (\<lambda>n. n \<le> 131073)
      (sample_world [] [OpenFd 5, ReadBytes (take 20 (statistics_text sample_statistics)),
         ReadErrno EINTR, ReadBytes (drop 20 (statistics_text sample_statistics)), ReadBytes [], Slept],
       zero_statistics) =
    ((sample_world [] [Slept], s), IPSEC_OK) \<and>
    shows_statistics s sample_statistics"
proof -
  let ?t = "statistics_text sample_statistics"
  let ?evs = "[ReadBytes (take 20 ?t), ReadErrno EINTR, ReadBytes (drop 20 ?t)]"
  have len: "length ?t = 82" by code_simp
  have ne: "take 20 ?t \<noteq> []" "drop 20 ?t \<noteq> []"
    using len by (auto simp del: length_0_conv simp: length_0_conv [symmetric])
  have "file_reads ?evs" using ne by (simp add: file_reads_def)
  moreover have "\<forall>r \<in> set sample_statistics. statistic_row_ok r" by code_simp
  moreover have "distinct (map fst sample_statistics)" by code_simp
  ultimately show ?thesis
    using GetIpsecXfrmStatistics_roundtrip [of "sample_world [] (OpenFd 5 # ?evs @ [ReadBytes [], Slept])"
        5 ?evs "[Slept]" sample_statistics "\<lambda>n. n \<le> 131073" zero_statistics] len
    by (simp add: sample_world_def)
qed

end
