(* ===== verification/XfrmQueries.thy ===== *)
theory XfrmQueries
  imports NetlinkRows
begin

section \<open>XFRM states and policies (\<open>ipsec/xfrm/xfrm_state.c\<close>, \<open>xfrm_policy.c\<close>)\<close>

text \<open>
  The security associations and policies of the kernel, from netlink dumps.  A structure of the
  kernel is read at the offsets of \<open>linux/xfrm.h\<close>.  A list of the result is a list of records;
  \<open>mem\<close> says whether \<open>realloc\<close> succeeds for a size, and \<open>on_last\<close> works on the appended item.
\<close>

subsection \<open>Structures of the kernel\<close>

abbreviation NETLINK_XFRM :: nat where "NETLINK_XFRM \<equiv> 6"
abbreviation XFRM_MSG_NEWSA :: nat where "XFRM_MSG_NEWSA \<equiv> 0x10"
abbreviation XFRM_MSG_GETSA :: nat where "XFRM_MSG_GETSA \<equiv> 0x12"
abbreviation XFRM_MSG_NEWPOLICY :: nat where "XFRM_MSG_NEWPOLICY \<equiv> 0x13"
abbreviation XFRM_MSG_GETPOLICY :: nat where "XFRM_MSG_GETPOLICY \<equiv> 0x15"
abbreviation XFRMA_ALG_AUTH :: nat where "XFRMA_ALG_AUTH \<equiv> 1"
abbreviation XFRMA_ALG_CRYPT :: nat where "XFRMA_ALG_CRYPT \<equiv> 2"
abbreviation XFRMA_TMPL :: nat where "XFRMA_TMPL \<equiv> 5"
abbreviation XFRMA_ALG_AEAD :: nat where "XFRMA_ALG_AEAD \<equiv> 18"
abbreviation XFRMA_ALG_AUTH_TRUNC :: nat where "XFRMA_ALG_AUTH_TRUNC \<equiv> 20"
abbreviation XFRMA_REPLAY_ESN_VAL :: nat where "XFRMA_REPLAY_ESN_VAL \<equiv> 23"
abbreviation XFRM_MODE_TRANSPORT :: nat where "XFRM_MODE_TRANSPORT \<equiv> 0"
abbreviation XFRM_MODE_TUNNEL :: nat where "XFRM_MODE_TUNNEL \<equiv> 1"
abbreviation XFRM_MODE_BEET :: nat where "XFRM_MODE_BEET \<equiv> 4"
abbreviation XFRM_STATE_ESN :: nat where "XFRM_STATE_ESN \<equiv> 128"
abbreviation XFRM_POLICY_IN :: nat where "XFRM_POLICY_IN \<equiv> 0"
abbreviation XFRM_POLICY_OUT :: nat where "XFRM_POLICY_OUT \<equiv> 1"
abbreviation XFRM_POLICY_FWD :: nat where "XFRM_POLICY_FWD \<equiv> 2"
abbreviation XFRM_POLICY_MAX :: nat where "XFRM_POLICY_MAX \<equiv> 3"

abbreviation sizeof_xfrm_usersa_info :: nat where "sizeof_xfrm_usersa_info \<equiv> 224"
abbreviation sizeof_xfrm_usersa_id :: nat where "sizeof_xfrm_usersa_id \<equiv> 24"
abbreviation sizeof_xfrm_userpolicy_info :: nat where "sizeof_xfrm_userpolicy_info \<equiv> 168"
abbreviation sizeof_xfrm_userpolicy_id :: nat where "sizeof_xfrm_userpolicy_id \<equiv> 64"
abbreviation sizeof_xfrm_user_tmpl :: nat where "sizeof_xfrm_user_tmpl \<equiv> 64"
abbreviation sizeof_xfrm_algo :: nat where "sizeof_xfrm_algo \<equiv> 68"
abbreviation sizeof_xfrm_algo_auth :: nat where "sizeof_xfrm_algo_auth \<equiv> 72"
abbreviation sizeof_xfrm_algo_aead :: nat where "sizeof_xfrm_algo_aead \<equiv> 72"
abbreviation sizeof_xfrm_replay_state_esn :: nat where "sizeof_xfrm_replay_state_esn \<equiv> 24"
abbreviation sizeof_alg_name :: nat where "sizeof_alg_name \<equiv> 64"

text \<open>\<open>ntohl\<close> of a field: network byte order.\<close>

definition be32_at :: "nat \<Rightarrow> bytes \<Rightarrow> nat" where
  "be32_at off bs = le_value (rev (field_at off 4 bs))"

subsection \<open>States\<close>

record IpsecXfrmStateInfo =
  xs_eFamily :: IpsecAddressFamily
  xs_acSource :: cbuf
  xs_acDestination :: cbuf
  xs_uiProtocol :: nat
  xs_uiSpi :: nat
  xs_uiReqid :: nat
  xs_eMode :: IpsecMode
  xs_acEncryptionAlgorithm :: cbuf
  xs_acIntegrityAlgorithm :: cbuf
  xs_acAeadAlgorithm :: cbuf
  xs_bEsn :: bool
  xs_uiReplayWindow :: nat
  xs_ullPacketCount :: nat
  xs_ullByteCount :: nat
  xs_ullAddTimeSeconds :: nat
  xs_ullUseTimeSeconds :: nat
  xs_ullSoftByteLimit :: nat
  xs_ullHardByteLimit :: nat
  xs_ullSoftPacketLimit :: nat
  xs_ullHardPacketLimit :: nat

abbreviation sizeof_IpsecXfrmStateInfo :: nat where "sizeof_IpsecXfrmStateInfo \<equiv> 608"

definition zero_xfrm_state :: IpsecXfrmStateInfo where
  "zero_xfrm_state =
     \<lparr>xs_eFamily = IPSEC_ADDRESS_FAMILY_UNSPECIFIED,
      xs_acSource = replicate IPSEC_ADDRESS_LENGTH NUL,
      xs_acDestination = replicate IPSEC_ADDRESS_LENGTH NUL,
      xs_uiProtocol = 0, xs_uiSpi = 0, xs_uiReqid = 0, xs_eMode = IPSEC_MODE_TUNNEL,
      xs_acEncryptionAlgorithm = replicate IPSEC_ALGORITHM_LENGTH NUL,
      xs_acIntegrityAlgorithm = replicate IPSEC_ALGORITHM_LENGTH NUL,
      xs_acAeadAlgorithm = replicate IPSEC_ALGORITHM_LENGTH NUL,
      xs_bEsn = False, xs_uiReplayWindow = 0, xs_ullPacketCount = 0, xs_ullByteCount = 0,
      xs_ullAddTimeSeconds = 0, xs_ullUseTimeSeconds = 0, xs_ullSoftByteLimit = 0,
      xs_ullHardByteLimit = 0, xs_ullSoftPacketLimit = 0, xs_ullHardPacketLimit = 0\<rparr>"

definition MapXfrmAddressFamily :: "nat \<Rightarrow> IpsecAddressFamily" where
  "MapXfrmAddressFamily usFamily = address_family usFamily"

definition MapXfrmMode :: "nat \<Rightarrow> IpsecMode" where
  "MapXfrmMode ucMode =
     (if ucMode = XFRM_MODE_TUNNEL then IPSEC_MODE_TUNNEL
      else if ucMode = XFRM_MODE_TRANSPORT then IPSEC_MODE_TRANSPORT
      else if ucMode = XFRM_MODE_BEET then IPSEC_MODE_BEET
      else IPSEC_MODE_UNKNOWN)"

definition ConvertXfrmAddress :: "nat \<Rightarrow> bytes \<Rightarrow> cbuf \<Rightarrow> cbuf outcome" where
  "ConvertXfrmAddress usFamily pAddress pcDestination =
     (if \<not> (usFamily = AF_INET \<or> usFamily = AF_INET6)
      then (pcDestination[0 := NUL], IPSEC_ERR_NOT_SUPPORTED)
      else case inet_ntop usFamily pAddress pcDestination of
             None \<Rightarrow> (pcDestination[0 := NUL], IPSEC_ERR_NETLINK_PARSE)
           | Some buf \<Rightarrow> (buf, IPSEC_OK))"

definition CopyXfrmAlgorithmName :: "cbuf \<Rightarrow> bytes \<Rightarrow> cbuf outcome" where
  "CopyXfrmAlgorithmName pcDestination pcAlgorithmName =
     CopyIpsecString pcDestination
       (Some (take (strnlen pcAlgorithmName sizeof_alg_name) pcAlgorithmName))"

text \<open>The algorithm structures all begin with the name.\<close>

definition ParseXfrmStateAttribute ::
  "nat \<Rightarrow> bytes \<Rightarrow> IpsecXfrmStateInfo \<Rightarrow> IpsecXfrmStateInfo outcome" where
  "ParseXfrmStateAttribute type payload pInfo =
     (if type = XFRMA_ALG_CRYPT then
        if length payload < sizeof_xfrm_algo then (pInfo, IPSEC_ERR_NETLINK_PARSE)
        else edit xs_acEncryptionAlgorithm xs_acEncryptionAlgorithm_update
               (\<lambda>buf. CopyXfrmAlgorithmName buf (take sizeof_alg_name payload)) pInfo
      else if type = XFRMA_ALG_AUTH then
        if length payload < sizeof_xfrm_algo then (pInfo, IPSEC_ERR_NETLINK_PARSE)
        else edit xs_acIntegrityAlgorithm xs_acIntegrityAlgorithm_update
               (\<lambda>buf. CopyXfrmAlgorithmName buf (take sizeof_alg_name payload)) pInfo
      else if type = XFRMA_ALG_AUTH_TRUNC then
        if length payload < sizeof_xfrm_algo_auth then (pInfo, IPSEC_ERR_NETLINK_PARSE)
        else edit xs_acIntegrityAlgorithm xs_acIntegrityAlgorithm_update
               (\<lambda>buf. CopyXfrmAlgorithmName buf (take sizeof_alg_name payload)) pInfo
      else if type = XFRMA_ALG_AEAD then
        if length payload < sizeof_xfrm_algo_aead then (pInfo, IPSEC_ERR_NETLINK_PARSE)
        else edit xs_acAeadAlgorithm xs_acAeadAlgorithm_update
               (\<lambda>buf. CopyXfrmAlgorithmName buf (take sizeof_alg_name payload)) pInfo
      else if type = XFRMA_REPLAY_ESN_VAL then
        if length payload < sizeof_xfrm_replay_state_esn then (pInfo, IPSEC_ERR_NETLINK_PARSE)
        else (pInfo\<lparr>xs_uiReplayWindow := u32_at 20 payload, xs_bEsn := True\<rparr>, IPSEC_OK)
      else (pInfo, IPSEC_OK))"

definition AppendXfrmState ::
  "(nat \<Rightarrow> bool) \<Rightarrow> IpsecXfrmStateInfo list \<Rightarrow> IpsecXfrmStateInfo list outcome" where
  "AppendXfrmState mem pList = grow_array mem sizeof_IpsecXfrmStateInfo zero_xfrm_state pList"

text \<open>The fields of \<open>struct xfrm_usersa_info\<close> that are copied.\<close>

definition copy_usersa :: "bytes \<Rightarrow> IpsecXfrmStateInfo \<Rightarrow> IpsecXfrmStateInfo" where
  "copy_usersa k pInfo =
     pInfo\<lparr>xs_uiProtocol := u8_at 76 k, xs_uiSpi := be32_at 72 k, xs_uiReqid := u32_at 208 k,
       xs_eMode := MapXfrmMode (u8_at 214 k), xs_bEsn := u8_at 216 k AND XFRM_STATE_ESN \<noteq> 0,
       xs_uiReplayWindow := u8_at 215 k,
       xs_ullPacketCount := u64_at 168 k, xs_ullByteCount := u64_at 160 k,
       xs_ullAddTimeSeconds := u64_at 176 k, xs_ullUseTimeSeconds := u64_at 184 k,
       xs_ullSoftByteLimit := u64_at 96 k, xs_ullHardByteLimit := u64_at 104 k,
       xs_ullSoftPacketLimit := u64_at 112 k, xs_ullHardPacketLimit := u64_at 120 k\<rparr>"

definition ParseXfrmStateMessage ::
  "(nat \<Rightarrow> bool) \<Rightarrow> nlmsghdr \<Rightarrow> bytes \<Rightarrow> IpsecXfrmStateInfo list \<Rightarrow> IpsecXfrmStateInfo list outcome" where
  "ParseXfrmStateMessage mem pHeader data pList =
     (if nlmsg_type pHeader \<noteq> XFRM_MSG_NEWSA \<or> NLMSG_PAYLOAD pHeader < sizeof_xfrm_usersa_info
      then (pList, IPSEC_ERR_NETLINK_PARSE)
      else
        let (pList, eError) = AppendXfrmState mem pList; family = u16_at 212 data in
        if eError \<noteq> IPSEC_OK then (pList, eError)
        else on_last (run_steps
          [\<lambda>i. (i\<lparr>xs_eFamily := MapXfrmAddressFamily family\<rparr>, IPSEC_OK),
           edit xs_acSource xs_acSource_update (ConvertXfrmAddress family (field_at 80 16 data)),
           edit xs_acDestination xs_acDestination_update
             (ConvertXfrmAddress family (field_at 56 16 data)),
           \<lambda>i. (copy_usersa data i, IPSEC_OK),
           parse_attributes ParseXfrmStateAttribute (drop sizeof_xfrm_usersa_info data)]) pList)"

definition GetIpsecXfrmStates ::
  "(nat \<Rightarrow> bool) \<Rightarrow> Ipsec \<Rightarrow> (Ipsec \<times> IpsecXfrmStateInfo list) outcome" where
  "GetIpsecXfrmStates mem w =
     (let ((w, pList), eError) =
            ExecuteNetlinkDump NETLINK_XFRM XFRM_MSG_GETSA
              (Some (replicate sizeof_xfrm_usersa_id NUL)) sizeof_xfrm_usersa_id
              (Some (ParseXfrmStateMessage mem)) (w, [])
      in if eError \<noteq> IPSEC_OK then
           ((LogIpsec IPSEC_LOG_ERROR
               (''failed to query XFRM states: '' @ GetIpsecErrorString eError) w, []), eError)
         else ((w, pList), eError))"

subsection \<open>Policies\<close>

datatype IpsecXfrmDirection =
  IPSEC_XFRM_DIRECTION_IN | IPSEC_XFRM_DIRECTION_OUT | IPSEC_XFRM_DIRECTION_FORWARD
| IPSEC_XFRM_DIRECTION_UNKNOWN

record IpsecXfrmPolicyInfo =
  xp_eFamily :: IpsecAddressFamily
  xp_eDirection :: IpsecXfrmDirection
  xp_acSourceSelector :: cbuf
  xp_ucSourcePrefixLength :: nat
  xp_acDestinationSelector :: cbuf
  xp_ucDestinationPrefixLength :: nat
  xp_uiPriority :: nat
  xp_uiIndex :: nat
  xp_uiReqid :: nat
  xp_eMode :: IpsecMode
  xp_acTemplateSource :: cbuf
  xp_acTemplateDestination :: cbuf
  xp_uiProtocol :: nat

abbreviation sizeof_IpsecXfrmPolicyInfo :: nat where "sizeof_IpsecXfrmPolicyInfo \<equiv> 288"

definition zero_xfrm_policy :: IpsecXfrmPolicyInfo where
  "zero_xfrm_policy =
     \<lparr>xp_eFamily = IPSEC_ADDRESS_FAMILY_UNSPECIFIED, xp_eDirection = IPSEC_XFRM_DIRECTION_IN,
      xp_acSourceSelector = replicate IPSEC_ADDRESS_LENGTH NUL, xp_ucSourcePrefixLength = 0,
      xp_acDestinationSelector = replicate IPSEC_ADDRESS_LENGTH NUL,
      xp_ucDestinationPrefixLength = 0, xp_uiPriority = 0, xp_uiIndex = 0, xp_uiReqid = 0,
      xp_eMode = IPSEC_MODE_UNKNOWN,
      xp_acTemplateSource = replicate IPSEC_ADDRESS_LENGTH NUL,
      xp_acTemplateDestination = replicate IPSEC_ADDRESS_LENGTH NUL, xp_uiProtocol = 0\<rparr>"

definition MapPolicyAddressFamily :: "nat \<Rightarrow> IpsecAddressFamily" where
  "MapPolicyAddressFamily usFamily = address_family usFamily"

definition MapPolicyDirection :: "nat \<Rightarrow> IpsecXfrmDirection" where
  "MapPolicyDirection ucDirection =
     (if ucDirection = XFRM_POLICY_IN then IPSEC_XFRM_DIRECTION_IN
      else if ucDirection = XFRM_POLICY_OUT then IPSEC_XFRM_DIRECTION_OUT
      else if ucDirection = XFRM_POLICY_FWD then IPSEC_XFRM_DIRECTION_FORWARD
      else IPSEC_XFRM_DIRECTION_UNKNOWN)"

definition MapPolicyMode :: "nat \<Rightarrow> IpsecMode" where
  "MapPolicyMode ucMode =
     (if ucMode = XFRM_MODE_TUNNEL then IPSEC_MODE_TUNNEL
      else if ucMode = XFRM_MODE_TRANSPORT then IPSEC_MODE_TRANSPORT
      else if ucMode = XFRM_MODE_BEET then IPSEC_MODE_BEET
      else IPSEC_MODE_UNKNOWN)"

definition ConvertPolicyAddress :: "nat \<Rightarrow> bytes \<Rightarrow> cbuf \<Rightarrow> cbuf outcome" where
  "ConvertPolicyAddress usFamily pAddress pcDestination =
     (if \<not> (usFamily = AF_INET \<or> usFamily = AF_INET6)
      then (pcDestination[0 := NUL], IPSEC_ERR_NOT_SUPPORTED)
      else case inet_ntop usFamily pAddress pcDestination of
             None \<Rightarrow> (pcDestination[0 := NUL], IPSEC_ERR_NETLINK_PARSE)
           | Some buf \<Rightarrow> (buf, IPSEC_OK))"

definition AppendXfrmPolicy ::
  "(nat \<Rightarrow> bool) \<Rightarrow> IpsecXfrmPolicyInfo list \<Rightarrow> IpsecXfrmPolicyInfo list outcome" where
  "AppendXfrmPolicy mem pList = grow_array mem sizeof_IpsecXfrmPolicyInfo zero_xfrm_policy pList"

text \<open>The first template, of \<open>struct xfrm_user_tmpl\<close>.\<close>

definition ParsePolicyTemplates ::
  "nat \<Rightarrow> bytes \<Rightarrow> IpsecXfrmPolicyInfo \<Rightarrow> IpsecXfrmPolicyInfo outcome" where
  "ParsePolicyTemplates usFamily payload pInfo =
     (if length payload = 0 \<or> length payload mod sizeof_xfrm_user_tmpl \<noteq> 0
      then (pInfo, IPSEC_ERR_NETLINK_PARSE)
      else
        let family = u16_at 24 payload;
            usFamily = (if family = AF_INET \<or> family = AF_INET6 then family else usFamily)
        in run_steps
          [\<lambda>i. (i\<lparr>xp_uiReqid := u32_at 44 payload, xp_eMode := MapPolicyMode (u8_at 48 payload),
                  xp_uiProtocol := u8_at 20 payload\<rparr>, IPSEC_OK),
           edit xp_acTemplateSource xp_acTemplateSource_update
             (ConvertPolicyAddress usFamily (field_at 28 16 payload)),
           edit xp_acTemplateDestination xp_acTemplateDestination_update
             (ConvertPolicyAddress usFamily (field_at 0 16 payload))] pInfo)"

definition policy_attribute ::
  "nat \<Rightarrow> nat \<Rightarrow> bytes \<Rightarrow> IpsecXfrmPolicyInfo \<Rightarrow> IpsecXfrmPolicyInfo outcome" where
  "policy_attribute usFamily type payload pInfo =
     (if type = XFRMA_TMPL then ParsePolicyTemplates usFamily payload pInfo else (pInfo, IPSEC_OK))"

definition ParseXfrmPolicyMessage ::
  "(nat \<Rightarrow> bool) \<Rightarrow> nlmsghdr \<Rightarrow> bytes \<Rightarrow> IpsecXfrmPolicyInfo list \<Rightarrow> IpsecXfrmPolicyInfo list outcome" where
  "ParseXfrmPolicyMessage mem pHeader data pList =
     (if nlmsg_type pHeader \<noteq> XFRM_MSG_NEWPOLICY \<or>
         NLMSG_PAYLOAD pHeader < sizeof_xfrm_userpolicy_info
      then (pList, IPSEC_ERR_NETLINK_PARSE)
      else
        let (pList, eError) = AppendXfrmPolicy mem pList; family = u16_at 40 data in
        if eError \<noteq> IPSEC_OK then (pList, eError)
        else on_last (run_steps
          [\<lambda>i. (i\<lparr>xp_eFamily := MapPolicyAddressFamily family,
                  xp_eDirection := MapPolicyDirection (u8_at 160 data),
                  xp_ucSourcePrefixLength := u8_at 43 data,
                  xp_ucDestinationPrefixLength := u8_at 42 data,
                  xp_uiPriority := u32_at 152 data, xp_uiIndex := u32_at 156 data\<rparr>, IPSEC_OK),
           edit xp_acSourceSelector xp_acSourceSelector_update
             (ConvertPolicyAddress family (field_at 16 16 data)),
           edit xp_acDestinationSelector xp_acDestinationSelector_update
             (ConvertPolicyAddress family (field_at 0 16 data)),
           parse_attributes (policy_attribute family) (drop sizeof_xfrm_userpolicy_info data)]) pList)"

text \<open>The request is a \<open>struct xfrm_userpolicy_id\<close> with the direction outside the real ones.\<close>

definition policy_request :: bytes where
  "policy_request = (replicate sizeof_xfrm_userpolicy_id NUL)[60 := char_of XFRM_POLICY_MAX]"

definition GetIpsecXfrmPolicies ::
  "(nat \<Rightarrow> bool) \<Rightarrow> Ipsec \<Rightarrow> (Ipsec \<times> IpsecXfrmPolicyInfo list) outcome" where
  "GetIpsecXfrmPolicies mem w =
     (let ((w, pList), eError) =
            ExecuteNetlinkDump NETLINK_XFRM XFRM_MSG_GETPOLICY (Some policy_request)
              sizeof_xfrm_userpolicy_id (Some (ParseXfrmPolicyMessage mem)) (w, [])
      in if eError \<noteq> IPSEC_OK then
           ((LogIpsec IPSEC_LOG_ERROR
               (''failed to query XFRM policies: '' @ GetIpsecErrorString eError) w, []), eError)
         else ((w, pList), eError))"

subsection \<open>What the kernel encodes\<close>

text \<open>A security association of the kernel.  The parts that the library does not read are kept as
  bytes: \<open>ks_sel\<close>, \<open>ks_expire\<close>, \<open>ks_stats\<close>, \<open>ks_tail\<close>, what follows the names in the algorithm
  structures, and other attributes.\<close>

record kernel_sa =
  ks_family :: nat
  ks_saddr :: bytes
  ks_daddr :: bytes
  ks_spi :: nat
  ks_proto :: nat
  ks_reqid :: nat
  ks_mode :: nat
  ks_window :: nat
  ks_flags :: nat
  ks_soft_bytes :: nat
  ks_hard_bytes :: nat
  ks_soft_packets :: nat
  ks_hard_packets :: nat
  ks_bytes :: nat
  ks_packets :: nat
  ks_add_time :: nat
  ks_use_time :: nat
  ks_crypt :: "(string \<times> bytes) option"
  ks_auth :: "(string \<times> bytes \<times> bytes) option"
  ks_aead :: "(string \<times> bytes) option"
  ks_esn :: "(bytes \<times> nat \<times> bytes) option"
  ks_other :: "(nat \<times> bytes) list"
  ks_sel :: bytes
  ks_expire :: bytes
  ks_stats :: bytes
  ks_tail :: bytes

definition usersa_bytes :: "kernel_sa \<Rightarrow> bytes" where
  "usersa_bytes k =
     ks_sel k @ ks_daddr k @ rev (le_bytes 4 (ks_spi k)) @ le_bytes 1 (ks_proto k) @
     replicate 3 NUL @ ks_saddr k @ le_bytes 8 (ks_soft_bytes k) @ le_bytes 8 (ks_hard_bytes k) @
     le_bytes 8 (ks_soft_packets k) @ le_bytes 8 (ks_hard_packets k) @ ks_expire k @
     le_bytes 8 (ks_bytes k) @ le_bytes 8 (ks_packets k) @ le_bytes 8 (ks_add_time k) @
     le_bytes 8 (ks_use_time k) @ ks_stats k @ le_bytes 4 (ks_reqid k) @
     le_bytes 2 (ks_family k) @ le_bytes 1 (ks_mode k) @ le_bytes 1 (ks_window k) @
     le_bytes 1 (ks_flags k) @ ks_tail k"

definition alg_bytes :: "string \<Rightarrow> bytes \<Rightarrow> bytes" where
  "alg_bytes name key = name @ replicate (sizeof_alg_name - length name) NUL @ key"

definition aead_attributes :: "kernel_sa \<Rightarrow> (nat \<times> bytes) list" where
  "aead_attributes k = (case ks_aead k of None \<Rightarrow> [] | Some (n, key) \<Rightarrow> [(XFRMA_ALG_AEAD, alg_bytes n key)])"

definition auth_attributes :: "kernel_sa \<Rightarrow> (nat \<times> bytes) list" where
  "auth_attributes k =
     (case ks_auth k of
        None \<Rightarrow> []
      | Some (n, key, trunc) \<Rightarrow>
          [(XFRMA_ALG_AUTH, alg_bytes n key), (XFRMA_ALG_AUTH_TRUNC, alg_bytes n trunc)])"

definition crypt_attributes :: "kernel_sa \<Rightarrow> (nat \<times> bytes) list" where
  "crypt_attributes k =
     (case ks_crypt k of None \<Rightarrow> [] | Some (n, key) \<Rightarrow> [(XFRMA_ALG_CRYPT, alg_bytes n key)])"

definition esn_attributes :: "kernel_sa \<Rightarrow> (nat \<times> bytes) list" where
  "esn_attributes k =
     (case ks_esn k of
        None \<Rightarrow> []
      | Some (pre, win, bmp) \<Rightarrow> [(XFRMA_REPLAY_ESN_VAL, pre @ le_bytes 4 win @ bmp)])"

definition sa_attributes :: "kernel_sa \<Rightarrow> (nat \<times> bytes) list" where
  "sa_attributes k =
     ks_other k @ aead_attributes k @ auth_attributes k @ crypt_attributes k @ esn_attributes k"

definition sa_payload :: "kernel_sa \<Rightarrow> bytes" where
  "sa_payload k = usersa_bytes k @ concat (map rta_bytes (sa_attributes k))"

definition alg_ok :: "string \<Rightarrow> bytes \<Rightarrow> nat \<Rightarrow> bool" where
  "alg_ok name key n \<longleftrightarrow>
     NUL \<notin> set name \<and> length name \<le> sizeof_alg_name \<and> n \<le> length key \<and> length key \<le> 4096"

definition sa_algs_ok :: "kernel_sa \<Rightarrow> bool" where
  "sa_algs_ok k \<longleftrightarrow>
     (case ks_crypt k of None \<Rightarrow> True | Some (n, key) \<Rightarrow> alg_ok n key 4) \<and>
     (case ks_auth k of None \<Rightarrow> True | Some (n, key, trunc) \<Rightarrow> alg_ok n key 4 \<and> alg_ok n trunc 8) \<and>
     (case ks_aead k of None \<Rightarrow> True | Some (n, key) \<Rightarrow> alg_ok n key 8) \<and>
     (case ks_esn k of None \<Rightarrow> True | Some (pre, win, bmp) \<Rightarrow>
        length pre = 20 \<and> win \<le> UINT32_MAX \<and> length bmp \<le> 4096) \<and>
     (\<forall>a \<in> set (ks_other k). attribute_ok a \<and> fst a \<notin>
        {XFRMA_ALG_CRYPT, XFRMA_ALG_AUTH, XFRMA_ALG_AUTH_TRUNC, XFRMA_ALG_AEAD, XFRMA_REPLAY_ESN_VAL})"

definition sa_ok :: "kernel_sa \<Rightarrow> bool" where
  "sa_ok k \<longleftrightarrow>
     (ks_family k = AF_INET \<or> ks_family k = AF_INET6) \<and>
     length (ks_saddr k) = 16 \<and> length (ks_daddr k) = 16 \<and> length (ks_sel k) = 56 \<and>
     length (ks_expire k) = 32 \<and> length (ks_stats k) = 16 \<and> length (ks_tail k) = 7 \<and>
     ks_spi k \<le> UINT32_MAX \<and> ks_reqid k \<le> UINT32_MAX \<and> ks_proto k \<le> UINT8_MAX \<and>
     ks_mode k \<le> UINT8_MAX \<and> ks_window k \<le> UINT8_MAX \<and> ks_flags k \<le> UINT8_MAX \<and>
     ks_soft_bytes k \<le> UINT64_MAX \<and> ks_hard_bytes k \<le> UINT64_MAX \<and>
     ks_soft_packets k \<le> UINT64_MAX \<and> ks_hard_packets k \<le> UINT64_MAX \<and>
     ks_bytes k \<le> UINT64_MAX \<and> ks_packets k \<le> UINT64_MAX \<and>
     ks_add_time k \<le> UINT64_MAX \<and> ks_use_time k \<le> UINT64_MAX \<and> sa_algs_ok k"

text \<open>What the library must report of it.\<close>

definition name_of :: "(string \<times> 'a) option \<Rightarrow> string" where
  "name_of v = (case v of None \<Rightarrow> [] | Some (n, _) \<Rightarrow> n)"

definition shows_sa :: "IpsecXfrmStateInfo \<Rightarrow> kernel_sa \<Rightarrow> bool" where
  "shows_sa i k \<longleftrightarrow>
     xs_eFamily i = address_family (ks_family k) \<and>
     Some (cstr (xs_acSource i)) = inet_text (ks_family k) (ks_saddr k) \<and>
     Some (cstr (xs_acDestination i)) = inet_text (ks_family k) (ks_daddr k) \<and>
     xs_uiProtocol i = ks_proto k \<and> xs_uiSpi i = ks_spi k \<and> xs_uiReqid i = ks_reqid k \<and>
     xs_eMode i = MapXfrmMode (ks_mode k) \<and>
     cstr (xs_acEncryptionAlgorithm i) = name_of (ks_crypt k) \<and>
     cstr (xs_acIntegrityAlgorithm i) = name_of (ks_auth k) \<and>
     cstr (xs_acAeadAlgorithm i) = name_of (ks_aead k) \<and>
     xs_bEsn i = (ks_flags k AND XFRM_STATE_ESN \<noteq> 0 \<or> ks_esn k \<noteq> None) \<and>
     xs_uiReplayWindow i = (case ks_esn k of None \<Rightarrow> ks_window k | Some (_, win, _) \<Rightarrow> win) \<and>
     xs_ullPacketCount i = ks_packets k \<and> xs_ullByteCount i = ks_bytes k \<and>
     xs_ullAddTimeSeconds i = ks_add_time k \<and> xs_ullUseTimeSeconds i = ks_use_time k \<and>
     xs_ullSoftByteLimit i = ks_soft_bytes k \<and> xs_ullHardByteLimit i = ks_hard_bytes k \<and>
     xs_ullSoftPacketLimit i = ks_soft_packets k \<and> xs_ullHardPacketLimit i = ks_hard_packets k"

subsection \<open>Decoding what the kernel encodes\<close>

lemma usersa_fields:
  assumes "sa_ok k"
  shows "length (usersa_bytes k) = 224"
    and "u16_at 212 (usersa_bytes k @ r) = ks_family k"
    and "field_at 80 16 (usersa_bytes k @ r) = ks_saddr k"
    and "field_at 56 16 (usersa_bytes k @ r) = ks_daddr k"
    and "u8_at 76 (usersa_bytes k @ r) = ks_proto k"
    and "be32_at 72 (usersa_bytes k @ r) = ks_spi k"
    and "u32_at 208 (usersa_bytes k @ r) = ks_reqid k"
    and "u8_at 214 (usersa_bytes k @ r) = ks_mode k"
    and "u8_at 215 (usersa_bytes k @ r) = ks_window k"
    and "u8_at 216 (usersa_bytes k @ r) = ks_flags k"
    and "u64_at 160 (usersa_bytes k @ r) = ks_bytes k"
    and "u64_at 168 (usersa_bytes k @ r) = ks_packets k"
    and "u64_at 176 (usersa_bytes k @ r) = ks_add_time k"
    and "u64_at 184 (usersa_bytes k @ r) = ks_use_time k"
    and "u64_at 96 (usersa_bytes k @ r) = ks_soft_bytes k"
    and "u64_at 104 (usersa_bytes k @ r) = ks_hard_bytes k"
    and "u64_at 112 (usersa_bytes k @ r) = ks_soft_packets k"
    and "u64_at 120 (usersa_bytes k @ r) = ks_hard_packets k"
  using assms
  by (auto simp: usersa_bytes_def sa_ok_def u8_at_def u16_at_def u32_at_def u64_at_def be32_at_def
      le_value_bytes simp del: le_bytes.simps)

lemma ConvertXfrmAddress_text:
  assumes "family = AF_INET \<or> family = AF_INET6" and "length addr = 16"
    and "length buf = IPSEC_ADDRESS_LENGTH"
  shows "\<exists>buf'. ConvertXfrmAddress family addr buf = (buf', IPSEC_OK) \<and>
    length buf' = IPSEC_ADDRESS_LENGTH \<and> Some (cstr buf') = inet_text family addr"
proof -
  have 4: "length (inet_ntop4 (take 4 addr)) \<le> 16" "NUL \<notin> set (inet_ntop4 (take 4 addr))"
    using inet_ntop4_props [of "take 4 addr"] assms(2) by simp_all
  have 6: "length (inet_ntop6 addr) \<le> 45" "NUL \<notin> set (inet_ntop6 addr)"
    using inet_ntop6_props [of addr] assms(2) by simp_all
  from assms 4 6 show ?thesis
    by (auto simp: ConvertXfrmAddress_def inet_ntop_def inet_text_def cstr_buf_write0 cstr_id
        length_buf_write)
qed

text \<open>Attributes.  The effect of each kind on the item.\<close>

definition named :: "(string \<times> 'a) option \<Rightarrow> cbuf \<Rightarrow> cbuf" where
  "named v buf = (case v of None \<Rightarrow> buf | Some (n, _) \<Rightarrow> buf_write buf 0 (n @ [NUL]))"

lemma CopyXfrmAlgorithmName_bytes:
  assumes "alg_ok n key m" and "length buf = IPSEC_ALGORITHM_LENGTH"
  shows "CopyXfrmAlgorithmName buf (take sizeof_alg_name (alg_bytes n key)) =
    (buf_write buf 0 (n @ [NUL]), IPSEC_OK)"
proof -
  let ?a = "take sizeof_alg_name (alg_bytes n key)"
  have a: "?a = n @ replicate (sizeof_alg_name - length n) NUL"
    using assms(1) by (simp add: alg_bytes_def alg_ok_def)
  have "cstr ?a = n"
    using assms(1) unfolding a by (cases "sizeof_alg_name - length n") (simp_all add: alg_ok_def cstr_id)
  then have "strnlen ?a sizeof_alg_name = length n" by (simp add: strnlen_def)
  then have "take (strnlen ?a sizeof_alg_name) ?a = n" by (simp only: a) simp
  then show ?thesis using assms by (simp add: CopyXfrmAlgorithmName_def CopyIpsecString_def alg_ok_def)
qed

lemma length_alg_bytes: "alg_ok n key m \<Longrightarrow> length (alg_bytes n key) = 64 + length key"
  by (simp add: alg_bytes_def alg_ok_def)

definition names_wf :: "IpsecXfrmStateInfo \<Rightarrow> bool" where
  "names_wf i \<longleftrightarrow>
     length (xs_acEncryptionAlgorithm i) = IPSEC_ALGORITHM_LENGTH \<and>
     length (xs_acIntegrityAlgorithm i) = IPSEC_ALGORITHM_LENGTH \<and>
     length (xs_acAeadAlgorithm i) = IPSEC_ALGORITHM_LENGTH"

definition put_aead :: "kernel_sa \<Rightarrow> IpsecXfrmStateInfo \<Rightarrow> IpsecXfrmStateInfo" where
  "put_aead k i = i\<lparr>xs_acAeadAlgorithm := named (ks_aead k) (xs_acAeadAlgorithm i)\<rparr>"

definition put_auth :: "kernel_sa \<Rightarrow> IpsecXfrmStateInfo \<Rightarrow> IpsecXfrmStateInfo" where
  "put_auth k i =
     i\<lparr>xs_acIntegrityAlgorithm := named (ks_auth k) (named (ks_auth k) (xs_acIntegrityAlgorithm i))\<rparr>"

definition put_crypt :: "kernel_sa \<Rightarrow> IpsecXfrmStateInfo \<Rightarrow> IpsecXfrmStateInfo" where
  "put_crypt k i = i\<lparr>xs_acEncryptionAlgorithm := named (ks_crypt k) (xs_acEncryptionAlgorithm i)\<rparr>"

definition put_esn :: "kernel_sa \<Rightarrow> IpsecXfrmStateInfo \<Rightarrow> IpsecXfrmStateInfo" where
  "put_esn k i =
     (case ks_esn k of None \<Rightarrow> i
      | Some (_, win, _) \<Rightarrow> i\<lparr>xs_uiReplayWindow := win, xs_bEsn := True\<rparr>)"

abbreviation sa_steps :: "(nat \<times> bytes) list \<Rightarrow> IpsecXfrmStateInfo \<Rightarrow> IpsecXfrmStateInfo outcome" where
  "sa_steps as \<equiv> run_steps (map (\<lambda>(t, data). ParseXfrmStateAttribute t data) as)"

lemma length_named:
  "length buf = IPSEC_ALGORITHM_LENGTH \<Longrightarrow> length (name_of v) \<le> 64 \<Longrightarrow>
   length (named v buf) = IPSEC_ALGORITHM_LENGTH"
  by (auto simp: named_def name_of_def length_buf_write split: option.split)

lemma sa_steps_other:
  assumes "\<forall>a \<in> set as. fst a \<notin>
    {XFRMA_ALG_CRYPT, XFRMA_ALG_AUTH, XFRMA_ALG_AUTH_TRUNC, XFRMA_ALG_AEAD, XFRMA_REPLAY_ESN_VAL}"
  shows "sa_steps as i = (i, IPSEC_OK)"
  using assms
  by (induction as) (auto simp: ParseXfrmStateAttribute_def)

lemma alg_bytes_long: "alg_ok n key m \<Longrightarrow> \<not> length (alg_bytes n key) < 64 + m"
  by (simp add: length_alg_bytes) (simp add: alg_ok_def)

lemma sa_steps_aead:
  assumes "sa_algs_ok k" and "names_wf i"
  shows "sa_steps (aead_attributes k) i = (put_aead k i, IPSEC_OK)"
proof (cases "ks_aead k")
  case (Some a)
  then have ok: "alg_ok (fst a) (snd a) 8" using assms(1) by (simp add: sa_algs_ok_def case_prod_beta)
  have len: "length (xs_acAeadAlgorithm i) = IPSEC_ALGORITHM_LENGTH" using assms(2) by (simp add: names_wf_def)
  show ?thesis using alg_bytes_long [OF ok]
    by (simp add: aead_attributes_def put_aead_def Some named_def ParseXfrmStateAttribute_def edit_def
        CopyXfrmAlgorithmName_bytes [OF ok len] case_prod_beta)
qed (simp add: aead_attributes_def put_aead_def named_def)

lemma sa_steps_crypt:
  assumes "sa_algs_ok k" and "names_wf i"
  shows "sa_steps (crypt_attributes k) i = (put_crypt k i, IPSEC_OK)"
proof (cases "ks_crypt k")
  case (Some a)
  then have ok: "alg_ok (fst a) (snd a) 4" using assms(1) by (simp add: sa_algs_ok_def case_prod_beta)
  have len: "length (xs_acEncryptionAlgorithm i) = IPSEC_ALGORITHM_LENGTH"
    using assms(2) by (simp add: names_wf_def)
  show ?thesis using alg_bytes_long [OF ok]
    by (simp add: crypt_attributes_def put_crypt_def Some named_def ParseXfrmStateAttribute_def edit_def
        CopyXfrmAlgorithmName_bytes [OF ok len] case_prod_beta)
qed (simp add: crypt_attributes_def put_crypt_def named_def)

lemma sa_steps_auth:
  "sa_algs_ok k \<Longrightarrow> names_wf i \<Longrightarrow> sa_steps (auth_attributes k) i = (put_auth k i, IPSEC_OK)"
proof (cases "ks_auth k")
  case (Some a)
  assume k: "sa_algs_ok k" and i: "names_wf i"
  obtain n key trunc where a: "ks_auth k = Some (n, key, trunc)" using Some by (cases a) auto
  have ok: "alg_ok n key 4" "alg_ok n trunc 8" using k a by (simp_all add: sa_algs_ok_def)
  have len: "length (xs_acIntegrityAlgorithm i) = IPSEC_ALGORITHM_LENGTH" using i by (simp add: names_wf_def)
  then have len': "length (buf_write (xs_acIntegrityAlgorithm i) 0 (n @ [NUL])) = IPSEC_ALGORITHM_LENGTH"
    using ok(1) by (simp add: length_buf_write alg_ok_def)
  have long: "\<not> length (alg_bytes n key) < 68" "\<not> length (alg_bytes n trunc) < 72"
    using alg_bytes_long [OF ok(1)] alg_bytes_long [OF ok(2)] by simp_all
  show ?thesis
    by (simp add: auth_attributes_def put_auth_def a named_def ParseXfrmStateAttribute_def edit_def long
        CopyXfrmAlgorithmName_bytes [OF ok(1) len] CopyXfrmAlgorithmName_bytes [OF ok(2) len'])
qed (simp add: auth_attributes_def put_auth_def named_def)

lemma sa_steps_esn: "sa_algs_ok k \<Longrightarrow> sa_steps (esn_attributes k) i = (put_esn k i, IPSEC_OK)"
  by (cases "ks_esn k")
    (auto simp: esn_attributes_def put_esn_def sa_algs_ok_def ParseXfrmStateAttribute_def u32_at_def
      le_value_bytes simp del: le_bytes.simps)

lemma put_wf:
  assumes "sa_algs_ok k" and "names_wf i"
  shows "names_wf (put_aead k i)" and "names_wf (put_auth k i)" and "names_wf (put_crypt k i)"
proof -
  have n: "length (name_of (ks_aead k)) \<le> 64" "length (name_of (ks_auth k)) \<le> 64"
    "length (name_of (ks_crypt k)) \<le> 64"
    using assms(1) by (auto simp: sa_algs_ok_def alg_ok_def name_of_def split: option.splits)
  show "names_wf (put_aead k i)" "names_wf (put_auth k i)" "names_wf (put_crypt k i)"
    using assms(2) n by (simp_all add: length_named names_wf_def put_aead_def put_auth_def put_crypt_def)
qed

lemma sa_attributes_run:
  assumes "sa_algs_ok k" and "names_wf i"
  shows "sa_steps (sa_attributes k) i = (put_esn k (put_crypt k (put_auth k (put_aead k i))), IPSEC_OK)"
proof -
  have "sa_steps (ks_other k) i = (i, IPSEC_OK)"
    using assms(1) by (intro sa_steps_other) (simp add: sa_algs_ok_def)
  then show ?thesis
    by (simp add: sa_attributes_def run_steps_append sa_steps_aead sa_steps_auth sa_steps_crypt
        sa_steps_esn put_wf assms)
qed

lemma sa_attributes_ok:
  assumes "sa_algs_ok k"
  shows "\<forall>a \<in> set (sa_attributes k). attribute_ok a"
proof -
  have "\<forall>a \<in> set (aead_attributes k). attribute_ok a" "\<forall>a \<in> set (auth_attributes k). attribute_ok a"
    "\<forall>a \<in> set (crypt_attributes k). attribute_ok a" "\<forall>a \<in> set (esn_attributes k). attribute_ok a"
    using assms
    by (auto simp: aead_attributes_def auth_attributes_def crypt_attributes_def
      esn_attributes_def sa_algs_ok_def attribute_ok_def alg_bytes_def alg_ok_def split: option.splits)
  then show ?thesis using assms by (auto simp: sa_attributes_def sa_algs_ok_def)
qed

lemma cstr_named: "NUL \<notin> set (name_of v) \<Longrightarrow> cstr buf = [] \<Longrightarrow> cstr (named v buf) = name_of v"
  by (auto simp: named_def name_of_def cstr_buf_write0 cstr_id split: option.split)

lemma named_twice: "cstr buf = [] \<Longrightarrow> NUL \<notin> set (name_of v) \<Longrightarrow> cstr (named v (named v buf)) = name_of v"
  by (auto simp: named_def name_of_def cstr_buf_write0 cstr_id split: option.split)

lemma ParseXfrmStateMessage_sa:
  assumes k: "sa_ok k" and h: "header_ok q m" "nlmsg_type (fst m) = XFRM_MSG_NEWSA"
    and m: "snd m = sa_payload k" and len: "length (snd m) \<le> IPSEC_NETLINK_RECEIVE_LENGTH"
    and mem: "\<forall>n. mem n" and n: "length items < UINT32_MAX"
  shows "\<exists>i. ParseXfrmStateMessage mem (fst m) (snd m) items = (items @ [i], IPSEC_OK) \<and> shows_sa i k"
proof -
  let ?as = "concat (map rta_bytes (sa_attributes k))"
  have d: "snd m = usersa_bytes k @ ?as" using m by (simp add: sa_payload_def)
  note f = usersa_fields(2-) [OF k, of ?as, folded d]
  have fam: "ks_family k = AF_INET \<or> ks_family k = AF_INET6" and
    addr: "length (ks_saddr k) = 16" "length (ks_daddr k) = 16" and algs: "sa_algs_ok k"
    using k by (simp_all add: sa_ok_def)
  have pay: "\<not> NLMSG_PAYLOAD (fst m) < sizeof_xfrm_usersa_info"
    using NLMSG_PAYLOAD_data [OF h(1) len] usersa_fields(1) [OF k] by (simp add: d)
  have grow: "AppendXfrmState mem items = (items @ [zero_xfrm_state], IPSEC_OK)"
    unfolding AppendXfrmState_def by (rule grow_array_ok [OF mem n]) simp_all
  obtain b1 where b1: "ConvertXfrmAddress (ks_family k) (ks_saddr k) (replicate IPSEC_ADDRESS_LENGTH NUL) =
      (b1, IPSEC_OK)" "Some (cstr b1) = inet_text (ks_family k) (ks_saddr k)"
    using ConvertXfrmAddress_text [OF fam addr(1), of "replicate IPSEC_ADDRESS_LENGTH NUL"] by auto
  obtain b2 where b2: "ConvertXfrmAddress (ks_family k) (ks_daddr k) (replicate IPSEC_ADDRESS_LENGTH NUL) =
      (b2, IPSEC_OK)" "Some (cstr b2) = inet_text (ks_family k) (ks_daddr k)"
    using ConvertXfrmAddress_text [OF fam addr(2), of "replicate IPSEC_ADDRESS_LENGTH NUL"] by auto
  let ?i1 = "zero_xfrm_state\<lparr>xs_eFamily := address_family (ks_family k), xs_acSource := b1,
      xs_acDestination := b2\<rparr>"
  let ?i2 = "copy_usersa (snd m) ?i1"
  let ?i = "put_esn k (put_crypt k (put_auth k (put_aead k ?i2)))"
  have drop: "drop sizeof_xfrm_usersa_info (snd m) = ?as"
    using usersa_fields(1) [OF k] by (simp add: d)
  have wf: "names_wf ?i2" by (simp add: names_wf_def copy_usersa_def zero_xfrm_state_def)
  have attrs: "parse_attributes ParseXfrmStateAttribute ?as ?i2 = (?i, IPSEC_OK)"
    by (rule parse_attributes_bytes [OF sa_attributes_ok [OF algs]]) (rule sa_attributes_run [OF algs wf])
  have "ParseXfrmStateMessage mem (fst m) (snd m) items = (items @ [?i], IPSEC_OK)"
    using h(2) pay attrs b1(1) b2(1)
    by (simp add: ParseXfrmStateMessage_def grow f(1,2,3) drop on_last_def edit_def MapXfrmAddressFamily_def
        zero_xfrm_state_def)
  moreover have "NUL \<notin> set (name_of (ks_aead k))" "NUL \<notin> set (name_of (ks_auth k))"
    "NUL \<notin> set (name_of (ks_crypt k))"
    using algs by (auto simp: sa_algs_ok_def alg_ok_def name_of_def split: option.splits)
  then have "shows_sa ?i k"
    by (simp add: shows_sa_def put_esn_def put_crypt_def put_auth_def put_aead_def copy_usersa_def f b1(2)
        b2(2) cstr_named named_twice zero_xfrm_state_def split: option.split)
  ultimately show ?thesis by blast
qed

subsection \<open>Queries\<close>

definition carries_sa :: "nlmsghdr \<times> bytes \<Rightarrow> kernel_sa list \<Rightarrow> bool" where
  "carries_sa m ks \<longleftrightarrow>
     (\<exists>k. ks = [k] \<and> sa_ok k \<and> nlmsg_type (fst m) = XFRM_MSG_NEWSA \<and> snd m = sa_payload k)"

text \<open>C24: A dump of security associations is read back completely.  When the kernel answers the
  request with messages that encode the associations \<open>ks\<close>, in any division into datagrams and with
  interrupted system calls, and memory suffices, then the query succeeds and its list shows
  the associations in order: addresses as text, SPI in host order, mode, algorithm names, replay
  window with the value of the extended replay state when it is there, and all counters and limits.
  One request was sent on an XFRM socket, which is closed.\<close>

theorem GetIpsecXfrmStates_roundtrip:
  assumes "os_trace w = dump_trace fd clk k n ds jk (last_datagram ms m junk)"
    and "kernel_answer (sequence_of clk) ds ms m junk"
    and "list_all2 carries_sa (concat (map snd ds) @ ms) (map (\<lambda>k. [k]) ks)"
    and "sizeof_nlmsghdr + sizeof_xfrm_usersa_id \<le> n" and "int fd \<notin> set (os_open w)"
    and "\<forall>n. mem n"
  shows "\<exists>w1 rows. GetIpsecXfrmStates mem w = ((w1, rows), IPSEC_OK) \<and>
    list_all2 shows_sa rows ks \<and> os_open w1 = os_open w \<and>
    os_requests w1 = os_requests w @ [(int fd, NETLINK_XFRM,
      nlmsghdr_bytes (dump_request XFRM_MSG_GETSA 24 (sequence_of clk)) @ replicate 24 NUL)]"
proof -
  have step: "\<exists>new. ParseXfrmStateMessage mem (fst x) (snd x) rows = (rows @ new, IPSEC_OK) \<and>
      list_all2 shows_sa new ks \<and> length new \<le> 1"
    if "data_message (sequence_of clk) x" "length (snd x) \<le> IPSEC_NETLINK_RECEIVE_LENGTH"
      "carries_sa x ks" "length rows < UINT32_MAX" for x ks rows
    using that ParseXfrmStateMessage_sa [of _ "sequence_of clk" x mem rows] assms(6)
    by (fastforce simp: carries_sa_def data_message_def)
  have c: "concat (map (\<lambda>k. [k]) ks) = ks" by (induction ks) simp_all
  have "\<exists>w1 rows. ExecuteNetlinkDump NETLINK_XFRM XFRM_MSG_GETSA (Some (replicate 24 NUL))
        (length (replicate 24 NUL)) (Some (ParseXfrmStateMessage mem)) (w, []) = ((w1, rows), IPSEC_OK) \<and>
      list_all2 shows_sa rows (concat (map (\<lambda>k. [k]) ks)) \<and> os_open w1 = os_open w \<and>
      os_log w1 = os_log w \<and> os_requests w1 = os_requests w @ [(int fd, NETLINK_XFRM,
        nlmsghdr_bytes (dump_request XFRM_MSG_GETSA (length (replicate 24 NUL)) (sequence_of clk)) @
        replicate 24 NUL)]"
    by (rule ExecuteNetlinkDump_rows [OF assms(1,2) _ _ assms(5,3)]) (use assms(4) step in auto)
  then show ?thesis by (auto simp: GetIpsecXfrmStates_def c)
qed

definition sample_sa :: kernel_sa where
  "sample_sa =
     \<lparr>ks_family = AF_INET, ks_saddr = [CHR 0x0A, NUL, NUL, CHR 0x01] @ replicate 12 NUL,
      ks_daddr = [CHR 0x0A, NUL, NUL, CHR 0x02] @ replicate 12 NUL, ks_spi = 0xC1234567,
      ks_proto = 50, ks_reqid = 7, ks_mode = XFRM_MODE_TUNNEL, ks_window = 32, ks_flags = 0,
      ks_soft_bytes = 0, ks_hard_bytes = 0, ks_soft_packets = 0, ks_hard_packets = 0,
      ks_bytes = 420, ks_packets = 5, ks_add_time = 1700000000, ks_use_time = 1700000009,
      ks_crypt = Some (''cbc(aes)'', replicate 20 NUL), ks_auth = None, ks_aead = None, ks_esn = None,
      ks_other = [], ks_sel = replicate 56 NUL, ks_expire = replicate 32 NUL,
      ks_stats = replicate 16 NUL, ks_tail = replicate 7 NUL\<rparr>"

lemma sample_sa_ok: "sa_ok sample_sa"
  by (simp add: sa_ok_def sa_algs_ok_def sample_sa_def alg_ok_def)

theorem GetIpsecXfrmStates_roundtrip_witness:
  "\<exists>w1 rows. GetIpsecXfrmStates (\<lambda>_. True)
      (sample_world [] (dump_trace 7 (0, 0, 0) 1 40 [] (1, 1)
        (last_datagram [sample_header XFRM_MSG_NEWSA (sa_payload sample_sa)]
          (sample_header NLMSG_DONE []) []))) = ((w1, rows), IPSEC_OK) \<and>
    list_all2 shows_sa rows [sample_sa]"
proof -
  let ?m = "sample_header XFRM_MSG_NEWSA (sa_payload sample_sa)"
  let ?w = "sample_world [] (dump_trace 7 (0, 0, 0) 1 40 [] (1, 1)
      (last_datagram [?m] (sample_header NLMSG_DONE []) []))"
  have len: "length (sa_payload sample_sa) \<le> 65000"
    using usersa_fields(1) [OF sample_sa_ok]
    by (simp add: sa_payload_def) (simp add: sa_attributes_def aead_attributes_def auth_attributes_def
      crypt_attributes_def esn_attributes_def sample_sa_def alg_bytes_def align4_def)
  have c: "list_all2 carries_sa [?m] (map (\<lambda>k. [k]) [sample_sa])"
    using sample_sa_ok by (simp add: carries_sa_def sample_header_def)
  show ?thesis
    using GetIpsecXfrmStates_roundtrip [of ?w 7 "(0, 0, 0)" 1 40 "[]" "(1, 1)" "[?m]"
        "sample_header NLMSG_DONE []" "[]" "[sample_sa]" "\<lambda>_. True"]
      sample_answer [OF len, of XFRM_MSG_NEWSA] c
    by (auto simp: sample_world_def)
qed

end
