(* ===== verification/XfrmPolicyProps.thy ===== *)
theory XfrmPolicyProps
  imports XfrmQueries
begin

section \<open>Policies of the kernel\<close>

text \<open>
  What the kernel encodes for a policy, and that the query of \<open>ipsec/xfrm/xfrm_policy.c\<close> reads it
  back.  A policy has a selector and at most one attribute with templates, of which the library
  reports the first.
\<close>

record kernel_tmpl =
  kt_family :: nat
  kt_saddr :: bytes
  kt_daddr :: bytes
  kt_reqid :: nat
  kt_mode :: nat
  kt_proto :: nat
  kt_spi :: bytes
  kt_tail :: bytes

record kernel_policy =
  kp_family :: nat
  kp_saddr :: bytes
  kp_daddr :: bytes
  kp_prefixlen_s :: nat
  kp_prefixlen_d :: nat
  kp_priority :: nat
  kp_index :: nat
  kp_dir :: nat
  kp_tmpls :: "(kernel_tmpl \<times> bytes) option"
  kp_other :: "(nat \<times> bytes) list"
  kp_ports :: bytes
  kp_rest :: bytes
  kp_lft :: bytes
  kp_tail :: bytes

definition tmpl_bytes :: "kernel_tmpl \<Rightarrow> bytes" where
  "tmpl_bytes t =
     kt_daddr t @ kt_spi t @ le_bytes 1 (kt_proto t) @ replicate 3 NUL @ le_bytes 2 (kt_family t) @
     replicate 2 NUL @ kt_saddr t @ le_bytes 4 (kt_reqid t) @ le_bytes 1 (kt_mode t) @ kt_tail t"

definition policy_bytes :: "kernel_policy \<Rightarrow> bytes" where
  "policy_bytes p =
     kp_daddr p @ kp_saddr p @ kp_ports p @ le_bytes 2 (kp_family p) @ le_bytes 1 (kp_prefixlen_d p) @
     le_bytes 1 (kp_prefixlen_s p) @ kp_rest p @ kp_lft p @ le_bytes 4 (kp_priority p) @
     le_bytes 4 (kp_index p) @ le_bytes 1 (kp_dir p) @ kp_tail p"

definition policy_attributes :: "kernel_policy \<Rightarrow> (nat \<times> bytes) list" where
  "policy_attributes p =
     kp_other p @ (case kp_tmpls p of None \<Rightarrow> [] | Some (t, ts) \<Rightarrow> [(XFRMA_TMPL, tmpl_bytes t @ ts)])"

definition policy_payload :: "kernel_policy \<Rightarrow> bytes" where
  "policy_payload p = policy_bytes p @ concat (map rta_bytes (policy_attributes p))"

definition tmpl_ok :: "kernel_tmpl \<Rightarrow> bool" where
  "tmpl_ok t \<longleftrightarrow>
     length (kt_saddr t) = 16 \<and> length (kt_daddr t) = 16 \<and> length (kt_spi t) = 4 \<and>
     length (kt_tail t) = 15 \<and> kt_family t \<le> UINT16_MAX \<and> kt_reqid t \<le> UINT32_MAX \<and>
     kt_mode t \<le> UINT8_MAX \<and> kt_proto t \<le> UINT8_MAX"

definition policy_ok :: "kernel_policy \<Rightarrow> bool" where
  "policy_ok p \<longleftrightarrow>
     (kp_family p = AF_INET \<or> kp_family p = AF_INET6) \<and>
     length (kp_saddr p) = 16 \<and> length (kp_daddr p) = 16 \<and> length (kp_ports p) = 8 \<and>
     length (kp_rest p) = 12 \<and> length (kp_lft p) = 96 \<and> length (kp_tail p) = 7 \<and>
     kp_prefixlen_s p \<le> UINT8_MAX \<and> kp_prefixlen_d p \<le> UINT8_MAX \<and> kp_priority p \<le> UINT32_MAX \<and>
     kp_index p \<le> UINT32_MAX \<and> kp_dir p \<le> UINT8_MAX \<and>
     (\<forall>a \<in> set (kp_other p). attribute_ok a \<and> fst a \<noteq> XFRMA_TMPL) \<and>
     (case kp_tmpls p of None \<Rightarrow> True
      | Some (t, ts) \<Rightarrow> tmpl_ok t \<and> 64 dvd length ts \<and> length ts \<le> 1024)"

text \<open>What the library must report.  A template without a family has that of the selector.\<close>

definition tmpl_family :: "kernel_policy \<Rightarrow> kernel_tmpl \<Rightarrow> nat" where
  "tmpl_family p t =
     (if kt_family t = AF_INET \<or> kt_family t = AF_INET6 then kt_family t else kp_family p)"

definition shows_policy :: "IpsecXfrmPolicyInfo \<Rightarrow> kernel_policy \<Rightarrow> bool" where
  "shows_policy i p \<longleftrightarrow>
     xp_eFamily i = address_family (kp_family p) \<and>
     xp_eDirection i = MapPolicyDirection (kp_dir p) \<and>
     Some (cstr (xp_acSourceSelector i)) = inet_text (kp_family p) (kp_saddr p) \<and>
     Some (cstr (xp_acDestinationSelector i)) = inet_text (kp_family p) (kp_daddr p) \<and>
     xp_ucSourcePrefixLength i = kp_prefixlen_s p \<and>
     xp_ucDestinationPrefixLength i = kp_prefixlen_d p \<and>
     xp_uiPriority i = kp_priority p \<and> xp_uiIndex i = kp_index p \<and>
     (case kp_tmpls p of
        None \<Rightarrow> xp_uiReqid i = 0 \<and> xp_eMode i = IPSEC_MODE_UNKNOWN \<and> xp_uiProtocol i = 0 \<and>
          cstr (xp_acTemplateSource i) = [] \<and> cstr (xp_acTemplateDestination i) = []
      | Some (t, _) \<Rightarrow>
          xp_uiReqid i = kt_reqid t \<and> xp_eMode i = MapPolicyMode (kt_mode t) \<and>
          xp_uiProtocol i = kt_proto t \<and>
          Some (cstr (xp_acTemplateSource i)) = inet_text (tmpl_family p t) (kt_saddr t) \<and>
          Some (cstr (xp_acTemplateDestination i)) = inet_text (tmpl_family p t) (kt_daddr t))"

subsection \<open>Decoding\<close>

lemma policy_fields:
  assumes "policy_ok p"
  shows "length (policy_bytes p) = 168"
    and "u16_at 40 (policy_bytes p @ r) = kp_family p"
    and "field_at 16 16 (policy_bytes p @ r) = kp_saddr p"
    and "field_at 0 16 (policy_bytes p @ r) = kp_daddr p"
    and "u8_at 42 (policy_bytes p @ r) = kp_prefixlen_d p"
    and "u8_at 43 (policy_bytes p @ r) = kp_prefixlen_s p"
    and "u32_at 152 (policy_bytes p @ r) = kp_priority p"
    and "u32_at 156 (policy_bytes p @ r) = kp_index p"
    and "u8_at 160 (policy_bytes p @ r) = kp_dir p"
  using assms
  by (auto simp: policy_bytes_def policy_ok_def u8_at_def u16_at_def u32_at_def le_value_bytes
      simp del: le_bytes.simps)

lemma tmpl_fields:
  assumes "tmpl_ok t"
  shows "length (tmpl_bytes t) = 64"
    and "u16_at 24 (tmpl_bytes t @ r) = kt_family t"
    and "field_at 28 16 (tmpl_bytes t @ r) = kt_saddr t"
    and "field_at 0 16 (tmpl_bytes t @ r) = kt_daddr t"
    and "u32_at 44 (tmpl_bytes t @ r) = kt_reqid t"
    and "u8_at 48 (tmpl_bytes t @ r) = kt_mode t"
    and "u8_at 20 (tmpl_bytes t @ r) = kt_proto t"
  using assms
  by (auto simp: tmpl_bytes_def tmpl_ok_def u8_at_def u16_at_def u32_at_def le_value_bytes
      simp del: le_bytes.simps)

lemma ConvertPolicyAddress_eq: "ConvertPolicyAddress = ConvertXfrmAddress"
  by (simp add: fun_eq_iff ConvertPolicyAddress_def ConvertXfrmAddress_def)

abbreviation policy_steps ::
  "nat \<Rightarrow> (nat \<times> bytes) list \<Rightarrow> IpsecXfrmPolicyInfo \<Rightarrow> IpsecXfrmPolicyInfo outcome" where
  "policy_steps family as \<equiv> run_steps (map (\<lambda>(t, data). policy_attribute family t data) as)"

lemma policy_steps_other:
  "\<forall>a \<in> set as. fst a \<noteq> XFRMA_TMPL \<Longrightarrow> policy_steps family as i = (i, IPSEC_OK)"
  by (induction as) (auto simp: policy_attribute_def)

lemma ParsePolicyTemplates_first:
  assumes t: "tmpl_ok t" and ts: "64 dvd length ts" and fam: "kp_family p = AF_INET \<or> kp_family p = AF_INET6"
    and i: "length (xp_acTemplateSource i) = IPSEC_ADDRESS_LENGTH"
      "length (xp_acTemplateDestination i) = IPSEC_ADDRESS_LENGTH"
  shows "\<exists>b1 b2. ParsePolicyTemplates (kp_family p) (tmpl_bytes t @ ts) i =
      (i\<lparr>xp_uiReqid := kt_reqid t, xp_eMode := MapPolicyMode (kt_mode t), xp_uiProtocol := kt_proto t,
         xp_acTemplateSource := b1, xp_acTemplateDestination := b2\<rparr>, IPSEC_OK) \<and>
    Some (cstr b1) = inet_text (tmpl_family p t) (kt_saddr t) \<and>
    Some (cstr b2) = inet_text (tmpl_family p t) (kt_daddr t)"
proof -
  have f: "tmpl_family p t = AF_INET \<or> tmpl_family p t = AF_INET6"
    using fam by (auto simp: tmpl_family_def)
  have addr: "length (kt_saddr t) = 16" "length (kt_daddr t) = 16" using t by (simp_all add: tmpl_ok_def)
  obtain b1 where b1: "ConvertXfrmAddress (tmpl_family p t) (kt_saddr t) (xp_acTemplateSource i) =
      (b1, IPSEC_OK)" "Some (cstr b1) = inet_text (tmpl_family p t) (kt_saddr t)"
    using ConvertXfrmAddress_text [OF f addr(1) i(1)] by blast
  obtain b2 where b2: "ConvertXfrmAddress (tmpl_family p t) (kt_daddr t) (xp_acTemplateDestination i) =
      (b2, IPSEC_OK)" "Some (cstr b2) = inet_text (tmpl_family p t) (kt_daddr t)"
    using ConvertXfrmAddress_text [OF f addr(2) i(2)] by blast
  have n: "(64 + length ts) mod 64 = 0" using ts by (elim dvdE) simp
  have "ParsePolicyTemplates (kp_family p) (tmpl_bytes t @ ts) i =
      (i\<lparr>xp_uiReqid := kt_reqid t, xp_eMode := MapPolicyMode (kt_mode t), xp_uiProtocol := kt_proto t,
         xp_acTemplateSource := b1, xp_acTemplateDestination := b2\<rparr>, IPSEC_OK)"
    using b1(1) b2(1) n tmpl_fields(1) [OF t]
    by (simp add: ParsePolicyTemplates_def tmpl_fields(2-) [OF t] ConvertPolicyAddress_eq edit_def
        tmpl_family_def [symmetric])
  then show ?thesis using b1(2) b2(2) by blast
qed

lemma policy_attributes_ok:
  assumes "policy_ok p"
  shows "\<forall>a \<in> set (policy_attributes p). attribute_ok a"
proof (cases "kp_tmpls p")
  case (Some a)
  then have "tmpl_ok (fst a)" "length (snd a) \<le> 1024" using assms by (simp_all add: policy_ok_def case_prod_beta)
  then have "attribute_ok (XFRMA_TMPL, tmpl_bytes (fst a) @ snd a)"
    using tmpl_fields(1) [of "fst a"] by (simp add: attribute_ok_def)
  then show ?thesis using assms Some by (auto simp: policy_attributes_def policy_ok_def case_prod_beta)
qed (use assms in \<open>auto simp: policy_attributes_def policy_ok_def\<close>)

lemma ParseXfrmPolicyMessage_policy:
  assumes p: "policy_ok p" and h: "header_ok q m" "nlmsg_type (fst m) = XFRM_MSG_NEWPOLICY"
    and m: "snd m = policy_payload p" and len: "length (snd m) \<le> IPSEC_NETLINK_RECEIVE_LENGTH"
    and mem: "\<forall>n. mem n" and n: "length items < UINT32_MAX"
  shows "\<exists>i. ParseXfrmPolicyMessage mem (fst m) (snd m) items = (items @ [i], IPSEC_OK) \<and> shows_policy i p"
proof -
  let ?as = "concat (map rta_bytes (policy_attributes p))"
  let ?z = "replicate IPSEC_ADDRESS_LENGTH NUL"
  have d: "snd m = policy_bytes p @ ?as" using m by (simp add: policy_payload_def)
  note f = policy_fields(2-) [OF p, of ?as, folded d]
  have fam: "kp_family p = AF_INET \<or> kp_family p = AF_INET6" and
    addr: "length (kp_saddr p) = 16" "length (kp_daddr p) = 16" and
    other: "\<forall>a \<in> set (kp_other p). fst a \<noteq> XFRMA_TMPL"
    using p by (auto simp: policy_ok_def)
  have pay: "\<not> NLMSG_PAYLOAD (fst m) < sizeof_xfrm_userpolicy_info"
    using NLMSG_PAYLOAD_data [OF h(1) len] policy_fields(1) [OF p] by (simp add: d)
  have grow: "AppendXfrmPolicy mem items = (items @ [zero_xfrm_policy], IPSEC_OK)"
    unfolding AppendXfrmPolicy_def by (rule grow_array_ok [OF mem n]) simp_all
  obtain b1 where b1: "ConvertXfrmAddress (kp_family p) (kp_saddr p) ?z = (b1, IPSEC_OK)"
      "Some (cstr b1) = inet_text (kp_family p) (kp_saddr p)"
    using ConvertXfrmAddress_text [OF fam addr(1), of ?z] by auto
  obtain b2 where b2: "ConvertXfrmAddress (kp_family p) (kp_daddr p) ?z = (b2, IPSEC_OK)"
      "Some (cstr b2) = inet_text (kp_family p) (kp_daddr p)"
    using ConvertXfrmAddress_text [OF fam addr(2), of ?z] by auto
  let ?i1 = "zero_xfrm_policy\<lparr>xp_eFamily := address_family (kp_family p),
      xp_eDirection := MapPolicyDirection (kp_dir p), xp_ucSourcePrefixLength := kp_prefixlen_s p,
      xp_ucDestinationPrefixLength := kp_prefixlen_d p, xp_uiPriority := kp_priority p,
      xp_uiIndex := kp_index p, xp_acSourceSelector := b1, xp_acDestinationSelector := b2\<rparr>"
  have drop: "drop sizeof_xfrm_userpolicy_info (snd m) = ?as"
    using policy_fields(1) [OF p] by (simp add: d)
  have run: "ParseXfrmPolicyMessage mem (fst m) (snd m) items = (items @ [i], IPSEC_OK)"
    if "policy_steps (kp_family p) (policy_attributes p) ?i1 = (i, IPSEC_OK)" for i
    using h(2) pay parse_attributes_bytes [OF policy_attributes_ok [OF p] that] b1(1) b2(1)
    by (simp add: ParseXfrmPolicyMessage_def grow f drop on_last_def edit_def MapPolicyAddressFamily_def
        ConvertPolicyAddress_eq zero_xfrm_policy_def)
  show ?thesis
  proof (cases "kp_tmpls p")
    case None
    then have "policy_steps (kp_family p) (policy_attributes p) ?i1 = (?i1, IPSEC_OK)"
      using policy_steps_other [OF other] by (simp add: policy_attributes_def)
    moreover have "shows_policy ?i1 p"
      using b1(2) b2(2) None by (simp add: shows_policy_def zero_xfrm_policy_def)
    ultimately show ?thesis using run by blast
  next
    case (Some a)
    obtain t ts where a: "kp_tmpls p = Some (t, ts)" using Some by (cases a) auto
    then have t: "tmpl_ok t" "64 dvd length ts" using p by (simp_all add: policy_ok_def)
    obtain b3 b4 where b: "ParsePolicyTemplates (kp_family p) (tmpl_bytes t @ ts) ?i1 =
      (?i1\<lparr>xp_uiReqid := kt_reqid t, xp_eMode := MapPolicyMode (kt_mode t), xp_uiProtocol := kt_proto t,
         xp_acTemplateSource := b3, xp_acTemplateDestination := b4\<rparr>, IPSEC_OK)"
      "Some (cstr b3) = inet_text (tmpl_family p t) (kt_saddr t)"
      "Some (cstr b4) = inet_text (tmpl_family p t) (kt_daddr t)"
      using ParsePolicyTemplates_first [OF t fam, of ?i1] by (auto simp: zero_xfrm_policy_def)
    let ?i = "?i1\<lparr>xp_uiReqid := kt_reqid t, xp_eMode := MapPolicyMode (kt_mode t),
      xp_uiProtocol := kt_proto t, xp_acTemplateSource := b3, xp_acTemplateDestination := b4\<rparr>"
    have "policy_steps (kp_family p) (policy_attributes p) ?i1 = (?i, IPSEC_OK)"
      using policy_steps_other [OF other] b(1) a
      by (simp add: policy_attributes_def run_steps_append policy_attribute_def)
    moreover have "shows_policy ?i p"
      using b1(2) b2(2) b(2,3) a by (simp add: shows_policy_def)
    ultimately show ?thesis using run by blast
  qed
qed

definition carries_policy :: "nlmsghdr \<times> bytes \<Rightarrow> kernel_policy list \<Rightarrow> bool" where
  "carries_policy m ps \<longleftrightarrow>
     (\<exists>p. ps = [p] \<and> policy_ok p \<and> nlmsg_type (fst m) = XFRM_MSG_NEWPOLICY \<and> snd m = policy_payload p)"

text \<open>C25: A dump of policies is read back completely, whatever its division into datagrams and the
  interruptions: the selectors and their prefixes, direction, priority and index, and of the first
  template reqid, mode, protocol and the tunnel addresses, read in the family of the template or,
  when it has none, of the selector.  The request asks for all directions.\<close>

theorem GetIpsecXfrmPolicies_roundtrip:
  assumes "os_trace w = dump_trace fd clk k n ds jk (last_datagram ms m junk)"
    and "kernel_answer (sequence_of clk) ds ms m junk"
    and "list_all2 carries_policy (concat (map snd ds) @ ms) (map (\<lambda>p. [p]) ps)"
    and "sizeof_nlmsghdr + sizeof_xfrm_userpolicy_id \<le> n" and "int fd \<notin> set (os_open w)"
    and "\<forall>n. mem n"
  shows "\<exists>w1 rows. GetIpsecXfrmPolicies mem w = ((w1, rows), IPSEC_OK) \<and>
    list_all2 shows_policy rows ps \<and> os_open w1 = os_open w \<and>
    os_requests w1 = os_requests w @ [(int fd, NETLINK_XFRM,
      nlmsghdr_bytes (dump_request XFRM_MSG_GETPOLICY 64 (sequence_of clk)) @
      (replicate 64 NUL)[60 := char_of XFRM_POLICY_MAX])]"
proof -
  have step: "\<exists>new. ParseXfrmPolicyMessage mem (fst x) (snd x) rows = (rows @ new, IPSEC_OK) \<and>
      list_all2 shows_policy new ps \<and> length new \<le> 1"
    if "data_message (sequence_of clk) x" "length (snd x) \<le> IPSEC_NETLINK_RECEIVE_LENGTH"
      "carries_policy x ps" "length rows < UINT32_MAX" for x ps rows
    using that ParseXfrmPolicyMessage_policy [of _ "sequence_of clk" x mem rows] assms(6)
    by (fastforce simp: carries_policy_def data_message_def)
  have c: "concat (map (\<lambda>p. [p]) ps) = ps" by (induction ps) simp_all
  have l: "length policy_request = 64" by (simp add: policy_request_def)
  have "\<exists>w1 rows. ExecuteNetlinkDump NETLINK_XFRM XFRM_MSG_GETPOLICY (Some policy_request)
        (length policy_request) (Some (ParseXfrmPolicyMessage mem)) (w, []) = ((w1, rows), IPSEC_OK) \<and>
      list_all2 shows_policy rows (concat (map (\<lambda>p. [p]) ps)) \<and> os_open w1 = os_open w \<and>
      os_log w1 = os_log w \<and> os_requests w1 = os_requests w @ [(int fd, NETLINK_XFRM,
        nlmsghdr_bytes (dump_request XFRM_MSG_GETPOLICY (length policy_request) (sequence_of clk)) @
        policy_request)]"
    by (rule ExecuteNetlinkDump_rows [OF assms(1,2) _ _ assms(5,3)]) (use assms(4) step l in auto)
  then show ?thesis unfolding l by (auto simp: GetIpsecXfrmPolicies_def c policy_request_def)
qed

definition sample_policy :: kernel_policy where
  "sample_policy =
     \<lparr>kp_family = AF_INET, kp_saddr = CHR 0x0A # replicate 15 NUL,
      kp_daddr = [CHR 0x0A, CHR 0x01] @ replicate 14 NUL, kp_prefixlen_s = 8, kp_prefixlen_d = 16,
      kp_priority = 375423, kp_index = 9, kp_dir = XFRM_POLICY_OUT,
      kp_tmpls = Some (\<lparr>kt_family = 0, kt_saddr = replicate 16 (CHR 0x01),
        kt_daddr = replicate 16 (CHR 0x02), kt_reqid = 1, kt_mode = XFRM_MODE_TUNNEL, kt_proto = 50,
        kt_spi = replicate 4 NUL, kt_tail = replicate 15 NUL\<rparr>, []),
      kp_other = [], kp_ports = replicate 8 NUL, kp_rest = replicate 12 NUL,
      kp_lft = replicate 96 NUL, kp_tail = replicate 7 NUL\<rparr>"

lemma sample_policy_ok: "policy_ok sample_policy"
  by (simp add: policy_ok_def tmpl_ok_def sample_policy_def)

theorem GetIpsecXfrmPolicies_roundtrip_witness:
  "\<exists>w1 rows. GetIpsecXfrmPolicies (\<lambda>_. True)
      (sample_world [] (dump_trace 7 (0, 0, 0) 0 80 [] (2, 0)
        (last_datagram [sample_header XFRM_MSG_NEWPOLICY (policy_payload sample_policy)]
          (sample_header NLMSG_DONE []) []))) = ((w1, rows), IPSEC_OK) \<and>
    list_all2 shows_policy rows [sample_policy]"
proof -
  let ?m = "sample_header XFRM_MSG_NEWPOLICY (policy_payload sample_policy)"
  let ?w = "sample_world [] (dump_trace 7 (0, 0, 0) 0 80 [] (2, 0)
      (last_datagram [?m] (sample_header NLMSG_DONE []) []))"
  have len: "length (policy_payload sample_policy) \<le> 65000"
    using policy_fields(1) [OF sample_policy_ok]
    by (simp add: policy_payload_def) (simp add: policy_attributes_def sample_policy_def tmpl_bytes_def
      align4_def)
  have c: "list_all2 carries_policy [?m] (map (\<lambda>p. [p]) [sample_policy])"
    using sample_policy_ok by (simp add: carries_policy_def sample_header_def)
  show ?thesis
    using GetIpsecXfrmPolicies_roundtrip [of ?w 7 "(0, 0, 0)" 0 80 "[]" "(2, 0)" "[?m]"
        "sample_header NLMSG_DONE []" "[]" "[sample_policy]" "\<lambda>_. True"]
      sample_answer [OF len, of XFRM_MSG_NEWPOLICY] c
    by (auto simp: sample_world_def)
qed

end
