(* ===== verification/IpsecCore.thy ===== *)
theory IpsecCore
  imports ViciLists
begin

section \<open>Opening and closing the library (\<open>ipsec/core/ipsec.c\<close>)\<close>

text \<open>
  The context lives in the state \<open>Ipsec\<close> beside the operating system.  \<open>clear_context\<close> is the
  zeroed block of \<open>calloc\<close>, and of \<open>SecureZeroIpsec\<close> before \<open>free\<close>; the flag in the result of
  \<open>InitializeIpsec\<close> says whether \<open>*ppContext\<close> holds the context.  Destroying a mutex has no effect
  that the library can see.
\<close>

abbreviation IPSEC_DEFAULT_CONNECT_TIMEOUT_MS :: nat where "IPSEC_DEFAULT_CONNECT_TIMEOUT_MS \<equiv> 3000"
abbreviation IPSEC_DEFAULT_COMMAND_TIMEOUT_MS :: nat where "IPSEC_DEFAULT_COMMAND_TIMEOUT_MS \<equiv> 10000"

text \<open>The sizes of \<open>IpsecConfig_t\<close> and \<open>IpsecContext_t\<close> on the LP64 targets.\<close>
abbreviation sizeof_IpsecConfig :: nat where "sizeof_IpsecConfig \<equiv> 40"
abbreviation sizeof_IpsecContext :: nat where "sizeof_IpsecContext \<equiv> 192"

record IpsecConfig =
  ic_uiStructSize :: nat
  ic_pcViciSocketPath :: "string option"
  ic_uiConnectTimeoutMs :: nat
  ic_uiCommandTimeoutMs :: nat
  ic_pLogCallback :: bool

definition DefaultConfig :: IpsecConfig where
  "DefaultConfig = \<lparr>ic_uiStructSize = sizeof_IpsecConfig, ic_pcViciSocketPath = None,
     ic_uiConnectTimeoutMs = 0, ic_uiCommandTimeoutMs = 0, ic_pLogCallback = False\<rparr>"

definition clear_context :: "Ipsec \<Rightarrow> Ipsec" where
  "clear_context w = w
     \<lparr>iViciSocket := 0, acViciSocketPath := replicate IPSEC_VICI_SOCKET_PATH_LENGTH NUL,
      uiConnectTimeoutMs := 0, uiCommandTimeoutMs := 0, ullCommandDeadlineMs := 0,
      bCommandMutexInitialized := False, pLogCallback := False\<rparr>"

definition sys_mutex_init :: "Ipsec \<Rightarrow> bool \<times> Ipsec" where
  "sys_mutex_init w = (let (ev, w) = next_event w in (ev = Some MutexOk, w))"

definition InitializeIpsecContext :: "IpsecConfig \<Rightarrow> Ipsec \<Rightarrow> Ipsec outcome" where
  "InitializeIpsecContext pConfig w =
     (let w = w\<lparr>iViciSocket := -1,
            uiConnectTimeoutMs := (if ic_uiConnectTimeoutMs pConfig = 0
              then IPSEC_DEFAULT_CONNECT_TIMEOUT_MS else ic_uiConnectTimeoutMs pConfig),
            uiCommandTimeoutMs := (if ic_uiCommandTimeoutMs pConfig = 0
              then IPSEC_DEFAULT_COMMAND_TIMEOUT_MS else ic_uiCommandTimeoutMs pConfig),
            pLogCallback := ic_pLogCallback pConfig\<rparr>;
          (bInitialized, w) = sys_mutex_init w
      in if \<not> bInitialized then (w, IPSEC_ERR_INTERNAL)
         else
           let w = w\<lparr>bCommandMutexInitialized := True\<rparr> in
           case ic_pcViciSocketPath pConfig of
             Some pcSocketPath \<Rightarrow>
               let zSocketPathLength = strnlen pcSocketPath IPSEC_VICI_SOCKET_PATH_LENGTH in
               if zSocketPathLength = 0 \<or> IPSEC_VICI_SOCKET_PATH_LENGTH \<le> zSocketPathLength
               then (w, IPSEC_ERR_INVALID_ARGUMENT)
               else (w\<lparr>acViciSocketPath := buf_write (acViciSocketPath w) 0
                          (take zSocketPathLength pcSocketPath @ [NUL])\<rparr>, IPSEC_OK)
           | None \<Rightarrow> (w\<lparr>acViciSocketPath := (acViciSocketPath w)[0 := NUL]\<rparr>, IPSEC_OK))"

definition VerifyIpsecDaemon :: "Ipsec \<Rightarrow> Ipsec outcome" where
  "VerifyIpsecDaemon w =
     (let ((Request, w), eError) = empty_request w
      in if eError \<noteq> IPSEC_OK then (w, eError)
         else
           let ((x, w), eError) = ExecuteViciCommand (Some ''version'') (Some Request)
                 None None None ((), zero_result) w
           in (w, eError))"

definition apcSocketPaths :: "string list" where
  "apcSocketPaths = [''/run/charon.vici'', ''/var/run/charon.vici'']"

fun default_socket_loop ::
  "string list \<Rightarrow> IpsecError \<Rightarrow> bool \<Rightarrow> Ipsec \<Rightarrow> Ipsec \<times> IpsecError \<times> bool" where
  "default_socket_loop [] eError bPermissionDenied w = (w, eError, bPermissionDenied)"
| "default_socket_loop (p # ps) eError bPermissionDenied w =
     (let w = w\<lparr>acViciSocketPath := buf_write (acViciSocketPath w) 0
                 (take (IPSEC_VICI_SOCKET_PATH_LENGTH - 1) p @ [NUL])\<rparr>;
          (w, eError) = ConnectViciTransport w
      in if eError = IPSEC_OK then (w, eError, bPermissionDenied)
         else default_socket_loop ps eError (bPermissionDenied \<or> eError = IPSEC_ERR_PERMISSION)
                (DisconnectViciTransport w))"

definition ConnectDefaultIpsecSocket :: "Ipsec \<Rightarrow> Ipsec outcome" where
  "ConnectDefaultIpsecSocket w =
     (let (w, eError, bPermissionDenied) =
            default_socket_loop apcSocketPaths IPSEC_ERR_DAEMON_NOT_RUNNING False w
      in (w, if eError \<noteq> IPSEC_OK \<and> bPermissionDenied then IPSEC_ERR_PERMISSION
             else if eError \<noteq> IPSEC_OK then IPSEC_ERR_DAEMON_NOT_RUNNING
             else eError))"

definition connect_context :: "Ipsec \<Rightarrow> Ipsec outcome" where
  "connect_context w =
     (if acViciSocketPath w ! 0 = NUL then ConnectDefaultIpsecSocket w else ConnectViciTransport w)"

text \<open>What \<open>InitializeIpsec\<close> undoes after a failure.\<close>

definition release_context :: "Ipsec \<Rightarrow> Ipsec" where
  "release_context w = clear_context (DisconnectViciTransport w)"

definition InitializeIpsec ::
  "bool \<Rightarrow> IpsecConfig option \<Rightarrow> Ipsec \<Rightarrow> (bool \<times> Ipsec) outcome" where
  "InitializeIpsec bContextGiven pConfig w =
     (if \<not> bContextGiven then ((False, w), IPSEC_ERR_INVALID_ARGUMENT)
      else
        let config = (case pConfig of None \<Rightarrow> DefaultConfig | Some c \<Rightarrow> c) in
        if ic_uiStructSize config \<noteq> sizeof_IpsecConfig then ((False, w), IPSEC_ERR_INVALID_ARGUMENT)
        else
          let (mem, w) = next_mem w in
          if \<not> mem sizeof_IpsecContext then ((False, w), IPSEC_ERR_NO_MEMORY)
          else
            let (w, eError) = and_then (and_then
                  (InitializeIpsecContext config (clear_context w)) connect_context) VerifyIpsecDaemon
            in if eError = IPSEC_OK
               then ((True, LogIpsec IPSEC_LOG_INFO
                      (''connected to charon VICI socket '' @ cstr (acViciSocketPath w)) w), IPSEC_OK)
               else ((False, release_context w), eError))"

text \<open>The mutex is taken around the disconnect, if it can be.\<close>

definition DeinitializeIpsec :: "bool \<Rightarrow> Ipsec \<Rightarrow> Ipsec" where
  "DeinitializeIpsec bContextGiven w =
     (if bContextGiven
      then
        let (bLocked, w) = sys_lock w;
            w = DisconnectViciTransport w;
            w = (if bLocked then sys_unlock w else w)
        in clear_context w
      else w)"

subsection \<open>What is left open\<close>

text \<open>Nothing of the library is open: no descriptor and no lock.\<close>

definition released :: "Ipsec \<Rightarrow> bool" where
  "released w \<longleftrightarrow> os_open w = [] \<and> \<not> os_locked w"

text \<open>What every step of the start keeps of the context.\<close>

definition context_wf :: "Ipsec \<Rightarrow> bool" where
  "context_wf w \<longleftrightarrow> idle w \<and> length (acViciSocketPath w) = IPSEC_VICI_SOCKET_PATH_LENGTH \<and>
     0 < uiConnectTimeoutMs w \<and> 0 < uiCommandTimeoutMs w \<and> bCommandMutexInitialized w"

lemma next_event_cases:
  "next_event w = (ev, w') \<Longrightarrow> w' = w\<lparr>os_trace := os_trace w'\<rparr>"
  by (auto simp: next_event_def split: list.splits)

lemma next_event_cases':
  assumes "next_event w = (ev, w')"
  obtains tr where "w' = w\<lparr>os_trace := tr\<rparr>"
  using next_event_cases [OF assms] by blast

lemma InitializeIpsecContext_props:
  assumes "InitializeIpsecContext c (clear_context w) = (w', e)" and "released w"
  shows "idle w' \<and> iViciSocket w' = -1 \<and> (e = IPSEC_OK \<longrightarrow> context_wf w' \<and>
     cstr (acViciSocketPath w') = (case ic_pcViciSocketPath c of None \<Rightarrow> [] | Some p \<Rightarrow> cstr p))"
proof -
  define w1 where "w1 = (clear_context w)\<lparr>iViciSocket := -1,
            uiConnectTimeoutMs := (if ic_uiConnectTimeoutMs c = 0
              then IPSEC_DEFAULT_CONNECT_TIMEOUT_MS else ic_uiConnectTimeoutMs c),
            uiCommandTimeoutMs := (if ic_uiCommandTimeoutMs c = 0
              then IPSEC_DEFAULT_COMMAND_TIMEOUT_MS else ic_uiCommandTimeoutMs c),
            pLogCallback := ic_pLogCallback c\<rparr>"
  obtain b w2 where m: "sys_mutex_init w1 = (b, w2)" by fastforce
  then obtain tr where w2: "w2 = w1\<lparr>os_trace := tr\<rparr>"
    by (auto simp: sys_mutex_init_def elim: next_event_cases' split: prod.splits)
  have i2: "idle w2" "iViciSocket w2 = -1" "acViciSocketPath w2 = replicate IPSEC_VICI_SOCKET_PATH_LENGTH NUL"
    "0 < uiConnectTimeoutMs w2" "0 < uiCommandTimeoutMs w2"
    using assms(2) by (simp_all add: w2 w1_def clear_context_def idle_def fd_ok_def released_def)
  have run: "InitializeIpsecContext c (clear_context w) =
     (if \<not> b then (w2, IPSEC_ERR_INTERNAL)
         else
           let w = w2\<lparr>bCommandMutexInitialized := True\<rparr> in
           case ic_pcViciSocketPath c of
             Some pcSocketPath \<Rightarrow>
               let zSocketPathLength = strnlen pcSocketPath IPSEC_VICI_SOCKET_PATH_LENGTH in
               if zSocketPathLength = 0 \<or> IPSEC_VICI_SOCKET_PATH_LENGTH \<le> zSocketPathLength
               then (w, IPSEC_ERR_INVALID_ARGUMENT)
               else (w\<lparr>acViciSocketPath := buf_write (acViciSocketPath w) 0
                          (take zSocketPathLength pcSocketPath @ [NUL])\<rparr>, IPSEC_OK)
           | None \<Rightarrow> (w\<lparr>acViciSocketPath := (acViciSocketPath w)[0 := NUL]\<rparr>, IPSEC_OK))"
    by (simp only: InitializeIpsecContext_def Let_def w1_def [symmetric] m prod.case)
  show ?thesis
  proof (cases "b \<and> ic_pcViciSocketPath c \<noteq> None")
    case False
    then show ?thesis using assms(1) i2 unfolding run
      by (auto simp: context_wf_def idle_def fd_ok_def Let_def split: if_splits option.splits)
  next
    case True
    then obtain p where p: "ic_pcViciSocketPath c = Some p" by blast
    have "cstr (buf_write b 0 (take (strnlen p n) p @ [NUL])) = cstr p" if "strnlen p n < n" for b n
    proof -
      have "strnlen p n = strlen p" using that by (simp add: strnlen_min min_def split: if_splits)
      then show ?thesis by (simp add: cstr_buf_write0 take_strlen)
    qed
    then show ?thesis using assms(1) i2 True p unfolding run
      by (auto simp: context_wf_def idle_def fd_ok_def Let_def length_buf_write strnlen_le_length
          not_le split: if_splits)
  qed
qed

lemma context_wf_connect:
  assumes "context_wf w" and "ConnectViciTransport w = (w', e)"
  shows "context_wf w' \<and> (e = IPSEC_OK \<longrightarrow> 0 \<le> iViciSocket w') \<and>
    os_out w' = os_out w \<and> os_in w' = os_in w \<and> acViciSocketPath w' = acViciSocketPath w"
proof -
  have "fd_ok w" using assms(1) by (simp add: context_wf_def idle_def)
  note c = ConnectViciTransport_props [OF this assms(2)]
  then have io: "io w w'" by (simp add: steady_def)
  show ?thesis
    using assms(1) c ioD [OF io] by (simp add: context_wf_def idle_def steady_def)
qed

lemma context_wf_disconnect:
  assumes "context_wf w"
  shows "context_wf (DisconnectViciTransport w)" and "iViciSocket (DisconnectViciTransport w) = -1"
    and "os_out (DisconnectViciTransport w) = os_out w" and "os_in (DisconnectViciTransport w) = os_in w"
proof -
  have "fd_ok w" using assms by (simp add: context_wf_def idle_def)
  note d = Disconnect_props [OF this]
  show "context_wf (DisconnectViciTransport w)"
    using assms d(1) ioD [OF d(3)] by (simp add: context_wf_def idle_def)
  show "iViciSocket (DisconnectViciTransport w) = -1"
    "os_out (DisconnectViciTransport w) = os_out w" "os_in (DisconnectViciTransport w) = os_in w"
    using d by simp_all
qed

lemma context_wf_path:
  assumes "context_wf w"
  shows "context_wf (w\<lparr>acViciSocketPath := buf_write (acViciSocketPath w) 0
           (take (IPSEC_VICI_SOCKET_PATH_LENGTH - 1) p @ [NUL])\<rparr>)"
  using assms by (simp add: context_wf_def idle_def fd_ok_def length_buf_write)

lemma default_socket_loop_props:
  "context_wf w \<Longrightarrow> default_socket_loop ps e b w = (w', e', b') \<Longrightarrow> e \<noteq> IPSEC_OK \<Longrightarrow>
   context_wf w' \<and> (e' = IPSEC_OK \<longrightarrow> 0 \<le> iViciSocket w' \<and>
       cstr (acViciSocketPath w') \<in> (\<lambda>p. cstr (take (IPSEC_VICI_SOCKET_PATH_LENGTH - 1) p)) ` set ps) \<and>
     os_out w' = os_out w \<and> os_in w' = os_in w"
proof (induction ps arbitrary: e b w)
  case Nil
  then show ?case by simp
next
  case (Cons p ps)
  define w1 where "w1 = w\<lparr>acViciSocketPath := buf_write (acViciSocketPath w) 0
           (take (IPSEC_VICI_SOCKET_PATH_LENGTH - 1) p @ [NUL])\<rparr>"
  have w1: "context_wf w1" "os_out w1 = os_out w" "os_in w1 = os_in w"
    "cstr (acViciSocketPath w1) = cstr (take (IPSEC_VICI_SOCKET_PATH_LENGTH - 1) p)"
    using context_wf_path [OF Cons.prems(1)] by (simp_all add: w1_def cstr_buf_write0)
  obtain w2 e2 where c: "ConnectViciTransport w1 = (w2, e2)" by fastforce
  note c2 = context_wf_connect [OF w1(1) c]
  show ?case
  proof (cases "e2 = IPSEC_OK")
    case True
    then have "w' = w2" "e' = IPSEC_OK" using Cons.prems(2) c by (auto simp: w1_def Let_def)
    then show ?thesis using c2 True w1 by auto
  next
    case False
    then have l: "default_socket_loop ps e2 (b \<or> e2 = IPSEC_ERR_PERMISSION)
        (DisconnectViciTransport w2) = (w', e', b')"
      using Cons.prems(2) c unfolding default_socket_loop.simps Let_def w1_def [symmetric] by simp
    from Cons.IH [OF context_wf_disconnect(1) this False] c2 show ?thesis
      using context_wf_disconnect [of w2] w1 by auto
  qed
qed

lemma connect_context_props:
  assumes "context_wf w" and "connect_context w = (w', e)"
  shows "context_wf w' \<and> (e = IPSEC_OK \<longrightarrow> 0 \<le> iViciSocket w') \<and>
    os_out w' = os_out w \<and> os_in w' = os_in w \<and>
    (cstr (acViciSocketPath w) = [] \<longrightarrow>
       (e = IPSEC_OK \<and> cstr (acViciSocketPath w') \<in> set apcSocketPaths) \<or>
       e \<in> {IPSEC_ERR_PERMISSION, IPSEC_ERR_DAEMON_NOT_RUNNING}) \<and>
    (cstr (acViciSocketPath w) \<noteq> [] \<longrightarrow> acViciSocketPath w' = acViciSocketPath w)"
proof -
  have len: "length (acViciSocketPath w) = 108" using assms(1) by (simp add: context_wf_def)
  then have nul: "acViciSocketPath w ! 0 = NUL \<longleftrightarrow> cstr (acViciSocketPath w) = []"
    by (cases "acViciSocketPath w") (simp_all add: cstr_def)
  show ?thesis
  proof (cases "cstr (acViciSocketPath w) = []")
    case False
    then have "ConnectViciTransport w = (w', e)" using assms(2) nul by (simp add: connect_context_def)
    from context_wf_connect [OF assms(1) this] False show ?thesis by simp
  next
    case True
    obtain e1 b1 where d: "default_socket_loop apcSocketPaths IPSEC_ERR_DAEMON_NOT_RUNNING False w = (w', e1, b1)"
      and e: "e = (if e1 \<noteq> IPSEC_OK \<and> b1 then IPSEC_ERR_PERMISSION
             else if e1 \<noteq> IPSEC_OK then IPSEC_ERR_DAEMON_NOT_RUNNING else e1)"
      using assms(2) True nul by (auto simp: connect_context_def ConnectDefaultIpsecSocket_def split: prod.splits)
    have p: "(\<lambda>p. cstr (take (IPSEC_VICI_SOCKET_PATH_LENGTH - 1) p)) ` set apcSocketPaths = set apcSocketPaths"
      by code_simp
    from default_socket_loop_props [OF assms(1) d] p e True show ?thesis by (cases "e1 = IPSEC_OK") auto
  qed
qed

lemma VerifyIpsecDaemon_props:
  assumes "idle w" and "VerifyIpsecDaemon w = (w', e)"
  shows "idle w' \<and> (e = IPSEC_OK \<longrightarrow> os_out w' = os_out w @
     frame (named_packet VICI_PACKET_COMMAND_REQUEST ''version'' (Some (fst (fst (empty_request w))))))"
proof -
  obtain b w1 e1 where r: "empty_request w = ((b, w1), e1)" by (metis prod.exhaust)
  have i1: "idle w1" "os_out w1 = os_out w"
    using r assms(1) idle_next_mem [of w]
    by (cases "next_mem w"; auto simp: empty_request_def Let_def case_prod_beta next_mem_def)+
  show ?thesis
  proof (cases "e1 = IPSEC_OK")
    case False
    then show ?thesis using assms(2) r i1 by (auto simp: VerifyIpsecDaemon_def)
  next
    case True
    obtain s2 r2 w2 e2 where x: "ExecuteViciCommand (Some ''version'') (Some b) None None None
        ((), zero_result) w1 = (((s2, r2), w2), e2)"
      by (metis prod.exhaust)
    have v: "ev_ok None" "vici_name ''version''" by code_simp+
    have "w' = w2" "e = e2" using assms(2) r x True by (auto simp: VerifyIpsecDaemon_def)
    then show ?thesis using ExecuteViciCommand_props [OF i1(1) v x] i1 r
      by (auto simp: registration_def)
  qed
qed

lemma idle_released: "idle w \<Longrightarrow> released (release_context w)"
  using Disconnect_props [of w] ioD(2) [of w "DisconnectViciTransport w"]
  by (simp add: release_context_def clear_context_def released_def idle_def fd_ok_def)

lemma next_mem_released: "next_mem w = (m, w') \<Longrightarrow> released w' = released w \<and> os_out w' = os_out w"
  by (auto simp: next_mem_def released_def)

lemma start_props:
  assumes "released w" and "and_then (and_then (InitializeIpsecContext c (clear_context w))
      connect_context) VerifyIpsecDaemon = (w', e)"
  shows "idle w' \<and> (e = IPSEC_OK \<longrightarrow> (\<exists>m. os_out w' = os_out w @
     frame (named_packet VICI_PACKET_COMMAND_REQUEST ''version'' (Some m))))"
proof -
  obtain w1 e1 where i: "InitializeIpsecContext c (clear_context w) = (w1, e1)" by fastforce
  note i1 = InitializeIpsecContext_props [OF i assms(1)]
  have out: "os_out w1 = os_out w"
    using i by (auto simp: InitializeIpsecContext_def sys_mutex_init_def clear_context_def Let_def
        elim!: next_event_cases' split: prod.splits if_splits option.splits)
  show ?thesis
  proof (cases "e1 = IPSEC_OK")
    case False
    then show ?thesis using assms(2) i i1 by auto
  next
    case True
    obtain w2 e2 where c: "connect_context w1 = (w2, e2)" by fastforce
    note c2 = connect_context_props [OF _ c]
    have i2: "idle w2" using c2 i1 True by (simp add: context_wf_def)
    show ?thesis
    proof (cases "e2 = IPSEC_OK")
      case False
      then show ?thesis using assms(2) i i1 c True i2 by auto
    next
      case e2: True
      then have "VerifyIpsecDaemon w2 = (w', e)" using assms(2) i True c by simp
      from VerifyIpsecDaemon_props [OF i2 this] show ?thesis using c2 i1 True out by auto
    qed
  qed
qed

lemma InitializeIpsec_cases:
  assumes "released w" and "InitializeIpsec given c w = ((b, w'), e)"
  shows "b \<longleftrightarrow> e = IPSEC_OK" and "e \<noteq> IPSEC_OK \<Longrightarrow> released w'"
    and "e = IPSEC_OK \<Longrightarrow> idle w' \<and> (\<exists>m. os_out w' = os_out w @
      frame (named_packet VICI_PACKET_COMMAND_REQUEST ''version'' (Some m)))"
proof -
  define config where "config = (case c of None \<Rightarrow> DefaultConfig | Some c \<Rightarrow> c)"
  obtain mem w1 where m: "next_mem w = (mem, w1)" by fastforce
  note m1 = next_mem_released [OF m]
  obtain w2 e2 where s: "and_then (and_then (InitializeIpsecContext config (clear_context w1))
      connect_context) VerifyIpsecDaemon = (w2, e2)" by fastforce
  have r1: "released w1" using m1 assms(1) by simp
  note s2 = start_props [OF r1 s]
  have "((b, w'), e) =
     (if \<not> given \<or> ic_uiStructSize config \<noteq> sizeof_IpsecConfig then ((False, w), IPSEC_ERR_INVALID_ARGUMENT)
      else if \<not> mem sizeof_IpsecContext then ((False, w1), IPSEC_ERR_NO_MEMORY)
      else if e2 = IPSEC_OK
        then ((True, LogIpsec IPSEC_LOG_INFO
                (''connected to charon VICI socket '' @ cstr (acViciSocketPath w2)) w2), IPSEC_OK)
        else ((False, release_context w2), e2))"
    using assms(2) unfolding InitializeIpsec_def Let_def config_def [symmetric] m prod.case s
    by (cases given; cases "mem sizeof_IpsecContext"; cases "e2 = IPSEC_OK"; simp)
  moreover have "os_out (LogIpsec l t w2) = os_out w2" for l t by (simp add: LogIpsec_def)
  ultimately show "b \<longleftrightarrow> e = IPSEC_OK" and "e \<noteq> IPSEC_OK \<Longrightarrow> released w'"
    and "e = IPSEC_OK \<Longrightarrow> idle w' \<and> (\<exists>m. os_out w' = os_out w @
      frame (named_packet VICI_PACKET_COMMAND_REQUEST ''version'' (Some m)))"
    using s2 idle_released [of w2] assms(1) r1 m1 by (auto split: if_splits)
qed

lemma DeinitializeIpsec_released:
  assumes "idle w"
  shows "released (DeinitializeIpsec True w)"
proof -
  obtain b w1 where l: "sys_lock w = (b, w1)" by fastforce
  note s = sys_lock_cases [OF l assms]
  note d = Disconnect_props [OF s(1)]
  have "os_open (DisconnectViciTransport w1) = []" using d(1,2) by (simp add: fd_ok_def)
  moreover have "\<not> b \<longrightarrow> \<not> os_locked (DisconnectViciTransport w1)"
    using s(2) ioD(2) [OF d(3)] by (simp add: idle_def)
  ultimately show ?thesis using l
    by (simp add: DeinitializeIpsec_def released_def clear_context_def sys_unlock_def Let_def)
qed

subsection \<open>The property\<close>


definition start_world :: Ipsec where
  "start_world = (sample_world (frame yes_response)
     ([MutexOk, SocketFd 7, FcntlOk, FcntlOk, ConnectErrno EACCES, SocketFd 8, FcntlOk, FcntlOk, ConnectOk,
       MutexOk, Clock 1 0, Clock 1 0, PollReady POLLOUT, Moved 4, Clock 1 0, PollReady POLLOUT, Moved 99,
       Clock 1 0, PollReady POLLIN, Moved 4, Clock 1 0, PollReady POLLIN, Moved 99]))
     \<lparr>iViciSocket := 0, os_open := []\<rparr>"


end
