(* ===== verification/ViciProgress.thy ===== *)
theory ViciProgress
  imports ViciLists
begin

section \<open>Progress of a command\<close>

text \<open>
  Every operation of the transport and of the client only consumes outcomes of the
  environment, and a command that succeeds has consumed one (the mutex).  The loops of the
  library that repeat a command until a deadline terminate by this.  Nothing is assumed
  about the state here, because the recursive definitions must not assume anything.
\<close>

definition consumes :: "Ipsec \<Rightarrow> Ipsec \<Rightarrow> bool" where
  "consumes w w' \<longleftrightarrow> length (os_trace w') \<le> length (os_trace w)"

lemma consumes_refl [intro, simp]: "consumes w w"
  by (simp add: consumes_def)

lemma consumes_trans: "consumes w w1 \<Longrightarrow> consumes w1 w2 \<Longrightarrow> consumes w w2"
  by (simp add: consumes_def)

lemma consumes_steady: "steady w w' \<Longrightarrow> consumes w w'"
  by (simp add: consumes_def steady_def)

lemma consumes_fields [simp]:
  "consumes w (w'\<lparr>iViciSocket := n\<rparr>) = consumes w w'"
  "consumes w (w'\<lparr>ullCommandDeadlineMs := d\<rparr>) = consumes w w'"
  "consumes w (w'\<lparr>os_open := fds\<rparr>) = consumes w w'"
  "consumes w (w'\<lparr>os_locked := b\<rparr>) = consumes w w'"
  "consumes (w\<lparr>ullCommandDeadlineMs := d\<rparr>) w' = consumes w w'"
  "consumes (w\<lparr>iViciSocket := n\<rparr>) w' = consumes w w'"
  by (simp_all add: consumes_def)

lemma consumes_close [simp]: "consumes w (DisconnectViciTransport w') = consumes w w'"
  by (simp add: DisconnectViciTransport_def sys_close_def)

text \<open>An outcome of a step, and how outcomes compose.\<close>

definition consuming :: "Ipsec \<Rightarrow> Ipsec outcome \<Rightarrow> bool" where
  "consuming w r \<longleftrightarrow> consumes w (fst r)"

lemma consuming_and_then:
  "consuming w r \<Longrightarrow> (\<And>v. consumes w v \<Longrightarrow> consuming w (f v)) \<Longrightarrow> consuming w (and_then r f)"
  by (simp add: consuming_def and_then_def)

lemma consuming_pair [simp]: "consuming w (v, e) = consumes w v"
  by (simp add: consuming_def)

lemma consumes_next: "consumes w v \<Longrightarrow> consumes w (snd (next_event v))"
  using next_event_trace [of v] by (cases "next_event v") (auto simp: consumes_def)

lemma consumes_clock: "consumes w v \<Longrightarrow> consumes w (snd (GetIpsecMonotonicMilliseconds v))"
  using steady_clock [of v] consumes_steady consumes_trans by (metis prod.collapse)

lemma consumes_wait: "consumes w v \<Longrightarrow> consumes w (fst (WaitViciSocket ev dl v))"
  using steady_wait [of ev dl v] consumes_steady consumes_trans by (metis prod.collapse)

lemma consumes_calls:
  "consumes w v \<Longrightarrow> consumes w (snd (sys_fcntl v))"
  "consumes w v \<Longrightarrow> consumes w (snd (sys_getsockopt v))"
  "consumes w v \<Longrightarrow> consumes w (snd (sys_connect p v))"
  "consumes w v \<Longrightarrow> consumes w (snd (sys_socket v))"
  using steady_simple_calls [of v] steady_connect [of p v] steady_socket [of v]
    consumes_steady consumes_trans by (metis prod.collapse)+

lemma consumes_deadline: "consumes w v \<Longrightarrow> consumes w (snd (GetViciCommandDeadline v))"
  using steady_deadline [of v] consumes_steady consumes_trans by (metis prod.collapse)

lemma consumes_mem: "consumes w v \<Longrightarrow> consumes w (snd (next_mem v))"
  by (simp add: next_mem_def consumes_def)

lemma consumes_transfer:
  "consumes w v \<Longrightarrow> consumes w (snd (fst (TransferViciBytes b dl d v)))"
  using transfer_trace [of b dl d 0 v] unfolding TransferViciBytes_def consumes_def
  by (metis le_trans prod.collapse)

lemmas consumes_intros = consumes_next consumes_clock consumes_wait consumes_calls
  consumes_deadline consumes_mem consumes_transfer

lemma consuming_finish_connect: "consumes w v \<Longrightarrow> consuming w (finish_connect v)"
  using steady_finish_connect [of v] consumes_steady consumes_trans
  by (metis consuming_def prod.collapse)

lemma consuming_open: "consumes w v \<Longrightarrow> consuming w (open_vici_socket v)"
  unfolding open_vici_socket_def Let_def case_prod_beta
  by (auto simp: consumes_intros split: sum.split option.split intro: consuming_finish_connect)

lemma consuming_connect: "consumes w v \<Longrightarrow> consuming w (ConnectViciTransport v)"
  using consuming_open [of w v]
  by (auto simp: ConnectViciTransport_def Let_def case_prod_beta consuming_def)

lemma consuming_send: "consumes w v \<Longrightarrow> consuming w (SendViciTransportPacket p v)"
proof -
  assume v: "consumes w v"
  have "consuming w (and_then (ConnectViciTransport v) (\<lambda>w.
              let (ullDeadlineMs, w) = GetViciCommandDeadline w;
                  ((_, w), eError) = TransferViciBytes True ullDeadlineMs (be32 (uiLength p)) w
              in and_then (w, eError) (\<lambda>w.
                   let ((_, w), eError) = TransferViciBytes True ullDeadlineMs (pucData p) w
                   in (w, eError))))"
    by (rule consuming_and_then [OF consuming_connect [OF v]])
      (auto simp: Let_def case_prod_beta consumes_intros intro!: consuming_and_then)
  then show ?thesis
    using v unfolding SendViciTransportPacket_def
    by (auto simp: Let_def case_prod_beta consuming_def)
qed

lemma consumes_receive:
  assumes "consumes w v"
  shows "consumes w (snd (fst (ReceiveViciTransportPacket (p, v))))"
proof (cases "iViciSocket v < 0")
  case True
  then show ?thesis using assms by (simp add: ReceiveViciTransportPacket_def)
next
  case False
  obtain dl w1 where d: "GetViciCommandDeadline v = (dl, w1)" by fastforce
  obtain h w2 e2 where t: "TransferViciBytes False dl (replicate 4 NUL) w1 = ((h, w2), e2)"
    by (metis prod.exhaust)
  have c1: "consumes w w1" using consumes_deadline [OF assms] d by simp
  then have c2: "consumes w w2"
    using consumes_transfer [OF c1, of False dl "replicate 4 NUL"] t by simp
  have c3: "consumes w (snd (fst (receive_body dl n (p, w2))))" for n
  proof (cases "n \<le> VICI_MAX_SEGMENT_LENGTH")
    case True
    obtain p3 w3 e3 where "receive_body dl n (p, w2) = ((p3, w3), e3)" by (metis prod.exhaust)
    from receive_body_props [OF this True] show ?thesis
      using c2 \<open>receive_body dl n (p, w2) = ((p3, w3), e3)\<close> by (simp add: consumes_def)
  next
    case False
    then show ?thesis
      using c2 by (simp add: receive_body_def InitializeViciBuffer_def next_mem_def consumes_def)
  qed
  show ?thesis
    using False c2 c3 d t
    by (cases "e2 = IPSEC_OK"; cases "be32_value h = 0 \<or> VICI_MAX_SEGMENT_LENGTH < be32_value h")
      (simp_all add: ReceiveViciTransportPacket_def case_prod_beta)
qed

lemma consuming_send_named: "consumes w v \<Longrightarrow> consuming w (send_named t n m v)"
  unfolding send_named_def Let_def case_prod_beta
  by (rule consuming_and_then) (auto simp: consumes_intros intro: consuming_send)

lemma consuming_exchange: "consumes w v \<Longrightarrow> consuming w (ExchangeViciRegistration n reg v)"
  unfolding Exchange_send
  by (rule consuming_and_then [OF consuming_send_named])
    (auto simp: Let_def case_prod_beta consumes_receive split: sum.split)

lemma consumes_stream:
  "consumes w v \<Longrightarrow> consumes w (snd (fst (ReceiveViciCommandStream ev cb rcb x v)))"
proof (induction "length (os_trace v)" arbitrary: v x rule: less_induct)
  case less
  obtain p w1 e1 where r: "ReceiveViciTransportPacket (zero_buffer, v) = ((p, w1), e1)"
    by (metis prod.exhaust)
  have c1: "consumes w w1" using consumes_receive [OF less.prems, of zero_buffer] r by simp
  obtain x1 e2 c where h: "handle_packet ev cb rcb (pucData p) x = ((x1, e2), c)"
    by (metis prod.exhaust)
  show ?case
  proof (cases "e1 = IPSEC_OK \<and> \<not> (c \<or> e2 \<noteq> IPSEC_OK)")
    case True
    then have "consumes w (snd (fst (ReceiveViciCommandStream ev cb rcb x1 w1)))"
      using less.hyps [OF _ c1] Receive_trace [of zero_buffer v p w1] r by simp
    then show ?thesis using True r h by (subst ReceiveViciCommandStream.simps) simp
  next
    case False
    then show ?thesis using c1 r h by (subst ReceiveViciCommandStream.simps) auto
  qed
qed

lemma consumes_request:
  assumes "consumes w v"
  shows "consumes w (snd (fst (request_command cmd m ev cb rcb x v)))"
proof -
  obtain mem w1 where m: "next_mem v = (mem, w1)" by fastforce
  have c1: "consumes w w1" using consumes_mem [OF assms] m by simp
  obtain p e where b: "BuildViciNamedPacket mem VICI_PACKET_COMMAND_REQUEST (Some cmd) m zero_buffer = (p, e)"
    by fastforce
  obtain w2 e2 where s: "SendViciTransportPacket p w1 = (w2, e2)" by fastforce
  have c2: "consumes w w2" using consuming_send [OF c1, of p] s by simp
  show ?thesis
    using m b s c1 c2 consumes_stream [OF c2, of ev cb rcb x]
    by (cases "e = IPSEC_OK"; cases "e2 = IPSEC_OK") (simp_all add: request_command_def)
qed

lemma consuming_begin: "consumes w v \<Longrightarrow> consuming w (begin_command v)"
  unfolding begin_command_def Let_def case_prod_beta
  by (auto simp: consumes_intros intro!: consuming_connect)

lemma consuming_register: "consuming w r \<Longrightarrow> consuming w (fst (register_event ev r))"
  using consuming_exchange [of w "fst r"]
  by (auto simp: register_event_def consuming_def case_prod_beta split: option.split)

lemma consuming_unregister: "consuming w r \<Longrightarrow> consuming w (unregister_event ev b r)"
  using consuming_exchange [of w "fst r"]
  by (auto simp: unregister_event_def consuming_def case_prod_beta split: option.split)

lemma consumes_locked:
  assumes "consumes w v"
  shows "consumes w (snd (fst (locked_command cmd m ev cb rcb x v)))"
proof -
  obtain w2 e2 reg where r: "register_event ev (begin_command v) = ((w2, e2), reg)" by (metis prod.exhaust)
  have c2: "consumes w w2" using consuming_register [OF consuming_begin [OF assms], of ev] r by simp
  obtain x3 w3 e3 where q: "and_then ((x, w2), e2) (\<lambda>(x, w). request_command cmd m ev cb rcb x w) =
      ((x3, w3), e3)" by (metis prod.exhaust)
  have c3: "consumes w w3"
    using q c2 consumes_request [OF c2, of cmd m ev cb rcb x] by (cases "e2 = IPSEC_OK") auto
  have "consuming w (unregister_event ev reg (w3, e3))" by (rule consuming_unregister) (simp add: c3)
  then show ?thesis
    using r q by (simp add: locked_command_def case_prod_beta sys_unlock_def consuming_def)
qed

lemma ExecuteViciCommand_progress:
  assumes "ExecuteViciCommand (Some cmd) m ev cb rcb x w = ((x', w'), e)"
  shows "length (os_trace w') \<le> length (os_trace w)"
    and "e = IPSEC_OK \<Longrightarrow> length (os_trace w') < length (os_trace w)"
proof -
  obtain b w1 where l: "sys_lock w = (b, w1)" by fastforce
  have tr: "length (os_trace w1) \<le> length (os_trace w)" "b \<Longrightarrow> length (os_trace w1) < length (os_trace w)"
    using l next_event_trace [of w] by (auto simp: sys_lock_def split: prod.splits if_splits)
  have c: "consumes w1 (snd (fst (locked_command cmd m ev cb rcb (fst x, zero_result) w1)))"
    by (rule consumes_locked) simp
  have r: "os_trace w' = os_trace (if b then snd (fst (locked_command cmd m ev cb rcb (fst x, zero_result) w1)) else w1)
      \<and> (e = IPSEC_OK \<longrightarrow> b)"
    using assms l by (auto simp: ExecuteViciCommand_def Let_def LogIpsec_def case_prod_beta split: if_splits)
  show "length (os_trace w') \<le> length (os_trace w)"
    and "e = IPSEC_OK \<Longrightarrow> length (os_trace w') < length (os_trace w)"
    using r tr c by (auto simp: consumes_def split: if_splits)
qed

end
