(* ===== verification/ViciSa.thy ===== *)
theory ViciSa
  imports ViciProgress
begin

section \<open>Security associations (\<open>ipsec/vici/vici_sa.c\<close>)\<close>

text \<open>
  Control commands for IKE and CHILD SAs, the collector of \<open>list-sas\<close> events, and the
  waits that repeat the query until a deadline.  The pointers \<open>pCurrentIke\<close> and
  \<open>pCurrentChild\<close> are flags: when set they name the last item of their list.  A list that
  the caller does not want is \<open>None\<close>.
\<close>

abbreviation IPSEC_STATE_LENGTH :: nat where "IPSEC_STATE_LENGTH \<equiv> 32"
abbreviation IPSEC_PROPOSAL_LENGTH :: nat where "IPSEC_PROPOSAL_LENGTH \<equiv> 256"
abbreviation IPSEC_SA_POLL_INTERVAL_MS :: nat where "IPSEC_SA_POLL_INTERVAL_MS \<equiv> 250"
abbreviation sizeof_IpsecControlOptions :: nat where "sizeof_IpsecControlOptions \<equiv> 12"
abbreviation sizeof_IpsecIkeSaInfo :: nat where "sizeof_IpsecIkeSaInfo \<equiv> 768"
abbreviation sizeof_IpsecChildSaInfo :: nat where "sizeof_IpsecChildSaInfo \<equiv> 1520"

datatype IpsecControlMode = IPSEC_CONTROL_WAIT | IPSEC_CONTROL_IMMEDIATE

record IpsecControlOptions =
  co_uiStructSize :: nat
  co_eMode :: IpsecControlMode
  co_uiTimeoutMs :: nat

subsection \<open>Control commands\<close>

definition ValidateSaName :: "string option \<Rightarrow> IpsecError" where
  "ValidateSaName pcName =
     (case pcName of
        None \<Rightarrow> IPSEC_ERR_INVALID_ARGUMENT
      | Some name \<Rightarrow>
          let zLength = strnlen name IPSEC_NAME_LENGTH in
          if zLength = 0 \<or> IPSEC_NAME_LENGTH \<le> zLength then IPSEC_ERR_INVALID_ARGUMENT
          else IPSEC_OK)"

text \<open>The text of the timeout field; \<open>timeout\<close> is \<open>uiCommandTimeoutMs\<close> of the context.\<close>

definition sa_timeout_text :: "nat \<Rightarrow> IpsecControlOptions option \<Rightarrow> IpsecError + string" where
  "sa_timeout_text timeout pOptions =
     (case pOptions of
        None \<Rightarrow> Inr (dec timeout)
      | Some opts \<Rightarrow>
          if co_uiStructSize opts \<noteq> sizeof_IpsecControlOptions then Inl IPSEC_ERR_INVALID_ARGUMENT
          else if co_eMode opts = IPSEC_CONTROL_IMMEDIATE then Inr ''-1''
          else
            let uiTimeoutMs = (if co_uiTimeoutMs opts = 0 then timeout else co_uiTimeoutMs opts)
            in if timeout < uiTimeoutMs then Inl IPSEC_ERR_INVALID_ARGUMENT
               else Inr (dec uiTimeoutMs))"

definition AddSaControlTimeout ::
  "(nat \<Rightarrow> bool) \<Rightarrow> nat \<Rightarrow> IpsecControlOptions option \<Rightarrow> ViciBuffer \<Rightarrow> ViciBuffer outcome" where
  "AddSaControlTimeout mem timeout pOptions b =
     (case sa_timeout_text timeout pOptions of
        Inl e \<Rightarrow> (b, e)
      | Inr acTimeout \<Rightarrow>
          if 32 \<le> length acTimeout then (b, IPSEC_ERR_BUFFER_TOO_SMALL)
          else AddViciKeyValueString mem (Some ''timeout'') (Some acTimeout) b)"

definition ExecuteSaControl ::
  "string \<Rightarrow> string \<Rightarrow> string option \<Rightarrow> IpsecControlOptions option \<Rightarrow> bool \<Rightarrow> IpsecError \<Rightarrow>
   Ipsec \<Rightarrow> Ipsec outcome" where
  "ExecuteSaControl pcCommand pcSelector pcName pOptions bAddTimeout eOperationError w =
     (let (w, eError) = and_then (w, ValidateSaName pcName) (\<lambda>w.
            let (mem, w) = next_mem w;
                (Message, eError) = and_then (InitializeViciBuffer mem 128 False zero_buffer)
                  (run_steps
                    [AddViciKeyValueString mem (Some pcSelector) pcName,
                     (if bAddTimeout then AddSaControlTimeout mem (uiCommandTimeoutMs w) pOptions
                      else (\<lambda>b. (b, IPSEC_OK)))])
            in and_then (w, eError) (\<lambda>w.
                 let ((_, w), eError) = ExecuteViciCommand (Some pcCommand) (Some Message)
                       None None None ((), zero_result) w
                 in (w, eError)))
      in (w, if eError = IPSEC_ERR_VICI_COMMAND then eOperationError else eError))"

definition InitiateIpsecIke ::
  "string option \<Rightarrow> IpsecControlOptions option \<Rightarrow> Ipsec \<Rightarrow> Ipsec outcome" where
  "InitiateIpsecIke n opts =
     ExecuteSaControl ''initiate'' ''ike'' n opts True IPSEC_ERR_IKE_FAILED"

definition TerminateIpsecIke ::
  "string option \<Rightarrow> IpsecControlOptions option \<Rightarrow> Ipsec \<Rightarrow> Ipsec outcome" where
  "TerminateIpsecIke n opts =
     ExecuteSaControl ''terminate'' ''ike'' n opts True IPSEC_ERR_IKE_FAILED"

definition RekeyIpsecIke :: "string option \<Rightarrow> Ipsec \<Rightarrow> Ipsec outcome" where
  "RekeyIpsecIke n = ExecuteSaControl ''rekey'' ''ike'' n None False IPSEC_ERR_IKE_FAILED"

definition InitiateIpsecChild ::
  "string option \<Rightarrow> IpsecControlOptions option \<Rightarrow> Ipsec \<Rightarrow> Ipsec outcome" where
  "InitiateIpsecChild n opts =
     ExecuteSaControl ''initiate'' ''child'' n opts True IPSEC_ERR_CHILD_FAILED"

definition TerminateIpsecChild ::
  "string option \<Rightarrow> IpsecControlOptions option \<Rightarrow> Ipsec \<Rightarrow> Ipsec outcome" where
  "TerminateIpsecChild n opts =
     ExecuteSaControl ''terminate'' ''child'' n opts True IPSEC_ERR_CHILD_FAILED"

definition RekeyIpsecChild :: "string option \<Rightarrow> Ipsec \<Rightarrow> Ipsec outcome" where
  "RekeyIpsecChild n = ExecuteSaControl ''rekey'' ''child'' n None False IPSEC_ERR_CHILD_FAILED"

subsection \<open>The collector\<close>

record IpsecIkeSaInfo =
  is_acName :: cbuf
  is_acState :: cbuf
  is_bEstablished :: bool
  is_bInitiator :: bool
  is_bNatLocal :: bool
  is_bNatRemote :: bool
  is_acLocalAddress :: cbuf
  is_acRemoteAddress :: cbuf
  is_acLocalId :: cbuf
  is_acRemoteId :: cbuf
  is_acProposal :: cbuf
  is_ullUniqueId :: nat
  is_ullEstablishedTimeMs :: nat
  is_ullRekeyTimeMs :: nat

definition zero_ike :: IpsecIkeSaInfo where
  "zero_ike =
     \<lparr>is_acName = replicate IPSEC_NAME_LENGTH NUL, is_acState = replicate IPSEC_STATE_LENGTH NUL,
      is_bEstablished = False, is_bInitiator = False, is_bNatLocal = False, is_bNatRemote = False,
      is_acLocalAddress = replicate IPSEC_ADDRESS_LENGTH NUL,
      is_acRemoteAddress = replicate IPSEC_ADDRESS_LENGTH NUL,
      is_acLocalId = replicate IPSEC_ID_LENGTH NUL, is_acRemoteId = replicate IPSEC_ID_LENGTH NUL,
      is_acProposal = replicate IPSEC_PROPOSAL_LENGTH NUL,
      is_ullUniqueId = 0, is_ullEstablishedTimeMs = 0, is_ullRekeyTimeMs = 0\<rparr>"

record IpsecChildSaInfo =
  cs_acIkeName :: cbuf
  cs_acName :: cbuf
  cs_acState :: cbuf
  cs_acProposal :: cbuf
  cs_acLocalTrafficSelectors :: cbuf
  cs_acRemoteTrafficSelectors :: cbuf
  cs_eMode :: IpsecMode
  cs_bEsn :: bool
  cs_bUdpEncapsulation :: bool
  cs_uiReqid :: nat
  cs_uiInboundSpi :: nat
  cs_uiOutboundSpi :: nat
  cs_ullBytesIn :: nat
  cs_ullBytesOut :: nat
  cs_ullPacketsIn :: nat
  cs_ullPacketsOut :: nat
  cs_ullInstallTimeMs :: nat
  cs_ullRekeyTimeMs :: nat
  cs_ullLifetimeMs :: nat

text \<open>After \<open>memset\<close> the mode of a new CHILD SA is set to unknown.\<close>

definition new_child :: IpsecChildSaInfo where
  "new_child =
     \<lparr>cs_acIkeName = replicate IPSEC_NAME_LENGTH NUL, cs_acName = replicate IPSEC_NAME_LENGTH NUL,
      cs_acState = replicate IPSEC_STATE_LENGTH NUL, cs_acProposal = replicate IPSEC_PROPOSAL_LENGTH NUL,
      cs_acLocalTrafficSelectors = replicate IPSEC_SELECTOR_LIST_LENGTH NUL,
      cs_acRemoteTrafficSelectors = replicate IPSEC_SELECTOR_LIST_LENGTH NUL,
      cs_eMode = IPSEC_MODE_UNKNOWN, cs_bEsn = False, cs_bUdpEncapsulation = False,
      cs_uiReqid = 0, cs_uiInboundSpi = 0, cs_uiOutboundSpi = 0, cs_ullBytesIn = 0, cs_ullBytesOut = 0,
      cs_ullPacketsIn = 0, cs_ullPacketsOut = 0, cs_ullInstallTimeMs = 0, cs_ullRekeyTimeMs = 0,
      cs_ullLifetimeMs = 0\<rparr>"

record SaCollector =
  sc_pIkeList :: "IpsecIkeSaInfo list option"
  sc_pChildList :: "IpsecChildSaInfo list option"
  sc_pCurrentIke :: bool
  sc_pCurrentChild :: bool
  sc_acCurrentIkeName :: cbuf
  sc_aacSections :: section_path
  sc_acListName :: cbuf
  sc_mem :: "nat \<Rightarrow> bool"

definition AppendIkeSa :: "SaCollector \<Rightarrow> SaCollector outcome" where
  "AppendIkeSa c =
     (case sc_pIkeList c of
        None \<Rightarrow> (c\<lparr>sc_pCurrentIke := False\<rparr>, IPSEC_OK)
      | Some items \<Rightarrow>
          let (items, eError) = grow_array (sc_mem c) sizeof_IpsecIkeSaInfo zero_ike items
          in if eError = IPSEC_OK then (c\<lparr>sc_pIkeList := Some items, sc_pCurrentIke := True\<rparr>, IPSEC_OK)
             else (c, eError))"

definition AppendChildSa :: "SaCollector \<Rightarrow> SaCollector outcome" where
  "AppendChildSa c =
     (case sc_pChildList c of
        None \<Rightarrow> (c\<lparr>sc_pCurrentChild := False\<rparr>, IPSEC_OK)
      | Some items \<Rightarrow>
          let (items, eError) = grow_array (sc_mem c) sizeof_IpsecChildSaInfo new_child items
          in if eError = IPSEC_OK
             then (c\<lparr>sc_pChildList := Some items, sc_pCurrentChild := True\<rparr>, IPSEC_OK)
             else (c, eError))"

definition on_ike :: "(IpsecIkeSaInfo \<Rightarrow> IpsecIkeSaInfo outcome) \<Rightarrow> SaCollector \<Rightarrow> SaCollector outcome" where
  "on_ike f c =
     (case sc_pIkeList c of
        None \<Rightarrow> (c, IPSEC_OK)
      | Some items \<Rightarrow>
          let (items, eError) = on_last f items in (c\<lparr>sc_pIkeList := Some items\<rparr>, eError))"

definition on_child ::
  "(IpsecChildSaInfo \<Rightarrow> IpsecChildSaInfo outcome) \<Rightarrow> SaCollector \<Rightarrow> SaCollector outcome" where
  "on_child f c =
     (case sc_pChildList c of
        None \<Rightarrow> (c, IPSEC_OK)
      | Some items \<Rightarrow>
          let (items, eError) = on_last f items in (c\<lparr>sc_pChildList := Some items\<rparr>, eError))"

definition ParseSaSeconds :: "ViciElement \<Rightarrow> IpsecError + nat" where
  "ParseSaSeconds el =
     (case ParseIpsecUint64 (el_pucValue el) 10 of
        Inl e \<Rightarrow> Inl e
      | Inr ullSeconds \<Rightarrow>
          if UINT64_MAX div 1000 < ullSeconds then Inl IPSEC_ERR_VICI_PROTOCOL
          else Inr (u64 (ullSeconds * 1000)))"

definition ParseSaBoolean :: "ViciElement \<Rightarrow> IpsecError + bool" where
  "ParseSaBoolean el =
     (let is_text = (\<lambda>t. MatchViciText (el_pucValue el) (Some t)) in
      if is_text ''yes'' \<or> is_text ''1'' then Inr True
      else if is_text ''no'' \<or> is_text ''0'' then Inr False
      else Inl IPSEC_ERR_VICI_PROTOCOL)"

definition AppendSaProposal ::
  "('r \<Rightarrow> cbuf) \<Rightarrow> ((cbuf \<Rightarrow> cbuf) \<Rightarrow> 'r \<Rightarrow> 'r) \<Rightarrow> ViciElement \<Rightarrow> 'r \<Rightarrow> 'r outcome" where
  "AppendSaProposal get upd el = append_to get upd ''/'' (el_pucValue el)"

definition AppendSaKeySize ::
  "('r \<Rightarrow> cbuf) \<Rightarrow> ((cbuf \<Rightarrow> cbuf) \<Rightarrow> 'r \<Rightarrow> 'r) \<Rightarrow> ViciElement \<Rightarrow> 'r \<Rightarrow> 'r outcome" where
  "AppendSaKeySize get upd el r =
     (case ParseIpsecUint32 (el_pucValue el) 10 of
        Inl e \<Rightarrow> (r, e)
      | Inr uiKeySize \<Rightarrow>
          if uiKeySize = 0 then (r, IPSEC_ERR_VICI_PROTOCOL)
          else append_to get upd ''-'' (el_pucValue el) r)"

definition CollectIkeValue :: "ViciElement \<Rightarrow> IpsecIkeSaInfo \<Rightarrow> IpsecIkeSaInfo outcome" where
  "CollectIkeValue el i =
     (let key = (\<lambda>k. MatchViciText (el_pucName el) (Some k)); v = el_pucValue el in
      if key ''uniqueid'' then store_to is_ullUniqueId_update (ParseIpsecUint64 v 10) i
      else if key ''state'' then
        (let (i, eError) = copy_to is_acState is_acState_update v i
         in if eError = IPSEC_OK
            then (i\<lparr>is_bEstablished := MatchViciText v (Some ''ESTABLISHED'')\<rparr>, IPSEC_OK)
            else (i, eError))
      else if key ''local-host'' then copy_to is_acLocalAddress is_acLocalAddress_update v i
      else if key ''remote-host'' then copy_to is_acRemoteAddress is_acRemoteAddress_update v i
      else if key ''local-id'' then copy_to is_acLocalId is_acLocalId_update v i
      else if key ''remote-id'' then copy_to is_acRemoteId is_acRemoteId_update v i
      else if key ''initiator'' then store_to is_bInitiator_update (ParseSaBoolean el) i
      else if key ''nat-local'' then store_to is_bNatLocal_update (ParseSaBoolean el) i
      else if key ''nat-remote'' then store_to is_bNatRemote_update (ParseSaBoolean el) i
      else if key ''established'' then store_to is_ullEstablishedTimeMs_update (ParseSaSeconds el) i
      else if key ''rekey-time'' then store_to is_ullRekeyTimeMs_update (ParseSaSeconds el) i
      else if key ''encr-alg'' \<or> key ''integ-alg'' \<or> key ''prf-alg'' \<or> key ''dh-group'' then
        AppendSaProposal is_acProposal is_acProposal_update el i
      else if key ''encr-keysize'' then AppendSaKeySize is_acProposal is_acProposal_update el i
      else (i, IPSEC_OK))"

definition sa_mode :: "bytes option \<Rightarrow> IpsecMode" where
  "sa_mode v =
     (let is_text = (\<lambda>t. MatchViciText v (Some t)) in
      if is_text ''tunnel'' \<or> is_text ''TUNNEL'' then IPSEC_MODE_TUNNEL
      else if is_text ''transport'' \<or> is_text ''TRANSPORT'' then IPSEC_MODE_TRANSPORT
      else if is_text ''beet'' \<or> is_text ''BEET'' then IPSEC_MODE_BEET
      else IPSEC_MODE_UNKNOWN)"

definition CollectChildValue :: "ViciElement \<Rightarrow> IpsecChildSaInfo \<Rightarrow> IpsecChildSaInfo outcome" where
  "CollectChildValue el i =
     (let key = (\<lambda>k. MatchViciText (el_pucName el) (Some k)); v = el_pucValue el in
      if key ''name'' then copy_to cs_acName cs_acName_update v i
      else if key ''state'' then copy_to cs_acState cs_acState_update v i
      else if key ''reqid'' then store_to cs_uiReqid_update (ParseIpsecUint32 v 10) i
      else if key ''spi-in'' then store_to cs_uiInboundSpi_update (ParseIpsecUint32 v 16) i
      else if key ''spi-out'' then store_to cs_uiOutboundSpi_update (ParseIpsecUint32 v 16) i
      else if key ''mode'' then (i\<lparr>cs_eMode := sa_mode v\<rparr>, IPSEC_OK)
      else if key ''encap'' then store_to cs_bUdpEncapsulation_update (ParseSaBoolean el) i
      else if key ''esn'' then store_to cs_bEsn_update (ParseSaBoolean el) i
      else if key ''bytes-in'' then store_to cs_ullBytesIn_update (ParseIpsecUint64 v 10) i
      else if key ''bytes-out'' then store_to cs_ullBytesOut_update (ParseIpsecUint64 v 10) i
      else if key ''packets-in'' then store_to cs_ullPacketsIn_update (ParseIpsecUint64 v 10) i
      else if key ''packets-out'' then store_to cs_ullPacketsOut_update (ParseIpsecUint64 v 10) i
      else if key ''install-time'' then store_to cs_ullInstallTimeMs_update (ParseSaSeconds el) i
      else if key ''rekey-time'' then store_to cs_ullRekeyTimeMs_update (ParseSaSeconds el) i
      else if key ''life-time'' then store_to cs_ullLifetimeMs_update (ParseSaSeconds el) i
      else if key ''encr-alg'' \<or> key ''integ-alg'' \<or> key ''prf-alg'' \<or> key ''dh-group'' then
        AppendSaProposal cs_acProposal cs_acProposal_update el i
      else if key ''encr-keysize'' then AppendSaKeySize cs_acProposal cs_acProposal_update el i
      else (i, IPSEC_OK))"

text \<open>The name of a new CHILD SA: the section name when it fits, otherwise empty.\<close>

definition name_new_child :: "cbuf \<Rightarrow> bytes option \<Rightarrow> IpsecChildSaInfo \<Rightarrow> IpsecChildSaInfo outcome" where
  "name_new_child ikeName v i =
     and_then (copy_to cs_acIkeName cs_acIkeName_update (Some (cstr ikeName)) i) (\<lambda>i.
       let (i, eError) = copy_to cs_acName cs_acName_update v i
       in if eError \<noteq> IPSEC_OK then (i\<lparr>cs_acName := (cs_acName i)[0 := NUL]\<rparr>, IPSEC_OK)
          else (i, IPSEC_OK))"

definition CollectSaSectionStart :: "ViciElement \<Rightarrow> SaCollector \<Rightarrow> SaCollector outcome" where
  "CollectSaSectionStart el c =
     (let (path, eError) = enter_section el (sc_aacSections c); c = c\<lparr>sc_aacSections := path\<rparr> in
      if eError = IPSEC_OK \<and> el_uiDepth el = 1 then
        run_steps
          [copy_to sc_acCurrentIkeName sc_acCurrentIkeName_update (el_pucName el),
           AppendIkeSa,
           (\<lambda>c. if sc_pCurrentIke c then on_ike (copy_to is_acName is_acName_update (el_pucName el)) c
                else (c, IPSEC_OK))] c
      else if eError = IPSEC_OK \<and> el_uiDepth el = 3 \<and>
              strcmp_eq (sc_aacSections c ! 1) ''child-sas'' then
        and_then (AppendChildSa c)
          (\<lambda>c. if sc_pCurrentChild c
               then on_child (name_new_child (sc_acCurrentIkeName c) (el_pucName el)) c
               else (c, IPSEC_OK))
      else (c, eError))"

definition leave_sa :: "ViciElement \<Rightarrow> SaCollector \<Rightarrow> SaCollector" where
  "leave_sa el c =
     (if el_uiDepth el = 3 then c\<lparr>sc_pCurrentChild := False\<rparr>
      else if el_uiDepth el = 1
      then c\<lparr>sc_pCurrentIke := False, sc_acCurrentIkeName := (sc_acCurrentIkeName c)[0 := NUL]\<rparr>
      else c)"

definition CollectSaElement :: "ViciElement \<Rightarrow> SaCollector \<Rightarrow> SaCollector outcome" where
  "CollectSaElement el c =
     (let t = el_eType el; d = el_uiDepth el in
      if t = VICI_ELEMENT_SECTION_START then CollectSaSectionStart el c
      else if t = VICI_ELEMENT_SECTION_END then
        (if d = 0 \<or> VICI_MAX_SECTION_DEPTH < d then (c, IPSEC_ERR_VICI_PROTOCOL)
         else let c = leave_sa el c
              in (c\<lparr>sc_aacSections := fst (leave_section el (sc_aacSections c))\<rparr>, IPSEC_OK))
      else if t = VICI_ELEMENT_LIST_START then
        copy_to sc_acListName sc_acListName_update (el_pucName el) c
      else if t = VICI_ELEMENT_LIST_END then
        (c\<lparr>sc_acListName := (sc_acListName c)[0 := NUL]\<rparr>, IPSEC_OK)
      else if t = VICI_ELEMENT_LIST_ITEM \<and> d = 3 \<and> sc_pCurrentChild c then
        (if strcmp_eq (sc_acListName c) ''local-ts'' then
           on_child (append_to cs_acLocalTrafficSelectors cs_acLocalTrafficSelectors_update '',''
             (el_pucValue el)) c
         else if strcmp_eq (sc_acListName c) ''remote-ts'' then
           on_child (append_to cs_acRemoteTrafficSelectors cs_acRemoteTrafficSelectors_update '',''
             (el_pucValue el)) c
         else (c, IPSEC_OK))
      else if t = VICI_ELEMENT_KEY_VALUE \<and> d = 1 then
        (if sc_pCurrentIke c then on_ike (CollectIkeValue el) c else (c, IPSEC_OK))
      else if t = VICI_ELEMENT_KEY_VALUE \<and> d = 3 \<and>
              strcmp_eq (sc_aacSections c ! 1) ''child-sas'' then
        (if sc_pCurrentChild c then on_child (CollectChildValue el) c else (c, IPSEC_OK))
      else (c, IPSEC_OK))"

definition CollectSaEvent :: "bytes \<Rightarrow> SaCollector \<Rightarrow> SaCollector outcome" where
  "CollectSaEvent pucMessage c = ParseViciMessage CollectSaElement pucMessage c"

subsection \<open>Queries\<close>

definition empty_sa_collector ::
  "(nat \<Rightarrow> bool) \<Rightarrow> IpsecIkeSaInfo list option \<Rightarrow> IpsecChildSaInfo list option \<Rightarrow> SaCollector" where
  "empty_sa_collector mem pIkeList pChildList =
     \<lparr>sc_pIkeList = map_option (\<lambda>_. []) pIkeList, sc_pChildList = map_option (\<lambda>_. []) pChildList,
      sc_pCurrentIke = False, sc_pCurrentChild = False,
      sc_acCurrentIkeName = replicate IPSEC_NAME_LENGTH NUL, sc_aacSections = empty_path,
      sc_acListName = replicate IPSEC_NAME_LENGTH NUL, sc_mem = mem\<rparr>"

definition QueryIpsecSas ::
  "(nat \<Rightarrow> bool) \<Rightarrow> IpsecIkeSaInfo list option \<Rightarrow> IpsecChildSaInfo list option \<Rightarrow> Ipsec \<Rightarrow>
   (SaCollector \<times> Ipsec) outcome" where
  "QueryIpsecSas mem pIkeList pChildList w =
     (let c = empty_sa_collector mem pIkeList pChildList in
      if pIkeList = None \<and> pChildList = None then ((c, w), IPSEC_ERR_INVALID_ARGUMENT)
      else
        let ((Request, w), eError) = empty_request w
        in if eError \<noteq> IPSEC_OK then ((c, w), eError)
           else
             let (((c, r), w), eError) = ExecuteViciCommand (Some ''list-sas'') (Some Request)
                   (Some ''list-sa'') (Some CollectSaEvent) None (c, zero_result) w
             in ((c, w), eError))"

definition GetIpsecIkeSas :: "(nat \<Rightarrow> bool) \<Rightarrow> Ipsec \<Rightarrow> (IpsecIkeSaInfo list \<times> Ipsec) outcome" where
  "GetIpsecIkeSas mem w =
     (let ((c, w), eError) = QueryIpsecSas mem (Some []) None w
      in if eError \<noteq> IPSEC_OK then (([], w), eError)
         else ((case sc_pIkeList c of None \<Rightarrow> [] | Some l \<Rightarrow> l, w), IPSEC_OK))"

definition GetIpsecChildSas :: "(nat \<Rightarrow> bool) \<Rightarrow> Ipsec \<Rightarrow> (IpsecChildSaInfo list \<times> Ipsec) outcome" where
  "GetIpsecChildSas mem w =
     (let ((c, w), eError) = QueryIpsecSas mem None (Some []) w
      in if eError \<noteq> IPSEC_OK then (([], w), eError)
         else ((case sc_pChildList c of None \<Rightarrow> [] | Some l \<Rightarrow> l, w), IPSEC_OK))"

subsection \<open>Waiting\<close>

text \<open>The tail of the wait loops: a pause of the poll interval, then the test of the loop.
  The flag says whether the loop goes on.\<close>

definition wait_pause :: "nat \<Rightarrow> bool \<Rightarrow> Ipsec outcome \<Rightarrow> Ipsec outcome \<times> bool" where
  "wait_pause ullDeadlineMs bFound r =
     (let (w, eError) = r;
          (w, eError) =
            (if \<not> bFound \<and> eError = IPSEC_OK
             then let (now, w) = GetIpsecMonotonicMilliseconds w
                  in if now < ullDeadlineMs then SleepIpsecMilliseconds IPSEC_SA_POLL_INTERVAL_MS w
                     else (w, IPSEC_OK)
             else (w, eError))
      in if \<not> bFound \<and> eError = IPSEC_OK
         then let (now, w) = GetIpsecMonotonicMilliseconds w in ((w, eError), now < ullDeadlineMs)
         else ((w, eError), False))"

definition ike_established :: "string \<Rightarrow> IpsecIkeSaInfo list \<Rightarrow> bool" where
  "ike_established name items = list_ex (\<lambda>i. strcmp_eq name (is_acName i) \<and> is_bEstablished i) items"

definition child_installed :: "string \<Rightarrow> IpsecChildSaInfo list \<Rightarrow> bool" where
  "child_installed name items =
     list_ex (\<lambda>i. strcmp_eq name (cs_acName i) \<and> strcmp_eq ''INSTALLED'' (cs_acState i)) items"

lemma consumes_empty_request: "consumes w v \<Longrightarrow> consumes w (snd (fst (empty_request v)))"
  by (simp add: empty_request_def Let_def case_prod_beta consumes_mem)

lemma QueryIpsecSas_progress:
  assumes "QueryIpsecSas mem l1 l2 w = ((c, w'), e)"
  shows "consumes w w'" and "e = IPSEC_OK \<Longrightarrow> length (os_trace w') < length (os_trace w)"
proof -
  obtain b w1 e1 where q: "empty_request w = ((b, w1), e1)" by (metis prod.exhaust)
  have c1: "consumes w w1" using consumes_empty_request [of w w] q by simp
  obtain c2 r w2 e2 where x: "ExecuteViciCommand (Some ''list-sas'') (Some b) (Some ''list-sa'')
      (Some CollectSaEvent) None (empty_sa_collector mem l1 l2, zero_result) w1 = (((c2, r), w2), e2)"
    by (metis prod.exhaust)
  note xp = ExecuteViciCommand_progress [OF x]
  show "consumes w w'" and "e = IPSEC_OK \<Longrightarrow> length (os_trace w') < length (os_trace w)"
    using assms q x xp c1
    by (auto simp: QueryIpsecSas_def consumes_def Let_def split: if_splits)
qed

lemma Get_progress:
  assumes "GetIpsecIkeSas mem w = ((l, w'), IPSEC_OK) \<or> GetIpsecChildSas mem w = ((k, w'), IPSEC_OK)"
  shows "length (os_trace w') < length (os_trace w)"
proof -
  obtain c1 w1 e1 where 1: "QueryIpsecSas mem (Some []) None w = ((c1, w1), e1)" by (metis prod.exhaust)
  obtain c2 w2 e2 where 2: "QueryIpsecSas mem None (Some []) w = ((c2, w2), e2)" by (metis prod.exhaust)
  show ?thesis
    using assms QueryIpsecSas_progress(2) [OF 1] QueryIpsecSas_progress(2) [OF 2]
    by (auto simp: GetIpsecIkeSas_def GetIpsecChildSas_def 1 2 split: if_splits)
qed

lemma consumes_sleep: "consumes w v \<Longrightarrow> consumes w (fst (SleepIpsecMilliseconds n v))"
proof -
  have "consumes w u \<Longrightarrow> consumes w (fst (sleep_loop u))" for u
  proof (induction u rule: sleep_loop.induct)
    case (1 u)
    then show ?case using consumes_next [of w u]
      by (subst sleep_loop.simps) (auto simp: Let_def split: prod.split option.split os_event.split)
  qed
  then show "consumes w v \<Longrightarrow> ?thesis" by (simp add: SleepIpsecMilliseconds_def consumes_def)
qed

lemma wait_pause_consumes: "consumes w (fst r) \<Longrightarrow> consumes w (fst (fst (wait_pause dl b r)))"
  using consumes_clock consumes_sleep
  by (cases r) (auto simp: wait_pause_def Let_def case_prod_beta)

lemma wait_pause_again: "snd (wait_pause dl b (w, e)) \<Longrightarrow> \<not> b \<and> e = IPSEC_OK"
  by (auto simp: wait_pause_def Let_def case_prod_beta split: if_splits)

function wait_ike_loop ::
  "(nat \<Rightarrow> bool) \<Rightarrow> string \<Rightarrow> nat \<Rightarrow> Ipsec \<Rightarrow> (bool \<times> Ipsec) outcome" where
  "wait_ike_loop mem pcName ullDeadlineMs w =
     (let (got, eError) = GetIpsecIkeSas mem w;
          bFound = (eError = IPSEC_OK \<and> ike_established pcName (fst got));
          (r, again) = wait_pause ullDeadlineMs bFound (snd got, eError)
      in if again then wait_ike_loop mem pcName ullDeadlineMs (fst r)
         else ((bFound, fst r), snd r))"
  by pat_completeness auto
termination
proof (relation "measure (\<lambda>(mem, n, dl, w). length (os_trace w))", goal_cases)
  case 1
  then show ?case by simp
next
  case (2 mem n dl w x got e found y r again)
  then have e: "e = IPSEC_OK" using wait_pause_again [of dl found "snd got" e] by (metis snd_conv)
  have "length (os_trace (snd got)) < length (os_trace w)"
    using 2 e Get_progress [of mem w "fst got" "snd got"] by (metis prod.collapse)
  moreover have "consumes (snd got) (fst r)"
    using 2 wait_pause_consumes [of "snd got" "(snd got, e)" dl found] by (metis consumes_refl fst_conv)
  ultimately show ?case by (simp add: consumes_def)
qed

function wait_child_loop ::
  "(nat \<Rightarrow> bool) \<Rightarrow> string \<Rightarrow> nat \<Rightarrow> Ipsec \<Rightarrow> (bool \<times> Ipsec) outcome" where
  "wait_child_loop mem pcName ullDeadlineMs w =
     (let (got, eError) = GetIpsecChildSas mem w;
          bFound = (eError = IPSEC_OK \<and> child_installed pcName (fst got));
          (r, again) = wait_pause ullDeadlineMs bFound (snd got, eError)
      in if again then wait_child_loop mem pcName ullDeadlineMs (fst r)
         else ((bFound, fst r), snd r))"
  by pat_completeness auto
termination
proof (relation "measure (\<lambda>(mem, n, dl, w). length (os_trace w))", goal_cases)
  case 1
  then show ?case by simp
next
  case (2 mem n dl w x got e found y r again)
  then have e: "e = IPSEC_OK" using wait_pause_again [of dl found "snd got" e] by (metis snd_conv)
  have "length (os_trace (snd got)) < length (os_trace w)"
    using 2 e Get_progress [of mem w _ "snd got" "fst got"] by (metis prod.collapse)
  moreover have "consumes (snd got) (fst r)"
    using 2 wait_pause_consumes [of "snd got" "(snd got, e)" dl found] by (metis consumes_refl fst_conv)
  ultimately show ?case by (simp add: consumes_def)
qed

declare wait_ike_loop.simps [simp del] wait_child_loop.simps [simp del]

definition wait_result :: "(bool \<times> Ipsec) outcome \<Rightarrow> Ipsec outcome" where
  "wait_result r =
     (let ((bFound, w), eError) = r
      in (w, if eError = IPSEC_OK \<and> \<not> bFound then IPSEC_ERR_VICI_TIMEOUT else eError))"

definition WaitIpsecIkeEstablished ::
  "(nat \<Rightarrow> bool) \<Rightarrow> string option \<Rightarrow> nat \<Rightarrow> Ipsec \<Rightarrow> Ipsec outcome" where
  "WaitIpsecIkeEstablished mem pcIkeName uiTimeoutMs w =
     (if uiTimeoutMs = 0 then (w, IPSEC_ERR_INVALID_ARGUMENT)
      else and_then (w, ValidateSaName pcIkeName) (\<lambda>w.
        let (now, w) = GetIpsecMonotonicMilliseconds w;
            ullDeadlineMs = u64 (now + uiTimeoutMs)
        in wait_result (wait_ike_loop mem (item_text pcIkeName) ullDeadlineMs w)))"

definition WaitIpsecChildInstalled ::
  "(nat \<Rightarrow> bool) \<Rightarrow> string option \<Rightarrow> nat \<Rightarrow> Ipsec \<Rightarrow> Ipsec outcome" where
  "WaitIpsecChildInstalled mem pcChildName uiTimeoutMs w =
     (if uiTimeoutMs = 0 then (w, IPSEC_ERR_INVALID_ARGUMENT)
      else and_then (w, ValidateSaName pcChildName) (\<lambda>w.
        let (now, w) = GetIpsecMonotonicMilliseconds w;
            ullDeadlineMs = u64 (now + uiTimeoutMs)
        in wait_result (wait_child_loop mem (item_text pcChildName) ullDeadlineMs w)))"

subsection \<open>Invariants of the collector\<close>

definition ike_wf :: "IpsecIkeSaInfo \<Rightarrow> bool" where
  "ike_wf i \<longleftrightarrow>
     terminated IPSEC_NAME_LENGTH (is_acName i) \<and> terminated IPSEC_STATE_LENGTH (is_acState i) \<and>
     terminated IPSEC_ADDRESS_LENGTH (is_acLocalAddress i) \<and>
     terminated IPSEC_ADDRESS_LENGTH (is_acRemoteAddress i) \<and>
     terminated IPSEC_ID_LENGTH (is_acLocalId i) \<and> terminated IPSEC_ID_LENGTH (is_acRemoteId i) \<and>
     terminated IPSEC_PROPOSAL_LENGTH (is_acProposal i)"

definition child_wf :: "IpsecChildSaInfo \<Rightarrow> bool" where
  "child_wf i \<longleftrightarrow>
     terminated IPSEC_NAME_LENGTH (cs_acIkeName i) \<and> terminated IPSEC_NAME_LENGTH (cs_acName i) \<and>
     terminated IPSEC_STATE_LENGTH (cs_acState i) \<and> terminated IPSEC_PROPOSAL_LENGTH (cs_acProposal i) \<and>
     terminated IPSEC_SELECTOR_LIST_LENGTH (cs_acLocalTrafficSelectors i) \<and>
     terminated IPSEC_SELECTOR_LIST_LENGTH (cs_acRemoteTrafficSelectors i)"

lemma zero_items_wf: "ike_wf zero_ike" "child_wf new_child"
  by (simp_all add: ike_wf_def zero_ike_def child_wf_def new_child_def terminated_zero)

lemma AppendSaKeySize_inv:
  assumes "P r" and "P (fst (append_to get upd ''-'' (el_pucValue el) r))"
  shows "P (fst (AppendSaKeySize get upd el r))"
  using assms by (auto simp: AppendSaKeySize_def split: sum.split)

lemma ike_text_wf:
  assumes "ike_wf i"
  shows "ike_wf (fst (copy_to is_acName is_acName_update v i))"
    and "ike_wf (fst (copy_to is_acState is_acState_update v i))"
    and "ike_wf (fst (copy_to is_acLocalAddress is_acLocalAddress_update v i))"
    and "ike_wf (fst (copy_to is_acRemoteAddress is_acRemoteAddress_update v i))"
    and "ike_wf (fst (copy_to is_acLocalId is_acLocalId_update v i))"
    and "ike_wf (fst (copy_to is_acRemoteId is_acRemoteId_update v i))"
    and "ike_wf (fst (append_to is_acProposal is_acProposal_update sep v i))"
proof -
  note f = assms [unfolded ike_wf_def]
  note copy = copy_to_inv [where P = ike_wf]
  show "ike_wf (fst (copy_to is_acName is_acName_update v i))"
    by (rule copy [of IPSEC_NAME_LENGTH]) (use f in \<open>simp_all add: ike_wf_def\<close>)
  show "ike_wf (fst (copy_to is_acState is_acState_update v i))"
    by (rule copy [of IPSEC_STATE_LENGTH]) (use f in \<open>simp_all add: ike_wf_def\<close>)
  show "ike_wf (fst (copy_to is_acLocalAddress is_acLocalAddress_update v i))"
    "ike_wf (fst (copy_to is_acRemoteAddress is_acRemoteAddress_update v i))"
    by (rule copy [of IPSEC_ADDRESS_LENGTH]; use f in \<open>simp add: ike_wf_def\<close>)+
  show "ike_wf (fst (copy_to is_acLocalId is_acLocalId_update v i))"
    "ike_wf (fst (copy_to is_acRemoteId is_acRemoteId_update v i))"
    by (rule copy [of IPSEC_ID_LENGTH]; use f in \<open>simp add: ike_wf_def\<close>)+
  show "ike_wf (fst (append_to is_acProposal is_acProposal_update sep v i))"
    by (rule append_to_inv [where P = ike_wf and n = IPSEC_PROPOSAL_LENGTH])
      (use f in \<open>simp_all add: ike_wf_def\<close>)
qed

lemma ike_number_wf:
  assumes "ike_wf i"
  shows "ike_wf (fst (store_to is_ullUniqueId_update n i))"
    and "ike_wf (fst (store_to is_bInitiator_update b i))"
    and "ike_wf (fst (store_to is_bNatLocal_update b i))"
    and "ike_wf (fst (store_to is_bNatRemote_update b i))"
    and "ike_wf (fst (store_to is_ullEstablishedTimeMs_update n i))"
    and "ike_wf (fst (store_to is_ullRekeyTimeMs_update n i))"
    and "ike_wf (i\<lparr>is_bEstablished := e\<rparr>)"
  using assms by (simp_all add: ike_wf_def store_to_def split: sum.split)

lemma CollectIkeValue_wf:
  assumes "ike_wf i"
  shows "ike_wf (fst (CollectIkeValue el i))"
proof -
  have st: "ike_wf (fst (let (i, eError) = copy_to is_acState is_acState_update v i
         in if eError = IPSEC_OK
            then (i\<lparr>is_bEstablished := MatchViciText v (Some ''ESTABLISHED'')\<rparr>, IPSEC_OK)
            else (i, eError)))" for v
    using ike_text_wf(2) [OF assms, of v] ike_number_wf(7) by (simp add: case_prod_beta)
  show ?thesis
    unfolding CollectIkeValue_def AppendSaProposal_def Let_def [of _ "\<lambda>key. let v = _ in _ key v"]
    using ike_text_wf [OF assms] ike_number_wf [OF assms] assms st
      AppendSaKeySize_inv [where P = ike_wf, OF assms ike_text_wf(7) [OF assms]]
    by (simp add: Let_def case_prod_beta)
qed

lemma child_text_wf:
  assumes "child_wf i"
  shows "child_wf (fst (copy_to cs_acName cs_acName_update v i))"
    and "child_wf (fst (copy_to cs_acIkeName cs_acIkeName_update v i))"
    and "child_wf (fst (copy_to cs_acState cs_acState_update v i))"
    and "child_wf (fst (append_to cs_acProposal cs_acProposal_update sep v i))"
    and "child_wf (fst (append_to cs_acLocalTrafficSelectors cs_acLocalTrafficSelectors_update sep v i))"
    and "child_wf (fst (append_to cs_acRemoteTrafficSelectors cs_acRemoteTrafficSelectors_update sep v i))"
proof -
  note f = assms [unfolded child_wf_def]
  note copy = copy_to_inv [where P = child_wf]
  note app = append_to_inv [where P = child_wf]
  show "child_wf (fst (copy_to cs_acName cs_acName_update v i))"
    "child_wf (fst (copy_to cs_acIkeName cs_acIkeName_update v i))"
    by (rule copy [of IPSEC_NAME_LENGTH]; use f in \<open>simp add: child_wf_def\<close>)+
  show "child_wf (fst (copy_to cs_acState cs_acState_update v i))"
    by (rule copy [of IPSEC_STATE_LENGTH]) (use f in \<open>simp_all add: child_wf_def\<close>)
  show "child_wf (fst (append_to cs_acProposal cs_acProposal_update sep v i))"
    by (rule app [of IPSEC_PROPOSAL_LENGTH]) (use f in \<open>simp_all add: child_wf_def\<close>)
  show "child_wf (fst (append_to cs_acLocalTrafficSelectors cs_acLocalTrafficSelectors_update sep v i))"
    "child_wf (fst (append_to cs_acRemoteTrafficSelectors cs_acRemoteTrafficSelectors_update sep v i))"
    by (rule app [of IPSEC_SELECTOR_LIST_LENGTH]; use f in \<open>simp add: child_wf_def\<close>)+
qed

lemma child_number_wf:
  assumes "child_wf i"
  shows "child_wf (fst (store_to cs_uiReqid_update n i))"
    and "child_wf (fst (store_to cs_uiInboundSpi_update n i))"
    and "child_wf (fst (store_to cs_uiOutboundSpi_update n i))"
    and "child_wf (fst (store_to cs_bUdpEncapsulation_update b i))"
    and "child_wf (fst (store_to cs_bEsn_update b i))"
    and "child_wf (fst (store_to cs_ullBytesIn_update n i))"
    and "child_wf (fst (store_to cs_ullBytesOut_update n i))"
    and "child_wf (fst (store_to cs_ullPacketsIn_update n i))"
    and "child_wf (fst (store_to cs_ullPacketsOut_update n i))"
    and "child_wf (fst (store_to cs_ullInstallTimeMs_update n i))"
    and "child_wf (fst (store_to cs_ullRekeyTimeMs_update n i))"
    and "child_wf (fst (store_to cs_ullLifetimeMs_update n i))"
    and "child_wf (i\<lparr>cs_eMode := m\<rparr>)"
  using assms by (simp_all add: child_wf_def store_to_def split: sum.split)

lemma CollectChildValue_wf:
  assumes "child_wf i"
  shows "child_wf (fst (CollectChildValue el i))"
  unfolding CollectChildValue_def AppendSaProposal_def
  using child_text_wf [OF assms] child_number_wf [OF assms] assms
    AppendSaKeySize_inv [where P = child_wf, OF assms child_text_wf(4) [OF assms]]
  by (simp add: Let_def)

lemma name_new_child_wf:
  assumes "child_wf i"
  shows "child_wf (fst (name_new_child n v i))"
proof -
  have clear: "child_wf (j\<lparr>cs_acName := (cs_acName j)[0 := NUL]\<rparr>)" if "child_wf j" for j
    using that terminated_clear by (simp add: child_wf_def)
  show ?thesis
    unfolding name_new_child_def
    by (rule and_then_inv [where P = child_wf])
      (use assms child_text_wf clear in \<open>auto simp: Let_def case_prod_beta\<close>)
qed

definition sa_wf :: "SaCollector \<Rightarrow> bool" where
  "sa_wf c \<longleftrightarrow>
     (\<forall>l. sc_pIkeList c = Some l \<longrightarrow> (\<forall>i \<in> set l. ike_wf i)) \<and>
     (\<forall>l. sc_pChildList c = Some l \<longrightarrow> (\<forall>i \<in> set l. child_wf i)) \<and>
     (sc_pCurrentIke c \<longrightarrow> (\<exists>l. sc_pIkeList c = Some l \<and> l \<noteq> [])) \<and>
     (sc_pCurrentChild c \<longrightarrow> (\<exists>l. sc_pChildList c = Some l \<and> l \<noteq> [])) \<and>
     terminated IPSEC_NAME_LENGTH (sc_acCurrentIkeName c) \<and>
     path_wf (sc_aacSections c) \<and> terminated IPSEC_NAME_LENGTH (sc_acListName c)"

lemma on_last_not_Nil: "items \<noteq> [] \<Longrightarrow> fst (on_last f items) \<noteq> []"
  using length_on_last [of items f] by (metis length_0_conv)

lemma on_ike_wf:
  assumes "sa_wf c" and "sc_pCurrentIke c" and "\<And>i. ike_wf i \<Longrightarrow> ike_wf (fst (f i))"
  shows "sa_wf (fst (on_ike f c))"
proof -
  obtain l where l: "sc_pIkeList c = Some l" "l \<noteq> []" using assms(1,2) by (auto simp: sa_wf_def)
  have "\<forall>i \<in> set (fst (on_last f l)). ike_wf i"
    by (rule on_last_inv) (use assms l in \<open>auto simp: sa_wf_def\<close>)
  then show ?thesis
    using assms(1) l on_last_not_Nil [OF l(2), of f] by (simp add: on_ike_def sa_wf_def case_prod_beta)
qed

lemma on_child_wf:
  assumes "sa_wf c" and "sc_pCurrentChild c" and "\<And>i. child_wf i \<Longrightarrow> child_wf (fst (f i))"
  shows "sa_wf (fst (on_child f c))"
proof -
  obtain l where l: "sc_pChildList c = Some l" "l \<noteq> []" using assms(1,2) by (auto simp: sa_wf_def)
  have "\<forall>i \<in> set (fst (on_last f l)). child_wf i"
    by (rule on_last_inv) (use assms l in \<open>auto simp: sa_wf_def\<close>)
  then show ?thesis
    using assms(1) l on_last_not_Nil [OF l(2), of f] by (simp add: on_child_def sa_wf_def case_prod_beta)
qed

lemma AppendIkeSa_wf: "sa_wf c \<Longrightarrow> sa_wf (fst (AppendIkeSa c))"
  using zero_items_wf(1)
  by (cases "sc_pIkeList c"; cases rule: grow_array_cases [of "sc_mem c" sizeof_IpsecIkeSaInfo zero_ike
        "the (sc_pIkeList c)"])
    (auto simp: AppendIkeSa_def sa_wf_def)

lemma AppendChildSa_wf: "sa_wf c \<Longrightarrow> sa_wf (fst (AppendChildSa c))"
  using zero_items_wf(2)
  by (cases "sc_pChildList c"; cases rule: grow_array_cases [of "sc_mem c" sizeof_IpsecChildSaInfo new_child
        "the (sc_pChildList c)"])
    (auto simp: AppendChildSa_def sa_wf_def)

lemma sa_names_wf:
  assumes "sa_wf c"
  shows "sa_wf (fst (copy_to sc_acCurrentIkeName sc_acCurrentIkeName_update v c))"
    and "sa_wf (fst (copy_to sc_acListName sc_acListName_update v c))"
    and "sa_wf (c\<lparr>sc_acListName := (sc_acListName c)[0 := NUL]\<rparr>)"
    and "sa_wf (c\<lparr>sc_aacSections := fst (enter_section el (sc_aacSections c))\<rparr>)"
    and "sa_wf (c\<lparr>sc_aacSections := fst (leave_section el (sc_aacSections c))\<rparr>)"
    and "sa_wf (leave_sa el c)"
proof -
  note f = assms [unfolded sa_wf_def]
  show "sa_wf (fst (copy_to sc_acCurrentIkeName sc_acCurrentIkeName_update v c))"
    "sa_wf (fst (copy_to sc_acListName sc_acListName_update v c))"
    by (rule copy_to_inv [where P = sa_wf and n = IPSEC_NAME_LENGTH]; use f in \<open>simp add: sa_wf_def\<close>)+
  show "sa_wf (c\<lparr>sc_acListName := (sc_acListName c)[0 := NUL]\<rparr>)"
    "sa_wf (c\<lparr>sc_aacSections := fst (enter_section el (sc_aacSections c))\<rparr>)"
    "sa_wf (c\<lparr>sc_aacSections := fst (leave_section el (sc_aacSections c))\<rparr>)" "sa_wf (leave_sa el c)"
    using f terminated_clear enter_section_wf leave_section_wf by (simp_all add: sa_wf_def leave_sa_def)
qed

lemma CollectSaSectionStart_wf:
  assumes "sa_wf c"
  shows "sa_wf (fst (CollectSaSectionStart el c))"
proof -
  define c1 where "c1 = c\<lparr>sc_aacSections := fst (enter_section el (sc_aacSections c))\<rparr>"
  have c1: "sa_wf c1" using sa_names_wf(4) [OF assms] by (simp add: c1_def)
  have one: "sa_wf (fst (run_steps
          [copy_to sc_acCurrentIkeName sc_acCurrentIkeName_update (el_pucName el),
           AppendIkeSa,
           (\<lambda>c. if sc_pCurrentIke c then on_ike (copy_to is_acName is_acName_update (el_pucName el)) c
                else (c, IPSEC_OK))] c1))"
    by (rule run_steps_inv [where P = sa_wf, OF _ c1])
      (auto intro: sa_names_wf AppendIkeSa_wf intro!: on_ike_wf ike_text_wf(1))
  have three: "sa_wf (fst (and_then (AppendChildSa c1)
          (\<lambda>c. if sc_pCurrentChild c
               then on_child (name_new_child (sc_acCurrentIkeName c) (el_pucName el)) c
               else (c, IPSEC_OK))))"
    by (rule and_then_inv [where P = sa_wf])
      (auto intro: AppendChildSa_wf c1 on_child_wf name_new_child_wf)
  show ?thesis
    using one three c1
    by (simp only: CollectSaSectionStart_def Let_def case_prod_beta c1_def [symmetric] fst_conv
        split: if_split) simp
qed

lemma CollectSaElement_wf:
  assumes "sa_wf c"
  shows "sa_wf (fst (CollectSaElement el c))"
proof -
  have leave: "sa_wf ((leave_sa el c)\<lparr>sc_aacSections :=
      fst (leave_section el (sc_aacSections (leave_sa el c)))\<rparr>)"
    using sa_names_wf(5) [OF sa_names_wf(6) [OF assms, of el]] by simp
  show ?thesis
    unfolding CollectSaElement_def Let_def
    using assms leave CollectSaSectionStart_wf [OF assms] sa_names_wf [OF assms]
    by (auto intro!: on_ike_wf on_child_wf CollectIkeValue_wf CollectChildValue_wf child_text_wf)
qed

interpretation sa_cb: element_callback CollectSaElement sa_wf
  by unfold_locales (rule CollectSaElement_wf)

subsection \<open>The collector follows the message\<close>

lemma on_item_keeps [simp]:
  "sc_pCurrentIke (fst (on_ike f c)) = sc_pCurrentIke c"
  "sc_pCurrentChild (fst (on_ike f c)) = sc_pCurrentChild c"
  "sc_acCurrentIkeName (fst (on_ike f c)) = sc_acCurrentIkeName c"
  "sc_aacSections (fst (on_ike f c)) = sc_aacSections c"
  "sc_acListName (fst (on_ike f c)) = sc_acListName c"
  "sc_pCurrentIke (fst (on_child g c)) = sc_pCurrentIke c"
  "sc_pCurrentChild (fst (on_child g c)) = sc_pCurrentChild c"
  "sc_acCurrentIkeName (fst (on_child g c)) = sc_acCurrentIkeName c"
  "sc_aacSections (fst (on_child g c)) = sc_aacSections c"
  "sc_acListName (fst (on_child g c)) = sc_acListName c"
  by (simp_all add: on_ike_def on_child_def case_prod_beta split: option.split)

lemma AppendSa_keeps [simp]:
  "sc_pCurrentChild (fst (AppendIkeSa c)) = sc_pCurrentChild c"
  "sc_aacSections (fst (AppendIkeSa c)) = sc_aacSections c"
  "sc_acListName (fst (AppendIkeSa c)) = sc_acListName c"
  "sc_pCurrentIke (fst (AppendChildSa c)) = sc_pCurrentIke c"
  "sc_acCurrentIkeName (fst (AppendChildSa c)) = sc_acCurrentIkeName c"
  "sc_aacSections (fst (AppendChildSa c)) = sc_aacSections c"
  "sc_acListName (fst (AppendChildSa c)) = sc_acListName c"
  by (simp_all add: AppendIkeSa_def AppendChildSa_def case_prod_beta split: option.split)

lemma and_then_keeps:
  assumes "f (fst r) = f s" and "\<And>t. f (fst (g t)) = f t"
  shows "f (fst (and_then r g)) = f s"
  using assms by (cases r) (simp add: and_then_def)

lemma copy_name_keeps [simp]:
  "sc_pCurrentIke (fst (copy_to sc_acCurrentIkeName sc_acCurrentIkeName_update v c)) = sc_pCurrentIke c"
  "sc_pCurrentChild (fst (copy_to sc_acCurrentIkeName sc_acCurrentIkeName_update v c)) = sc_pCurrentChild c"
  "sc_aacSections (fst (copy_to sc_acCurrentIkeName sc_acCurrentIkeName_update v c)) = sc_aacSections c"
  "sc_acListName (fst (copy_to sc_acCurrentIkeName sc_acCurrentIkeName_update v c)) = sc_acListName c"
  by (simp_all add: copy_to_def case_prod_beta)

text \<open>A section start enters the path and touches no flag but that of its own depth.\<close>

lemma CollectSaSectionStart_keeps:
  "sc_aacSections (fst (CollectSaSectionStart el c)) = fst (enter_section el (sc_aacSections c))"
  "sc_acListName (fst (CollectSaSectionStart el c)) = sc_acListName c"
  "el_uiDepth el \<noteq> 3 \<Longrightarrow> sc_pCurrentChild (fst (CollectSaSectionStart el c)) = sc_pCurrentChild c"
  by (auto simp: CollectSaSectionStart_def Let_def case_prod_beta and_then_def)

lemma CollectSaElement_keeps:
  assumes "el_eType el \<noteq> VICI_ELEMENT_SECTION_START" and "el_eType el \<noteq> VICI_ELEMENT_SECTION_END"
  shows "sc_aacSections (fst (CollectSaElement el c)) = sc_aacSections c"
    and "sc_pCurrentIke (fst (CollectSaElement el c)) = sc_pCurrentIke c"
    and "sc_pCurrentChild (fst (CollectSaElement el c)) = sc_pCurrentChild c"
    and "sc_acCurrentIkeName (fst (CollectSaElement el c)) = sc_acCurrentIkeName c"
    and "sc_acListName (fst (CollectSaElement el c)) =
      (if el_eType el = VICI_ELEMENT_LIST_START
       then fst (CopyIpsecString (sc_acListName c) (el_pucName el))
       else if el_eType el = VICI_ELEMENT_LIST_END then (sc_acListName c)[0 := NUL]
       else sc_acListName c)"
  using assms by (simp_all add: CollectSaElement_def Let_def copy_to_def case_prod_beta)

definition sa_at :: "parser_state \<Rightarrow> SaCollector \<Rightarrow> bool" where
  "sa_at p c \<longleftrightarrow>
     fst p \<le> VICI_MAX_SECTION_DEPTH \<and> path_at (fst p) (sc_aacSections c) \<and>
     (\<not> snd p \<longrightarrow> cstr (sc_acListName c) = []) \<and>
     (fst p < 1 \<longrightarrow> \<not> sc_pCurrentIke c \<and> cstr (sc_acCurrentIkeName c) = []) \<and>
     (fst p < 3 \<longrightarrow> \<not> sc_pCurrentChild c)"

lemma leave_sa_keeps [simp]:
  "sc_aacSections (leave_sa el c) = sc_aacSections c"
  "sc_acListName (leave_sa el c) = sc_acListName c"
  by (simp_all add: leave_sa_def)

lemma sa_step_start:
  assumes "sa_at (d, False) c" and "d < VICI_MAX_SECTION_DEPTH" and "el_uiDepth el = Suc d"
  shows "sa_at (Suc d, False) (fst (CollectSaSectionStart el c))"
  using assms enter_section_at [of d "sc_aacSections c" el] CollectSaSectionStart_keeps [of el c]
  by (auto simp: sa_at_def)

lemma sa_step_end:
  assumes "sa_at (Suc d, False) c" and "d < VICI_MAX_SECTION_DEPTH" and "el_uiDepth el = Suc d"
  shows "sa_at (d, False) ((leave_sa el c)\<lparr>sc_aacSections := fst (leave_section el (sc_aacSections c))\<rparr>)"
  using assms leave_section_at(1) [of d "sc_aacSections c" el]
  by (auto simp: sa_at_def leave_sa_def)

interpretation sa_track: tracking_callback CollectSaElement sa_at
proof unfold_locales
  fix p el q c c'
  assume step: "vici_step p el q" and at: "sa_at p c" and cb: "CollectSaElement el c = (c', IPSEC_OK)"
  have c': "c' = fst (CollectSaElement el c)" by (simp add: cb)
  note keeps = CollectSaElement_keeps [of el c]
  show "sa_at q c'"
    using step
  proof (cases rule: vici_step.cases)
    case (section_start d n)
    then have "c' = fst (CollectSaSectionStart el c)" by (simp add: c' CollectSaElement_def)
    then show ?thesis using section_start at sa_step_start [of d c el] by simp
  next
    case (section_end d)
    then have d: "d < VICI_MAX_SECTION_DEPTH" using at by (simp add: sa_at_def)
    then have "c' = (leave_sa el c)\<lparr>sc_aacSections := fst (leave_section el (sc_aacSections c))\<rparr>"
      using section_end by (simp add: c' CollectSaElement_def Let_def)
    then show ?thesis using section_end at sa_step_end [of d c el] d by simp
  qed (use at keeps in \<open>auto simp: sa_at_def c'\<close>)
qed

subsection \<open>Control messages\<close>

definition sa_control_doc :: "string \<Rightarrow> string \<Rightarrow> string option \<Rightarrow> vici_item list" where
  "sa_control_doc selector name timeout =
     KeyValue selector name #
     (case timeout of None \<Rightarrow> [] | Some t \<Rightarrow> [KeyValue ''timeout'' t])"

text \<open>The timeout a control command may carry: none for an immediate command, otherwise a number
  of milliseconds no longer than the command timeout of the context.\<close>

definition control_timeout_ok :: "nat \<Rightarrow> IpsecControlOptions option \<Rightarrow> string \<Rightarrow> bool" where
  "control_timeout_ok timeout opts t \<longleftrightarrow>
     (case opts of
        None \<Rightarrow> t = dec timeout
      | Some o' \<Rightarrow>
          co_uiStructSize o' = sizeof_IpsecControlOptions \<and>
          (if co_eMode o' = IPSEC_CONTROL_IMMEDIATE then t = ''-1''
           else if co_uiTimeoutMs o' = 0 then t = dec timeout
           else t = dec (co_uiTimeoutMs o') \<and> co_uiTimeoutMs o' \<le> timeout))"

lemma sa_timeout_text_iff: "sa_timeout_text timeout opts = Inr t \<longleftrightarrow> control_timeout_ok timeout opts t"
  by (auto simp: sa_timeout_text_def control_timeout_ok_def Let_def split: option.split)

lemma ValidateSaName_iff: "ValidateSaName n = IPSEC_OK \<longleftrightarrow>
    (\<exists>t. n = Some t \<and> 0 < strnlen t IPSEC_NAME_LENGTH \<and> strnlen t IPSEC_NAME_LENGTH < IPSEC_NAME_LENGTH)"
  by (auto simp: ValidateSaName_def Let_def split: option.split)

lemma control_timeout_text:
  assumes "control_timeout_ok timeout opts t" and "timeout \<le> UINT32_MAX"
  shows "NUL \<notin> set t" and "length t \<le> 20"
proof -
  have "\<exists>n. t = ''-1'' \<or> t = dec n \<and> n \<le> UINT64_MAX"
  proof (cases opts)
    case None
    then show ?thesis using assms by (intro exI [of _ timeout]) (simp add: control_timeout_ok_def)
  next
    case (Some o')
    then show ?thesis using assms
      by (intro exI [of _ "if co_uiTimeoutMs o' = 0 then timeout else co_uiTimeoutMs o'"])
        (auto simp: control_timeout_ok_def split: if_splits)
  qed
  then obtain n where t: "t = ''-1'' \<or> t = dec n \<and> n \<le> UINT64_MAX" by blast
  then show "NUL \<notin> set t" using dec_no_NUL by (elim disjE) simp_all
  show "length t \<le> 20" using t length_dec64 [of n] by (elim disjE) simp_all
qed

lemma emits_SaControlTimeout:
  assumes "control_timeout_ok timeout opts t" and "timeout \<le> UINT32_MAX"
  shows "emits mem (AddSaControlTimeout mem timeout opts) (enc 0 [KeyValue ''timeout'' t])"
proof -
  note t = control_timeout_text [OF assms]
  have "sa_timeout_text timeout opts = Inr t" using assms(1) by (simp only: sa_timeout_text_iff)
  then have "AddSaControlTimeout mem timeout opts =
      AddViciKeyValueString mem (Some ''timeout'') (Some t)"
    using t by (intro ext) (simp add: AddSaControlTimeout_def)
  moreover have "vici_name ''timeout''" by code_simp
  ultimately show ?thesis using emits_literal [of "''timeout''" t mem] t by (simp add: enc_simps)
qed

text \<open>What the control builder writes: the document of the request.\<close>

lemma sa_control_steps:
  assumes sel: "vici_name selector" and name: "ValidateSaName n = IPSEC_OK"
    and t: "timeout \<le> UINT32_MAX" and wf: "buffer_wf b"
    and r: "run_steps [AddViciKeyValueString mem (Some selector) n,
        (if addT then AddSaControlTimeout mem timeout opts else (\<lambda>b. (b, IPSEC_OK)))] b = (b', IPSEC_OK)"
  shows "\<exists>ot. (addT \<longleftrightarrow> ot \<noteq> None) \<and> (\<forall>v. ot = Some v \<longrightarrow> control_timeout_ok timeout opts v) \<and>
     pucData b' = pucData b @ encode_doc (sa_control_doc selector (item_text n) ot)"
proof -
  obtain k where k: "n = Some k" "strlen k \<le> UINT16_MAX"
    using name by (auto simp: ValidateSaName_iff strnlen_min)
  have sel_e: "emits mem (AddViciKeyValueString mem (Some selector) n)
      (element_byte VICI_ELEMENT_KEY_VALUE @ encode_name selector @ encode_value (item_text n))"
    using emits_KeyValueString [OF sel k(2), of mem] k by (simp add: item_text_def)
  show ?thesis
  proof (cases addT)
    case False
    have "emits mem (run_steps [AddViciKeyValueString mem (Some selector) n, (\<lambda>b. (b, IPSEC_OK))])
        ((element_byte VICI_ELEMENT_KEY_VALUE @ encode_name selector @ encode_value (item_text n)) @ [])"
      by (rule emits_steps2 [OF sel_e emits_Nil])
    note written = emitsD(5) [OF this wf r [unfolded if_not_P [OF False]] refl]
    show ?thesis using False written
      by (intro exI [of _ None]) (simp add: encode_doc_enc sa_control_doc_def enc_simps)
  next
    case True
    have bad: "sa_timeout_text timeout opts \<noteq> Inl IPSEC_OK"
      by (simp add: sa_timeout_text_def Let_def split: option.split)
    obtain v where v: "sa_timeout_text timeout opts = Inr v"
      using r True bad by (cases "sa_timeout_text timeout opts")
        (auto simp: AddSaControlTimeout_def and_then_def split: if_splits)
    then have ok: "control_timeout_ok timeout opts v" by (simp only: sa_timeout_text_iff)
    have "emits mem (run_steps [AddViciKeyValueString mem (Some selector) n,
          AddSaControlTimeout mem timeout opts])
        ((element_byte VICI_ELEMENT_KEY_VALUE @ encode_name selector @ encode_value (item_text n)) @
         enc 0 [KeyValue ''timeout'' v])"
      by (rule emits_steps2 [OF sel_e emits_SaControlTimeout [OF ok t]])
    note written = emitsD(5) [OF this wf r [unfolded if_P [OF True]] refl]
    show ?thesis using True ok written
      by (intro exI [of _ "Some v"]) (simp add: encode_doc_enc sa_control_doc_def enc_simps)
  qed
qed

lemma ExecuteSaControl_props:
  assumes idle: "idle w" and t: "uiCommandTimeoutMs w \<le> UINT32_MAX"
    and names: "vici_name cmd" "vici_name selector"
    and x: "ExecuteSaControl cmd selector n opts addT operr w = (w', e)"
  shows "idle w' \<and> (operr \<noteq> IPSEC_ERR_VICI_COMMAND \<longrightarrow> e \<noteq> IPSEC_ERR_VICI_COMMAND) \<and>
     (operr \<noteq> IPSEC_OK \<longrightarrow> e = IPSEC_OK \<longrightarrow> ValidateSaName n = IPSEC_OK \<and>
        (\<exists>ot. (addT \<longleftrightarrow> ot \<noteq> None) \<and> (\<forall>v. ot = Some v \<longrightarrow> control_timeout_ok (uiCommandTimeoutMs w) opts v) \<and>
           os_out w' = os_out w @ frame (char_of (packet_code VICI_PACKET_COMMAND_REQUEST) #
             encode_name cmd @ encode_doc (sa_control_doc selector (item_text n) ot))))"
proof (cases "ValidateSaName n = IPSEC_OK")
  case False
  then show ?thesis using x idle by (auto simp: ExecuteSaControl_def and_then_def Let_def split: if_splits)
next
  case True
  obtain mem w1 where m: "next_mem w = (mem, w1)" by fastforce
  have i1: "idle w1" using idle_next_mem [OF m] idle by simp
  have tw: "uiCommandTimeoutMs w1 = uiCommandTimeoutMs w" using m by (auto simp: next_mem_def)
  obtain b0 e0 where b0: "InitializeViciBuffer mem 128 False zero_buffer = (b0, e0)" by fastforce
  note ini = InitializeViciBuffer_cases [OF _ b0, simplified]
  obtain b e1 where b: "and_then (b0, e0) (run_steps
      [AddViciKeyValueString mem (Some selector) n,
       (if addT then AddSaControlTimeout mem (uiCommandTimeoutMs w1) opts else (\<lambda>b. (b, IPSEC_OK)))]) = (b, e1)"
    by fastforce
  show ?thesis
  proof (cases "e1 = IPSEC_OK")
    case False
    then show ?thesis using x True m b0 b i1
      by (auto simp: ExecuteSaControl_def split: if_splits)
  next
    case e1: True
    obtain s' r' w2 e2 where q: "ExecuteViciCommand (Some cmd) (Some b) None None None
        ((), zero_result) w1 = (((s', r'), w2), e2)" by (metis prod.exhaust)
    have res: "w' = w2" "e = (if e2 = IPSEC_ERR_VICI_COMMAND then operr else e2)"
      using x True m b0 b e1 q by (simp_all add: ExecuteSaControl_def)
    have ev: "ev_ok None" by code_simp
    have run: "run_steps [AddViciKeyValueString mem (Some selector) n,
       (if addT then AddSaControlTimeout mem (uiCommandTimeoutMs w1) opts else (\<lambda>b. (b, IPSEC_OK)))] b0 =
       (b, IPSEC_OK)" using b e1 by (auto simp: and_then_def split: if_splits)
    note st = sa_control_steps [OF names(2) True t [folded tw] ini(1) run, unfolded tw]
    show ?thesis
      using ExecuteViciCommand_props [OF i1 ev names(1) q] res st ini(2) next_mem_props [OF m] True
      by (auto simp: registration_def named_packet_def)
  qed
qed

subsection \<open>What a wait reports\<close>

lemma QueryIpsecSas_idle:
  assumes "idle w" and q: "QueryIpsecSas mem l1 l2 w = ((c, w'), e)"
  shows "idle w'"
proof (cases "l1 = None \<and> l2 = None")
  case True
  then show ?thesis using assms by (simp add: QueryIpsecSas_def)
next
  case False
  obtain b w1 e1 where r: "empty_request w = ((b, w1), e1)" by (metis prod.exhaust)
  have i1: "idle w1"
    using r assms(1) idle_next_mem [of w] by (cases "next_mem w") (auto simp: empty_request_def Let_def case_prod_beta)
  obtain c2 r2 w2 e2 where x: "ExecuteViciCommand (Some ''list-sas'') (Some b) (Some ''list-sa'')
      (Some CollectSaEvent) None (empty_sa_collector mem l1 l2, zero_result) w1 = (((c2, r2), w2), e2)"
    by (metis prod.exhaust)
  have v: "ev_ok (Some ''list-sa'')" "vici_name ''list-sas''" by code_simp+
  have "idle w2" using ExecuteViciCommand_props [OF i1 v x] by blast
  then show ?thesis using q r x i1 False by (auto simp: QueryIpsecSas_def Let_def split: if_splits)
qed

lemma Get_idle:
  assumes "idle w"
  shows "idle (snd (fst (GetIpsecIkeSas mem w)))" and "idle (snd (fst (GetIpsecChildSas mem w)))"
  using QueryIpsecSas_idle [OF assms]
  by (auto simp: GetIpsecIkeSas_def GetIpsecChildSas_def split: prod.split)

lemma next_event_idle: "idle w \<Longrightarrow> idle (snd (next_event w))"
  by (auto simp: next_event_def idle_def fd_ok_def split: list.split)

lemma clock_idle: "idle w \<Longrightarrow> idle (snd (GetIpsecMonotonicMilliseconds w))"
  using next_event_idle [of w]
  by (cases "next_event w") (simp add: GetIpsecMonotonicMilliseconds_def split: option.split os_event.split)

lemma sleep_idle: "idle w \<Longrightarrow> idle (fst (SleepIpsecMilliseconds n w))"
proof -
  have "idle u \<Longrightarrow> idle (fst (sleep_loop u))" for u
  proof (induction u rule: sleep_loop.induct)
    case (1 u)
    then show ?case using next_event_idle [of u]
      by (subst sleep_loop.simps) (auto simp: Let_def split: prod.split option.split os_event.split)
  qed
  moreover have "idle (w\<lparr>os_waits := x\<rparr>) = idle w" for x by (simp add: idle_def fd_ok_def)
  ultimately show "idle w \<Longrightarrow> ?thesis" by (simp add: SleepIpsecMilliseconds_def)
qed

lemma wait_pause_props:
  assumes "idle (fst r)"
  shows "idle (fst (fst (wait_pause dl b r)))"
    and "snd (wait_pause dl b r) \<Longrightarrow> \<not> b \<and> snd (fst (wait_pause dl b r)) = IPSEC_OK"
    and "b \<Longrightarrow> fst (wait_pause dl b r) = r"
  using assms clock_idle sleep_idle
  by (cases r; auto simp: wait_pause_def Let_def case_prod_beta split: if_splits)+

lemma wait_ike_loop_props:
  "wait_ike_loop mem n dl w = ((found, w'), e) \<Longrightarrow> idle w \<Longrightarrow>
   idle w' \<and> (found \<longrightarrow> e = IPSEC_OK \<and>
     (\<exists>v l. idle v \<and> GetIpsecIkeSas mem v = ((l, w'), IPSEC_OK) \<and> ike_established n l))"
proof (induction mem n dl w rule: wait_ike_loop.induct)
  case (1 mem n dl w)
  obtain l w1 e1 where g: "GetIpsecIkeSas mem w = ((l, w1), e1)" by (metis prod.exhaust)
  let ?found = "e1 = IPSEC_OK \<and> ike_established n l"
  obtain w2 e2 again where p: "wait_pause dl ?found (w1, e1) = ((w2, e2), again)" by (metis prod.exhaust)
  have i1: "idle w1" using Get_idle(1) [OF 1(3), of mem] g by simp
  note pp = wait_pause_props [of "(w1, e1)", where dl = dl and b = ?found, unfolded p, simplified, OF i1]
  have r: "wait_ike_loop mem n dl w =
      (if again then wait_ike_loop mem n dl w2 else ((?found, w2), e2))"
    using p by (subst wait_ike_loop.simps) (simp add: g Let_def)
  show ?case
  proof (cases again)
    case True
    then show ?thesis using 1 r pp g p by auto
  next
    case False
    then show ?thesis using 1(2,3) r pp g by auto
  qed
qed

lemma wait_child_loop_props:
  "wait_child_loop mem n dl w = ((found, w'), e) \<Longrightarrow> idle w \<Longrightarrow>
   idle w' \<and> (found \<longrightarrow> e = IPSEC_OK \<and>
     (\<exists>v l. idle v \<and> GetIpsecChildSas mem v = ((l, w'), IPSEC_OK) \<and> child_installed n l))"
proof (induction mem n dl w rule: wait_child_loop.induct)
  case (1 mem n dl w)
  obtain l w1 e1 where g: "GetIpsecChildSas mem w = ((l, w1), e1)" by (metis prod.exhaust)
  let ?found = "e1 = IPSEC_OK \<and> child_installed n l"
  obtain w2 e2 again where p: "wait_pause dl ?found (w1, e1) = ((w2, e2), again)" by (metis prod.exhaust)
  have i1: "idle w1" using Get_idle(2) [OF 1(3), of mem] g by simp
  note pp = wait_pause_props [of "(w1, e1)", where dl = dl and b = ?found, unfolded p, simplified, OF i1]
  have r: "wait_child_loop mem n dl w =
      (if again then wait_child_loop mem n dl w2 else ((?found, w2), e2))"
    using p by (subst wait_child_loop.simps) (simp add: g Let_def)
  show ?case
  proof (cases again)
    case True
    then show ?thesis using 1 r pp g p by auto
  next
    case False
    then show ?thesis using 1(2,3) r pp g by auto
  qed
qed

lemma WaitIpsecIkeEstablished_props:
  assumes "idle w" and r: "WaitIpsecIkeEstablished mem n t w = (w', e)"
  shows "idle w' \<and> (e = IPSEC_OK \<longrightarrow> (\<exists>name v l. n = Some name \<and> idle v \<and>
     GetIpsecIkeSas mem v = ((l, w'), IPSEC_OK) \<and> ike_established (item_text n) l))"
proof (cases "t = 0 \<or> ValidateSaName n \<noteq> IPSEC_OK")
  case True
  then show ?thesis using assms by (auto simp: WaitIpsecIkeEstablished_def and_then_def split: if_splits)
next
  case False
  obtain now w1 where c: "GetIpsecMonotonicMilliseconds w = (now, w1)" by fastforce
  have i1: "idle w1" using clock_idle [OF assms(1)] c by simp
  obtain found w2 e2 where l: "wait_ike_loop mem (item_text n) (u64 (now + t)) w1 = ((found, w2), e2)"
    by (metis prod.exhaust)
  have "(w', e) = (w2, if e2 = IPSEC_OK \<and> \<not> found then IPSEC_ERR_VICI_TIMEOUT else e2)"
    using False r c l by (simp add: WaitIpsecIkeEstablished_def wait_result_def)
  then show ?thesis using wait_ike_loop_props [OF l i1] False
    by (auto simp: ValidateSaName_iff split: if_splits)
qed

lemma WaitIpsecChildInstalled_props:
  assumes "idle w" and r: "WaitIpsecChildInstalled mem n t w = (w', e)"
  shows "idle w' \<and> (e = IPSEC_OK \<longrightarrow> (\<exists>name v l. n = Some name \<and> idle v \<and>
     GetIpsecChildSas mem v = ((l, w'), IPSEC_OK) \<and> child_installed (item_text n) l))"
proof (cases "t = 0 \<or> ValidateSaName n \<noteq> IPSEC_OK")
  case True
  then show ?thesis using assms by (auto simp: WaitIpsecChildInstalled_def and_then_def split: if_splits)
next
  case False
  obtain now w1 where c: "GetIpsecMonotonicMilliseconds w = (now, w1)" by fastforce
  have i1: "idle w1" using clock_idle [OF assms(1)] c by simp
  obtain found w2 e2 where l: "wait_child_loop mem (item_text n) (u64 (now + t)) w1 = ((found, w2), e2)"
    by (metis prod.exhaust)
  have "(w', e) = (w2, if e2 = IPSEC_OK \<and> \<not> found then IPSEC_ERR_VICI_TIMEOUT else e2)"
    using False r c l by (simp add: WaitIpsecChildInstalled_def wait_result_def)
  then show ?thesis using wait_child_loop_props [OF l i1] False
    by (auto simp: ValidateSaName_iff split: if_splits)
qed

subsection \<open>Properties\<close>

text \<open>C10: An SA event never breaks the collector: all texts stay terminated within their arrays,
  a current SA exists in its list; and after an accepted event no SA is current, the section
  path, the list name and the IKE name are empty, so nothing leaks into the next event.\<close>

theorem CollectSaEvent_invariant:
  assumes "sa_wf c" and "sa_at (0, False) c" and "length m \<le> UINT32_MAX"
    and "CollectSaEvent m c = (c', e)"
  shows "sa_wf c' \<and> (e = IPSEC_OK \<longrightarrow> sa_at (0, False) c')"
  using sa_cb.parse_inv [OF assms(1), of m] sa_track.parse_track [OF assms(2,3), of c'] assms(4)
  by (auto simp: CollectSaEvent_def)

lemma empty_sa_collector_ok:
  "sa_wf (empty_sa_collector mem l1 l2)" "sa_at (0, False) (empty_sa_collector mem l1 l2)"
  using empty_path_at
  by (auto simp: empty_sa_collector_def sa_wf_def sa_at_def path_at_def terminated_zero)

theorem CollectSaEvent_invariant_witness:
  "let m = encode_doc [Section ''vpn'' [KeyValue ''state'' ''ESTABLISHED'',
         Section ''child-sas'' [Section ''net-1'' [KeyValue ''name'' ''net'',
           ValueList ''local-ts'' [''10.0.0.0/24'']]]]]
   in sa_wf (fst (CollectSaEvent m (empty_sa_collector (\<lambda>_. True) (Some []) (Some []))))"
proof -
  let ?m = "encode_doc [Section ''vpn'' [KeyValue ''state'' ''ESTABLISHED'',
         Section ''child-sas'' [Section ''net-1'' [KeyValue ''name'' ''net'',
           ValueList ''local-ts'' [''10.0.0.0/24'']]]]]"
  obtain c' e where r: "CollectSaEvent ?m (empty_sa_collector (\<lambda>_. True) (Some []) (Some [])) = (c', e)"
    by fastforce
  have l: "length ?m \<le> UINT32_MAX" by code_simp
  have "sa_wf c'" using CollectSaEvent_invariant [OF empty_sa_collector_ok l r] by blast
  then show ?thesis by (simp only: Let_def r fst_conv)
qed





text \<open>\<open>WaitIpsecChildInstalled\<close> always returns, leaves the library idle, and returns success only
  when its last query returned an installed CHILD SA of that name.\<close>

theorem WaitIpsecChildInstalled_reports:
  assumes "idle w" and "WaitIpsecChildInstalled mem n t w = (w', e)"
  shows "idle w' \<and> (e = IPSEC_OK \<longrightarrow> (\<exists>name v l. n = Some name \<and> idle v \<and>
     GetIpsecChildSas mem v = ((l, w'), IPSEC_OK) \<and> child_installed (item_text n) l))"
  by (rule WaitIpsecChildInstalled_props [OF assms])

theorem WaitIpsecChildInstalled_reports_witness:
  "idle (fst (WaitIpsecChildInstalled (\<lambda>_. True) (Some ''net'') 1000 version_world))"
proof -
  obtain w' e where r: "WaitIpsecChildInstalled (\<lambda>_. True) (Some ''net'') 1000 version_world = (w', e)"
    by fastforce
  show ?thesis using WaitIpsecChildInstalled_reports [OF version_world_idle r] by (simp add: r)
qed

end
