(* ===== verification/AppCommand.thy ===== *)
theory AppCommand
  imports Util
begin

section \<open>Command lines of the application (\<open>app/command.c\<close>)\<close>

text \<open>
  The command line is split in place: \<open>pcRead\<close> and \<open>pcWrite\<close> are offsets into the buffer
  \<open>pcLine\<close>, and the arguments are offsets too, so that a write that overtakes the reader or
  an argument already stored would show.  The specification \<open>split_args\<close> works on the
  string and knows nothing of the buffer.
\<close>

definition char_at :: "cbuf \<Rightarrow> nat \<Rightarrow> char" where
  "char_at line i = (if i < length line then line ! i else NUL)"

definition skip_spaces :: "cbuf \<Rightarrow> nat \<Rightarrow> nat" where
  "skip_spaces line rd = rd + length (takeWhile isspace (drop rd line))"

text \<open>The inner loop: one argument.  The quote is \<open>NUL\<close> outside quotes.\<close>

function token_loop :: "cbuf \<Rightarrow> nat \<Rightarrow> nat \<Rightarrow> char \<Rightarrow> cbuf \<times> nat \<times> nat \<times> char" where
  "token_loop line pcRead pcWrite cQuote =
     (let cValue = char_at line pcRead in
      if cValue = NUL then (line, pcRead, pcWrite, cQuote)
      else if cQuote \<noteq> NUL then
        (if cQuote = cValue then token_loop line (pcRead + 1) pcWrite NUL
         else if cValue = CHR 0x5C \<and> char_at line (pcRead + 1) \<noteq> NUL
         then token_loop (line[pcWrite := char_at line (pcRead + 1)]) (pcRead + 2) (pcWrite + 1) cQuote
         else token_loop (line[pcWrite := cValue]) (pcRead + 1) (pcWrite + 1) cQuote)
      else if cValue = CHR 0x27 \<or> cValue = CHR 0x22 then token_loop line (pcRead + 1) pcWrite cValue
      else if isspace cValue then (line, pcRead, pcWrite, cQuote)
      else if cValue = CHR 0x5C \<and> char_at line (pcRead + 1) \<noteq> NUL
      then token_loop (line[pcWrite := char_at line (pcRead + 1)]) (pcRead + 2) (pcWrite + 1) cQuote
      else token_loop (line[pcWrite := cValue]) (pcRead + 1) (pcWrite + 1) cQuote)"
  by pat_completeness auto
termination
  by (relation "measure (\<lambda>(line, rd, wr, q). length line - rd)") (auto simp: char_at_def split: if_splits)

declare token_loop.simps [simp del]

text \<open>The same with the quoted and the unquoted branches joined.\<close>

lemma token_loop_step:
  "token_loop line rd wr q =
     (let c = char_at line rd in
      if c = NUL then (line, rd, wr, q)
      else if q \<noteq> NUL \<and> q = c then token_loop line (rd + 1) wr NUL
      else if q = NUL \<and> (c = CHR 0x27 \<or> c = CHR 0x22) then token_loop line (rd + 1) wr c
      else if q = NUL \<and> isspace c then (line, rd, wr, q)
      else if c = CHR 0x5C \<and> char_at line (rd + 1) \<noteq> NUL
      then token_loop (line[wr := char_at line (rd + 1)]) (rd + 2) (wr + 1) q
      else token_loop (line[wr := c]) (rd + 1) (wr + 1) q)"
  by (subst token_loop.simps) (simp add: Let_def)

lemma token_loop_props:
  "length (fst (token_loop line rd wr q)) = length line \<and> rd \<le> fst (snd (token_loop line rd wr q))"
proof (induction "length line - rd" arbitrary: line rd wr q rule: less_induct)
  case less
  have "length (fst (token_loop l (rd + k) w p)) = length line \<and>
      rd \<le> fst (snd (token_loop l (rd + k) w p))"
    if "length l = length line" "char_at line rd \<noteq> NUL" "0 < k" for l k w p
  proof -
    have "rd < length line" using that(2) by (auto simp: char_at_def split: if_splits)
    then have "length l - (rd + k) < length line - rd" using that by simp
    from less [OF this, of w p] show ?thesis using that(1) by auto
  qed
  from this [of _ 1] this [of _ 2] show ?case by (subst (1 2) token_loop_step) (simp add: Let_def)
qed

lemma token_loop_advances:
  assumes "char_at line rd \<noteq> NUL" and "\<not> isspace (char_at line rd)"
  shows "rd < fst (snd (token_loop line rd wr NUL))"
proof -
  have "rd < fst (snd (token_loop l (rd + k) w p))" if "0 < k" for l k w p
    using token_loop_props [of l "rd + k" w p] that by simp
  from this [of 1] this [of 2] show ?thesis using assms
    by (subst token_loop_step) (simp add: Let_def)
qed

lemma skip_spaces_le: "rd \<le> skip_spaces line rd"
  by (simp add: skip_spaces_def)

lemma skip_spaces_stop: "\<not> isspace (char_at line (skip_spaces line rd))"
proof (cases "skip_spaces line rd < length line")
  case True
  then have "length (takeWhile isspace (drop rd line)) < length (drop rd line)"
    by (simp add: skip_spaces_def)
  from nth_length_takeWhile [OF this] show ?thesis
    using True by (simp add: char_at_def skip_spaces_def)
qed (simp add: char_at_def)

text \<open>The outer loop, with the arguments stored so far.\<close>

function command_loop :: "nat \<Rightarrow> cbuf \<Rightarrow> nat \<Rightarrow> nat \<Rightarrow> nat list \<Rightarrow> cbuf \<times> nat list \<times> bool" where
  "command_loop uiArgumentCapacity line pcRead pcWrite args =
     (let rd = skip_spaces line pcRead in
      if char_at line rd = NUL then (line, args, True)
      else if uiArgumentCapacity \<le> length args then (line, args, False)
      else
        let r = token_loop line rd pcWrite NUL;
            line' = fst r; rd' = fst (snd r); wr' = fst (snd (snd r)); cQuote = snd (snd (snd r))
        in if cQuote \<noteq> NUL then (line', args @ [pcWrite], False)
           else command_loop uiArgumentCapacity (line'[wr' := NUL]) (skip_spaces line' rd') (wr' + 1)
                  (args @ [pcWrite]))"
  by pat_completeness auto
termination
proof (relation "measure (\<lambda>(cap, line, rd, wr, args). length line - rd)", goal_cases)
  case 1
  then show ?case by simp
next
  case (2 cap line rd wr args rd1 r line' rd' wr' q)
  have stop: "char_at line rd1 \<noteq> NUL" "\<not> isspace (char_at line rd1)"
    using 2 skip_spaces_stop by simp_all
  have p: "rd1 < rd'" "length line' = length line"
    using token_loop_advances [OF stop, of wr] token_loop_props [of line rd1 wr NUL] 2(4-6) by simp_all
  have "rd1 < length line" using stop(1) by (auto simp: char_at_def split: if_splits)
  moreover have "rd \<le> rd1" using 2(1) skip_spaces_le by simp
  ultimately show ?case using p skip_spaces_le [of rd' line'] by simp
qed

declare command_loop.simps [simp del]

text \<open>The buffer afterwards, the offsets stored, the count and the result.  A NULL line or count
  pointer is the caller's error; both callers pass arrays.\<close>

definition ParseNativeAppCommandLine ::
  "cbuf option \<Rightarrow> nat \<Rightarrow> (cbuf option \<times> nat list) \<times> nat \<times> bool" where
  "ParseNativeAppCommandLine pcLine uiArgumentCapacity =
     (case pcLine of
        None \<Rightarrow> ((None, []), 0, False)
      | Some line \<Rightarrow>
          if uiArgumentCapacity = 0 then ((Some line, []), 0, False)
          else
            let (line', args, bParsed) = command_loop uiArgumentCapacity line 0 0 []
            in ((Some line', args), if bParsed then length args else 0, bParsed))"

subsection \<open>The specification\<close>

text \<open>One argument: its text, the rest of the line and the quote still open (or \<open>NUL\<close>).\<close>

fun scan_token :: "char \<Rightarrow> string \<Rightarrow> string \<times> string \<times> char" where
  "scan_token q [] = ([], [], q)"
| "scan_token q (c # cs) =
     (if q \<noteq> NUL \<and> q = c then scan_token NUL cs
      else if q = NUL \<and> (c = CHR 0x27 \<or> c = CHR 0x22) then scan_token c cs
      else if q = NUL \<and> isspace c then ([], c # cs, q)
      else case cs of
          [] \<Rightarrow> ([c], [], q)
        | d # ds \<Rightarrow>
            if c = CHR 0x5C then (let (t, r) = scan_token q ds in (d # t, r))
            else (let (t, r) = scan_token q cs in (c # t, r)))"

declare scan_token.simps(2) [simp del]

lemma scan_token_eq:
  "scan_token q (c # cs) =
     (if q \<noteq> NUL \<and> q = c then scan_token NUL cs
      else if q = NUL \<and> (c = CHR 0x27 \<or> c = CHR 0x22) then scan_token c cs
      else if q = NUL \<and> isspace c then ([], c # cs, q)
      else case cs of
          [] \<Rightarrow> ([c], [], q)
        | d # ds \<Rightarrow>
            if c = CHR 0x5C then (d # fst (scan_token q ds), snd (scan_token q ds))
            else (c # fst (scan_token q cs), snd (scan_token q cs)))"
  by (simp only: scan_token.simps Let_def case_prod_beta prod.collapse)

text \<open>The cases of the scanner, for proofs by induction.\<close>

lemma scan_token_cases:
  obtains (close_quote) "q \<noteq> NUL" "q = c" "scan_token q (c # cs) = scan_token NUL cs"
  | (begin_quote) "q = NUL" "c = CHR 0x27 \<or> c = CHR 0x22" "scan_token q (c # cs) = scan_token c cs"
  | (stop) "q = NUL" "c \<noteq> CHR 0x27" "c \<noteq> CHR 0x22" "isspace c" "scan_token q (c # cs) = ([], c # cs, q)"
  | (last) "\<not> (q \<noteq> NUL \<and> q = c)" "\<not> (q = NUL \<and> (c = CHR 0x27 \<or> c = CHR 0x22))"
      "\<not> (q = NUL \<and> isspace c)" "cs = []" "scan_token q (c # cs) = ([c], [], q)"
  | (escape) d ds where "\<not> (q \<noteq> NUL \<and> q = c)" "\<not> (q = NUL \<and> (c = CHR 0x27 \<or> c = CHR 0x22))"
      "\<not> (q = NUL \<and> isspace c)" "c = CHR 0x5C" "cs = d # ds"
      "scan_token q (c # cs) = (d # fst (scan_token q ds), snd (scan_token q ds))"
  | (plain) "\<not> (q \<noteq> NUL \<and> q = c)" "\<not> (q = NUL \<and> (c = CHR 0x27 \<or> c = CHR 0x22))"
      "\<not> (q = NUL \<and> isspace c)" "cs \<noteq> []" "c \<noteq> CHR 0x5C"
      "scan_token q (c # cs) = (c # fst (scan_token q cs), snd (scan_token q cs))"
proof -
  note e = scan_token_eq [of q c cs]
  consider "q \<noteq> NUL \<and> q = c" | "q = NUL \<and> (c = CHR 0x27 \<or> c = CHR 0x22)"
    | "\<not> (q \<noteq> NUL \<and> q = c)" "\<not> (q = NUL \<and> (c = CHR 0x27 \<or> c = CHR 0x22))" "q = NUL \<and> isspace c"
    | "\<not> (q \<noteq> NUL \<and> q = c)" "\<not> (q = NUL \<and> (c = CHR 0x27 \<or> c = CHR 0x22))" "\<not> (q = NUL \<and> isspace c)"
    by blast
  then show thesis
  proof cases
    case 1
    show ?thesis by (rule close_quote [OF conjunct1 [OF 1] conjunct2 [OF 1] e [unfolded if_P [OF 1]]])
  next
    case 2
    then show ?thesis using begin_quote e by (simp only: if_True if_False simp_thms)
  next
    case 3
    then show ?thesis using stop e by (simp only: if_True if_False simp_thms de_Morgan_disj)
  next
    case 4
    show ?thesis
    proof (cases cs)
      case Nil
      then show ?thesis using last [OF 4] e 4 by simp
    next
      case (Cons d ds)
      have f: "scan_token q (c # cs) =
          (if c = CHR 0x5C then (d # fst (scan_token q ds), snd (scan_token q ds))
           else (c # fst (scan_token q cs), snd (scan_token q cs)))"
        unfolding e using 4 Cons by (simp only: if_False list.case simp_thms)
      show ?thesis
      proof (cases "c = CHR 0x5C")
        case True
        with f show ?thesis using escape [OF 4 True Cons] by simp
      next
        case False
        with f show ?thesis using plain [OF 4] Cons by simp
      qed
    qed
  qed
qed

lemma scan_token_length: "length (fst (snd (scan_token q s))) \<le> length s"
proof (induction s arbitrary: q rule: length_induct)
  case (1 s)
  show ?case
  proof (cases s)
    case (Cons c cs)
    have ih: "length (fst (snd (scan_token p r))) \<le> length r" if "length r < length s" for p r
      using 1 that by blast
    show ?thesis
      unfolding Cons
      by (cases rule: scan_token_cases [of q c cs]) (use ih Cons in \<open>fastforce simp: le_SucI\<close>)+
  qed simp
qed

lemma scan_token_no_NUL:
  "NUL \<notin> set s \<Longrightarrow> NUL \<notin> set (fst (scan_token q s)) \<and> NUL \<notin> set (fst (snd (scan_token q s)))"
proof (induction s arbitrary: q rule: length_induct)
  case (1 s)
  show ?case
  proof (cases s)
    case (Cons c cs)
    have ih: "NUL \<notin> set (fst (scan_token p r)) \<and> NUL \<notin> set (fst (snd (scan_token p r)))"
      if "length r < length s" "NUL \<notin> set r" for p r
      using 1 that by blast
    show ?thesis
      unfolding Cons
      by (cases rule: scan_token_cases [of q c cs]) (use ih 1(2) Cons in auto)
  qed simp
qed

function split_args :: "nat \<Rightarrow> string \<Rightarrow> string list option" where
  "split_args cap s =
     (let s1 = dropWhile isspace s in
      if s1 = [] then Some []
      else if cap = 0 then None
      else let (t, r, q) = scan_token NUL s1 in
           if q \<noteq> NUL then None else map_option (\<lambda>ts. t # ts) (split_args (cap - 1) r))"
  by pat_completeness auto
termination
  by (relation "measure fst") auto

declare split_args.simps [simp del]

subsection \<open>The buffer holds the arguments\<close>

lemma char_at_parts:
  "char_at (pre @ mid @ c # cs) (length pre + length mid) = c"
  "char_at (pre @ mid @ c # d # cs) (Suc (length pre + length mid)) = d"
  by (simp_all add: char_at_def nth_append)

lemma write_part:
  "(pre @ mid @ c # s)[length pre := x] = (pre @ [x]) @ tl (mid @ [c]) @ s"
  by (cases mid) (simp_all add: list_update_append)

text \<open>The inner loop writes the text of the argument at the write position, between the part
  already written and what is left to read, and leaves the rest of the line alone.\<close>

lemma token_loop_scan:
  assumes "NUL \<notin> set s"
  shows "\<exists>mid'. token_loop (pre @ mid @ s @ NUL # post) (length pre + length mid) (length pre) q =
     (pre @ fst (scan_token q s) @ mid' @ fst (snd (scan_token q s)) @ NUL # post,
      length pre + length (fst (scan_token q s)) + length mid',
      length pre + length (fst (scan_token q s)), snd (snd (scan_token q s)))"
  using assms
proof (induction s arbitrary: q pre mid rule: length_induct)
  case (1 s)
  show ?case
  proof (cases s)
    case Nil
    then show ?thesis
      by (intro exI [of _ mid]) (subst token_loop_step, simp add: char_at_parts Let_def)
  next
    case (Cons c cs)
    let ?line = "pre @ mid @ (c # cs) @ NUL # post" and ?rd = "length pre + length mid"
    have c: "c \<noteq> NUL" "NUL \<notin> set cs" using 1(2) Cons by auto
    have at: "char_at ?line ?rd = c" by (simp add: char_at_parts)
    have step: "token_loop ?line ?rd (length pre) q =
       (if q \<noteq> NUL \<and> q = c then token_loop ?line (?rd + 1) (length pre) NUL
        else if q = NUL \<and> (c = CHR 0x27 \<or> c = CHR 0x22) then token_loop ?line (?rd + 1) (length pre) c
        else if q = NUL \<and> isspace c then (?line, ?rd, length pre, q)
        else if c = CHR 0x5C \<and> char_at ?line (?rd + 1) \<noteq> NUL
        then token_loop (?line[length pre := char_at ?line (?rd + 1)]) (?rd + 2) (length pre + 1) q
        else token_loop (?line[length pre := c]) (?rd + 1) (length pre + 1) q)"
      using c(1) by (subst token_loop_step) (simp only: at Let_def if_False)
    have ih: "\<exists>mid'. token_loop (pre' @ mid @ r @ NUL # post) (length pre' + length mid) (length pre') p =
        (pre' @ fst (scan_token p r) @ mid' @ fst (snd (scan_token p r)) @ NUL # post,
         length pre' + length (fst (scan_token p r)) + length mid',
         length pre' + length (fst (scan_token p r)), snd (snd (scan_token p r)))"
      if "length r < length s" "NUL \<notin> set r" for r p pre' mid
      using 1(1) that by blast
    have skip: "\<exists>mid'. token_loop ?line (?rd + 1) (length pre) p =
        (pre @ fst (scan_token p cs) @ mid' @ fst (snd (scan_token p cs)) @ NUL # post,
         length pre + length (fst (scan_token p cs)) + length mid',
         length pre + length (fst (scan_token p cs)), snd (snd (scan_token p cs)))" for p
      using ih [of cs pre "mid @ [c]" p] c Cons by simp
    have put: "\<exists>mid'. token_loop (?line[length pre := c]) (?rd + 1) (length pre + 1) p =
        (pre @ (c # fst (scan_token p cs)) @ mid' @ fst (snd (scan_token p cs)) @ NUL # post,
         length pre + length (c # fst (scan_token p cs)) + length mid',
         length pre + length (c # fst (scan_token p cs)), snd (snd (scan_token p cs)))" for p
      using ih [of cs "pre @ [c]" "tl (mid @ [c])" p] c Cons by (simp add: write_part)
    show ?thesis
    proof (cases rule: scan_token_cases [of q c cs])
      case close_quote
      then show ?thesis using skip [of NUL] step c by (simp add: Cons)
    next
      case begin_quote
      then show ?thesis using skip [of c] step c by (auto simp: Cons)
    next
      case stop
      then show ?thesis using step c by (intro exI [of _ mid]) (auto simp: Cons)
    next
      case last
      then show ?thesis using put [of q] step c by (auto simp: Cons char_at_parts)
    next
      case (escape d ds)
      have "\<exists>mid'. token_loop (?line[length pre := d]) (?rd + 2) (length pre + 1) q =
        (pre @ (d # fst (scan_token q ds)) @ mid' @ fst (snd (scan_token q ds)) @ NUL # post,
         length pre + length (d # fst (scan_token q ds)) + length mid',
         length pre + length (d # fst (scan_token q ds)), snd (snd (scan_token q ds)))"
        using ih [of ds "pre @ [d]" "tl (mid @ [c]) @ [d]" q] c Cons escape
        by (simp add: write_part)
      then show ?thesis using escape step c by (auto simp: Cons char_at_parts)
    next
      case plain
      then show ?thesis using put [of q] step c by (auto simp: Cons)
    qed
  qed
qed

text \<open>The scan stops at the end or at a space.\<close>

lemma scan_token_stop: "fst (snd (scan_token q s)) \<noteq> [] \<Longrightarrow> isspace (hd (fst (snd (scan_token q s))))"
proof (induction s arbitrary: q rule: length_induct)
  case (1 s)
  show ?case
  proof (cases s)
    case Nil
    then show ?thesis using 1(2) by simp
  next
    case (Cons c cs)
    have ih: "fst (snd (scan_token p r)) \<noteq> [] \<Longrightarrow> isspace (hd (fst (snd (scan_token p r))))"
      if "length r < length s" for p r
      using 1(1) that by blast
    show ?thesis
      using 1(2) unfolding Cons
      by (cases rule: scan_token_cases [of q c cs]) (use ih Cons in auto)
  qed
qed

definition packed :: "string list \<Rightarrow> cbuf" where
  "packed ts = concat (map (\<lambda>t. t @ [NUL]) ts)"

fun offsets :: "nat \<Rightarrow> string list \<Rightarrow> nat list" where
  "offsets n [] = []"
| "offsets n (t # ts) = n # offsets (n + length t + 1) ts"

lemma offsets_packed:
  "\<forall>t \<in> set ts. NUL \<notin> set t \<Longrightarrow>
   map (\<lambda>a. cstr (drop a (pre @ packed ts @ post))) (offsets (length pre) ts) = ts"
proof (induction ts arbitrary: pre)
  case (Cons t ts)
  from Cons.IH [of "pre @ t @ [NUL]"] Cons.prems show ?case
    by (simp add: packed_def cstr_append_NUL cstr_id)
qed simp

lemma length_offsets [simp]: "length (offsets n ts) = length ts"
  by (induction ts arbitrary: n) simp_all

lemma skip_spaces_part:
  "skip_spaces (pre @ s @ NUL # post) (length pre) = length pre + length (takeWhile isspace s)"
  by (auto simp: skip_spaces_def takeWhile_append takeWhile_eq_all_conv [THEN iffD2])

lemma split_args_spaces: "split_args n (dropWhile isspace s) = split_args n s"
  by (subst (1 2) split_args.simps) (simp add: Let_def)

text \<open>Writing the terminating \<open>NUL\<close> never reaches what is still to be read, except when it replaces
  the \<open>NUL\<close> of the line itself, and then there is nothing left to read.\<close>

lemma command_loop_split:
  assumes "NUL \<notin> set s" and "command_loop cap (pre @ mid @ s @ NUL # post) (length pre + length mid)
      (length pre) args = (line', args', ok)"
  shows "case split_args (cap - length args) s of
       Some ts \<Rightarrow> ok \<and> args' = args @ offsets (length pre) ts \<and> (\<exists>rest. line' = pre @ packed ts @ rest)
     | None \<Rightarrow> \<not> ok"
  using assms
proof (induction "cap - length args" arbitrary: s pre mid args rule: less_induct)
  case less
  define sp s1 where "sp = takeWhile isspace s" and "s1 = dropWhile isspace s"
  have s: "s = sp @ s1" by (simp add: sp_def s1_def)
  let ?line = "pre @ mid @ s @ NUL # post"
  have rd: "skip_spaces ?line (length pre + length mid) = length pre + length (mid @ sp)"
    using skip_spaces_part [of "pre @ mid" s post] by (simp add: sp_def)
  have at: "char_at ?line (length pre + length (mid @ sp)) = (if s1 = [] then NUL else hd s1)"
    by (cases s1) (simp_all add: s char_at_def nth_append)
  have nul: "NUL \<notin> set s1" using less.prems(1) by (simp add: s)
  show ?case
  proof (cases "s1 = [] \<or> cap \<le> length args")
    case True
    have end1: "char_at ?line (length pre + length (mid @ sp)) = NUL \<longleftrightarrow> s1 = []"
      using at nul by (cases s1) auto
    have "(line', args', ok) = (if s1 = [] then (?line, args, True) else (?line, args, False))"
      using less.prems(2) True end1
      by (subst (asm) command_loop.simps) (auto simp: rd Let_def)
    then show ?thesis using True
      by (subst split_args.simps) (auto simp: s1_def [symmetric] packed_def)
  next
    case False
    obtain t r q where sc: "scan_token NUL s1 = (t, r, q)" by (metis prod.exhaust)
    obtain mid' where tok: "token_loop ?line (length pre + length (mid @ sp)) (length pre) NUL =
        (pre @ t @ mid' @ r @ NUL # post, length pre + length t + length mid', length pre + length t, q)"
      using token_loop_scan [OF nul, of pre "mid @ sp" post NUL] sc by (auto simp: s)
    have start: "char_at ?line (length pre + length (mid @ sp)) \<noteq> NUL"
      using at nul False by (cases s1) auto
    have loop: "command_loop cap ?line (length pre + length mid) (length pre) args =
        (if q \<noteq> NUL then (pre @ t @ mid' @ r @ NUL # post, args @ [length pre], False)
         else command_loop cap ((pre @ t @ mid' @ r @ NUL # post)[length pre + length t := NUL])
           (skip_spaces (pre @ t @ mid' @ r @ NUL # post) (length pre + length t + length mid'))
           (length pre + length t + 1) (args @ [length pre]))"
      using start False tok by (subst command_loop.simps) (simp add: rd Let_def)
    have spec: "split_args (cap - length args) s =
        (if q \<noteq> NUL then None
         else map_option (\<lambda>ts. t # ts) (split_args (cap - length (args @ [length pre])) r))"
      using False sc by (subst split_args.simps) (simp add: s1_def [symmetric] Let_def)
    show ?thesis
    proof (cases "q = NUL")
      case q: False
      then show ?thesis using loop spec less.prems(2) by simp
    next
      case q: True
      define sp2 r2 where "sp2 = takeWhile isspace r" and "r2 = dropWhile isspace r"
      have r: "r = sp2 @ r2" by (simp add: sp2_def r2_def)
      have nr: "NUL \<notin> set r2" using scan_token_no_NUL [OF nul, of NUL] sc r by simp
      have rd2: "skip_spaces (pre @ t @ mid' @ r @ NUL # post) (length pre + length t + length mid') =
          length pre + length t + length (mid' @ sp2)"
        using skip_spaces_part [of "pre @ t @ mid'" r post] by (simp add: sp2_def add.assoc)
      have dec: "cap - length (args @ [length pre]) < cap - length args" using False by auto
      have run: "command_loop cap ((pre @ t @ mid' @ r @ NUL # post)[length pre + length t := NUL])
           (length pre + length t + length (mid' @ sp2)) (length pre + length t + 1) (args @ [length pre]) =
           (line', args', ok)"
        using loop q less.prems(2) rd2 by simp
      show ?thesis
      proof (cases "mid' @ sp2")
        case Nil
        have "r = []"
        proof (rule ccontr)
          assume "r \<noteq> []"
          then have "isspace (hd r)" using scan_token_stop [of NUL s1] sc by simp
          then show False using Nil \<open>r \<noteq> []\<close> by (cases r) (auto simp: sp2_def)
        qed
        then have "(line', args', ok) = (pre @ t @ NUL # post, args @ [length pre], True)"
          using run Nil
          by (subst (asm) command_loop.simps)
            (simp add: Let_def list_update_append skip_spaces_def char_at_def nth_append)
        moreover have "split_args n [] = Some []" for n by (subst split_args.simps) simp
        ultimately show ?thesis using spec q \<open>r = []\<close> by (simp add: packed_def)
      next
        case (Cons m ms)
        let ?pre = "pre @ t @ [NUL]"
        have upd: "(pre @ t @ mid' @ r @ NUL # post)[length pre + length t := NUL] =
            ?pre @ ms @ r2 @ NUL # post"
        proof -
          have eq: "pre @ t @ mid' @ r @ NUL # post = (pre @ t) @ (m # ms) @ r2 @ NUL # post"
            unfolding r Cons [symmetric] by simp
          show ?thesis unfolding eq by (simp add: list_update_append)
        qed
        have "command_loop cap (?pre @ ms @ r2 @ NUL # post) (length ?pre + length ms) (length ?pre)
            (args @ [length pre]) = (line', args', ok)"
          using run upd Cons by simp
        from less.hyps [OF dec nr this] show ?thesis
          using spec q split_args_spaces [of _ r]
          by (auto simp: r2_def packed_def split: option.splits)
      qed
    qed
  qed
qed

lemma split_args_no_NUL: "NUL \<notin> set s \<Longrightarrow> split_args n s = Some ts \<Longrightarrow> \<forall>t \<in> set ts. NUL \<notin> set t"
proof (induction n s arbitrary: ts rule: split_args.induct)
  case (1 cap s)
  obtain t r q where sc: "scan_token NUL (dropWhile isspace s) = (t, r, q)" by (metis prod.exhaust)
  have "NUL \<notin> set (dropWhile isspace s)" using 1(2) set_dropWhileD by metis
  then have "NUL \<notin> set t" "NUL \<notin> set r" using scan_token_no_NUL [of "dropWhile isspace s" NUL] sc by simp_all
  then show ?case
    using 1(3) 1(1) [OF refl _ _ sc [symmetric] refl refl] 
    by (subst (asm) split_args.simps) (auto simp: sc split: if_splits)
qed

subsection \<open>Quoting\<close>

definition escape_text :: "string \<Rightarrow> string" where
  "escape_text t = concat (map (\<lambda>c. if c = CHR 0x22 \<or> c = CHR 0x5C then [CHR 0x5C, c] else [c]) t)"

definition quote_arg :: "string \<Rightarrow> string" where
  "quote_arg t = CHR 0x22 # escape_text t @ [CHR 0x22]"

definition command_text :: "string list \<Rightarrow> string" where
  "command_text ts = concat (map (\<lambda>t. quote_arg t @ '' '') ts)"

lemma scan_escaped:
  "scan_token (CHR 0x22) (escape_text t @ CHR 0x22 # CHR '' '' # s) = (t, CHR '' '' # s, NUL)"
proof (induction t)
  case Nil
  then show ?case by (simp add: escape_text_def scan_token.simps isspace_def)
next
  case (Cons c t)
  let ?rest = "escape_text t @ CHR 0x22 # CHR '' '' # s"
  show ?case
  proof (cases "c = CHR 0x22 \<or> c = CHR 0x5C")
    case True
    then have "escape_text (c # t) @ CHR 0x22 # CHR '' '' # s = CHR 0x5C # c # ?rest"
      by (auto simp: escape_text_def)
    then show ?thesis using Cons by (simp add: scan_token_eq [of _ "CHR 0x5C"])
  next
    case False
    then have "escape_text (c # t) @ CHR 0x22 # CHR '' '' # s = c # ?rest"
      by (simp add: escape_text_def)
    moreover obtain x xs where "?rest = x # xs" by (cases ?rest) simp_all
    ultimately show ?thesis using Cons False by (auto simp: scan_token_eq [of _ c])
  qed
qed

lemma split_quoted:
  "length ts \<le> cap \<Longrightarrow> split_args cap (command_text ts) = Some ts"
proof (induction ts arbitrary: cap)
  case Nil
  then show ?case by (subst split_args.simps) (simp add: command_text_def)
next
  case (Cons t ts)
  let ?s = "escape_text t @ CHR 0x22 # CHR '' '' # command_text ts"
  have s: "command_text (t # ts) = CHR 0x22 # ?s" by (simp add: command_text_def quote_arg_def)
  have nosp: "\<not> isspace (CHR 0x22)" by (simp add: isspace_def)
  have sc: "scan_token NUL (CHR 0x22 # ?s) = (t, CHR '' '' # command_text ts, NUL)"
    using scan_escaped [of t "command_text ts"] by (simp add: scan_token_eq)
  have sp: "split_args n (CHR '' '' # u) = split_args n u" for n u
  proof -
    have "dropWhile isspace (CHR '' '' # u) = dropWhile isspace u" by (simp add: isspace_def)
    then show ?thesis by (metis split_args_spaces)
  qed
  show ?case
    unfolding s using Cons nosp
    by (subst split_args.simps) (simp add: sc sp Let_def)
qed

lemma command_text_no_NUL: "\<forall>t \<in> set ts. NUL \<notin> set t \<Longrightarrow> NUL \<notin> set (command_text ts)"
  by (auto simp: command_text_def quote_arg_def escape_text_def split: if_splits)

subsection \<open>Numbers and options\<close>

definition ParseNativeAppNumber :: "string option \<Rightarrow> nat option" where
  "ParseNativeAppNumber pcText =
     (case pcText of
        None \<Rightarrow> None
      | Some text \<Rightarrow>
          let (ullValue, rest, overflow) = strtoull (cstr text) 10
          in if overflow \<or> rest = cstr text \<or> rest \<noteq> [] \<or> UINT32_MAX < ullValue then None
             else Some (u32 ullValue))"

record NativeAppShowOptions =
  so_pcScope :: string
  so_pcName :: "string option"
  so_bDetail :: bool

definition IsNativeAppNamedShowScope :: "string \<Rightarrow> bool" where
  "IsNativeAppNamedShowScope pcScope \<longleftrightarrow>
     strcmp_eq ''connections'' pcScope \<or> strcmp_eq ''ike'' pcScope \<or> strcmp_eq ''child'' pcScope"

definition IsNativeAppDetailedShowScope :: "string \<Rightarrow> bool" where
  "IsNativeAppDetailedShowScope pcScope \<longleftrightarrow>
     IsNativeAppNamedShowScope pcScope \<or> strcmp_eq ''all'' pcScope \<or> strcmp_eq ''summary'' pcScope"

text \<open>The argument vector is the list of its strings.\<close>

definition ParseNativeAppShowOptions :: "string list option \<Rightarrow> NativeAppShowOptions option" where
  "ParseNativeAppShowOptions ppcArguments =
     (case ppcArguments of
        None \<Rightarrow> None
      | Some args \<Rightarrow>
          let uiArgumentCount = length args in
          if uiArgumentCount = 0 \<or> 4 < uiArgumentCount then None
          else
            let opts = \<lparr>so_pcScope = if 2 \<le> uiArgumentCount then args ! 1 else ''summary'',
                        so_pcName = None, so_bDetail = False\<rparr>;
                (opts, bParsed) =
                  (if 3 \<le> uiArgumentCount \<and> strcmp_eq ''detail'' (args ! 2)
                   then (opts\<lparr>so_bDetail := True,
                              so_pcName := if uiArgumentCount = 4 then Some (args ! 3) else None\<rparr>, True)
                   else if uiArgumentCount = 3 then (opts\<lparr>so_pcName := Some (args ! 2)\<rparr>, True)
                   else if 3 < uiArgumentCount then (opts, False)
                   else (opts, True))
            in if bParsed \<and> so_bDetail opts \<and> \<not> IsNativeAppDetailedShowScope (so_pcScope opts) then None
               else if bParsed \<and> so_pcName opts \<noteq> None \<and> \<not> IsNativeAppNamedShowScope (so_pcScope opts)
               then None
               else if bParsed then Some opts else None)"

lemma cstr_split: "NUL \<in> set line \<Longrightarrow> \<exists>post. line = cstr line @ NUL # post"
proof (induction line)
  case (Cons c line)
  then show ?case by (cases "c = NUL") (auto simp: cstr_Cons)
qed simp

lemma command_line_split:
  assumes "0 < cap" and "NUL \<in> set line"
    and "ParseNativeAppCommandLine (Some line) cap = ((line', args), n, ok)"
  shows "case split_args cap (cstr line) of
       Some ts \<Rightarrow> ok \<and> n = length ts \<and> (\<exists>l. line' = Some l \<and> map (\<lambda>a. cstr (drop a l)) args = ts)
     | None \<Rightarrow> \<not> ok \<and> n = 0"
proof -
  obtain post where line: "line = cstr line @ NUL # post"
    using assms(2) cstr_split by blast
  obtain l as b where run: "command_loop cap line 0 0 [] = (l, as, b)" by (metis prod.exhaust)
  have nul: "NUL \<notin> set (cstr line)" by (rule cstr_no_NUL)
  have "command_loop cap ([] @ [] @ cstr line @ NUL # post) (length ([] :: cbuf) + length ([] :: cbuf))
      (length ([] :: cbuf)) [] = (l, as, b)"
    using run line by simp
  note split = command_loop_split [OF nul this]
  have res: "line' = Some l" "args = as" "n = (if b then length as else 0)" "ok = b"
    using assms(1,3) run by (auto simp: ParseNativeAppCommandLine_def)
  show ?thesis
  proof (cases "split_args cap (cstr line)")
    case None
    then show ?thesis using split res by simp
  next
    case (Some ts)
    then obtain rest where "b" "as = offsets 0 ts" "l = packed ts @ rest" using split by auto
    then show ?thesis using res Some offsets_packed [of ts "[]" rest] split_args_no_NUL [OF nul Some]
      by simp
  qed
qed

subsection \<open>Properties\<close>

text \<open>C14: Splitting a command line in place gives the arguments of its specification: whatever is
  written while the line is still being read, the offsets stored name exactly the split
  arguments in the final buffer, and the split fails exactly for an open quote or too many
  arguments.\<close>

theorem ParseNativeAppCommandLine_split:
  assumes "0 < cap" and "NUL \<in> set line"
    and "ParseNativeAppCommandLine (Some line) cap = ((line', args), n, ok)"
  shows "case split_args cap (cstr line) of
       Some ts \<Rightarrow> ok \<and> n = length ts \<and> (\<exists>l. line' = Some l \<and> map (\<lambda>a. cstr (drop a l)) args = ts)
     | None \<Rightarrow> \<not> ok \<and> n = 0"
  by (rule command_line_split [OF assms])

definition sample_line :: cbuf where
  "sample_line = ''show '' @ [CHR 0x22] @ ''a b'' @ [CHR 0x22, NUL]"

theorem ParseNativeAppCommandLine_split_witness:
  "let ((line', args), n, ok) = ParseNativeAppCommandLine (Some sample_line) 4
   in ok \<and> n = 2 \<and> (\<exists>l. line' = Some l \<and> map (\<lambda>a. cstr (drop a l)) args = [''show'', ''a b''])"
proof -
  obtain line' args n ok where r: "ParseNativeAppCommandLine (Some sample_line) 4 = ((line', args), n, ok)"
    by (metis prod.exhaust)
  have s: "split_args 4 (cstr sample_line) = Some [''show'', ''a b'']" by code_simp
  have nul: "NUL \<in> set sample_line" by (simp add: sample_line_def)
  show ?thesis using ParseNativeAppCommandLine_split [OF _ nul r] s by (simp add: r)
qed

text \<open>Any list of arguments can be passed: quoted and separated by spaces, they are split back
  into themselves.\<close>

theorem ParseNativeAppCommandLine_quoted:
  assumes "\<forall>t \<in> set ts. NUL \<notin> set t" and "length ts \<le> cap" and "0 < cap"
    and "ParseNativeAppCommandLine (Some (command_text ts @ [NUL])) cap = ((Some l, args), n, ok)"
  shows "ok \<and> n = length ts \<and> map (\<lambda>a. cstr (drop a l)) args = ts"
proof -
  have c: "cstr (command_text ts @ [NUL]) = command_text ts"
    using command_text_no_NUL [OF assms(1)] by (simp add: cstr_append_NUL cstr_id)
  show ?thesis
    using command_line_split [OF assms(3) _ assms(4)] split_quoted [OF assms(2)] c by simp
qed

theorem ParseNativeAppCommandLine_quoted_witness:
  "let ((l, args), n, ok) = ParseNativeAppCommandLine (Some (command_text [''psk'', ''my file'', []] @ [NUL])) 8
   in ok \<and> n = 3"
proof -
  let ?ts = "[''psk'', ''my file'', []]"
  have "\<exists>l args n ok. ParseNativeAppCommandLine (Some (command_text ?ts @ [NUL])) 8 = ((Some l, args), n, ok)"
    by (simp add: ParseNativeAppCommandLine_def split: prod.split)
  then obtain l args n ok where
    r: "ParseNativeAppCommandLine (Some (command_text ?ts @ [NUL])) 8 = ((Some l, args), n, ok)" by blast
  have nul: "\<forall>t \<in> set ?ts. NUL \<notin> set t" by simp
  show ?thesis using ParseNativeAppCommandLine_quoted [OF nul _ _ r] by (simp add: r)
qed

end
