(* ===== verification/AppConfig.thy ===== *)
theory AppConfig
  imports ViciSa AppCommand Inet
begin

section \<open>Configuration of the application (\<open>app/config.c\<close>)\<close>

text \<open>
  The settings files, the configuration they fill, its validation, and the connection
  configuration of the library that is built from it.  A mode that is not one of the
  enumeration (the code writes \<open>(IpsecMode_t)-1\<close>) is \<open>None\<close>.  The diagnostic text is the
  string the caller's buffer holds afterwards; its length \<open>uiErrorLength\<close> is 0 when the
  caller gives no buffer.

  A file is its bytes with a flag that reading past them reports an error.  \<open>fgets\<close> is
  that of the C library: at most \<open>n - 1\<close> bytes, up to and including the first newline.
\<close>

abbreviation NATIVE_APP_LINE_LENGTH :: nat where "NATIVE_APP_LINE_LENGTH \<equiv> 2048"
abbreviation NATIVE_APP_PATH_LENGTH :: nat where "NATIVE_APP_PATH_LENGTH \<equiv> 512"
abbreviation NATIVE_APP_PROPOSAL_TEXT_LENGTH :: nat where "NATIVE_APP_PROPOSAL_TEXT_LENGTH \<equiv> 1024"
abbreviation NATIVE_APP_PROPOSAL_COUNT :: nat where "NATIVE_APP_PROPOSAL_COUNT \<equiv> 32"
abbreviation NATIVE_APP_PSK_MAX_LENGTH :: nat where "NATIVE_APP_PSK_MAX_LENGTH \<equiv> 65535"
abbreviation NATIVE_APP_PEER_DEFAULT_PORT :: nat where "NATIVE_APP_PEER_DEFAULT_PORT \<equiv> 39002"
abbreviation newline :: char where "newline \<equiv> CHR 0x0A"

datatype NativeAppRole = NATIVE_APP_ROLE_INITIATOR | NATIVE_APP_ROLE_RESPONDER

record NativeAppConfig =
  nc_eRole :: NativeAppRole
  nc_acLocalAddress :: cbuf
  nc_acRemoteAddress :: cbuf
  nc_acLocalId :: cbuf
  nc_acRemoteId :: cbuf
  nc_acPskFile :: cbuf
  nc_acOutputRoot :: cbuf
  nc_acViciSocket :: cbuf
  nc_acConnectionName :: cbuf
  nc_acChildName :: cbuf
  nc_acCredentialId :: cbuf
  nc_acPeerServerAddress :: cbuf
  nc_acIkeProposals :: cbuf
  nc_acEspProposals :: cbuf
  nc_eMode :: "IpsecMode option"
  nc_bChildlessIke :: bool
  nc_bTerminateOnExit :: bool
  nc_uiTimeoutMs :: nat
  nc_uiPeerPort :: nat

subsection \<open>Texts\<close>

definition TrimNativeAppText :: "string \<Rightarrow> string" where
  "TrimNativeAppText pcText =
     rev (dropWhile isspace (rev (dropWhile isspace (cstr pcText))))"

definition SetNativeAppError :: "nat \<Rightarrow> string \<Rightarrow> string \<Rightarrow> string \<Rightarrow> string" where
  "SetNativeAppError uiErrorLength pcPrefix pcValue pcError =
     (if 0 < uiErrorLength then take (uiErrorLength - 1) (pcPrefix @ cstr pcValue) else pcError)"

definition CopyNativeAppText :: "cbuf \<Rightarrow> string \<Rightarrow> cbuf \<times> bool" where
  "CopyNativeAppText pcDestination pcSource =
     (let ulLength = strnlen pcSource (length pcDestination) in
      if length pcDestination \<le> ulLength then (pcDestination, False)
      else (buf_write pcDestination 0 (take ulLength pcSource @ [NUL]), True))"

definition ParseNativeAppBoolean :: "string \<Rightarrow> bool option" where
  "ParseNativeAppBoolean pcValue =
     (if strcmp_eq ''true'' pcValue \<or> strcmp_eq ''yes'' pcValue \<or> strcmp_eq ''1'' pcValue then Some True
      else if strcmp_eq ''false'' pcValue \<or> strcmp_eq ''no'' pcValue \<or> strcmp_eq ''0'' pcValue
      then Some False
      else None)"

definition ParseNativeAppUint32 :: "string \<Rightarrow> nat option" where
  "ParseNativeAppUint32 pcValue =
     (let (ullValue, pcEnd, overflow) = strtoull (cstr pcValue) 10
      in if overflow \<or> pcEnd = cstr pcValue \<or> pcEnd \<noteq> [] \<or> UINT32_MAX < ullValue then None
         else Some (u32 ullValue))"

definition ignored_v15_keys :: "string list" where
  "ignored_v15_keys =
     [''local_cidr'', ''interface'', ''interface_name'', ''service_name'',
      ''initiator_udp_bind_ip'', ''responder_udp_bind_ip'', ''udp_port'',
      ''matrix_control_port'', ''packet_count'', ''payload_size'', ''udp_size'',
      ''udp_interval_ms'', ''udp_start_delay_sec'', ''test_timeout_sec'',
      ''matrix_timeout_sec'', ''barrier_timeout_sec'', ''barrier_hold_ms'',
      ''capture_drain_ms'', ''capture_buffer_kib'', ''measurement_guard_ms'',
      ''capture_enabled'', ''capture_interface'', ''capture_all_traffic'',
      ''capture_filter'', ''tshark_display_filter'', ''manage_firewall'',
      ''configure_address'', ''cleanup_existing_sa'', ''capture_plaintext'',
      ''capture_xfrm_compare'']"

definition IsNativeAppIgnoredV15Key :: "string \<Rightarrow> bool" where
  "IsNativeAppIgnoredV15Key pcKey = list_ex (\<lambda>k. strcmp_eq k pcKey) ignored_v15_keys"

subsection \<open>One setting\<close>

definition copy_setting ::
  "(NativeAppConfig \<Rightarrow> cbuf) \<Rightarrow> ((cbuf \<Rightarrow> cbuf) \<Rightarrow> NativeAppConfig \<Rightarrow> NativeAppConfig) \<Rightarrow>
   string \<Rightarrow> NativeAppConfig \<Rightarrow> NativeAppConfig \<times> bool" where
  "copy_setting get upd pcValue c =
     (let (buf, bAccepted) = CopyNativeAppText (get c) pcValue in (upd (\<lambda>_. buf) c, bAccepted))"

definition vici_path :: "string \<Rightarrow> string option" where
  "vici_path pcValue =
     (if cstr pcValue = [] then Some ''/run/charon.vici''
      else if take 7 (cstr pcValue) = ''unix://'' then Some (drop 7 (cstr pcValue))
      else if hd pcValue = CHR ''/'' then Some (cstr pcValue)
      else None)"

text \<open>A number that is parsed but out of its range is stored all the same (\<open>peer_port\<close>).\<close>

definition apply_setting :: "string \<Rightarrow> string \<Rightarrow> NativeAppConfig \<Rightarrow> NativeAppConfig \<times> bool" where
  "apply_setting pcKey pcValue c =
     (let key = (\<lambda>k. strcmp_eq k pcKey); is_text = (\<lambda>t. strcmp_eq t pcValue) in
      if key ''role'' then
        (if is_text ''initiator'' then (c\<lparr>nc_eRole := NATIVE_APP_ROLE_INITIATOR\<rparr>, True)
         else if is_text ''responder'' then (c\<lparr>nc_eRole := NATIVE_APP_ROLE_RESPONDER\<rparr>, True)
         else (c, False))
      else if key ''local_ip'' then copy_setting nc_acLocalAddress nc_acLocalAddress_update pcValue c
      else if key ''remote_ip'' then copy_setting nc_acRemoteAddress nc_acRemoteAddress_update pcValue c
      else if key ''local_id'' then copy_setting nc_acLocalId nc_acLocalId_update pcValue c
      else if key ''remote_id'' then copy_setting nc_acRemoteId nc_acRemoteId_update pcValue c
      else if key ''psk_file'' then copy_setting nc_acPskFile nc_acPskFile_update pcValue c
      else if key ''output_root'' then
        (if cstr pcValue = [] then (c, False)
         else copy_setting nc_acOutputRoot nc_acOutputRoot_update pcValue c)
      else if key ''vici_uri'' then
        (case vici_path pcValue of
           None \<Rightarrow> (c, False)
         | Some pcPath \<Rightarrow> copy_setting nc_acViciSocket nc_acViciSocket_update pcPath c)
      else if key ''connection_name'' then
        copy_setting nc_acConnectionName nc_acConnectionName_update pcValue c
      else if key ''child_name'' then copy_setting nc_acChildName nc_acChildName_update pcValue c
      else if key ''credential_id'' then copy_setting nc_acCredentialId nc_acCredentialId_update pcValue c
      else if key ''peer_server_ip'' then
        copy_setting nc_acPeerServerAddress nc_acPeerServerAddress_update pcValue c
      else if key ''ike_proposals'' then copy_setting nc_acIkeProposals nc_acIkeProposals_update pcValue c
      else if key ''esp_proposals'' then copy_setting nc_acEspProposals nc_acEspProposals_update pcValue c
      else if key ''ipsec_mode'' then
        (if is_text ''tunnel'' then (c\<lparr>nc_eMode := Some IPSEC_MODE_TUNNEL\<rparr>, True)
         else if is_text ''transport'' then (c\<lparr>nc_eMode := Some IPSEC_MODE_TRANSPORT\<rparr>, True)
         else (c, False))
      else if key ''childless_ike'' then
        (case ParseNativeAppBoolean pcValue of
           None \<Rightarrow> (c, False) | Some b \<Rightarrow> (c\<lparr>nc_bChildlessIke := b\<rparr>, True))
      else if key ''terminate_on_exit'' then
        (case ParseNativeAppBoolean pcValue of
           None \<Rightarrow> (c, False) | Some b \<Rightarrow> (c\<lparr>nc_bTerminateOnExit := b\<rparr>, True))
      else if key ''command_timeout_sec'' \<or> key ''timeout_sec'' then
        (case ParseNativeAppUint32 pcValue of
           None \<Rightarrow> (c, False)
         | Some uiSeconds \<Rightarrow>
             if uiSeconds \<le> UINT32_MAX div 1000
             then (c\<lparr>nc_uiTimeoutMs := u32 (uiSeconds * 1000)\<rparr>, True) else (c, False))
      else if key ''peer_port'' then
        (case ParseNativeAppUint32 pcValue of
           None \<Rightarrow> (c, False)
         | Some n \<Rightarrow> (c\<lparr>nc_uiPeerPort := n\<rparr>, 0 < n \<and> n \<le> UINT16_MAX))
      else if IsNativeAppIgnoredV15Key pcKey then (c, True)
      else (c, False))"

definition SetNativeAppConfigSetting ::
  "string \<Rightarrow> string \<Rightarrow> NativeAppConfig \<Rightarrow> NativeAppConfig outcome" where
  "SetNativeAppConfigSetting pcKey pcValue c =
     (let (c, bAccepted) = apply_setting pcKey pcValue c
      in (c, if bAccepted then IPSEC_OK else IPSEC_ERR_INVALID_ARGUMENT))"

definition InitializeNativeAppConfig :: NativeAppConfig where
  "InitializeNativeAppConfig =
     \<lparr>nc_eRole = NATIVE_APP_ROLE_INITIATOR,
      nc_acLocalAddress = replicate IPSEC_ADDRESS_LENGTH NUL,
      nc_acRemoteAddress = replicate IPSEC_ADDRESS_LENGTH NUL,
      nc_acLocalId = replicate IPSEC_ID_LENGTH NUL, nc_acRemoteId = replicate IPSEC_ID_LENGTH NUL,
      nc_acPskFile = replicate NATIVE_APP_PATH_LENGTH NUL,
      nc_acOutputRoot = fst (CopyNativeAppText (replicate NATIVE_APP_PATH_LENGTH NUL) ''./results''),
      nc_acViciSocket = fst (CopyNativeAppText (replicate NATIVE_APP_PATH_LENGTH NUL) ''/run/charon.vici''),
      nc_acConnectionName = replicate IPSEC_NAME_LENGTH NUL,
      nc_acChildName = replicate IPSEC_NAME_LENGTH NUL,
      nc_acCredentialId = replicate IPSEC_NAME_LENGTH NUL,
      nc_acPeerServerAddress = replicate IPSEC_ADDRESS_LENGTH NUL,
      nc_acIkeProposals = replicate NATIVE_APP_PROPOSAL_TEXT_LENGTH NUL,
      nc_acEspProposals = replicate NATIVE_APP_PROPOSAL_TEXT_LENGTH NUL,
      nc_eMode = Some IPSEC_MODE_TUNNEL, nc_bChildlessIke = False, nc_bTerminateOnExit = False,
      nc_uiTimeoutMs = 30000, nc_uiPeerPort = NATIVE_APP_PEER_DEFAULT_PORT\<rparr>"

subsection \<open>Addresses\<close>

definition IsNativeAppAddressValid :: "cbuf \<Rightarrow> bool" where
  "IsNativeAppAddressValid pcAddress \<longleftrightarrow> inet_pton4 (cstr pcAddress) \<or> inet_pton6 (cstr pcAddress)"

subsection \<open>Validation\<close>

definition first_invalid :: "(bool \<times> string) list \<Rightarrow> string option" where
  "first_invalid checks = map_option snd (List.find (\<lambda>(bad, name). bad) checks)"

definition report_invalid :: "nat \<Rightarrow> string option \<Rightarrow> string \<Rightarrow> string outcome" where
  "report_invalid uiErrorLength pcInvalid pcError =
     (case pcInvalid of
        None \<Rightarrow> (pcError, IPSEC_OK)
      | Some name \<Rightarrow>
          (SetNativeAppError uiErrorLength ''missing or invalid setting: '' name pcError,
           IPSEC_ERR_INVALID_ARGUMENT))"

definition ValidateNativeAppConfig :: "nat \<Rightarrow> NativeAppConfig \<Rightarrow> string \<Rightarrow> string outcome" where
  "ValidateNativeAppConfig uiErrorLength c pcError =
     report_invalid uiErrorLength (first_invalid
       [(\<not> IsNativeAppAddressValid (nc_acLocalAddress c), ''local_ip''),
        (\<not> IsNativeAppAddressValid (nc_acRemoteAddress c), ''remote_ip''),
        (nc_acLocalId c ! 0 = NUL, ''local_id''),
        (nc_acRemoteId c ! 0 = NUL, ''remote_id''),
        (nc_acPskFile c ! 0 = NUL, ''psk_file''),
        (nc_acConnectionName c ! 0 = NUL, ''connection_name''),
        (nc_acChildName c ! 0 = NUL, ''child_name''),
        (nc_acIkeProposals c ! 0 = NUL, ''ike_proposals''),
        (nc_acEspProposals c ! 0 = NUL, ''esp_proposals''),
        (nc_uiTimeoutMs c = 0, ''command_timeout_sec'')]) pcError"

definition ValidateNativeAppBaseConfig ::
  "nat \<Rightarrow> NativeAppConfig option \<Rightarrow> string \<Rightarrow> string outcome" where
  "ValidateNativeAppBaseConfig uiErrorLength pConfig pcError =
     (case pConfig of
        None \<Rightarrow> (pcError, IPSEC_ERR_INVALID_ARGUMENT)
      | Some c \<Rightarrow>
          report_invalid uiErrorLength (first_invalid
            [(\<not> IsNativeAppAddressValid (nc_acLocalAddress c), ''local_ip''),
             (nc_eRole c = NATIVE_APP_ROLE_INITIATOR \<and> nc_acLocalId c ! 0 = NUL, ''local_id''),
             (nc_acPskFile c ! 0 = NUL, ''psk_file''),
             (\<not> IsNativeAppAddressValid (nc_acPeerServerAddress c), ''peer_server_ip''),
             (nc_uiPeerPort c = 0 \<or> UINT16_MAX < nc_uiPeerPort c, ''peer_port''),
             (nc_acIkeProposals c ! 0 = NUL, ''ike_proposals''),
             (nc_acEspProposals c ! 0 = NUL, ''esp_proposals''),
             (\<not> (nc_eMode c = Some IPSEC_MODE_TUNNEL \<or> nc_eMode c = Some IPSEC_MODE_TRANSPORT),
              ''ipsec_mode''),
             (nc_uiTimeoutMs c = 0, ''command_timeout_sec'')]) pcError)"

subsection \<open>Settings files\<close>

record AppFile =
  af_data :: bytes
  af_error :: bool

definition fgets :: "nat \<Rightarrow> AppFile \<Rightarrow> (bytes \<times> bool \<times> AppFile) option" where
  "fgets n f =
     (let d = af_data f; upto = takeWhile (\<lambda>c. c \<noteq> newline) d in
      if n - 1 \<le> length upto
      then Some (take (n - 1) d, False, f\<lparr>af_data := drop (n - 1) d\<rparr>)
      else if length upto < length d
      then Some (upto @ [newline], False, f\<lparr>af_data := drop (length upto + 1) d\<rparr>)
      else if af_error f \<or> d = [] then None
      else Some (d, True, f\<lparr>af_data := []\<rparr>))"

lemma fgets_shorter:
  assumes "1 < n" and "fgets n f = Some (line, eof, f')"
  shows "length (af_data f') < length (af_data f)"
proof -
  have "length (takeWhile (\<lambda>c. c \<noteq> newline) (af_data f)) \<le> length (af_data f)"
    by (rule length_takeWhile_le)
  then show ?thesis using assms by (auto simp: fgets_def Let_def split: if_splits)
qed

text \<open>What one line of the file does: nothing, an error with its diagnostic text, or a setting.\<close>

datatype config_line =
    IgnoreLine
  | BadLine IpsecError string string
  | SettingLine string string

definition config_line_of :: "string \<Rightarrow> bytes \<Rightarrow> bool \<Rightarrow> config_line" where
  "config_line_of pcPath acLine eof =
     (let zLength = strlen acLine in
      if 0 < zLength \<and> acLine ! (zLength - 1) \<noteq> newline \<and> \<not> eof
      then BadLine IPSEC_ERR_BUFFER_TOO_SMALL ''configuration line is too long: '' pcPath
      else
        let pcKey = TrimNativeAppText acLine in
        if pcKey = [] \<or> hd pcKey = CHR ''#'' \<or> hd pcKey = CHR '';'' then IgnoreLine
        else if CHR ''='' \<notin> set pcKey
        then BadLine IPSEC_ERR_INVALID_ARGUMENT (''setting has no '' @ [CHR 0x27, CHR ''='', CHR 0x27] @ '' near: '') pcKey
        else
          let key = takeWhile (\<lambda>c. c \<noteq> CHR ''='') pcKey
          in SettingLine (TrimNativeAppText key) (TrimNativeAppText (drop (length key + 1) pcKey)))"

type_synonym config_setter = "string \<Rightarrow> string \<Rightarrow> NativeAppConfig \<Rightarrow> NativeAppConfig outcome"

function settings_loop ::
  "string \<Rightarrow> config_setter \<Rightarrow> nat \<Rightarrow> AppFile \<Rightarrow> NativeAppConfig \<times> string \<Rightarrow>
   (NativeAppConfig \<times> string) outcome" where
  "settings_loop pcPath pSetter uiErrorLength f x =
     (case fgets NATIVE_APP_LINE_LENGTH f of
        None \<Rightarrow>
          if af_error f
          then ((fst x, SetNativeAppError uiErrorLength ''cannot read configuration: '' pcPath (snd x)),
                IPSEC_ERR_FILE_READ)
          else (x, IPSEC_OK)
      | Some (acLine, eof, f') \<Rightarrow>
          (case config_line_of pcPath acLine eof of
             IgnoreLine \<Rightarrow> settings_loop pcPath pSetter uiErrorLength f' x
           | BadLine eError text v \<Rightarrow> ((fst x, SetNativeAppError uiErrorLength text v (snd x)), eError)
           | SettingLine pcKey pcValue \<Rightarrow>
               let r = pSetter pcKey pcValue (fst x) in
               if snd r \<noteq> IPSEC_OK
               then ((fst r, SetNativeAppError uiErrorLength ''unknown or invalid setting: '' pcKey (snd x)),
                     snd r)
               else settings_loop pcPath pSetter uiErrorLength f' (fst r, snd x)))"
  by pat_completeness auto
termination
  by (relation "measure (\<lambda>(p, s, n, f, x). length (af_data f))") (auto dest: fgets_shorter [rotated])

declare settings_loop.simps [simp del]

text \<open>\<open>None\<close> is a file that cannot be opened.\<close>

definition LoadNativeAppSettingsFile ::
  "string \<Rightarrow> AppFile option \<Rightarrow> config_setter \<Rightarrow> nat \<Rightarrow> NativeAppConfig \<times> string \<Rightarrow>
   (NativeAppConfig \<times> string) outcome" where
  "LoadNativeAppSettingsFile pcPath pFile pSetter uiErrorLength x =
     (case pFile of
        None \<Rightarrow> ((fst x, SetNativeAppError uiErrorLength ''cannot open configuration: '' pcPath (snd x)),
                 IPSEC_ERR_FILE_OPEN)
      | Some f \<Rightarrow> settings_loop pcPath pSetter uiErrorLength f x)"

definition application_keys :: "string list" where
  "application_keys =
     [''role'', ''local_ip'', ''local_id'', ''psk_file'', ''output_root'', ''vici_uri'',
      ''childless_ike'', ''terminate_on_exit'', ''command_timeout_sec'', ''timeout_sec'',
      ''peer_server_ip'', ''peer_port'']"

definition IsNativeAppApplicationKey :: "string \<Rightarrow> bool" where
  "IsNativeAppApplicationKey pcKey = list_ex (\<lambda>k. strcmp_eq k pcKey) application_keys"

definition SetNativeAppApplicationSetting :: config_setter where
  "SetNativeAppApplicationSetting pcKey pcValue c =
     (if \<not> IsNativeAppApplicationKey pcKey then (c, IPSEC_ERR_INVALID_ARGUMENT)
      else SetNativeAppConfigSetting pcKey pcValue c)"

definition SetNativeAppManagementSetting :: config_setter where
  "SetNativeAppManagementSetting pcKey pcValue c =
     (if \<not> strcmp_eq ''ike_proposals'' pcKey \<and> \<not> strcmp_eq ''esp_proposals'' pcKey \<and>
         \<not> strcmp_eq ''ipsec_mode'' pcKey
      then (c, IPSEC_ERR_INVALID_ARGUMENT)
      else SetNativeAppConfigSetting pcKey pcValue c)"

text \<open>The initiator listens on its own address when no peer server address is given.\<close>

definition default_peer_server :: "NativeAppConfig \<Rightarrow> NativeAppConfig outcome" where
  "default_peer_server c =
     (if nc_eRole c = NATIVE_APP_ROLE_INITIATOR \<and> nc_acPeerServerAddress c ! 0 = NUL
      then let (buf, copied) = CopyNativeAppText (nc_acPeerServerAddress c) (nc_acLocalAddress c)
           in (c\<lparr>nc_acPeerServerAddress := buf\<rparr>, if copied then IPSEC_OK else IPSEC_ERR_BUFFER_TOO_SMALL)
      else (c, IPSEC_OK))"

definition with_default_peer :: "NativeAppConfig \<times> string \<Rightarrow> (NativeAppConfig \<times> string) outcome" where
  "with_default_peer x = (let (c, e) = default_peer_server (fst x) in ((c, snd x), e))"

definition LoadNativeAppConfigFiles ::
  "string option \<Rightarrow> AppFile option \<Rightarrow> string option \<Rightarrow> AppFile option \<Rightarrow> nat \<Rightarrow>
   NativeAppConfig \<times> string \<Rightarrow> (NativeAppConfig \<times> string) outcome" where
  "LoadNativeAppConfigFiles pcApplicationPath appFile pcManagementPath mgmtFile uiErrorLength x =
     (case (pcApplicationPath, pcManagementPath) of
        (Some appPath, Some mgmtPath) \<Rightarrow>
          and_then (and_then (and_then
            (LoadNativeAppSettingsFile appPath appFile SetNativeAppApplicationSetting uiErrorLength
               (InitializeNativeAppConfig, snd x))
            with_default_peer)
            (\<lambda>(c, d). LoadNativeAppSettingsFile mgmtPath mgmtFile SetNativeAppManagementSetting uiErrorLength
               (c\<lparr>nc_acIkeProposals := (nc_acIkeProposals c)[0 := NUL],
                  nc_acEspProposals := (nc_acEspProposals c)[0 := NUL], nc_eMode := None\<rparr>, d)))
            (\<lambda>(c, d). let (d, e) = ValidateNativeAppBaseConfig uiErrorLength (Some c) d in ((c, d), e))
      | _ \<Rightarrow> (x, IPSEC_ERR_INVALID_ARGUMENT))"

definition LoadNativeAppConfig ::
  "string option \<Rightarrow> AppFile option \<Rightarrow> nat \<Rightarrow> NativeAppConfig \<times> string \<Rightarrow>
   (NativeAppConfig \<times> string) outcome" where
  "LoadNativeAppConfig pcPath pFile uiErrorLength x =
     (case pcPath of
        None \<Rightarrow> (x, IPSEC_ERR_INVALID_ARGUMENT)
      | Some path \<Rightarrow>
          and_then (and_then
            (LoadNativeAppSettingsFile path pFile SetNativeAppConfigSetting uiErrorLength
               (InitializeNativeAppConfig, snd x))
            with_default_peer)
            (\<lambda>(c, d). let (d, e) = ValidateNativeAppConfig uiErrorLength c d in ((c, d), e)))"

subsection \<open>The connection built from a configuration\<close>

text \<open>One round of \<open>SplitNativeAppProposals\<close> from \<open>pcStart\<close>: the end of the item is moved back
  over spaces, but not before the start; then the start is moved forward over spaces, and
  may pass the end, in which case the length wraps.\<close>

definition proposal_item :: "string \<Rightarrow> string option" where
  "proposal_item pcStart =
     (let part = takeWhile (\<lambda>c. c \<noteq> CHR '','') pcStart;
          pcEnd = length (rev (dropWhile isspace (rev part)));
          zSkip = length (takeWhile isspace pcStart);
          ulLength = u64_sub pcEnd zSkip
      in if ulLength = 0 \<or> IPSEC_PROPOSAL_LENGTH \<le> ulLength then None
         else Some (take ulLength (drop zSkip pcStart)))"

text \<open>The search for the next comma starts behind the spaces, and those are no commas.\<close>

function split_loop :: "string \<Rightarrow> string list \<Rightarrow> string list option" where
  "split_loop pcStart items =
     (if pcStart = [] then Some items
      else
        case proposal_item pcStart of
          None \<Rightarrow> None
        | Some item \<Rightarrow>
            if NATIVE_APP_PROPOSAL_COUNT \<le> length items then None
            else
              let rest = dropWhile (\<lambda>c. c \<noteq> CHR '','') (dropWhile isspace pcStart)
              in if rest = [] then Some (items @ [item]) else split_loop (tl rest) (items @ [item]))"
  by pat_completeness auto
termination
proof (relation "measure (\<lambda>(s, items). length s)", goal_cases)
  case 1
  then show ?case by simp
next
  case (2 s items item rest)
  have "length rest \<le> length s"
    using 2(4) length_dropWhile_le [of "\<lambda>c. c \<noteq> CHR '',''" "dropWhile isspace s"]
      length_dropWhile_le [of isspace s] by simp
  then show ?case using 2(5) by (cases rest) simp_all
qed

declare split_loop.simps [simp del]

definition SplitNativeAppProposals :: "cbuf \<Rightarrow> IpsecError + string list" where
  "SplitNativeAppProposals pcText =
     (case split_loop (cstr pcText) [] of
        None \<Rightarrow> Inl IPSEC_ERR_INVALID_ARGUMENT
      | Some items \<Rightarrow> if items = [] then Inl IPSEC_ERR_INVALID_ARGUMENT else Inr items)"

text \<open>\<open>strstr\<close> from an offset.\<close>

fun strstr_at :: "string \<Rightarrow> string \<Rightarrow> nat option" where
  "strstr_at [] pat = (if pat = [] then Some 0 else None)"
| "strstr_at (c # cs) pat =
     (if prefix pat (c # cs) then Some 0 else map_option Suc (strstr_at cs pat))"

lemma strstr_at_le: "strstr_at s pat = Some n \<Longrightarrow> n + length pat \<le> length s \<and> prefix pat (drop n s)"
proof (induction s arbitrary: n)
  case (Cons c cs)
  then show ?case using prefix_length_le [of pat "c # cs"] by (cases n) (auto split: if_splits)
qed (auto split: if_splits)

function token_loop_at :: "string \<Rightarrow> string \<Rightarrow> nat \<Rightarrow> bool" where
  "token_loop_at pcProposal pcToken pcPosition =
     (if pcToken = [] then False
      else case strstr_at (drop pcPosition pcProposal) pcToken of
        None \<Rightarrow> False
      | Some n \<Rightarrow>
          let pos = pcPosition + n;
              bLeft = (pos = 0 \<or> pcProposal ! (pos - 1) = CHR ''-'');
              right = drop (pos + length pcToken) pcProposal;
              bRight = (right = [] \<or> hd right = CHR ''-'')
          in if bLeft \<and> bRight then True
             else token_loop_at pcProposal pcToken (pos + length pcToken))"
  by pat_completeness auto
termination
proof (relation "measure (\<lambda>(p, t, i). length p - i)", goal_cases)
  case 1
  then show ?case by simp
next
  case (2 p t i n pos bLeft right bRight)
  then show ?case using strstr_at_le [of "drop i p" t n] by (cases t) auto
qed

declare token_loop_at.simps [simp del]

definition HasNativeAppProposalToken :: "string list \<Rightarrow> string \<Rightarrow> bool" where
  "HasNativeAppProposalToken espProposals pcToken =
     list_ex (\<lambda>p. token_loop_at p pcToken 0) espProposals"

definition key_exchange_token :: "string \<Rightarrow> bool" where
  "key_exchange_token part \<longleftrightarrow> prefix ''modp'' part \<or> prefix ''ecp'' part \<or> prefix ''curve'' part"

text \<open>The inner loop of \<open>HasNativeAppPfsToken\<close>: \<open>bFound\<close> is assigned for every token, so the last
  one decides.\<close>

function pfs_loop :: "string \<Rightarrow> bool \<Rightarrow> bool" where
  "pfs_loop pcCursor bFound =
     (if pcCursor = [] then bFound
      else
        let part = takeWhile (\<lambda>c. c \<noteq> CHR ''-'') pcCursor;
            pcEnd = dropWhile (\<lambda>c. c \<noteq> CHR ''-'') pcCursor;
            bFound = key_exchange_token part
        in if pcEnd = [] then bFound else pfs_loop (tl pcEnd) bFound)"
  by pat_completeness auto
termination
proof (relation "measure (\<lambda>(s, b). length s)", goal_cases)
  case 1
  then show ?case by simp
next
  case (2 s b part e f)
  then have "0 < length s" "length e \<le> length s" by (simp_all add: length_dropWhile_le)
  then have "length e - 1 < length s" by linarith
  then show ?case by simp
qed

declare pfs_loop.simps [simp del]

fun pfs_proposals :: "string list \<Rightarrow> bool \<Rightarrow> bool" where
  "pfs_proposals [] bFound = bFound"
| "pfs_proposals (p # ps) bFound = (if bFound then bFound else pfs_proposals ps (pfs_loop p bFound))"

definition HasNativeAppPfsToken :: "string list \<Rightarrow> bool" where
  "HasNativeAppPfsToken espProposals = pfs_proposals espProposals False"

text \<open>\<open>snprintf\<close> of a selector into an array of 512 bytes.\<close>

definition host_selector :: "cbuf \<Rightarrow> string" where
  "host_selector acAddress =
     take (IPSEC_SELECTOR_LIST_LENGTH - 1)
       (cstr acAddress @ (if inet_pton4 (cstr acAddress) then ''/32'' else ''/128''))"

definition runtime_connection :: "NativeAppConfig \<Rightarrow> string list \<Rightarrow> string list \<Rightarrow> IpsecConnectionConfig" where
  "runtime_connection c ike esp =
     \<lparr>cc_uiStructSize = sizeof_IpsecConnectionConfig,
      cc_pcName = Some (nc_acConnectionName c), cc_pcChildName = Some (nc_acChildName c),
      cc_LocalAddresses = Some [Some (nc_acLocalAddress c)],
      cc_RemoteAddresses = Some [Some (nc_acRemoteAddress c)],
      cc_eLocalAuth = IPSEC_AUTH_PSK, cc_eRemoteAuth = IPSEC_AUTH_PSK,
      cc_pcLocalId = Some (nc_acLocalId c), cc_pcRemoteId = Some (nc_acRemoteId c),
      cc_IkeProposals = Some (map Some ike), cc_EspProposals = Some (map Some esp),
      cc_LocalTrafficSelectors = Some [Some (host_selector (nc_acLocalAddress c))],
      cc_RemoteTrafficSelectors = Some [Some (host_selector (nc_acRemoteAddress c))],
      cc_eMode = (case nc_eMode c of None \<Rightarrow> IPSEC_MODE_UNKNOWN | Some m \<Rightarrow> m),
      cc_eEsn = (if HasNativeAppProposalToken esp ''noesn'' then IPSEC_ESN_DISABLED
                 else if HasNativeAppProposalToken esp ''esn'' then IPSEC_ESN_ENABLED
                 else IPSEC_ESN_AUTO),
      cc_bEnablePfs = HasNativeAppPfsToken esp, cc_bEnableMobike = False,
      cc_bEnableFragmentation = True, cc_bForceUdpEncapsulation = False,
      cc_bForceChildlessIke = nc_bChildlessIke c, cc_uiDpdDelayMs = 0, cc_uiDpdTimeoutMs = 0,
      cc_ullIkeRekeyTimeMs = 0, cc_ullIkeLifetimeMs = 0, cc_ullChildRekeyTimeMs = 0,
      cc_ullChildLifetimeMs = 0\<rparr>"

text \<open>The connection that \<open>BuildNativeAppRuntimeConfig\<close> leaves in \<open>pRuntime->Connection\<close>; a mode
  outside the enumeration is passed on and rejected by the library, as \<open>UNKNOWN\<close> is.\<close>

definition BuildNativeAppRuntimeConfig ::
  "nat \<Rightarrow> NativeAppConfig option \<Rightarrow> string \<Rightarrow> IpsecConnectionConfig option \<times> string \<times> IpsecError" where
  "BuildNativeAppRuntimeConfig uiErrorLength pConfig pcError =
     (case pConfig of
        None \<Rightarrow> (None, pcError, IPSEC_ERR_INVALID_ARGUMENT)
      | Some c \<Rightarrow>
          let fail = (\<lambda>e. (None, SetNativeAppError uiErrorLength ''invalid proposal list: ''
                                   (nc_acConnectionName c) pcError, e)) in
          case SplitNativeAppProposals (nc_acIkeProposals c) of
            Inl e \<Rightarrow> fail e
          | Inr ike \<Rightarrow>
              (case SplitNativeAppProposals (nc_acEspProposals c) of
                 Inl e \<Rightarrow> fail e
               | Inr esp \<Rightarrow> (Some (runtime_connection c ike esp), pcError, IPSEC_OK)))"

subsection \<open>The secret file\<close>

definition strip_line_ends :: "bytes \<Rightarrow> bytes" where
  "strip_line_ends d = rev (dropWhile (\<lambda>c. c = newline \<or> c = CHR 0x0D) (rev d))"

text \<open>\<open>mem\<close> says whether the block of 65536 bytes can be allocated.\<close>

definition ReadNativeAppSecret :: "bool \<Rightarrow> AppFile option \<Rightarrow> IpsecError + bytes" where
  "ReadNativeAppSecret mem pFile =
     (case pFile of
        None \<Rightarrow> Inl IPSEC_ERR_FILE_OPEN
      | Some f \<Rightarrow>
          if \<not> mem then Inl IPSEC_ERR_NO_MEMORY
          else
            let d = take (NATIVE_APP_PSK_MAX_LENGTH + 1) (af_data f) in
            if af_error f \<and> length (af_data f) < NATIVE_APP_PSK_MAX_LENGTH + 1
            then Inl IPSEC_ERR_FILE_READ
            else if length d = 0 \<or> NATIVE_APP_PSK_MAX_LENGTH < length d
            then Inl IPSEC_ERR_INVALID_ARGUMENT
            else if strip_line_ends d = [] then Inl IPSEC_ERR_INVALID_ARGUMENT
            else Inr (strip_line_ends d))"

end
