(* ===== verification/IpsecPsk.thy ===== *)
theory IpsecPsk
  imports AppConfig
begin

section \<open>Generated pre-shared keys (\<open>ipsec/core/psk.c\<close>)\<close>

text \<open>
  The operating system is again a list of outcomes of calls: a call whose outcome is missing
  or is that of another call fails.  Beside it the state holds the file at the given path
  (contents and mode) and the number of descriptors opened and not closed.  \<open>open\<close> with
  \<open>O_CREAT | O_EXCL\<close> never succeeds on a file that exists; the mode of the new file is reduced
  by the process's mask and comes with the outcome.  A chunk of random bytes is cut to the
  length that was asked for.
\<close>

abbreviation IPSEC_GENERATED_PSK_BYTE_LENGTH :: nat where "IPSEC_GENERATED_PSK_BYTE_LENGTH \<equiv> 48"

text \<open>\<open>S_IRUSR | S_IWUSR\<close>\<close>
abbreviation owner_only :: nat where "owner_only \<equiv> 384"

datatype file_errno = FILE_EINTR | FILE_EEXIST | FILE_EACCES | FILE_EPERM | FILE_ENOSYS | FILE_EOTHER

datatype psk_event =
    RandomBytes bytes
  | RandomErrno file_errno
  | UrandomOpened
  | FileOpened nat
  | OpenErrno file_errno
  | ChmodOk
  | ChmodErrno file_errno
  | Wrote nat
  | WriteErrno file_errno
  | Synced
  | Closed

record PskWorld =
  pw_trace :: "psk_event list"
  pw_file :: "(bytes \<times> nat) option"
  pw_open :: nat

definition psk_next :: "PskWorld \<Rightarrow> psk_event option \<times> PskWorld" where
  "psk_next w =
     (case pw_trace w of [] \<Rightarrow> (None, w) | ev # evs \<Rightarrow> (Some ev, w\<lparr>pw_trace := evs\<rparr>))"

definition sys_random :: "nat \<Rightarrow> PskWorld \<Rightarrow> (file_errno + bytes) \<times> PskWorld" where
  "sys_random n w =
     (let (ev, w) = psk_next w in
      case ev of
        Some (RandomBytes bs) \<Rightarrow> (Inr (take n bs), w)
      | Some (RandomErrno e) \<Rightarrow> (Inl e, w)
      | _ \<Rightarrow> (Inl FILE_EOTHER, w))"

definition sys_open_urandom :: "PskWorld \<Rightarrow> bool \<times> PskWorld" where
  "sys_open_urandom w =
     (let (ev, w) = psk_next w in
      if ev = Some UrandomOpened then (True, w\<lparr>pw_open := pw_open w + 1\<rparr>) else (False, w))"

definition sys_open_new :: "PskWorld \<Rightarrow> file_errno option \<times> PskWorld" where
  "sys_open_new w =
     (let (ev, w) = psk_next w in
      case ev of
        Some (FileOpened mode) \<Rightarrow>
          if pw_file w \<noteq> None then (Some FILE_EEXIST, w)
          else (None, w\<lparr>pw_file := Some ([], mode), pw_open := pw_open w + 1\<rparr>)
      | Some (OpenErrno e) \<Rightarrow> (Some e, w)
      | _ \<Rightarrow> (Some FILE_EOTHER, w))"

definition sys_fchmod :: "nat \<Rightarrow> PskWorld \<Rightarrow> file_errno option \<times> PskWorld" where
  "sys_fchmod mode w =
     (let (ev, w) = psk_next w in
      case ev of
        Some ChmodOk \<Rightarrow> (None, w\<lparr>pw_file := map_option (\<lambda>(d, _). (d, mode)) (pw_file w)\<rparr>)
      | Some (ChmodErrno e) \<Rightarrow> (Some e, w)
      | _ \<Rightarrow> (Some FILE_EOTHER, w))"

definition sys_write :: "bytes \<Rightarrow> PskWorld \<Rightarrow> (file_errno + nat) \<times> PskWorld" where
  "sys_write data w =
     (let (ev, w) = psk_next w in
      case ev of
        Some (Wrote k) \<Rightarrow>
          (let bs = take k data in
           (Inr (length bs), w\<lparr>pw_file := map_option (\<lambda>(d, m). (d @ bs, m)) (pw_file w)\<rparr>))
      | Some (WriteErrno e) \<Rightarrow> (Inl e, w)
      | _ \<Rightarrow> (Inl FILE_EOTHER, w))"

definition sys_fsync :: "PskWorld \<Rightarrow> bool \<times> PskWorld" where
  "sys_fsync w = (let (ev, w) = psk_next w in (ev = Some Synced, w))"

text \<open>The descriptor is gone even if \<open>close\<close> reports an error.\<close>

definition sys_close_file :: "PskWorld \<Rightarrow> bool \<times> PskWorld" where
  "sys_close_file w =
     (let (ev, w) = psk_next w in (ev = Some Closed, w\<lparr>pw_open := pw_open w - 1\<rparr>))"

definition sys_unlink :: "PskWorld \<Rightarrow> PskWorld" where
  "sys_unlink w = w\<lparr>pw_file := None\<rparr>"

lemma psk_next_cases:
  assumes "psk_next w = (ev, w')"
  shows "w' = w\<lparr>pw_trace := pw_trace w'\<rparr>"
    and "pw_trace w = (case ev of None \<Rightarrow> [] | Some e \<Rightarrow> [e]) @ pw_trace w'"
  using assms by (auto simp: psk_next_def split: list.splits)

lemma psk_next_shorter: "psk_next w = (Some ev, w') \<Longrightarrow> length (pw_trace w') < length (pw_trace w)"
  by (auto simp: psk_next_def split: list.splits)

subsection \<open>Random bytes\<close>

lemma sys_random_shorter:
  "sys_random n w = (Inr bs, w') \<Longrightarrow> length (pw_trace w') < length (pw_trace w)"
  "sys_random n w = (Inl FILE_EINTR, w') \<Longrightarrow> length (pw_trace w') < length (pw_trace w)"
  by (auto simp: sys_random_def dest: psk_next_shorter split: prod.splits option.splits psk_event.splits)

text \<open>\<open>pucBytes\<close> is what was read so far; \<open>zLength\<close> is what is still missing.\<close>

function urandom_loop :: "bytes \<Rightarrow> nat \<Rightarrow> PskWorld \<Rightarrow> (bytes \<times> PskWorld) outcome" where
  "urandom_loop pucBytes zLength w =
     (if zLength = 0 then ((pucBytes, w), IPSEC_OK)
      else
        let (zRead, w') = sys_random zLength w in
        case zRead of
          Inr bs \<Rightarrow>
            if bs \<noteq> [] then urandom_loop (pucBytes @ bs) (zLength - length bs) w'
            else ((pucBytes, w'), IPSEC_ERR_RANDOM)
        | Inl e \<Rightarrow>
            if e = FILE_EINTR then urandom_loop pucBytes zLength w' else ((pucBytes, w'), IPSEC_ERR_RANDOM))"
  by pat_completeness auto
termination
  by (relation "measure (\<lambda>(d, n, w). length (pw_trace w))")
    (auto dest: sys_random_shorter [OF sym])

declare urandom_loop.simps [simp del]

definition ReadIpsecRandomFallback :: "bytes \<Rightarrow> nat \<Rightarrow> PskWorld \<Rightarrow> (bytes \<times> PskWorld) outcome" where
  "ReadIpsecRandomFallback pucBytes zLength w =
     (let (bOpened, w) = sys_open_urandom w in
      if \<not> bOpened then ((pucBytes, w), IPSEC_ERR_RANDOM)
      else
        let ((pucBytes, w), eError) = urandom_loop pucBytes zLength w;
            (_, w) = sys_close_file w
        in ((pucBytes, w), eError))"

text \<open>The loop over \<open>getrandom\<close>; the flag is \<open>bUseFallback\<close>.\<close>

function getrandom_loop :: "bytes \<Rightarrow> nat \<Rightarrow> PskWorld \<Rightarrow> (bytes \<times> PskWorld) outcome \<times> bool" where
  "getrandom_loop pucBytes zLength w =
     (if zLength = 0 then (((pucBytes, w), IPSEC_OK), False)
      else
        let (zRead, w') = sys_random zLength w in
        case zRead of
          Inr bs \<Rightarrow>
            if bs \<noteq> [] then getrandom_loop (pucBytes @ bs) (zLength - length bs) w'
            else (((pucBytes, w'), IPSEC_ERR_RANDOM), False)
        | Inl e \<Rightarrow>
            if e = FILE_EINTR then getrandom_loop pucBytes zLength w'
            else if e = FILE_ENOSYS then (((pucBytes, w'), IPSEC_OK), True)
            else (((pucBytes, w'), IPSEC_ERR_RANDOM), False))"
  by pat_completeness auto
termination
  by (relation "measure (\<lambda>(d, n, w). length (pw_trace w))")
    (auto dest: sys_random_shorter [OF sym])

declare getrandom_loop.simps [simp del]

definition FillIpsecRandom :: "nat \<Rightarrow> PskWorld \<Rightarrow> (bytes \<times> PskWorld) outcome" where
  "FillIpsecRandom zLength w =
     (let (((pucBytes, w), eError), bUseFallback) = getrandom_loop [] zLength w
      in if bUseFallback then ReadIpsecRandomFallback pucBytes (zLength - length pucBytes) w
         else ((pucBytes, w), eError))"

subsection \<open>The file\<close>

lemma sys_write_shorter:
  "sys_write d w = (Inr n, w') \<Longrightarrow> length (pw_trace w') < length (pw_trace w)"
  "sys_write d w = (Inl FILE_EINTR, w') \<Longrightarrow> length (pw_trace w') < length (pw_trace w)"
  by (auto simp: sys_write_def Let_def dest: psk_next_shorter
      split: prod.splits option.splits psk_event.splits)

function write_loop :: "string \<Rightarrow> PskWorld \<Rightarrow> PskWorld outcome" where
  "write_loop pcText w =
     (if pcText = [] then (w, IPSEC_OK)
      else
        let (zWritten, w') = sys_write pcText w in
        case zWritten of
          Inr n \<Rightarrow> if 0 < n then write_loop (drop n pcText) w' else (w', IPSEC_ERR_FILE_WRITE)
        | Inl e \<Rightarrow> if e = FILE_EINTR then write_loop pcText w' else (w', IPSEC_ERR_FILE_WRITE))"
  by pat_completeness auto
termination
  by (relation "measure (\<lambda>(t, w). length (pw_trace w))") (auto dest: sys_write_shorter [OF sym])

declare write_loop.simps [simp del]

definition WriteIpsecPskText :: "string \<Rightarrow> PskWorld \<Rightarrow> PskWorld outcome" where
  "WriteIpsecPskText pcText w =
     (let (iFile, w) = sys_open_new w in
      if iFile = Some FILE_EEXIST then (w, IPSEC_ERR_FILE_EXISTS)
      else if iFile = Some FILE_EACCES \<or> iFile = Some FILE_EPERM then (w, IPSEC_ERR_PERMISSION)
      else if iFile \<noteq> None then (w, IPSEC_ERR_FILE_OPEN)
      else
        let (iResult, w) = sys_fchmod owner_only w;
            eError = (case iResult of
                None \<Rightarrow> IPSEC_OK
              | Some e \<Rightarrow> if e = FILE_EPERM then IPSEC_ERR_PERMISSION else IPSEC_ERR_FILE_WRITE);
            (w, eError) = and_then (w, eError) (write_loop pcText);
            (w, eError) = and_then (w, eError)
              (\<lambda>w. let (bSynced, w) = sys_fsync w in (w, if bSynced then IPSEC_OK else IPSEC_ERR_FILE_WRITE));
            (bClosed, w) = sys_close_file w;
            eError = (if \<not> bClosed \<and> eError = IPSEC_OK then IPSEC_ERR_FILE_WRITE else eError)
        in (if eError \<noteq> IPSEC_OK then sys_unlink w else w, eError))"

definition hex_digit :: "nat \<Rightarrow> char" where
  "hex_digit n = ''0123456789abcdef'' ! n"

definition hex_text :: "bytes \<Rightarrow> string" where
  "hex_text bs = concat (map (\<lambda>b. [hex_digit (of_char b div 16), hex_digit (of_char b mod 16)]) bs)"

definition GenerateIpsecPskFile :: "string option \<Rightarrow> PskWorld \<Rightarrow> PskWorld outcome" where
  "GenerateIpsecPskFile pcPath w =
     (case pcPath of
        None \<Rightarrow> (w, IPSEC_ERR_INVALID_ARGUMENT)
      | Some path \<Rightarrow>
          if cstr path = [] then (w, IPSEC_ERR_INVALID_ARGUMENT)
          else
            let ((aucRandom, w), eError) = FillIpsecRandom IPSEC_GENERATED_PSK_BYTE_LENGTH w
            in and_then (w, eError) (WriteIpsecPskText (hex_text aucRandom @ [newline])))"

subsection \<open>What the loops do\<close>

primrec chunk :: "psk_event \<Rightarrow> bytes" where
  "chunk (RandomBytes bs) = bs"
| "chunk (RandomErrno e) = []"
| "chunk UrandomOpened = []"
| "chunk (FileOpened m) = []"
| "chunk (OpenErrno e) = []"
| "chunk ChmodOk = []"
| "chunk (ChmodErrno e) = []"
| "chunk (Wrote n) = []"
| "chunk (WriteErrno e) = []"
| "chunk Synced = []"
| "chunk Closed = []"

text \<open>The random bytes the system delivered in a sequence of outcomes.\<close>

definition delivered :: "psk_event list \<Rightarrow> bytes" where
  "delivered evs = concat (map chunk evs)"

lemma delivered_simps [simp]:
  "delivered [] = []" "delivered (e # es) = chunk e @ delivered es"
  "delivered (es @ fs) = delivered es @ delivered fs"
  by (simp_all add: delivered_def)

text \<open>A step from \<open>w\<close> to \<open>w'\<close> that only consumes outcomes and yields random bytes.\<close>

definition drew :: "nat \<Rightarrow> PskWorld \<Rightarrow> bytes \<Rightarrow> PskWorld \<Rightarrow> bool" where
  "drew n w r w' \<longleftrightarrow> w' = w\<lparr>pw_trace := pw_trace w'\<rparr> \<and>
     (\<exists>used. pw_trace w = used @ pw_trace w' \<and> r = take n (delivered used))"

lemma drew_none: "drew n w [] w"
  by (simp add: drew_def exI [of _ "[]"])

lemma drew_step:
  assumes "sys_random n w = (res, w1)" and "case res of Inl _ \<Rightarrow> bs = [] | Inr x \<Rightarrow> bs = x"
    and "drew (n - length bs) w1 r w'"
  shows "drew n w (bs @ r) w'"
proof -
  obtain ev where nx: "psk_next w = (ev, w1)"
    using assms(1) by (auto simp: sys_random_def split: prod.splits option.splits psk_event.splits)
  note c = psk_next_cases [OF nx]
  obtain used where u: "pw_trace w1 = used @ pw_trace w'" "r = take (n - length bs) (delivered used)"
    and w': "w' = w1\<lparr>pw_trace := pw_trace w'\<rparr>"
    using assms(3) by (auto simp: drew_def)
  have len: "length bs \<le> n \<and> (\<exists>x. delivered (case ev of None \<Rightarrow> [] | Some e \<Rightarrow> [e]) = x \<and>
      bs = take n x) \<or> (bs = [] \<and> delivered (case ev of None \<Rightarrow> [] | Some e \<Rightarrow> [e]) = [])"
    using assms(1,2) nx by (auto simp: sys_random_def split: option.splits psk_event.splits)
  have "bs @ r = take n (delivered ((case ev of None \<Rightarrow> [] | Some e \<Rightarrow> [e]) @ used))"
    using len u(2) by (auto simp: min_def)
  moreover have "pw_trace w = ((case ev of None \<Rightarrow> [] | Some e \<Rightarrow> [e]) @ used) @ pw_trace w'"
    using c(2) u(1) by simp
  moreover have "w' = w\<lparr>pw_trace := pw_trace w'\<rparr>" using c(1) w' by (metis PskWorld.update_convs(1) PskWorld.surjective)
  ultimately show ?thesis unfolding drew_def by blast
qed

lemma sys_random_length: "sys_random n w = (Inr bs, w1) \<Longrightarrow> length bs \<le> n"
  by (auto simp: sys_random_def split: prod.splits option.splits psk_event.splits)

lemma urandom_loop_props:
  "urandom_loop d n w = ((d', w'), e) \<Longrightarrow>
   (\<exists>r. d' = d @ r \<and> drew n w r w' \<and> (e = IPSEC_OK \<longrightarrow> length r = n))"
proof (induction d n w arbitrary: d' w' e rule: urandom_loop.induct)
  case (1 d n w)
  obtain res w1 where s: "sys_random n w = (res, w1)" by fastforce
  show ?case
  proof (cases "n = 0")
    case True
    then show ?thesis using 1(3) drew_none by (subst (asm) urandom_loop.simps) auto
  next
    case n: False
    show ?thesis
    proof (cases res)
      case (Inr bs)
      show ?thesis
      proof (cases "bs = []")
        case True
        then have "d' = d" "w' = w1" "e \<noteq> IPSEC_OK"
          using 1(3) n s Inr by (subst (asm) urandom_loop.simps; simp)+
        then show ?thesis using drew_step [OF s, of "[]" "[]" w1] drew_none Inr True by simp
      next
        case False
        have "urandom_loop (d @ bs) (n - length bs) w1 = ((d', w'), e)"
          using 1(3) n s Inr False by (subst (asm) urandom_loop.simps) simp
        from 1(2) [OF n refl s [symmetric] Inr False this] obtain r where r: "d' = (d @ bs) @ r"
          "drew (n - length bs) w1 r w'" "e = IPSEC_OK \<longrightarrow> length r = n - length bs" by blast
        moreover have "drew n w (bs @ r) w'" using drew_step [OF s _ r(2)] Inr by simp
        moreover have "length bs \<le> n" using sys_random_length s Inr by blast
        ultimately show ?thesis by (intro exI [of _ "bs @ r"]) simp
      qed
    next
      case (Inl err)
      show ?thesis
      proof (cases "err = FILE_EINTR")
        case True
        then have "urandom_loop d n w1 = ((d', w'), e)"
          using 1(3) n s Inl by (subst (asm) urandom_loop.simps) simp
        from 1(1) [OF n refl s [symmetric] Inl True this] show ?thesis
          using drew_step [OF s, of "[]" _ w'] Inl by fastforce
      next
        case False
        then have "d' = d" "w' = w1" "e \<noteq> IPSEC_OK"
          using 1(3) n s Inl by (subst (asm) urandom_loop.simps; simp)+
        then show ?thesis using drew_step [OF s, of "[]" "[]" w1] drew_none Inl by simp
      qed
    qed
  qed
qed

lemma getrandom_loop_props:
  "getrandom_loop d n w = (((d', w'), e), fb) \<Longrightarrow>
   (\<exists>r. d' = d @ r \<and> drew n w r w' \<and> (e = IPSEC_OK \<and> \<not> fb \<longrightarrow> length r = n) \<and> length r \<le> n)"
proof (induction d n w arbitrary: d' w' e fb rule: getrandom_loop.induct)
  case (1 d n w)
  obtain res w1 where s: "sys_random n w = (res, w1)" by fastforce
  have stop: ?case if "d' = d" "w' = w1" "e \<noteq> IPSEC_OK \<or> fb" "case res of Inl _ \<Rightarrow> True | Inr x \<Rightarrow> x = []"
    using that drew_step [OF s, of "[]" "[]" w1] drew_none by (cases res) auto
  show ?case
  proof (cases "n = 0")
    case True
    then show ?thesis using 1(3) drew_none by (subst (asm) getrandom_loop.simps) auto
  next
    case n: False
    show ?thesis
    proof (cases res)
      case (Inr bs)
      show ?thesis
      proof (cases "bs = []")
        case True
        then have "d' = d" "w' = w1" "e \<noteq> IPSEC_OK"
          using 1(3) n s Inr by (subst (asm) getrandom_loop.simps; simp)+
        then show ?thesis using stop Inr True by simp
      next
        case False
        have "getrandom_loop (d @ bs) (n - length bs) w1 = (((d', w'), e), fb)"
          using 1(3) n s Inr False by (subst (asm) getrandom_loop.simps) simp
        from 1(2) [OF n refl s [symmetric] Inr False this] obtain r where r: "d' = (d @ bs) @ r"
          "drew (n - length bs) w1 r w'" "e = IPSEC_OK \<and> \<not> fb \<longrightarrow> length r = n - length bs"
          "length r \<le> n - length bs" by blast
        moreover have "drew n w (bs @ r) w'" using drew_step [OF s _ r(2)] Inr by simp
        moreover have "length bs \<le> n" using sys_random_length s Inr by blast
        ultimately show ?thesis by (intro exI [of _ "bs @ r"]) simp
      qed
    next
      case (Inl err)
      show ?thesis
      proof (cases "err = FILE_EINTR")
        case True
        then have "getrandom_loop d n w1 = (((d', w'), e), fb)"
          using 1(3) n s Inl by (subst (asm) getrandom_loop.simps) simp
        from 1(1) [OF n refl s [symmetric] Inl True this] show ?thesis
          using drew_step [OF s, of "[]" _ w'] Inl by fastforce
      next
        case False
        then have "d' = d" "w' = w1" "e \<noteq> IPSEC_OK \<or> fb"
          using 1(3) n s Inl by (subst (asm) getrandom_loop.simps; auto split: if_splits)+
        then show ?thesis using stop Inl by simp
      qed
    qed
  qed
qed

lemma drew_trans:
  assumes "drew n w r w1" and "drew (n - length r) w1 r' w2" and "length r < n"
  shows "drew n w (r @ r') w2"
proof -
  obtain u1 u2 where u: "pw_trace w = u1 @ pw_trace w1" "r = take n (delivered u1)"
    "pw_trace w1 = u2 @ pw_trace w2" "r' = take (n - length r) (delivered u2)"
    and w: "w1 = w\<lparr>pw_trace := pw_trace w1\<rparr>" "w2 = w1\<lparr>pw_trace := pw_trace w2\<rparr>"
    using assms by (auto simp: drew_def)
  have "length (delivered u1) < n" using u(2) assms(3) by simp
  then have "r @ r' = take n (delivered (u1 @ u2))" using u by simp
  moreover have "pw_trace w = (u1 @ u2) @ pw_trace w2" using u by simp
  moreover have "w2 = w\<lparr>pw_trace := pw_trace w2\<rparr>" using w by (metis PskWorld.update_convs(1) PskWorld.surjective)
  ultimately show ?thesis unfolding drew_def by blast
qed

lemma drew_keeps: "drew n w r w' \<Longrightarrow> pw_file w' = pw_file w \<and> pw_open w' = pw_open w"
  unfolding drew_def by (metis PskWorld.ext_inject PskWorld.surjective PskWorld.update_convs(1))

lemma FillIpsecRandom_props:
  assumes "FillIpsecRandom n w = ((d, w'), e)"
  shows "pw_file w' = pw_file w \<and> pw_open w' = pw_open w \<and> (e = IPSEC_OK \<longrightarrow> length d = n \<and>
    (\<exists>used. pw_trace w = used @ pw_trace w' \<and> d = take n (delivered used)))"
proof -
  obtain d1 w1 e1 fb where g: "getrandom_loop [] n w = (((d1, w1), e1), fb)" by (metis prod.exhaust)
  from getrandom_loop_props [OF this] have g1: "drew n w d1 w1" "length d1 \<le> n"
    "e1 = IPSEC_OK \<and> \<not> fb \<longrightarrow> length d1 = n" by auto
  show ?thesis
  proof (cases fb)
    case False
    then show ?thesis using assms g g1 drew_keeps [OF g1(1)] by (auto simp: FillIpsecRandom_def drew_def)
  next
    case True
    obtain b w2 where o: "sys_open_urandom w1 = (b, w2)" by fastforce
    obtain ev w0 where nx: "psk_next w1 = (ev, w0)" by fastforce
    note c0 = psk_next_cases [OF nx]
    show ?thesis
    proof (cases b)
      case False
      then have "w2 = w0" using o nx by (auto simp: sys_open_urandom_def split: if_splits)
      then show ?thesis using assms g True o False drew_keeps [OF g1(1)] c0(1)
        by (auto simp: FillIpsecRandom_def ReadIpsecRandomFallback_def) (metis PskWorld.simps(2,3) PskWorld.surjective PskWorld.update_convs(1))+
    next
      case b: True
      then have w2: "w2 = w0\<lparr>pw_open := pw_open w0 + 1\<rparr>" and ev: "ev = Some UrandomOpened"
        using o nx by (auto simp: sys_open_urandom_def split: if_splits)
      obtain d3 w3 e3 where l: "urandom_loop d1 (n - length d1) w2 = ((d3, w3), e3)" by (metis prod.exhaust)
      from urandom_loop_props [OF this] obtain r where r: "d3 = d1 @ r" "drew (n - length d1) w2 r w3"
        "e3 = IPSEC_OK \<longrightarrow> length r = n - length d1" by blast
      obtain cl w4 where c: "sys_close_file w3 = (cl, w4)" by fastforce
      obtain ev4 w4' where nx4: "psk_next w3 = (ev4, w4')" by fastforce
      note c4 = psk_next_cases [OF nx4]
      have w4: "w4 = w4'\<lparr>pw_open := pw_open w4' - 1\<rparr>" using c nx4 by (auto simp: sys_close_file_def)
      have res: "d = d3" "w' = w4" "e = e3"
        using assms g True o b l c by (auto simp: FillIpsecRandom_def ReadIpsecRandomFallback_def)
      have keeps: "pw_file w' = pw_file w" "pw_open w' = pw_open w"
        using drew_keeps [OF g1(1)] drew_keeps [OF r(2)] c0(1) c4(1) w2 w4 res
        by (metis PskWorld.ext_inject PskWorld.surjective PskWorld.update_convs add_diff_cancel_right')+
      obtain u1 where u1: "pw_trace w = u1 @ pw_trace w1" "d1 = take n (delivered u1)"
        using g1(1) by (auto simp: drew_def)
      obtain u2 where u2: "pw_trace w2 = u2 @ pw_trace w3" "r = take (n - length d1) (delivered u2)"
        using r(2) by (auto simp: drew_def)
      have t: "pw_trace w1 = UrandomOpened # pw_trace w2" using c0(2) ev w2 by simp
      have t4: "pw_trace w3 = (case ev4 of None \<Rightarrow> [] | Some e \<Rightarrow> [e]) @ pw_trace w4"
        using c4(2) w4 by simp
      show ?thesis
      proof (cases "length d1 = n")
        case full: True
        then have "r = []" using u2 by simp
        then show ?thesis using keeps res r(1) full u1
          by (intro conjI impI; (intro exI [of _ "u1 @ UrandomOpened # u2 @ (case ev4 of None \<Rightarrow> [] | Some e \<Rightarrow> [e])"])?)
            (auto simp: t t4 u2)
      next
        case False
        then have "length (delivered u1) < n" using u1(2) g1(2) by auto
        then show ?thesis using keeps res r u1 u2 g1(2)
          by (intro conjI impI; (intro exI [of _ "u1 @ UrandomOpened # u2 @ (case ev4 of None \<Rightarrow> [] | Some e \<Rightarrow> [e])"])?)
            (auto simp: t t4)
      qed
    qed
  qed
qed

lemma psk_next_keeps: "psk_next w = (ev, w') \<Longrightarrow> pw_file w' = pw_file w \<and> pw_open w' = pw_open w"
  by (auto simp: psk_next_def split: list.splits)

lemma sys_write_props:
  assumes "sys_write t w = (res, w1)" and "pw_file w = Some (d, m)"
  shows "pw_open w1 = pw_open w \<and> (case res of Inl _ \<Rightarrow> pw_file w1 = Some (d, m)
      | Inr n \<Rightarrow> pw_file w1 = Some (d @ take n t, m) \<and> n \<le> length t)"
proof -
  obtain ev w0 where nx: "psk_next w = (ev, w0)" by fastforce
  show ?thesis
    using assms psk_next_keeps [OF nx] nx
    by (cases ev) (auto simp: sys_write_def Let_def min_def split: psk_event.splits)
qed

lemma write_loop_props:
  "write_loop t w = (w', e) \<Longrightarrow> pw_file w = Some (d, m) \<Longrightarrow>
   pw_open w' = pw_open w \<and> (\<exists>x. pw_file w' = Some (d @ x, m) \<and> (e = IPSEC_OK \<longrightarrow> x = t))"
proof (induction t w arbitrary: w' e d rule: write_loop.induct)
  case (1 t w)
  obtain res w1 where s: "sys_write t w = (res, w1)" by fastforce
  note w1 = sys_write_props [OF s 1(4)]
  show ?case
  proof (cases "t = []")
    case True
    then show ?thesis using 1(3,4) by (subst (asm) write_loop.simps) auto
  next
    case t: False
    show ?thesis
    proof (cases res)
      case (Inl err)
      show ?thesis
      proof (cases "err = FILE_EINTR")
        case True
        then have "write_loop t w1 = (w', e)" using 1(3) t s Inl by (subst (asm) write_loop.simps) simp
        from 1(1) [OF t refl s [symmetric] Inl True this] show ?thesis using w1 Inl by simp
      next
        case False
        then have "w' = w1" "e \<noteq> IPSEC_OK" using 1(3) t s Inl by (subst (asm) write_loop.simps; simp)+
        then show ?thesis using w1 Inl by simp
      qed
    next
      case (Inr n)
      show ?thesis
      proof (cases "0 < n")
        case True
        then have "write_loop (drop n t) w1 = (w', e)" using 1(3) t s Inr by (subst (asm) write_loop.simps) simp
        from 1(2) [OF t refl s [symmetric] Inr True this, of "d @ take n t"] obtain x
          where "pw_open w' = pw_open w1" "pw_file w' = Some ((d @ take n t) @ x, m)"
            "e = IPSEC_OK \<longrightarrow> x = drop n t"
          using w1 Inr by auto
        then have "pw_file w' = Some (d @ take n t @ x, m) \<and> (e = IPSEC_OK \<longrightarrow> take n t @ x = t)"
          by simp
        then show ?thesis using w1 Inr \<open>pw_open w' = pw_open w1\<close>
          by fastforce
      next
        case False
        then have "w' = w1" "e \<noteq> IPSEC_OK" using 1(3) t s Inr by (subst (asm) write_loop.simps; simp)+
        then show ?thesis using w1 Inr by simp
      qed
    qed
  qed
qed

lemma sys_open_new_props:
  assumes "sys_open_new w = (fd, w1)"
  shows "fd \<noteq> None \<Longrightarrow> pw_file w1 = pw_file w \<and> pw_open w1 = pw_open w"
    and "fd = None \<Longrightarrow> pw_file w = None \<and> pw_open w1 = pw_open w + 1 \<and> (\<exists>m. pw_file w1 = Some ([], m))"
proof -
  obtain ev w0 where nx: "psk_next w = (ev, w0)" by fastforce
  have "(fd \<noteq> None \<longrightarrow> pw_file w1 = pw_file w \<and> pw_open w1 = pw_open w) \<and>
    (fd = None \<longrightarrow> pw_file w = None \<and> pw_open w1 = pw_open w + 1 \<and> (\<exists>m. pw_file w1 = Some ([], m)))"
  proof (cases ev)
    case None
    then have "fd = Some FILE_EOTHER" "w1 = w0" using assms nx by (simp_all add: sys_open_new_def)
    then show ?thesis using psk_next_keeps [OF nx] by simp
  next
    case (Some x)
    show ?thesis
    proof (cases "\<exists>m. x = FileOpened m \<and> pw_file w0 = None")
      case True
      then obtain m where "fd = None" "w1 = w0\<lparr>pw_file := Some ([], m), pw_open := pw_open w0 + 1\<rparr>"
        using assms nx Some by (auto simp: sys_open_new_def)
      then show ?thesis using psk_next_keeps [OF nx] True by simp
    next
      case False
      then have "fd \<noteq> None" "w1 = w0"
        using assms nx Some by (cases x; auto simp: sys_open_new_def split: if_splits)+
      then show ?thesis using psk_next_keeps [OF nx] by simp
    qed
  qed
  then show "fd \<noteq> None \<Longrightarrow> pw_file w1 = pw_file w \<and> pw_open w1 = pw_open w"
    and "fd = None \<Longrightarrow> pw_file w = None \<and> pw_open w1 = pw_open w + 1 \<and> (\<exists>m. pw_file w1 = Some ([], m))"
    by blast+
qed

lemma WriteIpsecPskText_props:
  assumes "WriteIpsecPskText t w = (w', e)"
  shows "pw_open w' = pw_open w \<and> (e = IPSEC_OK \<longrightarrow> pw_file w = None \<and> pw_file w' = Some (t, owner_only)) \<and>
    (e \<noteq> IPSEC_OK \<longrightarrow> pw_file w' = pw_file w)"
proof -
  obtain fd w1 where o: "sys_open_new w = (fd, w1)" by fastforce
  note w1 = sys_open_new_props [OF o]
  show ?thesis
  proof (cases "fd = None")
    case False
    then show ?thesis using assms o w1(1) by (auto simp: WriteIpsecPskText_def split: if_splits)
  next
    case True
    obtain m where m: "pw_file w1 = Some ([], m)" using w1(2) True by blast
    obtain r2 w2 where f: "sys_fchmod owner_only w1 = (r2, w2)" by fastforce
    have w2: "pw_open w2 = pw_open w1 \<and> (\<exists>m. pw_file w2 = Some ([], m)) \<and>
        (r2 = None \<longrightarrow> pw_file w2 = Some ([], owner_only))"
      using f m psk_next_keeps [of w1]
      by (cases "psk_next w1") (auto simp: sys_fchmod_def split: option.splits psk_event.splits)
    define e2 where "e2 = (case r2 of None \<Rightarrow> IPSEC_OK
        | Some e \<Rightarrow> if e = FILE_EPERM then IPSEC_ERR_PERMISSION else IPSEC_ERR_FILE_WRITE)"
    obtain w3 e3 where l: "and_then (w2, e2) (write_loop t) = (w3, e3)" by fastforce
    have w3: "pw_open w3 = pw_open w1 \<and> (e3 = IPSEC_OK \<longrightarrow> pw_file w3 = Some (t, owner_only))"
    proof (cases "e2 = IPSEC_OK")
      case e2: True
      then have "r2 = None" by (auto simp: e2_def split: option.splits if_splits)
      moreover have "write_loop t w2 = (w3, e3)" using l e2 by simp
      ultimately show ?thesis using write_loop_props w2 by fastforce
    next
      case False
      then show ?thesis using l w2 by auto
    qed
    obtain w4 e4 where s: "and_then (w3, e3)
        (\<lambda>w. let (bSynced, w) = sys_fsync w in (w, if bSynced then IPSEC_OK else IPSEC_ERR_FILE_WRITE)) = (w4, e4)"
      by fastforce
    have w4: "pw_open w4 = pw_open w3 \<and> pw_file w4 = pw_file w3 \<and> (e4 = IPSEC_OK \<longrightarrow> e3 = IPSEC_OK)"
      using s psk_next_keeps [of w3]
      by (cases "e3 = IPSEC_OK"; cases "psk_next w3") (auto simp: sys_fsync_def)
    obtain c w5 where c: "sys_close_file w4 = (c, w5)" by fastforce
    have w5: "pw_open w5 = pw_open w4 - 1 \<and> pw_file w5 = pw_file w4"
      using c psk_next_keeps [of w4] by (cases "psk_next w4") (auto simp: sys_close_file_def)
    define e5 where "e5 = (if \<not> c \<and> e4 = IPSEC_OK then IPSEC_ERR_FILE_WRITE else e4)"
    have "(w', e) = (if e5 \<noteq> IPSEC_OK then sys_unlink w5 else w5, e5)"
      using assms unfolding WriteIpsecPskText_def o Let_def prod.case f e2_def [symmetric] l s [unfolded Let_def] c
        e5_def [symmetric] using True by auto
    moreover have "e5 = IPSEC_OK \<longrightarrow> e3 = IPSEC_OK" using w4 by (auto simp: e5_def)
    ultimately show ?thesis using w1(2) True w3 w4 w5 by (auto simp: sys_unlink_def split: if_splits)
  qed
qed

lemma hex_digit_inj: "a < 16 \<Longrightarrow> b < 16 \<Longrightarrow> hex_digit a = hex_digit b \<longleftrightarrow> a = b"
proof -
  have "\<forall>a \<in> {..<16}. \<forall>b \<in> {..<16}. hex_digit a = hex_digit b \<longrightarrow> a = b" by code_simp
  then show "a < 16 \<Longrightarrow> b < 16 \<Longrightarrow> ?thesis" by auto
qed

lemma hex_digit_not_end: "a < 16 \<Longrightarrow> hex_digit a \<noteq> newline \<and> hex_digit a \<noteq> CHR 0x0D"
proof -
  have "\<forall>a \<in> {..<16}. hex_digit a \<noteq> newline \<and> hex_digit a \<noteq> CHR 0x0D" by code_simp
  then show "a < 16 \<Longrightarrow> ?thesis" by auto
qed

lemma hex_text_simps [simp]:
  "hex_text [] = []"
  "hex_text (b # bs) = hex_digit (of_char b div 16) # hex_digit (of_char b mod 16) # hex_text bs"
  by (simp_all add: hex_text_def)

lemma length_hex_text [simp]: "length (hex_text bs) = 2 * length bs"
  by (induction bs) simp_all

lemma hex_text_inj: "hex_text a = hex_text b \<longleftrightarrow> a = b"
proof (induction a arbitrary: b)
  case Nil
  then show ?case by (cases b) simp_all
next
  case (Cons x xs)
  have d: "(of_char c :: nat) div 16 < 16" for c :: char
    using of_char_le_255 [of c] by (simp add: div_less_iff_less_mult)
  show ?case
  proof (cases b)
    case (Cons y ys)
    have "of_char x div 16 = (of_char y div 16 :: nat) \<and> of_char x mod 16 = (of_char y mod 16 :: nat) \<longleftrightarrow> x = y"
      by (metis div_mult_mod_eq of_char_eq_iff)
    then show ?thesis using Cons Cons.IH d by (auto simp: hex_digit_inj)
  qed simp
qed

lemma strip_hex: "bs \<noteq> [] \<Longrightarrow> strip_line_ends (hex_text bs @ [newline]) = hex_text bs"
proof -
  assume "bs \<noteq> []"
  then obtain cs c where bs: "bs = cs @ [c]" by (cases bs rule: rev_cases) auto
  have "hex_text (cs @ [c]) = hex_text cs @ hex_text [c]" for cs by (induction cs) simp_all
  moreover have "dropWhile (\<lambda>c. c = newline \<or> c = CHR 0x0D) (hex_digit (of_char c mod 16) # r) =
      hex_digit (of_char c mod 16) # r" for r
    using hex_digit_not_end [of "of_char c mod 16"] by simp
  ultimately show ?thesis using bs by (simp add: strip_line_ends_def)
qed

subsection \<open>The property\<close>


definition psk_world :: PskWorld where
  "psk_world = \<lparr>pw_trace = [RandomErrno FILE_EINTR, RandomBytes (replicate 16 (CHR ''k'')),
      RandomErrno FILE_ENOSYS, UrandomOpened, RandomBytes (replicate 64 (CHR 0xFF)), Closed,
      FileOpened 256, ChmodOk, Wrote 90, WriteErrno FILE_EINTR, Wrote 90, Synced, Closed],
     pw_file = None, pw_open = 3\<rparr>"


end
