(* ===== verification/AppConfigProps.thy ===== *)
theory AppConfigProps
  imports AppConfig
begin

section \<open>What the configuration functions do\<close>

text \<open>
  Tokens and proposal lists against \<open>split_on\<close>, the sizes of the texts as an invariant of
  every setting and file, the settings file as a printed list of settings, and when the
  library accepts the connection that the application builds.
\<close>

subsection \<open>Tokens\<close>

lemma strstr_at_first: "strstr_at s pat = Some n \<Longrightarrow> m < n \<Longrightarrow> \<not> prefix pat (drop m s)"
proof (induction s arbitrary: n m)
  case (Cons c cs)
  then show ?case by (cases m) (auto split: if_splits)
qed (auto split: if_splits)

lemma strstr_at_none: "strstr_at s pat = None \<Longrightarrow> \<not> prefix pat (drop m s)"
proof (induction s arbitrary: m)
  case (Cons c cs)
  then show ?case by (cases m) (auto split: if_splits)
qed (auto split: if_splits)

text \<open>An occurrence of the token with a separator or an end on both sides.\<close>

definition occurs_at :: "string \<Rightarrow> string \<Rightarrow> nat \<Rightarrow> bool" where
  "occurs_at p t pos \<longleftrightarrow> prefix t (drop pos p) \<and> (pos = 0 \<or> p ! (pos - 1) = CHR ''-'') \<and>
     (drop (pos + length t) p = [] \<or> hd (drop (pos + length t) p) = CHR ''-'')"

lemma token_loop_at_iff:
  "t \<noteq> [] \<Longrightarrow> CHR ''-'' \<notin> set t \<Longrightarrow> token_loop_at p t i \<longleftrightarrow> (\<exists>pos \<ge> i. occurs_at p t pos)"
proof (induction p t i rule: token_loop_at.induct)
  case (1 p t i)
  show ?case
  proof (cases "strstr_at (drop i p) t")
    case None
    then have "\<not> prefix t (drop pos p)" if "i \<le> pos" for pos
      using strstr_at_none [OF None, of "pos - i"] that by simp
    then show ?thesis using None 1(2) by (subst token_loop_at.simps) (auto simp: occurs_at_def)
  next
    case (Some n)
    have "0 < length t" using 1(2) by simp
    moreover have "n + length t \<le> length p - i" "prefix t (drop (i + n) p)"
      using strstr_at_le [OF Some] by (simp_all add: add.commute)
    ultimately have here: "prefix t (drop (i + n) p)" "i + n + length t \<le> length p" by linarith+
    have first: "\<not> occurs_at p t pos" if "i \<le> pos" "pos < i + n" for pos
      using strstr_at_first [OF Some, of "pos - i"] that by (auto simp: occurs_at_def)
    have inside: "\<not> occurs_at p t pos" if "i + n < pos" "pos < i + n + length t" for pos
    proof -
      have "p ! (pos - 1) = t ! (pos - 1 - (i + n))"
        using here that by (auto simp: prefix_def nth_append dest!: arg_cong [of _ _ "\<lambda>l. l ! (pos - 1 - (i + n))"])
      moreover have "t ! (pos - 1 - (i + n)) \<in> set t" using that by (intro nth_mem) linarith
      ultimately have "p ! (pos - 1) \<noteq> CHR ''-''" using 1(3) by metis
      then show ?thesis using that by (simp add: occurs_at_def)
    qed
    have occ: "occurs_at p t (i + n) \<longleftrightarrow> (i + n = 0 \<or> p ! (i + n - 1) = CHR ''-'') \<and>
        (drop (i + n + length t) p = [] \<or> hd (drop (i + n + length t) p) = CHR ''-'')"
      using here(1) by (simp add: occurs_at_def)
    have loop: "token_loop_at p t i \<longleftrightarrow> occurs_at p t (i + n) \<or> token_loop_at p t (i + n + length t)"
      using Some 1(2) by (subst token_loop_at.simps) (auto simp: occ Let_def)
    show ?thesis
    proof (cases "occurs_at p t (i + n)")
      case True
      moreover have "\<exists>pos \<ge> i. occurs_at p t pos" using True le_add1 by blast
      ultimately show ?thesis using loop by blast
    next
      case False
      then have "token_loop_at p t (i + n + length t) \<longleftrightarrow> (\<exists>pos \<ge> i + n + length t. occurs_at p t pos)"
        using 1(1) [OF _ Some refl refl refl refl] 1(2,3) occ by auto
      moreover have "pos \<ge> i + n + length t" if "i \<le> pos" "occurs_at p t pos" for pos
        using first [of pos] inside [of pos] False that by (metis le_less_linear nat_less_le)
      ultimately show ?thesis using loop False by (meson le_add1 order_trans)
    qed
  qed
qed

lemma split_on_occurs:
  "CHR ''-'' \<notin> set t \<Longrightarrow> t \<in> set (split_on (CHR ''-'') p) \<longleftrightarrow>
     (\<exists>a b. p = a @ t @ b \<and> (a = [] \<or> last a = CHR ''-'') \<and> (b = [] \<or> hd b = CHR ''-''))"
proof (induction p rule: length_induct)
  case (1 p)
  let ?c = "CHR ''-''"
  define u d where "u = takeWhile (\<lambda>x. x \<noteq> ?c) p" and "d = dropWhile (\<lambda>x. x \<noteq> ?c) p"
  have p: "p = u @ d" and u: "?c \<notin> set u" by (auto simp: u_def d_def dest: set_takeWhileD)
  have d: "d = [] \<or> hd d = ?c" unfolding d_def using hd_dropWhile by blast
  have split: "split_on ?c p = u # (if d = [] then [] else split_on ?c (tl d))"
    unfolding u_def d_def by (rule split_on_unfold)
  have "takeWhile (\<lambda>x. x \<noteq> ?c) (t @ b) = t" if "b = [] \<or> hd b = ?c" for b
    using that 1(2) by (induction t) (cases b; auto)+
  then have start: "t = u" if "p = t @ b" "b = [] \<or> hd b = ?c" for b
    using that unfolding u_def by simp
  show ?case
  proof (cases "d = []")
    case True
    have "a = []" if "p = a @ t @ b" "a = [] \<or> last a = ?c" for a b
      using that u p True by (metis append_Nil2 in_set_conv_decomp last_in_set set_append UnI1)
    then show ?thesis using split True start p by fastforce
  next
    case False
    then have dc: "d = ?c # tl d" using d by (cases d) auto
    have "length (tl d) < length p" using p False by (cases d) simp_all
    then have ih: "t \<in> set (split_on ?c (tl d)) \<longleftrightarrow>
        (\<exists>a b. tl d = a @ t @ b \<and> (a = [] \<or> last a = ?c) \<and> (b = [] \<or> hd b = ?c))"
      using 1 by blast
    have eq: "t \<in> set (split_on ?c p) \<longleftrightarrow> t = u \<or> t \<in> set (split_on ?c (tl d))"
      using split False by simp
    show ?thesis
    proof
      assume "t \<in> set (split_on ?c p)"
      then consider "t = u" | a b where "tl d = a @ t @ b" "a = [] \<or> last a = ?c" "b = [] \<or> hd b = ?c"
        using eq ih by blast
      then show "\<exists>a b. p = a @ t @ b \<and> (a = [] \<or> last a = ?c) \<and> (b = [] \<or> hd b = ?c)"
      proof cases
        case 1
        then show ?thesis using p d by (intro exI [of _ "[]"] exI [of _ d]) simp
      next
        case 2
        have "p = (u @ ?c # a) @ t @ b" using p dc 2(1) by simp
        moreover have "last (u @ ?c # a) = ?c" using 2(2) by auto
        ultimately show ?thesis using 2(3) by blast
      qed
    next
      assume "\<exists>a b. p = a @ t @ b \<and> (a = [] \<or> last a = ?c) \<and> (b = [] \<or> hd b = ?c)"
      then obtain a b where ab: "p = a @ t @ b" "a = [] \<or> last a = ?c" "b = [] \<or> hd b = ?c" by blast
      show "t \<in> set (split_on ?c p)"
      proof (cases "a = []")
        case True
        then show ?thesis using start [of b] ab eq by simp
      next
        case ne: False
        then have "?c \<in> set a" using ab(2) by (metis last_in_set)
        from ab(1) p have "a @ (t @ b) = u @ d" by simp
        then obtain us where us: "a = u @ us \<and> us @ t @ b = d \<or> a @ us = u \<and> t @ b = us @ d"
          by (auto simp: append_eq_append_conv2)
        moreover have "a @ us \<noteq> u" using \<open>?c \<in> set a\<close> u by auto
        ultimately have us: "a = u @ us" "us @ t @ b = d" by auto
        moreover have "us \<noteq> []" using us(1) \<open>?c \<in> set a\<close> u by auto
        ultimately obtain a' where a: "a = u @ ?c # a'"
          using dc by (metis append_Cons list.sel(1) neq_Nil_conv)
        have "tl d = a' @ t @ b" using ab(1) p dc a by simp
        moreover have "a' = [] \<or> last a' = ?c" using ab(2) a by (auto split: if_splits)
        ultimately show ?thesis using eq ih ab(3) by blast
      qed
    qed
  qed
qed

lemma occurs_parts:
  "t \<noteq> [] \<Longrightarrow> (\<exists>pos. occurs_at p t pos) \<longleftrightarrow>
   (\<exists>a b. p = a @ t @ b \<and> (a = [] \<or> last a = CHR ''-'') \<and> (b = [] \<or> hd b = CHR ''-''))"
proof
  assume t: "t \<noteq> []" and "\<exists>pos. occurs_at p t pos"
  then obtain pos where pos: "occurs_at p t pos" by blast
  then obtain b where b: "drop pos p = t @ b" by (auto simp: occurs_at_def prefix_def)
  have "p = take pos p @ t @ b" using b by (metis append_take_drop_id)
  moreover have "drop (pos + length t) p = b" using b by (metis add.commute append_eq_conv_conj drop_drop)
  moreover have "take pos p = [] \<or> last (take pos p) = p ! (pos - 1)"
  proof (cases "pos = 0 \<or> p = []")
    case False
    then have "take pos p \<noteq> []" by simp
    moreover have "pos \<le> length p" using b t by (cases "pos \<le> length p") simp_all
    ultimately show ?thesis using False pos
      by (auto simp: last_conv_nth min_def occurs_at_def)
  qed auto
  ultimately show "\<exists>a b. p = a @ t @ b \<and> (a = [] \<or> last a = CHR ''-'') \<and> (b = [] \<or> hd b = CHR ''-'')"
    using pos unfolding occurs_at_def by (metis take0)
next
  assume "t \<noteq> []" and "\<exists>a b. p = a @ t @ b \<and> (a = [] \<or> last a = CHR ''-'') \<and> (b = [] \<or> hd b = CHR ''-'')"
  then obtain a b where "p = a @ t @ b" "a = [] \<or> last a = CHR ''-''" "b = [] \<or> hd b = CHR ''-''" by blast
  then have "occurs_at p t (length a)"
    by (cases a rule: rev_cases) (auto simp: occurs_at_def nth_append)
  then show "\<exists>pos. occurs_at p t pos" by blast
qed

lemma HasNativeAppProposalToken_iff:
  assumes "t \<noteq> []" and "CHR ''-'' \<notin> set t"
  shows "HasNativeAppProposalToken esp t \<longleftrightarrow> (\<exists>p \<in> set esp. t \<in> set (split_on (CHR ''-'') p))"
  using token_loop_at_iff [OF assms, where i = 0] split_on_occurs [OF assms(2)] occurs_parts [OF assms(1)]
  by (simp add: HasNativeAppProposalToken_def list_ex_iff)

text \<open>The last token of a proposal, not counting the empty one behind a final dash.\<close>

definition last_token :: "string \<Rightarrow> string" where
  "last_token p =
     (let ts = split_on (CHR ''-'') p in if last ts = [] \<and> tl ts \<noteq> [] then last (butlast ts) else last ts)"

lemma pfs_loop_last: "p \<noteq> [] \<Longrightarrow> pfs_loop p b = key_exchange_token (last_token p)"
proof (induction p arbitrary: b rule: length_induct)
  case (1 p)
  let ?c = "CHR ''-''"
  define u d where "u = takeWhile (\<lambda>x. x \<noteq> ?c) p" and "d = dropWhile (\<lambda>x. x \<noteq> ?c) p"
  have split: "split_on ?c p = u # (if d = [] then [] else split_on ?c (tl d))"
    unfolding u_def d_def by (rule split_on_unfold)
  have loop: "pfs_loop p b = (if d = [] then key_exchange_token u else pfs_loop (tl d) (key_exchange_token u))"
    using 1(2) unfolding u_def d_def by (subst pfs_loop.simps) (simp add: Let_def)
  show ?case
  proof (cases "d = []")
    case True
    then show ?thesis using loop split by (simp add: last_token_def)
  next
    case False
    show ?thesis
    proof (cases "tl d = []")
      case True
      then have "pfs_loop p b = key_exchange_token u" using loop False by (subst (asm) pfs_loop.simps) simp
      then show ?thesis using split False True by (simp add: last_token_def)
    next
      case tl: False
      have "length (tl d) < length p"
        using False length_dropWhile_le [of "\<lambda>x. x \<noteq> ?c" p] unfolding d_def [symmetric] by (cases d) simp_all
      then have ih: "pfs_loop (tl d) x = key_exchange_token (last_token (tl d))" for x
        using 1(1) tl by blast
      have tt: "last_token (tl d) \<noteq> last_token p \<longrightarrow> False"
      proof -
        obtain v ws where s2: "split_on ?c (tl d) = v # ws" by (cases "split_on ?c (tl d)") auto
        have "v # ws = [[]] \<Longrightarrow> tl d = []" using s2 by (cases "tl d") (auto split: if_splits)
        then have "ws = [] \<Longrightarrow> v \<noteq> []" using tl by auto
        then show ?thesis using split False s2 by (cases ws) (auto simp: last_token_def Let_def)
      qed
      then show ?thesis using loop False ih by auto
    qed
  qed
qed

lemma HasNativeAppPfsToken_iff:
  "\<forall>p \<in> set esp. p \<noteq> [] \<Longrightarrow>
   HasNativeAppPfsToken esp \<longleftrightarrow> (\<exists>p \<in> set esp. key_exchange_token (last_token p))"
proof -
  have "\<forall>p \<in> set esp. p \<noteq> [] \<Longrightarrow>
      pfs_proposals esp b \<longleftrightarrow> b \<or> (\<exists>p \<in> set esp. key_exchange_token (last_token p))" for b
    by (induction esp arbitrary: b) (auto simp: pfs_loop_last)
  then show "\<forall>p \<in> set esp. p \<noteq> [] \<Longrightarrow> ?thesis" by (simp add: HasNativeAppPfsToken_def)
qed

subsection \<open>Proposal lists\<close>

definition trim :: "string \<Rightarrow> string" where
  "trim s = rev (dropWhile isspace (rev (dropWhile isspace s)))"

definition list_parts :: "string \<Rightarrow> string list" where
  "list_parts s = (let ps = split_on (CHR '','') s in if last ps = [] then butlast ps else ps)"

definition item_fits :: "string \<Rightarrow> bool" where
  "item_fits item \<longleftrightarrow> item \<noteq> [] \<and> length item < IPSEC_PROPOSAL_LENGTH"

lemma proposal_item_trim:
  assumes "length s \<le> UINT32_MAX"
  shows "proposal_item s =
    (let item = trim (takeWhile (\<lambda>c. c \<noteq> CHR '','') s) in if item_fits item then Some item else None)"
proof -
  define part where "part = takeWhile (\<lambda>c. c \<noteq> CHR '','') s"
  define sp core where "sp = takeWhile isspace part" and "core = dropWhile isspace part"
  define stripped where "stripped = rev (dropWhile isspace (rev part))"
  define rest where "rest = dropWhile (\<lambda>c. c \<noteq> CHR '','') s"
  have s: "s = part @ rest" by (simp add: part_def rest_def)
  have part: "part = sp @ core" by (simp add: sp_def core_def)
  have sps: "\<forall>c \<in> set sp. isspace c" unfolding sp_def by (auto dest: set_takeWhileD)
  have core: "core = [] \<or> \<not> isspace (hd core)" unfolding core_def using hd_dropWhile by blast
  have rest: "rest = [] \<or> \<not> isspace (hd rest)"
    using hd_dropWhile [of "\<lambda>c. c \<noteq> CHR '',''" s] unfolding rest_def by (auto simp: isspace_def)
  have skip: "takeWhile isspace s = sp"
  proof (cases "core = []")
    case True
    then have "s = sp @ rest" using s part by simp
    then show ?thesis using sps rest by (cases rest) (simp_all add: takeWhile_append)
  next
    case False
    then have "s = sp @ hd core # tl core @ rest" using s part by simp
    then show ?thesis using sps core False by (simp add: takeWhile_append)
  qed
  have item: "proposal_item s = (let n = u64_sub (length stripped) (length sp) in
      if n = 0 \<or> IPSEC_PROPOSAL_LENGTH \<le> n then None else Some (take n (drop (length sp) s)))"
    by (simp add: proposal_item_def skip Let_def part_def [symmetric] stripped_def)
  show ?thesis
  proof (cases "core = []")
    case True
    then have st: "stripped = []" using part sps by (simp add: stripped_def dropWhile_eq_Nil_conv)
    have "length sp \<le> UINT32_MAX" using assms s part by simp
    moreover have "u64_sub 0 n = 18446744073709551616 - n" if "0 < n" "n \<le> UINT32_MAX" for n
      using that by (simp add: u64_sub_def)
    ultimately have "u64_sub 0 (length sp) = 0 \<or> IPSEC_PROPOSAL_LENGTH \<le> u64_sub 0 (length sp)"
      by (cases "length sp = 0") (simp_all add: u64_sub_def)
    moreover have "trim part = []" using True by (simp add: trim_def core_def [symmetric])
    ultimately show ?thesis using item st
      by (auto simp: part_def [symmetric] item_fits_def Let_def)
  next
    case False
    define kern where "kern = rev (dropWhile isspace (rev core))"
    have ne: "kern \<noteq> []" using False core by (cases core) (auto simp: kern_def dropWhile_eq_Nil_conv)
    have "\<exists>c \<in> set core. \<not> isspace c" using False core by (cases core) auto
    then have strip: "stripped = sp @ kern" using part
      unfolding stripped_def kern_def by (simp add: dropWhile_append) blast
    obtain tail where tail: "core = kern @ tail"
      unfolding kern_def by (metis rev_append rev_rev_ident takeWhile_dropWhile_id)
    have "length stripped \<le> UINT32_MAX" using assms s part tail strip by simp
    then have n: "u64_sub (length stripped) (length sp) = length kern"
      using strip by (simp add: u64_sub_id)
    have "take (length kern) (drop (length sp) s) = kern" using s part tail by simp
    moreover have "trim part = kern" by (simp add: trim_def kern_def core_def)
    ultimately show ?thesis using item n ne
      by (simp add: part_def [symmetric] item_fits_def Let_def not_less)
  qed
qed

lemma split_loop_parts:
  "length s \<le> UINT32_MAX \<Longrightarrow> split_loop s items =
     (if (\<forall>p \<in> set (list_parts s). item_fits (trim p)) \<and>
         length items + length (list_parts s) \<le> max NATIVE_APP_PROPOSAL_COUNT (length items)
      then Some (items @ map trim (list_parts s)) else None)"
proof (induction s arbitrary: items rule: length_induct)
  case (1 s)
  let ?c = "CHR '',''"
  show ?case
  proof (cases "s = []")
    case True
    then show ?thesis by (subst split_loop.simps) (simp add: list_parts_def)
  next
    case False
    define u d where "u = takeWhile (\<lambda>x. x \<noteq> ?c) s" and "d = dropWhile (\<lambda>x. x \<noteq> ?c) s"
    have s: "s = u @ d" by (simp add: u_def d_def)
    have split: "split_on ?c s = u # (if d = [] then [] else split_on ?c (tl d))"
      unfolding u_def d_def by (rule split_on_unfold)
    have rest: "dropWhile (\<lambda>x. x \<noteq> ?c) (dropWhile isspace s) = d"
      unfolding d_def by (induction s) (auto simp: isspace_def)
    have loop: "split_loop s items =
        (if item_fits (trim u) \<and> length items < NATIVE_APP_PROPOSAL_COUNT
         then if d = [] then Some (items @ [trim u]) else split_loop (tl d) (items @ [trim u]) else None)"
      using False proposal_item_trim [OF 1(2)]
      by (subst split_loop.simps) (simp add: rest u_def [symmetric] Let_def)
    show ?thesis
    proof (cases "d = []")
      case True
      then have "list_parts s = [u]" using split s False by (simp add: list_parts_def)
      then show ?thesis using loop True by auto
    next
      case dne: False
      have len: "length (tl d) < length s" using s dne by (cases d) simp_all
      have lp: "list_parts s = u # list_parts (tl d)"
        using split dne by (simp add: list_parts_def Let_def)
      show ?thesis
        using loop dne 1(1) [rule_format, OF len, of "items @ [trim u]"] 1(2) len lp
        by (cases "list_parts (tl d)") (auto simp: max_def)
    qed
  qed
qed

lemma SplitNativeAppProposals_parts:
  assumes "length t \<le> UINT32_MAX"
  shows "SplitNativeAppProposals t =
    (let items = map trim (list_parts (cstr t)) in
     if items \<noteq> [] \<and> length items \<le> NATIVE_APP_PROPOSAL_COUNT \<and> list_all item_fits items
     then Inr items else Inl IPSEC_ERR_INVALID_ARGUMENT)"
proof -
  have "length (cstr t) \<le> UINT32_MAX" using assms length_cstr_le [of t] by simp
  then show ?thesis
    by (auto simp: SplitNativeAppProposals_def split_loop_parts Let_def list_all_iff)
qed

subsection \<open>The texts stay within their arrays\<close>

definition nc_wf :: "NativeAppConfig \<Rightarrow> bool" where
  "nc_wf c \<longleftrightarrow>
     terminated IPSEC_ADDRESS_LENGTH (nc_acLocalAddress c) \<and>
     terminated IPSEC_ADDRESS_LENGTH (nc_acRemoteAddress c) \<and>
     terminated IPSEC_ID_LENGTH (nc_acLocalId c) \<and> terminated IPSEC_ID_LENGTH (nc_acRemoteId c) \<and>
     terminated NATIVE_APP_PATH_LENGTH (nc_acPskFile c) \<and>
     terminated NATIVE_APP_PATH_LENGTH (nc_acOutputRoot c) \<and>
     terminated NATIVE_APP_PATH_LENGTH (nc_acViciSocket c) \<and>
     terminated IPSEC_NAME_LENGTH (nc_acConnectionName c) \<and>
     terminated IPSEC_NAME_LENGTH (nc_acChildName c) \<and>
     terminated IPSEC_NAME_LENGTH (nc_acCredentialId c) \<and>
     terminated IPSEC_ADDRESS_LENGTH (nc_acPeerServerAddress c) \<and>
     terminated NATIVE_APP_PROPOSAL_TEXT_LENGTH (nc_acIkeProposals c) \<and>
     terminated NATIVE_APP_PROPOSAL_TEXT_LENGTH (nc_acEspProposals c) \<and>
     nc_uiTimeoutMs c \<le> UINT32_MAX \<and> nc_uiPeerPort c \<le> UINT32_MAX"

lemma CopyNativeAppText_wf: "terminated n b \<Longrightarrow> terminated n (fst (CopyNativeAppText b v))"
  by (auto simp: CopyNativeAppText_def Let_def terminated_def length_buf_write)
    (auto simp: buf_write_def)

lemma copy_setting_wf:
  assumes "terminated n (get c)" and "\<And>b. terminated n b \<Longrightarrow> nc_wf (upd (\<lambda>_. b) c)"
  shows "nc_wf (fst (copy_setting get upd v c))"
  using assms CopyNativeAppText_wf [OF assms(1)] by (simp add: copy_setting_def case_prod_beta)

lemma copy_settings_wf:
  assumes "nc_wf c"
  shows "nc_wf (fst (copy_setting nc_acLocalAddress nc_acLocalAddress_update v c))"
    and "nc_wf (fst (copy_setting nc_acRemoteAddress nc_acRemoteAddress_update v c))"
    and "nc_wf (fst (copy_setting nc_acLocalId nc_acLocalId_update v c))"
    and "nc_wf (fst (copy_setting nc_acRemoteId nc_acRemoteId_update v c))"
    and "nc_wf (fst (copy_setting nc_acPskFile nc_acPskFile_update v c))"
    and "nc_wf (fst (copy_setting nc_acOutputRoot nc_acOutputRoot_update v c))"
    and "nc_wf (fst (copy_setting nc_acViciSocket nc_acViciSocket_update v c))"
    and "nc_wf (fst (copy_setting nc_acConnectionName nc_acConnectionName_update v c))"
    and "nc_wf (fst (copy_setting nc_acChildName nc_acChildName_update v c))"
    and "nc_wf (fst (copy_setting nc_acCredentialId nc_acCredentialId_update v c))"
    and "nc_wf (fst (copy_setting nc_acPeerServerAddress nc_acPeerServerAddress_update v c))"
    and "nc_wf (fst (copy_setting nc_acIkeProposals nc_acIkeProposals_update v c))"
    and "nc_wf (fst (copy_setting nc_acEspProposals nc_acEspProposals_update v c))"
proof -
  note f = assms [unfolded nc_wf_def]
  show "nc_wf (fst (copy_setting nc_acLocalAddress nc_acLocalAddress_update v c))"
    "nc_wf (fst (copy_setting nc_acRemoteAddress nc_acRemoteAddress_update v c))"
    "nc_wf (fst (copy_setting nc_acPeerServerAddress nc_acPeerServerAddress_update v c))"
    by (rule copy_setting_wf [of IPSEC_ADDRESS_LENGTH]; use f in \<open>simp add: nc_wf_def\<close>)+
  show "nc_wf (fst (copy_setting nc_acLocalId nc_acLocalId_update v c))"
    "nc_wf (fst (copy_setting nc_acRemoteId nc_acRemoteId_update v c))"
    by (rule copy_setting_wf [of IPSEC_ID_LENGTH]; use f in \<open>simp add: nc_wf_def\<close>)+
  show "nc_wf (fst (copy_setting nc_acPskFile nc_acPskFile_update v c))"
    "nc_wf (fst (copy_setting nc_acOutputRoot nc_acOutputRoot_update v c))"
    "nc_wf (fst (copy_setting nc_acViciSocket nc_acViciSocket_update v c))"
    by (rule copy_setting_wf [of NATIVE_APP_PATH_LENGTH]; use f in \<open>simp add: nc_wf_def\<close>)+
  show "nc_wf (fst (copy_setting nc_acConnectionName nc_acConnectionName_update v c))"
    "nc_wf (fst (copy_setting nc_acChildName nc_acChildName_update v c))"
    "nc_wf (fst (copy_setting nc_acCredentialId nc_acCredentialId_update v c))"
    by (rule copy_setting_wf [of IPSEC_NAME_LENGTH]; use f in \<open>simp add: nc_wf_def\<close>)+
  show "nc_wf (fst (copy_setting nc_acIkeProposals nc_acIkeProposals_update v c))"
    "nc_wf (fst (copy_setting nc_acEspProposals nc_acEspProposals_update v c))"
    by (rule copy_setting_wf [of NATIVE_APP_PROPOSAL_TEXT_LENGTH]; use f in \<open>simp add: nc_wf_def\<close>)+
qed

lemma other_settings_wf:
  assumes "nc_wf c"
  shows "nc_wf (c\<lparr>nc_eRole := r\<rparr>)" and "nc_wf (c\<lparr>nc_eMode := m\<rparr>)"
    and "nc_wf (c\<lparr>nc_bChildlessIke := b\<rparr>)" and "nc_wf (c\<lparr>nc_bTerminateOnExit := b\<rparr>)"
    and "nc_wf (c\<lparr>nc_uiTimeoutMs := u32 n\<rparr>)"
  using assms u32_le by (simp_all add: nc_wf_def)

lemma ParseNativeAppUint32_le: "ParseNativeAppUint32 v = Some n \<Longrightarrow> n \<le> UINT32_MAX"
  by (auto simp: ParseNativeAppUint32_def u32_le split: prod.splits if_splits)

lemma peer_port_wf: "nc_wf c \<Longrightarrow> n \<le> UINT32_MAX \<Longrightarrow> nc_wf (c\<lparr>nc_uiPeerPort := n\<rparr>)"
  by (simp add: nc_wf_def)

lemma timeout_wf: "nc_wf c \<Longrightarrow> n \<le> UINT32_MAX div 1000 \<Longrightarrow> nc_wf (c\<lparr>nc_uiTimeoutMs := n * 1000\<rparr>)"
  by (simp add: nc_wf_def)

lemma if_wf: "nc_wf (fst x) \<Longrightarrow> nc_wf (fst y) \<Longrightarrow> nc_wf (fst (if b then x else y))"
  by simp

lemma apply_setting_wf:
  assumes "nc_wf c"
  shows "nc_wf (fst (apply_setting k v c))"
  unfolding apply_setting_def Let_def
  apply (intro if_wf)
  apply (rule copy_settings_wf [OF assms] | simp add: assms other_settings_wf)+
  subgoal by (simp add: assms copy_settings_wf split: option.split)
  apply (rule copy_settings_wf [OF assms] | simp add: assms other_settings_wf)+
  subgoal by (simp add: assms other_settings_wf split: option.split)
  subgoal by (simp add: assms other_settings_wf split: option.split)
  subgoal using timeout_wf [OF assms] by (simp add: assms split: option.split)
  subgoal using peer_port_wf [OF assms] ParseNativeAppUint32_le by (simp add: assms split: option.split)
  by (simp_all add: assms)

lemma SetNativeAppConfigSetting_wf: "nc_wf c \<Longrightarrow> nc_wf (fst (SetNativeAppConfigSetting k v c))"
  using apply_setting_wf by (simp add: SetNativeAppConfigSetting_def case_prod_beta)

lemma setters_wf:
  "nc_wf c \<Longrightarrow> nc_wf (fst (SetNativeAppApplicationSetting k v c))"
  "nc_wf c \<Longrightarrow> nc_wf (fst (SetNativeAppManagementSetting k v c))"
  using SetNativeAppConfigSetting_wf
  by (simp_all add: SetNativeAppApplicationSetting_def SetNativeAppManagementSetting_def)

lemma settings_loop_wf:
  "(\<And>k v c. nc_wf c \<Longrightarrow> nc_wf (fst (setter k v c))) \<Longrightarrow> nc_wf (fst x) \<Longrightarrow>
   nc_wf (fst (fst (settings_loop p setter n f x)))"
proof (induction p setter n f x rule: settings_loop.induct)
  case (1 p setter n f x)
  note wf = 1(3,4)
  show ?case
  proof (cases "fgets NATIVE_APP_LINE_LENGTH f")
    case None
    then show ?thesis using wf by (subst settings_loop.simps) simp
  next
    case (Some y)
    obtain l eof f' where y: "y = (l, eof, f')" by (metis prod.exhaust)
    show ?thesis
    proof (cases "config_line_of p l eof")
      case IgnoreLine
      then show ?thesis using 1(1) [OF Some y [symmetric] refl IgnoreLine wf] Some y
        by (subst settings_loop.simps) simp
    next
      case (BadLine e t v)
      then show ?thesis using wf Some y by (subst settings_loop.simps) simp
    next
      case (SettingLine k v)
      have "nc_wf (fst (setter k v (fst x)))" using wf by simp
      then show ?thesis using SettingLine 1(2) [OF Some y [symmetric] refl SettingLine refl] wf Some y
        by (subst settings_loop.simps) (simp add: Let_def)
    qed
  qed
qed

lemma InitializeNativeAppConfig_wf: "nc_wf InitializeNativeAppConfig"
  unfolding nc_wf_def InitializeNativeAppConfig_def
  by (simp add: terminated_zero CopyNativeAppText_wf)

lemma settings_file_wf:
  "(\<And>k v c. nc_wf c \<Longrightarrow> nc_wf (fst (setter k v c))) \<Longrightarrow> nc_wf (fst x) \<Longrightarrow>
   nc_wf (fst (fst (LoadNativeAppSettingsFile p f setter n x)))"
  using settings_loop_wf [of setter x] by (simp add: LoadNativeAppSettingsFile_def split: option.split)

lemma default_peer_server_wf: "nc_wf c \<Longrightarrow> nc_wf (fst (default_peer_server c))"
  using CopyNativeAppText_wf [of IPSEC_ADDRESS_LENGTH "nc_acPeerServerAddress c"]
  by (simp add: default_peer_server_def case_prod_beta Let_def nc_wf_def)

lemma with_default_peer_wf: "nc_wf (fst x) \<Longrightarrow> nc_wf (fst (fst (with_default_peer x)))"
  using default_peer_server_wf by (simp add: with_default_peer_def case_prod_beta Let_def)

lemma and_then_wf:
  "nc_wf (fst (fst r)) \<Longrightarrow> (\<And>x. nc_wf (fst x) \<Longrightarrow> nc_wf (fst (fst (f x)))) \<Longrightarrow>
   nc_wf (fst (fst (and_then r f)))"
  by (simp add: and_then_def)

lemma report_invalid_ok: "snd (report_invalid n bad d) = IPSEC_OK \<longleftrightarrow> bad = None"
  by (simp add: report_invalid_def split: option.split)

lemma first_invalid_none: "first_invalid cs = None \<longleftrightarrow> (\<forall>(b, t) \<in> set cs. \<not> b)"
  by (induction cs) (auto simp: first_invalid_def)

text \<open>What the validation of a configuration with managed peers gives.\<close>

definition base_valid :: "NativeAppConfig \<Rightarrow> bool" where
  "base_valid c \<longleftrightarrow>
     IsNativeAppAddressValid (nc_acLocalAddress c) \<and>
     IsNativeAppAddressValid (nc_acPeerServerAddress c) \<and>
     (nc_eRole c = NATIVE_APP_ROLE_INITIATOR \<longrightarrow> cstr (nc_acLocalId c) \<noteq> []) \<and>
     cstr (nc_acPskFile c) \<noteq> [] \<and> cstr (nc_acIkeProposals c) \<noteq> [] \<and> cstr (nc_acEspProposals c) \<noteq> [] \<and>
     nc_eMode c \<in> {Some IPSEC_MODE_TUNNEL, Some IPSEC_MODE_TRANSPORT} \<and>
     0 < nc_uiPeerPort c \<and> nc_uiPeerPort c \<le> UINT16_MAX \<and> 0 < nc_uiTimeoutMs c"

lemma terminated_nonempty: "terminated n b \<Longrightarrow> b ! 0 = NUL \<longleftrightarrow> cstr b = []"
  by (cases b) (auto simp: terminated_def cstr_def)

lemma ValidateNativeAppBaseConfig_iff:
  assumes "nc_wf c"
  shows "snd (ValidateNativeAppBaseConfig n (Some c) d) = IPSEC_OK \<longleftrightarrow> base_valid c"
  using assms unfolding nc_wf_def
  by (auto simp: ValidateNativeAppBaseConfig_def report_invalid_ok first_invalid_none base_valid_def
      terminated_nonempty)

lemma reset_proposals_wf:
  "nc_wf c \<Longrightarrow> nc_wf (c\<lparr>nc_acIkeProposals := (nc_acIkeProposals c)[0 := NUL],
     nc_acEspProposals := (nc_acEspProposals c)[0 := NUL], nc_eMode := None\<rparr>)"
  unfolding nc_wf_def by (auto simp: terminated_def intro!: set_update_memI)

lemma LoadNativeAppConfigFiles_steps:
  assumes "nc_wf (fst x)" and "LoadNativeAppConfigFiles a fa m fm n x = ((c, d), e)"
  shows "nc_wf c" and "e = IPSEC_OK \<Longrightarrow> base_valid c"
proof -
  define validate where "validate = (\<lambda>(c, d). let (d, e) = ValidateNativeAppBaseConfig n (Some c) d in ((c, d), e))"
  have "nc_wf c \<and> (e = IPSEC_OK \<longrightarrow> base_valid c)"
  proof (cases "a = None \<or> m = None")
    case True
    then have "((c, d), e) = (x, IPSEC_ERR_INVALID_ARGUMENT)"
      using assms(2) by (auto simp: LoadNativeAppConfigFiles_def split: option.splits)
    then show ?thesis using assms(1) by (cases x) auto
  next
    case False
    then obtain pa pm where p: "a = Some pa" "m = Some pm" by auto
    define r where "r = and_then (and_then
        (LoadNativeAppSettingsFile pa fa SetNativeAppApplicationSetting n (InitializeNativeAppConfig, snd x))
        with_default_peer)
        (\<lambda>(c, d). LoadNativeAppSettingsFile pm fm SetNativeAppManagementSetting n
           (c\<lparr>nc_acIkeProposals := (nc_acIkeProposals c)[0 := NUL],
              nc_acEspProposals := (nc_acEspProposals c)[0 := NUL], nc_eMode := None\<rparr>, d))"
    have r: "and_then r validate = ((c, d), e)"
      using assms(2) by (simp add: LoadNativeAppConfigFiles_def p r_def validate_def)
    have wf: "nc_wf (fst (fst r))" unfolding r_def
      by (intro and_then_wf settings_file_wf setters_wf with_default_peer_wf)
        (auto intro!: settings_file_wf setters_wf reset_proposals_wf simp: InitializeNativeAppConfig_wf)
    obtain c' d' e' where r': "r = ((c', d'), e')" by (metis prod.exhaust)
    show ?thesis
    proof (cases "e' = IPSEC_OK")
      case True
      then have "c = c'" "e = snd (ValidateNativeAppBaseConfig n (Some c') d')"
        using r r' by (auto simp: validate_def case_prod_beta Let_def)
      then show ?thesis using wf r' ValidateNativeAppBaseConfig_iff by simp
    next
      case e: False
      then show ?thesis using r r' wf by simp
    qed
  qed
  then show "nc_wf c" and "e = IPSEC_OK \<Longrightarrow> base_valid c" by auto
qed

subsection \<open>A printed list of settings\<close>

definition trimmed :: "string \<Rightarrow> bool" where
  "trimmed s \<longleftrightarrow> s = [] \<or> \<not> isspace (hd s) \<and> \<not> isspace (last s)"

definition setting_text :: "string \<times> string \<Rightarrow> string" where
  "setting_text kv = fst kv @ '' = '' @ snd kv"

text \<open>A setting that fits a line: a key that is no comment, both texts without outer spaces.\<close>

definition line_setting :: "string \<times> string \<Rightarrow> bool" where
  "line_setting kv \<longleftrightarrow> fst kv \<noteq> [] \<and> trimmed (fst kv) \<and> trimmed (snd kv) \<and>
     hd (fst kv) \<notin> {CHR ''#'', CHR '';''} \<and> CHR ''='' \<notin> set (fst kv) \<and>
     NUL \<notin> set (setting_text kv) \<and> newline \<notin> set (setting_text kv) \<and>
     length (setting_text kv) < NATIVE_APP_LINE_LENGTH - 1"

definition settings_text :: "(string \<times> string) list \<Rightarrow> string" where
  "settings_text kvs = concat (map (\<lambda>kv. setting_text kv @ [newline]) kvs)"

fun apply_settings ::
  "config_setter \<Rightarrow> nat \<Rightarrow> (string \<times> string) list \<Rightarrow> NativeAppConfig \<times> string \<Rightarrow>
   (NativeAppConfig \<times> string) outcome" where
  "apply_settings setter n [] x = (x, IPSEC_OK)"
| "apply_settings setter n ((k, v) # kvs) (c, d) =
     (let (c, e) = setter k v c in
      if e \<noteq> IPSEC_OK then ((c, SetNativeAppError n ''unknown or invalid setting: '' k d), e)
      else apply_settings setter n kvs (c, d))"

lemma dropWhile_spaces: "\<forall>c \<in> set a. isspace c \<Longrightarrow> dropWhile isspace (a @ s) = dropWhile isspace s"
  by (induction a) simp_all

lemma TrimNativeAppText_pad:
  assumes "NUL \<notin> set (a @ s @ b)" and "\<forall>c \<in> set a. isspace c" and "\<forall>c \<in> set b. isspace c"
    and "trimmed s"
  shows "TrimNativeAppText (a @ s @ b) = s"
proof (cases "s = []")
  case True
  have "\<forall>c \<in> set (a @ b). isspace c" using assms by auto
  then have e: "dropWhile isspace (a @ b) = []" by (simp only: dropWhile_eq_Nil_conv)
  have "cstr (a @ b) = a @ b" using assms(1) by (intro cstr_id) simp
  then show ?thesis unfolding TrimNativeAppText_def True append_Nil by (simp only: e rev.simps dropWhile.simps)
next
  case False
  have "dropWhile isspace (a @ s @ b) = s @ b"
    using False assms(2,4) by (cases s) (simp_all add: dropWhile_spaces trimmed_def)
  moreover have "dropWhile isspace (rev b @ rev s) = rev s"
    using False assms(3,4) by (cases "rev s") (auto simp: dropWhile_spaces trimmed_def last_rev [symmetric] hd_rev)
  ultimately show ?thesis using assms(1) by (simp add: TrimNativeAppText_def cstr_id)
qed

lemma config_line_of_setting:
  assumes "line_setting kv"
  shows "config_line_of p (setting_text kv @ [newline]) False = SettingLine (fst kv) (snd kv)"
proof -
  obtain k v where kv: "kv = (k, v)" by fastforce
  note f = assms [unfolded line_setting_def kv fst_conv snd_conv setting_text_def]
  let ?t = "k @ '' = '' @ v"
  have nl: "isspace newline" "isspace (CHR '' '')" by code_simp+
  have eq: "\<not> isspace (CHR ''='')" by code_simp
  define body where "body = (if v = [] then k @ '' ='' else ?t)"
  have trim: "TrimNativeAppText (?t @ [newline]) = body"
  proof -
    have "TrimNativeAppText ([] @ body @ (if v = [] then [CHR '' ''] else []) @ [newline]) = body"
      using f nl eq by (intro TrimNativeAppText_pad) (auto simp: body_def trimmed_def)
    then show ?thesis by (simp add: body_def split: if_splits)
  qed
  have key: "takeWhile (\<lambda>c. c \<noteq> CHR ''='') body = k @ '' ''"
    using f by (auto simp: body_def takeWhile_append)
  have tk: "TrimNativeAppText (k @ '' '') = k"
    using TrimNativeAppText_pad [of "[]" k "'' ''"] f nl by simp
  have tv: "TrimNativeAppText (drop (length (k @ '' '') + 1) body) = v"
  proof (cases "v = []")
    case True
    then show ?thesis by (simp add: body_def TrimNativeAppText_def)
  next
    case False
    then show ?thesis using TrimNativeAppText_pad [of "'' ''" v "[]"] f nl by (simp add: body_def)
  qed
  have c: "cstr (?t @ [newline]) = ?t @ [newline]" using f by (intro cstr_id) auto
  have body: "body \<noteq> []" "hd body = hd k" "CHR ''='' \<in> set body" using f by (auto simp: body_def)
  show ?thesis unfolding config_line_of_def Let_def kv setting_text_def fst_conv snd_conv trim key tk tv
    using body f c by (simp add: strlen_def nth_append)
qed

lemma fgets_line:
  assumes "newline \<notin> set l" and "length l < n - 1"
  shows "fgets n \<lparr>af_data = l @ newline # rest, af_error = b\<rparr> =
    Some (l @ [newline], False, \<lparr>af_data = rest, af_error = b\<rparr>)"
proof -
  have "takeWhile (\<lambda>c. c \<noteq> newline) (l @ newline # rest) = l"
    using assms(1) by (induction l) auto
  then show ?thesis using assms(2) by (simp add: fgets_def Let_def)
qed

lemma settings_loop_text:
  "list_all line_setting kvs \<Longrightarrow>
   settings_loop p setter n \<lparr>af_data = settings_text kvs, af_error = False\<rparr> x = apply_settings setter n kvs x"
proof (induction kvs arbitrary: x)
  case Nil
  then show ?case by (subst settings_loop.simps) (simp add: fgets_def settings_text_def)
next
  case (Cons kv kvs)
  obtain c d where x: "x = (c, d)" by fastforce
  have "fgets NATIVE_APP_LINE_LENGTH \<lparr>af_data = settings_text (kv # kvs), af_error = False\<rparr> =
      Some (setting_text kv @ [newline], False, \<lparr>af_data = settings_text kvs, af_error = False\<rparr>)"
    using fgets_line [of "setting_text kv" NATIVE_APP_LINE_LENGTH "settings_text kvs"] Cons.prems
    by (simp add: settings_text_def line_setting_def)
  moreover have "config_line_of p (setting_text kv @ [newline]) False = SettingLine (fst kv) (snd kv)"
    using Cons.prems by (simp add: config_line_of_setting)
  ultimately show ?case using Cons
    by (subst settings_loop.simps) (cases kv, simp add: x Let_def case_prod_beta)
qed

subsection \<open>The library's view of the connection\<close>

text \<open>The connection settings of a file with one fixed peer are complete.\<close>

definition fixed_valid :: "NativeAppConfig \<Rightarrow> bool" where
  "fixed_valid c \<longleftrightarrow>
     IsNativeAppAddressValid (nc_acLocalAddress c) \<and> IsNativeAppAddressValid (nc_acRemoteAddress c) \<and>
     cstr (nc_acLocalId c) \<noteq> [] \<and> cstr (nc_acRemoteId c) \<noteq> [] \<and> cstr (nc_acPskFile c) \<noteq> [] \<and>
     cstr (nc_acConnectionName c) \<noteq> [] \<and> cstr (nc_acChildName c) \<noteq> [] \<and>
     cstr (nc_acIkeProposals c) \<noteq> [] \<and> cstr (nc_acEspProposals c) \<noteq> [] \<and> 0 < nc_uiTimeoutMs c"

lemma ValidateNativeAppConfig_iff:
  assumes "nc_wf c"
  shows "snd (ValidateNativeAppConfig n c d) = IPSEC_OK \<longleftrightarrow> fixed_valid c"
  using assms unfolding nc_wf_def
  by (auto simp: ValidateNativeAppConfig_def report_invalid_ok first_invalid_none fixed_valid_def
      terminated_nonempty)

lemma address_nonempty: "IsNativeAppAddressValid a \<Longrightarrow> cstr a \<noteq> []"
  by (auto simp: IsNativeAppAddressValid_def inet_pton4_def inet_pton6_def)

lemma host_selector_fits:
  assumes "IsNativeAppAddressValid a"
  shows "cstr (host_selector a) \<noteq> []" and "strlen (host_selector a) \<le> IPSEC_VICI_MAX_INPUT_LENGTH"
proof -
  obtain c cs where "cstr a = c # cs" using address_nonempty [OF assms] by (cases "cstr a") auto
  then have "c \<noteq> NUL" "host_selector a \<noteq> []" "hd (host_selector a) = c"
    using cstr_no_NUL [of a] by (auto simp: host_selector_def)
  then show "cstr (host_selector a) \<noteq> []" by (cases "host_selector a") (simp_all add: cstr_def)
  have "length (host_selector a) \<le> 511" by (simp add: host_selector_def)
  then show "strlen (host_selector a) \<le> IPSEC_VICI_MAX_INPUT_LENGTH"
    using length_cstr_le [of "host_selector a"] by (simp add: strlen_def)
qed

lemma address_view: "nc_wf c \<Longrightarrow> fixed_valid c \<Longrightarrow>
    view_ok (Some [Some (nc_acLocalAddress c)]) \<and> view_ok (Some [Some (nc_acRemoteAddress c)]) \<and>
    view_ok (Some [Some (host_selector (nc_acLocalAddress c))]) \<and>
    view_ok (Some [Some (host_selector (nc_acRemoteAddress c))])"
  using terminated_strlen address_nonempty host_selector_fits
  by (fastforce simp: view_ok_def nc_wf_def fixed_valid_def)

text \<open>The items of a proposal list hold no NUL and fit.\<close>

lemma SplitNativeAppProposals_items:
  assumes "SplitNativeAppProposals t = Inr items" and "length t \<le> UINT32_MAX"
  shows "items = map trim (list_parts (cstr t))" and "items \<noteq> []"
    and "length items \<le> NATIVE_APP_PROPOSAL_COUNT" and "list_all item_fits items"
  using assms(1) unfolding SplitNativeAppProposals_parts [OF assms(2)]
  by (auto simp: Let_def split: if_splits)

lemma split_on_subset: "p \<in> set (split_on c s) \<Longrightarrow> set p \<subseteq> set s"
proof (induction s arbitrary: p)
  case (Cons x xs)
  obtain q qs where q: "split_on c xs = q # qs" by (cases "split_on c xs") auto
  have "set p' \<subseteq> set xs" if "p' \<in> set (q # qs)" for p' using Cons(1) q that by simp
  then show ?case using Cons(2) q by (fastforce split: if_splits)
qed simp

lemma trim_subset: "set (trim s) \<subseteq> set s"
proof -
  have "set (dropWhile isspace r) \<subseteq> set r" for r using set_dropWhileD by fast
  from this [of "rev (dropWhile isspace s)"] this [of s] show ?thesis by (auto simp: trim_def)
qed

lemma list_parts_subset: "p \<in> set (list_parts s) \<Longrightarrow> set p \<subseteq> set s"
  using split_on_subset [of p "CHR '',''" s] by (auto simp: list_parts_def Let_def split: if_splits dest: in_set_butlastD)

lemma proposal_items_cstr:
  assumes "SplitNativeAppProposals t = Inr items" and "length t \<le> UINT32_MAX" and "p \<in> set items"
  shows "cstr p = p"
proof -
  obtain q where "q \<in> set (list_parts (cstr t))" "p = trim q"
    using assms SplitNativeAppProposals_items(1) [OF assms(1,2)] by auto
  then have "set p \<subseteq> set (cstr t)" using list_parts_subset trim_subset by blast
  then have "NUL \<notin> set p" using cstr_no_NUL [of t] by blast
  then show ?thesis by (rule cstr_id)
qed

lemma proposal_view:
  assumes "SplitNativeAppProposals t = Inr items" and "length t \<le> UINT32_MAX"
  shows "view_ok (Some (map Some items))" and "view_texts (Some (map Some items)) = items"
proof -
  note i = SplitNativeAppProposals_items [OF assms] proposal_items_cstr [OF assms]
  show "view_ok (Some (map Some items))"
    using i(2,3,4,5) by (fastforce simp: view_ok_def list_all_iff item_fits_def strlen_def)
  show "view_texts (Some (map Some items)) = items"
    using i(5) by (simp add: view_texts_def view_items_def comp_def map_idI)
qed

lemma runtime_connection_ok:
  assumes "nc_wf c" and "fixed_valid c"
    and ike: "SplitNativeAppProposals (nc_acIkeProposals c) = Inr ike"
    and esp: "SplitNativeAppProposals (nc_acEspProposals c) = Inr esp"
  shows "config_ok (runtime_connection c ike esp) \<longleftrightarrow>
    list_all name_char_ok (cstr (nc_acConnectionName c)) \<and> list_all name_char_ok (cstr (nc_acChildName c)) \<and>
    nc_eMode c \<in> {Some IPSEC_MODE_TUNNEL, Some IPSEC_MODE_TRANSPORT} \<and>
    (HasNativeAppPfsToken esp \<longrightarrow> ContainsConnectionPfsToken (Some (map Some esp)))"
proof -
  let ?r = "runtime_connection c ike esp"
  note wf = assms(1) [unfolded nc_wf_def]
  note v = assms(2) [unfolded fixed_valid_def]
  have len: "length (nc_acIkeProposals c) \<le> UINT32_MAX" "length (nc_acEspProposals c) \<le> UINT32_MAX"
    using wf by (simp_all add: terminated_def)
  have ids: "id_ok (Some (nc_acLocalId c))" "id_ok (Some (nc_acRemoteId c))"
    using wf v terminated_strlen by (auto simp: id_ok_def)
  have names: "name_ok (Some t) \<longleftrightarrow> list_all name_char_ok (cstr t)"
    if "terminated IPSEC_NAME_LENGTH t" "cstr t \<noteq> []" for t
    using that terminated_strlen by (auto simp: name_ok_def)
  have esn: "HasNativeAppProposalToken esp t \<longleftrightarrow>
      (\<exists>p \<in> set (view_texts (Some (map Some esp))). t \<in> set (split_on (CHR ''-'') p))"
    if "t \<in> {''esn'', ''noesn''}" for t
    unfolding proposal_view(2) [OF esp len(2)] using that by (intro HasNativeAppProposalToken_iff) auto
  have mode: "cc_eMode ?r \<in> {IPSEC_MODE_TUNNEL, IPSEC_MODE_TRANSPORT} \<longleftrightarrow>
      nc_eMode c \<in> {Some IPSEC_MODE_TUNNEL, Some IPSEC_MODE_TRANSPORT}"
    by (auto simp: runtime_connection_def split: option.splits)
  show ?thesis
    unfolding config_ok_def mode
    using ids names esn address_view [OF assms(1,2)] proposal_view(1) [OF ike len(1)]
      proposal_view(1) [OF esp len(2)] wf v
    by (auto simp: runtime_connection_def)
qed

text \<open>A key-exchange token that is not the last one of its proposal is not seen.\<close>

lemma pfs_token_behind_esn: "\<not> HasNativeAppPfsToken [''aes256-sha256-modp2048-esn'']"
  by code_simp

lemma pfs_token_last: "HasNativeAppPfsToken [''aes256-sha256-esn-modp2048'']"
  by code_simp

subsection \<open>The properties\<close>

text \<open>C15: Whatever the two files hold, the texts of the configuration that
  \<open>LoadNativeAppConfigFiles\<close> leaves are terminated within their arrays and its numbers within
  their types; if it succeeds, the configuration is complete for managed peers.\<close>

theorem LoadNativeAppConfigFiles_valid:
  assumes "nc_wf (fst x)" and "LoadNativeAppConfigFiles a fa m fm n x = ((c, d), e)"
  shows "nc_wf c \<and> (e = IPSEC_OK \<longrightarrow> base_valid c)"
  using LoadNativeAppConfigFiles_steps [OF assms] by blast

definition application_file :: AppFile where
  "application_file = \<lparr>af_data = settings_text
     [(''role'', ''initiator''), (''local_ip'', ''10.0.0.1''), (''local_id'', ''a''),
      (''psk_file'', ''/k''), (''peer_port'', ''39002'')], af_error = False\<rparr>"

definition management_file :: AppFile where
  "management_file = \<lparr>af_data = settings_text
     [(''ike_proposals'', ''aes256-sha256-modp2048''), (''esp_proposals'', ''aes256gcm16-esn''),
      (''ipsec_mode'', ''transport'')], af_error = False\<rparr>"

lemma CopyNativeAppText_fits:
  assumes "NUL \<notin> set v" and "length v < length b"
  shows "CopyNativeAppText b v = (buf_write b 0 (v @ [NUL]), True)"
  using assms by (simp add: CopyNativeAppText_def strnlen_min strlen_id Let_def)

lemma cstr_written: "NUL \<notin> set v \<Longrightarrow> cstr (buf_write b 0 (v @ [NUL])) = v"
  by (simp add: cstr_buf_write0 cstr_id)

lemma length_written: "length v < length b \<Longrightarrow> length (buf_write b 0 (v @ [NUL])) = length b"
  by (simp add: buf_write_def)

lemmas setting_steps =
  SetNativeAppApplicationSetting_def SetNativeAppManagementSetting_def SetNativeAppConfigSetting_def
  apply_setting_def copy_setting_def CopyNativeAppText_fits strcmp_eq_def cstr_def

lemma application_keys_used:
  "IsNativeAppApplicationKey ''role''" "IsNativeAppApplicationKey ''local_ip''"
  "IsNativeAppApplicationKey ''local_id''" "IsNativeAppApplicationKey ''psk_file''"
  "IsNativeAppApplicationKey ''peer_port''"
  by code_simp+

lemma application_file_settings:
  assumes "nc_wf c"
  shows "\<exists>c'. LoadNativeAppSettingsFile p (Some application_file) SetNativeAppApplicationSetting n (c, d) =
      ((c', d), IPSEC_OK) \<and> nc_wf c' \<and> nc_eRole c' = NATIVE_APP_ROLE_INITIATOR \<and>
      cstr (nc_acLocalAddress c') = ''10.0.0.1'' \<and> cstr (nc_acLocalId c') = ''a'' \<and>
      cstr (nc_acPskFile c') = ''/k'' \<and> nc_uiPeerPort c' = 39002 \<and>
      nc_uiTimeoutMs c' = nc_uiTimeoutMs c \<and> nc_acPeerServerAddress c' = nc_acPeerServerAddress c"
proof -
  let ?kvs = "[(''role'', ''initiator''), (''local_ip'', ''10.0.0.1''), (''local_id'', ''a''),
      (''psk_file'', ''/k''), (''peer_port'', ''39002'')]"
  have len: "length (nc_acLocalAddress c) = IPSEC_ADDRESS_LENGTH" "length (nc_acLocalId c) = IPSEC_ID_LENGTH"
    "length (nc_acPskFile c) = NATIVE_APP_PATH_LENGTH"
    using assms by (simp_all add: nc_wf_def terminated_def)
  have w: "cstr (buf_write b 0 (''10.0.0.1'' @ [NUL])) = ''10.0.0.1''" "cstr (buf_write b 0 (''a'' @ [NUL])) = ''a''"
    "cstr (buf_write b 0 (''/k'' @ [NUL])) = ''/k''" for b
    by (intro cstr_written; simp)+
  have kvs: "list_all line_setting ?kvs" by code_simp
  have port: "ParseNativeAppUint32 ''39002'' = Some 39002" by code_simp
  let ?c' = "c\<lparr>nc_eRole := NATIVE_APP_ROLE_INITIATOR,
      nc_acLocalAddress := buf_write (nc_acLocalAddress c) 0 (''10.0.0.1'' @ [NUL]),
      nc_acLocalId := buf_write (nc_acLocalId c) 0 (''a'' @ [NUL]),
      nc_acPskFile := buf_write (nc_acPskFile c) 0 (''/k'' @ [NUL]), nc_uiPeerPort := 39002\<rparr>"
  have run: "LoadNativeAppSettingsFile p (Some application_file) SetNativeAppApplicationSetting n (c, d) =
      ((?c', d), IPSEC_OK)"
    using len application_keys_used port
    by (simp add: LoadNativeAppSettingsFile_def application_file_def settings_loop_text [OF kvs] setting_steps)
  have "nc_wf ?c'"
    using settings_file_wf [of SetNativeAppApplicationSetting "(c, d)" p "Some application_file" n]
      setters_wf assms run by simp
  then show ?thesis using run w by (intro exI [of _ ?c']) simp
qed

lemma management_file_settings:
  assumes "nc_wf c"
  shows "\<exists>c'. LoadNativeAppSettingsFile p (Some management_file) SetNativeAppManagementSetting n (c, d) =
      ((c', d), IPSEC_OK) \<and> nc_wf c' \<and> nc_eMode c' = Some IPSEC_MODE_TRANSPORT \<and>
      cstr (nc_acIkeProposals c') = ''aes256-sha256-modp2048'' \<and>
      cstr (nc_acEspProposals c') = ''aes256gcm16-esn'' \<and>
      nc_eRole c' = nc_eRole c \<and> nc_acLocalAddress c' = nc_acLocalAddress c \<and>
      nc_acLocalId c' = nc_acLocalId c \<and> nc_acPskFile c' = nc_acPskFile c \<and>
      nc_uiPeerPort c' = nc_uiPeerPort c \<and> nc_uiTimeoutMs c' = nc_uiTimeoutMs c \<and>
      nc_acPeerServerAddress c' = nc_acPeerServerAddress c"
proof -
  let ?kvs = "[(''ike_proposals'', ''aes256-sha256-modp2048''), (''esp_proposals'', ''aes256gcm16-esn''),
      (''ipsec_mode'', ''transport'')]"
  have len: "length (nc_acIkeProposals c) = NATIVE_APP_PROPOSAL_TEXT_LENGTH"
    "length (nc_acEspProposals c) = NATIVE_APP_PROPOSAL_TEXT_LENGTH"
    using assms by (simp_all add: nc_wf_def terminated_def)
  have w: "cstr (buf_write b 0 (''aes256-sha256-modp2048'' @ [NUL])) = ''aes256-sha256-modp2048''"
    "cstr (buf_write b 0 (''aes256gcm16-esn'' @ [NUL])) = ''aes256gcm16-esn''" for b
    by (intro cstr_written; simp)+
  have kvs: "list_all line_setting ?kvs" by code_simp
  let ?c' = "c\<lparr>nc_acIkeProposals := buf_write (nc_acIkeProposals c) 0 (''aes256-sha256-modp2048'' @ [NUL]),
      nc_acEspProposals := buf_write (nc_acEspProposals c) 0 (''aes256gcm16-esn'' @ [NUL]),
      nc_eMode := Some IPSEC_MODE_TRANSPORT\<rparr>"
  have run: "LoadNativeAppSettingsFile p (Some management_file) SetNativeAppManagementSetting n (c, d) =
      ((?c', d), IPSEC_OK)"
    using len
    by (simp add: LoadNativeAppSettingsFile_def management_file_def settings_loop_text [OF kvs] setting_steps)
  have "nc_wf ?c'"
    using settings_file_wf [of SetNativeAppManagementSetting "(c, d)" p "Some management_file" n]
      setters_wf assms run by simp
  then show ?thesis using run w by (intro exI [of _ ?c']) simp
qed

theorem LoadNativeAppConfigFiles_valid_witness:
  "base_valid (fst (fst (LoadNativeAppConfigFiles (Some ''a'') (Some application_file)
     (Some ''m'') (Some management_file) 0 (InitializeNativeAppConfig, []))))"
proof -
  let ?r = "LoadNativeAppConfigFiles (Some ''a'') (Some application_file)
     (Some ''m'') (Some management_file) 0 (InitializeNativeAppConfig, [])"
  note init = InitializeNativeAppConfig_wf
  obtain c1 where c1: "LoadNativeAppSettingsFile ''a'' (Some application_file) SetNativeAppApplicationSetting 0
      (InitializeNativeAppConfig, []) = ((c1, []), IPSEC_OK)" "nc_wf c1"
    "nc_eRole c1 = NATIVE_APP_ROLE_INITIATOR" "cstr (nc_acLocalAddress c1) = ''10.0.0.1''"
    "cstr (nc_acLocalId c1) = ''a''" "cstr (nc_acPskFile c1) = ''/k''" "nc_uiPeerPort c1 = 39002"
    "nc_uiTimeoutMs c1 = 30000" "nc_acPeerServerAddress c1 = replicate IPSEC_ADDRESS_LENGTH NUL"
    using application_file_settings [OF init, of "''a''" 0 "[]"] by (auto simp: InitializeNativeAppConfig_def)
  let ?peer = "buf_write (nc_acPeerServerAddress c1) 0 (''10.0.0.1'' @ [NUL])"
  let ?c2 = "c1\<lparr>nc_acPeerServerAddress := ?peer\<rparr>"
  have copy: "CopyNativeAppText (nc_acPeerServerAddress c1) (nc_acLocalAddress c1) = (?peer, True)"
    using c1(4,9) take_strnlen [of "nc_acLocalAddress c1" IPSEC_ADDRESS_LENGTH]
    by (simp add: CopyNativeAppText_def strnlen_min strlen_def)
  have c2: "with_default_peer (c1, []) = ((?c2, []), IPSEC_OK)"
    using c1 copy by (simp add: with_default_peer_def default_peer_server_def)
  have wf2: "nc_wf ?c2" using with_default_peer_wf [of "(c1, [])"] c1(2) c2 by simp
  obtain c3 where c3: "LoadNativeAppSettingsFile ''m'' (Some management_file) SetNativeAppManagementSetting 0
      (?c2\<lparr>nc_acIkeProposals := (nc_acIkeProposals ?c2)[0 := NUL],
         nc_acEspProposals := (nc_acEspProposals ?c2)[0 := NUL], nc_eMode := None\<rparr>, []) =
      ((c3, []), IPSEC_OK)" "nc_wf c3" "base_valid c3"
  proof -
    have ip: "inet_pton4 ''10.0.0.1''" by code_simp
    have "cstr ?peer = ''10.0.0.1''" by (rule cstr_written) simp
    then show thesis
      using management_file_settings [OF reset_proposals_wf [OF wf2], of "''m''" 0 "[]"] c1 that ip
      by (auto simp: base_valid_def IsNativeAppAddressValid_def)
  qed
  have "snd ?r = IPSEC_OK"
    using c3(3) ValidateNativeAppBaseConfig_iff [OF c3(2)] c1(1) c2 c3(1)
    by (simp add: LoadNativeAppConfigFiles_def case_prod_beta Let_def)
  moreover have "?r = ((fst (fst ?r), snd (fst ?r)), snd ?r)" by simp
  moreover have "nc_wf (fst (InitializeNativeAppConfig, [] :: string))" using init by simp
  ultimately show ?thesis using LoadNativeAppConfigFiles_valid by blast
qed

text \<open>C16: A file with one line \<open>key = value\<close> per setting does what the settings do one after the
  other, up to the first that is rejected, which the diagnostic text names.\<close>

theorem LoadNativeAppSettingsFile_text:
  assumes "list_all line_setting kvs"
  shows "LoadNativeAppSettingsFile p (Some \<lparr>af_data = settings_text kvs, af_error = False\<rparr>) setter n x =
    apply_settings setter n kvs x"
  unfolding LoadNativeAppSettingsFile_def by (simp add: settings_loop_text [OF assms])

theorem LoadNativeAppSettingsFile_text_witness:
  "LoadNativeAppSettingsFile ''a'' (Some \<lparr>af_data = settings_text
       [(''role'', ''responder''), (''peer_port'', ''70000''), (''role'', ''initiator'')], af_error = False\<rparr>)
     SetNativeAppApplicationSetting 200 (InitializeNativeAppConfig, []) =
   ((InitializeNativeAppConfig\<lparr>nc_eRole := NATIVE_APP_ROLE_RESPONDER, nc_uiPeerPort := 70000\<rparr>,
     ''unknown or invalid setting: peer_port''), IPSEC_ERR_INVALID_ARGUMENT)"
proof -
  let ?kvs = "[(''role'', ''responder''), (''peer_port'', ''70000''), (''role'', ''initiator'')]"
  have ok: "list_all line_setting ?kvs" by code_simp
  have a: "SetNativeAppApplicationSetting ''role'' ''responder'' c = (c\<lparr>nc_eRole := NATIVE_APP_ROLE_RESPONDER\<rparr>, IPSEC_OK)" for c
  proof -
    have "IsNativeAppApplicationKey ''role''" by code_simp
    moreover have "strcmp_eq ''role'' ''role''" "\<not> strcmp_eq ''initiator'' ''responder''"
      "strcmp_eq ''responder'' ''responder''" by code_simp+
    ultimately show ?thesis
      by (simp add: SetNativeAppApplicationSetting_def SetNativeAppConfigSetting_def apply_setting_def)
  qed
  have b: "SetNativeAppApplicationSetting ''peer_port'' ''70000'' c =
      (c\<lparr>nc_uiPeerPort := 70000\<rparr>, IPSEC_ERR_INVALID_ARGUMENT)" for c
  proof -
    have "IsNativeAppApplicationKey ''peer_port''" by code_simp
    moreover have "ParseNativeAppUint32 ''70000'' = Some 70000" by code_simp
    ultimately show ?thesis
      by (simp add: SetNativeAppApplicationSetting_def SetNativeAppConfigSetting_def apply_setting_def
          strcmp_eq_def cstr_def)
  qed
  show ?thesis
    unfolding LoadNativeAppSettingsFile_text [OF ok] by (simp add: a b SetNativeAppError_def cstr_def)
qed


definition text_buf :: "nat \<Rightarrow> string \<Rightarrow> cbuf" where
  "text_buf n v = v @ NUL # replicate (n - length v - 1) NUL"

lemma text_buf_simps:
  "NUL \<notin> set v \<Longrightarrow> cstr (text_buf n v) = v"
  "length v < n \<Longrightarrow> terminated n (text_buf n v)"
  by (simp_all add: text_buf_def cstr_id terminated_def)

definition fixed_config :: NativeAppConfig where
  "fixed_config = InitializeNativeAppConfig
     \<lparr>nc_acLocalAddress := text_buf IPSEC_ADDRESS_LENGTH ''10.0.0.1'',
      nc_acRemoteAddress := text_buf IPSEC_ADDRESS_LENGTH ''fe80::1'',
      nc_acLocalId := text_buf IPSEC_ID_LENGTH ''a'', nc_acRemoteId := text_buf IPSEC_ID_LENGTH ''b'',
      nc_acPskFile := text_buf NATIVE_APP_PATH_LENGTH ''/k'',
      nc_acConnectionName := text_buf IPSEC_NAME_LENGTH ''c'', nc_acChildName := text_buf IPSEC_NAME_LENGTH ''n'',
      nc_acIkeProposals := text_buf NATIVE_APP_PROPOSAL_TEXT_LENGTH ''aes256-modp2048'',
      nc_acEspProposals := text_buf NATIVE_APP_PROPOSAL_TEXT_LENGTH ''aes256-modp2048-esn, null''\<rparr>"

lemma fixed_config_wf: "nc_wf fixed_config"
  using InitializeNativeAppConfig_wf unfolding nc_wf_def fixed_config_def by (simp add: text_buf_simps)


end
