(* ===== verification/AppCatalog.thy ===== *)
theory AppCatalog
  imports AppConfigProps
begin

section \<open>The catalogue of algorithm cases (\<open>app/algorithm_catalog.c\<close>)\<close>

text \<open>
  The tables of the source and the numbering of the cases built from them.  An index of an
  exhaustive catalogue is a number in mixed radix: the key exchange (or the ESN mode) is its
  lowest digit.  A character array of a case is zeroed before it is written.
\<close>

abbreviation NATIVE_APP_ALGORITHM_CASE_ID_LENGTH :: nat where "NATIVE_APP_ALGORITHM_CASE_ID_LENGTH \<equiv> 64"

datatype NativeAppAlgorithmMode =
    NATIVE_APP_ALGORITHM_BASELINE
  | NATIVE_APP_ALGORITHM_EXHAUSTIVE_IKE
  | NATIVE_APP_ALGORITHM_EXHAUSTIVE_ESP
  | NATIVE_APP_ALGORITHM_CUSTOM

record NativeAppAlgorithmCase =
  ac_uiNumber :: nat
  ac_acId :: cbuf
  ac_acIkeProposal :: cbuf
  ac_acEspProposal :: cbuf
  ac_acExpectedChildKe :: cbuf
  ac_bSeparateChildExchange :: bool
  ac_bExpectEsn :: bool
  ac_bExpectNoEsn :: bool

record NativeAppBaselineCase =
  bc_pcId :: string
  bc_pcIkeProposal :: string
  bc_pcEspProposal :: string
  bc_bSeparateChildExchange :: bool

record NativeAppKeAlgorithm =
  ke_pcKeyword :: string
  ke_pcObservedName :: string

subsection \<open>The tables\<close>

definition gaNativeAppBaselineCases :: "NativeAppBaselineCase list" where
  "gaNativeAppBaselineCases =
     map (\<lambda>(i, k, e, b). \<lparr>bc_pcId = i, bc_pcIkeProposal = k, bc_pcEspProposal = e, bc_bSeparateChildExchange = b\<rparr>)
     [(''BASE-001'', ''aes256-sha256-prfsha256-modp2048'', ''aes256-sha256'', False),
      (''IKE-CBC-128'', ''aes128-sha256-prfsha256-modp2048'', ''aes256-sha256'', False),
      (''IKE-CBC-192'', ''aes192-sha256-prfsha256-modp2048'', ''aes256-sha256'', False),
      (''IKE-CBC-256'', ''aes256-sha256-prfsha256-modp2048'', ''aes256-sha256'', False),
      (''IKE-INTEG-256'', ''aes256-sha256-prfsha256-modp2048'', ''aes256-sha256'', False),
      (''IKE-INTEG-384'', ''aes256-sha384-prfsha256-modp2048'', ''aes256-sha256'', False),
      (''IKE-INTEG-512'', ''aes256-sha512-prfsha256-modp2048'', ''aes256-sha256'', False),
      (''IKE-PRF-256'', ''aes256-sha256-prfsha256-modp2048'', ''aes256-sha256'', False),
      (''IKE-PRF-384'', ''aes256-sha256-prfsha384-modp2048'', ''aes256-sha256'', False),
      (''IKE-PRF-512'', ''aes256-sha256-prfsha512-modp2048'', ''aes256-sha256'', False),
      (''IKE-DH-MODP2048'', ''aes256-sha256-prfsha256-modp2048'', ''aes256-sha256'', False),
      (''IKE-DH-MODP3072'', ''aes256-sha256-prfsha256-modp3072'', ''aes256-sha256'', False),
      (''IKE-DH-MODP4096'', ''aes256-sha256-prfsha256-modp4096'', ''aes256-sha256'', False),
      (''IKE-DH-MODP6144'', ''aes256-sha256-prfsha256-modp6144'', ''aes256-sha256'', False),
      (''IKE-DH-MODP8192'', ''aes256-sha256-prfsha256-modp8192'', ''aes256-sha256'', False),
      (''IKE-DH-ECP256'', ''aes256-sha256-prfsha256-ecp256'', ''aes256-sha256'', False),
      (''IKE-DH-ECP384'', ''aes256-sha256-prfsha384-ecp384'', ''aes256-sha256'', False),
      (''IKE-DH-ECP521'', ''aes256-sha512-prfsha512-ecp521'', ''aes256-sha256'', False),
      (''IKE-DH-CURVE25519'', ''aes256-sha256-prfsha256-curve25519'', ''aes256-sha256'', False),
      (''IKE-DH-CURVE448'', ''aes256-sha512-prfsha512-curve448'', ''aes256-sha256'', False),
      (''IKE-GCM-128-16'', ''aes128gcm16-prfsha256-modp2048'', ''aes256-sha256'', False),
      (''IKE-GCM-192-16'', ''aes192gcm16-prfsha256-modp2048'', ''aes256-sha256'', False),
      (''IKE-GCM-256-8'', ''aes256gcm8-prfsha256-modp2048'', ''aes256-sha256'', False),
      (''IKE-GCM-256-12'', ''aes256gcm12-prfsha256-modp2048'', ''aes256-sha256'', False),
      (''IKE-GCM-256-16'', ''aes256gcm16-prfsha256-modp2048'', ''aes256-sha256'', False),
      (''IKE-CHACHA20'', ''chacha20poly1305-prfsha256-curve25519'', ''aes256-sha256'', False),
      (''ESP-CBC-128'', ''aes256-sha256-prfsha256-modp2048'', ''aes128-sha256'', False),
      (''ESP-CBC-192'', ''aes256-sha256-prfsha256-modp2048'', ''aes192-sha256'', False),
      (''ESP-CBC-256'', ''aes256-sha256-prfsha256-modp2048'', ''aes256-sha256'', False),
      (''ESP-INTEG-384'', ''aes256-sha256-prfsha256-modp2048'', ''aes256-sha384'', False),
      (''ESP-INTEG-512'', ''aes256-sha256-prfsha256-modp2048'', ''aes256-sha512'', False),
      (''ESP-GCM-128-16'', ''aes256-sha256-prfsha256-modp2048'', ''aes128gcm16'', False),
      (''ESP-GCM-192-16'', ''aes256-sha256-prfsha256-modp2048'', ''aes192gcm16'', False),
      (''ESP-GCM-256-8'', ''aes256-sha256-prfsha256-modp2048'', ''aes256gcm8'', False),
      (''ESP-GCM-256-12'', ''aes256-sha256-prfsha256-modp2048'', ''aes256gcm12'', False),
      (''ESP-GCM-256-16'', ''aes256-sha256-prfsha256-modp2048'', ''aes256gcm16'', False),
      (''ESP-CHACHA20'', ''aes256-sha256-prfsha256-modp2048'', ''chacha20poly1305'', False),
      (''ESP-PFS-MODP2048'', ''aes256-sha256-prfsha256-modp2048'', ''aes256-sha256-modp2048'', True),
      (''ESP-PFS-ECP256'', ''aes256-sha256-prfsha256-modp2048'', ''aes256-sha256-ecp256'', True),
      (''ESP-PFS-ECP384'', ''aes256-sha256-prfsha256-modp2048'', ''aes256-sha256-ecp384'', True),
      (''ESP-PFS-CURVE25519'', ''aes256-sha256-prfsha256-modp2048'', ''aes256-sha256-curve25519'', True),
      (''ESP-NOESN'', ''aes256-sha256-prfsha256-modp2048'', ''aes256gcm16-noesn'', False),
      (''ESP-ESN'', ''aes256-sha256-prfsha256-modp2048'', ''aes256gcm16-esn'', False),
      (''IKE-CAMELLIA-128'', ''camellia128-sha256-prfsha256-modp2048'', ''aes256-sha256'', False),
      (''IKE-CAMELLIA-192'', ''camellia192-sha256-prfsha256-modp2048'', ''aes256-sha256'', False),
      (''IKE-CAMELLIA-256'', ''camellia256-sha256-prfsha256-modp2048'', ''aes256-sha256'', False),
      (''ESP-CAMELLIA-128'', ''aes256-sha256-prfsha256-modp2048'', ''camellia128-sha256'', False),
      (''ESP-CAMELLIA-192'', ''aes256-sha256-prfsha256-modp2048'', ''camellia192-sha256'', False),
      (''ESP-CAMELLIA-256'', ''aes256-sha256-prfsha256-modp2048'', ''camellia256-sha256'', False),
      (''IKE-AES-XCBC'', ''aes256-aesxcbc-prfaesxcbc-modp2048'', ''aes256-sha256'', False),
      (''IKE-AES-CMAC'', ''aes256-aescmac-prfaescmac-modp2048'', ''aes256-sha256'', False),
      (''IKE-DH-ECP256BP'', ''aes256-sha256-prfsha256-ecp256bp'', ''aes256-sha256'', False),
      (''IKE-DH-ECP384BP'', ''aes256-sha384-prfsha384-ecp384bp'', ''aes256-sha256'', False),
      (''IKE-DH-ECP512BP'', ''aes256-sha512-prfsha512-ecp512bp'', ''aes256-sha256'', False)]"

definition gapcNativeAppClassicEncryption :: "string list" where
  "gapcNativeAppClassicEncryption =
     [''3des'', ''cast128'', ''blowfish128'', ''blowfish192'', ''blowfish256'', ''null'',
      ''aes128'', ''aes192'', ''aes256'', ''camellia128'', ''camellia192'', ''camellia256'']"

definition gapcNativeAppIkeIntegrity :: "string list" where
  "gapcNativeAppIkeIntegrity =
     [''md5'', ''md5_128'', ''sha1'', ''sha1_160'', ''aesxcbc'', ''aescmac'', ''sha256'',
      ''sha384'', ''sha512'']"

definition gapcNativeAppEspIntegrity :: "string list" where
  "gapcNativeAppEspIntegrity =
     [''md5'', ''md5_128'', ''sha1'', ''sha1_160'', ''aesxcbc'', ''sha256'', ''sha384'',
      ''sha512'']"

definition gapcNativeAppIkePrf :: "string list" where
  "gapcNativeAppIkePrf =
     [''prfmd5'', ''prfsha1'', ''prfaesxcbc'', ''prfaescmac'', ''prfsha256'', ''prfsha384'',
      ''prfsha512'']"

definition gapcNativeAppAead :: "string list" where
  "gapcNativeAppAead =
     [''aes128gcm8'', ''aes192gcm8'', ''aes256gcm8'', ''aes128gcm12'', ''aes192gcm12'',
      ''aes256gcm12'', ''aes128gcm16'', ''aes192gcm16'', ''aes256gcm16'',
      ''chacha20poly1305'']"

definition gaNativeAppKeAlgorithms :: "NativeAppKeAlgorithm list" where
  "gaNativeAppKeAlgorithms =
     map (\<lambda>(k, n). \<lparr>ke_pcKeyword = k, ke_pcObservedName = n\<rparr>)
     [(''modp768'', ''MODP_768''), (''modp1024'', ''MODP_1024''),
      (''modp1536'', ''MODP_1536''), (''modp2048'', ''MODP_2048''),
      (''modp3072'', ''MODP_3072''), (''modp4096'', ''MODP_4096''),
      (''modp6144'', ''MODP_6144''), (''modp8192'', ''MODP_8192''),
      (''modp1024s160'', ''MODP_1024_160''), (''modp2048s224'', ''MODP_2048_224''),
      (''modp2048s256'', ''MODP_2048_256''), (''ecp192'', ''ECP_192''),
      (''ecp224'', ''ECP_224''), (''ecp256'', ''ECP_256''), (''ecp384'', ''ECP_384''),
      (''ecp521'', ''ECP_521''), (''ecp224bp'', ''ECP_224_BP''),
      (''ecp256bp'', ''ECP_256_BP''), (''ecp384bp'', ''ECP_384_BP''),
      (''ecp512bp'', ''ECP_512_BP''), (''curve25519'', ''CURVE_25519''),
      (''curve448'', ''CURVE_448'')]"

definition gapcNativeAppEsnModes :: "string list" where
  "gapcNativeAppEsnModes =
     [''noesn'', ''esn'']"

subsection \<open>Texts and names\<close>

definition CopyNativeAppAlgorithmText :: "cbuf \<Rightarrow> string option \<Rightarrow> cbuf \<times> bool" where
  "CopyNativeAppAlgorithmText pcDestination pcSource =
     (case pcSource of
        None \<Rightarrow> (pcDestination, False)
      | Some text \<Rightarrow>
          if length pcDestination = 0 then (pcDestination, False)
          else snprintf_to pcDestination (cstr text))"

text \<open>The loop is that of \<open>HasNativeAppProposalToken\<close>.\<close>

definition HasNativeAppAlgorithmToken :: "string \<Rightarrow> string \<Rightarrow> bool" where
  "HasNativeAppAlgorithmToken pcProposal pcToken = token_loop_at (cstr pcProposal) (cstr pcToken) 0"

definition GetNativeAppAlgorithmErrorText :: "IpsecError \<Rightarrow> string" where
  "GetNativeAppAlgorithmErrorText eError =
     (if eError = IPSEC_OK then ''none'' else GetIpsecErrorString eError)"

primrec GetNativeAppAlgorithmModeName :: "NativeAppAlgorithmMode \<Rightarrow> string" where
  "GetNativeAppAlgorithmModeName NATIVE_APP_ALGORITHM_BASELINE = ''baseline''"
| "GetNativeAppAlgorithmModeName NATIVE_APP_ALGORITHM_EXHAUSTIVE_IKE = ''exhaustive-ike''"
| "GetNativeAppAlgorithmModeName NATIVE_APP_ALGORITHM_EXHAUSTIVE_ESP = ''exhaustive-esp''"
| "GetNativeAppAlgorithmModeName NATIVE_APP_ALGORITHM_CUSTOM = ''custom''"

definition ParseNativeAppAlgorithmMode :: "string option \<Rightarrow> NativeAppAlgorithmMode option" where
  "ParseNativeAppAlgorithmMode pcText =
     (case pcText of
        None \<Rightarrow> None
      | Some text \<Rightarrow>
          if strcmp_eq ''baseline'' text then Some NATIVE_APP_ALGORITHM_BASELINE
          else if strcmp_eq ''exhaustive-ike'' text then Some NATIVE_APP_ALGORITHM_EXHAUSTIVE_IKE
          else if strcmp_eq ''exhaustive-esp'' text then Some NATIVE_APP_ALGORITHM_EXHAUSTIVE_ESP
          else if strcmp_eq ''custom'' text then Some NATIVE_APP_ALGORITHM_CUSTOM
          else None)"

primrec GetNativeAppAlgorithmCaseCount :: "NativeAppAlgorithmMode \<Rightarrow> nat" where
  "GetNativeAppAlgorithmCaseCount NATIVE_APP_ALGORITHM_BASELINE = length gaNativeAppBaselineCases"
| "GetNativeAppAlgorithmCaseCount NATIVE_APP_ALGORITHM_EXHAUSTIVE_IKE =
     u32 (length gapcNativeAppClassicEncryption * length gapcNativeAppIkeIntegrity *
          length gapcNativeAppIkePrf * length gaNativeAppKeAlgorithms +
          length gapcNativeAppAead * length gapcNativeAppIkePrf * length gaNativeAppKeAlgorithms)"
| "GetNativeAppAlgorithmCaseCount NATIVE_APP_ALGORITHM_EXHAUSTIVE_ESP =
     u32 (length gapcNativeAppClassicEncryption * length gapcNativeAppEspIntegrity *
          (length gaNativeAppKeAlgorithms + 1) * length gapcNativeAppEsnModes +
          length gapcNativeAppAead * (length gaNativeAppKeAlgorithms + 1) * length gapcNativeAppEsnModes)"
| "GetNativeAppAlgorithmCaseCount NATIVE_APP_ALGORITHM_CUSTOM = 1"

subsection \<open>The cases\<close>

definition SetNativeAppExpectedChildKe :: "NativeAppAlgorithmCase \<Rightarrow> NativeAppAlgorithmCase outcome" where
  "SetNativeAppExpectedChildKe c =
     (let c = c\<lparr>ac_acExpectedChildKe := (ac_acExpectedChildKe c)[0 := NUL], ac_bSeparateChildExchange := False\<rparr>;
          (c, eError) =
            (case List.find (\<lambda>k. HasNativeAppAlgorithmToken (ac_acEspProposal c) (ke_pcKeyword k))
                    gaNativeAppKeAlgorithms of
               None \<Rightarrow> (c, IPSEC_OK)
             | Some k \<Rightarrow>
                 let (buf, bCopied) = CopyNativeAppAlgorithmText (ac_acExpectedChildKe c) (Some (ke_pcObservedName k))
                 in (c\<lparr>ac_bSeparateChildExchange := True, ac_acExpectedChildKe := buf\<rparr>,
                     if bCopied then IPSEC_OK else IPSEC_ERR_BUFFER_TOO_SMALL))
      in and_then (c, eError) (\<lambda>c.
           (c\<lparr>ac_bExpectEsn := HasNativeAppAlgorithmToken (ac_acEspProposal c) ''esn'',
              ac_bExpectNoEsn := HasNativeAppAlgorithmToken (ac_acEspProposal c) ''noesn''\<rparr>, IPSEC_OK)))"

text \<open>Writing one text of a case, as a step that may find the array too small.\<close>

definition case_id :: "string \<Rightarrow> NativeAppAlgorithmCase \<Rightarrow> NativeAppAlgorithmCase outcome" where
  "case_id text c =
     (let (buf, b) = snprintf_to (ac_acId c) text
      in (c\<lparr>ac_acId := buf\<rparr>, if b then IPSEC_OK else IPSEC_ERR_BUFFER_TOO_SMALL))"

definition case_ike :: "string \<Rightarrow> NativeAppAlgorithmCase \<Rightarrow> NativeAppAlgorithmCase outcome" where
  "case_ike text c =
     (let (buf, b) = snprintf_to (ac_acIkeProposal c) text
      in (c\<lparr>ac_acIkeProposal := buf\<rparr>, if b then IPSEC_OK else IPSEC_ERR_BUFFER_TOO_SMALL))"

definition case_esp :: "string \<Rightarrow> NativeAppAlgorithmCase \<Rightarrow> NativeAppAlgorithmCase outcome" where
  "case_esp text c =
     (let (buf, b) = snprintf_to (ac_acEspProposal c) text
      in (c\<lparr>ac_acEspProposal := buf\<rparr>, if b then IPSEC_OK else IPSEC_ERR_BUFFER_TOO_SMALL))"

text \<open>The arrays are not empty, so copying a text is one such step.\<close>

definition GetNativeAppBaselineCase :: "nat \<Rightarrow> NativeAppAlgorithmCase \<Rightarrow> NativeAppAlgorithmCase outcome" where
  "GetNativeAppBaselineCase uiIndex c =
     (if length gaNativeAppBaselineCases \<le> uiIndex then (c, IPSEC_ERR_INVALID_ARGUMENT)
      else
        let pSource = gaNativeAppBaselineCases ! uiIndex in
        run_steps
          [case_id (bc_pcId pSource), case_ike (bc_pcIkeProposal pSource), case_esp (bc_pcEspProposal pSource),
           \<lambda>c. SetNativeAppExpectedChildKe (c\<lparr>ac_bSeparateChildExchange := bc_bSeparateChildExchange pSource\<rparr>)] c)"

fun join_dash :: "string list \<Rightarrow> string" where
  "join_dash [] = []"
| "join_dash [s] = s"
| "join_dash (s # ss) = s @ ''-'' @ join_dash ss"

text \<open>The tokens of the IKE proposal of an index.\<close>

definition exhaustive_ike_tokens :: "nat \<Rightarrow> string list" where
  "exhaustive_ike_tokens uiIndex =
     (let uiKeCount = length gaNativeAppKeAlgorithms; uiPrfCount = length gapcNativeAppIkePrf;
          uiIntegrityCount = length gapcNativeAppIkeIntegrity;
          uiClassicCount = u32 (length gapcNativeAppClassicEncryption * uiIntegrityCount * uiPrfCount * uiKeCount)
      in if uiIndex < uiClassicCount then
           let uiKe = uiIndex mod uiKeCount; uiValue = uiIndex div uiKeCount;
               uiPrf = uiValue mod uiPrfCount; uiValue = uiValue div uiPrfCount;
               uiIntegrity = uiValue mod uiIntegrityCount; uiEncryption = uiValue div uiIntegrityCount
           in [gapcNativeAppClassicEncryption ! uiEncryption, gapcNativeAppIkeIntegrity ! uiIntegrity,
               gapcNativeAppIkePrf ! uiPrf, ke_pcKeyword (gaNativeAppKeAlgorithms ! uiKe)]
         else
           let uiValue = uiIndex - uiClassicCount; uiKe = uiValue mod uiKeCount; uiValue = uiValue div uiKeCount;
               uiPrf = uiValue mod uiPrfCount; uiAead = uiValue div uiPrfCount
           in [gapcNativeAppAead ! uiAead, gapcNativeAppIkePrf ! uiPrf,
               ke_pcKeyword (gaNativeAppKeAlgorithms ! uiKe)])"

definition GetNativeAppExhaustiveIkeCase ::
  "nat \<Rightarrow> NativeAppConfig \<Rightarrow> NativeAppAlgorithmCase \<Rightarrow> NativeAppAlgorithmCase outcome" where
  "GetNativeAppExhaustiveIkeCase uiIndex pBaseConfig c =
     (if GetNativeAppAlgorithmCaseCount NATIVE_APP_ALGORITHM_EXHAUSTIVE_IKE \<le> uiIndex
      then (c, IPSEC_ERR_INVALID_ARGUMENT)
      else run_steps
        [case_ike (join_dash (exhaustive_ike_tokens uiIndex)), case_esp (cstr (nc_acEspProposals pBaseConfig)),
         case_id (''EXH-I-'' @ dec_pad 5 (u32 (uiIndex + 1))), SetNativeAppExpectedChildKe] c)"

definition pfs_tokens :: "nat \<Rightarrow> string list" where
  "pfs_tokens uiPfs = (if uiPfs = 0 then [] else [ke_pcKeyword (gaNativeAppKeAlgorithms ! (uiPfs - 1))])"

definition exhaustive_esp_tokens :: "nat \<Rightarrow> string list" where
  "exhaustive_esp_tokens uiIndex =
     (let uiPfsCount = length gaNativeAppKeAlgorithms + 1; uiEsnCount = length gapcNativeAppEsnModes;
          uiIntegrityCount = length gapcNativeAppEspIntegrity;
          uiClassicCount = u32 (length gapcNativeAppClassicEncryption * uiIntegrityCount * uiPfsCount * uiEsnCount)
      in if uiIndex < uiClassicCount then
           let uiEsn = uiIndex mod uiEsnCount; uiValue = uiIndex div uiEsnCount;
               uiPfs = uiValue mod uiPfsCount; uiValue = uiValue div uiPfsCount;
               uiIntegrity = uiValue mod uiIntegrityCount; uiEncryption = uiValue div uiIntegrityCount
           in [gapcNativeAppClassicEncryption ! uiEncryption, gapcNativeAppEspIntegrity ! uiIntegrity] @
              pfs_tokens uiPfs @ [gapcNativeAppEsnModes ! uiEsn]
         else
           let uiValue = uiIndex - uiClassicCount; uiEsn = uiValue mod uiEsnCount; uiValue = uiValue div uiEsnCount;
               uiPfs = uiValue mod uiPfsCount; uiAead = uiValue div uiPfsCount
           in [gapcNativeAppAead ! uiAead] @ pfs_tokens uiPfs @ [gapcNativeAppEsnModes ! uiEsn])"

definition GetNativeAppExhaustiveEspCase ::
  "nat \<Rightarrow> NativeAppConfig \<Rightarrow> NativeAppAlgorithmCase \<Rightarrow> NativeAppAlgorithmCase outcome" where
  "GetNativeAppExhaustiveEspCase uiIndex pBaseConfig c =
     (if GetNativeAppAlgorithmCaseCount NATIVE_APP_ALGORITHM_EXHAUSTIVE_ESP \<le> uiIndex
      then (c, IPSEC_ERR_INVALID_ARGUMENT)
      else run_steps
        [case_esp (join_dash (exhaustive_esp_tokens uiIndex)), case_ike (cstr (nc_acIkeProposals pBaseConfig)),
         case_id (''EXH-E-'' @ dec_pad 4 (u32 (uiIndex + 1))), SetNativeAppExpectedChildKe] c)"

definition zero_case :: NativeAppAlgorithmCase where
  "zero_case = \<lparr>ac_uiNumber = 0, ac_acId = replicate NATIVE_APP_ALGORITHM_CASE_ID_LENGTH NUL,
     ac_acIkeProposal = replicate IPSEC_PROPOSAL_LENGTH NUL, ac_acEspProposal = replicate IPSEC_PROPOSAL_LENGTH NUL,
     ac_acExpectedChildKe = replicate IPSEC_ALGORITHM_LENGTH NUL, ac_bSeparateChildExchange = False,
     ac_bExpectEsn = False, ac_bExpectNoEsn = False\<rparr>"

text \<open>A custom proposal that does not fit is an invalid argument.\<close>

definition GetNativeAppAlgorithmCase ::
  "NativeAppAlgorithmMode \<Rightarrow> nat \<Rightarrow> NativeAppConfig option \<Rightarrow> string option \<Rightarrow> string option \<Rightarrow>
   NativeAppAlgorithmCase \<Rightarrow> NativeAppAlgorithmCase outcome" where
  "GetNativeAppAlgorithmCase eMode uiIndex pBaseConfig pcCustomIke pcCustomEsp c =
     (case pBaseConfig of
        None \<Rightarrow> (c, IPSEC_ERR_INVALID_ARGUMENT)
      | Some base \<Rightarrow>
          if GetNativeAppAlgorithmCaseCount eMode \<le> uiIndex then (c, IPSEC_ERR_INVALID_ARGUMENT)
          else
            let c = zero_case\<lparr>ac_uiNumber := u32 (uiIndex + 1)\<rparr> in
            case eMode of
              NATIVE_APP_ALGORITHM_BASELINE \<Rightarrow> GetNativeAppBaselineCase uiIndex c
            | NATIVE_APP_ALGORITHM_EXHAUSTIVE_IKE \<Rightarrow> GetNativeAppExhaustiveIkeCase uiIndex base c
            | NATIVE_APP_ALGORITHM_EXHAUSTIVE_ESP \<Rightarrow> GetNativeAppExhaustiveEspCase uiIndex base c
            | NATIVE_APP_ALGORITHM_CUSTOM \<Rightarrow>
                (case (pcCustomIke, pcCustomEsp) of
                   (Some ike, Some esp) \<Rightarrow>
                     let (c, eError) = run_steps
                           [case_id ''CUSTOM-0001'', case_ike (cstr ike), case_esp (cstr esp)] c
                     in if eError \<noteq> IPSEC_OK then (c, IPSEC_ERR_INVALID_ARGUMENT)
                        else SetNativeAppExpectedChildKe c
                 | _ \<Rightarrow> (c, IPSEC_ERR_INVALID_ARGUMENT)))"

subsection \<open>Proposals and their tokens\<close>

definition clean_token :: "string \<Rightarrow> bool" where
  "clean_token t \<longleftrightarrow> t \<noteq> [] \<and> CHR ''-'' \<notin> set t \<and> NUL \<notin> set t \<and> length t \<le> 16"

lemma tables_clean:
  "list_all clean_token gapcNativeAppClassicEncryption" "list_all clean_token gapcNativeAppIkeIntegrity"
  "list_all clean_token gapcNativeAppEspIntegrity" "list_all clean_token gapcNativeAppIkePrf"
  "list_all clean_token gapcNativeAppAead" "list_all clean_token gapcNativeAppEsnModes"
  "list_all clean_token (map ke_pcKeyword gaNativeAppKeAlgorithms)"
  by code_simp+

lemma tables_distinct:
  "distinct gapcNativeAppClassicEncryption" "distinct gapcNativeAppIkeIntegrity"
  "distinct gapcNativeAppEspIntegrity" "distinct gapcNativeAppIkePrf"
  "distinct gapcNativeAppAead" "distinct gapcNativeAppEsnModes"
  "distinct (map ke_pcKeyword gaNativeAppKeAlgorithms)"
  by code_simp+

lemma table_lengths [simp]:
  "length gapcNativeAppClassicEncryption = 12" "length gapcNativeAppIkeIntegrity = 9"
  "length gapcNativeAppEspIntegrity = 8" "length gapcNativeAppIkePrf = 7"
  "length gapcNativeAppAead = 10" "length gapcNativeAppEsnModes = 2"
  "length gaNativeAppKeAlgorithms = 22" "length gaNativeAppBaselineCases = 54"
  by code_simp+

lemma split_join: "ts \<noteq> [] \<Longrightarrow> list_all clean_token ts \<Longrightarrow> split_on (CHR ''-'') (join_dash ts) = ts"
proof (induction ts rule: join_dash.induct)
  case (2 s)
  then show ?case by (simp add: split_on_token clean_token_def)
next
  case (3 s t ts)
  then have "CHR ''-'' \<notin> set s" by (simp add: clean_token_def)
  from split_on_sep [OF this, of "join_dash (t # ts)"] 3 show ?case by simp
qed simp

lemma join_dash_bounds:
  "list_all clean_token ts \<Longrightarrow> NUL \<notin> set (join_dash ts) \<and> length (join_dash ts) \<le> 17 * length ts"
  by (induction ts rule: join_dash.induct) (auto simp: clean_token_def)

lemma HasNativeAppAlgorithmToken_iff:
  assumes "clean_token t"
  shows "HasNativeAppAlgorithmToken p t \<longleftrightarrow> t \<in> set (split_on (CHR ''-'') (cstr p))"
proof -
  have "cstr t = t" using assms by (simp add: clean_token_def cstr_id)
  then have "HasNativeAppAlgorithmToken p t \<longleftrightarrow> HasNativeAppProposalToken [cstr p] t"
    by (simp add: HasNativeAppAlgorithmToken_def HasNativeAppProposalToken_def)
  then show ?thesis using HasNativeAppProposalToken_iff [of t "[cstr p]"] assms by (simp add: clean_token_def)
qed

subsection \<open>The two enumerations\<close>

definition ike_catalog :: "string list list" where
  "ike_catalog =
     map (\<lambda>(((e, i), p), k). [e, i, p, k])
       (List.product (List.product (List.product gapcNativeAppClassicEncryption gapcNativeAppIkeIntegrity)
          gapcNativeAppIkePrf) (map ke_pcKeyword gaNativeAppKeAlgorithms)) @
     map (\<lambda>((a, p), k). [a, p, k])
       (List.product (List.product gapcNativeAppAead gapcNativeAppIkePrf)
          (map ke_pcKeyword gaNativeAppKeAlgorithms))"

text \<open>An ESP case is its cipher tokens, the key exchange of the CHILD SA if it has one, and the
  ESN mode.\<close>

definition pfs_choices :: "NativeAppKeAlgorithm option list" where
  "pfs_choices = None # map Some gaNativeAppKeAlgorithms"

definition esp_catalog :: "(string list \<times> NativeAppKeAlgorithm option \<times> string) list" where
  "esp_catalog =
     map (\<lambda>(((e, i), k), n). ([e, i], k, n))
       (List.product (List.product (List.product gapcNativeAppClassicEncryption gapcNativeAppEspIntegrity)
          pfs_choices) gapcNativeAppEsnModes) @
     map (\<lambda>((a, k), n). ([a], k, n))
       (List.product (List.product gapcNativeAppAead pfs_choices) gapcNativeAppEsnModes)"

definition esp_tokens :: "string list \<times> NativeAppKeAlgorithm option \<times> string \<Rightarrow> string list" where
  "esp_tokens x = (case x of (cs, k, n) \<Rightarrow> cs @ map ke_pcKeyword (case k of None \<Rightarrow> [] | Some a \<Rightarrow> [a]) @ [n])"

lemma length_catalogs [simp]:
  "length ike_catalog = 18172" "length pfs_choices = 23" "length esp_catalog = 4876"
  by (simp_all add: ike_catalog_def pfs_choices_def esp_catalog_def)

lemma case_counts:
  "GetNativeAppAlgorithmCaseCount NATIVE_APP_ALGORITHM_EXHAUSTIVE_IKE = 18172"
  "GetNativeAppAlgorithmCaseCount NATIVE_APP_ALGORITHM_EXHAUSTIVE_ESP = 4876"
  by simp_all

lemma ike_catalog_nth:
  assumes "i < 18172"
  shows "ike_catalog ! i = exhaustive_ike_tokens i"
proof (cases "i < 16632")
  case True
  have d: "i div 22 < 756" "i div 22 div 7 < 108" using True by simp_all
  show ?thesis using True d
    by (simp add: ike_catalog_def exhaustive_ike_tokens_def nth_append product_nth Let_def)
next
  case False
  define j where "j = i - 16632"
  have d: "j < 1540" "j div 22 < 70" using assms False by (simp_all add: j_def)
  show ?thesis using False d
    by (simp add: ike_catalog_def exhaustive_ike_tokens_def nth_append product_nth Let_def j_def [symmetric])
qed

lemma pfs_choices_nth:
  "k < 23 \<Longrightarrow> map ke_pcKeyword (case pfs_choices ! k of None \<Rightarrow> [] | Some a \<Rightarrow> [a]) = pfs_tokens k"
  by (cases k) (simp_all add: pfs_choices_def pfs_tokens_def)

lemma esp_catalog_nth:
  assumes "i < 4876"
  shows "esp_tokens (esp_catalog ! i) = exhaustive_esp_tokens i"
proof (cases "i < 4416")
  case True
  have d: "i div 2 < 2208" "i div 2 div 23 < 96" using True by simp_all
  show ?thesis using True d pfs_choices_nth
    by (simp add: esp_catalog_def exhaustive_esp_tokens_def nth_append product_nth Let_def esp_tokens_def)
next
  case False
  define j where "j = i - 4416"
  have d: "j < 460" "j div 2 < 230" using assms False by (simp_all add: j_def)
  show ?thesis using False d pfs_choices_nth
    by (simp add: esp_catalog_def exhaustive_esp_tokens_def nth_append product_nth Let_def esp_tokens_def
        j_def [symmetric])
qed

text \<open>Every entry is made of table tokens, and no entry occurs twice.\<close>

lemma in_tables:
  "t \<in> set gapcNativeAppClassicEncryption \<Longrightarrow> clean_token t" "t \<in> set gapcNativeAppIkeIntegrity \<Longrightarrow> clean_token t"
  "t \<in> set gapcNativeAppEspIntegrity \<Longrightarrow> clean_token t" "t \<in> set gapcNativeAppIkePrf \<Longrightarrow> clean_token t"
  "t \<in> set gapcNativeAppAead \<Longrightarrow> clean_token t" "t \<in> set gapcNativeAppEsnModes \<Longrightarrow> clean_token t"
  "k \<in> set gaNativeAppKeAlgorithms \<Longrightarrow> clean_token (ke_pcKeyword k)"
  using tables_clean by (auto simp: list_all_iff)

lemma ke_inj: "k \<in> set gaNativeAppKeAlgorithms \<Longrightarrow> l \<in> set gaNativeAppKeAlgorithms \<Longrightarrow>
    ke_pcKeyword k = ke_pcKeyword l \<longleftrightarrow> k = l"
  using tables_distinct(7) by (auto simp: distinct_map inj_on_def)

lemma ike_catalog_clean: "ts \<in> set ike_catalog \<Longrightarrow> ts \<noteq> [] \<and> list_all clean_token ts \<and> length ts \<le> 4"
  using in_tables by (auto simp: ike_catalog_def)

lemma ike_catalog_distinct: "distinct ike_catalog"
proof -
  have a: "distinct (map (\<lambda>(((e, i), p), k). [e, i, p, k]) xs)" if "distinct xs" for xs :: "(((string \<times> string) \<times> string) \<times> string) list"
    using that by (auto simp: distinct_map inj_on_def)
  have b: "distinct (map (\<lambda>((e, p), k). [e, p, k]) xs)" if "distinct xs" for xs :: "((string \<times> string) \<times> string) list"
    using that by (auto simp: distinct_map inj_on_def)
  show ?thesis unfolding ike_catalog_def distinct_append
  proof (intro conjI)
    show "distinct (map (\<lambda>(((e, i), p), k). [e, i, p, k]) (List.product (List.product (List.product gapcNativeAppClassicEncryption gapcNativeAppIkeIntegrity) gapcNativeAppIkePrf) (map ke_pcKeyword gaNativeAppKeAlgorithms)))"
      by (intro a distinct_product tables_distinct)
    show "distinct (map (\<lambda>((a, p), k). [a, p, k]) (List.product (List.product gapcNativeAppAead gapcNativeAppIkePrf) (map ke_pcKeyword gaNativeAppKeAlgorithms)))"
      by (intro b distinct_product tables_distinct)
  qed auto
qed

lemma pfs_choices_distinct: "distinct pfs_choices"
  using tables_distinct(7) by (auto simp: pfs_choices_def distinct_map)

lemma esp_catalog_entries:
  assumes "(cs, k, n) \<in> set esp_catalog"
  shows "list_all clean_token cs" and "length cs \<in> {1, 2}" and "n \<in> set gapcNativeAppEsnModes"
    and "\<And>a. k = Some a \<Longrightarrow> a \<in> set gaNativeAppKeAlgorithms"
    and "\<And>c. c \<in> set cs \<Longrightarrow> c \<in> set (gapcNativeAppClassicEncryption @ gapcNativeAppEspIntegrity @ gapcNativeAppAead)"
  using assms in_tables by (auto simp: esp_catalog_def pfs_choices_def)

lemma esp_catalog_clean: "x \<in> set esp_catalog \<Longrightarrow> esp_tokens x \<noteq> [] \<and> list_all clean_token (esp_tokens x) \<and> length (esp_tokens x) \<le> 4"
proof -
  assume x: "x \<in> set esp_catalog"
  obtain cs k n where k: "x = (cs, k, n)" by (metis prod.exhaust)
  note e = esp_catalog_entries [OF x [unfolded k]]
  have "clean_token n" "\<And>a. k = Some a \<Longrightarrow> clean_token (ke_pcKeyword a)" using e in_tables by blast+
  then show ?thesis using e(1,2) by (cases k) (auto simp: k esp_tokens_def)
qed

text \<open>No cipher or ESN token is a key-exchange keyword.\<close>

lemma tables_disjoint:
  "set (gapcNativeAppClassicEncryption @ gapcNativeAppEspIntegrity @ gapcNativeAppAead) \<inter>
     (set gapcNativeAppEsnModes \<union> set (map ke_pcKeyword gaNativeAppKeAlgorithms)) = {}"
  "set gapcNativeAppEsnModes \<inter> set (map ke_pcKeyword gaNativeAppKeAlgorithms) = {}"
proof -
  have "list_all (\<lambda>t. t \<notin> set (gapcNativeAppEsnModes @ map ke_pcKeyword gaNativeAppKeAlgorithms))
      (gapcNativeAppClassicEncryption @ gapcNativeAppEspIntegrity @ gapcNativeAppAead)"
    "list_all (\<lambda>t. t \<notin> set (map ke_pcKeyword gaNativeAppKeAlgorithms)) gapcNativeAppEsnModes"
    by code_simp+
  then show "set (gapcNativeAppClassicEncryption @ gapcNativeAppEspIntegrity @ gapcNativeAppAead) \<inter>
     (set gapcNativeAppEsnModes \<union> set (map ke_pcKeyword gaNativeAppKeAlgorithms)) = {}"
    "set gapcNativeAppEsnModes \<inter> set (map ke_pcKeyword gaNativeAppKeAlgorithms) = {}"
    by (auto simp: list_all_iff)
qed

lemma esp_ke_token:
  assumes "(cs, k, n) \<in> set esp_catalog" and "a \<in> set gaNativeAppKeAlgorithms"
  shows "ke_pcKeyword a \<in> set (esp_tokens (cs, k, n)) \<longleftrightarrow> k = Some a"
proof -
  note e = esp_catalog_entries [OF assms(1)]
  have "ke_pcKeyword a \<notin> set cs" "ke_pcKeyword a \<noteq> n"
    using e(3,5) tables_disjoint assms(2) by auto
  then show ?thesis using e(4) ke_inj assms(2) by (cases k) (auto simp: esp_tokens_def)
qed

lemma esp_esn_token:
  assumes "(cs, k, n) \<in> set esp_catalog" and "t \<in> set gapcNativeAppEsnModes"
  shows "t \<in> set (esp_tokens (cs, k, n)) \<longleftrightarrow> n = t"
proof -
  note e = esp_catalog_entries [OF assms(1)]
  have "t \<notin> set cs" "\<And>a. k = Some a \<Longrightarrow> t \<noteq> ke_pcKeyword a"
    using e(4,5) tables_disjoint assms(2) by fastforce+
  then show ?thesis by (auto simp: esp_tokens_def split: option.split)
qed

lemma esp_catalog_distinct: "distinct esp_catalog"
proof -
  have a: "distinct (map (\<lambda>(((e, i), k), n). ([e, i], k, n)) xs)" if "distinct xs"
    for xs :: "(((string \<times> string) \<times> NativeAppKeAlgorithm option) \<times> string) list"
    using that by (auto simp: distinct_map inj_on_def)
  have b: "distinct (map (\<lambda>((a, k), n). ([a], k, n)) xs)" if "distinct xs"
    for xs :: "((string \<times> NativeAppKeAlgorithm option) \<times> string) list"
    using that by (auto simp: distinct_map inj_on_def)
  show ?thesis unfolding esp_catalog_def distinct_append
  proof (intro conjI)
    show "distinct (map (\<lambda>(((e, i), k), n). ([e, i], k, n)) (List.product (List.product (List.product gapcNativeAppClassicEncryption gapcNativeAppEspIntegrity) pfs_choices) gapcNativeAppEsnModes))"
      by (intro a distinct_product tables_distinct pfs_choices_distinct)
    show "distinct (map (\<lambda>((a, k), n). ([a], k, n)) (List.product (List.product gapcNativeAppAead pfs_choices) gapcNativeAppEsnModes))"
      by (intro b distinct_product tables_distinct pfs_choices_distinct)
  qed auto
qed

lemma esp_tokens_inj:
  assumes "x \<in> set esp_catalog" and "y \<in> set esp_catalog" and "esp_tokens x = esp_tokens y"
  shows "x = y"
proof -
  obtain cs k n ds l m where x: "x = (cs, k, n)" and y: "y = (ds, l, m)" by (metis prod.exhaust)
  note e = esp_catalog_entries [OF assms(1) [unfolded x]] esp_catalog_entries [OF assms(2) [unfolded y]]
  have "k = l"
  proof (cases k)
    case None
    have "l = None"
    proof (rule ccontr)
      assume "l \<noteq> None"
      then obtain a where a: "l = Some a" by blast
      then have "ke_pcKeyword a \<in> set (esp_tokens x)"
        using assms esp_ke_token [OF assms(2) [unfolded y], of a] e(9) y by simp
      then show False using esp_ke_token [OF assms(1) [unfolded x], of a] e(9) [OF a] None x by simp
    qed
    then show ?thesis using None by simp
  next
    case (Some a)
    then have "ke_pcKeyword a \<in> set (esp_tokens y)"
      using assms esp_ke_token [OF assms(1) [unfolded x], of a] e(4) x by simp
    then show ?thesis using esp_ke_token [OF assms(2) [unfolded y], of a] e(4) [OF Some] Some y by simp
  qed
  then show ?thesis using assms(3) x y by (auto simp: esp_tokens_def)
qed

lemma join_dash_inj:
  assumes "ts \<noteq> []" "list_all clean_token ts" "us \<noteq> []" "list_all clean_token us"
  shows "join_dash ts = join_dash us \<longleftrightarrow> ts = us"
  using split_join [OF assms(1,2)] split_join [OF assms(3,4)] by metis

lemma catalog_texts_distinct:
  "distinct (map join_dash ike_catalog)" "distinct (map (\<lambda>x. join_dash (esp_tokens x)) esp_catalog)"
proof -
  have "inj_on join_dash (set ike_catalog)"
  proof (rule inj_onI)
    fix ts us assume "ts \<in> set ike_catalog" "us \<in> set ike_catalog" "join_dash ts = join_dash us"
    then show "ts = us" using join_dash_inj [of ts us] ike_catalog_clean by blast
  qed
  then show "distinct (map join_dash ike_catalog)" by (simp add: distinct_map ike_catalog_distinct)
  have "inj_on (\<lambda>x. join_dash (esp_tokens x)) (set esp_catalog)"
  proof (rule inj_onI)
    fix x y assume xy: "x \<in> set esp_catalog" "y \<in> set esp_catalog"
      "join_dash (esp_tokens x) = join_dash (esp_tokens y)"
    then have "esp_tokens x = esp_tokens y"
      using join_dash_inj [of "esp_tokens x" "esp_tokens y"] esp_catalog_clean by blast
    then show "x = y" using esp_tokens_inj xy by blast
  qed
  then show "distinct (map (\<lambda>x. join_dash (esp_tokens x)) esp_catalog)"
    by (simp add: distinct_map esp_catalog_distinct)
qed

subsection \<open>What a case holds\<close>

lemma cstr_fits: "NUL \<notin> set t \<Longrightarrow> cstr (buf_write buf 0 (t @ [NUL])) = t"
  by (simp add: cstr_buf_write0 cstr_id)

lemma observed_names:
  "list_all (\<lambda>k. NUL \<notin> set (ke_pcObservedName k) \<and> length (ke_pcObservedName k) < IPSEC_ALGORITHM_LENGTH)
     gaNativeAppKeAlgorithms"
  by code_simp

definition child_ke :: "string list \<Rightarrow> NativeAppKeAlgorithm option" where
  "child_ke toks = List.find (\<lambda>k. ke_pcKeyword k \<in> set toks) gaNativeAppKeAlgorithms"

definition ke_name :: "NativeAppKeAlgorithm option \<Rightarrow> string" where
  "ke_name k = (case k of None \<Rightarrow> [] | Some a \<Rightarrow> ke_pcObservedName a)"

lemma SetNativeAppExpectedChildKe_props:
  assumes "length (ac_acExpectedChildKe c) = IPSEC_ALGORITHM_LENGTH"
    and "SetNativeAppExpectedChildKe c = (c', e)"
  shows "e = IPSEC_OK" and "cstr (ac_acExpectedChildKe c') = ke_name (child_ke (split_on (CHR ''-'') (cstr (ac_acEspProposal c))))"
    and "ac_bSeparateChildExchange c' \<longleftrightarrow> child_ke (split_on (CHR ''-'') (cstr (ac_acEspProposal c))) \<noteq> None"
    and "ac_bExpectEsn c' \<longleftrightarrow> ''esn'' \<in> set (split_on (CHR ''-'') (cstr (ac_acEspProposal c)))"
    and "ac_bExpectNoEsn c' \<longleftrightarrow> ''noesn'' \<in> set (split_on (CHR ''-'') (cstr (ac_acEspProposal c)))"
    and "ac_acEspProposal c' = ac_acEspProposal c" and "ac_acIkeProposal c' = ac_acIkeProposal c"
    and "ac_acId c' = ac_acId c" and "ac_uiNumber c' = ac_uiNumber c"
proof -
  let ?toks = "split_on (CHR ''-'') (cstr (ac_acEspProposal c))"
  have find: "List.find (\<lambda>k. HasNativeAppAlgorithmToken (ac_acEspProposal c) (ke_pcKeyword k)) gaNativeAppKeAlgorithms =
      child_ke ?toks"
    unfolding child_ke_def using in_tables(7) by (intro find_cong) (simp_all add: HasNativeAppAlgorithmToken_iff)
  have esn: "clean_token ''esn''" "clean_token ''noesn''" by (simp_all add: clean_token_def)
  have r: "e = IPSEC_OK \<and> cstr (ac_acExpectedChildKe c') = ke_name (child_ke ?toks) \<and>
    (ac_bSeparateChildExchange c' \<longleftrightarrow> child_ke ?toks \<noteq> None) \<and>
    (ac_bExpectEsn c' \<longleftrightarrow> ''esn'' \<in> set ?toks) \<and> (ac_bExpectNoEsn c' \<longleftrightarrow> ''noesn'' \<in> set ?toks) \<and>
    ac_acEspProposal c' = ac_acEspProposal c \<and> ac_acIkeProposal c' = ac_acIkeProposal c \<and>
    ac_acId c' = ac_acId c \<and> ac_uiNumber c' = ac_uiNumber c"
  proof (cases "child_ke ?toks")
    case None
    have "ac_acExpectedChildKe c \<noteq> []" using assms(1) by auto
    then show ?thesis using assms(2) None find
      by (auto simp: SetNativeAppExpectedChildKe_def Let_def HasNativeAppAlgorithmToken_iff [OF esn(1)]
          HasNativeAppAlgorithmToken_iff [OF esn(2)] ke_name_def)
  next
    case (Some a)
    have "a \<in> set gaNativeAppKeAlgorithms"
      using Some by (auto simp: child_ke_def find_Some_iff)
    then have o: "NUL \<notin> set (ke_pcObservedName a)" "length (ke_pcObservedName a) < IPSEC_ALGORITHM_LENGTH"
      using observed_names by (auto simp: list_all_iff)
    show ?thesis using assms Some find o
      by (auto simp: SetNativeAppExpectedChildKe_def Let_def HasNativeAppAlgorithmToken_iff [OF esn(1)]
          HasNativeAppAlgorithmToken_iff [OF esn(2)] ke_name_def CopyNativeAppAlgorithmText_def
          snprintf_to_fits cstr_id cstr_fits)
  qed
  then show "e = IPSEC_OK" and "cstr (ac_acExpectedChildKe c') = ke_name (child_ke ?toks)"
    and "ac_bSeparateChildExchange c' \<longleftrightarrow> child_ke ?toks \<noteq> None"
    and "ac_bExpectEsn c' \<longleftrightarrow> ''esn'' \<in> set ?toks"
    and "ac_bExpectNoEsn c' \<longleftrightarrow> ''noesn'' \<in> set ?toks"
    and "ac_acEspProposal c' = ac_acEspProposal c" and "ac_acIkeProposal c' = ac_acIkeProposal c"
    and "ac_acId c' = ac_acId c" and "ac_uiNumber c' = ac_uiNumber c"
    by blast+
qed

text \<open>A case whose three texts fit is complete, in whatever order they are written.\<close>

definition case_holds :: "nat \<Rightarrow> string \<Rightarrow> string \<Rightarrow> string \<Rightarrow> NativeAppAlgorithmCase outcome \<Rightarrow> bool" where
  "case_holds number id_text ike esp r \<longleftrightarrow>
     snd r = IPSEC_OK \<and> ac_uiNumber (fst r) = number \<and> cstr (ac_acId (fst r)) = id_text \<and>
     cstr (ac_acIkeProposal (fst r)) = ike \<and> cstr (ac_acEspProposal (fst r)) = esp \<and>
     cstr (ac_acExpectedChildKe (fst r)) = ke_name (child_ke (split_on (CHR ''-'') esp)) \<and>
     (ac_bSeparateChildExchange (fst r) \<longleftrightarrow> child_ke (split_on (CHR ''-'') esp) \<noteq> None) \<and>
     (ac_bExpectEsn (fst r) \<longleftrightarrow> ''esn'' \<in> set (split_on (CHR ''-'') esp)) \<and>
     (ac_bExpectNoEsn (fst r) \<longleftrightarrow> ''noesn'' \<in> set (split_on (CHR ''-'') esp))"

lemma case_holds_intro:
  assumes "length (ac_acExpectedChildKe c) = IPSEC_ALGORITHM_LENGTH"
    and "NUL \<notin> set i \<and> NUL \<notin> set k \<and> NUL \<notin> set p"
    and "ac_acId c = buf_write bi 0 (i @ [NUL])" and "ac_acIkeProposal c = buf_write bk 0 (k @ [NUL])"
    and "ac_acEspProposal c = buf_write bp 0 (p @ [NUL])" and "ac_uiNumber c = n"
  shows "case_holds n i k p (SetNativeAppExpectedChildKe c)"
proof -
  obtain c' e where r: "SetNativeAppExpectedChildKe c = (c', e)" by fastforce
  show ?thesis using SetNativeAppExpectedChildKe_props [OF assms(1) r] assms r
    by (simp add: case_holds_def cstr_fits)
qed

lemma case_steps:
  assumes "length i < NATIVE_APP_ALGORITHM_CASE_ID_LENGTH" and "length k < IPSEC_PROPOSAL_LENGTH"
    and "length p < IPSEC_PROPOSAL_LENGTH" and "NUL \<notin> set i \<and> NUL \<notin> set k \<and> NUL \<notin> set p"
  shows "case_holds n i k p (run_steps [case_ike k, case_esp p, case_id i, SetNativeAppExpectedChildKe]
           (zero_case\<lparr>ac_uiNumber := n\<rparr>))"
    and "case_holds n i k p (run_steps [case_esp p, case_ike k, case_id i, SetNativeAppExpectedChildKe]
           (zero_case\<lparr>ac_uiNumber := n\<rparr>))"
    and "case_holds n i k p (run_steps [case_id i, case_ike k, case_esp p,
           \<lambda>c. SetNativeAppExpectedChildKe (c\<lparr>ac_bSeparateChildExchange := b\<rparr>)] (zero_case\<lparr>ac_uiNumber := n\<rparr>))"
proof -
  define z where "z = zero_case\<lparr>ac_uiNumber := n\<rparr>"
  have len: "length (ac_acId z) = 64" "length (ac_acIkeProposal z) = 256" "length (ac_acEspProposal z) = 256"
    "length (ac_acExpectedChildKe z) = IPSEC_ALGORITHM_LENGTH" "ac_uiNumber z = n"
    by (simp_all add: z_def zero_case_def)
  have and_then_set: "and_then r (run_steps []) = r" if "snd r = IPSEC_OK" for r :: "NativeAppAlgorithmCase outcome"
    using that by (cases r) simp
  let ?c = "\<lambda>c. c\<lparr>ac_acId := buf_write (ac_acId z) 0 (i @ [NUL]),
      ac_acIkeProposal := buf_write (ac_acIkeProposal z) 0 (k @ [NUL]),
      ac_acEspProposal := buf_write (ac_acEspProposal z) 0 (p @ [NUL])\<rparr>"
  have ch: "case_holds n i k p (SetNativeAppExpectedChildKe (?c z))"
    "case_holds n i k p (SetNativeAppExpectedChildKe (?c z\<lparr>ac_bSeparateChildExchange := b\<rparr>))"
    by (rule case_holds_intro; use len assms(4) in simp)+
  then have ok: "snd (SetNativeAppExpectedChildKe (?c z)) = IPSEC_OK"
    "snd (SetNativeAppExpectedChildKe (?c z\<lparr>ac_bSeparateChildExchange := b\<rparr>)) = IPSEC_OK"
    by (simp_all add: case_holds_def)
  have order: "z\<lparr>ac_acEspProposal := x, ac_acIkeProposal := y, ac_acId := v\<rparr> =
      z\<lparr>ac_acId := v, ac_acIkeProposal := y, ac_acEspProposal := x\<rparr>"
    "z\<lparr>ac_acIkeProposal := y, ac_acEspProposal := x, ac_acId := v\<rparr> =
      z\<lparr>ac_acId := v, ac_acIkeProposal := y, ac_acEspProposal := x\<rparr>" for x y v
    by (cases z; simp)+
  have "run_steps [case_ike k, case_esp p, case_id i, SetNativeAppExpectedChildKe] z = SetNativeAppExpectedChildKe (?c z)"
    "run_steps [case_esp p, case_ike k, case_id i, SetNativeAppExpectedChildKe] z = SetNativeAppExpectedChildKe (?c z)"
    "run_steps [case_id i, case_ike k, case_esp p,
        \<lambda>c. SetNativeAppExpectedChildKe (c\<lparr>ac_bSeparateChildExchange := b\<rparr>)] z =
      SetNativeAppExpectedChildKe (?c z\<lparr>ac_bSeparateChildExchange := b\<rparr>)"
    using len assms(1-3) and_then_set [OF ok(1)] and_then_set [OF ok(2)]
    by (simp_all add: case_ike_def case_esp_def case_id_def snprintf_to_fits order)
  then show "case_holds n i k p (run_steps [case_ike k, case_esp p, case_id i, SetNativeAppExpectedChildKe]
           (zero_case\<lparr>ac_uiNumber := n\<rparr>))"
    "case_holds n i k p (run_steps [case_esp p, case_ike k, case_id i, SetNativeAppExpectedChildKe]
           (zero_case\<lparr>ac_uiNumber := n\<rparr>))"
    "case_holds n i k p (run_steps [case_id i, case_ike k, case_esp p,
           \<lambda>c. SetNativeAppExpectedChildKe (c\<lparr>ac_bSeparateChildExchange := b\<rparr>)] (zero_case\<lparr>ac_uiNumber := n\<rparr>))"
    using ch by (simp_all only: z_def [symmetric])
qed

lemma case_id_text:
  assumes "n \<le> 18172" and "w \<le> 5" and "p = ''EXH-I-'' \<or> p = ''EXH-E-''"
  shows "length (p @ dec_pad w n) < NATIVE_APP_ALGORITHM_CASE_ID_LENGTH" and "NUL \<notin> set (p @ dec_pad w n)"
  using length_dec [of n 5] assms dec_no_NUL [of n] by (auto simp: dec_pad_def)

lemma exhaustive_ike_case:
  assumes "i < 18172" and "strlen (nc_acEspProposals base) < IPSEC_PROPOSAL_LENGTH"
  shows "case_holds (i + 1) (''EXH-I-'' @ dec_pad 5 (i + 1)) (join_dash (ike_catalog ! i))
      (cstr (nc_acEspProposals base))
      (GetNativeAppAlgorithmCase NATIVE_APP_ALGORITHM_EXHAUSTIVE_IKE i (Some base) u v c)"
proof -
  have "ike_catalog ! i \<in> set ike_catalog" using assms(1) by simp
  from ike_catalog_clean [OF this] have t: "NUL \<notin> set (join_dash (ike_catalog ! i))"
    "length (join_dash (ike_catalog ! i)) < IPSEC_PROPOSAL_LENGTH"
    using join_dash_bounds [of "ike_catalog ! i"] by auto
  note id = case_id_text [of "i + 1" 5 "''EXH-I-''"]
  have "GetNativeAppAlgorithmCase NATIVE_APP_ALGORITHM_EXHAUSTIVE_IKE i (Some base) u v c =
      run_steps [case_ike (join_dash (ike_catalog ! i)), case_esp (cstr (nc_acEspProposals base)),
        case_id (''EXH-I-'' @ dec_pad 5 (i + 1)), SetNativeAppExpectedChildKe] (zero_case\<lparr>ac_uiNumber := i + 1\<rparr>)"
    using assms(1) ike_catalog_nth [OF assms(1)]
    by (simp add: GetNativeAppAlgorithmCase_def GetNativeAppExhaustiveIkeCase_def Let_def)
  then show ?thesis
    using case_steps(1) [of "''EXH-I-'' @ dec_pad 5 (i + 1)" "join_dash (ike_catalog ! i)"
        "cstr (nc_acEspProposals base)" "i + 1"] t id assms by (simp add: strlen_def)
qed

lemma exhaustive_esp_case:
  assumes "i < 4876" and "strlen (nc_acIkeProposals base) < IPSEC_PROPOSAL_LENGTH"
  shows "case_holds (i + 1) (''EXH-E-'' @ dec_pad 4 (i + 1)) (cstr (nc_acIkeProposals base))
      (join_dash (esp_tokens (esp_catalog ! i)))
      (GetNativeAppAlgorithmCase NATIVE_APP_ALGORITHM_EXHAUSTIVE_ESP i (Some base) u v c)"
proof -
  have "esp_catalog ! i \<in> set esp_catalog" using assms(1) by simp
  from esp_catalog_clean [OF this] have t: "NUL \<notin> set (join_dash (esp_tokens (esp_catalog ! i)))"
    "length (join_dash (esp_tokens (esp_catalog ! i))) < IPSEC_PROPOSAL_LENGTH"
    using join_dash_bounds [of "esp_tokens (esp_catalog ! i)"] by auto
  note id = case_id_text [of "i + 1" 4 "''EXH-E-''"]
  have "GetNativeAppAlgorithmCase NATIVE_APP_ALGORITHM_EXHAUSTIVE_ESP i (Some base) u v c =
      run_steps [case_esp (join_dash (esp_tokens (esp_catalog ! i))), case_ike (cstr (nc_acIkeProposals base)),
        case_id (''EXH-E-'' @ dec_pad 4 (i + 1)), SetNativeAppExpectedChildKe] (zero_case\<lparr>ac_uiNumber := i + 1\<rparr>)"
    using assms(1) esp_catalog_nth [OF assms(1)]
    by (simp add: GetNativeAppAlgorithmCase_def GetNativeAppExhaustiveEspCase_def Let_def)
  then show ?thesis
    using case_steps(2) [of "''EXH-E-'' @ dec_pad 4 (i + 1)" "cstr (nc_acIkeProposals base)"
        "join_dash (esp_tokens (esp_catalog ! i))" "i + 1"] t id assms by (simp add: strlen_def)
qed

text \<open>The key exchange found in an ESP entry is the one it was built from.\<close>

lemma child_ke_entry:
  assumes "(cs, k, n) \<in> set esp_catalog"
  shows "child_ke (esp_tokens (cs, k, n)) = k"
proof (cases k)
  case None
  then show ?thesis using esp_ke_token [OF assms] by (auto simp: child_ke_def find_None_iff)
next
  case (Some a)
  have a: "a \<in> set gaNativeAppKeAlgorithms" using esp_catalog_entries(4) [OF assms Some] .
  obtain b where b: "child_ke (esp_tokens (cs, k, n)) = Some b"
    using esp_ke_token [OF assms a] Some a by (cases "child_ke (esp_tokens (cs, k, n))") (auto simp: child_ke_def find_None_iff)
  then have "b \<in> set gaNativeAppKeAlgorithms" "ke_pcKeyword b \<in> set (esp_tokens (cs, k, n))"
    by (auto simp: child_ke_def find_Some_iff)
  then show ?thesis using esp_ke_token [OF assms] b by simp
qed

lemma baseline_rows:
  "list_all (\<lambda>r. length (bc_pcId r) < NATIVE_APP_ALGORITHM_CASE_ID_LENGTH \<and>
      length (bc_pcIkeProposal r) < IPSEC_PROPOSAL_LENGTH \<and> length (bc_pcEspProposal r) < IPSEC_PROPOSAL_LENGTH \<and>
      NUL \<notin> set (bc_pcId r) \<and> NUL \<notin> set (bc_pcIkeProposal r) \<and> NUL \<notin> set (bc_pcEspProposal r) \<and>
      (child_ke (split_on (CHR ''-'') (bc_pcEspProposal r)) \<noteq> None) = bc_bSeparateChildExchange r)
     gaNativeAppBaselineCases"
  by code_simp

lemma baseline_case:
  assumes "i < 54"
  shows "let r = gaNativeAppBaselineCases ! i in
    case_holds (i + 1) (bc_pcId r) (bc_pcIkeProposal r) (bc_pcEspProposal r)
      (GetNativeAppAlgorithmCase NATIVE_APP_ALGORITHM_BASELINE i (Some base) u v c) \<and>
    ac_bSeparateChildExchange (fst (GetNativeAppAlgorithmCase NATIVE_APP_ALGORITHM_BASELINE i (Some base) u v c)) =
      bc_bSeparateChildExchange r"
proof -
  define r where "r = gaNativeAppBaselineCases ! i"
  have "r \<in> set gaNativeAppBaselineCases" using assms by (simp add: r_def)
  then have f: "length (bc_pcId r) < NATIVE_APP_ALGORITHM_CASE_ID_LENGTH"
    "length (bc_pcIkeProposal r) < IPSEC_PROPOSAL_LENGTH" "length (bc_pcEspProposal r) < IPSEC_PROPOSAL_LENGTH"
    "NUL \<notin> set (bc_pcId r) \<and> NUL \<notin> set (bc_pcIkeProposal r) \<and> NUL \<notin> set (bc_pcEspProposal r)"
    "(child_ke (split_on (CHR ''-'') (bc_pcEspProposal r)) \<noteq> None) = bc_bSeparateChildExchange r"
    using baseline_rows unfolding list_all_iff by blast+
  have "GetNativeAppAlgorithmCase NATIVE_APP_ALGORITHM_BASELINE i (Some base) u v c =
      run_steps [case_id (bc_pcId r), case_ike (bc_pcIkeProposal r), case_esp (bc_pcEspProposal r),
        \<lambda>c. SetNativeAppExpectedChildKe (c\<lparr>ac_bSeparateChildExchange := bc_bSeparateChildExchange r\<rparr>)]
        (zero_case\<lparr>ac_uiNumber := i + 1\<rparr>)"
    using assms by (simp add: GetNativeAppAlgorithmCase_def GetNativeAppBaselineCase_def Let_def r_def)
  then have "case_holds (i + 1) (bc_pcId r) (bc_pcIkeProposal r) (bc_pcEspProposal r)
      (GetNativeAppAlgorithmCase NATIVE_APP_ALGORITHM_BASELINE i (Some base) u v c)"
    using case_steps(3) [OF f(1-4)] by simp
  then show ?thesis using f(5) by (simp add: Let_def r_def [symmetric] case_holds_def)
qed

subsection \<open>The properties\<close>

text \<open>The exhaustive IKE catalogue is exactly the list of all combinations of the tables, the
  classic ciphers with integrity, PRF and key exchange first and the AEAD ciphers with PRF and
  key exchange after them: every case is generated, and no proposal occurs twice.\<close>

theorem exhaustive_ike_catalog:
  assumes "strlen (nc_acEspProposals base) < IPSEC_PROPOSAL_LENGTH"
  shows "let cases = map (\<lambda>i. GetNativeAppAlgorithmCase NATIVE_APP_ALGORITHM_EXHAUSTIVE_IKE i (Some base) u v c)
      [0..<GetNativeAppAlgorithmCaseCount NATIVE_APP_ALGORITHM_EXHAUSTIVE_IKE] in
    (\<forall>r \<in> set cases. snd r = IPSEC_OK \<and> cstr (ac_acEspProposal (fst r)) = cstr (nc_acEspProposals base)) \<and>
    map (\<lambda>r. cstr (ac_acIkeProposal (fst r))) cases = map join_dash ike_catalog \<and>
    distinct (map (\<lambda>r. cstr (ac_acIkeProposal (fst r))) cases)"
proof -
  define f where "f = (\<lambda>i. GetNativeAppAlgorithmCase NATIVE_APP_ALGORITHM_EXHAUSTIVE_IKE i (Some base) u v c)"
  have h: "case_holds (i + 1) (''EXH-I-'' @ dec_pad 5 (i + 1)) (join_dash (ike_catalog ! i))
      (cstr (nc_acEspProposals base)) (f i)" if "i < 18172" for i
    unfolding f_def by (rule exhaustive_ike_case [OF that assms])
  have m: "map (\<lambda>r. cstr (ac_acIkeProposal (fst r))) (map f [0..<18172]) = map join_dash ike_catalog"
    using h by (intro nth_equalityI) (simp_all add: case_holds_def)
  have "\<forall>r \<in> set (map f [0..<18172]). snd r = IPSEC_OK \<and>
      cstr (ac_acEspProposal (fst r)) = cstr (nc_acEspProposals base)"
    using h by (auto simp: case_holds_def)
  then show ?thesis unfolding Let_def case_counts f_def [symmetric] m using catalog_texts_distinct by blast
qed

definition catalog_base :: NativeAppConfig where
  "catalog_base = InitializeNativeAppConfig
     \<lparr>nc_acIkeProposals := text_buf NATIVE_APP_PROPOSAL_TEXT_LENGTH ''aes256-sha256-modp2048'',
      nc_acEspProposals := text_buf NATIVE_APP_PROPOSAL_TEXT_LENGTH ''aes256-sha256''\<rparr>"

lemma catalog_base_texts:
  "cstr (nc_acIkeProposals catalog_base) = ''aes256-sha256-modp2048''"
  "cstr (nc_acEspProposals catalog_base) = ''aes256-sha256''"
  by (simp_all add: catalog_base_def text_buf_simps)

theorem exhaustive_ike_catalog_witness:
  "distinct (map (\<lambda>i. cstr (ac_acIkeProposal (fst (GetNativeAppAlgorithmCase
     NATIVE_APP_ALGORITHM_EXHAUSTIVE_IKE i (Some catalog_base) None None zero_case)))) [0..<18172])"
proof -
  have "strlen (nc_acEspProposals catalog_base) < IPSEC_PROPOSAL_LENGTH"
    by (simp add: strlen_def catalog_base_texts)
  from exhaustive_ike_catalog [OF this, of None None zero_case] show ?thesis
    unfolding Let_def case_counts map_map comp_def by blast
qed

text \<open>C20: The exhaustive ESP catalogue is exactly the list of all combinations of cipher, optional
  key exchange and ESN mode, without repetition, and each case expects what it was built from:
  the observed name of its key exchange, a separate exchange exactly if it has one, and its
  ESN mode.\<close>

theorem exhaustive_esp_catalog:
  assumes "strlen (nc_acIkeProposals base) < IPSEC_PROPOSAL_LENGTH"
  shows "let cases = map (\<lambda>i. fst (GetNativeAppAlgorithmCase NATIVE_APP_ALGORITHM_EXHAUSTIVE_ESP i (Some base) u v c))
      [0..<GetNativeAppAlgorithmCaseCount NATIVE_APP_ALGORITHM_EXHAUSTIVE_ESP] in
    map (\<lambda>r. (cstr (ac_acEspProposal r), cstr (ac_acExpectedChildKe r), ac_bSeparateChildExchange r,
              ac_bExpectEsn r, ac_bExpectNoEsn r)) cases =
      map (\<lambda>(cs, k, n). (join_dash (esp_tokens (cs, k, n)), ke_name k, k \<noteq> None, n = ''esn'', n = ''noesn''))
        esp_catalog \<and>
    distinct (map (\<lambda>r. cstr (ac_acEspProposal r)) cases)"
proof -
  define f where "f = (\<lambda>i. GetNativeAppAlgorithmCase NATIVE_APP_ALGORITHM_EXHAUSTIVE_ESP i (Some base) u v c)"
  have modes: "''esn'' \<in> set gapcNativeAppEsnModes" "''noesn'' \<in> set gapcNativeAppEsnModes"
    by (simp_all add: gapcNativeAppEsnModes_def)
  have h: "cstr (ac_acEspProposal (fst (f i))) = join_dash (esp_tokens (cs, k, n)) \<and>
      cstr (ac_acExpectedChildKe (fst (f i))) = ke_name k \<and>
      (ac_bSeparateChildExchange (fst (f i)) \<longleftrightarrow> k \<noteq> None) \<and>
      (ac_bExpectEsn (fst (f i)) \<longleftrightarrow> n = ''esn'') \<and> (ac_bExpectNoEsn (fst (f i)) \<longleftrightarrow> n = ''noesn'')"
    if i: "i < 4876" and x: "esp_catalog ! i = (cs, k, n)" for i cs k n
  proof -
    have m: "(cs, k, n) \<in> set esp_catalog" using i x nth_mem [of i esp_catalog] by simp
    have s: "split_on (CHR ''-'') (join_dash (esp_tokens (cs, k, n))) = esp_tokens (cs, k, n)"
      using esp_catalog_clean [OF m] by (intro split_join) auto
    show ?thesis
      using exhaustive_esp_case [OF i assms, of u v c] x child_ke_entry [OF m] esp_esn_token [OF m modes(1)]
        esp_esn_token [OF m modes(2)] by (simp add: f_def case_holds_def s)
  qed
  have m: "map (\<lambda>r. (cstr (ac_acEspProposal r), cstr (ac_acExpectedChildKe r), ac_bSeparateChildExchange r,
              ac_bExpectEsn r, ac_bExpectNoEsn r)) (map (\<lambda>i. fst (f i)) [0..<4876]) =
      map (\<lambda>(cs, k, n). (join_dash (esp_tokens (cs, k, n)), ke_name k, k \<noteq> None, n = ''esn'', n = ''noesn''))
        esp_catalog"
    using h by (intro nth_equalityI) (simp_all split: prod.split)
  then have "map (\<lambda>r. cstr (ac_acEspProposal r)) (map (\<lambda>i. fst (f i)) [0..<4876]) =
      map (\<lambda>x. join_dash (esp_tokens x)) esp_catalog"
    by (auto dest!: arg_cong [of _ _ "map fst"] simp: comp_def case_prod_beta)
  moreover have "GetNativeAppAlgorithmCase NATIVE_APP_ALGORITHM_EXHAUSTIVE_ESP i (Some base) u v c = f i" for i
    by (simp add: f_def)
  ultimately show ?thesis unfolding Let_def case_counts using m catalog_texts_distinct by (simp add: comp_def)
qed

theorem exhaustive_esp_catalog_witness:
  "distinct (map (\<lambda>i. cstr (ac_acEspProposal (fst (GetNativeAppAlgorithmCase
     NATIVE_APP_ALGORITHM_EXHAUSTIVE_ESP i (Some catalog_base) None None zero_case)))) [0..<4876])"
proof -
  have "strlen (nc_acIkeProposals catalog_base) < IPSEC_PROPOSAL_LENGTH"
    by (simp add: strlen_def catalog_base_texts)
  from exhaustive_esp_catalog [OF this, of None None zero_case] show ?thesis
    unfolding Let_def case_counts map_map comp_def by blast
qed

text \<open>Every row of the baseline table gives a case with the texts of the row, and the table's
  mark for a separate CHILD exchange agrees with the tokens of its ESP proposal.\<close>

theorem baseline_catalog:
  assumes "i < GetNativeAppAlgorithmCaseCount NATIVE_APP_ALGORITHM_BASELINE"
  shows "let r = gaNativeAppBaselineCases ! i;
      (c', e) = GetNativeAppAlgorithmCase NATIVE_APP_ALGORITHM_BASELINE i (Some base) u v c in
    e = IPSEC_OK \<and> cstr (ac_acId c') = bc_pcId r \<and> cstr (ac_acIkeProposal c') = bc_pcIkeProposal r \<and>
    cstr (ac_acEspProposal c') = bc_pcEspProposal r \<and>
    ac_bSeparateChildExchange c' = bc_bSeparateChildExchange r"
proof -
  have i: "i < 54" using assms by simp
  show ?thesis using baseline_case [OF i, of base u v c] unfolding Let_def case_holds_def case_prod_beta by blast
qed

theorem baseline_catalog_witness:
  "cstr (ac_acEspProposal (fst (GetNativeAppAlgorithmCase NATIVE_APP_ALGORITHM_BASELINE 38 (Some catalog_base)
     None None zero_case))) = ''aes256-sha256-ecp256''"
proof -
  have i: "38 < GetNativeAppAlgorithmCaseCount NATIVE_APP_ALGORITHM_BASELINE" by simp
  have "bc_pcEspProposal (gaNativeAppBaselineCases ! 38) = ''aes256-sha256-ecp256''" by code_simp
  then show ?thesis using baseline_catalog [OF i, of catalog_base None None zero_case]
    by (simp add: Let_def case_prod_beta)
qed

end
