(* ===== verification/AppPeer.thy ===== *)
theory AppPeer
  imports AppConfigProps
begin

section \<open>Peer registration (\<open>app/peer.c\<close>)\<close>

text \<open>
  An initiator hands out group and logon numbers to the responders that register with it over
  TCP; both sides derive the same names from them and append a peer to their tables.

  \<open>PeerWorld\<close> is what this file sees of its process: the table, the caller's diagnostic
  buffer, the outcomes of the socket calls still to come, the bytes of the current connection
  (\<open>pe_in\<close> those of the other side, \<open>pe_out\<close> those sent so far), the number of open
  descriptors, the addresses bound and connected to, the delays given to \<open>poll\<close>, and the
  events the listener's callback received.  As everywhere, a call whose outcome is missing
  fails.  A pointer to an element of the table is its index.
\<close>

abbreviation NATIVE_APP_PEER_CAPACITY :: nat where "NATIVE_APP_PEER_CAPACITY \<equiv> 256"
abbreviation NATIVE_APP_PEER_LOGON_LIMIT :: nat where "NATIVE_APP_PEER_LOGON_LIMIT \<equiv> 100"
abbreviation NATIVE_APP_PEER_LISTENER_POLL_MS :: nat where "NATIVE_APP_PEER_LISTENER_POLL_MS \<equiv> 250"
abbreviation NATIVE_APP_PEER_MESSAGE_LENGTH :: nat where "NATIVE_APP_PEER_MESSAGE_LENGTH \<equiv> 4096"
abbreviation NATIVE_APP_ERROR_TEXT_LENGTH :: nat where "NATIVE_APP_ERROR_TEXT_LENGTH \<equiv> 256"

datatype sockaddr_storage =
    SockIpv4 bytes nat
  | SockIpv6 bytes nat
  | SockOther

datatype peer_event =
    CallOk
  | CallFailed
  | PollFlags "16 word"
  | PollNothing
  | PollFailed errno
  | Connected
  | ConnectFailed errno
  | SocketStatus bool
  | Accepted sockaddr_storage bytes
  | Transferred nat
  | TransferFailed errno
  | StopFlag bool

record NativeAppPeer =
  np_uiGroupId :: nat
  np_uiLogonId :: nat
  np_Config :: NativeAppConfig
  np_bConnectionLoaded :: bool
  np_bCredentialLoaded :: bool

record NativeAppPeerTable =
  pt_aPeers :: "NativeAppPeer list"
  pt_uiCount :: nat
  pt_uiSelectedIndex :: nat
  pt_bLocked :: bool

record PeerWorld =
  pe_Table :: NativeAppPeerTable
  pe_pcError :: string
  pe_trace :: "peer_event list"
  pe_in :: bytes
  pe_out :: bytes
  pe_open :: nat
  pe_bound :: "sockaddr_storage option"
  pe_target :: "sockaddr_storage option"
  pe_waits :: "nat list"
  pe_notes :: "(IpsecError \<times> nat option \<times> string) list"

subsection \<open>Calls\<close>

definition peer_next :: "PeerWorld \<Rightarrow> peer_event option \<times> PeerWorld" where
  "peer_next w =
     (case pe_trace w of [] \<Rightarrow> (None, w) | ev # evs \<Rightarrow> (Some ev, w\<lparr>pe_trace := evs\<rparr>))"

text \<open>\<open>setsockopt\<close>, \<open>listen\<close>, \<open>fcntl\<close>, \<open>pthread_create\<close> and the like.\<close>

definition sys_call :: "PeerWorld \<Rightarrow> bool \<times> PeerWorld" where
  "sys_call w = (let (ev, w) = peer_next w in (ev = Some CallOk, w))"

definition sys_open_socket :: "PeerWorld \<Rightarrow> bool \<times> PeerWorld" where
  "sys_open_socket w =
     (let (bOpened, w) = sys_call w in (bOpened, if bOpened then w\<lparr>pe_open := pe_open w + 1\<rparr> else w))"

definition sys_close_socket :: "PeerWorld \<Rightarrow> PeerWorld" where
  "sys_close_socket w = w\<lparr>pe_open := pe_open w - 1\<rparr>"

definition sys_bind :: "sockaddr_storage \<Rightarrow> PeerWorld \<Rightarrow> bool \<times> PeerWorld" where
  "sys_bind a w = sys_call (w\<lparr>pe_bound := Some a\<rparr>)"

definition sys_connect_to :: "sockaddr_storage \<Rightarrow> PeerWorld \<Rightarrow> errno option \<times> PeerWorld" where
  "sys_connect_to a w =
     (let (ev, w) = peer_next (w\<lparr>pe_target := Some a\<rparr>) in
      case ev of
        Some Connected \<Rightarrow> (None, w)
      | Some (ConnectFailed e) \<Rightarrow> (Some e, w)
      | _ \<Rightarrow> (Some EOTHER, w))"

text \<open>\<open>getsockopt\<close> of \<open>SO_ERROR\<close>: whether it succeeds and reports no error.\<close>

definition sys_socket_status :: "PeerWorld \<Rightarrow> bool \<times> PeerWorld" where
  "sys_socket_status w = (let (ev, w) = peer_next w in (ev = Some (SocketStatus True), w))"

definition sys_accept :: "PeerWorld \<Rightarrow> sockaddr_storage option \<times> PeerWorld" where
  "sys_accept w =
     (let (ev, w) = peer_next w in
      case ev of
        Some (Accepted a bs) \<Rightarrow> (Some a, w\<lparr>pe_in := bs, pe_open := pe_open w + 1\<rparr>)
      | _ \<Rightarrow> (None, w))"

definition sys_send_some :: "bytes \<Rightarrow> PeerWorld \<Rightarrow> (errno + nat) \<times> PeerWorld" where
  "sys_send_some bs w =
     (let (ev, w) = peer_next w in
      case ev of
        Some (Transferred n) \<Rightarrow> (Inr (length (take n bs)), w\<lparr>pe_out := pe_out w @ take n bs\<rparr>)
      | Some (TransferFailed e) \<Rightarrow> (Inl e, w)
      | _ \<Rightarrow> (Inl EOTHER, w))"

text \<open>\<open>recv\<close> of one byte; the end of the stream is \<open>None\<close>.\<close>

definition sys_recv_byte :: "PeerWorld \<Rightarrow> (errno + char option) \<times> PeerWorld" where
  "sys_recv_byte w =
     (let (ev, w) = peer_next w in
      case ev of
        Some (Transferred n) \<Rightarrow>
          (case pe_in w of
             [] \<Rightarrow> (Inr None, w)
           | c # cs \<Rightarrow> if n = 0 then (Inr None, w) else (Inr (Some c), w\<lparr>pe_in := cs\<rparr>))
      | Some (TransferFailed e) \<Rightarrow> (Inl e, w)
      | _ \<Rightarrow> (Inl EOTHER, w))"

definition load_stop_flag :: "PeerWorld \<Rightarrow> bool \<times> PeerWorld" where
  "load_stop_flag w =
     (let (ev, w) = peer_next w in (case ev of Some (StopFlag b) \<Rightarrow> (b, w) | _ \<Rightarrow> (True, w)))"

lemma peer_next_trace:
  "peer_next w = (ev, w') \<Longrightarrow>
   length (pe_trace w') \<le> length (pe_trace w) \<and>
   (ev \<noteq> None \<longrightarrow> length (pe_trace w') < length (pe_trace w))"
  by (auto simp: peer_next_def split: list.splits)

subsection \<open>Texts and addresses\<close>

definition SetNativeAppPeerError :: "nat \<Rightarrow> string \<Rightarrow> PeerWorld \<Rightarrow> PeerWorld" where
  "SetNativeAppPeerError uiErrorLength pcText w =
     (if 0 < uiErrorLength then w\<lparr>pe_pcError := take (uiErrorLength - 1) pcText\<rparr> else w)"

definition CopyNativeAppPeerText :: "cbuf \<Rightarrow> string option \<Rightarrow> cbuf \<times> bool" where
  "CopyNativeAppPeerText pcDestination pcSource =
     (case pcSource of
        None \<Rightarrow> (pcDestination, False)
      | Some text \<Rightarrow>
          if length pcDestination = 0 then (pcDestination, False)
          else
            let zLength = strnlen text (length pcDestination) in
            if length pcDestination \<le> zLength then (pcDestination, False)
            else (buf_write pcDestination 0 (take zLength text @ [NUL]), True))"

definition IsNativeAppPeerToken :: "string \<Rightarrow> bool" where
  "IsNativeAppPeerToken pcText \<longleftrightarrow>
     cstr pcText \<noteq> [] \<and>
     list_all (\<lambda>c. \<not> (of_char c \<le> (32::nat) \<or> of_char c = (127::nat))) (cstr pcText)"

definition IsNativeAppPeerAddress :: "string \<Rightarrow> bool" where
  "IsNativeAppPeerAddress pcAddress \<longleftrightarrow>
     inet_pton4_value (cstr pcAddress) \<noteq> None \<or> inet_pton6_value (cstr pcAddress) \<noteq> None"

definition IsNativeAppSameAddress :: "string \<Rightarrow> string \<Rightarrow> bool" where
  "IsNativeAppSameAddress pcLeft pcRight =
     (case (inet_pton4_value (cstr pcLeft), inet_pton4_value (cstr pcRight)) of
        (Some a, Some b) \<Rightarrow> a = b
      | _ \<Rightarrow>
          (case (inet_pton6_value (cstr pcLeft), inet_pton6_value (cstr pcRight)) of
             (Some a, Some b) \<Rightarrow> a = b
           | _ \<Rightarrow> False))"

definition BuildNativeAppSocketAddress :: "string \<Rightarrow> nat \<Rightarrow> sockaddr_storage option" where
  "BuildNativeAppSocketAddress pcAddress uiPort =
     (case inet_pton4_value (cstr pcAddress) of
        Some a \<Rightarrow> Some (SockIpv4 a (uiPort mod 65536))
      | None \<Rightarrow>
          (case inet_pton6_value (cstr pcAddress) of
             Some a \<Rightarrow> Some (SockIpv6 a (uiPort mod 65536))
           | None \<Rightarrow> None))"

text \<open>The text, if it fits the array of \<open>uiAddressLength\<close> characters.\<close>

definition GetNativeAppSocketAddressText :: "sockaddr_storage \<Rightarrow> nat \<Rightarrow> string option" where
  "GetNativeAppSocketAddressText pStorage uiAddressLength =
     (let fit = (\<lambda>t. if length t < uiAddressLength then Some t else None) in
      case pStorage of
        SockIpv4 a _ \<Rightarrow> fit (inet_ntop4 a)
      | SockIpv6 a _ \<Rightarrow> fit (inet_ntop6 a)
      | SockOther \<Rightarrow> None)"

primrec same_family :: "sockaddr_storage \<Rightarrow> sockaddr_storage \<Rightarrow> bool" where
  "same_family (SockIpv4 _ _) b = (case b of SockIpv4 _ _ \<Rightarrow> True | _ \<Rightarrow> False)"
| "same_family (SockIpv6 _ _) b = (case b of SockIpv6 _ _ \<Rightarrow> True | _ \<Rightarrow> False)"
| "same_family SockOther b = (b = SockOther)"

subsection \<open>Waiting, sending and receiving\<close>

definition GetNativeAppPollTimeout :: "nat \<Rightarrow> nat" where
  "GetNativeAppPollTimeout uiTimeoutMs = (if INT32_MAX < uiTimeoutMs then INT32_MAX else uiTimeoutMs)"

text \<open>\<open>poll\<close>, again as long as it is interrupted.\<close>

function peer_poll :: "nat \<Rightarrow> PeerWorld \<Rightarrow> peer_event \<times> PeerWorld" where
  "peer_poll iTimeoutMs w =
     (let (ev, w') = peer_next (w\<lparr>pe_waits := pe_waits w @ [iTimeoutMs]\<rparr>) in
      case ev of
        Some (PollFlags f) \<Rightarrow> (PollFlags f, w')
      | Some PollNothing \<Rightarrow> (PollNothing, w')
      | Some (PollFailed e) \<Rightarrow> if e = EINTR then peer_poll iTimeoutMs w' else (PollFailed e, w')
      | _ \<Rightarrow> (PollFailed EOTHER, w'))"
  by pat_completeness auto
termination
  by (relation "measure (\<lambda>(t, w). length (pe_trace w))") (auto dest: peer_next_trace [OF sym])

declare peer_poll.simps [simp del]

definition WaitNativeAppSocket :: "16 word \<Rightarrow> nat \<Rightarrow> nat \<Rightarrow> PeerWorld \<Rightarrow> PeerWorld outcome" where
  "WaitNativeAppSocket sEvents uiTimeoutMs uiErrorLength w =
     (let (iResult, w) = peer_poll (GetNativeAppPollTimeout uiTimeoutMs) w in
      case iResult of
        PollNothing \<Rightarrow>
          (SetNativeAppPeerError uiErrorLength ''peer registration timed out'' w, IPSEC_ERR_VICI_TIMEOUT)
      | PollFlags revents \<Rightarrow>
          if revents AND (POLLERR OR POLLHUP OR POLLNVAL) \<noteq> 0
          then (SetNativeAppPeerError uiErrorLength ''peer registration socket failed'' w, IPSEC_ERR_INTERNAL)
          else if revents AND sEvents = 0
          then (SetNativeAppPeerError uiErrorLength ''unexpected peer registration socket event'' w,
                IPSEC_ERR_INTERNAL)
          else (w, IPSEC_OK)
      | _ \<Rightarrow>
          (SetNativeAppPeerError uiErrorLength ''peer registration socket failed'' w, IPSEC_ERR_INTERNAL))"

lemma sys_send_shorter:
  "sys_send_some bs w = (Inl EINTR, w') \<Longrightarrow> length (pe_trace w') < length (pe_trace w)"
  "sys_send_some bs w = (Inr n, w') \<Longrightarrow> length (pe_trace w') < length (pe_trace w)"
  by (auto simp: sys_send_some_def Let_def dest: peer_next_trace
      split: prod.splits option.splits peer_event.splits)

function peer_send_loop :: "nat \<Rightarrow> bytes \<Rightarrow> PeerWorld \<Rightarrow> PeerWorld outcome" where
  "peer_send_loop uiErrorLength pcRest w =
     (if pcRest = [] then (w, IPSEC_OK)
      else
        let (zSent, w') = sys_send_some pcRest w;
            failed = (SetNativeAppPeerError uiErrorLength ''failed to send peer registration data'' w',
                      IPSEC_ERR_INTERNAL)
        in case zSent of
             Inl e \<Rightarrow> if e = EINTR then peer_send_loop uiErrorLength pcRest w' else failed
           | Inr n \<Rightarrow> if n = 0 then failed else peer_send_loop uiErrorLength (drop n pcRest) w')"
  by pat_completeness auto
termination
  by (relation "measure (\<lambda>(n, s, w). length (pe_trace w))") (auto dest: sys_send_shorter [OF sym])

declare peer_send_loop.simps [simp del]

definition SendNativeAppPeerMessage :: "string \<Rightarrow> nat \<Rightarrow> PeerWorld \<Rightarrow> PeerWorld outcome" where
  "SendNativeAppPeerMessage pcMessage uiErrorLength w =
     (if NATIVE_APP_PEER_MESSAGE_LENGTH \<le> strnlen pcMessage NATIVE_APP_PEER_MESSAGE_LENGTH
      then (w, IPSEC_ERR_BUFFER_TOO_SMALL)
      else peer_send_loop uiErrorLength (cstr pcMessage) w)"

lemma SetNativeAppPeerError_trace [simp]: "pe_trace (SetNativeAppPeerError n t w) = pe_trace w"
  by (simp add: SetNativeAppPeerError_def)

lemma peer_poll_trace:
  "length (pe_trace (snd (peer_poll t w))) \<le> length (pe_trace w) \<and>
   ((\<exists>f. fst (peer_poll t w) = PollFlags f) \<or> fst (peer_poll t w) = PollNothing \<longrightarrow>
    length (pe_trace (snd (peer_poll t w))) < length (pe_trace w))"
proof (induction t w rule: peer_poll.induct)
  case (1 t w)
  obtain ev w' where n: "peer_next (w\<lparr>pe_waits := pe_waits w @ [t]\<rparr>) = (ev, w')" by fastforce
  note l = peer_next_trace [OF n]
  have ih: "ev = Some (PollFailed EINTR) \<Longrightarrow>
      length (pe_trace (snd (peer_poll t w'))) \<le> length (pe_trace w') \<and>
      ((\<exists>f. fst (peer_poll t w') = PollFlags f) \<or> fst (peer_poll t w') = PollNothing \<longrightarrow>
       length (pe_trace (snd (peer_poll t w'))) < length (pe_trace w'))"
    by (rule 1) (use n in simp_all)
  show ?case
  proof (cases "ev = Some (PollFailed EINTR)")
    case True
    then have "peer_poll t w = peer_poll t w'" unfolding peer_poll.simps [of t w] by (simp add: n)
    then show ?thesis using ih [OF True] l True by auto
  next
    case False
    then show ?thesis using n l unfolding peer_poll.simps [of t w]
      by (auto split: option.splits peer_event.splits)
  qed
qed

lemma WaitNativeAppSocket_trace:
  assumes "WaitNativeAppSocket ev t n w = (w', e)"
  shows "length (pe_trace w') \<le> length (pe_trace w)"
    and "e = IPSEC_OK \<or> e = IPSEC_ERR_VICI_TIMEOUT \<Longrightarrow> length (pe_trace w') < length (pe_trace w)"
  using assms peer_poll_trace [of "GetNativeAppPollTimeout t" w]
  by (auto simp: WaitNativeAppSocket_def split: prod.splits peer_event.splits if_splits)

lemma sys_recv_byte_trace:
  "sys_recv_byte w = (r, w') \<Longrightarrow> length (pe_trace w') \<le> length (pe_trace w)"
  by (auto simp: sys_recv_byte_def Let_def dest: peer_next_trace
      split: prod.splits option.splits peer_event.splits list.splits if_splits)

text \<open>The bytes received so far are \<open>acc\<close>; on success they are the message without its newline.\<close>

function peer_recv_loop ::
  "nat \<Rightarrow> nat \<Rightarrow> nat \<Rightarrow> bytes \<Rightarrow> PeerWorld \<Rightarrow> (bytes \<times> PeerWorld) outcome" where
  "peer_recv_loop uiMessageLength uiTimeoutMs uiErrorLength acc w =
     (if uiMessageLength \<le> length acc + 1
      then ((acc, SetNativeAppPeerError uiErrorLength ''peer registration message is too long'' w),
            IPSEC_ERR_BUFFER_TOO_SMALL)
      else
        let (w1, eError) = WaitNativeAppSocket POLLIN uiTimeoutMs uiErrorLength w in
        if eError \<noteq> IPSEC_OK then ((acc, w1), eError)
        else
          let (zRead, w2) = sys_recv_byte w1;
              failed = ((acc, SetNativeAppPeerError uiErrorLength ''peer registration data was truncated'' w2),
                        IPSEC_ERR_INTERNAL)
          in case zRead of
               Inl e \<Rightarrow>
                 if e = EINTR then peer_recv_loop uiMessageLength uiTimeoutMs uiErrorLength acc w2 else failed
             | Inr None \<Rightarrow> failed
             | Inr (Some c) \<Rightarrow>
                 if c = newline then ((acc, w2), IPSEC_OK)
                 else peer_recv_loop uiMessageLength uiTimeoutMs uiErrorLength (acc @ [c]) w2)"
  by pat_completeness auto
termination
proof (relation "measure (\<lambda>(l, t, n, acc, w). length (pe_trace w))", goal_cases)
  case 1
  then show ?case by simp
next
  case (2 l t n acc w x w1 e y r w2)
  then show ?case using WaitNativeAppSocket_trace [of POLLIN t n w w1 e] sys_recv_byte_trace [of w1 r w2] by simp
next
  case (3 l t n acc w x w1 e y r w2)
  then show ?case using WaitNativeAppSocket_trace [of POLLIN t n w w1 e] sys_recv_byte_trace [of w1 r w2] by simp
qed

declare peer_recv_loop.simps [simp del]

definition ReceiveNativeAppPeerMessage ::
  "nat \<Rightarrow> nat \<Rightarrow> nat \<Rightarrow> PeerWorld \<Rightarrow> (bytes \<times> PeerWorld) outcome" where
  "ReceiveNativeAppPeerMessage uiMessageLength uiTimeoutMs uiErrorLength w =
     peer_recv_loop uiMessageLength uiTimeoutMs uiErrorLength [] w"

subsection \<open>Names and the table\<close>

definition GetNativeAppPeerSequence :: "bool \<Rightarrow> nat \<Rightarrow> IpsecError + (nat \<times> nat)" where
  "GetNativeAppPeerSequence bPointers uiOrdinal =
     (if \<not> bPointers then Inl IPSEC_ERR_INVALID_ARGUMENT
      else
        let uiGroupOffset = uiOrdinal div NATIVE_APP_PEER_LOGON_LIMIT
        in Inr (u32 (uiGroupOffset + 1), uiOrdinal mod NATIVE_APP_PEER_LOGON_LIMIT + 1))"

definition BuildNativeAppPeerName :: "cbuf \<Rightarrow> string \<Rightarrow> string \<Rightarrow> cbuf \<times> bool" where
  "BuildNativeAppPeerName pcDestination pcPrefix pcPeerId =
     snprintf_to pcDestination (pcPrefix @ cstr pcPeerId)"

definition BuildNativeAppPeerId :: "cbuf \<Rightarrow> nat \<Rightarrow> nat \<Rightarrow> cbuf \<times> bool" where
  "BuildNativeAppPeerId pcPeerId uiGroupId uiLogonId =
     snprintf_to pcPeerId (''rcst-'' @ dec uiGroupId @ ''-'' @ dec uiLogonId)"

definition zero_config :: NativeAppConfig where
  "zero_config = InitializeNativeAppConfig
     \<lparr>nc_acOutputRoot := replicate NATIVE_APP_PATH_LENGTH NUL,
      nc_acViciSocket := replicate NATIVE_APP_PATH_LENGTH NUL,
      nc_uiTimeoutMs := 0, nc_uiPeerPort := 0\<rparr>"

definition zero_peer :: NativeAppPeer where
  "zero_peer = \<lparr>np_uiGroupId = 0, np_uiLogonId = 0, np_Config = zero_config,
     np_bConnectionLoaded = False, np_bCredentialLoaded = False\<rparr>"

text \<open>One text of the peer's configuration, copied or built; the first that does not fit ends
  the chain.\<close>

definition peer_text ::
  "(NativeAppConfig \<Rightarrow> cbuf) \<Rightarrow> ((cbuf \<Rightarrow> cbuf) \<Rightarrow> NativeAppConfig \<Rightarrow> NativeAppConfig) \<Rightarrow>
   (cbuf \<Rightarrow> cbuf \<times> bool) \<Rightarrow> NativeAppPeer \<Rightarrow> NativeAppPeer outcome" where
  "peer_text get upd write p =
     (let (buf, bDone) = write (get (np_Config p))
      in (p\<lparr>np_Config := upd (\<lambda>_. buf) (np_Config p)\<rparr>,
          if bDone then IPSEC_OK else IPSEC_ERR_BUFFER_TOO_SMALL))"

definition BuildNativeAppPeerConfig ::
  "NativeAppConfig \<Rightarrow> nat \<Rightarrow> nat \<Rightarrow> string \<Rightarrow> string \<Rightarrow> string \<Rightarrow> string \<Rightarrow> NativeAppPeer outcome" where
  "BuildNativeAppPeerConfig pBaseConfig uiGroupId uiLogonId pcLocalAddress pcRemoteAddress pcLocalId pcRemoteId =
     (let p = zero_peer\<lparr>np_uiGroupId := uiGroupId, np_uiLogonId := uiLogonId, np_Config := pBaseConfig\<rparr>;
          (acPeerId, bBuilt) = BuildNativeAppPeerId (replicate IPSEC_ID_LENGTH NUL) uiGroupId uiLogonId;
          copy = (\<lambda>text buf. CopyNativeAppPeerText buf (Some text));
          name = (\<lambda>prefix buf. BuildNativeAppPeerName buf prefix acPeerId)
      in if \<not> bBuilt then (p, IPSEC_ERR_BUFFER_TOO_SMALL)
         else run_steps
           [peer_text nc_acLocalAddress nc_acLocalAddress_update (copy pcLocalAddress),
            peer_text nc_acRemoteAddress nc_acRemoteAddress_update (copy pcRemoteAddress),
            peer_text nc_acLocalId nc_acLocalId_update (copy pcLocalId),
            peer_text nc_acRemoteId nc_acRemoteId_update (copy pcRemoteId),
            peer_text nc_acConnectionName nc_acConnectionName_update (name ''conn-''),
            peer_text nc_acChildName nc_acChildName_update (name ''child-''),
            peer_text nc_acCredentialId nc_acCredentialId_update (name ''psk-'')] p)"

text \<open>The table's mutex; the results of the calls are not looked at.\<close>

definition LockNativeAppPeerTable :: "NativeAppPeerTable \<Rightarrow> NativeAppPeerTable" where
  "LockNativeAppPeerTable t = t\<lparr>pt_bLocked := True\<rparr>"

definition UnlockNativeAppPeerTable :: "NativeAppPeerTable \<Rightarrow> NativeAppPeerTable" where
  "UnlockNativeAppPeerTable t = t\<lparr>pt_bLocked := False\<rparr>"

definition zero_table :: NativeAppPeerTable where
  "zero_table = \<lparr>pt_aPeers = replicate NATIVE_APP_PEER_CAPACITY zero_peer, pt_uiCount = 0,
     pt_uiSelectedIndex = 0, pt_bLocked = False\<rparr>"

definition InitializeNativeAppPeerTable :: "bool \<Rightarrow> PeerWorld \<Rightarrow> PeerWorld outcome" where
  "InitializeNativeAppPeerTable bTableGiven w =
     (if \<not> bTableGiven then (w, IPSEC_ERR_INVALID_ARGUMENT)
      else
        let (bMutex, w) = sys_call (w\<lparr>pe_Table := zero_table\<rparr>)
        in if \<not> bMutex then (w, IPSEC_ERR_INTERNAL)
           else (w\<lparr>pe_Table := (pe_Table w)\<lparr>pt_uiSelectedIndex := UINT32_MAX\<rparr>\<rparr>, IPSEC_OK))"

definition DeinitializeNativeAppPeerTable :: "bool \<Rightarrow> PeerWorld \<Rightarrow> PeerWorld" where
  "DeinitializeNativeAppPeerTable bTableGiven w =
     (if bTableGiven then w\<lparr>pe_Table := zero_table\<rparr> else w)"

text \<open>Initiators know a peer by its remote identity, responders by their own.\<close>

definition peer_id_of :: "NativeAppPeer \<Rightarrow> cbuf" where
  "peer_id_of p =
     (if nc_eRole (np_Config p) = NATIVE_APP_ROLE_RESPONDER then nc_acLocalId (np_Config p)
      else nc_acRemoteId (np_Config p))"

definition FindNativeAppPeer ::
  "NativeAppPeerTable option \<Rightarrow> string option \<Rightarrow> NativeAppPeerTable option \<times> nat option" where
  "FindNativeAppPeer pTable pcPeerId =
     (case (pTable, pcPeerId) of
        (Some t, Some pcId) \<Rightarrow>
          let t = LockNativeAppPeerTable t;
              pPeer = List.find (\<lambda>i. strcmp_eq pcId (peer_id_of (pt_aPeers t ! i))) [0..<pt_uiCount t]
          in (Some (UnlockNativeAppPeerTable t), pPeer)
      | _ \<Rightarrow> (pTable, None))"

definition AllocateNativeAppPeerIds ::
  "NativeAppPeerTable \<Rightarrow> NativeAppPeerTable \<times> (IpsecError + (nat \<times> nat))" where
  "AllocateNativeAppPeerIds t =
     (let t = LockNativeAppPeerTable t;
          r = (if NATIVE_APP_PEER_CAPACITY \<le> pt_uiCount t then Inl IPSEC_ERR_BUFFER_TOO_SMALL
               else GetNativeAppPeerSequence True (pt_uiCount t))
      in (UnlockNativeAppPeerTable t, r))"

definition AppendNativeAppPeer ::
  "NativeAppPeer \<Rightarrow> NativeAppPeerTable \<Rightarrow> (nat option \<times> NativeAppPeerTable) outcome" where
  "AppendNativeAppPeer pPeer t =
     (let t = LockNativeAppPeerTable t;
          uiCount = pt_uiCount t;
          ((i, t), eError) =
            (if NATIVE_APP_PEER_CAPACITY \<le> uiCount then ((None, t), IPSEC_ERR_BUFFER_TOO_SMALL)
             else if nc_eRole (np_Config pPeer) = NATIVE_APP_ROLE_INITIATOR \<and>
               (np_uiGroupId pPeer \<noteq> uiCount div NATIVE_APP_PEER_LOGON_LIMIT + 1 \<or>
                np_uiLogonId pPeer \<noteq> uiCount mod NATIVE_APP_PEER_LOGON_LIMIT + 1)
             then ((None, t), IPSEC_ERR_INVALID_ARGUMENT)
             else ((Some uiCount,
                    t\<lparr>pt_aPeers := (pt_aPeers t)[uiCount := pPeer], pt_uiCount := uiCount + 1\<rparr>), IPSEC_OK))
      in ((i, UnlockNativeAppPeerTable t), eError))"

text \<open>The peer is stored in the world's table.\<close>

definition append_peer :: "NativeAppPeer \<Rightarrow> PeerWorld \<Rightarrow> (nat option \<times> PeerWorld) outcome" where
  "append_peer p w =
     (let ((i, t), eError) = AppendNativeAppPeer p (pe_Table w) in ((i, w\<lparr>pe_Table := t\<rparr>), eError))"

subsection \<open>The two sockets\<close>

definition OpenNativeAppServerSocket :: "NativeAppConfig \<Rightarrow> nat \<Rightarrow> PeerWorld \<Rightarrow> bool \<times> PeerWorld" where
  "OpenNativeAppServerSocket c uiErrorLength w =
     (case BuildNativeAppSocketAddress (nc_acPeerServerAddress c) (nc_uiPeerPort c) of
        None \<Rightarrow> (False, w)
      | Some a \<Rightarrow>
          let (bOpened, w) = sys_open_socket w in
          if \<not> bOpened
          then (False, SetNativeAppPeerError uiErrorLength ''failed to create peer server socket'' w)
          else
            let (bReuse, w) = sys_call w;
                (bBound, w) = (if bReuse then sys_bind a w else (False, w));
                (bListens, w) = (if bBound then sys_call w else (False, w))
            in if bListens then (True, w)
               else (False, sys_close_socket
                      (SetNativeAppPeerError uiErrorLength ''failed to bind peer server socket'' w)))"

text \<open>Connecting without blocking; the result says whether the connection is made.\<close>

definition connect_peer_server :: "sockaddr_storage \<Rightarrow> nat \<Rightarrow> nat \<Rightarrow> PeerWorld \<Rightarrow> bool \<times> PeerWorld" where
  "connect_peer_server a uiTimeoutMs uiErrorLength w =
     (let (iResult, w) = sys_connect_to a w;
          failed = SetNativeAppPeerError uiErrorLength ''failed to connect to peer server'' in
      case iResult of
        None \<Rightarrow> (True, w)
      | Some e \<Rightarrow>
          if e = EINPROGRESS then
            let (w, eError) = WaitNativeAppSocket POLLOUT uiTimeoutMs uiErrorLength w in
            if eError \<noteq> IPSEC_OK then (False, w)
            else let (bConnected, w) = sys_socket_status w in (bConnected, if bConnected then w else failed w)
          else (False, failed w))"

definition OpenNativeAppClientSocket :: "NativeAppConfig \<Rightarrow> nat \<Rightarrow> PeerWorld \<Rightarrow> bool \<times> PeerWorld" where
  "OpenNativeAppClientSocket c uiErrorLength w =
     (case (BuildNativeAppSocketAddress (nc_acLocalAddress c) 0,
            BuildNativeAppSocketAddress (nc_acPeerServerAddress c) (nc_uiPeerPort c)) of
        (Some local, Some server) \<Rightarrow>
          if \<not> same_family local server
          then (False, SetNativeAppPeerError uiErrorLength ''peer addresses use incompatible families'' w)
          else
            let (bOpened, w) = sys_open_socket w in
            if \<not> bOpened
            then (False, SetNativeAppPeerError uiErrorLength ''failed to create peer client socket'' w)
            else
              let (bBound, w) = sys_bind local w in
              if \<not> bBound
              then (False, sys_close_socket
                     (SetNativeAppPeerError uiErrorLength ''failed to bind peer client address'' w))
              else
                let (bFlags, w) = sys_call w; (bSet, w) = (if bFlags then sys_call w else (False, w)) in
                if \<not> bSet
                then (False, sys_close_socket
                       (SetNativeAppPeerError uiErrorLength ''failed to configure peer client socket'' w))
                else
                  let (bConnected, w) = connect_peer_server server (nc_uiTimeoutMs c) uiErrorLength w;
                      (bRestored, w) = (if bConnected then sys_call w else (False, w))
                  in if bRestored then (True, w) else (False, sys_close_socket w)
      | _ \<Rightarrow> (False, SetNativeAppPeerError uiErrorLength ''peer addresses use incompatible families'' w))"

subsection \<open>The initiator's side\<close>

text \<open>\<open>strtok_r\<close> with a space: the runs of other characters.\<close>

definition space_tokens :: "string \<Rightarrow> string list" where
  "space_tokens s = filter (\<lambda>t. t \<noteq> []) (split_on (CHR '' '') s)"

text \<open>The address of a valid registration request, for a connection from the socket address \<open>a\<close>.\<close>

definition registration_address :: "sockaddr_storage \<Rightarrow> bytes \<Rightarrow> string option" where
  "registration_address a acMessage =
     (case space_tokens (cstr acMessage) of
        [pcProtocol, pcCommand, pcRemoteAddress] \<Rightarrow>
          if \<not> strcmp_eq ''RCST/1'' pcProtocol \<or> \<not> strcmp_eq ''REGISTER'' pcCommand \<or>
             \<not> IsNativeAppPeerAddress pcRemoteAddress then None
          else
            (case GetNativeAppSocketAddressText a IPSEC_ADDRESS_LENGTH of
               None \<Rightarrow> None
             | Some acRemoteSocketAddress \<Rightarrow>
                 if IsNativeAppSameAddress pcRemoteAddress acRemoteSocketAddress then Some pcRemoteAddress
                 else None)
      | _ \<Rightarrow> None)"

definition assign_text :: "NativeAppConfig \<Rightarrow> nat \<Rightarrow> nat \<Rightarrow> string" where
  "assign_text c uiGroupId uiLogonId =
     ''RCST/1'' @ '' ASSIGN '' @ dec uiGroupId @ '' '' @ dec uiLogonId @ '' '' @
     cstr (nc_acLocalAddress c) @ '' '' @ cstr (nc_acLocalId c) @ '' '' @
     cstr (nc_acIkeProposals c) @ '' '' @ cstr (nc_acEspProposals c) @ '' '' @
     (if nc_eMode c = Some IPSEC_MODE_TRANSPORT then ''transport'' else ''tunnel'') @ [newline]"

text \<open>What follows a received request, up to the answer: the peer that will be stored.\<close>

definition answer_registration ::
  "NativeAppConfig \<Rightarrow> sockaddr_storage \<Rightarrow> bytes \<Rightarrow> nat \<Rightarrow> PeerWorld \<Rightarrow> (NativeAppPeer \<times> PeerWorld) outcome" where
  "answer_registration c a acMessage uiErrorLength w =
     (case registration_address a acMessage of
        None \<Rightarrow> ((zero_peer, SetNativeAppPeerError uiErrorLength ''invalid peer registration request'' w),
                 IPSEC_ERR_INVALID_ARGUMENT)
      | Some pcRemoteAddress \<Rightarrow>
          let (t, ids) = AllocateNativeAppPeerIds (pe_Table w); w = w\<lparr>pe_Table := t\<rparr> in
          case ids of
            Inl eError \<Rightarrow> ((zero_peer, w), eError)
          | Inr (uiGroupId, uiLogonId) \<Rightarrow>
              let (acPeerId, bBuilt) = BuildNativeAppPeerId (replicate IPSEC_ID_LENGTH NUL) uiGroupId uiLogonId in
              if \<not> bBuilt then ((zero_peer, w), IPSEC_ERR_BUFFER_TOO_SMALL)
              else
                let (p, eError) = BuildNativeAppPeerConfig c uiGroupId uiLogonId (nc_acLocalAddress c)
                      pcRemoteAddress (nc_acLocalId c) acPeerId;
                    text = assign_text c uiGroupId uiLogonId
                in if eError \<noteq> IPSEC_OK then ((p, w), eError)
                   else if NATIVE_APP_PEER_MESSAGE_LENGTH \<le> length text
                   then ((p, w), IPSEC_ERR_BUFFER_TOO_SMALL)
                   else let (w, eError) = SendNativeAppPeerMessage text uiErrorLength w in ((p, w), eError))"

definition AcceptNativeAppPeerConnection ::
  "bool \<Rightarrow> bool \<Rightarrow> NativeAppConfig \<Rightarrow> nat \<Rightarrow> PeerWorld \<Rightarrow> (nat option \<times> PeerWorld) outcome" where
  "AcceptNativeAppPeerConnection bPointers bServerSocket c uiErrorLength w =
     (if \<not> bPointers \<or> \<not> bServerSocket \<or> nc_eRole c \<noteq> NATIVE_APP_ROLE_INITIATOR \<or>
         \<not> IsNativeAppPeerToken (nc_acLocalId c) \<or> \<not> IsNativeAppPeerToken (nc_acIkeProposals c) \<or>
         \<not> IsNativeAppPeerToken (nc_acEspProposals c)
      then ((None, w), IPSEC_ERR_INVALID_ARGUMENT)
      else
        let (peer, w) = sys_accept w in
        case peer of
          None \<Rightarrow> ((None, SetNativeAppPeerError uiErrorLength ''failed to accept peer registration'' w),
                   IPSEC_ERR_INTERNAL)
        | Some a \<Rightarrow>
            let (bConfigured, w) = sys_call w;
                ((i, w), eError) =
                  (if \<not> bConfigured
                   then ((None, SetNativeAppPeerError uiErrorLength ''failed to configure peer registration'' w),
                         IPSEC_ERR_INTERNAL)
                   else
                     let ((acMessage, w), eError) = ReceiveNativeAppPeerMessage
                           NATIVE_APP_PEER_MESSAGE_LENGTH (nc_uiTimeoutMs c) uiErrorLength w in
                     if eError \<noteq> IPSEC_OK then ((None, w), eError)
                     else
                       let ((p, w), eError) = answer_registration c a acMessage uiErrorLength w in
                       if eError \<noteq> IPSEC_OK then ((None, w), eError) else append_peer p w)
            in ((i, sys_close_socket w), eError))"

definition AcceptNativeAppPeer ::
  "bool \<Rightarrow> NativeAppConfig \<Rightarrow> nat \<Rightarrow> PeerWorld \<Rightarrow> (nat option \<times> PeerWorld) outcome" where
  "AcceptNativeAppPeer bPointers c uiErrorLength w =
     (if \<not> bPointers then ((None, w), IPSEC_ERR_INVALID_ARGUMENT)
      else
        let (bServerSocket, w) = OpenNativeAppServerSocket c uiErrorLength w in
        if \<not> bServerSocket then ((None, w), IPSEC_ERR_INTERNAL)
        else
          let (w, eError) = WaitNativeAppSocket POLLIN (nc_uiTimeoutMs c) uiErrorLength w;
              ((i, w), eError) =
                (if eError = IPSEC_OK then AcceptNativeAppPeerConnection True True c uiErrorLength w
                 else ((None, w), eError))
          in ((i, sys_close_socket w), eError))"

subsection \<open>The listener thread\<close>

record NativeAppPeerListener =
  pl_Config :: NativeAppConfig
  pl_pCallback :: bool
  pl_iServerSocket :: bool
  pl_bStopRequested :: bool
  pl_bRunning :: bool

definition NotifyNativeAppPeerListener ::
  "NativeAppPeerListener \<Rightarrow> IpsecError \<Rightarrow> nat option \<Rightarrow> PeerWorld \<Rightarrow> PeerWorld" where
  "NotifyNativeAppPeerListener l eError pPeer w =
     (if pl_pCallback l then w\<lparr>pe_notes := pe_notes w @ [(eError, pPeer, pe_pcError w)]\<rparr> else w)"

text \<open>No operation adds outcomes to the trace.\<close>

definition shorter :: "PeerWorld \<Rightarrow> PeerWorld \<Rightarrow> bool" where
  "shorter w' w \<longleftrightarrow> length (pe_trace w') \<le> length (pe_trace w)"

lemma shorter_refl [simp]: "shorter w w"
  by (simp add: shorter_def)

lemma shorter_trans: "shorter b a \<Longrightarrow> shorter c b \<Longrightarrow> shorter c a"
  by (simp add: shorter_def)

lemma shorter_fields [simp]:
  "shorter (w'\<lparr>pe_Table := t\<rparr>) w = shorter w' w" "shorter (w'\<lparr>pe_bound := a\<rparr>) w = shorter w' w"
  "shorter (w'\<lparr>pe_open := n\<rparr>) w = shorter w' w" "shorter (w'\<lparr>pe_target := a\<rparr>) w = shorter w' w"
  "shorter (SetNativeAppPeerError n s w') w = shorter w' w" "shorter (sys_close_socket w') w = shorter w' w"
  "shorter w' (w\<lparr>pe_Table := t\<rparr>) = shorter w' w" "shorter w' (w\<lparr>pe_bound := a\<rparr>) = shorter w' w"
  "shorter w' (w\<lparr>pe_open := n\<rparr>) = shorter w' w" "shorter w' (w\<lparr>pe_target := a\<rparr>) = shorter w' w"
  "shorter w' (w\<lparr>pe_pcError := s\<rparr>) = shorter w' w"
  by (simp_all add: shorter_def sys_close_socket_def)

lemma peer_next_shorter: "peer_next w = (r, w') \<Longrightarrow> shorter w' w"
  using peer_next_trace unfolding shorter_def by blast

lemma sys_call_shorter: "sys_call w = (r, w') \<Longrightarrow> shorter w' w"
  by (auto simp: sys_call_def dest: peer_next_shorter split: prod.splits)

lemma sys_accept_shorter: "sys_accept w = (r, w') \<Longrightarrow> shorter w' w"
  by (auto simp: sys_accept_def Let_def dest!: peer_next_shorter split: prod.splits option.splits peer_event.splits)
    (auto simp: shorter_def)

lemma wait_shorter: "WaitNativeAppSocket ev t n w = (w', e) \<Longrightarrow> shorter w' w"
  using WaitNativeAppSocket_trace(1) by (simp add: shorter_def)

lemma peer_send_loop_shorter: "shorter (fst (peer_send_loop n s w)) w"
proof (induction n s w rule: peer_send_loop.induct)
  case (1 n s w)
  show ?case
  proof (cases "s = []")
    case True
    then show ?thesis by (subst peer_send_loop.simps) simp
  next
    case False
    obtain r w' where r: "sys_send_some s w = (r, w')" by fastforce
    have w: "shorter w' w"
      using r by (auto simp: sys_send_some_def Let_def dest!: peer_next_shorter split: prod.splits option.splits peer_event.splits)
        (auto simp: shorter_def)
    note ih = 1 [OF False r [symmetric] refl]
    show ?thesis using False r w ih shorter_trans [OF w]
      unfolding peer_send_loop.simps [of n s w] by (auto simp: Let_def split: sum.splits)
  qed
qed

lemma peer_recv_loop_shorter: "shorter (snd (fst (peer_recv_loop l t n acc w))) w"
proof (induction l t n acc w rule: peer_recv_loop.induct)
  case (1 l t n acc w)
  obtain w1 e1 where w1: "WaitNativeAppSocket POLLIN t n w = (w1, e1)" by fastforce
  obtain r w2 where r: "sys_recv_byte w1 = (r, w2)" by fastforce
  have "shorter w1 w" using wait_shorter [OF w1] .
  moreover have "shorter w2 w1" using sys_recv_byte_trace [OF r] by (simp add: shorter_def)
  ultimately have s: "shorter w2 w" "shorter w1 w" using shorter_trans by blast+
  show ?case
  proof (cases "l \<le> length acc + 1 \<or> e1 \<noteq> IPSEC_OK")
    case True
    then show ?thesis using s w1 unfolding peer_recv_loop.simps [of l t n acc w] by auto
  next
    case False
    then have f: "\<not> l \<le> length acc + 1" "\<not> e1 \<noteq> IPSEC_OK" by auto
    note ih = 1 [OF f(1) w1 [symmetric] refl f(2) r [symmetric] refl]
    show ?thesis using f w1 r s ih shorter_trans [OF s(1)]
      unfolding peer_recv_loop.simps [of l t n acc w] by (auto simp: Let_def split: sum.splits option.splits)
  qed
qed

lemma answer_registration_shorter: "shorter (snd (fst (answer_registration c a m n w))) w"
  by (auto simp: answer_registration_def Let_def SendNativeAppPeerMessage_def split: option.splits sum.splits prod.splits
      dest!: arg_cong [of "peer_send_loop _ _ _" _ fst])
    (metis peer_send_loop_shorter fst_conv shorter_fields(7))+

lemma append_peer_shorter: "append_peer p w = ((i, w'), e) \<Longrightarrow> shorter w' w"
  by (auto simp: append_peer_def split: prod.splits)

lemma AcceptNativeAppPeerConnection_shorter:
  assumes "AcceptNativeAppPeerConnection b s c n w = ((i, w'), e)"
  shows "shorter w' w"
proof -
  obtain a w1 where w1: "sys_accept w = (a, w1)" by fastforce
  obtain b2 w2 where w2: "sys_call w1 = (b2, w2)" by fastforce
  obtain m w3 e3 where w3: "ReceiveNativeAppPeerMessage 4096 (nc_uiTimeoutMs c) n w2 = ((m, w3), e3)"
    by (metis prod.exhaust)
  have s1: "shorter w1 w" using sys_accept_shorter [OF w1] .
  then have s2: "shorter w2 w" using sys_call_shorter [OF w2] shorter_trans by blast
  moreover have "shorter w3 w2"
    using peer_recv_loop_shorter [of 4096 "nc_uiTimeoutMs c" n "[]" w2] w3 by (simp add: ReceiveNativeAppPeerMessage_def)
  ultimately have s3: "shorter w3 w" using shorter_trans by blast
  have s4: "shorter w4 w" if "answer_registration c x m n w3 = ((p, w4), e4)" for x p w4 e4
    using answer_registration_shorter [of c x m n w3] that s3 shorter_trans by fastforce
  have s5: "shorter w5 w" if "answer_registration c x m n w3 = ((p, w4), e4)" "append_peer p w4 = ((j, w5), e5)"
    for x p w4 e4 j w5 e5
    using s4 [OF that(1)] append_peer_shorter [OF that(2)] shorter_trans by blast
  show ?thesis using assms w1 w2 w3 s1 s2 s3
    by (auto simp: AcceptNativeAppPeerConnection_def Let_def split: if_splits option.splits prod.splits
        dest: s4 s5)
qed

lemma load_stop_flag_trace:
  "load_stop_flag w = (b, w') \<Longrightarrow> \<not> b \<Longrightarrow> length (pe_trace w') < length (pe_trace w)"
  by (auto simp: load_stop_flag_def dest: peer_next_trace split: prod.splits option.splits peer_event.splits)

text \<open>Every round reads the stop flag first; \<open>acError\<close> is empty at its start.\<close>

function listener_loop :: "NativeAppPeerListener \<Rightarrow> PeerWorld \<Rightarrow> PeerWorld" where
  "listener_loop l w =
     (let (bStop, w1) = load_stop_flag w in
      if bStop then w1
      else
        let (w2, eError) = WaitNativeAppSocket POLLIN NATIVE_APP_PEER_LISTENER_POLL_MS
              NATIVE_APP_ERROR_TEXT_LENGTH (w1\<lparr>pe_pcError := []\<rparr>)
        in if eError = IPSEC_ERR_VICI_TIMEOUT then listener_loop l w2
           else if eError = IPSEC_OK then
             let ((pPeer, w3), eError) = AcceptNativeAppPeerConnection True (pl_iServerSocket l) (pl_Config l)
                   NATIVE_APP_ERROR_TEXT_LENGTH w2
             in listener_loop l (NotifyNativeAppPeerListener l eError pPeer w3)
           else NotifyNativeAppPeerListener l eError None w2)"
  by pat_completeness auto
termination
proof (relation "measure (\<lambda>(l, w). length (pe_trace w))", goal_cases)
  case 1
  then show ?case by simp
next
  case (2 l w x stop w1 y w2 e)
  then show ?case using load_stop_flag_trace [of w stop w1] wait_shorter [of POLLIN 250 256 _ w2 e]
    by (fastforce simp: shorter_def)
next
  case (3 l w x stop w1 y w2 e z r e3 pPeer w3)
  then have "shorter w2 w1" "shorter w3 w2"
    using wait_shorter [of POLLIN 250 256 _ w2 e]
      AcceptNativeAppPeerConnection_shorter [of True "pl_iServerSocket l" "pl_Config l" 256 w2 pPeer w3 e3] by force+
  then show ?case using load_stop_flag_trace [of w stop w1] 3
    by (auto simp: shorter_def NotifyNativeAppPeerListener_def)
qed

declare listener_loop.simps [simp del]

definition RunNativeAppPeerListener ::
  "NativeAppPeerListener \<Rightarrow> PeerWorld \<Rightarrow> NativeAppPeerListener \<times> PeerWorld" where
  "RunNativeAppPeerListener l w = (l\<lparr>pl_iServerSocket := False\<rparr>, sys_close_socket (listener_loop l w))"

text \<open>Starting the listener; its thread is \<open>RunNativeAppPeerListener\<close>.  \<open>StopNativeAppPeerListener\<close>
  returns when the thread has ended, and the flag it stored is what the thread reads.\<close>

definition StartNativeAppPeerListener ::
  "bool \<Rightarrow> NativeAppConfig \<Rightarrow> bool \<Rightarrow> nat \<Rightarrow> NativeAppPeerListener \<Rightarrow> PeerWorld \<Rightarrow>
   (NativeAppPeerListener \<times> PeerWorld) outcome" where
  "StartNativeAppPeerListener bPointers c pCallback uiErrorLength l w =
     (if \<not> bPointers \<or> nc_eRole c \<noteq> NATIVE_APP_ROLE_INITIATOR \<or> pl_bRunning l
      then ((l, w), IPSEC_ERR_INVALID_ARGUMENT)
      else
        let l = \<lparr>pl_Config = c, pl_pCallback = pCallback, pl_iServerSocket = False,
                 pl_bStopRequested = False, pl_bRunning = False\<rparr>;
            (bOpened, w) = OpenNativeAppServerSocket c uiErrorLength w;
            l = l\<lparr>pl_iServerSocket := bOpened\<rparr>
        in if \<not> bOpened then ((l, w), IPSEC_ERR_INTERNAL)
           else
             let (bCreated, w) = sys_call w in
             if \<not> bCreated
             then ((l\<lparr>pl_iServerSocket := False\<rparr>,
                    SetNativeAppPeerError uiErrorLength ''failed to start peer listener thread''
                      (sys_close_socket w)), IPSEC_ERR_INTERNAL)
             else ((l\<lparr>pl_bRunning := True\<rparr>, w), IPSEC_OK))"

definition StopNativeAppPeerListener :: "NativeAppPeerListener option \<Rightarrow> NativeAppPeerListener option" where
  "StopNativeAppPeerListener pListener =
     (case pListener of
        Some l \<Rightarrow> if pl_bRunning l then Some (l\<lparr>pl_bStopRequested := True, pl_bRunning := False\<rparr>) else Some l
      | None \<Rightarrow> None)"

definition IsNativeAppPeerListenerRunning :: "NativeAppPeerListener option \<Rightarrow> bool" where
  "IsNativeAppPeerListenerRunning pListener =
     (case pListener of Some l \<Rightarrow> pl_bRunning l | None \<Rightarrow> False)"

subsection \<open>The responder's side\<close>

definition register_text :: "NativeAppConfig \<Rightarrow> string" where
  "register_text c = ''RCST/1'' @ '' REGISTER '' @ cstr (nc_acLocalAddress c) @ [newline]"

text \<open>The tokens of an assignment, or the text of the error.\<close>

definition parse_assignment ::
  "bytes \<Rightarrow> string + (nat \<times> nat \<times> string \<times> string \<times> string \<times> string \<times> IpsecMode)" where
  "parse_assignment acMessage =
     (let tokens = space_tokens (cstr acMessage); tok = (\<lambda>i. take 10 tokens ! i);
          invalid = Inl ''invalid peer assignment response'' in
      if length (take 10 tokens) \<noteq> 9 \<or> 10 < length tokens then invalid
      else if \<not> strcmp_eq ''RCST/1'' (tok 0) \<or> \<not> strcmp_eq ''ASSIGN'' (tok 1) then invalid
      else
        case (ParseNativeAppNumber (Some (tok 2)), ParseNativeAppNumber (Some (tok 3))) of
          (Some uiGroupId, Some uiLogonId) \<Rightarrow>
            if uiGroupId = 0 \<or> uiLogonId = 0 \<or> NATIVE_APP_PEER_LOGON_LIMIT < uiLogonId \<or>
               \<not> IsNativeAppPeerAddress (tok 4) \<or> \<not> IsNativeAppPeerToken (tok 5) \<or>
               \<not> IsNativeAppPeerToken (tok 6) \<or> \<not> IsNativeAppPeerToken (tok 7)
            then invalid
            else if strcmp_eq ''transport'' (tok 8)
            then Inr (uiGroupId, uiLogonId, tok 4, tok 5, tok 6, tok 7, IPSEC_MODE_TRANSPORT)
            else if strcmp_eq ''tunnel'' (tok 8)
            then Inr (uiGroupId, uiLogonId, tok 4, tok 5, tok 6, tok 7, IPSEC_MODE_TUNNEL)
            else Inl ''invalid peer IPsec mode''
        | _ \<Rightarrow> invalid)"

text \<open>The configuration with what the initiator dictates, and the peer built from it.\<close>

definition assigned_peer ::
  "NativeAppConfig \<Rightarrow> nat \<times> nat \<times> string \<times> string \<times> string \<times> string \<times> IpsecMode \<Rightarrow> NativeAppPeer outcome" where
  "assigned_peer c a =
     (let (uiGroupId, uiLogonId, pcAddress, pcId, pcIke, pcEsp, eMode) = a;
          EffectiveConfig = c\<lparr>nc_eMode := Some eMode\<rparr>;
          (ike, bIke) = CopyNativeAppPeerText (nc_acIkeProposals c) (Some pcIke);
          (esp, bEsp) = CopyNativeAppPeerText (nc_acEspProposals c) (Some pcEsp);
          (acPeerId, bBuilt) = BuildNativeAppPeerId (replicate IPSEC_ID_LENGTH NUL) uiGroupId uiLogonId
      in if \<not> bIke \<or> \<not> bEsp \<or> \<not> bBuilt then (zero_peer, IPSEC_ERR_BUFFER_TOO_SMALL)
         else BuildNativeAppPeerConfig
                (EffectiveConfig\<lparr>nc_acIkeProposals := ike, nc_acEspProposals := esp\<rparr>)
                uiGroupId uiLogonId (nc_acLocalAddress c) pcAddress acPeerId pcId)"

definition RegisterNativeAppPeer ::
  "bool \<Rightarrow> NativeAppConfig \<Rightarrow> nat \<Rightarrow> PeerWorld \<Rightarrow> (nat option \<times> PeerWorld) outcome" where
  "RegisterNativeAppPeer bPointers c uiErrorLength w =
     (if \<not> bPointers \<or> nc_eRole c \<noteq> NATIVE_APP_ROLE_RESPONDER \<or>
         NATIVE_APP_PEER_CAPACITY \<le> pt_uiCount (pe_Table w)
      then ((None, w), IPSEC_ERR_INVALID_ARGUMENT)
      else
        let (bSocket, w) = OpenNativeAppClientSocket c uiErrorLength w in
        if \<not> bSocket then ((None, w), IPSEC_ERR_INTERNAL)
        else
          let (w, eError) =
                (if NATIVE_APP_PEER_MESSAGE_LENGTH \<le> length (register_text c)
                 then (w, IPSEC_ERR_BUFFER_TOO_SMALL)
                 else SendNativeAppPeerMessage (register_text c) uiErrorLength w);
              ((i, w), eError) =
                (if eError \<noteq> IPSEC_OK then ((None, w), eError)
                 else
                   let ((acMessage, w), eError) = ReceiveNativeAppPeerMessage
                         NATIVE_APP_PEER_MESSAGE_LENGTH (nc_uiTimeoutMs c) uiErrorLength w in
                   if eError \<noteq> IPSEC_OK then ((None, w), eError)
                   else
                     case parse_assignment acMessage of
                       Inl text \<Rightarrow> ((None, SetNativeAppPeerError uiErrorLength text w), IPSEC_ERR_INVALID_ARGUMENT)
                     | Inr a \<Rightarrow>
                         let (p, eError) = assigned_peer c a in
                         if eError \<noteq> IPSEC_OK then ((None, w), eError) else append_peer p w)
          in ((i, sys_close_socket w), eError))"

end
