(* ===== verification/AppPeerProps.thy ===== *)
theory AppPeerProps
  imports AppPeer
begin

section \<open>Peer registration: properties\<close>

text \<open>
  What sending and receiving do to the world, the protocol's texts and their tokens, the peer
  that is built on either side; the table of an initiator as an invariant, the agreement of
  the two sides, and the listener.
\<close>

subsection \<open>Waiting, sending, receiving\<close>

text \<open>All that \<open>poll\<close> and the diagnostics leave alone.\<close>

definition same_world :: "PeerWorld \<Rightarrow> PeerWorld \<Rightarrow> bool" where
  "same_world w' w \<longleftrightarrow> pe_Table w' = pe_Table w \<and> pe_in w' = pe_in w \<and> pe_out w' = pe_out w \<and>
     pe_open w' = pe_open w \<and> pe_notes w' = pe_notes w"

lemma same_world_refl [simp]: "same_world w w"
  by (simp add: same_world_def)

lemma same_world_trans: "same_world b a \<Longrightarrow> same_world c b \<Longrightarrow> same_world c a"
  by (simp add: same_world_def)

lemma same_world_simps [simp]:
  "same_world (SetNativeAppPeerError n t w') w = same_world w' w"
  "same_world (w'\<lparr>pe_waits := x\<rparr>) w = same_world w' w" "same_world (w'\<lparr>pe_trace := y\<rparr>) w = same_world w' w"
  "same_world (w'\<lparr>pe_bound := a\<rparr>) w = same_world w' w" "same_world (w'\<lparr>pe_target := a\<rparr>) w = same_world w' w"
  "same_world w' (w\<lparr>pe_waits := x\<rparr>) = same_world w' w" "same_world w' (w\<lparr>pe_trace := y\<rparr>) = same_world w' w"
  "same_world w' (w\<lparr>pe_bound := a\<rparr>) = same_world w' w" "same_world w' (w\<lparr>pe_target := a\<rparr>) = same_world w' w"
  "same_world w' (w\<lparr>pe_pcError := s\<rparr>) = same_world w' w"
  by (simp_all add: same_world_def SetNativeAppPeerError_def)

lemma peer_next_same: "peer_next w = (ev, w') \<Longrightarrow> same_world w' w"
  by (auto simp: peer_next_def split: list.splits)

lemma sys_call_same: "sys_call w = (b, w') \<Longrightarrow> same_world w' w"
  by (auto simp: sys_call_def dest: peer_next_same split: prod.splits)

lemma load_stop_flag_same: "load_stop_flag w = (b, w') \<Longrightarrow> same_world w' w"
  by (auto simp: load_stop_flag_def dest: peer_next_same split: prod.splits option.splits peer_event.splits)

lemma peer_poll_same: "same_world (snd (peer_poll t w)) w"
proof (induction t w rule: peer_poll.induct)
  case (1 t w)
  obtain ev w' where n: "peer_next (w\<lparr>pe_waits := pe_waits w @ [t]\<rparr>) = (ev, w')" by fastforce
  have s: "same_world w' w" using peer_next_same [OF n] by simp
  show ?case
  proof (cases "ev = Some (PollFailed EINTR)")
    case True
    then have "same_world (snd (peer_poll t w')) w'" using n by (intro 1) simp_all
    moreover have "peer_poll t w = peer_poll t w'" using n True unfolding peer_poll.simps [of t w] by simp
    ultimately show ?thesis using same_world_trans [OF s] by simp
  next
    case False
    then show ?thesis using n s unfolding peer_poll.simps [of t w]
      by (auto split: option.splits peer_event.splits)
  qed
qed

lemma wait_same:
  assumes "WaitNativeAppSocket ev t n w = (w', e)"
  shows "same_world w' w" and "e \<in> {IPSEC_OK, IPSEC_ERR_VICI_TIMEOUT, IPSEC_ERR_INTERNAL}"
  using assms peer_poll_same [of "GetNativeAppPollTimeout t" w]
  by (auto simp: WaitNativeAppSocket_def split: prod.splits peer_event.splits if_splits)

text \<open>A byte is received from the front of the stream; nothing is lost otherwise.\<close>

lemma recv_byte_props:
  assumes "sys_recv_byte w = (r, w')"
  shows "case r of Inr (Some c) \<Rightarrow> pe_in w = c # pe_in w' \<and> same_world (w'\<lparr>pe_in := pe_in w\<rparr>) w | _ \<Rightarrow> same_world w' w"
proof -
  obtain ev w1 where n: "peer_next w = (ev, w1)" by fastforce
  have s: "same_world w1 w" using peer_next_same [OF n] .
  show ?thesis using assms n s unfolding sys_recv_byte_def
    by (auto simp: same_world_def split: option.splits peer_event.splits list.splits if_splits)
qed

definition received :: "bytes \<Rightarrow> PeerWorld \<Rightarrow> PeerWorld \<Rightarrow> bool" where
  "received bs w' w \<longleftrightarrow> pe_in w = bs @ pe_in w' \<and> pe_Table w' = pe_Table w \<and> pe_out w' = pe_out w \<and>
     pe_open w' = pe_open w \<and> pe_notes w' = pe_notes w"

lemma received_same: "same_world w' w \<Longrightarrow> received [] w' w"
  by (simp add: same_world_def received_def)

lemma received_trans: "received bs b a \<Longrightarrow> received cs c b \<Longrightarrow> received (bs @ cs) c a"
  by (simp add: received_def)

lemma recv_loop_props:
  assumes "peer_recv_loop l t n acc w = ((m, w'), e)"
  shows "e \<in> {IPSEC_OK, IPSEC_ERR_VICI_TIMEOUT, IPSEC_ERR_INTERNAL, IPSEC_ERR_BUFFER_TOO_SMALL} \<and>
    (\<exists>bs. received bs w' w \<and>
       (e = IPSEC_OK \<longrightarrow> (\<exists>cs. bs = cs @ [newline] \<and> m = acc @ cs \<and> newline \<notin> set cs)) \<and>
       (e = IPSEC_ERR_BUFFER_TOO_SMALL \<longrightarrow> newline \<notin> set bs \<and> l \<le> length acc + length bs + 1))"
  using assms
proof (induction l t n acc w arbitrary: m w' e rule: peer_recv_loop.induct)
  case (1 l t n acc w)
  obtain w1 e1 where w1: "WaitNativeAppSocket POLLIN t n w = (w1, e1)" by fastforce
  obtain r w2 where r: "sys_recv_byte w1 = (r, w2)" by fastforce
  note s1 = wait_same [OF w1]
  note s2 = recv_byte_props [OF r]
  have same: "same_world w2 w" if "\<nexists>c. r = Inr (Some c)"
  proof -
    have "same_world w2 w1" using s2 that by (simp split: sum.splits option.splits)
    then show ?thesis by (rule same_world_trans [OF s1(1)])
  qed
  note step = 1(3) [unfolded peer_recv_loop.simps [of l t n acc w] w1 r Let_def split_conv]
  show ?case
  proof (cases "l \<le> length acc + 1 \<or> e1 \<noteq> IPSEC_OK")
    case True
    then have "same_world w' w \<and> e \<noteq> IPSEC_OK \<and> (e = IPSEC_ERR_BUFFER_TOO_SMALL \<longrightarrow> l \<le> length acc + 1) \<and>
        e \<in> {IPSEC_ERR_VICI_TIMEOUT, IPSEC_ERR_INTERNAL, IPSEC_ERR_BUFFER_TOO_SMALL}"
      using step s1 by (auto split: if_splits)
    then show ?thesis using received_same by (intro conjI exI [of _ "[]"]) auto
  next
    case False
    then have f: "\<not> l \<le> length acc + 1" "\<not> e1 \<noteq> IPSEC_OK" by auto
    note step = step [unfolded if_not_P [OF f(1)] if_not_P [OF f(2)]]
    show ?thesis
    proof (cases "\<exists>c. r = Inr (Some c)")
      case True
      then obtain c where c: "r = Inr (Some c)" by blast
      have d: "received [c] w2 w"
        using s1(1) s2 c by (auto simp: same_world_def received_def)
      show ?thesis
      proof (cases "c = newline")
        case True
        then show ?thesis using step c d by fastforce
      next
        case False
        then have "peer_recv_loop l t n (acc @ [c]) w2 = ((m, w'), e)" using step c by simp
        then have ih: "e \<in> {IPSEC_OK, IPSEC_ERR_VICI_TIMEOUT, IPSEC_ERR_INTERNAL, IPSEC_ERR_BUFFER_TOO_SMALL} \<and>
            (\<exists>bs. received bs w' w2 \<and>
               (e = IPSEC_OK \<longrightarrow> (\<exists>cs. bs = cs @ [newline] \<and> m = (acc @ [c]) @ cs \<and> newline \<notin> set cs)) \<and>
               (e = IPSEC_ERR_BUFFER_TOO_SMALL \<longrightarrow> newline \<notin> set bs \<and> l \<le> length (acc @ [c]) + length bs + 1))"
          by (rule 1(2) [OF f(1) w1 [symmetric] refl f(2) r [symmetric] refl refl c refl False])
        then obtain bs where "received bs w' w2"
            "e = IPSEC_OK \<longrightarrow> (\<exists>cs. bs = cs @ [newline] \<and> m = (acc @ [c]) @ cs \<and> newline \<notin> set cs)"
            "e = IPSEC_ERR_BUFFER_TOO_SMALL \<longrightarrow> newline \<notin> set bs \<and> l \<le> length (acc @ [c]) + length bs + 1"
          by blast
        moreover have "received (c # bs) w' w" using received_trans [OF d] \<open>received bs w' w2\<close> by fastforce
        ultimately show ?thesis using ih False by (intro conjI exI [of _ "c # bs"]) auto
      qed
    next
      case False
      show ?thesis
      proof (cases "r = Inl EINTR")
        case True
        then have call: "peer_recv_loop l t n acc w2 = ((m, w'), e)" using step by simp
        have tr: "received bs w' w2 \<Longrightarrow> received bs w' w" for bs
          using received_trans [of "[]" w2 w bs w'] same True received_same by simp
        note ih = 1(1) [OF f(1) w1 [symmetric] refl f(2) r [symmetric] refl refl True refl call]
        from ih [THEN conjunct2] obtain bs where "received bs w' w2"
            "(e = IPSEC_OK \<longrightarrow> (\<exists>cs. bs = cs @ [newline] \<and> m = acc @ cs \<and> newline \<notin> set cs)) \<and>
             (e = IPSEC_ERR_BUFFER_TOO_SMALL \<longrightarrow> newline \<notin> set bs \<and> l \<le> length acc + length bs + 1)"
          by (elim exE conjE) simp
        then show ?thesis using ih [THEN conjunct1] tr by (intro conjI exI [of _ bs]) simp_all
      next
        case nointr: False
        then have "((m, w'), e) = ((acc, SetNativeAppPeerError n ''peer registration data was truncated'' w2), IPSEC_ERR_INTERNAL)"
          using step False by (cases r) (auto split: option.splits)
        moreover have "same_world w2 w" using same False by blast
        ultimately have "same_world w' w" "e = IPSEC_ERR_INTERNAL" by simp_all
        then show ?thesis using received_same [of w' w] by (intro conjI exI [of _ "[]"]) simp_all
      qed
    qed
  qed
qed

definition sent :: "bytes \<Rightarrow> PeerWorld \<Rightarrow> PeerWorld \<Rightarrow> bool" where
  "sent bs w' w \<longleftrightarrow> pe_out w' = pe_out w @ bs \<and> pe_in w' = pe_in w \<and> pe_Table w' = pe_Table w \<and>
     pe_open w' = pe_open w \<and> pe_notes w' = pe_notes w"

lemma sent_same: "same_world w' w \<Longrightarrow> sent [] w' w"
  by (simp add: same_world_def sent_def)

lemma sent_trans: "sent bs b a \<Longrightarrow> sent cs c b \<Longrightarrow> sent (bs @ cs) c a"
  by (simp add: sent_def)

lemma send_some_props:
  assumes "sys_send_some s w = (r, w')"
  shows "case r of Inl e \<Rightarrow> same_world w' w | Inr n \<Rightarrow> sent (take n s) w' w"
proof -
  obtain ev w1 where n: "peer_next w = (ev, w1)" by fastforce
  have x: "same_world w1 w" using peer_next_same [OF n] .
  show ?thesis using assms n x unfolding sys_send_some_def
    by (auto simp: same_world_def sent_def min_def split: option.splits peer_event.splits)
qed

lemma send_loop_props:
  assumes "peer_send_loop n s w = (w', e)"
  shows "e \<in> {IPSEC_OK, IPSEC_ERR_INTERNAL} \<and> (\<exists>k. sent (take k s) w' w \<and> (e = IPSEC_OK \<longrightarrow> take k s = s))"
  using assms
proof (induction n s w arbitrary: w' e rule: peer_send_loop.induct)
  case (1 n s w)
  obtain r w1 where r: "sys_send_some s w = (r, w1)" by fastforce
  note s = send_some_props [OF r]
  note step = 1(3) [unfolded peer_send_loop.simps [of n s w] r Let_def split_conv]
  show ?case
  proof (cases "s = []")
    case True
    then show ?thesis using step sent_same by fastforce
  next
    case False
    note step = step [unfolded if_not_P [OF False]]
    show ?thesis
    proof (cases r)
      case (Inl x)
      then have d: "sent [] w1 w" using s sent_same by simp
      show ?thesis
      proof (cases "x = EINTR")
        case True
        then have "peer_send_loop n s w1 = (w', e)" using step Inl by simp
        from 1(1) [OF False r [symmetric] refl refl Inl True this] show ?thesis
          using sent_trans [OF d, simplified] by blast
      next
        case False
        then have "w' = SetNativeAppPeerError n ''failed to send peer registration data'' w1" "e = IPSEC_ERR_INTERNAL"
          using step Inl by auto
        moreover have "same_world w' w" using s Inl calculation(1) by simp
        ultimately show ?thesis using sent_same by (intro conjI exI [of _ 0]) auto
      qed
    next
      case (Inr k)
      then have d: "sent (take k s) w1 w" using s by simp
      show ?thesis
      proof (cases "k = 0")
        case True
        then show ?thesis using step Inr d by (intro conjI exI [of _ 0]) (auto simp: sent_def SetNativeAppPeerError_def)
      next
        case k: False
        then have "peer_send_loop n (drop k s) w1 = (w', e)" using step Inr by simp
        from 1(2) [OF False r [symmetric] refl refl Inr k this] obtain j where
          j: "e \<in> {IPSEC_OK, IPSEC_ERR_INTERNAL}" "sent (take j (drop k s)) w' w1"
            "e = IPSEC_OK \<longrightarrow> take j (drop k s) = drop k s" by blast
        have "sent (take (k + j) s) w' w" using sent_trans [OF d j(2)] by (simp add: take_add)
        moreover have "e = IPSEC_OK \<longrightarrow> take (k + j) s = s" using j(3) by (auto simp: take_add)
        ultimately show ?thesis using j(1) by blast
      qed
    qed
  qed
qed

subsection \<open>Tokens\<close>

definition word_text :: "string \<Rightarrow> bool" where
  "word_text t \<longleftrightarrow> t \<noteq> [] \<and> CHR '' '' \<notin> set t \<and> NUL \<notin> set t \<and> newline \<notin> set t"

lemma space_tokens_join: "ts \<noteq> [] \<Longrightarrow> list_all word_text ts \<Longrightarrow> space_tokens (join_with '' '' ts) = ts"
proof (induction "'' ''" ts rule: join_with.induct)
  case (2 t)
  then show ?case by (simp add: space_tokens_def word_text_def split_on_token)
next
  case (3 t u ts)
  then have "CHR '' '' \<notin> set t" "t \<noteq> []" by (simp_all add: word_text_def)
  with 3 show ?case using split_on_sep [of "CHR '' ''" t "join_with '' '' (u # ts)"]
    by (simp add: space_tokens_def)
qed simp

lemma join_words: "list_all word_text ts \<Longrightarrow> NUL \<notin> set (join_with '' '' ts) \<and> newline \<notin> set (join_with '' '' ts)"
  by (induction "'' ''" ts rule: join_with.induct) (auto simp: word_text_def)

lemma dec_word: "word_text (dec n)"
proof -
  have "isdigit c \<Longrightarrow> c \<noteq> CHR '' '' \<and> c \<noteq> NUL \<and> c \<noteq> newline" for c by (auto simp: isdigit_def)
  then show ?thesis using dec_isdigit [of n] by (auto simp: word_text_def)
qed

lemma token_word: "IsNativeAppPeerToken t \<Longrightarrow> word_text (cstr t)"
  by (auto simp: IsNativeAppPeerToken_def word_text_def list_all_iff)

text \<open>A valid address has only digits, dots and colons.\<close>

definition address_char :: "char \<Rightarrow> bool" where
  "address_char c \<longleftrightarrow> is_base_digit 16 c \<or> c = CHR ''.'' \<or> c = CHR '':''"

lemma pton4_chars: "pton4_loop k v b s \<Longrightarrow> list_all address_char s"
  by (induction k v b s rule: pton4_loop.induct)
    (auto simp: address_char_def Let_def is_base_digit_def digit_val_def isdigit_def split: if_splits)

lemma pton6_chars:
  "pton6_loop tp colon digits cur s \<Longrightarrow> \<exists>p. cur = p @ s \<Longrightarrow> list_all address_char s"
proof (induction tp colon digits cur s rule: pton6_loop.induct)
  case (2 tp colon digits cur c cs)
  have tail: "\<exists>p. cur = p @ cs" using 2(5) by (metis append.assoc append_Cons append_Nil)
  show ?case
  proof (cases "is_base_digit 16 c \<or> c = CHR '':''")
    case True
    then show ?thesis using 2 tail by (auto simp: address_char_def Let_def split: if_splits)
  next
    case False
    then have "inet_pton4 cur" using 2(4) by (auto split: if_splits)
    then have "list_all address_char cur" by (auto simp: inet_pton4_def dest: pton4_chars)
    then show ?thesis using 2(5) by auto
  qed
qed simp

lemma address_word: "inet_pton4 s \<or> inet_pton6 s \<Longrightarrow> word_text s"
proof -
  assume s: "inet_pton4 s \<or> inet_pton6 s"
  have "list_all address_char s"
  proof (cases "inet_pton4 s")
    case True
    then show ?thesis by (auto simp: inet_pton4_def dest: pton4_chars)
  next
    case False
    then have "inet_pton6 s" using s by simp
    then show ?thesis unfolding inet_pton6_def
      by (auto simp: address_char_def dest: pton6_chars split: list.splits if_splits)
  qed
  moreover have "address_char c \<Longrightarrow> c \<noteq> CHR '' '' \<and> c \<noteq> NUL \<and> c \<noteq> newline" for c
    by (auto simp: address_char_def is_base_digit_def digit_val_def)
  moreover have "s \<noteq> []" using s by (auto simp: inet_pton4_def inet_pton6_def)
  ultimately show ?thesis by (auto simp: word_text_def list_all_iff)
qed

lemma address_iff: "IsNativeAppPeerAddress s \<longleftrightarrow> IsNativeAppAddressValid s"
  by (auto simp: IsNativeAppPeerAddress_def IsNativeAppAddressValid_def inet_pton4_value_def inet_pton6_value_def
      split: prod.splits option.splits)

lemma socket_address_valid: "BuildNativeAppSocketAddress s p \<noteq> None \<longleftrightarrow> IsNativeAppAddressValid s"
  unfolding address_iff [symmetric]
  by (auto simp: BuildNativeAppSocketAddress_def IsNativeAppPeerAddress_def split: option.splits)

subsection \<open>The peer that is built\<close>

definition peer_id_text :: "nat \<Rightarrow> nat \<Rightarrow> string" where
  "peer_id_text g l = ''rcst-'' @ dec g @ ''-'' @ dec l"

definition shows_peer ::
  "NativeAppPeer \<Rightarrow> NativeAppConfig \<Rightarrow> nat \<Rightarrow> nat \<Rightarrow> string \<Rightarrow> string \<Rightarrow> string \<Rightarrow> string \<Rightarrow> bool" where
  "shows_peer p c g l la ra li ri \<longleftrightarrow>
     np_uiGroupId p = g \<and> np_uiLogonId p = l \<and> \<not> np_bConnectionLoaded p \<and> \<not> np_bCredentialLoaded p \<and>
     (let q = np_Config p; name = peer_id_text g l in
        cstr (nc_acLocalAddress q) = la \<and> cstr (nc_acRemoteAddress q) = ra \<and>
        cstr (nc_acLocalId q) = li \<and> cstr (nc_acRemoteId q) = ri \<and>
        cstr (nc_acConnectionName q) = ''conn-'' @ name \<and> cstr (nc_acChildName q) = ''child-'' @ name \<and>
        cstr (nc_acCredentialId q) = ''psk-'' @ name \<and>
        nc_acIkeProposals q = nc_acIkeProposals c \<and> nc_acEspProposals q = nc_acEspProposals c \<and>
        nc_eRole q = nc_eRole c \<and> nc_eMode q = nc_eMode c)"

lemma copy_peer_text:
  "0 < length b \<Longrightarrow> CopyNativeAppPeerText b (Some t) =
     (if strlen t < length b then (buf_write b 0 (cstr t @ [NUL]), True) else (b, False))"
  by (simp add: CopyNativeAppPeerText_def Let_def strnlen_min take_strlen)

lemma peer_id_short:
  assumes "g \<le> UINT32_MAX" and "l \<le> UINT32_MAX"
  shows "length (peer_id_text g l) \<le> 26" and "NUL \<notin> set (peer_id_text g l)"
proof -
  have "length (dec g) \<le> 10" "length (dec l) \<le> 10" using assms by (intro length_dec; simp)+
  then show "length (peer_id_text g l) \<le> 26" by (simp add: peer_id_text_def)
  show "NUL \<notin> set (peer_id_text g l)" using dec_no_NUL by (simp add: peer_id_text_def)
qed

lemma peer_id_built:
  assumes "g \<le> UINT32_MAX" and "l \<le> UINT32_MAX"
  shows "BuildNativeAppPeerId (replicate IPSEC_ID_LENGTH NUL) g l =
    (buf_write (replicate IPSEC_ID_LENGTH NUL) 0 (peer_id_text g l @ [NUL]), True)"
  using peer_id_short [OF assms] by (simp add: BuildNativeAppPeerId_def snprintf_to_fits peer_id_text_def)

lemma cstr_buf_filled: "NUL \<in> set s \<Longrightarrow> cstr (buf_write b 0 s) = cstr s"
  by (auto simp: buf_write_def cstr_def takeWhile_append)

lemma peer_config_built:
  assumes "nc_wf c" and "g \<le> UINT32_MAX" and "l \<le> UINT32_MAX" and "strlen la < IPSEC_ADDRESS_LENGTH"
    and "strlen li < IPSEC_ID_LENGTH" and "strlen ri < IPSEC_ID_LENGTH"
    and "BuildNativeAppPeerConfig c g l la ra li ri = (p, e)"
  shows "if strlen ra < IPSEC_ADDRESS_LENGTH
    then e = IPSEC_OK \<and> shows_peer p c g l (cstr la) (cstr ra) (cstr li) (cstr ri) else e = IPSEC_ERR_BUFFER_TOO_SMALL"
proof -
  note n = peer_id_short [OF assms(2,3)]
  have wf: "length (nc_acLocalAddress c) = IPSEC_ADDRESS_LENGTH" "length (nc_acRemoteAddress c) = IPSEC_ADDRESS_LENGTH"
    "length (nc_acLocalId c) = IPSEC_ID_LENGTH" "length (nc_acRemoteId c) = IPSEC_ID_LENGTH"
    "length (nc_acConnectionName c) = IPSEC_NAME_LENGTH" "length (nc_acChildName c) = IPSEC_NAME_LENGTH"
    "length (nc_acCredentialId c) = IPSEC_NAME_LENGTH"
    using assms(1) by (simp_all add: nc_wf_def terminated_def)
  have id: "cstr (buf_write (replicate IPSEC_ID_LENGTH NUL) 0 (peer_id_text g l @ [NUL])) = peer_id_text g l"
    using n(2) by (simp add: cstr_buf_write0 cstr_id)
  have name: "BuildNativeAppPeerName b t (buf_write (replicate IPSEC_ID_LENGTH NUL) 0 (peer_id_text g l @ [NUL])) =
      (buf_write b 0 ((t @ peer_id_text g l) @ [NUL]), True)" if "length b = IPSEC_NAME_LENGTH" "length t \<le> 6" for b t
    using that n unfolding BuildNativeAppPeerName_def id by (subst snprintf_to_fits) simp_all
  show ?thesis
    using assms(4-7) n
    by (auto simp: BuildNativeAppPeerConfig_def peer_id_built [OF assms(2,3)] peer_text_def copy_peer_text wf name
        shows_peer_def zero_peer_def cstr_buf_filled cstr_Cons cstr_append cstr_id Let_def split: if_splits)
qed

subsection \<open>The texts of the protocol\<close>

lemma assign_join:
  "assign_text c g l = join_with '' ''
     [''RCST/1'', ''ASSIGN'', dec g, dec l, cstr (nc_acLocalAddress c), cstr (nc_acLocalId c),
      cstr (nc_acIkeProposals c), cstr (nc_acEspProposals c),
      if nc_eMode c = Some IPSEC_MODE_TRANSPORT then ''transport'' else ''tunnel''] @ [newline]"
  by (simp add: assign_text_def)

lemma assign_no_NUL: "NUL \<notin> set (assign_text c g l)"
  using dec_no_NUL by (simp add: assign_text_def)

lemma parse_number_dec: "n \<le> UINT32_MAX \<Longrightarrow> ParseNativeAppNumber (Some (dec n)) = Some n"
  using strtoull_dec [of n "[]"] dec_no_NUL [of n] dec_not_Nil [of n] by (simp add: ParseNativeAppNumber_def cstr_id del: dec_not_Nil)

text \<open>What the initiator checks before it answers, with the validity of its own address.\<close>

definition can_assign :: "NativeAppConfig \<Rightarrow> bool" where
  "can_assign c \<longleftrightarrow> nc_wf c \<and> IsNativeAppAddressValid (nc_acLocalAddress c) \<and>
     IsNativeAppPeerToken (nc_acLocalId c) \<and> IsNativeAppPeerToken (nc_acIkeProposals c) \<and>
     IsNativeAppPeerToken (nc_acEspProposals c)"

lemma assignment_parses:
  assumes "can_assign c" and "0 < g" and "g \<le> UINT32_MAX" and "0 < l" and "l \<le> NATIVE_APP_PEER_LOGON_LIMIT"
    and "m @ [newline] = assign_text c g l"
  shows "newline \<notin> set m" and "parse_assignment m =
    Inr (g, l, cstr (nc_acLocalAddress c), cstr (nc_acLocalId c), cstr (nc_acIkeProposals c), cstr (nc_acEspProposals c),
      if nc_eMode c = Some IPSEC_MODE_TRANSPORT then IPSEC_MODE_TRANSPORT else IPSEC_MODE_TUNNEL)"
proof -
  define mode where "mode = (if nc_eMode c = Some IPSEC_MODE_TRANSPORT then ''transport'' else ''tunnel'')"
  define ts where "ts = [''RCST/1'', ''ASSIGN'', dec g, dec l, cstr (nc_acLocalAddress c), cstr (nc_acLocalId c),
      cstr (nc_acIkeProposals c), cstr (nc_acEspProposals c), mode]"
  have a: "IsNativeAppPeerAddress (cstr (nc_acLocalAddress c))"
    using assms(1) by (simp add: can_assign_def address_iff IsNativeAppAddressValid_def)
  have t: "IsNativeAppPeerToken (cstr (nc_acLocalId c))" "IsNativeAppPeerToken (cstr (nc_acIkeProposals c))"
    "IsNativeAppPeerToken (cstr (nc_acEspProposals c))"
    using assms(1) by (simp_all add: can_assign_def IsNativeAppPeerToken_def)
  have "word_text (cstr (nc_acLocalAddress c))"
    using assms(1) address_word by (simp add: can_assign_def IsNativeAppAddressValid_def)
  moreover have "word_text mode" by (simp add: mode_def word_text_def)
  moreover have "word_text ''RCST/1''" "word_text ''ASSIGN''" by (simp_all add: word_text_def)
  ultimately have w: "list_all word_text ts"
    using t [THEN token_word] dec_word by (simp add: ts_def)
  have m: "m = join_with '' '' ts" using assms(6) by (simp add: assign_join ts_def mode_def)
  show "newline \<notin> set m" using join_words [OF w] m by simp
  have "cstr m = m" using join_words [OF w] m by (simp add: cstr_id)
  then have tok: "space_tokens (cstr m) = ts" using space_tokens_join [OF _ w] m by (simp add: ts_def)
  have n: "ParseNativeAppNumber (Some (dec g)) = Some g" "ParseNativeAppNumber (Some (dec l)) = Some l"
    using assms(2-5) by (intro parse_number_dec; simp)+
  have s: "strcmp_eq ''RCST/1'' ''RCST/1''" "strcmp_eq ''ASSIGN'' ''ASSIGN''" by (simp_all add: strcmp_eq_def)
  have mo: "strcmp_eq ''transport'' mode = (nc_eMode c = Some IPSEC_MODE_TRANSPORT)"
    "strcmp_eq ''tunnel'' mode = (nc_eMode c \<noteq> Some IPSEC_MODE_TRANSPORT)"
    by (simp_all add: mode_def strcmp_eq_def cstr_Cons)
  show "parse_assignment m = Inr (g, l, cstr (nc_acLocalAddress c), cstr (nc_acLocalId c),
      cstr (nc_acIkeProposals c), cstr (nc_acEspProposals c),
      if nc_eMode c = Some IPSEC_MODE_TRANSPORT then IPSEC_MODE_TRANSPORT else IPSEC_MODE_TUNNEL)"
    using assms(2-5) a t n s mo by (simp add: parse_assignment_def tok ts_def)
qed

subsection \<open>The table of an initiator\<close>

abbreviation group_of :: "nat \<Rightarrow> nat" where "group_of k \<equiv> k div NATIVE_APP_PEER_LOGON_LIMIT + 1"
abbreviation logon_of :: "nat \<Rightarrow> nat" where "logon_of k \<equiv> k mod NATIVE_APP_PEER_LOGON_LIMIT + 1"

definition peer_name :: "nat \<Rightarrow> string" where
  "peer_name k = peer_id_text (group_of k) (logon_of k)"

definition table_wf :: "NativeAppPeerTable \<Rightarrow> bool" where
  "table_wf t \<longleftrightarrow> length (pt_aPeers t) = NATIVE_APP_PEER_CAPACITY \<and> pt_uiCount t \<le> NATIVE_APP_PEER_CAPACITY \<and>
     \<not> pt_bLocked t \<and>
     (\<forall>k < pt_uiCount t. let p = pt_aPeers t ! k in
        nc_eRole (np_Config p) = NATIVE_APP_ROLE_INITIATOR \<and>
        np_uiGroupId p = group_of k \<and> np_uiLogonId p = logon_of k \<and>
        cstr (nc_acRemoteId (np_Config p)) = peer_name k \<and>
        cstr (nc_acConnectionName (np_Config p)) = ''conn-'' @ peer_name k)"

lemma peer_id_text_inj:
  assumes "peer_id_text g l = peer_id_text g' l'"
  shows "g = g' \<and> l = l'"
proof -
  have d: "CHR ''-'' \<notin> set (dec n)" for n using dec_isdigit [of n] by (auto simp: isdigit_def)
  have "dec g @ CHR ''-'' # dec l = dec g' @ CHR ''-'' # dec l'" using assms by (simp add: peer_id_text_def)
  then have "split_on (CHR ''-'') (dec g @ CHR ''-'' # dec l) = split_on (CHR ''-'') (dec g' @ CHR ''-'' # dec l')"
    by simp
  then have "dec g = dec g' \<and> dec l = dec l'" by (simp add: split_on_sep split_on_token d)
  then show ?thesis using dec_inj by blast
qed

lemma peer_name_inj: "peer_name j = peer_name k \<longleftrightarrow> j = k"
proof
  assume "peer_name j = peer_name k"
  from peer_id_text_inj [OF this [unfolded peer_name_def]]
  have "j div 100 = k div 100 \<and> j mod 100 = k mod 100" by simp
  then show "j = k" by (metis div_mult_mod_eq)
qed simp

lemma peer_name_no_NUL: "NUL \<notin> set (peer_name k)"
  using dec_no_NUL by (simp add: peer_name_def peer_id_text_def)

lemma find_position:
  assumes "i < n" and "P i" and "\<And>k. k < n \<Longrightarrow> P k \<Longrightarrow> k = i"
  shows "List.find P [0..<n] = Some i"
proof -
  have "\<not> P j" if "j < i" for j using assms(3) [of j] that assms(1) by fastforce
  then show ?thesis using assms(1,2) by (auto simp: find_Some_iff intro!: exI [of _ i])
qed

text \<open>Looking up an identity finds the peer it was made for.\<close>

lemma find_peer:
  assumes "table_wf t" and "k < pt_uiCount t"
  shows "FindNativeAppPeer (Some t) (Some (peer_name k)) = (Some t, Some k)"
proof -
  have e: "cstr (peer_id_of (pt_aPeers t ! j)) = peer_name j" if "j < pt_uiCount t" for j
    using assms(1) that by (simp add: table_wf_def peer_id_of_def Let_def)
  have "List.find (\<lambda>i. strcmp_eq (peer_name k) (peer_id_of (pt_aPeers t ! i))) [0..<pt_uiCount t] = Some k"
    using assms(2) e by (intro find_position) (auto simp: strcmp_eq_def cstr_id [OF peer_name_no_NUL] peer_name_inj)
  then show ?thesis using assms(1)
    by (simp add: FindNativeAppPeer_def LockNativeAppPeerTable_def UnlockNativeAppPeerTable_def table_wf_def)
qed

lemma allocate_ids:
  assumes "table_wf t"
  shows "AllocateNativeAppPeerIds t =
    (t, if pt_uiCount t = NATIVE_APP_PEER_CAPACITY then Inl IPSEC_ERR_BUFFER_TOO_SMALL
        else Inr (group_of (pt_uiCount t), logon_of (pt_uiCount t)))"
  using assms by (auto simp: AllocateNativeAppPeerIds_def table_wf_def LockNativeAppPeerTable_def
      UnlockNativeAppPeerTable_def GetNativeAppPeerSequence_def Let_def)

lemma append_own:
  assumes "table_wf t" and "pt_uiCount t < NATIVE_APP_PEER_CAPACITY"
    and "np_uiGroupId p = group_of (pt_uiCount t)" and "np_uiLogonId p = logon_of (pt_uiCount t)"
  shows "AppendNativeAppPeer p t =
    ((Some (pt_uiCount t), t\<lparr>pt_aPeers := (pt_aPeers t)[pt_uiCount t := p], pt_uiCount := pt_uiCount t + 1\<rparr>), IPSEC_OK)"
  using assms by (simp add: AppendNativeAppPeer_def LockNativeAppPeerTable_def UnlockNativeAppPeerTable_def
      table_wf_def Let_def)

lemma append_wf:
  assumes "table_wf t" and "pt_uiCount t < NATIVE_APP_PEER_CAPACITY"
    and "shows_peer p c (group_of (pt_uiCount t)) (logon_of (pt_uiCount t)) la ra li (peer_name (pt_uiCount t))"
    and "nc_eRole c = NATIVE_APP_ROLE_INITIATOR"
  shows "table_wf (t\<lparr>pt_aPeers := (pt_aPeers t)[pt_uiCount t := p], pt_uiCount := pt_uiCount t + 1\<rparr>)"
  using assms unfolding table_wf_def shows_peer_def Let_def
  by (auto simp: nth_list_update less_Suc_eq peer_name_def)

subsection \<open>Accepting a registration\<close>

lemma accept_props:
  assumes "sys_accept w = (r, w')"
  shows "case r of
      None \<Rightarrow> same_world w' w
    | Some a \<Rightarrow> (\<exists>bs rest. pe_trace w = Accepted a bs # rest \<and> pe_in w' = bs) \<and> pe_Table w' = pe_Table w \<and>
        pe_out w' = pe_out w \<and> pe_open w' = pe_open w + 1 \<and> pe_notes w' = pe_notes w"
proof (cases "pe_trace w")
  case Nil
  then show ?thesis using assms by (auto simp: sys_accept_def peer_next_def)
next
  case (Cons ev evs)
  then show ?thesis using assms
    by (auto simp: sys_accept_def peer_next_def same_world_def split: peer_event.splits)
qed

text \<open>What one accepted registration does to the world: an error leaves the table, a success
  adds the next peer and has sent its assignment.\<close>

definition assigned :: "NativeAppConfig \<Rightarrow> NativeAppPeer \<Rightarrow> string \<Rightarrow> PeerWorld \<Rightarrow> PeerWorld \<Rightarrow> bool" where
  "assigned c p ra w' w \<longleftrightarrow>
     (let k = pt_uiCount (pe_Table w) in
        k < NATIVE_APP_PEER_CAPACITY \<and>
        shows_peer p c (group_of k) (logon_of k) (cstr (nc_acLocalAddress c)) (cstr ra) (cstr (nc_acLocalId c)) (peer_name k) \<and>
        pe_out w' = pe_out w @ assign_text c (group_of k) (logon_of k))"

lemma answer_props:
  assumes "answer_registration c a m n w = ((p, w'), e)" and "table_wf (pe_Table w)" and "nc_wf c"
  shows "pe_Table w' = pe_Table w \<and> pe_open w' = pe_open w \<and> pe_notes w' = pe_notes w \<and>
    (e = IPSEC_OK \<longrightarrow> (\<exists>ra. registration_address a m = Some ra \<and> assigned c p ra w' w))"
proof (cases "registration_address a m")
  case None
  then show ?thesis using assms(1) by (auto simp: answer_registration_def SetNativeAppPeerError_def)
next
  case (Some ra)
  define k where "k = pt_uiCount (pe_Table w)"
  define g l where "g = group_of k" and "l = logon_of k"
  have k: "k \<le> NATIVE_APP_PEER_CAPACITY" using assms(2) by (simp add: table_wf_def k_def)
  have ids: "g \<le> UINT32_MAX" "l \<le> UINT32_MAX"
  proof -
    have "k mod 100 < 100" by simp
    then show "l \<le> UINT32_MAX" unfolding g_def l_def by linarith
    have "k div 100 \<le> k" by simp
    then show "g \<le> UINT32_MAX" using k unfolding g_def l_def by linarith
  qed
  have name: "peer_name k = peer_id_text g l" by (simp add: peer_name_def g_def l_def)
  note alloc = allocate_ids [OF assms(2), folded k_def, folded g_def l_def]
  show ?thesis
  proof (cases "k = NATIVE_APP_PEER_CAPACITY")
    case True
    then show ?thesis using assms(1) Some by (simp add: answer_registration_def alloc Let_def)
  next
    case False
    obtain q e1 where q: "BuildNativeAppPeerConfig c g l (nc_acLocalAddress c) ra
        (nc_acLocalId c) (buf_write (replicate IPSEC_ID_LENGTH NUL) 0 (peer_id_text g l @ [NUL])) = (q, e1)"
      by fastforce
    obtain w1 e2 where s: "SendNativeAppPeerMessage (assign_text c g l) n w = (w1, e2)" by fastforce
    have w: "w\<lparr>pe_Table := pe_Table w\<rparr> = w" by simp
    have r: "(if e1 \<noteq> IPSEC_OK then ((q, w), e1)
        else if NATIVE_APP_PEER_MESSAGE_LENGTH \<le> length (assign_text c g l)
        then ((q, w), IPSEC_ERR_BUFFER_TOO_SMALL) else ((q, w1), e2)) = ((p, w'), e)"
      using assms(1) unfolding answer_registration_def Some alloc Let_def option.case split_conv w if_not_P [OF False]
        sum.case prod.case peer_id_built [OF ids] q s by (simp add: q s)
    have id: "cstr (buf_write (replicate IPSEC_ID_LENGTH NUL) 0 (peer_id_text g l @ [NUL])) = peer_id_text g l"
      using peer_id_short(2) [OF ids] by (simp add: cstr_buf_write0 cstr_id)
    have len: "strlen (nc_acLocalAddress c) < IPSEC_ADDRESS_LENGTH" "strlen (nc_acLocalId c) < IPSEC_ID_LENGTH"
      using assms(3) by (simp_all add: nc_wf_def terminated_strlen)
    have len_id: "strlen (buf_write (replicate IPSEC_ID_LENGTH NUL) 0 (peer_id_text g l @ [NUL])) < IPSEC_ID_LENGTH"
      using peer_id_short(1) [OF ids] unfolding strlen_def id by simp
    note b = peer_config_built [OF assms(3) ids len len_id q, unfolded id]
    have "cstr (assign_text c g l) = assign_text c g l"
      using assign_no_NUL by (rule cstr_id)
    then have d: "pe_Table w1 = pe_Table w \<and> pe_open w1 = pe_open w \<and> pe_notes w1 = pe_notes w \<and>
        (e2 = IPSEC_OK \<longrightarrow> pe_out w1 = pe_out w @ assign_text c g l)"
      using s send_loop_props [of n "assign_text c g l" w w1 e2]
      by (auto simp: SendNativeAppPeerMessage_def sent_def split: if_splits)
    have "k < NATIVE_APP_PEER_CAPACITY" using k False by simp
    then show ?thesis using r b d Some
      unfolding assigned_def k_def [symmetric] Let_def g_def [symmetric] l_def [symmetric] name
      by (auto split: if_splits)
  qed
qed

lemma accept_connection_props:
  assumes "AcceptNativeAppPeerConnection b s c n w = ((i, w'), e)" and "table_wf (pe_Table w)" and "nc_wf c"
  shows "pe_open w' = pe_open w \<and> pe_notes w' = pe_notes w \<and>
    (e \<noteq> IPSEC_OK \<longrightarrow> i = None \<and> pe_Table w' = pe_Table w) \<and>
    (e = IPSEC_OK \<longrightarrow> (\<exists>p ra a req more rest. let k = pt_uiCount (pe_Table w) in
       pe_trace w = Accepted a (req @ newline # more) # rest \<and> newline \<notin> set req \<and>
       registration_address a req = Some ra \<and> assigned c p ra w' w \<and> i = Some k \<and>
       nc_eRole c = NATIVE_APP_ROLE_INITIATOR \<and>
       IsNativeAppPeerToken (nc_acLocalId c) \<and> IsNativeAppPeerToken (nc_acIkeProposals c) \<and>
       IsNativeAppPeerToken (nc_acEspProposals c) \<and>
       pe_Table w' = (pe_Table w)\<lparr>pt_aPeers := (pt_aPeers (pe_Table w))[k := p], pt_uiCount := k + 1\<rparr>))"
proof -
  obtain r w1 where r: "sys_accept w = (r, w1)" by fastforce
  obtain f w2 where f: "sys_call w1 = (f, w2)" by fastforce
  obtain m w3 e3 where m: "ReceiveNativeAppPeerMessage NATIVE_APP_PEER_MESSAGE_LENGTH (nc_uiTimeoutMs c) n w2 = ((m, w3), e3)"
    by (metis prod.exhaust)
  note a1 = accept_props [OF r]
  note a2 = sys_call_same [OF f]
  note a3 = recv_loop_props [OF m [unfolded ReceiveNativeAppPeerMessage_def]]
  show ?thesis
  proof (cases "\<not> b \<or> \<not> s \<or> nc_eRole c \<noteq> NATIVE_APP_ROLE_INITIATOR \<or> \<not> IsNativeAppPeerToken (nc_acLocalId c) \<or>
      \<not> IsNativeAppPeerToken (nc_acIkeProposals c) \<or> \<not> IsNativeAppPeerToken (nc_acEspProposals c) \<or> r = None")
    case True
    then show ?thesis using assms(1) r a1
      by (auto simp: AcceptNativeAppPeerConnection_def same_world_def SetNativeAppPeerError_def split: if_splits)
  next
    case False
    then obtain a where a: "r = Some a" by blast
    obtain p w4 e4 where an: "answer_registration c a m n w3 = ((p, w4), e4)" by (metis prod.exhaust)
    obtain j w5 e5 where ap: "append_peer p w4 = ((j, w5), e5)" by (metis prod.exhaust)
    have t3: "pe_Table w3 = pe_Table w" "pe_open w3 = pe_open w + 1" "pe_out w3 = pe_out w" "pe_notes w3 = pe_notes w"
      using a1 a2 a3 a by (auto simp: same_world_def received_def)
    have res: "((i, w'), e) =
        (if \<not> f then ((None, sys_close_socket (SetNativeAppPeerError n ''failed to configure peer registration'' w2)), IPSEC_ERR_INTERNAL)
         else if e3 \<noteq> IPSEC_OK then ((None, sys_close_socket w3), e3)
         else if e4 \<noteq> IPSEC_OK then ((None, sys_close_socket w4), e4) else ((j, sys_close_socket w5), e5))"
      using assms(1) False a r f m an ap by (auto simp: AcceptNativeAppPeerConnection_def)
    show ?thesis
    proof (cases "f \<and> e3 = IPSEC_OK")
      case False
      then show ?thesis using res a1 a2 a t3
        by (auto simp: same_world_def SetNativeAppPeerError_def sys_close_socket_def split: if_splits)
    next
      case True
      note an' = answer_props [OF an _ assms(3), unfolded t3(1), OF assms(2)]
      show ?thesis
      proof (cases "e4 = IPSEC_OK")
        case False
        then show ?thesis using res True an' t3 by (auto simp: sys_close_socket_def)
      next
        case e4: True
        define k where "k = pt_uiCount (pe_Table w)"
        obtain ra where ra: "registration_address a m = Some ra" "assigned c p ra w4 w3" using an' e4 by blast
        then have p: "k < NATIVE_APP_PEER_CAPACITY" "np_uiGroupId p = group_of k" "np_uiLogonId p = logon_of k"
          by (simp_all add: assigned_def shows_peer_def Let_def k_def t3)
        have t4: "pe_Table w4 = pe_Table w" using an' t3 by simp
        have j: "j = Some k" "e5 = IPSEC_OK"
          "w5 = w4\<lparr>pe_Table := (pe_Table w)\<lparr>pt_aPeers := (pt_aPeers (pe_Table w))[k := p], pt_uiCount := k + 1\<rparr>\<rparr>"
          using ap append_own [OF assms(2), of p] p unfolding append_peer_def t4 k_def by auto
        obtain more rest where tr: "pe_trace w = Accepted a (m @ newline # more) # rest" "newline \<notin> set m"
          using a1 a2 a3 a True by (auto simp: same_world_def received_def)
        have "assigned c p ra w' w" using ra(2) res True e4 j by (simp add: assigned_def t3 sys_close_socket_def)
        then show ?thesis using res True e4 j tr ra(1) an' t3 False k_def
          by (auto simp: sys_close_socket_def Let_def intro!: exI)
      qed
    qed
  qed
qed

lemma assigned_table:
  assumes "assigned c p ra w' w" and "table_wf (pe_Table w)" and "nc_eRole c = NATIVE_APP_ROLE_INITIATOR"
  shows "table_wf ((pe_Table w)\<lparr>pt_aPeers := (pt_aPeers (pe_Table w))[pt_uiCount (pe_Table w) := p],
    pt_uiCount := pt_uiCount (pe_Table w) + 1\<rparr>)"
  using assms append_wf [OF assms(2)] by (auto simp: assigned_def Let_def)

text \<open>The table after a registration, successful or not.\<close>

lemma accept_connection_table:
  assumes "AcceptNativeAppPeerConnection b s c n w = ((i, w'), e)" and "table_wf (pe_Table w)" and "nc_wf c"
  shows "table_wf (pe_Table w')"
    and "e \<noteq> IPSEC_OK \<Longrightarrow> i = None \<and> pe_Table w' = pe_Table w"
    and "e = IPSEC_OK \<Longrightarrow> i = Some (pt_uiCount (pe_Table w)) \<and> pt_uiCount (pe_Table w') = pt_uiCount (pe_Table w) + 1 \<and>
      take (pt_uiCount (pe_Table w)) (pt_aPeers (pe_Table w')) = take (pt_uiCount (pe_Table w)) (pt_aPeers (pe_Table w))"
    and "pe_open w' = pe_open w" and "pe_notes w' = pe_notes w"
proof -
  note a = accept_connection_props [OF assms]
  show "table_wf (pe_Table w')"
  proof (cases "e = IPSEC_OK")
    case True
    then obtain p ra where "assigned c p ra w' w" "nc_eRole c = NATIVE_APP_ROLE_INITIATOR"
      "pe_Table w' = (pe_Table w)\<lparr>pt_aPeers := (pt_aPeers (pe_Table w))[pt_uiCount (pe_Table w) := p],
         pt_uiCount := pt_uiCount (pe_Table w) + 1\<rparr>"
      using a by (auto simp: Let_def)
    then show ?thesis using assigned_table assms(2) by simp
  next
    case False
    then show ?thesis using a assms(2) by simp
  qed
  show "e \<noteq> IPSEC_OK \<Longrightarrow> i = None \<and> pe_Table w' = pe_Table w" using a by blast
  show "e = IPSEC_OK \<Longrightarrow> i = Some (pt_uiCount (pe_Table w)) \<and> pt_uiCount (pe_Table w') = pt_uiCount (pe_Table w) + 1 \<and>
      take (pt_uiCount (pe_Table w)) (pt_aPeers (pe_Table w')) = take (pt_uiCount (pe_Table w)) (pt_aPeers (pe_Table w))"
    using a by (auto simp: Let_def)
  show "pe_open w' = pe_open w" "pe_notes w' = pe_notes w" using a by blast+
qed

lemma open_server_props:
  assumes "OpenNativeAppServerSocket c n w = (b, w')"
  shows "pe_Table w' = pe_Table w \<and> pe_notes w' = pe_notes w \<and> pe_in w' = pe_in w \<and> pe_out w' = pe_out w \<and>
    pe_open w' = (if b then pe_open w + 1 else pe_open w)"
proof (cases "BuildNativeAppSocketAddress (nc_acPeerServerAddress c) (nc_uiPeerPort c)")
  case None
  then show ?thesis using assms by (simp add: OpenNativeAppServerSocket_def)
next
  case (Some a)
  obtain b1 w1 where s1: "sys_call w = (b1, w1)" by fastforce
  obtain b2 w2 where s2: "sys_call (w1\<lparr>pe_open := pe_open w1 + 1\<rparr>) = (b2, w2)" by fastforce
  obtain b3 w3 where s3: "sys_call (w2\<lparr>pe_bound := Some a\<rparr>) = (b3, w3)" by fastforce
  obtain b4 w4 where s4: "sys_call w3 = (b4, w4)" by fastforce
  show ?thesis
    using assms Some s1 s2 s3 s4 sys_call_same [OF s1] sys_call_same [OF s2] sys_call_same [OF s3] sys_call_same [OF s4]
    by (auto simp: OpenNativeAppServerSocket_def sys_open_socket_def sys_bind_def same_world_def sys_close_socket_def
        SetNativeAppPeerError_def Let_def split: if_splits)
qed

subsection \<open>The properties: the table\<close>

text \<open>C22: Accepting a registration keeps the table of an initiator well formed, leaves every other
  peer and every descriptor as they were, and changes nothing on an error; on success the new
  peer is the next of the table, and looking up the identity of any peer finds just this peer.\<close>

theorem AcceptNativeAppPeer_table:
  assumes "table_wf (pe_Table w)" and "nc_wf c" and "AcceptNativeAppPeer b c n w = ((i, w'), e)"
  shows "table_wf (pe_Table w') \<and> pe_open w' = pe_open w \<and>
    (let t = pe_Table w; t' = pe_Table w' in
      if e = IPSEC_OK
      then i = Some (pt_uiCount t) \<and> pt_uiCount t' = pt_uiCount t + 1 \<and>
        take (pt_uiCount t) (pt_aPeers t') = take (pt_uiCount t) (pt_aPeers t) \<and>
        (\<forall>k < pt_uiCount t'. FindNativeAppPeer (Some t') (Some (peer_name k)) = (Some t', Some k))
      else i = None \<and> t' = t)"
proof -
  obtain o1 w1 where o1: "OpenNativeAppServerSocket c n w = (o1, w1)" by fastforce
  obtain w2 e2 where w2: "WaitNativeAppSocket POLLIN (nc_uiTimeoutMs c) n w1 = (w2, e2)" by fastforce
  obtain j w3 e3 where w3: "AcceptNativeAppPeerConnection True True c n w2 = ((j, w3), e3)" by (metis prod.exhaust)
  note p1 = open_server_props [OF o1]
  note p2 = wait_same(1) [OF w2]
  show ?thesis
  proof (cases "b \<and> o1 \<and> e2 = IPSEC_OK")
    case False
    then show ?thesis using assms(1,3) o1 w2 p1 p2
      by (auto simp: AcceptNativeAppPeer_def same_world_def sys_close_socket_def split: if_splits)
  next
    case True
    have t2: "pe_Table w2 = pe_Table w" using p1 p2 by (simp add: same_world_def)
    then have wf: "table_wf (pe_Table w2)" using assms(1) by simp
    note p3 = accept_connection_table [OF w3 wf assms(2)]
    have "i = j" "w' = sys_close_socket w3" "e = e3"
      using assms(3) True o1 w2 w3 by (simp_all add: AcceptNativeAppPeer_def)
    then show ?thesis using p1 p2 p3 t2 True find_peer [OF p3(1)]
      by (auto simp: same_world_def sys_close_socket_def Let_def)
  qed
qed

subsection \<open>The property: the listener\<close>

definition notes_ok :: "(IpsecError \<times> nat option \<times> string) list \<Rightarrow> nat option list" where
  "notes_ok ns = map (\<lambda>x. fst (snd x)) (filter (\<lambda>x. fst x = IPSEC_OK) ns)"

lemma listener_props:
  assumes "table_wf (pe_Table w)" and "nc_wf (pl_Config l)" and "pl_pCallback l"
  shows "table_wf (pe_Table (listener_loop l w)) \<and> pe_open (listener_loop l w) = pe_open w \<and>
    pt_uiCount (pe_Table w) \<le> pt_uiCount (pe_Table (listener_loop l w)) \<and>
    (\<exists>new. pe_notes (listener_loop l w) = pe_notes w @ new \<and>
      notes_ok new = map Some [pt_uiCount (pe_Table w)..<pt_uiCount (pe_Table (listener_loop l w))])"
  using assms
proof (induction l w rule: listener_loop.induct)
  case (1 l w)
  obtain b w1 where s: "load_stop_flag w = (b, w1)" by fastforce
  obtain w2 e2 where w2: "WaitNativeAppSocket POLLIN NATIVE_APP_PEER_LISTENER_POLL_MS NATIVE_APP_ERROR_TEXT_LENGTH
      (w1\<lparr>pe_pcError := []\<rparr>) = (w2, e2)" by fastforce
  obtain i w3 e3 where w3: "AcceptNativeAppPeerConnection True (pl_iServerSocket l) (pl_Config l)
      NATIVE_APP_ERROR_TEXT_LENGTH w2 = ((i, w3), e3)" by (metis prod.exhaust)
  note d1 = load_stop_flag_same [OF s]
  have d2: "same_world w2 w" using wait_same(1) [OF w2] d1 by (simp add: same_world_def)
  then have wf2: "table_wf (pe_Table w2)" using 1(3) by (simp add: same_world_def)
  note step = listener_loop.simps [of l w, unfolded s w2 Let_def split_conv]
  consider "b" | "\<not> b" "e2 = IPSEC_ERR_VICI_TIMEOUT" | "\<not> b" "e2 = IPSEC_OK"
    | "\<not> b" "e2 \<noteq> IPSEC_OK" "e2 \<noteq> IPSEC_ERR_VICI_TIMEOUT" by blast
  then show ?case
  proof cases
    case 1
    then have "listener_loop l w = w1" using step by simp
    then show ?thesis using d1 \<open>table_wf (pe_Table w)\<close> by (simp add: same_world_def notes_ok_def)
  next
    case 2
    then have "listener_loop l w = listener_loop l w2" using step by simp
    moreover note 1(1) [OF s [symmetric] refl 2(1) w2 [symmetric] refl 2(2) wf2 1(4,5)]
    ultimately show ?thesis using d2 by (simp add: same_world_def)
  next
    case 3
    define w4 where "w4 = NotifyNativeAppPeerListener l e3 i w3"
    note a = accept_connection_table [OF w3 wf2 1(4)]
    have w4: "pe_Table w4 = pe_Table w3" "pe_open w4 = pe_open w3" "pe_notes w4 = pe_notes w3 @ [(e3, i, pe_pcError w3)]"
      using 1(5) by (simp_all add: w4_def NotifyNativeAppPeerListener_def)
    have eq: "listener_loop l w = listener_loop l w4" using 3 step w3 by (simp add: w4_def)
    have wf4: "table_wf (pe_Table w4)" using a(1) w4 by simp
    have ne: "\<not> e2 = IPSEC_ERR_VICI_TIMEOUT" using 3 by simp
    have ih: "table_wf (pe_Table (listener_loop l w4)) \<and> pe_open (listener_loop l w4) = pe_open w4 \<and>
        pt_uiCount (pe_Table w4) \<le> pt_uiCount (pe_Table (listener_loop l w4)) \<and>
        (\<exists>new. pe_notes (listener_loop l w4) = pe_notes w4 @ new \<and>
          notes_ok new = map Some [pt_uiCount (pe_Table w4)..<pt_uiCount (pe_Table (listener_loop l w4))])"
      unfolding w4_def
      by (rule 1(2) [OF s [symmetric] refl 3(1) w2 [symmetric] refl ne 3(2) w3 [symmetric] refl refl])
        (use wf4 1(4,5) in \<open>simp_all add: w4_def\<close>)
    then obtain new where new: "pe_notes (listener_loop l w4) = pe_notes w4 @ new"
        "notes_ok new = map Some [pt_uiCount (pe_Table w4)..<pt_uiCount (pe_Table (listener_loop l w4))]" by blast
    have n: "pe_notes (listener_loop l w4) = pe_notes w @ ((e3, i, pe_pcError w3) # new)"
      using new(1) w4 a(5) d2 by (simp add: same_world_def)
    have c: "pt_uiCount (pe_Table w) = pt_uiCount (pe_Table w2)" "pe_open w2 = pe_open w" using d2 by (simp_all add: same_world_def)
    have "notes_ok ((e3, i, pe_pcError w3) # new) =
        map Some [pt_uiCount (pe_Table w)..<pt_uiCount (pe_Table (listener_loop l w4))]"
    proof (cases "e3 = IPSEC_OK")
      case True
      then show ?thesis using a(3) new(2) w4(1) ih c by (simp add: notes_ok_def upt_conv_Cons)
    next
      case False
      then show ?thesis using a(2) new(2) w4(1) c by (simp add: notes_ok_def)
    qed
    moreover have "pt_uiCount (pe_Table w) \<le> pt_uiCount (pe_Table (listener_loop l w4))"
      using ih w4(1) a(2,3) c by (cases "e3 = IPSEC_OK") simp_all
    ultimately show ?thesis using eq n ih w4(2) a(4) c by simp
  next
    case 4
    then have "listener_loop l w = NotifyNativeAppPeerListener l e2 None w2" using step by simp
    then show ?thesis using d2 wf2 4 1(5) by (simp add: same_world_def NotifyNativeAppPeerListener_def notes_ok_def)
  qed
qed


subsection \<open>Registering\<close>

lemma sys_connect_same: "sys_connect_to a w = (r, w') \<Longrightarrow> same_world w' w"
  by (auto simp: sys_connect_to_def Let_def dest!: peer_next_same split: prod.splits option.splits peer_event.splits)

lemma connect_server_same: "connect_peer_server a t n w = (b, w') \<Longrightarrow> same_world w' w"
proof -
  assume r: "connect_peer_server a t n w = (b, w')"
  obtain x w1 where x: "sys_connect_to a w = (x, w1)" by fastforce
  obtain w2 e where w2: "WaitNativeAppSocket POLLOUT t n w1 = (w2, e)" by fastforce
  obtain y w3 where y: "sys_socket_status w2 = (y, w3)" by fastforce
  have d1: "same_world w1 w" using sys_connect_same [OF x] .
  have d2: "same_world w2 w" using wait_same(1) [OF w2] same_world_trans [OF d1] by blast
  have "same_world w3 w2" using y by (auto simp: sys_socket_status_def dest: peer_next_same split: prod.splits)
  then have d3: "same_world w3 w" using same_world_trans [OF d2] by blast
  show ?thesis using r x w2 y d1 d2 d3
    by (auto simp: connect_peer_server_def Let_def split: option.splits if_splits)
qed

definition opened :: "nat \<Rightarrow> PeerWorld \<Rightarrow> PeerWorld \<Rightarrow> bool" where
  "opened k w' w \<longleftrightarrow> pe_Table w' = pe_Table w \<and> pe_in w' = pe_in w \<and> pe_out w' = pe_out w \<and>
     pe_open w' = pe_open w + k \<and> pe_notes w' = pe_notes w"

lemma opened_same: "opened 0 w' w = same_world w' w"
  by (auto simp: opened_def same_world_def)

lemma opened_refl [simp]: "opened 0 w w"
  by (simp add: opened_def)

lemma opened_trans: "opened j b a \<Longrightarrow> same_world c b \<Longrightarrow> opened j c a"
  by (simp add: opened_def same_world_def)

lemma opened_close: "opened 1 w' w \<Longrightarrow> opened 0 (sys_close_socket w') w"
  by (simp add: opened_def sys_close_socket_def)

lemma opened_error [simp]: "opened k (SetNativeAppPeerError n t w') w = opened k w' w"
  by (simp add: opened_def SetNativeAppPeerError_def)

lemma open_client_props:
  assumes "OpenNativeAppClientSocket c n w = (b, w')"
  shows "opened (if b then 1 else 0) w' w \<and> (b \<longrightarrow> IsNativeAppAddressValid (nc_acLocalAddress c))"
proof (cases "BuildNativeAppSocketAddress (nc_acLocalAddress c) 0 = None \<or>
    BuildNativeAppSocketAddress (nc_acPeerServerAddress c) (nc_uiPeerPort c) = None")
  case True
  then show ?thesis using assms
    by (auto simp: OpenNativeAppClientSocket_def opened_same split: option.splits)
next
  case False
  then obtain x y where xy: "BuildNativeAppSocketAddress (nc_acLocalAddress c) 0 = Some x"
    "BuildNativeAppSocketAddress (nc_acPeerServerAddress c) (nc_uiPeerPort c) = Some y" by auto
  have v: "IsNativeAppAddressValid (nc_acLocalAddress c)" using xy(1) socket_address_valid by blast
  obtain b1 w1 where s1: "sys_open_socket w = (b1, w1)" by fastforce
  obtain b2 w2 where s2: "sys_bind x w1 = (b2, w2)" by fastforce
  obtain b3 w3 where s3: "sys_call w2 = (b3, w3)" by fastforce
  obtain b4 w4 where s4: "sys_call w3 = (b4, w4)" by fastforce
  obtain b5 w5 where s5: "connect_peer_server y (nc_uiTimeoutMs c) n w4 = (b5, w5)" by fastforce
  obtain b6 w6 where s6: "sys_call w5 = (b6, w6)" by fastforce
  have d1: "opened (if b1 then 1 else 0) w1 w"
    using s1 by (auto simp: sys_open_socket_def opened_def same_world_def dest: sys_call_same split: prod.splits if_splits)
  have d2: "same_world w2 w1" using s2 by (auto simp: sys_bind_def dest: sys_call_same)
  note d = d2 sys_call_same [OF s3] sys_call_same [OF s4] connect_server_same [OF s5] sys_call_same [OF s6]
  have o: "opened 1 w2 w" "opened 1 w3 w" "opened 1 w4 w" "opened 1 w5 w" "opened 1 w6 w" if "b1"
    using d1 that d by (simp_all add: opened_def same_world_def)
  show ?thesis using assms xy s1 s2 s3 s4 s5 s6 d1 o v opened_close
    by (auto simp: OpenNativeAppClientSocket_def split: if_splits)
qed

lemma assign_short:
  assumes "nc_wf c" and "g \<le> UINT32_MAX" and "l \<le> UINT32_MAX"
  shows "length (assign_text c g l) < NATIVE_APP_PEER_MESSAGE_LENGTH"
proof -
  have "length (dec g) \<le> 10" "length (dec l) \<le> 10" using assms by (intro length_dec; simp)+
  moreover have "length (cstr (nc_acLocalAddress c)) < 64" "length (cstr (nc_acLocalId c)) < 128"
    "length (cstr (nc_acIkeProposals c)) < 1024" "length (cstr (nc_acEspProposals c)) < 1024"
    using assms(1) terminated_strlen unfolding nc_wf_def strlen_def by blast+
  ultimately show ?thesis by (simp add: assign_text_def)
qed

lemma register_short:
  assumes "nc_wf c"
  shows "length (register_text c) < NATIVE_APP_PEER_MESSAGE_LENGTH" and "NUL \<notin> set (register_text c)"
proof -
  have "length (cstr (nc_acLocalAddress c)) < 64"
    using assms(1) terminated_strlen unfolding nc_wf_def strlen_def by blast
  then show "length (register_text c) < NATIVE_APP_PEER_MESSAGE_LENGTH" by (simp add: register_text_def)
  show "NUL \<notin> set (register_text c)" by (simp add: register_text_def)
qed

lemma send_message_props:
  assumes "SendNativeAppPeerMessage s n w = (w', e)" and "NUL \<notin> set s" and "length s < NATIVE_APP_PEER_MESSAGE_LENGTH"
  shows "e \<in> {IPSEC_OK, IPSEC_ERR_INTERNAL} \<and> pe_in w' = pe_in w \<and> pe_Table w' = pe_Table w \<and>
    pe_open w' = pe_open w \<and> pe_notes w' = pe_notes w \<and> (e = IPSEC_OK \<longrightarrow> pe_out w' = pe_out w @ s)"
proof -
  have "peer_send_loop n s w = (w', e)"
    using assms by (simp add: SendNativeAppPeerMessage_def strnlen_min strlen_id cstr_id split: if_splits)
  from send_loop_props [OF this] show ?thesis by (auto simp: sent_def)
qed

text \<open>The peer a responder builds from the assignment of an initiator \<open>s\<close>.\<close>

lemma assigned_peer_built:
  assumes "can_assign s" and "nc_wf c" and "g \<le> UINT32_MAX" and "l \<le> UINT32_MAX"
  shows "case assigned_peer c (g, l, cstr (nc_acLocalAddress s), cstr (nc_acLocalId s), cstr (nc_acIkeProposals s),
      cstr (nc_acEspProposals s), mode) of (p, e) \<Rightarrow>
    e = IPSEC_OK \<and> np_uiGroupId p = g \<and> np_uiLogonId p = l \<and>
    (let q = np_Config p in
      cstr (nc_acLocalAddress q) = cstr (nc_acLocalAddress c) \<and> cstr (nc_acRemoteAddress q) = cstr (nc_acLocalAddress s) \<and>
      cstr (nc_acLocalId q) = peer_id_text g l \<and> cstr (nc_acRemoteId q) = cstr (nc_acLocalId s) \<and>
      cstr (nc_acConnectionName q) = ''conn-'' @ peer_id_text g l \<and> cstr (nc_acChildName q) = ''child-'' @ peer_id_text g l \<and>
      cstr (nc_acCredentialId q) = ''psk-'' @ peer_id_text g l \<and>
      cstr (nc_acIkeProposals q) = cstr (nc_acIkeProposals s) \<and> cstr (nc_acEspProposals q) = cstr (nc_acEspProposals s) \<and>
      nc_eMode q = Some mode \<and> nc_eRole q = nc_eRole c)"
proof -
  have s: "nc_wf s" using assms(1) by (simp add: can_assign_def)
  define c' where "c' = c\<lparr>nc_eMode := Some mode,
     nc_acIkeProposals := buf_write (nc_acIkeProposals c) 0 (cstr (nc_acIkeProposals s) @ [NUL]),
     nc_acEspProposals := buf_write (nc_acEspProposals c) 0 (cstr (nc_acEspProposals s) @ [NUL])\<rparr>"
  have len: "strlen (nc_acIkeProposals s) < NATIVE_APP_PROPOSAL_TEXT_LENGTH" "strlen (nc_acEspProposals s) < NATIVE_APP_PROPOSAL_TEXT_LENGTH"
    "strlen (nc_acLocalAddress s) < IPSEC_ADDRESS_LENGTH" "strlen (nc_acLocalId s) < IPSEC_ID_LENGTH"
    "strlen (nc_acLocalAddress c) < IPSEC_ADDRESS_LENGTH"
    using s assms(2) by (simp_all add: nc_wf_def terminated_strlen)
  have wf: "nc_wf c'"
    using assms(2) len by (auto simp: nc_wf_def c'_def strlen_def intro!: terminated_buf_write)
      (simp_all add: terminated_def)
  have buf: "length (nc_acIkeProposals c) = NATIVE_APP_PROPOSAL_TEXT_LENGTH" "length (nc_acEspProposals c) = NATIVE_APP_PROPOSAL_TEXT_LENGTH"
    using assms(2) by (simp_all add: nc_wf_def terminated_def)
  have id: "cstr (buf_write (replicate IPSEC_ID_LENGTH NUL) 0 (peer_id_text g l @ [NUL])) = peer_id_text g l"
    using peer_id_short(2) [OF assms(3,4)] by (simp add: cstr_buf_write0 cstr_id)
  obtain p e where p: "BuildNativeAppPeerConfig c' g l (nc_acLocalAddress c) (cstr (nc_acLocalAddress s))
      (buf_write (replicate IPSEC_ID_LENGTH NUL) 0 (peer_id_text g l @ [NUL])) (cstr (nc_acLocalId s)) = (p, e)" by fastforce
  have lid: "strlen (buf_write (replicate IPSEC_ID_LENGTH NUL) 0 (peer_id_text g l @ [NUL])) < IPSEC_ID_LENGTH"
    using peer_id_short(1) [OF assms(3,4)] unfolding strlen_def id by simp
  have ls: "strlen (cstr t) = strlen t" for t by (simp add: strlen_def)
  have "assigned_peer c (g, l, cstr (nc_acLocalAddress s), cstr (nc_acLocalId s), cstr (nc_acIkeProposals s),
      cstr (nc_acEspProposals s), mode) = (p, e)"
    using p len(1,2) buf by (simp add: assigned_peer_def copy_peer_text ls peer_id_built [OF assms(3,4)] c'_def Let_def)
  moreover have "e = IPSEC_OK \<and> shows_peer p c' g l (cstr (nc_acLocalAddress c)) (cstr (nc_acLocalAddress s)) (peer_id_text g l)
      (cstr (nc_acLocalId s))"
    using peer_config_built [OF wf assms(3,4) len(5) lid _ p] len by (simp add: ls id)
  ultimately show ?thesis by (simp add: shows_peer_def c'_def Let_def cstr_buf_write0)
qed

subsection \<open>The property: the two sides agree\<close>

text \<open>Two entries for the same registration, the initiator's and the responder's.\<close>

definition agrees :: "NativeAppPeer \<Rightarrow> NativeAppPeer \<Rightarrow> bool" where
  "agrees p q \<longleftrightarrow>
     (let c = np_Config p; d = np_Config q in
        np_uiGroupId p = np_uiGroupId q \<and> np_uiLogonId p = np_uiLogonId q \<and>
        cstr (nc_acLocalId c) = cstr (nc_acRemoteId d) \<and> cstr (nc_acRemoteId c) = cstr (nc_acLocalId d) \<and>
        cstr (nc_acLocalAddress c) = cstr (nc_acRemoteAddress d) \<and>
        cstr (nc_acConnectionName c) = cstr (nc_acConnectionName d) \<and>
        cstr (nc_acChildName c) = cstr (nc_acChildName d) \<and> cstr (nc_acCredentialId c) = cstr (nc_acCredentialId d) \<and>
        cstr (nc_acIkeProposals c) = cstr (nc_acIkeProposals d) \<and>
        cstr (nc_acEspProposals c) = cstr (nc_acEspProposals d) \<and>
        (nc_eMode c = Some IPSEC_MODE_TRANSPORT \<longleftrightarrow> nc_eMode d = Some IPSEC_MODE_TRANSPORT) \<and>
        nc_eMode d \<in> {Some IPSEC_MODE_TUNNEL, Some IPSEC_MODE_TRANSPORT})"

lemma append_responder:
  assumes "pt_uiCount (pe_Table w) < NATIVE_APP_PEER_CAPACITY" and "nc_eRole (np_Config p) = NATIVE_APP_ROLE_RESPONDER"
    and "append_peer p w = ((i, w'), e)" and "length (pt_aPeers (pe_Table w)) = NATIVE_APP_PEER_CAPACITY"
  shows "e = IPSEC_OK \<and> i = Some (pt_uiCount (pe_Table w)) \<and> pe_out w' = pe_out w \<and> pe_open w' = pe_open w \<and>
    pt_aPeers (pe_Table w') ! pt_uiCount (pe_Table w) = p"
  using assms by (auto simp: append_peer_def AppendNativeAppPeer_def LockNativeAppPeerTable_def
      UnlockNativeAppPeerTable_def Let_def)

lemma first_line:
  assumes "a @ newline # x = b @ newline # y" and "newline \<notin> set a" and "newline \<notin> set b"
  shows "a = b"
proof -
  have "takeWhile (\<lambda>c. c \<noteq> newline) (u @ newline # z) = u" if "newline \<notin> set u" for u z
    using that by (induction u) auto
  then show ?thesis using assms by metis
qed

text \<open>A responder whose connection delivers the assignment of \<open>s\<close>.\<close>

lemma register_props:
  assumes "can_assign s" and "nc_wf c" and "0 < g" and "g \<le> UINT32_MAX" and "0 < l" and "l \<le> NATIVE_APP_PEER_LOGON_LIMIT"
    and "nc_eRole c = NATIVE_APP_ROLE_RESPONDER" and "pt_uiCount (pe_Table w) < NATIVE_APP_PEER_CAPACITY"
    and "length (pt_aPeers (pe_Table w)) = NATIVE_APP_PEER_CAPACITY" and "pe_in w = assign_text s g l"
    and "RegisterNativeAppPeer True c n w = ((i, w'), e)"
  shows "e \<in> {IPSEC_OK, IPSEC_ERR_INTERNAL, IPSEC_ERR_VICI_TIMEOUT} \<and> pe_open w' = pe_open w \<and>
    (e = IPSEC_OK \<longrightarrow> IsNativeAppAddressValid (nc_acLocalAddress c) \<and> pe_out w' = pe_out w @ register_text c \<and>
      i = Some (pt_uiCount (pe_Table w)) \<and>
      assigned_peer c (g, l, cstr (nc_acLocalAddress s), cstr (nc_acLocalId s), cstr (nc_acIkeProposals s),
        cstr (nc_acEspProposals s),
        if nc_eMode s = Some IPSEC_MODE_TRANSPORT then IPSEC_MODE_TRANSPORT else IPSEC_MODE_TUNNEL) =
      (pt_aPeers (pe_Table w') ! pt_uiCount (pe_Table w), IPSEC_OK))"
proof -
  obtain b w1 where o: "OpenNativeAppClientSocket c n w = (b, w1)" by fastforce
  obtain w2 e2 where s2: "SendNativeAppPeerMessage (register_text c) n w1 = (w2, e2)" by fastforce
  obtain m w3 e3 where m: "ReceiveNativeAppPeerMessage NATIVE_APP_PEER_MESSAGE_LENGTH (nc_uiTimeoutMs c) n w2 = ((m, w3), e3)"
    by (metis prod.exhaust)
  note reg = register_short [OF assms(2)]
  note p1 = open_client_props [OF o]
  note p2 = send_message_props [OF s2 reg(2,1)]
  note p3 = recv_loop_props [OF m [unfolded ReceiveNativeAppPeerMessage_def]]
  have l: "l \<le> UINT32_MAX" using assms(6) by simp
  obtain body where body: "assign_text s g l = body @ [newline]" by (simp add: assign_join)
  note parses = assignment_parses [OF assms(1,3-6) body [symmetric]]
  have short: "length (assign_text s g l) < NATIVE_APP_PEER_MESSAGE_LENGTH"
    using assign_short assms(1,4) l by (simp add: can_assign_def)
  have in2: "pe_in w2 = body @ [newline]" using p1 p2 assms(10) body by (simp add: opened_def)
  obtain bs where bs: "received bs w3 w2"
      "e3 = IPSEC_OK \<Longrightarrow> \<exists>cs. bs = cs @ [newline] \<and> m = cs \<and> newline \<notin> set cs"
      "e3 = IPSEC_ERR_BUFFER_TOO_SMALL \<Longrightarrow> newline \<notin> set bs \<and> NATIVE_APP_PEER_MESSAGE_LENGTH \<le> length bs + 1"
    using p3 by fastforce
  have pre: "bs @ pe_in w3 = body @ [newline]" using bs(1) in2 by (simp add: received_def)
  have noshort: "e3 \<noteq> IPSEC_ERR_BUFFER_TOO_SMALL"
  proof
    assume "e3 = IPSEC_ERR_BUFFER_TOO_SMALL"
    then have "newline \<notin> set bs" "NATIVE_APP_PEER_MESSAGE_LENGTH \<le> length bs + 1" using bs(3) by auto
    moreover have "length bs \<noteq> length body + 1"
    proof
      assume "length bs = length body + 1"
      then have "pe_in w3 = []" using arg_cong [OF pre, of length] by simp
      then show False using pre \<open>newline \<notin> set bs\<close> by auto
    qed
    moreover have "length bs \<le> length body + 1" using arg_cong [OF pre, of length] by simp
    ultimately show False using short body by simp
  qed
  have msg: "m = body" if "e3 = IPSEC_OK"
  proof -
    obtain cs where cs: "bs = cs @ [newline]" "m = cs" "newline \<notin> set cs" using bs(2) \<open>e3 = IPSEC_OK\<close> by blast
    then have "cs @ newline # pe_in w3 = body @ newline # []" using pre by simp
    from first_line [OF this cs(3) parses(1)] show ?thesis using cs(2) by simp
  qed
  define a where "a = (g, l, cstr (nc_acLocalAddress s), cstr (nc_acLocalId s), cstr (nc_acIkeProposals s),
        cstr (nc_acEspProposals s),
        if nc_eMode s = Some IPSEC_MODE_TRANSPORT then IPSEC_MODE_TRANSPORT else IPSEC_MODE_TUNNEL)"
  obtain p e4 where p: "assigned_peer c a = (p, e4)" by fastforce
  have e4: "e4 = IPSEC_OK" "nc_eRole (np_Config p) = NATIVE_APP_ROLE_RESPONDER"
    using assigned_peer_built [OF assms(1,2,4) l, of "if nc_eMode s = Some IPSEC_MODE_TRANSPORT then IPSEC_MODE_TRANSPORT else IPSEC_MODE_TUNNEL"]
      p assms(7) by (simp_all add: a_def Let_def)
  obtain j w5 e5 where ap: "append_peer p w3 = ((j, w5), e5)" by (metis prod.exhaust)
  have parse: "parse_assignment m = Inr a" if "e3 = IPSEC_OK" using parses(2) msg that by (simp add: a_def)
  have guard: "\<not> (\<not> True \<or> nc_eRole c \<noteq> NATIVE_APP_ROLE_RESPONDER \<or> NATIVE_APP_PEER_CAPACITY \<le> pt_uiCount (pe_Table w))"
    using assms(7,8) by simp
  have res: "((i, w'), e) =
      (if \<not> b then ((None, w1), IPSEC_ERR_INTERNAL)
       else if e2 \<noteq> IPSEC_OK then ((None, sys_close_socket w2), e2)
       else if e3 \<noteq> IPSEC_OK then ((None, sys_close_socket w3), e3) else ((j, sys_close_socket w5), e5))"
    using assms(7,8,11) reg(1) parse e4 by (auto simp: RegisterNativeAppPeer_def o s2 m p ap)
  show ?thesis
  proof (cases "b \<and> e2 = IPSEC_OK \<and> e3 = IPSEC_OK")
    case False
    then show ?thesis using res p1 p2 p3 noshort bs(1)
      by (auto simp: sys_close_socket_def opened_def received_def split: if_splits)
  next
    case True
    have t3: "pe_Table w3 = pe_Table w" "pe_out w3 = pe_out w @ register_text c" "pe_open w3 = pe_open w + 1"
      using p1 p2 bs(1) True by (simp_all add: opened_def received_def)
    from append_responder [OF _ e4(2) ap] assms(8,9) t3
    have "e5 = IPSEC_OK \<and> j = Some (pt_uiCount (pe_Table w)) \<and> pe_out w5 = pe_out w3 \<and> pe_open w5 = pe_open w3 \<and>
        pt_aPeers (pe_Table w5) ! pt_uiCount (pe_Table w) = p" by simp
    then show ?thesis using res True t3 p1 p e4 unfolding a_def [symmetric]
      by (simp add: sys_close_socket_def)
  qed
qed

lemma registration_of_request:
  assumes "registration_address x req = Some ra" and "req @ newline # rst = register_text c"
    and "newline \<notin> set req" and "IsNativeAppAddressValid (nc_acLocalAddress c)"
  shows "ra = cstr (nc_acLocalAddress c)"
proof -
  define body where "body = join_with '' '' [''RCST/1'', ''REGISTER'', cstr (nc_acLocalAddress c)]"
  have "word_text (cstr (nc_acLocalAddress c))"
    using assms(4) address_word by (simp add: IsNativeAppAddressValid_def)
  then have w: "list_all word_text [''RCST/1'', ''REGISTER'', cstr (nc_acLocalAddress c)]"
    by (simp add: word_text_def)
  have "req @ newline # rst = body @ newline # []" using assms(2) by (simp add: body_def register_text_def)
  from first_line [OF this assms(3)] have "req = body" using join_words [OF w] unfolding body_def by blast
  moreover have "cstr body = body" using join_words [OF w] by (simp add: cstr_id body_def)
  ultimately have "space_tokens (cstr req) = [''RCST/1'', ''REGISTER'', cstr (nc_acLocalAddress c)]"
    using space_tokens_join [OF _ w] by (simp add: body_def)
  then show ?thesis using assms(1) by (auto simp: registration_address_def split: if_splits option.splits)
qed

text \<open>C21: The two sides of a registration agree.  When an initiator accepted a registration, a
  responder that receives what it sent is stopped by nothing but its sockets; once registered,
  both tables hold entries with the same numbers, names, proposals and mode and with mirrored
  identities and addresses.\<close>

theorem registration_agreement:
  assumes "can_assign s" and "table_wf (pe_Table v)"
    and "AcceptNativeAppPeerConnection True True s m v = ((Some i, v'), IPSEC_OK)"
    and "nc_wf c" and "nc_eRole c = NATIVE_APP_ROLE_RESPONDER"
    and "pt_uiCount (pe_Table w) < NATIVE_APP_PEER_CAPACITY"
    and "length (pt_aPeers (pe_Table w)) = NATIVE_APP_PEER_CAPACITY"
    and "pe_out v' = pe_out v @ pe_in w"
    and "RegisterNativeAppPeer True c n w = ((j, w'), e)"
  shows "e \<in> {IPSEC_OK, IPSEC_ERR_INTERNAL, IPSEC_ERR_VICI_TIMEOUT} \<and> pe_open w' = pe_open w \<and>
    (e = IPSEC_OK \<longrightarrow> (\<exists>k. j = Some k \<and>
      (let p = pt_aPeers (pe_Table v') ! i; q = pt_aPeers (pe_Table w') ! k in
        agrees p q \<and>
        (\<forall>a request rest. pe_trace v = Accepted a request # rest \<and> pe_out w' = pe_out w @ request \<longrightarrow>
          cstr (nc_acRemoteAddress (np_Config p)) = cstr (nc_acLocalAddress (np_Config q))))))"
proof -
  define t where "t = pt_uiCount (pe_Table v)"
  define g l where "g = group_of t" and "l = logon_of t"
  have swf: "nc_wf s" using assms(1) by (simp add: can_assign_def)
  from accept_connection_props [OF assms(3,2) swf]
  obtain p ra a req tail rest where p: "pe_trace v = Accepted a (req @ newline # tail) # rest" "newline \<notin> set req"
      "registration_address a req = Some ra" "assigned s p ra v' v" "i = t"
      "pe_Table v' = (pe_Table v)\<lparr>pt_aPeers := (pt_aPeers (pe_Table v))[t := p], pt_uiCount := t + 1\<rparr>"
    by (auto simp: Let_def t_def)
  have t: "t < NATIVE_APP_PEER_CAPACITY" "pt_aPeers (pe_Table v') ! i = p"
    using p assms(2) by (simp_all add: assigned_def Let_def t_def table_wf_def)
  have ids: "0 < g" "g \<le> UINT32_MAX" "0 < l" "l \<le> NATIVE_APP_PEER_LOGON_LIMIT"
  proof -
    have "t mod 100 < 100" "t div 100 \<le> t" by simp_all
    then show "0 < g" "g \<le> UINT32_MAX" "0 < l" "l \<le> NATIVE_APP_PEER_LOGON_LIMIT"
      using t(1) unfolding g_def l_def by linarith+
  qed
  have l32: "l \<le> UINT32_MAX" using ids(4) by simp
  have name: "peer_name t = peer_id_text g l" by (simp add: peer_name_def g_def l_def)
  have sp: "shows_peer p s g l (cstr (nc_acLocalAddress s)) (cstr ra) (cstr (nc_acLocalId s)) (peer_id_text g l)"
    using p(4) by (simp add: assigned_def Let_def t_def [symmetric] g_def l_def name)
  have inw: "pe_in w = assign_text s g l"
    using p(4) assms(8) by (simp add: assigned_def Let_def t_def [symmetric] g_def l_def)
  note r = register_props [OF assms(1,4) ids assms(5-7) inw assms(9)]
  show ?thesis
  proof (cases "e = IPSEC_OK")
    case False
    then show ?thesis using r by blast
  next
    case True
    define k where "k = pt_uiCount (pe_Table w)"
    define q where "q = pt_aPeers (pe_Table w') ! k"
    from r True have q: "IsNativeAppAddressValid (nc_acLocalAddress c)" "pe_out w' = pe_out w @ register_text c" "j = Some k"
      "assigned_peer c (g, l, cstr (nc_acLocalAddress s), cstr (nc_acLocalId s), cstr (nc_acIkeProposals s),
        cstr (nc_acEspProposals s),
        if nc_eMode s = Some IPSEC_MODE_TRANSPORT then IPSEC_MODE_TRANSPORT else IPSEC_MODE_TUNNEL) = (q, IPSEC_OK)"
      by (simp_all add: k_def q_def)
    note b = assigned_peer_built [OF assms(1,4) ids(2) l32,
        of "if nc_eMode s = Some IPSEC_MODE_TRANSPORT then IPSEC_MODE_TRANSPORT else IPSEC_MODE_TUNNEL",
        unfolded q(4) prod.case Let_def]
    have "agrees p q"
      using sp b unfolding agrees_def shows_peer_def Let_def by (auto split: if_splits)
    moreover have "cstr ra = cstr (nc_acLocalAddress c)" if "req @ newline # tail = register_text c"
      using registration_of_request [OF p(3) that p(2) q(1)] by simp
    moreover have "cstr (nc_acRemoteAddress (np_Config p)) = cstr ra"
        "cstr (nc_acLocalAddress (np_Config q)) = cstr (nc_acLocalAddress c)"
      using sp b by (simp_all add: shows_peer_def Let_def)
    ultimately have "\<exists>k. j = Some k \<and> (let p = pt_aPeers (pe_Table v') ! i; q = pt_aPeers (pe_Table w') ! k in
        agrees p q \<and>
        (\<forall>a request rest. pe_trace v = Accepted a request # rest \<and> pe_out w' = pe_out w @ request \<longrightarrow>
          cstr (nc_acRemoteAddress (np_Config p)) = cstr (nc_acLocalAddress (np_Config q))))"
      using q(2,3) p(1) unfolding t(2) Let_def by (intro exI [of _ k]) (simp add: q_def [symmetric])
    then show ?thesis using r by blast
  qed
qed

subsection \<open>Undisturbed registrations\<close>

text \<open>When the calls succeed, messages arrive and registrations complete.\<close>

definition receiving :: "nat \<Rightarrow> peer_event list" where
  "receiving n = concat (replicate n [PollFlags POLLIN, Transferred 1])"

lemma receiving_Suc: "receiving (Suc n) = PollFlags POLLIN # Transferred 1 # receiving n"
  by (simp add: receiving_def)

lemma wait_ready:
  assumes "pe_trace w = PollFlags POLLIN # evs"
  shows "WaitNativeAppSocket POLLIN t n w =
    (w\<lparr>pe_trace := evs, pe_waits := pe_waits w @ [GetNativeAppPollTimeout t]\<rparr>, IPSEC_OK)"
  using assms by (simp add: WaitNativeAppSocket_def peer_poll.simps peer_next_def)

lemma recv_line:
  assumes "newline \<notin> set bs" and "length acc + length bs + 1 < l"
    and "pe_trace w = receiving (length bs + 1) @ evs" and "pe_in w = bs @ newline # rst"
  shows "\<exists>ws. peer_recv_loop l t n acc w =
    ((acc @ bs, w\<lparr>pe_trace := evs, pe_in := rst, pe_waits := pe_waits w @ ws\<rparr>), IPSEC_OK)"
  using assms
proof (induction bs arbitrary: acc w)
  case Nil
  then have tr: "pe_trace w = PollFlags POLLIN # Transferred 1 # evs" by (simp add: receiving_def)
  show ?case using Nil unfolding peer_recv_loop.simps [of l t n acc w] wait_ready [OF tr]
    by (intro exI [of _ "[GetNativeAppPollTimeout t]"]) (simp add: sys_recv_byte_def peer_next_def Let_def)
next
  case (Cons c bs)
  then have tr: "pe_trace w = PollFlags POLLIN # Transferred 1 # (receiving (length bs + 1) @ evs)"
    by (simp add: receiving_Suc)
  define w2 where "w2 = w\<lparr>pe_waits := pe_waits w @ [GetNativeAppPollTimeout t],
    pe_trace := receiving (length bs + 1) @ evs, pe_in := bs @ newline # rst\<rparr>"
  have "peer_recv_loop l t n acc w = peer_recv_loop l t n (acc @ [c]) w2"
    using Cons.prems unfolding peer_recv_loop.simps [of l t n acc w] wait_ready [OF tr]
    by (auto simp: sys_recv_byte_def peer_next_def Let_def w2_def)
  moreover obtain ws where "peer_recv_loop l t n (acc @ [c]) w2 =
      (((acc @ [c]) @ bs, w2\<lparr>pe_trace := evs, pe_in := rst, pe_waits := pe_waits w2 @ ws\<rparr>), IPSEC_OK)"
    using Cons.IH [of "acc @ [c]" w2] Cons.prems by (auto simp: w2_def)
  ultimately show ?case by (intro exI [of _ "[GetNativeAppPollTimeout t] @ ws"]) (cases w, simp add: w2_def)
qed

lemma send_whole:
  assumes "pe_trace w = Transferred k # evs" and "length s \<le> k" and "NUL \<notin> set s"
    and "length s < NATIVE_APP_PEER_MESSAGE_LENGTH" and "s \<noteq> []"
  shows "SendNativeAppPeerMessage s n w = (w\<lparr>pe_trace := evs, pe_out := pe_out w @ s\<rparr>, IPSEC_OK)"
  using assms unfolding peer_send_loop.simps [of n s w]
  by (simp add: SendNativeAppPeerMessage_def strnlen_min strlen_id cstr_id peer_send_loop.simps sys_send_some_def peer_next_def)

lemma accept_completes:
  assumes "can_assign s" and "nc_eRole s = NATIVE_APP_ROLE_INITIATOR" and "table_wf (pe_Table w)"
    and "pt_uiCount (pe_Table w) < NATIVE_APP_PEER_CAPACITY"
    and "pe_trace w = Accepted a (req @ [newline]) # CallOk # receiving (length req + 1) @ Transferred NATIVE_APP_PEER_MESSAGE_LENGTH # evs"
    and "newline \<notin> set req" and "length req + 1 < NATIVE_APP_PEER_MESSAGE_LENGTH"
    and "registration_address a req = Some ra" and "strlen ra < IPSEC_ADDRESS_LENGTH"
  shows "\<exists>w'. AcceptNativeAppPeerConnection True True s n w = ((Some (pt_uiCount (pe_Table w)), w'), IPSEC_OK) \<and>
    pe_trace w' = evs"
proof -
  define k where "k = pt_uiCount (pe_Table w)"
  define g l where "g = group_of k" and "l = logon_of k"
  have k: "k < NATIVE_APP_PEER_CAPACITY" using assms(4) by (simp add: k_def)
  have ids: "g \<le> UINT32_MAX" "l \<le> UINT32_MAX"
  proof -
    have "k mod 100 < 100" "k div 100 \<le> k" by simp_all
    then show "g \<le> UINT32_MAX" "l \<le> UINT32_MAX" using k unfolding g_def l_def by linarith+
  qed
  have swf: "nc_wf s" using assms(1) by (simp add: can_assign_def)
  define w1 where "w1 = w\<lparr>pe_trace := receiving (length req + 1) @ Transferred NATIVE_APP_PEER_MESSAGE_LENGTH # evs,
      pe_in := req @ [newline], pe_open := pe_open w + 1\<rparr>"
  obtain ws where rc: "ReceiveNativeAppPeerMessage NATIVE_APP_PEER_MESSAGE_LENGTH (nc_uiTimeoutMs s) n w1 =
      ((req, w1\<lparr>pe_trace := Transferred NATIVE_APP_PEER_MESSAGE_LENGTH # evs, pe_in := [], pe_waits := pe_waits w1 @ ws\<rparr>), IPSEC_OK)"
    using recv_line [of req "[]" NATIVE_APP_PEER_MESSAGE_LENGTH w1 "Transferred NATIVE_APP_PEER_MESSAGE_LENGTH # evs" "[]"
        "nc_uiTimeoutMs s" n] assms(6,7) by (auto simp: ReceiveNativeAppPeerMessage_def w1_def)
  define w2 where "w2 = w1\<lparr>pe_trace := Transferred NATIVE_APP_PEER_MESSAGE_LENGTH # evs, pe_in := [], pe_waits := pe_waits w1 @ ws\<rparr>"
  have t2: "pe_Table w2 = pe_Table w" by (simp add: w2_def w1_def)
  have id: "cstr (buf_write (replicate IPSEC_ID_LENGTH NUL) 0 (peer_id_text g l @ [NUL])) = peer_id_text g l"
    using peer_id_short(2) [OF ids] by (simp add: cstr_buf_write0 cstr_id)
  obtain p e where p: "BuildNativeAppPeerConfig s g l (nc_acLocalAddress s) ra (nc_acLocalId s)
      (buf_write (replicate IPSEC_ID_LENGTH NUL) 0 (peer_id_text g l @ [NUL])) = (p, e)" by fastforce
  have "e = IPSEC_OK \<and> np_uiGroupId p = g \<and> np_uiLogonId p = l"
    using peer_config_built [OF swf ids _ _ _ p] assms(9) swf peer_id_short(1) [OF ids]
    by (simp add: nc_wf_def terminated_strlen strlen_def [of "buf_write _ _ _"] id shows_peer_def)
  then have e: "e = IPSEC_OK" "np_uiGroupId p = g" "np_uiLogonId p = l" by simp_all
  have short: "length (assign_text s g l) < NATIVE_APP_PEER_MESSAGE_LENGTH" by (rule assign_short [OF swf ids])
  have sd: "SendNativeAppPeerMessage (assign_text s g l) n w2 =
      (w2\<lparr>pe_trace := evs, pe_out := pe_out w2 @ assign_text s g l\<rparr>, IPSEC_OK)"
  proof (rule send_whole [OF _ less_imp_le [OF short] assign_no_NUL short])
    show "pe_trace w2 = Transferred NATIVE_APP_PEER_MESSAGE_LENGTH # evs" by (simp add: w2_def)
    show "assign_text s g l \<noteq> []" by (simp add: assign_text_def)
  qed
  have al: "AllocateNativeAppPeerIds (pe_Table w2) = (pe_Table w2, Inr (g, l))"
    using allocate_ids [OF assms(3)] k unfolding t2 k_def [symmetric] g_def l_def by simp
  have same: "w2\<lparr>pe_Table := pe_Table w2\<rparr> = w2" by simp
  have an: "answer_registration s a req n w2 =
      ((p, w2\<lparr>pe_trace := evs, pe_out := pe_out w2 @ assign_text s g l\<rparr>), IPSEC_OK)"
    unfolding answer_registration_def assms(8) al Let_def option.case split_conv same sum.case prod.case
      peer_id_built [OF ids] using p e sd short by simp
  have ap: "AppendNativeAppPeer p (pe_Table w) = ((Some k, (pe_Table w)\<lparr>pt_aPeers := (pt_aPeers (pe_Table w))[k := p],
      pt_uiCount := k + 1\<rparr>), IPSEC_OK)"
    using append_own [OF assms(3,4), of p] e by (simp add: k_def g_def l_def)
  have "sys_accept w = (Some a, w\<lparr>pe_trace := CallOk # receiving (length req + 1) @ Transferred NATIVE_APP_PEER_MESSAGE_LENGTH # evs,
      pe_in := req @ [newline], pe_open := pe_open w + 1\<rparr>)"
    using assms(5) by (simp add: sys_accept_def peer_next_def)
  moreover have "sys_call (w\<lparr>pe_trace := CallOk # receiving (length req + 1) @ Transferred NATIVE_APP_PEER_MESSAGE_LENGTH # evs,
      pe_in := req @ [newline], pe_open := pe_open w + 1\<rparr>) = (True, w1)"
    by (simp add: sys_call_def peer_next_def w1_def)
  ultimately show ?thesis
    using assms(1,2) rc [folded w2_def] an ap t2
    by (simp add: AcceptNativeAppPeerConnection_def can_assign_def append_peer_def sys_close_socket_def k_def)
qed

lemma register_completes:
  assumes "can_assign s" and "nc_wf c" and "0 < g" and "g \<le> UINT32_MAX" and "0 < l" and "l \<le> NATIVE_APP_PEER_LOGON_LIMIT"
    and "nc_eRole c = NATIVE_APP_ROLE_RESPONDER" and "pt_uiCount (pe_Table w) < NATIVE_APP_PEER_CAPACITY"
    and "BuildNativeAppSocketAddress (nc_acLocalAddress c) 0 = Some x"
    and "BuildNativeAppSocketAddress (nc_acPeerServerAddress c) (nc_uiPeerPort c) = Some y" and "same_family x y"
    and "pe_in w = assign_text s g l"
    and "pe_trace w = [CallOk, CallOk, CallOk, CallOk, Connected, CallOk, Transferred NATIVE_APP_PEER_MESSAGE_LENGTH] @
      receiving (length (assign_text s g l)) @ evs"
  shows "\<exists>w'. RegisterNativeAppPeer True c n w = ((Some (pt_uiCount (pe_Table w)), w'), IPSEC_OK) \<and> pe_trace w' = evs"
proof -
  define w1 where "w1 = w\<lparr>pe_trace := Transferred NATIVE_APP_PEER_MESSAGE_LENGTH # receiving (length (assign_text s g l)) @ evs,
      pe_open := pe_open w + 1, pe_bound := Some x, pe_target := Some y\<rparr>"
  have o: "OpenNativeAppClientSocket c n w = (True, w1)"
    using assms(9-11,13) by (simp add: OpenNativeAppClientSocket_def sys_open_socket_def sys_bind_def sys_call_def
        peer_next_def connect_peer_server_def sys_connect_to_def w1_def)
  note reg = register_short [OF assms(2)]
  define w2 where "w2 = w1\<lparr>pe_trace := receiving (length (assign_text s g l)) @ evs, pe_out := pe_out w1 @ register_text c\<rparr>"
  have sd: "SendNativeAppPeerMessage (register_text c) n w1 = (w2, IPSEC_OK)"
    unfolding w2_def
  proof (rule send_whole [OF _ less_imp_le [OF reg(1)] reg(2) reg(1)])
    show "pe_trace w1 = Transferred NATIVE_APP_PEER_MESSAGE_LENGTH # receiving (length (assign_text s g l)) @ evs"
      by (simp add: w1_def)
    show "register_text c \<noteq> []" by (simp add: register_text_def)
  qed
  obtain body where body: "assign_text s g l = body @ [newline]" by (simp add: assign_join)
  note parses = assignment_parses [OF assms(1,3-6) body [symmetric]]
  have l32: "l \<le> UINT32_MAX" using assms(6) by simp
  have swf: "nc_wf s" using assms(1) by (simp add: can_assign_def)
  have short: "length body + 1 < NATIVE_APP_PEER_MESSAGE_LENGTH" using assign_short [OF swf assms(4) l32] body by simp
  obtain ws where rc: "ReceiveNativeAppPeerMessage NATIVE_APP_PEER_MESSAGE_LENGTH (nc_uiTimeoutMs c) n w2 =
      ((body, w2\<lparr>pe_trace := evs, pe_in := [], pe_waits := pe_waits w2 @ ws\<rparr>), IPSEC_OK)"
    using recv_line [of body "[]" NATIVE_APP_PEER_MESSAGE_LENGTH w2 evs "[]" "nc_uiTimeoutMs c" n] parses(1) short assms(12) body
    by (auto simp: ReceiveNativeAppPeerMessage_def w2_def w1_def)
  define w3 where "w3 = w2\<lparr>pe_trace := evs, pe_in := [], pe_waits := pe_waits w2 @ ws\<rparr>"
  have t3: "pe_Table w3 = pe_Table w" "pe_trace w3 = evs" by (simp_all add: w3_def w2_def w1_def)
  obtain p e where p: "assigned_peer c (g, l, cstr (nc_acLocalAddress s), cstr (nc_acLocalId s), cstr (nc_acIkeProposals s),
      cstr (nc_acEspProposals s),
      if nc_eMode s = Some IPSEC_MODE_TRANSPORT then IPSEC_MODE_TRANSPORT else IPSEC_MODE_TUNNEL) = (p, e)" by fastforce
  have e: "e = IPSEC_OK" "nc_eRole (np_Config p) = NATIVE_APP_ROLE_RESPONDER"
    using assigned_peer_built [OF assms(1,2,4) l32, of "if nc_eMode s = Some IPSEC_MODE_TRANSPORT then IPSEC_MODE_TRANSPORT else IPSEC_MODE_TUNNEL"]
      p assms(7) by (simp_all add: Let_def)
  have ap: "\<exists>w4. append_peer p w3 = ((Some (pt_uiCount (pe_Table w)), w4), IPSEC_OK) \<and> pe_trace w4 = evs"
    using assms(8) e(2) t3 by (simp add: append_peer_def AppendNativeAppPeer_def LockNativeAppPeerTable_def Let_def)
  then obtain w4 where w4: "append_peer p w3 = ((Some (pt_uiCount (pe_Table w)), w4), IPSEC_OK)" "pe_trace w4 = evs" by blast
  show ?thesis
    using assms(7,8) o sd reg(1) rc [folded w3_def] parses(2) p e(1) w4
    by (simp add: RegisterNativeAppPeer_def sys_close_socket_def)
qed

subsection \<open>Concrete registrations\<close>

definition initiator_config :: NativeAppConfig where
  "initiator_config = InitializeNativeAppConfig
     \<lparr>nc_acLocalAddress := text_buf IPSEC_ADDRESS_LENGTH ''10.0.0.1'', nc_acLocalId := text_buf IPSEC_ID_LENGTH ''hub'',
      nc_acPeerServerAddress := text_buf IPSEC_ADDRESS_LENGTH ''10.0.0.1'',
      nc_acIkeProposals := text_buf NATIVE_APP_PROPOSAL_TEXT_LENGTH ''aes256-sha256-modp2048'',
      nc_acEspProposals := text_buf NATIVE_APP_PROPOSAL_TEXT_LENGTH ''aes256gcm16''\<rparr>"

definition responder_config :: NativeAppConfig where
  "responder_config = InitializeNativeAppConfig
     \<lparr>nc_eRole := NATIVE_APP_ROLE_RESPONDER,
      nc_acLocalAddress := text_buf IPSEC_ADDRESS_LENGTH ''10.0.0.2'',
      nc_acPeerServerAddress := text_buf IPSEC_ADDRESS_LENGTH ''10.0.0.1''\<rparr>"

lemma initiator_texts:
  "cstr (nc_acLocalAddress initiator_config) = ''10.0.0.1''" "cstr (nc_acLocalId initiator_config) = ''hub''"
  "cstr (nc_acPeerServerAddress initiator_config) = ''10.0.0.1''"
  "cstr (nc_acIkeProposals initiator_config) = ''aes256-sha256-modp2048''"
  "cstr (nc_acEspProposals initiator_config) = ''aes256gcm16''"
  by (simp_all add: initiator_config_def text_buf_simps)

lemma responder_texts:
  "cstr (nc_acLocalAddress responder_config) = ''10.0.0.2''"
  "cstr (nc_acPeerServerAddress responder_config) = ''10.0.0.1''"
  by (simp_all add: responder_config_def text_buf_simps)

lemma config_wf: "nc_wf initiator_config" "nc_wf responder_config"
  using InitializeNativeAppConfig_wf
  by (simp_all add: initiator_config_def responder_config_def nc_wf_def text_buf_simps)

lemma config_roles:
  "nc_eRole initiator_config = NATIVE_APP_ROLE_INITIATOR" "nc_eRole responder_config = NATIVE_APP_ROLE_RESPONDER"
  by (simp_all add: initiator_config_def responder_config_def InitializeNativeAppConfig_def)

lemma initiator_can_assign: "can_assign initiator_config"
proof -
  have "inet_pton4 ''10.0.0.1''" by code_simp
  moreover have "IsNativeAppPeerToken ''hub''" "IsNativeAppPeerToken ''aes256-sha256-modp2048''"
    "IsNativeAppPeerToken ''aes256gcm16''" by code_simp+
  ultimately show ?thesis using config_wf(1)
    by (simp add: can_assign_def IsNativeAppAddressValid_def IsNativeAppPeerToken_def initiator_texts cstr_Cons)
qed

definition peer_world :: "peer_event list \<Rightarrow> bytes \<Rightarrow> PeerWorld" where
  "peer_world evs bs = \<lparr>pe_Table = zero_table\<lparr>pt_uiSelectedIndex := UINT32_MAX\<rparr>,
     pe_pcError = [], pe_trace = evs, pe_in = bs, pe_out = [], pe_open = 1, pe_bound = None, pe_target = None,
     pe_waits = [], pe_notes = []\<rparr>"

lemma peer_world_table:
  "table_wf (pe_Table (peer_world evs bs))" "pt_uiCount (pe_Table (peer_world evs bs)) = 0"
  "length (pt_aPeers (pe_Table (peer_world evs bs))) = NATIVE_APP_PEER_CAPACITY"
  "pe_trace (peer_world evs bs) = evs" "pe_in (peer_world evs bs) = bs" "pe_out (peer_world evs bs) = []"
  by (simp_all add: table_wf_def peer_world_def zero_table_def)

definition request_text :: string where
  "request_text = ''RCST/1 REGISTER 10.0.0.2''"

definition request_events :: "peer_event list" where
  "request_events = Accepted (SockIpv4 (map char_of [10::nat, 0, 0, 2]) 40000) (request_text @ [newline]) # CallOk #
     receiving (length request_text + 1) @ [Transferred NATIVE_APP_PEER_MESSAGE_LENGTH]"

definition assignment_events :: "peer_event list" where
  "assignment_events = [CallOk, CallOk, CallOk, CallOk, Connected, CallOk, Transferred NATIVE_APP_PEER_MESSAGE_LENGTH] @
     receiving (length (assign_text initiator_config 1 1)) @ []"

lemma request_accepted:
  "\<exists>w'. AcceptNativeAppPeerConnection True True initiator_config n (peer_world (request_events @ evs) []) =
    ((Some 0, w'), IPSEC_OK) \<and> pe_trace w' = evs"
proof -
  have r: "registration_address (SockIpv4 (map char_of [10::nat, 0, 0, 2]) 40000) request_text = Some ''10.0.0.2''"
    by code_simp
  have q: "newline \<notin> set request_text" "length request_text + 1 < NATIVE_APP_PEER_MESSAGE_LENGTH" by code_simp+
  note c = accept_completes [OF initiator_can_assign config_roles(1), of "peer_world (request_events @ evs) []"
      "SockIpv4 (map char_of [10::nat, 0, 0, 2]) 40000" request_text evs "''10.0.0.2''" n]
  show ?thesis using c q r
    by (simp add: peer_world_table request_events_def strlen_def cstr_Cons)
qed

lemma valid_addresses:
  "BuildNativeAppSocketAddress (nc_acLocalAddress responder_config) 0 = Some (SockIpv4 (map char_of [10::nat, 0, 0, 2]) 0)"
  "BuildNativeAppSocketAddress (nc_acPeerServerAddress responder_config) (nc_uiPeerPort responder_config) =
    Some (SockIpv4 (map char_of [10::nat, 0, 0, 1]) 39002)"
  "BuildNativeAppSocketAddress (nc_acPeerServerAddress initiator_config) (nc_uiPeerPort initiator_config) =
    Some (SockIpv4 (map char_of [10::nat, 0, 0, 1]) 39002)"
proof -
  have v: "inet_pton4_value ''10.0.0.2'' = Some (map char_of [10::nat, 0, 0, 2])"
    "inet_pton4_value ''10.0.0.1'' = Some (map char_of [10::nat, 0, 0, 1])" by code_simp+
  have p: "nc_uiPeerPort responder_config = 39002" "nc_uiPeerPort initiator_config = 39002"
    by (simp_all add: responder_config_def initiator_config_def InitializeNativeAppConfig_def)
  show "BuildNativeAppSocketAddress (nc_acLocalAddress responder_config) 0 = Some (SockIpv4 (map char_of [10::nat, 0, 0, 2]) 0)"
    unfolding BuildNativeAppSocketAddress_def responder_texts v by simp
  show "BuildNativeAppSocketAddress (nc_acPeerServerAddress responder_config) (nc_uiPeerPort responder_config) =
    Some (SockIpv4 (map char_of [10::nat, 0, 0, 1]) 39002)"
    unfolding BuildNativeAppSocketAddress_def responder_texts v p by simp
  show "BuildNativeAppSocketAddress (nc_acPeerServerAddress initiator_config) (nc_uiPeerPort initiator_config) =
    Some (SockIpv4 (map char_of [10::nat, 0, 0, 1]) 39002)"
    unfolding BuildNativeAppSocketAddress_def initiator_texts v p by simp
qed

theorem registration_agreement_witness:
  "\<exists>v' w'. AcceptNativeAppPeerConnection True True initiator_config 0 (peer_world request_events []) = ((Some 0, v'), IPSEC_OK) \<and>
    RegisterNativeAppPeer True responder_config 0 (peer_world assignment_events (pe_out v')) = ((Some 0, w'), IPSEC_OK) \<and>
    agrees (pt_aPeers (pe_Table v') ! 0) (pt_aPeers (pe_Table w') ! 0)"
proof -
  obtain v' where v: "AcceptNativeAppPeerConnection True True initiator_config 0 (peer_world request_events []) = ((Some 0, v'), IPSEC_OK)"
    using request_accepted [of 0 "[]"] by auto
  from accept_connection_props [OF v peer_world_table(1) config_wf(1)]
  have out: "pe_out v' = assign_text initiator_config 1 1"
    by (auto simp: assigned_def Let_def peer_world_table)
  define w where "w = peer_world assignment_events (pe_out v')"
  have "\<exists>w'. RegisterNativeAppPeer True responder_config 0 w = ((Some (pt_uiCount (pe_Table w)), w'), IPSEC_OK) \<and> pe_trace w' = []"
    by (rule register_completes [OF initiator_can_assign config_wf(2) _ _ _ _ config_roles(2) _ valid_addresses(1,2)])
      (simp_all add: w_def peer_world_table out assignment_events_def)
  then obtain w' where w: "RegisterNativeAppPeer True responder_config 0 w = ((Some 0, w'), IPSEC_OK)"
    by (auto simp: w_def peer_world_table)
  have count: "pt_uiCount (pe_Table w) < NATIVE_APP_PEER_CAPACITY" "length (pt_aPeers (pe_Table w)) = NATIVE_APP_PEER_CAPACITY"
    "pe_out v' = pe_out (peer_world request_events []) @ pe_in w"
    by (simp_all add: w_def peer_world_table)
  from registration_agreement [OF initiator_can_assign peer_world_table(1) v config_wf(2) config_roles(2) count w]
  have "agrees (pt_aPeers (pe_Table v') ! 0) (pt_aPeers (pe_Table w') ! 0)" by (auto simp: Let_def)
  then show ?thesis using v w unfolding w_def by blast
qed

theorem AcceptNativeAppPeer_table_witness:
  "\<exists>w'. AcceptNativeAppPeer True initiator_config 0
      (peer_world ([CallOk, CallOk, CallOk, CallOk, PollFlags POLLIN] @ request_events) []) = ((Some 0, w'), IPSEC_OK) \<and>
    FindNativeAppPeer (Some (pe_Table w')) (Some ''rcst-1-1'') = (Some (pe_Table w'), Some 0)"
proof -
  define w where "w = peer_world ([CallOk, CallOk, CallOk, CallOk, PollFlags POLLIN] @ request_events) []"
  define w1 where "w1 = (peer_world request_events [])\<lparr>pe_open := 2, pe_bound := Some (SockIpv4 (map char_of [10::nat, 0, 0, 1]) 39002),
     pe_waits := [GetNativeAppPollTimeout (nc_uiTimeoutMs initiator_config)]\<rparr>"
  have q: "newline \<notin> set request_text" "length request_text + 1 < NATIVE_APP_PEER_MESSAGE_LENGTH" by code_simp+
  have r: "registration_address (SockIpv4 (map char_of [10::nat, 0, 0, 2]) 40000) request_text = Some ''10.0.0.2''"
    by code_simp
  have "pe_Table w1 = pe_Table (peer_world request_events [])" "pe_trace w1 = request_events"
    by (simp_all add: w1_def peer_world_table)
  then obtain w2 where w2: "AcceptNativeAppPeerConnection True True initiator_config 0 w1 = ((Some 0, w2), IPSEC_OK)"
    using accept_completes [OF initiator_can_assign config_roles(1) _ _ _ q r, of w1 "[]" 0]
    by (auto simp: peer_world_table request_events_def strlen_def cstr_Cons)
  have e: "AcceptNativeAppPeer True initiator_config 0 w = ((Some 0, sys_close_socket w2), IPSEC_OK)"
  proof -
    have "OpenNativeAppServerSocket initiator_config 0 w = (True, (peer_world (PollFlags POLLIN # request_events) [])
        \<lparr>pe_open := 2, pe_bound := Some (SockIpv4 (map char_of [10::nat, 0, 0, 1]) 39002)\<rparr>)"
      unfolding OpenNativeAppServerSocket_def valid_addresses
      by (simp add: sys_open_socket_def sys_bind_def sys_call_def peer_next_def w_def peer_world_def)
    moreover have "WaitNativeAppSocket POLLIN (nc_uiTimeoutMs initiator_config) 0 ((peer_world (PollFlags POLLIN # request_events) [])
        \<lparr>pe_open := 2, pe_bound := Some (SockIpv4 (map char_of [10::nat, 0, 0, 1]) 39002)\<rparr>) = (w1, IPSEC_OK)"
      using wait_ready [of "(peer_world (PollFlags POLLIN # request_events) [])
        \<lparr>pe_open := 2, pe_bound := Some (SockIpv4 (map char_of [10::nat, 0, 0, 1]) 39002)\<rparr>" request_events]
      by (simp add: w1_def peer_world_def)
    ultimately show ?thesis using w2 by (simp add: AcceptNativeAppPeer_def)
  qed
  have wf: "table_wf (pe_Table w)" by (simp add: w_def peer_world_table)
  have name: "peer_name 0 = ''rcst-1-1''" by code_simp
  have "FindNativeAppPeer (Some (pe_Table (sys_close_socket w2))) (Some ''rcst-1-1'') =
      (Some (pe_Table (sys_close_socket w2)), Some 0)"
    using AcceptNativeAppPeer_table [OF wf config_wf(1) e] name by (auto simp: Let_def w_def peer_world_table)
  then show ?thesis using e unfolding w_def by blast
qed


end
