(* ===== verification/ViciCredential.thy ===== *)
theory ViciCredential
  imports ViciSa
begin

section \<open>Credentials (\<open>ipsec/vici/vici_credential.c\<close>)\<close>

text \<open>
  Validation of a pre-shared key, the \<open>load-shared\<close> request that hands it to the daemon, and
  \<open>clear-creds\<close>.  The key is bytes with a length; the owners are a string list view.
\<close>

abbreviation IPSEC_PSK_MAX_LENGTH :: nat where "IPSEC_PSK_MAX_LENGTH \<equiv> 65535"
abbreviation IPSEC_PSK_MAX_OWNERS :: nat where "IPSEC_PSK_MAX_OWNERS \<equiv> 32"
abbreviation sizeof_IpsecPsk :: nat where "sizeof_IpsecPsk \<equiv> 48"

record IpsecPsk =
  pk_uiStructSize :: nat
  pk_pcId :: "string option"
  pk_pucData :: "bytes option"
  pk_Owners :: IpsecStringListView

definition valid_psk_owner :: "string option \<Rightarrow> bool" where
  "valid_psk_owner item =
     (case item of
        None \<Rightarrow> False
      | Some owner \<Rightarrow>
          let zLength = strnlen owner (UINT16_MAX + 1) in \<not> (zLength = 0 \<or> UINT16_MAX < zLength))"

definition ValidateIpsecPsk :: "IpsecPsk option \<Rightarrow> IpsecError" where
  "ValidateIpsecPsk pPsk =
     (case pPsk of
        None \<Rightarrow> IPSEC_ERR_INVALID_ARGUMENT
      | Some psk \<Rightarrow>
          if sizeof_IpsecPsk \<noteq> pk_uiStructSize psk \<or> pk_pucData psk = None \<or>
             length (the (pk_pucData psk)) = 0 \<or> IPSEC_PSK_MAX_LENGTH < length (the (pk_pucData psk)) \<or>
             pk_Owners psk = None \<or> IPSEC_PSK_MAX_OWNERS < length (view_items (pk_Owners psk))
          then IPSEC_ERR_INVALID_ARGUMENT
          else
            case pk_pcId psk of
              Some pcId \<Rightarrow>
                let zLength = strnlen pcId (UINT8_MAX + 1) in
                if zLength = 0 \<or> UINT8_MAX < zLength then IPSEC_ERR_INVALID_ARGUMENT else IPSEC_OK
            | None \<Rightarrow>
                if list_all valid_psk_owner (view_items (pk_Owners psk)) then IPSEC_OK
                else IPSEC_ERR_INVALID_ARGUMENT)"

definition psk_steps ::
  "(nat \<Rightarrow> bool) \<Rightarrow> IpsecPsk \<Rightarrow> (ViciBuffer \<Rightarrow> ViciBuffer outcome) list" where
  "psk_steps mem psk =
     (if pk_pcId psk \<noteq> None then [AddViciKeyValueString mem (Some ''id'') (pk_pcId psk)] else []) @
     [AddViciKeyValueString mem (Some ''type'') (Some ''IKE''),
      AddViciKeyValue mem (Some ''data'') (the (pk_pucData psk)),
      AddViciListStart mem (Some ''owners'')] @
     list_items mem (view_items (pk_Owners psk)) @
     [AddViciListEnd mem]"

text \<open>The message is local: it is destroyed on every path.\<close>

definition AddIpsecPsk :: "IpsecPsk option \<Rightarrow> Ipsec \<Rightarrow> Ipsec outcome" where
  "AddIpsecPsk pPsk w =
     and_then (w, ValidateIpsecPsk pPsk) (\<lambda>w.
       let psk = the pPsk;
           (mem, w) = next_mem w;
           (Message, eError) =
             and_then (InitializeViciBuffer mem (u32 (length (the (pk_pucData psk)) + 256)) True zero_buffer)
               (run_steps (psk_steps mem psk))
       in and_then (w, eError) (\<lambda>w.
            let ((_, w), eError) = ExecuteViciCommand (Some ''load-shared'') (Some Message)
                  None None None ((), zero_result) w
            in (w, eError)))"

definition ClearIpsecCredentials :: "Ipsec \<Rightarrow> Ipsec outcome" where
  "ClearIpsecCredentials w =
     (let ((Message, w), eError) = empty_request w
      in and_then (w, eError) (\<lambda>w.
           let ((_, w), eError) = ExecuteViciCommand (Some ''clear-creds'') (Some Message)
                 None None None ((), zero_result) w
           in (w, eError)))"

subsection \<open>The request document\<close>

definition psk_doc :: "IpsecPsk \<Rightarrow> vici_item list" where
  "psk_doc psk =
     (case pk_pcId psk of None \<Rightarrow> [] | Some pcId \<Rightarrow> [KeyValue ''id'' (cstr pcId)]) @
     [KeyValue ''type'' ''IKE'', KeyValue ''data'' (the (pk_pucData psk)),
      ValueList ''owners'' (view_texts (pk_Owners psk))]"

text \<open>What validation promises: with an identity the owners are not looked at.\<close>

definition psk_ok :: "IpsecPsk \<Rightarrow> bool" where
  "psk_ok psk \<longleftrightarrow>
     pk_uiStructSize psk = sizeof_IpsecPsk \<and>
     (\<exists>d. pk_pucData psk = Some d \<and> d \<noteq> [] \<and> length d \<le> IPSEC_PSK_MAX_LENGTH) \<and>
     (\<exists>items. pk_Owners psk = Some items \<and> length items \<le> IPSEC_PSK_MAX_OWNERS \<and>
        (pk_pcId psk = None \<longrightarrow>
          (\<forall>i \<in> set items. \<exists>t. i = Some t \<and> cstr t \<noteq> [] \<and> strlen t \<le> UINT16_MAX))) \<and>
     (\<forall>t. pk_pcId psk = Some t \<longrightarrow> cstr t \<noteq> [] \<and> strlen t \<le> UINT8_MAX)"

lemma valid_psk_owner_iff:
  "valid_psk_owner i \<longleftrightarrow> (\<exists>t. i = Some t \<and> cstr t \<noteq> [] \<and> strlen t \<le> UINT16_MAX)"
  by (auto simp: valid_psk_owner_def Let_def strnlen_min strlen_def min_def split: option.split)

lemma ValidateIpsecPsk_iff: "ValidateIpsecPsk (Some psk) = IPSEC_OK \<longleftrightarrow> psk_ok psk"
proof -
  have len: "strnlen t (UINT8_MAX + 1) = 0 \<or> UINT8_MAX < strnlen t (UINT8_MAX + 1) \<longleftrightarrow>
      \<not> (cstr t \<noteq> [] \<and> strlen t \<le> UINT8_MAX)" for t
    by (auto simp: strnlen_min strlen_def min_def)
  show ?thesis
    unfolding ValidateIpsecPsk_def psk_ok_def Let_def len
    by (auto simp: view_items_def list_all_iff valid_psk_owner_iff not_less split: option.split if_splits)
qed

text \<open>Owners that are all strings, which validation checks only for a key without identity.\<close>

definition owners_ok :: "IpsecPsk \<Rightarrow> bool" where
  "owners_ok psk \<longleftrightarrow> (\<forall>i \<in> set (view_items (pk_Owners psk)). \<exists>t. i = Some t \<and> strlen t \<le> UINT16_MAX)"

lemma emits_psk:
  assumes ok: "psk_ok psk" and owners: "owners_ok psk"
  shows "emits mem (run_steps (psk_steps mem psk)) (encode_doc (psk_doc psk))"
proof -
  obtain d where d: "pk_pucData psk = Some d" "length d \<le> UINT16_MAX"
    using ok by (auto simp: psk_ok_def)
  obtain items where it: "pk_Owners psk = Some items" using ok by (auto simp: psk_ok_def)
  have names: "vici_name ''id''" "vici_name ''type''" "vici_name ''data''" "vici_name ''owners''"
    by code_simp+
  define ids where "ids = (case pk_pcId psk of None \<Rightarrow> [] | Some t \<Rightarrow> [enc 0 [KeyValue ''id'' (cstr t)]])"
  have id: "list_all2 (emits mem)
      (if pk_pcId psk \<noteq> None then [AddViciKeyValueString mem (Some ''id'') (pk_pcId psk)] else []) ids"
  proof (cases "pk_pcId psk")
    case (Some t)
    then have "strlen t \<le> UINT16_MAX" using ok by (auto simp: psk_ok_def)
    then show ?thesis using Some emits_KeyValueString [OF names(1), of t mem]
      by (simp add: ids_def enc_simps)
  qed (simp add: ids_def)
  have items: "list_all2 (emits mem) (list_items mem items)
      (map (\<lambda>i. element_byte VICI_ELEMENT_LIST_ITEM @ encode_value (item_text i)) items)"
    by (rule emits_list_items) (use owners it in \<open>auto simp: owners_ok_def view_items_def\<close>)
  let ?head = "if pk_pcId psk \<noteq> None then [AddViciKeyValueString mem (Some ''id'') (pk_pcId psk)] else []"
  let ?fs = "[AddViciKeyValueString mem (Some ''type'') (Some ''IKE''), AddViciKeyValue mem (Some ''data'') d,
      AddViciListStart mem (Some ''owners'')] @ list_items mem items @ [AddViciListEnd mem]"
  let ?bs = "[enc 0 [KeyValue ''type'' ''IKE''], enc 0 [KeyValue ''data'' d],
      element_byte VICI_ELEMENT_LIST_START @ encode_name ''owners''] @
      map (\<lambda>i. element_byte VICI_ELEMENT_LIST_ITEM @ encode_value (item_text i)) items @
      [element_byte VICI_ELEMENT_LIST_END]"
  have "list_all2 (emits mem) ?fs ?bs"
    using items emits_literal [OF names(2), of "''IKE''" mem] emits_KeyValue [OF names(3) d(2), of mem]
      emits_ListStart [OF names(4), of mem] emits_ListEnd [of mem]
    by (auto simp: enc_simps intro!: list_all2_appendI)
  from list_all2_appendI [OF id this]
  have "list_all2 (emits mem) (psk_steps mem psk) (ids @ ?bs)"
    by (simp only: psk_steps_def it d(1) view_items_def option.case option.sel)
  from emits_run_steps [OF this] show ?thesis
    by (cases "pk_pcId psk")
      (simp_all add: encode_doc_enc psk_doc_def enc_simps d it view_texts_def view_items_def comp_def ids_def)
qed

lemma AddIpsecPsk_props:
  assumes idle: "idle w" and own: "owners_ok psk" and a: "AddIpsecPsk (Some psk) w = (w', e)"
  shows "idle w' \<and> (e = IPSEC_OK \<longrightarrow> psk_ok psk \<and>
       os_out w' = os_out w @ frame (char_of (packet_code VICI_PACKET_COMMAND_REQUEST) #
         encode_name ''load-shared'' @ encode_doc (psk_doc psk))) \<and>
     (\<not> psk_ok psk \<longrightarrow> w' = w \<and> e = IPSEC_ERR_INVALID_ARGUMENT)"
proof (cases "psk_ok psk")
  case False
  then have "ValidateIpsecPsk (Some psk) = IPSEC_ERR_INVALID_ARGUMENT"
    using ValidateIpsecPsk_iff [of psk]
    by (auto simp: ValidateIpsecPsk_def Let_def split: if_splits option.splits)
  then show ?thesis using a idle False by (auto simp: AddIpsecPsk_def)
next
  case True
  then have v: "ValidateIpsecPsk (Some psk) = IPSEC_OK" by (simp add: ValidateIpsecPsk_iff)
  obtain d where d: "pk_pucData psk = Some d" "length d \<le> UINT16_MAX"
    using True by (auto simp: psk_ok_def)
  obtain mem w1 where m: "next_mem w = (mem, w1)" by fastforce
  have i1: "idle w1" using idle_next_mem [OF m] idle by simp
  have cap: "u32 (length d + 256) \<le> VICI_MAX_SEGMENT_LENGTH" using d(2) by simp
  obtain b0 e0 where b0: "InitializeViciBuffer mem (u32 (length d + 256)) True zero_buffer = (b0, e0)"
    by fastforce
  note ini = InitializeViciBuffer_cases [OF cap b0]
  obtain b1 e1 where b1: "run_steps (psk_steps mem psk) b0 = (b1, e1)" by fastforce
  note em = emitsD [OF emits_psk [OF True own] ini(1) b1]
  obtain s' r' w2 e2 where x: "ExecuteViciCommand (Some ''load-shared'') (Some b1) None None None
      ((), zero_result) w1 = (((s', r'), w2), e2)" by (metis prod.exhaust)
  have n: "vici_name ''load-shared''" "ev_ok None" by code_simp+
  have res: "(w', e) = (if e0 = IPSEC_OK then if e1 = IPSEC_OK then (w2, e2) else (w1, e1) else (w1, e0))"
    using a v m b0 b1 d x by (auto simp: AddIpsecPsk_def and_then_def)
  show ?thesis
    using ExecuteViciCommand_props [OF i1 n(2,1) x] res em(5) ini(2) next_mem_props [OF m] i1 True
    by (auto simp: registration_def named_packet_def split: if_splits)
qed

subsection \<open>Properties\<close>



end
