(* ===== verification/AppLifecycle.thy ===== *)
theory AppLifecycle
  imports AppConfig ViciCredential XfrmQueries
begin

section \<open>Lifecycle of a connection (\<open>app/lifecycle.c\<close>)\<close>

text \<open>
  The application works on the library, its own output and its stop flag.  The flag is set by a
  signal handler: a \<open>StopSignal\<close> at the head of the trace when the flag is read stands for a signal
  that arrived since the last read.  The files of the application are a map from their names.
  The pointers to the context, the configuration and the options are not NULL.
\<close>

record NativeApp =
  ap_ipsec :: Ipsec
  ap_stdout :: string
  ap_stderr :: string
  ap_stop :: bool
  ap_files :: "string \<Rightarrow> AppFile option"

record NativeAppLoopOptions =
  lo_uiCount :: nat
  lo_uiDelayMs :: nat
  lo_bContinueOnError :: bool
  lo_bClearCredentials :: bool

definition on_ipsec :: "(Ipsec \<Rightarrow> Ipsec outcome) \<Rightarrow> NativeApp \<Rightarrow> NativeApp outcome" where
  "on_ipsec f a = (let (w, eError) = f (ap_ipsec a) in (a\<lparr>ap_ipsec := w\<rparr>, eError))"

definition app_printf :: "string \<Rightarrow> NativeApp \<Rightarrow> NativeApp" where
  "app_printf text a = a\<lparr>ap_stdout := ap_stdout a @ text\<rparr>"

definition app_eprintf :: "string \<Rightarrow> NativeApp \<Rightarrow> NativeApp" where
  "app_eprintf text a = a\<lparr>ap_stderr := ap_stderr a @ text\<rparr>"

text \<open>The code keeps the first error of a sequence that goes on after a failure.\<close>

definition keep_first :: "IpsecError \<Rightarrow> IpsecError \<Rightarrow> IpsecError" where
  "keep_first eFirst eError = (if eFirst = IPSEC_OK \<and> eError \<noteq> IPSEC_OK then eError else eFirst)"

subsection \<open>The stop flag and pauses\<close>

definition RequestNativeAppStop :: "NativeApp \<Rightarrow> NativeApp" where
  "RequestNativeAppStop a = a\<lparr>ap_stop := True\<rparr>"

definition ResetNativeAppStopRequest :: "NativeApp \<Rightarrow> NativeApp" where
  "ResetNativeAppStopRequest a = a\<lparr>ap_stop := False\<rparr>"

definition IsNativeAppStopRequested :: "NativeApp \<Rightarrow> bool \<times> NativeApp" where
  "IsNativeAppStopRequested a =
     (case os_trace (ap_ipsec a) of
        StopSignal # evs \<Rightarrow>
          (True, RequestNativeAppStop (a\<lparr>ap_ipsec := (ap_ipsec a)\<lparr>os_trace := evs\<rparr>\<rparr>))
      | _ \<Rightarrow> (ap_stop a, a))"

abbreviation app_trace :: "NativeApp \<Rightarrow> os_event list" where
  "app_trace a \<equiv> os_trace (ap_ipsec a)"

lemma stop_trace:
  "IsNativeAppStopRequested a = (b, a') \<Longrightarrow> length (app_trace a') \<le> length (app_trace a)"
  by (auto simp: IsNativeAppStopRequested_def RequestNativeAppStop_def split: list.splits os_event.splits)

text \<open>\<open>nanosleep\<close> leaves what remains of the delay; an interrupted one is resumed until a stop is
  requested.\<close>

function nanosleep_loop :: "NativeApp \<Rightarrow> NativeApp" where
  "nanosleep_loop a =
     (let (ev, w) = next_event (ap_ipsec a); a' = a\<lparr>ap_ipsec := w\<rparr> in
      if ev = Some (SleepErrno EINTR) then
        (let (bStop, a'') = IsNativeAppStopRequested a' in
         if bStop then a'' else nanosleep_loop a'')
      else a')"
  by pat_completeness auto
termination
proof (relation "measure (\<lambda>a. length (app_trace a))", goal_cases)
  case (2 a x ev w a' y b a'')
  then have "length (os_trace w) < length (app_trace a)"
    using next_event_trace [of "ap_ipsec a" ev w] by simp
  then show ?case using 2 stop_trace [of a' b a''] by simp
qed simp

declare nanosleep_loop.simps [simp del]

definition SleepNativeApp :: "nat \<Rightarrow> NativeApp \<Rightarrow> NativeApp" where
  "SleepNativeApp uiMilliseconds a =
     nanosleep_loop (a\<lparr>ap_ipsec := (ap_ipsec a)\<lparr>os_waits := os_waits (ap_ipsec a) @ [uiMilliseconds]\<rparr>\<rparr>)"

subsection \<open>Loading, starting and stopping\<close>

definition LoadNativeAppCredential ::
  "(nat \<Rightarrow> bool) \<Rightarrow> NativeAppConfig \<Rightarrow> NativeApp \<Rightarrow> NativeApp outcome" where
  "LoadNativeAppCredential mem c a =
     (case ReadNativeAppSecret (mem (NATIVE_APP_PSK_MAX_LENGTH + 1)) (ap_files a (cstr (nc_acPskFile c))) of
        Inl e \<Rightarrow> (a, e)
      | Inr secret \<Rightarrow>
          on_ipsec (AddIpsecPsk (Some
            \<lparr>pk_uiStructSize = sizeof_IpsecPsk,
             pk_pcId = Some (if nc_acCredentialId c ! 0 \<noteq> NUL then nc_acCredentialId c
                             else nc_acConnectionName c),
             pk_pucData = Some secret,
             pk_Owners = Some [Some (nc_acLocalId c), Some (nc_acRemoteId c)]\<rparr>)) a)"

definition LoadNativeAppResources ::
  "(nat \<Rightarrow> bool) \<Rightarrow> NativeAppConfig \<Rightarrow> IpsecConnectionConfig \<Rightarrow> NativeApp \<Rightarrow> NativeApp outcome" where
  "LoadNativeAppResources mem c Connection a =
     (let (a, eError) = and_then (on_ipsec (AddIpsecConnection (Some Connection)) a)
            (LoadNativeAppCredential mem c)
      in if eError \<noteq> IPSEC_OK
         then (fst (on_ipsec (RemoveIpsecConnection (Some (nc_acConnectionName c))) a), eError)
         else (a, eError))"

definition wait_control :: "NativeAppConfig \<Rightarrow> IpsecControlOptions option" where
  "wait_control c = Some \<lparr>co_uiStructSize = sizeof_IpsecControlOptions,
     co_eMode = IPSEC_CONTROL_WAIT, co_uiTimeoutMs = nc_uiTimeoutMs c\<rparr>"

definition StartNativeAppConnection ::
  "(nat \<Rightarrow> bool) \<Rightarrow> NativeAppConfig \<Rightarrow> NativeApp \<Rightarrow> NativeApp outcome" where
  "StartNativeAppConnection mem c a =
     (let Ike = Some (nc_acConnectionName c); Child = Some (nc_acChildName c); Control = wait_control c;
          (a, eError) =
            (if nc_eRole c = NATIVE_APP_ROLE_RESPONDER
             then on_ipsec (WaitIpsecChildInstalled mem Child (nc_uiTimeoutMs c)) a
             else if nc_bChildlessIke c
             then run_steps
               [on_ipsec (InitiateIpsecIke Ike Control),
                on_ipsec (WaitIpsecIkeEstablished mem Ike (nc_uiTimeoutMs c)),
                on_ipsec (InitiateIpsecChild Child Control)] a
             else on_ipsec (InitiateIpsecChild Child Control) a)
      in if eError = IPSEC_OK \<and> nc_eRole c = NATIVE_APP_ROLE_INITIATOR
         then on_ipsec (WaitIpsecChildInstalled mem Child (nc_uiTimeoutMs c)) a
         else (a, eError))"

definition StopNativeAppConnection ::
  "NativeAppConfig \<Rightarrow> bool \<Rightarrow> bool \<Rightarrow> NativeApp \<Rightarrow> NativeApp outcome" where
  "StopNativeAppConnection c bRemoveConnection bClearCredentials a =
     (let (a, eFirstError) = on_ipsec (TerminateIpsecIke (Some (nc_acConnectionName c)) (wait_control c)) a;
          (a, eFirstError) =
            (if bRemoveConnection
             then let (a, eError) = on_ipsec (RemoveIpsecConnection (Some (nc_acConnectionName c))) a
                  in (a, keep_first eFirstError eError)
             else (a, eFirstError))
      in if bClearCredentials
         then let (a, eError) = on_ipsec ClearIpsecCredentials a in (a, keep_first eFirstError eError)
         else (a, eFirstError))"

subsection \<open>What the daemon and the kernel have\<close>

type_synonym installed =
  "IpsecIkeSaInfo list \<times> IpsecChildSaInfo list \<times> IpsecXfrmStateInfo list \<times> IpsecXfrmPolicyInfo list"

text \<open>The four queries of \<open>VerifyNativeAppInstalled\<close> and of the wait; the first error ends them.\<close>

definition query_installed :: "(nat \<Rightarrow> bool) \<Rightarrow> Ipsec \<Rightarrow> (installed \<times> Ipsec) outcome" where
  "query_installed mem w =
     (let ((IkeList, w), eError) = GetIpsecIkeSas mem w in
      if eError \<noteq> IPSEC_OK then (((IkeList, [], [], []), w), eError)
      else
        let ((ChildList, w), eError) = GetIpsecChildSas mem w in
        if eError \<noteq> IPSEC_OK then (((IkeList, ChildList, [], []), w), eError)
        else
          let ((w, StateList), eError) = GetIpsecXfrmStates mem w in
          if eError \<noteq> IPSEC_OK then (((IkeList, ChildList, StateList, []), w), eError)
          else
            let ((w, PolicyList), eError) = GetIpsecXfrmPolicies mem w in
            (((IkeList, ChildList, StateList, PolicyList), w), eError))"

definition count_reqid :: "('a \<Rightarrow> nat) \<Rightarrow> nat \<Rightarrow> 'a list \<Rightarrow> nat" where
  "count_reqid reqid uiReqid items =
     u32 (length (filter (\<lambda>i. uiReqid \<noteq> 0 \<and> uiReqid = reqid i) items))"

definition installed_reqid :: "string \<Rightarrow> IpsecChildSaInfo list \<Rightarrow> nat option" where
  "installed_reqid name items =
     map_option cs_uiReqid
       (find (\<lambda>i. strcmp_eq name (cs_acName i) \<and> strcmp_eq ''INSTALLED'' (cs_acState i)) items)"

definition verified_text :: "nat \<Rightarrow> nat \<Rightarrow> nat \<Rightarrow> string" where
  "verified_text uiReqid uiStateCount uiPolicyCount =
     ''verified reqid='' @ dec uiReqid @ '' xfrm_states='' @ dec uiStateCount @
     '' xfrm_policies='' @ dec uiPolicyCount @ [newline]"

definition VerifyNativeAppInstalled ::
  "(nat \<Rightarrow> bool) \<Rightarrow> NativeAppConfig \<Rightarrow> NativeApp \<Rightarrow> (NativeApp \<times> nat) outcome" where
  "VerifyNativeAppInstalled mem c a =
     (let (((IkeList, ChildList, StateList, PolicyList), w), eError) = query_installed mem (ap_ipsec a);
          a = a\<lparr>ap_ipsec := w\<rparr>
      in if eError \<noteq> IPSEC_OK then ((a, 0), eError)
         else
           let bIkeFound = ike_established (nc_acConnectionName c) IkeList;
               Child = installed_reqid (nc_acChildName c) ChildList;
               uiReqid = (case Child of None \<Rightarrow> 0 | Some r \<Rightarrow> r);
               uiStateCount = count_reqid xs_uiReqid uiReqid StateList;
               uiPolicyCount = count_reqid xp_uiReqid uiReqid PolicyList
           in if \<not> bIkeFound \<or> Child = None \<or> uiStateCount = 0 \<or> uiPolicyCount = 0
              then ((a, 0), IPSEC_ERR_INTERNAL)
              else ((app_printf (verified_text uiReqid uiStateCount uiPolicyCount) a, uiReqid), IPSEC_OK))"

definition still_present :: "NativeAppConfig \<Rightarrow> nat \<Rightarrow> installed \<Rightarrow> bool" where
  "still_present c uiReqid found =
     (let (IkeList, ChildList, StateList, PolicyList) = found in
      list_ex (\<lambda>i. strcmp_eq (nc_acConnectionName c) (is_acName i)) IkeList \<or>
      list_ex (\<lambda>i. strcmp_eq (nc_acChildName c) (cs_acName i)) ChildList \<or>
      list_ex (\<lambda>i. uiReqid \<noteq> 0 \<and> uiReqid = xs_uiReqid i) StateList \<or>
      list_ex (\<lambda>i. uiReqid \<noteq> 0 \<and> uiReqid = xp_uiReqid i) PolicyList)"

subsection \<open>Waiting for the end of a connection\<close>

text \<open>A dump only consumes outcomes of the system.\<close>

lemma sendmsg_retry_trace:
  "sendmsg_retry fd data w = (r, w') \<Longrightarrow> length (os_trace w') \<le> length (os_trace w)"
proof (induction fd data w arbitrary: r w' rule: sendmsg_retry.induct)
  case (1 fd data w)
  then show ?case
    using sys_sendmsg_trace [of fd data w]
    by (fastforce simp: sendmsg_retry.simps [of fd data w] split: prod.splits if_splits)
qed

lemma dump_loop_trace:
  "length (os_trace (fst (fst (dump_loop fd q f n s)))) \<le> length (os_trace (fst s))"
proof (induction fd q f n s rule: dump_loop.induct)
  case (1 fd q f n w u)
  obtain w1 e1 where 2: "WaitNetlinkData fd w = (w1, e1)" by fastforce
  obtain r w2 where 3: "recvmsg_retry w1 = (r, w2)" by fastforce
  have le: "length (os_trace w2) \<le> length (os_trace w)" "length (os_trace w1) \<le> length (os_trace w)"
    using WaitNetlinkData_trace [OF 2] recvmsg_retry_trace [OF 3] by auto
  obtain u1 e2 c where 4: "(case r of Inl e \<Rightarrow> (u, MapNetlinkErrno e IPSEC_ERR_NETLINK_RECV, False)
      | Inr (nl_pid, data, trunc) \<Rightarrow> receive_datagram q f nl_pid data trunc u) = (u1, e2, c)"
    by (metis prod.exhaust)
  note IH = 1 [OF 2 [symmetric] refl _ 3 [symmetric] refl 4 [symmetric] refl refl refl refl]
  show ?case
    unfolding dump_loop.simps [of fd q f n w u] 2 3 4 Let_def prod.case using IH le by auto
qed

lemma ExecuteNetlinkDump_trace:
  "length (os_trace (fst (fst (ExecuteNetlinkDump p t pl n f s)))) \<le> length (os_trace (fst s))"
proof -
  have send: "length (os_trace (fst (SendNetlinkRequest fd h d w))) \<le> length (os_trace w)" for fd h d w
    using sendmsg_retry_trace by (auto simp: SendNetlinkRequest_def Let_def split: prod.split sum.split)
  have clock: "length (os_trace (snd (GetIpsecMonotonicMilliseconds w))) \<le> length (os_trace w)" for w
    using clock_trace(1) [of w] by (cases "GetIpsecMonotonicMilliseconds w") simp
  have pid: "length (os_trace (snd (sys_getpid w))) \<le> length (os_trace w)" for w
    using next_event_trace [of w]
    by (cases "next_event w") (auto simp: sys_getpid_def split: option.split os_event.split)
  have run: "length (os_trace (fst (fst (run_dump fd ty d f s)))) \<le> length (os_trace (fst s))" for fd ty d s
  proof -
    obtain w u where s: "s = (w, u)" by (cases s)
    obtain t1 w1 where 1: "GetIpsecMonotonicMilliseconds w = (t1, w1)" by fastforce
    obtain t2 w2 where 2: "sys_getpid w1 = (t2, w2)" by fastforce
    let ?q = "u32 t1 XOR u32 t2"
    obtain w3 e3 where 3: "SendNetlinkRequest fd (dump_request ty (length d) ?q)
        (d @ replicate (IPSEC_NETLINK_MAX_REQUEST_PAYLOAD - length d) NUL) w2 = (w3, e3)" by fastforce
    have "length (os_trace w3) \<le> length (os_trace w)"
      using clock [of w] pid [of w1] send [of fd "dump_request ty (length d) ?q"
        "d @ replicate (IPSEC_NETLINK_MAX_REQUEST_PAYLOAD - length d) NUL" w2] 1 2 3 by simp
    then show ?thesis
      using dump_loop_trace [of fd ?q f 0 "(w3, u)"]
      by (auto simp: run_dump_def s 1 2 3 Let_def ReceiveNetlinkDump_def)
  qed
  obtain w u where s: "s = (w, u)" by (cases s)
  obtain r w1 where 1: "sys_netlink_socket p w = (r, w1)" by fastforce
  obtain b w2 where 2: "sys_bind_netlink w1 = (b, w2)" by fastforce
  have "length (os_trace w1) \<le> length (os_trace w)"
    using 1 next_event_trace [of w]
    by (auto simp: sys_netlink_socket_def sys_socket_def Let_def split: prod.splits sum.splits
        option.splits os_event.splits if_splits)
  moreover have "length (os_trace w2) \<le> length (os_trace w1)"
    using 2 next_event_trace [of w1]
    by (auto simp: sys_bind_netlink_def split: prod.splits option.splits os_event.splits)
  ultimately have "length (os_trace (fst (fst (run_dump fd t d f (w2, u))))) \<le> length (os_trace w)"
    and "length (os_trace w2) \<le> length (os_trace w)" "length (os_trace w1) \<le> length (os_trace w)" for fd d
    using run [of fd t d "(w2, u)"] by simp_all
  then show ?thesis
    by (auto simp: ExecuteNetlinkDump_def s 1 2 Let_def sys_close_def case_prod_beta
        split: sum.split option.split)
qed

lemma LogIpsec_trace [simp]: "os_trace (LogIpsec l t w) = os_trace w"
  by (simp add: LogIpsec_def)

lemma GetIpsecXfrm_trace:
  "length (os_trace (fst (fst (GetIpsecXfrmStates mem w)))) \<le> length (os_trace w)"
  "length (os_trace (fst (fst (GetIpsecXfrmPolicies mem w)))) \<le> length (os_trace w)"
  unfolding GetIpsecXfrmStates_def GetIpsecXfrmPolicies_def
  by (auto simp: case_prod_beta Let_def
      intro: order_trans [OF ExecuteNetlinkDump_trace])

lemma query_installed_progress:
  assumes "query_installed mem w = ((found, w'), IPSEC_OK)"
  shows "length (os_trace w') < length (os_trace w)"
proof -
  obtain l1 w1 e1 where 1: "GetIpsecIkeSas mem w = ((l1, w1), e1)" by (metis prod.exhaust)
  obtain l2 w2 e2 where 2: "GetIpsecChildSas mem w1 = ((l2, w2), e2)" by (metis prod.exhaust)
  obtain l3 w3 e3 where 3: "GetIpsecXfrmStates mem w2 = ((w3, l3), e3)" by (metis prod.exhaust)
  obtain l4 w4 e4 where 4: "GetIpsecXfrmPolicies mem w3 = ((w4, l4), e4)" by (metis prod.exhaust)
  have ok: "e1 = IPSEC_OK" "e2 = IPSEC_OK" "w' = w4"
    using assms by (auto simp: query_installed_def 1 2 3 4 split: if_splits)
  then have "length (os_trace w1) < length (os_trace w)" "length (os_trace w2) < length (os_trace w1)"
    using Get_progress [of mem w l1 w1] Get_progress [of mem w1 _ w2 l2] 1 2 by blast+
  then show ?thesis
    using GetIpsecXfrm_trace(1) [of mem w2] GetIpsecXfrm_trace(2) [of mem w3] 3 4 ok(3) by simp
qed
text \<open>The loop ends: a round that goes on has used outcomes of the environment.  \<open>uiElapsed\<close> is a
  \<open>uint32_t\<close> and wraps when the timeout is within a pause of its limit.\<close>

lemma nanosleep_trace: "length (app_trace (nanosleep_loop a)) \<le> length (app_trace a)"
proof (induction a rule: nanosleep_loop.induct)
  case (1 a)
  obtain ev w where n: "next_event (ap_ipsec a) = (ev, w)" by fastforce
  obtain b a2 where s: "IsNativeAppStopRequested (a\<lparr>ap_ipsec := w\<rparr>) = (b, a2)" by fastforce
  have le: "length (os_trace w) \<le> length (app_trace a)" "length (app_trace a2) \<le> length (app_trace a)"
    using next_event_trace [OF n] stop_trace [OF s] by simp_all
  show ?case
    using 1 [OF n [symmetric] refl refl _ s [symmetric] refl] le
    by (subst nanosleep_loop.simps) (auto simp: n s Let_def)
qed

lemma SleepNativeApp_trace: "length (app_trace (SleepNativeApp t a)) \<le> length (app_trace a)"
  using nanosleep_trace [of "a\<lparr>ap_ipsec := (ap_ipsec a)\<lparr>os_waits := os_waits (ap_ipsec a) @ [t]\<rparr>\<rparr>"]
  by (simp add: SleepNativeApp_def)

lemma wait_round:
  assumes "(b, a1) = IsNativeAppStopRequested a"
    and "(q, IPSEC_OK) = query_installed mem (ap_ipsec a1)"
  shows "length (app_trace (SleepNativeApp t (a1\<lparr>ap_ipsec := snd q\<rparr>))) < length (app_trace a)"
  using stop_trace [OF assms(1) [symmetric]] query_installed_progress [of mem "ap_ipsec a1" "fst q" "snd q"]
    SleepNativeApp_trace [of t "a1\<lparr>ap_ipsec := snd q\<rparr>"] assms(2) by simp

function wait_removed_loop ::
  "(nat \<Rightarrow> bool) \<Rightarrow> NativeAppConfig \<Rightarrow> nat \<Rightarrow> nat \<Rightarrow> nat \<Rightarrow> NativeApp \<Rightarrow> NativeApp outcome" where
  "wait_removed_loop mem c uiReqid uiTimeoutMs uiElapsed a =
     (if uiTimeoutMs < uiElapsed then (a, IPSEC_ERR_VICI_TIMEOUT)
      else
        let (bStop, a1) = IsNativeAppStopRequested a in
        if bStop then (a1, IPSEC_ERR_VICI_TIMEOUT)
        else
          let (q, eError) = query_installed mem (ap_ipsec a1); a2 = a1\<lparr>ap_ipsec := snd q\<rparr> in
          if eError \<noteq> IPSEC_OK then (a2, eError)
          else if \<not> still_present c uiReqid (fst q) then (a2, IPSEC_OK)
          else wait_removed_loop mem c uiReqid uiTimeoutMs (u32 (uiElapsed + 100)) (SleepNativeApp 100 a2))"
  by pat_completeness auto
termination
  by (relation "measure (\<lambda>(mem, c, r, t, e, a). length (app_trace a))")
    (auto dest: wait_round)

declare wait_removed_loop.simps [simp del]

definition WaitNativeAppRemovedWithTimeout ::
  "(nat \<Rightarrow> bool) \<Rightarrow> NativeAppConfig \<Rightarrow> nat \<Rightarrow> nat \<Rightarrow> NativeApp \<Rightarrow> NativeApp outcome" where
  "WaitNativeAppRemovedWithTimeout mem c uiReqid uiTimeoutMs a =
     wait_removed_loop mem c uiReqid uiTimeoutMs 0 a"

definition WaitNativeAppRemoved ::
  "(nat \<Rightarrow> bool) \<Rightarrow> NativeAppConfig \<Rightarrow> nat \<Rightarrow> NativeApp \<Rightarrow> NativeApp outcome" where
  "WaitNativeAppRemoved mem c uiReqid a =
     WaitNativeAppRemovedWithTimeout mem c uiReqid (nc_uiTimeoutMs c) a"

subsection \<open>The loop command\<close>

definition loop_text :: "nat \<Rightarrow> nat \<Rightarrow> string \<Rightarrow> string" where
  "loop_text uiIteration uiCount what =
     ''loop '' @ dec uiIteration @ ''/'' @ dec uiCount @ '': '' @ what @ [newline]"

definition loop_cleanup ::
  "(nat \<Rightarrow> bool) \<Rightarrow> NativeAppConfig \<Rightarrow> nat \<Rightarrow> NativeApp outcome \<Rightarrow> NativeApp outcome" where
  "loop_cleanup mem c uiReqid r =
     (let (a, eError) = r;
          (a, eCleanup) = on_ipsec (TerminateIpsecIke (Some (nc_acConnectionName c)) (wait_control c)) a;
          eError = keep_first eError eCleanup;
          (a, eError) =
            (if eCleanup = IPSEC_OK
             then let (a, eCleanup) = WaitNativeAppRemoved mem c uiReqid a
                  in (a, keep_first eError eCleanup)
             else (a, eError));
          (a, eCleanup) = on_ipsec (RemoveIpsecConnection (Some (nc_acConnectionName c))) a
      in (a, keep_first eError eCleanup))"

definition loop_iteration ::
  "(nat \<Rightarrow> bool) \<Rightarrow> NativeAppConfig \<Rightarrow> IpsecConnectionConfig \<Rightarrow> nat \<Rightarrow> nat \<Rightarrow> NativeApp
   \<Rightarrow> NativeApp outcome" where
  "loop_iteration mem c Connection uiCount uiIteration a =
     (let a = app_printf (loop_text uiIteration uiCount ''load'') a;
          (a, eError) = on_ipsec (AddIpsecConnection (Some Connection)) a
      in if eError \<noteq> IPSEC_OK then (a, eError)
         else
           let (a, eError) = StartNativeAppConnection mem c a;
               ((a, uiReqid), eError) =
                 (if eError = IPSEC_OK then VerifyNativeAppInstalled mem c a else ((a, 0), eError))
           in loop_cleanup mem c uiReqid (a, eError))"

text \<open>The result of an iteration, printed and counted.\<close>

definition report_iteration ::
  "nat \<Rightarrow> nat \<Rightarrow> NativeApp outcome \<Rightarrow> nat \<times> IpsecError \<Rightarrow> NativeApp \<times> nat \<times> IpsecError" where
  "report_iteration uiCount uiIteration r s =
     (let (a, eError) = r; (uiPassed, eFirstError) = s in
      if eError = IPSEC_OK
      then (app_printf (loop_text uiIteration uiCount ''passed'') a, u32 (uiPassed + 1), eFirstError)
      else (app_eprintf (loop_text uiIteration uiCount (''failed: '' @ GetIpsecErrorString eError)) a,
            uiPassed, if eFirstError = IPSEC_OK then eError else eFirstError))"

text \<open>The loop counter is a \<open>uint32_t\<close>: with a count of \<open>UINT32_MAX\<close> its test is always true, and
  the loop runs until an iteration fails or a stop is requested.\<close>

partial_function (option) native_loop ::
  "(nat \<Rightarrow> bool) \<Rightarrow> NativeAppConfig \<Rightarrow> IpsecConnectionConfig \<Rightarrow> NativeAppLoopOptions \<Rightarrow> nat \<Rightarrow>
   NativeApp \<times> nat \<times> IpsecError \<Rightarrow> (NativeApp \<times> nat \<times> IpsecError) option" where
  "native_loop mem c Connection opts uiIteration s =
     (let (bStop, a) = IsNativeAppStopRequested (fst s) in
      if lo_uiCount opts < uiIteration then Some s
      else if bStop then Some (a, snd s)
      else
        let r = loop_iteration mem c Connection (lo_uiCount opts) uiIteration a;
            (a, s) = report_iteration (lo_uiCount opts) uiIteration r (snd s)
        in if snd r \<noteq> IPSEC_OK \<and> \<not> lo_bContinueOnError opts then Some (a, s)
           else native_loop mem c Connection opts (u32 (uiIteration + 1))
             (if uiIteration < lo_uiCount opts \<and> 0 < lo_uiDelayMs opts
              then SleepNativeApp (lo_uiDelayMs opts) a else a, s))"

definition summary_text :: "nat \<Rightarrow> nat \<Rightarrow> string" where
  "summary_text uiPassed uiCount =
     ''loop summary: passed='' @ dec uiPassed @ '' requested='' @ dec uiCount @ [newline]"

definition RunNativeAppLoop ::
  "(nat \<Rightarrow> bool) \<Rightarrow> NativeAppConfig \<Rightarrow> IpsecConnectionConfig \<Rightarrow> NativeAppLoopOptions \<Rightarrow> NativeApp
   \<Rightarrow> NativeApp outcome option" where
  "RunNativeAppLoop mem c Connection opts a =
     (if lo_uiCount opts = 0 then Some (a, IPSEC_ERR_INVALID_ARGUMENT)
      else if nc_eRole c \<noteq> NATIVE_APP_ROLE_INITIATOR then Some (a, IPSEC_ERR_NOT_SUPPORTED)
      else
        let (a, eError) = LoadNativeAppCredential mem c a in
        if eError \<noteq> IPSEC_OK then Some (a, eError)
        else
          map_option (\<lambda>(a, uiPassed, eFirstError).
            let (a, eFirstError) =
                  (if lo_bClearCredentials opts
                   then let (a, eError) = on_ipsec ClearIpsecCredentials a
                        in (a, keep_first eFirstError eError)
                   else (a, eFirstError));
                a = app_printf (summary_text uiPassed (lo_uiCount opts)) a;
                (bStop, a) = IsNativeAppStopRequested a
            in (a, if bStop \<and> eFirstError = IPSEC_OK then IPSEC_ERR_INTERNAL else eFirstError))
            (native_loop mem c Connection opts 1 (a, 0, IPSEC_OK)))"

section \<open>What the loop command reports\<close>

named_theorems app_output \<open>operations that print nothing\<close>

definition same_output :: "NativeApp \<Rightarrow> NativeApp \<Rightarrow> bool" where
  "same_output a b \<longleftrightarrow> ap_stdout b = ap_stdout a \<and> ap_stderr b = ap_stderr a"

lemma same_output_refl [simp]: "same_output a a"
  by (simp add: same_output_def)

lemma same_output_trans: "same_output a b \<Longrightarrow> same_output b c \<Longrightarrow> same_output a c"
  by (simp add: same_output_def)

lemma same_output_ipsec [simp]:
  "same_output a (b\<lparr>ap_ipsec := w\<rparr>) = same_output a b"
  "same_output (a\<lparr>ap_ipsec := w\<rparr>) b = same_output a b"
  by (simp_all add: same_output_def)

lemma on_ipsec_output [app_output]: "same_output a (fst (on_ipsec f a))"
  by (simp add: on_ipsec_def case_prod_beta Let_def)

lemma stop_output: "IsNativeAppStopRequested a = (b, a') \<Longrightarrow> same_output a a' \<and> (b \<longrightarrow> ap_stop a') \<and> (\<not> b \<longrightarrow> a' = a \<and> \<not> ap_stop a)"
  by (auto simp: IsNativeAppStopRequested_def RequestNativeAppStop_def same_output_def
      split: list.splits os_event.splits)

lemma nanosleep_output: "same_output a (nanosleep_loop a)"
proof (induction a rule: nanosleep_loop.induct)
  case (1 a)
  obtain ev w where n: "next_event (ap_ipsec a) = (ev, w)" by fastforce
  obtain b a2 where s: "IsNativeAppStopRequested (a\<lparr>ap_ipsec := w\<rparr>) = (b, a2)" by fastforce
  have "same_output a a2" using stop_output [OF s] by simp
  then show ?case
    using 1 [OF n [symmetric] refl refl _ s [symmetric] refl]
    by (subst nanosleep_loop.simps) (auto simp: n s Let_def intro: same_output_trans)
qed

lemma SleepNativeApp_output [app_output]: "same_output a (SleepNativeApp t a)"
  using nanosleep_output [of "a\<lparr>ap_ipsec := (ap_ipsec a)\<lparr>os_waits := os_waits (ap_ipsec a) @ [t]\<rparr>\<rparr>"]
  by (simp add: SleepNativeApp_def)

lemma wait_removed_output: "same_output a (fst (wait_removed_loop mem c r t el a))"
proof (induction mem c r t el a rule: wait_removed_loop.induct)
  case (1 mem c r t el a)
  obtain b a1 where s: "IsNativeAppStopRequested a = (b, a1)" by fastforce
  obtain q e where q: "query_installed mem (ap_ipsec a1) = (q, e)" by fastforce
  let ?a2 = "a1\<lparr>ap_ipsec := snd q\<rparr>"
  have a2: "same_output a ?a2" and a1: "same_output a a1" using stop_output [OF s] by simp_all
  have "same_output a (SleepNativeApp 100 ?a2)"
    using same_output_trans [OF a2 SleepNativeApp_output] by simp
  then show ?case
    using 1 [OF _ s [symmetric] refl _ q [symmetric] refl refl] a1 a2
    by (subst wait_removed_loop.simps) (auto simp: s q Let_def intro: same_output_trans)
qed

text \<open>A wait that succeeds has seen the end of the connection in its last queries.\<close>

definition seen_removed :: "(nat \<Rightarrow> bool) \<Rightarrow> NativeAppConfig \<Rightarrow> nat \<Rightarrow> Ipsec \<Rightarrow> bool" where
  "seen_removed mem c r w \<longleftrightarrow>
     (\<exists>v found. query_installed mem v = ((found, w), IPSEC_OK) \<and> \<not> still_present c r found)"

lemma wait_removed_seen:
  "wait_removed_loop mem c r t el a = (a', IPSEC_OK) \<Longrightarrow> seen_removed mem c r (ap_ipsec a')"
proof (induction mem c r t el a rule: wait_removed_loop.induct)
  case (1 mem c r t el a)
  obtain b a1 where s: "IsNativeAppStopRequested a = (b, a1)" by fastforce
  obtain q e where q: "query_installed mem (ap_ipsec a1) = (q, e)" by fastforce
  have "seen_removed mem c r (snd q)" if "e = IPSEC_OK" "\<not> still_present c r (fst q)"
    using that q unfolding seen_removed_def by (metis prod.collapse)
  then show ?case
    using 1(2) 1(1) [OF _ s [symmetric] refl _ q [symmetric] refl refl] q
    unfolding wait_removed_loop.simps [of mem c r t el a]
    by (auto simp: s Let_def split: if_splits)
qed

lemma run_steps_output:
  assumes "\<And>f a. f \<in> set fs \<Longrightarrow> same_output a (fst (f a))"
  shows "same_output a (fst (run_steps fs a))"
  using assms
proof (induction fs arbitrary: a)
  case (Cons f fs)
  then show ?case
    using same_output_trans [of a "fst (f a)"] by (simp add: and_then_def)
qed simp

lemma StartNativeAppConnection_output [app_output]: "same_output a (fst (StartNativeAppConnection mem c a))"
proof -
  have "same_output a (fst (run_steps [on_ipsec f, on_ipsec g, on_ipsec h] a))" for f g h a
    by (rule run_steps_output) (auto intro: on_ipsec_output)
  then show ?thesis
    unfolding StartNativeAppConnection_def Let_def
    by (auto simp: case_prod_beta on_ipsec_output simp del: run_steps.simps
        intro: same_output_trans [OF _ on_ipsec_output])
qed

lemma LoadNativeAppCredential_output [app_output]: "same_output a (fst (LoadNativeAppCredential mem c a))"
  by (simp add: LoadNativeAppCredential_def on_ipsec_output split: sum.split)

lemma keep_first_ok [simp]: "keep_first e1 e2 = IPSEC_OK \<longleftrightarrow> e1 = IPSEC_OK \<and> e2 = IPSEC_OK"
  by (auto simp: keep_first_def)

text \<open>The clean-up of an iteration prints nothing, and when it succeeds after a success, the end of
  the connection was seen.\<close>

lemma loop_cleanup_ok:
  assumes "loop_cleanup mem c r (a, e) = (a', IPSEC_OK)"
  shows "same_output a a' \<and> e = IPSEC_OK \<and> (\<exists>w. seen_removed mem c r w)"
proof -
  obtain a1 e1 where 1: "on_ipsec (TerminateIpsecIke (Some (nc_acConnectionName c)) (wait_control c)) a
      = (a1, e1)" by fastforce
  obtain a2 e2 where 2: "WaitNativeAppRemoved mem c r a1 = (a2, e2)" by fastforce
  obtain a3 e3 where 3: "on_ipsec (RemoveIpsecConnection (Some (nc_acConnectionName c))) a2 = (a3, e3)"
    by fastforce
  have ok: "e = IPSEC_OK" "e1 = IPSEC_OK" "e2 = IPSEC_OK" "a' = a3"
    using assms by (auto simp: loop_cleanup_def 1 2 3 Let_def split: if_splits prod.splits)
  have "same_output a a1" "same_output a2 a3" "same_output a1 a2"
    using on_ipsec_output [of a] on_ipsec_output [of a2] 1 2 3 wait_removed_output [of a1 mem c r "nc_uiTimeoutMs c" 0]
    by (metis fst_conv WaitNativeAppRemoved_def WaitNativeAppRemovedWithTimeout_def)+
  then have "same_output a a3" using same_output_trans by blast
  moreover have "seen_removed mem c r (ap_ipsec a2)"
    using 2 ok(3) wait_removed_seen
    by (simp add: WaitNativeAppRemoved_def WaitNativeAppRemovedWithTimeout_def)
  ultimately show ?thesis using ok by blast
qed

definition passed_iteration :: "(nat \<Rightarrow> bool) \<Rightarrow> NativeAppConfig \<Rightarrow> nat \<times> nat \<times> nat \<Rightarrow> bool" where
  "passed_iteration mem c v \<longleftrightarrow>
     (case v of (r, s, p) \<Rightarrow> 0 < r \<and> 0 < s \<and> 0 < p \<and> (\<exists>w. seen_removed mem c r w))"

lemma VerifyNativeAppInstalled_ok:
  assumes "VerifyNativeAppInstalled mem c a = ((a', r), IPSEC_OK)"
  shows "\<exists>s p. 0 < r \<and> 0 < s \<and> 0 < p \<and> ap_stdout a' = ap_stdout a @ verified_text r s p \<and>
    ap_stderr a' = ap_stderr a"
proof -
  obtain i ch st po w e where q: "query_installed mem (ap_ipsec a) = (((i, ch, st, po), w), e)"
    by (metis prod.exhaust)
  have zero: "0 < count_reqid f m l \<Longrightarrow> 0 < m" for f :: "IpsecXfrmStateInfo \<Rightarrow> nat" and m l
    by (cases "m = 0") (simp_all add: count_reqid_def)
  let ?s = "count_reqid xs_uiReqid r st" and ?p = "count_reqid xp_uiReqid r po"
  have "0 < ?s" "0 < ?p" "ap_stdout a' = ap_stdout a @ verified_text r ?s ?p" "ap_stderr a' = ap_stderr a"
    using assms by (auto simp: VerifyNativeAppInstalled_def q Let_def app_printf_def split: if_splits)
  then show ?thesis using zero by blast
qed

definition pass_text :: "nat \<Rightarrow> nat \<Rightarrow> nat \<times> nat \<times> nat \<Rightarrow> string" where
  "pass_text n i v = (case v of (r, s, p) \<Rightarrow>
     loop_text i n ''load'' @ verified_text r s p @ loop_text i n ''passed'')"

lemma loop_iteration_ok:
  assumes "loop_iteration mem c Connection n i a = (a', IPSEC_OK)"
  shows "\<exists>v. passed_iteration mem c v \<and> ap_stderr a' = ap_stderr a \<and>
    ap_stdout (app_printf (loop_text i n ''passed'') a') = ap_stdout a @ pass_text n i v"
proof -
  let ?a = "app_printf (loop_text i n ''load'') a"
  obtain a1 e1 where 1: "on_ipsec (AddIpsecConnection (Some Connection)) ?a = (a1, e1)" by fastforce
  obtain a2 e2 where 2: "StartNativeAppConnection mem c a1 = (a2, e2)" by fastforce
  obtain a3 r e3 where 3: "VerifyNativeAppInstalled mem c a2 = ((a3, r), e3)" by (metis prod.exhaust)
  have e1: "e1 = IPSEC_OK" using assms by (auto simp: loop_iteration_def 1 split: if_splits)
  have e2: "e2 = IPSEC_OK"
    using assms loop_cleanup_ok [of mem c 0 a2 e2 a'] by (auto simp: loop_iteration_def 1 2 e1 split: if_splits)
  have cl: "loop_cleanup mem c r (a3, e3) = (a', IPSEC_OK)"
    using assms by (simp add: loop_iteration_def 1 2 3 e1 e2)
  note c = loop_cleanup_ok [OF cl]
  obtain s p where v: "0 < r" "0 < s" "0 < p" "ap_stdout a3 = ap_stdout a2 @ verified_text r s p"
    "ap_stderr a3 = ap_stderr a2"
    using VerifyNativeAppInstalled_ok [of mem c a2 a3 r] 3 c by auto
  have "same_output ?a a2"
    using same_output_trans [OF on_ipsec_output StartNativeAppConnection_output, of ?a] 1 2 by (metis fst_conv)
  then have "ap_stdout a2 = ap_stdout a @ loop_text i n ''load''" "ap_stderr a2 = ap_stderr a"
    by (simp_all add: same_output_def app_printf_def)
  moreover have "ap_stdout a' = ap_stdout a3" "ap_stderr a' = ap_stderr a3"
    using c by (simp_all add: same_output_def)
  ultimately have "passed_iteration mem c (r, s, p) \<and> ap_stderr a' = ap_stderr a \<and>
      ap_stdout (app_printf (loop_text i n ''passed'') a') = ap_stdout a @ pass_text n i (r, s, p)"
    using v c by (simp add: passed_iteration_def pass_text_def app_printf_def)
  then show ?thesis by blast
qed

text \<open>The loop over the iterations.  Its end is counted, and it is reached when the counter cannot wrap.\<close>

lemma native_loop_returns:
  "lo_uiCount opts < UINT32_MAX \<Longrightarrow> i \<le> Suc (lo_uiCount opts) \<Longrightarrow>
   native_loop mem c Connection opts i s \<noteq> None"
proof (induction "Suc (lo_uiCount opts) - i" arbitrary: i s)
  case 0
  then have "lo_uiCount opts < i" by simp
  then show ?case
    by (subst native_loop.simps) (simp add: case_prod_beta Let_def)
next
  case (Suc n)
  then have u: "u32 (i + 1) = Suc i" by simp
  have "native_loop mem c Connection opts (Suc i) s' \<noteq> None" for s'
    using Suc by (intro Suc.hyps(1)) simp_all
  then show ?case
    unfolding native_loop.simps [of mem c Connection opts i s] u
    by (simp only: case_prod_beta Let_def option.distinct simp_thms not_False_eq_True split: if_split)
qed

definition passed_run ::
  "(nat \<Rightarrow> bool) \<Rightarrow> NativeAppConfig \<Rightarrow> nat \<Rightarrow> nat \<Rightarrow> NativeApp \<Rightarrow> NativeApp \<Rightarrow> bool" where
  "passed_run mem c n i a b \<longleftrightarrow>
     (\<exists>vs. length vs = Suc n - i \<and> (\<forall>v \<in> set vs. passed_iteration mem c v) \<and>
        ap_stdout b = ap_stdout a @ concat (map2 (pass_text n) [i..<Suc n] vs) \<and>
        ap_stderr b = ap_stderr a)"

lemma passed_run_end: "n < i \<Longrightarrow> passed_run mem c n i a a"
  by (simp add: passed_run_def)

lemma passed_run_step:
  assumes "i \<le> n" and "passed_iteration mem c v" and "ap_stderr a1 = ap_stderr a"
    and "ap_stdout a1 = ap_stdout a @ pass_text n i v" and "passed_run mem c n (Suc i) a1 b"
  shows "passed_run mem c n i a b"
proof -
  obtain vs where vs: "length vs = n - i" "\<forall>v \<in> set vs. passed_iteration mem c v"
    "ap_stdout b = ap_stdout a1 @ concat (map2 (pass_text n) [Suc i..<Suc n] vs)" "ap_stderr b = ap_stderr a1"
    using assms(5) by (auto simp: passed_run_def)
  have "[i..<Suc n] = i # [Suc i..<Suc n]" using assms(1) by (simp add: upt_conv_Cons)
  then show ?thesis
    unfolding passed_run_def using assms vs
    by (intro exI [of _ "v # vs"]) (simp add: Suc_diff_le del: upt_Suc)
qed

lemma passed_run_output:
  "same_output a0 a \<Longrightarrow> same_output b b0 \<Longrightarrow> passed_run mem c n i a b \<Longrightarrow> passed_run mem c n i a0 b0"
  by (simp add: passed_run_def same_output_def)

text \<open>A loop that ends without an error and without a stop has passed every iteration.\<close>

lemma native_loop_passes:
  assumes "native_loop mem c Connection opts i (a, passed, first) = Some (a', passed', IPSEC_OK)"
    and "lo_uiCount opts < UINT32_MAX" and "i \<le> Suc (lo_uiCount opts)" and "\<not> ap_stop a'"
    and "passed + Suc (lo_uiCount opts) \<le> UINT32_MAX + i"
  shows "passed_run mem c (lo_uiCount opts) i a a' \<and> passed' = passed + (Suc (lo_uiCount opts) - i) \<and>
    first = IPSEC_OK"
  using assms
proof (induction "Suc (lo_uiCount opts) - i" arbitrary: i a passed first)
  case 0
  then have "lo_uiCount opts < i" by simp
  then show ?case
    using 0 passed_run_end
    by (auto simp: native_loop.simps [of mem c Connection opts i] case_prod_beta Let_def)
next
  case (Suc k)
  let ?n = "lo_uiCount opts"
  have i: "i \<le> ?n" and u: "u32 (i + 1) = Suc i" using Suc.hyps(2) Suc.prems(2) by simp_all
  obtain b a1 where s: "IsNativeAppStopRequested a = (b, a1)" by fastforce
  obtain a2 e where 2: "loop_iteration mem c Connection ?n i a1 = (a2, e)" by fastforce
  obtain a3 p3 f3 where 3: "report_iteration ?n i (a2, e) (passed, first) = (a3, p3, f3)"
    by (metis prod.exhaust)
  let ?d = "if i < ?n \<and> 0 < lo_uiDelayMs opts then SleepNativeApp (lo_uiDelayMs opts) a3 else a3"
  have nb: "\<not> b"
    using Suc.prems(1,4) i stop_output [OF s]
    unfolding native_loop.simps [of mem c Connection opts i] by (auto simp: s)
  have f3: "f3 = IPSEC_OK \<longleftrightarrow> e = IPSEC_OK \<and> first = IPSEC_OK"
    using 3 by (auto simp: report_iteration_def split: if_splits)
  have cont: "e = IPSEC_OK \<or> lo_bContinueOnError opts"
    using Suc.prems(1) i nb f3 unfolding native_loop.simps [of mem c Connection opts i]
    by (auto simp: s 2 3 Let_def)
  then have rec: "native_loop mem c Connection opts (Suc i) (?d, p3, f3) = Some (a', passed', IPSEC_OK)"
    using Suc.prems(1) i nb unfolding native_loop.simps [of mem c Connection opts i] u
    by (auto simp: s 2 3 Let_def)
  have p3: "p3 \<le> passed + 1" "e = IPSEC_OK \<Longrightarrow> p3 = passed + 1"
    using 3 Suc.prems(5) i by (auto simp: report_iteration_def split: if_splits)
  have IH: "passed_run mem c ?n (Suc i) ?d a' \<and> passed' = p3 + (Suc ?n - Suc i) \<and> f3 = IPSEC_OK"
    using Suc.hyps(2) Suc.prems(5) p3(1) i
    by (intro Suc.hyps(1) [OF _ rec Suc.prems(2) _ Suc.prems(4)]) simp_all
  then have e: "e = IPSEC_OK" and first: "first = IPSEC_OK" using f3 by simp_all
  have a3: "a3 = app_printf (loop_text i ?n ''passed'') a2"
    using 3 e by (simp add: report_iteration_def)
  obtain v where v: "passed_iteration mem c v" "ap_stderr a2 = ap_stderr a1"
    "ap_stdout a3 = ap_stdout a1 @ pass_text ?n i v"
    using loop_iteration_ok [of mem c Connection ?n i a1 a2] 2 e a3 by blast
  have "ap_stderr a3 = ap_stderr a1" using v(2) by (simp add: a3 app_printf_def)
  moreover have "a1 = a" using stop_output [OF s] nb by simp
  moreover have "passed_run mem c ?n (Suc i) a3 a'"
    using passed_run_output [of a3 ?d a' a'] IH SleepNativeApp_output by simp
  ultimately show ?case
    using passed_run_step [OF i v(1) _ _ ] v(3) IH p3(2) [OF e] first i by fastforce
qed


definition sample_app :: NativeApp where
  "sample_app = \<lparr>ap_ipsec = sample_world [] [], ap_stdout = [], ap_stderr = [], ap_stop = False,
     ap_files = (\<lambda>_. Some \<lparr>af_data = ''secret'', af_error = False\<rparr>)\<rparr>"


end
