(* ===== verification/AppText.thy ===== *)
theory AppText
  imports AppConfig
begin

section \<open>Formatted output\<close>

text \<open>The conversions of \<open>printf\<close> that the application uses, as functions on the converted text:
  \<open>%s\<close> is \<open>cstr\<close>, \<open>%u\<close> is \<open>dec\<close>, \<open>%x\<close> is \<open>hex\<close>, a precision is \<open>take\<close>, and a field width is one
  of the paddings below.\<close>

abbreviation nl :: string where "nl \<equiv> [newline]"

definition pad_left :: "nat \<Rightarrow> string \<Rightarrow> string" where
  "pad_left w s = replicate (w - length s) (CHR '' '') @ s"

definition pad_right :: "nat \<Rightarrow> string \<Rightarrow> string" where
  "pad_right w s = s @ replicate (w - length s) (CHR '' '')"

definition pad_zero :: "nat \<Rightarrow> string \<Rightarrow> string" where
  "pad_zero w s = replicate (w - length s) (CHR ''0'') @ s"

fun hex :: "nat \<Rightarrow> string" where
  "hex n = (if n < 16 then [''0123456789abcdef'' ! n]
            else hex (n div 16) @ [''0123456789abcdef'' ! (n mod 16)])"

declare hex.simps [simp del]

text \<open>\<open>%x\<close> and \<open>%08x\<close> are read back by \<open>strtoull\<close> in base 16: nothing is lost in the output.\<close>

lemma hex_digits: "d < 16 \<Longrightarrow> digit_val (''0123456789abcdef'' ! d) = Some d"
proof -
  assume "d < 16"
  then have "d \<in> set [0..<16]" by simp
  moreover have "\<forall>d \<in> set [0..<16]. digit_val (''0123456789abcdef'' ! d) = Some d" by code_simp
  ultimately show ?thesis by blast
qed

lemma digits_value_hex: "digits_value 16 (hex n) = n"
proof (induction n rule: hex.induct)
  case (1 n)
  show ?case
  proof (cases "n < 16")
    case True
    then show ?thesis by (simp add: hex.simps [of n] digits_value_def hex_digits)
  next
    case False
    with 1 show ?thesis by (simp add: hex.simps [of n] digits_value_snoc hex_digits)
  qed
qed

lemma hex_inj: "hex m = hex n \<Longrightarrow> m = n"
  by (metis digits_value_hex)

end
