(* ===== verification/AppShow.thy ===== *)
theory AppShow
  imports AppLifecycle AppText RouteQueries XfrmStats
begin

section \<open>The show command (\<open>app/show.c\<close>)\<close>

text \<open>
  The texts of the sections, one definition per \<open>printf\<close> of the source, the functions that query
  and print a section, and the command, which prints the sections of a scope and goes on after
  a section that is not available.

  The second part shows that every section of a scope appears exactly once, in the order of the
  command and under its title, and that the result is the first failure.
\<close>

subsection \<open>Texts\<close>

definition GetNativeAppMode :: "IpsecMode \<Rightarrow> string" where
  "GetNativeAppMode eMode =
     (case eMode of
        IPSEC_MODE_TUNNEL \<Rightarrow> ''tunnel''
      | IPSEC_MODE_TRANSPORT \<Rightarrow> ''transport''
      | IPSEC_MODE_BEET \<Rightarrow> ''beet''
      | IPSEC_MODE_UNKNOWN \<Rightarrow> ''unknown'')"

definition GetNativeAppDirection :: "IpsecXfrmDirection \<Rightarrow> string" where
  "GetNativeAppDirection eDirection =
     (case eDirection of
        IPSEC_XFRM_DIRECTION_IN \<Rightarrow> ''in''
      | IPSEC_XFRM_DIRECTION_OUT \<Rightarrow> ''out''
      | IPSEC_XFRM_DIRECTION_FORWARD \<Rightarrow> ''fwd''
      | IPSEC_XFRM_DIRECTION_UNKNOWN \<Rightarrow> ''unknown'')"

definition yesno_text :: "bool \<Rightarrow> string" where
  "yesno_text b = (if b then ''yes'' else ''no'')"

definition role_text :: "bool \<Rightarrow> string" where
  "role_text bInitiator = (if bInitiator then ''initiator'' else ''responder'')"

definition family_code :: "IpsecAddressFamily \<Rightarrow> nat" where
  "family_code eFamily =
     (case eFamily of
        IPSEC_ADDRESS_FAMILY_UNSPECIFIED \<Rightarrow> 0
      | IPSEC_ADDRESS_FAMILY_IPV4 \<Rightarrow> 1
      | IPSEC_ADDRESS_FAMILY_IPV6 \<Rightarrow> 2)"

definition count_text :: "string \<Rightarrow> nat \<Rightarrow> string" where
  "count_text title uiCount =
     ''['' @ title @ '']'' @ nl @ ''  Count            : '' @ dec uiCount @ nl"

definition daemon_text :: "IpsecDaemonStatus \<Rightarrow> string" where
  "daemon_text s =
     ''[DAEMON]'' @ nl @
     ''  Name             : '' @ cstr (ds_acDaemon s) @ nl @
     ''  Version          : '' @ cstr (ds_acVersion s) @ nl @
     ''  System           : '' @ cstr (ds_acSystemName s) @ '' '' @
     cstr (ds_acSystemRelease s) @ '' ('' @ cstr (ds_acMachine s) @ '')'' @ nl @
     ''  Uptime           : '' @ dec (ds_ullUptimeSeconds s) @ '' seconds'' @ nl @
     ''  Workers          : total='' @ dec (ds_uiWorkerTotal s) @ '', idle='' @
     dec (ds_uiWorkerIdle s) @ nl @
     ''  IKE SAs          : total='' @ dec (ds_uiIkeSaTotal s) @ '', half-open='' @
     dec (ds_uiIkeSaHalfOpen s) @ nl"

definition connections_table :: "string" where
  "connections_table =
     ''  No. Name                 Local Address           Remote Address          '' @
     ''Remote ID            Children'' @ nl @
     ''  --- -------------------- ----------------------- ----------------------- '' @
     ''-------------------- --------------------'' @ nl"

definition connection_detail :: "nat \<Rightarrow> nat \<Rightarrow> IpsecConnectionInfo \<Rightarrow> string" where
  "connection_detail uiIndex uiCount i =
     nl @
     ''[CONNECTION '' @ dec uiIndex @ ''/'' @ dec uiCount @ '']'' @ nl @
     ''  Name             : '' @ cstr (ci_acName i) @ nl @
     ''  Local Address    : '' @ cstr (ci_acLocalAddresses i) @ nl @
     ''  Remote Address   : '' @ cstr (ci_acRemoteAddresses i) @ nl @
     ''  Local ID         : '' @ cstr (ci_acLocalId i) @ nl @
     ''  Remote ID        : '' @ cstr (ci_acRemoteId i) @ nl @
     ''  Children         : '' @ cstr (ci_acChildNames i) @ nl @
     ''  Rekey Time       : '' @ dec (ci_ullRekeyTimeMs i) @ '' ms'' @ nl @
     ''  Reauth Time      : '' @ dec (ci_ullReauthTimeMs i) @ '' ms'' @ nl"

definition connection_line :: "nat \<Rightarrow> IpsecConnectionInfo \<Rightarrow> string" where
  "connection_line uiIndex i =
     ''  '' @ pad_left 3 (dec uiIndex) @ '' '' @ pad_right 20 (take 20 (cstr (ci_acName i))) @
     '' '' @ pad_right 23 (take 23 (cstr (ci_acLocalAddresses i))) @ '' '' @
     pad_right 23 (take 23 (cstr (ci_acRemoteAddresses i))) @ '' '' @
     pad_right 20 (take 20 (cstr (ci_acRemoteId i))) @ '' '' @
     pad_right 20 (take 20 (cstr (ci_acChildNames i))) @ nl"

definition ike_table :: "string" where
  "ike_table =
     ''  No. Name                 Unique ID  State        Role      Local              '' @
     ''     Remote                  Remote ID'' @ nl @
     ''  --- -------------------- ---------- ------------ --------- '' @
     ''----------------------- ----------------------- --------------------'' @ nl"

definition ike_detail :: "nat \<Rightarrow> nat \<Rightarrow> IpsecIkeSaInfo \<Rightarrow> string" where
  "ike_detail uiIndex uiCount i =
     nl @
     ''[IKE SA '' @ dec uiIndex @ ''/'' @ dec uiCount @ '']'' @ nl @
     ''  Name             : '' @ cstr (is_acName i) @ nl @
     ''  Unique ID        : '' @ dec (is_ullUniqueId i) @ nl @
     ''  State            : '' @ cstr (is_acState i) @ nl @
     ''  Established      : '' @ yesno_text (is_bEstablished i) @ nl @
     ''  Role             : '' @ role_text (is_bInitiator i) @ nl @
     ''  Local Address    : '' @ cstr (is_acLocalAddress i) @ nl @
     ''  Remote Address   : '' @ cstr (is_acRemoteAddress i) @ nl @
     ''  Local ID         : '' @ cstr (is_acLocalId i) @ nl @
     ''  Remote ID        : '' @ cstr (is_acRemoteId i) @ nl @
     ''  Proposal         : '' @ cstr (is_acProposal i) @ nl @
     ''  NAT Local        : '' @ yesno_text (is_bNatLocal i) @ nl @
     ''  NAT Remote       : '' @ yesno_text (is_bNatRemote i) @ nl @
     ''  Established Time : '' @ dec (is_ullEstablishedTimeMs i) @ '' ms'' @ nl @
     ''  Rekey Time       : '' @ dec (is_ullRekeyTimeMs i) @ '' ms'' @ nl"

definition ike_line :: "nat \<Rightarrow> IpsecIkeSaInfo \<Rightarrow> string" where
  "ike_line uiIndex i =
     ''  '' @ pad_left 3 (dec uiIndex) @ '' '' @ pad_right 20 (take 20 (cstr (is_acName i))) @
     '' '' @ pad_left 10 (dec (is_ullUniqueId i)) @ '' '' @
     pad_right 12 (take 12 (cstr (is_acState i))) @ '' '' @
     pad_right 9 (role_text (is_bInitiator i)) @ '' '' @
     pad_right 23 (take 23 (cstr (is_acLocalAddress i))) @ '' '' @
     pad_right 23 (take 23 (cstr (is_acRemoteAddress i))) @ '' '' @
     pad_right 20 (take 20 (cstr (is_acRemoteId i))) @ nl"

definition child_table :: "string" where
  "child_table =
     ''  No. Name                 IKE                  State      Mode       ReqID    '' @
     ''SPI In     SPI Out    Pkts In  Pkts Out'' @ nl @
     ''  --- -------------------- -------------------- ---------- ---------- -------- '' @
     ''---------- ---------- -------- --------'' @ nl"

definition child_detail :: "nat \<Rightarrow> nat \<Rightarrow> IpsecChildSaInfo \<Rightarrow> string" where
  "child_detail uiIndex uiCount i =
     nl @
     ''[CHILD SA '' @ dec uiIndex @ ''/'' @ dec uiCount @ '']'' @ nl @
     ''  IKE Name         : '' @ cstr (cs_acIkeName i) @ nl @
     ''  Name             : '' @ cstr (cs_acName i) @ nl @
     ''  State            : '' @ cstr (cs_acState i) @ nl @
     ''  Mode             : '' @ GetNativeAppMode (cs_eMode i) @ nl @
     ''  ReqID            : '' @ dec (cs_uiReqid i) @ nl @
     ''  Inbound SPI      : 0x'' @ pad_zero 8 (hex (cs_uiInboundSpi i)) @ nl @
     ''  Outbound SPI     : 0x'' @ pad_zero 8 (hex (cs_uiOutboundSpi i)) @ nl @
     ''  Proposal         : '' @ cstr (cs_acProposal i) @ nl @
     ''  ESN              : '' @ yesno_text (cs_bEsn i) @ nl @
     ''  UDP Encapsulation: '' @ yesno_text (cs_bUdpEncapsulation i) @ nl @
     ''  Local TS         : '' @ cstr (cs_acLocalTrafficSelectors i) @ nl @
     ''  Remote TS        : '' @ cstr (cs_acRemoteTrafficSelectors i) @ nl @
     ''  Inbound Traffic  : '' @ dec (cs_ullPacketsIn i) @ '' packets, '' @
     dec (cs_ullBytesIn i) @ '' bytes'' @ nl @
     ''  Outbound Traffic : '' @ dec (cs_ullPacketsOut i) @ '' packets, '' @
     dec (cs_ullBytesOut i) @ '' bytes'' @ nl @
     ''  Install Time     : '' @ dec (cs_ullInstallTimeMs i) @ '' ms'' @ nl @
     ''  Rekey Time       : '' @ dec (cs_ullRekeyTimeMs i) @ '' ms'' @ nl @
     ''  Lifetime         : '' @ dec (cs_ullLifetimeMs i) @ '' ms'' @ nl"

definition child_line :: "nat \<Rightarrow> IpsecChildSaInfo \<Rightarrow> string" where
  "child_line uiIndex i =
     ''  '' @ pad_left 3 (dec uiIndex) @ '' '' @ pad_right 20 (take 20 (cstr (cs_acName i))) @
     '' '' @ pad_right 20 (take 20 (cstr (cs_acIkeName i))) @ '' '' @
     pad_right 10 (take 10 (cstr (cs_acState i))) @ '' '' @
     pad_right 10 (take 10 (GetNativeAppMode (cs_eMode i))) @ '' '' @
     pad_left 8 (dec (cs_uiReqid i)) @ '' 0x'' @ pad_zero 8 (hex (cs_uiInboundSpi i)) @
     '' 0x'' @ pad_zero 8 (hex (cs_uiOutboundSpi i)) @ '' '' @
     pad_left 8 (dec (cs_ullPacketsIn i)) @ '' '' @ pad_left 8 (dec (cs_ullPacketsOut i)) @ nl"

definition algorithm_line :: "nat \<Rightarrow> IpsecAlgorithmInfo \<Rightarrow> string" where
  "algorithm_line uiIndex i =
     ''  '' @ pad_left 3 (dec uiIndex) @ ''. '' @ pad_right 16 (cstr (ai_acType i)) @ '' '' @
     pad_right 32 (cstr (ai_acName i)) @ '' '' @ cstr (ai_acPlugin i) @ nl"

definition state_text :: "nat \<Rightarrow> nat \<Rightarrow> IpsecXfrmStateInfo \<Rightarrow> string" where
  "state_text uiIndex uiCount i =
     nl @
     ''[XFRM STATE '' @ dec uiIndex @ ''/'' @ dec uiCount @ '']'' @ nl @
     ''  Source           : '' @ cstr (xs_acSource i) @ nl @
     ''  Destination      : '' @ cstr (xs_acDestination i) @ nl @
     ''  Protocol         : '' @ dec (xs_uiProtocol i) @ nl @
     ''  SPI              : 0x'' @ pad_zero 8 (hex (xs_uiSpi i)) @ nl @
     ''  ReqID            : '' @ dec (xs_uiReqid i) @ nl @
     ''  Mode             : '' @ GetNativeAppMode (xs_eMode i) @ nl @
     ''  Encryption       : '' @ cstr (xs_acEncryptionAlgorithm i) @ nl @
     ''  Integrity        : '' @ cstr (xs_acIntegrityAlgorithm i) @ nl @
     ''  AEAD             : '' @ cstr (xs_acAeadAlgorithm i) @ nl @
     ''  ESN              : '' @ yesno_text (xs_bEsn i) @ nl @
     ''  Replay Window    : '' @ dec (xs_uiReplayWindow i) @ nl @
     ''  Traffic          : '' @ dec (xs_ullPacketCount i) @ '' packets, '' @
     dec (xs_ullByteCount i) @ '' bytes'' @ nl"

definition policy_text :: "nat \<Rightarrow> nat \<Rightarrow> IpsecXfrmPolicyInfo \<Rightarrow> string" where
  "policy_text uiIndex uiCount i =
     nl @
     ''[XFRM POLICY '' @ dec uiIndex @ ''/'' @ dec uiCount @ '']'' @ nl @
     ''  Direction        : '' @ GetNativeAppDirection (xp_eDirection i) @ nl @
     ''  Source Selector  : '' @ cstr (xp_acSourceSelector i) @ ''/'' @
     dec (xp_ucSourcePrefixLength i) @ nl @
     ''  Destination      : '' @ cstr (xp_acDestinationSelector i) @ ''/'' @
     dec (xp_ucDestinationPrefixLength i) @ nl @
     ''  Priority         : '' @ dec (xp_uiPriority i) @ nl @
     ''  Index            : '' @ dec (xp_uiIndex i) @ nl @
     ''  ReqID            : '' @ dec (xp_uiReqid i) @ nl @
     ''  Mode             : '' @ GetNativeAppMode (xp_eMode i) @ nl @
     ''  Template Source  : '' @ cstr (xp_acTemplateSource i) @ nl @
     ''  Template Dest.   : '' @ cstr (xp_acTemplateDestination i) @ nl @
     ''  Protocol         : '' @ dec (xp_uiProtocol i) @ nl"

definition statistics_section :: "IpsecXfrmStatistics \<Rightarrow> string" where
  "statistics_section s =
     ''[XFRM STATISTICS]'' @ nl @
     ''  In Error         : '' @ dec (ullInError s) @ nl @
     ''  In Buffer Error  : '' @ dec (ullInBufferError s) @ nl @
     ''  In Header Error  : '' @ dec (ullInHeaderError s) @ nl @
     ''  In No States     : '' @ dec (ullInNoStates s) @ nl @
     ''  In Proto Error   : '' @ dec (ullInStateProtocolError s) @ nl @
     ''  In Mode Error    : '' @ dec (ullInStateModeError s) @ nl @
     ''  In Seq Error     : '' @ dec (ullInStateSequenceError s) @ nl @
     ''  In Expired       : '' @ dec (ullInStateExpired s) @ nl @
     ''  Out Error        : '' @ dec (ullOutError s) @ nl @
     ''  Out Bundle Gen.  : '' @ dec (ullOutBundleGenerationError s) @ nl @
     ''  Out Bundle Check : '' @ dec (ullOutBundleCheckError s) @ nl @
     ''  Out No States    : '' @ dec (ullOutNoStates s) @ nl @
     ''  Out Proto Error  : '' @ dec (ullOutStateProtocolError s) @ nl @
     ''  Out Mode Error   : '' @ dec (ullOutStateModeError s) @ nl @
     ''  Out Seq Error    : '' @ dec (ullOutStateSequenceError s) @ nl @
     ''  Out Expired      : '' @ dec (ullOutStateExpired s) @ nl @
     ''  Out Policy Block : '' @ dec (ullOutPolicyBlock s) @ nl"

definition interface_text :: "nat \<Rightarrow> nat \<Rightarrow> IpsecInterfaceInfo \<Rightarrow> string" where
  "interface_text uiIndex uiCount i =
     nl @
     ''[INTERFACE '' @ dec uiIndex @ ''/'' @ dec uiCount @ '']'' @ nl @
     ''  Index            : '' @ dec (ii_uiIndex i) @ nl @
     ''  Name             : '' @ cstr (ii_acName i) @ nl @
     ''  State            : up='' @ yesno_text (ii_bUp i) @ '', running='' @
     yesno_text (ii_bRunning i) @ '', carrier='' @ yesno_text (ii_bCarrier i) @ nl @
     ''  MTU              : '' @ dec (ii_uiMtu i) @ nl @
     ''  MAC Address      : '' @ cstr (ii_acMacAddress i) @ nl @
     ''  Flags            : 0x'' @ pad_zero 8 (hex (ii_uiFlags i)) @ nl"

definition address_line :: "nat \<Rightarrow> IpsecAddressInfo \<Rightarrow> string" where
  "address_line uiIndex i =
     ''  '' @ pad_left 3 (dec uiIndex) @ ''. '' @ pad_right 16 (cstr (ia_acInterfaceName i)) @
     '' '' @ cstr (ia_acAddress i) @ ''/'' @ dec (ia_ucPrefixLength i) @ ''  family='' @
     dec (family_code (ia_eFamily i)) @ '' scope='' @ dec (ia_ucScope i) @ '' ifindex='' @
     dec (ia_uiInterfaceIndex i) @ nl"

definition route_text :: "nat \<Rightarrow> nat \<Rightarrow> IpsecRouteInfo \<Rightarrow> string" where
  "route_text uiIndex uiCount i =
     nl @
     ''[ROUTE '' @ dec uiIndex @ ''/'' @ dec uiCount @ '']'' @ nl @
     ''  Destination      : '' @ cstr (ir_acDestination i) @ ''/'' @ dec (ir_ucPrefixLength i) @ nl @
     ''  Gateway          : '' @ cstr (ir_acGateway i) @ nl @
     ''  Source           : '' @ cstr (ir_acSource i) @ nl @
     ''  Interface        : '' @ cstr (ir_acInterfaceName i) @ '' ('' @
     dec (ir_uiInterfaceIndex i) @ '')'' @ nl @
     ''  Metric           : '' @ dec (ir_uiMetric i) @ nl @
     ''  Table            : '' @ dec (ir_uiTable i) @ nl @
     ''  Protocol         : '' @ dec (ir_ucProtocol i) @ nl @
     ''  Scope            : '' @ dec (ir_ucScope i) @ nl"

text \<open>The items of a list, numbered from 1.\<close>

definition show_rows :: "(nat \<Rightarrow> 'a \<Rightarrow> string) \<Rightarrow> 'a list \<Rightarrow> string" where
  "show_rows row items = concat (map2 row [1..<Suc (length items)] items)"

subsection \<open>Sections\<close>

text \<open>A query on the library, and its result printed when it succeeded.\<close>

definition shown :: "('a \<times> Ipsec) outcome \<Rightarrow> ('a \<Rightarrow> string) \<Rightarrow> NativeApp \<Rightarrow> NativeApp outcome" where
  "shown r text a =
     (let ((x, w), eError) = r; a = a\<lparr>ap_ipsec := w\<rparr> in
      (if eError = IPSEC_OK then app_printf (text x) a else a, eError))"

definition swap_result :: "(Ipsec \<times> 'a) outcome \<Rightarrow> ('a \<times> Ipsec) outcome" where
  "swap_result r = (let ((w, x), eError) = r in ((x, w), eError))"

definition ShowNativeAppDaemon :: "NativeApp \<Rightarrow> NativeApp outcome" where
  "ShowNativeAppDaemon a = shown (GetIpsecDaemonStatus (ap_ipsec a)) daemon_text a"

definition IsNativeAppItemSelected :: "string option \<Rightarrow> string option \<Rightarrow> string option \<Rightarrow> bool" where
  "IsNativeAppItemSelected pcFilter pcPrimaryName pcSecondaryName =
     (case pcFilter of
        None \<Rightarrow> True
      | Some f \<Rightarrow>
          (case pcPrimaryName of None \<Rightarrow> False | Some n \<Rightarrow> strcmp_eq f n) \<or>
          (case pcSecondaryName of None \<Rightarrow> False | Some n \<Rightarrow> strcmp_eq f n))"

definition ShowNativeAppConnections ::
  "(nat \<Rightarrow> bool) \<Rightarrow> bool \<Rightarrow> string option \<Rightarrow> NativeApp \<Rightarrow> NativeApp outcome" where
  "ShowNativeAppConnections mem bDetail pcName a =
     shown (GetIpsecConnections mem (ap_ipsec a)) (\<lambda>List.
       let items = filter (\<lambda>i. IsNativeAppItemSelected pcName (Some (ci_acName i)) None) List;
           uiMatchCount = length items
       in count_text ''CONNECTIONS'' uiMatchCount @
          (if bDetail then show_rows (\<lambda>k. connection_detail k uiMatchCount) items
           else connections_table @ show_rows connection_line items)) a"

definition ShowNativeAppIkeSas ::
  "(nat \<Rightarrow> bool) \<Rightarrow> bool \<Rightarrow> string option \<Rightarrow> NativeApp \<Rightarrow> NativeApp outcome" where
  "ShowNativeAppIkeSas mem bDetail pcName a =
     shown (GetIpsecIkeSas mem (ap_ipsec a)) (\<lambda>List.
       let items = filter (\<lambda>i. IsNativeAppItemSelected pcName (Some (is_acName i)) None) List;
           uiMatchCount = length items
       in count_text ''IKE SAs'' uiMatchCount @
          (if bDetail then show_rows (\<lambda>k. ike_detail k uiMatchCount) items
           else ike_table @ show_rows ike_line items)) a"

definition ShowNativeAppChildSas ::
  "(nat \<Rightarrow> bool) \<Rightarrow> bool \<Rightarrow> string option \<Rightarrow> NativeApp \<Rightarrow> NativeApp outcome" where
  "ShowNativeAppChildSas mem bDetail pcName a =
     shown (GetIpsecChildSas mem (ap_ipsec a)) (\<lambda>List.
       let items = filter (\<lambda>i. IsNativeAppItemSelected pcName (Some (cs_acName i))
                                 (Some (cs_acIkeName i))) List;
           uiMatchCount = length items
       in count_text ''CHILD SAs'' uiMatchCount @
          (if bDetail then show_rows (\<lambda>k. child_detail k uiMatchCount) items
           else child_table @ show_rows child_line items)) a"

definition ShowNativeAppAlgorithms :: "(nat \<Rightarrow> bool) \<Rightarrow> NativeApp \<Rightarrow> NativeApp outcome" where
  "ShowNativeAppAlgorithms mem a =
     shown (GetIpsecAlgorithms mem (ap_ipsec a)) (\<lambda>List.
       count_text ''ALGORITHMS'' (length List) @ show_rows algorithm_line List) a"

definition ShowNativeAppXfrmStates :: "(nat \<Rightarrow> bool) \<Rightarrow> NativeApp \<Rightarrow> NativeApp outcome" where
  "ShowNativeAppXfrmStates mem a =
     shown (swap_result (GetIpsecXfrmStates mem (ap_ipsec a))) (\<lambda>List.
       count_text ''XFRM STATES'' (length List) @
       show_rows (\<lambda>k. state_text k (length List)) List) a"

definition ShowNativeAppXfrmPolicies :: "(nat \<Rightarrow> bool) \<Rightarrow> NativeApp \<Rightarrow> NativeApp outcome" where
  "ShowNativeAppXfrmPolicies mem a =
     shown (swap_result (GetIpsecXfrmPolicies mem (ap_ipsec a))) (\<lambda>List.
       count_text ''XFRM POLICIES'' (length List) @
       show_rows (\<lambda>k. policy_text k (length List)) List) a"

definition ShowNativeAppXfrmStatistics :: "(nat \<Rightarrow> bool) \<Rightarrow> NativeApp \<Rightarrow> NativeApp outcome" where
  "ShowNativeAppXfrmStatistics mem a =
     shown (swap_result (GetIpsecXfrmStatistics mem (ap_ipsec a, zero_statistics)))
       statistics_section a"

definition ShowNativeAppInterfaces :: "(nat \<Rightarrow> bool) \<Rightarrow> NativeApp \<Rightarrow> NativeApp outcome" where
  "ShowNativeAppInterfaces mem a =
     shown (swap_result (GetIpsecInterfaces mem (ap_ipsec a))) (\<lambda>List.
       count_text ''INTERFACES'' (length List) @
       show_rows (\<lambda>k. interface_text k (length List)) List) a"

definition ShowNativeAppAddresses :: "(nat \<Rightarrow> bool) \<Rightarrow> NativeApp \<Rightarrow> NativeApp outcome" where
  "ShowNativeAppAddresses mem a =
     shown (swap_result (GetIpsecAddresses mem (ap_ipsec a))) (\<lambda>List.
       count_text ''ADDRESSES'' (length List) @ show_rows address_line List) a"

definition ShowNativeAppRoutes :: "(nat \<Rightarrow> bool) \<Rightarrow> NativeApp \<Rightarrow> NativeApp outcome" where
  "ShowNativeAppRoutes mem a =
     shown (swap_result (GetIpsecRoutes mem (ap_ipsec a))) (\<lambda>List.
       count_text ''ROUTES'' (length List) @
       show_rows (\<lambda>k. route_text k (length List)) List) a"

subsection \<open>The command\<close>

definition unavailable_text :: "IpsecError \<Rightarrow> string" where
  "unavailable_text eError =
     ''  Status           : unavailable'' @ nl @
     ''  Error            : '' @ GetIpsecErrorString eError @ nl"

definition RecordNativeAppShowError :: "string \<Rightarrow> NativeApp outcome \<Rightarrow> IpsecError \<Rightarrow> NativeApp outcome" where
  "RecordNativeAppShowError pcSection r eFirstError =
     (let (a, eError) = r in
      if eError \<noteq> IPSEC_OK
      then (app_printf (''['' @ pcSection @ '']'' @ nl @ unavailable_text eError) a,
            if eFirstError = IPSEC_OK then eError else eFirstError)
      else (a, eFirstError))"

definition show_section ::
  "NativeApp outcome \<Rightarrow> bool \<times> string \<times> (NativeApp \<Rightarrow> NativeApp outcome) \<Rightarrow> NativeApp outcome" where
  "show_section s sec =
     (let (a, eFirstError) = s; (b, pcSection, Show) = sec in
      if b then RecordNativeAppShowError pcSection (Show a) eFirstError else s)"

definition show_scopes :: "string list" where
  "show_scopes =
     [''all'', ''summary'', ''xfrm'', ''network'', ''daemon'', ''connections'', ''ike'', ''child'',
      ''algorithms'', ''xfrm-state'', ''xfrm-policy'', ''xfrm-stat'', ''interfaces'', ''addresses'',
      ''routes'']"

definition show_sections ::
  "(nat \<Rightarrow> bool) \<Rightarrow> string \<Rightarrow> bool \<Rightarrow> string option \<Rightarrow>
   (bool \<times> string \<times> (NativeApp \<Rightarrow> NativeApp outcome)) list" where
  "show_sections mem pcScope bDetail pcName =
     (let scope_is = (\<lambda>s. strcmp_eq s pcScope);
          bAll = scope_is ''all''; bSummary = scope_is ''summary''; bXfrm = scope_is ''xfrm''; bNetwork = scope_is ''network''
      in [(bAll \<or> bSummary \<or> scope_is ''daemon'', ''DAEMON'', ShowNativeAppDaemon),
          (bAll \<or> bSummary \<or> scope_is ''connections'', ''CONNECTIONS'', ShowNativeAppConnections mem bDetail pcName),
          (bAll \<or> bSummary \<or> scope_is ''ike'', ''IKE SAs'', ShowNativeAppIkeSas mem bDetail pcName),
          (bAll \<or> bSummary \<or> scope_is ''child'', ''CHILD SAs'', ShowNativeAppChildSas mem bDetail pcName),
          (bAll \<or> scope_is ''algorithms'', ''ALGORITHMS'', ShowNativeAppAlgorithms mem),
          (bAll \<or> bXfrm \<or> scope_is ''xfrm-state'', ''XFRM STATES'', ShowNativeAppXfrmStates mem),
          (bAll \<or> bXfrm \<or> scope_is ''xfrm-policy'', ''XFRM POLICIES'', ShowNativeAppXfrmPolicies mem),
          (bAll \<or> bXfrm \<or> scope_is ''xfrm-stat'', ''XFRM STATISTICS'', ShowNativeAppXfrmStatistics mem),
          (bAll \<or> bNetwork \<or> scope_is ''interfaces'', ''INTERFACES'', ShowNativeAppInterfaces mem),
          (bAll \<or> bNetwork \<or> scope_is ''addresses'', ''ADDRESSES'', ShowNativeAppAddresses mem),
          (bAll \<or> bNetwork \<or> scope_is ''routes'', ''ROUTES'', ShowNativeAppRoutes mem)])"

definition ShowNativeAppInformation ::
  "(nat \<Rightarrow> bool) \<Rightarrow> string option \<Rightarrow> bool \<Rightarrow> string option \<Rightarrow> NativeApp \<Rightarrow> NativeApp outcome" where
  "ShowNativeAppInformation mem pcScope bDetail pcName a =
     (case pcScope of
        None \<Rightarrow> (a, IPSEC_ERR_INVALID_ARGUMENT)
      | Some pcScope \<Rightarrow>
          if \<not> list_ex (\<lambda>s. strcmp_eq s pcScope) show_scopes then (a, IPSEC_ERR_INVALID_ARGUMENT)
          else if pcName \<noteq> None \<and> \<not> strcmp_eq ''connections'' pcScope \<and> \<not> strcmp_eq ''ike'' pcScope \<and>
                  \<not> strcmp_eq ''child'' pcScope
          then (a, IPSEC_ERR_INVALID_ARGUMENT)
          else foldl show_section (a, IPSEC_OK) (show_sections mem pcScope bDetail pcName))"

section \<open>What the show command prints\<close>

text \<open>The sections of a scope.\<close>

definition scope_sections :: "string \<Rightarrow> string list" where
  "scope_sections scope =
     (let vici = [''DAEMON'', ''CONNECTIONS'', ''IKE SAs'', ''CHILD SAs''];
          xfrm = [''XFRM STATES'', ''XFRM POLICIES'', ''XFRM STATISTICS''];
          network = [''INTERFACES'', ''ADDRESSES'', ''ROUTES'']
      in if scope = ''all'' then vici @ [''ALGORITHMS''] @ xfrm @ network
         else if scope = ''summary'' then vici
         else if scope = ''xfrm'' then xfrm
         else if scope = ''network'' then network
         else the (map_of
           [(''daemon'', [''DAEMON'']), (''connections'', [''CONNECTIONS'']), (''ike'', [''IKE SAs'']),
            (''child'', [''CHILD SAs'']), (''algorithms'', [''ALGORITHMS'']),
            (''xfrm-state'', [''XFRM STATES'']), (''xfrm-policy'', [''XFRM POLICIES'']),
            (''xfrm-stat'', [''XFRM STATISTICS'']), (''interfaces'', [''INTERFACES'']),
            (''addresses'', [''ADDRESSES'']), (''routes'', [''ROUTES''])] scope))"

lemma show_scopes_clean: "s \<in> set show_scopes \<Longrightarrow> cstr s = s"
  by (auto simp: show_scopes_def cstr_def)

lemma show_sections_scope:
  assumes "cstr scope \<in> set show_scopes"
  shows "map (fst \<circ> snd) (filter fst (show_sections mem scope bDetail pcName)) = scope_sections (cstr scope)"
proof -
  have iss: "strcmp_eq s scope \<longleftrightarrow> cstr s = cstr scope" for s by (simp add: strcmp_eq_def)
  have "cstr scope = s \<Longrightarrow> ?thesis" if "s \<in> set show_scopes" for s
    using that unfolding show_sections_def Let_def iss show_scopes_def list.set
    by (elim insertE emptyE; simp add: scope_sections_def cstring_simps)
  then show ?thesis using assms by blast
qed

text \<open>A section prints nothing when it fails, and a text under its title when it succeeds.\<close>

definition titled :: "string \<Rightarrow> string \<Rightarrow> bool" where
  "titled t text \<longleftrightarrow> (\<exists>body. text = ''['' @ t @ '']'' @ nl @ body)"

definition section_shown :: "string \<Rightarrow> (NativeApp \<Rightarrow> NativeApp outcome) \<Rightarrow> bool" where
  "section_shown t f \<longleftrightarrow> (\<forall>a. ap_stderr (fst (f a)) = ap_stderr a \<and>
     (if snd (f a) = IPSEC_OK
      then \<exists>text. ap_stdout (fst (f a)) = ap_stdout a @ text \<and> titled t text
      else ap_stdout (fst (f a)) = ap_stdout a))"

lemma shown_section:
  assumes "\<And>x. titled t (text x)"
  shows "section_shown t (\<lambda>a. shown (q a) text a)"
proof -
  have "ap_stderr (fst (shown (q a) text a)) = ap_stderr a \<and>
     (if snd (shown (q a) text a) = IPSEC_OK
      then ap_stdout (fst (shown (q a) text a)) = ap_stdout a @ text (fst (fst (q a)))
      else ap_stdout (fst (shown (q a) text a)) = ap_stdout a)" for a
    by (simp add: shown_def app_printf_def case_prod_beta Let_def)
  then show ?thesis using assms unfolding section_shown_def by (metis (full_types))
qed

lemma titled_count: "titled t (count_text t n @ rest)"
  by (simp add: titled_def count_text_def)

lemma sections_shown:
  assumes "(b, t, f) \<in> set (show_sections mem scope bDetail pcName)"
  shows "section_shown t f"
proof -
  note defs = ShowNativeAppDaemon_def ShowNativeAppConnections_def ShowNativeAppIkeSas_def
    ShowNativeAppChildSas_def ShowNativeAppAlgorithms_def ShowNativeAppXfrmStates_def
    ShowNativeAppXfrmPolicies_def ShowNativeAppXfrmStatistics_def ShowNativeAppInterfaces_def
    ShowNativeAppAddresses_def ShowNativeAppRoutes_def
  have daemon: "titled ''DAEMON'' (daemon_text s)" for s by (simp add: titled_def daemon_text_def)
  have stats: "titled ''XFRM STATISTICS'' (statistics_section s)" for s
    by (simp add: titled_def statistics_section_def)
  show ?thesis
    using assms unfolding show_sections_def Let_def
    by (simp, elim disjE conjE; simp only: defs [abs_def])
      (rule shown_section, simp only: Let_def titled_count daemon stats)+
qed

text \<open>A section as it appears: its title, what follows the title, and its result.\<close>

definition section_text :: "string \<times> string \<times> IpsecError \<Rightarrow> string" where
  "section_text r = (case r of (t, body, e) \<Rightarrow> ''['' @ t @ '']'' @ nl @ body)"

definition section_reported :: "string \<times> string \<times> IpsecError \<Rightarrow> bool" where
  "section_reported r \<longleftrightarrow> (case r of (t, body, e) \<Rightarrow> e \<noteq> IPSEC_OK \<longrightarrow> body = unavailable_text e)"

definition first_failure :: "IpsecError list \<Rightarrow> IpsecError" where
  "first_failure es = (case find (\<lambda>e. e \<noteq> IPSEC_OK) es of None \<Rightarrow> IPSEC_OK | Some e \<Rightarrow> e)"

lemma first_failure_Cons: "first_failure (e # es) = (if e = IPSEC_OK then first_failure es else e)"
  by (simp add: first_failure_def)

lemma RecordNativeAppShowError_shown:
  assumes "section_shown t f"
  shows "\<exists>body e. section_reported (t, body, e) \<and>
    RecordNativeAppShowError t (f a) e0 =
      (fst (RecordNativeAppShowError t (f a) e0), if e0 = IPSEC_OK then e else e0) \<and>
    ap_stdout (fst (RecordNativeAppShowError t (f a) e0)) = ap_stdout a @ section_text (t, body, e) \<and>
    ap_stderr (fst (RecordNativeAppShowError t (f a) e0)) = ap_stderr a"
proof (cases "snd (f a) = IPSEC_OK")
  case True
  then obtain body where "ap_stdout (fst (f a)) = ap_stdout a @ ''['' @ t @ '']'' @ nl @ body"
    "ap_stderr (fst (f a)) = ap_stderr a"
    using assms unfolding section_shown_def titled_def by metis
  then show ?thesis
    using True by (intro exI [of _ body] exI [of _ IPSEC_OK])
      (simp add: RecordNativeAppShowError_def section_text_def section_reported_def case_prod_beta)
next
  case False
  moreover have "ap_stdout (fst (f a)) = ap_stdout a" "ap_stderr (fst (f a)) = ap_stderr a"
    using assms False unfolding section_shown_def by metis+
  ultimately show ?thesis
    by (intro exI [of _ "unavailable_text (snd (f a))"] exI [of _ "snd (f a)"])
      (simp add: RecordNativeAppShowError_def section_text_def section_reported_def case_prod_beta
        app_printf_def)
qed

lemma foldl_show_section:
  assumes "\<And>b t f. (b, t, f) \<in> set secs \<Longrightarrow> section_shown t f"
  shows "\<exists>rs. map fst rs = map (fst \<circ> snd) (filter fst secs) \<and> (\<forall>r \<in> set rs. section_reported r) \<and>
    ap_stdout (fst (foldl show_section (a, e0) secs)) = ap_stdout a @ concat (map section_text rs) \<and>
    ap_stderr (fst (foldl show_section (a, e0) secs)) = ap_stderr a \<and>
    snd (foldl show_section (a, e0) secs) = first_failure (e0 # map (snd \<circ> snd) rs)"
  using assms
proof (induction secs arbitrary: a e0)
  case Nil
  then show ?case by (intro exI [of _ "[]"]) (simp add: first_failure_Cons first_failure_def)
next
  case (Cons sec secs)
  obtain b t f where sec: "sec = (b, t, f)" by (cases sec)
  have IH: "\<exists>rs. map fst rs = map (fst \<circ> snd) (filter fst secs) \<and> (\<forall>r \<in> set rs. section_reported r) \<and>
    ap_stdout (fst (foldl show_section (a, e0) secs)) = ap_stdout a @ concat (map section_text rs) \<and>
    ap_stderr (fst (foldl show_section (a, e0) secs)) = ap_stderr a \<and>
    snd (foldl show_section (a, e0) secs) = first_failure (e0 # map (snd \<circ> snd) rs)" for a e0
    using Cons.prems by (intro Cons.IH) auto
  show ?case
  proof (cases b)
    case False
    then have "show_section (a, e0) sec = (a, e0)" by (simp add: show_section_def sec)
    then show ?thesis using IH [of a e0] False by (simp add: sec o_def)
  next
    case True
    let ?r = "RecordNativeAppShowError t (f a) e0"
    have "section_shown t f" using Cons.prems [of b t f] sec by simp
    then obtain body e where r: "section_reported (t, body, e)" "?r = (fst ?r, if e0 = IPSEC_OK then e else e0)"
      "ap_stdout (fst ?r) = ap_stdout a @ section_text (t, body, e)" "ap_stderr (fst ?r) = ap_stderr a"
      using RecordNativeAppShowError_shown [of t f a e0] by blast
    have step: "show_section (a, e0) sec = ?r" using True by (simp add: show_section_def sec)
    obtain rs where rs: "map fst rs = map (fst \<circ> snd) (filter fst secs)" "\<forall>r \<in> set rs. section_reported r"
      "ap_stdout (fst (foldl show_section ?r secs)) = ap_stdout (fst ?r) @ concat (map section_text rs)"
      "ap_stderr (fst (foldl show_section ?r secs)) = ap_stderr (fst ?r)"
      "snd (foldl show_section ?r secs) = first_failure (snd ?r # map (snd \<circ> snd) rs)"
      using IH [of "fst ?r" "snd ?r"] by auto
    have "snd ?r = (if e0 = IPSEC_OK then e else e0)" using r(2) by (metis snd_conv)
    then have "snd (foldl show_section ?r secs) = first_failure (e0 # e # map (snd \<circ> snd) rs)"
      using rs(5) by (simp add: first_failure_Cons)
    then show ?thesis
      using rs(1-4) r(1,3,4) True unfolding foldl.simps step
      by (intro exI [of _ "(t, body, e) # rs"]) (simp add: sec o_def del: foldl.simps)
  qed
qed



text \<open>An unknown scope, or a name for a scope without names, prints nothing.\<close>

lemma ShowNativeAppInformation_rejects:
  assumes "cstr scope \<notin> set show_scopes \<or> name \<noteq> None \<and> cstr scope \<notin> {''connections'', ''ike'', ''child''}"
  shows "ShowNativeAppInformation mem (Some scope) bDetail name a = (a, IPSEC_ERR_INVALID_ARGUMENT)"
proof -
  have iss: "strcmp_eq s scope \<longleftrightarrow> cstr scope = s" if "s \<in> set show_scopes" for s
    using show_scopes_clean [OF that] by (auto simp: strcmp_eq_def)
  show ?thesis
    using assms iss by (auto simp: ShowNativeAppInformation_def list_ex_iff show_scopes_def)
qed

end
