(* ===== verification/AppReport.thy ===== *)
theory AppReport
  imports AppShow AppCatalog AppPeer
begin

section \<open>Reports of an algorithm test (\<open>app/algorithm_report.c\<close>)\<close>

text \<open>
  A sweep over the algorithms works on the application (\<open>ag_App\<close>) and on files, a clock and a datagram
  socket of its own.  \<open>AlgorithmWorld\<close> holds the outcomes of its calls still to come, the contents
  of the files it writes, the number of its open files and sockets, the messages it sent with
  their addresses, the paths given to \<open>mkdir\<close>, and the stream of the run's log.  As everywhere, a call whose outcome is missing fails.

  The second part of this theory holds the texts of the report files, one definition per
  \<open>fprintf\<close>, and the functions that write them.  The pointers of the callers are not NULL.
\<close>

abbreviation NATIVE_APP_ALGORITHM_RUN_ID_LENGTH :: nat where "NATIVE_APP_ALGORITHM_RUN_ID_LENGTH \<equiv> 96"
abbreviation NATIVE_APP_ALGORITHM_RESULT_LENGTH :: nat where "NATIVE_APP_ALGORITHM_RESULT_LENGTH \<equiv> 128"

subsection \<open>Results\<close>

datatype NativeAppAlgorithmResult =
    NATIVE_APP_ALGORITHM_RESULT_PASS
  | NATIVE_APP_ALGORITHM_RESULT_FAIL_CONFIG
  | NATIVE_APP_ALGORITHM_RESULT_FAIL_SYNC
  | NATIVE_APP_ALGORITHM_RESULT_FAIL_IKE
  | NATIVE_APP_ALGORITHM_RESULT_FAIL_CHILD
  | NATIVE_APP_ALGORITHM_RESULT_FAIL_PROPOSAL
  | NATIVE_APP_ALGORITHM_RESULT_FAIL_PFS
  | NATIVE_APP_ALGORITHM_RESULT_FAIL_ESN
  | NATIVE_APP_ALGORITHM_RESULT_FAIL_XFRM
  | NATIVE_APP_ALGORITHM_RESULT_FAIL_DATA_PATH
  | NATIVE_APP_ALGORITHM_RESULT_FAIL_CLEANUP
  | NATIVE_APP_ALGORITHM_RESULT_STOPPED

record NativeAppAlgorithmCleanup =
  cu_eTerminateError :: IpsecError
  cu_eWaitRemovedError :: IpsecError
  cu_eRemoveConnectionError :: IpsecError
  cu_eFinalVerifyError :: IpsecError
  cu_ePeerError :: IpsecError
  cu_uiTerminateAttempts :: nat
  cu_uiWaitRemovedAttempts :: nat
  cu_uiRemoveConnectionAttempts :: nat
  cu_uiPeerAttempts :: nat
  cu_bRecovered :: bool
  cu_bLocalVerified :: bool

record NativeAppAlgorithmCaseResult =
  cr_Case :: NativeAppAlgorithmCase
  cr_eResult :: NativeAppAlgorithmResult
  cr_eError :: IpsecError
  cr_eCleanupError :: IpsecError
  cr_Cleanup :: NativeAppAlgorithmCleanup
  cr_uiReqid :: nat
  cr_uiXfrmStateCount :: nat
  cr_uiXfrmPolicyCount :: nat
  cr_ullDurationMs :: nat
  cr_acNegotiatedIke :: cbuf
  cr_acNegotiatedEsp :: cbuf
  cr_acPeerResult :: cbuf
  cr_bIkeVerified :: bool
  cr_bEspVerified :: bool
  cr_bXfrmVerified :: bool
  cr_bDataPathVerified :: bool

definition zero_cleanup :: NativeAppAlgorithmCleanup where
  "zero_cleanup =
     \<lparr>cu_eTerminateError = IPSEC_OK, cu_eWaitRemovedError = IPSEC_OK, cu_eRemoveConnectionError = IPSEC_OK,
      cu_eFinalVerifyError = IPSEC_OK, cu_ePeerError = IPSEC_OK, cu_uiTerminateAttempts = 0,
      cu_uiWaitRemovedAttempts = 0, cu_uiRemoveConnectionAttempts = 0, cu_uiPeerAttempts = 0,
      cu_bRecovered = False, cu_bLocalVerified = False\<rparr>"

definition zero_case_result :: NativeAppAlgorithmCaseResult where
  "zero_case_result =
     \<lparr>cr_Case = zero_case, cr_eResult = NATIVE_APP_ALGORITHM_RESULT_PASS, cr_eError = IPSEC_OK,
      cr_eCleanupError = IPSEC_OK, cr_Cleanup = zero_cleanup, cr_uiReqid = 0, cr_uiXfrmStateCount = 0,
      cr_uiXfrmPolicyCount = 0, cr_ullDurationMs = 0,
      cr_acNegotiatedIke = replicate IPSEC_PROPOSAL_LENGTH NUL,
      cr_acNegotiatedEsp = replicate IPSEC_PROPOSAL_LENGTH NUL,
      cr_acPeerResult = replicate NATIVE_APP_ALGORITHM_RESULT_LENGTH NUL,
      cr_bIkeVerified = False, cr_bEspVerified = False, cr_bXfrmVerified = False,
      cr_bDataPathVerified = False\<rparr>"

primrec GetNativeAppAlgorithmResultName :: "NativeAppAlgorithmResult \<Rightarrow> string" where
  "GetNativeAppAlgorithmResultName NATIVE_APP_ALGORITHM_RESULT_PASS = ''PASS''"
| "GetNativeAppAlgorithmResultName NATIVE_APP_ALGORITHM_RESULT_FAIL_CONFIG = ''FAIL_CONFIG''"
| "GetNativeAppAlgorithmResultName NATIVE_APP_ALGORITHM_RESULT_FAIL_SYNC = ''FAIL_SYNC''"
| "GetNativeAppAlgorithmResultName NATIVE_APP_ALGORITHM_RESULT_FAIL_IKE = ''FAIL_IKE''"
| "GetNativeAppAlgorithmResultName NATIVE_APP_ALGORITHM_RESULT_FAIL_CHILD = ''FAIL_CHILD''"
| "GetNativeAppAlgorithmResultName NATIVE_APP_ALGORITHM_RESULT_FAIL_PROPOSAL = ''FAIL_PROPOSAL''"
| "GetNativeAppAlgorithmResultName NATIVE_APP_ALGORITHM_RESULT_FAIL_PFS = ''FAIL_PFS''"
| "GetNativeAppAlgorithmResultName NATIVE_APP_ALGORITHM_RESULT_FAIL_ESN = ''FAIL_ESN''"
| "GetNativeAppAlgorithmResultName NATIVE_APP_ALGORITHM_RESULT_FAIL_XFRM = ''FAIL_XFRM''"
| "GetNativeAppAlgorithmResultName NATIVE_APP_ALGORITHM_RESULT_FAIL_DATA_PATH = ''FAIL_DATA_PATH''"
| "GetNativeAppAlgorithmResultName NATIVE_APP_ALGORITHM_RESULT_FAIL_CLEANUP = ''FAIL_CLEANUP''"
| "GetNativeAppAlgorithmResultName NATIVE_APP_ALGORITHM_RESULT_STOPPED = ''STOPPED''"

subsection \<open>Calls of a sweep\<close>

text \<open>
  \<open>LocalTime\<close> carries the year, month, day, hour, minute and second of \<open>localtime_r\<close>;
  \<open>ReceiveFailed\<close> the error number of \<open>recvfrom\<close> and what the local variables held before it.
\<close>

datatype sweep_event =
    SweepOk
  | SweepFailed
  | SweepExists
  | LocalTime nat nat nat nat nat nat
  | SweepPid nat
  | SweepClock nat nat
  | SweepSent nat
  | SweepReceived sockaddr_storage bytes
  | ReceiveFailed errno bytes sockaddr_storage

text \<open>An open file: its name and the position of the next character.\<close>

record SweepFile =
  sf_path :: string
  sf_position :: nat

record AlgorithmWorld =
  ag_App :: NativeApp
  ag_trace :: "sweep_event list"
  ag_files :: "string \<Rightarrow> string option"
  ag_open :: nat
  ag_sent :: "(sockaddr_storage \<times> string) list"
  ag_made :: "string list"
  ag_log :: "SweepFile option"

definition sweep_next :: "AlgorithmWorld \<Rightarrow> sweep_event option \<times> AlgorithmWorld" where
  "sweep_next g =
     (case ag_trace g of [] \<Rightarrow> (None, g) | ev # evs \<Rightarrow> (Some ev, g\<lparr>ag_trace := evs\<rparr>))"

definition sweep_call :: "AlgorithmWorld \<Rightarrow> bool \<times> AlgorithmWorld" where
  "sweep_call g = (let (ev, g) = sweep_next g in (ev = Some SweepOk, g))"

text \<open>\<open>mkdir\<close>: whether the directory was made or is there already.\<close>

definition sys_mkdir :: "string \<Rightarrow> AlgorithmWorld \<Rightarrow> bool \<times> AlgorithmWorld" where
  "sys_mkdir pcPath g =
     (let (ev, g) = sweep_next (g\<lparr>ag_made := ag_made g @ [pcPath]\<rparr>)
      in (ev = Some SweepOk \<or> ev = Some SweepExists, g))"

text \<open>\<open>fopen\<close> truncates the file in the modes \<open>w\<close> and \<open>w+b\<close>; in the mode \<open>a\<close> it goes on at its end.\<close>

definition sys_fopen :: "string \<Rightarrow> bool \<Rightarrow> AlgorithmWorld \<Rightarrow> SweepFile option \<times> AlgorithmWorld" where
  "sys_fopen pcPath bAppend g =
     (let (bOpened, g) = sweep_call g;
          content = (if bAppend then case ag_files g (cstr pcPath) of Some t \<Rightarrow> t | None \<Rightarrow> [] else [])
      in if bOpened
         then (Some \<lparr>sf_path = cstr pcPath, sf_position = length content\<rparr>,
               g\<lparr>ag_files := (ag_files g)(cstr pcPath \<mapsto> content), ag_open := ag_open g + 1\<rparr>)
         else (None, g))"

definition put_at :: "nat \<Rightarrow> string \<Rightarrow> string \<Rightarrow> string" where
  "put_at pos t content =
     take pos content @ replicate (pos - length content) NUL @ t @ drop (pos + length t) content"

definition sys_fputs :: "string \<Rightarrow> SweepFile \<Rightarrow> AlgorithmWorld \<Rightarrow> SweepFile \<times> AlgorithmWorld" where
  "sys_fputs t f g =
     (f\<lparr>sf_position := sf_position f + length t\<rparr>,
      g\<lparr>ag_files := (ag_files g)(sf_path f \<mapsto> put_at (sf_position f) t
          (case ag_files g (sf_path f) of Some c \<Rightarrow> c | None \<Rightarrow> []))\<rparr>)"

definition sys_fclose :: "SweepFile \<Rightarrow> AlgorithmWorld \<Rightarrow> AlgorithmWorld" where
  "sys_fclose f g = g\<lparr>ag_open := ag_open g - 1\<rparr>"

definition sweep_printf :: "string \<Rightarrow> AlgorithmWorld \<Rightarrow> AlgorithmWorld" where
  "sweep_printf t g = g\<lparr>ag_App := app_printf t (ag_App g)\<rparr>"

definition sweep_eprintf :: "string \<Rightarrow> AlgorithmWorld \<Rightarrow> AlgorithmWorld" where
  "sweep_eprintf t g = g\<lparr>ag_App := app_eprintf t (ag_App g)\<rparr>"

text \<open>An operation of the lifecycle, and a query of the library.\<close>

definition in_app :: "(NativeApp \<Rightarrow> NativeApp outcome) \<Rightarrow> AlgorithmWorld \<Rightarrow> AlgorithmWorld outcome" where
  "in_app f g = (let (a, eError) = f (ag_App g) in (g\<lparr>ag_App := a\<rparr>, eError))"

definition ask :: "(Ipsec \<Rightarrow> ('a \<times> Ipsec) outcome) \<Rightarrow> AlgorithmWorld \<Rightarrow> ('a \<times> AlgorithmWorld) outcome" where
  "ask f g =
     (let ((x, w), eError) = f (ap_ipsec (ag_App g))
      in ((x, g\<lparr>ag_App := (ag_App g)\<lparr>ap_ipsec := w\<rparr>\<rparr>), eError))"

subsection \<open>Paths and directories\<close>

definition joined_path :: "string \<Rightarrow> string \<Rightarrow> string" where
  "joined_path pcDirectory pcName =
     (let d = cstr pcDirectory in
      d @ (if d \<noteq> [] \<and> last d = CHR ''/'' then [] else ''/'') @ cstr pcName)"

definition JoinReportPath :: "cbuf \<Rightarrow> string \<Rightarrow> string \<Rightarrow> cbuf outcome" where
  "JoinReportPath pcPath pcDirectory pcName =
     (if length pcPath = 0 then (pcPath, IPSEC_ERR_INVALID_ARGUMENT)
      else
        let (pcPath, bFits) = snprintf_to pcPath (joined_path pcDirectory pcName)
        in (pcPath, if bFits then IPSEC_OK else IPSEC_ERR_BUFFER_TOO_SMALL))"

text \<open>The prefixes of a path that end before a slash; the first character is not looked at.\<close>

definition parent_paths :: "string \<Rightarrow> string list" where
  "parent_paths p = map (\<lambda>i. take i p) (filter (\<lambda>i. p ! i = CHR ''/'') [1..<length p])"

text \<open>Whether each of the directories was made, up to the first that was not.\<close>

primrec mkdir_all :: "string list \<Rightarrow> AlgorithmWorld \<Rightarrow> bool \<times> AlgorithmWorld" where
  "mkdir_all [] g = (True, g)"
| "mkdir_all (p # ps) g = (let (bMade, g) = sys_mkdir p g in if bMade then mkdir_all ps g else (False, g))"

definition CreateReportDirectory :: "string \<Rightarrow> AlgorithmWorld \<Rightarrow> AlgorithmWorld outcome" where
  "CreateReportDirectory pcPath g =
     (if NATIVE_APP_PATH_LENGTH \<le> strlen pcPath then (g, IPSEC_ERR_BUFFER_TOO_SMALL)
      else
        let (bMade, g) = mkdir_all (parent_paths (cstr pcPath)) g in
        if \<not> bMade then (g, IPSEC_ERR_FILE_OPEN)
        else let (bMade, g) = sys_mkdir (cstr pcPath) g in (g, if bMade then IPSEC_OK else IPSEC_ERR_FILE_OPEN))"

definition OpenReportFile :: "string \<Rightarrow> string \<Rightarrow> bool \<Rightarrow> AlgorithmWorld \<Rightarrow> SweepFile option \<times> AlgorithmWorld" where
  "OpenReportFile pcDirectory pcName bAppend g =
     (let (acPath, eError) = JoinReportPath (replicate NATIVE_APP_PATH_LENGTH NUL) pcDirectory pcName in
      if eError \<noteq> IPSEC_OK then (None, g) else sys_fopen acPath bAppend g)"

text \<open>A file that is opened, filled and closed when it could be opened.\<close>

definition save_report :: "string \<Rightarrow> string \<Rightarrow> bool \<Rightarrow> string \<Rightarrow> AlgorithmWorld \<Rightarrow> bool \<times> AlgorithmWorld" where
  "save_report pcDirectory pcName bAppend t g =
     (let (pFile, g) = OpenReportFile pcDirectory pcName bAppend g in
      case pFile of
        None \<Rightarrow> (False, g)
      | Some f \<Rightarrow> let (f, g) = sys_fputs t f g in (True, sys_fclose f g))"


subsection \<open>Texts\<close>

definition GetReportMode :: "IpsecMode \<Rightarrow> string" where
  "GetReportMode eMode =
     (case eMode of
        IPSEC_MODE_TUNNEL \<Rightarrow> ''tunnel''
      | IPSEC_MODE_TRANSPORT \<Rightarrow> ''transport''
      | IPSEC_MODE_BEET \<Rightarrow> ''beet''
      | IPSEC_MODE_UNKNOWN \<Rightarrow> ''unknown'')"

text \<open>An unset mode is none of the three.\<close>

definition config_mode :: "NativeAppConfig \<Rightarrow> string" where
  "config_mode c = (case nc_eMode c of None \<Rightarrow> GetReportMode IPSEC_MODE_UNKNOWN | Some m \<Rightarrow> GetReportMode m)"

definition GetReportFamily :: "IpsecAddressFamily \<Rightarrow> string" where
  "GetReportFamily eFamily = (if eFamily = IPSEC_ADDRESS_FAMILY_IPV6 then ''IPv6'' else ''IPv4'')"

definition GetReportDirection :: "IpsecXfrmDirection \<Rightarrow> string" where
  "GetReportDirection eDirection =
     (case eDirection of
        IPSEC_XFRM_DIRECTION_IN \<Rightarrow> ''IN''
      | IPSEC_XFRM_DIRECTION_OUT \<Rightarrow> ''OUT''
      | IPSEC_XFRM_DIRECTION_FORWARD \<Rightarrow> ''FWD''
      | IPSEC_XFRM_DIRECTION_UNKNOWN \<Rightarrow> ''UNKNOWN'')"

definition passed_text :: "bool \<Rightarrow> string" where
  "passed_text b = (if b then ''PASS'' else ''FAIL'')"

definition or_na :: "cbuf \<Rightarrow> string" where
  "or_na t = (if t ! 0 = NUL then ''N/A'' else cstr t)"

definition GetXfrmErrorTotal :: "IpsecXfrmStatistics \<Rightarrow> nat" where
  "GetXfrmErrorTotal s =
     u64 (ullInError s + ullInBufferError s +
        ullInHeaderError s + ullInNoStates s +
        ullInStateProtocolError s + ullInStateModeError s +
        ullInStateSequenceError s + ullInStateExpired s +
        ullInStateMismatch s + ullInStateInvalid s +
        ullInTemplateMismatch s + ullOutError s +
        ullOutBundleGenerationError s +
        ullOutBundleCheckError s + ullOutNoStates s +
        ullOutStateProtocolError s + ullOutStateModeError s +
        ullOutStateSequenceError s + ullOutStateExpired s +
        ullOutPolicyBlock s)"

definition error_line :: "IpsecError \<Rightarrow> string" where
  "error_line eError = ''error='' @ GetIpsecErrorString eError @ nl"

definition query_line :: "IpsecError \<Rightarrow> nat \<Rightarrow> string" where
  "query_line eError uiCount = ''query='' @ GetIpsecErrorString eError @ '' count='' @ dec uiCount @ nl"

text \<open>The lines of a list, one \<open>fprintf\<close> for each item, when the query succeeded.\<close>

definition item_lines :: "IpsecError \<Rightarrow> ('a \<Rightarrow> string) \<Rightarrow> 'a list \<Rightarrow> string" where
  "item_lines eError line items = (if eError = IPSEC_OK then concat (map line items) else [])"

definition xfrm_statistics_report :: "IpsecXfrmStatistics \<Rightarrow> string" where
  "xfrm_statistics_report s =
     ''present_mask=0x'' @ pad_zero 16 (hex (ullPresentMask s)) @ nl @
     ''in_error='' @ dec (ullInError s) @ nl @ ''in_buffer_error='' @ dec (ullInBufferError s) @ nl @
     ''in_header_error='' @ dec (ullInHeaderError s) @ nl @ ''in_no_states='' @ dec (ullInNoStates s) @ nl @
     ''in_state_protocol_error='' @ dec (ullInStateProtocolError s) @ nl @
     ''in_state_mode_error='' @ dec (ullInStateModeError s) @ nl @
     ''in_state_sequence_error='' @ dec (ullInStateSequenceError s) @ nl @
     ''in_state_expired='' @ dec (ullInStateExpired s) @ nl @
     ''in_state_mismatch='' @ dec (ullInStateMismatch s) @ nl @
     ''in_state_invalid='' @ dec (ullInStateInvalid s) @ nl @
     ''in_template_mismatch='' @ dec (ullInTemplateMismatch s) @ nl @
     ''out_error='' @ dec (ullOutError s) @ nl @
     ''out_bundle_generation_error='' @ dec (ullOutBundleGenerationError s) @ nl @
     ''out_bundle_check_error='' @ dec (ullOutBundleCheckError s) @ nl @
     ''out_no_states='' @ dec (ullOutNoStates s) @ nl @
     ''out_state_protocol_error='' @ dec (ullOutStateProtocolError s) @ nl @
     ''out_state_mode_error='' @ dec (ullOutStateModeError s) @ nl @
     ''out_state_sequence_error='' @ dec (ullOutStateSequenceError s) @ nl @
     ''out_state_expired='' @ dec (ullOutStateExpired s) @ nl @
     ''out_policy_block='' @ dec (ullOutPolicyBlock s) @ nl @
     ''error_total='' @ dec (GetXfrmErrorTotal s) @ nl"

definition daemon_report :: "IpsecDaemonStatus \<Rightarrow> string" where
  "daemon_report s =
     ''daemon='' @ cstr (ds_acDaemon s) @ nl @ ''version='' @ cstr (ds_acVersion s) @ nl @
     ''system='' @ cstr (ds_acSystemName s) @ nl @ ''release='' @ cstr (ds_acSystemRelease s) @ nl @
     ''machine='' @ cstr (ds_acMachine s) @ nl @
     ''uptime_seconds='' @ dec (ds_ullUptimeSeconds s) @ nl @
     ''worker_total='' @ dec (ds_uiWorkerTotal s) @ nl @ ''worker_idle='' @ dec (ds_uiWorkerIdle s) @ nl @
     ''ike_total='' @ dec (ds_uiIkeSaTotal s) @ nl @ ''ike_half_open='' @ dec (ds_uiIkeSaHalfOpen s) @ nl"

definition algorithm_report_line :: "IpsecAlgorithmInfo \<Rightarrow> string" where
  "algorithm_report_line i =
     ''type='' @ cstr (ai_acType i) @ '' name='' @ cstr (ai_acName i) @ '' plugin='' @ cstr (ai_acPlugin i) @ nl"

definition interface_report_line :: "IpsecInterfaceInfo \<Rightarrow> string" where
  "interface_report_line i =
     ''ifindex='' @ dec (ii_uiIndex i) @ '' name='' @ cstr (ii_acName i) @ '' up='' @ yesno_text (ii_bUp i) @
     '' running='' @ yesno_text (ii_bRunning i) @ '' carrier='' @ yesno_text (ii_bCarrier i) @
     '' mtu='' @ dec (ii_uiMtu i) @ '' mac='' @ cstr (ii_acMacAddress i) @
     '' flags=0x'' @ pad_zero 8 (hex (ii_uiFlags i)) @ nl"

definition address_report_line :: "IpsecAddressInfo \<Rightarrow> string" where
  "address_report_line i =
     ''ifindex='' @ dec (ia_uiInterfaceIndex i) @ '' interface='' @ cstr (ia_acInterfaceName i) @
     '' family='' @ GetReportFamily (ia_eFamily i) @ '' address='' @ cstr (ia_acAddress i) @ ''/'' @
     dec (ia_ucPrefixLength i) @ '' scope='' @ dec (ia_ucScope i) @ nl"

definition route_report_line :: "IpsecRouteInfo \<Rightarrow> string" where
  "route_report_line i =
     ''family='' @ GetReportFamily (ir_eFamily i) @ '' destination='' @ cstr (ir_acDestination i) @ ''/'' @
     dec (ir_ucPrefixLength i) @ '' gateway='' @ cstr (ir_acGateway i) @ '' source='' @ cstr (ir_acSource i) @
     '' ifindex='' @ dec (ir_uiInterfaceIndex i) @ '' interface='' @ cstr (ir_acInterfaceName i) @
     '' metric='' @ dec (ir_uiMetric i) @ '' table='' @ dec (ir_uiTable i) @
     '' protocol='' @ dec (ir_ucProtocol i) @ '' scope='' @ dec (ir_ucScope i) @ nl"

subsection \<open>What is saved of the daemon and the kernel\<close>

definition SaveXfrmStatistics :: "(nat \<Rightarrow> bool) \<Rightarrow> string \<Rightarrow> string \<Rightarrow> AlgorithmWorld \<Rightarrow> AlgorithmWorld" where
  "SaveXfrmStatistics mem pcDirectory pcName g =
     (let ((Stats, g), eError) =
            ask (\<lambda>w. swap_result (GetIpsecXfrmStatistics mem (w, zero_statistics))) g
      in snd (save_report pcDirectory pcName False
           (if eError = IPSEC_OK then xfrm_statistics_report Stats else error_line eError) g))"

definition SaveDaemonStatus :: "string \<Rightarrow> string \<Rightarrow> AlgorithmWorld \<Rightarrow> AlgorithmWorld" where
  "SaveDaemonStatus pcDirectory pcName g =
     (let ((Status, g), eError) = ask GetIpsecDaemonStatus g
      in snd (save_report pcDirectory pcName False
           (if eError = IPSEC_OK then daemon_report Status else error_line eError) g))"

definition SaveAlgorithms :: "(nat \<Rightarrow> bool) \<Rightarrow> string \<Rightarrow> AlgorithmWorld \<Rightarrow> AlgorithmWorld" where
  "SaveAlgorithms mem pcDirectory g =
     (let ((List, g), eError) = ask (GetIpsecAlgorithms mem) g
      in snd (save_report pcDirectory ''daemon_algorithms.txt'' False
           (query_line eError (length List) @ item_lines eError algorithm_report_line List) g))"

definition SaveNetwork :: "(nat \<Rightarrow> bool) \<Rightarrow> string \<Rightarrow> AlgorithmWorld \<Rightarrow> AlgorithmWorld" where
  "SaveNetwork mem pcDirectory g =
     (let ((Interfaces, g), eInterfaces) = ask (\<lambda>w. swap_result (GetIpsecInterfaces mem w)) g;
          ((Addresses, g), eAddresses) = ask (\<lambda>w. swap_result (GetIpsecAddresses mem w)) g;
          ((Routes, g), eRoutes) = ask (\<lambda>w. swap_result (GetIpsecRoutes mem w)) g;
          g = snd (save_report pcDirectory ''network_interfaces.txt'' False
            (query_line eInterfaces (length Interfaces) @
             item_lines eInterfaces interface_report_line Interfaces) g);
          g = snd (save_report pcDirectory ''network_addresses.txt'' False
            (query_line eAddresses (length Addresses) @ item_lines eAddresses address_report_line Addresses) g)
      in snd (save_report pcDirectory ''network_routes.txt'' False
            (query_line eRoutes (length Routes) @ item_lines eRoutes route_report_line Routes) g))"

text \<open>The five queries of the final state; each is made whatever the others give.\<close>

type_synonym final_state =
  "(IpsecConnectionInfo list \<times> IpsecError) \<times> (IpsecIkeSaInfo list \<times> IpsecError) \<times>
   (IpsecChildSaInfo list \<times> IpsecError) \<times> (IpsecXfrmStateInfo list \<times> IpsecError) \<times>
   (IpsecXfrmPolicyInfo list \<times> IpsecError)"

definition query_final :: "(nat \<Rightarrow> bool) \<Rightarrow> AlgorithmWorld \<Rightarrow> final_state \<times> AlgorithmWorld" where
  "query_final mem g =
     (let ((Connections, g), eConnections) = ask (GetIpsecConnections mem) g;
          ((Ikes, g), eIkes) = ask (GetIpsecIkeSas mem) g;
          ((Children, g), eChildren) = ask (GetIpsecChildSas mem) g;
          ((States, g), eStates) = ask (\<lambda>w. swap_result (GetIpsecXfrmStates mem w)) g;
          ((Policies, g), ePolicies) = ask (\<lambda>w. swap_result (GetIpsecXfrmPolicies mem w)) g
      in (((Connections, eConnections), (Ikes, eIkes), (Children, eChildren), (States, eStates),
           (Policies, ePolicies)), g))"

definition final_line :: "string \<Rightarrow> string \<Rightarrow> 'a list \<times> IpsecError \<Rightarrow> string" where
  "final_line query name r =
     query @ ''_query='' @ GetIpsecErrorString (snd r) @ nl @ name @ ''='' @ dec (length (fst r)) @ nl"

definition SaveFinalState :: "(nat \<Rightarrow> bool) \<Rightarrow> string \<Rightarrow> AlgorithmWorld \<Rightarrow> AlgorithmWorld" where
  "SaveFinalState mem pcDirectory g =
     (let ((Connections, Ikes, Children, States, Policies), g) = query_final mem g
      in snd (save_report pcDirectory ''final_state.txt'' False
           (final_line ''connections'' ''connections'' Connections @ final_line ''ike'' ''ike'' Ikes @
            final_line ''child'' ''child'' Children @ final_line ''xfrm_state'' ''xfrm_states'' States @
            final_line ''xfrm_policy'' ''xfrm_policies'' Policies) g))"

subsection \<open>The report of a run\<close>

definition run_context_text :: "NativeAppConfig \<Rightarrow> NativeAppAlgorithmMode \<Rightarrow> string \<Rightarrow> nat \<Rightarrow> string" where
  "run_context_text c eMode pcRole uiRequested =
     ''role='' @ cstr pcRole @ nl @ ''mode='' @ GetNativeAppAlgorithmModeName eMode @ nl @
     ''requested='' @ dec uiRequested @ nl @
     ''local_address='' @ cstr (nc_acLocalAddress c) @ nl @
     ''remote_address='' @ cstr (nc_acRemoteAddress c) @ nl @
     ''local_id='' @ cstr (nc_acLocalId c) @ nl @ ''remote_id='' @ cstr (nc_acRemoteId c) @ nl @
     ''connection='' @ cstr (nc_acConnectionName c) @ nl @ ''child='' @ cstr (nc_acChildName c) @ nl @
     ''ipsec_mode='' @ config_mode c @ nl @ ''vici_socket='' @ cstr (nc_acViciSocket c) @ nl @
     ''timeout_ms='' @ dec (nc_uiTimeoutMs c) @ nl"

definition matrix_header :: string where
  "matrix_header =
     ''number,case_id,role,ike_proposal,esp_proposal,'' @
     ''negotiated_ike,negotiated_esp,reqid,xfrm_states,'' @
     ''xfrm_policies,ike_result,esp_result,xfrm_result,'' @
     ''data_path_result,duration_ms,peer_result,result,error,cleanup,'' @
     ''cleanup_terminate,cleanup_wait_removed,'' @
     ''cleanup_remove_connection,cleanup_final_verify,cleanup_peer,'' @
     ''cleanup_terminate_attempts,cleanup_wait_attempts,'' @
     ''cleanup_remove_attempts,cleanup_peer_attempts,'' @
     ''cleanup_recovered,cleanup_local_verified'' @ nl"

definition WriteNativeAppAlgorithmRunReport ::
  "(nat \<Rightarrow> bool) \<Rightarrow> NativeAppConfig \<Rightarrow> NativeAppAlgorithmMode \<Rightarrow> string \<Rightarrow> string \<Rightarrow> nat \<Rightarrow> bool \<Rightarrow>
   AlgorithmWorld \<Rightarrow> AlgorithmWorld outcome" where
  "WriteNativeAppAlgorithmRunReport mem c eMode pcRole pcResultDirectory uiRequested bFinal g =
     (if \<not> bFinal then
        let (bSaved, g) = save_report pcResultDirectory ''run_context.txt'' False
              (run_context_text c eMode pcRole uiRequested) g
        in if \<not> bSaved then (g, IPSEC_ERR_FILE_OPEN)
           else
             let g = SaveDaemonStatus pcResultDirectory ''daemon_status_initial.txt'' g;
                 g = SaveAlgorithms mem pcResultDirectory g;
                 g = SaveNetwork mem pcResultDirectory g;
                 g = SaveXfrmStatistics mem pcResultDirectory ''xfrm_statistics_initial.txt'' g
             in (snd (save_report pcResultDirectory ''matrix_summary.csv'' False matrix_header g), IPSEC_OK)
      else
        let g = SaveDaemonStatus pcResultDirectory ''daemon_status_final.txt'' g;
            g = SaveXfrmStatistics mem pcResultDirectory ''xfrm_statistics_final.txt'' g
        in (SaveFinalState mem pcResultDirectory g, IPSEC_OK))"

subsection \<open>The report of a case\<close>

definition case_config_text ::
  "NativeAppConfig \<Rightarrow> NativeAppAlgorithmCase \<Rightarrow> string \<Rightarrow> nat \<Rightarrow> nat \<Rightarrow> string" where
  "case_config_text c k pcRole uiOrdinal uiRequested =
     ''number='' @ dec (ac_uiNumber k) @ nl @ ''ordinal='' @ dec uiOrdinal @ nl @
     ''requested='' @ dec uiRequested @ nl @
     ''case_id='' @ cstr (ac_acId k) @ nl @ ''role='' @ cstr pcRole @ nl @
     ''local_address='' @ cstr (nc_acLocalAddress c) @ nl @
     ''remote_address='' @ cstr (nc_acRemoteAddress c) @ nl @
     ''local_id='' @ cstr (nc_acLocalId c) @ nl @ ''remote_id='' @ cstr (nc_acRemoteId c) @ nl @
     ''connection='' @ cstr (nc_acConnectionName c) @ nl @ ''child='' @ cstr (nc_acChildName c) @ nl @
     ''ike_proposal='' @ cstr (ac_acIkeProposal k) @ nl @
     ''esp_proposal='' @ cstr (ac_acEspProposal k) @ nl @
     ''ipsec_mode='' @ config_mode c @ nl @
     ''separate_child_exchange='' @ yesno_text (ac_bSeparateChildExchange k) @ nl @
     ''expected_child_ke='' @ or_na (ac_acExpectedChildKe k) @ nl @
     ''expect_esn='' @ yesno_text (ac_bExpectEsn k) @ nl @
     ''expect_no_esn='' @ yesno_text (ac_bExpectNoEsn k) @ nl"

definition case_log_text :: "NativeAppAlgorithmCase \<Rightarrow> string \<Rightarrow> nat \<Rightarrow> nat \<Rightarrow> string" where
  "case_log_text k pcRole uiOrdinal uiRequested =
     ''[INFO] CASE '' @ dec uiOrdinal @ ''/'' @ dec uiRequested @ '' ['' @ cstr (ac_acId k) @ ''] role='' @
     cstr pcRole @ nl @
     ''[INFO] IKE proposal: '' @ cstr (ac_acIkeProposal k) @ nl @
     ''[INFO] ESP proposal: '' @ cstr (ac_acEspProposal k) @ nl"

text \<open>The directory goes to the array \<open>pcCaseDirectory\<close> of the caller.\<close>

definition CreateNativeAppAlgorithmCaseReport ::
  "NativeAppConfig \<Rightarrow> NativeAppAlgorithmCase \<Rightarrow> string \<Rightarrow> string \<Rightarrow> nat \<Rightarrow> nat \<Rightarrow> cbuf \<times> AlgorithmWorld \<Rightarrow>
   (cbuf \<times> AlgorithmWorld) outcome" where
  "CreateNativeAppAlgorithmCaseReport c k pcRole pcResultDirectory uiOrdinal uiRequested s =
     (let (pcCaseDirectory, g) = s;
          (acDirectoryName, bFits) = snprintf_to (replicate NATIVE_APP_PATH_LENGTH NUL)
            (''case_'' @ dec_pad 3 (ac_uiNumber k) @ ''_'' @ cstr (ac_acId k))
      in if \<not> bFits then ((pcCaseDirectory, g), IPSEC_ERR_BUFFER_TOO_SMALL)
         else
           let (pcCaseDirectory, eError) = JoinReportPath pcCaseDirectory pcResultDirectory acDirectoryName;
               (g, eError) =
                 (if eError = IPSEC_OK then CreateReportDirectory pcCaseDirectory g else (g, eError))
           in if eError \<noteq> IPSEC_OK then ((pcCaseDirectory, g), eError)
              else
                let (bSaved, g) = save_report pcCaseDirectory ''case_config.txt'' False
                      (case_config_text c k pcRole uiOrdinal uiRequested) g
                in if \<not> bSaved then ((pcCaseDirectory, g), IPSEC_ERR_FILE_OPEN)
                   else ((pcCaseDirectory,
                          snd (save_report pcCaseDirectory ''application.log'' False
                            (case_log_text k pcRole uiOrdinal uiRequested) g)), IPSEC_OK))"

definition ike_snapshot_line :: "IpsecIkeSaInfo \<Rightarrow> string" where
  "ike_snapshot_line i =
     ''IKE name='' @ cstr (is_acName i) @ '' state='' @ cstr (is_acState i) @
     '' established='' @ yesno_text (is_bEstablished i) @ '' initiator='' @ yesno_text (is_bInitiator i) @
     '' unique_id='' @ dec (is_ullUniqueId i) @ '' local='' @ cstr (is_acLocalAddress i) @
     '' remote='' @ cstr (is_acRemoteAddress i) @ '' local_id='' @ cstr (is_acLocalId i) @
     '' remote_id='' @ cstr (is_acRemoteId i) @ '' proposal='' @ cstr (is_acProposal i) @
     '' nat_local='' @ yesno_text (is_bNatLocal i) @ '' nat_remote='' @ yesno_text (is_bNatRemote i) @
     '' established_ms='' @ dec (is_ullEstablishedTimeMs i) @ '' rekey_ms='' @ dec (is_ullRekeyTimeMs i) @ nl"

definition child_snapshot_line :: "IpsecChildSaInfo \<Rightarrow> string" where
  "child_snapshot_line i =
     ''CHILD ike='' @ cstr (cs_acIkeName i) @ '' name='' @ cstr (cs_acName i) @
     '' state='' @ cstr (cs_acState i) @ '' reqid='' @ dec (cs_uiReqid i) @
     '' spi_in=0x'' @ pad_zero 8 (hex (cs_uiInboundSpi i)) @
     '' spi_out=0x'' @ pad_zero 8 (hex (cs_uiOutboundSpi i)) @
     '' mode='' @ GetReportMode (cs_eMode i) @ '' esn='' @ yesno_text (cs_bEsn i) @
     '' udp='' @ yesno_text (cs_bUdpEncapsulation i) @ '' proposal='' @ cstr (cs_acProposal i) @
     '' local_ts='' @ cstr (cs_acLocalTrafficSelectors i) @
     '' remote_ts='' @ cstr (cs_acRemoteTrafficSelectors i) @
     '' bytes_in='' @ dec (cs_ullBytesIn i) @ '' bytes_out='' @ dec (cs_ullBytesOut i) @
     '' packets_in='' @ dec (cs_ullPacketsIn i) @ '' packets_out='' @ dec (cs_ullPacketsOut i) @
     '' install_ms='' @ dec (cs_ullInstallTimeMs i) @ '' rekey_ms='' @ dec (cs_ullRekeyTimeMs i) @
     '' lifetime_ms='' @ dec (cs_ullLifetimeMs i) @ nl"

definition SaveSaSnapshot ::
  "(nat \<Rightarrow> bool) \<Rightarrow> NativeAppConfig \<Rightarrow> string \<Rightarrow> AlgorithmWorld \<Rightarrow> AlgorithmWorld" where
  "SaveSaSnapshot mem c pcCaseDirectory g =
     (let ((Ikes, g), eIke) = ask (GetIpsecIkeSas mem) g;
          ((Children, g), eChild) = ask (GetIpsecChildSas mem) g
      in snd (save_report pcCaseDirectory ''sa_snapshot.txt'' False
           (''ike_'' @ query_line eIke (length Ikes) @
            item_lines eIke ike_snapshot_line
              (filter (\<lambda>i. strcmp_eq (nc_acConnectionName c) (is_acName i)) Ikes) @
            ''child_'' @ query_line eChild (length Children) @
            item_lines eChild child_snapshot_line
              (filter (\<lambda>i. strcmp_eq (nc_acChildName c) (cs_acName i)) Children)) g))"

definition xfrm_query_line :: "IpsecError \<Rightarrow> nat \<Rightarrow> nat \<Rightarrow> string" where
  "xfrm_query_line eError uiCount uiReqid =
     ''query='' @ GetIpsecErrorString eError @ '' count='' @ dec uiCount @ '' reqid='' @ dec uiReqid @ nl"

definition state_report_line :: "IpsecXfrmStateInfo \<Rightarrow> string" where
  "state_report_line i =
     ''family='' @ GetReportFamily (xs_eFamily i) @ '' source='' @ cstr (xs_acSource i) @
     '' destination='' @ cstr (xs_acDestination i) @ '' protocol='' @ dec (xs_uiProtocol i) @
     '' spi=0x'' @ pad_zero 8 (hex (xs_uiSpi i)) @ '' reqid='' @ dec (xs_uiReqid i) @
     '' mode='' @ GetReportMode (xs_eMode i) @ '' encryption='' @ cstr (xs_acEncryptionAlgorithm i) @
     '' integrity='' @ cstr (xs_acIntegrityAlgorithm i) @ '' aead='' @ cstr (xs_acAeadAlgorithm i) @
     '' esn='' @ yesno_text (xs_bEsn i) @ '' replay_window='' @ dec (xs_uiReplayWindow i) @
     '' packets='' @ dec (xs_ullPacketCount i) @ '' bytes='' @ dec (xs_ullByteCount i) @
     '' add_time='' @ dec (xs_ullAddTimeSeconds i) @ '' use_time='' @ dec (xs_ullUseTimeSeconds i) @
     '' soft_bytes='' @ dec (xs_ullSoftByteLimit i) @ '' hard_bytes='' @ dec (xs_ullHardByteLimit i) @
     '' soft_packets='' @ dec (xs_ullSoftPacketLimit i) @ '' hard_packets='' @ dec (xs_ullHardPacketLimit i) @ nl"

definition policy_report_line :: "IpsecXfrmPolicyInfo \<Rightarrow> string" where
  "policy_report_line i =
     ''family='' @ GetReportFamily (xp_eFamily i) @ '' direction='' @ GetReportDirection (xp_eDirection i) @
     '' source='' @ cstr (xp_acSourceSelector i) @ ''/'' @ dec (xp_ucSourcePrefixLength i) @
     '' destination='' @ cstr (xp_acDestinationSelector i) @ ''/'' @ dec (xp_ucDestinationPrefixLength i) @
     '' priority='' @ dec (xp_uiPriority i) @ '' index='' @ dec (xp_uiIndex i) @
     '' reqid='' @ dec (xp_uiReqid i) @ '' mode='' @ GetReportMode (xp_eMode i) @
     '' template_source='' @ cstr (xp_acTemplateSource i) @
     '' template_destination='' @ cstr (xp_acTemplateDestination i) @
     '' protocol='' @ dec (xp_uiProtocol i) @ nl"

definition CaptureNativeAppAlgorithmCaseReport ::
  "(nat \<Rightarrow> bool) \<Rightarrow> NativeAppConfig \<Rightarrow> NativeAppAlgorithmCaseResult \<Rightarrow> string \<Rightarrow> AlgorithmWorld \<Rightarrow>
   AlgorithmWorld outcome" where
  "CaptureNativeAppAlgorithmCaseReport mem c r pcCaseDirectory g =
     (let g = SaveSaSnapshot mem c pcCaseDirectory g;
          ((States, g), eState) = ask (\<lambda>w. swap_result (GetIpsecXfrmStates mem w)) g;
          ((Policies, g), ePolicy) = ask (\<lambda>w. swap_result (GetIpsecXfrmPolicies mem w)) g;
          g = snd (save_report pcCaseDirectory ''xfrm_states_active.txt'' False
            (xfrm_query_line eState (length States) (cr_uiReqid r) @
             item_lines eState state_report_line (filter (\<lambda>i. cr_uiReqid r = xs_uiReqid i) States)) g);
          g = snd (save_report pcCaseDirectory ''xfrm_policies_active.txt'' False
            (xfrm_query_line ePolicy (length Policies) (cr_uiReqid r) @
             item_lines ePolicy policy_report_line (filter (\<lambda>i. cr_uiReqid r = xp_uiReqid i) Policies)) g);
          g = SaveXfrmStatistics mem pcCaseDirectory ''xfrm_statistics_active.txt'' g
      in (g, if eState = IPSEC_OK \<and> ePolicy = IPSEC_OK then IPSEC_OK else IPSEC_ERR_INTERNAL))"

text \<open>What remains of a case: the numbers of connections, IKE SAs, CHILD SAs, states and policies.\<close>

type_synonym remaining = "nat \<times> nat \<times> nat \<times> nat \<times> nat"

definition CountCleanupState ::
  "(nat \<Rightarrow> bool) \<Rightarrow> NativeAppConfig \<Rightarrow> nat \<Rightarrow> AlgorithmWorld \<Rightarrow> remaining \<times> AlgorithmWorld" where
  "CountCleanupState mem c uiReqid g =
     (let ((Connections, Ikes, Children, States, Policies), g) = query_final mem g in
      ((u32 (length (filter (\<lambda>i. strcmp_eq (nc_acConnectionName c) (ci_acName i)) (fst Connections))),
        u32 (length (filter (\<lambda>i. strcmp_eq (nc_acConnectionName c) (is_acName i)) (fst Ikes))),
        u32 (length (filter (\<lambda>i. strcmp_eq (nc_acChildName c) (cs_acName i)) (fst Children))),
        count_reqid xs_uiReqid uiReqid (fst States),
        count_reqid xp_uiReqid uiReqid (fst Policies)), g))"

definition remaining_text :: "remaining \<Rightarrow> string" where
  "remaining_text n =
     (let (uiConnections, uiIkes, uiChildren, uiStates, uiPolicies) = n in
      ''ike_remaining='' @ dec uiIkes @ nl @ ''child_remaining='' @ dec uiChildren @ nl @
      ''xfrm_states_remaining='' @ dec uiStates @ nl @ ''xfrm_policies_remaining='' @ dec uiPolicies @ nl)"

definition cleanup_state_text :: "NativeAppAlgorithmCaseResult \<Rightarrow> remaining \<Rightarrow> string" where
  "cleanup_state_text r n =
     (let p = cr_Cleanup r; e = (\<lambda>f. GetNativeAppAlgorithmErrorText (f p)) in
      ''cleanup='' @ GetNativeAppAlgorithmErrorText (cr_eCleanupError r) @ nl @
      ''connection_remaining='' @ dec (fst n) @ nl @
      ''terminate_error='' @ e cu_eTerminateError @ nl @
      ''wait_removed_error='' @ e cu_eWaitRemovedError @ nl @
      ''remove_connection_error='' @ e cu_eRemoveConnectionError @ nl @
      ''final_verify_error='' @ e cu_eFinalVerifyError @ nl @
      ''peer_error='' @ e cu_ePeerError @ nl @
      ''terminate_attempts='' @ dec (cu_uiTerminateAttempts p) @ nl @
      ''wait_removed_attempts='' @ dec (cu_uiWaitRemovedAttempts p) @ nl @
      ''remove_connection_attempts='' @ dec (cu_uiRemoveConnectionAttempts p) @ nl @
      ''peer_attempts='' @ dec (cu_uiPeerAttempts p) @ nl @
      ''recovered='' @ yesno_text (cu_bRecovered p) @ nl @
      ''local_verified='' @ yesno_text (cu_bLocalVerified p) @ nl @ remaining_text n)"

definition overall_text :: "NativeAppAlgorithmCaseResult \<Rightarrow> string" where
  "overall_text r = passed_text (cr_eResult r = NATIVE_APP_ALGORITHM_RESULT_PASS)"

definition result_summary_text ::
  "NativeAppAlgorithmCaseResult \<Rightarrow> string \<Rightarrow> nat \<Rightarrow> nat \<Rightarrow> remaining \<Rightarrow> string" where
  "result_summary_text r pcRole uiOrdinal uiRequested n =
     (let k = cr_Case r; p = cr_Cleanup r; e = (\<lambda>f. GetNativeAppAlgorithmErrorText (f p)) in
      ''number='' @ dec (ac_uiNumber k) @ nl @ ''ordinal='' @ dec uiOrdinal @ nl @
      ''requested='' @ dec uiRequested @ nl @ ''case_id='' @ cstr (ac_acId k) @ nl @
      ''role='' @ cstr pcRole @ nl @ ''ike_proposal='' @ cstr (ac_acIkeProposal k) @ nl @
      ''esp_proposal='' @ cstr (ac_acEspProposal k) @ nl @
      ''negotiated_ike='' @ cstr (cr_acNegotiatedIke r) @ nl @
      ''negotiated_esp='' @ cstr (cr_acNegotiatedEsp r) @ nl @ ''reqid='' @ dec (cr_uiReqid r) @ nl @
      ''xfrm_states_active='' @ dec (cr_uiXfrmStateCount r) @ nl @
      ''xfrm_policies_active='' @ dec (cr_uiXfrmPolicyCount r) @ nl @
      ''peer_result='' @ or_na (cr_acPeerResult r) @ nl @ ''duration_ms='' @ dec (cr_ullDurationMs r) @ nl @
      ''ike_result='' @ passed_text (cr_bIkeVerified r) @ nl @
      ''esp_result='' @ passed_text (cr_bEspVerified r) @ nl @
      ''xfrm_result='' @ passed_text (cr_bXfrmVerified r) @ nl @
      ''data_path_result='' @ passed_text (cr_bDataPathVerified r) @ nl @ nl @
      ''result='' @ GetNativeAppAlgorithmResultName (cr_eResult r) @ nl @
      ''error='' @ GetNativeAppAlgorithmErrorText (cr_eError r) @ nl @
      ''cleanup='' @ GetNativeAppAlgorithmErrorText (cr_eCleanupError r) @ nl @
      ''cleanup_terminate='' @ e cu_eTerminateError @ nl @
      ''cleanup_wait_removed='' @ e cu_eWaitRemovedError @ nl @
      ''cleanup_remove_connection='' @ e cu_eRemoveConnectionError @ nl @
      ''cleanup_final_verify='' @ e cu_eFinalVerifyError @ nl @
      ''cleanup_peer='' @ e cu_ePeerError @ nl @
      ''cleanup_terminate_attempts='' @ dec (cu_uiTerminateAttempts p) @ nl @
      ''cleanup_wait_attempts='' @ dec (cu_uiWaitRemovedAttempts p) @ nl @
      ''cleanup_remove_attempts='' @ dec (cu_uiRemoveConnectionAttempts p) @ nl @
      ''cleanup_peer_attempts='' @ dec (cu_uiPeerAttempts p) @ nl @
      ''cleanup_recovered='' @ yesno_text (cu_bRecovered p) @ nl @
      ''cleanup_local_verified='' @ yesno_text (cu_bLocalVerified p) @ nl @
      ''connection_remaining='' @ dec (fst n) @ nl @ remaining_text n @ ''overall='' @ overall_text r @ nl)"

definition ike_result_text :: "NativeAppAlgorithmCaseResult \<Rightarrow> string \<Rightarrow> string" where
  "ike_result_text r pcRole =
     ''case_id='' @ cstr (ac_acId (cr_Case r)) @ nl @ ''role='' @ cstr pcRole @ nl @
     ''requested_proposal='' @ cstr (ac_acIkeProposal (cr_Case r)) @ nl @
     ''established='' @ yesno_text (cr_bIkeVerified r) @ nl @
     ''negotiated_proposal='' @ or_na (cr_acNegotiatedIke r) @ nl @
     ''result='' @ passed_text (cr_bIkeVerified r) @ nl"

definition esp_result_text :: "NativeAppAlgorithmCaseResult \<Rightarrow> string \<Rightarrow> string" where
  "esp_result_text r pcRole =
     (let k = cr_Case r; bEspOverall = cr_bEspVerified r \<and> cr_bXfrmVerified r \<and> cr_bDataPathVerified r in
      ''case_id='' @ cstr (ac_acId k) @ nl @ ''role='' @ cstr pcRole @ nl @
      ''exchange='' @ (if ac_bSeparateChildExchange k then ''CREATE_CHILD_SA'' else ''IKE_AUTH_CHILD_SA'') @ nl @
      ''requested_proposal='' @ cstr (ac_acEspProposal k) @ nl @
      ''child_installed='' @ yesno_text (cr_bEspVerified r) @ nl @
      ''negotiated_proposal='' @ or_na (cr_acNegotiatedEsp r) @ nl @
      ''separate_child_exchange='' @ yesno_text (ac_bSeparateChildExchange k) @ nl @
      ''expected_child_ke='' @ or_na (ac_acExpectedChildKe k) @ nl @
      ''expect_esn='' @ yesno_text (ac_bExpectEsn k) @ nl @
      ''expect_no_esn='' @ yesno_text (ac_bExpectNoEsn k) @ nl @
      ''reqid='' @ dec (cr_uiReqid r) @ nl @ ''xfrm_states='' @ dec (cr_uiXfrmStateCount r) @ nl @
      ''xfrm_policies='' @ dec (cr_uiXfrmPolicyCount r) @ nl @
      ''xfrm_result='' @ passed_text (cr_bXfrmVerified r) @ nl @
      ''data_path_result='' @ passed_text (cr_bDataPathVerified r) @ nl @
      ''peer_result='' @ or_na (cr_acPeerResult r) @ nl @ ''result='' @ passed_text bEspOverall @ nl)"

definition case_log_end :: "NativeAppAlgorithmCaseResult \<Rightarrow> string" where
  "case_log_end r =
     (let p = cr_Cleanup r; e = (\<lambda>f. GetNativeAppAlgorithmErrorText (f p)) in
      ''[INFO] negotiated IKE: '' @ cstr (cr_acNegotiatedIke r) @ nl @
      ''[INFO] negotiated ESP: '' @ cstr (cr_acNegotiatedEsp r) @ nl @
      ''[INFO] reqid='' @ dec (cr_uiReqid r) @ '' XFRM states='' @ dec (cr_uiXfrmStateCount r) @
      '' policies='' @ dec (cr_uiXfrmPolicyCount r) @ nl @
      ''['' @ passed_text (cr_bIkeVerified r) @ ''] IKE phase='' @ passed_text (cr_bIkeVerified r) @ nl @
      ''['' @ passed_text (cr_bEspVerified r) @ ''] ESP phase='' @ passed_text (cr_bEspVerified r) @
      '' XFRM='' @ passed_text (cr_bXfrmVerified r) @ '' DATA_PATH='' @ passed_text (cr_bDataPathVerified r) @ nl @
      ''['' @ overall_text r @ ''] result='' @ GetNativeAppAlgorithmResultName (cr_eResult r) @
      '' error='' @ GetNativeAppAlgorithmErrorText (cr_eError r) @
      '' cleanup='' @ GetNativeAppAlgorithmErrorText (cr_eCleanupError r) @
      '' duration='' @ dec (cr_ullDurationMs r) @ '' ms'' @ nl @
      ''[INFO] cleanup stages: terminate='' @ e cu_eTerminateError @
      '' wait_removed='' @ e cu_eWaitRemovedError @
      '' remove_connection='' @ e cu_eRemoveConnectionError @
      '' final_verify='' @ e cu_eFinalVerifyError @ '' peer='' @ e cu_ePeerError @
      '' attempts='' @ dec (cu_uiTerminateAttempts p) @ ''/'' @ dec (cu_uiWaitRemovedAttempts p) @ ''/'' @
      dec (cu_uiRemoveConnectionAttempts p) @ ''/'' @ dec (cu_uiPeerAttempts p) @
      '' recovered='' @ yesno_text (cu_bRecovered p) @
      '' local_verified='' @ yesno_text (cu_bLocalVerified p) @ nl)"

text \<open>A row of the matrix: numbers as they are, texts in quotes.\<close>

definition quoted :: "string \<Rightarrow> string" where
  "quoted t = [CHR 0x22] @ t @ [CHR 0x22]"

definition matrix_row :: "NativeAppAlgorithmCaseResult \<Rightarrow> string \<Rightarrow> string" where
  "matrix_row r pcRole =
     (let k = cr_Case r; p = cr_Cleanup r; e = (\<lambda>f. quoted (GetNativeAppAlgorithmErrorText (f p))) in
      join_with '',''
        [dec (ac_uiNumber k), quoted (cstr (ac_acId k)), quoted (cstr pcRole),
         quoted (cstr (ac_acIkeProposal k)), quoted (cstr (ac_acEspProposal k)),
         quoted (cstr (cr_acNegotiatedIke r)), quoted (cstr (cr_acNegotiatedEsp r)),
         dec (cr_uiReqid r), dec (cr_uiXfrmStateCount r), dec (cr_uiXfrmPolicyCount r),
         quoted (passed_text (cr_bIkeVerified r)), quoted (passed_text (cr_bEspVerified r)),
         quoted (passed_text (cr_bXfrmVerified r)), quoted (passed_text (cr_bDataPathVerified r)),
         dec (cr_ullDurationMs r), quoted (or_na (cr_acPeerResult r)),
         quoted (GetNativeAppAlgorithmResultName (cr_eResult r)),
         quoted (GetNativeAppAlgorithmErrorText (cr_eError r)),
         quoted (GetNativeAppAlgorithmErrorText (cr_eCleanupError r)),
         e cu_eTerminateError, e cu_eWaitRemovedError, e cu_eRemoveConnectionError,
         e cu_eFinalVerifyError, e cu_ePeerError,
         dec (cu_uiTerminateAttempts p), dec (cu_uiWaitRemovedAttempts p),
         dec (cu_uiRemoveConnectionAttempts p), dec (cu_uiPeerAttempts p),
         quoted (yesno_text (cu_bRecovered p)), quoted (yesno_text (cu_bLocalVerified p))] @ nl)"

definition FinishNativeAppAlgorithmCaseReport ::
  "(nat \<Rightarrow> bool) \<Rightarrow> NativeAppConfig \<Rightarrow> NativeAppAlgorithmCaseResult \<Rightarrow> string \<Rightarrow> string \<Rightarrow> string \<Rightarrow> nat \<Rightarrow>
   nat \<Rightarrow> AlgorithmWorld \<Rightarrow> AlgorithmWorld outcome" where
  "FinishNativeAppAlgorithmCaseReport mem c r pcRole pcResultDirectory pcCaseDirectory uiOrdinal uiRequested g =
     (let (n, g) = CountCleanupState mem c (cr_uiReqid r) g;
          g = snd (save_report pcCaseDirectory ''cleanup_state.txt'' False (cleanup_state_text r n) g);
          g = snd (save_report pcCaseDirectory ''result_summary.txt'' False
                (result_summary_text r pcRole uiOrdinal uiRequested n) g);
          g = snd (save_report pcCaseDirectory ''ike_result.txt'' False (ike_result_text r pcRole) g);
          g = snd (save_report pcCaseDirectory ''esp_result.txt'' False (esp_result_text r pcRole) g);
          g = snd (save_report pcCaseDirectory ''application.log'' True (case_log_end r) g)
      in (snd (save_report pcResultDirectory ''matrix_summary.csv'' True (matrix_row r pcRole) g), IPSEC_OK))"

end
