(* ===== verification/AppJson.thy ===== *)
theory AppJson
  imports AppReport
begin

section \<open>The result file of a sweep (\<open>app/algorithm_runner.c\<close>)\<close>

text \<open>
  The initiator keeps a JSON document of its results.  After each case it goes back to the end of the
  last one, appends the new result and closes the document again, so that the file is complete
  whenever the program stops.

  The second part is a reader of JSON, given by its tokens, and the proof that the file always holds
  the document of the results so far.
\<close>

record NativeAppAlgorithmOptions =
  ao_eMode :: NativeAppAlgorithmMode
  ao_uiStart :: nat
  ao_uiLimit :: nat
  ao_uiPort :: nat
  ao_uiDelayMs :: nat
  ao_pcResultsPath :: "string option"
  ao_pcCustomIke :: "string option"
  ao_pcCustomEsp :: "string option"
  ao_bContinueOnError :: bool

record NativeAppAlgorithmJsonWriter =
  jw_pFile :: "SweepFile option"
  jw_lTailOffset :: int
  jw_uiCaseCount :: nat
  jw_uiPassed :: nat
  jw_uiFailed :: nat

definition zero_writer :: NativeAppAlgorithmJsonWriter where
  "zero_writer = \<lparr>jw_pFile = None, jw_lTailOffset = 0, jw_uiCaseCount = 0, jw_uiPassed = 0, jw_uiFailed = 0\<rparr>"

subsection \<open>Calls on a stream\<close>

definition sys_ftell :: "SweepFile \<Rightarrow> AlgorithmWorld \<Rightarrow> int \<times> AlgorithmWorld" where
  "sys_ftell f g = (let (bOk, g) = sweep_call g in (if bOk then int (sf_position f) else -1, g))"

definition sys_fseek :: "int \<Rightarrow> SweepFile \<Rightarrow> AlgorithmWorld \<Rightarrow> bool \<times> SweepFile \<times> AlgorithmWorld" where
  "sys_fseek lOffset f g =
     (let (bOk, g) = sweep_call g in
      if bOk \<and> 0 \<le> lOffset then (True, f\<lparr>sf_position := nat lOffset\<rparr>, g) else (False, f, g))"

text \<open>A failed \<open>fflush\<close> says that the text may not have reached the file.\<close>

definition sys_fflush :: "AlgorithmWorld \<Rightarrow> bool \<times> AlgorithmWorld" where
  "sys_fflush g = sweep_call g"

subsection \<open>Texts\<close>

definition backslash :: char where "backslash = CHR 0x5C"
definition quote :: char where "quote = CHR 0x22"

text \<open>The characters that \<open>WriteNativeAppJsonString\<close> writes for one character.\<close>

definition json_char :: "char \<Rightarrow> string" where
  "json_char c =
     (if c = quote \<or> c = backslash then [backslash, c]
      else if c = CHR 0x0A then [backslash, CHR ''n'']
      else if c = CHR 0x0D then [backslash, CHR ''r'']
      else if c = CHR 0x09 then [backslash, CHR ''t'']
      else if of_char c < (0x20 :: nat) then [backslash, CHR ''u''] @ pad_zero 4 (hex (of_char c))
      else [c])"

definition WriteNativeAppJsonString :: "string \<Rightarrow> string" where
  "WriteNativeAppJsonString pcText = [quote] @ concat (map json_char (cstr pcText)) @ [quote]"

definition json_name :: "string \<Rightarrow> string" where
  "json_name n = [quote] @ n @ [quote] @ '': ''"

definition json_field :: "string \<Rightarrow> string" where
  "json_field n = '', '' @ json_name n"

definition json_bool :: "bool \<Rightarrow> string" where
  "json_bool b = (if b then ''true'' else ''false'')"

definition json_head :: "NativeAppAlgorithmOptions \<Rightarrow> string \<Rightarrow> nat \<Rightarrow> string" where
  "json_head opts pcRunId uiRequested =
     ''{'' @ nl @ ''  '' @ json_name ''schema_version'' @ ''4,'' @ nl @
     ''  '' @ json_name ''run_id'' @ WriteNativeAppJsonString pcRunId @ '','' @ nl @
     ''  '' @ json_name ''mode'' @ WriteNativeAppJsonString (GetNativeAppAlgorithmModeName (ao_eMode opts)) @
     '','' @ nl @ ''  '' @ json_name ''start'' @ dec (ao_uiStart opts) @
     '','' @ nl @ ''  '' @ json_name ''requested'' @ dec uiRequested @
     '','' @ nl @ ''  '' @ json_name ''cases'' @ ''['' @ nl"

definition json_tail :: string where
  "json_tail = nl @ ''  ]'' @ nl @ ''}'' @ nl"

definition json_summary :: "NativeAppAlgorithmJsonWriter \<Rightarrow> string" where
  "json_summary p =
     nl @ ''  ],'' @ nl @ ''  '' @ json_name ''summary'' @ ''{'' @ json_name ''completed'' @ dec (jw_uiCaseCount p) @
     json_field ''passed'' @ dec (jw_uiPassed p) @ json_field ''failed'' @ dec (jw_uiFailed p) @ ''}'' @ nl @
     ''}'' @ nl"

definition json_error :: "IpsecError \<Rightarrow> string" where
  "json_error eError = WriteNativeAppJsonString (GetNativeAppAlgorithmErrorText eError)"

definition json_cleanup :: "NativeAppAlgorithmCleanup \<Rightarrow> string" where
  "json_cleanup u =
     ''{'' @ json_name ''terminate_error'' @ json_error (cu_eTerminateError u) @
     json_field ''wait_removed_error'' @ json_error (cu_eWaitRemovedError u) @
     json_field ''remove_connection_error'' @ json_error (cu_eRemoveConnectionError u) @
     json_field ''final_verify_error'' @ json_error (cu_eFinalVerifyError u) @
     json_field ''peer_error'' @ json_error (cu_ePeerError u) @
     json_field ''terminate_attempts'' @ dec (cu_uiTerminateAttempts u) @
     json_field ''wait_removed_attempts'' @ dec (cu_uiWaitRemovedAttempts u) @
     json_field ''remove_connection_attempts'' @ dec (cu_uiRemoveConnectionAttempts u) @
     json_field ''peer_attempts'' @ dec (cu_uiPeerAttempts u) @
     json_field ''recovered'' @ json_bool (cu_bRecovered u) @
     json_field ''local_verified'' @ json_bool (cu_bLocalVerified u) @ ''}''"

definition json_phases :: "NativeAppAlgorithmCaseResult \<Rightarrow> string" where
  "json_phases r =
     json_field ''ike_result'' @ quoted (passed_text (cr_bIkeVerified r)) @
     json_field ''esp_result'' @ quoted (passed_text (cr_bEspVerified r)) @
     json_field ''xfrm_result'' @ quoted (passed_text (cr_bXfrmVerified r)) @
     json_field ''data_path_result'' @ quoted (passed_text (cr_bDataPathVerified r))"

definition json_case :: "NativeAppAlgorithmCaseResult \<Rightarrow> string" where
  "json_case r =
     ''    {'' @ json_name ''case_id'' @ WriteNativeAppJsonString (ac_acId (cr_Case r)) @
     json_field ''ike_proposal'' @ WriteNativeAppJsonString (ac_acIkeProposal (cr_Case r)) @
     json_field ''esp_proposal'' @ WriteNativeAppJsonString (ac_acEspProposal (cr_Case r)) @
     json_field ''negotiated_ike'' @ WriteNativeAppJsonString (cr_acNegotiatedIke r) @
     json_field ''negotiated_esp'' @ WriteNativeAppJsonString (cr_acNegotiatedEsp r) @
     json_field ''reqid'' @ dec (cr_uiReqid r) @
     json_field ''xfrm_states'' @ dec (cr_uiXfrmStateCount r) @
     json_field ''xfrm_policies'' @ dec (cr_uiXfrmPolicyCount r) @
     json_field ''duration_ms'' @ dec (cr_ullDurationMs r) @
     json_field ''result'' @ WriteNativeAppJsonString (GetNativeAppAlgorithmResultName (cr_eResult r)) @
     json_field ''error'' @ json_error (cr_eError r) @
     json_field ''cleanup_error'' @ json_error (cr_eCleanupError r) @
     json_field ''cleanup'' @ json_cleanup (cr_Cleanup r) @ json_phases r @
     json_field ''peer_result'' @ WriteNativeAppJsonString (cr_acPeerResult r) @ ''}''"

subsection \<open>The writer\<close>

text \<open>\<open>ftell\<close> is called between the text and the tail; \<open>fflush\<close> only when it gave an offset.\<close>

definition write_with_tail ::
  "string \<Rightarrow> SweepFile \<Rightarrow> AlgorithmWorld \<Rightarrow> int \<times> bool \<times> SweepFile \<times> AlgorithmWorld" where
  "write_with_tail t f g =
     (let (f, g) = sys_fputs t f g;
          (lTailOffset, g) = sys_ftell f g;
          (f, g) = sys_fputs json_tail f g;
          (bFlushed, g) = (if lTailOffset < 0 then (False, g) else sys_fflush g)
      in (lTailOffset, bFlushed, f, g))"

definition OpenNativeAppAlgorithmJson ::
  "NativeAppAlgorithmOptions \<Rightarrow> string \<Rightarrow> nat \<Rightarrow> AlgorithmWorld \<Rightarrow>
   (NativeAppAlgorithmJsonWriter \<times> AlgorithmWorld) outcome" where
  "OpenNativeAppAlgorithmJson opts pcRunId uiRequested g =
     (let pcPath = (case ao_pcResultsPath opts of Some p \<Rightarrow> p | None \<Rightarrow> ''results.json'');
          (pFile, g) = sys_fopen pcPath False g
      in case pFile of
           None \<Rightarrow> ((zero_writer, g), IPSEC_ERR_FILE_OPEN)
         | Some f \<Rightarrow>
             let (lTailOffset, bFlushed, f, g) = write_with_tail (json_head opts pcRunId uiRequested) f g in
             if lTailOffset < 0 \<or> \<not> bFlushed
             then ((zero_writer, sys_fclose f g), IPSEC_ERR_FILE_READ)
             else ((zero_writer\<lparr>jw_pFile := Some f, jw_lTailOffset := lTailOffset\<rparr>, g), IPSEC_OK))"

definition AppendNativeAppAlgorithmJson ::
  "NativeAppAlgorithmCaseResult \<Rightarrow> NativeAppAlgorithmJsonWriter \<times> AlgorithmWorld \<Rightarrow>
   (NativeAppAlgorithmJsonWriter \<times> AlgorithmWorld) outcome" where
  "AppendNativeAppAlgorithmJson r s =
     (let (p, g) = s in
      case jw_pFile p of
        None \<Rightarrow> (s, IPSEC_ERR_FILE_READ)
      | Some f \<Rightarrow>
          let (bMoved, f, g) = sys_fseek (jw_lTailOffset p) f g in
          if \<not> bMoved then ((p\<lparr>jw_pFile := Some f\<rparr>, g), IPSEC_ERR_FILE_READ)
          else
            let (lTailOffset, bFlushed, f, g) =
                  write_with_tail ((if 0 < jw_uiCaseCount p then '','' @ nl else []) @ json_case r) f g;
                p = p\<lparr>jw_pFile := Some f, jw_lTailOffset := lTailOffset\<rparr>
            in if lTailOffset < 0 \<or> \<not> bFlushed then ((p, g), IPSEC_ERR_FILE_READ)
               else
                 let p = p\<lparr>jw_uiCaseCount := u32 (jw_uiCaseCount p + 1)\<rparr> in
                 if cr_eResult r = NATIVE_APP_ALGORITHM_RESULT_PASS
                 then ((p\<lparr>jw_uiPassed := u32 (jw_uiPassed p + 1)\<rparr>, g), IPSEC_OK)
                 else ((p\<lparr>jw_uiFailed := u32 (jw_uiFailed p + 1)\<rparr>, g), IPSEC_OK))"

definition CloseNativeAppAlgorithmJson ::
  "NativeAppAlgorithmJsonWriter \<times> AlgorithmWorld \<Rightarrow> NativeAppAlgorithmJsonWriter \<times> AlgorithmWorld" where
  "CloseNativeAppAlgorithmJson s =
     (let (p, g) = s in
      case jw_pFile p of
        None \<Rightarrow> s
      | Some f \<Rightarrow>
          let (bMoved, f, g) = sys_fseek (jw_lTailOffset p) f g;
              g = (if bMoved then let (f, g) = sys_fputs (json_summary p) f g in snd (sys_fflush g) else g)
          in (p\<lparr>jw_pFile := None\<rparr>, sys_fclose f g))"

section \<open>What the file holds\<close>

subsection \<open>A reader of JSON\<close>

datatype json_token =
    JPunct char
  | JString string
  | JNumber nat
  | JWord string

datatype json =
    JsonNumber nat
  | JsonText string
  | JsonBool bool
  | JsonArray "json list"
  | JsonObject "(string \<times> json) list"

definition json_escape :: "char \<Rightarrow> char option" where
  "json_escape c =
     (if c = quote \<or> c = backslash then Some c
      else if c = CHR ''n'' then Some (CHR 0x0A)
      else if c = CHR ''r'' then Some (CHR 0x0D)
      else if c = CHR ''t'' then Some (CHR 0x09)
      else None)"

text \<open>The characters of a string and what follows its closing quote.\<close>

fun json_string :: "string \<Rightarrow> (string \<times> string) option" where
  "json_string [] = None"
| "json_string (c # cs) =
     (if c = quote then Some ([], cs)
      else if c = backslash then
        (case cs of
           [] \<Rightarrow> None
         | e # rest \<Rightarrow>
             if e = CHR ''u'' then
               (if length rest < 4 \<or> \<not> list_all (is_base_digit 16) (take 4 rest) then None
                else map_option (apfst (Cons (char_of (digits_value 16 (take 4 rest))))) (json_string (drop 4 rest)))
             else
               (case json_escape e of
                  None \<Rightarrow> None
                | Some x \<Rightarrow> map_option (apfst (Cons x)) (json_string rest)))
      else if of_char c < (0x20 :: nat) then None
      else map_option (apfst (Cons c)) (json_string cs))"

lemma json_string_shorter: "json_string cs = Some (s, rest) \<Longrightarrow> length rest < length cs"
proof (induction cs arbitrary: s rest rule: measure_induct_rule [of length])
  case (less cs)
  obtain c t where cs: "cs = c # t" using less.prems by (cases cs) auto
  have go: "map_option (apfst f) (json_string u) = Some (s, rest) \<Longrightarrow> length u \<le> length t \<Longrightarrow> length rest < length cs" for f u
    using less.IH [of u] cs by fastforce
  show ?case
  proof (cases "c = backslash \<and> c \<noteq> quote")
    case False
    then show ?thesis using less.prems go [of _ t] cs by (auto split: if_splits)
  next
    case True
    then obtain e r where t: "t = e # r" using less.prems cs by (cases t) auto
    then show ?thesis using less.prems go [of _ "drop 4 r"] go [of _ r] cs True
      by (auto split: if_splits option.splits)
  qed
qed

definition json_space :: "char \<Rightarrow> bool" where
  "json_space c \<longleftrightarrow> c = CHR '' '' \<or> c = CHR 0x0A \<or> c = CHR 0x0D \<or> c = CHR 0x09"

definition json_punct :: "char \<Rightarrow> bool" where
  "json_punct c \<longleftrightarrow> c \<in> set ''{}[]:,''"

function json_lex :: "string \<Rightarrow> json_token list option" where
  "json_lex s =
     (case s of
        [] \<Rightarrow> Some []
      | c # cs \<Rightarrow>
          if json_space c then json_lex cs
          else if json_punct c then map_option (Cons (JPunct c)) (json_lex cs)
          else if c = quote then
            (case json_string cs of
               None \<Rightarrow> None
             | Some r \<Rightarrow> map_option (Cons (JString (fst r))) (json_lex (snd r)))
          else if isdigit c then
            map_option (Cons (JNumber (digits_value 10 (takeWhile isdigit s)))) (json_lex (dropWhile isdigit s))
          else if isalpha c then
            map_option (Cons (JWord (takeWhile isalpha s))) (json_lex (dropWhile isalpha s))
          else None)"
  by pat_completeness auto
termination
  by (relation "measure length") (auto dest: json_string_shorter simp: length_dropWhile_le less_Suc_eq_le)

declare json_lex.simps [simp del]


subsection \<open>Reading the texts back\<close>

lemma control_escape:
  assumes "n < (32 :: nat)"
  shows "length (pad_zero 4 (hex n)) = 4" and "list_all (is_base_digit 16) (pad_zero 4 (hex n))"
    and "digits_value 16 (pad_zero 4 (hex n)) = n"
proof -
  have "\<forall>n \<in> set [0..<32]. length (pad_zero 4 (hex n)) = 4 \<and> list_all (is_base_digit 16) (pad_zero 4 (hex n)) \<and>
      digits_value 16 (pad_zero 4 (hex n)) = n"
    by code_simp
  then show "length (pad_zero 4 (hex n)) = 4" "list_all (is_base_digit 16) (pad_zero 4 (hex n))"
    "digits_value 16 (pad_zero 4 (hex n)) = n" using assms by simp_all
qed

lemma json_string_char: "json_string (json_char c @ rest) = map_option (apfst (Cons c)) (json_string rest)"
proof -
  have n: "take 4 (pad_zero 4 (hex (of_char c)) @ rest) = pad_zero 4 (hex (of_char c))"
    "drop 4 (pad_zero 4 (hex (of_char c)) @ rest) = rest" if "of_char c < (32 :: nat)"
    using control_escape [OF that] by simp_all
  have l: "json_string (c' # cs) = (if c' = quote then Some ([], cs)
      else if c' = backslash then
        (case cs of [] \<Rightarrow> None | e # rest \<Rightarrow>
             if e = CHR ''u'' then
               (if length rest < 4 \<or> \<not> list_all (is_base_digit 16) (take 4 rest) then None
                else map_option (apfst (Cons (char_of (digits_value 16 (take 4 rest))))) (json_string (drop 4 rest)))
             else (case json_escape e of None \<Rightarrow> None | Some x \<Rightarrow> map_option (apfst (Cons x)) (json_string rest)))
      else if of_char c' < (0x20 :: nat) then None
      else map_option (apfst (Cons c')) (json_string cs))" for c' cs
    by simp
  have bq: "backslash \<noteq> quote" "quote \<noteq> CHR ''u''" "backslash \<noteq> CHR ''u''" by (simp_all add: backslash_def quote_def)
  have escaped: "json_char c = [backslash, CHR ''u''] @ pad_zero 4 (hex (of_char c))" if "of_char c < (32 :: nat)"
    "\<not> (c = quote \<or> c = backslash)" "c \<noteq> CHR 0x0A" "c \<noteq> CHR 0x0D" "c \<noteq> CHR 0x09"
    using that by (simp add: json_char_def)
  have as_is: "json_char c = [c]" if "\<not> of_char c < (32 :: nat)"
    "\<not> (c = quote \<or> c = backslash)" "c \<noteq> CHR 0x0A" "c \<noteq> CHR 0x0D" "c \<noteq> CHR 0x09"
    using that by (simp add: json_char_def)
  consider "c = quote \<or> c = backslash" | "c = CHR 0x0A" | "c = CHR 0x0D" | "c = CHR 0x09"
    | "of_char c < (32 :: nat)" "json_char c = [backslash, CHR ''u''] @ pad_zero 4 (hex (of_char c))"
    | "\<not> of_char c < (32 :: nat)" "json_char c = [c]" "c \<noteq> quote" "c \<noteq> backslash"
    using escaped as_is by blast
  then show ?thesis
  proof cases
    case 1 then show ?thesis using bq by (auto simp: json_char_def json_escape_def)
  next
    case 5 then show ?thesis using bq control_escape [OF 5(1)] n by (simp add: l)
  next
    case 6 then show ?thesis by simp
  qed (simp_all add: json_char_def json_escape_def bq, simp_all add: quote_def backslash_def)
qed

lemma json_string_text: "json_string (concat (map json_char s) @ quote # rest) = Some (s, rest)"
  by (induction s) (simp_all add: json_string_char)

lemma append_one: "append [x] = Cons x"
  by (rule ext) simp

lemma json_lex_steps [simp]:
  "json_lex [] = Some []"
  "json_space c \<Longrightarrow> json_lex (c # cs) = json_lex cs"
  "json_punct c \<Longrightarrow> \<not> json_space c \<Longrightarrow> json_lex (c # cs) = map_option (append [JPunct c]) (json_lex cs)"
  by (subst json_lex.simps, simp add: append_one)+

lemma json_classes [simp]:
  "json_space (CHR '' '')" "json_space (CHR 0x0A)" "\<not> json_space quote" "\<not> json_punct quote"
  "json_punct (CHR ''{'')" "json_punct (CHR ''}'')" "json_punct (CHR ''['')" "json_punct (CHR '']'')"
  "json_punct (CHR '','')" "json_punct (CHR '':'')"
  "\<not> json_space (CHR ''{'')" "\<not> json_space (CHR ''}'')" "\<not> json_space (CHR ''['')" "\<not> json_space (CHR '']'')"
  "\<not> json_space (CHR '','')" "\<not> json_space (CHR '':'')"
  by (simp_all add: json_space_def json_punct_def quote_def)

lemma append_option [simp]:
  "map_option (append ts) (map_option (append us) x) = map_option (append (ts @ us)) x"
  by (cases x) simp_all

lemma json_lex_string:
  "json_string cs = Some (s, rest) \<Longrightarrow> json_lex (quote # cs) = map_option (append [JString s]) (json_lex rest)"
  by (subst json_lex.simps) (simp add: append_one)

lemma json_lex_text [simp]:
  "json_lex (WriteNativeAppJsonString t @ rest) = map_option (append [JString (cstr t)]) (json_lex rest)"
  using json_lex_string [OF json_string_text [of "cstr t" rest]] by (simp add: WriteNativeAppJsonString_def)

text \<open>A text of the program without quotes and escapes is written as it is.\<close>

definition plain_text :: "string \<Rightarrow> bool" where
  "plain_text = list_all (\<lambda>c. c \<noteq> quote \<and> c \<noteq> backslash \<and> (0x20 :: nat) \<le> of_char c)"

lemma json_string_plain: "plain_text n \<Longrightarrow> json_string (n @ quote # rest) = Some (n, rest)"
  by (induction n) (auto simp: plain_text_def)

lemma json_lex_name [simp]:
  assumes "plain_text n"
  shows "json_lex (json_name n @ rest) = map_option (append [JString n, JPunct (CHR '':'')]) (json_lex rest)"
    and "json_lex (json_field n @ rest) =
      map_option (append [JPunct (CHR '',''), JString n, JPunct (CHR '':'')]) (json_lex rest)"
    and "json_lex (quoted n @ rest) = map_option (append [JString n]) (json_lex rest)"
  using json_lex_string [OF json_string_plain [OF assms]] assms
  by (simp_all add: json_name_def json_field_def quoted_def quote_def)

definition delimits :: "string \<Rightarrow> bool" where
  "delimits s \<longleftrightarrow> (case s of [] \<Rightarrow> True | c # cs \<Rightarrow> \<not> isdigit c \<and> \<not> isalpha c)"

lemma json_lex_number [simp]:
  assumes "delimits rest"
  shows "json_lex (dec n @ rest) = map_option (append [JNumber n]) (json_lex rest)"
proof -
  obtain c cs where d: "dec n = c # cs" by (cases "dec n") auto
  have c: "isdigit c" using isdigit_hd_dec [of n] d by simp
  then have nc: "\<not> json_space c" "\<not> json_punct c" "c \<noteq> quote"
    by (auto simp: json_space_def json_punct_def isdigit_def quote_def)
  have t: "takeWhile isdigit (dec n @ rest) = dec n" "dropWhile isdigit (dec n @ rest) = rest"
    using assms dec_isdigit [of n] by (auto simp: delimits_def takeWhile_append2 dropWhile_append2 split: list.splits)
  show ?thesis using nc c t digits_value_dec [of n] by (subst json_lex.simps) (simp add: d append_one)
qed

lemma json_lex_bool [simp]:
  assumes "delimits rest"
  shows "json_lex (json_bool b @ rest) = map_option (append [JWord (json_bool b)]) (json_lex rest)"
proof -
  obtain c cs where d: "json_bool b = c # cs" "isalpha c" by (cases b) (auto simp: json_bool_def isalpha_def)
  have nc: "\<not> json_space c" "\<not> json_punct c" "c \<noteq> quote" "\<not> isdigit c"
    using d(2) by (auto simp: json_space_def json_punct_def isalpha_def isdigit_def quote_def Let_def)
  have "\<forall>c \<in> set (json_bool b). isalpha c" by (cases b) (auto simp: json_bool_def isalpha_def)
  then have t: "takeWhile isalpha (json_bool b @ rest) = json_bool b" "dropWhile isalpha (json_bool b @ rest) = rest"
    using assms by (auto simp: delimits_def takeWhile_append2 dropWhile_append2 split: list.splits)
  show ?thesis using nc d t by (subst json_lex.simps) (simp add: append_one)
qed

lemma json_delimits [simp]:
  "delimits []" "delimits (CHR '','' # s)" "delimits (CHR ''}'' # s)" "delimits (CHR 0x0A # s)"
  "delimits (json_field n @ s)"
  by (simp_all add: delimits_def json_field_def isdigit_def isalpha_def)


subsection \<open>The document of a list of results\<close>

fun with_commas :: "json_token list list \<Rightarrow> json_token list" where
  "with_commas [] = []"
| "with_commas [t] = t"
| "with_commas (t # u # ts) = t @ JPunct (CHR '','') # with_commas (u # ts)"

fun json_tokens :: "json \<Rightarrow> json_token list" where
  "json_tokens (JsonNumber n) = [JNumber n]"
| "json_tokens (JsonText s) = [JString s]"
| "json_tokens (JsonBool b) = [JWord (json_bool b)]"
| "json_tokens (JsonArray xs) = JPunct (CHR ''['') # with_commas (map json_tokens xs) @ [JPunct (CHR '']'')]"
| "json_tokens (JsonObject fs) =
     JPunct (CHR ''{'') #
     with_commas (map (\<lambda>(n, v). JString n # JPunct (CHR '':'') # json_tokens v) fs) @ [JPunct (CHR ''}'')]"

definition error_value :: "IpsecError \<Rightarrow> json" where
  "error_value e = JsonText (GetNativeAppAlgorithmErrorText e)"

definition cleanup_value :: "NativeAppAlgorithmCleanup \<Rightarrow> json" where
  "cleanup_value u = JsonObject
     [(''terminate_error'', error_value (cu_eTerminateError u)),
      (''wait_removed_error'', error_value (cu_eWaitRemovedError u)),
      (''remove_connection_error'', error_value (cu_eRemoveConnectionError u)),
      (''final_verify_error'', error_value (cu_eFinalVerifyError u)),
      (''peer_error'', error_value (cu_ePeerError u)),
      (''terminate_attempts'', JsonNumber (cu_uiTerminateAttempts u)),
      (''wait_removed_attempts'', JsonNumber (cu_uiWaitRemovedAttempts u)),
      (''remove_connection_attempts'', JsonNumber (cu_uiRemoveConnectionAttempts u)),
      (''peer_attempts'', JsonNumber (cu_uiPeerAttempts u)),
      (''recovered'', JsonBool (cu_bRecovered u)), (''local_verified'', JsonBool (cu_bLocalVerified u))]"

definition result_value :: "NativeAppAlgorithmCaseResult \<Rightarrow> json" where
  "result_value r = JsonObject
     [(''case_id'', JsonText (cstr (ac_acId (cr_Case r)))),
      (''ike_proposal'', JsonText (cstr (ac_acIkeProposal (cr_Case r)))),
      (''esp_proposal'', JsonText (cstr (ac_acEspProposal (cr_Case r)))),
      (''negotiated_ike'', JsonText (cstr (cr_acNegotiatedIke r))),
      (''negotiated_esp'', JsonText (cstr (cr_acNegotiatedEsp r))),
      (''reqid'', JsonNumber (cr_uiReqid r)), (''xfrm_states'', JsonNumber (cr_uiXfrmStateCount r)),
      (''xfrm_policies'', JsonNumber (cr_uiXfrmPolicyCount r)), (''duration_ms'', JsonNumber (cr_ullDurationMs r)),
      (''result'', JsonText (GetNativeAppAlgorithmResultName (cr_eResult r))),
      (''error'', error_value (cr_eError r)), (''cleanup_error'', error_value (cr_eCleanupError r)),
      (''cleanup'', cleanup_value (cr_Cleanup r)),
      (''ike_result'', JsonText (passed_text (cr_bIkeVerified r))),
      (''esp_result'', JsonText (passed_text (cr_bEspVerified r))),
      (''xfrm_result'', JsonText (passed_text (cr_bXfrmVerified r))),
      (''data_path_result'', JsonText (passed_text (cr_bDataPathVerified r))),
      (''peer_result'', JsonText (cstr (cr_acPeerResult r)))]"

definition run_value ::
  "NativeAppAlgorithmOptions \<Rightarrow> string \<Rightarrow> nat \<Rightarrow> NativeAppAlgorithmCaseResult list \<Rightarrow>
   (string \<times> json) list \<Rightarrow> json" where
  "run_value opts pcRunId uiRequested rs extra = JsonObject
     ([(''schema_version'', JsonNumber 4), (''run_id'', JsonText (cstr pcRunId)),
       (''mode'', JsonText (GetNativeAppAlgorithmModeName (ao_eMode opts))),
       (''start'', JsonNumber (ao_uiStart opts)), (''requested'', JsonNumber uiRequested),
       (''cases'', JsonArray (map result_value rs))] @ extra)"

definition case_passed :: "NativeAppAlgorithmCaseResult \<Rightarrow> bool" where
  "case_passed r \<longleftrightarrow> cr_eResult r = NATIVE_APP_ALGORITHM_RESULT_PASS"

definition summary_value :: "NativeAppAlgorithmCaseResult list \<Rightarrow> json" where
  "summary_value rs = JsonObject
     [(''completed'', JsonNumber (length rs)), (''passed'', JsonNumber (length (filter case_passed rs))),
      (''failed'', JsonNumber (length (filter (\<lambda>r. \<not> case_passed r) rs)))]"

lemma result_name_plain [simp]: "cstr (GetNativeAppAlgorithmResultName x) = GetNativeAppAlgorithmResultName x"
  by (cases x) (simp_all add: cstr_def)

lemma mode_name_plain [simp]: "cstr (GetNativeAppAlgorithmModeName m) = GetNativeAppAlgorithmModeName m"
  by (cases m) (simp_all add: cstr_def)

lemma error_text_plain [simp]: "cstr (GetNativeAppAlgorithmErrorText e) = GetNativeAppAlgorithmErrorText e"
  by (cases e) (simp_all add: GetNativeAppAlgorithmErrorText_def GetIpsecErrorString_def cstr_def)

lemma passed_text_plain [simp]: "plain_text (passed_text b)"
  by (simp add: passed_text_def plain_text_def quote_def backslash_def)

lemma json_lex_error [simp]:
  "json_lex (json_error e @ rest) = map_option (append (json_tokens (error_value e))) (json_lex rest)"
  by (simp add: json_error_def error_value_def)

lemma json_field_names [simp]:
  "plain_text ''case_id''" "plain_text ''ike_proposal''" "plain_text ''esp_proposal''" "plain_text ''negotiated_ike''"
  "plain_text ''negotiated_esp''" "plain_text ''reqid''" "plain_text ''xfrm_states''" "plain_text ''xfrm_policies''"
  "plain_text ''duration_ms''" "plain_text ''result''" "plain_text ''error''" "plain_text ''cleanup_error''"
  "plain_text ''cleanup''" "plain_text ''ike_result''" "plain_text ''esp_result''" "plain_text ''xfrm_result''"
  "plain_text ''data_path_result''" "plain_text ''peer_result''" "plain_text ''terminate_error''"
  "plain_text ''wait_removed_error''" "plain_text ''remove_connection_error''" "plain_text ''final_verify_error''"
  "plain_text ''peer_error''" "plain_text ''terminate_attempts''" "plain_text ''wait_removed_attempts''"
  "plain_text ''remove_connection_attempts''" "plain_text ''peer_attempts''" "plain_text ''recovered''"
  "plain_text ''local_verified''" "plain_text ''schema_version''" "plain_text ''run_id''" "plain_text ''mode''"
  "plain_text ''start''" "plain_text ''requested''" "plain_text ''cases''" "plain_text ''summary''"
  "plain_text ''completed''" "plain_text ''passed''" "plain_text ''failed''"
  by code_simp+

lemma json_lex_cleanup [simp]:
  "json_lex (json_cleanup u @ rest) = map_option (append (json_tokens (cleanup_value u))) (json_lex rest)"
  by (simp add: json_cleanup_def cleanup_value_def error_value_def)

lemma json_lex_case:
  "json_lex (json_case r @ rest) = map_option (append (json_tokens (result_value r))) (json_lex rest)"
  by (simp add: json_case_def result_value_def json_phases_def error_value_def)


definition json_cases :: "NativeAppAlgorithmCaseResult list \<Rightarrow> string" where
  "json_cases rs = join_with ('','' @ nl) (map json_case rs)"

lemma json_cases_snoc: "json_cases (rs @ [r]) = json_cases rs @ (if rs = [] then [] else '','' @ nl) @ json_case r"
proof -
  have "join_with s (ts @ [t]) = join_with s ts @ (if ts = [] then [] else s) @ t" for s t and ts :: "string list"
    by (induction s ts rule: join_with.induct) simp_all
  then show ?thesis by (simp add: json_cases_def)
qed

lemma json_cases_few: "json_cases [] = []" "json_cases [r] = json_case r"
  by (simp_all add: json_cases_def)

lemma json_lex_cases:
  "json_lex (json_cases rs @ rest) = map_option (append (with_commas (map (json_tokens \<circ> result_value) rs))) (json_lex rest)"
proof -
  have "json_lex (join_with ('','' @ nl) (map json_case rs) @ rest) =
      map_option (append (with_commas (map (json_tokens \<circ> result_value) rs))) (json_lex rest)"
  proof (induction rs rule: induct_list012)
    case 1
    then show ?case by (cases "json_lex rest") simp_all
  next
    case (2 r)
    then show ?case by (simp add: json_lex_case)
  next
    case (3 r s rs)
    then show ?case by (cases "json_lex rest") (simp_all add: json_lex_case)
  qed
  then show ?thesis by (simp add: json_cases_def)
qed

text \<open>The text of the file between two operations, and its value.\<close>

lemma json_lex_version [simp]:
  "delimits s \<Longrightarrow> json_lex (CHR ''4'' # s) = map_option (append [JNumber 4]) (json_lex s)"
proof -
  have "dec 4 = ''4''" by (simp add: dec.simps) code_simp
  then show "delimits s \<Longrightarrow> ?thesis" using json_lex_number [of s 4] by simp
qed

lemma json_lex_document:
  "json_lex (json_head opts run n @ json_cases rs @ json_tail) = Some (json_tokens (run_value opts run n rs []))"
  by (simp add: json_head_def json_tail_def json_lex_cases run_value_def)

lemma json_lex_summary:
  assumes "jw_uiCaseCount p = length rs" and "jw_uiPassed p = length (filter case_passed rs)"
    and "jw_uiFailed p = length (filter (\<lambda>r. \<not> case_passed r) rs)"
  shows "json_lex (json_head opts run n @ json_cases rs @ json_summary p) =
    Some (json_tokens (run_value opts run n rs [(''summary'', summary_value rs)]))"
  using assms by (simp add: json_head_def json_summary_def json_lex_cases run_value_def summary_value_def)


subsection \<open>The writer keeps the document\<close>

lemma put_at_end: "pos = length a \<Longrightarrow> length b \<le> length t \<Longrightarrow> put_at pos t (a @ b) = a @ t"
  by (simp add: put_at_def)

lemma put_at_inside: "pos = length a \<Longrightarrow> put_at pos t (a @ b) = a @ t @ drop (length t) b"
  by (simp add: put_at_def)

text \<open>The state of the system apart from the outcomes still to come.\<close>

definition same_but_files :: "AlgorithmWorld \<Rightarrow> AlgorithmWorld \<Rightarrow> bool" where
  "same_but_files g g' \<longleftrightarrow> ag_App g' = ag_App g \<and> ag_open g' = ag_open g \<and> ag_sent g' = ag_sent g"

lemma sweep_call_props:
  "sweep_call g = (b, g') \<Longrightarrow> ag_files g' = ag_files g \<and> same_but_files g g'"
  by (auto simp: sweep_call_def sweep_next_def same_but_files_def split: list.splits)

lemma same_but_files_trans: "same_but_files g g' \<Longrightarrow> same_but_files g' g'' \<Longrightarrow> same_but_files g g''"
  by (simp add: same_but_files_def)

lemma write_with_tail_props:
  assumes w: "write_with_tail t f g = (off, b, f', g')" and "0 \<le> off"
    and c: "ag_files g (sf_path f) = Some (a @ u)" "sf_position f = length a" "length u \<le> length json_tail"
  shows "ag_files g' = (ag_files g)(sf_path f \<mapsto> a @ t @ json_tail)" and "off = int (length (a @ t))"
    and "sf_path f' = sf_path f" and "same_but_files g g'"
proof -
  let ?g1 = "snd (sys_fputs t f g)" and ?f1 = "fst (sys_fputs t f g)"
  obtain b2 g2 where t: "sweep_call ?g1 = (b2, g2)" by fastforce
  have b2: "b2" using w assms(2) t by (auto simp: write_with_tail_def sys_ftell_def case_prod_beta split: if_splits)
  let ?g3 = "snd (sys_fputs json_tail ?f1 g2)"
  obtain b3 g3 where f: "sweep_call ?g3 = (b3, g3)" by fastforce
  have r: "off = int (sf_position ?f1)" "f' = fst (sys_fputs json_tail ?f1 g2)" "g' = g3"
    using w t b2 f by (auto simp: write_with_tail_def sys_ftell_def sys_fflush_def case_prod_beta)
  show "off = int (length (a @ t))" "sf_path f' = sf_path f"
    using r c(2) by (simp_all add: sys_fputs_def)
  have 1: "ag_files g2 = (ag_files g)(sf_path f \<mapsto> a @ t @ drop (length t) u)"
    using sweep_call_props [OF t] c by (simp add: sys_fputs_def put_at_inside)
  have "put_at (length a + length t) json_tail (a @ t @ drop (length t) u) = a @ t @ json_tail"
    using put_at_end [of "length a + length t" "a @ t" "drop (length t) u" json_tail] c(3) by simp
  then show "ag_files g' = (ag_files g)(sf_path f \<mapsto> a @ t @ json_tail)"
    using sweep_call_props [OF f] 1 r(3) c(2) by (simp add: sys_fputs_def)
  show "same_but_files g g'"
    using sweep_call_props [OF t] sweep_call_props [OF f] r(3) by (simp add: sys_fputs_def same_but_files_def)
qed

definition writer_holds ::
  "string \<Rightarrow> string \<Rightarrow> NativeAppAlgorithmCaseResult list \<Rightarrow> NativeAppAlgorithmJsonWriter \<times> AlgorithmWorld \<Rightarrow> bool" where
  "writer_holds path pre rs s \<longleftrightarrow>
     (case s of (p, g) \<Rightarrow>
        (case jw_pFile p of None \<Rightarrow> False | Some f \<Rightarrow> sf_path f = path) \<and>
        ag_files g path = Some (pre @ json_cases rs @ json_tail) \<and>
        jw_lTailOffset p = int (length (pre @ json_cases rs)) \<and>
        jw_uiCaseCount p = length rs \<and> jw_uiPassed p = length (filter case_passed rs) \<and>
        jw_uiFailed p = length (filter (\<lambda>r. \<not> case_passed r) rs))"

lemma OpenNativeAppAlgorithmJson_holds:
  assumes "OpenNativeAppAlgorithmJson opts run n g = (s, IPSEC_OK)"
  shows "writer_holds (cstr (case ao_pcResultsPath opts of Some p \<Rightarrow> p | None \<Rightarrow> ''results.json''))
    (json_head opts run n) [] s"
proof -
  let ?path = "case ao_pcResultsPath opts of Some p \<Rightarrow> p | None \<Rightarrow> ''results.json''"
  obtain b g1 where o: "sweep_call g = (b, g1)" by fastforce
  let ?f = "\<lparr>sf_path = cstr ?path, sf_position = 0\<rparr>"
  let ?g = "g1\<lparr>ag_files := (ag_files g1)(cstr ?path \<mapsto> []), ag_open := ag_open g1 + 1\<rparr>"
  have b: b using assms o by (cases b) (simp_all add: OpenNativeAppAlgorithmJson_def sys_fopen_def)
  obtain off fl f' g' where w: "write_with_tail (json_head opts run n) ?f ?g = (off, fl, f', g')"
    by (metis prod.exhaust)
  have r: "0 \<le> off" "s = (zero_writer\<lparr>jw_pFile := Some f', jw_lTailOffset := off\<rparr>, g')"
    using assms o b w by (auto simp: OpenNativeAppAlgorithmJson_def sys_fopen_def Let_def split: if_splits)
  show ?thesis
    using write_with_tail_props [OF w r(1), of "[]" "[]"] r(2)
    by (simp add: writer_holds_def zero_writer_def json_cases_def)
qed

lemma AppendNativeAppAlgorithmJson_holds:
  assumes "AppendNativeAppAlgorithmJson r s = (s', IPSEC_OK)" and "writer_holds path pre rs s"
    and "length rs < UINT32_MAX"
  shows "writer_holds path pre (rs @ [r]) s'"
proof -
  obtain p g where s: "s = (p, g)" by fastforce
  obtain f where f: "jw_pFile p = Some f" "sf_path f = path" using assms(2) s
    by (auto simp: writer_holds_def split: option.splits)
  note h = assms(2) [unfolded writer_holds_def s prod.case]
  obtain b g1 where o: "sweep_call g = (b, g1)" by fastforce
  have b: b using assms(1) s f o by (cases b) (simp_all add: AppendNativeAppAlgorithmJson_def sys_fseek_def)
  let ?t = "(if 0 < jw_uiCaseCount p then '','' @ nl else []) @ json_case r"
  let ?f = "f\<lparr>sf_position := length (pre @ json_cases rs)\<rparr>"
  obtain off fl f' g' where w: "write_with_tail ?t ?f g1 = (off, fl, f', g')" by (metis prod.exhaust)
  have seek: "sys_fseek (jw_lTailOffset p) f g = (True, ?f, g1)" using o b h by (simp add: sys_fseek_def)
  have off: "0 \<le> off" using assms(1) s f w seek
    by (auto simp: AppendNativeAppAlgorithmJson_def Let_def split: if_splits)
  have t: "json_cases rs @ ?t = json_cases (rs @ [r])" using h by (simp add: json_cases_snoc)
  have c: "ag_files g1 (sf_path ?f) = Some ((pre @ json_cases rs) @ json_tail)"
    using sweep_call_props [OF o] h f by simp
  note x = write_with_tail_props [OF w off c]
  have n: "u32 (Suc (length (filter P rs))) = Suc (length (filter P rs))" for P
    using le_less_trans [OF length_filter_le assms(3), of P] by (simp add: mod_less)
  show ?thesis using assms(1) s f w seek x h assms(3) off
    by (cases "rs = []") (auto simp: json_cases_snoc json_cases_few n AppendNativeAppAlgorithmJson_def writer_holds_def case_passed_def Let_def split: if_splits)
qed

lemma CloseNativeAppAlgorithmJson_holds:
  assumes "CloseNativeAppAlgorithmJson s = (p', g')" and "writer_holds path pre rs s"
  shows "jw_pFile p' = None"
    and "ag_files g' path \<in> {Some (pre @ json_cases rs @ json_tail), Some (pre @ json_cases rs @ json_summary (fst s))}"
proof -
  obtain p g where s: "s = (p, g)" by fastforce
  obtain f where f: "jw_pFile p = Some f" "sf_path f = path" using assms(2) s
    by (auto simp: writer_holds_def split: option.splits)
  note h = assms(2) [unfolded writer_holds_def s prod.case]
  obtain b g1 where o: "sweep_call g = (b, g1)" by fastforce
  let ?f = "f\<lparr>sf_position := length (pre @ json_cases rs)\<rparr>"
  let ?g2 = "snd (sys_fputs (json_summary p) ?f g1)"
  obtain c g3 where c: "sweep_call ?g2 = (c, g3)" by fastforce
  have len: "length json_tail \<le> length (json_summary p)"
    by (simp add: json_tail_def json_summary_def)
  have seek: "sys_fseek (jw_lTailOffset p) f g = (if b then (True, ?f, g1) else (False, f, g1))"
    using o h by (simp add: sys_fseek_def)
  have w: "put_at (length (pre @ json_cases rs)) (json_summary p) (pre @ json_cases rs @ json_tail) =
      pre @ json_cases rs @ json_summary p"
    using put_at_end [of _ "pre @ json_cases rs" json_tail "json_summary p"] len by simp
  show "jw_pFile p' = None"
    using assms(1) s f seek by (auto simp: CloseNativeAppAlgorithmJson_def Let_def case_prod_beta split: if_splits)
  show "ag_files g' path \<in> {Some (pre @ json_cases rs @ json_tail), Some (pre @ json_cases rs @ json_summary (fst s))}"
    using assms(1) s f seek c w h sweep_call_props [OF o] sweep_call_props [OF c]
    by (cases b) (auto simp: CloseNativeAppAlgorithmJson_def Let_def case_prod_beta sys_fputs_def sys_fflush_def sys_fclose_def)
qed


text \<open>A record of results that grows by one with every successful operation.\<close>

locale result_record =
  fixes add :: "'r \<Rightarrow> 's \<Rightarrow> 's outcome"
    and holds :: "'p \<Rightarrow> 'r list \<Rightarrow> 's \<Rightarrow> bool"
  assumes add_holds: "add r s = (s', IPSEC_OK) \<Longrightarrow> holds p rs s \<Longrightarrow> length rs < UINT32_MAX \<Longrightarrow> holds p (rs @ [r]) s'"
begin

lemma append_all:
  assumes "run_steps (map add rs) s = (s', IPSEC_OK)" and "holds p old s"
    and "length old + length rs \<le> UINT32_MAX"
  shows "holds p (old @ rs) s'"
  using assms
proof (induction rs arbitrary: s old)
  case (Cons r rs)
  obtain s1 where a: "add r s = (s1, IPSEC_OK)" and rest: "run_steps (map add rs) s1 = (s', IPSEC_OK)"
    using Cons.prems(1) by (auto simp: and_then_ok)
  have "holds p (old @ [r]) s1"
    using add_holds [OF a Cons.prems(2)] Cons.prems(3) by simp
  then show ?case using Cons.IH [OF rest, of "old @ [r]"] Cons.prems(3) by simp
qed simp

end

interpretation results: result_record AppendNativeAppAlgorithmJson "\<lambda>(path, pre). writer_holds path pre"
  by unfold_locales (auto intro: AppendNativeAppAlgorithmJson_holds)

definition results_path :: "NativeAppAlgorithmOptions \<Rightarrow> string" where
  "results_path opts = cstr (case ao_pcResultsPath opts of Some p \<Rightarrow> p | None \<Rightarrow> ''results.json'')"

definition file_value :: "AlgorithmWorld \<Rightarrow> string \<Rightarrow> json \<Rightarrow> bool" where
  "file_value g path v = (map_option json_lex (ag_files g path) = Some (Some (json_tokens v)))"

text \<open>The result file is a JSON document at every moment between two operations of the writer.
  After it was opened and any number of results were appended, the file holds the document of the
  run with exactly these results, in their order; closing it adds the summary, whose numbers are
  those of the results, or leaves the document as it was when the file cannot be positioned.
  Nothing of an earlier tail remains, and every text is read back as it was given.\<close>

lemma result_file_document:
  assumes "OpenNativeAppAlgorithmJson opts run n g = (s, IPSEC_OK)"
    and "run_steps (map AppendNativeAppAlgorithmJson rs) s = ((p', g'), IPSEC_OK)" and "length rs \<le> UINT32_MAX"
    and "CloseNativeAppAlgorithmJson (p', g') = (p'', g'')"
  shows "file_value g' (results_path opts) (run_value opts run n rs [])"
    and "file_value g'' (results_path opts) (run_value opts run n rs []) \<or>
         file_value g'' (results_path opts) (run_value opts run n rs [(''summary'', summary_value rs)])"
proof -
  have h: "writer_holds (results_path opts) (json_head opts run n) rs (p', g')"
    using results.append_all [OF assms(2), of "(results_path opts, json_head opts run n)" "[]"]
      OpenNativeAppAlgorithmJson_holds [OF assms(1)] assms(3)
    by (simp add: results_path_def)
  then show "file_value g' (results_path opts) (run_value opts run n rs [])"
    by (simp add: writer_holds_def file_value_def json_lex_document)
  show "file_value g'' (results_path opts) (run_value opts run n rs []) \<or>
         file_value g'' (results_path opts) (run_value opts run n rs [(''summary'', summary_value rs)])"
    using CloseNativeAppAlgorithmJson_holds(2) [OF assms(4) h] h
    by (auto simp: writer_holds_def file_value_def json_lex_document json_lex_summary)
qed


end
