(* ===== verification/AppRunner.thy ===== *)
theory AppRunner
  imports AppJson AppLifecycle
begin

section \<open>Algorithm tests between two peers (\<open>app/algorithm_runner.c\<close>)\<close>

text \<open>
  The initiator goes through the cases of a catalogue.  For each case it tells the responder the
  proposals in a datagram, negotiates the connection, compares what the daemon and the kernel
  have with the case, asks the responder for its view, and removes everything again; a responder
  answers one case at a time.  The datagrams are fields separated by bars.

  \<open>pContext\<close>, the configuration and the case are never NULL here.  The stream \<open>pLog\<close> of a run is
  \<open>ag_log\<close>, and its socket is the only one of the sweep; an outcome of \<open>sendto\<close> or \<open>recvfrom\<close>
  is one of that socket.
\<close>

abbreviation NATIVE_APP_ALGORITHM_MESSAGE_LENGTH :: nat where "NATIVE_APP_ALGORITHM_MESSAGE_LENGTH \<equiv> 1024"
abbreviation NATIVE_APP_ALGORITHM_POLL_MS :: nat where "NATIVE_APP_ALGORITHM_POLL_MS \<equiv> 500"
abbreviation NATIVE_APP_ALGORITHM_CLEANUP_ATTEMPTS :: nat where "NATIVE_APP_ALGORITHM_CLEANUP_ATTEMPTS \<equiv> 3"
abbreviation NATIVE_APP_ALGORITHM_CLEANUP_WAIT_MS :: nat where "NATIVE_APP_ALGORITHM_CLEANUP_WAIT_MS \<equiv> 5000"
abbreviation NATIVE_APP_ALGORITHM_CLEANUP_RETRY_MS :: nat where "NATIVE_APP_ALGORITHM_CLEANUP_RETRY_MS \<equiv> 200"
abbreviation NATIVE_APP_ALGORITHM_DEFAULT_PORT :: nat where "NATIVE_APP_ALGORITHM_DEFAULT_PORT \<equiv> 39001"
abbreviation NATIVE_APP_ALGORITHM_DEFAULT_LIMIT :: nat where "NATIVE_APP_ALGORITHM_DEFAULT_LIMIT \<equiv> 10"

definition NATIVE_APP_ALGORITHM_PROTOCOL :: string where
  "NATIVE_APP_ALGORITHM_PROTOCOL = ''IPSEC-ALGORITHM-1''"

record NativeAppAlgorithmEndpoint =
  ep_Address :: sockaddr_storage
  ep_zLength :: nat

subsection \<open>The clock, the stop flag and the log\<close>

definition sweep_stop :: "AlgorithmWorld \<Rightarrow> bool \<times> AlgorithmWorld" where
  "sweep_stop g = (let (bStop, a) = IsNativeAppStopRequested (ag_App g) in (bStop, g\<lparr>ag_App := a\<rparr>))"

text \<open>The loop over \<open>nanosleep\<close> is that of \<open>SleepNativeApp\<close>.\<close>

definition SleepNativeAppAlgorithm :: "nat \<Rightarrow> AlgorithmWorld \<Rightarrow> AlgorithmWorld" where
  "SleepNativeAppAlgorithm uiMilliseconds g = g\<lparr>ag_App := SleepNativeApp uiMilliseconds (ag_App g)\<rparr>"

definition GetNativeAppAlgorithmTimeMs :: "AlgorithmWorld \<Rightarrow> nat \<times> AlgorithmWorld" where
  "GetNativeAppAlgorithmTimeMs g =
     (let (ev, g) = sweep_next g in
      case ev of
        Some (SweepClock tv_sec tv_nsec) \<Rightarrow> (u64 (u64 (tv_sec * 1000) + tv_nsec div 1000000), g)
      | _ \<Rightarrow> (0, g))"

definition CopyNativeAppAlgorithmValue :: "cbuf \<Rightarrow> string \<Rightarrow> cbuf outcome" where
  "CopyNativeAppAlgorithmValue pcDestination pcSource =
     (if length pcDestination = 0 then (pcDestination, IPSEC_ERR_INVALID_ARGUMENT)
      else
        let (pcDestination, bFits) = snprintf_to pcDestination (cstr pcSource)
        in (pcDestination, if bFits then IPSEC_OK else IPSEC_ERR_BUFFER_TOO_SMALL))"

text \<open>\<open>time\<close>, \<open>localtime_r\<close> and \<open>strftime\<close> with a format made of the six numbers, into an array of 32
  characters.\<close>

definition sys_local_time ::
  "(nat \<Rightarrow> nat \<Rightarrow> nat \<Rightarrow> nat \<Rightarrow> nat \<Rightarrow> nat \<Rightarrow> string) \<Rightarrow> AlgorithmWorld \<Rightarrow> string option \<times> AlgorithmWorld" where
  "sys_local_time fmt g =
     (let (ev, g) = sweep_next g in
      case ev of
        Some (LocalTime y mo d h mi s) \<Rightarrow>
          (if length (fmt y mo d h mi s) < 32 then Some (fmt y mo d h mi s) else None, g)
      | _ \<Rightarrow> (None, g))"

definition log_time :: "nat \<Rightarrow> nat \<Rightarrow> nat \<Rightarrow> nat \<Rightarrow> nat \<Rightarrow> nat \<Rightarrow> string" where
  "log_time y mo d h mi s =
     dec y @ ''-'' @ dec_pad 2 mo @ ''-'' @ dec_pad 2 d @ '' '' @ dec_pad 2 h @ '':'' @ dec_pad 2 mi @ '':'' @ dec_pad 2 s"

definition run_time :: "nat \<Rightarrow> nat \<Rightarrow> nat \<Rightarrow> nat \<Rightarrow> nat \<Rightarrow> nat \<Rightarrow> string" where
  "run_time y mo d h mi s =
     dec y @ dec_pad 2 mo @ dec_pad 2 d @ ''_'' @ dec_pad 2 h @ dec_pad 2 mi @ dec_pad 2 s"

text \<open>The text goes to the console and, with the time, to the log of the run when there is one.  The
  results of \<open>fflush\<close> are not used.\<close>

definition log_line :: "string \<Rightarrow> string \<Rightarrow> AlgorithmWorld \<Rightarrow> AlgorithmWorld" where
  "log_line pcLevel t g =
     (case ag_log g of
        None \<Rightarrow> g
      | Some f \<Rightarrow>
          (let (acTimestamp, g) = sys_local_time log_time g in
           case acTimestamp of
             None \<Rightarrow> g
           | Some stamp \<Rightarrow>
               let (f, g) = sys_fputs (''['' @ stamp @ ''] ['' @ pcLevel @ ''] '' @ t @ nl) f g
               in g\<lparr>ag_log := Some f\<rparr>))"

definition ReportNativeAppAlgorithm :: "bool \<Rightarrow> string \<Rightarrow> string \<Rightarrow> AlgorithmWorld \<Rightarrow> AlgorithmWorld" where
  "ReportNativeAppAlgorithm bStdout pcLevel t g =
     log_line pcLevel t ((if bStdout then sweep_printf (t @ nl) else sweep_eprintf (t @ nl)) g)"

subsection \<open>The directory and the name of a run\<close>

definition CreateNativeAppAlgorithmDirectory :: "string \<Rightarrow> AlgorithmWorld \<Rightarrow> AlgorithmWorld outcome" where
  "CreateNativeAppAlgorithmDirectory pcPath g =
     (let (acPath, eError) = CopyNativeAppAlgorithmValue (replicate NATIVE_APP_PATH_LENGTH NUL) pcPath in
      if eError \<noteq> IPSEC_OK then (g, eError)
      else
        let (bMade, g) = mkdir_all (parent_paths (cstr acPath)) g in
        if \<not> bMade then (g, IPSEC_ERR_FILE_OPEN)
        else
          let (bMade, g) = sys_mkdir (cstr acPath) g in
          if \<not> bMade then (g, IPSEC_ERR_FILE_OPEN)
          else
            let (bDirectory, g) = sweep_call g
            in (g, if bDirectory then IPSEC_OK else IPSEC_ERR_FILE_OPEN))"

definition JoinNativeAppAlgorithmPath :: "cbuf \<Rightarrow> string \<Rightarrow> string \<Rightarrow> cbuf outcome" where
  "JoinNativeAppAlgorithmPath pcPath pcDirectory pcName =
     (if length pcPath = 0 then (pcPath, IPSEC_ERR_INVALID_ARGUMENT)
      else
        let (pcPath, bFits) = snprintf_to pcPath (joined_path pcDirectory pcName)
        in (pcPath, if bFits then IPSEC_OK else IPSEC_ERR_BUFFER_TOO_SMALL))"

definition sys_pid :: "AlgorithmWorld \<Rightarrow> nat \<times> AlgorithmWorld" where
  "sys_pid g = (let (ev, g) = sweep_next g in (case ev of Some (SweepPid n) \<Rightarrow> (n, g) | _ \<Rightarrow> (0, g)))"

definition CreateNativeAppAlgorithmRunId ::
  "NativeAppAlgorithmMode \<Rightarrow> cbuf \<Rightarrow> AlgorithmWorld \<Rightarrow> (cbuf \<times> AlgorithmWorld) outcome" where
  "CreateNativeAppAlgorithmRunId eMode pcRunId g =
     (if length pcRunId = 0 then ((pcRunId, g), IPSEC_ERR_INTERNAL)
      else
        let (acTimestamp, g) = sys_local_time run_time g in
        case acTimestamp of
          None \<Rightarrow> ((pcRunId, g), IPSEC_ERR_INTERNAL)
        | Some stamp \<Rightarrow>
            let (pid, g) = sys_pid g;
                (pcRunId, bFits) = snprintf_to pcRunId
                  (GetNativeAppAlgorithmModeName eMode @ ''_'' @ stamp @ ''_'' @ dec pid)
            in ((pcRunId, g), if bFits then IPSEC_OK else IPSEC_ERR_BUFFER_TOO_SMALL))"

definition run_id_char :: "char \<Rightarrow> bool" where
  "run_id_char c \<longleftrightarrow> isalpha c \<or> isdigit c \<or> c = CHR ''_'' \<or> c = CHR ''-''"

definition IsNativeAppAlgorithmRunIdValid :: "string \<Rightarrow> bool" where
  "IsNativeAppAlgorithmRunIdValid pcRunId =
     (let zLength = strnlen pcRunId NATIVE_APP_ALGORITHM_RUN_ID_LENGTH in
      if zLength = 0 \<or> NATIVE_APP_ALGORITHM_RUN_ID_LENGTH \<le> zLength then False
      else list_all run_id_char (cstr pcRunId))"

definition has_prefix :: "string \<Rightarrow> string \<Rightarrow> bool" where
  "has_prefix p t = (take (length p) (cstr t) = p)"

definition GetNativeAppAlgorithmRunMode :: "string \<Rightarrow> NativeAppAlgorithmMode" where
  "GetNativeAppAlgorithmRunMode pcRunId =
     (if has_prefix ''baseline_'' pcRunId then NATIVE_APP_ALGORITHM_BASELINE
      else if has_prefix ''exhaustive-ike_'' pcRunId then NATIVE_APP_ALGORITHM_EXHAUSTIVE_IKE
      else if has_prefix ''exhaustive-esp_'' pcRunId then NATIVE_APP_ALGORITHM_EXHAUSTIVE_ESP
      else NATIVE_APP_ALGORITHM_CUSTOM)"

text \<open>The result directory goes to the array of the caller, the stream to \<open>ag_log\<close>.\<close>

definition OpenNativeAppAlgorithmRunLog ::
  "NativeAppConfig \<Rightarrow> string \<Rightarrow> string \<Rightarrow> cbuf \<times> AlgorithmWorld \<Rightarrow> (cbuf \<times> AlgorithmWorld) outcome" where
  "OpenNativeAppAlgorithmRunLog c pcRunId pcRole s =
     (let (pcResultDirectory, g) = s;
          (acDirectoryName, bFits) = snprintf_to (replicate NATIVE_APP_PATH_LENGTH NUL)
            (cstr pcRunId @ ''_'' @ cstr pcRole)
      in if \<not> bFits then (s, IPSEC_ERR_BUFFER_TOO_SMALL)
         else
           let (pcResultDirectory, eError) =
                 JoinNativeAppAlgorithmPath pcResultDirectory (nc_acOutputRoot c) acDirectoryName;
               (g, eError) =
                 (if eError = IPSEC_OK then CreateNativeAppAlgorithmDirectory pcResultDirectory g else (g, eError));
               (acLogPath, eError) =
                 (if eError = IPSEC_OK
                  then JoinNativeAppAlgorithmPath (replicate NATIVE_APP_PATH_LENGTH NUL) pcResultDirectory
                         ''application.log''
                  else (replicate NATIVE_APP_PATH_LENGTH NUL, eError))
           in if eError \<noteq> IPSEC_OK then ((pcResultDirectory, g), eError)
              else
                let (pFile, g) = sys_fopen acLogPath False g
                in ((pcResultDirectory, g\<lparr>ag_log := pFile\<rparr>),
                    if pFile = None then IPSEC_ERR_FILE_OPEN else IPSEC_OK))"

text \<open>The configuration of a case and, on success, its connection.\<close>

definition BuildNativeAppAlgorithmConfig ::
  "NativeAppConfig \<Rightarrow> NativeAppAlgorithmCase \<Rightarrow> AlgorithmWorld \<Rightarrow>
   ((NativeAppConfig \<times> IpsecConnectionConfig option) \<times> AlgorithmWorld) outcome" where
  "BuildNativeAppAlgorithmConfig pBaseConfig k g =
     (let c = pBaseConfig\<lparr>nc_bChildlessIke := ac_bSeparateChildExchange k\<rparr>;
          (buf, eError) = CopyNativeAppAlgorithmValue (nc_acIkeProposals c) (ac_acIkeProposal k);
          c = c\<lparr>nc_acIkeProposals := buf\<rparr>;
          (buf, eError) =
            (if eError = IPSEC_OK then CopyNativeAppAlgorithmValue (nc_acEspProposals c) (ac_acEspProposal k)
             else (nc_acEspProposals c, eError));
          c = c\<lparr>nc_acEspProposals := buf\<rparr>;
          (Runtime, acError, eError) =
            (if eError = IPSEC_OK then BuildNativeAppRuntimeConfig NATIVE_APP_ERROR_TEXT_LENGTH (Some c) []
             else (None, [], eError));
          g = (if eError \<noteq> IPSEC_OK
               then sweep_eprintf (''algorithm config failed for '' @ cstr (ac_acId k) @ '': '' @
                      (if acError \<noteq> [] then acError else GetIpsecErrorString eError) @ nl) g
               else g)
      in (((c, Runtime), g), eError))"

subsection \<open>Addresses and the socket\<close>

definition sizeof_sockaddr_in :: nat where "sizeof_sockaddr_in = 16"
definition sizeof_sockaddr_in6 :: nat where "sizeof_sockaddr_in6 = 28"

definition InitializeNativeAppAlgorithmEndpoint ::
  "string \<Rightarrow> nat \<Rightarrow> NativeAppAlgorithmEndpoint option" where
  "InitializeNativeAppAlgorithmEndpoint pcAddress uiPort =
     (if uiPort = 0 \<or> UINT16_MAX < uiPort then None
      else
        case inet_pton4_value (cstr pcAddress) of
          Some a \<Rightarrow> Some \<lparr>ep_Address = SockIpv4 a uiPort, ep_zLength = sizeof_sockaddr_in\<rparr>
        | None \<Rightarrow>
            (case inet_pton6_value (cstr pcAddress) of
               Some a \<Rightarrow> Some \<lparr>ep_Address = SockIpv6 a uiPort, ep_zLength = sizeof_sockaddr_in6\<rparr>
             | None \<Rightarrow> None))"

definition MatchNativeAppAlgorithmPeer :: "NativeAppAlgorithmEndpoint \<Rightarrow> sockaddr_storage \<Rightarrow> bool" where
  "MatchNativeAppAlgorithmPeer pExpected pActual =
     (case (ep_Address pExpected, pActual) of
        (SockIpv4 a _, SockIpv4 b _) \<Rightarrow> a = b
      | (SockIpv6 a _, SockIpv6 b _) \<Rightarrow> a = b
      | _ \<Rightarrow> False)"

text \<open>\<open>socket\<close>, \<open>setsockopt\<close> of the receive timeout and \<open>bind\<close>.\<close>

definition OpenNativeAppAlgorithmSocket :: "NativeAppAlgorithmEndpoint \<Rightarrow> AlgorithmWorld \<Rightarrow> AlgorithmWorld outcome" where
  "OpenNativeAppAlgorithmSocket pLocal g =
     (let (bSocket, g) = sweep_call g in
      if \<not> bSocket then (g, IPSEC_ERR_INTERNAL)
      else
        let g = g\<lparr>ag_open := ag_open g + 1\<rparr>;
            (bOption, g) = sweep_call g;
            (bBound, g) = (if bOption then sweep_call g else (False, g))
        in if \<not> bOption \<or> \<not> bBound then (g\<lparr>ag_open := ag_open g - 1\<rparr>, IPSEC_ERR_INTERNAL)
           else (g, IPSEC_OK))"

definition close_socket :: "AlgorithmWorld \<Rightarrow> AlgorithmWorld" where
  "close_socket g = g\<lparr>ag_open := ag_open g - 1\<rparr>"

definition SendNativeAppAlgorithmMessage ::
  "NativeAppAlgorithmEndpoint \<Rightarrow> string \<Rightarrow> AlgorithmWorld \<Rightarrow> AlgorithmWorld outcome" where
  "SendNativeAppAlgorithmMessage pRemote pcMessage g =
     (let (ev, g) = sweep_next g; zLength = strlen pcMessage in
      case ev of
        Some (SweepSent zSent) \<Rightarrow>
          (g\<lparr>ag_sent := ag_sent g @ [(ep_Address pRemote, take zSent (cstr pcMessage))]\<rparr>,
           if zSent = zLength then IPSEC_OK else IPSEC_ERR_INTERNAL)
      | _ \<Rightarrow> (g, IPSEC_ERR_INTERNAL))"

text \<open>The message and its sender.  They are local variables of the caller: what a call that receives
  nothing leaves in them is what was there before.\<close>

definition endpoint_of :: "sockaddr_storage \<Rightarrow> NativeAppAlgorithmEndpoint" where
  "endpoint_of a = \<lparr>ep_Address = a, ep_zLength = (case a of SockIpv4 _ _ \<Rightarrow> sizeof_sockaddr_in
     | SockIpv6 _ _ \<Rightarrow> sizeof_sockaddr_in6 | SockOther \<Rightarrow> 0)\<rparr>"

definition ReceiveNativeAppAlgorithmMessage ::
  "NativeAppAlgorithmEndpoint \<Rightarrow> AlgorithmWorld \<Rightarrow>
   ((string \<times> NativeAppAlgorithmEndpoint) \<times> AlgorithmWorld) outcome" where
  "ReceiveNativeAppAlgorithmMessage pExpectedPeer g =
     (let (ev, g) = sweep_next g in
      case ev of
        Some (SweepReceived Sender bs) \<Rightarrow>
          (((take (NATIVE_APP_ALGORITHM_MESSAGE_LENGTH - 1) bs, endpoint_of Sender), g),
           if MatchNativeAppAlgorithmPeer pExpectedPeer Sender then IPSEC_OK else IPSEC_ERR_PERMISSION)
      | Some (ReceiveFailed e left a) \<Rightarrow>
          (((left, endpoint_of a), g), if e = EAGAIN \<or> e = EINTR then IPSEC_ERR_VICI_TIMEOUT else IPSEC_ERR_INTERNAL)
      | _ \<Rightarrow> ((([], endpoint_of SockOther), g), IPSEC_ERR_INTERNAL))"

subsection \<open>Messages\<close>

text \<open>The tokens of \<open>strtok_r\<close>: runs of delimiters count as one.\<close>

definition strtok_fields :: "string \<Rightarrow> string list" where
  "strtok_fields t = filter (\<lambda>f. f \<noteq> []) (split_on (CHR 0x7C) (cstr t))"

definition SplitNativeAppAlgorithmMessage :: "string \<Rightarrow> nat \<Rightarrow> string list option" where
  "SplitNativeAppAlgorithmMessage pcMessage uiFieldCapacity =
     (let fields = strtok_fields pcMessage in
      if uiFieldCapacity = 0 then None
      else if uiFieldCapacity < length fields \<or> length fields < 2 \<or> fields ! 0 \<noteq> NATIVE_APP_ALGORITHM_PROTOCOL then None
      else Some fields)"

fun uint32_loop :: "nat \<Rightarrow> string \<Rightarrow> nat option" where
  "uint32_loop ullValue [] = Some ullValue"
| "uint32_loop ullValue (c # cs) =
     (if \<not> isdigit c then None
      else
        let ullValue = u64 (u64 (ullValue * 10) + (of_char c - 48)) in
        if UINT32_MAX < ullValue then None else uint32_loop ullValue cs)"

definition ParseNativeAppAlgorithmUint32 :: "string \<Rightarrow> nat option" where
  "ParseNativeAppAlgorithmUint32 pcText = (if cstr pcText = [] then None else uint32_loop 0 (cstr pcText))"

definition has_separator :: "string \<Rightarrow> bool" where
  "has_separator t = list_ex (\<lambda>c. c = CHR 0x7C \<or> c = CHR 0x0D \<or> c = newline) (cstr t)"

definition FormatNativeAppAlgorithmMessage ::
  "string \<Rightarrow> NativeAppAlgorithmCase \<Rightarrow> string \<Rightarrow> string \<Rightarrow> cbuf outcome" where
  "FormatNativeAppAlgorithmMessage pcAction k pcValue1 pcValue2 =
     (let acMessage = replicate NATIVE_APP_ALGORITHM_MESSAGE_LENGTH NUL in
      if has_separator pcAction \<or> has_separator (ac_acId k) \<or> has_separator pcValue1 \<or> has_separator pcValue2
      then (acMessage, IPSEC_ERR_INVALID_ARGUMENT)
      else
        let (acMessage, bFits) = snprintf_to acMessage
              (join_with ''|'' [NATIVE_APP_ALGORITHM_PROTOCOL, cstr pcAction, cstr (ac_acId k), cstr pcValue1, cstr pcValue2])
        in (acMessage, if bFits then IPSEC_OK else IPSEC_ERR_BUFFER_TOO_SMALL))"

lemma sweep_next_trace:
  "sweep_next g = (ev, g') \<Longrightarrow>
   length (ag_trace g') \<le> length (ag_trace g) \<and>
   (ev \<noteq> None \<longrightarrow> length (ag_trace g') < length (ag_trace g))"
  by (auto simp: sweep_next_def split: list.splits)

lemma receive_trace:
  "ReceiveNativeAppAlgorithmMessage r g = (m, e) \<Longrightarrow> e \<noteq> IPSEC_ERR_INTERNAL \<Longrightarrow>
   length (ag_trace (snd m)) < length (ag_trace g)"
  "ReceiveNativeAppAlgorithmMessage r g = (m, e) \<Longrightarrow> length (ag_trace (snd m)) \<le> length (ag_trace g)"
  using sweep_next_trace [of g]
  by (auto simp: ReceiveNativeAppAlgorithmMessage_def split: prod.splits option.splits sweep_event.splits if_splits)

lemma sweep_stop_trace [simp]: "ag_trace (snd (sweep_stop g)) = ag_trace g"
  by (simp add: sweep_stop_def case_prod_beta)

lemma sweep_stop_eq: "(b, g') = sweep_stop g \<Longrightarrow> ag_trace g' = ag_trace g"
  using sweep_stop_trace [of g] by (cases "sweep_stop g") simp

text \<open>The fourth field of the answer, when the expected action and case came from the peer.  Foreign and
  other messages do not count as waiting time.\<close>

function wait_response_loop ::
  "NativeAppAlgorithmEndpoint \<Rightarrow> string \<Rightarrow> string \<Rightarrow> nat \<Rightarrow> nat \<Rightarrow> AlgorithmWorld \<Rightarrow>
   (string \<times> AlgorithmWorld) outcome" where
  "wait_response_loop pRemote pcExpectedAction pcExpectedId uiTimeoutMs ullElapsedMs g =
     (if uiTimeoutMs < ullElapsedMs then (([], g), IPSEC_ERR_VICI_TIMEOUT)
      else
        let (bStop, g1) = sweep_stop g in
        if bStop then (([], g1), IPSEC_ERR_VICI_TIMEOUT)
        else
          let (m, eError) = ReceiveNativeAppAlgorithmMessage pRemote g1 in
          if eError = IPSEC_ERR_VICI_TIMEOUT
          then wait_response_loop pRemote pcExpectedAction pcExpectedId uiTimeoutMs
                 (ullElapsedMs + NATIVE_APP_ALGORITHM_POLL_MS) (snd m)
          else if eError = IPSEC_ERR_PERMISSION
          then wait_response_loop pRemote pcExpectedAction pcExpectedId uiTimeoutMs ullElapsedMs (snd m)
          else if eError \<noteq> IPSEC_OK then (([], snd m), eError)
          else
            case SplitNativeAppAlgorithmMessage (fst (fst m)) 8 of
              None \<Rightarrow> wait_response_loop pRemote pcExpectedAction pcExpectedId uiTimeoutMs ullElapsedMs (snd m)
            | Some pacFields \<Rightarrow>
                if 3 \<le> length pacFields \<and> strcmp_eq pcExpectedAction (pacFields ! 1) \<and>
                   strcmp_eq pcExpectedId (pacFields ! 2)
                then ((if 4 \<le> length pacFields then pacFields ! 3 else [], snd m), IPSEC_OK)
                else wait_response_loop pRemote pcExpectedAction pcExpectedId uiTimeoutMs ullElapsedMs (snd m))"
  by pat_completeness auto
termination
  by (relation "measure (\<lambda>(r, a, i, t, el, g). length (ag_trace g))")
    (auto dest!: receive_trace(1) [OF sym] sweep_stop_eq)

declare wait_response_loop.simps [simp del]

text \<open>The answer goes to the array of the caller, if there is one.\<close>

definition WaitNativeAppAlgorithmResponse ::
  "NativeAppAlgorithmEndpoint \<Rightarrow> string \<Rightarrow> string \<Rightarrow> nat \<Rightarrow> cbuf option \<times> AlgorithmWorld \<Rightarrow>
   (cbuf option \<times> AlgorithmWorld) outcome" where
  "WaitNativeAppAlgorithmResponse pRemote pcExpectedAction pcExpectedId uiTimeoutMs s =
     (let (pcResponse, g) = s;
          ((value, g), eError) = wait_response_loop pRemote pcExpectedAction pcExpectedId uiTimeoutMs 0 g
      in if eError \<noteq> IPSEC_OK then ((pcResponse, g), eError)
         else
           case pcResponse of
             None \<Rightarrow> ((None, g), IPSEC_OK)
           | Some buf \<Rightarrow>
               let (buf, eError) = CopyNativeAppAlgorithmValue buf value in ((Some buf, g), eError))"

subsection \<open>The side of the initiator\<close>

definition prepare_text :: "NativeAppAlgorithmCase \<Rightarrow> string \<Rightarrow> nat \<Rightarrow> string" where
  "prepare_text k pcRunId uiRequested =
     join_with ''|'' [NATIVE_APP_ALGORITHM_PROTOCOL, ''PREPARE'', cstr (ac_acId k), cstr (ac_acIkeProposal k),
       cstr (ac_acEspProposal k), cstr pcRunId, dec (ac_uiNumber k), dec uiRequested]"

lemma send_trace:
  "SendNativeAppAlgorithmMessage r t g = (g', e) \<Longrightarrow> length (ag_trace g') \<le> length (ag_trace g)"
  "SendNativeAppAlgorithmMessage r t g = (g', IPSEC_OK) \<Longrightarrow> length (ag_trace g') < length (ag_trace g)"
  using sweep_next_trace [of g]
  by (auto simp: SendNativeAppAlgorithmMessage_def Let_def split: prod.splits option.splits sweep_event.splits)

lemma wait_response_trace:
  "length (ag_trace (snd (fst (wait_response_loop r a i t el g)))) \<le> length (ag_trace g)"
proof (induction r a i t el g rule: wait_response_loop.induct)
  case (1 r a i t el g)
  obtain b g1 where s: "sweep_stop g = (b, g1)" by fastforce
  obtain m e where m: "ReceiveNativeAppAlgorithmMessage r g1 = (m, e)" by fastforce
  have le: "length (ag_trace (snd m)) \<le> length (ag_trace g)" "ag_trace g1 = ag_trace g"
    using receive_trace(2) [OF m] sweep_stop_eq [OF s [symmetric]] by simp_all
  note IH = 1 [OF _ s [symmetric] refl _ m [symmetric] refl]
  have go: "length (ag_trace (snd (fst (wait_response_loop r a i t el' (snd m))))) \<le> length (ag_trace (snd m)) \<Longrightarrow>
    length (ag_trace (snd (fst (wait_response_loop r a i t el' (snd m))))) \<le> length (ag_trace g)" for el'
    using le by linarith
  show ?case
    using IH go le by (subst wait_response_loop.simps) (auto simp: s m Let_def split: option.split)
qed

lemma WaitNativeAppAlgorithmResponse_trace:
  "length (ag_trace (snd (fst (WaitNativeAppAlgorithmResponse r a i t (p, g))))) \<le> length (ag_trace g)"
  using wait_response_trace [of r a i t 0 g]
  by (auto simp: WaitNativeAppAlgorithmResponse_def Let_def case_prod_beta split: option.split)

text \<open>The message is sent again every half second until the responder is ready.  A stop request ends the
  loop without an error.\<close>

definition prepare_round ::
  "NativeAppAlgorithmEndpoint \<Rightarrow> string \<Rightarrow> string \<Rightarrow> AlgorithmWorld \<Rightarrow> AlgorithmWorld outcome" where
  "prepare_round pRemote acId acMessage g =
     and_then (SendNativeAppAlgorithmMessage pRemote acMessage g) (\<lambda>g.
       let ((_, g), eError) =
             WaitNativeAppAlgorithmResponse pRemote ''READY'' acId NATIVE_APP_ALGORITHM_POLL_MS (None, g)
       in (g, eError))"

lemma prepare_round_trace:
  assumes "prepare_round r i m g = (g', IPSEC_ERR_VICI_TIMEOUT)"
  shows "length (ag_trace g') < length (ag_trace g)"
proof -
  obtain g1 e where s: "SendNativeAppAlgorithmMessage r m g = (g1, e)" by fastforce
  have e: "e = IPSEC_OK"
    using assms s by (cases "e = IPSEC_OK")
      (auto simp: prepare_round_def SendNativeAppAlgorithmMessage_def Let_def
        split: prod.splits option.splits sweep_event.splits if_splits)
  obtain p where "WaitNativeAppAlgorithmResponse r ''READY'' i NATIVE_APP_ALGORITHM_POLL_MS (None, g1) =
      ((p, g'), IPSEC_ERR_VICI_TIMEOUT)"
    using assms s e by (auto simp: prepare_round_def split: prod.splits)
  then show ?thesis
    using send_trace(2) [of r m g g1] WaitNativeAppAlgorithmResponse_trace [of r "''READY''" i NATIVE_APP_ALGORITHM_POLL_MS None g1] s e
    by simp
qed

function prepare_loop ::
  "NativeAppAlgorithmEndpoint \<Rightarrow> string \<Rightarrow> string \<Rightarrow> nat \<Rightarrow> nat \<Rightarrow> AlgorithmWorld \<Rightarrow> AlgorithmWorld outcome" where
  "prepare_loop pRemote acId acMessage uiTimeoutMs ullElapsedMs g =
     (if uiTimeoutMs < ullElapsedMs then (g, IPSEC_ERR_VICI_TIMEOUT)
      else
        let (bStop, g1) = sweep_stop g in
        if bStop then (g1, IPSEC_OK)
        else
          let (g2, eError) = prepare_round pRemote acId acMessage g1 in
          if eError = IPSEC_ERR_VICI_TIMEOUT
          then prepare_loop pRemote acId acMessage uiTimeoutMs (ullElapsedMs + NATIVE_APP_ALGORITHM_POLL_MS) g2
          else (g2, eError))"
  by pat_completeness auto
termination
  by (relation "measure (\<lambda>(r, i, m, t, el, g). length (ag_trace g))")
    (auto dest!: prepare_round_trace [OF sym] sweep_stop_eq)

declare prepare_loop.simps [simp del]

definition PrepareNativeAppAlgorithmPeer ::
  "NativeAppAlgorithmEndpoint \<Rightarrow> NativeAppAlgorithmCase \<Rightarrow> string \<Rightarrow> nat \<Rightarrow> nat \<Rightarrow> AlgorithmWorld \<Rightarrow>
   AlgorithmWorld outcome" where
  "PrepareNativeAppAlgorithmPeer pRemote k pcRunId uiRequested uiTimeoutMs g =
     (if has_separator pcRunId then (g, IPSEC_ERR_INVALID_ARGUMENT)
      else
        let (acMessage, bFits) = snprintf_to (replicate NATIVE_APP_ALGORITHM_MESSAGE_LENGTH NUL)
              (prepare_text k pcRunId uiRequested)
        in if \<not> bFits then (g, IPSEC_ERR_BUFFER_TOO_SMALL)
           else prepare_loop pRemote (ac_acId k) acMessage uiTimeoutMs 0 g)"

text \<open>The answer is left in the array of the caller.\<close>

definition VerifyNativeAppAlgorithmPeer ::
  "NativeAppAlgorithmEndpoint \<Rightarrow> NativeAppAlgorithmCase \<Rightarrow> nat \<Rightarrow> cbuf \<times> AlgorithmWorld \<Rightarrow>
   (cbuf \<times> AlgorithmWorld) outcome" where
  "VerifyNativeAppAlgorithmPeer pRemote k uiTimeoutMs s =
     (let (pcPeerResult, g) = s;
          (acMessage, eError) = FormatNativeAppAlgorithmMessage ''VERIFY'' k ''DATA'' ''1'';
          (g, eError) = (if eError = IPSEC_OK then SendNativeAppAlgorithmMessage pRemote acMessage g else (g, eError))
      in if eError \<noteq> IPSEC_OK then ((pcPeerResult, g), eError)
         else
           let ((pcResponse, g), eError) =
                 WaitNativeAppAlgorithmResponse pRemote ''RESULT'' (ac_acId k) uiTimeoutMs (Some pcPeerResult, g)
           in ((case pcResponse of Some b \<Rightarrow> b | None \<Rightarrow> pcPeerResult, g), eError))"

definition RecordNativeAppAlgorithmCleanupError :: "IpsecError \<Rightarrow> IpsecError \<Rightarrow> IpsecError" where
  "RecordNativeAppAlgorithmCleanupError eTarget eError =
     (if eTarget = IPSEC_OK \<and> eError \<noteq> IPSEC_OK then eError else eTarget)"

text \<open>\<open>n\<close> attempts are left.\<close>

primrec finish_peer_loop ::
  "nat \<Rightarrow> NativeAppAlgorithmEndpoint \<Rightarrow> string \<Rightarrow> string \<Rightarrow> nat \<Rightarrow>
   NativeAppAlgorithmCleanup \<times> AlgorithmWorld \<Rightarrow> (NativeAppAlgorithmCleanup \<times> AlgorithmWorld) outcome" where
  "finish_peer_loop 0 pRemote acId acMessage uiAttemptTimeoutMs s = (s, IPSEC_OK)"
| "finish_peer_loop (Suc n) pRemote acId acMessage uiAttemptTimeoutMs s =
     (let (u, g) = s;
          u = u\<lparr>cu_uiPeerAttempts := u32 (cu_uiPeerAttempts u + 1)\<rparr>;
          (g, eError) = SendNativeAppAlgorithmMessage pRemote acMessage g;
          ((_, g), eError) =
            (if eError = IPSEC_OK
             then WaitNativeAppAlgorithmResponse pRemote ''DONE'' acId uiAttemptTimeoutMs (None, g)
             else ((None, g), eError))
      in if eError = IPSEC_OK
         then ((if 1 < cu_uiPeerAttempts u then u\<lparr>cu_bRecovered := True\<rparr> else u, g), IPSEC_OK)
         else
           let u = u\<lparr>cu_ePeerError := RecordNativeAppAlgorithmCleanupError (cu_ePeerError u) eError\<rparr> in
           if 0 < n
           then finish_peer_loop n pRemote acId acMessage uiAttemptTimeoutMs
                  (u, SleepNativeAppAlgorithm NATIVE_APP_ALGORITHM_CLEANUP_RETRY_MS g)
           else ((u, g), eError))"

definition FinishNativeAppAlgorithmPeer ::
  "NativeAppAlgorithmEndpoint \<Rightarrow> NativeAppAlgorithmCase \<Rightarrow> string \<Rightarrow> nat \<Rightarrow>
   NativeAppAlgorithmCleanup \<times> AlgorithmWorld \<Rightarrow> (NativeAppAlgorithmCleanup \<times> AlgorithmWorld) outcome" where
  "FinishNativeAppAlgorithmPeer pRemote k pcAction uiTimeoutMs s =
     (let (acMessage, eError) = FormatNativeAppAlgorithmMessage pcAction k ''NONE'' ''0'';
          uiAttemptTimeoutMs = uiTimeoutMs div NATIVE_APP_ALGORITHM_CLEANUP_ATTEMPTS;
          uiAttemptTimeoutMs = (if uiAttemptTimeoutMs < NATIVE_APP_ALGORITHM_POLL_MS
                                then NATIVE_APP_ALGORITHM_POLL_MS else uiAttemptTimeoutMs)
      in if eError \<noteq> IPSEC_OK then (((fst s)\<lparr>cu_ePeerError := eError\<rparr>, snd s), eError)
         else finish_peer_loop NATIVE_APP_ALGORITHM_CLEANUP_ATTEMPTS pRemote (ac_acId k) acMessage
                uiAttemptTimeoutMs s)"

definition FinishNativeAppAlgorithmRun ::
  "NativeAppAlgorithmEndpoint \<Rightarrow> string \<Rightarrow> nat \<Rightarrow> AlgorithmWorld \<Rightarrow> AlgorithmWorld outcome" where
  "FinishNativeAppAlgorithmRun pRemote pcRunId uiTimeoutMs g =
     (let (buf, eError) = CopyNativeAppAlgorithmValue (ac_acId zero_case) pcRunId;
          Case = zero_case\<lparr>ac_acId := buf\<rparr>;
          (acMessage, eError) =
            (if eError = IPSEC_OK then FormatNativeAppAlgorithmMessage ''FINISH'' Case ''DONE'' ''0'' else ([], eError));
          (g, eError) = (if eError = IPSEC_OK then SendNativeAppAlgorithmMessage pRemote acMessage g else (g, eError))
      in if eError \<noteq> IPSEC_OK then (g, eError)
         else
           let ((_, g), eError) =
                 WaitNativeAppAlgorithmResponse pRemote ''FINISHED'' (ac_acId Case) uiTimeoutMs (None, g)
           in (g, eError))"

subsection \<open>What was negotiated\<close>

definition copy_negotiated_ike ::
  "IpsecIkeSaInfo option \<Rightarrow> NativeAppAlgorithmCaseResult \<Rightarrow> NativeAppAlgorithmCaseResult outcome" where
  "copy_negotiated_ike pIke r =
     (case pIke of
        None \<Rightarrow> (r, IPSEC_OK)
      | Some i \<Rightarrow>
          let (buf, eError) = CopyNativeAppAlgorithmValue (cr_acNegotiatedIke r) (is_acProposal i);
              r = r\<lparr>cr_acNegotiatedIke := buf\<rparr>
          in (if eError = IPSEC_OK \<and> buf ! 0 \<noteq> NUL then r\<lparr>cr_bIkeVerified := True\<rparr> else r, eError))"

definition copy_negotiated_esp ::
  "IpsecChildSaInfo option \<Rightarrow> NativeAppAlgorithmCaseResult \<Rightarrow> NativeAppAlgorithmCaseResult outcome" where
  "copy_negotiated_esp pChild r =
     (case pChild of
        None \<Rightarrow> (r, IPSEC_OK)
      | Some i \<Rightarrow>
          let (buf, eError) = CopyNativeAppAlgorithmValue (cr_acNegotiatedEsp r) (cs_acProposal i)
          in (r\<lparr>cr_uiReqid := cs_uiReqid i, cr_acNegotiatedEsp := buf\<rparr>, eError))"

definition check_negotiated ::
  "IpsecIkeSaInfo option \<Rightarrow> IpsecChildSaInfo option \<Rightarrow> NativeAppAlgorithmCaseResult \<Rightarrow>
   NativeAppAlgorithmCaseResult outcome" where
  "check_negotiated pIke pChild r =
     (if pIke = None then (r\<lparr>cr_eResult := NATIVE_APP_ALGORITHM_RESULT_FAIL_IKE\<rparr>, IPSEC_ERR_IKE_FAILED)
      else if cr_acNegotiatedIke r ! 0 = NUL
      then (r\<lparr>cr_eResult := NATIVE_APP_ALGORITHM_RESULT_FAIL_PROPOSAL\<rparr>, IPSEC_ERR_VICI_PROTOCOL)
      else if pChild = None
      then (r\<lparr>cr_eResult := NATIVE_APP_ALGORITHM_RESULT_FAIL_CHILD\<rparr>, IPSEC_ERR_CHILD_FAILED)
      else if cr_acNegotiatedEsp r ! 0 = NUL
      then (r\<lparr>cr_eResult := NATIVE_APP_ALGORITHM_RESULT_FAIL_PROPOSAL\<rparr>, IPSEC_ERR_VICI_PROTOCOL)
      else (r, IPSEC_OK))"

definition check_pfs ::
  "NativeAppAlgorithmCase \<Rightarrow> NativeAppAlgorithmCaseResult \<Rightarrow> NativeAppAlgorithmCaseResult outcome" where
  "check_pfs k r =
     (if ac_bSeparateChildExchange k \<and> \<not> strstr_found (cstr (cr_acNegotiatedEsp r)) (cstr (ac_acExpectedChildKe k))
      then (r\<lparr>cr_eResult := NATIVE_APP_ALGORITHM_RESULT_FAIL_PFS\<rparr>, IPSEC_ERR_CHILD_FAILED)
      else (r, IPSEC_OK))"

definition check_esn ::
  "NativeAppAlgorithmCase \<Rightarrow> bool \<Rightarrow> NativeAppAlgorithmCaseResult \<Rightarrow> NativeAppAlgorithmCaseResult outcome" where
  "check_esn k bEsn r =
     (if (ac_bExpectEsn k \<and> \<not> bEsn) \<or> (ac_bExpectNoEsn k \<and> bEsn)
      then (r\<lparr>cr_eResult := NATIVE_APP_ALGORITHM_RESULT_FAIL_ESN\<rparr>, IPSEC_ERR_CHILD_FAILED)
      else (if cr_acNegotiatedEsp r ! 0 \<noteq> NUL then r\<lparr>cr_bEspVerified := True\<rparr> else r, IPSEC_OK))"

text \<open>The counters of the result are not reset: a second query adds to them.\<close>

definition count_kernel ::
  "IpsecXfrmStateInfo list \<Rightarrow> IpsecXfrmPolicyInfo list \<Rightarrow> NativeAppAlgorithmCaseResult \<Rightarrow>
   NativeAppAlgorithmCaseResult outcome" where
  "count_kernel StateList PolicyList r =
     (let r = r\<lparr>cr_uiXfrmStateCount := u32 (cr_uiXfrmStateCount r +
                  length (filter (\<lambda>i. cr_uiReqid r = xs_uiReqid i) StateList)),
                cr_uiXfrmPolicyCount := u32 (cr_uiXfrmPolicyCount r +
                  length (filter (\<lambda>i. cr_uiReqid r = xp_uiReqid i) PolicyList))\<rparr>
      in if cr_uiReqid r = 0 \<or> cr_uiXfrmStateCount r = 0 \<or> cr_uiXfrmPolicyCount r = 0
         then (r\<lparr>cr_eResult := NATIVE_APP_ALGORITHM_RESULT_FAIL_XFRM\<rparr>, IPSEC_ERR_INTERNAL)
         else (r\<lparr>cr_bXfrmVerified := True\<rparr>, IPSEC_OK))"

definition judge_installed ::
  "NativeAppConfig \<Rightarrow> NativeAppAlgorithmCase \<Rightarrow> installed \<Rightarrow> NativeAppAlgorithmCaseResult \<Rightarrow>
   NativeAppAlgorithmCaseResult outcome" where
  "judge_installed c k found r =
     (let (IkeList, ChildList, StateList, PolicyList) = found;
          pIke = List.find (\<lambda>i. strcmp_eq (nc_acConnectionName c) (is_acName i) \<and> is_bEstablished i) IkeList;
          pChild = List.find (\<lambda>i. strcmp_eq (nc_acChildName c) (cs_acName i) \<and>
                                strcmp_eq ''INSTALLED'' (cs_acState i)) ChildList;
          bEsn = (case pChild of None \<Rightarrow> False | Some i \<Rightarrow> cs_bEsn i)
      in run_steps
           [copy_negotiated_ike pIke, copy_negotiated_esp pChild, check_negotiated pIke pChild, check_pfs k,
            check_esn k bEsn, count_kernel StateList PolicyList] r)"

definition QueryNativeAppAlgorithmState ::
  "(nat \<Rightarrow> bool) \<Rightarrow> NativeAppConfig \<Rightarrow> NativeAppAlgorithmCase \<Rightarrow> NativeAppAlgorithmCaseResult \<times> AlgorithmWorld \<Rightarrow>
   (NativeAppAlgorithmCaseResult \<times> AlgorithmWorld) outcome" where
  "QueryNativeAppAlgorithmState mem c k s =
     (let (r, g) = s;
          r = r\<lparr>cr_eResult := NATIVE_APP_ALGORITHM_RESULT_FAIL_XFRM\<rparr>;
          ((found, g), eError) = ask (query_installed mem) g
      in if eError \<noteq> IPSEC_OK then ((r, g), eError)
         else let (r, eError) = judge_installed c k found r in ((r, g), eError))"

definition ReportNativeAppAlgorithmFinalState :: "(nat \<Rightarrow> bool) \<Rightarrow> AlgorithmWorld \<Rightarrow> AlgorithmWorld" where
  "ReportNativeAppAlgorithmFinalState mem g =
     (let ((Connections, Ikes, Children, States, Policies), g) = query_final mem g in
      if snd Connections = IPSEC_OK \<and> snd Ikes = IPSEC_OK \<and> snd Children = IPSEC_OK \<and>
         snd States = IPSEC_OK \<and> snd Policies = IPSEC_OK
      then ReportNativeAppAlgorithm True ''INFO''
             (''final state: connections='' @ dec (length (fst Connections)) @ '' ike='' @ dec (length (fst Ikes)) @
              '' child='' @ dec (length (fst Children)) @ '' xfrm_states='' @ dec (length (fst States)) @
              '' xfrm_policies='' @ dec (length (fst Policies))) g
      else ReportNativeAppAlgorithm False ''WARN''
             (''final state query: connections='' @ GetIpsecErrorString (snd Connections) @
              '' ike='' @ GetIpsecErrorString (snd Ikes) @ '' child='' @ GetIpsecErrorString (snd Children) @
              '' xfrm_states='' @ GetIpsecErrorString (snd States) @
              '' xfrm_policies='' @ GetIpsecErrorString (snd Policies)) g)"

subsection \<open>Cleaning up after a case\<close>

definition IsNativeAppAlgorithmCleanupAbsent :: "IpsecError \<Rightarrow> bool" where
  "IsNativeAppAlgorithmCleanupAbsent eError \<longleftrightarrow>
     IPSEC_ERR_CONNECTION_NOT_FOUND = eError \<or> IPSEC_ERR_IKE_FAILED = eError"

definition GetNativeAppAlgorithmCleanupWaitMs :: "NativeAppConfig \<Rightarrow> nat" where
  "GetNativeAppAlgorithmCleanupWaitMs c =
     (let uiWaitMs = nc_uiTimeoutMs c in
      if uiWaitMs = 0 \<or> NATIVE_APP_ALGORITHM_CLEANUP_WAIT_MS < uiWaitMs
      then NATIVE_APP_ALGORITHM_CLEANUP_WAIT_MS else uiWaitMs)"

text \<open>A failed query leaves \<open>*pbRemoved\<close> set.\<close>

definition CheckNativeAppAlgorithmConnectionRemoved ::
  "(nat \<Rightarrow> bool) \<Rightarrow> NativeAppConfig \<Rightarrow> AlgorithmWorld \<Rightarrow> (bool \<times> AlgorithmWorld) outcome" where
  "CheckNativeAppAlgorithmConnectionRemoved mem c g =
     (let ((ConnectionList, g), eError) = ask (GetIpsecConnections mem) g in
      ((if eError = IPSEC_OK
        then \<not> list_ex (\<lambda>i. strcmp_eq (nc_acConnectionName c) (ci_acName i)) ConnectionList else True, g), eError))"

definition immediate_control :: "IpsecControlOptions option" where
  "immediate_control = Some \<lparr>co_uiStructSize = sizeof_IpsecControlOptions,
     co_eMode = IPSEC_CONTROL_IMMEDIATE, co_uiTimeoutMs = 0\<rparr>"

text \<open>The two loops; \<open>n\<close> attempts are left.\<close>

definition terminate_step ::
  "bool \<Rightarrow> NativeAppConfig \<Rightarrow> NativeAppAlgorithmCleanup \<times> AlgorithmWorld \<Rightarrow>
   NativeAppAlgorithmCleanup \<times> AlgorithmWorld" where
  "terminate_step bTerminate c s =
     (let (u, g) = s in
      if bTerminate then
        let u = u\<lparr>cu_uiTerminateAttempts := u32 (cu_uiTerminateAttempts u + 1)\<rparr>;
            (g, eError) = in_app (on_ipsec (TerminateIpsecIke (Some (nc_acConnectionName c)) immediate_control)) g
        in (if IsNativeAppAlgorithmCleanupAbsent eError then u
            else u\<lparr>cu_eTerminateError := RecordNativeAppAlgorithmCleanupError (cu_eTerminateError u) eError\<rparr>, g)
      else s)"

primrec remove_sa_loop ::
  "nat \<Rightarrow> (nat \<Rightarrow> bool) \<Rightarrow> NativeAppConfig \<Rightarrow> nat \<Rightarrow> bool \<Rightarrow> nat \<Rightarrow> NativeAppAlgorithmCleanup \<times> AlgorithmWorld \<Rightarrow>
   NativeAppAlgorithmCleanup \<times> AlgorithmWorld" where
  "remove_sa_loop 0 mem c uiReqid bTerminate uiWaitMs s = s"
| "remove_sa_loop (Suc n) mem c uiReqid bTerminate uiWaitMs s =
     (let (u, g) = terminate_step bTerminate c s;
          u = u\<lparr>cu_uiWaitRemovedAttempts := u32 (cu_uiWaitRemovedAttempts u + 1)\<rparr>;
          (g, eError) = in_app (WaitNativeAppRemovedWithTimeout mem c uiReqid uiWaitMs) g
      in if eError = IPSEC_OK then (u, g)
         else
           let u = u\<lparr>cu_eWaitRemovedError := RecordNativeAppAlgorithmCleanupError (cu_eWaitRemovedError u) eError\<rparr>;
               g = (if 0 < n then SleepNativeAppAlgorithm NATIVE_APP_ALGORITHM_CLEANUP_RETRY_MS g else g)
           in remove_sa_loop n mem c uiReqid bTerminate uiWaitMs (u, g))"

primrec remove_connection_loop ::
  "nat \<Rightarrow> (nat \<Rightarrow> bool) \<Rightarrow> NativeAppConfig \<Rightarrow> NativeAppAlgorithmCleanup \<times> AlgorithmWorld \<Rightarrow>
   NativeAppAlgorithmCleanup \<times> AlgorithmWorld" where
  "remove_connection_loop 0 mem c s = s"
| "remove_connection_loop (Suc n) mem c s =
     (let (u, g) = s;
          u = u\<lparr>cu_uiRemoveConnectionAttempts := u32 (cu_uiRemoveConnectionAttempts u + 1)\<rparr>;
          (g, eError) = in_app (on_ipsec (RemoveIpsecConnection (Some (nc_acConnectionName c)))) g
      in if eError = IPSEC_OK \<or> eError = IPSEC_ERR_CONNECTION_NOT_FOUND then (u, g)
         else
           let u = u\<lparr>cu_eRemoveConnectionError :=
                       RecordNativeAppAlgorithmCleanupError (cu_eRemoveConnectionError u) eError\<rparr>;
               ((bConnectionRemoved, g), _) = CheckNativeAppAlgorithmConnectionRemoved mem c g
           in if bConnectionRemoved then (u, g)
              else
                let g = (if 0 < n then SleepNativeAppAlgorithm NATIVE_APP_ALGORITHM_CLEANUP_RETRY_MS g else g)
                in remove_connection_loop n mem c (u, g))"

definition record_final :: "IpsecError \<Rightarrow> NativeAppAlgorithmCleanup \<Rightarrow> NativeAppAlgorithmCleanup" where
  "record_final eError u =
     u\<lparr>cu_eFinalVerifyError := RecordNativeAppAlgorithmCleanupError (cu_eFinalVerifyError u) eError\<rparr>"

definition cleanup_recovered :: "NativeAppAlgorithmCleanup \<Rightarrow> bool" where
  "cleanup_recovered u \<longleftrightarrow>
     cu_eTerminateError u \<noteq> IPSEC_OK \<or> cu_eWaitRemovedError u \<noteq> IPSEC_OK \<or>
     cu_eRemoveConnectionError u \<noteq> IPSEC_OK \<or> 1 < cu_uiTerminateAttempts u \<or>
     1 < cu_uiWaitRemovedAttempts u \<or> 1 < cu_uiRemoveConnectionAttempts u"

definition CleanupNativeAppAlgorithmCase ::
  "(nat \<Rightarrow> bool) \<Rightarrow> NativeAppConfig \<Rightarrow> nat \<Rightarrow> bool \<Rightarrow> AlgorithmWorld \<Rightarrow>
   (NativeAppAlgorithmCleanup \<times> AlgorithmWorld) outcome" where
  "CleanupNativeAppAlgorithmCase mem c uiReqid bTerminate g =
     (let uiWaitMs = GetNativeAppAlgorithmCleanupWaitMs c;
          s = remove_sa_loop NATIVE_APP_ALGORITHM_CLEANUP_ATTEMPTS mem c uiReqid bTerminate uiWaitMs (zero_cleanup, g);
          (u, g) = remove_connection_loop NATIVE_APP_ALGORITHM_CLEANUP_ATTEMPTS mem c s;
          (g, eError) = in_app (WaitNativeAppRemovedWithTimeout mem c uiReqid 0) g;
          u = record_final eError u;
          eFinalError = eError;
          ((bConnectionRemoved, g), eError) = CheckNativeAppAlgorithmConnectionRemoved mem c g;
          eError = (if eError \<noteq> IPSEC_OK then eError
                    else if \<not> bConnectionRemoved then IPSEC_ERR_VICI_TIMEOUT else IPSEC_OK);
          u = record_final eError u;
          eFinalError = (if eFinalError = IPSEC_OK then eError else eFinalError)
      in (if eFinalError = IPSEC_OK
          then (u\<lparr>cu_bLocalVerified := True, cu_bRecovered := cleanup_recovered u\<rparr>, g) else (u, g), eFinalError))"

subsection \<open>One case of the initiator\<close>

definition case_client_start ::
  "(nat \<Rightarrow> bool) \<Rightarrow> NativeAppConfig \<Rightarrow> NativeAppAlgorithmCase \<Rightarrow>
   NativeAppAlgorithmCaseResult \<times> AlgorithmWorld \<Rightarrow> (NativeAppAlgorithmCaseResult \<times> AlgorithmWorld) outcome" where
  "case_client_start mem c k s =
     (let (r, g) = s; (g, eError) = in_app (StartNativeAppConnection mem c) g in
      ((if eError \<noteq> IPSEC_OK
        then r\<lparr>cr_eResult := if ac_bSeparateChildExchange k then NATIVE_APP_ALGORITHM_RESULT_FAIL_CHILD
                             else NATIVE_APP_ALGORITHM_RESULT_FAIL_IKE\<rparr>
        else r, g), eError))"

text \<open>What follows an attempt to start: the query and the first report.\<close>

definition case_client_query ::
  "(nat \<Rightarrow> bool) \<Rightarrow> NativeAppConfig \<Rightarrow> NativeAppAlgorithmCase \<Rightarrow> string \<Rightarrow>
   (NativeAppAlgorithmCaseResult \<times> AlgorithmWorld) outcome \<Rightarrow> (NativeAppAlgorithmCaseResult \<times> AlgorithmWorld) outcome" where
  "case_client_query mem c k pcCaseDirectory x =
     (let (s, eError) = x;
          ((r, g), eState) = QueryNativeAppAlgorithmState mem c k s;
          eError = (if eError = IPSEC_OK then eState else eError);
          (g, eReport) = CaptureNativeAppAlgorithmCaseReport mem c r pcCaseDirectory g
      in if eReport \<noteq> IPSEC_OK \<and> eError = IPSEC_OK
         then ((r\<lparr>cr_eResult := NATIVE_APP_ALGORITHM_RESULT_FAIL_XFRM\<rparr>, g), eReport)
         else ((r, g), eError))"

definition case_client_verify ::
  "NativeAppAlgorithmEndpoint \<Rightarrow> NativeAppConfig \<Rightarrow> NativeAppAlgorithmCase \<Rightarrow>
   NativeAppAlgorithmCaseResult \<times> AlgorithmWorld \<Rightarrow> (NativeAppAlgorithmCaseResult \<times> AlgorithmWorld) outcome" where
  "case_client_verify pRemote pBaseConfig k s =
     (let (r, g) = s;
          ((buf, g), eError) = VerifyNativeAppAlgorithmPeer pRemote k (nc_uiTimeoutMs pBaseConfig) (cr_acPeerResult r, g);
          r = r\<lparr>cr_acPeerResult := buf\<rparr>
      in if eError \<noteq> IPSEC_OK then ((r\<lparr>cr_eResult := NATIVE_APP_ALGORITHM_RESULT_FAIL_DATA_PATH\<rparr>, g), eError)
         else if \<not> strcmp_eq ''PASS'' (cr_acPeerResult r)
         then ((r\<lparr>cr_eResult := NATIVE_APP_ALGORITHM_RESULT_FAIL_DATA_PATH\<rparr>, g), IPSEC_ERR_INTERNAL)
         else ((r\<lparr>cr_eResult := NATIVE_APP_ALGORITHM_RESULT_PASS, cr_bDataPathVerified := True\<rparr>, g), IPSEC_OK))"

text \<open>The local and the remote cleanup, and what they make of the result.\<close>

definition case_client_cleanup ::
  "(nat \<Rightarrow> bool) \<Rightarrow> NativeAppConfig \<Rightarrow> bool \<Rightarrow> bool \<Rightarrow> NativeAppAlgorithmCaseResult \<times> AlgorithmWorld \<Rightarrow>
   NativeAppAlgorithmCaseResult \<times> AlgorithmWorld" where
  "case_client_cleanup mem c bConnectionLoaded bStartAttempted s =
     (let (r, g) = s in
      if bConnectionLoaded then
        let ((u, g), eCleanup) = CleanupNativeAppAlgorithmCase mem c (cr_uiReqid r) bStartAttempted g;
            r = r\<lparr>cr_Cleanup := u, cr_eCleanupError := eCleanup\<rparr>
        in (if eCleanup \<noteq> IPSEC_OK \<and> cr_eError r = IPSEC_OK
            then r\<lparr>cr_eResult := NATIVE_APP_ALGORITHM_RESULT_FAIL_CLEANUP, cr_eError := eCleanup\<rparr> else r, g)
      else (r\<lparr>cr_Cleanup := (cr_Cleanup r)\<lparr>cu_bLocalVerified := True\<rparr>\<rparr>, g))"

definition case_client_finish ::
  "NativeAppAlgorithmEndpoint \<Rightarrow> NativeAppConfig \<Rightarrow> NativeAppAlgorithmCase \<Rightarrow> bool \<Rightarrow>
   NativeAppAlgorithmCaseResult \<times> AlgorithmWorld \<Rightarrow> NativeAppAlgorithmCaseResult \<times> AlgorithmWorld" where
  "case_client_finish pRemote pBaseConfig k bConnectionLoaded s =
     (let (r, g) = s;
          ((u, g), eCleanup) = FinishNativeAppAlgorithmPeer pRemote k
            (if bConnectionLoaded then ''CLEANUP'' else ''ABORT'') (nc_uiTimeoutMs pBaseConfig) (cr_Cleanup r, g);
          r = r\<lparr>cr_Cleanup := u\<rparr>;
          r = (if eCleanup \<noteq> IPSEC_OK \<and> cr_eCleanupError r = IPSEC_OK then r\<lparr>cr_eCleanupError := eCleanup\<rparr> else r)
      in (if eCleanup \<noteq> IPSEC_OK \<and> cr_eError r = IPSEC_OK
          then r\<lparr>cr_eResult := NATIVE_APP_ALGORITHM_RESULT_FAIL_CLEANUP, cr_eError := eCleanup,
                 cr_eCleanupError := eCleanup\<rparr>
          else r, g))"

text \<open>Until the connection of the case is loaded; the configuration is then that of the case.\<close>

definition case_client_load ::
  "NativeAppAlgorithmEndpoint \<Rightarrow> NativeAppConfig \<Rightarrow> string \<Rightarrow> nat \<Rightarrow> NativeAppAlgorithmCase \<Rightarrow>
   NativeAppAlgorithmCaseResult \<times> AlgorithmWorld \<Rightarrow>
   ((NativeAppConfig \<times> NativeAppAlgorithmCaseResult) \<times> AlgorithmWorld) outcome" where
  "case_client_load pRemote pBaseConfig pcRunId uiRequested k s =
     (let (r, g) = s;
          r = r\<lparr>cr_Case := k, cr_eResult := NATIVE_APP_ALGORITHM_RESULT_FAIL_CONFIG\<rparr>;
          (g, eError) = PrepareNativeAppAlgorithmPeer pRemote k pcRunId uiRequested (nc_uiTimeoutMs pBaseConfig) g;
          r = (if eError \<noteq> IPSEC_OK then r\<lparr>cr_eResult := NATIVE_APP_ALGORITHM_RESULT_FAIL_SYNC\<rparr> else r);
          (((c, Runtime), g), eError) =
            (if eError = IPSEC_OK then BuildNativeAppAlgorithmConfig pBaseConfig k g
             else (((pBaseConfig, None), g), eError));
          (g, eError) =
            (if eError = IPSEC_OK then in_app (on_ipsec (AddIpsecConnection Runtime)) g else (g, eError))
      in (((c, r), g), eError))"

text \<open>From there to the verdict of the two sides; the flag says whether the connection was loaded.\<close>

definition case_client_test ::
  "(nat \<Rightarrow> bool) \<Rightarrow> NativeAppAlgorithmEndpoint \<Rightarrow> NativeAppConfig \<Rightarrow> NativeAppAlgorithmCase \<Rightarrow> string \<Rightarrow>
   ((NativeAppConfig \<times> NativeAppAlgorithmCaseResult) \<times> AlgorithmWorld) outcome \<Rightarrow>
   (NativeAppAlgorithmCaseResult \<times> AlgorithmWorld) \<times> NativeAppConfig \<times> bool" where
  "case_client_test mem pRemote pBaseConfig k pcCaseDirectory x =
     (let ((q, g), eError) = x; (c, r) = q;
          bStartAttempted = (eError = IPSEC_OK);
          ((r, g), eError) =
            (if bStartAttempted
             then case_client_query mem c k pcCaseDirectory (case_client_start mem c k (r, g))
             else ((r, g), eError));
          ((r, g), eError) =
            (if eError = IPSEC_OK then case_client_verify pRemote pBaseConfig k (r, g) else ((r, g), eError));
          g = (if bStartAttempted then fst (CaptureNativeAppAlgorithmCaseReport mem c r pcCaseDirectory g) else g)
      in ((r\<lparr>cr_eError := eError\<rparr>, g), c, bStartAttempted))"

definition RunNativeAppAlgorithmCaseClient ::
  "(nat \<Rightarrow> bool) \<Rightarrow> NativeAppAlgorithmEndpoint \<Rightarrow> NativeAppConfig \<Rightarrow> string \<Rightarrow> nat \<Rightarrow> NativeAppAlgorithmCase \<Rightarrow>
   string \<Rightarrow> NativeAppAlgorithmCaseResult \<times> AlgorithmWorld \<Rightarrow>
   (NativeAppAlgorithmCaseResult \<times> AlgorithmWorld) outcome" where
  "RunNativeAppAlgorithmCaseClient mem pRemote pBaseConfig pcRunId uiRequested k pcCaseDirectory s =
     (let ((r, g), c, bConnectionLoaded) = case_client_test mem pRemote pBaseConfig k pcCaseDirectory
            (case_client_load pRemote pBaseConfig pcRunId uiRequested k s);
          (r, g) = case_client_finish pRemote pBaseConfig k bConnectionLoaded
            (case_client_cleanup mem c bConnectionLoaded bConnectionLoaded (r, g))
      in ((r, g), cr_eError r))"

subsection \<open>The run of the initiator\<close>

text \<open>What stays the same during a run.\<close>

record SweepRun =
  sr_Config :: NativeAppConfig
  sr_Options :: NativeAppAlgorithmOptions
  sr_Remote :: NativeAppAlgorithmEndpoint
  sr_acRunId :: cbuf
  sr_acResultDirectory :: cbuf
  sr_uiRequested :: nat

definition sub64 :: "nat \<Rightarrow> nat \<Rightarrow> nat" where
  "sub64 a b = u64 (a + 2 ^ 64 - b)"

definition phases_text :: "NativeAppAlgorithmCaseResult \<Rightarrow> string" where
  "phases_text r =
     ''phases case='' @ cstr (ac_acId (cr_Case r)) @ '' IKE='' @ passed_text (cr_bIkeVerified r) @
     '' ESP='' @ passed_text (cr_bEspVerified r) @ '' XFRM='' @ passed_text (cr_bXfrmVerified r) @
     '' DATA_PATH='' @ passed_text (cr_bDataPathVerified r)"

definition result_text :: "NativeAppAlgorithmCaseResult \<Rightarrow> string" where
  "result_text r =
     ''result='' @ GetNativeAppAlgorithmResultName (cr_eResult r) @ '' case='' @ cstr (ac_acId (cr_Case r)) @
     '' duration='' @ dec (cr_ullDurationMs r) @ '' ms error='' @ GetNativeAppAlgorithmErrorText (cr_eError r) @
     '' cleanup='' @ GetNativeAppAlgorithmErrorText (cr_eCleanupError r) @
     '' recovered='' @ yesno_text (cu_bRecovered (cr_Cleanup r)) @
     '' attempts='' @ dec (cu_uiTerminateAttempts (cr_Cleanup r)) @ ''/'' @
     dec (cu_uiWaitRemovedAttempts (cr_Cleanup r)) @ ''/'' @
     dec (cu_uiRemoveConnectionAttempts (cr_Cleanup r)) @ ''/'' @ dec (cu_uiPeerAttempts (cr_Cleanup r))"

text \<open>One round of the loop, up to the result file.\<close>

definition client_case ::
  "(nat \<Rightarrow> bool) \<Rightarrow> SweepRun \<Rightarrow> nat \<Rightarrow> AlgorithmWorld \<Rightarrow> (NativeAppAlgorithmCaseResult \<times> AlgorithmWorld) outcome" where
  "client_case mem run uiOffset g =
     (let opts = sr_Options run; c = sr_Config run;
          uiIndex = u32 (ao_uiStart opts - 1 + uiOffset);
          (ullStartMs, g) = GetNativeAppAlgorithmTimeMs g;
          (Case, eError) = GetNativeAppAlgorithmCase (ao_eMode opts) uiIndex (Some c) (ao_pcCustomIke opts)
            (ao_pcCustomEsp opts) zero_case;
          r = zero_case_result\<lparr>cr_Case := Case\<rparr>;
          ((acCaseDirectory, g), eError) =
            (if eError = IPSEC_OK
             then CreateNativeAppAlgorithmCaseReport c Case ''initiator'' (sr_acResultDirectory run) (uiOffset + 1)
                    (sr_uiRequested run) (replicate NATIVE_APP_PATH_LENGTH NUL, g)
             else ((replicate NATIVE_APP_PATH_LENGTH NUL, g), eError));
          ((r, g), eError) =
            (if eError = IPSEC_OK
             then RunNativeAppAlgorithmCaseClient mem (sr_Remote run) c (sr_acRunId run) (sr_uiRequested run) Case
                    acCaseDirectory
                    (r, ReportNativeAppAlgorithm True ''INFO''
                      (''['' @ dec (uiOffset + 1) @ ''/'' @ dec (sr_uiRequested run) @ ''] '' @ cstr (ac_acId Case)) g)
             else ((r\<lparr>cr_eResult := NATIVE_APP_ALGORITHM_RESULT_FAIL_CONFIG, cr_eError := eError\<rparr>, g), eError));
          (ullEndMs, g) = GetNativeAppAlgorithmTimeMs g;
          r = r\<lparr>cr_ullDurationMs := sub64 ullEndMs ullStartMs\<rparr>;
          g = (if acCaseDirectory ! 0 \<noteq> NUL
               then fst (FinishNativeAppAlgorithmCaseReport mem c r ''initiator'' (sr_acResultDirectory run)
                      acCaseDirectory (uiOffset + 1) (sr_uiRequested run) g)
               else g);
          g = ReportNativeAppAlgorithm True
                (passed_text (cr_bIkeVerified r \<and> cr_bEspVerified r \<and> cr_bXfrmVerified r \<and> cr_bDataPathVerified r))
                (phases_text r) g;
          g = ReportNativeAppAlgorithm True (overall_text r) (result_text r) g
      in ((r, g), eError))"

type_synonym sweep_state = "NativeAppAlgorithmJsonWriter \<times> AlgorithmWorld"

definition client_round ::
  "(nat \<Rightarrow> bool) \<Rightarrow> SweepRun \<Rightarrow> nat \<Rightarrow> sweep_state \<Rightarrow> sweep_state outcome" where
  "client_round mem run uiOffset s =
     (let (p, g) = s;
          ((r, g), eError) = client_case mem run uiOffset g;
          (s, eAppend) = AppendNativeAppAlgorithmJson r (p, g)
      in (s, if eAppend \<noteq> IPSEC_OK then IPSEC_ERR_FILE_READ else eError))"

function client_loop ::
  "(nat \<Rightarrow> bool) \<Rightarrow> SweepRun \<Rightarrow> nat \<Rightarrow> sweep_state outcome \<Rightarrow> sweep_state outcome" where
  "client_loop mem run uiOffset x =
     (let (s, eFirstError) = x in
      if sr_uiRequested run \<le> uiOffset then x
      else
        let (bStop, g) = sweep_stop (snd s); s = (fst s, g) in
        if bStop then (s, eFirstError)
        else
          let (s, eError) = client_round mem run uiOffset s;
              eFirstError = keep_first eFirstError eError
          in if eError \<noteq> IPSEC_OK \<and> \<not> ao_bContinueOnError (sr_Options run) then (s, eFirstError)
             else client_loop mem run (uiOffset + 1)
               (if 0 < ao_uiDelayMs (sr_Options run) \<and> uiOffset + 1 < sr_uiRequested run
                then (fst s, SleepNativeAppAlgorithm (ao_uiDelayMs (sr_Options run)) (snd s)) else s, eFirstError))"
  by pat_completeness auto
termination
  by (relation "measure (\<lambda>(mem, run, uiOffset, x). sr_uiRequested run - uiOffset)") auto

declare client_loop.simps [simp del]

definition base_name :: "string option \<Rightarrow> string" where
  "base_name pcResultsPath =
     (let n = (case pcResultsPath of None \<Rightarrow> [] | Some p \<Rightarrow> last (split_on (CHR ''/'') (cstr p)))
      in if n = [] then ''results.json'' else n)"

definition close_log :: "AlgorithmWorld \<Rightarrow> AlgorithmWorld" where
  "close_log g = (case ag_log g of None \<Rightarrow> g | Some f \<Rightarrow> (sys_fclose f g)\<lparr>ag_log := None\<rparr>)"

definition any_port :: "NativeAppAlgorithmEndpoint \<Rightarrow> NativeAppAlgorithmEndpoint" where
  "any_port e = e\<lparr>ep_Address :=
     (case ep_Address e of SockIpv4 a _ \<Rightarrow> SockIpv4 a 0 | SockIpv6 a _ \<Rightarrow> SockIpv6 a 0 | SockOther \<Rightarrow> SockOther)\<rparr>"

definition require_some :: "'a option \<Rightarrow> IpsecError" where
  "require_some x = (if x = None then IPSEC_ERR_INVALID_ARGUMENT else IPSEC_OK)"

text \<open>What the run prepares before its first case: the log, the addresses, the socket, the credential, the
  reports and the result file.  The flag says whether the socket was opened.\<close>

definition client_prepare ::
  "(nat \<Rightarrow> bool) \<Rightarrow> NativeAppConfig \<Rightarrow> NativeAppAlgorithmOptions \<Rightarrow> nat \<Rightarrow> AlgorithmWorld \<Rightarrow>
   ((SweepRun \<times> cbuf \<times> bool) \<times> sweep_state) outcome" where
  "client_prepare mem c opts uiRequested g =
     (let ((acRunId, g), eError) = CreateNativeAppAlgorithmRunId (ao_eMode opts)
            (replicate NATIVE_APP_ALGORITHM_RUN_ID_LENGTH NUL) g;
          acPath = replicate NATIVE_APP_PATH_LENGTH NUL;
          ((acResultDirectory, g), eError) =
            (if eError = IPSEC_OK then OpenNativeAppAlgorithmRunLog c acRunId ''initiator'' (acPath, g)
             else ((acPath, g), eError));
          (acResultPath, eError) =
            (if eError = IPSEC_OK
             then JoinNativeAppAlgorithmPath acPath acResultDirectory (base_name (ao_pcResultsPath opts))
             else (acPath, eError));
          uiPort = (if ao_uiPort opts = 0 then NATIVE_APP_ALGORITHM_DEFAULT_PORT else ao_uiPort opts);
          Local = InitializeNativeAppAlgorithmEndpoint (nc_acLocalAddress c) uiPort;
          Remote = InitializeNativeAppAlgorithmEndpoint (nc_acRemoteAddress c) uiPort;
          eError = (if eError = IPSEC_OK then require_some Local else eError);
          eError = (if eError = IPSEC_OK then require_some Remote else eError);
          (g, eError) =
            (case Local of
               Some a \<Rightarrow> if eError = IPSEC_OK then OpenNativeAppAlgorithmSocket (any_port a) g else (g, eError)
             | None \<Rightarrow> (g, eError));
          bSocket = (eError = IPSEC_OK);
          (g, eError) = (if eError = IPSEC_OK then in_app (LoadNativeAppCredential mem c) g else (g, eError));
          (g, eError) =
            (if eError = IPSEC_OK
             then WriteNativeAppAlgorithmRunReport mem c (ao_eMode opts) ''initiator'' acResultDirectory uiRequested False g
             else (g, eError));
          ((Writer, g), eError) =
            (if eError = IPSEC_OK
             then OpenNativeAppAlgorithmJson (opts\<lparr>ao_pcResultsPath := Some acResultPath\<rparr>) acRunId uiRequested g
             else ((zero_writer, g), eError))
      in (((\<lparr>sr_Config = c, sr_Options = opts,
             sr_Remote = (case Remote of Some r \<Rightarrow> r | None \<Rightarrow> endpoint_of SockOther),
             sr_acRunId = acRunId, sr_acResultDirectory = acResultDirectory, sr_uiRequested = uiRequested\<rparr>,
            acResultPath, bSocket), (Writer, g)), eError))"

definition client_finish ::
  "(nat \<Rightarrow> bool) \<Rightarrow> SweepRun \<Rightarrow> sweep_state outcome \<Rightarrow> AlgorithmWorld outcome" where
  "client_finish mem run x =
     (let ((p, g), eFirstError) = x; c = sr_Config run; opts = sr_Options run;
          (bStop, g) = sweep_stop g;
          eFirstError = (if bStop \<and> eFirstError = IPSEC_OK then IPSEC_ERR_INTERNAL else eFirstError);
          g = ReportNativeAppAlgorithm True (passed_text (jw_uiFailed p = 0))
                (''algorithm summary: completed='' @ dec (jw_uiCaseCount p) @ '' passed='' @ dec (jw_uiPassed p) @
                 '' failed='' @ dec (jw_uiFailed p)) g;
          (p, g) = CloseNativeAppAlgorithmJson (p, g);
          (g, eError) = FinishNativeAppAlgorithmRun (sr_Remote run) (sr_acRunId run) (nc_uiTimeoutMs c) g;
          eFirstError = keep_first eFirstError eError;
          g = ReportNativeAppAlgorithm True (if eError = IPSEC_OK then ''INFO'' else ''WARN'')
                (''responder completion: '' @ GetIpsecErrorString eError) g;
          g = ReportNativeAppAlgorithmFinalState mem g;
          g = fst (WriteNativeAppAlgorithmRunReport mem c (ao_eMode opts) ''initiator'' (sr_acResultDirectory run)
                     (sr_uiRequested run) True g)
      in (close_log (close_socket g), eFirstError))"

definition RunNativeAppAlgorithmClient ::
  "(nat \<Rightarrow> bool) \<Rightarrow> NativeAppConfig \<Rightarrow> NativeAppAlgorithmOptions \<Rightarrow> AlgorithmWorld \<Rightarrow> AlgorithmWorld outcome" where
  "RunNativeAppAlgorithmClient mem c opts g =
     (let uiTotal = GetNativeAppAlgorithmCaseCount (ao_eMode opts);
          uiAvailable = uiTotal - ao_uiStart opts + 1;
          uiRequested = (if ao_uiLimit opts = 0 then uiAvailable
                         else if ao_uiLimit opts < uiAvailable then ao_uiLimit opts else uiAvailable)
      in if nc_eRole c \<noteq> NATIVE_APP_ROLE_INITIATOR \<or> uiTotal = 0 \<or> ao_uiStart opts = 0 \<or> uiTotal < ao_uiStart opts
         then (g, IPSEC_ERR_INVALID_ARGUMENT)
         else
           let (((run, acResultPath, bSocket), (p, g)), eError) =
                 client_prepare mem c opts uiRequested (g\<lparr>ag_log := None\<rparr>)
           in if eError \<noteq> IPSEC_OK then (close_log (if bSocket then close_socket g else g), eError)
              else
                let g = ReportNativeAppAlgorithm True ''INFO''
                      (''algorithm test: run='' @ cstr (sr_acRunId run) @
                       '' mode='' @ GetNativeAppAlgorithmModeName (ao_eMode opts) @ '' start='' @ dec (ao_uiStart opts) @
                       '' cases='' @ dec uiRequested @ '' results='' @ cstr acResultPath) g
                in client_finish mem run (client_loop mem run 0 ((p, g), IPSEC_OK)))"

subsection \<open>The side of the responder\<close>

definition ReplyNativeAppAlgorithmServer ::
  "NativeAppAlgorithmEndpoint \<Rightarrow> string \<Rightarrow> NativeAppAlgorithmCase \<Rightarrow> string \<Rightarrow> AlgorithmWorld \<Rightarrow>
   AlgorithmWorld outcome" where
  "ReplyNativeAppAlgorithmServer pSender pcAction k pcResult g =
     (let (acMessage, eError) = FormatNativeAppAlgorithmMessage pcAction k pcResult ''0'' in
      if eError = IPSEC_OK then SendNativeAppAlgorithmMessage pSender acMessage g else (g, eError))"

text \<open>The local variables of a case.\<close>

record ServerCase =
  sk_Result :: NativeAppAlgorithmCaseResult
  sk_bConnectionLoaded :: bool
  sk_bVerified :: bool
  sk_eCleanupResult :: IpsecError
  sk_eCaseError :: IpsecError

definition server_verify ::
  "(nat \<Rightarrow> bool) \<Rightarrow> NativeAppConfig \<Rightarrow> NativeAppAlgorithmCase \<Rightarrow> string \<Rightarrow> NativeAppAlgorithmEndpoint \<Rightarrow>
   ServerCase \<times> AlgorithmWorld \<Rightarrow> (ServerCase \<times> AlgorithmWorld) outcome" where
  "server_verify mem c k pcCaseDirectory ActualSender s =
     (let (x, g) = s;
          ((r, g), eVerify) = QueryNativeAppAlgorithmState mem c k (sk_Result x, g);
          r = (if eVerify = IPSEC_OK
               then r\<lparr>cr_eResult := NATIVE_APP_ALGORITHM_RESULT_PASS, cr_bDataPathVerified := True\<rparr> else r);
          g = fst (CaptureNativeAppAlgorithmCaseReport mem c r pcCaseDirectory g);
          (g, eReply) = ReplyNativeAppAlgorithmServer ActualSender ''RESULT'' k
            (GetNativeAppAlgorithmResultName (cr_eResult r)) g
      in ((x\<lparr>sk_Result := r, sk_eCaseError := eVerify, sk_bVerified := True\<rparr>, g), eReply))"

definition server_cleanup ::
  "(nat \<Rightarrow> bool) \<Rightarrow> NativeAppConfig \<Rightarrow> NativeAppAlgorithmCase \<Rightarrow> string \<Rightarrow> NativeAppAlgorithmEndpoint \<Rightarrow>
   ServerCase \<times> AlgorithmWorld \<Rightarrow> (ServerCase \<times> AlgorithmWorld) outcome" where
  "server_cleanup mem c k pcAction ActualSender s =
     (let (x, g) = s; r = sk_Result x;
          ((u, g), eCleanup) =
            (if sk_bConnectionLoaded x then CleanupNativeAppAlgorithmCase mem c (cr_uiReqid r) False g
             else ((cr_Cleanup r, g), IPSEC_OK));
          r = r\<lparr>cr_Cleanup := u\<rparr>;
          x = x\<lparr>sk_bConnectionLoaded := False, sk_eCleanupResult := eCleanup\<rparr>;
          (g, eError) =
            (if eCleanup = IPSEC_OK then ReplyNativeAppAlgorithmServer ActualSender ''DONE'' k ''OK'' g
             else (g, eCleanup));
          r = (if eCleanup = IPSEC_OK then r else r\<lparr>cr_eResult := NATIVE_APP_ALGORITHM_RESULT_FAIL_CLEANUP\<rparr>);
          bAbort = strcmp_eq ''ABORT'' pcAction
      in ((x\<lparr>sk_Result := if bAbort then r\<lparr>cr_eResult := NATIVE_APP_ALGORITHM_RESULT_FAIL_SYNC\<rparr> else r,
             sk_bVerified := sk_bVerified x \<or> bAbort\<rparr>, g), eError))"

text \<open>A message of the peer about the case at hand; the flag says whether the loop ends.  An unknown action
  leaves the result of the receive call.\<close>

definition server_message ::
  "(nat \<Rightarrow> bool) \<Rightarrow> NativeAppConfig \<Rightarrow> NativeAppAlgorithmCase \<Rightarrow> string \<Rightarrow> string \<Rightarrow> NativeAppAlgorithmEndpoint \<Rightarrow>
   (ServerCase \<times> AlgorithmWorld) outcome \<Rightarrow> (ServerCase \<times> AlgorithmWorld) outcome \<times> bool" where
  "server_message mem c k pcCaseDirectory pcAction ActualSender y =
     (let ((x, g), eError) = y in
      if strcmp_eq ''PREPARE'' pcAction
      then (let (g, eError) = ReplyNativeAppAlgorithmServer ActualSender ''READY'' k ''OK'' g in ((x, g), eError), False)
      else if strcmp_eq ''VERIFY'' pcAction
      then (server_verify mem c k pcCaseDirectory ActualSender (x, g), False)
      else if strcmp_eq ''CLEANUP'' pcAction \<or> strcmp_eq ''ABORT'' pcAction
      then (server_cleanup mem c k pcAction ActualSender (x, g), True)
      else (y, False))"

text \<open>The loop may never end: when \<open>recvfrom\<close> fails for good and the array holds no message of the case,
  it goes on at once and no time is counted.\<close>

partial_function (option) server_case_loop ::
  "(nat \<Rightarrow> bool) \<Rightarrow> NativeAppConfig \<Rightarrow> NativeAppAlgorithmCase \<Rightarrow> string \<Rightarrow> NativeAppAlgorithmEndpoint \<Rightarrow> nat \<Rightarrow> nat \<Rightarrow>
   (ServerCase \<times> AlgorithmWorld) outcome \<Rightarrow> (ServerCase \<times> AlgorithmWorld) outcome option" where
  "server_case_loop mem c k pcCaseDirectory pPeer ullTimeoutMs ullElapsedMs y =
     (if snd y \<noteq> IPSEC_OK \<or> ullTimeoutMs < ullElapsedMs then Some y
      else
        let (bStop, g) = sweep_stop (snd (fst y)); x = fst (fst y) in
        if bStop then Some ((x, g), IPSEC_OK)
        else
          let (m, eError) = ReceiveNativeAppAlgorithmMessage pPeer g in
          if eError = IPSEC_ERR_VICI_TIMEOUT
          then server_case_loop mem c k pcCaseDirectory pPeer ullTimeoutMs
                 (ullElapsedMs + NATIVE_APP_ALGORITHM_POLL_MS) ((x, snd m), IPSEC_OK)
          else
            case (if eError = IPSEC_ERR_PERMISSION then None
                  else SplitNativeAppAlgorithmMessage (fst (fst m)) 10) of
              None \<Rightarrow> server_case_loop mem c k pcCaseDirectory pPeer ullTimeoutMs ullElapsedMs ((x, snd m), IPSEC_OK)
            | Some pacFields \<Rightarrow>
                if length pacFields < 3 \<or> \<not> strcmp_eq (ac_acId k) (pacFields ! 2)
                then server_case_loop mem c k pcCaseDirectory pPeer ullTimeoutMs ullElapsedMs ((x, snd m), IPSEC_OK)
                else
                  let (y, bBreak) = server_message mem c k pcCaseDirectory (pacFields ! 1) (snd (fst m))
                        ((x, snd m), eError)
                  in if bBreak then Some y
                     else server_case_loop mem c k pcCaseDirectory pPeer ullTimeoutMs ullElapsedMs y)"

text \<open>What is left to do after the loop.\<close>

definition server_case_end ::
  "(nat \<Rightarrow> bool) \<Rightarrow> NativeAppConfig \<Rightarrow> (ServerCase \<times> AlgorithmWorld) outcome \<Rightarrow>
   (NativeAppAlgorithmCaseResult \<times> AlgorithmWorld) outcome" where
  "server_case_end mem c y =
     (let ((x, g), eError) = y; r = sk_Result x;
          ((r, g), eCleanupResult, eError) =
            (if sk_bConnectionLoaded x
             then let ((u, g), eCleanup) = CleanupNativeAppAlgorithmCase mem c (cr_uiReqid r) False g;
                      r = r\<lparr>cr_Cleanup := u\<rparr>;
                      r = (if eCleanup \<noteq> IPSEC_OK then r\<lparr>cr_eResult := NATIVE_APP_ALGORITHM_RESULT_FAIL_CLEANUP\<rparr> else r)
                  in ((r, g), eCleanup, if eError = IPSEC_OK then eCleanup else eError)
             else ((r, g), sk_eCleanupResult x, eError));
          eError = (if eError = IPSEC_OK \<and> \<not> sk_bVerified x then IPSEC_ERR_VICI_TIMEOUT
                    else if eError = IPSEC_OK \<and> sk_eCaseError x \<noteq> IPSEC_OK then sk_eCaseError x
                    else eError)
      in ((r\<lparr>cr_eError := eError, cr_eCleanupError := eCleanupResult\<rparr>, g), eError))"

text \<open>The flag says whether the cleanup of the case was verified.\<close>

definition RunNativeAppAlgorithmServerCase ::
  "(nat \<Rightarrow> bool) \<Rightarrow> NativeAppAlgorithmEndpoint \<Rightarrow> NativeAppAlgorithmEndpoint \<Rightarrow> NativeAppConfig \<Rightarrow>
   NativeAppAlgorithmCase \<Rightarrow> string \<Rightarrow> string \<Rightarrow> nat \<Rightarrow> nat \<Rightarrow> AlgorithmWorld \<Rightarrow>
   (bool \<times> AlgorithmWorld) outcome option" where
  "RunNativeAppAlgorithmServerCase mem pPeer pSender pBaseConfig k pcResultDirectory pcCaseDirectory uiOrdinal
     uiRequested g =
     (let (ullStartMs, g) = GetNativeAppAlgorithmTimeMs g;
          ullTimeoutMs = nc_uiTimeoutMs pBaseConfig * 2;
          (((c, Runtime), g), eError) = BuildNativeAppAlgorithmConfig pBaseConfig k g;
          (g, eError) =
            (if eError = IPSEC_OK then in_app (on_ipsec (AddIpsecConnection Runtime)) g else (g, eError));
          x = \<lparr>sk_Result = zero_case_result\<lparr>cr_Case := k, cr_eResult := NATIVE_APP_ALGORITHM_RESULT_FAIL_CONFIG\<rparr>,
               sk_bConnectionLoaded = (eError = IPSEC_OK), sk_bVerified = False, sk_eCleanupResult = IPSEC_OK,
               sk_eCaseError = IPSEC_OK\<rparr>;
          (g, eError) =
            (if eError = IPSEC_OK then ReplyNativeAppAlgorithmServer pSender ''READY'' k ''OK'' g else (g, eError))
      in map_option (\<lambda>y.
           let ((r, g), eError) = server_case_end mem c y;
               (ullEndMs, g) = GetNativeAppAlgorithmTimeMs g;
               r = r\<lparr>cr_ullDurationMs := sub64 ullEndMs ullStartMs\<rparr>;
               g = fst (FinishNativeAppAlgorithmCaseReport mem c r ''responder'' pcResultDirectory pcCaseDirectory
                          uiOrdinal uiRequested g)
           in ((cu_bLocalVerified (cr_Cleanup r), g), eError))
           (server_case_loop mem c k pcCaseDirectory pPeer ullTimeoutMs 0 ((x, g), eError)))"

text \<open>The local variables of the responder.\<close>

record ServerRun =
  sv_acRunId :: cbuf
  sv_acLastCleanupCaseId :: cbuf
  sv_acResultDirectory :: cbuf
  sv_uiRunRequested :: nat
  sv_uiRunCaseOrdinal :: nat
  sv_eRunMode :: NativeAppAlgorithmMode
  sv_bRunCompleted :: bool

definition zero_server :: ServerRun where
  "zero_server =
     \<lparr>sv_acRunId = replicate NATIVE_APP_ALGORITHM_RUN_ID_LENGTH NUL,
      sv_acLastCleanupCaseId = replicate NATIVE_APP_ALGORITHM_CASE_ID_LENGTH NUL,
      sv_acResultDirectory = replicate NATIVE_APP_PATH_LENGTH NUL, sv_uiRunRequested = 0, sv_uiRunCaseOrdinal = 0,
      sv_eRunMode = NATIVE_APP_ALGORITHM_CUSTOM, sv_bRunCompleted = False\<rparr>"

type_synonym server_state = "ServerRun \<times> AlgorithmWorld"

text \<open>An answer that names the second field of the request as its case.\<close>

definition answer_id ::
  "NativeAppAlgorithmEndpoint \<Rightarrow> string \<Rightarrow> string \<Rightarrow> AlgorithmWorld \<Rightarrow> AlgorithmWorld outcome" where
  "answer_id Sender pcAction pcId g =
     (let (buf, eError) = CopyNativeAppAlgorithmValue (ac_acId zero_case) pcId in
      if eError = IPSEC_OK then ReplyNativeAppAlgorithmServer Sender pcAction (zero_case\<lparr>ac_acId := buf\<rparr>) ''OK'' g
      else (g, eError))"

definition server_finish ::
  "(nat \<Rightarrow> bool) \<Rightarrow> NativeAppConfig \<Rightarrow> NativeAppAlgorithmEndpoint \<Rightarrow> string \<Rightarrow> server_state \<Rightarrow> server_state outcome" where
  "server_finish mem c Sender pcId s =
     (let (v, g) = s; (g, eError) = answer_id Sender ''FINISHED'' pcId g in
      if eError \<noteq> IPSEC_OK then ((v, g), eError)
      else
        let g = ReportNativeAppAlgorithmFinalState mem g;
            g = fst (WriteNativeAppAlgorithmRunReport mem c (sv_eRunMode v) ''responder'' (sv_acResultDirectory v)
                       (sv_uiRunRequested v) True g);
            g = ReportNativeAppAlgorithm True ''INFO''
                  (''algorithm responder completed: run='' @ cstr (sv_acRunId v) @ '' results='' @
                   cstr (sv_acResultDirectory v)) g
        in ((v\<lparr>sv_bRunCompleted := True\<rparr>, g), IPSEC_OK))"

text \<open>The first request of a run opens its log and writes its report.\<close>

definition server_start_run ::
  "(nat \<Rightarrow> bool) \<Rightarrow> NativeAppConfig \<Rightarrow> string \<Rightarrow> server_state \<Rightarrow> server_state outcome" where
  "server_start_run mem c pcRunId s =
     (let (v, g) = s;
          (buf, eError) = CopyNativeAppAlgorithmValue (sv_acRunId v) pcRunId;
          v = v\<lparr>sv_acRunId := buf\<rparr>;
          ((dir, g), eError) =
            (if eError = IPSEC_OK
             then OpenNativeAppAlgorithmRunLog c (sv_acRunId v) ''responder'' (sv_acResultDirectory v, g)
             else ((sv_acResultDirectory v, g), eError));
          v = v\<lparr>sv_acResultDirectory := dir\<rparr>;
          v = (if eError = IPSEC_OK then v\<lparr>sv_eRunMode := GetNativeAppAlgorithmRunMode (sv_acRunId v)\<rparr> else v);
          (g, eError) =
            (if eError = IPSEC_OK
             then WriteNativeAppAlgorithmRunReport mem c (sv_eRunMode v) ''responder'' (sv_acResultDirectory v)
                    (sv_uiRunRequested v) False g
             else (g, eError));
          g = (if eError = IPSEC_OK
               then ReportNativeAppAlgorithm True ''INFO''
                      (''algorithm responder run started: run='' @ cstr (sv_acRunId v) @ '' results='' @
                       cstr (sv_acResultDirectory v)) g
               else g)
      in ((v, g), eError))"

text \<open>The case of a request: its texts are copied, the rest is derived from the proposals.\<close>

definition server_derive_case ::
  "NativeAppConfig \<Rightarrow> nat \<Rightarrow> string list \<Rightarrow> NativeAppAlgorithmCase outcome" where
  "server_derive_case c uiNumber pacFields =
     (let Case = zero_case\<lparr>ac_uiNumber := uiNumber\<rparr>;
          (buf, eError) = CopyNativeAppAlgorithmValue (ac_acId Case) (pacFields ! 2);
          Case = Case\<lparr>ac_acId := buf\<rparr>;
          (buf, eError) = (if eError = IPSEC_OK then CopyNativeAppAlgorithmValue (ac_acIkeProposal Case) (pacFields ! 3)
                           else (ac_acIkeProposal Case, eError));
          Case = Case\<lparr>ac_acIkeProposal := buf\<rparr>;
          (buf, eError) = (if eError = IPSEC_OK then CopyNativeAppAlgorithmValue (ac_acEspProposal Case) (pacFields ! 4)
                           else (ac_acEspProposal Case, eError));
          Case = Case\<lparr>ac_acEspProposal := buf\<rparr>
      in if eError \<noteq> IPSEC_OK then (Case, eError)
         else
           let (Derived, eError) = GetNativeAppAlgorithmCase NATIVE_APP_ALGORITHM_CUSTOM 0 (Some c)
                 (Some (ac_acIkeProposal Case)) (Some (ac_acEspProposal Case)) zero_case
           in if eError \<noteq> IPSEC_OK then (Case, eError)
              else (Derived\<lparr>ac_acId := fst (CopyNativeAppAlgorithmValue (ac_acId Derived) (ac_acId Case)),
                            ac_uiNumber := ac_uiNumber Case\<rparr>, IPSEC_OK))"

definition server_run_case ::
  "(nat \<Rightarrow> bool) \<Rightarrow> NativeAppConfig \<Rightarrow> NativeAppAlgorithmEndpoint \<Rightarrow> NativeAppAlgorithmEndpoint \<Rightarrow>
   NativeAppAlgorithmCase \<Rightarrow> server_state \<Rightarrow> server_state outcome option" where
  "server_run_case mem c pPeer Sender Case s =
     (let (v, g) = s;
          v = v\<lparr>sv_uiRunCaseOrdinal := u32 (sv_uiRunCaseOrdinal v + 1)\<rparr>;
          ((acCaseDirectory, g), eError) =
            CreateNativeAppAlgorithmCaseReport c Case ''responder'' (sv_acResultDirectory v) (sv_uiRunCaseOrdinal v)
              (sv_uiRunRequested v) (replicate NATIVE_APP_PATH_LENGTH NUL, g)
      in if eError \<noteq> IPSEC_OK
         then Some ((v, ReportNativeAppAlgorithm False ''FAIL''
                (''responder report directory failed: '' @ GetIpsecErrorString eError) g), eError)
         else
           let g = ReportNativeAppAlgorithm True ''INFO''
                 (''responder case: '' @ cstr (ac_acId Case) @ '' ike='' @ cstr (ac_acIkeProposal Case) @
                  '' esp='' @ cstr (ac_acEspProposal Case)) g
           in map_option (\<lambda>((bCleanupVerified, g), eError).
                let v = v\<lparr>sv_acLastCleanupCaseId :=
                      if bCleanupVerified
                      then fst (CopyNativeAppAlgorithmValue (sv_acLastCleanupCaseId v) (ac_acId Case))
                      else (sv_acLastCleanupCaseId v)[0 := NUL]\<rparr>;
                    g = ReportNativeAppAlgorithm (eError = IPSEC_OK) (passed_text (eError = IPSEC_OK))
                          (''responder result: '' @ cstr (ac_acId Case) @ '' '' @
                           (if eError = IPSEC_OK then ''PASS'' else GetIpsecErrorString eError)) g
                in ((v, g), eError))
              (RunNativeAppAlgorithmServerCase mem pPeer Sender c Case (sv_acResultDirectory v) acCaseDirectory
                 (sv_uiRunCaseOrdinal v) (sv_uiRunRequested v) g))"

text \<open>The failure of a case is reported; the loop goes on.\<close>

definition server_case_failed :: "server_state outcome \<Rightarrow> server_state outcome" where
  "server_case_failed y =
     (let ((v, g), eError) = y in
      if eError = IPSEC_OK then y
      else
        let (bStop, g) = sweep_stop g in
        if bStop then ((v, g), eError)
        else ((v, ReportNativeAppAlgorithm False ''FAIL''
                (''algorithm responder case failed: '' @ GetIpsecErrorString eError) g), IPSEC_OK))"

text \<open>A request to prepare a case; the flag says whether the loop ends.\<close>

definition server_request ::
  "(nat \<Rightarrow> bool) \<Rightarrow> NativeAppConfig \<Rightarrow> NativeAppAlgorithmEndpoint \<Rightarrow> NativeAppAlgorithmEndpoint \<Rightarrow> string list \<Rightarrow>
   server_state \<Rightarrow> (server_state outcome \<times> bool) option" where
  "server_request mem c pPeer Sender pacFields s =
     (let (v, g) = s; go_on = Some ((s, IPSEC_OK), False) in
      if \<not> strcmp_eq ''PREPARE'' (pacFields ! 1) \<or> length pacFields < 8 \<or>
         \<not> IsNativeAppAlgorithmRunIdValid (pacFields ! 5)
      then go_on
      else
        case ParseNativeAppAlgorithmUint32 (pacFields ! 6) of
          None \<Rightarrow> go_on
        | Some uiNumber \<Rightarrow>
            (case ParseNativeAppAlgorithmUint32 (pacFields ! 7) of
               None \<Rightarrow> go_on
             | Some uiRunRequested \<Rightarrow>
                 let v = v\<lparr>sv_uiRunRequested := uiRunRequested\<rparr> in
                 if uiNumber = 0 \<or> uiRunRequested = 0 then Some (((v, g), IPSEC_OK), False)
                 else if sv_acRunId v ! 0 \<noteq> NUL \<and> \<not> strcmp_eq (sv_acRunId v) (pacFields ! 5)
                 then Some (((v, g), IPSEC_OK), False)
                 else
                   let ((v, g), eError) =
                         (if sv_acRunId v ! 0 = NUL then server_start_run mem c (pacFields ! 5) (v, g)
                          else ((v, g), IPSEC_OK))
                   in if eError \<noteq> IPSEC_OK then Some (((v, g), eError), True)
                      else
                        let (Case, eError) = server_derive_case c uiNumber pacFields in
                        map_option (\<lambda>y. (server_case_failed y, False))
                          (if eError = IPSEC_OK then server_run_case mem c pPeer Sender Case (v, g)
                           else Some ((v, g), eError))))"

text \<open>One message; the flag says whether the loop ends.\<close>

definition server_step ::
  "(nat \<Rightarrow> bool) \<Rightarrow> NativeAppConfig \<Rightarrow> NativeAppAlgorithmEndpoint \<Rightarrow> server_state \<Rightarrow>
   (server_state outcome \<times> bool) option" where
  "server_step mem c pPeer s =
     (let (v, g) = s;
          (((acMessage, Sender), g), eError) = ReceiveNativeAppAlgorithmMessage pPeer g
      in if eError = IPSEC_ERR_VICI_TIMEOUT \<or> eError = IPSEC_ERR_PERMISSION then Some (((v, g), IPSEC_OK), False)
         else if eError \<noteq> IPSEC_OK then Some (((v, g), eError), True)
         else
           case SplitNativeAppAlgorithmMessage acMessage 8 of
             None \<Rightarrow> Some (((v, g), IPSEC_OK), False)
           | Some pacFields \<Rightarrow>
               if length pacFields < 3 then Some (((v, g), IPSEC_OK), False)
               else if (strcmp_eq ''CLEANUP'' (pacFields ! 1) \<or> strcmp_eq ''ABORT'' (pacFields ! 1)) \<and>
                       sv_acLastCleanupCaseId v ! 0 \<noteq> NUL \<and> strcmp_eq (sv_acLastCleanupCaseId v) (pacFields ! 2)
               then
                 let (g, eError) = answer_id Sender ''DONE'' (pacFields ! 2) g
                 in Some (((v, g), eError), eError \<noteq> IPSEC_OK)
               else if strcmp_eq ''FINISH'' (pacFields ! 1) \<and> sv_acRunId v ! 0 \<noteq> NUL \<and>
                       strcmp_eq (sv_acRunId v) (pacFields ! 2)
               then Some (server_finish mem c Sender (pacFields ! 2) (v, g), True)
               else server_request mem c pPeer Sender pacFields (v, g))"

partial_function (option) server_loop ::
  "(nat \<Rightarrow> bool) \<Rightarrow> NativeAppConfig \<Rightarrow> NativeAppAlgorithmEndpoint \<Rightarrow> server_state outcome \<Rightarrow>
   server_state outcome option" where
  "server_loop mem c pPeer y =
     (let (bStop, g) = sweep_stop (snd (fst y)); s = (fst (fst y), g) in
      if bStop then Some (s, snd y)
      else Option.bind (server_step mem c pPeer s)
             (\<lambda>r. if snd r then Some (fst r) else server_loop mem c pPeer (fst r)))"

definition RunNativeAppAlgorithmServer ::
  "(nat \<Rightarrow> bool) \<Rightarrow> NativeAppConfig \<Rightarrow> nat \<Rightarrow> AlgorithmWorld \<Rightarrow> AlgorithmWorld outcome option" where
  "RunNativeAppAlgorithmServer mem c uiPort g =
     (let uiPort = (if uiPort = 0 then NATIVE_APP_ALGORITHM_DEFAULT_PORT else uiPort);
          g = g\<lparr>ag_log := None\<rparr>
      in if nc_eRole c \<noteq> NATIVE_APP_ROLE_RESPONDER then Some (g, IPSEC_ERR_INVALID_ARGUMENT)
         else
           case (InitializeNativeAppAlgorithmEndpoint (nc_acLocalAddress c) uiPort,
                 InitializeNativeAppAlgorithmEndpoint (nc_acRemoteAddress c) uiPort) of
             (Some Local, Some Peer) \<Rightarrow>
               (let (g, eError) = OpenNativeAppAlgorithmSocket Local g in
                if eError \<noteq> IPSEC_OK then Some (g, eError)
                else
                  let (g, eError) = in_app (LoadNativeAppCredential mem c) g in
                  if eError \<noteq> IPSEC_OK then Some (close_socket g, eError)
                  else
                    let g = ReportNativeAppAlgorithm True ''INFO''
                          (''algorithm responder ready: '' @ cstr (nc_acLocalAddress c) @ '':'' @ dec uiPort @
                           '' peer='' @ cstr (nc_acRemoteAddress c) @ '' (Ctrl-C to stop)'') g
                    in map_option (\<lambda>((v, g), eError).
                         let (bStop, g) = sweep_stop (close_log (close_socket g))
                         in (g, if bStop \<or> sv_bRunCompleted v then IPSEC_OK else eError))
                       (server_loop mem c Peer ((zero_server, g), IPSEC_OK)))
           | _ \<Rightarrow> Some (g, IPSEC_ERR_INVALID_ARGUMENT))"

end
