(* ===== verification/AppCli.thy ===== *)
theory AppCli
  imports AppRunner AppCommand IpsecCore IpsecPsk
begin

section \<open>The interactive application (\<open>app/cli.c\<close>)\<close>

text \<open>
  A session works on the library, the files and the output of the application (\<open>ss_App\<close>), on the
  peer table and the sockets of the registration (\<open>ss_Peer\<close>) and on its own flags.  The runtime
  configuration holds pointers into the session's configuration; it is a value here, and every
  command that stores a configuration rebuilds it.

  Only one library context is in use at a time, \<open>ap_ipsec\<close>.  While a second one is opened, the first is
  set aside with its descriptor.

  The messages of the library go to the log callback, which prints them; they are delivered after
  each operation of the library or the lifecycle.  What the listener thread does is placed where the
  session waits for input and where it joins the thread.

  The two long-running algorithm commands are those of \<open>app/algorithm_runner.c\<close>.  What a sweep sees of
  the world beyond the application, its files and its sockets, is \<open>ss_Sweep\<close>.
\<close>

abbreviation NATIVE_APP_COMMAND_LINE_LENGTH :: nat where "NATIVE_APP_COMMAND_LINE_LENGTH \<equiv> 2048"
abbreviation NATIVE_APP_COMMAND_ARGUMENT_COUNT :: nat where "NATIVE_APP_COMMAND_ARGUMENT_COUNT \<equiv> 32"

record NativeAppStartupOptions =
  st_pcConfigPath :: "string option"
  st_pcApplicationConfigPath :: "string option"
  st_pcManagementConfigPath :: "string option"
  st_pcGeneratePskPath :: "string option"
  st_Command :: "string list"
  st_bVerbose :: bool
  st_bHelp :: bool

record NativeAppSession =
  ss_App :: NativeApp
  ss_BaseConfig :: NativeAppConfig
  ss_Config :: NativeAppConfig
  ss_Runtime :: IpsecConnectionConfig
  ss_Peer :: PeerWorld
  ss_PeerListener :: NativeAppPeerListener
  ss_Sweep :: AlgorithmWorld
  ss_acConfigPath :: cbuf
  ss_acApplicationConfigPath :: cbuf
  ss_acManagementConfigPath :: cbuf
  ss_bConfigValid :: bool
  ss_bConnectionLoaded :: bool
  ss_bCredentialLoaded :: bool
  ss_bVerbose :: bool
  ss_bPromptVisible :: bool

subsection \<open>Output\<close>

definition session_printf :: "string \<Rightarrow> NativeAppSession \<Rightarrow> NativeAppSession" where
  "session_printf t s = s\<lparr>ss_App := app_printf t (ss_App s)\<rparr>"

definition session_eprintf :: "string \<Rightarrow> NativeAppSession \<Rightarrow> NativeAppSession" where
  "session_eprintf t s = s\<lparr>ss_App := app_eprintf t (ss_App s)\<rparr>"

definition PrintNativeAppPrompt :: "NativeAppSession \<Rightarrow> NativeAppSession" where
  "PrintNativeAppPrompt s = (session_printf ''ipsec> '' s)\<lparr>ss_bPromptVisible := True\<rparr>"

definition GetNativeAppLogLevel :: "IpsecLogLevel \<Rightarrow> string" where
  "GetNativeAppLogLevel eLevel =
     (case eLevel of
        IPSEC_LOG_ERROR \<Rightarrow> ''error''
      | IPSEC_LOG_WARNING \<Rightarrow> ''warning''
      | IPSEC_LOG_INFO \<Rightarrow> ''info''
      | IPSEC_LOG_DEBUG \<Rightarrow> ''debug'')"

text \<open>Messages above \<open>WARNING\<close> are shown when the session is verbose.\<close>

definition LogNativeApp :: "IpsecLogLevel \<Rightarrow> string \<Rightarrow> NativeAppSession \<Rightarrow> NativeAppSession" where
  "LogNativeApp eLevel pcMessage s =
     (let bRestorePrompt = ss_bPromptVisible s in
      if \<not> ss_bVerbose s \<and> eLevel \<noteq> IPSEC_LOG_ERROR \<and> eLevel \<noteq> IPSEC_LOG_WARNING then s
      else
        let s = (if bRestorePrompt then session_eprintf nl s else s);
            s = session_eprintf (''libipsec['' @ GetNativeAppLogLevel eLevel @ '']: '' @ cstr pcMessage @ nl) s
        in if bRestorePrompt then PrintNativeAppPrompt s else s)"

definition deliver_log :: "nat \<Rightarrow> NativeAppSession \<Rightarrow> NativeAppSession" where
  "deliver_log seen s =
     foldl (\<lambda>s (eLevel, pcMessage). LogNativeApp eLevel pcMessage s) s
       (drop seen (os_log (ap_ipsec (ss_App s))))"

text \<open>An operation on the library or the application, and its messages.\<close>

definition seen_log :: "NativeAppSession \<Rightarrow> nat" where
  "seen_log s = length (os_log (ap_ipsec (ss_App s)))"

definition on_app :: "(NativeApp \<Rightarrow> NativeApp outcome) \<Rightarrow> NativeAppSession \<Rightarrow> NativeAppSession outcome" where
  "on_app f s = (let (a, eError) = f (ss_App s) in (deliver_log (seen_log s) (s\<lparr>ss_App := a\<rparr>), eError))"

definition on_context :: "(Ipsec \<Rightarrow> Ipsec outcome) \<Rightarrow> NativeAppSession \<Rightarrow> NativeAppSession outcome" where
  "on_context f = on_app (on_ipsec f)"

definition PrintNativeAppUsage :: "string \<Rightarrow> NativeApp \<Rightarrow> NativeApp" where
  "PrintNativeAppUsage p = app_printf
     (''Usage: '' @ cstr p @ '' --app-config FILE --management-config FILE'' @ nl @
     ''          [--verbose] [COMMAND ...]'' @ nl @
     ''       '' @ cstr p @ '' [--config LEGACY_FILE] [--verbose] [COMMAND ...]'' @ nl @
     ''       '' @ cstr p @ '' --generate-psk FILE'' @ nl @
     nl @
     ''Without COMMAND, ipsec_app starts an interactive CLI session.'' @ nl @
     ''The application connects to charon before accepting commands.'' @ nl @
     ''--generate-psk creates a new 48-byte hex PSK file without'' @ nl @
     ''connecting to charon and never overwrites an existing file.'' @ nl)"

definition help_text :: string where
  "help_text =
     ''Commands:'' @ nl @
     ''  config load FILE             load a legacy combined configuration'' @ nl @
     ''  config set KEY VALUE         update one in-memory setting'' @ nl @
     ''  config validate              validate and rebuild settings'' @ nl @
     ''  connection load              load the configured connection'' @ nl @
     ''  connection unload [NAME]     unload a connection'' @ nl @
     ''  credential load              load the configured PSK'' @ nl @
     ''  credential clear             clear charon's VICI credentials'' @ nl @
     ''  ike initiate [NAME]          initiate and wait for an IKE SA'' @ nl @
     ''  ike terminate [NAME]         terminate an IKE SA'' @ nl @
     ''  ike rekey [NAME]             rekey an IKE SA'' @ nl @
     ''  ike wait [NAME]              wait for an established IKE SA'' @ nl @
     ''  child initiate [NAME]        initiate and wait for a CHILD SA'' @ nl @
     ''  child terminate [NAME]       terminate a CHILD SA'' @ nl @
     ''  child rekey [NAME]           rekey a CHILD SA'' @ nl @
     ''  child wait [NAME]            wait for an installed CHILD SA'' @ nl @
     ''  peer register                responder registers with initiator'' @ nl @
     ''                               initiator listener starts automatically'' @ nl @
     ''  peer show                    show the in-memory peer table'' @ nl @
     ''  peer select PEER_ID          select a peer for control commands'' @ nl @
     ''  show [SCOPE]                 show a compact table (summary default)'' @ nl @
     ''  show {connections|ike|child} detail [NAME]'' @ nl @
     ''                               show every field, optionally by name'' @ nl @
     ''  show SCOPE [NAME]            filter a compact named-object table'' @ nl @
     ''  up                           convenience load and initiate'' @ nl @
     ''  down                         convenience terminate and unload'' @ nl @
     ''  test loop [--count N] [--delay-ms N] [--continue-on-error]'' @ nl @
     ''                               run explicit lifecycle verification'' @ nl @
     ''  test algorithm count MODE   show algorithm testcase count'' @ nl @
     ''  test algorithm check MODE   validate the generated catalog'' @ nl @
     ''  test algorithm serve [--port N]'' @ nl @
     ''                               serve Native peer test requests'' @ nl @
     ''  test algorithm run MODE [--start N] [--limit N|--all] [--port N]'' @ nl @
     ''      [--results FILE] [--delay-ms N] [--stop-on-error]'' @ nl @
     ''      [--ike PROPOSAL --esp PROPOSAL]'' @ nl @
     ''                               run baseline/exhaustive/custom tests'' @ nl @
     ''  help                         show this command list'' @ nl @
     ''  exit                         close only this client session'' @ nl @
     nl @
     ''Show scopes:'' @ nl @
     ''  summary, all, config, credential, daemon, connections, ike,'' @ nl @
     ''  child, algorithms,'' @ nl @
     ''  xfrm, xfrm-state, xfrm-policy, xfrm-stat, network,'' @ nl @
     ''  interfaces, addresses, routes'' @ nl @
     ''  NAME filtering is supported for connections, ike, and child.'' @ nl @
     nl @
     ''Algorithm modes:'' @ nl @
     ''  baseline, exhaustive-ike, exhaustive-esp, custom'' @ nl @
     nl @
     ''Configuration changes are rejected while this session owns a'' @ nl @
     ''connection. PSK contents are never displayed.'' @ nl"

definition PrintNativeAppHelp :: "NativeApp \<Rightarrow> NativeApp" where
  "PrintNativeAppHelp = app_printf help_text"

subsection \<open>Startup options\<close>

text \<open>\<open>startup_loop\<close> is the loop over the arguments after the program's name; \<open>st_Command\<close> are the
  arguments from \<open>iCommandIndex\<close> on.\<close>

fun startup_loop :: "string list \<Rightarrow> NativeAppStartupOptions \<Rightarrow> NativeAppStartupOptions option" where
  "startup_loop [] opts = Some opts"
| "startup_loop (a # rest) opts =
     (if strcmp_eq ''--config'' a then
        (case rest of [] \<Rightarrow> None | v # rest' \<Rightarrow> startup_loop rest' (opts\<lparr>st_pcConfigPath := Some v\<rparr>))
      else if strcmp_eq ''--app-config'' a then
        (case rest of [] \<Rightarrow> None | v # rest' \<Rightarrow> startup_loop rest' (opts\<lparr>st_pcApplicationConfigPath := Some v\<rparr>))
      else if strcmp_eq ''--management-config'' a then
        (case rest of [] \<Rightarrow> None | v # rest' \<Rightarrow> startup_loop rest' (opts\<lparr>st_pcManagementConfigPath := Some v\<rparr>))
      else if strcmp_eq ''--generate-psk'' a then
        (case rest of [] \<Rightarrow> None | v # rest' \<Rightarrow> startup_loop rest' (opts\<lparr>st_pcGeneratePskPath := Some v\<rparr>))
      else if strcmp_eq ''--verbose'' a then startup_loop rest (opts\<lparr>st_bVerbose := True\<rparr>)
      else if strcmp_eq ''--help'' a \<or> strcmp_eq ''-h'' a then startup_loop rest (opts\<lparr>st_bHelp := True\<rparr>)
      else Some (opts\<lparr>st_Command := a # rest\<rparr>))"

definition ParseNativeAppStartupOptions :: "string list \<Rightarrow> NativeAppStartupOptions option" where
  "ParseNativeAppStartupOptions ppcArguments =
     startup_loop (tl ppcArguments)
       \<lparr>st_pcConfigPath = None, st_pcApplicationConfigPath = None, st_pcManagementConfigPath = None,
        st_pcGeneratePskPath = None, st_Command = [], st_bVerbose = False, st_bHelp = False\<rparr>"

definition CopyNativeAppSessionText :: "cbuf \<Rightarrow> string option \<Rightarrow> cbuf \<times> bool" where
  "CopyNativeAppSessionText pcDestination pcSource =
     (case pcSource of
        None \<Rightarrow> (pcDestination, False)
      | Some pcText \<Rightarrow>
          let zLength = strnlen pcText (length pcDestination) in
          if length pcDestination = 0 \<or> length pcDestination \<le> zLength then (pcDestination, False)
          else (buf_write pcDestination 0 (take zLength pcText @ [NUL]), True))"

subsection \<open>The library context\<close>

text \<open>A context with its descriptors, in the world of another one.\<close>

definition set_context :: "Ipsec \<Rightarrow> Ipsec \<Rightarrow> Ipsec" where
  "set_context c w = w
     \<lparr>iViciSocket := iViciSocket c, acViciSocketPath := acViciSocketPath c,
      uiConnectTimeoutMs := uiConnectTimeoutMs c, uiCommandTimeoutMs := uiCommandTimeoutMs c,
      ullCommandDeadlineMs := ullCommandDeadlineMs c, bCommandMutexInitialized := bCommandMutexInitialized c,
      pLogCallback := pLogCallback c, os_open := os_open c, os_locked := os_locked c\<rparr>"

definition session_context :: "NativeAppSession \<Rightarrow> Ipsec" where
  "session_context s = ap_ipsec (ss_App s)"

definition on_world :: "(Ipsec \<Rightarrow> Ipsec) \<Rightarrow> NativeAppSession \<Rightarrow> NativeAppSession" where
  "on_world f s = s\<lparr>ss_App := (ss_App s)\<lparr>ap_ipsec := f (session_context s)\<rparr>\<rparr>"

definition context_config :: "NativeAppConfig \<Rightarrow> IpsecConfig" where
  "context_config c =
     \<lparr>ic_uiStructSize = sizeof_IpsecConfig,
      ic_pcViciSocketPath = (if nc_acViciSocket c ! 0 \<noteq> NUL then Some (nc_acViciSocket c) else None),
      ic_uiConnectTimeoutMs = nc_uiTimeoutMs c, ic_uiCommandTimeoutMs = nc_uiTimeoutMs c,
      ic_pLogCallback = True\<rparr>"

text \<open>The new context is the one in use afterwards; a failure leaves an empty one.\<close>

definition OpenNativeAppContext :: "NativeAppConfig \<Rightarrow> NativeAppSession \<Rightarrow> NativeAppSession outcome" where
  "OpenNativeAppContext c =
     on_context (\<lambda>w. let ((bOpened, w), eError) =
         InitializeIpsec True (Some (context_config c)) (w\<lparr>os_open := [], os_locked := False\<rparr>)
       in (w, eError))"

definition back_to :: "Ipsec \<Rightarrow> NativeAppSession \<Rightarrow> NativeAppSession" where
  "back_to old = on_world (\<lambda>w. (set_context old w)\<lparr>os_open := os_open old @ os_open w\<rparr>)"

text \<open>\<open>DeinitializeIpsec\<close> on a context that is not the one in use: what it leaves open stays open.\<close>

definition close_context :: "Ipsec \<Rightarrow> Ipsec \<Rightarrow> Ipsec" where
  "close_context old w =
     (let w' = DeinitializeIpsec True (set_context old w)
      in (set_context w w')\<lparr>os_open := os_open w @ os_open w', os_locked := os_locked w \<or> os_locked w'\<rparr>)"

definition ReconnectNativeAppContext :: "NativeAppConfig \<Rightarrow> NativeAppSession \<Rightarrow> NativeAppSession outcome" where
  "ReconnectNativeAppContext c s =
     (if ss_bConnectionLoaded s then (s, IPSEC_ERR_INVALID_ARGUMENT)
      else
        let old = session_context s; (s, eError) = OpenNativeAppContext c s
        in if eError = IPSEC_OK then (on_world (close_context old) s, IPSEC_OK)
           else (back_to old s, eError))"

subsection \<open>The runtime configuration\<close>

definition zero_connection :: IpsecConnectionConfig where
  "zero_connection =
     \<lparr>cc_uiStructSize = 0, cc_pcName = None, cc_pcChildName = None, cc_LocalAddresses = None,
      cc_RemoteAddresses = None, cc_eLocalAuth = IPSEC_AUTH_PSK, cc_eRemoteAuth = IPSEC_AUTH_PSK,
      cc_pcLocalId = None, cc_pcRemoteId = None, cc_IkeProposals = None, cc_EspProposals = None,
      cc_LocalTrafficSelectors = None, cc_RemoteTrafficSelectors = None,
      cc_eMode = IPSEC_MODE_TUNNEL, cc_eEsn = IPSEC_ESN_AUTO, cc_bEnablePfs = False,
      cc_bEnableMobike = False, cc_bEnableFragmentation = False, cc_bForceUdpEncapsulation = False,
      cc_bForceChildlessIke = False, cc_uiDpdDelayMs = 0, cc_uiDpdTimeoutMs = 0,
      cc_ullIkeRekeyTimeMs = 0, cc_ullIkeLifetimeMs = 0, cc_ullChildRekeyTimeMs = 0,
      cc_ullChildLifetimeMs = 0\<rparr>"

definition RebuildNativeAppRuntime :: "NativeAppSession \<Rightarrow> NativeAppSession outcome" where
  "RebuildNativeAppRuntime s =
     (let (acError, eError) = ValidateNativeAppConfig NATIVE_APP_ERROR_TEXT_LENGTH (ss_Config s) [];
          (Runtime, acError, eError) =
            (if eError = IPSEC_OK
             then BuildNativeAppRuntimeConfig NATIVE_APP_ERROR_TEXT_LENGTH (Some (ss_Config s)) acError
             else (None, acError, eError));
          s = s\<lparr>ss_bConfigValid := eError = IPSEC_OK\<rparr>
      in if eError \<noteq> IPSEC_OK
         then (session_eprintf (''configuration is incomplete: '' @ acError @ nl)
                 (s\<lparr>ss_Runtime := zero_connection\<rparr>), eError)
         else (case Runtime of Some Connection \<Rightarrow> s\<lparr>ss_Runtime := Connection\<rparr> | None \<Rightarrow> s, IPSEC_OK))"

definition RequireNativeAppConfig :: "NativeAppSession \<Rightarrow> NativeAppSession outcome" where
  "RequireNativeAppConfig s =
     (if ss_bConfigValid s then (s, IPSEC_OK) else RebuildNativeAppRuntime s)"

definition GetNativeAppRoleText :: "NativeAppRole \<Rightarrow> string" where
  "GetNativeAppRoleText eRole =
     (if eRole = NATIVE_APP_ROLE_RESPONDER then ''responder'' else ''initiator'')"

definition GetNativeAppModeText :: "IpsecMode option \<Rightarrow> string" where
  "GetNativeAppModeText eMode =
     (if eMode = Some IPSEC_MODE_TRANSPORT then ''transport'' else ''tunnel'')"

definition path_text :: "cbuf \<Rightarrow> string" where
  "path_text acPath = (if acPath ! 0 \<noteq> NUL then cstr acPath else ''<none>'')"

definition truth_text :: "bool \<Rightarrow> string" where
  "truth_text b = (if b then ''true'' else ''false'')"

definition ShowNativeAppConfig :: "NativeAppSession \<Rightarrow> NativeAppSession" where
  "ShowNativeAppConfig s = (let c = ss_Config s in session_printf
     (''[CONFIGURATION]'' @ nl @
     ''  Legacy Path      : '' @ path_text (ss_acConfigPath s) @ nl @
     ''  Application Path : '' @ path_text (ss_acApplicationConfigPath s) @ nl @
     ''  Management Path  : '' @ path_text (ss_acManagementConfigPath s) @ nl @
     ''  Valid            : '' @ yesno_text (ss_bConfigValid s) @ nl @
     ''  Role             : '' @ GetNativeAppRoleText (nc_eRole c) @ nl @
     ''  Local Address    : '' @ cstr (nc_acLocalAddress c) @ nl @
     ''  Remote Address   : '' @ cstr (nc_acRemoteAddress c) @ nl @
     ''  Local ID         : '' @ cstr (nc_acLocalId c) @ nl @
     ''  Remote ID        : '' @ cstr (nc_acRemoteId c) @ nl @
     ''  PSK File         : '' @ cstr (nc_acPskFile c) @ nl @
     ''  Output Root      : '' @ cstr (nc_acOutputRoot c) @ nl @
     ''  VICI URI         : unix://'' @ cstr (nc_acViciSocket c) @ nl @
     ''  Connection Name  : '' @ cstr (nc_acConnectionName c) @ nl @
     ''  CHILD Name       : '' @ cstr (nc_acChildName c) @ nl @
     ''  Credential ID    : '' @ cstr (nc_acCredentialId c) @ nl @
     ''  Peer Server      : '' @ cstr (nc_acPeerServerAddress c) @ '':'' @
     dec (nc_uiPeerPort c) @ nl @
     ''  IKE Proposals    : '' @ cstr (nc_acIkeProposals c) @ nl @
     ''  ESP Proposals    : '' @ cstr (nc_acEspProposals c) @ nl @
     ''  IPsec Mode       : '' @ GetNativeAppModeText (nc_eMode c) @ nl @
     ''  Childless IKE    : '' @ truth_text (nc_bChildlessIke c) @ nl @
     ''  Terminate On Exit: '' @ truth_text (nc_bTerminateOnExit c) @ nl @
     ''  Command Timeout  : '' @ dec (nc_uiTimeoutMs c) @ '' ms'' @ nl) s)"

definition ShowNativeAppCredential :: "NativeAppSession \<Rightarrow> NativeAppSession" where
  "ShowNativeAppCredential s = session_printf
     (''[CREDENTIAL]'' @ nl @
      ''  Session Loaded   : '' @ yesno_text (ss_bCredentialLoaded s) @ nl @
      ''  Secret Displayed : no'' @ nl) s"

subsection \<open>Peers\<close>

definition GetNativeAppPeerId :: "NativeAppPeer \<Rightarrow> cbuf" where
  "GetNativeAppPeerId p =
     (if nc_eRole (np_Config p) = NATIVE_APP_ROLE_RESPONDER then nc_acLocalId (np_Config p)
      else nc_acRemoteId (np_Config p))"

definition on_table :: "(NativeAppPeerTable \<Rightarrow> NativeAppPeerTable) \<Rightarrow> NativeAppSession \<Rightarrow> NativeAppSession" where
  "on_table f s = s\<lparr>ss_Peer := (ss_Peer s)\<lparr>pe_Table := f (pe_Table (ss_Peer s))\<rparr>\<rparr>"

abbreviation session_table :: "NativeAppSession \<Rightarrow> NativeAppPeerTable" where
  "session_table s \<equiv> pe_Table (ss_Peer s)"

definition SaveNativeAppSelectedPeer :: "NativeAppSession \<Rightarrow> NativeAppSession" where
  "SaveNativeAppSelectedPeer s = on_table (\<lambda>t.
     let t = LockNativeAppPeerTable t; i = pt_uiSelectedIndex t;
         t = (if i < pt_uiCount t
              then t\<lparr>pt_aPeers := (pt_aPeers t)[i := (pt_aPeers t ! i)
                       \<lparr>np_Config := ss_Config s, np_bConnectionLoaded := ss_bConnectionLoaded s,
                        np_bCredentialLoaded := ss_bCredentialLoaded s\<rparr>]\<rparr>
              else t)
     in UnlockNativeAppPeerTable t) s"

text \<open>A pointer to a peer is its index in the table, or a pointer to something else.\<close>

definition SelectNativeAppPeer :: "nat option \<Rightarrow> NativeAppSession \<Rightarrow> NativeAppSession outcome" where
  "SelectNativeAppPeer pPeer s =
     (case pPeer of
        None \<Rightarrow> (s, IPSEC_ERR_INVALID_ARGUMENT)
      | Some uiIndex \<Rightarrow>
          let s = on_table LockNativeAppPeerTable (SaveNativeAppSelectedPeer s) in
          if \<not> uiIndex < pt_uiCount (session_table s)
          then (on_table UnlockNativeAppPeerTable s, IPSEC_ERR_INVALID_ARGUMENT)
          else
            let p = pt_aPeers (session_table s) ! uiIndex;
                s = (on_table (\<lambda>t. t\<lparr>pt_uiSelectedIndex := uiIndex\<rparr>) s)
                  \<lparr>ss_Config := np_Config p, ss_bConnectionLoaded := np_bConnectionLoaded p,
                   ss_bCredentialLoaded := np_bCredentialLoaded p\<rparr>
            in RebuildNativeAppRuntime ((on_table UnlockNativeAppPeerTable s)\<lparr>ss_bConfigValid := False\<rparr>))"

definition peers_table :: "nat \<Rightarrow> string" where
  "peers_table uiCount =
     ''[PEERS]'' @ nl @
     ''  Count: '' @ dec uiCount @ nl @
     nl @
     ''  Sel  Peer ID                    Group       Logon       Remote Address                           Connection'' @
     nl @
     ''  ---  -------------------------  ----------  ----------  ---------------------------------------  -------------------------------'' @
     nl"

definition peer_row :: "nat \<Rightarrow> nat \<Rightarrow> NativeAppPeer \<Rightarrow> string" where
  "peer_row uiSelectedIndex k p =
     ''  '' @ pad_right 3 (if k = uiSelectedIndex then ''*'' else []) @ ''  '' @
     pad_right 25 (take 25 (cstr (peer_id_of p))) @ ''  '' @
     pad_right 10 (dec (np_uiGroupId p)) @ ''  '' @ pad_right 10 (dec (np_uiLogonId p)) @
     ''  '' @ pad_right 39 (take 39 (cstr (nc_acRemoteAddress (np_Config p)))) @ ''  '' @
     pad_right 31 (take 31 (cstr (nc_acConnectionName (np_Config p)))) @ nl"

definition ShowNativeAppPeers :: "NativeAppSession \<Rightarrow> NativeAppSession" where
  "ShowNativeAppPeers s =
     (let s = on_table LockNativeAppPeerTable s; t = session_table s;
          s = session_printf (peers_table (pt_uiCount t) @
                concat (map (\<lambda>k. peer_row (pt_uiSelectedIndex t) k (pt_aPeers t ! k)) [0..<pt_uiCount t]) @
                (if pt_uiCount t = 0 then ''  No registered peers.'' @ nl else [])) s
      in on_table UnlockNativeAppPeerTable s)"

text \<open>The callback of the listener thread.\<close>

definition HandleNativeAppPeerListenerEvent ::
  "IpsecError \<Rightarrow> nat option \<Rightarrow> string \<Rightarrow> NativeAppSession \<Rightarrow> NativeAppSession" where
  "HandleNativeAppPeerListenerEvent eError pPeer pcError s =
     (let bRestorePrompt = ss_bPromptVisible s;
          s = (if bRestorePrompt then session_printf nl s else s);
          failed = session_eprintf (''peer listener error: '' @
            (if pcError \<noteq> [] then pcError else GetIpsecErrorString eError) @ '' ('' @
            GetIpsecErrorString eError @ '')'' @ nl);
          s = (case pPeer of
                 Some i \<Rightarrow>
                   if eError = IPSEC_OK
                   then let p = pt_aPeers (session_table s) ! i in session_printf
                     (''peer registered: '' @ cstr (GetNativeAppPeerId p) @ '' group_id='' @
                      dec (np_uiGroupId p) @ '' logon_id='' @ dec (np_uiLogonId p) @ '' remote='' @
                      cstr (nc_acRemoteAddress (np_Config p)) @ nl) s
                   else failed s
               | None \<Rightarrow> failed s)
      in if bRestorePrompt then PrintNativeAppPrompt s else s)"

definition ExecuteNativeAppPeerCommand :: "string list \<Rightarrow> NativeAppSession \<Rightarrow> NativeAppSession outcome" where
  "ExecuteNativeAppPeerCommand args s =
     (let uiArgumentCount = length args;
          finish = (\<lambda>pPeer acError r.
            let (s, eError) = r in
            if eError = IPSEC_OK
            then (case pPeer of
                    Some i \<Rightarrow> let p = pt_aPeers (session_table s) ! i in session_printf
                      (''peer selected: '' @ cstr (GetNativeAppPeerId p) @ '' group_id='' @
                       dec (np_uiGroupId p) @ '' logon_id='' @ dec (np_uiLogonId p) @ nl) s
                  | None \<Rightarrow> s, IPSEC_OK)
            else if acError \<noteq> [] then (session_eprintf (''peer operation failed: '' @ acError @ nl) s, eError)
            else (s, eError))
      in if uiArgumentCount = 2 \<and> strcmp_eq ''show'' (args ! 1)
         then (ShowNativeAppPeers (SaveNativeAppSelectedPeer s), IPSEC_OK)
         else if uiArgumentCount = 3 \<and> strcmp_eq ''select'' (args ! 1)
         then
           let (t, pPeer) = FindNativeAppPeer (Some (session_table s)) (Some (args ! 2));
               s = on_table (\<lambda>t'. case t of Some t \<Rightarrow> t | None \<Rightarrow> t') s
           in if pPeer = None then (s, IPSEC_ERR_CONNECTION_NOT_FOUND)
              else finish pPeer [] (SelectNativeAppPeer pPeer s)
         else if uiArgumentCount = 2 \<and> strcmp_eq ''register'' (args ! 1)
         then
           if nc_eRole (ss_BaseConfig s) \<noteq> NATIVE_APP_ROLE_RESPONDER then (s, IPSEC_ERR_NOT_SUPPORTED)
           else
             let s = session_printf (''registering with initiator '' @
                   cstr (nc_acPeerServerAddress (ss_BaseConfig s)) @ '':'' @
                   dec (nc_uiPeerPort (ss_BaseConfig s)) @ ''...'' @ nl) s;
                 ((pPeer, w), eError) = RegisterNativeAppPeer True (ss_BaseConfig s)
                   NATIVE_APP_ERROR_TEXT_LENGTH ((ss_Peer s)\<lparr>pe_pcError := []\<rparr>);
                 s = s\<lparr>ss_Peer := w\<rparr>
             in finish pPeer (pe_pcError w)
                  (if eError = IPSEC_OK then SelectNativeAppPeer pPeer s else (s, eError))
         else (s, IPSEC_ERR_INVALID_ARGUMENT))"


subsection \<open>Configuration\<close>

definition LoadNativeAppSessionConfig :: "string \<Rightarrow> NativeAppSession \<Rightarrow> NativeAppSession outcome" where
  "LoadNativeAppSessionConfig pcPath s =
     (if ss_bConnectionLoaded s
      then (session_eprintf (''unload the session connection first'' @ nl) s, IPSEC_ERR_INVALID_ARGUMENT)
      else
        let ((Config, acError), eError) = LoadNativeAppConfig (Some pcPath) (ap_files (ss_App s) (cstr pcPath))
              NATIVE_APP_ERROR_TEXT_LENGTH (zero_config, []);
            (Runtime, acError, eError) =
              (if eError = IPSEC_OK
               then BuildNativeAppRuntimeConfig NATIVE_APP_ERROR_TEXT_LENGTH (Some Config) acError
               else (None, acError, eError))
        in if eError \<noteq> IPSEC_OK
           then (session_eprintf (''configuration load failed: '' @ acError @ nl) s, eError)
           else
             let bSocketChanged = (\<not> strcmp_eq (nc_acViciSocket Config) (nc_acViciSocket (ss_Config s)));
                 old = session_context s;
                 (s, eError) = (if bSocketChanged then OpenNativeAppContext Config s else (s, IPSEC_OK));
                 (acPath, bCopied) = CopyNativeAppSessionText (ss_acConfigPath s) (Some pcPath);
                 (s, eError) =
                   (if eError \<noteq> IPSEC_OK then (back_to old s, eError)
                    else if \<not> bCopied
                    then (if bSocketChanged then back_to old (on_world (DeinitializeIpsec True) s) else s,
                          IPSEC_ERR_BUFFER_TOO_SMALL)
                    else
                      RebuildNativeAppRuntime
                        ((if bSocketChanged then on_world (close_context old) s else s)
                         \<lparr>ss_acConfigPath := acPath, ss_Config := Config, ss_BaseConfig := Config,
                          ss_acApplicationConfigPath := (ss_acApplicationConfigPath s)[0 := NUL],
                          ss_acManagementConfigPath := (ss_acManagementConfigPath s)[0 := NUL],
                          ss_bCredentialLoaded := False, ss_bConfigValid := False\<rparr>))
             in if eError = IPSEC_OK
                then (session_printf (''configuration loaded: '' @ cstr pcPath @ nl) s, IPSEC_OK)
                else (s, eError))"

definition SetNativeAppSessionConfig :: "string \<Rightarrow> string \<Rightarrow> NativeAppSession \<Rightarrow> NativeAppSession outcome" where
  "SetNativeAppSessionConfig pcKey pcValue s =
     (if ss_bConnectionLoaded s
      then (session_eprintf (''unload the session connection first'' @ nl) s, IPSEC_ERR_INVALID_ARGUMENT)
      else
        let (Config, eError) = SetNativeAppConfigSetting pcKey pcValue (ss_Config s);
            (s, eError) =
              (if eError = IPSEC_OK \<and> \<not> strcmp_eq (nc_acViciSocket Config) (nc_acViciSocket (ss_Config s))
               then ReconnectNativeAppContext Config s else (s, eError))
        in if eError \<noteq> IPSEC_OK then (s, eError)
           else
             let bBaseConfig = (pt_uiCount (session_table s) \<le> pt_uiSelectedIndex (session_table s));
                 s = on_table (\<lambda>t. UnlockNativeAppPeerTable (LockNativeAppPeerTable t)) s;
                 s = s\<lparr>ss_Config := Config,
                       ss_BaseConfig := (if bBaseConfig then Config else ss_BaseConfig s),
                       ss_acConfigPath := (ss_acConfigPath s)[0 := NUL],
                       ss_bCredentialLoaded := False, ss_bConfigValid := False\<rparr>;
                 (s, _) = RebuildNativeAppRuntime s
             in (session_printf (''configuration updated: '' @ cstr pcKey @ nl) s, IPSEC_OK))"

definition ExecuteNativeAppConfigCommand :: "string list \<Rightarrow> NativeAppSession \<Rightarrow> NativeAppSession outcome" where
  "ExecuteNativeAppConfigCommand args s =
     (let uiArgumentCount = length args in
      if uiArgumentCount = 3 \<and> strcmp_eq ''load'' (args ! 1) then LoadNativeAppSessionConfig (args ! 2) s
      else if uiArgumentCount = 4 \<and> strcmp_eq ''set'' (args ! 1)
      then SetNativeAppSessionConfig (args ! 2) (args ! 3) s
      else if uiArgumentCount = 2 \<and> strcmp_eq ''show'' (args ! 1) then (ShowNativeAppConfig s, IPSEC_OK)
      else if uiArgumentCount = 2 \<and> strcmp_eq ''validate'' (args ! 1)
      then let (s, eError) = RebuildNativeAppRuntime s
           in (if eError = IPSEC_OK then session_printf (''configuration is valid'' @ nl) s else s, eError)
      else (s, IPSEC_ERR_INVALID_ARGUMENT))"

subsection \<open>Connections and credentials\<close>

definition GetNativeAppControlOptions :: "NativeAppSession \<Rightarrow> IpsecControlOptions" where
  "GetNativeAppControlOptions s =
     \<lparr>co_uiStructSize = sizeof_IpsecControlOptions, co_eMode = IPSEC_CONTROL_WAIT,
      co_uiTimeoutMs = nc_uiTimeoutMs (ss_Config s)\<rparr>"

definition ExecuteNativeAppConnectionCommand ::
  "(nat \<Rightarrow> bool) \<Rightarrow> string list \<Rightarrow> NativeAppSession \<Rightarrow> NativeAppSession outcome" where
  "ExecuteNativeAppConnectionCommand mem args s =
     (let uiArgumentCount = length args in
      if uiArgumentCount = 2 \<and> strcmp_eq ''load'' (args ! 1)
      then
        let (s, eError) = and_then (RequireNativeAppConfig s)
              (\<lambda>s. on_context (AddIpsecConnection (Some (ss_Runtime s))) s)
        in if eError = IPSEC_OK
           then (session_printf (''connection loaded: '' @ cstr (nc_acConnectionName (ss_Config s)) @ nl)
                   (s\<lparr>ss_bConnectionLoaded := True\<rparr>), IPSEC_OK)
           else (s, eError)
      else if (uiArgumentCount = 2 \<or> uiArgumentCount = 3) \<and> strcmp_eq ''unload'' (args ! 1)
      then
        let (s, eError) = (if uiArgumentCount = 3 then (s, IPSEC_OK) else RequireNativeAppConfig s);
            pcName = (if uiArgumentCount = 3 then args ! 2 else nc_acConnectionName (ss_Config s));
            (s, eError) = and_then (s, eError) (on_context (RemoveIpsecConnection (Some pcName)))
        in if eError = IPSEC_OK
           then (session_printf (''connection unloaded: '' @ cstr pcName @ nl)
                   (if strcmp_eq pcName (nc_acConnectionName (ss_Config s))
                    then s\<lparr>ss_bConnectionLoaded := False\<rparr> else s), IPSEC_OK)
           else (s, eError)
      else if uiArgumentCount = 2 \<and> strcmp_eq ''show'' (args ! 1)
      then on_app (ShowNativeAppInformation mem (Some ''connections'') False None) s
      else (s, IPSEC_ERR_INVALID_ARGUMENT))"

text \<open>Clearing the credentials of the daemon is noted for every peer.\<close>

definition clear_peers :: "NativeAppPeerTable \<Rightarrow> NativeAppPeerTable" where
  "clear_peers t =
     (let t = LockNativeAppPeerTable t
      in UnlockNativeAppPeerTable (t\<lparr>pt_aPeers :=
           map (\<lambda>p. p\<lparr>np_bCredentialLoaded := False\<rparr>) (take (pt_uiCount t) (pt_aPeers t)) @
           drop (pt_uiCount t) (pt_aPeers t)\<rparr>))"

definition ExecuteNativeAppCredentialCommand ::
  "(nat \<Rightarrow> bool) \<Rightarrow> string list \<Rightarrow> NativeAppSession \<Rightarrow> NativeAppSession outcome" where
  "ExecuteNativeAppCredentialCommand mem args s =
     (let uiArgumentCount = length args in
      if uiArgumentCount = 2 \<and> strcmp_eq ''load'' (args ! 1)
      then
        let (s, eError) = and_then (RequireNativeAppConfig s)
              (\<lambda>s. on_app (LoadNativeAppCredential mem (ss_Config s)) s)
        in if eError = IPSEC_OK
           then (session_printf (''credential loaded for connection: '' @
                     cstr (nc_acConnectionName (ss_Config s)) @ nl)
                   (s\<lparr>ss_bCredentialLoaded := True\<rparr>), IPSEC_OK)
           else (s, eError)
      else if uiArgumentCount = 2 \<and> strcmp_eq ''clear'' (args ! 1)
      then
        let (s, eError) = on_context ClearIpsecCredentials s
        in if eError = IPSEC_OK
           then (session_printf (''all VICI credentials cleared'' @ nl)
                   (on_table clear_peers (s\<lparr>ss_bCredentialLoaded := False\<rparr>)), IPSEC_OK)
           else (s, eError)
      else if uiArgumentCount = 2 \<and> strcmp_eq ''show'' (args ! 1)
      then (ShowNativeAppCredential s, IPSEC_OK)
      else (s, IPSEC_ERR_INVALID_ARGUMENT))"

subsection \<open>Control of IKE and CHILD SAs\<close>

definition completed_text :: "string \<Rightarrow> string list \<Rightarrow> string \<Rightarrow> string" where
  "completed_text what args pcName =
     what @ '' '' @ cstr (args ! 1) @ '' completed: '' @ cstr pcName @ nl"

definition ExecuteNativeAppIkeCommand ::
  "(nat \<Rightarrow> bool) \<Rightarrow> string list \<Rightarrow> NativeAppSession \<Rightarrow> NativeAppSession outcome" where
  "ExecuteNativeAppIkeCommand mem args s =
     (let Control = Some (GetNativeAppControlOptions s); uiArgumentCount = length args in
      if uiArgumentCount \<noteq> 2 \<and> uiArgumentCount \<noteq> 3 then (s, IPSEC_ERR_INVALID_ARGUMENT)
      else
        let (s, eError) = (if uiArgumentCount = 3 then (s, IPSEC_OK) else RequireNativeAppConfig s);
            pcName = (if uiArgumentCount = 3 then args ! 2 else nc_acConnectionName (ss_Config s));
            wait = on_context (WaitIpsecIkeEstablished mem (Some pcName) (nc_uiTimeoutMs (ss_Config s)))
        in if eError \<noteq> IPSEC_OK then (s, eError)
           else
             let (s, eError) =
                   (if strcmp_eq ''initiate'' (args ! 1)
                    then and_then (on_context (InitiateIpsecIke (Some pcName) Control) s) wait
                    else if strcmp_eq ''terminate'' (args ! 1)
                    then on_context (TerminateIpsecIke (Some pcName) Control) s
                    else if strcmp_eq ''rekey'' (args ! 1) then on_context (RekeyIpsecIke (Some pcName)) s
                    else if strcmp_eq ''wait'' (args ! 1) then wait s
                    else (s, IPSEC_ERR_INVALID_ARGUMENT))
             in (if eError = IPSEC_OK then session_printf (completed_text ''ike'' args pcName) s else s,
                 eError))"

definition ExecuteNativeAppChildCommand ::
  "(nat \<Rightarrow> bool) \<Rightarrow> string list \<Rightarrow> NativeAppSession \<Rightarrow> NativeAppSession outcome" where
  "ExecuteNativeAppChildCommand mem args s =
     (let Control = Some (GetNativeAppControlOptions s); uiArgumentCount = length args in
      if uiArgumentCount \<noteq> 2 \<and> uiArgumentCount \<noteq> 3 then (s, IPSEC_ERR_INVALID_ARGUMENT)
      else
        let (s, eError) = (if uiArgumentCount = 3 then (s, IPSEC_OK) else RequireNativeAppConfig s);
            pcName = (if uiArgumentCount = 3 then args ! 2 else nc_acChildName (ss_Config s));
            wait = on_context (WaitIpsecChildInstalled mem (Some pcName) (nc_uiTimeoutMs (ss_Config s)))
        in if eError \<noteq> IPSEC_OK then (s, eError)
           else
             let (s, eError) =
                   (if strcmp_eq ''initiate'' (args ! 1)
                    then and_then (on_context (InitiateIpsecChild (Some pcName) Control) s) wait
                    else if strcmp_eq ''terminate'' (args ! 1)
                    then on_context (TerminateIpsecChild (Some pcName) Control) s
                    else if strcmp_eq ''rekey'' (args ! 1) then on_context (RekeyIpsecChild (Some pcName)) s
                    else if strcmp_eq ''wait'' (args ! 1) then wait s
                    else (s, IPSEC_ERR_INVALID_ARGUMENT))
             in (if eError = IPSEC_OK then session_printf (completed_text ''child'' args pcName) s else s,
                 eError))"

subsection \<open>Convenience commands\<close>

definition ExecuteNativeAppUp :: "(nat \<Rightarrow> bool) \<Rightarrow> NativeAppSession \<Rightarrow> NativeAppSession outcome" where
  "ExecuteNativeAppUp mem s =
     (let (s, eError) = RequireNativeAppConfig s;
          ((s, bConnectionAdded), eError) =
            (if eError = IPSEC_OK \<and> \<not> ss_bConnectionLoaded s
             then let (s, eError) = on_context (AddIpsecConnection (Some (ss_Runtime s))) s
                  in if eError = IPSEC_OK then ((s\<lparr>ss_bConnectionLoaded := True\<rparr>, True), IPSEC_OK)
                     else ((s, False), eError)
             else ((s, False), eError));
          (s, eError) =
            (if eError = IPSEC_OK \<and> \<not> ss_bCredentialLoaded s
             then let (s, eError) = on_app (LoadNativeAppCredential mem (ss_Config s)) s
                  in if eError = IPSEC_OK then (s\<lparr>ss_bCredentialLoaded := True\<rparr>, IPSEC_OK) else (s, eError)
             else (s, eError));
          (s, eError) = and_then (s, eError) (\<lambda>s. on_app (StartNativeAppConnection mem (ss_Config s)) s);
          s = (if eError \<noteq> IPSEC_OK \<and> bConnectionAdded
               then let (s, eRemove) = on_context
                          (RemoveIpsecConnection (Some (nc_acConnectionName (ss_Config s)))) s
                    in if eRemove = IPSEC_OK then s\<lparr>ss_bConnectionLoaded := False\<rparr> else s
               else s)
      in (if eError = IPSEC_OK
          then session_printf (''up completed: '' @ cstr (nc_acConnectionName (ss_Config s)) @ ''/'' @
                 cstr (nc_acChildName (ss_Config s)) @ nl) s
          else s, eError))"

definition ExecuteNativeAppDown :: "NativeAppSession \<Rightarrow> NativeAppSession outcome" where
  "ExecuteNativeAppDown s =
     (let Control = Some (GetNativeAppControlOptions s);
          (s, eFirstError) = and_then (RequireNativeAppConfig s)
            (\<lambda>s. on_context (TerminateIpsecIke (Some (nc_acConnectionName (ss_Config s))) Control) s);
          (s, eFirstError) =
            (if ss_bConnectionLoaded s
             then let (s, eError) = on_context
                        (RemoveIpsecConnection (Some (nc_acConnectionName (ss_Config s)))) s
                  in if eError = IPSEC_OK then (s\<lparr>ss_bConnectionLoaded := False\<rparr>, eFirstError)
                     else (s, keep_first eFirstError eError)
             else (s, eFirstError))
      in (if eFirstError = IPSEC_OK
          then session_printf (''down completed; credentials were retained'' @ nl) s else s, eFirstError))"

definition ExecuteNativeAppLegacyLoad :: "(nat \<Rightarrow> bool) \<Rightarrow> NativeAppSession \<Rightarrow> NativeAppSession outcome" where
  "ExecuteNativeAppLegacyLoad mem s =
     (if ss_bConnectionLoaded s \<or> ss_bCredentialLoaded s then (s, IPSEC_ERR_INVALID_ARGUMENT)
      else
        let (s, eError) = and_then (RequireNativeAppConfig s)
              (\<lambda>s. on_app (LoadNativeAppResources mem (ss_Config s) (ss_Runtime s)) s)
        in if eError = IPSEC_OK
           then (session_printf (''connection and credential loaded'' @ nl)
                   (s\<lparr>ss_bConnectionLoaded := True, ss_bCredentialLoaded := True\<rparr>), IPSEC_OK)
           else (s, eError))"

subsection \<open>Tests\<close>

text \<open>A flag with a number after it that satisfies its condition.\<close>

definition number_arg :: "string \<Rightarrow> (nat \<Rightarrow> bool) \<Rightarrow> string \<Rightarrow> string list \<Rightarrow> nat option" where
  "number_arg flag ok a rest =
     (if strcmp_eq flag a \<and> rest \<noteq> []
      then (case ParseNativeAppNumber (Some (hd rest)) of
              Some n \<Rightarrow> if ok n then Some n else None
            | None \<Rightarrow> None)
      else None)"

function loop_options :: "string list \<Rightarrow> NativeAppLoopOptions \<Rightarrow> NativeAppLoopOptions option" where
  "loop_options [] opts = Some opts"
| "loop_options (a # rest) opts =
     (case number_arg ''--count'' (\<lambda>n. 0 < n) a rest of
        Some n \<Rightarrow> loop_options (tl rest) (opts\<lparr>lo_uiCount := n\<rparr>)
      | None \<Rightarrow>
          case number_arg ''--delay-ms'' (\<lambda>_. True) a rest of
            Some n \<Rightarrow> loop_options (tl rest) (opts\<lparr>lo_uiDelayMs := n\<rparr>)
          | None \<Rightarrow>
              if strcmp_eq ''--continue-on-error'' a then loop_options rest (opts\<lparr>lo_bContinueOnError := True\<rparr>)
              else if strcmp_eq ''--clear-credentials'' a then loop_options rest (opts\<lparr>lo_bClearCredentials := True\<rparr>)
              else None)"
  by pat_completeness auto
termination by (relation "measure (\<lambda>(args, _). length args)") auto

definition ParseNativeAppLoopOptions :: "string list \<Rightarrow> nat \<Rightarrow> NativeAppLoopOptions option" where
  "ParseNativeAppLoopOptions args uiStartIndex =
     loop_options (drop uiStartIndex args)
       \<lparr>lo_uiCount = 10, lo_uiDelayMs = 1000, lo_bContinueOnError = False, lo_bClearCredentials = False\<rparr>"

definition ExecuteNativeAppLoopCommand ::
  "(nat \<Rightarrow> bool) \<Rightarrow> string list \<Rightarrow> nat \<Rightarrow> NativeAppSession \<Rightarrow> NativeAppSession outcome option" where
  "ExecuteNativeAppLoopCommand mem args uiStartIndex s =
     (if ss_bConnectionLoaded s
      then Some (session_eprintf (''unload the session connection before a loop test'' @ nl) s,
                 IPSEC_ERR_INVALID_ARGUMENT)
      else
        let (s, eError) = RequireNativeAppConfig s in
        if eError \<noteq> IPSEC_OK then Some (s, eError)
        else
          case ParseNativeAppLoopOptions args uiStartIndex of
            None \<Rightarrow> Some (s, IPSEC_ERR_INVALID_ARGUMENT)
          | Some Options \<Rightarrow>
              map_option (\<lambda>(a, eError).
                ((deliver_log (seen_log s) (s\<lparr>ss_App := ResetNativeAppStopRequest a\<rparr>))
                   \<lparr>ss_bConnectionLoaded := False, ss_bCredentialLoaded := \<not> lo_bClearCredentials Options\<rparr>,
                 eError))
                (RunNativeAppLoop mem (ss_Config s) (ss_Runtime s) Options (ResetNativeAppStopRequest (ss_App s))))"

text \<open>A text after a flag.\<close>

definition text_arg :: "string \<Rightarrow> string \<Rightarrow> string list \<Rightarrow> bool" where
  "text_arg flag a rest \<longleftrightarrow> strcmp_eq flag a \<and> rest \<noteq> []"

function run_options :: "string list \<Rightarrow> NativeAppAlgorithmOptions \<Rightarrow> NativeAppAlgorithmOptions option" where
  "run_options [] opts = Some opts"
| "run_options (a # rest) opts =
     (case number_arg ''--start'' (\<lambda>n. 0 < n) a rest of
        Some n \<Rightarrow> run_options (tl rest) (opts\<lparr>ao_uiStart := n\<rparr>)
      | None \<Rightarrow>
      case number_arg ''--limit'' (\<lambda>n. 0 < n) a rest of
        Some n \<Rightarrow> run_options (tl rest) (opts\<lparr>ao_uiLimit := n\<rparr>)
      | None \<Rightarrow>
      if strcmp_eq ''--all'' a then run_options rest (opts\<lparr>ao_uiLimit := 0\<rparr>)
      else
      case number_arg ''--port'' (\<lambda>n. 0 < n \<and> n \<le> UINT16_MAX) a rest of
        Some n \<Rightarrow> run_options (tl rest) (opts\<lparr>ao_uiPort := n\<rparr>)
      | None \<Rightarrow>
      case number_arg ''--delay-ms'' (\<lambda>_. True) a rest of
        Some n \<Rightarrow> run_options (tl rest) (opts\<lparr>ao_uiDelayMs := n\<rparr>)
      | None \<Rightarrow>
      if text_arg ''--results'' a rest then run_options (tl rest) (opts\<lparr>ao_pcResultsPath := Some (hd rest)\<rparr>)
      else if text_arg ''--ike'' a rest then run_options (tl rest) (opts\<lparr>ao_pcCustomIke := Some (hd rest)\<rparr>)
      else if text_arg ''--esp'' a rest then run_options (tl rest) (opts\<lparr>ao_pcCustomEsp := Some (hd rest)\<rparr>)
      else if strcmp_eq ''--continue-on-error'' a then run_options rest (opts\<lparr>ao_bContinueOnError := True\<rparr>)
      else if strcmp_eq ''--stop-on-error'' a then run_options rest (opts\<lparr>ao_bContinueOnError := False\<rparr>)
      else None)"
  by pat_completeness auto
termination by (relation "measure (\<lambda>(args, _). length args)") auto

definition ParseNativeAppAlgorithmRunOptions :: "string list \<Rightarrow> NativeAppAlgorithmOptions option" where
  "ParseNativeAppAlgorithmRunOptions args =
     (if length args < 4 then None
      else
        case ParseNativeAppAlgorithmMode (Some (args ! 3)) of
          None \<Rightarrow> None
        | Some eMode \<Rightarrow>
            let uiLimit = (if eMode = NATIVE_APP_ALGORITHM_BASELINE then GetNativeAppAlgorithmCaseCount eMode
                           else NATIVE_APP_ALGORITHM_DEFAULT_LIMIT);
                uiLimit = (if eMode = NATIVE_APP_ALGORITHM_CUSTOM then 1 else uiLimit)
            in case run_options (drop 4 args)
                 \<lparr>ao_eMode = eMode, ao_uiStart = 1, ao_uiLimit = uiLimit,
                  ao_uiPort = NATIVE_APP_ALGORITHM_DEFAULT_PORT, ao_uiDelayMs = 500,
                  ao_pcResultsPath = None, ao_pcCustomIke = None, ao_pcCustomEsp = None,
                  ao_bContinueOnError = True\<rparr> of
                 None \<Rightarrow> None
               | Some opts \<Rightarrow>
                   if eMode = NATIVE_APP_ALGORITHM_CUSTOM \<and> (ao_pcCustomIke opts = None \<or> ao_pcCustomEsp opts = None)
                   then None
                   else if eMode \<noteq> NATIVE_APP_ALGORITHM_CUSTOM \<and>
                     (ao_pcCustomIke opts \<noteq> None \<or> ao_pcCustomEsp opts \<noteq> None)
                   then None
                   else Some opts)"

text \<open>The first case that cannot be built ends the check.\<close>

definition CheckNativeAppAlgorithmCatalog ::
  "NativeAppConfig \<Rightarrow> NativeAppAlgorithmMode \<Rightarrow> NativeAppSession \<Rightarrow> NativeAppSession outcome" where
  "CheckNativeAppAlgorithmCatalog c eMode s =
     (let uiCount = GetNativeAppAlgorithmCaseCount eMode;
          custom = (\<lambda>t. if eMode = NATIVE_APP_ALGORITHM_CUSTOM then Some t else None);
          error_at = (\<lambda>uiIndex. snd (GetNativeAppAlgorithmCase eMode uiIndex (Some c)
            (custom (nc_acIkeProposals c)) (custom (nc_acEspProposals c)) zero_case))
      in case List.find (\<lambda>uiIndex. error_at uiIndex \<noteq> IPSEC_OK) [0..<uiCount] of
           Some uiIndex \<Rightarrow> (s, error_at uiIndex)
         | None \<Rightarrow> (session_printf (''algorithm catalog valid: mode='' @ GetNativeAppAlgorithmModeName eMode @
                      '' cases='' @ dec uiCount @ nl) s, IPSEC_OK))"

text \<open>A long-running command: the stop flag is reset before and after it.\<close>

definition run_algorithm ::
  "(AlgorithmWorld \<Rightarrow> AlgorithmWorld outcome option) \<Rightarrow> NativeAppSession \<Rightarrow> NativeAppSession outcome option" where
  "run_algorithm f s =
     map_option (\<lambda>(g, eError).
       ((deliver_log (seen_log s) (s\<lparr>ss_App := ResetNativeAppStopRequest (ag_App g), ss_Sweep := g\<rparr>))
          \<lparr>ss_bCredentialLoaded := True\<rparr>, eError))
       (f ((ss_Sweep s)\<lparr>ag_App := ResetNativeAppStopRequest (ss_App s)\<rparr>))"

definition ExecuteNativeAppAlgorithmCommand ::
  "(nat \<Rightarrow> bool) \<Rightarrow> string list \<Rightarrow> NativeAppSession \<Rightarrow> NativeAppSession outcome option" where
  "ExecuteNativeAppAlgorithmCommand mem args s =
     (let uiArgumentCount = length args;
          mode = (if uiArgumentCount = 4 then ParseNativeAppAlgorithmMode (Some (args ! 3)) else None) in
      if strcmp_eq ''count'' (args ! 2) \<and> mode \<noteq> None
      then
        Some (case mode of
          Some eMode \<Rightarrow> (session_printf (''algorithm cases: mode='' @ GetNativeAppAlgorithmModeName eMode @
              '' count='' @ dec (GetNativeAppAlgorithmCaseCount eMode) @ nl) s, IPSEC_OK)
        | None \<Rightarrow> (s, IPSEC_OK))
      else if strcmp_eq ''check'' (args ! 2) \<and> mode \<noteq> None
      then
        Some (case mode of
          Some eMode \<Rightarrow> and_then (RequireNativeAppConfig s)
            (\<lambda>s. CheckNativeAppAlgorithmCatalog (ss_Config s) eMode s)
        | None \<Rightarrow> (s, IPSEC_OK))
      else if 3 \<le> uiArgumentCount \<and> strcmp_eq ''serve'' (args ! 2)
      then
        let port = (if uiArgumentCount = 5
                    then number_arg ''--port'' (\<lambda>n. 0 < n \<and> n \<le> UINT16_MAX) (args ! 3) [args ! 4] else None);
            eError = (if port \<noteq> None \<or> uiArgumentCount = 3 then IPSEC_OK else IPSEC_ERR_INVALID_ARGUMENT);
            uiPort = (case port of Some n \<Rightarrow> n | None \<Rightarrow> NATIVE_APP_ALGORITHM_DEFAULT_PORT)
        in if eError \<noteq> IPSEC_OK then Some (s, eError)
           else if ss_bConnectionLoaded s
           then Some (session_eprintf (''unload the session connection before serving tests'' @ nl) s,
                      IPSEC_ERR_INVALID_ARGUMENT)
           else
             let (s, eError) = RequireNativeAppConfig s in
             if eError \<noteq> IPSEC_OK then Some (s, eError)
             else run_algorithm (RunNativeAppAlgorithmServer mem (ss_Config s) uiPort) s
      else if 4 \<le> uiArgumentCount \<and> strcmp_eq ''run'' (args ! 2)
      then
        if ss_bConnectionLoaded s
        then Some (session_eprintf (''unload the session connection before algorithm tests'' @ nl) s,
                   IPSEC_ERR_INVALID_ARGUMENT)
        else
          let (s, eError) = RequireNativeAppConfig s in
          if eError \<noteq> IPSEC_OK then Some (s, eError)
          else
            case ParseNativeAppAlgorithmRunOptions args of
              None \<Rightarrow> Some (s, IPSEC_ERR_INVALID_ARGUMENT)
            | Some Options \<Rightarrow> run_algorithm (Some \<circ> RunNativeAppAlgorithmClient mem (ss_Config s) Options) s
      else Some (s, IPSEC_ERR_INVALID_ARGUMENT))"


subsection \<open>Commands\<close>

text \<open>The result says whether the session is to end.\<close>

definition run_show :: "(nat \<Rightarrow> bool) \<Rightarrow> string list \<Rightarrow> NativeAppSession \<Rightarrow> NativeAppSession outcome" where
  "run_show mem args s =
     (case ParseNativeAppShowOptions (Some args) of
        None \<Rightarrow> (s, IPSEC_ERR_INVALID_ARGUMENT)
      | Some Options \<Rightarrow>
          if strcmp_eq ''config'' (so_pcScope Options) then (ShowNativeAppConfig s, IPSEC_OK)
          else if strcmp_eq ''credential'' (so_pcScope Options) then (ShowNativeAppCredential s, IPSEC_OK)
          else on_app (ShowNativeAppInformation mem (Some (so_pcScope Options)) (so_bDetail Options)
                         (so_pcName Options)) s)"

definition dispatch_command ::
  "(nat \<Rightarrow> bool) \<Rightarrow> string list \<Rightarrow> NativeAppSession \<Rightarrow>
   (NativeAppSession outcome \<times> bool) option" where
  "dispatch_command mem args s =
     (let uiArgumentCount = length args;
          is = (\<lambda>name. strcmp_eq name (args ! 0));
          word = (\<lambda>name. uiArgumentCount = 1 \<and> strcmp_eq name (args ! 0));
          go_on = (\<lambda>r. Some (r, False))
      in if uiArgumentCount = 0 then go_on (s, IPSEC_OK)
         else if is ''config'' then go_on (ExecuteNativeAppConfigCommand args s)
         else if is ''connection'' then go_on (ExecuteNativeAppConnectionCommand mem args s)
         else if is ''credential'' then go_on (ExecuteNativeAppCredentialCommand mem args s)
         else if is ''peer'' then go_on (ExecuteNativeAppPeerCommand args s)
         else if is ''ike'' then go_on (ExecuteNativeAppIkeCommand mem args s)
         else if is ''child'' then go_on (ExecuteNativeAppChildCommand mem args s)
         else if is ''show'' \<or> is ''status'' then go_on (run_show mem args s)
         else if word ''up'' then go_on (ExecuteNativeAppUp mem s)
         else if word ''down'' then go_on (ExecuteNativeAppDown s)
         else if 2 \<le> uiArgumentCount \<and> is ''test'' \<and> strcmp_eq ''loop'' (args ! 1)
         then map_option (\<lambda>r. (r, False)) (ExecuteNativeAppLoopCommand mem args 2 s)
         else if 3 \<le> uiArgumentCount \<and> is ''test'' \<and> strcmp_eq ''algorithm'' (args ! 1)
         then map_option (\<lambda>r. (r, False)) (ExecuteNativeAppAlgorithmCommand mem args s)
         else if word ''check''
         then go_on (on_app (ShowNativeAppInformation mem (Some ''daemon'') False None) s)
         else if word ''load'' then go_on (ExecuteNativeAppLegacyLoad mem s)
         else if word ''unload''
         then go_on (ExecuteNativeAppConnectionCommand mem [''connection'', ''unload''] s)
         else if word ''rekey-ike'' then go_on (ExecuteNativeAppIkeCommand mem [''ike'', ''rekey''] s)
         else if word ''rekey-child'' then go_on (ExecuteNativeAppChildCommand mem [''child'', ''rekey''] s)
         else if word ''clear-credentials''
         then go_on (ExecuteNativeAppCredentialCommand mem [''credential'', ''clear''] s)
         else if word ''help'' \<or> word ''?''
         then go_on (s\<lparr>ss_App := PrintNativeAppHelp (ss_App s)\<rparr>, IPSEC_OK)
         else if word ''exit'' \<or> word ''quit'' then Some ((s, IPSEC_OK), True)
         else go_on (s, IPSEC_ERR_INVALID_ARGUMENT))"

definition ExecuteNativeAppCommand ::
  "(nat \<Rightarrow> bool) \<Rightarrow> string list \<Rightarrow> NativeAppSession \<Rightarrow>
   (NativeAppSession outcome \<times> bool) option" where
  "ExecuteNativeAppCommand mem args s =
     map_option (\<lambda>((s, eError), bExit). ((SaveNativeAppSelectedPeer s, eError), bExit))
       (dispatch_command mem args s)"

subsection \<open>The prompt\<close>

text \<open>
  What happens while the session waits for a line: text on the standard input, which ends a line or
  the input; a signal that interrupts the wait; a responder that connects to the listener.  The
  end of the list is the end of the input.
\<close>

datatype prompt_event = InputText bytes | InputInterrupted | PeerConnects

datatype prompt_result = PromptLine bytes | PromptInterrupted | PromptEnd

text \<open>One round of the listener thread in which \<open>poll\<close> reported a connection.\<close>

definition listener_round :: "NativeAppSession \<Rightarrow> NativeAppSession" where
  "listener_round s =
     (let l = ss_PeerListener s in
      if \<not> IsNativeAppPeerListenerRunning (Some l) then s
      else
        let ((pPeer, w), eError) = AcceptNativeAppPeerConnection True (pl_iServerSocket l) (pl_Config l)
              NATIVE_APP_ERROR_TEXT_LENGTH ((ss_Peer s)\<lparr>pe_pcError := []\<rparr>)
        in HandleNativeAppPeerListenerEvent eError pPeer (pe_pcError w)
             (s\<lparr>ss_Peer := NotifyNativeAppPeerListener l eError pPeer w\<rparr>))"

fun session_fgets ::
  "prompt_event list \<Rightarrow> NativeAppSession \<Rightarrow> prompt_result \<times> prompt_event list \<times> NativeAppSession" where
  "session_fgets [] s = (PromptEnd, [], s)"
| "session_fgets (PeerConnects # es) s = session_fgets es (listener_round s)"
| "session_fgets (InputInterrupted # es) s = (PromptInterrupted, es, s)"
| "session_fgets (InputText t # es) s =
     (case fgets NATIVE_APP_COMMAND_LINE_LENGTH \<lparr>af_data = t, af_error = False\<rparr> of
        None \<Rightarrow> (PromptEnd, es, s)
      | Some (acLine, _, f) \<Rightarrow>
          (PromptLine acLine, if af_data f = [] then es else InputText (af_data f) # es, s))"

primrec prompt_size :: "prompt_event \<Rightarrow> nat" where
  "prompt_size (InputText t) = length t"
| "prompt_size InputInterrupted = 1"
| "prompt_size PeerConnects = 1"

definition input_size :: "prompt_event list \<Rightarrow> nat" where
  "input_size es = sum_list (map prompt_size es)"

lemma session_fgets_smaller:
  "session_fgets es s = (r, es', s') \<Longrightarrow> r \<noteq> PromptEnd \<Longrightarrow> input_size es' < input_size es"
proof (induction es s rule: session_fgets.induct)
  case (4 t es s)
  then obtain acLine eof f where g: "fgets NATIVE_APP_COMMAND_LINE_LENGTH \<lparr>af_data = t, af_error = False\<rparr> =
      Some (acLine, eof, f)"
    by (auto split: option.splits)
  have "length (af_data f) < length t" using fgets_shorter [OF _ g] by simp
  then show ?case using 4 g by (auto simp: input_size_def)
qed (auto simp: input_size_def)

text \<open>The arguments of a line are the texts at their offsets in the buffer.\<close>

definition line_arguments :: "bytes \<Rightarrow> string list option" where
  "line_arguments acLine =
     (let ((line, args), uiArgumentCount, bParsed) = ParseNativeAppCommandLine
            (Some (buf_write (replicate NATIVE_APP_COMMAND_LINE_LENGTH NUL) 0 (acLine @ [NUL])))
            NATIVE_APP_COMMAND_ARGUMENT_COUNT
      in if \<not> bParsed then None
         else (case line of None \<Rightarrow> None | Some l \<Rightarrow> Some (map (\<lambda>a. drop a l) args)))"

function interactive_loop ::
  "(nat \<Rightarrow> bool) \<Rightarrow> prompt_event list \<Rightarrow> NativeAppSession \<Rightarrow>
   (prompt_event list \<times> NativeAppSession) option" where
  "interactive_loop mem es s =
     (let q = session_fgets es (PrintNativeAppPrompt s); s' = (snd (snd q))\<lparr>ss_bPromptVisible := False\<rparr> in
      case fst q of
        PromptEnd \<Rightarrow> Some (fst (snd q), session_printf nl s')
      | PromptInterrupted \<Rightarrow> interactive_loop mem (fst (snd q)) (session_printf nl s')
      | PromptLine acLine \<Rightarrow>
          (case line_arguments acLine of
             None \<Rightarrow> interactive_loop mem (fst (snd q))
                       (session_eprintf (''command parse failed'' @ nl) s')
           | Some args \<Rightarrow>
               (case ExecuteNativeAppCommand mem args s' of
                  None \<Rightarrow> None
                | Some ((s'', eError), bExit) \<Rightarrow>
                    let s'' = (if eError \<noteq> IPSEC_OK
                               then session_eprintf (''command failed: '' @ GetIpsecErrorString eError @ nl) s''
                               else s'')
                    in if bExit then Some (fst (snd q), s'')
                       else interactive_loop mem (fst (snd q)) s'')))"
  by pat_completeness auto
termination
proof (relation "measure (\<lambda>(mem, es, s). input_size es)", goal_cases)
  case 1
  then show ?case by simp
next
  case (2 mem es s q s')
  then show ?case using session_fgets_smaller [of es "PrintNativeAppPrompt s"]
    by (cases "session_fgets es (PrintNativeAppPrompt s)") auto
next
  case (3 mem es s q s')
  then show ?case using session_fgets_smaller [of es "PrintNativeAppPrompt s"]
    by (cases "session_fgets es (PrintNativeAppPrompt s)") auto
next
  case (4 mem es s q s')
  then show ?case using session_fgets_smaller [of es "PrintNativeAppPrompt s"]
    by (cases "session_fgets es (PrintNativeAppPrompt s)") auto
qed

declare interactive_loop.simps [simp del]

definition RunNativeAppInteractive ::
  "(nat \<Rightarrow> bool) \<Rightarrow> prompt_event list \<Rightarrow> NativeAppSession \<Rightarrow>
   (prompt_event list \<times> NativeAppSession) option" where
  "RunNativeAppInteractive mem es s =
     map_option (\<lambda>(es, s). (es, session_printf (''session closed; daemon resources were not changed on exit'' @ nl) s))
       (interactive_loop mem es
          (session_printf (''Native IPsec CLI connected. Type 'help' for commands.'' @ nl) s))"

subsection \<open>The program\<close>

record CliWorld =
  cw_App :: NativeApp
  cw_Peer :: PeerWorld
  cw_Psk :: PskWorld
  cw_Input :: "prompt_event list"
  cw_Sweep :: AlgorithmWorld

definition zero_listener :: NativeAppPeerListener where
  "zero_listener = \<lparr>pl_Config = zero_config, pl_pCallback = False, pl_iServerSocket = False,
     pl_bStopRequested = False, pl_bRunning = False\<rparr>"

definition initial_session :: "bool \<Rightarrow> CliWorld \<Rightarrow> NativeAppSession" where
  "initial_session bVerbose w =
     \<lparr>ss_App = cw_App w, ss_BaseConfig = InitializeNativeAppConfig, ss_Config = InitializeNativeAppConfig,
      ss_Runtime = zero_connection, ss_Peer = cw_Peer w, ss_PeerListener = zero_listener, ss_Sweep = cw_Sweep w,
      ss_acConfigPath = replicate NATIVE_APP_PATH_LENGTH NUL,
      ss_acApplicationConfigPath = replicate NATIVE_APP_PATH_LENGTH NUL,
      ss_acManagementConfigPath = replicate NATIVE_APP_PATH_LENGTH NUL,
      ss_bConfigValid = False, ss_bConnectionLoaded = False, ss_bCredentialLoaded = False,
      ss_bVerbose = bVerbose, ss_bPromptVisible = False\<rparr>"

text \<open>The configuration given at startup: the two files, the combined file, or none.\<close>

definition load_startup :: "NativeAppStartupOptions \<Rightarrow> NativeAppSession \<Rightarrow> (NativeAppSession \<times> string) outcome" where
  "load_startup opts s =
     (let files = (\<lambda>p. ap_files (ss_App s) (cstr p)) in
      case st_pcApplicationConfigPath opts of
        Some pcApplication \<Rightarrow>
          let mgmt = st_pcManagementConfigPath opts;
              ((Config, acError), eError) = LoadNativeAppConfigFiles (Some pcApplication) (files pcApplication)
                mgmt (Option.bind mgmt files) NATIVE_APP_ERROR_TEXT_LENGTH (ss_Config s, []);
              s = s\<lparr>ss_Config := Config\<rparr>;
              (acApplication, bApplication) =
                CopyNativeAppSessionText (ss_acApplicationConfigPath s) (Some pcApplication);
              (acManagement, bManagement) = CopyNativeAppSessionText (ss_acManagementConfigPath s) mgmt
          in if eError \<noteq> IPSEC_OK then ((s, acError), eError)
             else if \<not> bApplication then ((s, acError), IPSEC_ERR_BUFFER_TOO_SMALL)
             else if \<not> bManagement
             then ((s\<lparr>ss_acApplicationConfigPath := acApplication\<rparr>, acError), IPSEC_ERR_BUFFER_TOO_SMALL)
             else ((s\<lparr>ss_acApplicationConfigPath := acApplication, ss_acManagementConfigPath := acManagement,
                      ss_BaseConfig := Config, ss_bConfigValid := False\<rparr>, acError), IPSEC_OK)
      | None \<Rightarrow>
          (case st_pcConfigPath opts of
             Some pcConfig \<Rightarrow>
               let ((Config, acError), eError) = LoadNativeAppConfig (Some pcConfig) (files pcConfig)
                     NATIVE_APP_ERROR_TEXT_LENGTH (ss_Config s, []);
                   s = s\<lparr>ss_Config := Config\<rparr>;
                   (Runtime, acError, eError) =
                     (if eError = IPSEC_OK
                      then BuildNativeAppRuntimeConfig NATIVE_APP_ERROR_TEXT_LENGTH (Some Config) acError
                      else (None, acError, eError));
                   s = (case Runtime of Some Connection \<Rightarrow> s\<lparr>ss_Runtime := Connection\<rparr> | None \<Rightarrow> s);
                   (acPath, bCopied) = CopyNativeAppSessionText (ss_acConfigPath s) (Some pcConfig)
               in if eError \<noteq> IPSEC_OK then ((s, acError), eError)
                  else if \<not> bCopied then ((s, acError), IPSEC_ERR_BUFFER_TOO_SMALL)
                  else ((s\<lparr>ss_acConfigPath := acPath, ss_BaseConfig := Config, ss_bConfigValid := True\<rparr>,
                         acError), IPSEC_OK)
           | None \<Rightarrow> ((s, []), IPSEC_OK)))"

text \<open>The listener of an initiator that has a configuration.\<close>

definition start_listener :: "bool \<Rightarrow> string \<Rightarrow> NativeAppSession \<Rightarrow> NativeAppSession outcome" where
  "start_listener bConfigured acError s =
     (if nc_eRole (ss_BaseConfig s) = NATIVE_APP_ROLE_INITIATOR \<and> bConfigured
      then
        let ((l, w), eError) = StartNativeAppPeerListener True (ss_BaseConfig s) True NATIVE_APP_ERROR_TEXT_LENGTH
              (ss_PeerListener s) ((ss_Peer s)\<lparr>pe_pcError := acError\<rparr>);
            s = s\<lparr>ss_PeerListener := l, ss_Peer := w\<rparr>
        in if eError \<noteq> IPSEC_OK
           then (session_eprintf (''peer listener startup failed: '' @ pe_pcError w @ '' ('' @
                   GetIpsecErrorString eError @ '')'' @ nl) s, eError)
           else (session_printf (''peer listener started: '' @ cstr (nc_acPeerServerAddress (ss_BaseConfig s)) @
                   '':'' @ dec (nc_uiPeerPort (ss_BaseConfig s)) @ nl) s, IPSEC_OK)
      else (s, IPSEC_OK))"

text \<open>Stopping the listener waits for the end of its thread; what the thread still does is its last
  rounds, with their events.\<close>

definition stop_listener :: "NativeAppSession \<Rightarrow> NativeAppSession" where
  "stop_listener s =
     (let l = ss_PeerListener s in
      if \<not> IsNativeAppPeerListenerRunning (Some l) then s
      else
        let (l', w) = RunNativeAppPeerListener (l\<lparr>pl_bStopRequested := True\<rparr>) (ss_Peer s)
        in foldl (\<lambda>s (eError, pPeer, pcError). HandleNativeAppPeerListenerEvent eError pPeer pcError s)
             (s\<lparr>ss_Peer := w, ss_PeerListener :=
                  (case StopNativeAppPeerListener (Some l') of Some l \<Rightarrow> l | None \<Rightarrow> l')\<rparr>)
             (drop (length (pe_notes (ss_Peer s))) (pe_notes w)))"

definition close_session :: "NativeAppSession \<Rightarrow> NativeAppSession" where
  "close_session s =
     (let s = on_world (DeinitializeIpsec True) s
      in s\<lparr>ss_Peer := DeinitializeNativeAppPeerTable True (ss_Peer s)\<rparr>)"

text \<open>A single command given on the command line, or the prompt.\<close>

definition run_session ::
  "(nat \<Rightarrow> bool) \<Rightarrow> string list \<Rightarrow> prompt_event list \<Rightarrow> NativeAppSession \<Rightarrow>
   ((prompt_event list \<times> NativeAppSession) \<times> int) option" where
  "run_session mem Command es s =
     (if Command \<noteq> []
      then map_option (\<lambda>((s, eError), bExit).
             if eError = IPSEC_OK then ((es, s), 0)
             else ((es, session_eprintf (''command failed: '' @ GetIpsecErrorString eError @ nl) s), 1))
             (ExecuteNativeAppCommand mem Command s)
      else map_option (\<lambda>r. (r, 0)) (RunNativeAppInteractive mem es s))"

definition leave :: "CliWorld \<Rightarrow> prompt_event list \<Rightarrow> NativeAppSession \<Rightarrow> CliWorld" where
  "leave w es s = w\<lparr>cw_App := ss_App s, cw_Peer := ss_Peer s, cw_Input := es, cw_Sweep := ss_Sweep s\<rparr>"

definition deinit_table :: "NativeAppSession \<Rightarrow> NativeAppSession" where
  "deinit_table s = s\<lparr>ss_Peer := DeinitializeNativeAppPeerTable True (ss_Peer s)\<rparr>"

definition generate_psk :: "string \<Rightarrow> CliWorld \<Rightarrow> CliWorld \<times> int" where
  "generate_psk pcPath w =
     (let (p, eError) = GenerateIpsecPskFile (Some pcPath) (cw_Psk w); w = w\<lparr>cw_Psk := p\<rparr> in
      if eError = IPSEC_OK
      then (w\<lparr>cw_App := app_printf (''PSK generated: '' @ cstr pcPath @ nl) (cw_App w)\<rparr>, 0)
      else (w\<lparr>cw_App := app_eprintf (''PSK generation failed: '' @ GetIpsecErrorString eError @ nl)
                          (cw_App w)\<rparr>, 1))"

text \<open>The session from its configuration to its end.\<close>

definition run_configured ::
  "(nat \<Rightarrow> bool) \<Rightarrow> NativeAppStartupOptions \<Rightarrow> CliWorld \<Rightarrow> NativeAppSession \<Rightarrow>
   (CliWorld \<times> int) option" where
  "run_configured mem opts w s =
     (let fail = (\<lambda>s. Some (leave w (cw_Input w) (deinit_table s), 1));
          ((s, acError), eError) = load_startup opts s
      in if eError \<noteq> IPSEC_OK
         then fail (session_eprintf (''configuration failed: '' @ acError @ '' ('' @
                GetIpsecErrorString eError @ '')'' @ nl) s)
         else
           let (s, eError) = OpenNativeAppContext (ss_Config s) s in
           if eError \<noteq> IPSEC_OK
           then fail (session_eprintf (''InitializeIpsec failed: '' @ GetIpsecErrorString eError @ nl) s)
           else
             let (s, eError) = start_listener
                   (st_pcConfigPath opts \<noteq> None \<or> st_pcApplicationConfigPath opts \<noteq> None) acError s
             in if eError \<noteq> IPSEC_OK then fail (on_world (DeinitializeIpsec True) s)
                else map_option (\<lambda>((es, s), iResult). (leave w es (close_session (stop_listener s)), iResult))
                       (run_session mem (st_Command opts) (cw_Input w) s))"

definition RunNativeAppCli ::
  "(nat \<Rightarrow> bool) \<Rightarrow> string list \<Rightarrow> CliWorld \<Rightarrow> (CliWorld \<times> int) option" where
  "RunNativeAppCli mem ppcArguments w =
     (let pcProgram = (if ppcArguments = [] then ''ipsec_app'' else hd ppcArguments);
          usage = (\<lambda>w. w\<lparr>cw_App := PrintNativeAppUsage pcProgram (cw_App w)\<rparr>)
      in case (if ppcArguments = [] then None else ParseNativeAppStartupOptions ppcArguments) of
           None \<Rightarrow> Some (usage w, 2)
         | Some opts \<Rightarrow>
             if st_bHelp opts
             then Some ((usage w)\<lparr>cw_App := PrintNativeAppHelp (cw_App (usage w))\<rparr>, 0)
             else
               case st_pcGeneratePskPath opts of
                 Some pcPath \<Rightarrow>
                   if st_pcConfigPath opts \<noteq> None \<or> st_pcApplicationConfigPath opts \<noteq> None \<or>
                      st_pcManagementConfigPath opts \<noteq> None \<or> st_Command opts \<noteq> []
                   then Some (usage w, 2)
                   else Some (generate_psk pcPath w)
               | None \<Rightarrow>
                   let bHasApplicationConfig = (st_pcApplicationConfigPath opts \<noteq> None);
                       bHasManagementConfig = (st_pcManagementConfigPath opts \<noteq> None)
                   in if bHasApplicationConfig \<noteq> bHasManagementConfig \<or>
                         (st_pcConfigPath opts \<noteq> None \<and> bHasApplicationConfig)
                      then Some (usage w, 2)
                      else
                        let s = initial_session (st_bVerbose opts) w;
                            (p, eError) = InitializeNativeAppPeerTable True (ss_Peer s);
                            s = s\<lparr>ss_Peer := p\<rparr>
                        in if eError \<noteq> IPSEC_OK
                           then Some (leave w (cw_Input w)
                                  (session_eprintf (''peer table initialization failed: '' @
                                     GetIpsecErrorString eError @ nl) s), 1)
                           else run_configured mem opts w s)"

text \<open>\<open>main.c\<close>: both signals request the stop, and the result is that of the program.  The signals
  themselves are outcomes of the stop flag.\<close>

definition HandleNativeAppSignal :: "NativeApp \<Rightarrow> NativeApp" where
  "HandleNativeAppSignal a = RequestNativeAppStop a"

definition main :: "(nat \<Rightarrow> bool) \<Rightarrow> string list \<Rightarrow> CliWorld \<Rightarrow> (CliWorld \<times> int) option" where
  "main mem ppcArguments w = RunNativeAppCli mem ppcArguments w"

end
