(* ===== verification/AppIdle.thy ===== *)
theory AppIdle
  imports AppShow IpsecCore
begin

section \<open>Every operation leaves the library idle\<close>

text \<open>
  \<open>idle\<close> says that the mutex is free, no deadline is set and the one descriptor of the context is the
  one that is open.  The operations of the library that the application uses, and the steps of the
  lifecycle and of the show command built from them, keep it, whatever the system does.
\<close>

named_theorems keeps_idle \<open>operations that leave the library idle\<close>

subsection \<open>Commands of the daemon\<close>

lemma command_idle:
  assumes "idle w" and "ev_ok ev" and "vici_name cmd"
  shows "idle (snd (fst (ExecuteViciCommand (Some cmd) m ev cb rcb x w)))"
proof -
  obtain s r where x: "x = (s, r)" by fastforce
  obtain s' r' w' e where c: "ExecuteViciCommand (Some cmd) m ev cb rcb (s, r) w = (((s', r'), w'), e)"
    by (metis prod.exhaust)
  show ?thesis using ExecuteViciCommand_props [OF assms c] x c by simp
qed

lemma empty_request_idle: "idle w \<Longrightarrow> idle (snd (fst (empty_request w)))"
  using idle_next_mem [of w] by (cases "next_mem w") (auto simp: empty_request_def Let_def case_prod_beta)

lemma next_mem_idle: "idle w \<Longrightarrow> idle (snd (next_mem w))"
  using idle_next_mem [of w] by (cases "next_mem w") auto

lemma no_event [simp]: "ev_ok None"
  by (simp add: ev_ok_def)

lemma command_names [simp]:
  "vici_name ''load-conn''" "vici_name ''unload-conn''" "vici_name ''load-shared''" "vici_name ''clear-creds''"
  "vici_name ''initiate''" "vici_name ''terminate''" "vici_name ''rekey''" "vici_name ''list-conns''"
  "vici_name ''get-algorithms''" "vici_name ''version''" "vici_name ''stats''" "ev_ok (Some ''list-conn'')"
  by code_simp+

lemma and_then_idle: "idle w \<Longrightarrow> (\<And>w. idle w \<Longrightarrow> idle (fst (f w))) \<Longrightarrow> idle (fst (and_then (w, e) f))"
  by (simp add: and_then_def)

lemma send_idle:
  assumes "idle w" and "vici_name cmd"
  shows "idle (fst (let ((_, w), eError) = ExecuteViciCommand (Some cmd) (Some m) None None None
            ((), zero_result) w in (w, eError)))"
  using command_idle [OF assms(1) no_event assms(2), of "Some m" None None "((), zero_result)"]
  by (simp add: case_prod_beta Let_def)

lemma control_idle [keeps_idle]:
  "idle w \<Longrightarrow> idle (fst (AddIpsecConnection c w))"
  "idle w \<Longrightarrow> idle (fst (RemoveIpsecConnection n w))"
  "idle w \<Longrightarrow> idle (fst (AddIpsecPsk k w))"
  "idle w \<Longrightarrow> idle (fst (ClearIpsecCredentials w))"
  unfolding AddIpsecConnection_def RemoveIpsecConnection_def AddIpsecPsk_def ClearIpsecCredentials_def
    Let_def case_prod_beta
  by (auto intro!: and_then_idle next_mem_idle empty_request_idle
      send_idle [unfolded Let_def case_prod_beta] split: option.split)

lemma sa_control_idle:
  assumes "idle w" and "vici_name cmd"
  shows "idle (fst (ExecuteSaControl cmd sel n opts b err w))"
proof -
  show ?thesis using assms
    unfolding ExecuteSaControl_def Let_def case_prod_beta
    by (auto intro!: and_then_idle next_mem_idle command_idle)
qed

lemma sa_idle [keeps_idle]:
  "idle w \<Longrightarrow> idle (fst (InitiateIpsecIke n o1 w))" "idle w \<Longrightarrow> idle (fst (TerminateIpsecIke n o1 w))"
  "idle w \<Longrightarrow> idle (fst (RekeyIpsecIke n w))" "idle w \<Longrightarrow> idle (fst (InitiateIpsecChild n o1 w))"
  "idle w \<Longrightarrow> idle (fst (TerminateIpsecChild n o1 w))" "idle w \<Longrightarrow> idle (fst (RekeyIpsecChild n w))"
  by (simp_all add: InitiateIpsecIke_def TerminateIpsecIke_def RekeyIpsecIke_def InitiateIpsecChild_def
      TerminateIpsecChild_def RekeyIpsecChild_def sa_control_idle)

lemma wait_idle [keeps_idle]:
  "idle w \<Longrightarrow> idle (fst (WaitIpsecIkeEstablished mem n t w))"
  "idle w \<Longrightarrow> idle (fst (WaitIpsecChildInstalled mem n t w))"
  using WaitIpsecIkeEstablished_props [of w mem n t] WaitIpsecChildInstalled_props [of w mem n t]
  by (metis prod.collapse)+

lemma status_idle: "idle (snd x) \<Longrightarrow> vici_name cmd \<Longrightarrow> idle (snd (fst (QueryStatusCommand cmd x)))"
  unfolding QueryStatusCommand_def Let_def case_prod_beta
  by (auto intro!: command_idle empty_request_idle)

lemma query_idle [keeps_idle]:
  assumes "idle w"
  shows "idle (snd (fst (GetIpsecDaemonStatus w)))" and "idle (snd (fst (GetIpsecConnections mem w)))"
    and "idle (snd (fst (GetIpsecAlgorithms mem w)))" and "idle (snd (fst (GetIpsecIkeSas mem w)))"
    and "idle (snd (fst (GetIpsecChildSas mem w)))"
proof -
  show "idle (snd (fst (GetIpsecDaemonStatus w)))"
    unfolding GetIpsecDaemonStatus_def Let_def case_prod_beta and_then_def
    using status_idle [of "(c, w)" "''version''" for c] assms by (auto intro!: status_idle)
  show "idle (snd (fst (GetIpsecConnections mem w)))" "idle (snd (fst (GetIpsecAlgorithms mem w)))"
    unfolding GetIpsecConnections_def GetIpsecAlgorithms_def Let_def case_prod_beta
    using assms by (auto intro!: command_idle empty_request_idle)
qed (rule Get_idle [OF assms])+

subsection \<open>Queries of the kernel\<close>

lemma without_net_fields:
  assumes "without_net w' = without_net w"
  shows "iViciSocket w' = iViciSocket w" "os_open w' = os_open w" "os_locked w' = os_locked w"
    "ullCommandDeadlineMs w' = ullCommandDeadlineMs w"
  using assms by (cases w; cases w'; simp add: without_net_def)+

lemma without_net_idle: "without_net w' = without_net w \<Longrightarrow> idle w' = idle w"
  using without_net_fields [of w' w] by (simp add: idle_def fd_ok_def)

lemma dump_idle: "idle w \<Longrightarrow> idle (fst (fst (ExecuteNetlinkDump p t pl n f (w, u))))"
  by (simp add: without_net_idle [OF ExecuteNetlinkDump_net])

lemma kernel_idle [keeps_idle]:
  assumes "idle w"
  shows "idle (fst (fst (GetIpsecXfrmStates mem w)))" and "idle (fst (fst (GetIpsecXfrmPolicies mem w)))"
    and "idle (fst (fst (GetIpsecInterfaces mem w)))" and "idle (fst (fst (GetIpsecAddresses mem w)))"
    and "idle (fst (fst (GetIpsecRoutes mem w)))"
  unfolding GetIpsecXfrmStates_def GetIpsecXfrmPolicies_def GetIpsecInterfaces_def GetIpsecAddresses_def
    GetIpsecRoutes_def Let_def case_prod_beta
  using assms by (auto intro!: dump_idle)

text \<open>The statistics file is closed after it was read.\<close>

lemma read_retry_net: "without_net (snd (read_retry n w)) = without_net w"
proof (induction n w rule: read_retry.induct)
  case (1 n w)
  obtain r v where s: "sys_read n w = (r, v)" by (cases "sys_read n w") auto
  obtain ev v' where n: "next_event w = (ev, v')" by fastforce
  have "without_net v = without_net w"
    using s n next_event_net [OF n] by (auto simp: sys_read_def split: option.splits os_event.splits if_splits)
  then show ?case using 1 [OF s [symmetric] refl] s by (simp add: read_retry.simps [of n w])
qed

lemma read_loop_net: "without_net (fst (fst (read_loop mem c b w))) = without_net w"
proof (induction mem c b w rule: read_loop.induct)
  case (1 mem c b w)
  obtain r v where s: "read_retry (c - length b) w = (r, v)" by (cases "read_retry (c - length b) w") auto
  have v: "without_net v = without_net w" using read_retry_net [of "c - length b" w] s by simp
  show ?case
  proof (cases r)
    case (Inl e)
    then show ?thesis using s v by (simp add: read_loop.simps [of mem c b w])
  next
    case (Inr bs)
    show ?thesis using 1 [OF s [symmetric] refl Inr] s v Inr
      by (subst read_loop.simps) (auto simp: Let_def)
  qed
qed

lemma statistics_idle [keeps_idle]:
  assumes "idle w"
  shows "idle (fst (fst (GetIpsecXfrmStatistics mem (w, s))))"
proof -
  obtain r w1 where o: "sys_open_file w = (r, w1)" by fastforce
  obtain ev v where n: "next_event w = (ev, v)" by fastforce
  have "without_net (fst (fst (ReadXfrmStatisticsFile mem w))) = without_net w"
  proof (cases r)
    case (Inl e)
    then show ?thesis using o n next_event_net [OF n]
      by (auto simp: ReadXfrmStatisticsFile_def sys_open_file_def split: option.splits os_event.splits if_splits)
  next
    case (Inr fd)
    have w1: "fd \<notin> set (os_open v)" "w1 = v\<lparr>os_open := fd # os_open v\<rparr>"
      using o n Inr by (auto simp: sys_open_file_def split: option.splits os_event.splits if_splits)
    have close: "without_net (sys_close fd x) = without_net w" if "without_net x = without_net w1" for x
      using without_net_close [OF that, of fd] w1 next_event_net [OF n] by (simp add: sys_close_def)
    show ?thesis using o Inr close [OF refl] close [OF read_loop_net]
      by (simp add: ReadXfrmStatisticsFile_def Let_def case_prod_beta)
  qed
  then have "idle (fst (fst (ReadXfrmStatisticsFile mem w)))" using without_net_idle assms by blast
  then show ?thesis by (auto simp: GetIpsecXfrmStatistics_def Let_def case_prod_beta)
qed

subsection \<open>The lifecycle\<close>

abbreviation app_idle :: "NativeApp \<Rightarrow> bool" where
  "app_idle a \<equiv> idle (ap_ipsec a)"

lemma on_ipsec_idle [intro]:
  "(\<And>w. idle w \<Longrightarrow> idle (fst (f w))) \<Longrightarrow> app_idle a \<Longrightarrow> app_idle (fst (on_ipsec f a))"
  by (simp add: on_ipsec_def Let_def case_prod_beta)

lemma print_idle [simp]:
  "app_idle (app_printf t a) = app_idle a" "app_idle (app_eprintf t a) = app_idle a"
  "app_idle (ResetNativeAppStopRequest a) = app_idle a" "app_idle (RequestNativeAppStop a) = app_idle a"
  by (simp_all add: app_printf_def app_eprintf_def ResetNativeAppStopRequest_def RequestNativeAppStop_def)

lemma trace_idle [simp]: "idle (w\<lparr>os_trace := tr\<rparr>) = idle w" "idle (w\<lparr>os_waits := ws\<rparr>) = idle w"
  by (simp_all add: idle_def fd_ok_def)

lemma stop_idle: "app_idle a \<Longrightarrow> app_idle (snd (IsNativeAppStopRequested a))"
  by (auto simp: IsNativeAppStopRequested_def split: list.split os_event.split)

lemma nanosleep_idle: "app_idle a \<Longrightarrow> app_idle (nanosleep_loop a)"
proof (induction a rule: nanosleep_loop.induct)
  case (1 a)
  obtain ev w where n: "next_event (ap_ipsec a) = (ev, w)" by fastforce
  obtain b a2 where s: "IsNativeAppStopRequested (a\<lparr>ap_ipsec := w\<rparr>) = (b, a2)" by fastforce
  have "idle w" using next_event_idle [OF 1(2)] n by simp
  then have "app_idle a2" using stop_idle [of "a\<lparr>ap_ipsec := w\<rparr>"] s by simp
  then show ?case
    using 1(1) [OF n [symmetric] refl refl _ s [symmetric] refl] \<open>idle w\<close>
    by (subst nanosleep_loop.simps) (auto simp: n s Let_def)
qed

lemma SleepNativeApp_idle: "app_idle a \<Longrightarrow> app_idle (SleepNativeApp t a)"
  by (simp add: SleepNativeApp_def nanosleep_idle)

lemma LoadNativeAppCredential_idle [keeps_idle]:
  "app_idle a \<Longrightarrow> app_idle (fst (LoadNativeAppCredential mem c a))"
  by (auto simp: LoadNativeAppCredential_def split: sum.split intro!: control_idle)

lemma app_and_then_idle:
  "app_idle a \<Longrightarrow> (\<And>a. app_idle a \<Longrightarrow> app_idle (fst (f a))) \<Longrightarrow> app_idle (fst (and_then (a, e) f))"
  by (simp add: and_then_def)

lemma app_then_idle:
  "app_idle (fst r) \<Longrightarrow> (\<And>a. app_idle a \<Longrightarrow> app_idle (fst (f a))) \<Longrightarrow> app_idle (fst (and_then r f))"
  by (cases r) (simp add: and_then_def)

lemma LoadNativeAppResources_idle [keeps_idle]:
  assumes "app_idle a"
  shows "app_idle (fst (LoadNativeAppResources mem c k a))"
proof -
  have "app_idle (fst (and_then (on_ipsec (AddIpsecConnection (Some k)) a) (LoadNativeAppCredential mem c)))"
    using assms by (intro app_then_idle LoadNativeAppCredential_idle on_ipsec_idle control_idle)
  then show ?thesis
    by (auto simp: LoadNativeAppResources_def Let_def case_prod_beta intro!: control_idle)
qed

lemma StartNativeAppConnection_idle [keeps_idle]:
  assumes "app_idle a"
  shows "app_idle (fst (StartNativeAppConnection mem c a))"
proof -
  have step: "app_idle (fst (on_ipsec (WaitIpsecChildInstalled mem n t) b))"
    "app_idle (fst (on_ipsec (InitiateIpsecChild n o1) b))" if "app_idle b" for n t o1 b
    using that by (auto intro!: wait_idle sa_idle)
  have "app_idle (fst (run_steps
      [on_ipsec (InitiateIpsecIke n o1), on_ipsec (WaitIpsecIkeEstablished mem n t), on_ipsec (InitiateIpsecChild n' o1)] a))"
    for n t o1 n'
    using assms by (auto intro!: app_then_idle on_ipsec_idle sa_idle wait_idle)
  then show ?thesis using assms step
    unfolding StartNativeAppConnection_def Let_def case_prod_beta by (simp del: run_steps.simps)
qed

lemma query_installed_idle: "idle w \<Longrightarrow> idle (snd (fst (query_installed mem w)))"
  unfolding query_installed_def Let_def case_prod_beta
  by (auto intro!: keeps_idle)

lemma VerifyNativeAppInstalled_idle: "app_idle a \<Longrightarrow> app_idle (fst (fst (VerifyNativeAppInstalled mem c a)))"
  using query_installed_idle [of "ap_ipsec a" mem]
  unfolding VerifyNativeAppInstalled_def Let_def case_prod_beta by auto

lemma wait_removed_idle: "app_idle a \<Longrightarrow> app_idle (fst (wait_removed_loop mem c r t el a))"
proof (induction mem c r t el a rule: wait_removed_loop.induct)
  case (1 mem c r t el a)
  obtain b a1 where s: "IsNativeAppStopRequested a = (b, a1)" by fastforce
  obtain q e where q: "query_installed mem (ap_ipsec a1) = (q, e)" by fastforce
  let ?a2 = "a1\<lparr>ap_ipsec := snd q\<rparr>"
  have a1: "app_idle a1" using stop_idle [OF 1(2)] s by simp
  have a2: "app_idle ?a2" using query_installed_idle [OF a1, of mem] q by simp
  then show ?case
    using 1(1) [OF _ s [symmetric] refl _ q [symmetric] refl refl] 1(2) a1 SleepNativeApp_idle [OF a2]
    by (subst wait_removed_loop.simps) (auto simp: s q Let_def)
qed

lemma loop_cleanup_idle:
  assumes "app_idle (fst r)"
  shows "app_idle (fst (loop_cleanup mem c i r))"
proof -
  obtain a e where r: "r = (a, e)" by (cases r)
  have 1: "app_idle (fst (on_ipsec (TerminateIpsecIke n o1) a))" for n o1
    using assms r by (auto intro!: sa_idle)
  have 2: "app_idle (fst (on_ipsec (RemoveIpsecConnection n) b))" if "app_idle b" for n b
    using that by (auto intro!: control_idle)
  show ?thesis using 1 2 wait_removed_idle
    unfolding loop_cleanup_def WaitNativeAppRemoved_def WaitNativeAppRemovedWithTimeout_def Let_def case_prod_beta r
    by simp
qed

lemma loop_iteration_idle:
  assumes "app_idle a"
  shows "app_idle (fst (loop_iteration mem c k n i a))"
proof -
  have 1: "app_idle (fst (on_ipsec (AddIpsecConnection (Some k)) (app_printf t a)))" for t
    using assms by (auto intro!: control_idle)
  show ?thesis using 1 StartNativeAppConnection_idle VerifyNativeAppInstalled_idle
    unfolding loop_iteration_def Let_def case_prod_beta by (auto intro!: loop_cleanup_idle)
qed

text \<open>The loop command is a partial function: the invariant holds for whatever it returns.\<close>

lemma native_loop_idle:
  assumes "native_loop mem c k opts i s = Some s'"
  shows "app_idle (fst s) \<longrightarrow> app_idle (fst s')"
proof (rule native_loop.raw_induct [where P = "\<lambda>mem c k opts i s s'. app_idle (fst s) \<longrightarrow> app_idle (fst s')",
      OF _ assms])
  fix rec mem c k opts i s s'
  assume IH: "\<And>mem c k opts i s s'. rec mem c k opts i s = Some s' \<Longrightarrow> app_idle (fst s) \<longrightarrow> app_idle (fst s')"
    and body: "(let (bStop, a) = IsNativeAppStopRequested (fst s) in
      if lo_uiCount opts < i then Some s
      else if bStop then Some (a, snd s)
      else
        let r = loop_iteration mem c k (lo_uiCount opts) i a;
            (a, s) = report_iteration (lo_uiCount opts) i r (snd s)
        in if snd r \<noteq> IPSEC_OK \<and> \<not> lo_bContinueOnError opts then Some (a, s)
           else rec mem c k opts (u32 (i + 1))
             (if i < lo_uiCount opts \<and> 0 < lo_uiDelayMs opts
              then SleepNativeApp (lo_uiDelayMs opts) a else a, s)) = Some s'"
  obtain b a where st: "IsNativeAppStopRequested (fst s) = (b, a)" by fastforce
  define r where "r = loop_iteration mem c k (lo_uiCount opts) i a"
  obtain a2 s2 where rep: "report_iteration (lo_uiCount opts) i r (snd s) = (a2, s2)" by (meson surj_pair)
  let ?a3 = "if i < lo_uiCount opts \<and> 0 < lo_uiDelayMs opts then SleepNativeApp (lo_uiDelayMs opts) a2 else a2"
  have run: "(if lo_uiCount opts < i then Some s else if b then Some (a, snd s)
      else if snd r \<noteq> IPSEC_OK \<and> \<not> lo_bContinueOnError opts then Some (a2, s2)
      else rec mem c k opts (u32 (i + 1)) (?a3, s2)) = Some s'"
    using body unfolding st Let_def prod.case r_def [symmetric] rep .
  show "app_idle (fst s) \<longrightarrow> app_idle (fst s')"
  proof
    assume "app_idle (fst s)"
    then have a: "app_idle a" using stop_idle [of "fst s"] st by simp
    have "app_idle (fst r)" using loop_iteration_idle [OF a] by (simp add: r_def)
    then have a2: "app_idle a2"
      using rep by (auto simp: report_iteration_def split: prod.splits if_splits)
    then have "app_idle ?a3" using SleepNativeApp_idle by simp
    then show "app_idle (fst s')"
      using run \<open>app_idle (fst s)\<close> a a2 IH [of mem c k opts "u32 (i + 1)" "(?a3, s2)" s']
      by (auto split: if_splits)
  qed
qed

lemma RunNativeAppLoop_idle:
  assumes "RunNativeAppLoop mem c k opts a = Some (a', e)" and "app_idle a"
  shows "app_idle a'"
proof -
  obtain a1 e1 where 1: "LoadNativeAppCredential mem c a = (a1, e1)" by fastforce
  have a1: "app_idle a1" using LoadNativeAppCredential_idle [OF assms(2), of mem c] 1 by simp
  have fin: "app_idle (fst (let (a, eFirstError) =
        (if lo_bClearCredentials opts
         then let (a, eError) = on_ipsec ClearIpsecCredentials b in (a, keep_first f eError) else (b, f));
      a = app_printf (summary_text p (lo_uiCount opts)) a; (bStop, a) = IsNativeAppStopRequested a
    in (a, if bStop \<and> eFirstError = IPSEC_OK then IPSEC_ERR_INTERNAL else eFirstError)))"
    if "app_idle b" for b p f
    using on_ipsec_idle [OF control_idle(4) that] that
    by (auto simp: Let_def case_prod_beta intro!: stop_idle)
  show ?thesis
  proof (cases "native_loop mem c k opts 1 (a1, 0, IPSEC_OK)")
    case None
    then show ?thesis using assms 1 a1 by (auto simp: RunNativeAppLoop_def split: if_splits)
  next
    case (Some s)
    obtain b p f where s: "s = (b, p, f)" by (metis prod.exhaust)
    have "app_idle b" using native_loop_idle [OF Some] a1 s by simp
    from fin [OF this, where p = p and f = f] show ?thesis
      using assms 1 a1 Some unfolding RunNativeAppLoop_def s
      by (auto simp: Let_def split: if_splits)
  qed
qed

subsection \<open>The show command\<close>

lemma shown_idle: "idle (snd (fst r)) \<Longrightarrow> app_idle (fst (shown r t a))"
  by (simp add: shown_def Let_def case_prod_beta)

lemma swap_result_idle: "idle (fst (fst r)) \<Longrightarrow> idle (snd (fst (swap_result r)))"
  by (simp add: swap_result_def Let_def case_prod_beta)

lemma sections_idle:
  assumes "(b, t, Show) \<in> set (show_sections mem sc d n)" and "app_idle a"
  shows "app_idle (fst (Show a))"
  using assms(1) query_idle [OF assms(2)] kernel_idle [OF assms(2)] statistics_idle [OF assms(2)]
  unfolding show_sections_def Let_def
  by (auto simp: ShowNativeAppDaemon_def ShowNativeAppConnections_def ShowNativeAppIkeSas_def
      ShowNativeAppChildSas_def ShowNativeAppAlgorithms_def ShowNativeAppXfrmStates_def
      ShowNativeAppXfrmPolicies_def ShowNativeAppXfrmStatistics_def ShowNativeAppInterfaces_def
      ShowNativeAppAddresses_def ShowNativeAppRoutes_def intro!: shown_idle swap_result_idle)

lemma ShowNativeAppInformation_idle [keeps_idle]:
  assumes "app_idle a"
  shows "app_idle (fst (ShowNativeAppInformation mem sc d n a))"
proof -
  have "app_idle (fst (foldl show_section s secs))"
    if "\<And>b t Show a. (b, t, Show) \<in> set secs \<Longrightarrow> app_idle a \<Longrightarrow> app_idle (fst (Show a))" and "app_idle (fst s)" for secs s
    using that
  proof (induction secs arbitrary: s)
    case (Cons sec secs)
    obtain b t Show where sec: "sec = (b, t, Show)" by (metis prod.exhaust)
    have "app_idle (fst (Show (fst s)))" using Cons.prems(1) [of b t Show "fst s"] Cons.prems(2) sec by simp
    then have step: "app_idle (fst (show_section s sec))"
      using Cons.prems(2) by (auto simp: show_section_def RecordNativeAppShowError_def sec split: prod.splits)
    show ?case unfolding foldl_Cons
    proof (rule Cons.IH [OF _ step])
      fix b t Show a
      assume "(b, t, Show) \<in> set secs" and "app_idle a"
      then show "app_idle (fst (Show a))" using Cons.prems(1) [of b t Show a] by simp
    qed
  qed simp
  then show ?thesis
    using sections_idle assms by (auto simp: ShowNativeAppInformation_def split: option.split)
qed

end
