(* ===== verification/AppRunnerIdle.thy ===== *)
theory AppRunnerIdle
  imports AppRunner AppIdle
begin

section \<open>A sweep leaves nothing behind\<close>

text \<open>
  \<open>calm n b\<close> says that the library is idle, that \<open>n\<close> files and sockets are open, and whether the log
  of the run is one of them.  Every operation of the runner and of its reports keeps it.  The rules
  follow the shape of the definitions: \<open>ends\<close> speaks of the world in the result of a term, and each
  binding and each condition has one rule.
\<close>

definition calm :: "nat \<Rightarrow> bool \<Rightarrow> AlgorithmWorld \<Rightarrow> bool" where
  "calm n b g \<longleftrightarrow> app_idle (ag_App g) \<and> ag_open g = n \<and> (ag_log g \<noteq> None) = b"

definition ends :: "nat \<Rightarrow> bool \<Rightarrow> ('r \<Rightarrow> AlgorithmWorld) \<Rightarrow> 'r \<Rightarrow> bool" where
  "ends n b w x = calm n b (w x)"

named_theorems keeps_calm \<open>operations that keep a sweep calm\<close>

text \<open>Bindings of a pattern that holds a world, in the forms in which the definitions write them.\<close>

lemma ends_bind:
  "ends n b w (case_prod h t) \<Longrightarrow> ends n b w (Let t (case_prod h))"
  "calm n b (fst u) \<Longrightarrow> (\<And>g e. calm n b g \<Longrightarrow> ends n b w (h1 g e)) \<Longrightarrow> ends n b w (case_prod h1 u)"
  "calm n b (snd (fst (fst u3))) \<Longrightarrow> (\<And>a g d e. calm n b g \<Longrightarrow> ends n b w (h3 a g d e)) \<Longrightarrow>
     ends n b w (case_prod (case_prod (case_prod h3)) u3)"
  "calm n b (snd (fst u2)) \<Longrightarrow> (\<And>a g e. calm n b g \<Longrightarrow> ends n b w (h2 a g e)) \<Longrightarrow>
     ends n b w (case_prod (case_prod h2) u2)"
  "calm n b (snd u4) \<Longrightarrow> (\<And>a g. calm n b g \<Longrightarrow> ends n b w (h4 a g)) \<Longrightarrow> ends n b w (case_prod h4 u4)"
  "(\<And>x y. ends n b w (l x y v)) \<Longrightarrow> ends n b w (case_prod l p v)"
  "(\<And>x y. ends n b w (l' x y v v')) \<Longrightarrow> ends n b w (case_prod l' p v v')"
  "calm n b (snd (fst u5)) \<Longrightarrow> (\<And>q e. calm n b (snd q) \<Longrightarrow> ends n b w (h5 q e)) \<Longrightarrow> ends n b w (case_prod h5 u5)"
  "calm n b (snd q) \<Longrightarrow> (\<And>q. calm n b (snd q) \<Longrightarrow> ends n b w (h6 q)) \<Longrightarrow> ends n b w (Let q h6)"
  "calm n b g \<Longrightarrow> (\<And>g. calm n b g \<Longrightarrow> ends n b w (h7 g)) \<Longrightarrow> ends n b w (Let g h7)"
  by (auto simp: ends_def Let_def split: prod.split)

lemma ends_branch:
  "(c \<Longrightarrow> ends n b w x) \<Longrightarrow> (\<not> c \<Longrightarrow> ends n b w y) \<Longrightarrow> ends n b w (if c then x else y)"
  "ends n b w y \<Longrightarrow> (\<And>v. ends n b w (f v)) \<Longrightarrow> ends n b w (case z of None \<Rightarrow> y | Some v \<Rightarrow> f v)"
  by (auto simp: ends_def split: option.split)

text \<open>Bindings that hold no world, and the end of a term.\<close>

lemma ends_other:
  "(\<And>x y. ends n b w (h x y)) \<Longrightarrow> ends n b w (case_prod h p)"
  "(\<And>v. ends n b w (f v)) \<Longrightarrow> ends n b w (Let t f)"
  by (auto simp: ends_def Let_def split: prod.split)

lemma ends_leaf: "calm n b (w x) \<Longrightarrow> ends n b w x"
  by (simp add: ends_def)

lemma calm_pairs:
  "calm n b g \<Longrightarrow> calm n b (fst (g, e))"
  "calm n b g \<Longrightarrow> calm n b (snd (fst ((a, g), e)))"
  "calm n b g \<Longrightarrow> calm n b (snd (a, g))"
  "calm n b (snd p) \<Longrightarrow> calm n b (snd (fst (p, e)))"
  by simp_all

lemma calm_ends:
  "ends n b (\<lambda>r. fst r) (if c then x1 else y1) \<Longrightarrow> calm n b (fst (if c then x1 else y1))"
  "ends n b (\<lambda>r. snd (fst r)) (if c then x2 else y2) \<Longrightarrow> calm n b (snd (fst (if c then x2 else y2)))"
  "ends n b (\<lambda>r. snd r) (if c then x3 else y3) \<Longrightarrow> calm n b (snd (if c then x3 else y3))"
  "ends n b (\<lambda>r. r) (if c then g else g') \<Longrightarrow> calm n b (if c then g else g')"
  "ends n b (\<lambda>r. fst r) (case_prod k1 u) \<Longrightarrow> calm n b (fst (case_prod k1 u))"
  "ends n b (\<lambda>r. snd (fst r)) (case_prod k2 u) \<Longrightarrow> calm n b (snd (fst (case_prod k2 u)))"
  "ends n b (\<lambda>r. snd r) (case_prod k3 u) \<Longrightarrow> calm n b (snd (case_prod k3 u))"
  "ends n b (\<lambda>r. r) (case_prod k4 u) \<Longrightarrow> calm n b (case_prod k4 u)"
  "ends n b (\<lambda>r. fst r) (Let t f1) \<Longrightarrow> calm n b (fst (Let t f1))"
  "ends n b (\<lambda>r. snd (fst r)) (Let t f2) \<Longrightarrow> calm n b (snd (fst (Let t f2)))"
  "ends n b (\<lambda>r. snd r) (Let t f3) \<Longrightarrow> calm n b (snd (Let t f3))"
  "ends n b (\<lambda>r. r) (Let t f4) \<Longrightarrow> calm n b (Let t f4)"
  "ends n b (\<lambda>r. fst r) (case_option i1 j1 z) \<Longrightarrow> calm n b (fst (case_option i1 j1 z))"
  "ends n b (\<lambda>r. snd (fst r)) (case_option i2 j2 z) \<Longrightarrow> calm n b (snd (fst (case_option i2 j2 z)))"
  "ends n b (\<lambda>r. snd r) (case_option i3 j3 z) \<Longrightarrow> calm n b (snd (case_option i3 j3 z))"
  "ends n b (\<lambda>r. r) (case_option i4 j4 z) \<Longrightarrow> calm n b (case_option i4 j4 z)"
  by (simp_all add: ends_def)

lemmas calm_rules = calm_ends ends_bind ends_branch ends_other ends_leaf calm_pairs

subsection \<open>Calls\<close>

lemma calm_fields [keeps_calm]:
  "calm n b g \<Longrightarrow> calm n b (g\<lparr>ag_trace := tr\<rparr>)" "calm n b g \<Longrightarrow> calm n b (g\<lparr>ag_files := fs\<rparr>)"
  "calm n b g \<Longrightarrow> calm n b (g\<lparr>ag_sent := ms\<rparr>)" "calm n b g \<Longrightarrow> calm n b (g\<lparr>ag_made := ds\<rparr>)"
  by (simp_all add: calm_def)

lemma calm_next [keeps_calm]: "calm n b g \<Longrightarrow> calm n b (snd (sweep_next g))"
  by (auto simp: sweep_next_def calm_def split: list.split)

lemma calm_call [keeps_calm]: "calm n b g \<Longrightarrow> calm n b (snd (sweep_call g))"
  using calm_next [of n b g] by (simp add: sweep_call_def case_prod_beta)

lemma calm_mkdir [keeps_calm]: "calm n b g \<Longrightarrow> calm n b (snd (sys_mkdir p g))"
  unfolding sys_mkdir_def case_prod_beta Let_def by (auto intro: keeps_calm)

lemma calm_mkdir_all [keeps_calm]: "calm n b g \<Longrightarrow> calm n b (snd (mkdir_all ps g))"
proof (induction ps arbitrary: g)
  case (Cons p ps)
  then show ?case using calm_mkdir [OF Cons.prems, of p] by (simp add: case_prod_beta Let_def)
qed simp

lemma calm_fputs [keeps_calm]: "calm n b g \<Longrightarrow> calm n b (snd (sys_fputs t f g))"
  by (simp add: sys_fputs_def calm_def)

lemma calm_print [keeps_calm]:
  "calm n b g \<Longrightarrow> calm n b (sweep_printf t g)" "calm n b g \<Longrightarrow> calm n b (sweep_eprintf t g)"
  by (simp_all add: sweep_printf_def sweep_eprintf_def calm_def)

lemma calm_app: "(\<And>a. app_idle a \<Longrightarrow> app_idle (fst (f a))) \<Longrightarrow> calm n b g \<Longrightarrow> calm n b (fst (in_app f g))"
  by (simp add: in_app_def calm_def case_prod_beta)

lemma calm_ask: "(\<And>w. idle w \<Longrightarrow> idle (snd (fst (f w)))) \<Longrightarrow> calm n b g \<Longrightarrow> calm n b (snd (fst (ask f g)))"
  by (simp add: ask_def calm_def case_prod_beta)

lemma calm_queries [keeps_calm]:
  assumes "calm n b g"
  shows "calm n b (snd (fst (ask GetIpsecDaemonStatus g)))" and "calm n b (snd (fst (ask (GetIpsecConnections mem) g)))"
    and "calm n b (snd (fst (ask (GetIpsecAlgorithms mem) g)))" and "calm n b (snd (fst (ask (GetIpsecIkeSas mem) g)))"
    and "calm n b (snd (fst (ask (GetIpsecChildSas mem) g)))" and "calm n b (snd (fst (ask (query_installed mem) g)))"
    and "calm n b (snd (fst (ask (\<lambda>w. swap_result (GetIpsecXfrmStates mem w)) g)))"
    and "calm n b (snd (fst (ask (\<lambda>w. swap_result (GetIpsecXfrmPolicies mem w)) g)))"
    and "calm n b (snd (fst (ask (\<lambda>w. swap_result (GetIpsecInterfaces mem w)) g)))"
    and "calm n b (snd (fst (ask (\<lambda>w. swap_result (GetIpsecAddresses mem w)) g)))"
    and "calm n b (snd (fst (ask (\<lambda>w. swap_result (GetIpsecRoutes mem w)) g)))"
    and "calm n b (snd (fst (ask (\<lambda>w. swap_result (GetIpsecXfrmStatistics mem (w, st))) g)))"
  by (intro calm_ask swap_result_idle query_installed_idle keeps_idle assms; assumption)+

lemma calm_fopen: "calm n b g \<Longrightarrow> sys_fopen p ap g = (r, g') \<Longrightarrow> calm (n + (if r = None then 0 else 1)) b g'"
  using calm_call [of n b g] by (cases "fst (sweep_call g)") (auto simp: sys_fopen_def case_prod_beta calm_def Let_def)

lemma calm_open_report:
  "calm n b g \<Longrightarrow> OpenReportFile d nm ap g = (r, g') \<Longrightarrow> calm (n + (if r = None then 0 else 1)) b g'"
  by (auto simp: OpenReportFile_def case_prod_beta split: if_splits dest: calm_fopen)

lemma calm_report [keeps_calm]: "calm n b g \<Longrightarrow> calm n b (snd (save_report d nm ap t g))"
proof -
  assume a: "calm n b g"
  obtain r g' where r: "OpenReportFile d nm ap g = (r, g')" by fastforce
  show ?thesis using calm_open_report [OF a r] r
    by (cases r) (auto simp: save_report_def sys_fputs_def sys_fclose_def calm_def)
qed

subsection \<open>Reports\<close>

lemma calm_save [keeps_calm]:
  "calm n b g \<Longrightarrow> calm n b (SaveXfrmStatistics mem d nm g)" "calm n b g \<Longrightarrow> calm n b (SaveDaemonStatus d nm g)"
  "calm n b g \<Longrightarrow> calm n b (SaveAlgorithms mem d g)" "calm n b g \<Longrightarrow> calm n b (SaveNetwork mem d g)"
  unfolding SaveXfrmStatistics_def SaveDaemonStatus_def SaveAlgorithms_def SaveNetwork_def
  by (rule calm_rules keeps_calm | assumption)+

lemma calm_query_final [keeps_calm]: "calm n b g \<Longrightarrow> calm n b (snd (query_final mem g))"
  unfolding query_final_def
  by (rule calm_rules keeps_calm | assumption)+

lemma calm_final [keeps_calm]:
  "calm n b g \<Longrightarrow> calm n b (SaveFinalState mem d g)"
  "calm n b g \<Longrightarrow> calm n b (fst (WriteNativeAppAlgorithmRunReport mem c m role d k fin g))"
  "calm n b g \<Longrightarrow> calm n b (snd (CountCleanupState mem c i g))"
  "calm n b g \<Longrightarrow> calm n b (SaveSaSnapshot mem c d g)"
  unfolding SaveFinalState_def WriteNativeAppAlgorithmRunReport_def CountCleanupState_def SaveSaSnapshot_def
  by (rule calm_rules keeps_calm | assumption)+

lemma calm_directory [keeps_calm]: "calm n b g \<Longrightarrow> calm n b (fst (CreateReportDirectory d g))"
  unfolding CreateReportDirectory_def by (rule calm_rules keeps_calm | assumption)+

lemma calm_case_reports [keeps_calm]:
  "calm n b g \<Longrightarrow> calm n b (snd (fst (CreateNativeAppAlgorithmCaseReport c k role d o1 q (buf, g))))"
  "calm n b g \<Longrightarrow> calm n b (fst (CaptureNativeAppAlgorithmCaseReport mem c r d g))"
  "calm n b g \<Longrightarrow> calm n b (fst (FinishNativeAppAlgorithmCaseReport mem c r role d cd o1 q g))"
  unfolding CreateNativeAppAlgorithmCaseReport_def CaptureNativeAppAlgorithmCaseReport_def
    FinishNativeAppAlgorithmCaseReport_def prod.case
  by (rule calm_rules keeps_calm | assumption)+

subsection \<open>The result file\<close>

text \<open>The result file is one more open file.\<close>

lemma calm_stream [keeps_calm]:
  "calm n b g \<Longrightarrow> calm n b (snd (sys_ftell f g))" "calm n b g \<Longrightarrow> calm n b (snd (sys_fflush g))"
  "calm n b g \<Longrightarrow> calm n b (snd (snd (sys_fseek off f g)))"
  using calm_call [of n b g] by (auto simp: sys_ftell_def sys_fflush_def sys_fseek_def case_prod_beta Let_def)

lemma calm_tail: "calm n b g \<Longrightarrow> calm n b (snd (snd (snd (write_with_tail t f g))))"
  using calm_fputs [of n b] calm_stream(1,2) [of n b]
  by (auto simp: write_with_tail_def Let_def case_prod_beta)

lemma calm_json_open:
  assumes "OpenNativeAppAlgorithmJson opts run k g = ((p, g'), e)" and "calm n b g"
  shows "calm (if e = IPSEC_OK then n + 1 else n) b g'" and "e = IPSEC_OK \<Longrightarrow> jw_pFile p \<noteq> None"
proof -
  let ?p = "case ao_pcResultsPath opts of Some p \<Rightarrow> p | None \<Rightarrow> ''results.json''"
  obtain r g1 where o: "sys_fopen ?p False g = (r, g1)" by fastforce
  note c = calm_fopen [OF assms(2) o]
  have "calm (if e = IPSEC_OK then n + 1 else n) b g' \<and> (e = IPSEC_OK \<longrightarrow> jw_pFile p \<noteq> None)"
  proof (cases r)
    case None
    then show ?thesis using assms(1) o c by (auto simp: OpenNativeAppAlgorithmJson_def Let_def)
  next
    case (Some f)
    obtain off fl f' g2 where w: "write_with_tail (json_head opts run k) f g1 = (off, fl, f', g2)"
      by (metis prod.exhaust)
    have "calm (n + 1) b g1" using c Some by simp
    then have "calm (n + 1) b g2" using calm_tail [of "n + 1" b g1 "json_head opts run k" f] w by simp
    then show ?thesis using assms(1) o w Some
      by (auto simp: OpenNativeAppAlgorithmJson_def Let_def sys_fclose_def calm_def split: if_splits)
  qed
  then show "calm (if e = IPSEC_OK then n + 1 else n) b g'" "e = IPSEC_OK \<Longrightarrow> jw_pFile p \<noteq> None" by blast+
qed

lemma calm_json_append:
  assumes "AppendNativeAppAlgorithmJson r (p, g) = ((p', g'), e)" and "calm n b g"
  shows "calm n b g'" and "(jw_pFile p' = None) = (jw_pFile p = None)"
proof -
  have "calm n b g' \<and> (jw_pFile p' = None) = (jw_pFile p = None)"
  proof (cases "jw_pFile p")
    case None
    then show ?thesis using assms by (auto simp: AppendNativeAppAlgorithmJson_def)
  next
    case (Some f)
    obtain m f1 g1 where s: "sys_fseek (jw_lTailOffset p) f g = (m, f1, g1)" by (metis prod.exhaust)
    have g1: "calm n b g1" using calm_stream(3) [OF assms(2), of "jw_lTailOffset p" f] s by simp
    obtain off fl f' g2 where
      w: "write_with_tail ((if 0 < jw_uiCaseCount p then '','' @ nl else []) @ json_case r) f1 g1 = (off, fl, f', g2)"
      by (metis prod.exhaust)
    have "calm n b g2" using calm_tail [OF g1] w by (metis snd_conv)
    then show ?thesis using assms(1) Some s w g1
      by (auto simp: AppendNativeAppAlgorithmJson_def Let_def split: if_splits)
  qed
  then show "calm n b g'" "(jw_pFile p' = None) = (jw_pFile p = None)" by blast+
qed

lemma calm_json_close:
  assumes "CloseNativeAppAlgorithmJson (p, g) = (p', g')" and "calm (n + 1) b g" and "jw_pFile p \<noteq> None"
  shows "calm n b g'"
proof -
  obtain f where f: "jw_pFile p = Some f" using assms(3) by blast
  obtain m f1 g1 where s: "sys_fseek (jw_lTailOffset p) f g = (m, f1, g1)" by (metis prod.exhaust)
  have g1: "calm (n + 1) b g1" using calm_stream(3) [OF assms(2), of "jw_lTailOffset p" f] s by simp
  have "calm (n + 1) b (snd (sys_fflush (snd (sys_fputs (json_summary p) f1 g1))))"
    using calm_stream(2) calm_fputs [OF g1] by blast
  then show ?thesis using assms(1) f s g1
    by (auto simp: CloseNativeAppAlgorithmJson_def Let_def case_prod_beta sys_fclose_def calm_def split: if_splits)
qed

subsection \<open>The runner\<close>

lemma calm_stop [keeps_calm]: "calm n b g \<Longrightarrow> calm n b (snd (sweep_stop g))"
  using stop_idle [of "ag_App g"] by (simp add: sweep_stop_def case_prod_beta calm_def)

lemma calm_sleep [keeps_calm]: "calm n b g \<Longrightarrow> calm n b (SleepNativeAppAlgorithm t g)"
  using SleepNativeApp_idle [of "ag_App g" t] by (simp add: SleepNativeAppAlgorithm_def calm_def)

lemma calm_time [keeps_calm]:
  "calm n b g \<Longrightarrow> calm n b (snd (GetNativeAppAlgorithmTimeMs g))" "calm n b g \<Longrightarrow> calm n b (snd (sys_pid g))"
  "calm n b g \<Longrightarrow> calm n b (snd (sys_local_time fmt g))"
  using calm_next [of n b g]
  by (auto simp: GetNativeAppAlgorithmTimeMs_def sys_pid_def sys_local_time_def case_prod_beta
      split: option.split sweep_event.split)

lemma calm_log [keeps_calm]: "calm n b g \<Longrightarrow> calm n b (ReportNativeAppAlgorithm o1 l t g)"
proof -
  have log: "calm n b (log_line l t g)" if g: "calm n b g" for g
  proof (cases "ag_log g")
    case None
    then show ?thesis using g by (simp add: log_line_def)
  next
    case (Some f)
    then have b using g by (simp add: calm_def)
    then show ?thesis using Some g calm_time(3) [OF g, of log_time]
      by (auto simp: log_line_def Let_def case_prod_beta calm_def sys_fputs_def split: option.split)
  qed
  assume "calm n b g"
  then show ?thesis by (simp add: ReportNativeAppAlgorithm_def calm_print log)
qed

lemma calm_runner_directory [keeps_calm]: "calm n b g \<Longrightarrow> calm n b (fst (CreateNativeAppAlgorithmDirectory d g))"
  unfolding CreateNativeAppAlgorithmDirectory_def by (rule calm_rules keeps_calm | assumption)+

lemma calm_run_id [keeps_calm]: "calm n b g \<Longrightarrow> calm n b (snd (fst (CreateNativeAppAlgorithmRunId m buf g)))"
  unfolding CreateNativeAppAlgorithmRunId_def by (rule calm_rules keeps_calm | assumption)+

lemma calm_config [keeps_calm]: "calm n b g \<Longrightarrow> calm n b (snd (fst (BuildNativeAppAlgorithmConfig c k g)))"
  unfolding BuildNativeAppAlgorithmConfig_def by (rule calm_rules keeps_calm | assumption)+

lemma calm_send [keeps_calm]: "calm n b g \<Longrightarrow> calm n b (fst (SendNativeAppAlgorithmMessage r t g))"
  using calm_next [of n b g]
  by (auto simp: SendNativeAppAlgorithmMessage_def case_prod_beta Let_def calm_fields
      split: option.split sweep_event.split)

lemma calm_receive [keeps_calm]: "calm n b g \<Longrightarrow> calm n b (snd (fst (ReceiveNativeAppAlgorithmMessage r g)))"
  using calm_next [of n b g]
  by (auto simp: ReceiveNativeAppAlgorithmMessage_def case_prod_beta split: option.split sweep_event.split)

lemma calm_wait_loop: "calm n b g \<Longrightarrow> calm n b (snd (fst (wait_response_loop r a i t el g)))"
proof (induction r a i t el g rule: wait_response_loop.induct)
  case (1 r a i t el g)
  obtain s g1 where s: "sweep_stop g = (s, g1)" by fastforce
  obtain m e where m: "ReceiveNativeAppAlgorithmMessage r g1 = (m, e)" by fastforce
  have g1: "calm n b g1" using calm_stop [OF 1(5)] s by simp
  have g2: "calm n b (snd m)" using calm_receive [OF g1, of r] m by simp
  note IH = 1(1-4) [OF _ s [symmetric] refl _ m [symmetric] refl]
  show ?case using IH g1 g2 1(5) by (subst wait_response_loop.simps) (auto simp: s m Let_def split: option.split)
qed

lemma calm_wait [keeps_calm]: "calm n b g \<Longrightarrow> calm n b (snd (fst (WaitNativeAppAlgorithmResponse r a i t (p, g))))"
  using calm_wait_loop [of n b g r a i t 0]
  by (auto simp: WaitNativeAppAlgorithmResponse_def Let_def case_prod_beta split: option.split)

lemma calm_and_then [keeps_calm]:
  "calm n b (fst x) \<Longrightarrow> (\<And>g. calm n b g \<Longrightarrow> calm n b (fst (f g))) \<Longrightarrow> calm n b (fst (and_then x f))"
  by (simp add: and_then_def)

lemma calm_prepare_round [keeps_calm]: "calm n b g \<Longrightarrow> calm n b (fst (prepare_round r i m g))"
  unfolding prepare_round_def by (rule calm_rules keeps_calm | assumption)+

lemma calm_prepare_loop [keeps_calm]: "calm n b g \<Longrightarrow> calm n b (fst (prepare_loop r i m t el g))"
proof (induction r i m t el g rule: prepare_loop.induct)
  case (1 r i m t el g)
  obtain s g1 where s: "sweep_stop g = (s, g1)" by fastforce
  obtain g2 e where m: "prepare_round r i m g1 = (g2, e)" by fastforce
  have g1: "calm n b g1" using calm_stop [OF 1(2)] s by simp
  have g2: "calm n b g2" using calm_prepare_round [OF g1, of r i m] m by simp
  show ?case using 1(1) [OF _ s [symmetric] refl _ m [symmetric] refl] g1 g2 1(2)
    by (subst prepare_loop.simps) (auto simp: s m Let_def)
qed

lemma calm_peer [keeps_calm]:
  "calm n b g \<Longrightarrow> calm n b (fst (PrepareNativeAppAlgorithmPeer r k i q t g))"
  "calm n b g \<Longrightarrow> calm n b (snd (fst (VerifyNativeAppAlgorithmPeer r k t (buf, g))))"
  "calm n b g \<Longrightarrow> calm n b (fst (FinishNativeAppAlgorithmRun r i t g))"
  unfolding PrepareNativeAppAlgorithmPeer_def VerifyNativeAppAlgorithmPeer_def FinishNativeAppAlgorithmRun_def prod.case
  by (rule calm_rules keeps_calm | assumption)+

lemma calm_finish_loop: "calm n b g \<Longrightarrow> calm n b (snd (fst (finish_peer_loop k r i m t (u, g))))"
proof (induction k arbitrary: u g)
  case (Suc k)
  show ?case unfolding finish_peer_loop.simps prod.case
    by (rule calm_rules keeps_calm Suc.IH Suc.prems | assumption)+
qed simp

lemma calm_finish_peer [keeps_calm]:
  "calm n b g \<Longrightarrow> calm n b (snd (fst (FinishNativeAppAlgorithmPeer r k a t (u, g))))"
  unfolding FinishNativeAppAlgorithmPeer_def snd_conv fst_conv
  by (rule calm_rules keeps_calm calm_finish_loop | assumption)+

subsection \<open>The cases\<close>

lemma calm_library [keeps_calm]:
  assumes "calm n b g"
  shows "calm n b (fst (in_app (on_ipsec (AddIpsecConnection k)) g))"
    and "calm n b (fst (in_app (on_ipsec (RemoveIpsecConnection nm)) g))"
    and "calm n b (fst (in_app (on_ipsec (TerminateIpsecIke nm o1)) g))"
    and "calm n b (fst (in_app (StartNativeAppConnection mem c) g))"
    and "calm n b (fst (in_app (LoadNativeAppCredential mem c) g))"
    and "calm n b (fst (in_app (WaitNativeAppRemovedWithTimeout mem c i t) g))"
  unfolding WaitNativeAppRemovedWithTimeout_def
  by (rule calm_app [OF _ assms]; auto intro!: sa_idle control_idle wait_removed_idle keeps_idle)+

lemma calm_state [keeps_calm]:
  "calm n b (snd s) \<Longrightarrow> calm n b (snd (fst (QueryNativeAppAlgorithmState mem c k s)))"
  "calm n b g \<Longrightarrow> calm n b (ReportNativeAppAlgorithmFinalState mem g)"
  "calm n b g \<Longrightarrow> calm n b (snd (fst (CheckNativeAppAlgorithmConnectionRemoved mem c g)))"
  unfolding QueryNativeAppAlgorithmState_def ReportNativeAppAlgorithmFinalState_def
    CheckNativeAppAlgorithmConnectionRemoved_def
  by (rule calm_rules keeps_calm | assumption)+

lemma calm_terminate [keeps_calm]: "calm n b (snd s) \<Longrightarrow> calm n b (snd (terminate_step t c s))"
  unfolding terminate_step_def by (rule calm_rules keeps_calm | assumption)+

lemma calm_remove_sa [keeps_calm]: "calm n b (snd s) \<Longrightarrow> calm n b (snd (remove_sa_loop k mem c i t ms s))"
proof (induction k arbitrary: s)
  case (Suc k)
  show ?case unfolding remove_sa_loop.simps
    by (rule calm_rules keeps_calm Suc.IH Suc.prems | assumption)+
qed simp

lemma calm_remove_connection [keeps_calm]:
  "calm n b (snd s) \<Longrightarrow> calm n b (snd (remove_connection_loop k mem c s))"
proof (induction k arbitrary: s)
  case (Suc k)
  show ?case unfolding remove_connection_loop.simps
    by (rule calm_rules keeps_calm Suc.IH Suc.prems | assumption)+
qed simp

lemma calm_cleanup [keeps_calm]: "calm n b g \<Longrightarrow> calm n b (snd (fst (CleanupNativeAppAlgorithmCase mem c i t g)))"
  unfolding CleanupNativeAppAlgorithmCase_def by (rule calm_rules keeps_calm | assumption)+

lemma calm_case_parts [keeps_calm]:
  "calm n b (snd s) \<Longrightarrow> calm n b (snd (fst (case_client_start mem c k s)))"
  "calm n b (snd (fst x)) \<Longrightarrow> calm n b (snd (fst (case_client_query mem c k d x)))"
  "calm n b (snd s) \<Longrightarrow> calm n b (snd (fst (case_client_verify r c k s)))"
  "calm n b (snd s) \<Longrightarrow> calm n b (snd (case_client_cleanup mem c l t s))"
  "calm n b (snd s) \<Longrightarrow> calm n b (snd (case_client_finish r c k l s))"
  unfolding case_client_start_def case_client_query_def case_client_verify_def case_client_cleanup_def
    case_client_finish_def
  by (rule calm_rules keeps_calm | assumption)+

lemma calm_case_load [keeps_calm]:
  "calm n b (snd s) \<Longrightarrow> calm n b (snd (fst (case_client_load r c i q k s)))"
  unfolding case_client_load_def by (rule calm_rules keeps_calm | assumption)+

lemma calm_case_test [keeps_calm]:
  "calm n b (snd (fst x)) \<Longrightarrow> calm n b (snd (fst (case_client_test mem r c k d x)))"
  unfolding case_client_test_def by (rule calm_rules keeps_calm | assumption)+

lemma calm_case_client [keeps_calm]:
  "calm n b (snd s) \<Longrightarrow> calm n b (snd (fst (RunNativeAppAlgorithmCaseClient mem r c i q k d s)))"
  unfolding RunNativeAppAlgorithmCaseClient_def by (rule calm_rules keeps_calm | assumption)+

lemma calm_client_case [keeps_calm]: "calm n b g \<Longrightarrow> calm n b (snd (fst (client_case mem run u g)))"
  unfolding client_case_def by (rule calm_rules keeps_calm | assumption)+

subsection \<open>The run of the initiator\<close>

text \<open>During the loop the socket, the log and the result file are open.\<close>

definition running :: "nat \<Rightarrow> sweep_state \<Rightarrow> bool" where
  "running n s \<longleftrightarrow> calm n True (snd s) \<and> jw_pFile (fst s) \<noteq> None"

lemma running_round:
  assumes "running n s"
  shows "running n (fst (client_round mem run u s))"
proof -
  obtain p g where s: "s = (p, g)" by (cases s)
  obtain r g1 e where c: "client_case mem run u g = ((r, g1), e)" by (metis prod.exhaust)
  have g1: "calm n True g1" using calm_client_case [of n True g mem run u] assms s c by (simp add: running_def)
  obtain p' g2 e' where a: "AppendNativeAppAlgorithmJson r (p, g1) = ((p', g2), e')" by (metis prod.exhaust)
  show ?thesis using calm_json_append [OF a g1] assms s c a
    by (auto simp: client_round_def running_def Let_def)
qed

lemma running_loop: "running n (fst x) \<Longrightarrow> running n (fst (client_loop mem run u x))"
proof (induction mem run u x rule: client_loop.induct)
  case (1 mem run u x)
  obtain s e0 where x: "x = (s, e0)" by (cases x)
  obtain b g where st: "sweep_stop (snd s) = (b, g)" by fastforce
  obtain s1 e where r: "client_round mem run u (fst s, g) = (s1, e)" by fastforce
  have g: "running n (fst s, g)" using calm_stop [of n True "snd s"] 1(2) x st by (simp add: running_def)
  have s1: "running n s1" using running_round [OF g, of mem run u] r by simp
  have sl: "running n (fst s1, SleepNativeAppAlgorithm t (snd s1))" for t
    using s1 calm_sleep by (simp add: running_def)
  show ?case using 1(1) [OF refl x [symmetric] _ refl st [symmetric] refl _ refl r [symmetric] refl] 1(2) x g s1 sl
    by (subst client_loop.simps) (auto simp: st r Let_def)
qed

text \<open>What is open when the preparation ends: the socket if the flag is set, and the log.\<close>

lemma calm_open_log:
  assumes "OpenNativeAppAlgorithmRunLog c i role (d, g) = ((d', g'), e)" and "calm n False g"
  shows "\<exists>b. calm (n + of_bool b) b g' \<and> (b \<longleftrightarrow> e = IPSEC_OK)"
proof -
  obtain nm f where n: "snprintf_to (replicate NATIVE_APP_PATH_LENGTH NUL) (cstr i @ ''_'' @ cstr role) = (nm, f)"
    by fastforce
  obtain d1 e1 where j: "JoinNativeAppAlgorithmPath d (nc_acOutputRoot c) nm = (d1, e1)" by fastforce
  obtain g1 e2 where m: "(if e1 = IPSEC_OK then CreateNativeAppAlgorithmDirectory d1 g else (g, e1)) = (g1, e2)" by fastforce
  have g1: "calm n False g1"
    using calm_runner_directory [OF assms(2), of d1] m assms(2) by (auto split: if_splits)
  obtain lp e3 where l: "(if e2 = IPSEC_OK
      then JoinNativeAppAlgorithmPath (replicate NATIVE_APP_PATH_LENGTH NUL) d1 ''application.log''
      else (replicate NATIVE_APP_PATH_LENGTH NUL, e2)) = (lp, e3)" by fastforce
  obtain r g2 where o: "sys_fopen lp False g1 = (r, g2)" by fastforce
  have g2: "calm (n + (if r = None then 0 else 1)) False g2" by (rule calm_fopen [OF g1 o])
  have e: "((d', g'), e) =
      (if \<not> f then ((d, g), IPSEC_ERR_BUFFER_TOO_SMALL)
       else if e3 \<noteq> IPSEC_OK then ((d1, g1), e3)
       else ((d1, g2\<lparr>ag_log := r\<rparr>), if r = None then IPSEC_ERR_FILE_OPEN else IPSEC_OK))"
    using assms(1) unfolding OpenNativeAppAlgorithmRunLog_def Let_def prod.case n j m l o by simp
  show ?thesis
  proof (cases "f \<and> e3 = IPSEC_OK \<and> r \<noteq> None")
    case True
    then have "calm (n + of_bool True) True g' \<and> (True \<longleftrightarrow> e = IPSEC_OK)" using e g2 by (auto simp: calm_def)
    then show ?thesis by blast
  next
    case False
    then have "calm (n + of_bool False) False g' \<and> (False \<longleftrightarrow> e = IPSEC_OK)"
      using e g1 g2 assms(2) by (auto simp: calm_def split: if_splits)
    then show ?thesis by blast
  qed
qed

lemma calm_socket:
  assumes "OpenNativeAppAlgorithmSocket a g = (g', e)" and "calm n b g"
  shows "calm (n + of_bool (e = IPSEC_OK)) b g'"
proof -
  obtain k g1 where 1: "sweep_call g = (k, g1)" by fastforce
  obtain k2 g2 where 2: "sweep_call (g1\<lparr>ag_open := ag_open g1 + 1\<rparr>) = (k2, g2)" by fastforce
  obtain k3 g3 where 3: "(if k2 then sweep_call g2 else (False, g2)) = (k3, g3)" by fastforce
  have g1: "calm n b g1" using calm_call [OF assms(2)] 1 by simp
  then have "calm (n + 1) b (g1\<lparr>ag_open := ag_open g1 + 1\<rparr>)" by (simp add: calm_def)
  from calm_call [OF this] have g2: "calm (n + 1) b g2" using 2 by simp
  from calm_call [OF this] g2 have g3: "calm (n + 1) b g3" using 3 by (auto split: if_splits)
  show ?thesis using assms(1) 1 2 3 g1 g3
    by (auto simp: OpenNativeAppAlgorithmSocket_def Let_def calm_def split: if_splits)
qed

lemma calm_close_log:
  assumes "calm (n + of_bool b) b g"
  shows "calm n False (close_log g)"
  using assms by (auto simp: close_log_def sys_fclose_def calm_def split: option.split)

lemma calm_close_socket: "calm (n + 1) b g \<Longrightarrow> calm n b (close_socket g)"
  by (simp add: close_socket_def calm_def)

lemma running_prepare:
  assumes p: "client_prepare mem c opts k g = (((run, path, bSocket), (p, g')), e)" and "calm n False g"
  shows "e = IPSEC_OK \<Longrightarrow> bSocket \<and> running (n + 3) (p, g')"
    and "e \<noteq> IPSEC_OK \<Longrightarrow> \<exists>b. calm (n + of_bool bSocket + of_bool b) b g'"
proof -
  let ?none = "replicate NATIVE_APP_PATH_LENGTH NUL"
  let ?port = "if ao_uiPort opts = 0 then NATIVE_APP_ALGORITHM_DEFAULT_PORT else ao_uiPort opts"
  obtain ri g0 e0 where 0: "CreateNativeAppAlgorithmRunId (ao_eMode opts)
      (replicate NATIVE_APP_ALGORITHM_RUN_ID_LENGTH NUL) g = ((ri, g0), e0)" by (metis prod.exhaust)
  have g0: "calm n False g0" using calm_run_id [OF assms(2), of "ao_eMode opts"] 0 by (metis fst_conv snd_conv)
  obtain d g1 e1 where 1: "(if e0 = IPSEC_OK then OpenNativeAppAlgorithmRunLog c ri ''initiator'' (?none, g0)
      else ((?none, g0), e0)) = ((d, g1), e1)" by (metis prod.exhaust)
  obtain b where b: "calm (n + of_bool b) b g1" "b \<longleftrightarrow> e1 = IPSEC_OK"
  proof (cases "e0 = IPSEC_OK")
    case True
    then show ?thesis using calm_open_log [OF _ g0, of c ri "''initiator''" ?none d g1 e1] 1 that by auto
  next
    case False
    then show ?thesis using 1 g0 that [of False] by simp
  qed
  obtain rp e2 where 2: "(if e1 = IPSEC_OK then JoinNativeAppAlgorithmPath ?none d (base_name (ao_pcResultsPath opts))
      else (?none, e1)) = (rp, e2)" by fastforce
  define l r where "l = InitializeNativeAppAlgorithmEndpoint (nc_acLocalAddress c) ?port"
    and "r = InitializeNativeAppAlgorithmEndpoint (nc_acRemoteAddress c) ?port"
  define e3 where "e3 = (if e2 = IPSEC_OK then require_some l else e2)"
  define e4 where "e4 = (if e3 = IPSEC_OK then require_some r else e3)"
  obtain g5 e5 where 5: "(case l of
        Some a \<Rightarrow> if e4 = IPSEC_OK then OpenNativeAppAlgorithmSocket (any_port a) g1 else (g1, e4)
      | None \<Rightarrow> (g1, e4)) = (g5, e5)" by fastforce
  have e: "e1 \<noteq> IPSEC_OK \<Longrightarrow> e2 \<noteq> IPSEC_OK" "e2 \<noteq> IPSEC_OK \<Longrightarrow> e4 \<noteq> IPSEC_OK" "l = None \<Longrightarrow> e4 \<noteq> IPSEC_OK"
    using 2 by (auto simp: e3_def e4_def require_some_def split: if_splits)
  have g5: "calm (n + of_bool b + of_bool (e5 = IPSEC_OK)) b g5" and "e5 = IPSEC_OK \<Longrightarrow> b"
  proof -
    show "calm (n + of_bool b + of_bool (e5 = IPSEC_OK)) b g5"
    proof (cases "e4 = IPSEC_OK \<and> l \<noteq> None")
      case True
      then obtain a where "OpenNativeAppAlgorithmSocket (any_port a) g1 = (g5, e5)" using 5 by auto
      from calm_socket [OF this b(1)] show ?thesis .
    next
      case False
      then show ?thesis using 5 b e by (auto split: option.splits)
    qed
    show "e5 = IPSEC_OK \<Longrightarrow> b" using 5 b e by (auto split: option.splits if_splits)
  qed
  note g5 = this
  obtain g6 e6 where 6: "(if e5 = IPSEC_OK then in_app (LoadNativeAppCredential mem c) g5 else (g5, e5)) = (g6, e6)"
    by fastforce
  obtain g7 e7 where 7: "(if e6 = IPSEC_OK
      then WriteNativeAppAlgorithmRunReport mem c (ao_eMode opts) ''initiator'' d k False g6 else (g6, e6)) = (g7, e7)"
    by fastforce
  have g6: "calm (n + of_bool b + of_bool (e5 = IPSEC_OK)) b g6"
    using 6 g5(1) calm_library(5) [OF g5(1), of mem c] by (auto split: if_splits)
  have g7: "calm (n + of_bool b + of_bool (e5 = IPSEC_OK)) b g7" "e7 = IPSEC_OK \<Longrightarrow> e5 = IPSEC_OK"
    using 6 7 g6 calm_final(2) [OF g6, of mem c "ao_eMode opts" "''initiator''" d k False] by (auto split: if_splits)
  obtain wr g8 e8 where 8: "(if e7 = IPSEC_OK
      then OpenNativeAppAlgorithmJson (opts\<lparr>ao_pcResultsPath := Some rp\<rparr>) ri k g7 else ((zero_writer, g7), e7)) =
      ((wr, g8), e8)" by (metis prod.exhaust)
  have "wr = p" "g8 = g'" "e8 = e" and s: "bSocket = (e5 = IPSEC_OK)"
    using p unfolding client_prepare_def Let_def 0 prod.case 1 2 l_def [symmetric] r_def [symmetric]
      e3_def [symmetric] e4_def [symmetric] 5 6 7 8 by simp_all
  note j = 8 [unfolded this(1-3)]
  have w: "calm (if e = IPSEC_OK then n + of_bool b + of_bool (e5 = IPSEC_OK) + 1
      else n + of_bool b + of_bool (e5 = IPSEC_OK)) b g' \<and> (e = IPSEC_OK \<longrightarrow> e5 = IPSEC_OK \<and> jw_pFile p \<noteq> None)"
  proof (cases "e7 = IPSEC_OK")
    case True
    then have "OpenNativeAppAlgorithmJson (opts\<lparr>ao_pcResultsPath := Some rp\<rparr>) ri k g7 = ((p, g'), e)" using j by simp
    from calm_json_open [OF this g7(1)] g7(2) [OF True] show ?thesis by blast
  next
    case False
    then show ?thesis using j g7(1) by simp
  qed
  show "bSocket \<and> running (n + 3) (p, g')" if "e = IPSEC_OK"
  proof -
    have "n + of_bool b + of_bool (e5 = IPSEC_OK) + 1 = n + 3" and "b" and "bSocket" using w that g5(2) s by simp_all
    then show ?thesis using w that unfolding running_def by (metis fst_conv snd_conv)
  qed
  show "\<exists>b. calm (n + of_bool bSocket + of_bool b) b g'" if "e \<noteq> IPSEC_OK"
  proof -
    have "n + of_bool b + of_bool (e5 = IPSEC_OK) = n + of_bool bSocket + of_bool b" using s by simp
    then show ?thesis using w that by metis
  qed
qed

lemma calm_client_finish:
  assumes "running (n + 3) (fst x)"
  shows "calm n False (fst (client_finish mem run x))"
proof -
  obtain p g e where x: "x = ((p, g), e)" by (metis prod.exhaust)
  obtain k g1 where 1: "sweep_stop g = (k, g1)" by fastforce
  have three: "n + 3 = n + 2 + 1" by simp
  have g1: "calm (n + 2 + 1) True g1" using calm_stop [of "n + 2 + 1" True g] assms x 1
    unfolding running_def three by simp
  obtain p' g2 where 2: "CloseNativeAppAlgorithmJson (p, ReportNativeAppAlgorithm True (passed_text (jw_uiFailed p = 0))
       (''algorithm summary: completed='' @ dec (jw_uiCaseCount p) @ '' passed='' @ dec (jw_uiPassed p) @
        '' failed='' @ dec (jw_uiFailed p)) g1) = (p', g2)" by fastforce
  have g2: "calm (n + 2) True g2"
    by (rule calm_json_close [OF 2]) (use calm_log [OF g1] assms x in \<open>simp_all add: running_def\<close>)
  obtain g3 e3 where 3: "FinishNativeAppAlgorithmRun (sr_Remote run) (sr_acRunId run)
      (nc_uiTimeoutMs (sr_Config run)) g2 = (g3, e3)" by fastforce
  have g3: "calm (n + 2) True g3"
    using calm_peer(3) [OF g2, of "sr_Remote run" "sr_acRunId run" "nc_uiTimeoutMs (sr_Config run)"] 3 by simp
  have "calm (n + 2) True (fst (WriteNativeAppAlgorithmRunReport mem c m role d q fin
      (ReportNativeAppAlgorithmFinalState mem (ReportNativeAppAlgorithm True l t g3))))" for c m role d q fin l t
    by (intro keeps_calm g3)
  then have "calm n False (close_log (close_socket (fst (WriteNativeAppAlgorithmRunReport mem c m role d q fin
      (ReportNativeAppAlgorithmFinalState mem (ReportNativeAppAlgorithm True l t g3))))))" for c m role d q fin l t
    by (intro calm_close_log [where b = True] calm_close_socket) simp
  then show ?thesis unfolding client_finish_def x Let_def prod.case 1 2 3 by simp
qed

lemma calm_client:
  assumes "calm n False g"
  shows "calm n False (fst (RunNativeAppAlgorithmClient mem c opts g))"
proof -
  define q where "q = (if ao_uiLimit opts = 0 then GetNativeAppAlgorithmCaseCount (ao_eMode opts) - ao_uiStart opts + 1
    else if ao_uiLimit opts < GetNativeAppAlgorithmCaseCount (ao_eMode opts) - ao_uiStart opts + 1 then ao_uiLimit opts
    else GetNativeAppAlgorithmCaseCount (ao_eMode opts) - ao_uiStart opts + 1)"
  have g0: "calm n False (g\<lparr>ag_log := None\<rparr>)" using assms by (simp add: calm_def)
  obtain run path bSocket p g1 e where
    p: "client_prepare mem c opts q (g\<lparr>ag_log := None\<rparr>) = (((run, path, bSocket), (p, g1)), e)" by (metis prod.exhaust)
  note open_files = running_prepare [OF p g0]
  have ok: "calm n False (fst (client_finish mem run (client_loop mem run 0 ((p, ReportNativeAppAlgorithm True l t g1), IPSEC_OK))))"
    if "e = IPSEC_OK" for l t
  proof -
    have "running (n + 3) (p, ReportNativeAppAlgorithm True l t g1)"
      using open_files(1) [OF that] calm_log by (simp add: running_def)
    then show ?thesis by (intro calm_client_finish running_loop) simp
  qed
  have bad: "calm n False (close_log (if bSocket then close_socket g1 else g1))" if err: "e \<noteq> IPSEC_OK"
  proof -
    obtain b where b: "calm (n + of_bool bSocket + of_bool b) b g1" using open_files(2) [OF err] by blast
    show ?thesis
    proof (rule calm_close_log [where b = b])
      show "calm (n + of_bool b) b (if bSocket then close_socket g1 else g1)"
        using b calm_close_socket [of "n + of_bool b" b g1] by (cases bSocket; cases b) simp_all
    qed
  qed
  show ?thesis
    unfolding RunNativeAppAlgorithmClient_def Let_def q_def [symmetric] p prod.case
    using ok bad assms by (simp add: Let_def)
qed

subsection \<open>The responder\<close>

lemma calm_reply [keeps_calm]: "calm n b g \<Longrightarrow> calm n b (fst (ReplyNativeAppAlgorithmServer s a k r g))"
  unfolding ReplyNativeAppAlgorithmServer_def by (rule calm_rules keeps_calm | assumption)+

lemma calm_server_case [keeps_calm]:
  "calm n b (snd s) \<Longrightarrow> calm n b (snd (fst (server_verify mem c k d a s)))"
  "calm n b (snd s) \<Longrightarrow> calm n b (snd (fst (server_cleanup mem c k t a s)))"
  "calm n b (snd (fst y)) \<Longrightarrow> calm n b (snd (fst (server_case_end mem c y)))"
  "calm n b g \<Longrightarrow> calm n b (fst (answer_id a t i g))"
  unfolding server_verify_def server_cleanup_def server_case_end_def answer_id_def
  by (rule calm_rules keeps_calm | assumption)+

lemma calm_server_message: "calm n b (snd (fst y)) \<Longrightarrow> calm n b (snd (fst (fst (server_message mem c k d t a y))))"
  by (simp add: server_message_def case_prod_beta Let_def calm_reply calm_server_case(1,2))

lemma calm_server_loop:
  assumes "server_case_loop mem c k d p t el y = Some y'"
  shows "calm n b (snd (fst y)) \<longrightarrow> calm n b (snd (fst y'))"
proof (rule server_case_loop.raw_induct
    [where P = "\<lambda>mem c k d p t el y y'. calm n b (snd (fst y)) \<longrightarrow> calm n b (snd (fst y'))", OF _ assms], intro impI)
  fix loop :: "(nat \<Rightarrow> bool) \<Rightarrow> NativeAppConfig \<Rightarrow> NativeAppAlgorithmCase \<Rightarrow> string \<Rightarrow> NativeAppAlgorithmEndpoint \<Rightarrow>
    nat \<Rightarrow> nat \<Rightarrow> (ServerCase \<times> AlgorithmWorld) outcome \<Rightarrow> (ServerCase \<times> AlgorithmWorld) outcome option"
    and mem c k d p t el and y y' :: "(ServerCase \<times> AlgorithmWorld) outcome"
  assume IH: "\<And>mem c k d p t el y y'. loop mem c k d p t el y = Some y' \<Longrightarrow>
      calm n b (snd (fst y)) \<longrightarrow> calm n b (snd (fst y'))"
    and run: "(if snd y \<noteq> IPSEC_OK \<or> t < el then Some y
      else
        let (bStop, g) = sweep_stop (snd (fst y)); x = fst (fst y) in
        if bStop then Some ((x, g), IPSEC_OK)
        else
          let (m, eError) = ReceiveNativeAppAlgorithmMessage p g in
          if eError = IPSEC_ERR_VICI_TIMEOUT
          then loop mem c k d p t (el + NATIVE_APP_ALGORITHM_POLL_MS) ((x, snd m), IPSEC_OK)
          else
            case (if eError = IPSEC_ERR_PERMISSION then None
                  else SplitNativeAppAlgorithmMessage (fst (fst m)) 10) of
              None \<Rightarrow> loop mem c k d p t el ((x, snd m), IPSEC_OK)
            | Some pacFields \<Rightarrow>
                if length pacFields < 3 \<or> \<not> strcmp_eq (ac_acId k) (pacFields ! 2)
                then loop mem c k d p t el ((x, snd m), IPSEC_OK)
                else
                  let (y, bBreak) = server_message mem c k d (pacFields ! 1) (snd (fst m)) ((x, snd m), eError)
                  in if bBreak then Some y else loop mem c k d p t el y) = Some y'"
    and g: "calm n b (snd (fst y))"
  obtain s g1 where s: "sweep_stop (snd (fst y)) = (s, g1)" by fastforce
  obtain m e where m: "ReceiveNativeAppAlgorithmMessage p g1 = (m, e)" by fastforce
  have g1: "calm n b g1" using calm_stop [OF g] s by simp
  have g2: "calm n b (snd m)" using calm_receive [OF g1, of p] m by simp
  have msg: "calm n b (snd (fst (fst (server_message mem c k d a q ((x, snd m), e)))))" for a q x
    by (rule calm_server_message) (simp add: g2)
  show "calm n b (snd (fst y'))"
    using run g g1 g2 msg IH s m
    by (auto simp: Let_def case_prod_beta split: if_splits option.splits)
qed

lemma calm_run_server_case:
  assumes "RunNativeAppAlgorithmServerCase mem p a c k d cd o1 q g = Some ((v, g'), e)" and "calm n b g"
  shows "calm n b g'"
proof -
  obtain ms g0 where 0: "GetNativeAppAlgorithmTimeMs g = (ms, g0)" by fastforce
  obtain cr g1 e1 where 1: "BuildNativeAppAlgorithmConfig c k g0 = ((cr, g1), e1)" by (metis prod.exhaust)
  obtain g2 e2 where 2: "(if e1 = IPSEC_OK then in_app (on_ipsec (AddIpsecConnection (snd cr))) g1 else (g1, e1)) = (g2, e2)"
    by fastforce
  obtain g3 e3 where 3: "(if e2 = IPSEC_OK then ReplyNativeAppAlgorithmServer a ''READY'' k ''OK'' g2 else (g2, e2)) = (g3, e3)"
    by fastforce
  have "calm n b g0" using calm_time(1) [OF assms(2)] 0 by simp
  then have "calm n b g1" using calm_config [of n b g0 c k] 1 by simp
  then have "calm n b g2" using calm_library(1) [of n b g1 "snd cr"] 2 by (auto split: if_splits)
  then have g3: "calm n b g3" using calm_reply [of n b g2 a "''READY''" k "''OK''"] 3 by (auto split: if_splits)
  obtain cf rt where cr: "cr = (cf, rt)" by (cases cr)
  obtain x y where y: "server_case_loop mem cf k cd p (nc_uiTimeoutMs c * 2) 0 ((x, g3), e3) = Some y"
    and r: "((v, g'), e) = (let ((r, g), eError) = server_case_end mem cf y;
               (ullEndMs, g) = GetNativeAppAlgorithmTimeMs g;
               r = r\<lparr>cr_ullDurationMs := sub64 ullEndMs ms\<rparr>;
               g = fst (FinishNativeAppAlgorithmCaseReport mem cf r ''responder'' d cd o1 q g)
           in ((cu_bLocalVerified (cr_Cleanup r), g), eError))"
    using assms(1) 2 unfolding RunNativeAppAlgorithmServerCase_def Let_def 0 1 cr prod.case snd_conv 2 3
    by (auto simp: 3 [unfolded snd_conv])
  have "calm n b (snd (fst y))" using calm_server_loop [OF y] g3 by simp
  from calm_server_case(3) [OF this, of mem cf] show ?thesis
    using r by (auto simp: Let_def case_prod_beta intro!: keeps_calm)
qed

text \<open>The log is opened by the first request of a run, and only while there is no run id.\<close>

definition served :: "nat \<Rightarrow> server_state \<Rightarrow> bool" where
  "served n s \<longleftrightarrow> (\<exists>b. calm (n + of_bool b) b (snd s) \<and> (b \<longrightarrow> sv_acRunId (fst s) ! 0 \<noteq> NUL))"

lemma served_calm:
  assumes "served n s" and "\<And>m b. calm m b (snd s) \<Longrightarrow> calm m b (snd s')"
    and "sv_acRunId (fst s') = sv_acRunId (fst s)"
  shows "served n s'"
  using assms unfolding served_def by metis

lemma copied_id:
  assumes "CopyNativeAppAlgorithmValue b t = (b', IPSEC_OK)" and "IsNativeAppAlgorithmRunIdValid t"
  shows "b' ! 0 \<noteq> NUL"
proof -
  have t: "cstr t \<noteq> []" using assms(2)
    by (cases t) (auto simp: IsNativeAppAlgorithmRunIdValid_def strnlen_def cstr_def Let_def take_Cons' split: if_splits)
  then obtain x u where u: "cstr t = x # u" by (cases "cstr t") auto
  then have "x \<noteq> NUL" using cstr_no_NUL [of t] by auto
  then show ?thesis using assms(1) u
    by (auto simp: CopyNativeAppAlgorithmValue_def snprintf_to_def buf_write_def Let_def split: if_splits)
qed

lemma served_start:
  assumes "server_start_run mem c i s = (s', e)" and "served n s" and "sv_acRunId (fst s) ! 0 = NUL"
    and "IsNativeAppAlgorithmRunIdValid i"
  shows "served n s'"
proof -
  obtain v g where s: "s = (v, g)" by (cases s)
  have g: "calm n False g" using assms(2,3) s by (auto simp: served_def)
  obtain buf e1 where 1: "CopyNativeAppAlgorithmValue (sv_acRunId v) i = (buf, e1)" by fastforce
  obtain d g1 e2 where 2: "(if e1 = IPSEC_OK then OpenNativeAppAlgorithmRunLog c buf ''responder'' (sv_acResultDirectory v, g)
      else ((sv_acResultDirectory v, g), e1)) = ((d, g1), e2)" by (metis prod.exhaust)
  have 3: "(if e1 = IPSEC_OK
      then OpenNativeAppAlgorithmRunLog c (sv_acRunId (v\<lparr>sv_acRunId := buf\<rparr>)) ''responder''
             (sv_acResultDirectory (v\<lparr>sv_acRunId := buf\<rparr>), g)
      else ((sv_acResultDirectory (v\<lparr>sv_acRunId := buf\<rparr>), g), e1)) = ((d, g1), e2)"
    using 2 by (cases "e1 = IPSEC_OK") simp_all
  have "\<exists>b. calm (n + of_bool b) b g1 \<and> (b \<longrightarrow> buf ! 0 \<noteq> NUL)"
  proof (cases "e1 = IPSEC_OK")
    case True
    then have "OpenNativeAppAlgorithmRunLog c buf ''responder'' (sv_acResultDirectory v, g) = ((d, g1), e2)" using 2 by simp
    from calm_open_log [OF this g] show ?thesis using copied_id [OF 1 [unfolded True] assms(4)] by blast
  next
    case False
    then have "calm (n + of_bool False) False g1" using 2 g by simp
    then show ?thesis by blast
  qed
  then obtain b where b: "calm (n + of_bool b) b g1" "b \<longrightarrow> buf ! 0 \<noteq> NUL" by blast
  have "calm (n + of_bool b) b (snd s') \<and> sv_acRunId (fst s') = buf"
    using assms(1) b(1) unfolding server_start_run_def s Let_def prod.case 1 3
    by (auto simp: case_prod_beta intro!: keeps_calm)
  then show ?thesis unfolding served_def using b(2) by metis
qed

lemma served_run_case:
  assumes "server_run_case mem c p a k s = Some y" and "served n s"
  shows "served n (fst y)"
proof (rule served_calm [OF assms(2)])
  obtain v g where s: "s = (v, g)" by (cases s)
  let ?v = "v\<lparr>sv_uiRunCaseOrdinal := u32 (sv_uiRunCaseOrdinal v + 1)\<rparr>"
  obtain d g1 e1 where 1: "CreateNativeAppAlgorithmCaseReport c k ''responder'' (sv_acResultDirectory ?v)
      (sv_uiRunCaseOrdinal ?v) (sv_uiRunRequested ?v) (replicate NATIVE_APP_PATH_LENGTH NUL, g) = ((d, g1), e1)"
    by (metis prod.exhaust)
  show "calm m b (snd (fst y))" if "calm m b (snd s)" for m b
  proof -
    have "calm m b g1" using calm_case_reports(1) that s 1 by (metis fst_conv snd_conv)
    then show ?thesis using assms(1) unfolding server_run_case_def s Let_def prod.case 1
      by (auto split: if_splits intro!: calm_log dest!: calm_run_server_case)
  qed
  show "sv_acRunId (fst (fst y)) = sv_acRunId (fst s)"
    using assms(1) unfolding server_run_case_def s Let_def prod.case 1 by (auto split: if_splits)
qed

lemma served_failed: "served n (fst y) \<Longrightarrow> served n (fst (server_case_failed y))"
  by (auto simp: server_case_failed_def case_prod_beta Let_def elim!: served_calm intro!: keeps_calm)

lemma served_request:
  assumes "server_request mem c p a fs s = Some y" and "served n s"
  shows "served n (fst (fst y))"
proof -
  obtain v g where s: "s = (v, g)" by (cases s)
  show ?thesis
  proof (cases "\<not> strcmp_eq ''PREPARE'' (fs ! 1) \<or> length fs < 8 \<or> \<not> IsNativeAppAlgorithmRunIdValid (fs ! 5) \<or>
      ParseNativeAppAlgorithmUint32 (fs ! 6) = None \<or> ParseNativeAppAlgorithmUint32 (fs ! 7) = None")
    case True
    then show ?thesis using assms s by (auto simp: server_request_def Let_def split: if_splits option.splits)
  next
    case False
    then obtain k q where k: "ParseNativeAppAlgorithmUint32 (fs ! 6) = Some k"
      and q: "ParseNativeAppAlgorithmUint32 (fs ! 7) = Some q" and ok: "IsNativeAppAlgorithmRunIdValid (fs ! 5)" by auto
    let ?v = "v\<lparr>sv_uiRunRequested := q\<rparr>"
    have v: "served n (?v, g)" using assms(2) s by (simp add: served_def)
    obtain v1 g1 e1 where 1: "(if sv_acRunId ?v ! 0 = NUL then server_start_run mem c (fs ! 5) (?v, g)
        else ((?v, g), IPSEC_OK)) = ((v1, g1), e1)" by (metis prod.exhaust)
    have v1: "served n (v1, g1)"
    proof (cases "sv_acRunId ?v ! 0 = NUL")
      case True
      then have "server_start_run mem c (fs ! 5) (?v, g) = ((v1, g1), e1)" using 1 by simp
      from served_start [OF this v _ ok] True show ?thesis by simp
    next
      case False
      then show ?thesis using 1 v by simp
    qed
    obtain Case e2 where 2: "server_derive_case c k fs = (Case, e2)" by fastforce
    have run: "served n (fst (server_case_failed z))"
      if "(if e2 = IPSEC_OK then server_run_case mem c p a Case (v1, g1) else Some ((v1, g1), e2)) = Some z" for z
      using that v1 served_run_case [OF _ v1] by (intro served_failed) (auto split: if_splits)
    show ?thesis
      using assms(1) v v1 False run unfolding server_request_def Let_def s prod.case k q option.case 1 2
      by (auto split: if_splits)
  qed
qed

lemma served_step:
  assumes "server_step mem c p s = Some y" and "served n s"
  shows "served n (fst (fst y))"
proof -
  obtain v g where s: "s = (v, g)" by (cases s)
  obtain m g1 e where m: "ReceiveNativeAppAlgorithmMessage p g = ((m, g1), e)" by (metis prod.exhaust)
  have v: "served n (v, g1)"
    by (rule served_calm [OF assms(2)]) (use calm_receive m s in \<open>metis fst_conv snd_conv\<close>, simp add: s)
  have id: "served n (v, fst (answer_id a t i g1))" for a t i
    by (rule served_calm [OF v]) (simp_all add: calm_server_case(4))
  have fin: "served n (fst (server_finish mem c a i (v, g1)))" for a i
    by (rule served_calm [OF v])
      (auto simp: server_finish_def Let_def case_prod_beta intro!: calm_log keeps_calm)
  obtain q a where q: "m = (q, a)" by (cases m)
  show ?thesis
    using assms(1) v id fin served_request [OF _ v] unfolding server_step_def Let_def s prod.case m q
    by (auto simp: case_prod_beta split: if_splits option.splits)
qed

lemma served_loop:
  assumes "server_loop mem c p y = Some y'"
  shows "served n (fst y) \<longrightarrow> served n (fst y')"
proof (rule server_loop.raw_induct
    [where P = "\<lambda>mem c p y y'. served n (fst y) \<longrightarrow> served n (fst y')", OF _ assms], intro impI)
  fix loop :: "(nat \<Rightarrow> bool) \<Rightarrow> NativeAppConfig \<Rightarrow> NativeAppAlgorithmEndpoint \<Rightarrow> server_state outcome \<Rightarrow>
    server_state outcome option" and mem c p and y y' :: "server_state outcome"
  assume IH: "\<And>mem c p y y'. loop mem c p y = Some y' \<Longrightarrow> served n (fst y) \<longrightarrow> served n (fst y')"
    and run: "(let (bStop, g) = sweep_stop (snd (fst y)); s = (fst (fst y), g) in
      if bStop then Some (s, snd y)
      else Option.bind (server_step mem c p s) (\<lambda>r. if snd r then Some (fst r) else loop mem c p (fst r))) = Some y'"
    and y: "served n (fst y)"
  obtain k g where k: "sweep_stop (snd (fst y)) = (k, g)" by fastforce
  have g: "served n (fst (fst y), g)"
    by (rule served_calm [OF y]) (use calm_stop k in \<open>metis snd_conv\<close>, simp)
  show "served n (fst y')"
  proof (cases k)
    case True
    then show ?thesis using run g by (auto simp: k)
  next
    case False
    then obtain r where r: "server_step mem c p (fst (fst y), g) = Some r"
      and y': "(if snd r then Some (fst r) else loop mem c p (fst r)) = Some y'"
      using run by (auto simp: k Let_def bind_eq_Some_conv)
    show ?thesis using served_step [OF r g] y' IH by (auto split: if_splits)
  qed
qed

lemma calm_server:
  assumes "RunNativeAppAlgorithmServer mem c port g = Some (g', e)" and "calm n False g"
  shows "calm n False g'"
proof -
  let ?port = "if port = 0 then NATIVE_APP_ALGORITHM_DEFAULT_PORT else port"
  have g0: "calm n False (g\<lparr>ag_log := None\<rparr>)" using assms(2) by (simp add: calm_def)
  show ?thesis
  proof (cases "nc_eRole c \<noteq> NATIVE_APP_ROLE_RESPONDER \<or>
      InitializeNativeAppAlgorithmEndpoint (nc_acLocalAddress c) ?port = None \<or>
      InitializeNativeAppAlgorithmEndpoint (nc_acRemoteAddress c) ?port = None")
    case True
    then show ?thesis using assms(1) g0 by (auto simp: RunNativeAppAlgorithmServer_def Let_def split: option.splits)
  next
    case False
    then obtain l p where l: "InitializeNativeAppAlgorithmEndpoint (nc_acLocalAddress c) ?port = Some l"
      and p: "InitializeNativeAppAlgorithmEndpoint (nc_acRemoteAddress c) ?port = Some p" by auto
    obtain g1 e1 where 1: "OpenNativeAppAlgorithmSocket l (g\<lparr>ag_log := None\<rparr>) = (g1, e1)" by fastforce
    note s = calm_socket [OF 1 g0]
    obtain g2 e2 where 2: "in_app (LoadNativeAppCredential mem c) g1 = (g2, e2)" by fastforce
    have g2: "calm (n + 1) False g2" if "e1 = IPSEC_OK"
      using calm_library(5) [of "n + 1" False g1 mem c] s that 2 by simp
    have loop: "calm n False (snd (sweep_stop (close_log (close_socket (snd s)))))"
      if run: "server_loop mem c p ((zero_server, ReportNativeAppAlgorithm True ''INFO'' t g2), IPSEC_OK) = Some (s, f)"
        and "e1 = IPSEC_OK" for t s f
    proof -
      have "served (n + 1) (zero_server, ReportNativeAppAlgorithm True ''INFO'' t g2)"
        using calm_log [OF g2 [OF that(2)]] unfolding served_def by (intro exI [of _ False]) simp
      then have "served (n + 1) s" using served_loop [OF run, of "n + 1"] by simp
      then obtain b where "calm (n + of_bool b + 1) b (snd s)" by (auto simp: served_def ac_simps)
      from calm_close_log [OF calm_close_socket [OF this]] show ?thesis by (rule calm_stop)
    qed
    show ?thesis
      using assms(1) False s g2 loop calm_close_socket [OF g2]
      unfolding RunNativeAppAlgorithmServer_def Let_def l p prod.case option.case 1 2
      by (auto simp: case_prod_beta split: if_splits)
  qed
qed

subsection \<open>Both sides\<close>

text \<open>A run starts without a log: what an earlier one left there does not matter.\<close>

lemma algorithm_idle:
  assumes "app_idle (ag_App g)"
  shows "RunNativeAppAlgorithmClient mem c opts g = (g', e) \<Longrightarrow> app_idle (ag_App g') \<and> ag_open g' = ag_open g"
    and "RunNativeAppAlgorithmServer mem c port g = Some (g', e) \<Longrightarrow> app_idle (ag_App g') \<and> ag_open g' = ag_open g"
proof -
  let ?g = "g\<lparr>ag_log := None\<rparr>"
  have start: "calm (ag_open g) False ?g" using assms by (simp add: calm_def)
  show "app_idle (ag_App g') \<and> ag_open g' = ag_open g" if "RunNativeAppAlgorithmClient mem c opts g = (g', e)"
  proof -
    have "g' = g \<or> RunNativeAppAlgorithmClient mem c opts ?g = (g', e)"
      using that by (auto simp: RunNativeAppAlgorithmClient_def Let_def split: if_splits)
    then show ?thesis using calm_client [OF start, of mem c opts] assms by (auto simp: calm_def)
  qed
  show "app_idle (ag_App g') \<and> ag_open g' = ag_open g" if "RunNativeAppAlgorithmServer mem c port g = Some (g', e)"
  proof -
    have "RunNativeAppAlgorithmServer mem c port ?g = Some (g', e)"
      using that by (simp add: RunNativeAppAlgorithmServer_def Let_def)
    from calm_server [OF this start] show ?thesis by (simp add: calm_def)
  qed
qed

end
