(* ===== verification/AppSession.thy ===== *)
theory AppSession
  imports AppCli AppPeerProps AppRunnerIdle
begin

section \<open>The invariant of a session\<close>

text \<open>
  A session keeps its texts terminated, its peer table within its capacity, the library idle, and its
  runtime configuration equal to the one built from the configuration it shows as valid.  Registrations
  are allowed to find any such table: \<open>table_wf\<close> of \<open>AppPeerProps\<close>, which also fixes the names of the
  peers, is lost when a setting of a selected peer is changed.
\<close>

subsection \<open>Peers\<close>

definition table_ok :: "NativeAppPeerTable \<Rightarrow> bool" where
  "table_ok t \<longleftrightarrow> length (pt_aPeers t) = NATIVE_APP_PEER_CAPACITY \<and> pt_uiCount t \<le> NATIVE_APP_PEER_CAPACITY \<and>
     \<not> pt_bLocked t \<and> (\<forall>k < pt_uiCount t. nc_wf (np_Config (pt_aPeers t ! k)))"

lemma peer_text_wf:
  assumes "nc_wf (np_Config p)" and "\<And>n b. terminated n b \<Longrightarrow> terminated n (fst (wr b))"
  shows "nc_wf (np_Config (fst (peer_text nc_acLocalAddress nc_acLocalAddress_update wr p)))"
    and "nc_wf (np_Config (fst (peer_text nc_acRemoteAddress nc_acRemoteAddress_update wr p)))"
    and "nc_wf (np_Config (fst (peer_text nc_acLocalId nc_acLocalId_update wr p)))"
    and "nc_wf (np_Config (fst (peer_text nc_acRemoteId nc_acRemoteId_update wr p)))"
    and "nc_wf (np_Config (fst (peer_text nc_acConnectionName nc_acConnectionName_update wr p)))"
    and "nc_wf (np_Config (fst (peer_text nc_acChildName nc_acChildName_update wr p)))"
    and "nc_wf (np_Config (fst (peer_text nc_acCredentialId nc_acCredentialId_update wr p)))"
  using assms by (simp_all add: peer_text_def Let_def case_prod_beta nc_wf_def)

lemma copy_peer_terminated: "terminated n b \<Longrightarrow> terminated n (fst (CopyNativeAppPeerText b t))"
  by (auto simp: CopyNativeAppPeerText_def Let_def terminated_def length_buf_write split: option.split)
    (auto simp: buf_write_def)

lemma snprintf_terminated:
  assumes "terminated n b"
  shows "terminated n (fst (snprintf_to b t))"
proof -
  have "0 < length b" using assms by (cases b) (auto simp: terminated_def)
  then have "length (take (length b - 1) t @ [NUL]) \<le> length b" by (cases b) (simp_all add: min_def)
  then show ?thesis using assms
    by (auto simp: snprintf_to_def terminated_def length_buf_write) (auto simp: buf_write_def)
qed

lemma BuildNativeAppPeerConfig_wf:
  assumes "nc_wf c"
  shows "nc_wf (np_Config (fst (BuildNativeAppPeerConfig c g l la ra li ri)))"
proof -
  have name: "terminated n b \<Longrightarrow> terminated n (fst (BuildNativeAppPeerName b pre i))" for n b pre i
    by (simp add: BuildNativeAppPeerName_def snprintf_terminated)
  note t = peer_text_wf copy_peer_terminated name
  let ?P = "\<lambda>p. nc_wf (np_Config p)"
  have "?P (zero_peer\<lparr>np_uiGroupId := g, np_uiLogonId := l, np_Config := c\<rparr>)" using assms by simp
  then show ?thesis
    unfolding BuildNativeAppPeerConfig_def Let_def case_prod_beta
    by (auto simp del: run_steps.simps intro!: run_steps_inv [where P = ?P] t)
qed

lemma zero_config_wf: "nc_wf zero_config"
  using InitializeNativeAppConfig_wf
  by (simp add: zero_config_def nc_wf_def terminated_zero)

lemma assigned_peer_wf:
  assumes "nc_wf c"
  shows "nc_wf (np_Config (fst (assigned_peer c a)))"
proof -
  have "nc_wf (np_Config zero_peer)" using zero_config_wf by (simp add: zero_peer_def)
  moreover have "nc_wf (c\<lparr>nc_eMode := m, nc_acIkeProposals := fst (CopyNativeAppPeerText (nc_acIkeProposals c) t),
      nc_acEspProposals := fst (CopyNativeAppPeerText (nc_acEspProposals c) u)\<rparr>)" for m t u
    using assms copy_peer_terminated by (simp add: nc_wf_def)
  ultimately show ?thesis
    by (simp add: assigned_peer_def Let_def case_prod_beta BuildNativeAppPeerConfig_wf split: prod.split)
qed

text \<open>Whatever is appended, the table stays within its bounds, and the index that is returned is that
  of the new entry.\<close>

definition grown :: "NativeAppPeerTable \<Rightarrow> nat option \<times> PeerWorld \<Rightarrow> IpsecError \<Rightarrow> bool" where
  "grown t x e \<longleftrightarrow> table_ok (pe_Table (snd x)) \<and> pt_uiSelectedIndex (pe_Table (snd x)) = pt_uiSelectedIndex t \<and>
     (e = IPSEC_OK \<longrightarrow> fst x = Some (pt_uiCount t) \<and> pt_uiCount (pe_Table (snd x)) = pt_uiCount t + 1) \<and>
     (e \<noteq> IPSEC_OK \<longrightarrow> pe_Table (snd x) = t)"

lemma append_grown:
  assumes "table_ok (pe_Table w)" and "nc_wf (np_Config p)" and "append_peer p w = (x, e)"
  shows "grown (pe_Table w) x e \<and> pe_open (snd x) = pe_open w"
  using assms unfolding grown_def table_ok_def
  by (auto simp: append_peer_def AppendNativeAppPeer_def LockNativeAppPeerTable_def UnlockNativeAppPeerTable_def
      Let_def nth_list_update less_Suc_eq split: if_splits)

lemma same_grown: "table_ok t \<Longrightarrow> pe_Table (snd x) = t \<Longrightarrow> e \<noteq> IPSEC_OK \<Longrightarrow> grown t x e"
  by (simp add: grown_def)

lemma send_any_props:
  assumes "SendNativeAppPeerMessage s n w = (w', e)"
  shows "pe_Table w' = pe_Table w \<and> pe_open w' = pe_open w \<and> pe_notes w' = pe_notes w"
  using assms send_loop_props [of n "cstr s" w w' e]
  by (auto simp: SendNativeAppPeerMessage_def sent_def split: if_splits)

lemma allocate_frame:
  "table_ok t \<Longrightarrow> fst (AllocateNativeAppPeerIds t) = t"
  by (simp add: AllocateNativeAppPeerIds_def Let_def LockNativeAppPeerTable_def UnlockNativeAppPeerTable_def table_ok_def)

lemma answer_frame:
  assumes "answer_registration c a m n w = ((p, w'), e)" and "table_ok (pe_Table w)" and "nc_wf c"
  shows "pe_Table w' = pe_Table w \<and> pe_open w' = pe_open w \<and> pe_notes w' = pe_notes w \<and>
    (e = IPSEC_OK \<longrightarrow> nc_wf (np_Config p))"
proof (cases "registration_address a m")
  case None
  then show ?thesis using assms(1) by (auto simp: answer_registration_def SetNativeAppPeerError_def)
next
  case (Some ra)
  obtain ids where al: "AllocateNativeAppPeerIds (pe_Table w) = (pe_Table w, ids)"
    using allocate_frame [OF assms(2)] by (metis prod.collapse)
  show ?thesis
  proof (cases ids)
    case (Inl e1)
    then show ?thesis using assms(1) Some zero_config_wf
      by (auto simp: answer_registration_def al Let_def zero_peer_def)
  next
    case (Inr gl)
    obtain g l where gl: "gl = (g, l)" by fastforce
    obtain q e1 where q: "BuildNativeAppPeerConfig c g l (nc_acLocalAddress c) ra (nc_acLocalId c)
        (fst (BuildNativeAppPeerId (replicate IPSEC_ID_LENGTH NUL) g l)) = (q, e1)" by fastforce
    have wf: "nc_wf (np_Config q)" using BuildNativeAppPeerConfig_wf [OF assms(3)] q by (metis fst_conv)
    obtain w1 e2 where sd: "SendNativeAppPeerMessage (assign_text c g l) n w = (w1, e2)" by fastforce
    note sent = send_any_props [OF sd]
    show ?thesis
      using assms(1) wf sent zero_config_wf q sd
      by (auto simp: answer_registration_def Some al Inr gl Let_def case_prod_beta zero_peer_def
          split: if_splits)
  qed
qed

lemma accept_grown:
  assumes "AcceptNativeAppPeerConnection b s c n w = ((i, w'), e)" and "table_ok (pe_Table w)" and "nc_wf c"
  shows "grown (pe_Table w) (i, w') e" and "pe_open w' = pe_open w" and "pe_notes w' = pe_notes w"
proof -
  have "grown (pe_Table w) (i, w') e \<and> pe_open w' = pe_open w \<and> pe_notes w' = pe_notes w"
  proof -
  obtain r w1 where r: "sys_accept w = (r, w1)" by fastforce
  obtain f w2 where f: "sys_call w1 = (f, w2)" by fastforce
  obtain m w3 e3 where m: "ReceiveNativeAppPeerMessage NATIVE_APP_PEER_MESSAGE_LENGTH (nc_uiTimeoutMs c) n w2 = ((m, w3), e3)"
    by (metis prod.exhaust)
  note a1 = accept_props [OF r] and a2 = sys_call_same [OF f]
  note a3 = recv_loop_props [OF m [unfolded ReceiveNativeAppPeerMessage_def]]
  show ?thesis
  proof (cases "\<not> b \<or> \<not> s \<or> nc_eRole c \<noteq> NATIVE_APP_ROLE_INITIATOR \<or> \<not> IsNativeAppPeerToken (nc_acLocalId c) \<or>
      \<not> IsNativeAppPeerToken (nc_acIkeProposals c) \<or> \<not> IsNativeAppPeerToken (nc_acEspProposals c) \<or> r = None")
    case True
    then show ?thesis using assms(1,2) r a1
      by (auto simp: AcceptNativeAppPeerConnection_def same_world_def SetNativeAppPeerError_def grown_def
          split: if_splits)
  next
    case False
    then obtain a where a: "r = Some a" by blast
    obtain p w4 e4 where an: "answer_registration c a m n w3 = ((p, w4), e4)" by (metis prod.exhaust)
    obtain x e5 where ap: "append_peer p w4 = (x, e5)" by fastforce
    have t3: "pe_Table w3 = pe_Table w" "pe_open w3 = pe_open w + 1" "pe_notes w3 = pe_notes w"
      and t2: "pe_Table w2 = pe_Table w" "pe_open w2 = pe_open w + 1" "pe_notes w2 = pe_notes w"
      using a1 a2 a3 a by (auto simp: same_world_def received_def)
    have res: "((i, w'), e) =
        (if \<not> f then ((None, sys_close_socket (SetNativeAppPeerError n ''failed to configure peer registration'' w2)), IPSEC_ERR_INTERNAL)
         else if e3 \<noteq> IPSEC_OK then ((None, sys_close_socket w3), e3)
         else if e4 \<noteq> IPSEC_OK then ((None, sys_close_socket w4), e4) else ((fst x, sys_close_socket (snd x)), e5))"
      using assms(1) False a r f m an ap by (auto simp: AcceptNativeAppPeerConnection_def case_prod_beta)
    note an' = answer_frame [OF an _ assms(3), unfolded t3(1), OF assms(2)]
    show ?thesis
    proof (cases "f \<and> e3 = IPSEC_OK \<and> e4 = IPSEC_OK")
      case False
      then show ?thesis using res assms(2) t2 t3 an'
        by (auto simp: sys_close_socket_def SetNativeAppPeerError_def grown_def split: if_splits)
    next
      case True
      then have p: "nc_wf (np_Config p)" and t4: "pe_Table w4 = pe_Table w" using an' by simp_all
      have "table_ok (pe_Table w4)" using assms(2) t4 by simp
      note g = append_grown [OF this p ap]
      have "pe_notes (snd x) = pe_notes w4" using ap by (auto simp: append_peer_def split: prod.splits)
      then show ?thesis using res True g an' t3 t4 by (auto simp: sys_close_socket_def grown_def)
    qed
  qed
  qed
  then show "grown (pe_Table w) (i, w') e" and "pe_open w' = pe_open w" and "pe_notes w' = pe_notes w" by auto
qed

lemma register_grown:
  assumes "RegisterNativeAppPeer b c n w = ((i, w'), e)" and "table_ok (pe_Table w)" and "nc_wf c"
  shows "grown (pe_Table w) (i, w') e \<and> pe_open w' = pe_open w"
proof -
  obtain o1 w1 where o: "OpenNativeAppClientSocket c n w = (o1, w1)" by fastforce
  obtain w2 e2 where s2: "(if NATIVE_APP_PEER_MESSAGE_LENGTH \<le> length (register_text c)
      then (w1, IPSEC_ERR_BUFFER_TOO_SMALL) else SendNativeAppPeerMessage (register_text c) n w1) = (w2, e2)" by fastforce
  obtain m w3 e3 where m: "ReceiveNativeAppPeerMessage NATIVE_APP_PEER_MESSAGE_LENGTH (nc_uiTimeoutMs c) n w2 = ((m, w3), e3)"
    by (metis prod.exhaust)
  have p1: "pe_Table w1 = pe_Table w" "pe_open w1 = pe_open w + (if o1 then 1 else 0)"
    using open_client_props [OF o] by (auto simp: opened_def)
  have p2: "pe_Table w2 = pe_Table w1" "pe_open w2 = pe_open w1"
    using s2 send_any_props [of "register_text c" n w1] by (auto split: if_splits)
  have p3: "pe_Table w3 = pe_Table w2" "pe_open w3 = pe_open w2"
    using recv_loop_props [OF m [unfolded ReceiveNativeAppPeerMessage_def]] by (auto simp: received_def)
  show ?thesis
  proof (cases "b \<and> nc_eRole c = NATIVE_APP_ROLE_RESPONDER \<and> pt_uiCount (pe_Table w) < NATIVE_APP_PEER_CAPACITY \<and>
      o1 \<and> e2 = IPSEC_OK \<and> e3 = IPSEC_OK")
    case False
    then show ?thesis using assms(1,2) p1 p2 p3 o s2 m
      by (auto simp: RegisterNativeAppPeer_def case_prod_beta sys_close_socket_def grown_def not_le split: if_splits)
  next
    case True
    have t3: "pe_Table w3 = pe_Table w" "pe_open w3 = pe_open w + 1" using p1 p2 p3 True by simp_all
    show ?thesis
    proof (cases "parse_assignment m")
      case (Inl t)
      then have "((i, w'), e) = ((None, sys_close_socket (SetNativeAppPeerError n t w3)), IPSEC_ERR_INVALID_ARGUMENT)"
        using assms(1) True o s2 m by (simp add: RegisterNativeAppPeer_def case_prod_beta Let_def not_le split: if_splits)
      then show ?thesis using assms(2) t3
        by (auto simp: sys_close_socket_def SetNativeAppPeerError_def grown_def)
    next
      case (Inr a)
      obtain x e5 where ap: "append_peer (fst (assigned_peer c a)) w3 = (x, e5)" by fastforce
      have "table_ok (pe_Table w3)" using assms(2) t3 by simp
      note g = append_grown [OF this assigned_peer_wf [OF assms(3)] ap]
      have "((i, w'), e) =
          (if snd (assigned_peer c a) \<noteq> IPSEC_OK then ((None, sys_close_socket w3), snd (assigned_peer c a))
           else ((fst x, sys_close_socket (snd x)), e5))"
        using assms(1) True o s2 m Inr ap by (simp add: RegisterNativeAppPeer_def case_prod_beta Let_def not_le split: if_splits)
      then show ?thesis using Inr assms(2) t3 g
        by (auto simp: sys_close_socket_def grown_def Let_def split: if_splits)
    qed
  qed
qed

lemma listener_ok:
  assumes "table_ok (pe_Table w)" and "nc_wf (pl_Config l)"
  shows "table_ok (pe_Table (listener_loop l w)) \<and> pe_open (listener_loop l w) = pe_open w"
  using assms
proof (induction l w rule: listener_loop.induct)
  case (1 l w)
  obtain b w1 where l: "load_stop_flag w = (b, w1)" by fastforce
  obtain w2 e where wt: "WaitNativeAppSocket POLLIN NATIVE_APP_PEER_LISTENER_POLL_MS
      NATIVE_APP_ERROR_TEXT_LENGTH (w1\<lparr>pe_pcError := []\<rparr>) = (w2, e)" by fastforce
  obtain i w3 e3 where a: "AcceptNativeAppPeerConnection True (pl_iServerSocket l) (pl_Config l)
      NATIVE_APP_ERROR_TEXT_LENGTH w2 = ((i, w3), e3)" by (metis prod.exhaust)
  have t1: "pe_Table w1 = pe_Table w" "pe_open w1 = pe_open w"
    using load_stop_flag_same [OF l] by (simp_all add: same_world_def)
  have t2: "pe_Table w2 = pe_Table w" "pe_open w2 = pe_open w"
    using wait_same(1) [OF wt] t1 by (simp_all add: same_world_def)
  have ok2: "table_ok (pe_Table w2)" using 1(3) t2 by simp
  note g = accept_grown [OF a ok2 1(4)]
  have n: "pe_Table (NotifyNativeAppPeerListener l e i v) = pe_Table v"
    "pe_open (NotifyNativeAppPeerListener l e i v) = pe_open v" for e i v
    by (simp_all add: NotifyNativeAppPeerListener_def)
  have IH1: "e = IPSEC_ERR_VICI_TIMEOUT \<Longrightarrow> \<not> b \<Longrightarrow>
      table_ok (pe_Table (listener_loop l w2)) \<and> pe_open (listener_loop l w2) = pe_open w2"
    using 1(1) [OF l [symmetric] refl _ wt [symmetric] refl] ok2 1(4) by simp
  have IH2: "e = IPSEC_OK \<Longrightarrow> \<not> b \<Longrightarrow>
      table_ok (pe_Table (listener_loop l (NotifyNativeAppPeerListener l e3 i w3))) \<and>
      pe_open (listener_loop l (NotifyNativeAppPeerListener l e3 i w3)) = pe_open w3"
    using 1(2) [OF l [symmetric] refl _ wt [symmetric] refl _ _ a [symmetric] refl refl] g(1) 1(4) n
    by (simp add: grown_def)
  show ?case
    unfolding listener_loop.simps [of l w] l wt Let_def prod.case a
    using IH1 IH2 1(3) t1 t2 g(2) n by auto
qed

subsection \<open>What printing leaves alone\<close>

text \<open>The session without its application and its prompt.\<close>

definition core :: "NativeAppSession \<Rightarrow> NativeAppSession" where
  "core s = s\<lparr>ss_App := undefined, ss_bPromptVisible := False\<rparr>"

lemma core_fields:
  assumes "core s' = core s"
  shows "ss_Config s' = ss_Config s" "ss_BaseConfig s' = ss_BaseConfig s" "ss_Runtime s' = ss_Runtime s"
    "ss_Peer s' = ss_Peer s" "ss_PeerListener s' = ss_PeerListener s"
    "ss_acConfigPath s' = ss_acConfigPath s" "ss_acApplicationConfigPath s' = ss_acApplicationConfigPath s"
    "ss_acManagementConfigPath s' = ss_acManagementConfigPath s" "ss_bConfigValid s' = ss_bConfigValid s"
    "ss_bConnectionLoaded s' = ss_bConnectionLoaded s" "ss_bCredentialLoaded s' = ss_bCredentialLoaded s"
    "ss_bVerbose s' = ss_bVerbose s" "ss_Sweep s' = ss_Sweep s"
  using assms by (cases s; cases s'; simp add: core_def)+

lemma core_app [simp]: "core (s\<lparr>ss_App := a\<rparr>) = core s" "core (s\<lparr>ss_bPromptVisible := b\<rparr>) = core s"
  by (simp_all add: core_def)

lemma core_print [simp]:
  "core (session_printf t s) = core s" "core (session_eprintf t s) = core s"
  "core (PrintNativeAppPrompt s) = core s" "core (on_world g s) = core s"
  by (simp_all add: session_printf_def session_eprintf_def PrintNativeAppPrompt_def on_world_def)

lemma core_log [simp]: "core (LogNativeApp l t s) = core s"
  by (simp add: LogNativeApp_def Let_def)

lemma fold_log_core: "core (foldl (\<lambda>s (l, t). LogNativeApp l t s) s ms) = core s"
  by (induction ms arbitrary: s) auto

lemma core_deliver [simp]: "core (deliver_log n s) = core s"
  by (simp add: deliver_log_def fold_log_core)

lemma core_on_app [simp]: "core (fst (on_app f s)) = core s" "core (fst (on_context h s)) = core s"
  by (simp_all add: on_app_def on_context_def Let_def case_prod_beta)

lemmas session_fields [simp] =
  core_fields [OF core_print(1)] core_fields [OF core_print(2)] core_fields [OF core_print(3)]
  core_fields [OF core_print(4)] core_fields [OF core_log] core_fields [OF core_deliver]
  core_fields [OF core_on_app(1)] core_fields [OF core_on_app(2)]

lemma context_print [simp]:
  "session_context (session_printf t s) = session_context s" "session_context (session_eprintf t s) = session_context s"
  "session_context (PrintNativeAppPrompt s) = session_context s"
  "session_context (s\<lparr>ss_bPromptVisible := b\<rparr>) = session_context s"
  by (simp_all add: session_context_def session_printf_def session_eprintf_def PrintNativeAppPrompt_def
      app_printf_def app_eprintf_def)

lemma context_log [simp]: "session_context (LogNativeApp l t s) = session_context s"
  by (simp add: LogNativeApp_def Let_def)

lemma context_deliver [simp]: "session_context (deliver_log n s) = session_context s"
proof -
  have "session_context (foldl (\<lambda>s (l, t). LogNativeApp l t s) s ms) = session_context s" for ms
    by (induction ms arbitrary: s) auto
  then show ?thesis by (simp add: deliver_log_def)
qed

lemma context_on_app:
  "session_context (fst (on_app f s)) = ap_ipsec (fst (f (ss_App s)))"
  "session_context (fst (on_context h s)) = fst (h (session_context s))"
  by (simp_all add: on_app_def on_context_def on_ipsec_def Let_def case_prod_beta)
    (simp_all add: session_context_def)

lemma snd_on_app [simp]:
  "snd (on_app f s) = snd (f (ss_App s))" "snd (on_context h s) = snd (h (session_context s))"
  by (simp_all add: on_app_def on_context_def on_ipsec_def session_context_def Let_def case_prod_beta)

lemma context_on_world [simp]: "session_context (on_world g s) = g (session_context s)"
  by (simp add: on_world_def session_context_def)

lemma context_update [simp]:
  "session_context (s\<lparr>ss_Config := c\<rparr>) = session_context s" "session_context (s\<lparr>ss_BaseConfig := c\<rparr>) = session_context s"
  "session_context (s\<lparr>ss_Runtime := k\<rparr>) = session_context s" "session_context (s\<lparr>ss_bConfigValid := b\<rparr>) = session_context s"
  "session_context (s\<lparr>ss_bConnectionLoaded := b\<rparr>) = session_context s"
  "session_context (s\<lparr>ss_bCredentialLoaded := b\<rparr>) = session_context s"
  "session_context (s\<lparr>ss_acConfigPath := p\<rparr>) = session_context s"
  "session_context (s\<lparr>ss_acApplicationConfigPath := p\<rparr>) = session_context s"
  "session_context (s\<lparr>ss_acManagementConfigPath := p\<rparr>) = session_context s"
  "session_context (s\<lparr>ss_Peer := w\<rparr>) = session_context s"
  "session_context (s\<lparr>ss_PeerListener := l\<rparr>) = session_context s"
  by (simp_all add: session_context_def)

lemma context_table [simp]: "session_context (on_table g s) = session_context s"
  by (simp add: on_table_def session_context_def)

subsection \<open>The invariant\<close>

text \<open>The connection that the session builds from a configuration, if it is valid.\<close>

definition connection_of :: "NativeAppConfig \<Rightarrow> IpsecConnectionConfig option" where
  "connection_of c =
     (if snd (ValidateNativeAppConfig NATIVE_APP_ERROR_TEXT_LENGTH c []) = IPSEC_OK
      then fst (BuildNativeAppRuntimeConfig NATIVE_APP_ERROR_TEXT_LENGTH (Some c) []) else None)"

definition session_inv :: "NativeAppSession \<Rightarrow> bool" where
  "session_inv s \<longleftrightarrow>
     nc_wf (ss_Config s) \<and> nc_wf (ss_BaseConfig s) \<and> nc_wf (pl_Config (ss_PeerListener s)) \<and>
     table_ok (session_table s) \<and>
     length (ss_acConfigPath s) = NATIVE_APP_PATH_LENGTH \<and>
     length (ss_acApplicationConfigPath s) = NATIVE_APP_PATH_LENGTH \<and>
     length (ss_acManagementConfigPath s) = NATIVE_APP_PATH_LENGTH \<and>
     (ss_bConfigValid s \<longrightarrow> connection_of (ss_Config s) = Some (ss_Runtime s))"

definition session_ok :: "NativeAppSession \<Rightarrow> bool" where
  "session_ok s \<longleftrightarrow> session_inv s \<and> idle (session_context s)"

lemma inv_core: "core s' = core s \<Longrightarrow> session_inv s' = session_inv s"
  using core_fields [of s' s] by (simp add: session_inv_def)

lemma inv_update [simp]:
  "session_inv (s\<lparr>ss_bConnectionLoaded := b\<rparr>) = session_inv s"
  "session_inv (s\<lparr>ss_bCredentialLoaded := b\<rparr>) = session_inv s"
  "session_inv (s\<lparr>ss_bPromptVisible := b\<rparr>) = session_inv s"
  "session_inv (s\<lparr>ss_App := a\<rparr>) = session_inv s"
  by (simp_all add: session_inv_def)

lemma inv_print [simp]:
  "session_inv (session_printf t s) = session_inv s" "session_inv (session_eprintf t s) = session_inv s"
  "session_inv (PrintNativeAppPrompt s) = session_inv s" "session_inv (on_world g s) = session_inv s"
  "session_inv (deliver_log n s) = session_inv s" "session_inv (LogNativeApp l t s) = session_inv s"
  by (rule inv_core; simp)+

lemma ok_print [simp]:
  "session_ok (session_printf t s) = session_ok s" "session_ok (session_eprintf t s) = session_ok s"
  "session_ok (PrintNativeAppPrompt s) = session_ok s" "session_ok (deliver_log n s) = session_ok s"
  by (simp_all add: session_ok_def)

lemma ok_flags [simp]:
  "session_ok (s\<lparr>ss_bConnectionLoaded := b\<rparr>) = session_ok s"
  "session_ok (s\<lparr>ss_bCredentialLoaded := b\<rparr>) = session_ok s"
  "session_ok (s\<lparr>ss_bPromptVisible := b\<rparr>) = session_ok s"
  by (simp_all add: session_ok_def session_context_def)

lemma ok_on_app:
  "session_ok s \<Longrightarrow> (\<And>a. app_idle a \<Longrightarrow> app_idle (fst (f a))) \<Longrightarrow> session_ok (fst (on_app f s))"
  using inv_core [of "fst (on_app f s)" s]
  by (simp add: session_ok_def context_on_app) (simp add: session_context_def)

lemma ok_on_context:
  "session_ok s \<Longrightarrow> (\<And>w. idle w \<Longrightarrow> idle (fst (f w))) \<Longrightarrow> session_ok (fst (on_context f s))"
  using inv_core [of "fst (on_context f s)" s] by (simp add: session_ok_def context_on_app)

lemma ok_and_then:
  "session_ok (fst r) \<Longrightarrow> (\<And>s. session_ok s \<Longrightarrow> session_ok (fst (f s))) \<Longrightarrow> session_ok (fst (and_then r f))"
  by (rule and_then_inv)

lemma ok_table:
  "session_ok s \<Longrightarrow> table_ok (g (session_table s)) \<Longrightarrow> session_ok (on_table g s)"
  by (simp add: session_ok_def session_inv_def) (simp add: on_table_def)

subsection \<open>Steps of the commands\<close>

lemma validate_text: "snd (ValidateNativeAppConfig n c t) = snd (ValidateNativeAppConfig m c u)"
  by (simp add: ValidateNativeAppConfig_def report_invalid_def split: option.split)

lemma split_error: "SplitNativeAppProposals t = Inl e \<Longrightarrow> e \<noteq> IPSEC_OK"
  by (auto simp: SplitNativeAppProposals_def split: option.splits if_splits)

lemma build_result:
  assumes "BuildNativeAppRuntimeConfig n (Some c) t = (r, t', e)"
  shows "e = IPSEC_OK \<longleftrightarrow> r \<noteq> None" and "fst (BuildNativeAppRuntimeConfig m (Some c) u) = r"
  using assms by (auto simp: BuildNativeAppRuntimeConfig_def Let_def split_error split: sum.splits)

text \<open>Validation followed by the construction of the connection, as the code writes it.\<close>

lemma connection_of_steps:
  assumes "ValidateNativeAppConfig n c t = (t1, e1)"
    and "(if e1 = IPSEC_OK then BuildNativeAppRuntimeConfig m (Some c) u else (None, u, e1)) = (r, t2, e2)"
  shows "connection_of c = r" and "e2 = IPSEC_OK \<longleftrightarrow> r \<noteq> None"
proof -
  have v: "snd (ValidateNativeAppConfig NATIVE_APP_ERROR_TEXT_LENGTH c []) = e1"
    using validate_text [of n c t] assms(1) by (metis snd_conv)
  show "connection_of c = r"
    using assms(2) v build_result(2) by (fastforce simp: connection_of_def split: if_splits)
  show "e2 = IPSEC_OK \<longleftrightarrow> r \<noteq> None"
    using assms(2) build_result(1) by (auto split: if_splits)
qed

lemma RebuildNativeAppRuntime_ok:
  assumes "session_ok (s\<lparr>ss_bConfigValid := False\<rparr>)" and "RebuildNativeAppRuntime s = (s', e)"
  shows "session_ok s'" and "e = IPSEC_OK \<longleftrightarrow> connection_of (ss_Config s) \<noteq> None"
    and "ss_bConfigValid s' \<longleftrightarrow> e = IPSEC_OK"
    and "core (s'\<lparr>ss_Runtime := undefined, ss_bConfigValid := False\<rparr>) =
         core (s\<lparr>ss_Runtime := undefined, ss_bConfigValid := False\<rparr>)"
    and "session_context s' = session_context s"
proof -
  obtain t1 e1 where v: "ValidateNativeAppConfig NATIVE_APP_ERROR_TEXT_LENGTH (ss_Config s) [] = (t1, e1)"
    by fastforce
  obtain r t2 e2 where b: "(if e1 = IPSEC_OK
      then BuildNativeAppRuntimeConfig NATIVE_APP_ERROR_TEXT_LENGTH (Some (ss_Config s)) t1
      else (None, t1, e1)) = (r, t2, e2)" by (metis prod.exhaust)
  note c = connection_of_steps [OF v b]
  have res: "(s', e) = (if e2 \<noteq> IPSEC_OK
      then (session_eprintf (''configuration is incomplete: '' @ t2 @ nl)
        (s\<lparr>ss_bConfigValid := False, ss_Runtime := zero_connection\<rparr>), e2)
      else (case r of Some k \<Rightarrow> s\<lparr>ss_bConfigValid := True, ss_Runtime := k\<rparr> | None \<Rightarrow> s\<lparr>ss_bConfigValid := True\<rparr>, IPSEC_OK))"
    using assms(2) by (auto simp: RebuildNativeAppRuntime_def v b split: option.splits)
  have inv: "session_ok (s\<lparr>ss_bConfigValid := False, ss_Runtime := k\<rparr>)"
    and inv': "connection_of (ss_Config s) = Some k \<Longrightarrow> session_ok (s\<lparr>ss_bConfigValid := True, ss_Runtime := k\<rparr>)" for k
    using assms(1) by (simp_all add: session_ok_def session_inv_def)
  have "session_ok s' \<and> (e = IPSEC_OK \<longleftrightarrow> connection_of (ss_Config s) \<noteq> None) \<and> (ss_bConfigValid s' \<longleftrightarrow> e = IPSEC_OK) \<and>
    session_context s' = session_context s \<and>
    core (s'\<lparr>ss_Runtime := undefined, ss_bConfigValid := False\<rparr>) =
         core (s\<lparr>ss_Runtime := undefined, ss_bConfigValid := False\<rparr>)"
  proof (cases "e2 = IPSEC_OK")
    case False
    then show ?thesis using res c inv by (simp add: core_def)
  next
    case True
    then obtain k where "r = Some k" using c(2) by blast
    then show ?thesis using True res c inv' by (simp add: core_def)
  qed
  then show "session_ok s'" "e = IPSEC_OK \<longleftrightarrow> connection_of (ss_Config s) \<noteq> None"
    "ss_bConfigValid s' \<longleftrightarrow> e = IPSEC_OK" "session_context s' = session_context s"
    "core (s'\<lparr>ss_Runtime := undefined, ss_bConfigValid := False\<rparr>) =
         core (s\<lparr>ss_Runtime := undefined, ss_bConfigValid := False\<rparr>)"
    by auto
qed

lemma RequireNativeAppConfig_ok:
  assumes "session_ok s" and "RequireNativeAppConfig s = (s', e)"
  shows "session_ok s'" and "e = IPSEC_OK \<longleftrightarrow> ss_bConfigValid s'"
    and "core (s'\<lparr>ss_Runtime := undefined, ss_bConfigValid := False\<rparr>) =
         core (s\<lparr>ss_Runtime := undefined, ss_bConfigValid := False\<rparr>)"
proof -
  have "session_ok (s\<lparr>ss_bConfigValid := False\<rparr>)" using assms(1) by (simp add: session_ok_def session_inv_def)
  note r = RebuildNativeAppRuntime_ok [OF this]
  show "session_ok s'" "e = IPSEC_OK \<longleftrightarrow> ss_bConfigValid s'"
    "core (s'\<lparr>ss_Runtime := undefined, ss_bConfigValid := False\<rparr>) =
         core (s\<lparr>ss_Runtime := undefined, ss_bConfigValid := False\<rparr>)"
    using assms r [of s' e] by (auto simp: RequireNativeAppConfig_def split: if_splits)
qed

lemma require_ok: "session_ok s \<Longrightarrow> session_ok (fst (RequireNativeAppConfig s))"
  using RequireNativeAppConfig_ok(1) by (metis prod.collapse)

lemma rebuild_ok: "session_ok s \<Longrightarrow> session_ok (fst (RebuildNativeAppRuntime s))"
proof -
  assume "session_ok s"
  then have "session_ok (s\<lparr>ss_bConfigValid := False\<rparr>)" by (simp add: session_ok_def session_inv_def)
  then show ?thesis using RebuildNativeAppRuntime_ok(1) by (metis prod.collapse)
qed

text \<open>A second context: opened beside the first, which is then closed, or used again.\<close>

lemma OpenNativeAppContext_ok:
  assumes "OpenNativeAppContext c s = (s', e)"
  shows "core s' = core s" and "e = IPSEC_OK \<Longrightarrow> idle (session_context s')"
    and "e \<noteq> IPSEC_OK \<Longrightarrow> released (session_context s')"
proof -
  let ?w = "(session_context s)\<lparr>os_open := [], os_locked := False\<rparr>"
  obtain b w1 e1 where i: "InitializeIpsec True (Some (context_config c)) ?w = ((b, w1), e1)" by (metis prod.exhaust)
  have "released ?w" by (simp add: released_def)
  note cases = InitializeIpsec_cases [OF this i]
  show "core s' = core s" using assms core_on_app(2) unfolding OpenNativeAppContext_def by (metis fst_conv)
  have "session_context s' = w1" "e = e1"
    using assms context_on_app(2) snd_on_app(2) i unfolding OpenNativeAppContext_def
    by (metis (no_types, lifting) case_prod_conv fst_conv, metis (no_types, lifting) case_prod_conv snd_conv)
  then show "e = IPSEC_OK \<Longrightarrow> idle (session_context s')" "e \<noteq> IPSEC_OK \<Longrightarrow> released (session_context s')"
    using cases by auto
qed

lemma back_to_idle: "idle old \<Longrightarrow> released (session_context s) \<Longrightarrow> idle (session_context (back_to old s))"
  by (simp add: back_to_def set_context_def idle_def fd_ok_def released_def)

lemma close_context_idle: "idle old \<Longrightarrow> idle w \<Longrightarrow> idle (close_context old w)"
proof -
  assume old: "idle old" and w: "idle w"
  then have "idle (set_context old w)" by (simp add: set_context_def idle_def fd_ok_def)
  note d = DeinitializeIpsec_released [OF this]
  then show ?thesis using w by (simp add: close_context_def Let_def set_context_def idle_def fd_ok_def released_def)
qed

lemma core_back [simp]: "core (back_to old s) = core s"
  by (simp add: back_to_def)

lemma ReconnectNativeAppContext_ok:
  assumes "session_ok s" and "ReconnectNativeAppContext c s = (s', e)"
  shows "session_ok s'" and "core s' = core s"
proof -
  obtain s1 e1 where o: "OpenNativeAppContext c s = (s1, e1)" by fastforce
  note op = OpenNativeAppContext_ok [OF o]
  have res: "s' = s \<or> (if e1 = IPSEC_OK then s' = on_world (close_context (session_context s)) s1
      else s' = back_to (session_context s) s1)"
    using assms(2) o by (auto simp: ReconnectNativeAppContext_def Let_def split: if_splits)
  show core: "core s' = core s" using res op(1) by (auto split: if_splits)
  have "idle (session_context s')"
    using res op(2,3) assms(1) back_to_idle close_context_idle by (auto simp: session_ok_def split: if_splits)
  then show "session_ok s'" using inv_core [OF core] assms(1) by (simp add: session_ok_def)
qed

subsection \<open>Commands that leave the settings alone\<close>

text \<open>What the session is about: its configurations, where they come from, the selected peer, the
  listener, the sockets of the registration, and the files and sockets of a sweep.\<close>

definition settings where
  "settings s = (ss_Config s, ss_BaseConfig s, ss_acConfigPath s, ss_acApplicationConfigPath s,
     ss_acManagementConfigPath s, pt_uiSelectedIndex (session_table s), pt_uiCount (session_table s),
     ss_PeerListener s, pe_open (ss_Peer s), ag_open (ss_Sweep s))"

definition settled :: "NativeAppSession \<Rightarrow> NativeAppSession \<Rightarrow> bool" where
  "settled s0 s \<longleftrightarrow> session_ok s \<and> settings s = settings s0"

lemma settings_core: "core (s'\<lparr>ss_Runtime := undefined, ss_bConfigValid := False\<rparr>) =
    core (s\<lparr>ss_Runtime := undefined, ss_bConfigValid := False\<rparr>) \<Longrightarrow> settings s' = settings s"
  using core_fields [of "s'\<lparr>ss_Runtime := undefined, ss_bConfigValid := False\<rparr>"
      "s\<lparr>ss_Runtime := undefined, ss_bConfigValid := False\<rparr>"]
  by (simp add: settings_def)

lemma settings_same: "core s' = core s \<Longrightarrow> settings s' = settings s"
  using core_fields [of s' s] by (simp add: settings_def)

lemma settings_update [simp]:
  "settings (s\<lparr>ss_bConnectionLoaded := b\<rparr>) = settings s" "settings (s\<lparr>ss_bCredentialLoaded := b\<rparr>) = settings s"
  "settings (s\<lparr>ss_App := a\<rparr>) = settings s" "settings (s\<lparr>ss_bPromptVisible := b\<rparr>) = settings s"
  "settings (session_printf t s) = settings s" "settings (session_eprintf t s) = settings s"
  "settings (deliver_log n s) = settings s"
  by (simp_all add: settings_def)

lemma settled_update [simp]:
  "settled s0 (s\<lparr>ss_bConnectionLoaded := b\<rparr>) = settled s0 s" "settled s0 (s\<lparr>ss_bCredentialLoaded := b\<rparr>) = settled s0 s"
  "settled s0 (session_printf t s) = settled s0 s" "settled s0 (session_eprintf t s) = settled s0 s"
  "settled s0 (deliver_log n s) = settled s0 s"
  by (simp_all add: settled_def)

named_theorems settles \<open>steps of a session that keep its invariant and its settings\<close>

lemma settled_app [settles]:
  "settled s0 s \<Longrightarrow> (\<And>a. app_idle a \<Longrightarrow> app_idle (fst (f a))) \<Longrightarrow> settled s0 (fst (on_app f s))"
  "settled s0 s \<Longrightarrow> (\<And>w. idle w \<Longrightarrow> idle (fst (h w))) \<Longrightarrow> settled s0 (fst (on_context h s))"
  using settings_same [OF core_on_app(1)] settings_same [OF core_on_app(2)]
  by (simp_all add: settled_def ok_on_app ok_on_context)

lemma settled_require [settles]: "settled s0 s \<Longrightarrow> settled s0 (fst (RequireNativeAppConfig s))"
  using RequireNativeAppConfig_ok [OF _ prod.collapse [symmetric], of s]
    settings_core [of "fst (RequireNativeAppConfig s)" s] by (simp add: settled_def)

lemma settled_rebuild [settles]: "settled s0 s \<Longrightarrow> settled s0 (fst (RebuildNativeAppRuntime s))"
proof -
  assume s: "settled s0 s"
  then have "session_ok (s\<lparr>ss_bConfigValid := False\<rparr>)" by (simp add: settled_def session_ok_def session_inv_def)
  note r = RebuildNativeAppRuntime_ok [OF this prod.collapse [symmetric]]
  show ?thesis using s r(1,4) settings_core [of "fst (RebuildNativeAppRuntime s)" s]
    by (simp add: settled_def)
qed

lemma settled_then [settles]:
  "settled s0 (fst r) \<Longrightarrow> (\<And>s. settled s0 s \<Longrightarrow> settled s0 (fst (f s))) \<Longrightarrow> settled s0 (fst (and_then r f))"
  by (rule and_then_inv)

lemma settled_table [settles]:
  "settled s0 s \<Longrightarrow> table_ok (g (session_table s)) \<Longrightarrow>
   pt_uiSelectedIndex (g (session_table s)) = pt_uiSelectedIndex (session_table s) \<Longrightarrow>
   pt_uiCount (g (session_table s)) = pt_uiCount (session_table s) \<Longrightarrow> settled s0 (on_table g s)"
  by (simp add: settled_def ok_table) (simp add: settings_def on_table_def)

lemma clear_peers_ok: "table_ok t \<Longrightarrow> table_ok (clear_peers t) \<and>
    pt_uiSelectedIndex (clear_peers t) = pt_uiSelectedIndex t \<and> pt_uiCount (clear_peers t) = pt_uiCount t"
  by (simp add: clear_peers_def Let_def LockNativeAppPeerTable_def UnlockNativeAppPeerTable_def table_ok_def nth_append)

lemma settled_ok: "settled s0 s \<Longrightarrow> table_ok (session_table s)" "settled s0 s \<Longrightarrow> nc_wf (ss_Config s)"
  by (simp_all add: settled_def session_ok_def session_inv_def)

lemma settled_clear [settles]: "settled s0 s \<Longrightarrow> settled s0 (on_table clear_peers s)"
  using clear_peers_ok [OF settled_ok(1)] by (intro settled_table) auto

lemma settled_save [settles]: "settled s0 s \<Longrightarrow> settled s0 (SaveNativeAppSelectedPeer s)"
  unfolding SaveNativeAppSelectedPeer_def
  using settled_ok [of s0 s]
  by (intro settled_table)
    (auto simp: Let_def LockNativeAppPeerTable_def UnlockNativeAppPeerTable_def table_ok_def nth_list_update)

lemma settled_parts [settles]:
  "(b \<Longrightarrow> settled s0 (fst r)) \<Longrightarrow> (\<not> b \<Longrightarrow> settled s0 (fst r')) \<Longrightarrow> settled s0 (fst (if b then r else r'))"
  "(b \<Longrightarrow> settled s0 s) \<Longrightarrow> (\<not> b \<Longrightarrow> settled s0 s') \<Longrightarrow> settled s0 (if b then s else s')"
  "settled s0 s \<Longrightarrow> settled s0 (fst (s, e))"
  "settled s0 (fst x) \<Longrightarrow> (\<And>s e. settled s0 s \<Longrightarrow> settled s0 (fst (h s e))) \<Longrightarrow> settled s0 (fst (case x of (s, e) \<Rightarrow> h s e))"
  "settled s0 (fst x) \<Longrightarrow> (\<And>s e. settled s0 s \<Longrightarrow> settled s0 (g s e)) \<Longrightarrow> settled s0 (case x of (s, e) \<Rightarrow> g s e)"
  "settled s0 s \<Longrightarrow> settled s0 (s\<lparr>ss_bConnectionLoaded := c\<rparr>)" "settled s0 s \<Longrightarrow> settled s0 (s\<lparr>ss_bCredentialLoaded := c\<rparr>)"
  "settled s0 s \<Longrightarrow> settled s0 (session_printf t s)" "settled s0 s \<Longrightarrow> settled s0 (session_eprintf t s)"
  by (auto split: prod.split)

lemma ExecuteNativeAppConnectionCommand_settled:
  "settled s0 s \<Longrightarrow> settled s0 (fst (ExecuteNativeAppConnectionCommand mem args s))"
  unfolding ExecuteNativeAppConnectionCommand_def Let_def
  by (intro settles keeps_idle | assumption)+

lemma ExecuteNativeAppCredentialCommand_settled:
  "settled s0 s \<Longrightarrow> settled s0 (fst (ExecuteNativeAppCredentialCommand mem args s))"
  unfolding ExecuteNativeAppCredentialCommand_def Let_def ShowNativeAppCredential_def
  by (intro settles keeps_idle | assumption)+

lemma ExecuteNativeAppIkeCommand_settled:
  "settled s0 s \<Longrightarrow> settled s0 (fst (ExecuteNativeAppIkeCommand mem args s))"
  unfolding ExecuteNativeAppIkeCommand_def Let_def
  by (intro settles keeps_idle | assumption)+

lemma ExecuteNativeAppChildCommand_settled:
  "settled s0 s \<Longrightarrow> settled s0 (fst (ExecuteNativeAppChildCommand mem args s))"
  unfolding ExecuteNativeAppChildCommand_def Let_def
  by (intro settles keeps_idle | assumption)+

lemma ExecuteNativeAppDown_settled: "settled s0 s \<Longrightarrow> settled s0 (fst (ExecuteNativeAppDown s))"
  unfolding ExecuteNativeAppDown_def Let_def
  by (intro settles keeps_idle | assumption)+

lemma ExecuteNativeAppLegacyLoad_settled: "settled s0 s \<Longrightarrow> settled s0 (fst (ExecuteNativeAppLegacyLoad mem s))"
  unfolding ExecuteNativeAppLegacyLoad_def Let_def
  by (intro settles keeps_idle | assumption)+

lemma settled_added:
  "settled s0 (fst (fst x)) \<Longrightarrow> (\<And>s b e. settled s0 s \<Longrightarrow> settled s0 (fst (h s b e))) \<Longrightarrow>
   settled s0 (fst ((\<lambda>((s, b), e). h s b e) x))"
  "(b \<Longrightarrow> settled s0 (fst (fst r))) \<Longrightarrow> (\<not> b \<Longrightarrow> settled s0 (fst (fst r'))) \<Longrightarrow> settled s0 (fst (fst (if b then r else r')))"
  "settled s0 (fst y) \<Longrightarrow> settled s0 (fst (fst (y, e)))"
  "settled s0 (fst z) \<Longrightarrow> (\<And>s e. settled s0 s \<Longrightarrow> settled s0 (fst (fst (k s e)))) \<Longrightarrow>
   settled s0 (fst (fst (case z of (s, e) \<Rightarrow> k s e)))"
  by (auto split: prod.split)

lemma ExecuteNativeAppUp_settled: "settled s0 s \<Longrightarrow> settled s0 (fst (ExecuteNativeAppUp mem s))"
  unfolding ExecuteNativeAppUp_def Let_def
  by (rule settled_added settles keeps_idle | assumption)+

subsection \<open>Commands that change the settings\<close>

text \<open>The listener, the sockets of the registration and what a sweep has open stay as they are.\<close>

definition bound :: "NativeAppSession \<Rightarrow> NativeAppSession \<Rightarrow> bool" where
  "bound s0 s \<longleftrightarrow> session_ok s \<and> ss_PeerListener s = ss_PeerListener s0 \<and>
     pe_open (ss_Peer s) = pe_open (ss_Peer s0) \<and> ag_open (ss_Sweep s) = ag_open (ss_Sweep s0)"

lemma settled_bound: "settled s0 s \<Longrightarrow> bound s0 s"
  by (simp add: settled_def bound_def settings_def)

lemma settled_refl: "session_ok s \<Longrightarrow> settled s s"
  by (simp add: settled_def)

lemma settled_trans: "settled s0 s \<Longrightarrow> settled s s' \<Longrightarrow> settled s0 s'"
  by (simp add: settled_def)

lemma bound_trans: "bound s0 s \<Longrightarrow> bound s s' \<Longrightarrow> bound s0 s'"
  by (simp add: bound_def)

lemma bound_update [simp]:
  "bound s0 (session_printf t s) = bound s0 s" "bound s0 (session_eprintf t s) = bound s0 s"
  "bound s0 (s\<lparr>ss_bConnectionLoaded := b\<rparr>) = bound s0 s" "bound s0 (s\<lparr>ss_bCredentialLoaded := b\<rparr>) = bound s0 s"
  by (simp_all add: bound_def)

lemma rebuild_bound:
  assumes "bound s0 (s\<lparr>ss_bConfigValid := False\<rparr>)"
  shows "bound s0 (fst (RebuildNativeAppRuntime s))"
    and "settings (fst (RebuildNativeAppRuntime s)) = settings s"
proof -
  have "session_ok (s\<lparr>ss_bConfigValid := False\<rparr>)" using assms by (simp add: bound_def)
  note r = RebuildNativeAppRuntime_ok [OF this prod.collapse [symmetric]]
  show "settings (fst (RebuildNativeAppRuntime s)) = settings s" by (rule settings_core [OF r(4)])
  then show "bound s0 (fst (RebuildNativeAppRuntime s))" using assms r(1) by (simp add: bound_def settings_def)
qed

lemma on_table_twice: "on_table f (on_table g s) = on_table (\<lambda>t. f (g t)) s"
  by (simp add: on_table_def)

lemma lock_twice: "table_ok t \<Longrightarrow> UnlockNativeAppPeerTable (LockNativeAppPeerTable t) = t"
  by (simp add: UnlockNativeAppPeerTable_def LockNativeAppPeerTable_def table_ok_def)

lemma lock_count: "pt_uiCount (LockNativeAppPeerTable t) = pt_uiCount t"
  by (simp add: LockNativeAppPeerTable_def)

lemma SelectNativeAppPeer_bound:
  assumes "session_ok s"
  shows "bound s (fst (SelectNativeAppPeer i s))" and "ss_BaseConfig (fst (SelectNativeAppPeer i s)) = ss_BaseConfig s"
proof -
  define s1 where "s1 = SaveNativeAppSelectedPeer s"
  have s1: "settled s s1" unfolding s1_def using assms by (intro settles settled_refl)
  have "bound s (fst (SelectNativeAppPeer i s)) \<and> ss_BaseConfig (fst (SelectNativeAppPeer i s)) = ss_BaseConfig s"
  proof (cases i)
    case None
    then show ?thesis using settled_bound [OF settled_refl [OF assms]] by (simp add: SelectNativeAppPeer_def)
  next
    case (Some k)
    have count: "session_table (on_table LockNativeAppPeerTable s1) = LockNativeAppPeerTable (session_table s1)"
      by (simp add: on_table_def)
    show ?thesis
    proof (cases "k < pt_uiCount (session_table s1)")
      case False
      have "on_table (\<lambda>t. UnlockNativeAppPeerTable (LockNativeAppPeerTable t)) s1 = s1"
        using lock_twice [OF settled_ok(1) [OF s1]] by (simp add: on_table_def)
      moreover have "SelectNativeAppPeer i s =
          (on_table (\<lambda>t. UnlockNativeAppPeerTable (LockNativeAppPeerTable t)) s1, IPSEC_ERR_INVALID_ARGUMENT)"
        using False Some by (simp add: SelectNativeAppPeer_def s1_def [symmetric] Let_def count lock_count on_table_twice)
      ultimately show ?thesis using settled_bound [OF s1] s1 by (simp add: settled_def settings_def)
    next
      case True
      let ?p = "pt_aPeers (session_table s1) ! k"
      let ?s2 = "(on_table (\<lambda>t. UnlockNativeAppPeerTable ((LockNativeAppPeerTable t)\<lparr>pt_uiSelectedIndex := k\<rparr>))
        (s1\<lparr>ss_Config := np_Config ?p, ss_bConnectionLoaded := np_bConnectionLoaded ?p,
          ss_bCredentialLoaded := np_bCredentialLoaded ?p\<rparr>))\<lparr>ss_bConfigValid := False\<rparr>"
      have "nc_wf (np_Config ?p)" using True settled_ok(1) [OF s1] by (simp add: table_ok_def)
      then have "bound s (?s2\<lparr>ss_bConfigValid := False\<rparr>)"
        using s1 by (simp add: bound_def settled_def settings_def session_ok_def session_inv_def on_table_def
            session_context_def)
          (auto simp: table_ok_def LockNativeAppPeerTable_def UnlockNativeAppPeerTable_def)
      note b = rebuild_bound [OF this]
      have "SelectNativeAppPeer i s = RebuildNativeAppRuntime ?s2"
        using True Some by (simp add: SelectNativeAppPeer_def s1_def [symmetric] Let_def count on_table_def
            LockNativeAppPeerTable_def)
      moreover have "ss_BaseConfig ?s2 = ss_BaseConfig s" using s1 by (simp add: settled_def settings_def on_table_def)
      ultimately show ?thesis using b by (simp add: settings_def)
    qed
  qed
  then show "bound s (fst (SelectNativeAppPeer i s))" "ss_BaseConfig (fst (SelectNativeAppPeer i s)) = ss_BaseConfig s"
    by auto
qed

lemma show_peers_settled: "settled s0 s \<Longrightarrow> settled s0 (ShowNativeAppPeers s)"
proof -
  assume s: "settled s0 s"
  have "ShowNativeAppPeers s = session_printf (peers_table (pt_uiCount (session_table s)) @
      concat (map (\<lambda>k. peer_row (pt_uiSelectedIndex (session_table s)) k (pt_aPeers (session_table s) ! k))
        [0..<pt_uiCount (session_table s)]) @
      (if pt_uiCount (session_table s) = 0 then ''  No registered peers.'' @ nl else []))
      (on_table (\<lambda>t. UnlockNativeAppPeerTable (LockNativeAppPeerTable t)) s)"
    by (simp add: ShowNativeAppPeers_def Let_def on_table_def session_printf_def LockNativeAppPeerTable_def)
  moreover have "on_table (\<lambda>t. UnlockNativeAppPeerTable (LockNativeAppPeerTable t)) s = s"
    using lock_twice [OF settled_ok(1) [OF s]] by (simp add: on_table_def)
  ultimately show ?thesis using s by simp
qed

text \<open>Rules that follow the shape of a command, for any property of the session.\<close>

lemma command_shape:
  "(b \<Longrightarrow> P (fst r)) \<Longrightarrow> (\<not> b \<Longrightarrow> P (fst r')) \<Longrightarrow> P (fst (if b then r else r'))"
  "P (fst x) \<Longrightarrow> (\<And>s e. P s \<Longrightarrow> P (fst (h s e))) \<Longrightarrow> P (fst (case x of (s, e) \<Rightarrow> h s e))"
  "P s \<Longrightarrow> P (fst (s, e))"
  "(\<And>i. p = Some i \<Longrightarrow> P (f i)) \<Longrightarrow> (p = None \<Longrightarrow> P s) \<Longrightarrow> P (case p of Some i \<Rightarrow> f i | None \<Rightarrow> s)"
  by (auto split: prod.split option.split)

definition peer_step :: "NativeAppSession \<Rightarrow> NativeAppSession \<Rightarrow> bool" where
  "peer_step s x \<longleftrightarrow> bound s x \<and> ss_BaseConfig x = ss_BaseConfig s"

lemma peer_printed:
  "peer_step s x \<Longrightarrow> peer_step s (session_printf t x)" "peer_step s x \<Longrightarrow> peer_step s (session_eprintf t x)"
  by (simp_all add: peer_step_def)

lemma peer_refl: "session_ok s \<Longrightarrow> peer_step s s"
  by (simp add: peer_step_def bound_def)

lemma peer_selected: "peer_step s x \<Longrightarrow> peer_step s (fst (SelectNativeAppPeer i x))"
  using SelectNativeAppPeer_bound [of x i] by (simp add: peer_step_def bound_def)

lemma peer_registered:
  assumes "RegisterNativeAppPeer True (ss_BaseConfig s) n ((ss_Peer s)\<lparr>pe_pcError := []\<rparr>) = ((i, w), e)"
    and "session_ok s"
  shows "peer_step s ((session_printf t s)\<lparr>ss_Peer := w\<rparr>)"
proof -
  have "grown (session_table s) (i, w) e \<and> pe_open w = pe_open (ss_Peer s)"
    using register_grown [OF assms(1)] assms(2) by (simp add: session_ok_def session_inv_def)
  then show ?thesis using assms(2) by (simp add: peer_step_def bound_def session_ok_def session_inv_def grown_def)
qed

lemma peer_shown: "session_ok s \<Longrightarrow> peer_step s (ShowNativeAppPeers (SaveNativeAppSelectedPeer s))"
  using show_peers_settled [of s "SaveNativeAppSelectedPeer s"] settled_save [OF settled_refl] settled_bound
  by (simp add: peer_step_def settled_def settings_def)

lemma ExecuteNativeAppPeerCommand_step:
  assumes "session_ok s"
  shows "peer_step s (fst (ExecuteNativeAppPeerCommand args s))"
proof -
  obtain t k where f: "FindNativeAppPeer (Some (session_table s)) (Some (args ! 2)) = (t, k)" by fastforce
  have find: "on_table (\<lambda>t'. case t of Some t \<Rightarrow> t | None \<Rightarrow> t') s = s"
    using lock_twice [of "session_table s"] assms f
    by (auto simp: FindNativeAppPeer_def Let_def on_table_def session_ok_def session_inv_def)
  obtain i w e where r: "RegisterNativeAppPeer True (ss_BaseConfig s) NATIVE_APP_ERROR_TEXT_LENGTH
    ((ss_Peer s)\<lparr>pe_pcError := []\<rparr>) = ((i, w), e)" by (metis prod.exhaust)
  have printed: "ss_BaseConfig (session_printf t s) = ss_BaseConfig s" "ss_Peer (session_printf t s) = ss_Peer s" for t
    by (rule session_fields)+
  show ?thesis
    unfolding ExecuteNativeAppPeerCommand_def Let_def printed r f prod.case find
    by (rule command_shape [where P = "peer_step s"] peer_refl [OF assms] peer_shown [OF assms] peer_printed peer_selected
        peer_registered [OF r assms] | assumption)+
qed

text \<open>Loading a configuration and changing a setting.\<close>

lemma LoadNativeAppConfig_wf: "nc_wf (fst (fst (LoadNativeAppConfig (Some p) f n x)))"
proof -
  have v: "nc_wf (fst y) \<Longrightarrow>
      nc_wf (fst (fst ((\<lambda>(c, d). let (d, e) = ValidateNativeAppConfig n c d in ((c, d), e)) y)))" for y
    by (simp add: case_prod_beta Let_def)
  show ?thesis
    unfolding LoadNativeAppConfig_def option.case
    by (rule and_then_wf, rule and_then_wf)
      (simp_all add: settings_file_wf SetNativeAppConfigSetting_wf InitializeNativeAppConfig_wf with_default_peer_wf v case_prod_beta)
qed

lemma session_text_length: "length (fst (CopyNativeAppSessionText b t)) = length b"
  by (auto simp: CopyNativeAppSessionText_def Let_def length_buf_write split: option.split)

lemma reconfigured:
  assumes "bound s0 s" and "nc_wf c" and "nc_wf d" and "length p = NATIVE_APP_PATH_LENGTH"
    and "length q = NATIVE_APP_PATH_LENGTH" and "length r = NATIVE_APP_PATH_LENGTH"
  shows "bound s0 (s\<lparr>ss_acConfigPath := p, ss_Config := c, ss_BaseConfig := d, ss_acApplicationConfigPath := q,
      ss_acManagementConfigPath := r, ss_bCredentialLoaded := b, ss_bConfigValid := False\<rparr>)"
  using assms by (auto simp: bound_def session_ok_def session_inv_def)

lemma bound_paths:
  assumes "bound s0 s"
  shows "length (ss_acConfigPath s) = NATIVE_APP_PATH_LENGTH"
    "length (ss_acApplicationConfigPath s) = NATIVE_APP_PATH_LENGTH"
    "length (ss_acManagementConfigPath s) = NATIVE_APP_PATH_LENGTH"
    and "nc_wf (ss_Config s)" "nc_wf (ss_BaseConfig s)"
  using assms by (simp_all add: bound_def session_ok_def session_inv_def)

lemma bound_core: "bound s0 s \<Longrightarrow> core s' = core s \<Longrightarrow> idle (session_context s') \<Longrightarrow> bound s0 s'"
  using inv_core [of s' s] core_fields [of s' s] by (simp add: bound_def session_ok_def)

lemma LoadNativeAppSessionConfig_bound:
  assumes "session_ok s"
  shows "bound s (fst (LoadNativeAppSessionConfig path s))"
    and "ss_bConnectionLoaded s \<Longrightarrow> settled s (fst (LoadNativeAppSessionConfig path s))"
proof -
  show "ss_bConnectionLoaded s \<Longrightarrow> settled s (fst (LoadNativeAppSessionConfig path s))"
    using settled_refl [OF assms] by (simp add: LoadNativeAppSessionConfig_def)
  have ok: "bound s s" using settled_bound [OF settled_refl [OF assms]] .
  obtain c t e where l: "LoadNativeAppConfig (Some path) (ap_files (ss_App s) (cstr path))
      NATIVE_APP_ERROR_TEXT_LENGTH (zero_config, []) = ((c, t), e)" by (metis prod.exhaust)
  have c: "nc_wf c" using LoadNativeAppConfig_wf l by (metis fst_conv)
  obtain k u e1 where r: "(if e = IPSEC_OK then BuildNativeAppRuntimeConfig NATIVE_APP_ERROR_TEXT_LENGTH (Some c) t
      else (None, t, e)) = (k, u, e1)" by (metis prod.exhaust)
  define ch where "ch = (\<not> strcmp_eq (nc_acViciSocket c) (nc_acViciSocket (ss_Config s)))"
  obtain s1 e2 where o: "(if ch then OpenNativeAppContext c s else (s, IPSEC_OK)) = (s1, e2)" by fastforce
  obtain p cp where p: "CopyNativeAppSessionText (ss_acConfigPath s1) (Some path) = (p, cp)" by fastforce
  let ?s2 = "if ch then on_world (close_context (session_context s)) s1 else s1"
  let ?s3 = "?s2\<lparr>ss_acConfigPath := p, ss_Config := c, ss_BaseConfig := c,
      ss_acApplicationConfigPath := (ss_acApplicationConfigPath ?s2)[0 := NUL],
      ss_acManagementConfigPath := (ss_acManagementConfigPath ?s2)[0 := NUL],
      ss_bCredentialLoaded := False, ss_bConfigValid := False\<rparr>"
  have core1: "core s1 = core s" using o OpenNativeAppContext_ok(1) by (auto split: if_splits)
  have i1: "e2 = IPSEC_OK \<Longrightarrow> idle (session_context s1)" "e2 \<noteq> IPSEC_OK \<Longrightarrow> released (session_context s1)"
    using o OpenNativeAppContext_ok(2,3) [of c s s1 e2] assms by (auto simp: session_ok_def split: if_splits)
  have old: "idle (session_context s)" using assms by (simp add: session_ok_def)
  have kept: "bound s (back_to (session_context s) x)" if "core x = core s" "released (session_context x)" for x
    using bound_core [OF ok, of "back_to (session_context s) x"] back_to_idle [OF old that(2)] that(1) by simp
  have two: "bound s ?s2" if "e2 = IPSEC_OK"
    using bound_core [OF ok, of ?s2] core1 i1(1) [OF that] close_context_idle [OF old] by auto
  have "bound s ?s3" if "e2 = IPSEC_OK"
  proof -
    have "length p = NATIVE_APP_PATH_LENGTH"
      using session_text_length [of "ss_acConfigPath s1" "Some path"] p core_fields(6) [OF core1] bound_paths(1) [OF ok]
      by simp
    then show ?thesis using bound_paths(2,3) [OF two [OF that]]
      by (intro reconfigured two that c) simp_all
  qed
  then have three: "bound s (fst (RebuildNativeAppRuntime ?s3))" if "e2 = IPSEC_OK"
    using rebuild_bound(1) [of s ?s3] that by simp
  have full: "bound s (if ch then back_to (session_context s) (on_world (DeinitializeIpsec True) s1) else s1)"
    if "e2 = IPSEC_OK"
  proof (cases ch)
    case True
    have "released (session_context (on_world (DeinitializeIpsec True) s1))"
      using DeinitializeIpsec_released [OF i1(1) [OF that]] by simp
    then show ?thesis using kept True core1 by simp
  next
    case False
    then show ?thesis using two [OF that] by simp
  qed
  show "bound s (fst (LoadNativeAppSessionConfig path s))"
  proof (cases "ss_bConnectionLoaded s \<or> e1 \<noteq> IPSEC_OK")
    case True
    then show ?thesis using ok by (cases "ss_bConnectionLoaded s") (simp_all add: LoadNativeAppSessionConfig_def l r)
  next
    case False
    then show ?thesis
      unfolding LoadNativeAppSessionConfig_def l r Let_def prod.case ch_def [symmetric] o p
      using three full kept [OF core1 i1(2)]
      by (cases ch) (simp_all add: case_prod_beta)
  qed
qed

lemma SetNativeAppSessionConfig_bound:
  assumes "session_ok s"
  shows "bound s (fst (SetNativeAppSessionConfig k v s))"
    and "ss_bConnectionLoaded s \<Longrightarrow> settled s (fst (SetNativeAppSessionConfig k v s))"
proof -
  show "ss_bConnectionLoaded s \<Longrightarrow> settled s (fst (SetNativeAppSessionConfig k v s))"
    using settled_refl [OF assms] by (simp add: SetNativeAppSessionConfig_def)
  have ok: "bound s s" using settled_bound [OF settled_refl [OF assms]] .
  obtain c e where c: "SetNativeAppConfigSetting k v (ss_Config s) = (c, e)" by fastforce
  have wf: "nc_wf c" using SetNativeAppConfigSetting_wf [OF bound_paths(4) [OF ok], of k v] c by simp
  obtain s1 e1 where r: "(if e = IPSEC_OK \<and> \<not> strcmp_eq (nc_acViciSocket c) (nc_acViciSocket (ss_Config s))
      then ReconnectNativeAppContext c s else (s, e)) = (s1, e1)" by fastforce
  have s1: "bound s s1"
    using r ok ReconnectNativeAppContext_ok [OF assms, of c s1 e1] core_fields [of s1 s]
    by (auto simp: bound_def split: if_splits)
  have lock: "on_table (\<lambda>t. UnlockNativeAppPeerTable (LockNativeAppPeerTable t)) s1 = s1"
    using lock_twice [of "session_table s1"] s1 by (simp add: on_table_def bound_def session_ok_def session_inv_def)
  let ?s3 = "s1\<lparr>ss_Config := c,
      ss_BaseConfig := (if pt_uiCount (session_table s1) \<le> pt_uiSelectedIndex (session_table s1)
        then c else ss_BaseConfig s1),
      ss_acConfigPath := (ss_acConfigPath s1)[0 := NUL], ss_bCredentialLoaded := False, ss_bConfigValid := False\<rparr>"
  have "bound s ?s3"
    using s1 wf by (auto simp: bound_def session_ok_def session_inv_def)
  then have "bound s (fst (RebuildNativeAppRuntime ?s3))"
    using rebuild_bound(1) [of s ?s3] by simp
  then show "bound s (fst (SetNativeAppSessionConfig k v s))"
    unfolding SetNativeAppSessionConfig_def Let_def c prod.case r lock
    using ok s1 by (simp add: case_prod_beta del: core_print session_fields)
qed

lemma ExecuteNativeAppConfigCommand_bound:
  assumes "session_ok s"
  shows "bound s (fst (ExecuteNativeAppConfigCommand args s))"
    and "ss_bConnectionLoaded s \<Longrightarrow> settled s (fst (ExecuteNativeAppConfigCommand args s))"
proof -
  note r = settled_refl [OF assms]
  note b = settled_bound [OF r] settled_bound [OF settled_rebuild [OF r]]
  show "bound s (fst (ExecuteNativeAppConfigCommand args s))"
    unfolding ExecuteNativeAppConfigCommand_def Let_def case_prod_beta
    using b assms LoadNativeAppSessionConfig_bound(1) [OF assms] SetNativeAppSessionConfig_bound(1) [OF assms]
    by (auto simp: ShowNativeAppConfig_def Let_def)
  show "ss_bConnectionLoaded s \<Longrightarrow> settled s (fst (ExecuteNativeAppConfigCommand args s))"
    unfolding ExecuteNativeAppConfigCommand_def Let_def ShowNativeAppConfig_def
    by (rule settles r LoadNativeAppSessionConfig_bound(2) [OF assms] SetNativeAppSessionConfig_bound(2) [OF assms]
        | assumption)+
qed

subsection \<open>All commands\<close>

lemma settled_long:
  assumes "settled s0 s" and "app_idle (ss_App s) \<Longrightarrow> app_idle a"
  shows "settled s0 (deliver_log n (s\<lparr>ss_App := ResetNativeAppStopRequest a\<rparr>))"
  using assms by (simp add: settled_def session_ok_def) (simp add: session_context_def)

lemma ExecuteNativeAppLoopCommand_settled:
  assumes "ExecuteNativeAppLoopCommand mem args k s = Some (s', e)" and "settled s0 s"
  shows "settled s0 s'"
proof -
  obtain s1 e1 where q: "RequireNativeAppConfig s = (s1, e1)" by fastforce
  have s1: "settled s0 s1" using settled_require [OF assms(2)] q by simp
  show ?thesis
  proof (cases "\<not> ss_bConnectionLoaded s \<and> e1 = IPSEC_OK")
    case False
    then show ?thesis using assms s1
      by (cases "ss_bConnectionLoaded s") (auto simp: ExecuteNativeAppLoopCommand_def q)
  next
    case True
    show ?thesis
    proof (cases "ParseNativeAppLoopOptions args k")
      case None
      then show ?thesis using assms True s1 by (simp add: ExecuteNativeAppLoopCommand_def q)
    next
      case (Some opts)
      then obtain a where "RunNativeAppLoop mem (ss_Config s1) (ss_Runtime s1) opts
          (ResetNativeAppStopRequest (ss_App s1)) = Some (a, e)"
        and s': "s' = (deliver_log (seen_log s1) (s1\<lparr>ss_App := ResetNativeAppStopRequest a\<rparr>))
          \<lparr>ss_bConnectionLoaded := False, ss_bCredentialLoaded := \<not> lo_bClearCredentials opts\<rparr>"
        using assms(1) True by (auto simp: ExecuteNativeAppLoopCommand_def q)
      then show ?thesis
        using settled_long [OF s1, of a] RunNativeAppLoop_idle by simp
    qed
  qed
qed

lemma run_algorithm_settled:
  assumes "run_algorithm f s = Some (s', e)" and "settled s0 s"
    and "\<And>g g' e. f g = Some (g', e) \<Longrightarrow> app_idle (ag_App g) \<Longrightarrow> app_idle (ag_App g') \<and> ag_open g' = ag_open g"
  shows "settled s0 s'"
proof -
  let ?g = "(ss_Sweep s)\<lparr>ag_App := ResetNativeAppStopRequest (ss_App s)\<rparr>"
  obtain g where g: "f ?g = Some (g, e)"
    and s': "s' = (deliver_log (seen_log s) (s\<lparr>ss_App := ResetNativeAppStopRequest (ag_App g), ss_Sweep := g\<rparr>))
      \<lparr>ss_bCredentialLoaded := True\<rparr>"
    using assms(1) by (auto simp: run_algorithm_def)
  have "app_idle (ss_App s)" using assms(2) by (simp add: settled_def session_ok_def session_context_def)
  then have "app_idle (ag_App g) \<and> ag_open g = ag_open (ss_Sweep s)" using assms(3) [OF g] by simp
  then have "settled s0 (s\<lparr>ss_App := ResetNativeAppStopRequest (ag_App g), ss_Sweep := g\<rparr>)"
    using assms(2) unfolding settled_def settings_def session_ok_def session_inv_def session_context_def by auto
  then show ?thesis by (simp add: s')
qed

definition opt_settled :: "NativeAppSession \<Rightarrow> NativeAppSession outcome option \<Rightarrow> bool" where
  "opt_settled s0 r \<longleftrightarrow> (\<forall>s e. r = Some (s, e) \<longrightarrow> settled s0 s)"

lemma opt_settled_rules:
  "(b \<Longrightarrow> opt_settled s0 r) \<Longrightarrow> (\<not> b \<Longrightarrow> opt_settled s0 r') \<Longrightarrow> opt_settled s0 (if b then r else r')"
  "settled s0 (fst x) \<Longrightarrow> (\<And>s e. settled s0 s \<Longrightarrow> opt_settled s0 (h s e)) \<Longrightarrow> opt_settled s0 (case x of (s, e) \<Rightarrow> h s e)"
  "(\<And>i. opt_settled s0 (f i)) \<Longrightarrow> opt_settled s0 r \<Longrightarrow> opt_settled s0 (case p of Some i \<Rightarrow> f i | None \<Rightarrow> r)"
  "settled s0 (fst x) \<Longrightarrow> opt_settled s0 (Some x)"
  "(\<And>i. settled s0 (fst (g i))) \<Longrightarrow> settled s0 (fst y) \<Longrightarrow> settled s0 (fst (case q of Some i \<Rightarrow> g i | None \<Rightarrow> y))"
  by (auto simp: opt_settled_def split: prod.split option.split)

lemma ExecuteNativeAppAlgorithmCommand_settled:
  assumes "settled s0 s"
  shows "opt_settled s0 (ExecuteNativeAppAlgorithmCommand mem args s)"
proof -
  have check: "settled s0 (fst (CheckNativeAppAlgorithmCatalog c m s))" if "settled s0 s" for c m s
    using that by (simp add: CheckNativeAppAlgorithmCatalog_def Let_def split: option.split)
  have serve: "opt_settled s0 (run_algorithm (RunNativeAppAlgorithmServer mem c p) s)"
    and client: "opt_settled s0 (run_algorithm (Some \<circ> RunNativeAppAlgorithmClient mem c opts) s)"
    if "settled s0 s" for s c p opts
    using run_algorithm_settled [OF _ that] algorithm_idle unfolding opt_settled_def by (metis comp_apply option.inject)+
  show ?thesis
    unfolding ExecuteNativeAppAlgorithmCommand_def Let_def
    by (rule opt_settled_rules(1-4) settles opt_settled_rules(5) serve client check assms | assumption)+
qed

definition dispatched :: "(NativeAppSession \<Rightarrow> bool) \<Rightarrow> (NativeAppSession outcome \<times> bool) option \<Rightarrow> bool" where
  "dispatched P r \<longleftrightarrow> (\<forall>s e b. r = Some ((s, e), b) \<longrightarrow> P s)"

lemma dispatched_rules:
  "(b \<Longrightarrow> dispatched P r) \<Longrightarrow> (\<not> b \<Longrightarrow> dispatched P r') \<Longrightarrow> dispatched P (if b then r else r')"
  "P (fst x) \<Longrightarrow> dispatched P (Some (x, b))"
  "(\<And>s e. q = Some (s, e) \<Longrightarrow> P s) \<Longrightarrow> dispatched P (map_option (\<lambda>r. (r, False)) q)"
  by (auto simp: dispatched_def)

lemma run_show_settled: "settled s0 s \<Longrightarrow> settled s0 (fst (run_show mem args s))"
  unfolding run_show_def ShowNativeAppConfig_def ShowNativeAppCredential_def Let_def
  by (rule settles opt_settled_rules(5) keeps_idle | assumption)+

lemma help_settled: "settled s0 s \<Longrightarrow> settled s0 (s\<lparr>ss_App := PrintNativeAppHelp (ss_App s)\<rparr>)"
  using settled_update(3) [of s0 help_text s] by (simp add: session_printf_def PrintNativeAppHelp_def)

text \<open>Every command but the two that change the settings keeps them; each of those two is given by
  what it does.\<close>

lemma dispatch_command_shape:
  assumes "settled s0 s"
    and "\<And>x. settled s0 x \<Longrightarrow> P x"
    and "strcmp_eq ''config'' (args ! 0) \<Longrightarrow> P (fst (ExecuteNativeAppConfigCommand args s))"
    and "strcmp_eq ''peer'' (args ! 0) \<Longrightarrow> P (fst (ExecuteNativeAppPeerCommand args s))"
  shows "dispatched P (dispatch_command mem args s)"
proof -
  note direct = ExecuteNativeAppConnectionCommand_settled [OF assms(1)] ExecuteNativeAppCredentialCommand_settled [OF assms(1)]
    ExecuteNativeAppIkeCommand_settled [OF assms(1)] ExecuteNativeAppChildCommand_settled [OF assms(1)]
    run_show_settled [OF assms(1)] ExecuteNativeAppUp_settled [OF assms(1)] ExecuteNativeAppDown_settled [OF assms(1)]
    ExecuteNativeAppLegacyLoad_settled [OF assms(1)] settled_parts(3) [OF assms(1)]
    settled_parts(3) [OF help_settled [OF assms(1)]]
  have daemon: "settled s0 (fst (on_app (ShowNativeAppInformation mem sc d n) s))" for sc d n
    by (intro settles keeps_idle assms(1))
  have lop: "settled s0 x" if "ExecuteNativeAppLoopCommand mem args k s = Some (x, e)" for k x e
    by (rule ExecuteNativeAppLoopCommand_settled [OF that assms(1)])
  have alg: "settled s0 x" if "ExecuteNativeAppAlgorithmCommand mem args s = Some (x, e)" for x e
    using ExecuteNativeAppAlgorithmCommand_settled [OF assms(1)] that by (auto simp: opt_settled_def)
  show ?thesis
    unfolding dispatch_command_def Let_def
    by (rule dispatched_rules assms(3,4) | assumption | rule assms(2) | rule direct daemon | erule lop alg)+
qed

lemma bound_save: "bound s0 s \<Longrightarrow> bound s0 (SaveNativeAppSelectedPeer s)"
  using settled_bound [OF settled_save [OF settled_refl [of s]]] bound_trans [of s0 s] by (simp add: bound_def)

lemma ExecuteNativeAppCommand_bound:
  assumes "session_ok s" and "ExecuteNativeAppCommand mem args s = Some ((s', e), b)"
  shows "bound s s'"
proof -
  have "dispatched (bound s) (dispatch_command mem args s)"
    using settled_bound ExecuteNativeAppConfigCommand_bound(1) [OF assms(1)] ExecuteNativeAppPeerCommand_step [OF assms(1)]
    by (intro dispatch_command_shape [OF settled_refl [OF assms(1)]]) (simp_all add: peer_step_def)
  then show ?thesis using assms(2) bound_save by (auto simp: dispatched_def ExecuteNativeAppCommand_def)
qed

end
