(* ===== verification/AppCliProps.thy ===== *)
theory AppCliProps
  imports AppSession
begin

section \<open>The session from start to end\<close>

text \<open>
  What the prompt and the listener thread keep of the session, what is left when the program ends, and
  when it ends.
\<close>

subsection \<open>The listener between two lines\<close>

lemma bound_prompt [simp]:
  "bound s0 (PrintNativeAppPrompt s) = bound s0 s" "bound s0 (s\<lparr>ss_bPromptVisible := b\<rparr>) = bound s0 s"
  by (simp_all add: bound_def)

lemma event_shape:
  assumes "\<And>t s. f (session_printf t s) = f s" and "\<And>t s. f (session_eprintf t s) = f s"
    and "\<And>s. f (PrintNativeAppPrompt s) = f s"
  shows "f (HandleNativeAppPeerListenerEvent e p t s) = f s"
  unfolding HandleNativeAppPeerListenerEvent_def Let_def
  by (cases p; cases "ss_bPromptVisible s"; cases "e = IPSEC_OK")
    (simp_all only: option.case if_True if_False assms simp_thms)

lemma core_event [simp]: "core (HandleNativeAppPeerListenerEvent e p t s) = core s"
  by (rule event_shape) simp_all

lemma context_event [simp]: "session_context (HandleNativeAppPeerListenerEvent e p t s) = session_context s"
  by (rule event_shape) simp_all

lemma bound_event [simp]: "bound s0 (HandleNativeAppPeerListenerEvent e p t s) = bound s0 s"
  using inv_core [OF core_event] core_fields [OF core_event]
  by (simp add: bound_def session_ok_def)

lemma notify_table [simp]:
  "pe_Table (NotifyNativeAppPeerListener l e p w) = pe_Table w"
  "pe_open (NotifyNativeAppPeerListener l e p w) = pe_open w"
  by (simp_all add: NotifyNativeAppPeerListener_def)

lemma listener_round_bound:
  assumes "bound s0 s"
  shows "bound s0 (listener_round s)"
proof -
  let ?l = "ss_PeerListener s"
  obtain p w e where a: "AcceptNativeAppPeerConnection True (pl_iServerSocket ?l) (pl_Config ?l)
      NATIVE_APP_ERROR_TEXT_LENGTH ((ss_Peer s)\<lparr>pe_pcError := []\<rparr>) = ((p, w), e)" by (metis prod.exhaust)
  have inv: "session_inv s" using assms by (simp add: bound_def session_ok_def)
  then have "table_ok (pe_Table w) \<and> pe_open w = pe_open (ss_Peer s)"
    using accept_grown [OF a] by (simp add: session_inv_def grown_def)
  then have "bound s0 (s\<lparr>ss_Peer := NotifyNativeAppPeerListener ?l e p w\<rparr>)"
    using assms by (auto simp: bound_def session_ok_def session_inv_def)
  then show ?thesis using assms by (simp add: listener_round_def Let_def a)
qed

lemma session_fgets_bound: "bound s0 s \<Longrightarrow> bound s0 (snd (snd (session_fgets es s)))"
  by (induction es s rule: session_fgets.induct) (auto simp: listener_round_bound split: option.split)

lemma interactive_loop_bound:
  assumes "interactive_loop mem es s = Some (es', s')" and "bound s0 s"
  shows "bound s0 s'"
  using assms
proof (induction "input_size es" arbitrary: es s rule: less_induct)
  case less
  obtain r es1 s1 where q: "session_fgets es (PrintNativeAppPrompt s) = (r, es1, s1)" by (metis prod.exhaust)
  let ?s = "s1\<lparr>ss_bPromptVisible := False\<rparr>"
  have b: "bound s0 ?s" using session_fgets_bound [of s0 "PrintNativeAppPrompt s" es] less.prems(2) q by simp
  have go: "r \<noteq> PromptEnd \<Longrightarrow> interactive_loop mem es1 x = Some (es', s') \<Longrightarrow> bound s0 x \<Longrightarrow> bound s0 s'" for x
    using less.hyps session_fgets_smaller [OF q] by blast
  note step = less.prems(1) [unfolded interactive_loop.simps [of mem es s] q Let_def fst_conv snd_conv]
  show ?case
  proof (cases r)
    case PromptEnd
    then show ?thesis using step b by auto
  next
    case PromptInterrupted
    then show ?thesis using step b go by auto
  next
    case (PromptLine l)
    show ?thesis
    proof (cases "line_arguments l")
      case None
      then show ?thesis using step b go PromptLine by auto
    next
      case (Some args)
      obtain s2 e x where ex: "ExecuteNativeAppCommand mem args ?s = Some ((s2, e), x)"
        using step PromptLine Some by (auto split: option.splits)
      let ?s3 = "if e \<noteq> IPSEC_OK then session_eprintf (''command failed: '' @ GetIpsecErrorString e @ nl) s2 else s2"
      have "session_ok ?s" using b by (simp add: bound_def)
      then have "bound s0 ?s3"
        using ExecuteNativeAppCommand_bound [OF _ ex] bound_trans [OF b] by simp
      moreover have "(if x then Some (es1, ?s3) else interactive_loop mem es1 ?s3) = Some (es', s')"
        using step PromptLine Some ex by simp
      ultimately show ?thesis using go [of ?s3] PromptLine by (cases x) simp_all
    qed
  qed
qed

subsection \<open>What a command leaves\<close>

text \<open>C38: Whatever is typed, a command leaves the session as it may be found: texts terminated, the table of
  peers within its capacity and unlocked, the library idle with at most its one socket open, and the
  connection that would be loaded the one built from the configuration when that counts as valid.  The
  listener and the sockets of the registration are untouched, and a sweep has closed its files and its socket.\<close>

theorem ExecuteNativeAppCommand_keeps:
  assumes "session_ok s" and "ExecuteNativeAppCommand mem args s = Some ((s', e), b)"
  shows "session_ok s' \<and> ss_PeerListener s' = ss_PeerListener s \<and>
    pe_open (ss_Peer s') = pe_open (ss_Peer s) \<and> ag_open (ss_Sweep s') = ag_open (ss_Sweep s)"
  using ExecuteNativeAppCommand_bound [OF assms] by (simp add: bound_def)

text \<open>C39: Only \<open>config\<close> and \<open>peer\<close> change the configuration, its origin or the selected peer, and
  \<open>config\<close> does not while the session owns a connection.\<close>

theorem ExecuteNativeAppCommand_settings:
  assumes "session_ok s" and "ExecuteNativeAppCommand mem args s = Some ((s', e), b)"
    and "\<not> strcmp_eq ''peer'' (args ! 0)"
    and "strcmp_eq ''config'' (args ! 0) \<longrightarrow> ss_bConnectionLoaded s"
  shows "ss_Config s' = ss_Config s \<and> ss_BaseConfig s' = ss_BaseConfig s \<and>
    ss_acConfigPath s' = ss_acConfigPath s \<and> ss_acApplicationConfigPath s' = ss_acApplicationConfigPath s \<and>
    ss_acManagementConfigPath s' = ss_acManagementConfigPath s \<and>
    pt_uiSelectedIndex (session_table s') = pt_uiSelectedIndex (session_table s) \<and>
    pt_uiCount (session_table s') = pt_uiCount (session_table s)"
proof -
  have "dispatched (settled s) (dispatch_command mem args s)"
    using assms(3,4) ExecuteNativeAppConfigCommand_bound(2) [OF assms(1)]
    by (intro dispatch_command_shape [OF settled_refl [OF assms(1)]]) simp_all
  then have "settled s s'"
    using assms(2) settled_save by (auto simp: dispatched_def ExecuteNativeAppCommand_def)
  then show ?thesis by (simp add: settled_def settings_def)
qed

subsection \<open>What the program leaves\<close>

text \<open>The sockets of the registration: those of the caller, and that of a running listener.\<close>

definition listens :: "nat \<Rightarrow> NativeAppSession \<Rightarrow> bool" where
  "listens n s \<longleftrightarrow> pe_open (ss_Peer s) = n + (if pl_bRunning (ss_PeerListener s) then 1 else 0)"

lemma bound_listens: "bound s s' \<Longrightarrow> listens n s \<Longrightarrow> listens n s'"
  by (simp add: bound_def listens_def)

lemma fold_events_core:
  "core (foldl (\<lambda>s (e, p, t). HandleNativeAppPeerListenerEvent e p t s) s ns) = core s"
  by (induction ns arbitrary: s) auto

lemma fold_events_context:
  "session_context (foldl (\<lambda>s (e, p, t). HandleNativeAppPeerListenerEvent e p t s) s ns) = session_context s"
  by (induction ns arbitrary: s) auto

lemma stop_listener_closed:
  assumes "session_ok s" and "listens n s"
  shows "pe_open (ss_Peer (stop_listener s)) = n" and "session_context (stop_listener s) = session_context s"
    and "ss_Sweep (stop_listener s) = ss_Sweep s"
proof -
  let ?l = "(ss_PeerListener s)\<lparr>pl_bStopRequested := True\<rparr>"
  have "nc_wf (pl_Config ?l)" "table_ok (session_table s)" using assms(1) by (simp_all add: session_ok_def session_inv_def)
  note l = listener_ok [OF this(2,1)]
  have "pe_open (ss_Peer (stop_listener s)) = n \<and> session_context (stop_listener s) = session_context s \<and>
      ss_Sweep (stop_listener s) = ss_Sweep s"
  proof (cases "pl_bRunning (ss_PeerListener s)")
    case False
    then show ?thesis using assms(2) by (simp add: stop_listener_def IsNativeAppPeerListenerRunning_def listens_def)
  next
    case True
    then show ?thesis
      using assms(2) l
      by (simp add: stop_listener_def Let_def IsNativeAppPeerListenerRunning_def RunNativeAppPeerListener_def
          core_fields [OF fold_events_core] fold_events_context listens_def sys_close_socket_def)
  qed
  then show "pe_open (ss_Peer (stop_listener s)) = n" "session_context (stop_listener s) = session_context s"
    "ss_Sweep (stop_listener s) = ss_Sweep s" by auto
qed

lemma close_session_closed:
  assumes "idle (session_context s)"
  shows "released (session_context (close_session s))" and "pe_open (ss_Peer (close_session s)) = pe_open (ss_Peer s)"
    and "ss_Sweep (close_session s) = ss_Sweep s"
  using DeinitializeIpsec_released [OF assms]
  by (simp_all add: close_session_def Let_def DeinitializeNativeAppPeerTable_def)

lemma start_listener_bound:
  assumes "start_listener c t s = (s', e)" and "session_inv s" and "\<not> pl_bRunning (ss_PeerListener s)"
  shows "session_inv s' \<and> session_context s' = session_context s \<and> ss_Sweep s' = ss_Sweep s \<and>
    listens (pe_open (ss_Peer s)) s' \<and>
    (e \<noteq> IPSEC_OK \<longrightarrow> \<not> pl_bRunning (ss_PeerListener s'))"
proof (cases "nc_eRole (ss_BaseConfig s) = NATIVE_APP_ROLE_INITIATOR \<and> c")
  case False
  then show ?thesis using assms by (auto simp: start_listener_def listens_def)
next
  case True
  obtain l w e1 where st: "StartNativeAppPeerListener True (ss_BaseConfig s) True NATIVE_APP_ERROR_TEXT_LENGTH
      (ss_PeerListener s) ((ss_Peer s)\<lparr>pe_pcError := t\<rparr>) = ((l, w), e1)" by (metis prod.exhaust)
  obtain o1 w1 where o1: "OpenNativeAppServerSocket (ss_BaseConfig s) NATIVE_APP_ERROR_TEXT_LENGTH
      ((ss_Peer s)\<lparr>pe_pcError := t\<rparr>) = (o1, w1)" by fastforce
  obtain b w2 where b: "sys_call w1 = (b, w2)" by fastforce
  have wf: "nc_wf (ss_BaseConfig s)" "table_ok (session_table s)" using assms(2) by (simp_all add: session_inv_def)
  have l: "nc_wf (pl_Config l) \<and> pe_Table w = session_table s \<and> (e1 \<noteq> IPSEC_OK \<longrightarrow> \<not> pl_bRunning l) \<and>
      pe_open w = pe_open (ss_Peer s) + (if pl_bRunning l then 1 else 0)"
    using st o1 b True assms(3) wf(1) open_server_props [OF o1] sys_call_same [OF b]
    by (auto simp: StartNativeAppPeerListener_def Let_def same_world_def sys_close_socket_def SetNativeAppPeerError_def
        split: if_splits)
  have "session_inv (s\<lparr>ss_PeerListener := l, ss_Peer := w\<rparr>)"
    using assms(2) l by (simp add: session_inv_def)
  moreover have "core s' = core (s\<lparr>ss_PeerListener := l, ss_Peer := w\<rparr>) \<and> e = e1 \<and>
      session_context s' = session_context (s\<lparr>ss_PeerListener := l, ss_Peer := w\<rparr>)"
    using assms(1) True st by (cases "e1 = IPSEC_OK") (auto simp: start_listener_def)
  ultimately show ?thesis using l inv_core [of s' "s\<lparr>ss_PeerListener := l, ss_Peer := w\<rparr>"]
      core_fields [of s' "s\<lparr>ss_PeerListener := l, ss_Peer := w\<rparr>"] by (simp add: listens_def)
qed

text \<open>Loading the configuration at the start.\<close>

lemma LoadNativeAppConfig_built:
  assumes "LoadNativeAppConfig p f n x = ((c, t), IPSEC_OK)" and "BuildNativeAppRuntimeConfig m (Some c) u = (Some k, v, e)"
  shows "connection_of c = Some k"
proof -
  have "\<exists>u. snd (ValidateNativeAppConfig n c u) = IPSEC_OK"
    using assms(1)
    by (auto simp: LoadNativeAppConfig_def and_then_def split: option.splits prod.splits if_splits)
      (metis snd_conv)
  then have "snd (ValidateNativeAppConfig NATIVE_APP_ERROR_TEXT_LENGTH c []) = IPSEC_OK"
    using validate_text by metis
  then show ?thesis using build_result(2) [OF assms(2)] by (simp add: connection_of_def)
qed

lemma load_startup_inv:
  assumes "load_startup opts s = ((s', t), e)" and "session_inv s" and "ss_bConfigValid s = False"
  shows "session_inv s' \<and> session_context s' = session_context s \<and> ss_Peer s' = ss_Peer s \<and>
    ss_Sweep s' = ss_Sweep s \<and>
    ss_PeerListener s' = ss_PeerListener s"
proof (cases "st_pcApplicationConfigPath opts")
  case (Some a)
  obtain c t1 e1 where l: "LoadNativeAppConfigFiles (Some a) (ap_files (ss_App s) (cstr a)) (st_pcManagementConfigPath opts)
      (Option.bind (st_pcManagementConfigPath opts) (\<lambda>p. ap_files (ss_App s) (cstr p)))
      NATIVE_APP_ERROR_TEXT_LENGTH (ss_Config s, []) = ((c, t1), e1)" by (metis prod.exhaust)
  obtain p b where p: "CopyNativeAppSessionText (ss_acApplicationConfigPath s) (Some a) = (p, b)" by fastforce
  obtain q d where q: "CopyNativeAppSessionText (ss_acManagementConfigPath s) (st_pcManagementConfigPath opts) = (q, d)"
    by fastforce
  have "nc_wf c" using LoadNativeAppConfigFiles_steps(1) [OF _ l] assms(2) by (simp add: session_inv_def)
  moreover have "length p = length (ss_acApplicationConfigPath s)" "length q = length (ss_acManagementConfigPath s)"
    using session_text_length p q by (metis fst_conv)+
  moreover have "((s', t), e) = (if e1 \<noteq> IPSEC_OK then ((s\<lparr>ss_Config := c\<rparr>, t1), e1)
      else if \<not> b then ((s\<lparr>ss_Config := c\<rparr>, t1), IPSEC_ERR_BUFFER_TOO_SMALL)
      else if \<not> d then ((s\<lparr>ss_Config := c, ss_acApplicationConfigPath := p\<rparr>, t1), IPSEC_ERR_BUFFER_TOO_SMALL)
      else ((s\<lparr>ss_Config := c, ss_acApplicationConfigPath := p, ss_acManagementConfigPath := q,
          ss_BaseConfig := c, ss_bConfigValid := False\<rparr>, t1), IPSEC_OK))"
    using assms(1) Some l p q by (simp add: load_startup_def Let_def)
  ultimately show ?thesis
    using assms(2,3) by (auto simp: session_inv_def split: if_splits)
next
  case None
  show ?thesis
  proof (cases "st_pcConfigPath opts")
    case None
    then show ?thesis using assms \<open>st_pcApplicationConfigPath opts = None\<close> by (simp add: load_startup_def)
  next
    case (Some a)
    obtain c t1 e1 where l: "LoadNativeAppConfig (Some a) (ap_files (ss_App s) (cstr a))
      NATIVE_APP_ERROR_TEXT_LENGTH (ss_Config s, []) = ((c, t1), e1)" by (metis prod.exhaust)
    obtain r t2 e2 where r: "(if e1 = IPSEC_OK then BuildNativeAppRuntimeConfig NATIVE_APP_ERROR_TEXT_LENGTH (Some c) t1
        else (None, t1, e1)) = (r, t2, e2)" by (metis prod.exhaust)
    obtain p b where p: "CopyNativeAppSessionText (ss_acConfigPath s) (Some a) = (p, b)" by fastforce
    have c: "nc_wf c" using LoadNativeAppConfig_wf l by (metis fst_conv)
    have len: "length p = length (ss_acConfigPath s)" using session_text_length p by (metis fst_conv)
    have built: "e1 = IPSEC_OK \<and> (\<exists>k. r = Some k \<and> connection_of c = Some k)" if ok: "e2 = IPSEC_OK"
    proof -
      have "e1 = IPSEC_OK" using r ok by (auto split: if_splits)
      moreover from this have b: "BuildNativeAppRuntimeConfig NATIVE_APP_ERROR_TEXT_LENGTH (Some c) t1 = (r, t2, e2)"
        using r by simp
      moreover obtain k where "r = Some k" using build_result(1) [OF b] ok by blast
      ultimately show ?thesis using l LoadNativeAppConfig_built by blast
    qed
    let ?s1 = "case r of Some k \<Rightarrow> s\<lparr>ss_Config := c, ss_Runtime := k\<rparr> | None \<Rightarrow> s\<lparr>ss_Config := c\<rparr>"
    have "((s', t), e) = (if e2 \<noteq> IPSEC_OK then ((?s1, t2), e2)
        else if \<not> b then ((?s1, t2), IPSEC_ERR_BUFFER_TOO_SMALL)
        else ((?s1\<lparr>ss_acConfigPath := p, ss_BaseConfig := c, ss_bConfigValid := True\<rparr>, t2), IPSEC_OK))"
      using assms(1) \<open>st_pcApplicationConfigPath opts = None\<close> Some l r p
      by (cases r; cases b; cases "e2 = IPSEC_OK") (simp_all add: load_startup_def Let_def)
    then show ?thesis
      using assms(2,3) c len built by (cases r) (auto simp: session_inv_def split: if_splits)
  qed
qed

lemma initial_session_inv:
  assumes "InitializeNativeAppPeerTable True (cw_Peer w) = (p, e)"
  shows "session_inv ((initial_session v w)\<lparr>ss_Peer := p\<rparr>)" and "pe_open p = pe_open (cw_Peer w)"
proof -
  obtain b w1 where c: "sys_call ((cw_Peer w)\<lparr>pe_Table := zero_table\<rparr>) = (b, w1)" by fastforce
  have "table_ok zero_table" by (simp add: table_ok_def zero_table_def)
  then have "table_ok (pe_Table p) \<and> pe_open p = pe_open (cw_Peer w)"
    using assms c sys_call_same [OF c]
    by (auto simp: InitializeNativeAppPeerTable_def same_world_def table_ok_def split: if_splits)
  then show "session_inv ((initial_session v w)\<lparr>ss_Peer := p\<rparr>)" "pe_open p = pe_open (cw_Peer w)"
    using InitializeNativeAppConfig_wf zero_config_wf
    by (simp_all add: session_inv_def initial_session_def zero_listener_def)
qed

lemma run_session_bound:
  assumes "run_session mem cmd es s = Some ((es', s'), r)" and "session_ok s"
  shows "bound s s'"
proof (cases "cmd = []")
  case True
  then obtain s1 where l: "interactive_loop mem es
      (session_printf (''Native IPsec CLI connected. Type 'help' for commands.'' @ nl) s) = Some (es', s1)"
    and s': "s' = session_printf (''session closed; daemon resources were not changed on exit'' @ nl) s1"
    using assms(1) by (auto simp: run_session_def RunNativeAppInteractive_def)
  have "bound s s" using settled_bound [OF settled_refl [OF assms(2)]] .
  then have "bound s s1" by (intro interactive_loop_bound [OF l]) simp
  then show ?thesis using s' by simp
next
  case False
  then obtain s1 e b where x: "ExecuteNativeAppCommand mem cmd s = Some ((s1, e), b)"
    and s': "s' = s1 \<or> (\<exists>t. s' = session_eprintf t s1)"
    using assms(1) by (auto simp: run_session_def split: if_splits)
  then show ?thesis using ExecuteNativeAppCommand_bound [OF assms(2) x] by auto
qed

text \<open>The end of the session, on every path.\<close>

definition left_clean :: "nat \<times> nat \<Rightarrow> CliWorld \<Rightarrow> bool" where
  "left_clean n w \<longleftrightarrow> released (ap_ipsec (cw_App w)) \<and> pe_open (cw_Peer w) = fst n \<and> ag_open (cw_Sweep w) = snd n"

lemma leave_clean:
  "left_clean n (leave w es s) \<longleftrightarrow>
     released (session_context s) \<and> pe_open (ss_Peer s) = fst n \<and> ag_open (ss_Sweep s) = snd n"
  by (simp add: left_clean_def leave_def session_context_def)

lemma run_configured_clean:
  assumes "run_configured mem opts w s = Some (w', r)" and "session_inv s"
    and "released (session_context s)" and "\<not> ss_bConfigValid s" and "\<not> pl_bRunning (ss_PeerListener s)"
  shows "left_clean (pe_open (ss_Peer s), ag_open (ss_Sweep s)) w'"
proof -
  let ?n = "pe_open (ss_Peer s)"
  have table: "session_context (deinit_table x) = session_context x" "pe_open (ss_Peer (deinit_table x)) = pe_open (ss_Peer x)"
    "ss_Sweep (deinit_table x) = ss_Sweep x" for x by (simp_all add: deinit_table_def DeinitializeNativeAppPeerTable_def)
  note clean = leave_clean table
  obtain s1 t e1 where l: "load_startup opts s = ((s1, t), e1)" by (metis prod.exhaust)
  note i1 = load_startup_inv [OF l assms(2)]
  have s1: "session_inv s1" "released (session_context s1)" "pe_open (ss_Peer s1) = ?n" "\<not> pl_bRunning (ss_PeerListener s1)"
    "ss_Sweep s1 = ss_Sweep s"
    using i1 assms(3-5) by auto
  obtain s2 e2 where o: "OpenNativeAppContext (ss_Config s1) s1 = (s2, e2)" by fastforce
  note c2 = OpenNativeAppContext_ok [OF o]
  obtain s3 e3 where st: "start_listener (st_pcConfigPath opts \<noteq> None \<or> st_pcApplicationConfigPath opts \<noteq> None) t s2 = (s3, e3)"
    by fastforce
  have inv2: "session_inv s2" "pe_open (ss_Peer s2) = ?n" "\<not> pl_bRunning (ss_PeerListener s2)"
    "ss_Sweep s2 = ss_Sweep s"
    using inv_core [OF c2(1)] core_fields [OF c2(1)] s1 by simp_all
  note i3 = start_listener_bound [OF st inv2(1,3)]
  show ?thesis
  proof (cases "e1 = IPSEC_OK \<and> e2 = IPSEC_OK \<and> e3 = IPSEC_OK")
    case False
    have idle3: "e2 = IPSEC_OK \<Longrightarrow> released (DeinitializeIpsec True (session_context s3))"
      using c2(2) i3 DeinitializeIpsec_released by simp
    show ?thesis
    proof (cases "e1 = IPSEC_OK \<and> e2 = IPSEC_OK")
      case True
      then have "w' = leave w (cw_Input w) (deinit_table (on_world (DeinitializeIpsec True) s3))"
        using assms(1) False l o st by (simp add: run_configured_def)
      then show ?thesis using True False idle3 i3 inv2 by (simp add: clean listens_def)
    next
      case no: False
      then obtain u x where "w' = leave w (cw_Input w) (deinit_table (session_eprintf u x))"
        and "x = s1 \<or> x = s2 \<and> e2 \<noteq> IPSEC_OK"
        using assms(1) l o by (auto simp: run_configured_def split: if_splits)
      then show ?thesis using s1 inv2 c2(3) by (auto simp: clean)
    qed
  next
    case True
    then obtain es4 s4 where run: "run_session mem (st_Command opts) (cw_Input w) s3 = Some ((es4, s4), r)"
      and w': "w' = leave w es4 (close_session (stop_listener s4))"
      using assms(1) l o st by (auto simp: run_configured_def)
    have "session_ok s3" using i3 c2(2) True by (simp add: session_ok_def)
    note b = run_session_bound [OF run this]
    have s4: "session_ok s4" "listens ?n s4" using b bound_listens [OF b, of ?n] i3 inv2(2) by (simp_all add: bound_def)
    have sw: "ag_open (ss_Sweep s4) = ag_open (ss_Sweep s)" using b i3 inv2(4) by (simp add: bound_def)
    note stopped = stop_listener_closed [OF s4]
    have "idle (session_context (stop_listener s4))" using s4(1) stopped(2) by (simp add: session_ok_def)
    note closed = close_session_closed [OF this]
    show ?thesis using closed stopped(1,3) sw by (simp add: w' leave_clean)
  qed
qed

definition clean_result :: "nat \<times> nat \<Rightarrow> (CliWorld \<times> int) option \<Rightarrow> bool" where
  "clean_result n q \<longleftrightarrow> (\<forall>w r. q = Some (w, r) \<longrightarrow> left_clean n w)"

lemma clean_rules:
  "clean_result n q \<Longrightarrow> clean_result n q' \<Longrightarrow> clean_result n (if b then q else q')"
  "left_clean n w \<Longrightarrow> clean_result n (Some (w, r))"
  "left_clean n (fst x) \<Longrightarrow> clean_result n (Some x)"
  "(\<And>i. clean_result n (f i)) \<Longrightarrow> clean_result n q \<Longrightarrow> clean_result n (case z of Some i \<Rightarrow> f i | None \<Rightarrow> q)"
  by (auto simp: clean_result_def split: option.split)

text \<open>C40: However the program ends, usage error, failed start, single command or prompt, and whatever the
  daemon, the files and the peers do: the library holds no descriptor and no lock, and the sockets of the
  registration and the files and sockets of the sweeps are those that were open before.\<close>

theorem RunNativeAppCli_closes:
  assumes "released (ap_ipsec (cw_App w))"
    and "RunNativeAppCli mem args w = Some (w', r)"
  shows "released (ap_ipsec (cw_App w')) \<and> pe_open (cw_Peer w') = pe_open (cw_Peer w) \<and>
    ag_open (cw_Sweep w') = ag_open (cw_Sweep w)"
proof -
  have printed: "ap_ipsec (app_printf t a) = ap_ipsec a" "ap_ipsec (app_eprintf t a) = ap_ipsec a" for t a
    by (simp_all add: app_printf_def app_eprintf_def)
  have psk: "left_clean (pe_open (cw_Peer w), ag_open (cw_Sweep w)) (fst (generate_psk p w))" for p
    using assms(1) by (simp add: generate_psk_def Let_def case_prod_beta left_clean_def printed)
  have usage: "left_clean (pe_open (cw_Peer w), ag_open (cw_Sweep w)) (w\<lparr>cw_App := PrintNativeAppUsage p (cw_App w)\<rparr>)"
    "left_clean n v \<Longrightarrow> left_clean n (v\<lparr>cw_App := PrintNativeAppHelp (cw_App v)\<rparr>)" for p v n
    using assms(1) by (simp_all add: left_clean_def PrintNativeAppUsage_def PrintNativeAppHelp_def printed)
  have "left_clean (pe_open (cw_Peer w), ag_open (cw_Sweep w)) w'"
  proof (cases "if args = [] then None else ParseNativeAppStartupOptions args")
    case None
    then show ?thesis using assms(2) usage(1) by (auto simp: RunNativeAppCli_def Let_def split: if_splits)
  next
    case (Some opts)
    let ?s = "initial_session (st_bVerbose opts) w"
    obtain p e where p: "InitializeNativeAppPeerTable True (ss_Peer ?s) = (p, e)" by fastforce
    have peer: "ss_Peer ?s = cw_Peer w" by (simp add: initial_session_def)
    note inv = initial_session_inv(1) [OF p [unfolded peer], of "st_bVerbose opts"]
      initial_session_inv(2) [OF p [unfolded peer]]
    let ?s1 = "?s\<lparr>ss_Peer := p\<rparr>"
    have begun: "session_context ?s1 = ap_ipsec (cw_App w)" "ss_Sweep ?s1 = cw_Sweep w" "\<not> ss_bConfigValid ?s1" "\<not> pl_bRunning (ss_PeerListener ?s1)"
      by (simp_all add: initial_session_def zero_listener_def session_context_def)
    have fail: "left_clean (pe_open (cw_Peer w), ag_open (cw_Sweep w)) (leave w es (session_eprintf t ?s1))" for es t
      using inv assms(1) begun(1,2) by (simp add: leave_clean)
    have configured: "left_clean (pe_open (cw_Peer w), ag_open (cw_Sweep w)) w'" if "run_configured mem opts w ?s1 = Some (w', r)" for w' r
      using run_configured_clean [OF that inv(1)] begun assms(1) inv(2) by simp
    have "clean_result (pe_open (cw_Peer w), ag_open (cw_Sweep w)) (RunNativeAppCli mem args w)"
      unfolding RunNativeAppCli_def Let_def Some option.case p prod.case
      by (rule clean_rules usage psk fail | simp only: clean_result_def, blast intro: configured)+
    then show ?thesis using assms(2) by (simp add: clean_result_def)
  qed
  then show ?thesis by (simp add: left_clean_def)
qed

subsection \<open>Commands return\<close>

lemma RunNativeAppLoop_returns:
  "lo_uiCount opts < UINT32_MAX \<Longrightarrow> RunNativeAppLoop mem c k opts a \<noteq> None"
  using native_loop_returns [of opts 1] by (simp add: RunNativeAppLoop_def case_prod_beta Let_def)

text \<open>The responder of a sweep may wait for ever; every other command ends.\<close>

definition serve_command :: "string list \<Rightarrow> bool" where
  "serve_command args \<longleftrightarrow> 3 \<le> length args \<and> strcmp_eq ''serve'' (args ! 2)"

lemma returned_rules:
  "q \<noteq> None \<Longrightarrow> q' \<noteq> None \<Longrightarrow> (if b then q else q') \<noteq> None"
  "(\<And>s e. h s e \<noteq> None) \<Longrightarrow> (case x of (s, e) \<Rightarrow> h s e) \<noteq> None"
  "(\<And>i. z = Some i \<Longrightarrow> f i \<noteq> None) \<Longrightarrow> q \<noteq> None \<Longrightarrow> (case z of Some i \<Rightarrow> f i | None \<Rightarrow> q) \<noteq> None"
  "q \<noteq> None \<Longrightarrow> map_option g q \<noteq> None" "Some y \<noteq> None"
  by (auto split: prod.split option.split)

lemma dispatch_command_returns:
  assumes "\<not> serve_command args" and "\<And>opts. ParseNativeAppLoopOptions args 2 = Some opts \<Longrightarrow> lo_uiCount opts < UINT32_MAX"
  shows "dispatch_command mem args s \<noteq> None"
proof -
  have lop: "ExecuteNativeAppLoopCommand mem args 2 s \<noteq> None"
    unfolding ExecuteNativeAppLoopCommand_def Let_def
    by (rule returned_rules RunNativeAppLoop_returns assms(2) | assumption)+
  have serve: "(3 \<le> length args \<and> strcmp_eq ''serve'' (args ! 2)) = False"
    using assms(1) by (simp add: serve_command_def)
  have alg: "ExecuteNativeAppAlgorithmCommand mem args s \<noteq> None"
    unfolding ExecuteNativeAppAlgorithmCommand_def run_algorithm_def Let_def serve if_False comp_apply
    by (rule returned_rules | assumption)+
  show ?thesis unfolding dispatch_command_def Let_def by (rule returned_rules lop alg)+
qed

lemma ExecuteNativeAppCommand_returns:
  assumes "\<not> serve_command args" and "\<And>opts. ParseNativeAppLoopOptions args 2 = Some opts \<Longrightarrow> lo_uiCount opts < UINT32_MAX"
  shows "\<exists>s' e b. ExecuteNativeAppCommand mem args s = Some ((s', e), b)"
  using dispatch_command_returns [OF assms, of mem s] by (auto simp: ExecuteNativeAppCommand_def)

subsection \<open>Examples\<close>

definition sample_cli :: CliWorld where
  "sample_cli = \<lparr>cw_App = sample_app\<lparr>ap_ipsec := start_world\<rparr>,
     cw_Peer = (peer_world [CallOk] [])\<lparr>pe_open := 0\<rparr>,
     cw_Psk = psk_world, cw_Input = [InputText ''config validate'', PeerConnects, InputText ''show peers''],
     cw_Sweep = \<lparr>ag_App = sample_app, ag_trace = [], ag_files = (\<lambda>_. None), ag_open = 0, ag_sent = [], ag_made = [], ag_log = None\<rparr>\<rparr>"

definition sample_session :: NativeAppSession where
  "sample_session = (initial_session True sample_cli)\<lparr>ss_App := sample_app\<rparr>"

lemma sample_session_ok: "session_ok sample_session"
proof -
  have "table_ok (zero_table\<lparr>pt_uiSelectedIndex := UINT32_MAX\<rparr>)" by (simp add: table_ok_def zero_table_def)
  then have "session_inv sample_session"
    using InitializeNativeAppConfig_wf zero_config_wf
    by (simp add: session_inv_def sample_session_def initial_session_def zero_listener_def sample_cli_def peer_world_def)
  moreover have "idle (session_context sample_session)"
    by (simp add: sample_session_def session_context_def sample_app_def idle_def fd_ok_def sample_world_def)
  ultimately show ?thesis by (simp add: session_ok_def)
qed

theorem ExecuteNativeAppCommand_keeps_witness:
  "\<exists>s' e b. ExecuteNativeAppCommand (\<lambda>_. True) [''config'', ''validate''] sample_session = Some ((s', e), b) \<and>
     session_ok s'"
proof -
  have cmd: "ParseNativeAppLoopOptions [''config'', ''validate''] 2 = Some opts \<Longrightarrow> lo_uiCount opts < UINT32_MAX" for opts
    by (auto simp: ParseNativeAppLoopOptions_def)
  have "\<not> serve_command [''config'', ''validate'']" by (simp add: serve_command_def)
  from ExecuteNativeAppCommand_returns [OF this cmd] obtain s' e b where "ExecuteNativeAppCommand (\<lambda>_. True) [''config'', ''validate''] sample_session =
      Some ((s', e), b)" by blast
  then show ?thesis using ExecuteNativeAppCommand_keeps [OF sample_session_ok] by blast
qed

theorem ExecuteNativeAppCommand_settings_witness:
  "\<exists>s' e b. ExecuteNativeAppCommand (\<lambda>_. True) [''config'', ''load'', ''/etc/app.conf'']
      (sample_session\<lparr>ss_bConnectionLoaded := True\<rparr>) = Some ((s', e), b) \<and> ss_Config s' = InitializeNativeAppConfig"
proof -
  let ?args = "[''config'', ''load'', ''/etc/app.conf'']" and ?s = "sample_session\<lparr>ss_bConnectionLoaded := True\<rparr>"
  have "ParseNativeAppLoopOptions ?args 2 = None"
    unfolding ParseNativeAppLoopOptions_def by code_simp
  then have cmd: "ParseNativeAppLoopOptions ?args 2 = Some opts \<Longrightarrow> lo_uiCount opts < UINT32_MAX" for opts by simp
  have "\<not> serve_command ?args" by code_simp
  from ExecuteNativeAppCommand_returns [OF this cmd]
  obtain s' e b where x: "ExecuteNativeAppCommand (\<lambda>_. True) ?args ?s = Some ((s', e), b)" by blast
  have ok: "session_ok ?s" using sample_session_ok by simp
  have "\<not> strcmp_eq ''peer'' (?args ! 0)" by code_simp
  then have "ss_Config s' = ss_Config ?s"
    using ExecuteNativeAppCommand_settings [OF ok x] by simp
  then show ?thesis using x by (simp add: sample_session_def initial_session_def)
qed

theorem RunNativeAppCli_closes_witness:
  "\<exists>w' r. RunNativeAppCli (\<lambda>_. True) [''ipsec_app'', ''config'', ''validate''] sample_cli = Some (w', r) \<and>
     released (ap_ipsec (cw_App w')) \<and> pe_open (cw_Peer w') = 0 \<and> ag_open (cw_Sweep w') = 0"
proof -
  let ?args = "[''ipsec_app'', ''config'', ''validate'']"
  have cmd: "ParseNativeAppLoopOptions [''config'', ''validate''] 2 = Some opts \<Longrightarrow> lo_uiCount opts < UINT32_MAX" for opts
    by (auto simp: ParseNativeAppLoopOptions_def)
  have run: "run_session (\<lambda>_. True) [''config'', ''validate''] es s \<noteq> None" for es s
    using ExecuteNativeAppCommand_returns [OF _ cmd] by (auto simp: run_session_def serve_command_def)
  have pair: "(\<And>s t e. h s t e \<noteq> None) \<Longrightarrow> (\<lambda>((s, t), e). h s t e) x \<noteq> None" for h x
    by (auto split: prod.split)
  let ?opts = "\<lparr>st_pcConfigPath = None, st_pcApplicationConfigPath = None, st_pcManagementConfigPath = None,
      st_pcGeneratePskPath = None, st_Command = [''config'', ''validate''], st_bVerbose = False, st_bHelp = False\<rparr>"
  have configured: "run_configured (\<lambda>_. True) ?opts w s \<noteq> None" for w s
    unfolding run_configured_def Let_def NativeAppStartupOptions.simps
    by (rule pair returned_rules run)+
  have parsed: "ParseNativeAppStartupOptions ?args = Some ?opts" by code_simp
  have given: "(?args = []) = False" by simp
  have "RunNativeAppCli (\<lambda>_. True) ?args sample_cli \<noteq> None"
    unfolding RunNativeAppCli_def Let_def parsed given if_False option.case
    by (rule pair returned_rules configured)+
  moreover have "released (ap_ipsec (cw_App sample_cli))" "pe_open (cw_Peer sample_cli) = 0"
    "ag_open (cw_Sweep sample_cli) = 0"
    by (simp_all add: sample_cli_def released_def start_world_def sample_world_def)
  ultimately show ?thesis
    using RunNativeAppCli_closes [of sample_cli "\<lambda>_. True" ?args] by fastforce
qed

end
