(* ===== verification/AppRunnerProps.thy ===== *)
theory AppRunnerProps
  imports AppRunnerIdle
begin

section \<open>What a sweep reports\<close>

text \<open>
  The verdict on a case: what the daemon and the kernel must have for it, what a passed case has shown,
  and what its cleanup has tried.  The agreement of the two sides about a run and its cases.  The sweep
  of the initiator as a whole.
\<close>

subsection \<open>Copying into the arrays of a result\<close>

lemma copied:
  assumes "CopyNativeAppAlgorithmValue b t = (b', e)" and "1 < length b"
  shows "length b' = length b" and "(e = IPSEC_OK) = (strlen t < length b)"
    and "cstr b' = take (length b - 1) (cstr t)" and "(b' ! 0 = NUL) = (cstr t = [])"
proof -
  let ?t = "take (length b - 1) (cstr t)"
  have b': "b' = buf_write b 0 (?t @ [NUL])" and e: "e = (if length (cstr t) < length b then IPSEC_OK else IPSEC_ERR_BUFFER_TOO_SMALL)"
    using assms by (auto simp: CopyNativeAppAlgorithmValue_def snprintf_to_def Let_def split: if_splits)
  have len: "length (?t @ [NUL]) \<le> length b" using assms(2) by simp
  show "length b' = length b" using b' len by (simp add: buf_write_def)
  show "(e = IPSEC_OK) = (strlen t < length b)" using e by (simp add: strlen_def)
  have nul: "NUL \<notin> set ?t" using cstr_no_NUL [of t] by (meson in_set_takeD)
  have w: "b' = ?t @ NUL # drop (length (?t @ [NUL])) b" using b' by (simp add: buf_write_def)
  show "cstr b' = ?t" unfolding w using cstr_append_NUL [of ?t] cstr_id [OF nul] by simp
  show "(b' ! 0 = NUL) = (cstr t = [])"
  proof (cases "cstr t")
    case Nil
    then show ?thesis using w by simp
  next
    case (Cons x u)
    then have "x \<noteq> NUL" using cstr_no_NUL [of t] by auto
    moreover obtain n where "length b - 1 = Suc n" using assms(2) by (cases "length b - 1") auto
    ultimately show ?thesis using w Cons by simp
  qed
qed

subsection \<open>The verdict on what is installed\<close>

text \<open>What a case expects of the daemon and the kernel.\<close>

definition as_expected :: "NativeAppConfig \<Rightarrow> NativeAppAlgorithmCase \<Rightarrow> installed \<Rightarrow> bool" where
  "as_expected c k found \<longleftrightarrow>
     (case found of (IkeList, ChildList, StateList, PolicyList) \<Rightarrow>
        (case (List.find (\<lambda>i. strcmp_eq (nc_acConnectionName c) (is_acName i) \<and> is_bEstablished i) IkeList,
               List.find (\<lambda>i. strcmp_eq (nc_acChildName c) (cs_acName i) \<and> strcmp_eq ''INSTALLED'' (cs_acState i)) ChildList) of
           (Some ike, Some child) \<Rightarrow>
             cstr (is_acProposal ike) \<noteq> [] \<and> strlen (is_acProposal ike) < IPSEC_PROPOSAL_LENGTH \<and>
             cstr (cs_acProposal child) \<noteq> [] \<and> strlen (cs_acProposal child) < IPSEC_PROPOSAL_LENGTH \<and>
             (ac_bSeparateChildExchange k \<longrightarrow> strstr_found (cstr (cs_acProposal child)) (cstr (ac_acExpectedChildKe k))) \<and>
             (ac_bExpectEsn k \<longrightarrow> cs_bEsn child) \<and> (ac_bExpectNoEsn k \<longrightarrow> \<not> cs_bEsn child) \<and>
             cs_uiReqid child \<noteq> 0 \<and> list_ex (\<lambda>i. xs_uiReqid i = cs_uiReqid child) StateList \<and>
             list_ex (\<lambda>i. xp_uiReqid i = cs_uiReqid child) PolicyList
         | _ \<Rightarrow> False))"

text \<open>A result with its arrays, before anything was found.\<close>

definition fresh_result :: "NativeAppAlgorithmCaseResult \<Rightarrow> bool" where
  "fresh_result r \<longleftrightarrow> length (cr_acNegotiatedIke r) = IPSEC_PROPOSAL_LENGTH \<and>
     length (cr_acNegotiatedEsp r) = IPSEC_PROPOSAL_LENGTH \<and>
     cr_uiXfrmStateCount r = 0 \<and> cr_uiXfrmPolicyCount r = 0"

definition stages_verified :: "NativeAppAlgorithmCaseResult \<Rightarrow> bool" where
  "stages_verified r \<longleftrightarrow> cr_bIkeVerified r \<and> cr_bEspVerified r \<and> cr_bXfrmVerified r \<and>
     cr_uiReqid r \<noteq> 0 \<and> cr_uiXfrmStateCount r \<noteq> 0 \<and> cr_uiXfrmPolicyCount r \<noteq> 0 \<and>
     cr_acNegotiatedIke r ! 0 \<noteq> NUL \<and> cr_acNegotiatedEsp r ! 0 \<noteq> NUL"

lemma count_zero:
  assumes "length xs < 2 ^ 32"
  shows "(u32 (0 + length (filter (\<lambda>i. n = f i) xs)) = 0) = (\<not> list_ex (\<lambda>i. f i = n) xs)"
proof -
  have "length (filter (\<lambda>i. n = f i) xs) < 2 ^ 32" using le_less_trans [OF length_filter_le assms] .
  then have "(u32 (0 + length (filter (\<lambda>i. n = f i) xs)) = 0) = (filter (\<lambda>i. n = f i) xs = [])"
    by (simp add: u32_def)
  then show ?thesis by (auto simp: filter_empty_conv list_ex_iff)
qed

lemma some_counted: "u32 (length (filter (\<lambda>i. n = f i) xs)) \<noteq> 0 \<Longrightarrow> list_ex (\<lambda>i. f i = n) xs"
  by (cases "filter (\<lambda>i. n = f i) xs") (auto simp: list_ex_iff filter_eq_Cons_iff u32_def)

text \<open>The counters of 32 bits do not wrap.\<close>

definition few_entries :: "installed \<Rightarrow> bool" where
  "few_entries found \<longleftrightarrow>
     (case found of (_, _, StateList, PolicyList) \<Rightarrow> length StateList < 2 ^ 32 \<and> length PolicyList < 2 ^ 32)"

lemma and_then_done: "and_then (s, IPSEC_OK) f = f s" "e \<noteq> IPSEC_OK \<Longrightarrow> and_then (s, e) f = (s, e)"
  by (simp_all add: and_then_def)

lemma judge_checks:
  "run_steps [check_negotiated (Some ike) (Some child), check_pfs k, check_esn k esn, count_kernel StateList PolicyList] r =
     (if cr_acNegotiatedIke r ! 0 = NUL \<or> cr_acNegotiatedEsp r ! 0 = NUL
      then (r\<lparr>cr_eResult := NATIVE_APP_ALGORITHM_RESULT_FAIL_PROPOSAL\<rparr>, IPSEC_ERR_VICI_PROTOCOL)
      else if ac_bSeparateChildExchange k \<and> \<not> strstr_found (cstr (cr_acNegotiatedEsp r)) (cstr (ac_acExpectedChildKe k))
      then (r\<lparr>cr_eResult := NATIVE_APP_ALGORITHM_RESULT_FAIL_PFS\<rparr>, IPSEC_ERR_CHILD_FAILED)
      else if (ac_bExpectEsn k \<and> \<not> esn) \<or> (ac_bExpectNoEsn k \<and> esn)
      then (r\<lparr>cr_eResult := NATIVE_APP_ALGORITHM_RESULT_FAIL_ESN\<rparr>, IPSEC_ERR_CHILD_FAILED)
      else count_kernel StateList PolicyList (r\<lparr>cr_bEspVerified := True\<rparr>))"
proof -
  have last_step: "and_then x (\<lambda>s. (s, IPSEC_OK)) = x" for x :: "NativeAppAlgorithmCaseResult outcome"
    by (cases x) (simp add: and_then_def)
  let ?pfs = "ac_bSeparateChildExchange k \<and> \<not> strstr_found (cstr (cr_acNegotiatedEsp r)) (cstr (ac_acExpectedChildKe k))"
  let ?esn = "(ac_bExpectEsn k \<and> \<not> esn) \<or> (ac_bExpectNoEsn k \<and> esn)"
  show ?thesis
    unfolding run_steps.simps last_step check_negotiated_def check_pfs_def check_esn_def
    by (cases "cr_acNegotiatedIke r ! 0 = NUL"; cases "cr_acNegotiatedEsp r ! 0 = NUL"; cases ?pfs; cases ?esn)
      (auto simp: and_then_done)
qed

lemma judge_installed_verdict:
  assumes "judge_installed c k found r = (r', e)" and "fresh_result r"
  shows "e = IPSEC_OK \<Longrightarrow> as_expected c k found"
    and "few_entries found \<Longrightarrow> as_expected c k found \<Longrightarrow> e = IPSEC_OK"
    and "e = IPSEC_OK \<Longrightarrow> stages_verified r' \<and> cr_eResult r' = cr_eResult r"
    and "cr_eResult r \<noteq> NATIVE_APP_ALGORITHM_RESULT_PASS \<Longrightarrow> cr_eResult r' \<noteq> NATIVE_APP_ALGORITHM_RESULT_PASS"
proof -
  obtain IkeList ChildList StateList PolicyList where found: "found = (IkeList, ChildList, StateList, PolicyList)"
    by (metis prod.exhaust)
  let ?ike = "List.find (\<lambda>i. strcmp_eq (nc_acConnectionName c) (is_acName i) \<and> is_bEstablished i) IkeList"
  let ?child = "List.find (\<lambda>i. strcmp_eq (nc_acChildName c) (cs_acName i) \<and> strcmp_eq ''INSTALLED'' (cs_acState i)) ChildList"
  have len: "1 < length (cr_acNegotiatedIke r)" "1 < length (cr_acNegotiatedEsp r)"
    using assms(2) by (simp_all add: fresh_result_def)
  let ?ne = "\<lambda>n. filter (\<lambda>i. n = xs_uiReqid i) StateList" and ?np = "\<lambda>n. filter (\<lambda>i. n = xp_uiReqid i) PolicyList"
  have n: "u32 (length (?ne m)) = 0 \<Longrightarrow> length StateList < 2 ^ 32 \<Longrightarrow> \<not> list_ex (\<lambda>i. xs_uiReqid i = m) StateList"
    "u32 (length (?np m)) = 0 \<Longrightarrow> length PolicyList < 2 ^ 32 \<Longrightarrow> \<not> list_ex (\<lambda>i. xp_uiReqid i = m) PolicyList" for m
    using count_zero [of StateList m xs_uiReqid] count_zero [of PolicyList m xp_uiReqid] by simp_all
  have seen: "u32 (length (?ne m)) \<noteq> 0 \<Longrightarrow> list_ex (\<lambda>i. xs_uiReqid i = m) StateList"
    "u32 (length (?np m)) \<noteq> 0 \<Longrightarrow> list_ex (\<lambda>i. xp_uiReqid i = m) PolicyList" for m
    using some_counted [of m xs_uiReqid StateList] some_counted [of m xp_uiReqid PolicyList] by simp_all
  have r: "length (cr_acNegotiatedIke r) = IPSEC_PROPOSAL_LENGTH" "length (cr_acNegotiatedEsp r) = IPSEC_PROPOSAL_LENGTH"
    "cr_uiXfrmStateCount r = 0" "cr_uiXfrmPolicyCount r = 0" using assms(2) by (simp_all add: fresh_result_def)
  have "(e = IPSEC_OK \<longrightarrow> as_expected c k found) \<and>
    (few_entries found \<longrightarrow> as_expected c k found \<longrightarrow> e = IPSEC_OK) \<and> (e = IPSEC_OK \<longrightarrow> stages_verified r' \<and> cr_eResult r' = cr_eResult r) \<and>
    (cr_eResult r \<noteq> NATIVE_APP_ALGORITHM_RESULT_PASS \<longrightarrow> cr_eResult r' \<noteq> NATIVE_APP_ALGORITHM_RESULT_PASS)"
  proof (cases ?ike)
    case None
    then show ?thesis using assms(1)
      by (cases ?child) (auto simp: found judge_installed_def as_expected_def copy_negotiated_ike_def copy_negotiated_esp_def
          check_negotiated_def and_then_def Let_def split: prod.splits if_splits)
  next
    case (Some ike)
    note ike = Some
    obtain b1 e1 where 1: "CopyNativeAppAlgorithmValue (cr_acNegotiatedIke r) (is_acProposal ike) = (b1, e1)" by fastforce
    note c1 = copied [OF 1 len(1)]
    show ?thesis
    proof (cases ?child)
      case None
      then show ?thesis using assms(1) ike
        by (auto simp: found judge_installed_def as_expected_def copy_negotiated_ike_def copy_negotiated_esp_def
            check_negotiated_def and_then_def Let_def 1 split: if_splits)
    next
      case (Some child)
      obtain b2 e2 where 2: "CopyNativeAppAlgorithmValue (cr_acNegotiatedEsp r) (cs_acProposal child) = (b2, e2)" by fastforce
      note c2 = copied [OF 2 len(2)]
      have t: "cstr b2 = cstr (cs_acProposal child)" if "e2 = IPSEC_OK" using c2 that by (simp add: strlen_def)
      let ?r2 = "(r\<lparr>cr_acNegotiatedIke := b1, cr_bIkeVerified := cr_bIkeVerified r \<or> b1 ! 0 \<noteq> NUL\<rparr>)
          \<lparr>cr_uiReqid := cs_uiReqid child, cr_acNegotiatedEsp := b2\<rparr>"
      show ?thesis
      proof (cases "e1 = IPSEC_OK \<and> e2 = IPSEC_OK")
        case False
        then show ?thesis using assms(1) ike Some c1(2) c2(2)
          by (auto simp: found judge_installed_def as_expected_def copy_negotiated_ike_def copy_negotiated_esp_def
              and_then_def Let_def r 1 2 split: if_splits)
      next
        case True
        have "judge_installed c k found r = run_steps [check_negotiated (Some ike) (Some child), check_pfs k,
            check_esn k (cs_bEsn child), count_kernel StateList PolicyList] ?r2"
          using True ike Some unfolding found judge_installed_def Let_def prod.case
          by (cases "b1 ! 0 = NUL") (simp_all add: copy_negotiated_ike_def copy_negotiated_esp_def and_then_done 1 2)
        note j = this [unfolded judge_checks]
        show ?thesis
          using assms(1) ike Some c1 c2 t True j n seen r
          by (auto simp: found as_expected_def few_entries_def count_kernel_def stages_verified_def Let_def split: if_splits)
      qed
    qed
  qed
  then show "e = IPSEC_OK \<Longrightarrow> as_expected c k found"
    and "few_entries found \<Longrightarrow> as_expected c k found \<Longrightarrow> e = IPSEC_OK"
    and "e = IPSEC_OK \<Longrightarrow> stages_verified r' \<and> cr_eResult r' = cr_eResult r"
    and "cr_eResult r \<noteq> NATIVE_APP_ALGORITHM_RESULT_PASS \<Longrightarrow> cr_eResult r' \<noteq> NATIVE_APP_ALGORITHM_RESULT_PASS"
    by blast+
qed

subsection \<open>Cleaning up\<close>

text \<open>The parts of a record that the two loops leave alone.\<close>

definition but_sa :: "NativeAppAlgorithmCleanup \<Rightarrow> NativeAppAlgorithmCleanup" where
  "but_sa u = u\<lparr>cu_eTerminateError := IPSEC_OK, cu_eWaitRemovedError := IPSEC_OK,
     cu_uiTerminateAttempts := 0, cu_uiWaitRemovedAttempts := 0\<rparr>"

definition but_connection :: "NativeAppAlgorithmCleanup \<Rightarrow> NativeAppAlgorithmCleanup" where
  "but_connection u = u\<lparr>cu_eRemoveConnectionError := IPSEC_OK, cu_uiRemoveConnectionAttempts := 0\<rparr>"

lemma record_error:
  "RecordNativeAppAlgorithmCleanupError t e = IPSEC_OK \<longleftrightarrow> t = IPSEC_OK \<and> e = IPSEC_OK"
  by (auto simp: RecordNativeAppAlgorithmCleanupError_def)

lemma remove_sa_attempts:
  assumes "remove_sa_loop n mem c i t ms (u, g) = (u', g')" and "cu_uiWaitRemovedAttempts u + n \<le> UINT32_MAX"
    and "cu_uiTerminateAttempts u + n \<le> UINT32_MAX"
  shows "but_sa u' = but_sa u \<and>
    (\<exists>k. k \<le> n \<and> (0 < n \<longrightarrow> 0 < k) \<and> cu_uiWaitRemovedAttempts u' = cu_uiWaitRemovedAttempts u + k \<and>
       cu_uiTerminateAttempts u' = cu_uiTerminateAttempts u + (if t then k else 0) \<and>
       (1 < k \<longrightarrow> cu_eWaitRemovedError u' \<noteq> IPSEC_OK) \<and>
       (cu_eWaitRemovedError u \<noteq> IPSEC_OK \<longrightarrow> cu_eWaitRemovedError u' \<noteq> IPSEC_OK))"
  using assms
proof (induction n arbitrary: u g)
  case (Suc n)
  obtain u1 g1 where 1: "terminate_step t c (u, g) = (u1, g1)" by fastforce
  have u1: "but_sa u1 = but_sa u" "cu_uiWaitRemovedAttempts u1 = cu_uiWaitRemovedAttempts u"
    "cu_eWaitRemovedError u1 = cu_eWaitRemovedError u"
    "cu_uiTerminateAttempts u1 = cu_uiTerminateAttempts u + (if t then 1 else 0)"
    using 1 Suc.prems(3) by (auto simp: terminate_step_def Let_def but_sa_def split: if_splits prod.splits)
  let ?u2 = "u1\<lparr>cu_uiWaitRemovedAttempts := Suc (cu_uiWaitRemovedAttempts u)\<rparr>"
  have u32: "u32 (Suc (cu_uiWaitRemovedAttempts u1)) = Suc (cu_uiWaitRemovedAttempts u)"
    using Suc.prems(2) u1(2) by simp
  obtain g2 e where 2: "in_app (WaitNativeAppRemovedWithTimeout mem c i ms) g1 = (g2, e)" by fastforce
  have u2: "but_sa ?u2 = but_sa u" using u1(1) by (simp add: but_sa_def)
  show ?case
  proof (cases "e = IPSEC_OK")
    case True
    then have "u' = ?u2" using Suc.prems(1) by (simp add: 1 2 u32)
    then show ?thesis using u1 u2 by (intro conjI exI [of _ 1]) simp_all
  next
    case False
    let ?u3 = "?u2\<lparr>cu_eWaitRemovedError := RecordNativeAppAlgorithmCleanupError (cu_eWaitRemovedError ?u2) e\<rparr>"
    obtain g3 where 3: "remove_sa_loop n mem c i t ms (?u3, g3) = (u', g')"
      using Suc.prems(1) False by (auto simp: 1 2 u32 Let_def)
    have w: "cu_eWaitRemovedError ?u3 \<noteq> IPSEC_OK" using False by (simp add: record_error)
    have "but_sa ?u3 = but_sa u" using u2 by (simp add: but_sa_def)
    moreover have "cu_uiWaitRemovedAttempts ?u3 + n \<le> UINT32_MAX" "cu_uiTerminateAttempts ?u3 + n \<le> UINT32_MAX"
      using Suc.prems(2,3) u1(4) by simp_all
    note IH = Suc.IH [OF 3 this]
    moreover obtain k where "but_sa u' = but_sa ?u3" "k \<le> n" "0 < n \<longrightarrow> 0 < k"
      "cu_uiWaitRemovedAttempts u' = cu_uiWaitRemovedAttempts ?u3 + k"
      "cu_uiTerminateAttempts u' = cu_uiTerminateAttempts ?u3 + (if t then k else 0)"
      "cu_eWaitRemovedError u' \<noteq> IPSEC_OK"
      using IH w by blast
    ultimately show ?thesis using u1(4) by (intro conjI exI [of _ "Suc k"]) simp_all
  qed
qed simp

lemma remove_connection_attempts:
  assumes "remove_connection_loop n mem c (u, g) = (u', g')" and "cu_uiRemoveConnectionAttempts u + n \<le> UINT32_MAX"
  shows "but_connection u' = but_connection u \<and>
    (\<exists>k. k \<le> n \<and> (0 < n \<longrightarrow> 0 < k) \<and> cu_uiRemoveConnectionAttempts u' = cu_uiRemoveConnectionAttempts u + k \<and>
       (1 < k \<longrightarrow> cu_eRemoveConnectionError u' \<noteq> IPSEC_OK) \<and>
       (cu_eRemoveConnectionError u \<noteq> IPSEC_OK \<longrightarrow> cu_eRemoveConnectionError u' \<noteq> IPSEC_OK))"
  using assms
proof (induction n arbitrary: u g)
  case (Suc n)
  let ?u1 = "u\<lparr>cu_uiRemoveConnectionAttempts := Suc (cu_uiRemoveConnectionAttempts u)\<rparr>"
  have u32: "u32 (Suc (cu_uiRemoveConnectionAttempts u)) = Suc (cu_uiRemoveConnectionAttempts u)" using Suc.prems(2) by simp
  obtain g1 e where 1: "in_app (on_ipsec (RemoveIpsecConnection (Some (nc_acConnectionName c)))) g = (g1, e)" by fastforce
  let ?u2 = "?u1\<lparr>cu_eRemoveConnectionError := RecordNativeAppAlgorithmCleanupError (cu_eRemoveConnectionError ?u1) e\<rparr>"
  obtain b g2 f where 2: "CheckNativeAppAlgorithmConnectionRemoved mem c g1 = ((b, g2), f)" by (metis prod.exhaust)
  show ?case
  proof (cases "e = IPSEC_OK \<or> e = IPSEC_ERR_CONNECTION_NOT_FOUND \<or> b")
    case True
    then have "u' = ?u1 \<or> u' = ?u2" using Suc.prems(1) by (auto simp: 1 2 u32 Let_def split: if_splits)
    then show ?thesis by (intro conjI exI [of _ 1]) (auto simp: but_connection_def record_error)
  next
    case False
    then obtain g3 where 3: "remove_connection_loop n mem c (?u2, g3) = (u', g')"
      using Suc.prems(1) by (auto simp: 1 2 u32 Let_def)
    have w: "cu_eRemoveConnectionError ?u2 \<noteq> IPSEC_OK" using False by (simp add: record_error)
    obtain k where "but_connection u' = but_connection ?u2" "k \<le> n" "0 < n \<longrightarrow> 0 < k"
      "cu_uiRemoveConnectionAttempts u' = cu_uiRemoveConnectionAttempts ?u2 + k"
      "cu_eRemoveConnectionError u' \<noteq> IPSEC_OK"
      using Suc.IH [OF 3] Suc.prems(2) w by auto
    then show ?thesis by (intro conjI exI [of _ "Suc k"]) (simp_all add: but_connection_def)
  qed
qed simp

text \<open>The last two queries found nothing of the case.\<close>

definition seen_clean :: "(nat \<Rightarrow> bool) \<Rightarrow> NativeAppConfig \<Rightarrow> nat \<Rightarrow> AlgorithmWorld \<Rightarrow> bool" where
  "seen_clean mem c i g \<longleftrightarrow>
     (\<exists>w items. seen_removed mem c i w \<and> GetIpsecConnections mem w = ((items, ap_ipsec (ag_App g)), IPSEC_OK) \<and>
        (\<forall>x \<in> set items. \<not> strcmp_eq (nc_acConnectionName c) (ci_acName x)))"

lemma check_removed_seen:
  assumes "CheckNativeAppAlgorithmConnectionRemoved mem c g = ((b, g'), e)"
  shows "e = IPSEC_OK \<Longrightarrow> \<exists>items. GetIpsecConnections mem (ap_ipsec (ag_App g)) = ((items, ap_ipsec (ag_App g')), IPSEC_OK) \<and>
    b = (\<forall>x \<in> set items. \<not> strcmp_eq (nc_acConnectionName c) (ci_acName x))"
  using assms
  by (auto simp: CheckNativeAppAlgorithmConnectionRemoved_def ask_def Let_def case_prod_beta list_ex_iff
      intro!: exI [of _ "fst (fst (GetIpsecConnections mem (ap_ipsec (ag_App g))))"] prod_eqI)

lemma cleanup_result:
  assumes "CleanupNativeAppAlgorithmCase mem c i t g = ((u, g'), e)"
  shows "(e = IPSEC_OK \<longrightarrow> seen_clean mem c i g') \<and> cu_bLocalVerified u = (e = IPSEC_OK) \<and>
    cu_bRecovered u = (e = IPSEC_OK \<and> cleanup_recovered u) \<and>
    cu_uiWaitRemovedAttempts u \<in> {1..NATIVE_APP_ALGORITHM_CLEANUP_ATTEMPTS} \<and>
    cu_uiTerminateAttempts u = (if t then cu_uiWaitRemovedAttempts u else 0) \<and>
    cu_uiRemoveConnectionAttempts u \<in> {1..NATIVE_APP_ALGORITHM_CLEANUP_ATTEMPTS} \<and>
    (1 < cu_uiWaitRemovedAttempts u \<longrightarrow> cu_eWaitRemovedError u \<noteq> IPSEC_OK) \<and>
    (1 < cu_uiRemoveConnectionAttempts u \<longrightarrow> cu_eRemoveConnectionError u \<noteq> IPSEC_OK) \<and>
    (cu_eFinalVerifyError u = IPSEC_OK) = (e = IPSEC_OK) \<and> cu_uiPeerAttempts u = 0 \<and> cu_ePeerError u = IPSEC_OK"
proof -
  obtain u1 g1 where 1: "remove_sa_loop NATIVE_APP_ALGORITHM_CLEANUP_ATTEMPTS mem c i t
      (GetNativeAppAlgorithmCleanupWaitMs c) (zero_cleanup, g) = (u1, g1)" by fastforce
  obtain u2 g2 where 2: "remove_connection_loop NATIVE_APP_ALGORITHM_CLEANUP_ATTEMPTS mem c (u1, g1) = (u2, g2)" by fastforce
  obtain g3 e3 where 3: "in_app (WaitNativeAppRemovedWithTimeout mem c i 0) g2 = (g3, e3)" by fastforce
  obtain b g4 e4 where 4: "CheckNativeAppAlgorithmConnectionRemoved mem c g3 = ((b, g4), e4)" by (metis prod.exhaust)
  let ?e = "if e4 \<noteq> IPSEC_OK then e4 else if \<not> b then IPSEC_ERR_VICI_TIMEOUT else IPSEC_OK"
  let ?u = "record_final ?e (record_final e3 u2)"
  have r: "g' = g4" "e = (if e3 = IPSEC_OK then ?e else e3)"
    "u = (if e = IPSEC_OK then ?u\<lparr>cu_bLocalVerified := True, cu_bRecovered := cleanup_recovered ?u\<rparr> else ?u)"
    using assms unfolding CleanupNativeAppAlgorithmCase_def Let_def 1 prod.case 2 3 4 by (auto split: if_splits)
  have start: "cu_uiWaitRemovedAttempts zero_cleanup = 0" "cu_uiTerminateAttempts zero_cleanup = 0"
    "cu_uiRemoveConnectionAttempts zero_cleanup = 0" by (simp_all add: zero_cleanup_def)
  have b1: "but_sa u1 = but_sa zero_cleanup" and sa1: "cu_uiWaitRemovedAttempts u1 \<in> {1..NATIVE_APP_ALGORITHM_CLEANUP_ATTEMPTS}"
      "cu_uiTerminateAttempts u1 = (if t then cu_uiWaitRemovedAttempts u1 else 0)"
      "1 < cu_uiWaitRemovedAttempts u1 \<longrightarrow> cu_eWaitRemovedError u1 \<noteq> IPSEC_OK"
    using remove_sa_attempts [OF 1] start by auto
  have c1: "cu_uiRemoveConnectionAttempts u1 = 0" "cu_eFinalVerifyError u1 = IPSEC_OK" "cu_ePeerError u1 = IPSEC_OK"
    "cu_uiPeerAttempts u1 = 0" "\<not> cu_bRecovered u1" "\<not> cu_bLocalVerified u1"
    using b1 by (cases u1; simp add: but_sa_def zero_cleanup_def)+
  have b2: "but_connection u2 = but_connection u1" and co: "cu_uiRemoveConnectionAttempts u2 \<in> {1..NATIVE_APP_ALGORITHM_CLEANUP_ATTEMPTS}"
      "1 < cu_uiRemoveConnectionAttempts u2 \<longrightarrow> cu_eRemoveConnectionError u2 \<noteq> IPSEC_OK"
    using remove_connection_attempts [OF 2] c1(1) by auto
  have same: "cu_uiWaitRemovedAttempts u2 = cu_uiWaitRemovedAttempts u1" "cu_uiTerminateAttempts u2 = cu_uiTerminateAttempts u1"
    "cu_eWaitRemovedError u2 = cu_eWaitRemovedError u1" "cu_eFinalVerifyError u2 = IPSEC_OK" "cu_ePeerError u2 = IPSEC_OK"
    "cu_uiPeerAttempts u2 = 0" "\<not> cu_bRecovered u2" "\<not> cu_bLocalVerified u2"
    using b2 c1 by (cases u1; cases u2; simp add: but_connection_def)+
  have final: "cu_eFinalVerifyError ?u = IPSEC_OK \<longleftrightarrow> e = IPSEC_OK"
    using same(4) r(2) by (auto simp: record_final_def record_error)
  have clean: "seen_clean mem c i g'" if "e = IPSEC_OK"
  proof -
    have ok: "e3 = IPSEC_OK" "e4 = IPSEC_OK" b using that r(2) by (auto split: if_splits)
    have "seen_removed mem c i (ap_ipsec (ag_App g3))"
      using 3 ok(1) wait_removed_seen
      by (auto simp: in_app_def Let_def case_prod_beta WaitNativeAppRemovedWithTimeout_def) (metis prod.collapse)
    then show ?thesis using check_removed_seen [OF 4 ok(2)] ok(3) r(1) unfolding seen_clean_def by blast
  qed
  have rec: "cleanup_recovered (v\<lparr>cu_bLocalVerified := x, cu_bRecovered := y\<rparr>) = cleanup_recovered v" for v x y
    by (simp add: cleanup_recovered_def)
  show ?thesis
    using r(3) same sa1 co final clean rec by (cases "e = IPSEC_OK") (simp_all add: record_final_def)
qed

subsection \<open>The verdict on a case\<close>

lemma judge_installed_flags:
  assumes "judge_installed c k found r = (r', e)"
  shows "e = IPSEC_OK \<Longrightarrow> stages_verified r'"
    and "cr_eResult r \<noteq> NATIVE_APP_ALGORITHM_RESULT_PASS \<Longrightarrow> cr_eResult r' \<noteq> NATIVE_APP_ALGORITHM_RESULT_PASS"
proof -
  obtain IkeList ChildList StateList PolicyList where found: "found = (IkeList, ChildList, StateList, PolicyList)"
    by (metis prod.exhaust)
  define pIke where "pIke = List.find (\<lambda>i. strcmp_eq (nc_acConnectionName c) (is_acName i) \<and> is_bEstablished i) IkeList"
  define pChild where "pChild = List.find (\<lambda>i. strcmp_eq (nc_acChildName c) (cs_acName i) \<and> strcmp_eq ''INSTALLED'' (cs_acState i)) ChildList"
  obtain r1 e1 where 1: "copy_negotiated_ike pIke r = (r1, e1)" by fastforce
  obtain r2 e2 where 2: "copy_negotiated_esp pChild r1 = (r2, e2)" by fastforce
  have kept: "cr_eResult r2 = cr_eResult r" "cr_eResult r1 = cr_eResult r" "cr_bIkeVerified r2 = cr_bIkeVerified r1"
    "cr_acNegotiatedIke r2 = cr_acNegotiatedIke r1"
    using 1 2 by (auto simp: copy_negotiated_ike_def copy_negotiated_esp_def Let_def split: option.splits prod.splits if_splits)
  have ike: "cr_bIkeVerified r1" if "e1 = IPSEC_OK" "pIke \<noteq> None" "cr_acNegotiatedIke r1 ! 0 \<noteq> NUL"
    using 1 that by (auto simp: copy_negotiated_ike_def Let_def split: option.splits prod.splits if_splits)
  have j: "(r', e) = (if e1 \<noteq> IPSEC_OK then (r1, e1) else if e2 \<noteq> IPSEC_OK then (r2, e2)
      else run_steps [check_negotiated pIke pChild, check_pfs k,
        check_esn k (case pChild of None \<Rightarrow> False | Some i \<Rightarrow> cs_bEsn i), count_kernel StateList PolicyList] r2)"
    using assms unfolding found judge_installed_def Let_def prod.case pIke_def [symmetric] pChild_def [symmetric]
    by (cases "e1 = IPSEC_OK"; cases "e2 = IPSEC_OK") (simp_all add: 1 2 and_then_done)
  have none: "run_steps [check_negotiated pIke pChild, f, h, l] r2 = (fst (check_negotiated pIke pChild r2), snd (check_negotiated pIke pChild r2)) \<and>
      snd (check_negotiated pIke pChild r2) \<noteq> IPSEC_OK \<and>
      cr_eResult (fst (check_negotiated pIke pChild r2)) \<noteq> NATIVE_APP_ALGORITHM_RESULT_PASS"
    if "pIke = None \<or> pChild = None" for f h l
    using that by (cases pIke; cases pChild) (auto simp: check_negotiated_def and_then_done)
  have some: "(e = IPSEC_OK \<longrightarrow> stages_verified r') \<and>
      (cr_eResult r \<noteq> NATIVE_APP_ALGORITHM_RESULT_PASS \<longrightarrow> cr_eResult r' \<noteq> NATIVE_APP_ALGORITHM_RESULT_PASS)"
    if two: "pIke = Some i" "pChild = Some ch" and ok: "e1 = IPSEC_OK" "e2 = IPSEC_OK" for i ch
    using j [unfolded two option.case judge_checks] ok ike kept two
    by (auto simp: count_kernel_def stages_verified_def Let_def split: if_splits)
  have "(e = IPSEC_OK \<longrightarrow> stages_verified r') \<and>
      (cr_eResult r \<noteq> NATIVE_APP_ALGORITHM_RESULT_PASS \<longrightarrow> cr_eResult r' \<noteq> NATIVE_APP_ALGORITHM_RESULT_PASS)"
  proof (cases "e1 = IPSEC_OK \<and> e2 = IPSEC_OK")
    case True
    then show ?thesis using j [symmetric] none some kept by (cases pIke; cases pChild) (simp_all del: run_steps.simps)
  next
    case False
    then show ?thesis using j kept by (auto split: if_splits)
  qed
  then show "e = IPSEC_OK \<Longrightarrow> stages_verified r'"
    and "cr_eResult r \<noteq> NATIVE_APP_ALGORITHM_RESULT_PASS \<Longrightarrow> cr_eResult r' \<noteq> NATIVE_APP_ALGORITHM_RESULT_PASS" by blast+
qed

text \<open>A query that found what a case expects.\<close>

definition seen_installed :: "(nat \<Rightarrow> bool) \<Rightarrow> Ipsec \<Rightarrow> NativeAppConfig \<Rightarrow> NativeAppAlgorithmCase \<Rightarrow> bool" where
  "seen_installed mem w c k \<longleftrightarrow> (\<exists>w' found. query_installed mem w = ((found, w'), IPSEC_OK) \<and> as_expected c k found)"

lemma query_state_seen:
  assumes "QueryNativeAppAlgorithmState mem c k s = ((r', g'), IPSEC_OK)" and "fresh_result (fst s)"
  shows "seen_installed mem (ap_ipsec (ag_App (snd s))) c k"
proof -
  obtain r g where s: "s = (r, g)" by (cases s)
  obtain found g1 e1 where 1: "ask (query_installed mem) g = ((found, g1), e1)" by (metis prod.exhaust)
  let ?r = "r\<lparr>cr_eResult := NATIVE_APP_ALGORITHM_RESULT_FAIL_XFRM\<rparr>"
  obtain r2 e2 where 2: "judge_installed c k found ?r = (r2, e2)" by fastforce
  have ok: "e1 = IPSEC_OK" "e2 = IPSEC_OK"
    using assms(1) by (auto simp: QueryNativeAppAlgorithmState_def s 1 2 Let_def split: if_splits)
  have "fresh_result ?r" using assms(2) s by (simp add: fresh_result_def)
  then have "as_expected c k found" using judge_installed_verdict(1) [OF 2] ok by simp
  moreover obtain w' where "query_installed mem (ap_ipsec (ag_App g)) = ((found, w'), IPSEC_OK)"
    using 1 ok(1) by (auto simp: ask_def Let_def split: prod.splits)
  ultimately show ?thesis using s unfolding seen_installed_def by auto
qed

lemma query_state_flags:
  assumes "QueryNativeAppAlgorithmState mem c k s = ((r', g'), e)"
  shows "e = IPSEC_OK \<Longrightarrow> stages_verified r'" and "cr_eResult r' \<noteq> NATIVE_APP_ALGORITHM_RESULT_PASS"
proof -
  obtain r g where s: "s = (r, g)" by (cases s)
  obtain found g1 e1 where 1: "ask (query_installed mem) g = ((found, g1), e1)" by (metis prod.exhaust)
  let ?r = "r\<lparr>cr_eResult := NATIVE_APP_ALGORITHM_RESULT_FAIL_XFRM\<rparr>"
  obtain r2 e2 where 2: "judge_installed c k found ?r = (r2, e2)" by fastforce
  note j = judge_installed_flags [OF 2]
  show "e = IPSEC_OK \<Longrightarrow> stages_verified r'" and "cr_eResult r' \<noteq> NATIVE_APP_ALGORITHM_RESULT_PASS"
    using assms j by (auto simp: QueryNativeAppAlgorithmState_def s 1 2 Let_def split: if_splits)
qed

text \<open>What a passed case has shown.\<close>

definition case_shown :: "NativeAppAlgorithmCaseResult \<Rightarrow> bool" where
  "case_shown r \<longleftrightarrow> stages_verified r \<and> cr_bDataPathVerified r \<and> strcmp_eq ''PASS'' (cr_acPeerResult r)"

lemma stages_update [simp]:
  "stages_verified (r\<lparr>cr_eResult := v\<rparr>) = stages_verified r" "stages_verified (r\<lparr>cr_eError := e\<rparr>) = stages_verified r"
  "stages_verified (r\<lparr>cr_eCleanupError := e\<rparr>) = stages_verified r" "stages_verified (r\<lparr>cr_Cleanup := u\<rparr>) = stages_verified r"
  "stages_verified (r\<lparr>cr_acPeerResult := p\<rparr>) = stages_verified r" "stages_verified (r\<lparr>cr_bDataPathVerified := b\<rparr>) = stages_verified r"
  by (simp_all add: stages_verified_def)

lemma case_query_seen:
  assumes "case_client_query mem c k d (case_client_start mem c k s) = ((r', g'), IPSEC_OK)" and "fresh_result (fst s)"
  shows "seen_installed mem (ap_ipsec (ag_App (snd (fst (case_client_start mem c k s))))) c k"
proof -
  obtain s1 e1 where 1: "case_client_start mem c k s = (s1, e1)" by fastforce
  have "fresh_result (fst s1)"
    using 1 assms(2) by (auto simp: case_client_start_def Let_def fresh_result_def split: prod.splits if_splits)
  moreover obtain r2 g2 where "QueryNativeAppAlgorithmState mem c k s1 = ((r2, g2), IPSEC_OK)"
    using assms(1) by (auto simp: case_client_query_def 1 Let_def split: prod.splits if_splits)
  ultimately show ?thesis using query_state_seen 1 by fastforce
qed

text \<open>The configuration of a case names the same connection.\<close>

definition same_names :: "NativeAppConfig \<Rightarrow> NativeAppConfig \<Rightarrow> bool" where
  "same_names c b \<longleftrightarrow> nc_acConnectionName c = nc_acConnectionName b \<and> nc_acChildName c = nc_acChildName b"

lemma seen_same_names:
  assumes "same_names c b"
  shows "seen_installed mem w c k = seen_installed mem w b k"
  using assms by (simp add: same_names_def seen_installed_def as_expected_def split_def cong: prod.case_cong)

lemma clean_same_names:
  assumes "same_names c b"
  shows "seen_clean mem c i g = seen_clean mem b i g"
proof -
  have "still_present c i found = still_present b i found" for found
    using assms by (cases found) (simp add: same_names_def still_present_def)
  then show ?thesis using assms by (simp add: seen_clean_def seen_removed_def same_names_def)
qed

lemma case_config_names: "BuildNativeAppAlgorithmConfig b k g = (((c, rt), g'), e) \<Longrightarrow> same_names c b"
  by (auto simp: BuildNativeAppAlgorithmConfig_def same_names_def Let_def split: prod.splits if_splits)

lemma case_query_flags:
  assumes "case_client_query mem c k d (s, e) = ((r', g'), e')"
  shows "e' = IPSEC_OK \<Longrightarrow> stages_verified r'" and "cr_eResult r' \<noteq> NATIVE_APP_ALGORITHM_RESULT_PASS"
proof -
  obtain r1 g1 e1 where 1: "QueryNativeAppAlgorithmState mem c k s = ((r1, g1), e1)" by (metis prod.exhaust)
  note q = query_state_flags [OF 1]
  show "e' = IPSEC_OK \<Longrightarrow> stages_verified r'" and "cr_eResult r' \<noteq> NATIVE_APP_ALGORITHM_RESULT_PASS"
    using assms q by (auto simp: case_client_query_def 1 Let_def split: prod.splits if_splits)
qed

lemma case_verify_flags:
  assumes "case_client_verify R c k (r, g) = ((r', g'), e)" and "stages_verified r"
  shows "(cr_eResult r' = NATIVE_APP_ALGORITHM_RESULT_PASS) = (e = IPSEC_OK)" and "e = IPSEC_OK \<Longrightarrow> case_shown r'"
  using assms by (auto simp: case_client_verify_def case_shown_def Let_def split: prod.splits if_splits)

lemma finish_peer_verified:
  assumes "FinishNativeAppAlgorithmPeer R k a t (u, g) = ((u', g'), e)"
  shows "cu_bLocalVerified u' = cu_bLocalVerified u"
proof -
  have "cu_bLocalVerified (fst (fst (finish_peer_loop n R i m t (u, g)))) = cu_bLocalVerified u" for n i m t u g
    by (induction n arbitrary: u g) (simp_all add: Let_def case_prod_beta)
  then have "finish_peer_loop n R i m t (u, g) = ((u', g'), e) \<Longrightarrow> cu_bLocalVerified u' = cu_bLocalVerified u" for n i m t
    by (metis fst_conv)
  then show ?thesis using assms
    by (auto simp: FinishNativeAppAlgorithmPeer_def Let_def case_prod_beta split: if_splits)
qed

definition told :: "NativeAppAlgorithmCaseResult \<Rightarrow> bool" where
  "told r \<longleftrightarrow> ((cr_eResult r = NATIVE_APP_ALGORITHM_RESULT_PASS) = (cr_eError r = IPSEC_OK))"

lemma case_cleanup_flags:
  assumes "case_client_cleanup mem c l t (r, g) = (r', g')" and "told r" and "cr_eError r = IPSEC_OK \<Longrightarrow> case_shown r \<and> l"
  shows "told r' \<and> (cr_eError r' = IPSEC_OK \<longrightarrow> case_shown r' \<and> cr_eCleanupError r' = IPSEC_OK \<and>
    cu_bLocalVerified (cr_Cleanup r') \<and> seen_clean mem c (cr_uiReqid r') g')"
proof (cases l)
  case False
  then show ?thesis using assms by (auto simp: case_client_cleanup_def told_def)
next
  case True
  obtain u g1 e where 1: "CleanupNativeAppAlgorithmCase mem c (cr_uiReqid r) t g = ((u, g1), e)" by (metis prod.exhaust)
  have u: "cu_bLocalVerified u = (e = IPSEC_OK)" "e = IPSEC_OK \<longrightarrow> seen_clean mem c (cr_uiReqid r) g1"
    using cleanup_result [OF 1] by simp_all
  show ?thesis using assms u True 1
    by (auto simp: case_client_cleanup_def told_def case_shown_def split: if_splits)
qed

lemma case_finish_flags:
  assumes "case_client_finish R c k l (r, g) = (r', g')" and "told r"
  shows "told r' \<and> (cr_eError r' = IPSEC_OK \<longrightarrow> cr_eError r = IPSEC_OK \<and> case_shown r' = case_shown r \<and>
    cr_eCleanupError r' = cr_eCleanupError r \<and> cr_uiReqid r' = cr_uiReqid r \<and> cu_bLocalVerified (cr_Cleanup r') = cu_bLocalVerified (cr_Cleanup r))"
proof -
  obtain u g1 e where 1: "FinishNativeAppAlgorithmPeer R k (if l then ''CLEANUP'' else ''ABORT'') (nc_uiTimeoutMs c)
      (cr_Cleanup r, g) = ((u, g1), e)" by (metis prod.exhaust)
  have r': "case_client_finish R c k l (r, g) = (r', g')" by (rule assms(1))
  show ?thesis
  proof (cases "e = IPSEC_OK")
    case True
    then have "r' = r\<lparr>cr_Cleanup := u\<rparr>" using r' by (simp add: case_client_finish_def 1)
    then show ?thesis using assms(2) finish_peer_verified [OF 1] by (simp add: told_def case_shown_def)
  next
    case False
    then have "told r' \<and> cr_eError r' \<noteq> IPSEC_OK"
      using r' assms(2) by (auto simp: case_client_finish_def 1 told_def Let_def split: if_splits)
    then show ?thesis by simp
  qed
qed

text \<open>The query of a case is made after the attempt to start it.\<close>

definition query_world :: "(nat \<Rightarrow> bool) \<Rightarrow> NativeAppAlgorithmCase \<Rightarrow>
  ((NativeAppConfig \<times> NativeAppAlgorithmCaseResult) \<times> AlgorithmWorld) outcome \<Rightarrow> Ipsec" where
  "query_world mem k x = ap_ipsec (ag_App (snd (fst (case_client_start mem (fst (fst (fst x))) k
     (snd (fst (fst x)), snd (fst x))))))"

lemma case_client_load_config:
  assumes "case_client_load R base i q k (r, g) = (((c, r'), g'), e)"
  shows "cr_eResult r' \<noteq> NATIVE_APP_ALGORITHM_RESULT_PASS" and "fresh_result r \<Longrightarrow> fresh_result r'"
    and "e = IPSEC_OK \<Longrightarrow> same_names c base"
  using assms case_config_names
  by (auto simp: case_client_load_def Let_def fresh_result_def split: prod.splits if_splits)

lemma case_client_test_verdict:
  assumes "case_client_test mem R base k d (((c, r), g), e) = ((r', g'), (c', l))"
    and "cr_eResult r \<noteq> NATIVE_APP_ALGORITHM_RESULT_PASS" and "fresh_result r"
  shows "told r'" and "c' = c" and "l = (e = IPSEC_OK)"
    and "cr_eError r' = IPSEC_OK \<Longrightarrow> case_shown r' \<and> l \<and> seen_installed mem (query_world mem k (((c, r), g), e)) c k"
proof -
  obtain r4 g4 e4 where 4: "(if e = IPSEC_OK
      then case_client_query mem c k d (case_client_start mem c k (r, g)) else ((r, g), e)) = ((r4, g4), e4)"
    by (metis prod.exhaust)
  obtain r5 g5 e5 where 5: "(if e4 = IPSEC_OK then case_client_verify R base k (r4, g4) else ((r4, g4), e4)) = ((r5, g5), e5)"
    by (metis prod.exhaust)
  have res: "r' = r5\<lparr>cr_eError := e5\<rparr>" "c' = c" "l = (e = IPSEC_OK)"
    using assms(1) unfolding case_client_test_def Let_def prod.case 4 5 by auto
  have r4: "cr_eResult r4 \<noteq> NATIVE_APP_ALGORITHM_RESULT_PASS" "e4 = IPSEC_OK \<Longrightarrow> stages_verified r4 \<and> e = IPSEC_OK"
    using 4 assms(2) case_query_flags [of mem c k d] by (auto split: if_splits) (metis prod.collapse)+
  have seen: "seen_installed mem (query_world mem k (((c, r), g), e)) c k" if "e4 = IPSEC_OK"
    using 4 case_query_seen [of mem c k d "(r, g)" r4 g4] r4(2) that assms(3) by (simp add: query_world_def)
  have r5: "(cr_eResult r5 = NATIVE_APP_ALGORITHM_RESULT_PASS) = (e5 = IPSEC_OK)"
    "e5 = IPSEC_OK \<Longrightarrow> case_shown r5 \<and> e = IPSEC_OK \<and> e4 = IPSEC_OK"
    using 5 r4 case_verify_flags [of R base k r4 g4 r5 g5 e5] by (auto split: if_splits)
  show "told r'" "c' = c" "l = (e = IPSEC_OK)" using r5 res by (simp_all add: told_def)
  show "cr_eError r' = IPSEC_OK \<Longrightarrow> case_shown r' \<and> l \<and> seen_installed mem (query_world mem k (((c, r), g), e)) c k"
    using r5 seen res by (simp add: case_shown_def)
qed

lemma case_client_verdict:
  assumes "RunNativeAppAlgorithmCaseClient mem R base i q k d (r, g) = ((r', g'), e)" and "fresh_result r"
    and "case_client_load R base i q k (r, g) = x" and "case_client_test mem R base k d x = ((r2, g2), (c, l))"
    and "case_client_cleanup mem c l l (r2, g2) = (r3, g3)"
  shows "cr_eError r' = e \<and> (cr_eResult r' = NATIVE_APP_ALGORITHM_RESULT_PASS) = (e = IPSEC_OK) \<and>
    (e = IPSEC_OK \<longrightarrow> case_shown r' \<and> cr_eCleanupError r' = IPSEC_OK \<and> cu_bLocalVerified (cr_Cleanup r') \<and>
       seen_installed mem (query_world mem k x) base k \<and> seen_clean mem base (cr_uiReqid r') g3)"
proof -
  obtain c1 r1 g1 e1 where x: "x = (((c1, r1), g1), e1)" by (metis prod.exhaust)
  note load = case_client_load_config [OF assms(3) [unfolded x]]
  note test = case_client_test_verdict [OF assms(4) [unfolded x] load(1) load(2) [OF assms(2)]]
  obtain r4 g4 where 4: "case_client_finish R base k l (r3, g3) = (r4, g4)" by fastforce
  have res: "r' = r4" "e = cr_eError r4"
    using assms(1) unfolding RunNativeAppAlgorithmCaseClient_def assms(3) assms(4) Let_def prod.case assms(5) 4 by auto
  note clean = case_cleanup_flags [OF assms(5) test(1)]
  note r3 = clean [OF conjI [OF test(4) [THEN conjunct1] test(4) [THEN conjunct2, THEN conjunct1]]]
  have "told r3" using r3 by blast
  note r4 = case_finish_flags [OF 4 this]
  have e23: "cr_eError r3 = IPSEC_OK \<Longrightarrow> cr_eError r2 = IPSEC_OK"
    using assms(5) by (auto simp: case_client_cleanup_def Let_def split: if_splits prod.splits)
  have names: "same_names c base" if "cr_eError r2 = IPSEC_OK"
    using test(2,3) test(4) [OF that] load(3) by simp
  show ?thesis
  proof (cases "e = IPSEC_OK")
    case True
    then have 3: "cr_eError r3 = IPSEC_OK" and 2: "cr_eError r2 = IPSEC_OK" using r4 res e23 by auto
    then show ?thesis
      using r3 r4 res True test(2) test(4) [OF 2] names [OF 2] clean_same_names [OF names [OF 2]]
        seen_same_names [OF names [OF 2]] x by (simp add: told_def)
  next
    case False
    then show ?thesis using r4 res by (simp add: told_def)
  qed
qed

subsection \<open>The case of a result\<close>

lemma run_steps_keep:
  assumes "\<And>f s. f \<in> set fs \<Longrightarrow> h (fst (f s)) = h s"
  shows "h (fst (run_steps fs s)) = h s"
  using assms
proof (induction fs arbitrary: s)
  case (Cons f fs)
  have "h (fst (f s)) = h s" using Cons.prems by simp
  moreover have "h (fst (run_steps fs t)) = h t" for t using Cons.IH Cons.prems by simp
  ultimately show ?case by (cases "f s") (simp add: and_then_def)
qed simp

lemma judge_installed_case: "cr_Case (fst (judge_installed c k found r)) = cr_Case r"
  unfolding judge_installed_def Let_def case_prod_beta
  by (rule run_steps_keep)
    (auto simp: copy_negotiated_ike_def copy_negotiated_esp_def check_negotiated_def check_pfs_def check_esn_def
      count_kernel_def Let_def split: option.split prod.split)

lemma query_state_case: "cr_Case (fst (fst (QueryNativeAppAlgorithmState mem c k s))) = cr_Case (fst s)"
  using judge_installed_case
  by (auto simp: QueryNativeAppAlgorithmState_def Let_def split: prod.split) (metis fst_conv NativeAppAlgorithmCaseResult.select_convs(1) NativeAppAlgorithmCaseResult.surjective NativeAppAlgorithmCaseResult.update_convs(2))

lemma case_client_query_case:
  "cr_Case (fst (fst (case_client_query mem c k d x))) = cr_Case (fst (fst x))"
  using query_state_case [of mem c k "fst x"]
  by (auto simp: case_client_query_def Let_def split: prod.splits)

lemma case_client_start_case: "cr_Case (fst (fst (case_client_start mem c k s))) = cr_Case (fst s)"
  by (auto simp: case_client_start_def Let_def split: prod.splits)

lemma case_client_verify_case: "cr_Case (fst (fst (case_client_verify R c k s))) = cr_Case (fst s)"
  by (auto simp: case_client_verify_def Let_def split: prod.splits)

lemma case_client_end_case:
  "cr_Case (fst (case_client_cleanup mem c l t s)) = cr_Case (fst s)"
  "cr_Case (fst (case_client_finish R c k l s)) = cr_Case (fst s)"
  by (auto simp: case_client_cleanup_def case_client_finish_def Let_def split: prod.splits)

lemma case_client_load_case: "cr_Case (snd (fst (fst (case_client_load R base i q k s)))) = k"
  by (auto simp: case_client_load_def Let_def split: prod.splits)

lemma case_client_test_case:
  "cr_Case (fst (fst (case_client_test mem R base k d x))) = cr_Case (snd (fst (fst x)))"
proof -
  obtain c r g e where x: "x = (((c, r), g), e)" by (metis prod.exhaust)
  show ?thesis
    using case_client_query_case [of mem c k d "case_client_start mem c k (r, g)"]
      case_client_start_case [of mem c k "(r, g)"] case_client_verify_case [of R base k]
    by (auto simp: case_client_test_def x Let_def split: prod.splits if_splits) (metis fst_conv)+
qed

lemma case_client_case:
  "cr_Case (fst (fst (RunNativeAppAlgorithmCaseClient mem R base i q k d s))) = k"
  using case_client_load_case [of R base i q k s] case_client_test_case [of mem R base k d "case_client_load R base i q k s"]
    case_client_end_case
  by (auto simp: RunNativeAppAlgorithmCaseClient_def Let_def case_prod_beta split: prod.splits)

subsection \<open>A sweep in which every case passed\<close>

text \<open>What a passed case of the catalogue has shown.\<close>

definition passed_case :: "SweepRun \<Rightarrow> nat \<Rightarrow> NativeAppAlgorithmCaseResult \<Rightarrow> bool" where
  "passed_case run i r \<longleftrightarrow>
     GetNativeAppAlgorithmCase (ao_eMode (sr_Options run)) (u32 (ao_uiStart (sr_Options run) - 1 + i))
       (Some (sr_Config run)) (ao_pcCustomIke (sr_Options run)) (ao_pcCustomEsp (sr_Options run)) zero_case =
       (cr_Case r, IPSEC_OK) \<and>
     cr_eResult r = NATIVE_APP_ALGORITHM_RESULT_PASS \<and> case_shown r \<and> cr_eCleanupError r = IPSEC_OK \<and>
     cu_bLocalVerified (cr_Cleanup r)"

lemma client_case_passed:
  assumes "client_case mem run i g = ((r, g'), IPSEC_OK)"
  shows "passed_case run i r"
proof -
  obtain t0 g0 where 0: "GetNativeAppAlgorithmTimeMs g = (t0, g0)" by fastforce
  obtain k e where 1: "GetNativeAppAlgorithmCase (ao_eMode (sr_Options run)) (u32 (ao_uiStart (sr_Options run) - 1 + i))
       (Some (sr_Config run)) (ao_pcCustomIke (sr_Options run)) (ao_pcCustomEsp (sr_Options run)) zero_case = (k, e)" by fastforce
  obtain d g1 e1 where 2: "(if e = IPSEC_OK
      then CreateNativeAppAlgorithmCaseReport (sr_Config run) k ''initiator'' (sr_acResultDirectory run) (i + 1)
        (sr_uiRequested run) (replicate NATIVE_APP_PATH_LENGTH NUL, g0)
      else ((replicate NATIVE_APP_PATH_LENGTH NUL, g0), e)) = ((d, g1), e1)" by (metis prod.exhaust)
  let ?r = "zero_case_result\<lparr>cr_Case := k\<rparr>"
  let ?g = "ReportNativeAppAlgorithm True ''INFO'' (''['' @ dec (i + 1) @ ''/'' @ dec (sr_uiRequested run) @ ''] '' @
    cstr (ac_acId k)) g1"
  obtain r2 g2 e2 where 3: "(if e1 = IPSEC_OK
      then RunNativeAppAlgorithmCaseClient mem (sr_Remote run) (sr_Config run) (sr_acRunId run) (sr_uiRequested run) k d (?r, ?g)
      else ((?r\<lparr>cr_eResult := NATIVE_APP_ALGORITHM_RESULT_FAIL_CONFIG, cr_eError := e1\<rparr>, g1), e1)) = ((r2, g2), e2)"
    by (metis prod.exhaust)
  obtain t1 g3 where 4: "GetNativeAppAlgorithmTimeMs g2 = (t1, g3)" by fastforce
  have res: "r = r2\<lparr>cr_ullDurationMs := sub64 t1 t0\<rparr>" "e2 = IPSEC_OK"
    using assms unfolding client_case_def Let_def 0 prod.case 1 2 3 4 by auto
  have ok: "e1 = IPSEC_OK" "e = IPSEC_OK" using 2 3 res(2) by (auto split: if_splits)
  have run: "RunNativeAppAlgorithmCaseClient mem (sr_Remote run) (sr_Config run) (sr_acRunId run) (sr_uiRequested run) k d (?r, ?g) =
      ((r2, g2), IPSEC_OK)" using 3 ok res(2) by simp
  have "fresh_result ?r" by (simp add: fresh_result_def zero_case_result_def)
  moreover obtain x where x: "case_client_load (sr_Remote run) (sr_Config run) (sr_acRunId run) (sr_uiRequested run) k (?r, ?g) = x" by blast
  moreover obtain r4 g4 c l where y: "case_client_test mem (sr_Remote run) (sr_Config run) k d x = ((r4, g4), (c, l))"
    by (metis prod.exhaust)
  moreover obtain r5 g5 where z: "case_client_cleanup mem c l l (r4, g4) = (r5, g5)" by fastforce
  ultimately have "cr_eResult r2 = NATIVE_APP_ALGORITHM_RESULT_PASS \<and> case_shown r2 \<and> cr_eCleanupError r2 = IPSEC_OK \<and>
      cu_bLocalVerified (cr_Cleanup r2)"
    using case_client_verdict [OF run] by blast
  moreover have "cr_Case r2 = k"
    using case_client_case [of mem "sr_Remote run" "sr_Config run" "sr_acRunId run" "sr_uiRequested run" k d "(?r, ?g)"] run
    by simp
  ultimately show ?thesis using 1 ok res by (simp add: passed_case_def case_shown_def stages_verified_def)
qed

text \<open>The rounds of a sweep up to its last case, none of them failed and no stop requested; with the
  results that were written.\<close>

inductive client_passes ::
  "(nat \<Rightarrow> bool) \<Rightarrow> SweepRun \<Rightarrow> nat \<Rightarrow> sweep_state \<Rightarrow> NativeAppAlgorithmCaseResult list \<Rightarrow> sweep_state \<Rightarrow> bool"
  for mem run where
  all_passed: "sr_uiRequested run \<le> i \<Longrightarrow> client_passes mem run i s [] s"
| next_passed: "i < sr_uiRequested run \<Longrightarrow> sweep_stop (snd s) = (False, g) \<Longrightarrow>
    client_case mem run i g = ((r, g1), IPSEC_OK) \<Longrightarrow>
    AppendNativeAppAlgorithmJson r (fst s, g1) = (s1, IPSEC_OK) \<Longrightarrow>
    client_passes mem run (i + 1)
      (if 0 < ao_uiDelayMs (sr_Options run) \<and> i + 1 < sr_uiRequested run
       then (fst s1, SleepNativeAppAlgorithm (ao_uiDelayMs (sr_Options run)) (snd s1)) else s1) rs s' \<Longrightarrow>
    client_passes mem run i s (r # rs) s'"

lemma stop_again: "sweep_stop g = (True, g') \<Longrightarrow> fst (sweep_stop g')"
  by (auto simp: sweep_stop_def IsNativeAppStopRequested_def RequestNativeAppStop_def
      split: prod.splits list.splits os_event.splits)

lemma client_loop_passes:
  "client_loop mem run i x = (s', IPSEC_OK) \<Longrightarrow>
   snd x = IPSEC_OK \<and> ((\<exists>rs. client_passes mem run i (fst x) rs s') \<or> fst (sweep_stop (snd s')))"
proof (induction mem run i x rule: client_loop.induct)
  case (1 mem run i x)
  obtain s e0 where x: "x = (s, e0)" by (cases x)
  obtain b g where st: "sweep_stop (snd s) = (b, g)" by fastforce
  obtain r g1 e1 where c: "client_case mem run i g = ((r, g1), e1)" by (metis prod.exhaust)
  obtain s1 e2 where a: "AppendNativeAppAlgorithmJson r (fst s, g1) = (s1, e2)" by fastforce
  let ?e = "if e2 \<noteq> IPSEC_OK then IPSEC_ERR_FILE_READ else e1"
  have r: "client_round mem run i (fst s, g) = (s1, ?e)" by (simp add: client_round_def c a)
  note IH = 1(1) [OF refl x [symmetric] _ refl st [symmetric] refl _ refl r [symmetric] refl]
  show ?case
  proof (cases "sr_uiRequested run \<le> i")
    case True
    then show ?thesis using 1(2) x by (subst (asm) client_loop.simps) (auto intro: client_passes.intros)
  next
    case False
    show ?thesis
    proof (cases b)
      case True
      then show ?thesis using 1(2) x False stop_again [of "snd s" g]
        by (subst (asm) client_loop.simps) (auto simp: st)
    next
      case go: False
      let ?s = "if 0 < ao_uiDelayMs (sr_Options run) \<and> i + 1 < sr_uiRequested run
        then (fst s1, SleepNativeAppAlgorithm (ao_uiDelayMs (sr_Options run)) (snd s1)) else s1"
      have l: "client_loop mem run i x = (if ?e \<noteq> IPSEC_OK \<and> \<not> ao_bContinueOnError (sr_Options run)
          then (s1, keep_first e0 ?e) else client_loop mem run (i + 1) (?s, keep_first e0 ?e))"
        using False go x by (subst client_loop.simps) (simp add: st r Let_def del: One_nat_def)
      have on: "client_loop mem run (i + 1) (?s, keep_first e0 ?e) = (s', IPSEC_OK)"
      proof (cases "?e \<noteq> IPSEC_OK \<and> \<not> ao_bContinueOnError (sr_Options run)")
        case True
        then have "keep_first e0 ?e = IPSEC_OK" using l 1(2) by simp
        then show ?thesis using True keep_first_ok by blast
      next
        case False
        then show ?thesis using l 1(2) by metis
      qed
      have "\<not> (?e \<noteq> IPSEC_OK \<and> \<not> ao_bContinueOnError (sr_Options run))"
        using l 1(2) keep_first_ok [of e0 ?e] by (metis prod.inject)
      from IH [OF _ _ this on] False go
      have ih: "keep_first e0 ?e = IPSEC_OK" "(\<exists>rs. client_passes mem run (i + 1) ?s rs s') \<or> fst (sweep_stop (snd s'))"
        by simp_all
      then have ok: "e0 = IPSEC_OK" "e1 = IPSEC_OK" "e2 = IPSEC_OK"
        using keep_first_ok [of e0 ?e] by (auto split: if_splits)
      have "client_passes mem run i s (r # rs) s'" if "client_passes mem run (i + 1) ?s rs s'" for rs
        using client_passes.next_passed [of i run s g mem r g1 s1 rs s'] False go st c a ok that by auto
      then show ?thesis using ih(2) ok x by auto
    qed
  qed
qed

definition counted :: "NativeAppAlgorithmJsonWriter \<Rightarrow> nat \<Rightarrow> nat \<Rightarrow> nat \<Rightarrow> bool" where
  "counted p n a b \<longleftrightarrow> jw_uiCaseCount p = n \<and> jw_uiPassed p = a \<and> jw_uiFailed p = b"

lemma append_counted:
  assumes "AppendNativeAppAlgorithmJson r (p, g) = ((p', g'), IPSEC_OK)" and "counted p n n 0" and "n < UINT32_MAX"
    and "cr_eResult r = NATIVE_APP_ALGORITHM_RESULT_PASS"
  shows "counted p' (n + 1) (n + 1) 0"
  using assms
  by (auto simp: AppendNativeAppAlgorithmJson_def counted_def Let_def split: option.splits prod.splits if_splits)

lemma open_counted:
  assumes "OpenNativeAppAlgorithmJson opts i n g = ((p, g'), IPSEC_OK)"
  shows "counted p 0 0 0"
  using assms
  by (auto simp: OpenNativeAppAlgorithmJson_def counted_def zero_writer_def Let_def split: option.splits prod.splits if_splits)

lemma client_passes_results:
  assumes "client_passes mem run i s rs s'" and "i \<le> sr_uiRequested run" and "sr_uiRequested run \<le> UINT32_MAX"
    and "counted (fst s) i i 0"
  shows "length rs = sr_uiRequested run - i \<and> (\<forall>j < length rs. passed_case run (i + j) (rs ! j)) \<and>
    counted (fst s') (sr_uiRequested run) (sr_uiRequested run) 0"
  using assms
proof (induction rule: client_passes.induct)
  case (next_passed i s g r g1 s1 rs s')
  have pass: "passed_case run i r" by (rule client_case_passed [OF next_passed.hyps(3)])
  obtain p' g' where s1: "s1 = (p', g')" by (cases s1)
  have "counted p' (i + 1) (i + 1) 0"
    using append_counted [OF next_passed.hyps(4) [unfolded s1]] next_passed.prems next_passed.hyps(1) pass
    by (simp add: passed_case_def)
  then have "length rs = sr_uiRequested run - (i + 1) \<and> (\<forall>j < length rs. passed_case run (i + 1 + j) (rs ! j)) \<and>
    counted (fst s') (sr_uiRequested run) (sr_uiRequested run) 0"
    using next_passed.IH next_passed.hyps(1) next_passed.prems s1 by simp
  then show ?case using pass next_passed.hyps(1) by (auto simp: less_Suc_eq_0_disj nth_Cons split: nat.split)
qed simp

text \<open>How many cases a sweep has, and the line that announces them.\<close>

definition sweep_size :: "NativeAppAlgorithmOptions \<Rightarrow> nat" where
  "sweep_size opts =
     (let n = GetNativeAppAlgorithmCaseCount (ao_eMode opts) - ao_uiStart opts + 1
      in if ao_uiLimit opts = 0 then n else min (ao_uiLimit opts) n)"

definition announced :: "SweepRun \<Rightarrow> string \<Rightarrow> AlgorithmWorld \<Rightarrow> AlgorithmWorld" where
  "announced run acResultPath =
     ReportNativeAppAlgorithm True ''INFO''
       (''algorithm test: run='' @ cstr (sr_acRunId run) @
        '' mode='' @ GetNativeAppAlgorithmModeName (ao_eMode (sr_Options run)) @
        '' start='' @ dec (ao_uiStart (sr_Options run)) @
        '' cases='' @ dec (sr_uiRequested run) @ '' results='' @ cstr acResultPath)"

lemma case_count_bound: "GetNativeAppAlgorithmCaseCount m < 2 ^ 32"
  by (cases m) (simp_all add: u32_def gaNativeAppBaselineCases_def)

lemma client_prepare_run:
  assumes "client_prepare mem c opts n g = (((run, path, b), (p, g')), IPSEC_OK)"
  shows "sr_Config run = c" and "sr_Options run = opts" and "sr_uiRequested run = n" and "counted p 0 0 0"
  using assms open_counted
  by (auto simp: client_prepare_def Let_def split: prod.splits option.splits if_splits)

lemma client_finish_ok:
  assumes "client_finish mem run (s, e) = (g', IPSEC_OK)"
  shows "e = IPSEC_OK" and "\<not> fst (sweep_stop (snd s))"
  using assms keep_first_ok
  by (auto simp: client_finish_def Let_def split: prod.splits if_splits)

text \<open>What is checked before anything is done.\<close>

definition sweep_allowed :: "NativeAppConfig \<Rightarrow> NativeAppAlgorithmOptions \<Rightarrow> bool" where
  "sweep_allowed c opts \<longleftrightarrow> nc_eRole c = NATIVE_APP_ROLE_INITIATOR \<and>
     ao_uiStart opts \<in> {1..GetNativeAppAlgorithmCaseCount (ao_eMode opts)}"

lemma client_sweep_equation:
  assumes "sweep_allowed c opts"
    and "client_prepare mem c opts (sweep_size opts) (g\<lparr>ag_log := None\<rparr>) = (((run, path, b), (p, g1)), IPSEC_OK)"
  shows "RunNativeAppAlgorithmClient mem c opts g =
    client_finish mem run (client_loop mem run 0 ((p, announced run path g1), IPSEC_OK))"
proof -
  let ?n = "GetNativeAppAlgorithmCaseCount (ao_eMode opts)"
  have n: "sweep_size opts = (if ao_uiLimit opts = 0 then ?n - ao_uiStart opts + 1
      else if ao_uiLimit opts < ?n - ao_uiStart opts + 1 then ao_uiLimit opts else ?n - ao_uiStart opts + 1)"
    by (simp add: sweep_size_def Let_def)
  show ?thesis
    using assms client_prepare_run [OF assms(2)]
    unfolding RunNativeAppAlgorithmClient_def Let_def n [symmetric] sweep_allowed_def by (simp add: announced_def)
qed

lemma client_passes_loop:
  "client_passes mem run i s rs s' \<Longrightarrow> client_loop mem run i (s, IPSEC_OK) = (s', IPSEC_OK)"
proof (induction rule: client_passes.induct)
  case (all_passed i s)
  then show ?case by (simp add: client_loop.simps)
next
  case (next_passed i s g r g1 s1 rs s')
  have "client_round mem run i (fst s, g) = (s1, IPSEC_OK)"
    using next_passed.hyps by (simp add: client_round_def)
  then show ?case using next_passed.hyps(1,2) next_passed.IH
    by (subst client_loop.simps) (simp add: Let_def keep_first_def del: One_nat_def)
qed

lemma client_sweep_back:
  assumes "sweep_allowed c opts"
    and "client_prepare mem c opts (sweep_size opts) (g\<lparr>ag_log := None\<rparr>) = (((run, path, b), (p, g1)), IPSEC_OK)"
    and "client_passes mem run 0 (p, announced run path g1) rs (p', g2)"
    and "client_finish mem run ((p', g2), IPSEC_OK) = (g', IPSEC_OK)"
  shows "RunNativeAppAlgorithmClient mem c opts g = (g', IPSEC_OK)"
  using client_sweep_equation [OF assms(1,2)] client_passes_loop [OF assms(3)] assms(4) by simp

lemma client_sweep:
  assumes "RunNativeAppAlgorithmClient mem c opts g = (g', IPSEC_OK)"
  shows "sweep_allowed c opts \<and>
    (\<exists>run path b p g1 rs p' g2.
       client_prepare mem c opts (sweep_size opts) (g\<lparr>ag_log := None\<rparr>) = (((run, path, b), (p, g1)), IPSEC_OK) \<and>
       client_passes mem run 0 (p, announced run path g1) rs (p', g2) \<and>
       client_finish mem run ((p', g2), IPSEC_OK) = (g', IPSEC_OK) \<and>
       length rs = sweep_size opts \<and> rs \<noteq> [] \<and> (\<forall>i < length rs. passed_case run i (rs ! i)) \<and>
       counted p' (sweep_size opts) (sweep_size opts) 0)"
proof -
  let ?n = "GetNativeAppAlgorithmCaseCount (ao_eMode opts)"
  have ok: "sweep_allowed c opts"
    using assms by (auto simp: RunNativeAppAlgorithmClient_def sweep_allowed_def Let_def split: if_splits)
  obtain run path b p g1 e where 1: "client_prepare mem c opts (sweep_size opts) (g\<lparr>ag_log := None\<rparr>) =
      (((run, path, b), (p, g1)), e)" by (metis prod.exhaust)
  obtain p' g2 e2 where 2: "client_loop mem run 0 ((p, announced run path g1), IPSEC_OK) = ((p', g2), e2)"
    by (metis prod.exhaust)
  have n: "sweep_size opts = (if ao_uiLimit opts = 0 then ?n - ao_uiStart opts + 1
      else if ao_uiLimit opts < ?n - ao_uiStart opts + 1 then ao_uiLimit opts else ?n - ao_uiStart opts + 1)"
    by (simp add: sweep_size_def Let_def)
  have e: "e = IPSEC_OK"
    using assms ok 1 unfolding RunNativeAppAlgorithmClient_def Let_def n [symmetric] sweep_allowed_def
    by (auto split: if_splits)
  note run = client_prepare_run [OF 1 [unfolded e]]
  have fin: "client_finish mem run ((p', g2), e2) = (g', IPSEC_OK)"
    using assms client_sweep_equation [OF ok 1 [unfolded e]] 2 by simp
  note e2 = client_finish_ok [OF fin]
  obtain rs where rs: "client_passes mem run 0 (p, announced run path g1) rs (p', g2)"
    using client_loop_passes [OF 2 [unfolded e2(1)]] e2(2) by auto
  have "0 < sweep_size opts" "sweep_size opts \<le> UINT32_MAX"
    using ok case_count_bound [of "ao_eMode opts"] n by (auto simp: sweep_allowed_def)
  then have res: "length rs = sweep_size opts" "rs \<noteq> []" "\<forall>i < length rs. passed_case run i (rs ! i)"
      "counted p' (sweep_size opts) (sweep_size opts) 0"
    using client_passes_results [OF rs] run by auto
  show ?thesis using 1 [unfolded e] rs res fin [unfolded e2(1)] ok by blast
qed

subsection \<open>A responder without its socket\<close>

text \<open>When nothing can be received any more, the loop over the messages of a case never ends: a receive call
  that fails is neither an end nor counted as time.\<close>

definition dead_case :: "nat \<Rightarrow> nat \<Rightarrow> (ServerCase \<times> AlgorithmWorld) outcome \<Rightarrow> bool" where
  "dead_case t el y \<longleftrightarrow> snd y = IPSEC_OK \<and> el \<le> t \<and> ag_trace (snd (fst y)) = [] \<and>
     app_trace (ag_App (snd (fst y))) = [] \<and> \<not> ap_stop (ag_App (snd (fst y)))"

lemma dead_socket_loops:
  assumes "server_case_loop mem c k d p t el y = Some v"
  shows "\<not> dead_case t el y"
proof (rule server_case_loop.raw_induct [where P = "\<lambda>mem c k d p t el y v. \<not> dead_case t el y", OF _ assms])
  fix loop mem c k d p t el y v
  assume IH: "\<And>mem c k d p t el y v. loop mem c k d p t el y = Some v \<Longrightarrow> \<not> dead_case t el y"
    and e: "(if snd y \<noteq> IPSEC_OK \<or> t < el then Some y
      else
        let (bStop, g) = sweep_stop (snd (fst y)); x = fst (fst y) in
        if bStop then Some ((x, g), IPSEC_OK)
        else
          let (m, eError) = ReceiveNativeAppAlgorithmMessage p g in
          if eError = IPSEC_ERR_VICI_TIMEOUT
          then loop mem c k d p t (el + NATIVE_APP_ALGORITHM_POLL_MS) ((x, snd m), IPSEC_OK)
          else
            case (if eError = IPSEC_ERR_PERMISSION then None
                  else SplitNativeAppAlgorithmMessage (fst (fst m)) 10) of
              None \<Rightarrow> loop mem c k d p t el ((x, snd m), IPSEC_OK)
            | Some pacFields \<Rightarrow>
                if length pacFields < 3 \<or> \<not> strcmp_eq (ac_acId k) (pacFields ! 2)
                then loop mem c k d p t el ((x, snd m), IPSEC_OK)
                else
                  let (y, bBreak) = server_message mem c k d (pacFields ! 1) (snd (fst m)) ((x, snd m), eError)
                  in if bBreak then Some y else loop mem c k d p t el y) = Some v"
  obtain x g q where y: "y = ((x, g), q)" by (metis prod.exhaust)
  show "\<not> dead_case t el y"
  proof (intro notI)
    assume dead: "dead_case t el y"
    have stop: "sweep_stop g = (False, g)"
      using dead y by (simp add: dead_case_def sweep_stop_def IsNativeAppStopRequested_def)
    have rcv: "ReceiveNativeAppAlgorithmMessage p g = ((([], endpoint_of SockOther), g), IPSEC_ERR_INTERNAL)"
      using dead y by (simp add: dead_case_def ReceiveNativeAppAlgorithmMessage_def sweep_next_def)
    have split: "SplitNativeAppAlgorithmMessage [] 10 = None"
      by (simp add: SplitNativeAppAlgorithmMessage_def strtok_fields_def)
    have "loop mem c k d p t el y = Some v" using e dead y by (simp add: dead_case_def stop rcv split)
    then show False using IH dead by blast
  qed
qed

lemma server_case_hangs:
  assumes "ag_trace g = []" and "app_trace (ag_App g) = []" and "\<not> ap_stop (ag_App g)" and "el \<le> t"
  shows "server_case_loop mem c k d p t el ((x, g), IPSEC_OK) = None"
  using dead_socket_loops [of mem c k d p t el "((x, g), IPSEC_OK)"] assms by (simp add: dead_case_def, cases "server_case_loop mem c k d p t el ((x, g), IPSEC_OK)") auto

subsection \<open>Properties\<close>

definition sample_sweep :: AlgorithmWorld where
  "sample_sweep = \<lparr>ag_App = sample_app, ag_trace = [], ag_files = (\<lambda>_. None), ag_open = 0, ag_sent = [],
     ag_made = [], ag_log = None\<rparr>"

text \<open>C31: The verdict on what a query found.  The checks of \<open>QueryNativeAppAlgorithmState\<close> accept exactly when
  the daemon has the connection of the case established and its child installed, both with a proposal
  that fits, the child was negotiated with the expected key exchange and with or without extended
  sequence numbers as expected, and the kernel has a state and a policy with its number.  Then every
  stage is marked as verified; and the checks never turn a result into \<open>PASS\<close>.\<close>

theorem judge_installed_decides:
  assumes "judge_installed c k found r = (r', e)" and "fresh_result r" and "few_entries found"
  shows "(e = IPSEC_OK) = as_expected c k found \<and> (e = IPSEC_OK \<longrightarrow> stages_verified r') \<and>
    (cr_eResult r \<noteq> NATIVE_APP_ALGORITHM_RESULT_PASS \<longrightarrow> cr_eResult r' \<noteq> NATIVE_APP_ALGORITHM_RESULT_PASS)"
  using judge_installed_verdict [OF assms(1,2)] assms(3) by blast

definition sample_case :: NativeAppAlgorithmCase where
  "sample_case = zero_case\<lparr>ac_acExpectedChildKe := ''MODP_2048'', ac_bSeparateChildExchange := True, ac_bExpectEsn := True\<rparr>"

definition sample_found :: installed where
  "sample_found =
     ([zero_ike\<lparr>is_acName := ''vpn'', is_bEstablished := True, is_acProposal := ''AES_CBC''\<rparr>],
      [new_child\<lparr>cs_acName := ''net'', cs_acState := ''INSTALLED'', cs_acProposal := ''AES/MODP_2048'', cs_bEsn := True,
         cs_uiReqid := 7\<rparr>],
      [zero_xfrm_state\<lparr>xs_uiReqid := 7\<rparr>], [zero_xfrm_policy\<lparr>xp_uiReqid := 7\<rparr>])"

definition sample_names :: NativeAppConfig where
  "sample_names = zero_config\<lparr>nc_eRole := NATIVE_APP_ROLE_INITIATOR, nc_acConnectionName := ''vpn'', nc_acChildName := ''net''\<rparr>"

lemma sample_found_expected: "as_expected sample_names sample_case sample_found"
proof -
  have "''AES/MODP_2048'' = ''AES/'' @ ''MODP_2048'' @ []" by simp
  then have "strstr_found ''AES/MODP_2048'' ''MODP_2048''" unfolding strstr_found_def sublist_def by blast
  then show ?thesis
    by (simp add: as_expected_def sample_found_def sample_case_def sample_names_def strcmp_eq_def cstr_def strlen_def
      zero_config_def zero_case_def)
qed

lemma judge_installed_decides_witness:
  "\<exists>r' e. judge_installed sample_names sample_case sample_found zero_case_result = (r', e) \<and> e = IPSEC_OK \<and> stages_verified r'"
proof -
  obtain r' e where j: "judge_installed sample_names sample_case sample_found zero_case_result = (r', e)" by fastforce
  have "fresh_result zero_case_result" by (simp add: fresh_result_def zero_case_result_def)
  moreover have "few_entries sample_found" by (simp add: few_entries_def sample_found_def)
  ultimately show ?thesis using judge_installed_decides [OF j] sample_found_expected j by blast
qed






definition sample_options :: NativeAppAlgorithmOptions where
  "sample_options = \<lparr>ao_eMode = NATIVE_APP_ALGORITHM_BASELINE, ao_uiStart = 1, ao_uiLimit = 3, ao_uiPort = 0,
     ao_uiDelayMs = 0, ao_pcResultsPath = None, ao_pcCustomIke = None, ao_pcCustomEsp = None, ao_bContinueOnError = True\<rparr>"




end
