(* ===== verification/AppAgreement.thy ===== *)
theory AppAgreement
  imports AppRunner
begin

section \<open>What the two sides of a sweep agree on\<close>

text \<open>
  The name of a run, which the responder accepts and from which it learns the mode; the request to
  prepare a case, from which the responder makes the case of the initiator again.
\<close>

subsection \<open>The fields of a message\<close>

definition field_text :: "string \<Rightarrow> bool" where
  "field_text t \<longleftrightarrow> t \<noteq> [] \<and> CHR 0x7C \<notin> set t \<and> NUL \<notin> set t"

lemma split_fields: "ts \<noteq> [] \<Longrightarrow> list_all field_text ts \<Longrightarrow> split_on (CHR 0x7C) (join_with ''|'' ts) = ts"
proof (induction "''|''" ts rule: join_with.induct)
  case (2 t)
  then show ?case by (simp add: field_text_def split_on_token)
next
  case (3 t u ts)
  then have "CHR 0x7C \<notin> set t" by (simp add: field_text_def)
  with 3 show ?case using split_on_sep [of "CHR 0x7C" t "join_with ''|'' (u # ts)"] by simp
qed simp

lemma join_fields_no_NUL: "list_all field_text ts \<Longrightarrow> NUL \<notin> set (join_with ''|'' ts)"
  by (induction "''|''" ts rule: join_with.induct) (auto simp: field_text_def)

lemma strtok_join:
  assumes "ts \<noteq> []" and "list_all field_text ts"
  shows "strtok_fields (join_with ''|'' ts) = ts"
  using assms split_fields [OF assms] join_fields_no_NUL [OF assms(2)]
  by (simp add: strtok_fields_def cstr_id field_text_def list_all_iff filter_id_conv)

lemma dec_field: "field_text (dec n)"
proof -
  have "isdigit c \<Longrightarrow> c \<noteq> CHR 0x7C" for c by (auto simp: isdigit_def)
  then show ?thesis using dec_isdigit [of n] dec_no_NUL [of n] by (auto simp: field_text_def)
qed

subsection \<open>Numbers\<close>

lemma uint32_loop_append:
  "uint32_loop a (xs @ ys) = (case uint32_loop a xs of None \<Rightarrow> None | Some v \<Rightarrow> uint32_loop v ys)"
  by (induction a xs rule: uint32_loop.induct) (simp_all add: Let_def)

lemma uint32_loop_digit:
  assumes "d < 10" and "v * 10 + d \<le> UINT32_MAX"
  shows "uint32_loop v [char_of (48 + d)] = Some (v * 10 + d)"
  using assms isdigit_dec_digit [OF assms(1)] of_char_dec_digit [OF assms(1)] by (simp add: Let_def u64_def)

lemma uint32_loop_dec: "n \<le> UINT32_MAX \<Longrightarrow> uint32_loop 0 (dec n) = Some n"
proof (induction n rule: dec.induct)
  case (1 n)
  show ?case
  proof (cases "n < 10")
    case True
    then show ?thesis using uint32_loop_digit [of n 0] 1 by (simp add: dec.simps [of n])
  next
    case False
    then have "uint32_loop 0 (dec (n div 10)) = Some (n div 10)" using 1 by simp
    then show ?thesis using uint32_loop_digit [of "n mod 10" "n div 10"] 1 False
      by (simp add: dec.simps [of n] uint32_loop_append)
  qed
qed

lemma ParseNativeAppAlgorithmUint32_dec: "n \<le> UINT32_MAX \<Longrightarrow> ParseNativeAppAlgorithmUint32 (dec n) = Some n"
  using uint32_loop_dec dec_no_NUL [of n] by (simp add: ParseNativeAppAlgorithmUint32_def cstr_id)

subsection \<open>Cases\<close>

definition well_case :: "NativeAppAlgorithmCase \<Rightarrow> bool" where
  "well_case k \<longleftrightarrow> length (ac_acId k) = NATIVE_APP_ALGORITHM_CASE_ID_LENGTH \<and>
     length (ac_acIkeProposal k) = IPSEC_PROPOSAL_LENGTH \<and> length (ac_acEspProposal k) = IPSEC_PROPOSAL_LENGTH \<and>
     length (ac_acExpectedChildKe k) = IPSEC_ALGORITHM_LENGTH \<and>
     strlen (ac_acId k) < NATIVE_APP_ALGORITHM_CASE_ID_LENGTH \<and> strlen (ac_acIkeProposal k) < IPSEC_PROPOSAL_LENGTH \<and>
     strlen (ac_acEspProposal k) < IPSEC_PROPOSAL_LENGTH \<and> ac_uiNumber k \<le> UINT32_MAX"

lemma snprintf_text:
  assumes "snprintf_to buf t = (buf', b)" and "1 < length buf"
  shows "length buf' = length buf" and "strlen buf' < length buf"
proof -
  have b: "buf' = take (length buf - 1) t @ NUL # drop (length (take (length buf - 1) t) + 1) buf"
    using assms by (auto simp: snprintf_to_def buf_write_def)
  show "length buf' = length buf" using b assms(2) by simp
  have "strlen buf' = length (cstr (take (length buf - 1) t))" by (simp add: b strlen_def)
  also have "\<dots> \<le> length buf - 1" using length_cstr_le [of "take (length buf - 1) t"] by simp
  finally show "strlen buf' < length buf" using assms(2) by simp
qed

lemma zero_case_well: "n \<le> UINT32_MAX \<Longrightarrow> well_case (zero_case\<lparr>ac_uiNumber := n\<rparr>)"
  by (simp add: well_case_def zero_case_def strlen_def cstr_def)

lemma case_text_well:
  assumes "well_case k"
  shows "well_case (fst (case_id t k))" and "well_case (fst (case_ike t k))" and "well_case (fst (case_esp t k))"
proof -
  obtain b1 f1 where 1: "snprintf_to (ac_acId k) t = (b1, f1)" by fastforce
  obtain b2 f2 where 2: "snprintf_to (ac_acIkeProposal k) t = (b2, f2)" by fastforce
  obtain b3 f3 where 3: "snprintf_to (ac_acEspProposal k) t = (b3, f3)" by fastforce
  show "well_case (fst (case_id t k))" using assms snprintf_text [OF 1] by (simp add: well_case_def case_id_def 1)
  show "well_case (fst (case_ike t k))" using assms snprintf_text [OF 2] by (simp add: well_case_def case_ike_def 2)
  show "well_case (fst (case_esp t k))" using assms snprintf_text [OF 3] by (simp add: well_case_def case_esp_def 3)
qed

text \<open>A case of any mode is one whose texts were written and whose expectations then follow from its ESP
  proposal.\<close>

lemma and_then_cases: "and_then x g = (k', IPSEC_OK) \<Longrightarrow> g (fst x) = (k', IPSEC_OK)"
  by (auto simp: and_then_def split: prod.splits if_splits)

lemma last_step: "run_steps [f] k = f k"
  by (cases "f k") (simp add: and_then_def)

lemma run_steps_return: "run_steps (fs @ [\<lambda>k. (k, IPSEC_OK)]) k = run_steps fs k"
proof (induction fs arbitrary: k)
  case (Cons f fs)
  then show ?case by (cases "f k") (simp add: and_then_def)
qed (simp add: and_then_def)

lemma three_texts:
  assumes "run_steps [f, g, h, l] k = (k', IPSEC_OK)" and "well_case k"
    and "\<And>k. well_case k \<Longrightarrow> well_case (fst (f k))" and "\<And>k. well_case k \<Longrightarrow> well_case (fst (g k))"
    and "\<And>k. well_case k \<Longrightarrow> well_case (fst (h k))"
  shows "\<exists>k0. well_case k0 \<and> l k0 = (k', IPSEC_OK)"
proof -
  have "and_then (f k) (run_steps [g, h, l]) = (k', IPSEC_OK)" using assms(1) by simp
  from and_then_cases [OF this] have "and_then (g (fst (f k))) (run_steps [h, l]) = (k', IPSEC_OK)" by simp
  from and_then_cases [OF this] have "and_then (h (fst (g (fst (f k))))) (run_steps [l]) = (k', IPSEC_OK)" by simp
  from and_then_cases [OF this] have "l (fst (h (fst (g (fst (f k)))))) = (k', IPSEC_OK)" by (simp only: last_step)
  then show ?thesis using assms(2-5) by blast
qed

lemma set_expected_holds:
  assumes "SetNativeAppExpectedChildKe k = (k', IPSEC_OK)" and "well_case k"
  shows "case_holds (ac_uiNumber k') (cstr (ac_acId k')) (cstr (ac_acIkeProposal k')) (cstr (ac_acEspProposal k')) (k', IPSEC_OK)"
    and "strlen (ac_acId k') < NATIVE_APP_ALGORITHM_CASE_ID_LENGTH" and "strlen (ac_acIkeProposal k') < IPSEC_PROPOSAL_LENGTH"
    and "strlen (ac_acEspProposal k') < IPSEC_PROPOSAL_LENGTH" and "ac_uiNumber k' \<le> UINT32_MAX"
proof -
  have "length (ac_acExpectedChildKe k) = IPSEC_ALGORITHM_LENGTH" using assms(2) by (simp add: well_case_def)
  note props = SetNativeAppExpectedChildKe_props [OF this assms(1)]
  show "case_holds (ac_uiNumber k') (cstr (ac_acId k')) (cstr (ac_acIkeProposal k')) (cstr (ac_acEspProposal k')) (k', IPSEC_OK)"
    using props by (simp add: case_holds_def)
  show "strlen (ac_acId k') < NATIVE_APP_ALGORITHM_CASE_ID_LENGTH" "strlen (ac_acIkeProposal k') < IPSEC_PROPOSAL_LENGTH"
    "strlen (ac_acEspProposal k') < IPSEC_PROPOSAL_LENGTH" "ac_uiNumber k' \<le> UINT32_MAX"
    using props assms(2) by (simp_all add: well_case_def)
qed

lemma catalog_last_step:
  assumes "GetNativeAppAlgorithmCase m i (Some b) u v c = (k, IPSEC_OK)"
  shows "\<exists>k0. well_case k0 \<and> SetNativeAppExpectedChildKe k0 = (k, IPSEC_OK)"
proof -
  let ?z = "zero_case\<lparr>ac_uiNumber := u32 (i + 1)\<rparr>"
  have z: "well_case ?z" by (intro zero_case_well) (simp add: u32_def)
  have count: "i < GetNativeAppAlgorithmCaseCount m" using assms by (auto simp: GetNativeAppAlgorithmCase_def split: if_splits)
  note wells = case_text_well
  show ?thesis
  proof (cases m)
    case NATIVE_APP_ALGORITHM_BASELINE
    have "\<exists>k0. well_case k0 \<and> SetNativeAppExpectedChildKe (k0\<lparr>ac_bSeparateChildExchange := x\<rparr>) = (k, IPSEC_OK)"
      if "run_steps [case_id s, case_ike t, case_esp w, \<lambda>c. SetNativeAppExpectedChildKe (c\<lparr>ac_bSeparateChildExchange := x\<rparr>)] ?z =
        (k, IPSEC_OK)" for s t w x
      using three_texts [OF that z] wells by blast
    note last = this
    let ?s = "gaNativeAppBaselineCases ! i"
    have "run_steps [case_id (bc_pcId ?s), case_ike (bc_pcIkeProposal ?s), case_esp (bc_pcEspProposal ?s),
        \<lambda>c. SetNativeAppExpectedChildKe (c\<lparr>ac_bSeparateChildExchange := bc_bSeparateChildExchange ?s\<rparr>)] ?z = (k, IPSEC_OK)"
      using assms count NATIVE_APP_ALGORITHM_BASELINE
      by (simp add: GetNativeAppAlgorithmCase_def GetNativeAppBaselineCase_def Let_def del: run_steps.simps)
    from last [OF this] obtain k0 where "well_case k0"
      "SetNativeAppExpectedChildKe (k0\<lparr>ac_bSeparateChildExchange := bc_bSeparateChildExchange ?s\<rparr>) = (k, IPSEC_OK)" by blast
    moreover have "well_case (k0\<lparr>ac_bSeparateChildExchange := bc_bSeparateChildExchange ?s\<rparr>)"
      using \<open>well_case k0\<close> by (simp add: well_case_def)
    ultimately show ?thesis by blast
  next
    case NATIVE_APP_ALGORITHM_EXHAUSTIVE_IKE
    then show ?thesis using assms count three_texts [OF _ z, of _ _ _ SetNativeAppExpectedChildKe k] wells
      by (simp add: GetNativeAppAlgorithmCase_def GetNativeAppExhaustiveIkeCase_def Let_def
        del: run_steps.simps GetNativeAppAlgorithmCaseCount.simps)
  next
    case NATIVE_APP_ALGORITHM_EXHAUSTIVE_ESP
    then show ?thesis using assms count three_texts [OF _ z, of _ _ _ SetNativeAppExpectedChildKe k] wells
      by (simp add: GetNativeAppAlgorithmCase_def GetNativeAppExhaustiveEspCase_def Let_def
        del: run_steps.simps GetNativeAppAlgorithmCaseCount.simps)
  next
    case NATIVE_APP_ALGORITHM_CUSTOM
    then obtain s t where st: "u = Some s" "v = Some t"
      using assms count by (auto simp: GetNativeAppAlgorithmCase_def Let_def split: option.splits)
    obtain k0 e where 0: "run_steps [case_id ''CUSTOM-0001'', case_ike (cstr s), case_esp (cstr t)] ?z = (k0, e)" by fastforce
    have "e = IPSEC_OK" and l: "SetNativeAppExpectedChildKe k0 = (k, IPSEC_OK)"
      using assms count NATIVE_APP_ALGORITHM_CUSTOM st 0
      by (auto simp: GetNativeAppAlgorithmCase_def Let_def simp del: run_steps.simps split: if_splits)
    then have "run_steps [case_id ''CUSTOM-0001'', case_ike (cstr s), case_esp (cstr t), \<lambda>c. (c, IPSEC_OK)] ?z = (k0, IPSEC_OK)"
      using 0 run_steps_return [of "[case_id ''CUSTOM-0001'', case_ike (cstr s), case_esp (cstr t)]" ?z]
      by (simp del: run_steps.simps)
    from three_texts [OF this z] wells have "well_case k0" by auto
    then show ?thesis using l by blast
  qed
qed

text \<open>What makes two cases the same to everything that reads them.\<close>

definition same_case :: "NativeAppAlgorithmCase \<Rightarrow> NativeAppAlgorithmCase \<Rightarrow> bool" where
  "same_case a b \<longleftrightarrow> ac_uiNumber a = ac_uiNumber b \<and> cstr (ac_acId a) = cstr (ac_acId b) \<and>
     cstr (ac_acIkeProposal a) = cstr (ac_acIkeProposal b) \<and> cstr (ac_acEspProposal a) = cstr (ac_acEspProposal b) \<and>
     cstr (ac_acExpectedChildKe a) = cstr (ac_acExpectedChildKe b) \<and>
     ac_bSeparateChildExchange a = ac_bSeparateChildExchange b \<and> ac_bExpectEsn a = ac_bExpectEsn b \<and>
     ac_bExpectNoEsn a = ac_bExpectNoEsn b"

lemma catalog_case:
  assumes "GetNativeAppAlgorithmCase m i (Some b) u v c = (k, IPSEC_OK)"
  shows "case_holds (ac_uiNumber k) (cstr (ac_acId k)) (cstr (ac_acIkeProposal k)) (cstr (ac_acEspProposal k)) (k, IPSEC_OK)"
    and "strlen (ac_acId k) < NATIVE_APP_ALGORITHM_CASE_ID_LENGTH" and "strlen (ac_acIkeProposal k) < IPSEC_PROPOSAL_LENGTH"
    and "strlen (ac_acEspProposal k) < IPSEC_PROPOSAL_LENGTH" and "ac_uiNumber k \<le> UINT32_MAX"
  using catalog_last_step [OF assms] set_expected_holds by blast+

lemma catalog_id_length:
  assumes "GetNativeAppAlgorithmCase m i (Some b) u v c = (k, IPSEC_OK)"
  shows "length (ac_acId k) = NATIVE_APP_ALGORITHM_CASE_ID_LENGTH"
proof -
  obtain k0 where k0: "well_case k0" "SetNativeAppExpectedChildKe k0 = (k, IPSEC_OK)" using catalog_last_step [OF assms] by blast
  then have "length (ac_acExpectedChildKe k0) = IPSEC_ALGORITHM_LENGTH" by (simp add: well_case_def)
  from SetNativeAppExpectedChildKe_props(8) [OF this k0(2)] show ?thesis using k0(1) by (simp add: well_case_def)
qed

lemma copy_fits:
  assumes "length t < length b" and "NUL \<notin> set t"
  shows "CopyNativeAppAlgorithmValue b t = (buf_write b 0 (t @ [NUL]), IPSEC_OK)"
  using assms by (auto simp: CopyNativeAppAlgorithmValue_def cstr_id snprintf_to_fits)

lemma custom_case:
  assumes "NUL \<notin> set p \<and> NUL \<notin> set q" and "length p < IPSEC_PROPOSAL_LENGTH" and "length q < IPSEC_PROPOSAL_LENGTH"
    and "cstr s = p" and "cstr t = q"
  shows "case_holds 1 ''CUSTOM-0001'' p q (GetNativeAppAlgorithmCase NATIVE_APP_ALGORITHM_CUSTOM 0 (Some b) (Some s) (Some t) z)"
proof -
  let ?z = "zero_case\<lparr>ac_uiNumber := 1\<rparr>"
  let ?c = "?z\<lparr>ac_acId := buf_write (ac_acId ?z) 0 (''CUSTOM-0001'' @ [NUL]),
      ac_acIkeProposal := buf_write (ac_acIkeProposal ?z) 0 (p @ [NUL]),
      ac_acEspProposal := buf_write (ac_acEspProposal ?z) 0 (q @ [NUL])\<rparr>"
  have "case_holds 1 ''CUSTOM-0001'' p q (SetNativeAppExpectedChildKe ?c)"
    by (rule case_holds_intro; use assms(1) in \<open>simp add: zero_case_def\<close>)
  moreover have "GetNativeAppAlgorithmCase NATIVE_APP_ALGORITHM_CUSTOM 0 (Some b) (Some s) (Some t) z = SetNativeAppExpectedChildKe ?c"
    using assms(2-5)
    by (simp add: GetNativeAppAlgorithmCase_def case_id_def case_ike_def case_esp_def snprintf_to_fits zero_case_def and_then_def)
  ultimately show ?thesis by simp
qed

lemma derive_holds:
  assumes "fs ! 2 = i" and "fs ! 3 = p" and "fs ! 4 = q" and "NUL \<notin> set i \<and> NUL \<notin> set p \<and> NUL \<notin> set q"
    and "length i < NATIVE_APP_ALGORITHM_CASE_ID_LENGTH" and "length p < IPSEC_PROPOSAL_LENGTH" and "length q < IPSEC_PROPOSAL_LENGTH"
  shows "case_holds n i p q (server_derive_case c n fs)"
proof -
  let ?bi = "buf_write (ac_acId zero_case) 0 (i @ [NUL])" and ?bp = "buf_write (ac_acIkeProposal zero_case) 0 (p @ [NUL])"
    and ?bq = "buf_write (ac_acEspProposal zero_case) 0 (q @ [NUL])"
  have c: "CopyNativeAppAlgorithmValue (ac_acId zero_case) i = (?bi, IPSEC_OK)"
    "CopyNativeAppAlgorithmValue (ac_acIkeProposal zero_case) p = (?bp, IPSEC_OK)"
    "CopyNativeAppAlgorithmValue (ac_acEspProposal zero_case) q = (?bq, IPSEC_OK)"
    using assms(4-7) by (simp_all add: copy_fits zero_case_def)
  have texts: "cstr ?bi = i" "cstr ?bp = p" "cstr ?bq = q" using assms(4) by (simp_all add: cstr_fits)
  obtain k e where k: "GetNativeAppAlgorithmCase NATIVE_APP_ALGORITHM_CUSTOM 0 (Some c) (Some ?bp) (Some ?bq) zero_case = (k, e)"
    by fastforce
  have h: "case_holds 1 ''CUSTOM-0001'' p q (k, e)"
    unfolding k [symmetric] using assms(4,6,7) texts by (intro custom_case) simp_all
  then have derived: "GetNativeAppAlgorithmCase NATIVE_APP_ALGORITHM_CUSTOM 0 (Some c) (Some ?bp) (Some ?bq) zero_case = (k, IPSEC_OK)"
    using k by (simp add: case_holds_def)
  have id: "length (ac_acId k) = 64" by (rule catalog_id_length [OF derived])
  have copied: "CopyNativeAppAlgorithmValue (ac_acId k) ?bi = (buf_write (ac_acId k) 0 (i @ [NUL]), IPSEC_OK)"
    using id texts(1) assms(5) by (auto simp: CopyNativeAppAlgorithmValue_def snprintf_to_fits)
  have "server_derive_case c n fs = (k\<lparr>ac_acId := buf_write (ac_acId k) 0 (i @ [NUL]), ac_uiNumber := n\<rparr>, IPSEC_OK)"
    using assms(1-3) by (simp add: server_derive_case_def Let_def c derived copied)
  then show ?thesis using h assms(4) by (simp add: case_holds_def cstr_fits)
qed

subsection \<open>The request to prepare a case\<close>

lemma prepare_fields:
  assumes "field_text (cstr (ac_acId k))" and "field_text (cstr (ac_acIkeProposal k))"
    and "field_text (cstr (ac_acEspProposal k))" and "field_text (cstr q)"
  shows "SplitNativeAppAlgorithmMessage (prepare_text k q n) 8 =
    Some [NATIVE_APP_ALGORITHM_PROTOCOL, ''PREPARE'', cstr (ac_acId k), cstr (ac_acIkeProposal k), cstr (ac_acEspProposal k),
      cstr q, dec (ac_uiNumber k), dec n]"
proof -
  have "field_text NATIVE_APP_ALGORITHM_PROTOCOL" "field_text ''PREPARE''"
    by (simp_all add: field_text_def NATIVE_APP_ALGORITHM_PROTOCOL_def)
  then have "strtok_fields (prepare_text k q n) =
      [NATIVE_APP_ALGORITHM_PROTOCOL, ''PREPARE'', cstr (ac_acId k), cstr (ac_acIkeProposal k), cstr (ac_acEspProposal k),
      cstr q, dec (ac_uiNumber k), dec n]"
    using assms dec_field unfolding prepare_text_def by (intro strtok_join) simp_all
  then show ?thesis by (simp add: SplitNativeAppAlgorithmMessage_def)
qed

lemma valid_run_field:
  assumes "IsNativeAppAlgorithmRunIdValid q"
  shows "field_text (cstr q)"
proof -
  have "cstr q \<noteq> []" "list_all run_id_char (cstr q)"
    using assms by (auto simp: IsNativeAppAlgorithmRunIdValid_def Let_def strnlen_min strlen_def split: if_splits)
  moreover have "\<not> run_id_char (CHR 0x7C)" by (simp add: run_id_char_def isalpha_def isdigit_def)
  ultimately show ?thesis using cstr_no_NUL [of q] by (auto simp: field_text_def list_all_iff)
qed

text \<open>What a responder does with the request when the run is in progress.\<close>

lemma server_request_prepared:
  assumes "GetNativeAppAlgorithmCase m i (Some b) u v z = (k, IPSEC_OK)"
    and "SplitNativeAppAlgorithmMessage (prepare_text k q n) 8 = Some fs"
    and "field_text (cstr (ac_acId k))" and "field_text (cstr (ac_acIkeProposal k))"
    and "field_text (cstr (ac_acEspProposal k))" and "IsNativeAppAlgorithmRunIdValid q"
    and "0 < n" and "n \<le> UINT32_MAX" and "0 < ac_uiNumber k"
    and "sv_acRunId w ! 0 \<noteq> NUL" and "strcmp_eq (sv_acRunId w) q"
  shows "\<exists>k'. same_case k' k \<and> server_request mem c pPeer Sender fs (w, g) =
    map_option (\<lambda>y. (server_case_failed y, False))
      (server_run_case mem c pPeer Sender k' (w\<lparr>sv_uiRunRequested := n\<rparr>, g))"
proof -
  note cat = catalog_case [OF assms(1)]
  have q: "field_text (cstr q)" by (rule valid_run_field [OF assms(6)])
  have fs: "fs = [NATIVE_APP_ALGORITHM_PROTOCOL, ''PREPARE'', cstr (ac_acId k), cstr (ac_acIkeProposal k), cstr (ac_acEspProposal k),
      cstr q, dec (ac_uiNumber k), dec n]"
    using prepare_fields [OF assms(3-5) q] assms(2) by simp
  obtain k' e where k': "server_derive_case c (ac_uiNumber k) fs = (k', e)" by fastforce
  have nul: "NUL \<notin> set (cstr t)" for t using cstr_no_NUL .
  have "case_holds (ac_uiNumber k) (cstr (ac_acId k)) (cstr (ac_acIkeProposal k)) (cstr (ac_acEspProposal k)) (k', e)"
    unfolding k' [symmetric] using cat(2-4) nul by (intro derive_holds) (simp_all add: fs strlen_def)
  then have holds: "e = IPSEC_OK" "same_case k' k" using cat(1) by (simp_all add: case_holds_def same_case_def)
  have valid: "IsNativeAppAlgorithmRunIdValid (cstr q)"
    using assms(6) by (auto simp: IsNativeAppAlgorithmRunIdValid_def strnlen_min strlen_def Let_def split: if_splits)
  have "server_request mem c pPeer Sender fs (w, g) =
    map_option (\<lambda>y. (server_case_failed y, False))
      (server_run_case mem c pPeer Sender k' (w\<lparr>sv_uiRunRequested := n\<rparr>, g))"
    using assms(7-11) cat(5) k' holds(1) valid ParseNativeAppAlgorithmUint32_dec
    by (simp add: server_request_def fs strcmp_eq_def Let_def)
  then show ?thesis using holds(2) by blast
qed

subsection \<open>The name of a run\<close>

lemma digits_run_char: "list_all run_id_char (dec n)" "list_all run_id_char (dec_pad k n)"
proof -
  show d: "list_all run_id_char (dec n)" using dec_isdigit [of n] by (auto simp: run_id_char_def list_all_iff)
  have "run_id_char (CHR ''0'')" by (simp add: run_id_char_def isdigit_def)
  then show "list_all run_id_char (dec_pad k n)" using d by (auto simp: dec_pad_def list_all_iff)
qed

lemma mode_name_chars: "list_all run_id_char (GetNativeAppAlgorithmModeName m @ ''_'')"
  by (cases m) (simp_all add: run_id_char_def isalpha_def isdigit_def)

lemma run_time_chars: "list_all run_id_char (run_time y mo d h mi s)"
  using digits_run_char by (simp add: run_time_def run_id_char_def)

lemma run_chars_NUL: "list_all run_id_char t \<Longrightarrow> NUL \<notin> set t"
  by (auto simp: list_all_iff run_id_char_def isalpha_def isdigit_def)

lemma has_prefix_mode:
  assumes "cstr t = GetNativeAppAlgorithmModeName m @ ''_'' @ u"
  shows "GetNativeAppAlgorithmRunMode t = m"
  using assms by (cases m) (simp_all add: GetNativeAppAlgorithmRunMode_def has_prefix_def)

lemma run_id_text:
  assumes "CreateNativeAppAlgorithmRunId m (replicate NATIVE_APP_ALGORITHM_RUN_ID_LENGTH NUL) g = ((i, g'), IPSEC_OK)"
  shows "\<exists>u. cstr i = GetNativeAppAlgorithmModeName m @ ''_'' @ u \<and> list_all run_id_char (cstr i) \<and>
    strlen i < NATIVE_APP_ALGORITHM_RUN_ID_LENGTH"
proof -
  obtain stamp g1 where 1: "sys_local_time run_time g = (Some stamp, g1)"
    using assms by (auto simp: CreateNativeAppAlgorithmRunId_def Let_def split: prod.splits option.splits)
  obtain pid g2 where 2: "sys_pid g1 = (pid, g2)" by fastforce
  have stamp: "list_all run_id_char stamp"
    using 1 run_time_chars
    by (auto simp: sys_local_time_def Let_def split: prod.splits option.splits sweep_event.splits if_splits)
  let ?t = "GetNativeAppAlgorithmModeName m @ ''_'' @ stamp @ ''_'' @ dec pid"
  have t: "list_all run_id_char ?t"
    using stamp digits_run_char(1) [of pid] mode_name_chars [of m] by (simp add: run_id_char_def)
  have fits: "length ?t < NATIVE_APP_ALGORITHM_RUN_ID_LENGTH" and i: "i = buf_write (replicate NATIVE_APP_ALGORITHM_RUN_ID_LENGTH NUL) 0 (?t @ [NUL])"
    using assms by (auto simp: CreateNativeAppAlgorithmRunId_def 1 2 Let_def snprintf_to_def split: if_splits)
  have "cstr i = ?t" using cstr_fits [OF run_chars_NUL [OF t]] i by simp
  then show ?thesis using t fits by (simp add: strlen_def)
qed

text \<open>The name that the initiator makes for a run is one that the responder accepts: it is not empty, fits the
  array and has only letters, digits, underscores and hyphens, whatever the clock and the process
  number are, so it also never breaks the fields of a message; and the responder reads the mode of the
  sweep back from it.\<close>

theorem CreateNativeAppAlgorithmRunId_accepted:
  assumes "CreateNativeAppAlgorithmRunId m (replicate NATIVE_APP_ALGORITHM_RUN_ID_LENGTH NUL) g = ((i, g'), IPSEC_OK)"
  shows "IsNativeAppAlgorithmRunIdValid i \<and> GetNativeAppAlgorithmRunMode i = m \<and> \<not> has_separator i"
proof -
  obtain u where u: "cstr i = GetNativeAppAlgorithmModeName m @ ''_'' @ u" "list_all run_id_char (cstr i)"
    "strlen i < NATIVE_APP_ALGORITHM_RUN_ID_LENGTH"
    using run_id_text [OF assms] by blast
  have "IsNativeAppAlgorithmRunIdValid i"
    using u by (auto simp: IsNativeAppAlgorithmRunIdValid_def strnlen_min strlen_def Let_def)
  moreover have "\<not> run_id_char (CHR 0x7C)" "\<not> run_id_char (CHR 0x0D)" "\<not> run_id_char newline"
    by (simp_all add: run_id_char_def isalpha_def isdigit_def)
  then have "\<not> has_separator i" using u(2) by (auto simp: has_separator_def list_all_iff list_ex_iff)
  ultimately show ?thesis using has_prefix_mode [OF u(1)] by blast
qed

definition clock_sweep :: AlgorithmWorld where
  "clock_sweep = \<lparr>ag_App = sample_app, ag_trace = [LocalTime 2024 5 17 9 30 0, SweepPid 4711], ag_files = (\<lambda>_. None),
     ag_open = 0, ag_sent = [], ag_made = [], ag_log = None\<rparr>"

lemma CreateNativeAppAlgorithmRunId_accepted_witness:
  "\<exists>i g'. CreateNativeAppAlgorithmRunId NATIVE_APP_ALGORITHM_EXHAUSTIVE_ESP
      (replicate NATIVE_APP_ALGORITHM_RUN_ID_LENGTH NUL) clock_sweep = ((i, g'), IPSEC_OK) \<and>
     IsNativeAppAlgorithmRunIdValid i \<and> GetNativeAppAlgorithmRunMode i = NATIVE_APP_ALGORITHM_EXHAUSTIVE_ESP"
proof -
  obtain i g' e where c: "CreateNativeAppAlgorithmRunId NATIVE_APP_ALGORITHM_EXHAUSTIVE_ESP
      (replicate NATIVE_APP_ALGORITHM_RUN_ID_LENGTH NUL) clock_sweep = ((i, g'), e)" by (metis prod.exhaust)
  have "length (dec (2024::nat)) \<le> 4" "length (dec (4711::nat)) \<le> 4" using length_dec [of _ 4] by simp_all
  moreover have "length (dec_pad 2 k) \<le> 2" if "k < 100" for k using length_dec [of k 2] that by (simp add: dec_pad_def)
  then have "length (dec_pad 2 5) \<le> 2" "length (dec_pad 2 17) \<le> 2" "length (dec_pad 2 9) \<le> 2" "length (dec_pad 2 30) \<le> 2"
    "length (dec_pad 2 0) \<le> 2" by simp_all
  ultimately have "e = IPSEC_OK"
    using c by (simp add: CreateNativeAppAlgorithmRunId_def clock_sweep_def sys_local_time_def sys_pid_def sweep_next_def
      run_time_def snprintf_to_def)
  then show ?thesis using CreateNativeAppAlgorithmRunId_accepted c by blast
qed

text \<open>C33: The two sides of a sweep test the same case.  For a case of any mode of the catalogue, the responder
  splits the request to prepare it into its eight fields and, when the run is in progress, goes on with
  a case of the same number and texts and with the same expectations about key exchange and extended
  sequence numbers, which it derives from the proposals alone; the size of the run is that of the
  request.\<close>

theorem prepared_case_agrees:
  assumes "GetNativeAppAlgorithmCase m i (Some b) u v zero_case = (k, IPSEC_OK)" and "0 < ac_uiNumber k"
    and "field_text (cstr (ac_acId k))" and "field_text (cstr (ac_acIkeProposal k))"
    and "field_text (cstr (ac_acEspProposal k))" and "IsNativeAppAlgorithmRunIdValid q"
    and "0 < n" and "n \<le> UINT32_MAX" and "sv_acRunId w ! 0 \<noteq> NUL" and "strcmp_eq (sv_acRunId w) q"
  shows "\<exists>fs k'. SplitNativeAppAlgorithmMessage (prepare_text k q n) 8 = Some fs \<and> length fs = 8 \<and> same_case k' k \<and>
    server_request mem c pPeer Sender fs (w, g) =
      map_option (\<lambda>y. (server_case_failed y, False))
        (server_run_case mem c pPeer Sender k' (w\<lparr>sv_uiRunRequested := n\<rparr>, g))"
proof -
  have q: "field_text (cstr q)" by (rule valid_run_field [OF assms(6)])
  obtain fs where fs: "SplitNativeAppAlgorithmMessage (prepare_text k q n) 8 = Some fs" "length fs = 8"
    using prepare_fields [OF assms(3-5) q, of n] by simp
  then show ?thesis using server_request_prepared [OF assms(1) fs(1) assms(3-8) assms(2) assms(9,10), of mem c pPeer Sender g]
    by blast
qed

lemma prepared_case_agrees_witness:
  "\<exists>k fs k'. GetNativeAppAlgorithmCase NATIVE_APP_ALGORITHM_CUSTOM 0 (Some zero_config) (Some ''aes128-sha256-modp2048'')
      (Some ''aes128-sha256-modp2048-esn'') zero_case = (k, IPSEC_OK) \<and>
    SplitNativeAppAlgorithmMessage (prepare_text k ''custom_1'' 1) 8 = Some fs \<and> length fs = 8 \<and> same_case k' k"
proof -
  let ?p = "''aes128-sha256-modp2048''" and ?q = "''aes128-sha256-modp2048-esn''"
  obtain k e where k: "GetNativeAppAlgorithmCase NATIVE_APP_ALGORITHM_CUSTOM 0 (Some zero_config) (Some ?p) (Some ?q) zero_case = (k, e)"
    by fastforce
  have "case_holds 1 ''CUSTOM-0001'' ?p ?q (k, e)" unfolding k [symmetric] by (rule custom_case) (simp_all add: cstr_def)
  then have h: "e = IPSEC_OK" "ac_uiNumber k = 1" "cstr (ac_acId k) = ''CUSTOM-0001''" "cstr (ac_acIkeProposal k) = ?p"
    "cstr (ac_acEspProposal k) = ?q" by (unfold case_holds_def fst_conv snd_conv) blast+
  let ?w = "zero_server\<lparr>sv_acRunId := ''custom_1''\<rparr>"
  have run: "IsNativeAppAlgorithmRunIdValid ''custom_1''"
    by (simp add: IsNativeAppAlgorithmRunIdValid_def strnlen_min strlen_def cstr_def run_id_char_def isalpha_def isdigit_def)
  have fields: "field_text (cstr (ac_acId k))" "field_text (cstr (ac_acIkeProposal k))" "field_text (cstr (ac_acEspProposal k))"
    unfolding h(3-5) by (simp_all add: field_text_def)
  have w: "sv_acRunId ?w ! 0 \<noteq> NUL" "strcmp_eq (sv_acRunId ?w) ''custom_1''" by (simp_all add: strcmp_eq_def)
  have n: "0 < ac_uiNumber k" "(0::nat) < 1" "1 \<le> UINT32_MAX" using h(2) by simp_all
  show ?thesis
    using prepared_case_agrees [OF k [unfolded h(1)] n(1) fields run n(2,3) w, of "\<lambda>_. True" zero_config
        "endpoint_of SockOther" "endpoint_of SockOther" clock_sweep] k h(1) by blast
qed

end
