(* ===== verification/Ownership.thy ===== *)
theory Ownership
  imports XfrmQueries RouteQueries ViciSa AppConfig
begin

section \<open>What is given back to the allocator\<close>

text \<open>
  Everywhere else a list of the library is the list of its items.  Here it is what the caller of the
  library owns: a pointer to a block and a count.  The functions that free a list, and the one that
  destroys the secret of the application, against an allocator that knows its blocks.
\<close>

record Heap =
  hp_live :: "nat list"
  hp_contents :: "nat \<Rightarrow> bytes"
  hp_invalid :: bool

text \<open>\<open>free\<close> does nothing for NULL; a block that is not live must not be freed.\<close>

definition sys_free :: "nat option \<Rightarrow> Heap \<Rightarrow> Heap" where
  "sys_free p h =
     (case p of
        None \<Rightarrow> h
      | Some b \<Rightarrow>
          if b \<in> set (hp_live h) then h\<lparr>hp_live := removeAll b (hp_live h)\<rparr> else h\<lparr>hp_invalid := True\<rparr>)"

record 'a IpsecArray =
  ar_pItems :: "(nat \<times> 'a list) option"
  ar_uiCount :: nat

type_synonym IpsecConnectionList = "IpsecConnectionInfo IpsecArray"
type_synonym IpsecIkeSaList = "IpsecIkeSaInfo IpsecArray"
type_synonym IpsecChildSaList = "IpsecChildSaInfo IpsecArray"
type_synonym IpsecAlgorithmList = "IpsecAlgorithmInfo IpsecArray"
type_synonym IpsecXfrmStateList = "IpsecXfrmStateInfo IpsecArray"
type_synonym IpsecXfrmPolicyList = "IpsecXfrmPolicyInfo IpsecArray"
type_synonym IpsecInterfaceList = "IpsecInterfaceInfo IpsecArray"
type_synonym IpsecAddressList = "IpsecAddressInfo IpsecArray"
type_synonym IpsecRouteList = "IpsecRouteInfo IpsecArray"

definition zero_array :: "'a IpsecArray" where
  "zero_array = \<lparr>ar_pItems = None, ar_uiCount = 0\<rparr>"

text \<open>The nine functions have the same body.\<close>

definition free_array :: "'a IpsecArray option \<Rightarrow> Heap \<Rightarrow> 'a IpsecArray option \<times> Heap" where
  "free_array pList h =
     (case pList of
        None \<Rightarrow> (None, h)
      | Some l \<Rightarrow> (Some zero_array, sys_free (map_option fst (ar_pItems l)) h))"

definition FreeIpsecConnectionList :: "IpsecConnectionList option \<Rightarrow> Heap \<Rightarrow> IpsecConnectionList option \<times> Heap" where
  "FreeIpsecConnectionList pList h = free_array pList h"

definition FreeIpsecIkeSaList :: "IpsecIkeSaList option \<Rightarrow> Heap \<Rightarrow> IpsecIkeSaList option \<times> Heap" where
  "FreeIpsecIkeSaList pList h = free_array pList h"

definition FreeIpsecChildSaList :: "IpsecChildSaList option \<Rightarrow> Heap \<Rightarrow> IpsecChildSaList option \<times> Heap" where
  "FreeIpsecChildSaList pList h = free_array pList h"

definition FreeIpsecAlgorithmList :: "IpsecAlgorithmList option \<Rightarrow> Heap \<Rightarrow> IpsecAlgorithmList option \<times> Heap" where
  "FreeIpsecAlgorithmList pList h = free_array pList h"

definition FreeIpsecXfrmStateList :: "IpsecXfrmStateList option \<Rightarrow> Heap \<Rightarrow> IpsecXfrmStateList option \<times> Heap" where
  "FreeIpsecXfrmStateList pList h = free_array pList h"

definition FreeIpsecXfrmPolicyList :: "IpsecXfrmPolicyList option \<Rightarrow> Heap \<Rightarrow> IpsecXfrmPolicyList option \<times> Heap" where
  "FreeIpsecXfrmPolicyList pList h = free_array pList h"

definition FreeIpsecInterfaceList :: "IpsecInterfaceList option \<Rightarrow> Heap \<Rightarrow> IpsecInterfaceList option \<times> Heap" where
  "FreeIpsecInterfaceList pList h = free_array pList h"

definition FreeIpsecAddressList :: "IpsecAddressList option \<Rightarrow> Heap \<Rightarrow> IpsecAddressList option \<times> Heap" where
  "FreeIpsecAddressList pList h = free_array pList h"

definition FreeIpsecRouteList :: "IpsecRouteList option \<Rightarrow> Heap \<Rightarrow> IpsecRouteList option \<times> Heap" where
  "FreeIpsecRouteList pList h = free_array pList h"

lemmas free_list_defs = FreeIpsecConnectionList_def FreeIpsecIkeSaList_def FreeIpsecChildSaList_def
  FreeIpsecAlgorithmList_def FreeIpsecXfrmStateList_def FreeIpsecXfrmPolicyList_def FreeIpsecInterfaceList_def
  FreeIpsecAddressList_def FreeIpsecRouteList_def

subsection \<open>The contract of a release\<close>

text \<open>What owns a block may be released any number of times: the block is freed once, nothing else is, and
  no block is freed that is not live.\<close>

locale release =
  fixes free :: "'s \<Rightarrow> Heap \<Rightarrow> 's \<times> Heap"
    and block :: "'s \<Rightarrow> nat option"
  assumes freed: "free s h = (s', h') \<Longrightarrow> block s' = None \<and> hp_invalid h' = hp_invalid (sys_free (block s) h) \<and>
      hp_live h' = hp_live (sys_free (block s) h)"
begin

definition owns :: "'s \<Rightarrow> Heap \<Rightarrow> bool" where
  "owns s h \<longleftrightarrow> (case block s of None \<Rightarrow> True | Some b \<Rightarrow> b \<in> set (hp_live h))"

lemma release_live:
  assumes "free s h = (s', h')" and "owns s h"
  shows "owns s' h'" and "hp_invalid h' = hp_invalid h"
    and "set (hp_live h') = set (hp_live h) - set_option (block s)"
  using freed [OF assms(1)] assms(2)
  by (auto simp: owns_def sys_free_def split: option.splits if_splits)

lemma release_again:
  assumes "free s h = (s1, h1)" and "free s1 h1 = (s2, h2)" and "owns s h"
  shows "hp_invalid h2 = hp_invalid h \<and> hp_live h2 = hp_live h1"
  using freed [OF assms(1)] freed [OF assms(2)] release_live(2) [OF assms(1,3)] by (simp add: sys_free_def)

end

definition array_block :: "'a IpsecArray option \<Rightarrow> nat option" where
  "array_block pList = (case pList of None \<Rightarrow> None | Some l \<Rightarrow> map_option fst (ar_pItems l))"

interpretation arrays: release free_array array_block
  by unfold_locales (auto simp: free_array_def array_block_def zero_array_def sys_free_def split: option.splits)

subsection \<open>The secret\<close>

record NativeAppSecret =
  se_pucData :: "nat option"
  se_uiLength :: nat

text \<open>The block has room for the longest secret and one byte more; all of it is overwritten.\<close>

primrec wipe_loop :: "nat \<Rightarrow> bytes \<Rightarrow> bytes" where
  "wipe_loop 0 bs = bs"
| "wipe_loop (Suc n) bs = (wipe_loop n bs)[n := NUL]"

definition DestroyNativeAppSecret :: "NativeAppSecret option \<Rightarrow> Heap \<Rightarrow> NativeAppSecret option \<times> Heap" where
  "DestroyNativeAppSecret pSecret h =
     (case pSecret of
        None \<Rightarrow> (None, h)
      | Some s \<Rightarrow>
          (case se_pucData s of
             None \<Rightarrow> (Some s, h)
           | Some b \<Rightarrow>
               let h = h\<lparr>hp_contents := (hp_contents h)(b := wipe_loop (NATIVE_APP_PSK_MAX_LENGTH + 1) (hp_contents h b))\<rparr>
               in (Some (s\<lparr>se_pucData := None, se_uiLength := 0\<rparr>), sys_free (Some b) h)))"

definition secret_block :: "NativeAppSecret option \<Rightarrow> nat option" where
  "secret_block pSecret = (case pSecret of None \<Rightarrow> None | Some s \<Rightarrow> se_pucData s)"

interpretation secrets: release DestroyNativeAppSecret secret_block
  by unfold_locales (auto simp: DestroyNativeAppSecret_def secret_block_def sys_free_def Let_def split: option.splits)

lemma length_wipe [simp]: "length (wipe_loop n bs) = length bs"
  by (induction n) simp_all

lemma wipe_nth: "n \<le> length bs \<Longrightarrow> i < n \<Longrightarrow> wipe_loop n bs ! i = NUL"
  by (induction n) (auto simp: nth_list_update less_Suc_eq)

lemma wipe_all: "length bs \<le> n \<Longrightarrow> wipe_loop n bs = replicate (length bs) NUL"
proof (induction n)
  case (Suc n)
  show ?case
  proof (cases "length bs \<le> n")
    case False
    then have "length bs = Suc n" using Suc.prems by simp
    then show ?thesis using wipe_nth [of "Suc n" bs] by (intro nth_equalityI) (simp_all del: wipe_loop.simps replicate_Suc)
  next
    case True
    then show ?thesis using Suc.IH by (simp add: list_update_beyond)
  qed
qed simp

subsection \<open>Properties\<close>

text \<open>A list may be freed any number of times, by whichever of the functions: its block is freed once, the list is
  empty afterwards, and no block that is not live is freed.  Stated of the list of connections.\<close>

theorem FreeIpsecConnectionList_once:
  assumes "FreeIpsecConnectionList pList h = (l1, h1)" and "FreeIpsecConnectionList l1 h1 = (l2, h2)"
    and "\<forall>b. array_block pList = Some b \<longrightarrow> b \<in> set (hp_live h)"
  shows "array_block l1 = None \<and> set (hp_live h1) = set (hp_live h) - set_option (array_block pList) \<and>
    l2 = l1 \<and> hp_live h2 = hp_live h1 \<and> hp_invalid h2 = hp_invalid h"
proof -
  have o: "arrays.owns pList h" using assms(3) by (auto simp: arrays.owns_def split: option.split)
  note f = assms(1,2) [unfolded free_list_defs]
  have "l2 = l1" using f by (auto simp: free_array_def split: option.splits)
  then show ?thesis
    using arrays.freed [OF f(1)] arrays.release_live [OF f(1) o] arrays.release_again [OF f o] by blast
qed

text \<open>When the secret is destroyed its block has no byte of it left at the moment it is freed, and destroying
  it again changes nothing.\<close>

theorem DestroyNativeAppSecret_wipes:
  assumes "se_pucData s = Some b" and "b \<in> set (hp_live h)" and "length (hp_contents h b) = NATIVE_APP_PSK_MAX_LENGTH + 1"
    and "DestroyNativeAppSecret (Some s) h = (s', h')"
  shows "hp_contents h' b = replicate (NATIVE_APP_PSK_MAX_LENGTH + 1) NUL \<and> b \<notin> set (hp_live h') \<and>
    hp_invalid h' = hp_invalid h \<and> DestroyNativeAppSecret s' h' = (s', h')"
  using assms wipe_all [of "hp_contents h b" "NATIVE_APP_PSK_MAX_LENGTH + 1"]
  by (auto simp: DestroyNativeAppSecret_def sys_free_def Let_def simp del: wipe_loop.simps)

end
