(* ===== verification/Spec2Isabelle.thy ===== *)
theory Spec2Isabelle
  imports LinkProps XfrmStats XfrmPolicyProps IpsecCore IpsecPsk AppConfigProps AppCatalog AppPeerProps
    AppCliProps AppRunnerProps AppAgreement Ownership
begin

text \<open>
  \<^bold>\<open>A model of libipsec.\<close>

  libipsec (\<open>src/libipsec\<close>) is a C library that controls the strongSwan daemon charon over its
  VICI socket, with an interactive application on top.  This development models the library
  and proves what its parts promise each other.  All names are those of the source.

  \<^bold>\<open>Conventions.\<close>  An operation that changes a state \<open>'s\<close> returns \<open>'s outcome\<close>, the new state
  with an \<open>IpsecError\<close>; a pure parser returns \<open>IpsecError + 'a\<close>.  A pointer that may be NULL is an
  option, a pointer with a length is \<open>bytes option\<close>, an array of \<open>char\<close> is a list of its full
  size (\<open>cbuf\<close>) with the C string functions defined on it, and the unsigned types are \<open>nat\<close>
  with \<open>u32\<close>, \<open>u64\<close>, \<open>u32_sub\<close> and \<open>u64_sub\<close> where the code could wrap.  A chain of
  \<open>if (IPSEC_OK == eError)\<close> is \<open>and_then\<close> or \<open>run_steps\<close>.  The sizes of structures are those
  of LP64 Linux.  Whether \<open>malloc\<close> or \<open>realloc\<close> succeeds is a predicate \<open>mem\<close> on the
  requested size, so every lemma holds for every behaviour of the allocator.

  \<^bold>\<open>Theories.\<close>
  \<^item> \<open>Prelude\<close>: machine integers, C strings, \<open>strtoull\<close>, decimal text, buffers.
  \<^item> \<open>Errors\<close> (\<open>core/error.c\<close>): error codes and texts, sequencing of outcomes.
  \<^item> \<open>Util\<close> (\<open>core/util.c\<close>): bounded copies, number and duration parsing, array sizes.
  \<^item> \<open>ViciPacket\<close> (\<open>vici/vici_packet.c\<close>): the growing buffer, the element writers, the packet
    builder and decoder.  \<open>emits\<close> is the contract of a writer.
  \<^item> \<open>ViciParser\<close> (\<open>vici/vici_parser.c\<close>): the message parser against a step relation of legal
    element sequences; documents; the locales \<open>element_callback\<close> and \<open>tracking_callback\<close>
    that the collectors interpret.
  \<^item> \<open>Environment\<close>: the context structure, the operating system as a list of outcomes of
    calls, logging, clock and sleeping.
  \<^item> \<open>ViciTransport\<close> (\<open>vici/vici_transport.c\<close>): connect, send and receive with deadlines.
  \<^item> \<open>ViciClient\<close> (\<open>vici/vici_client.c\<close>): commands with event registration.
  \<^item> \<open>ViciConnection\<close> and \<open>ViciLists\<close> (\<open>vici/vici_connection.c\<close>, \<open>vici_algorithm.c\<close>,
    \<open>vici_stats.c\<close>): validation and the \<open>load-conn\<close> message; the collectors.
  \<^item> \<open>ViciProgress\<close>, \<open>ViciSa\<close> (\<open>vici/vici_sa.c\<close>): why waits end; control commands, the SA
    collector, queries and waits.
  \<^item> \<open>ViciCredential\<close> (\<open>vici/vici_credential.c\<close>): pre-shared keys.
  \<^item> \<open>Netlink\<close> (\<open>core/netlink.c\<close>): dump requests and their answers, attributes; what a dump
    delivers for what the kernel sends.  \<open>NetlinkRows\<close>: queries that collect one row per message.
  \<^item> \<open>XfrmQueries\<close>, \<open>XfrmPolicyProps\<close> (\<open>xfrm/xfrm_state.c\<close>, \<open>xfrm_policy.c\<close>): security
    associations and policies of the kernel, with their encodings and the round trips.
  \<^item> \<open>XfrmStats\<close> (\<open>xfrm/xfrm_stats.c\<close>): the statistics file, read and parsed, against the text the
    kernel prints.
  \<^item> \<open>RouteQueries\<close>, \<open>RouteProps\<close>, \<open>LinkProps\<close> (\<open>route/address.c\<close>, \<open>interface.c\<close>, \<open>route.c\<close>):
    addresses, interfaces and routes of the kernel, with their encodings and the round trips.
  \<^item> \<open>Inet\<close>: \<open>inet_pton\<close> and \<open>inet_ntop\<close> of the C library.
  \<^item> \<open>AppCommand\<close> (\<open>app/command.c\<close>): the command line split in place, against a splitter on
    strings.
  \<^item> \<open>AppConfig\<close> and \<open>AppConfigProps\<close> (\<open>app/config.c\<close>): settings files, validation, the
    connection built from a configuration and when the library accepts it.
  \<^item> \<open>IpsecCore\<close> (\<open>core/ipsec.c\<close>): start and shutdown of the library, with the default sockets;
    what a failed start releases.
  \<^item> \<open>IpsecPsk\<close> (\<open>core/psk.c\<close>): the key file, with its own world of file calls: random bytes,
    exclusive creation, and removal after a failure.
  \<^item> \<open>AppCatalog\<close> (\<open>app/algorithm_catalog.c\<close>): the cases of the algorithm test, as the product of
    the tables.
  \<^item> \<open>AppPeer\<close> and \<open>AppPeerProps\<close> (\<open>app/peer.c\<close>): registration of responders with an initiator
    over TCP, with its own world of socket calls; the table of
    peers as an invariant, the agreement of the two sides, the listener thread.
  \<^item> \<open>AppLifecycle\<close> (\<open>app/lifecycle.c\<close>): the state of the application (the library, its output, its stop
    flag, its files); loading, starting and stopping a connection, the wait for its end, and the
    loop command with the truth of its report.
  \<^item> \<open>AppText\<close> (the conversions of \<open>printf\<close>) and \<open>AppShow\<close> (\<open>app/show.c\<close>): the texts of the
    sections of the show command and the command, which prints each section of a scope once.
  \<^item> \<open>AppIdle\<close>: every operation of the library that the application uses leaves the library idle.
  \<^item> \<open>AppReport\<close> (\<open>app/algorithm_report.c\<close>): the world of a sweep (the application, its files, its
    socket, its clock and the outcomes of their calls); the directories and texts of the reports.
  \<^item> \<open>AppJson\<close> (\<open>app/algorithm_runner.c\<close>): the result file with its writer, against a reader of JSON; the
    locale \<open>result_record\<close> for appending results.
  \<^item> \<open>AppRunner\<close> (\<open>app/algorithm_runner.c\<close>): both sides of a sweep: the messages, the checks on what the
    daemon and the kernel have, the cleanup, the cases and the runs.  \<open>AppRunnerIdle\<close>: a sweep leaves the
    library idle and no file or socket open.  \<open>AppRunnerProps\<close>: what a verdict means, for a query, a
    cleanup, a case and a whole sweep.  \<open>AppAgreement\<close>: the two sides test the same case.
  \<^item> \<open>Ownership\<close> (the \<open>Free\<close> functions of the library, \<open>DestroyNativeAppSecret\<close>): what is given back to the
    allocator, with the locale \<open>release\<close>: a block is freed once, a secret is wiped before.
  \<^item> \<open>AppCli\<close> (\<open>app/cli.c\<close>, \<open>app/main.c\<close>): the session and its commands, startup options, the prompt
    with the listener thread between its lines, start and end of the program.  \<open>AppSession\<close>: the
    invariant of a session and its commands.  \<open>AppCliProps\<close>: the prompt, and what is left when the
    program ends.

  \<^bold>\<open>Bounds.\<close>  No fuel is used: a loop over bytes or list items decreases them, and a loop
  over system calls consumes an outcome of the environment in every round, because each round
  makes a call that may fail.  Three loops may run forever and are partial functions: the loop command, which does not end for a
  count of \<open>UINT32_MAX\<close> and is proved to return for every smaller one, and the two loops of the
  responder of a sweep, which serves until it is stopped or its peer is finished; the inner one does
  not return when its socket fails for good (\<open>server_case_hangs\<close>).

  \<^bold>\<open>Not modelled.\<close>  Where the lists and the secret are values, the calls that free them (what these
  calls do is modelled on its own), wiping buffers on the stack, the formatting of log messages beyond
  the text given to the callback, and the default branches of switches for values
  outside their enumeration.  That two threads interleave is modelled only where the code lets it: the
  listener runs between the lines of the prompt.
\<close>

end
